(* ===== verification/Prelude.thy ===== *)
theory Prelude
  imports Complex_Main "HOL-Library.Word" "HOL-Library.Char_ord" "HOL-Library.List_Lexorder"
begin

text \<open>
  Shared vocabulary of the development: byte strings, the exceptions of the source as values,
  and the operations of the Python language and standard library that every module uses
  (\<open>bytes.hex\<close>, \<open>bytes.fromhex\<close>, \<open>int.to_bytes\<close>, \<open>int.from_bytes\<close>, slices, \<open>str(int)\<close>,
  \<open>str.encode\<close>), with the generic lemmas the component proofs share.

  A \<open>bytes\<close> object is a list of 8-bit words, a \<open>str\<close> is a list of characters (code points
  0 to 255; wider code points are outside the model), an \<open>int\<close> is unbounded. An operation
  that can raise returns \<open>exn + 'a\<close>, with the exception on the left.
\<close>

unbundle bit_operations_syntax

type_synonym byte = "8 word"
type_synonym bytes = "byte list"

named_theorems len_simps \<open>lengths of digests, links and encodings\<close>
named_theorems py_simps \<open>evaluation of the Python primitives\<close>

section \<open>Exceptions as values\<close>

datatype exn =
    ValueError string
  | IndexError string
  | KeyError string
  | TypeError string
  | AttributeError string
  | OverflowError string
  | ZeroDivisionError string
  | ConnectionError string
  | OSError string
  | RuntimeError string
  | AssertionError string
  | LibError string \<comment> \<open>raised by code outside the repository, with its \<open>str()\<close>\<close>

type_synonym 'a py = "exn + 'a"

fun exn_str :: "exn \<Rightarrow> string" where
  "exn_str (ValueError s) = s"
| "exn_str (IndexError s) = s"
| "exn_str (KeyError s) = s"
| "exn_str (TypeError s) = s"
| "exn_str (AttributeError s) = s"
| "exn_str (OverflowError s) = s"
| "exn_str (ConnectionError s) = s"
| "exn_str (OSError s) = s"
| "exn_str (RuntimeError s) = s"
| "exn_str (AssertionError s) = s"
| "exn_str (ZeroDivisionError s) = s"
| "exn_str (LibError s) = s"

text \<open>Sequencing: the rest of a computation runs only when nothing was raised.\<close>

fun py_bind :: "'a py \<Rightarrow> ('a \<Rightarrow> 'b py) \<Rightarrow> 'b py" where
  "py_bind (Inl e) f = Inl e"
| "py_bind (Inr x) f = f x"

lemma py_bind_Inr_iff: "py_bind m f = Inr y \<longleftrightarrow> (\<exists>x. m = Inr x \<and> f x = Inr y)"
  by (cases m) auto

text \<open>Whether \<open>try: m ... except Exception\<close> reaches the end of \<open>m\<close>.\<close>

fun py_ok :: "'a py \<Rightarrow> bool" where
  "py_ok (Inl e) = False"
| "py_ok (Inr x) = True"

lemma py_ok_iff: "py_ok m \<longleftrightarrow> (\<exists>x. m = Inr x)"
  by (cases m) auto

fun py_map :: "('a \<Rightarrow> 'b py) \<Rightarrow> 'a list \<Rightarrow> 'b list py" where
  "py_map f [] = Inr []"
| "py_map f (x # xs) = py_bind (f x) (\<lambda>y. py_bind (py_map f xs) (\<lambda>ys. Inr (y # ys)))"

lemma py_map_Inr: "(\<And>x. x \<in> set xs \<Longrightarrow> f x = Inr (g x)) \<Longrightarrow> py_map f xs = Inr (map g xs)"
  by (induction xs) auto

text \<open>\<open>for x in xs\<close>, over a state.\<close>

fun py_fold :: "('a \<Rightarrow> 's \<Rightarrow> 's py) \<Rightarrow> 'a list \<Rightarrow> 's \<Rightarrow> 's py" where
  "py_fold f [] s = Inr s"
| "py_fold f (x # xs) s = py_bind (f x s) (py_fold f xs)"

lemma py_fold_append: "py_fold f (xs @ ys) s = py_bind (py_fold f xs s) (py_fold f ys)"
proof (induction xs arbitrary: s)
  case (Cons x xs)
  then show ?case by (cases "f x s") simp_all
qed simp

text \<open>An invariant that counts the rounds.\<close>

lemma py_fold_upto:
  assumes "P 0 s" and "\<And>k s. k < n \<Longrightarrow> P k s \<Longrightarrow> \<exists>s'. f k s = Inr s' \<and> P (Suc k) s'"
  shows "\<exists>s'. py_fold f [0..<n] s = Inr s' \<and> P n s'"
  using assms
proof (induction n)
  case (Suc n)
  then obtain s1 where "py_fold f [0..<n] s = Inr s1" "P n s1" by fastforce
  moreover obtain s2 where "f n s1 = Inr s2" "P (Suc n) s2" using Suc.prems(2) [of n s1] calculation by auto
  ultimately show ?case by (simp add: py_fold_append)
qed simp

section \<open>Slices and truth\<close>

text \<open>\<open>xs[i:j]\<close> for non-negative bounds, \<open>xs[-n:]\<close> for positive \<open>n\<close>, and \<open>any(xs)\<close>.\<close>

definition slice :: "nat \<Rightarrow> nat \<Rightarrow> 'a list \<Rightarrow> 'a list" where
  "slice i j xs = take (j - i) (drop i xs)"

definition last_n :: "nat \<Rightarrow> 'a list \<Rightarrow> 'a list" where
  "last_n n xs = drop (length xs - n) xs"

definition any_set :: "bytes \<Rightarrow> bool" where
  "any_set b \<longleftrightarrow> list_ex (\<lambda>x. x \<noteq> 0) b"

text \<open>\<open>s.endswith(w)\<close>.\<close>

definition ends_with :: "string \<Rightarrow> string \<Rightarrow> bool" where
  "ends_with s w \<longleftrightarrow> length w \<le> length s \<and> drop (length s - length w) s = w"

definition zeros :: "nat \<Rightarrow> bytes" where
  "zeros n = replicate n 0"

lemma length_slice [len_simps]: "length (slice i j xs) = min (length xs - i) (j - i)"
  by (simp add: slice_def min.commute)

lemma length_last_n [len_simps]: "length (last_n n xs) = min n (length xs)"
  by (simp add: last_n_def)

lemma set_last_n: "set (last_n n xs) \<subseteq> set xs"
  by (simp add: last_n_def set_drop_subset)

lemma last_n_all: "length xs \<le> n \<Longrightarrow> last_n n xs = xs"
  by (simp add: last_n_def)

lemma last_n_snoc: "0 < n \<Longrightarrow> last_n n (xs @ [x]) = last_n (n - 1) xs @ [x]"
  by (cases n) (simp_all add: last_n_def)

lemma in_last_n_snoc: "0 < n \<Longrightarrow> x \<in> set (last_n n (xs @ [x]))"
  by (simp add: last_n_snoc)

lemma length_zeros [len_simps]: "length (zeros n) = n"
  by (simp add: zeros_def)

lemma any_set_zeros [simp]: "\<not> any_set (zeros n)"
  by (simp add: any_set_def zeros_def list_ex_iff)

lemma any_set_nonempty: "any_set b \<Longrightarrow> b \<noteq> []"
  by (auto simp: any_set_def)

lemma not_any_set_iff: "\<not> any_set b \<longleftrightarrow> b = zeros (length b)"
  by (induction b) (auto simp: any_set_def zeros_def)

text \<open>Two splits of one list at the same place are the same split, from either end.\<close>

lemma append_eq_same_left: "xs @ ys = xs' @ ys' \<Longrightarrow> length xs = length xs' \<Longrightarrow> xs = xs' \<and> ys = ys'"
  by simp

lemma append_eq_same_right: "xs @ ys = xs' @ ys' \<Longrightarrow> length ys = length ys' \<Longrightarrow> xs = xs' \<and> ys = ys'"
  by simp

section \<open>Hexadecimal\<close>

definition hex_digit :: "nat \<Rightarrow> char" where
  "hex_digit n = ''0123456789abcdef'' ! n"

definition hex_byte :: "byte \<Rightarrow> string" where
  "hex_byte x = [hex_digit (unat x div 16), hex_digit (unat x mod 16)]"

text \<open>\<open>b.hex()\<close>.\<close>

definition hex :: "bytes \<Rightarrow> string" where
  "hex b = concat (map hex_byte b)"

definition digit_val :: "char \<Rightarrow> nat option" where
  "digit_val c = (let n = of_char c :: nat in
     if 48 \<le> n \<and> n \<le> 57 then Some (n - 48)
     else if 97 \<le> n \<and> n \<le> 102 then Some (n - 87)
     else if 65 \<le> n \<and> n \<le> 70 then Some (n - 55)
     else None)"

definition is_space :: "char \<Rightarrow> bool" where
  "is_space c \<longleftrightarrow> (let n = of_char c :: nat in n = 32 \<or> 9 \<le> n \<and> n \<le> 13)"

fun fromhex_opt :: "string \<Rightarrow> bytes option" where
  "fromhex_opt [] = Some []"
| "fromhex_opt (c # cs) =
     (if is_space c then fromhex_opt cs
      else case cs of [] \<Rightarrow> None
      | d # ds \<Rightarrow>
          (case digit_val c of None \<Rightarrow> None
           | Some h \<Rightarrow>
             (case digit_val d of None \<Rightarrow> None
              | Some l \<Rightarrow> map_option (\<lambda>r. of_nat (16 * h + l) # r) (fromhex_opt ds))))"

text \<open>
  \<open>bytes.fromhex(s)\<close> skips ASCII white space between bytes, takes digits of either case and
  raises \<open>ValueError\<close> otherwise (the position Python puts in the message is left out).
\<close>

definition fromhex :: "string \<Rightarrow> bytes py" where
  "fromhex s = (case fromhex_opt s of
     None \<Rightarrow> Inl (ValueError ''non-hexadecimal number found in fromhex() arg'')
   | Some b \<Rightarrow> Inr b)"

lemma nat_lt_16_cases: "(n::nat) < 16 \<Longrightarrow> n \<in> {0, 1, 2, 3, 4, 5, 6, 7, 8, 9, 10, 11, 12, 13, 14, 15}"
  by (simp, presburger)

lemma digit_val_hex_digit [simp]: "n < 16 \<Longrightarrow> digit_val (hex_digit n) = Some n"
  by (drule nat_lt_16_cases) (auto simp: digit_val_def hex_digit_def)

lemma hex_digit_not_space [simp]: "n < 16 \<Longrightarrow> \<not> is_space (hex_digit n)"
  by (drule nat_lt_16_cases) (auto simp: is_space_def hex_digit_def)

lemma unat_byte_lt: "unat (x :: byte) < 256"
  using unsigned_less [of x, where 'a = nat] by simp

lemma unat_byte_div [simp]: "unat (x :: byte) div 16 < 16"
  using unat_byte_lt [of x] by simp

lemma fromhex_opt_hex_append [simp]: "fromhex_opt (hex b @ s) = map_option ((@) b) (fromhex_opt s)"
  by (induction b) (simp_all add: hex_def hex_byte_def option.map_comp comp_def option.map_ident)

lemma fromhex_hex [simp]: "fromhex (hex b) = Inr b"
  using fromhex_opt_hex_append [of b "[]"] by (simp add: fromhex_def)

lemma hex_inj [simp]: "hex a = hex b \<longleftrightarrow> a = b"
  by (metis fromhex_hex sum.inject(2))

lemma hex_Nil [simp]: "hex [] = []"
  by (simp add: hex_def)

lemma length_hex [len_simps]: "length (hex b) = 2 * length b"
  by (induction b) (simp_all add: hex_def hex_byte_def)

lemma hex_eq_Nil [simp]: "hex b = [] \<longleftrightarrow> b = []"
  using length_hex [of b] by auto

definition hex_chars :: string where
  "hex_chars = ''0123456789abcdef''"

lemma hex_digit_in: "n < 16 \<Longrightarrow> hex_digit n \<in> set hex_chars"
  by (drule nat_lt_16_cases) (auto simp: hex_digit_def hex_chars_def)

lemma set_hex: "set (hex b) \<subseteq> set hex_chars"
  by (induction b) (auto simp: hex_def hex_byte_def hex_digit_in)

lemma py_map_fromhex_hex [simp]: "py_map fromhex (map hex bs) = Inr bs"
  by (induction bs) auto

section \<open>Integers and bytes\<close>

fun le_bytes :: "nat \<Rightarrow> int \<Rightarrow> bytes" where
  "le_bytes 0 n = []"
| "le_bytes (Suc k) n = word_of_int (n mod 256) # le_bytes k (n div 256)"

definition be_bytes :: "nat \<Rightarrow> int \<Rightarrow> bytes" where
  "be_bytes k n = rev (le_bytes k n)"

text \<open>\<open>n.to_bytes(k, "big")\<close>.\<close>

definition to_bytes :: "nat \<Rightarrow> int \<Rightarrow> bytes py" where
  "to_bytes k n =
     (if n < 0 then Inl (OverflowError (''can'' @ CHR 0x27 # ''t convert negative int to unsigned''))
      else if 256 ^ k \<le> n then Inl (OverflowError ''int too big to convert'')
      else Inr (be_bytes k n))"

text \<open>\<open>bytes([n])\<close> for a non-negative \<open>n\<close>.\<close>

definition one_byte :: "nat \<Rightarrow> bytes py" where
  "one_byte n = (if n < 256 then Inr [of_nat n] else Inl (ValueError ''bytes must be in range(0, 256)''))"

fun from_le :: "bytes \<Rightarrow> int" where
  "from_le [] = 0"
| "from_le (b # bs) = uint b + 256 * from_le bs"

definition from_be :: "bytes \<Rightarrow> int" where
  "from_be bs = from_le (rev bs)"

lemma length_le_bytes [len_simps]: "length (le_bytes k n) = k"
  by (induction k n rule: le_bytes.induct) auto

lemma length_be_bytes [len_simps]: "length (be_bytes k n) = k"
  by (simp add: be_bytes_def len_simps)

lemma from_le_le_bytes: "from_le (le_bytes k n) = n mod 256 ^ k"
proof (induction k n rule: le_bytes.induct)
  case (2 k n)
  have "n mod (256 * 256 ^ k) = 256 * (n div 256 mod 256 ^ k) + n mod 256"
    by (rule zmod_zmult2_eq) simp
  with 2 show ?case by (simp add: uint_word_of_int take_bit_eq_mod)
qed simp

lemma from_be_be_bytes: "from_be (be_bytes k n) = n mod 256 ^ k"
  by (simp add: from_be_def be_bytes_def from_le_le_bytes)

lemma to_bytes_Inr_iff: "to_bytes k n = Inr b \<longleftrightarrow> 0 \<le> n \<and> n < 256 ^ k \<and> b = be_bytes k n"
  by (auto simp: to_bytes_def)

lemma length_to_bytes: "to_bytes k n = Inr b \<Longrightarrow> length b = k"
  by (auto simp: to_bytes_Inr_iff len_simps)

lemma to_bytes_inj: "to_bytes k n = Inr b \<Longrightarrow> to_bytes k n' = Inr b \<Longrightarrow> n = n'"
  by (metis from_be_be_bytes mod_pos_pos_trivial to_bytes_Inr_iff)

lemma from_be_to_bytes: "to_bytes k n = Inr b \<Longrightarrow> from_be b = n"
  by (auto simp: to_bytes_Inr_iff from_be_be_bytes)

lemma from_le_nonneg: "0 \<le> from_le bs"
  by (induction bs) auto

lemma from_le_bound: "from_le bs < 256 ^ length bs"
proof (induction bs)
  case (Cons b bs)
  have "uint b < 256" using unsigned_less [of b, where 'a = int] by simp
  with Cons show ?case by simp
qed simp

section \<open>Decimal numerals and text encoding\<close>

definition dec_digit :: "int \<Rightarrow> char" where
  "dec_digit n = ''0123456789'' ! nat n"

function dec_nat :: "int \<Rightarrow> string" where
  "dec_nat n = (if n < 10 then [dec_digit n] else dec_nat (n div 10) @ [dec_digit (n mod 10)])"
  by pat_completeness auto
termination by (relation "measure nat") auto

declare dec_nat.simps [simp del]

text \<open>\<open>str(n)\<close>.\<close>

definition dec_int :: "int \<Rightarrow> string" where
  "dec_int n = (if n < 0 then CHR ''-'' # dec_nat (- n) else dec_nat n)"

text \<open>\<open>s.encode()\<close>, UTF-8, for code points below 256.\<close>

definition utf8_char :: "char \<Rightarrow> bytes" where
  "utf8_char c = (let n = of_char c :: nat in
     if n < 128 then [of_nat n] else [of_nat (192 + n div 64), of_nat (128 + n mod 64)])"

definition encode :: "string \<Rightarrow> bytes" where
  "encode s = concat (map utf8_char s)"

definition ascii_char :: "char \<Rightarrow> bool" where
  "ascii_char c \<longleftrightarrow> (of_char c :: nat) < 128"

text \<open>The bytes of an ASCII literal \<open>b"..."\<close>.\<close>

definition lit :: "string \<Rightarrow> bytes" where
  "lit s = map (\<lambda>c. of_nat (of_char c)) s"

lemma length_lit [len_simps]: "length (lit s) = length s"
  by (simp add: lit_def)

lemma utf8_char_ascii: "ascii_char c \<Longrightarrow> utf8_char c = [of_nat (of_char c)]"
  by (simp add: utf8_char_def ascii_char_def Let_def)

lemma encode_ascii: "list_all ascii_char s \<Longrightarrow> encode s = lit s"
  by (induction s) (simp_all add: encode_def lit_def utf8_char_ascii)

end
