(* ===== verification/Sha2.thy ===== *)
theory Sha2
  imports Prelude
begin

text \<open>
  The part of Python's \<open>hashlib\<close> and \<open>hmac\<close> that the source uses: SHA-256, SHA-384 and
  SHA-512 (FIPS 180-4) on byte strings, and HMAC (RFC 2104) over any of them. They are written
  once, over a word size, and are executable; the facts the development uses are the digest
  lengths, proved below, and nothing else. In particular no theorem assumes that a hash has no
  collisions: where a security argument needs one, its statement names the two byte strings.

  The locale \<open>hash_function\<close> is the interface a user of \<open>hashlib\<close> relies on (the digest of
  any message has the advertised size); it is interpreted on the three algorithms.
\<close>

unbundle bit_operations_syntax

section \<open>The compression function, over a word size\<close>

definition rotr :: "nat \<Rightarrow> 'a::len word \<Rightarrow> 'a word" where
  "rotr n x = drop_bit n x OR push_bit (LENGTH('a) - n) x"

definition big_sigma :: "nat \<Rightarrow> nat \<Rightarrow> nat \<Rightarrow> 'a::len word \<Rightarrow> 'a word" where
  "big_sigma a b c x = rotr a x XOR rotr b x XOR rotr c x"

definition small_sigma :: "nat \<Rightarrow> nat \<Rightarrow> nat \<Rightarrow> 'a::len word \<Rightarrow> 'a word" where
  "small_sigma a b c x = rotr a x XOR rotr b x XOR drop_bit c x"

definition ch_word :: "'a::len word \<Rightarrow> 'a word \<Rightarrow> 'a word \<Rightarrow> 'a word" where
  "ch_word x y z = (x AND y) XOR (NOT x AND z)"

definition maj_word :: "'a::len word \<Rightarrow> 'a word \<Rightarrow> 'a word \<Rightarrow> 'a word" where
  "maj_word x y z = (x AND y) XOR (x AND z) XOR (y AND z)"

record 'w sha2_params =
  upper0 :: "'w \<Rightarrow> 'w"
  upper1 :: "'w \<Rightarrow> 'w"
  lower0 :: "'w \<Rightarrow> 'w"
  lower1 :: "'w \<Rightarrow> 'w"
  round_keys :: "'w list"

fun schedule :: "('a::len) word sha2_params \<Rightarrow> nat \<Rightarrow> 'a word list \<Rightarrow> 'a word list" where
  "schedule p 0 ws = ws"
| "schedule p (Suc n) ws =
     schedule p n ((lower1 p (ws ! 1) + ws ! 6 + lower0 p (ws ! 14) + ws ! 15) # ws)"

type_synonym 'a chain = "'a word \<times> 'a word \<times> 'a word \<times> 'a word \<times> 'a word \<times> 'a word \<times> 'a word \<times> 'a word"

fun rounds :: "('a::len) word sha2_params \<Rightarrow> ('a word \<times> 'a word) list \<Rightarrow> 'a chain \<Rightarrow> 'a chain" where
  "rounds p [] s = s"
| "rounds p ((k, w) # kws) (a, b, c, d, e, f, g, h) =
     (let t1 = h + upper1 p e + ch_word e f g + k + w; t2 = upper0 p a + maj_word a b c
      in rounds p kws (t1 + t2, a, b, c, d + t1, e, f, g))"

fun add_chain :: "('a::len) chain \<Rightarrow> 'a chain \<Rightarrow> 'a chain" where
  "add_chain (a, b, c, d, e, f, g, h) (a', b', c', d', e', f', g', h') =
     (a + a', b + b', c + c', d + d', e + e', f + f', g + g', h + h')"

definition compress :: "('a::len) word sha2_params \<Rightarrow> 'a chain \<Rightarrow> 'a word list \<Rightarrow> 'a chain" where
  "compress p s blk =
     add_chain s (rounds p (zip (round_keys p) (rev (schedule p (length (round_keys p) - 16) (rev blk)))) s)"

definition word_of_bytes :: "bytes \<Rightarrow> 'a::len word" where
  "word_of_bytes bs = foldl (\<lambda>acc b. push_bit 8 acc OR ucast b) 0 bs"

definition bytes_of_word :: "'a::len word \<Rightarrow> bytes" where
  "bytes_of_word w = map (\<lambda>i. ucast (drop_bit (8 * i) w)) (rev [0..<LENGTH('a) div 8])"

function chunks :: "nat \<Rightarrow> 'b list \<Rightarrow> 'b list list" where
  "chunks n xs = (if xs = [] \<or> n = 0 then [] else take n xs # chunks n (drop n xs))"
  by pat_completeness auto
termination by (relation "measure (\<lambda>(n, xs). length xs)") auto

definition pad :: "nat \<Rightarrow> bytes \<Rightarrow> bytes" where
  "pad wb m = (let n = length m; lb = 2 * wb; blk = 16 * wb;
      z = (2 * blk - 1 - lb - n mod blk) mod blk
    in m @ [0x80] @ replicate z 0 @ be_bytes lb (8 * int n))"

fun chain_bytes :: "('a::len) chain \<Rightarrow> bytes" where
  "chain_bytes (a, b, c, d, e, f, g, h) = concat (map bytes_of_word [a, b, c, d, e, f, g, h])"

definition sha2 :: "('a::len) word sha2_params \<Rightarrow> 'a chain \<Rightarrow> bytes \<Rightarrow> bytes" where
  "sha2 p iv m = (let wb = LENGTH('a) div 8 in
     chain_bytes (foldl (compress p) iv (map (\<lambda>blk. map word_of_bytes (chunks wb blk)) (chunks (16 * wb) (pad wb m)))))"

text \<open>The 80 round constants of FIPS 180-4, section 4.2.3, in decimal.\<close>

definition k512 :: "64 word list" where
  "k512 = [
     4794697086780616226, 8158064640168781261, 13096744586834688815, 16840607885511220156,
     4131703408338449720, 6480981068601479193, 10538285296894168987, 12329834152419229976,
     15566598209576043074, 1334009975649890238, 2608012711638119052, 6128411473006802146,
     8268148722764581231, 9286055187155687089, 11230858885718282805, 13951009754708518548,
     16472876342353939154, 17275323862435702243, 1135362057144423861, 2597628984639134821,
     3308224258029322869, 5365058923640841347, 6679025012923562964, 8573033837759648693,
     10970295158949994411, 12119686244451234320, 12683024718118986047, 13788192230050041572,
     14330467153632333762, 15395433587784984357, 489312712824947311, 1452737877330783856,
     2861767655752347644, 3322285676063803686, 5560940570517711597, 5996557281743188959,
     7280758554555802590, 8532644243296465576, 9350256976987008742, 10552545826968843579,
     11727347734174303076, 12113106623233404929, 14000437183269869457, 14369950271660146224,
     15101387698204529176, 15463397548674623760, 17586052441742319658, 1182934255886127544,
     1847814050463011016, 2177327727835720531, 2830643537854262169, 3796741975233480872,
     4115178125766777443, 5681478168544905931, 6601373596472566643, 7507060721942968483,
     8399075790359081724, 8693463985226723168, 9568029438360202098, 10144078919501101548,
     10430055236837252648, 11840083180663258601, 13761210420658862357, 14299343276471374635,
     14566680578165727644, 15097957966210449927, 16922976911328602910, 17689382322260857208,
     500013540394364858, 748580250866718886, 1242879168328830382, 1977374033974150939,
     2944078676154940804, 3659926193048069267, 4368137639120453308, 4836135668995329356,
     5532061633213252278, 6448918945643986474, 6902733635092675308, 7801388544844847127]"

definition p512 :: "64 word sha2_params" where
  "p512 = \<lparr>upper0 = big_sigma 28 34 39, upper1 = big_sigma 14 18 41,
     lower0 = small_sigma 1 8 7, lower1 = small_sigma 19 61 6, round_keys = k512\<rparr>"

definition p256 :: "32 word sha2_params" where
  "p256 = \<lparr>upper0 = big_sigma 2 13 22, upper1 = big_sigma 6 11 25,
     lower0 = small_sigma 7 18 3, lower1 = small_sigma 17 19 10,
     round_keys = map (\<lambda>k. ucast (drop_bit 32 k)) (take 64 k512)\<rparr>"

definition iv512 :: "64 chain" where
  "iv512 = (
     0x6a09e667f3bcc908, 0xbb67ae8584caa73b, 0x3c6ef372fe94f82b, 0xa54ff53a5f1d36f1,
     0x510e527fade682d1, 0x9b05688c2b3e6c1f, 0x1f83d9abfb41bd6b, 0x5be0cd19137e2179)"
definition iv384 :: "64 chain" where
  "iv384 = (
     0xcbbb9d5dc1059ed8, 0x629a292a367cd507, 0x9159015a3070dd17, 0x152fecd8f70e5939,
     0x67332667ffc00b31, 0x8eb44a8768581511, 0xdb0c2e0d64f98fa7, 0x47b5481dbefa4fa4)"

definition iv256 :: "32 chain" where
  "iv256 = (0x6a09e667, 0xbb67ae85, 0x3c6ef372, 0xa54ff53a, 0x510e527f, 0x9b05688c, 0x1f83d9ab, 0x5be0cd19)"

section \<open>The algorithms\<close>

definition sha256 :: "bytes \<Rightarrow> bytes" where
  "sha256 = sha2 p256 iv256"

definition sha512 :: "bytes \<Rightarrow> bytes" where
  "sha512 = sha2 p512 iv512"

definition sha384 :: "bytes \<Rightarrow> bytes" where
  "sha384 m = take 48 (sha2 p512 iv384 m)"

lemma length_bytes_of_word: "length (bytes_of_word (w :: 'a::len word)) = LENGTH('a) div 8"
  by (simp add: bytes_of_word_def)

lemma length_chain_bytes: "length (chain_bytes (s :: 'a::len chain)) = 8 * (LENGTH('a) div 8)"
  by (cases s rule: chain_bytes.cases) (simp add: length_bytes_of_word)

lemma length_sha2: "length (sha2 p (iv :: 'a::len chain) m) = 8 * (LENGTH('a) div 8)"
  by (simp add: sha2_def Let_def length_chain_bytes)

lemma length_sha256 [len_simps]: "length (sha256 m) = 32"
  by (simp add: sha256_def length_sha2)

lemma length_sha512 [len_simps]: "length (sha512 m) = 64"
  by (simp add: sha512_def length_sha2)

lemma length_sha384 [len_simps]: "length (sha384 m) = 48"
  by (simp add: sha384_def length_sha2)

text \<open>A \<open>hashlib\<close> constructor: the digest function with its two size attributes.\<close>

record hash_alg =
  digest :: "bytes \<Rightarrow> bytes"
  digest_size :: nat
  block_size :: nat

definition SHA256 :: hash_alg where
  "SHA256 = \<lparr>digest = sha256, digest_size = 32, block_size = 64\<rparr>"

definition SHA384 :: hash_alg where
  "SHA384 = \<lparr>digest = sha384, digest_size = 48, block_size = 128\<rparr>"

definition SHA512 :: hash_alg where
  "SHA512 = \<lparr>digest = sha512, digest_size = 64, block_size = 128\<rparr>"

lemma digest_SHA [simp]:
  "digest SHA256 = sha256" "digest SHA384 = sha384" "digest SHA512 = sha512"
  "digest_size SHA256 = 32" "digest_size SHA384 = 48" "digest_size SHA512 = 64"
  "block_size SHA256 = 64" "block_size SHA384 = 128" "block_size SHA512 = 128"
  by (simp_all add: SHA256_def SHA384_def SHA512_def)

section \<open>HMAC\<close>

definition hmac_key :: "hash_alg \<Rightarrow> bytes \<Rightarrow> bytes" where
  "hmac_key H k = (let k' = (if block_size H < length k then digest H k else k)
     in k' @ zeros (block_size H - length k'))"

text \<open>The two messages HMAC hashes, the inner and the outer one.\<close>

definition hmac_inner :: "hash_alg \<Rightarrow> bytes \<Rightarrow> bytes \<Rightarrow> bytes" where
  "hmac_inner H k m = map (\<lambda>b. b XOR 0x36) (hmac_key H k) @ m"

definition hmac_outer :: "hash_alg \<Rightarrow> bytes \<Rightarrow> bytes \<Rightarrow> bytes" where
  "hmac_outer H k m = map (\<lambda>b. b XOR 0x5c) (hmac_key H k) @ digest H (hmac_inner H k m)"

definition hmac :: "hash_alg \<Rightarrow> bytes \<Rightarrow> bytes \<Rightarrow> bytes" where
  "hmac H k m = digest H (hmac_outer H k m)"

text \<open>A collision: two different messages with one digest.\<close>

definition collision :: "(bytes \<Rightarrow> bytes) \<Rightarrow> bytes \<Rightarrow> bytes \<Rightarrow> bool" where
  "collision h x y \<longleftrightarrow> x \<noteq> y \<and> h x = h y"

text \<open>Some two of the listed messages collide.\<close>

definition collides :: "(bytes \<Rightarrow> bytes) \<Rightarrow> bytes list \<Rightarrow> bool" where
  "collides h ms \<longleftrightarrow> list_ex (\<lambda>x. list_ex (collision h x) ms) ms"

lemma not_collides: "\<not> collides h ms \<longleftrightarrow> inj_on h (set ms)"
  by (auto simp: collides_def collision_def list_ex_iff inj_on_def)

lemma collidesI: "x \<in> set ms \<Longrightarrow> y \<in> set ms \<Longrightarrow> x \<noteq> y \<Longrightarrow> h x = h y \<Longrightarrow> collides h ms"
  by (auto simp: collides_def collision_def list_ex_iff)

lemma collides_mono: "set ms \<subseteq> set ms' \<Longrightarrow> collides h ms \<Longrightarrow> collides h ms'"
  unfolding collides_def list_ex_iff by blast

lemma xor_const_inj: "inj (\<lambda>b :: 'a::len word. b XOR c)"
  by (rule injI) (metis xor.right_neutral xor_self_eq xor.assoc)

section \<open>What a user of a hash relies on\<close>

locale hash_function =
  fixes H :: hash_alg
  assumes digest_len: "length (digest H m) = digest_size H"
    and digest_size_pos: "0 < digest_size H"
    and digest_size_le: "digest_size H \<le> block_size H"
begin

lemma hmac_len: "length (hmac H k m) = digest_size H"
  by (simp add: hmac_def digest_len)

lemma hmac_key_len: "length (hmac_key H k) = block_size H"
  using digest_size_le by (simp add: hmac_key_def Let_def digest_len len_simps)

text \<open>Keys of one length up to the block size are not confused by the zero padding.\<close>

lemma hmac_key_inj:
  "length k = length k' \<Longrightarrow> length k \<le> block_size H \<Longrightarrow> hmac_key H k = hmac_key H k' \<Longrightarrow> k = k'"
  by (simp add: hmac_key_def Let_def)

text \<open>
  Two different (key, message) pairs whose keys have one length either give different outer
  messages or exhibit a collision of the hash on the inner ones.
\<close>

lemma hmac_outer_eqD:
  assumes eq: "hmac_outer H k m = hmac_outer H k' m'"
    and len: "length k = length k'" "length k \<le> block_size H"
  shows "k = k' \<and> (m = m' \<or> collision (digest H) (hmac_inner H k m) (hmac_inner H k' m'))"
proof -
  have "map (\<lambda>b. b XOR 0x5c) (hmac_key H k) = map (\<lambda>b. b XOR 0x5c) (hmac_key H k') \<and>
      digest H (hmac_inner H k m) = digest H (hmac_inner H k' m')"
    using eq unfolding hmac_outer_def by (rule append_eq_same_right) (simp add: digest_len)
  then have "hmac_key H k = hmac_key H k'" and d: "digest H (hmac_inner H k m) = digest H (hmac_inner H k' m')"
    by (auto simp: inj_map_eq_map [OF xor_const_inj])
  then have k: "k = k'" using len by (blast intro: hmac_key_inj)
  show ?thesis
    using k d by (auto simp: collision_def hmac_inner_def)
qed

end

interpretation h256: hash_function SHA256
  by unfold_locales (simp_all add: len_simps)

interpretation h384: hash_function SHA384
  by unfold_locales (simp_all add: len_simps)

interpretation h512: hash_function SHA512
  by unfold_locales (simp_all add: len_simps)

end
