(* ===== verification/Binder.thy ===== *)
theory Binder
  imports Sha2
begin

text \<open>
  The binder maths of \<open>hatls/protocol.py\<close>: HKDF-Expand-Label under the repository's own label
  prefix, the first link of a chain (\<open>intra_link\<close>), each later link (\<open>post_link\<close>) and the
  bytes a report binds (\<open>report_data_for\<close>); with the HKDF-Expand loop that
  \<open>hatls/transcript.py\<close> factors out.

  Lemmas: when the derivations succeed and how long their results are; and what equal results
  mean: the same inputs, or two named messages that SHA-384 (truncated as the code truncates
  it) or SHA-512 does not tell apart.
\<close>

unbundle bit_operations_syntax

section \<open>HKDF-Expand\<close>

text \<open>
  The loop \<open>while len(out) < n\<close>. The block counter is written as one byte, so the loop stops
  with \<open>ValueError\<close> at 256.
\<close>

function hkdf_loop :: "hash_alg \<Rightarrow> bytes \<Rightarrow> bytes \<Rightarrow> nat \<Rightarrow> bytes \<Rightarrow> bytes \<Rightarrow> nat \<Rightarrow> bytes py" where
  "hkdf_loop H prk info n out t i =
     (if length out < n then
        (if i < 256 then
           (let t' = hmac H prk (t @ info @ [of_nat i]) in hkdf_loop H prk info n (out @ t') t' (i + 1))
         else Inl (ValueError ''bytes must be in range(0, 256)''))
      else Inr (take n out))"
  by pat_completeness auto
termination by (relation "measure (\<lambda>(H, prk, info, n, out, t, i). 256 - i)") auto

declare hkdf_loop.simps [simp del]

definition hkdf_expand :: "bytes \<Rightarrow> bytes \<Rightarrow> nat \<Rightarrow> hash_alg \<Rightarrow> bytes py" where
  "hkdf_expand prk info n H = hkdf_loop H prk info n [] [] 1"

text \<open>The HkdfLabel structure: length, label with its prefix, context, each length in one byte.\<close>

definition hkdf_info :: "bytes \<Rightarrow> bytes \<Rightarrow> nat \<Rightarrow> bytes py" where
  "hkdf_info full ctx n =
     py_bind (to_bytes 2 (int n)) (\<lambda>nb.
     py_bind (one_byte (length full)) (\<lambda>lf.
     py_bind (one_byte (length ctx)) (\<lambda>lc.
       Inr (nb @ lf @ full @ lc @ ctx))))"

definition hkdf_expand_label :: "bytes \<Rightarrow> bytes \<Rightarrow> bytes \<Rightarrow> nat \<Rightarrow> hash_alg \<Rightarrow> bytes py" where
  "hkdf_expand_label secret label ctx n H =
     py_bind (hkdf_info (lit ''EXPERIMENTAL-hatls '' @ label) ctx n) (\<lambda>info.
       hkdf_expand secret info n H)"

section \<open>The links\<close>

definition intra_link :: "bytes \<Rightarrow> bytes \<Rightarrow> bytes py" where
  "intra_link session_context tik_pub =
     py_bind (hkdf_expand_label (zeros 48) (lit ''attestation base'') session_context 48 SHA384) (\<lambda>base.
       hkdf_expand_label base (lit ''attestation'') (sha384 tik_pub) 32 SHA384)"

definition post_link :: "bytes \<Rightarrow> bytes \<Rightarrow> int \<Rightarrow> bytes py" where
  "post_link exporter prev_link counter =
     py_bind (to_bytes 8 counter) (\<lambda>c.
       hkdf_expand_label exporter (lit ''continuity'') (prev_link @ c) 32 SHA384)"

text \<open>The message whose SHA-512 goes into a report, with and without a ledger head.\<close>

definition report_preimage :: "bytes \<Rightarrow> bytes option \<Rightarrow> bytes" where
  "report_preimage link head = (case head of
     None \<Rightarrow> lit ''HATLS-continuity-v0'' @ link
   | Some h \<Rightarrow> lit ''HATLS-continuity-v1'' @ link @ h)"

definition report_data_for :: "bytes \<Rightarrow> bytes option \<Rightarrow> bytes" where
  "report_data_for link head = sha512 (report_preimage link head)"

lemma length_report_data_for [len_simps]: "length (report_data_for l h) = 64"
  by (simp add: report_data_for_def len_simps)

section \<open>When they succeed\<close>

lemma pred_mult_add: "Suc 0 \<le> i \<Longrightarrow> (i - Suc 0) * d + d = i * (d :: nat)"
  by (cases i) simp_all

context hash_function
begin

text \<open>The loop invariant: before block \<open>i\<close> there are \<open>i - 1\<close> blocks of output.\<close>

lemma hkdf_loop_ok:
  assumes "length out = (i - 1) * digest_size H" and "1 \<le> i" and "i \<le> 256"
    and "n \<le> 255 * digest_size H"
  shows "\<exists>okm. hkdf_loop H prk info n out t i = Inr okm \<and> length okm = n"
  using assms
proof (induction "256 - i" arbitrary: out t i)
  case 0
  then have "i = 256" by simp
  with 0 show ?case by (subst hkdf_loop.simps) auto
next
  case (Suc k)
  let ?t = "hmac H prk (t @ info @ [of_nat i])"
  have "k = 256 - (i + 1)" and "length (out @ ?t) = (i + 1 - 1) * digest_size H"
    using Suc.prems Suc.hyps(2) by (simp_all add: hmac_len pred_mult_add)
  then have "\<exists>okm. hkdf_loop H prk info n (out @ ?t) ?t (i + 1) = Inr okm \<and> length okm = n"
    using Suc.prems Suc.hyps(2) by (intro Suc.hyps(1)) auto
  then show ?case
    using Suc.hyps(2) by (subst hkdf_loop.simps) (auto simp: Let_def)
qed

lemma hkdf_loop_err:
  assumes "length out = (i - 1) * digest_size H" and "1 \<le> i" and "i \<le> 256"
    and "255 * digest_size H < n"
  shows "hkdf_loop H prk info n out t i = Inl (ValueError ''bytes must be in range(0, 256)'')"
  using assms
proof (induction "256 - i" arbitrary: out t i)
  case 0
  then have "i = 256" by simp
  with 0 show ?case by (subst hkdf_loop.simps) auto
next
  case (Suc k)
  let ?t = "hmac H prk (t @ info @ [of_nat i])"
  have "k = 256 - (i + 1)" and len: "length (out @ ?t) = (i + 1 - 1) * digest_size H"
    using Suc.prems Suc.hyps(2) by (simp_all add: hmac_len pred_mult_add)
  then have "hkdf_loop H prk info n (out @ ?t) ?t (i + 1) = Inl (ValueError ''bytes must be in range(0, 256)'')"
    using Suc.prems Suc.hyps(2) by (intro Suc.hyps(1)) auto
  moreover have "length out < n"
  proof -
    have "(i - 1) * digest_size H \<le> 255 * digest_size H"
      using Suc.prems by (intro mult_le_mono1) simp
    from le_less_trans [OF this Suc.prems(4)] show ?thesis by (simp only: Suc.prems(1))
  qed
  ultimately show ?case
    using Suc.hyps(2) by (subst hkdf_loop.simps) (auto simp: Let_def)
qed

text \<open>RFC 5869: at most 255 blocks, and exactly the requested number of bytes.\<close>

lemma hkdf_expand_ok:
  "n \<le> 255 * digest_size H \<Longrightarrow> \<exists>okm. hkdf_expand prk info n H = Inr okm \<and> length okm = n"
  unfolding hkdf_expand_def by (rule hkdf_loop_ok) simp_all

lemma hkdf_expand_err:
  "255 * digest_size H < n \<Longrightarrow>
   hkdf_expand prk info n H = Inl (ValueError ''bytes must be in range(0, 256)'')"
  unfolding hkdf_expand_def by (rule hkdf_loop_err) simp_all

text \<open>One block suffices for every length the source asks for.\<close>

lemma hkdf_expand_one:
  assumes "0 < n" "n \<le> digest_size H"
  shows "hkdf_expand prk info n H = Inr (take n (hmac H prk (info @ [1])))"
  using assms
  by (simp add: hkdf_expand_def hkdf_loop.simps [of H prk info n "[]"] Let_def
      hkdf_loop.simps [of H prk info n "hmac H prk (info @ [1])"] hmac_len)

end

lemma hkdf_info_ok:
  "int n < 65536 \<Longrightarrow> length full < 256 \<Longrightarrow> length ctx < 256 \<Longrightarrow>
   hkdf_info full ctx n = Inr (be_bytes 2 (int n) @ [of_nat (length full)] @ full @ [of_nat (length ctx)] @ ctx)"
  by (simp add: hkdf_info_def to_bytes_def one_byte_def)

lemma hkdf_info_err: "256 \<le> length ctx \<Longrightarrow> \<exists>e. hkdf_info full ctx n = Inl e"
  by (auto simp: hkdf_info_def to_bytes_def one_byte_def)

text \<open>The closed forms of the two derivations, where they succeed.\<close>

definition label_info :: "bytes \<Rightarrow> bytes \<Rightarrow> nat \<Rightarrow> bytes" where
  "label_info label ctx n = be_bytes 2 (int n) @ [of_nat (length label + 19)]
     @ lit ''EXPERIMENTAL-hatls '' @ label @ [of_nat (length ctx)] @ ctx"

lemma hkdf_expand_label_one:
  assumes "0 < n" "n \<le> 48" "length label \<le> 236" "length ctx < 256"
  shows "hkdf_expand_label secret label ctx n SHA384
         = Inr (take n (hmac SHA384 secret (label_info label ctx n @ [1])))"
  using assms
  by (simp add: hkdf_expand_label_def hkdf_info_ok len_simps h384.hkdf_expand_one label_info_def add.commute)

lemma hkdf_expand_label_err: "256 \<le> length ctx \<Longrightarrow> \<exists>e. hkdf_expand_label secret label ctx n H = Inl e"
  using hkdf_info_err [of ctx "lit ''EXPERIMENTAL-hatls '' @ label" n]
  by (auto simp: hkdf_expand_label_def)

definition intra_value :: "bytes \<Rightarrow> bytes \<Rightarrow> bytes" where
  "intra_value sc tik =
     take 32 (hmac SHA384
       (hmac SHA384 (zeros 48) (label_info (lit ''attestation base'') sc 48 @ [1]))
       (label_info (lit ''attestation'') (sha384 tik) 32 @ [1]))"

definition post_message :: "bytes \<Rightarrow> int \<Rightarrow> bytes" where
  "post_message prev c = label_info (lit ''continuity'') (prev @ be_bytes 8 c) 32 @ [1]"

definition post_value :: "bytes \<Rightarrow> bytes \<Rightarrow> int \<Rightarrow> bytes" where
  "post_value e prev c = take 32 (hmac SHA384 e (post_message prev c))"

lemma length_intra_value [len_simps]: "length (intra_value sc tik) = 32"
  by (simp add: intra_value_def h384.hmac_len)

lemma length_post_value [len_simps]: "length (post_value e prev c) = 32"
  by (simp add: post_value_def h384.hmac_len)

lemma intra_link_eq:
  "intra_link sc tik = (if length sc < 256 then Inr (intra_value sc tik) else intra_link sc tik)"
  by (simp add: intra_link_def hkdf_expand_label_one len_simps intra_value_def h384.hmac_len)

lemma intra_link_Inr: "intra_link sc tik = Inr l \<longleftrightarrow> length sc < 256 \<and> l = intra_value sc tik"
proof (cases "length sc < 256")
  case True
  then show ?thesis by (subst intra_link_eq) auto
next
  case False
  then show ?thesis
    using hkdf_expand_label_err [of sc "zeros 48" "lit ''attestation base''" 48 SHA384]
    by (auto simp: intra_link_def)
qed

lemma post_link_Inr:
  "post_link e prev c = Inr l \<longleftrightarrow> 0 \<le> c \<and> c < 2 ^ 64 \<and> length prev < 248 \<and> l = post_value e prev c"
proof (cases "0 \<le> c \<and> c < 2 ^ 64")
  case c: True
  then have tb: "to_bytes 8 c = Inr (be_bytes 8 c)" by (simp add: to_bytes_def)
  show ?thesis
  proof (cases "length prev < 248")
    case True
    with c tb show ?thesis
      by (auto simp: post_link_def hkdf_expand_label_one len_simps post_value_def post_message_def)
  next
    case False
    then show ?thesis
      using hkdf_expand_label_err [of "prev @ be_bytes 8 c" e "lit ''continuity''" 32 SHA384] tb
      by (auto simp: post_link_def len_simps)
  qed
next
  case False
  then show ?thesis by (auto simp: post_link_def to_bytes_def)
qed

section \<open>What equal links and equal report data mean\<close>

text \<open>The hash a link is the value of: SHA-384 cut to 32 bytes.\<close>

definition link_hash :: "bytes \<Rightarrow> bytes" where
  "link_hash m = take 32 (sha384 m)"

lemma post_value_outer: "post_value e p c = link_hash (hmac_outer SHA384 e (post_message p c))"
  by (simp add: post_value_def link_hash_def hmac_def)

lemma be_bytes_8_inj:
  "0 \<le> c \<Longrightarrow> c < 2 ^ 64 \<Longrightarrow> 0 \<le> c' \<Longrightarrow> c' < 2 ^ 64 \<Longrightarrow> be_bytes 8 c = be_bytes 8 c' \<longleftrightarrow> c = c'"
proof
  assume c: "0 \<le> c" "c < 2 ^ 64" "0 \<le> c'" "c' < 2 ^ 64" and eq: "be_bytes 8 c = be_bytes 8 c'"
  have "c mod 256 ^ 8 = c' mod 256 ^ 8"
    using arg_cong [OF eq, of from_be] by (simp only: from_be_be_bytes)
  moreover have "(256 :: int) ^ 8 = 2 ^ 64" by simp
  ultimately show "c = c'" using c by (metis mod_pos_pos_trivial)
qed simp

lemma post_message_inj:
  assumes "post_message p c = post_message p' c'" "length p = length p'"
    and "0 \<le> c" "c < 2 ^ 64" "0 \<le> c'" "c' < 2 ^ 64"
  shows "p = p' \<and> c = c'"
  using assms by (auto simp: post_message_def label_info_def len_simps be_bytes_8_inj)

text \<open>
  The two pairs of messages that have to be told apart for the link to bind the exporter, the
  previous link and the counter.
\<close>

definition link_collision :: "bytes \<times> bytes \<times> int \<Rightarrow> bytes \<times> bytes \<times> int \<Rightarrow> bool" where
  "link_collision x y = (case (x, y) of ((e, p, c), (e', p', c')) \<Rightarrow>
     collision link_hash (hmac_outer SHA384 e (post_message p c)) (hmac_outer SHA384 e' (post_message p' c'))
     \<or> collision sha384 (hmac_inner SHA384 e (post_message p c)) (hmac_inner SHA384 e' (post_message p' c')))"

lemma post_value_eqD:
  assumes "post_value e p c = post_value e' p' c'"
    and "length e = length e'" "length e \<le> 128" "length p = length p'"
    and "0 \<le> c" "c < 2 ^ 64" "0 \<le> c'" "c' < 2 ^ 64"
  shows "(e = e' \<and> p = p' \<and> c = c') \<or> link_collision (e, p, c) (e', p', c')"
proof (cases "hmac_outer SHA384 e (post_message p c) = hmac_outer SHA384 e' (post_message p' c')")
  case True
  have "length e \<le> block_size SHA384" using assms(3) by simp
  from h384.hmac_outer_eqD [OF True assms(2) this]
  have "e = e' \<and> (post_message p c = post_message p' c' \<or>
      collision sha384 (hmac_inner SHA384 e (post_message p c)) (hmac_inner SHA384 e' (post_message p' c')))"
    unfolding digest_SHA .
  then consider "e = e'" "p = p'" "c = c'"
    | "collision sha384 (hmac_inner SHA384 e (post_message p c)) (hmac_inner SHA384 e' (post_message p' c'))"
    using post_message_inj [OF _ assms(4-8)] by blast
  then show ?thesis
    by cases (simp_all add: link_collision_def)
next
  case False
  with assms(1) show ?thesis
    by (auto simp: link_collision_def collision_def post_value_outer)
qed

lemma report_preimage_inj:
  "length l = length l' \<Longrightarrow> report_preimage l h = report_preimage l' h' \<longleftrightarrow> l = l' \<and> h = h'"
  by (auto simp: report_preimage_def lit_def split: option.splits)

lemma report_data_for_eqD:
  "length l = length l' \<Longrightarrow> report_data_for l h = report_data_for l' h' \<Longrightarrow>
   (l = l' \<and> h = h') \<or> collision sha512 (report_preimage l h) (report_preimage l' h')"
  by (auto simp: report_data_for_def collision_def report_preimage_inj)

end
