(* ===== verification/Base64.thy ===== *)
theory Base64
  imports Prelude
begin

text \<open>
  \<open>base64.b64encode(x).decode()\<close> and \<open>base64.b64decode(s)\<close>, the way the standard library does
  them: the decoder skips characters outside the alphabet and stops at a complete padding. Fact:
  what was encoded decodes to itself.
\<close>

unbundle bit_operations_syntax

definition b64_alphabet :: string where
  "b64_alphabet = ''ABCDEFGHIJKLMNOPQRSTUVWXYZabcdefghijklmnopqrstuvwxyz0123456789+/''"

definition b64_char :: "nat \<Rightarrow> char" where
  "b64_char n = b64_alphabet ! n"

definition b64_val :: "char \<Rightarrow> nat option" where
  "b64_val c = (let n = of_char c :: nat in
     if 65 \<le> n \<and> n \<le> 90 then Some (n - 65)
     else if 97 \<le> n \<and> n \<le> 122 then Some (n - 71)
     else if 48 \<le> n \<and> n \<le> 57 then Some (n + 4)
     else if n = 43 then Some 62
     else if n = 47 then Some 63
     else None)"

fun b64encode :: "bytes \<Rightarrow> string" where
  "b64encode [] = []"
| "b64encode [a] = [b64_char (unat a div 4), b64_char (unat a mod 4 * 16), CHR ''='', CHR ''='']"
| "b64encode [a, b] = [b64_char (unat a div 4), b64_char (unat a mod 4 * 16 + unat b div 16),
     b64_char (unat b mod 16 * 4), CHR ''='']"
| "b64encode (a # b # c # r) = b64_char (unat a div 4) # b64_char (unat a mod 4 * 16 + unat b div 16)
     # b64_char (unat b mod 16 * 4 + unat c div 64) # b64_char (unat c mod 64) # b64encode r"

text \<open>The decoder's loop: position in the quad, bits left over, pads seen.\<close>

fun b64_loop :: "nat \<Rightarrow> nat \<Rightarrow> nat \<Rightarrow> string \<Rightarrow> bytes py" where
  "b64_loop q left pads [] =
     (if q = 0 then Inr []
      else if q = 1 then Inl (ValueError ''Invalid base64-encoded string: number of data characters cannot be 1 more than a multiple of 4'')
      else Inl (ValueError ''Incorrect padding''))"
| "b64_loop q left pads (c # s) =
     (if c = CHR ''='' then
        (if 2 \<le> q then (if 4 \<le> q + (pads + 1) then Inr [] else b64_loop q left (pads + 1) s)
         else b64_loop q left pads s)
      else (case b64_val c of
         None \<Rightarrow> b64_loop q left pads s
       | Some v \<Rightarrow>
           if q = 0 then b64_loop 1 v 0 s
           else if q = 1 then py_bind (b64_loop 2 (v mod 16) 0 s) (\<lambda>r. Inr (of_nat (left * 4 + v div 16) # r))
           else if q = 2 then py_bind (b64_loop 3 (v mod 4) 0 s) (\<lambda>r. Inr (of_nat (left * 16 + v div 4) # r))
           else py_bind (b64_loop 0 0 0 s) (\<lambda>r. Inr (of_nat (left * 64 + v) # r))))"

definition b64decode :: "string \<Rightarrow> bytes py" where
  "b64decode s = (if list_all ascii_char s then b64_loop 0 0 0 s
     else Inl (ValueError ''string argument should contain only ASCII characters''))"

lemma b64_cases: "(n :: nat) < 64 \<Longrightarrow> n \<in> set [0..<64]"
  by simp

lemma b64_alphabet_ok:
  "list_all (\<lambda>n. b64_val (b64_char n) = Some n \<and> b64_char n \<noteq> CHR ''='' \<and> ascii_char (b64_char n)) [0..<64]"
  by (simp add: upt_rec b64_val_def b64_char_def b64_alphabet_def ascii_char_def)

lemma b64_char_facts [simp]:
  "n < 64 \<Longrightarrow> b64_val (b64_char n) = Some n"
  "n < 64 \<Longrightarrow> b64_char n \<noteq> CHR ''=''"
  "n < 64 \<Longrightarrow> ascii_char (b64_char n)"
  using b64_alphabet_ok unfolding list_all_iff by (blast dest: b64_cases)+

lemma byte_bounds [simp]:
  "unat (a :: byte) div 4 < 64" "unat (a :: byte) mod 4 * 16 < 64"
  "unat (a :: byte) mod 4 * 16 + unat (b :: byte) div 16 < 64"
  "unat (b :: byte) mod 16 * 4 + unat (c :: byte) div 64 < 64"
  "unat (b :: byte) mod 16 * 4 < 64"
  using unat_byte_lt [of a] unat_byte_lt [of b] unat_byte_lt [of c] by auto

lemma byte_parts [simp]:
  "of_nat (unat (a :: byte) div 4 * 4 + (unat a mod 4 * 16 + unat (b :: byte) div 16) div 16) = a"
  "of_nat (unat (a :: byte) div 4 * 4 + (unat a mod 4 * 16) div 16) = a"
  "of_nat ((unat (a :: byte) mod 4 * 16 + unat (b :: byte) div 16) mod 16 * 16 + (unat b mod 16 * 4 + unat (c :: byte) div 64) div 4) = b"
  "of_nat ((unat (a :: byte) mod 4 * 16 + unat (b :: byte) div 16) mod 16 * 16 + (unat b mod 16 * 4) div 4) = b"
  "of_nat ((unat (b :: byte) mod 16 * 4 + unat (c :: byte) div 64) mod 4 * 64 + unat c mod 64) = c"
proof -
  have d: "unat x div 16 < 16" "unat x div 64 < 4" for x :: byte using unat_byte_lt [of x] by auto
  have e: "(unat a mod 4 * 16 + unat b div 16) div 16 = unat a mod 4"
    "(unat a mod 4 * 16 + unat b div 16) mod 16 = unat b div 16"
    "(unat b mod 16 * 4 + unat c div 64) div 4 = unat b mod 16"
    "(unat b mod 16 * 4 + unat c div 64) mod 4 = unat c div 64"
    using d [of b] d [of c] by auto
  show "of_nat (unat a div 4 * 4 + (unat a mod 4 * 16 + unat b div 16) div 16) = a"
    "of_nat (unat a div 4 * 4 + (unat a mod 4 * 16) div 16) = a"
    "of_nat ((unat a mod 4 * 16 + unat b div 16) mod 16 * 16 + (unat b mod 16 * 4 + unat c div 64) div 4) = b"
    "of_nat ((unat a mod 4 * 16 + unat b div 16) mod 16 * 16 + (unat b mod 16 * 4) div 4) = b"
    "of_nat ((unat b mod 16 * 4 + unat c div 64) mod 4 * 64 + unat c mod 64) = c"
    unfolding e by (simp_all only: nonzero_mult_div_cancel_right div_mult_mod_eq
        zero_neq_numeral [symmetric] refl not_False_eq_True) simp_all
qed

lemma byte_top [simp]: "unat (c :: byte) div 64 div 4 = 0" "unat (c :: byte) div 64 mod 4 = unat c div 64"
  using unat_byte_lt [of c] by auto

lemma b64_loop_encode: "b64_loop 0 0 p (b64encode b) = Inr b"
proof (induction b arbitrary: p rule: b64encode.induct)
  case (4 a b c r)
  then show ?case by (simp del: of_nat_add of_nat_mult)
qed (simp_all del: of_nat_add of_nat_mult)

lemma ascii_b64encode: "list_all ascii_char (b64encode b)"
  by (induction b rule: b64encode.induct) (simp_all, simp_all add: ascii_char_def)

lemma b64decode_encode [simp]: "b64decode (b64encode b) = Inr b"
  by (simp add: b64decode_def ascii_b64encode b64_loop_encode)

end
