(* ===== verification/Json_Proofs.thy ===== *)
theory Json_Proofs
  imports Json
begin

text \<open>
  The round trip of \<open>Json\<close>: what \<open>dumps\<close> writes with either choice of separators, \<open>loads\<close>
  reads back, up to the order of keys; so equal canonical bytes come from equal values.
\<close>

section \<open>Characters and strings\<close>

lemma char_code_eq: "of_char c = (n :: nat) \<Longrightarrow> c = char_of n"
  by (metis char_of_char)

lemma char_of_code:
  "char_of (34 :: nat) = CHR 0x22" "char_of (92 :: nat) = CHR 0x5C" "char_of (10 :: nat) = CHR 0x0A"
  "char_of (13 :: nat) = CHR 0x0D" "char_of (9 :: nat) = CHR 0x09" "char_of (12 :: nat) = CHR 0x0C"
  "char_of (8 :: nat) = CHR 0x08"
  by code_simp+

lemma of_char_lt: "(of_char c :: nat) < 256"
  by simp

lemma length_hex4 [simp]: "length (hex4 n) = 4"
  by (simp add: hex4_def)

lemma hex4_val_hex4: "n < 256 \<Longrightarrow> hex4_val (hex4 n) = Some n"
  by (simp add: hex4_val_def hex4_def)

lemma parse_str_esc:
  "parse_str (esc_char c @ t) = map_option (\<lambda>(x, q). (c # x, q)) (parse_str t)"
proof -
  let ?n = "of_char c :: nat"
  consider "?n = 34" | "?n = 92" | "?n = 10" | "?n = 13" | "?n = 9" | "?n = 12" | "?n = 8"
    | "?n \<noteq> 34" "?n \<noteq> 92" "32 \<le> ?n" "?n \<le> 126"
    | "?n \<noteq> 34" "?n \<noteq> 92" "?n \<noteq> 10" "?n \<noteq> 13" "?n \<noteq> 9" "?n \<noteq> 12" "?n \<noteq> 8" "\<not> (32 \<le> ?n \<and> ?n \<le> 126)"
    by linarith
  then show ?thesis
  proof cases
    case 8
    then have "c \<noteq> quote" "c \<noteq> bslash" by (auto simp: quote_def bslash_def)
    with 8 show ?thesis by (simp add: esc_char_def parse_str.simps [of "c # t"])
  next
    case 9
    then have "esc_char c = bslash # CHR ''u'' # hex4 ?n" by (simp add: esc_char_def Let_def)
    then show ?thesis
      using hex4_val_hex4 [OF of_char_lt, of c] of_char_lt [of c]
      by (simp add: parse_str.simps [of "CHR 0x5C # _"] quote_def bslash_def)
  qed (auto dest!: char_code_eq simp: esc_char_def unesc_def quote_def bslash_def char_of_code
      parse_str.simps [of "CHR 0x5C # _"])
qed

lemma parse_str_emit: "parse_str (concat (map esc_char s) @ quote # rest) = Some (s, rest)"
  by (induction s) (simp_all add: parse_str_esc parse_str.simps [of "quote # _"])

section \<open>Numbers\<close>

lemma dec_digit_code: "0 \<le> n \<Longrightarrow> n < 10 \<Longrightarrow> of_char (dec_digit n) = 48 + n"
proof -
  assume "0 \<le> n" "n < 10"
  then have "n \<in> {0, 1, 2, 3, 4, 5, 6, 7, 8, 9}" by (simp, presburger)
  then show ?thesis by (auto simp: dec_digit_def)
qed

lemma is_digit_dec_digit: "0 \<le> n \<Longrightarrow> n < 10 \<Longrightarrow> is_digit (dec_digit n)"
proof -
  assume "0 \<le> n" "n < 10"
  then have "n \<in> {0, 1, 2, 3, 4, 5, 6, 7, 8, 9}" by (simp, presburger)
  then show ?thesis by (auto simp: dec_digit_def is_digit_def)
qed

lemma dec_nat_digits: "0 \<le> n \<Longrightarrow> list_all is_digit (dec_nat n) \<and> dec_nat n \<noteq> []"
proof (induction n rule: dec_nat.induct)
  case (1 n)
  then show ?case
    by (subst (1 2) dec_nat.simps) (simp add: is_digit_dec_digit)
qed

lemma digits_val_dec_nat: "0 \<le> n \<Longrightarrow> digits_val (dec_nat n) = n"
proof (induction n rule: dec_nat.induct)
  case (1 n)
  then show ?case
    by (subst dec_nat.simps) (auto simp: digits_val_def dec_digit_code)
qed

lemma hd_dec_nat: "0 < n \<Longrightarrow> hd (dec_nat n) \<noteq> CHR ''0''"
proof (induction n rule: dec_nat.induct)
  case (1 n)
  show ?case
  proof (cases "n < 10")
    case True
    with "1.prems" have "n \<in> {1, 2, 3, 4, 5, 6, 7, 8, 9}" by (simp, presburger)
    then show ?thesis by (subst dec_nat.simps) (auto simp: dec_digit_def)
  next
    case False
    then have "hd (dec_nat (n div 10)) \<noteq> CHR ''0''" using "1.IH" by simp
    with False show ?thesis
      using dec_nat_digits [of "n div 10"] by (subst dec_nat.simps) simp
  qed
qed

text \<open>What may follow a number for it to end there.\<close>

definition num_end :: "string \<Rightarrow> bool" where
  "num_end s \<longleftrightarrow> (case s of [] \<Rightarrow> True
     | c # _ \<Rightarrow> \<not> is_digit c \<and> c \<noteq> CHR ''.'' \<and> c \<noteq> CHR ''e'' \<and> c \<noteq> CHR ''E'')"

lemma num_end_tail: "num_end s \<Longrightarrow> \<not> float_tail s"
  by (cases s rule: float_tail.cases) (auto simp: num_end_def)

lemma span_digits:
  "list_all is_digit ds \<Longrightarrow> num_end s \<Longrightarrow> takeWhile is_digit (ds @ s) = ds \<and> dropWhile is_digit (ds @ s) = s"
proof (induction ds)
  case Nil
  then show ?case by (cases s) (auto simp: num_end_def)
qed auto

lemma parse_nat_dec: "0 \<le> n \<Longrightarrow> num_end rest \<Longrightarrow> parse_nat (dec_nat n @ rest) = Some (n, rest)"
proof (cases "n = 0")
  case True
  assume "num_end rest"
  with True show ?thesis
    by (simp add: dec_nat.simps dec_digit_def parse_nat_def num_end_tail)
next
  case False
  assume "0 \<le> n" and e: "num_end rest"
  with False have n: "0 < n" by simp
  obtain c cs where c: "dec_nat n = c # cs" using dec_nat_digits [of n] n by (cases "dec_nat n") auto
  have "c \<noteq> CHR ''0''" "is_digit c"
    using hd_dec_nat [OF n] dec_nat_digits [of n] n c by auto
  then show ?thesis
    using span_digits [OF _ e, of "dec_nat n"] dec_nat_digits [of n] digits_val_dec_nat [of n] n num_end_tail [OF e] c
    by (simp add: parse_nat_def Let_def)
qed

lemma is_digit_facts:
  "is_digit c \<Longrightarrow> c \<noteq> CHR ''-'' \<and> c \<noteq> quote \<and> c \<noteq> CHR ''{'' \<and> c \<noteq> CHR ''['' \<and> c \<noteq> CHR ''n'' \<and>
     c \<noteq> CHR ''t'' \<and> c \<noteq> CHR ''f'' \<and> c \<noteq> CHR '']'' \<and> c \<noteq> CHR ''}'' \<and> \<not> is_ws c"
  by (auto simp: is_digit_def quote_def is_ws_def)

text \<open>The first character of a printed number.\<close>

definition num_head :: "char \<Rightarrow> bool" where
  "num_head c \<longleftrightarrow> is_digit c \<or> c = CHR ''-''"

lemma num_head_facts:
  "num_head c \<Longrightarrow> c \<noteq> quote \<and> c \<noteq> CHR ''{'' \<and> c \<noteq> CHR ''['' \<and> c \<noteq> CHR ''n'' \<and> c \<noteq> CHR ''t'' \<and> c \<noteq> CHR ''f''"
  by (auto simp: num_head_def is_digit_def quote_def)

lemma dec_int_head: "\<exists>c cs. dec_int n = c # cs \<and> num_head c"
proof (cases "n < 0")
  case True
  then show ?thesis by (simp add: dec_int_def num_head_def)
next
  case False
  then show ?thesis
    using dec_nat_digits [of n] by (cases "dec_nat n") (auto simp: dec_int_def num_head_def)
qed

lemma parse_num_dec: "num_end rest \<Longrightarrow> parse_num (dec_int n @ rest) = Some (JInt n, rest)"
proof (cases "n < 0")
  case True
  assume "num_end rest"
  with True show ?thesis using parse_nat_dec [of "- n" rest] by (simp add: dec_int_def parse_num_def)
next
  case False
  assume e: "num_end rest"
  obtain c cs where c: "dec_nat n = c # cs" "is_digit c"
    using dec_nat_digits [of n] False by (cases "dec_nat n") auto
  then show ?thesis
    using parse_nat_dec [of n rest] False e is_digit_facts [of c] by (simp add: dec_int_def parse_num_def)
qed

section \<open>Values\<close>

text \<open>Separators as the source chooses them: one punctuation mark, then white space.\<close>

definition wf_seps :: "seps \<Rightarrow> bool" where
  "wf_seps p \<longleftrightarrow> (\<exists>w. item_sep p = CHR '','' # w \<and> list_all is_ws w) \<and>
     (\<exists>w. key_sep p = CHR '':'' # w \<and> list_all is_ws w)"

lemma wf_compact [simp]: "wf_seps compact"
  by (simp add: wf_seps_def compact_def)

lemma wf_default_seps [simp]: "wf_seps default_seps"
  by (simp add: wf_seps_def default_seps_def is_ws_def)

lemma skip_ws_head: "\<not> is_ws c \<Longrightarrow> skip_ws (c # s) = c # s"
  by (simp add: skip_ws_def)

lemma skip_ws_append: "list_all is_ws w \<Longrightarrow> skip_ws (w @ s) = skip_ws s"
  by (induction w) (simp_all add: skip_ws_def)

text \<open>The first character of a printed value decides how it is parsed.\<close>

definition value_head :: "char \<Rightarrow> bool" where
  "value_head c \<longleftrightarrow> \<not> is_ws c \<and> c \<noteq> CHR '']'' \<and> c \<noteq> CHR ''}''"

lemma emit_head: "\<exists>c cs. emit p j = c # cs \<and> value_head c"
proof (cases j)
  case (JInt n)
  then show ?thesis
    using dec_int_head [of n] by (auto simp: num_head_def value_head_def is_ws_def dest: is_digit_facts)
qed (auto simp: value_head_def is_ws_def emit_str_def quote_def)

lemma emit_nonempty: "1 \<le> length (emit p j)"
  using emit_head [of p j] by auto

lemma parse_value_num:
  "num_end rest \<Longrightarrow> parse_value (Suc n) (dec_int i @ rest) = Some (JInt i, rest)"
proof -
  assume e: "num_end rest"
  obtain c cs where "dec_int i = c # cs" "num_head c" using dec_int_head by blast
  with parse_num_dec [OF e, of i] num_head_facts [of c] show ?thesis by simp
qed

lemma update_new: "k \<notin> fst ` set d \<Longrightarrow> AList.update k v d = d @ [(k, v)]"
  by (induction d) auto

lemma dict_of_distinct_aux:
  "distinct (map fst d @ map fst kvs) \<Longrightarrow> foldl (\<lambda>d (k, v). AList.update k v d) d kvs = d @ kvs"
proof (induction kvs arbitrary: d)
  case (Cons kv kvs)
  obtain k v where kv: "kv = (k, v)" by (cases kv)
  have "AList.update k v d = d @ [(k, v)]"
    using Cons.prems kv by (intro update_new) auto
  with Cons kv show ?case by simp
qed simp

lemma dict_of_distinct: "distinct (map fst kvs) \<Longrightarrow> dict_of kvs = kvs"
  using dict_of_distinct_aux [of "[]" kvs] by (simp add: dict_of_def)

lemma num_end_simps [simp]:
  "num_end []" "num_end (CHR '','' # s)" "num_end (CHR '']'' # s)" "num_end (CHR ''}'' # s)"
  by (simp_all add: num_end_def is_digit_def)

lemma item_sep_cases:
  assumes "wf_seps p"
  obtains w where "item_sep p = CHR '','' # w" "list_all is_ws w"
  using assms by (auto simp: wf_seps_def)

lemma key_sep_cases:
  assumes "wf_seps p"
  obtains w where "key_sep p = CHR '':'' # w" "list_all is_ws w"
  using assms by (auto simp: wf_seps_def)

lemma emit_items_head: "xs \<noteq> [] \<Longrightarrow> \<exists>c cs. emit_items p xs = c # cs \<and> value_head c"
  using emit_head [of p "hd xs"] by (cases xs) auto

lemma emit_members_head: "kvs \<noteq> [] \<Longrightarrow> \<exists>cs. emit_members p kvs = quote # cs"
  by (cases kvs) (auto simp: emit_str_def)

lemma skip_ws_items: "list_all is_ws w \<Longrightarrow> xs \<noteq> [] \<Longrightarrow> skip_ws (w @ emit_items p xs @ s) = emit_items p xs @ s"
  using emit_items_head [of xs p] by (auto simp: skip_ws_append skip_ws_head value_head_def)

lemma skip_ws_members:
  "list_all is_ws w \<Longrightarrow> kvs \<noteq> [] \<Longrightarrow> skip_ws (w @ emit_members p kvs @ s) = emit_members p kvs @ s"
  using emit_members_head [of kvs p] by (auto simp: skip_ws_append skip_ws_head quote_def is_ws_def)

lemma skip_ws_value: "list_all is_ws w \<Longrightarrow> skip_ws (w @ emit p j @ s) = emit p j @ s"
  using emit_head [of p j] by (auto simp: skip_ws_append skip_ws_head value_head_def)

lemma not_ws [simp]: "\<not> is_ws (CHR '','')" "\<not> is_ws (CHR '':'')" "\<not> is_ws (CHR '']'')" "\<not> is_ws (CHR ''}'')"
  by (simp_all add: is_ws_def)

lemma parse_members_key:
  "parse_members (Suc n) (emit_str k @ CHR '':'' # s) =
     (case parse_value n (skip_ws s) of None \<Rightarrow> None
      | Some (v, r3) \<Rightarrow>
        (case skip_ws r3 of [] \<Rightarrow> None
         | e # r4 \<Rightarrow> if e = CHR ''}'' then Some ([(k, v)], r4)
             else if e = CHR '','' then
               map_option (\<lambda>(kvs, q). ((k, v) # kvs, q)) (parse_members n (skip_ws r4))
             else None))"
  by (simp add: emit_str_def parse_str_emit skip_ws_head)

lemma parse_emit:
  shows "wf_seps p \<Longrightarrow> length (emit p j) \<le> n \<Longrightarrow> wf_json j \<Longrightarrow> num_end rest \<Longrightarrow>
      parse_value n (emit p j @ rest) = Some (j, rest)"
    and "wf_seps p \<Longrightarrow> length (emit_items p xs) < n \<Longrightarrow> list_all wf_json xs \<Longrightarrow> xs \<noteq> [] \<Longrightarrow>
      parse_items n (emit_items p xs @ CHR '']'' # rest) = Some (xs, rest)"
    and "wf_seps p \<Longrightarrow> length (emit_members p kvs) < n \<Longrightarrow> list_all (\<lambda>(k, v). wf_json v) kvs \<Longrightarrow> kvs \<noteq> [] \<Longrightarrow>
      parse_members n (emit_members p kvs @ CHR ''}'' # rest) = Some (kvs, rest)"
proof (induction p j and p xs and p kvs arbitrary: n rest and n rest and n rest
    rule: emit_emit_items_emit_members.induct)
  case (1 p)
  then obtain m where "n = Suc m" by (cases n) auto
  then show ?case by (simp add: parse_lit_def quote_def)
next
  case (2 p b)
  then obtain m where "n = Suc m" by (cases n) (auto split: if_splits)
  then show ?case by (simp add: parse_lit_def quote_def)
next
  case (3 p i)
  then obtain m where "n = Suc m" using emit_nonempty [of p "JInt i"] by (cases n) auto
  with 3 show ?case by (simp only: emit.simps parse_value_num)
next
  case (4 p s)
  then obtain m where "n = Suc m" by (cases n) (auto simp: emit_str_def)
  then show ?case by (simp add: emit_str_def parse_str_emit)
next
  case (5 p xs)
  then obtain m where n: "n = Suc m" by (cases n) auto
  show ?case
  proof (cases "xs = []")
    case True
    then show ?thesis using n by (simp add: quote_def skip_ws_head)
  next
    case False
    obtain c cs where c: "emit_items p xs = c # cs" "value_head c" using emit_items_head [OF False] by metis
    have "parse_items m (emit_items p xs @ CHR '']'' # rest) = Some (xs, rest)"
      using 5 n False by (intro "5.IH") auto
    then show ?thesis using n c by (simp add: quote_def skip_ws_head value_head_def)
  qed
next
  case (6 p kvs)
  then obtain m where n: "n = Suc m" by (cases n) auto
  show ?case
  proof (cases "kvs = []")
    case True
    then show ?thesis using n by (simp add: quote_def skip_ws_head)
  next
    case False
    obtain cs where c: "emit_members p kvs = quote # cs" using emit_members_head [OF False] by metis
    have "parse_members m (emit_members p kvs @ CHR ''}'' # rest) = Some (kvs, rest)"
      using 6 n False by (intro "6.IH") auto
    then show ?thesis using n c "6.prems"(3) by (simp add: quote_def skip_ws_head is_ws_def dict_of_distinct)
  qed
next
  case (8 p x xs)
  then obtain m where n: "n = Suc m" by (cases n) auto
  obtain w where w: "item_sep p = CHR '','' # w" "list_all is_ws w" using 8 by (auto elim: item_sep_cases)
  show ?case
  proof (cases "xs = []")
    case True
    have "parse_value m (emit p x @ CHR '']'' # rest) = Some (x, CHR '']'' # rest)"
      using 8 n True by (intro "8.IH"(1)) auto
    then show ?thesis using n True by (simp add: skip_ws_head)
  next
    case False
    let ?t = "CHR '','' # w @ emit_items p xs @ CHR '']'' # rest"
    have "parse_value m (emit p x @ ?t) = Some (x, ?t)"
      using 8 n False by (intro "8.IH"(1)) auto
    moreover have "parse_items m (emit_items p xs @ CHR '']'' # rest) = Some (xs, rest)"
      using 8 n False w by (intro "8.IH"(2)) auto
    ultimately show ?thesis using n False w by (simp add: skip_ws_head skip_ws_items)
  qed
next
  case (10 p k v kvs)
  then obtain m where n: "n = Suc m" by (cases n) auto
  obtain w where w: "item_sep p = CHR '','' # w" "list_all is_ws w" using 10 by (auto elim: item_sep_cases)
  obtain u where u: "key_sep p = CHR '':'' # u" "list_all is_ws u" using 10 by (auto elim: key_sep_cases)
  show ?case
  proof (cases "kvs = []")
    case True
    have "parse_value m (emit p v @ CHR ''}'' # rest) = Some (v, CHR ''}'' # rest)"
      using 10 n True by (intro "10.IH"(1)) auto
    then show ?thesis using n True u
      by (simp add: parse_members_key skip_ws_head skip_ws_value del: parse_members.simps)
  next
    case False
    let ?t = "CHR '','' # w @ emit_members p kvs @ CHR ''}'' # rest"
    have "parse_value m (emit p v @ ?t) = Some (v, ?t)"
      using 10 n False by (intro "10.IH"(1)) auto
    moreover have "parse_members m (emit_members p kvs @ CHR ''}'' # rest) = Some (kvs, rest)"
      using 10 n False w by (intro "10.IH"(2)) auto
    ultimately show ?thesis using n False w u
      by (simp add: parse_members_key skip_ws_head skip_ws_value skip_ws_members del: parse_members.simps)
  qed
qed simp_all

section \<open>The round trip\<close>

lemma loads_emit: "wf_seps p \<Longrightarrow> wf_json j \<Longrightarrow> loads (emit p j) = Some j"
  using parse_emit(1) [of p j "Suc (length (emit p j))" "[]"] skip_ws_value [of "[]" p j "[]"]
  by (simp add: loads_def skip_ws_def)

lemma sort_json_keys: "map fst (map (\<lambda>(k, v). (k, f v)) kvs) = map fst kvs"
  by (simp add: case_prod_beta comp_def)

lemma fst_map_val: "fst \<circ> (\<lambda>(k, v). (k, f v)) = fst"
  by (simp add: fun_eq_iff)

lemma distinct_sort_key: "distinct (map fst (sort_key fst kvs)) = distinct (map fst kvs)"
  by (metis card_distinct distinct_card length_map length_sort set_map set_sort)

lemma wf_sort_json: "wf_json j \<Longrightarrow> wf_json (sort_json j)"
proof (induction j rule: sort_json.induct)
  case (1 xs)
  then show ?case by (simp add: list_all_iff)
next
  case (2 kvs)
  have "wf_json (sort_json v)" if "(k, v) \<in> set kvs" for k v
    using that 2 by (auto simp: list_all_iff)
  with "2.prems" show ?case
    by (auto simp: list_all_iff distinct_sort_key fst_map_val)
qed simp_all

lemma loads_dumps: "wf_seps p \<Longrightarrow> wf_json j \<Longrightarrow> loads (dumps p j) = Some (sort_json j)"
  by (simp add: dumps_def loads_emit wf_sort_json)

lemma dumps_inj:
  "wf_seps p \<Longrightarrow> wf_json a \<Longrightarrow> wf_json b \<Longrightarrow> dumps p a = dumps p b \<longleftrightarrow> sort_json a = sort_json b"
  by (metis dumps_def loads_dumps option.inject)

lemma map_of_sort_key: "distinct (map fst kvs) \<Longrightarrow> map_of (sort_key fst kvs) = map_of kvs"
proof (rule ext)
  fix k
  assume d: "distinct (map fst kvs)"
  then have "map_of (sort_key fst kvs) k = Some v \<longleftrightarrow> map_of kvs k = Some v" for v
    by (simp add: map_of_eq_Some_iff distinct_sort_key)
  then show "map_of (sort_key fst kvs) k = map_of kvs k"
    by (metis not_None_eq)
qed

lemma map_of_map_val: "map_of (map (\<lambda>(k, v). (k, f v)) kvs) k = map_option f (map_of kvs k)"
  by (induction kvs) auto

text \<open>Looking a key up in a value that was written and read back.\<close>

lemma sort_json_lookup:
  "distinct (map fst kvs) \<Longrightarrow> sort_json (JObj kvs) = JObj kvs' \<Longrightarrow> map_of kvs' k = map_option sort_json (map_of kvs k)"
  by (auto simp: map_of_sort_key fst_map_val map_of_map_val)

lemma sort_json_eq_field:
  assumes "sort_json (JObj d) = sort_json (JObj d')" "distinct (map fst d)" "distinct (map fst d')"
  shows "map_option sort_json (map_of d k) = map_option sort_json (map_of d' k)"
proof -
  obtain e where "sort_json (JObj d) = JObj e" "sort_json (JObj d') = JObj e" using assms(1) by simp
  then show ?thesis using assms(2,3) sort_json_lookup by metis
qed

text \<open>Everything \<open>dumps\<close> writes is ASCII, so \<open>encode()\<close> keeps it apart.\<close>

lemma ascii_hex_digit: "n < 16 \<Longrightarrow> ascii_char (hex_digit n)"
  by (drule nat_lt_16_cases) (auto simp: hex_digit_def ascii_char_def)

lemma ascii_esc: "list_all ascii_char (esc_char c)"
  by (simp add: esc_char_def Let_def hex4_def ascii_hex_digit) (simp add: ascii_char_def bslash_def quote_def)

lemma ascii_emit_str: "list_all ascii_char (emit_str s)"
  by (induction s) (simp_all add: emit_str_def ascii_esc, simp_all add: ascii_char_def quote_def)

lemma ascii_digit: "is_digit c \<Longrightarrow> ascii_char c"
  by (simp add: is_digit_def ascii_char_def Let_def)

lemma ascii_dec_nat: "0 \<le> n \<Longrightarrow> list_all ascii_char (dec_nat n)"
  using dec_nat_digits [of n] ascii_digit by (auto simp: list_all_iff)

lemma ascii_dec_int: "list_all ascii_char (dec_int n)"
  using ascii_dec_nat [of n] ascii_dec_nat [of "- n"] by (simp add: dec_int_def) (simp add: ascii_char_def)

definition ascii_seps :: "seps \<Rightarrow> bool" where
  "ascii_seps p \<longleftrightarrow> list_all ascii_char (item_sep p) \<and> list_all ascii_char (key_sep p)"

lemma ascii_compact [simp]: "ascii_seps compact"
  by (simp add: ascii_seps_def compact_def ascii_char_def)

lemma ascii_default_seps [simp]: "ascii_seps default_seps"
  by (simp add: ascii_seps_def default_seps_def ascii_char_def)

lemma ascii_emit:
  shows "ascii_seps p \<Longrightarrow> list_all ascii_char (emit p j)"
    and "ascii_seps p \<Longrightarrow> list_all ascii_char (emit_items p xs)"
    and "ascii_seps p \<Longrightarrow> list_all ascii_char (emit_members p kvs)"
  by (induction p j and p xs and p kvs rule: emit_emit_items_emit_members.induct)
    (simp_all add: ascii_emit_str ascii_dec_int, simp_all add: ascii_char_def ascii_seps_def)

lemma encode_dumps: "ascii_seps p \<Longrightarrow> encode (dumps p j) = lit (dumps p j)"
  by (simp add: dumps_def encode_ascii ascii_emit)

lemma lit_inj: "lit s = lit t \<longleftrightarrow> s = t"
proof
  have inj: "inj (\<lambda>c. of_nat (of_char c) :: byte)"
  proof (rule injI)
    fix c d :: char
    assume "of_nat (of_char c) = (of_nat (of_char d) :: byte)"
    then have "unat (of_nat (of_char c) :: byte) = unat (of_nat (of_char d) :: byte)" by simp
    then have "(of_char c :: nat) = of_char d" by (simp add: unat_of_nat)
    then show "c = d" by simp
  qed
  assume "lit s = lit t"
  then show "s = t" unfolding lit_def by (simp add: inj_map_eq_map [OF inj])
qed simp

text \<open>The bytes that \<open>json.dumps(x).encode()\<close> gives determine the value, up to the order of keys.\<close>

lemma encode_dumps_inj:
  "wf_seps p \<Longrightarrow> ascii_seps p \<Longrightarrow> wf_json a \<Longrightarrow> wf_json b \<Longrightarrow>
   encode (dumps p a) = encode (dumps p b) \<longleftrightarrow> sort_json a = sort_json b"
  by (simp add: encode_dumps lit_inj dumps_inj)

end
