(* ===== verification/Ledger.thy ===== *)
theory Ledger
  imports Json_Proofs
begin

text \<open>
  The ledger record of \<open>Mandate\<close> (\<open>_BLANK\<close> and the entries its operations append), and its
  reading as the Python \<open>dict\<close> that a store holds. \<open>rec_of_json\<close> is \<open>{**_BLANK, **r}\<close>: a key
  that is absent takes its blank value. A value of a type the mandate never writes there gives
  \<open>None\<close>, which the mandate's model turns into a \<open>TypeError\<close>.

  The lemmas are the two round trips: through a \<open>dict\<close> kept as it is, and through one written
  with sorted keys.
\<close>

record dispute =
  dsp_at :: int
  dsp_why :: string

record sighting =
  w_instance :: string
  w_place :: "string option"
  w_at :: int

record move =
  mv_at :: int
  mv_from :: "string option"
  mv_to :: string
  mv_nonce :: json
  mv_any_origin :: bool

record ledger_rec =
  enrolled_instance :: "string option"
  enrolled_place :: "string option"
  observed_instance :: "string option"
  observed_place :: "string option"
  revoked :: bool
  reason :: "string option"
  contention :: "dispute list"
  transfer_authority :: "string option"
  transfers :: "move list"
  consumed_grants :: "json list"
  witnessed :: "sighting list"

definition blank :: ledger_rec where
  "blank = \<lparr>enrolled_instance = None, enrolled_place = None, observed_instance = None,
     observed_place = None, revoked = False, reason = None, contention = [],
     transfer_authority = None, transfers = [], consumed_grants = [], witnessed = []\<rparr>"

section \<open>Values of the language\<close>

text \<open>\<open>bool(x)\<close>, \<open>x == y\<close> (a \<open>bool\<close> equals the \<open>int\<close> of its value, a \<open>dict\<close> ignores order) and \<open>d.get(k)\<close>.\<close>

fun truthy :: "json \<Rightarrow> bool" where
  "truthy JNull = False"
| "truthy (JBool b) = b"
| "truthy (JInt n) = (n \<noteq> 0)"
| "truthy (JStr s) = (s \<noteq> [])"
| "truthy (JList xs) = (xs \<noteq> [])"
| "truthy (JObj kvs) = (kvs \<noteq> [])"

fun py_norm :: "json \<Rightarrow> json" where
  "py_norm (JBool b) = JInt (of_bool b)"
| "py_norm (JList xs) = JList (map py_norm xs)"
| "py_norm (JObj kvs) = JObj (sort_key fst (map (\<lambda>(k, v). (k, py_norm v)) kvs))"
| "py_norm j = j"

definition py_eq :: "json \<Rightarrow> json \<Rightarrow> bool" where
  "py_eq a b \<longleftrightarrow> py_norm a = py_norm b"

definition py_in :: "json \<Rightarrow> json list \<Rightarrow> bool" where
  "py_in a xs \<longleftrightarrow> list_ex (py_eq a) xs"

definition dget :: "dict \<Rightarrow> string \<Rightarrow> json" where
  "dget d k = (case map_of d k of None \<Rightarrow> JNull | Some v \<Rightarrow> v)"

definition dget_or :: "dict \<Rightarrow> string \<Rightarrow> json \<Rightarrow> json" where
  "dget_or d k x = (case map_of d k of None \<Rightarrow> x | Some v \<Rightarrow> v)"

definition dindex :: "dict \<Rightarrow> string \<Rightarrow> json py" where
  "dindex d k = (case map_of d k of None \<Rightarrow> Inl (KeyError k) | Some v \<Rightarrow> Inr v)"

section \<open>The record as a dict\<close>

fun jopt :: "string option \<Rightarrow> json" where
  "jopt None = JNull"
| "jopt (Some s) = JStr s"

definition json_of_dispute :: "dispute \<Rightarrow> json" where
  "json_of_dispute d = JObj [(''at'', JInt (dsp_at d)), (''why'', JStr (dsp_why d))]"

definition json_of_sighting :: "sighting \<Rightarrow> json" where
  "json_of_sighting w = JObj [(''instance'', JStr (w_instance w)), (''place'', jopt (w_place w)), (''at'', JInt (w_at w))]"

definition json_of_move :: "move \<Rightarrow> json" where
  "json_of_move m = JObj [(''at'', JInt (mv_at m)), (''from'', jopt (mv_from m)), (''to'', JStr (mv_to m)),
     (''nonce'', mv_nonce m), (''any_origin'', JBool (mv_any_origin m))]"

definition json_of_rec :: "ledger_rec \<Rightarrow> json" where
  "json_of_rec r = JObj
     [(''enrolled_instance'', jopt (enrolled_instance r)), (''enrolled_place'', jopt (enrolled_place r)),
      (''observed_instance'', jopt (observed_instance r)), (''observed_place'', jopt (observed_place r)),
      (''revoked'', JBool (revoked r)), (''reason'', jopt (reason r)),
      (''contention'', JList (map json_of_dispute (contention r))),
      (''transfer_authority'', jopt (transfer_authority r)),
      (''transfers'', JList (map json_of_move (transfers r))),
      (''consumed_grants'', JList (consumed_grants r)),
      (''witnessed'', JList (map json_of_sighting (witnessed r)))]"

fun opt_of :: "json \<Rightarrow> string option option" where
  "opt_of JNull = Some None"
| "opt_of (JStr s) = Some (Some s)"
| "opt_of _ = None"

fun str_of :: "json \<Rightarrow> string option" where
  "str_of (JStr s) = Some s"
| "str_of _ = None"

fun int_of :: "json \<Rightarrow> int option" where
  "int_of (JInt n) = Some n"
| "int_of (JBool b) = Some (of_bool b)"
| "int_of _ = None"

fun bool_of :: "json \<Rightarrow> bool option" where
  "bool_of (JBool b) = Some b"
| "bool_of _ = None"

fun list_of :: "(json \<Rightarrow> 'a option) \<Rightarrow> json \<Rightarrow> 'a list option" where
  "list_of f (JList xs) = those (map f xs)"
| "list_of f _ = None"

definition need :: "dict \<Rightarrow> string \<Rightarrow> (json \<Rightarrow> 'a option) \<Rightarrow> 'a option" where
  "need d k f = Option.bind (map_of d k) f"

definition field :: "dict \<Rightarrow> string \<Rightarrow> (json \<Rightarrow> 'a option) \<Rightarrow> 'a \<Rightarrow> 'a option" where
  "field d k f x = (case map_of d k of None \<Rightarrow> Some x | Some v \<Rightarrow> f v)"

fun dispute_of :: "json \<Rightarrow> dispute option" where
  "dispute_of (JObj d) =
     Option.bind (need d ''at'' int_of) (\<lambda>a.
     Option.bind (need d ''why'' str_of) (\<lambda>w. Some \<lparr>dsp_at = a, dsp_why = w\<rparr>))"
| "dispute_of _ = None"

fun sighting_of :: "json \<Rightarrow> sighting option" where
  "sighting_of (JObj d) =
     Option.bind (need d ''instance'' str_of) (\<lambda>i.
     Option.bind (field d ''place'' opt_of None) (\<lambda>p.
     Option.bind (need d ''at'' int_of) (\<lambda>a. Some \<lparr>w_instance = i, w_place = p, w_at = a\<rparr>)))"
| "sighting_of _ = None"

fun move_of :: "json \<Rightarrow> move option" where
  "move_of (JObj d) =
     Option.bind (need d ''at'' int_of) (\<lambda>a.
     Option.bind (need d ''from'' opt_of) (\<lambda>f.
     Option.bind (need d ''to'' str_of) (\<lambda>t.
     Option.bind (need d ''nonce'' Some) (\<lambda>n.
     Option.bind (need d ''any_origin'' bool_of) (\<lambda>o'.
       Some \<lparr>mv_at = a, mv_from = f, mv_to = t, mv_nonce = n, mv_any_origin = o'\<rparr>)))))"
| "move_of _ = None"

fun rec_of_json :: "json \<Rightarrow> ledger_rec option" where
  "rec_of_json (JObj d) =
     Option.bind (field d ''enrolled_instance'' opt_of None) (\<lambda>ei.
     Option.bind (field d ''enrolled_place'' opt_of None) (\<lambda>ep.
     Option.bind (field d ''observed_instance'' opt_of None) (\<lambda>oi.
     Option.bind (field d ''observed_place'' opt_of None) (\<lambda>op'.
     Option.bind (field d ''revoked'' bool_of False) (\<lambda>rv.
     Option.bind (field d ''reason'' opt_of None) (\<lambda>rs.
     Option.bind (field d ''contention'' (list_of dispute_of) []) (\<lambda>ct.
     Option.bind (field d ''transfer_authority'' opt_of None) (\<lambda>ta.
     Option.bind (field d ''transfers'' (list_of move_of) []) (\<lambda>tr.
     Option.bind (field d ''consumed_grants'' (list_of Some) []) (\<lambda>cg.
     Option.bind (field d ''witnessed'' (list_of sighting_of) []) (\<lambda>wi.
       Some \<lparr>enrolled_instance = ei, enrolled_place = ep, observed_instance = oi, observed_place = op',
         revoked = rv, reason = rs, contention = ct, transfer_authority = ta, transfers = tr,
         consumed_grants = cg, witnessed = wi\<rparr>)))))))))))"
| "rec_of_json _ = None"

section \<open>Round trips\<close>

text \<open>What a store may do to the record: sort the keys inside a grant's nonce, when that is a dict.\<close>

definition map_nonces :: "(json \<Rightarrow> json) \<Rightarrow> ledger_rec \<Rightarrow> ledger_rec" where
  "map_nonces f r = r\<lparr>transfers := map (\<lambda>m. m\<lparr>mv_nonce := f (mv_nonce m)\<rparr>) (transfers r),
     consumed_grants := map f (consumed_grants r)\<rparr>"

lemma map_nonces_sel [simp]:
  "enrolled_instance (map_nonces f r) = enrolled_instance r"
  "enrolled_place (map_nonces f r) = enrolled_place r"
  "observed_instance (map_nonces f r) = observed_instance r"
  "observed_place (map_nonces f r) = observed_place r"
  "revoked (map_nonces f r) = revoked r"
  "reason (map_nonces f r) = reason r"
  "contention (map_nonces f r) = contention r"
  "transfer_authority (map_nonces f r) = transfer_authority r"
  "witnessed (map_nonces f r) = witnessed r"
  "consumed_grants (map_nonces f r) = map f (consumed_grants r)"
  by (simp_all add: map_nonces_def)

lemma map_nonces_id: "map_nonces (\<lambda>x. x) r = r"
  by (simp add: map_nonces_def map_idI)

lemma those_Some: "(\<And>x. x \<in> set xs \<Longrightarrow> f x = Some (g x)) \<Longrightarrow> those (map f xs) = Some (map g xs)"
  by (induction xs) auto

lemma opt_of_jopt [simp]: "opt_of (jopt x) = Some x"
  by (cases x) auto

lemma sort_jopt [simp]: "sort_json (jopt x) = jopt x"
  by (cases x) auto

text \<open>The fields of a value whose keys were sorted.\<close>

lemma sort_json_fields:
  "distinct (map fst kvs) \<Longrightarrow>
   \<exists>kvs'. sort_json (JObj kvs) = JObj kvs' \<and> (\<forall>k. map_of kvs' k = map_option sort_json (map_of kvs k))"
  by (metis sort_json.simps(2) sort_json_lookup)

lemma dispute_of_json: "dispute_of (json_of_dispute d) = Some d"
  by (simp add: json_of_dispute_def need_def)

lemma dispute_of_sorted: "dispute_of (sort_json (json_of_dispute d)) = Some d"
  using sort_json_fields [of "[(''at'', JInt (dsp_at d)), (''why'', JStr (dsp_why d))]"]
  by (auto simp: json_of_dispute_def need_def)

lemma sighting_of_json: "sighting_of (json_of_sighting w) = Some w"
  by (simp add: json_of_sighting_def need_def field_def)

lemma sighting_of_sorted: "sighting_of (sort_json (json_of_sighting w)) = Some w"
  using sort_json_fields [of "[(''instance'', JStr (w_instance w)), (''place'', jopt (w_place w)), (''at'', JInt (w_at w))]"]
  by (auto simp: json_of_sighting_def need_def field_def)

lemma move_of_json: "move_of (json_of_move m) = Some m"
  by (simp add: json_of_move_def need_def)

lemma move_of_sorted: "move_of (sort_json (json_of_move m)) = Some (m\<lparr>mv_nonce := sort_json (mv_nonce m)\<rparr>)"
  using sort_json_fields [of "[(''at'', JInt (mv_at m)), (''from'', jopt (mv_from m)), (''to'', JStr (mv_to m)),
     (''nonce'', mv_nonce m), (''any_origin'', JBool (mv_any_origin m))]"]
  by (auto simp: json_of_move_def need_def)

lemma rec_of_json_of_rec: "rec_of_json (json_of_rec r) = Some r"
  by (simp add: json_of_rec_def field_def those_Some [where g = "\<lambda>x. x"] comp_def
      dispute_of_json sighting_of_json move_of_json)

lemma rec_of_json_sorted: "rec_of_json (sort_json (json_of_rec r)) = Some (map_nonces sort_json r)"
proof -
  obtain kvs where kvs: "json_of_rec r = JObj kvs" "distinct (map fst kvs)"
    by (simp add: json_of_rec_def)
  from sort_json_fields [OF this(2)] obtain kvs'
    where "sort_json (JObj kvs) = JObj kvs'" "\<And>k. map_of kvs' k = map_option sort_json (map_of kvs k)" by blast
  with kvs show ?thesis
    by (auto simp: json_of_rec_def field_def comp_def map_nonces_def
        dispute_of_sorted sighting_of_sorted move_of_sorted
        those_Some [where g = "\<lambda>x. x"] those_Some [where g = "\<lambda>m. m\<lparr>mv_nonce := sort_json (mv_nonce m)\<rparr>"]
        those_Some [where g = sort_json])
qed

lemma rec_of_empty: "rec_of_json (JObj []) = Some blank"
  by (simp add: field_def blank_def)

text \<open>Sorting keys does not change what a value equals.\<close>

lemma insort_map_val:
  "insort_key fst (k, f v) (map (\<lambda>(k, v). (k, f v)) ys) = map (\<lambda>(k, v). (k, f v)) (insort_key fst (k, v) ys)"
  by (induction ys) auto

lemma sort_map_val: "sort_key fst (map (\<lambda>(k, v). (k, f v)) kvs) = map (\<lambda>(k, v). (k, f v)) (sort_key fst kvs)"
  by (induction kvs) (auto simp: insort_map_val)

lemma py_norm_sort: "wf_json j \<Longrightarrow> py_norm (sort_json j) = py_norm j"
proof (induction j rule: sort_json.induct)
  case (1 xs)
  then show ?case by (simp add: list_all_iff)
next
  case (2 kvs)
  let ?s = "\<lambda>(k, v). (k, sort_json v)" and ?n = "\<lambda>(k, v). (k, py_norm v)"
  have eq: "map (?n \<circ> ?s) kvs = map ?n kvs"
    using 2 by (auto simp: list_all_iff)
  have "py_norm (sort_json (JObj kvs)) = JObj (sort_key fst (map ?n (sort_key fst (map ?s kvs))))" by simp
  also have "\<dots> = JObj (sort_key fst (map (?n \<circ> ?s) kvs))"
    by (simp only: sort_map_val map_map [symmetric] sort_key_id_if_sorted sorted_sort_key)
  finally show ?case using eq by simp
qed simp_all

lemma py_in_map_sort: "list_all wf_json xs \<Longrightarrow> py_in a (map sort_json xs) \<longleftrightarrow> py_in a xs"
  by (induction xs) (auto simp: py_in_def py_eq_def py_norm_sort)

section \<open>Well-formed records\<close>

definition wf_rec :: "ledger_rec \<Rightarrow> bool" where
  "wf_rec r \<longleftrightarrow> list_all wf_json (consumed_grants r) \<and> list_all (\<lambda>m. wf_json (mv_nonce m)) (transfers r)"

lemma wf_jopt [simp]: "wf_json (jopt x)"
  by (cases x) auto

lemma wf_json_of_rec: "wf_rec r \<Longrightarrow> wf_json (json_of_rec r)"
  by (auto simp: wf_rec_def json_of_rec_def json_of_move_def json_of_dispute_def json_of_sighting_def list_all_iff)

lemma wf_blank [simp]: "wf_rec blank"
  by (simp add: wf_rec_def blank_def)

lemma wf_map_nonces: "wf_rec r \<Longrightarrow> wf_rec (map_nonces sort_json r)"
  by (auto simp: wf_rec_def map_nonces_def list_all_iff wf_sort_json)

lemma blank_sel [simp]:
  "enrolled_instance blank = None" "enrolled_place blank = None" "observed_instance blank = None" "\<not> revoked blank"
  "transfer_authority blank = None" "consumed_grants blank = []" "witnessed blank = []" "contention blank = []" "transfers blank = []"
  by (simp_all add: blank_def)

end
