(* ===== verification/Crypto.thy ===== *)
theory Crypto
  imports Prelude
begin

text \<open>
  The third-party code the repository calls: the \<open>cryptography\<close> package's keys, ECDSA signatures
  and PKCS#10 requests. It is a parameter of the development: a record of functions. A private
  key is a handle (bytes), a public key its SubjectPublicKeyInfo in DER; a signature depends on
  the randomness of the call. A function that can raise returns \<open>exn + 'a\<close>.

  \<open>sig_correct\<close> and \<open>csr_correct\<close> are the documented behaviour some theorems rely on: what was
  signed verifies under the key's public half. Nothing is assumed about forgery.
\<close>

datatype sig_hash = WithSHA256 | WithSHA384

record crypto =
  public_key_of :: "bytes \<Rightarrow> bytes"
  sign_with :: "bytes \<Rightarrow> sig_hash \<Rightarrow> bytes \<Rightarrow> bytes \<Rightarrow> bytes"
    \<comment> \<open>private key, hash, randomness, message\<close>
  load_public :: "bytes \<Rightarrow> unit py"
    \<comment> \<open>\<open>load_der_public_key\<close>\<close>
  verify_with :: "bytes \<Rightarrow> sig_hash \<Rightarrow> bytes \<Rightarrow> bytes \<Rightarrow> unit py"
    \<comment> \<open>public key, hash, signature, message: \<open>pub.verify\<close>\<close>
  build_csr :: "bytes \<Rightarrow> string \<Rightarrow> bytes \<Rightarrow> bytes"
    \<comment> \<open>private key, common name, randomness: \<open>CertificateSigningRequestBuilder\<close>\<close>
  load_csr :: "bytes \<Rightarrow> (bool \<times> bytes) py"
    \<comment> \<open>\<open>load_der_x509_csr\<close>: \<open>is_signature_valid\<close> and the public key carried\<close>

definition sig_correct :: "crypto \<Rightarrow> bool" where
  "sig_correct C \<longleftrightarrow> (\<forall>k h r m. load_public C (public_key_of C k) = Inr ()
     \<and> verify_with C (public_key_of C k) h (sign_with C k h r m) m = Inr ())"

definition csr_correct :: "crypto \<Rightarrow> bool" where
  "csr_correct C \<longleftrightarrow> (\<forall>k cn r. load_csr C (build_csr C k cn r) = Inr (True, public_key_of C k))"

lemma sig_correctD:
  "sig_correct C \<Longrightarrow> load_public C (public_key_of C k) = Inr ()"
  "sig_correct C \<Longrightarrow> verify_with C (public_key_of C k) h (sign_with C k h r m) m = Inr ()"
  by (simp_all add: sig_correct_def)

lemma csr_correctD: "csr_correct C \<Longrightarrow> load_csr C (build_csr C k cn r) = Inr (True, public_key_of C k)"
  by (simp add: csr_correct_def)

text \<open>A scheme with the documented behaviour, for evaluating examples: a signature is the key and the message.\<close>

definition sample_crypto :: crypto where
  "sample_crypto = \<lparr>
     public_key_of = (\<lambda>k. k),
     sign_with = (\<lambda>k h r m. k @ m),
     load_public = (\<lambda>p. Inr ()),
     verify_with = (\<lambda>p h s m. if s = p @ m then Inr () else Inl (LibError ''invalid signature'')),
     build_csr = (\<lambda>k cn r. k),
     load_csr = (\<lambda>d. Inr (True, d))\<rparr>"

lemma sample_sig_correct: "sig_correct sample_crypto"
  by (simp add: sig_correct_def sample_crypto_def)

lemma sample_csr_correct: "csr_correct sample_crypto"
  by (simp add: csr_correct_def sample_crypto_def)

end
