(* ===== verification/Tee.thy ===== *)
theory Tee
  imports Base64 Ledger Sha2 Crypto
begin

text \<open>
  \<open>hatls/tee.py\<close>: Evidence and what is read out of it. The anchor of a platform, the mock TEE and
  its verifier, the SEV-SNP report and TDX body parsers with their anchor rules, and the SEV-SNP
  verifier with its certificate fetch, retry loop and chain check.

  Outside the repository, so parameters: ECDSA (\<open>crypto\<close>), X.509 and OpenSSL (\<open>x509_lib\<close>), the
  reply of the network to each attempt (\<open>http\<close>). The cache directory is a map that is passed on.

  The locale \<open>report_verifier\<close> is what the mandate needs of \<open>verify_report\<close>: accepted Evidence
  binds one value of REPORT_DATA, and an anchor that is given is never blank. It is interpreted on
  both verifiers.
\<close>

unbundle bit_operations_syntax

section \<open>Anchors\<close>

record anchor =
  anchor_instance :: bytes
  anchor_place :: "bytes option"

definition present_id :: "bytes option \<Rightarrow> bytes option" where
  "present_id v = (case v of None \<Rightarrow> None | Some b \<Rightarrow> if \<not> any_set b then None else Some b)"

section \<open>The mock TEE\<close>

record mock_tee =
  mock_chip :: bytes
  mock_instance :: bytes
  mock_key :: bytes
  mock_pub :: bytes

text \<open>\<open>rnd\<close> is the \<open>os.urandom(32)\<close> of a TEE that was given no instance, \<open>key\<close> the generated P-384 key.\<close>

definition mock_tee_new :: "crypto \<Rightarrow> bytes \<Rightarrow> bytes option \<Rightarrow> bytes \<Rightarrow> bytes \<Rightarrow> mock_tee" where
  "mock_tee_new C chip_id instance_id rnd key =
     \<lparr>mock_chip = chip_id,
      mock_instance = (case instance_id of Some i \<Rightarrow> i | None \<Rightarrow> rnd),
      mock_key = key, mock_pub = public_key_of C key\<rparr>"

definition mock_report :: "crypto \<Rightarrow> mock_tee \<Rightarrow> bytes \<Rightarrow> bytes \<Rightarrow> json" where
  "mock_report C t rnd rd =
     (let body = mock_instance t @ mock_chip t @ rd;
          sig = sign_with C (mock_key t) WithSHA384 rnd body
      in JObj [(''kind'', JStr ''mock''), (''instance'', JStr (hex (mock_instance t))),
               (''chip'', JStr (hex (mock_chip t))), (''report_data'', JStr (hex rd)),
               (''pub'', JStr (hex (mock_pub t))), (''sig'', JStr (hex sig))])"

text \<open>\<open>bytes.fromhex(x)\<close> and \<open>x in some_set_of_strings\<close>, for an arbitrary value \<open>x\<close>.\<close>

fun fromhex_json :: "json \<Rightarrow> bytes py" where
  "fromhex_json (JStr s) = fromhex s"
| "fromhex_json _ = Inl (TypeError ''fromhex() argument must be str'')"

fun in_str_set :: "json \<Rightarrow> string list \<Rightarrow> bool py" where
  "in_str_set (JStr s) xs = Inr (s \<in> set xs)"
| "in_str_set (JList _) xs = Inl (TypeError ''unhashable type'')"
| "in_str_set (JObj _) xs = Inl (TypeError ''unhashable type'')"
| "in_str_set _ xs = Inr False"

definition mock_verifier :: "crypto \<Rightarrow> string list \<Rightarrow> json \<Rightarrow> bytes \<Rightarrow> (bool \<times> anchor option) py" where
  "mock_verifier C trusted_pubs ev expected_rd = (case ev of
     JObj d \<Rightarrow>
       if dget d ''kind'' \<noteq> JStr ''mock'' then Inr (False, None)
       else py_bind (dindex d ''pub'') (\<lambda>jpub.
         py_bind (in_str_set jpub trusted_pubs) (\<lambda>trusted.
         if \<not> trusted then Inr (False, None)
         else py_bind (dindex d ''report_data'') (\<lambda>jrd.
           py_bind (fromhex_json jrd) (\<lambda>rd.
           if rd \<noteq> expected_rd then Inr (False, None)
           else
             py_bind (fromhex_json jpub) (\<lambda>spki.
             py_bind (load_public C spki) (\<lambda>_.
             py_bind (py_bind (dindex d ''chip'') fromhex_json) (\<lambda>chip.
             py_bind (py_bind (dindex d ''instance'') fromhex_json) (\<lambda>inst.
             if \<not> py_ok (py_bind (py_bind (dindex d ''sig'') fromhex_json) (\<lambda>sig.
                     verify_with C spki WithSHA384 sig (inst @ chip @ rd)))
             then Inr (False, None)
             else if present_id (Some inst) = None then Inr (True, None)
             else Inr (True, Some \<lparr>anchor_instance = inst, anchor_place = present_id (Some chip)\<rparr>)))))))))
   | _ \<Rightarrow> Inl (AttributeError ''object has no attribute get''))"

section \<open>SEV-SNP reports\<close>

text \<open>\<open>SevSnpTEE.report\<close>; \<open>out\<close> is what the guest probe printed.\<close>

definition snp_evidence :: "bytes \<Rightarrow> bytes \<Rightarrow> json" where
  "snp_evidence raw rd = JObj [(''kind'', JStr ''sev-snp''), (''report'', JStr (b64encode raw)),
     (''report_data'', JStr (hex rd))]"

definition sevsnp_report :: "(string \<Rightarrow> string py) \<Rightarrow> bytes \<Rightarrow> json py" where
  "sevsnp_report probe rd =
     py_bind (probe (hex rd)) (\<lambda>out.
     py_bind (fromhex out) (\<lambda>raw. Inr (snp_evidence raw rd)))"

datatype sk_name = SkName string | SkInt int

record snp_fields =
  snp_version :: int
  snp_product :: string
  snp_signing_key :: sk_name
  snp_mask_chip_key :: int
  snp_policy :: int
  snp_chip_id :: bytes
  snp_chip_id_zero :: bool
  snp_measurement :: bytes
  snp_host_data :: bytes
  snp_report_id :: bytes
  snp_report_data :: bytes
  snp_tcb :: "int \<times> int \<times> int \<times> int"

definition POLICY_DEBUG :: int where
  "POLICY_DEBUG = 2 ^ 19"

text \<open>\<open>struct.unpack_from("<I", b, off)\<close> and \<open>"<Q"\<close>.\<close>

definition u32_at :: "bytes \<Rightarrow> nat \<Rightarrow> int" where
  "u32_at b off = from_le (slice off (off + 4) b)"

definition u64_at :: "bytes \<Rightarrow> nat \<Rightarrow> int" where
  "u64_at b off = from_le (slice off (off + 8) b)"

definition snp_product_of :: "int \<Rightarrow> bytes \<Rightarrow> string" where
  "snp_product_of ver b =
     (if ver < 3 then ''Milan''
      else let fam = uint (b ! 0x188); md = uint (b ! 0x189) in
        if fam = 0x19 \<and> md \<le> 0x0f then ''Milan''
        else if fam = 0x19 \<and> 0x10 \<le> md \<and> md \<le> 0x1f then ''Genoa''
        else if fam = 0x1a then ''Turin'' else ''Milan'')"

definition snp_key_name :: "int \<Rightarrow> sk_name" where
  "snp_key_name flags = (let k = (drop_bit 2 flags) AND 7 in
     if k = 0 then SkName ''VCEK'' else if k = 1 then SkName ''VLEK''
     else if k = 7 then SkName ''none'' else SkInt k)"

definition parse_snp :: "bytes \<Rightarrow> snp_fields py" where
  "parse_snp b =
     (if length b \<noteq> 1184 then Inl (ValueError (''not a 1184-byte report: '' @ dec_int (int (length b))))
      else let flags = u32_at b 0x48; tcb = u64_at b 0x180; ver = u32_at b 0x00;
               chip = slice 0x1A0 (0x1A0 + 64) b in
        Inr \<lparr>snp_version = ver,
             snp_product = snp_product_of ver b,
             snp_signing_key = snp_key_name flags,
             snp_mask_chip_key = (drop_bit 1 flags) AND 1,
             snp_policy = u64_at b 0x08,
             snp_chip_id = chip, snp_chip_id_zero = (chip = zeros 64),
             snp_measurement = slice 0x90 (0x90 + 48) b,
             snp_host_data = slice 0xC0 (0xC0 + 32) b,
             snp_report_id = slice 0x140 (0x140 + 32) b,
             snp_report_data = slice 0x50 (0x50 + 64) b,
             snp_tcb = (tcb AND 0xff, (drop_bit 8 tcb) AND 0xff, (drop_bit 48 tcb) AND 0xff, (drop_bit 56 tcb) AND 0xff)\<rparr>)"

definition snp_anchor :: "snp_fields \<Rightarrow> anchor option" where
  "snp_anchor f = (case present_id (Some (snp_report_id f)) of
     None \<Rightarrow> None
   | Some inst \<Rightarrow> Some \<lparr>anchor_instance = inst,
       anchor_place = (if snp_mask_chip_key f \<noteq> 0 \<or> snp_chip_id_zero f then None else Some (snp_chip_id f))\<rparr>)"

section \<open>TDX\<close>

record tdx_fields =
  tdx_mrtd :: bytes
  tdx_mrconfigid :: bytes
  tdx_mrowner :: bytes
  tdx_mrownerconfig :: bytes
  tdx_rtmr0 :: bytes
  tdx_rtmr1 :: bytes
  tdx_rtmr2 :: bytes
  tdx_rtmr3 :: bytes
  tdx_report_data :: bytes
  tdx_mac :: "bytes option"
  tdx_kind :: string

definition parse_tdreport :: "bytes \<Rightarrow> tdx_fields py" where
  "parse_tdreport b =
     (if length b \<noteq> 1024 then Inl (ValueError (''not a 1024-byte TDREPORT: '' @ dec_int (int (length b))))
      else let reg = (\<lambda>off. slice off (off + 48) b) in
        Inr \<lparr>tdx_mrtd = reg 528, tdx_mrconfigid = reg 576, tdx_mrowner = reg 624, tdx_mrownerconfig = reg 672,
          tdx_rtmr0 = reg 720, tdx_rtmr1 = reg 768, tdx_rtmr2 = reg 816, tdx_rtmr3 = reg 864,
          tdx_report_data = slice 128 192 b, tdx_mac = Some (slice 224 256 b), tdx_kind = ''tdreport''\<rparr>)"

definition parse_tdx_quote :: "bytes \<Rightarrow> tdx_fields py" where
  "parse_tdx_quote q =
     (if length q < 632 \<or> from_le (slice 0 2 q) \<noteq> 4 then Inl (ValueError ''not a Quote v4'')
      else let body = slice 48 632 q; reg = (\<lambda>off. slice off (off + 48) body) in
        Inr \<lparr>tdx_mrtd = reg 136, tdx_mrconfigid = reg 184, tdx_mrowner = reg 232, tdx_mrownerconfig = reg 280,
          tdx_rtmr0 = reg 328, tdx_rtmr1 = reg 376, tdx_rtmr2 = reg 424, tdx_rtmr3 = reg 472,
          tdx_report_data = slice 520 584 body, tdx_mac = None, tdx_kind = ''tdx-quote''\<rparr>)"

definition tdx_anchor :: "tdx_fields \<Rightarrow> anchor option" where
  "tdx_anchor f = (let r = tdx_rtmr3 f in
     if r = zeros 48 then None else Some \<lparr>anchor_instance = r, anchor_place = None\<rparr>)"

section \<open>Certificates of the SEV-SNP verifier\<close>

text \<open>The X.509 and OpenSSL functions the verifier calls; a certificate is its DER encoding.\<close>

record x509_lib =
  x_pem_to_der :: "bytes \<Rightarrow> bytes py"
  x_load_der :: "bytes \<Rightarrow> unit py"
  x_verify_rs :: "bytes \<Rightarrow> int \<Rightarrow> int \<Rightarrow> bytes \<Rightarrow> unit py"
  x_openssl_pem :: "bytes \<Rightarrow> bytes py"
  x_verify_chain :: "bytes \<Rightarrow> bytes \<Rightarrow> bytes \<Rightarrow> unit py"
    \<comment> \<open>trust anchor, intermediate, leaf\<close>

datatype http_reply =
    HttpBody bytes
  | HttpStatus nat string
  | HttpRaise exn

type_synonym http = "string \<Rightarrow> nat \<Rightarrow> http_reply"
type_synonym cache = "string \<Rightarrow> bytes option"

text \<open>The attempts of \<open>_get\<close>: only status 429 is tried again.\<close>

fun kds_loop :: "http \<Rightarrow> string \<Rightarrow> nat list \<Rightarrow> bytes py" where
  "kds_loop h url [] = Inl (RuntimeError (''KDS rate-limited after retries: '' @ url))"
| "kds_loop h url (a # as) = (case h url a of
     HttpBody d \<Rightarrow> Inr d
   | HttpStatus code msg \<Rightarrow> if code = 429 then kds_loop h url as else Inl (LibError msg)
   | HttpRaise e \<Rightarrow> Inl e)"

definition kds_get :: "http \<Rightarrow> cache \<Rightarrow> string \<Rightarrow> string \<Rightarrow> bytes py \<times> cache" where
  "kds_get h cache url cache_key = (case cache cache_key of
     Some d \<Rightarrow> (Inr d, cache)
   | None \<Rightarrow> (case kds_loop h url [0..<6] of
       Inl e \<Rightarrow> (Inl e, cache)
     | Inr d \<Rightarrow> (Inr d, cache(cache_key \<mapsto> d))))"

fun sk_str :: "sk_name \<Rightarrow> string" where
  "sk_str (SkName s) = s"
| "sk_str (SkInt n) = dec_int n"

definition vcek_url :: "snp_fields \<Rightarrow> string" where
  "vcek_url f = (case snp_tcb f of (t0, t1, t2, t3) \<Rightarrow>
     ''https://kdsintf.amd.com/vcek/v1/'' @ snp_product f @ ''/'' @ hex (snp_chip_id f)
       @ ''?blSPL='' @ dec_int t0 @ ''&teeSPL='' @ dec_int t1 @ ''&snpSPL='' @ dec_int t2 @ ''&ucodeSPL='' @ dec_int t3)"

definition leaf_cert :: "x509_lib \<Rightarrow> http \<Rightarrow> cache \<Rightarrow> snp_fields \<Rightarrow> bytes option \<Rightarrow> bytes py \<times> cache" where
  "leaf_cert X h cache f supplied_pem =
     (if snp_signing_key f = SkName ''VLEK'' then
        ((case supplied_pem of
            None \<Rightarrow> Inl (ValueError ''VLEK-signed report and no leaf certificate supplied: AMD KDS does not publish it by CHIP_ID, so the guest must pass the one from its host certificate table'')
          | Some pem \<Rightarrow> py_bind (x_pem_to_der X pem) (\<lambda>der. py_bind (x_load_der X der) (\<lambda>_. Inr der))), cache)
      else if snp_signing_key f \<noteq> SkName ''VCEK'' then
        (Inl (ValueError (sk_str (snp_signing_key f) @ ''-signed report: unsupported signing key'')), cache)
      else let url = vcek_url f in
        (case kds_get h cache url (take 32 (hex (sha256 (encode url))) @ ''.der'') of
           (Inl e, cache') \<Rightarrow> (Inl e, cache')
         | (Inr der, cache') \<Rightarrow> (py_bind (x_load_der X der) (\<lambda>_. Inr der), cache')))"

text \<open>\<open>re.findall(b"-----BEGIN CERTIFICATE-----.*?-----END CERTIFICATE-----", pem, re.S)\<close>.\<close>

fun find_sub :: "bytes \<Rightarrow> bytes \<Rightarrow> (bytes \<times> bytes) option" where
  "find_sub pat [] = (if pat = [] then Some ([], []) else None)"
| "find_sub pat (c # r) =
     (if take (length pat) (c # r) = pat then Some ([], drop (length pat) (c # r))
      else map_option (\<lambda>(a, b). (c # a, b)) (find_sub pat r))"

lemma find_sub_shorter: "find_sub pat s = Some (a, b) \<Longrightarrow> length b + length pat \<le> length s"
proof (induction pat s arbitrary: a b rule: find_sub.induct)
  case (2 pat c r)
  show ?case
  proof (cases "take (length pat) (c # r) = pat")
    case True
    then have "length pat \<le> length (c # r)" by (metis length_take min.cobounded1)
    with 2 True show ?thesis by auto
  next
    case False
    with 2 show ?thesis by fastforce
  qed
qed (auto split: if_splits)

definition pem_begin :: bytes where "pem_begin = lit ''-----BEGIN CERTIFICATE-----''"
definition pem_end :: bytes where "pem_end = lit ''-----END CERTIFICATE-----''"

function pem_blocks :: "bytes \<Rightarrow> bytes list" where
  "pem_blocks s = (case find_sub pem_begin s of
     None \<Rightarrow> []
   | Some (_, r) \<Rightarrow> (case find_sub pem_end r of
       None \<Rightarrow> []
     | Some (m, r') \<Rightarrow> (pem_begin @ m @ pem_end) # pem_blocks r'))"
  by pat_completeness auto
termination
proof (relation "measure length", goal_cases)
  case (2 s p a r q m r')
  then show ?case
    using find_sub_shorter [of pem_begin s a r] find_sub_shorter [of pem_end r m r']
    by (simp add: pem_begin_def len_simps)
qed simp

declare pem_blocks.simps [simp del]

definition chain_ok ::
  "x509_lib \<Rightarrow> http \<Rightarrow> string option \<Rightarrow> cache \<Rightarrow> bytes \<Rightarrow> snp_fields \<Rightarrow> (bool \<times> string) py \<times> cache" where
  "chain_ok X h ark_sha256 cache leaf_der f =
     (let kind = (if snp_signing_key f = SkName ''VLEK'' then ''vlek'' else ''vcek'') in
      case kds_get h cache (''https://kdsintf.amd.com/'' @ kind @ ''/v1/'' @ snp_product f @ ''/cert_chain'')
             (snp_product f @ ''-'' @ kind @ ''-chain.pem'') of
        (Inl e, cache') \<Rightarrow> (Inl e, cache')
      | (Inr pem, cache') \<Rightarrow>
          (let blocks = pem_blocks pem in
           if length blocks < 2
           then Inr (False, ''AMD chain did not contain the intermediate and ARK'')
           else py_bind (py_map (x_openssl_pem X) blocks) (\<lambda>certs.
             let ask = hd certs; ark = last certs in
             if (case ark_sha256 of None \<Rightarrow> False | Some p \<Rightarrow> p \<noteq> [] \<and> hex (sha256 ark) \<noteq> p)
             then Inr (False, ''AMD root key does not match the pinned value'')
             else (case x_verify_chain X ark ask leaf_der of
                 Inr _ \<Rightarrow> Inr (True, ''chain ok'')
               | Inl e \<Rightarrow> Inr (False, ''certificate chain broken: '' @ exn_str e))), cache'))"

section \<open>The SEV-SNP verifier\<close>

record snp_policy_cfg =
  require_chain :: bool
  allow_debug :: bool
  pinned_measurement :: "bytes option"
  pinned_ark :: "string option"

fun b64_json :: "json \<Rightarrow> bytes py" where
  "b64_json (JStr s) = b64decode s"
| "b64_json _ = Inl (TypeError ''argument should be a bytes-like object or ASCII string'')"

text \<open>\<open>supplied.encode() if supplied else None\<close>.\<close>

definition supplied_pem_of :: "json \<Rightarrow> bytes option py" where
  "supplied_pem_of j = (if \<not> truthy j then Inr None
     else case j of JStr s \<Rightarrow> Inr (Some (encode s))
          | _ \<Rightarrow> Inl (AttributeError ''object has no attribute encode''))"

text \<open>The second \<open>try\<close>: leaf certificate, report signature, chain. \<open>Inr False\<close> is its \<open>return False, None\<close>.\<close>

definition snp_signature_ok ::
  "x509_lib \<Rightarrow> http \<Rightarrow> snp_policy_cfg \<Rightarrow> cache \<Rightarrow> dict \<Rightarrow> bytes \<Rightarrow> snp_fields \<Rightarrow> bool py \<times> cache" where
  "snp_signature_ok X h cfg cache d b f = (case supplied_pem_of (dget d ''leaf_pem'') of
     Inl e \<Rightarrow> (Inl e, cache)
   | Inr supplied \<Rightarrow> (case leaf_cert X h cache f supplied of
       (Inl e, c1) \<Rightarrow> (Inl e, c1)
     | (Inr der, c1) \<Rightarrow>
         (let r = from_le (slice 0x2A0 (0x2A0 + 48) b); s = from_le (slice (0x2A0 + 72) (0x2A0 + 120) b) in
          case x_verify_rs X der r s (take 0x2A0 b) of
            Inl e \<Rightarrow> (Inl e, c1)
          | Inr _ \<Rightarrow>
              if require_chain cfg then
                (case chain_ok X h (pinned_ark cfg) c1 der f of
                   (Inl e, c2) \<Rightarrow> (Inl e, c2)
                 | (Inr (ok, _), c2) \<Rightarrow> (Inr ok, c2))
              else (Inr True, c1))))"

definition sevsnp_verifier ::
  "x509_lib \<Rightarrow> http \<Rightarrow> snp_policy_cfg \<Rightarrow> cache \<Rightarrow> json \<Rightarrow> bytes \<Rightarrow> (bool \<times> anchor option) py \<times> cache" where
  "sevsnp_verifier X h cfg cache ev expected_rd = (case ev of
     JObj d \<Rightarrow>
       if dget d ''kind'' \<noteq> JStr ''sev-snp'' then (Inr (False, None), cache)
       else (case py_bind (dindex d ''report'') (\<lambda>j. py_bind (b64_json j) (\<lambda>b. py_bind (parse_snp b) (\<lambda>f. Inr (b, f)))) of
          Inl _ \<Rightarrow> (Inr (False, None), cache)
        | Inr (b, f) \<Rightarrow>
            if snp_report_data f \<noteq> expected_rd then (Inr (False, None), cache)
            else if snp_policy f AND POLICY_DEBUG \<noteq> 0 \<and> \<not> allow_debug cfg then (Inr (False, None), cache)
            else if (case pinned_measurement cfg of None \<Rightarrow> False | Some m \<Rightarrow> snp_measurement f \<noteq> m)
            then (Inr (False, None), cache)
            else (case snp_signature_ok X h cfg cache d b f of
                (Inr True, c') \<Rightarrow> (Inr (True, snp_anchor f), c')
              | (_, c') \<Rightarrow> (Inr (False, None), c')))
   | _ \<Rightarrow> (Inl (AttributeError ''object has no attribute get''), cache))"

section \<open>The contract of a verifier\<close>

definition usable_anchor :: "anchor \<Rightarrow> bool" where
  "usable_anchor a \<longleftrightarrow> any_set (anchor_instance a) \<and>
     (case anchor_place a of None \<Rightarrow> True | Some p \<Rightarrow> any_set p)"

locale report_verifier =
  fixes verify :: "json \<Rightarrow> bytes \<Rightarrow> (bool \<times> anchor option) py"
  assumes one_value: "verify ev rd = Inr (True, a) \<Longrightarrow> verify ev rd' = Inr (True, a') \<Longrightarrow> rd = rd'"
    and usable: "verify ev rd = Inr (True, Some an) \<Longrightarrow> usable_anchor an"
    and refused: "verify ev rd = Inr (False, a) \<Longrightarrow> a = None"
begin

lemma other_value_refused:
  "verify ev rd = Inr (True, a) \<Longrightarrow> rd \<noteq> rd' \<Longrightarrow> verify ev rd' \<noteq> Inr (True, a')"
  using one_value by blast

lemma anchor_nonempty: "verify ev rd = Inr (True, Some a) \<Longrightarrow> anchor_instance a \<noteq> []"
  using usable by (fastforce simp: usable_anchor_def any_set_def)

end

lemma present_id_Some: "present_id (Some b) = Some c \<longleftrightarrow> b = c \<and> any_set c"
  by (auto simp: present_id_def)

lemma present_id_None: "present_id (Some b) = None \<longleftrightarrow> \<not> any_set b"
  by (simp add: present_id_def)

lemma usable_present:
  "any_set i \<Longrightarrow> usable_anchor \<lparr>anchor_instance = i, anchor_place = present_id p\<rparr>"
  by (auto simp: usable_anchor_def present_id_def split: option.splits)

lemma usable_snp_anchor:
  assumes "parse_snp b = Inr f" "snp_anchor f = Some a"
  shows "usable_anchor a"
proof -
  have "length b = 1184" and f: "snp_chip_id f = slice 0x1A0 (0x1A0 + 64) b"
    "snp_chip_id_zero f \<longleftrightarrow> slice 0x1A0 (0x1A0 + 64) b = zeros 64"
    using assms(1) by (auto simp: parse_snp_def Let_def split: if_splits)
  then have "length (snp_chip_id f) = 64" by (simp add: len_simps)
  with f have "any_set (snp_chip_id f) \<longleftrightarrow> \<not> snp_chip_id_zero f"
    by (metis any_set_zeros not_any_set_iff)
  then show ?thesis
    using assms(2) by (auto simp: snp_anchor_def usable_anchor_def present_id_Some split: option.splits if_splits)
qed

text \<open>What the mock verifier accepts.\<close>

lemma in_str_set_True: "in_str_set j xs = Inr True \<longleftrightarrow> (\<exists>s. j = JStr s \<and> s \<in> set xs)"
  by (cases j) auto

lemma mock_verifier_True:
  assumes "mock_verifier C trusted ev rd = Inr (True, a)"
  obtains d pub j spki chip inst sig where "ev = JObj d" "dget d ''kind'' = JStr ''mock''"
    "dindex d ''pub'' = Inr (JStr pub)" "pub \<in> set trusted" "dindex d ''report_data'' = Inr j" "fromhex_json j = Inr rd"
    "fromhex pub = Inr spki" "load_public C spki = Inr ()"
    "verify_with C spki WithSHA384 sig (inst @ chip @ rd) = Inr ()"
    "a = (if any_set inst then Some \<lparr>anchor_instance = inst, anchor_place = present_id (Some chip)\<rparr> else None)"
  using assms
  by (cases ev) (auto simp: mock_verifier_def py_bind_Inr_iff py_ok_iff in_str_set_True present_id_None split: if_splits)

lemma mock_verifier_False: "mock_verifier C trusted ev rd = Inr (False, a) \<Longrightarrow> a = None"
  by (cases ev) (auto simp: mock_verifier_def py_bind_Inr_iff split: if_splits)

lemma mock_verifies_report:
  assumes "sig_correct C" "hex (mock_pub t) \<in> set trusted" "mock_pub t = public_key_of C (mock_key t)"
  shows "mock_verifier C trusted (mock_report C t rnd rd) rd = Inr (True,
     if any_set (mock_instance t) then Some \<lparr>anchor_instance = mock_instance t, anchor_place = present_id (Some (mock_chip t))\<rparr>
     else None)"
  using assms by (simp add: mock_verifier_def mock_report_def Let_def dget_def dindex_def sig_correctD present_id_None)

interpretation mock: report_verifier "mock_verifier C trusted" for C trusted
proof unfold_locales
  fix ev rd rd' a a'
  assume "mock_verifier C trusted ev rd = Inr (True, a)" "mock_verifier C trusted ev rd' = Inr (True, a')"
  then show "rd = rd'" by (auto elim!: mock_verifier_True)
next
  fix ev rd a
  assume "mock_verifier C trusted ev rd = Inr (True, Some a)"
  then show "usable_anchor a"
    by (auto elim!: mock_verifier_True intro: usable_present split: if_splits)
qed (rule mock_verifier_False)

text \<open>What the SEV-SNP verifier accepts.\<close>

lemma sevsnp_verifier_True:
  assumes "fst (sevsnp_verifier X h cfg cache ev rd) = Inr (True, a)"
  obtains d j b f where "ev = JObj d" "dindex d ''report'' = Inr j" "b64_json j = Inr b" "parse_snp b = Inr f"
    "snp_report_data f = rd" "allow_debug cfg \<or> snp_policy f AND POLICY_DEBUG = 0"
    "\<forall>m. pinned_measurement cfg = Some m \<longrightarrow> snp_measurement f = m"
    "fst (snp_signature_ok X h cfg cache d b f) = Inr True" "a = snp_anchor f"
  using assms
  by (cases ev) (auto simp: sevsnp_verifier_def py_bind_Inr_iff split: if_splits sum.splits prod.splits option.splits bool.splits)

lemma sevsnp_verifier_False: "fst (sevsnp_verifier X h cfg cache ev rd) = Inr (False, a) \<Longrightarrow> a = None"
  by (cases ev) (auto simp: sevsnp_verifier_def split: if_splits sum.splits prod.splits option.splits bool.splits)

interpretation snp: report_verifier "\<lambda>ev rd. fst (sevsnp_verifier X h cfg cache ev rd)" for X h cfg cache
proof unfold_locales
  fix ev rd rd' a a'
  assume 1: "fst (sevsnp_verifier X h cfg cache ev rd) = Inr (True, a)"
    and 2: "fst (sevsnp_verifier X h cfg cache ev rd') = Inr (True, a')"
  show "rd = rd'" using 1 2 by (auto elim!: sevsnp_verifier_True)
next
  fix ev rd a
  assume "fst (sevsnp_verifier X h cfg cache ev rd) = Inr (True, Some a)"
  then show "usable_anchor a" by (auto elim!: sevsnp_verifier_True intro: usable_snp_anchor)
qed (rule sevsnp_verifier_False)

end
