(* ===== verification/Attester.thy ===== *)
theory Attester
  imports Binder Tee
begin

text \<open>
  The attester's side of \<open>hatls/protocol.py\<close>: the enrolment request and its check, and \<open>Attester\<close>,
  which walks a chain of links and has its TEE sign each. The TEE is the function \<open>report\<close> of the
  call; where it raises, the chain does not advance.
\<close>

section \<open>Enrolment requests\<close>

definition make_enrolment_csr :: "crypto \<Rightarrow> bytes \<Rightarrow> string \<Rightarrow> bytes \<Rightarrow> bytes" where
  "make_enrolment_csr C tik_private_key subject_cn rnd = build_csr C tik_private_key subject_cn rnd"

definition csr_public_key_der :: "crypto \<Rightarrow> bytes \<Rightarrow> bytes py" where
  "csr_public_key_der C csr_der = py_bind (load_csr C csr_der) (\<lambda>(valid, spki).
     if \<not> valid then Inl (ValueError ''CSR signature invalid: no proof of possession'') else Inr spki)"

section \<open>The chain\<close>

record message =
  msg_counter :: int
  msg_intra_ok_base :: bool
  msg_post_link :: string
  msg_evidence :: json
  msg_head :: "string option"

record attester =
  at_tik_pub :: bytes
  at_prev :: "bytes option"
  at_counter :: int

definition attester_new :: "bytes \<Rightarrow> attester" where
  "attester_new tik_pub = \<lparr>at_tik_pub = tik_pub, at_prev = None, at_counter = 0\<rparr>"

definition attest ::
  "(bytes \<Rightarrow> json py) \<Rightarrow> attester \<Rightarrow> bytes \<Rightarrow> bytes \<Rightarrow> bytes option \<Rightarrow> message py \<times> attester" where
  "attest report a transcript_hash exporter head =
     (case py_bind (intra_link transcript_hash (at_tik_pub a)) (\<lambda>il.
           let base = (case at_prev a of Some p \<Rightarrow> p | None \<Rightarrow> il) in
           py_bind (post_link exporter base (at_counter a)) (\<lambda>pl.
           py_bind (report (report_data_for pl head)) (\<lambda>evidence. Inr (pl, evidence)))) of
        Inl e \<Rightarrow> (Inl e, a)
      | Inr (pl, evidence) \<Rightarrow>
          (Inr \<lparr>msg_counter = at_counter a, msg_intra_ok_base = (at_prev a = None),
             msg_post_link = hex pl, msg_evidence = evidence, msg_head = map_option hex head\<rparr>,
           a\<lparr>at_prev := Some pl, at_counter := at_counter a + 1\<rparr>))"

section \<open>The links of a chain\<close>

text \<open>Link \<open>n\<close> of the chain of one session: the value both sides compute.\<close>

fun link_at :: "bytes \<Rightarrow> bytes \<Rightarrow> bytes \<Rightarrow> nat \<Rightarrow> bytes" where
  "link_at sc tik ex 0 = post_value ex (intra_value sc tik) 0"
| "link_at sc tik ex (Suc n) = post_value ex (link_at sc tik ex n) (int (Suc n))"

lemma length_link_at [len_simps]: "length (link_at sc tik ex n) = 32"
  by (cases n) (simp_all add: len_simps)

text \<open>An attester that has sent \<open>n\<close> messages in one session.\<close>

definition attester_at :: "bytes \<Rightarrow> bytes \<Rightarrow> bytes \<Rightarrow> nat \<Rightarrow> attester" where
  "attester_at sc tik ex n = \<lparr>at_tik_pub = tik,
     at_prev = (if n = 0 then None else Some (link_at sc tik ex (n - 1))), at_counter = int n\<rparr>"

lemma attest_link:
  assumes "length sc < 256" "int n < 2 ^ 64" "report (report_data_for (link_at sc tik ex n) head) = Inr ev"
  shows "attest report (attester_at sc tik ex n) sc ex head =
    (Inr \<lparr>msg_counter = int n, msg_intra_ok_base = (n = 0), msg_post_link = hex (link_at sc tik ex n),
       msg_evidence = ev, msg_head = map_option hex head\<rparr>, attester_at sc tik ex (Suc n))"
proof -
  have il: "intra_link sc tik = Inr (intra_value sc tik)" using assms(1) by (simp add: intra_link_Inr)
  have pl: "post_link ex (case at_prev (attester_at sc tik ex n) of Some p \<Rightarrow> p | None \<Rightarrow> intra_value sc tik) (int n)
      = Inr (link_at sc tik ex n)"
    using assms(2) by (cases n) (simp_all add: post_link_Inr attester_at_def len_simps)
  show ?thesis
    using il pl assms(3) by (simp add: attest_def Let_def) (simp add: attester_at_def)
qed

text \<open>A call that raised leaves the attester as it was.\<close>

lemma attest_raise: "attest report a sc ex head = (Inl e, a') \<Longrightarrow> a' = a"
  by (auto simp: attest_def split: sum.splits prod.splits)

end
