(* ===== verification/Merkle.thy ===== *)
theory Merkle
  imports Sha2
begin

text \<open>
  \<open>hatls/log.py\<close>: the append-only Merkle log of RFC 6962. The prover (\<open>inclusion_proof\<close>,
  \<open>consistency_proof\<close>) recurses top-down over the leaf list; the verifier
  (\<open>verify_inclusion\<close>, \<open>verify_consistency\<close>) walks bottom-up over index bits. The lemmas
  of \<open>Merkle_Levels\<close> meet in the middle, at the levels of the tree.

  Indices and sizes that come from outside are Python integers, so they are \<open>int\<close>; behind the
  range checks they are \<open>nat\<close>.
\<close>

unbundle bit_operations_syntax

section \<open>Hashing\<close>

text \<open>\<open>_h(*parts)\<close> feeds the parts to one SHA-256.\<close>

definition h_parts :: "bytes list \<Rightarrow> bytes" where
  "h_parts parts = sha256 (concat parts)"

definition leaf_hash :: "bytes \<Rightarrow> bytes" where
  "leaf_hash entry = h_parts [[0], entry]"

definition node_hash :: "bytes \<Rightarrow> bytes \<Rightarrow> bytes" where
  "node_hash l r = h_parts [[1], l, r]"

section \<open>The split point\<close>

text \<open>The loop of \<open>_k\<close>: double while \<open>k * 2 < n\<close>.\<close>

function k_loop :: "nat \<Rightarrow> nat \<Rightarrow> nat" where
  "k_loop k n = (if 0 < k \<and> k * 2 < n then k_loop (k * 2) n else k)"
  by pat_completeness auto
termination by (relation "measure (\<lambda>(k, n). n - k)") auto

declare k_loop.simps [simp del]

definition k_split :: "nat \<Rightarrow> nat" where
  "k_split n = k_loop 1 n"

lemma k_loop_pow2:
  "k = 2 ^ i \<Longrightarrow> k < n \<Longrightarrow> \<exists>j. k_loop k n = 2 ^ j \<and> 2 ^ j < n \<and> n \<le> 2 * 2 ^ j"
proof (induction k n arbitrary: i rule: k_loop.induct)
  case (1 k n)
  show ?case
  proof (cases "k * 2 < n")
    case True
    with "1.prems" have "\<exists>j. k_loop (k * 2) n = 2 ^ j \<and> 2 ^ j < n \<and> n \<le> 2 * 2 ^ j"
      by (intro "1.IH" [of "Suc i"]) auto
    with True "1.prems" show ?thesis by (subst k_loop.simps) auto
  next
    case False
    with "1.prems" show ?thesis by (subst k_loop.simps) (auto intro!: exI [of _ i])
  qed
qed

lemma k_split_pow2:
  assumes "2 \<le> n"
  obtains j where "k_split n = 2 ^ j" "2 ^ j < n" "n \<le> 2 * 2 ^ j"
  using k_loop_pow2 [of 1 0 n] assms by (auto simp: k_split_def)

lemma k_split_bounds: "2 \<le> n \<Longrightarrow> 0 < k_split n \<and> k_split n < n"
  by (metis k_split_pow2 zero_less_numeral zero_less_power)

lemma k_split_shrinks:
  "xs \<noteq> [] \<Longrightarrow> length xs \<noteq> Suc 0 \<Longrightarrow> 0 < k_split (length xs) \<and> k_split (length xs) < length xs"
  by (rule k_split_bounds) (cases xs, auto, cases "tl xs", auto)

section \<open>The prover\<close>

function root :: "bytes list \<Rightarrow> bytes" where
  "root leaves =
     (if length leaves = 0 then h_parts []
      else if length leaves = 1 then leaf_hash (leaves ! 0)
      else let k = k_split (length leaves)
           in node_hash (root (take k leaves)) (root (drop k leaves)))"
  by pat_completeness auto
termination
proof (relation "measure length", goal_cases)
  case (2 leaves k)
  then show ?case using k_split_shrinks [of leaves] by (cases "leaves = []") auto
next
  case (3 leaves k)
  then show ?case using k_split_shrinks [of leaves] by (cases "leaves = []") auto
qed simp

declare root.simps [simp del]

function inclusion_proof :: "bytes list \<Rightarrow> int \<Rightarrow> bytes list py" where
  "inclusion_proof leaves m =
     (if \<not> (0 \<le> m \<and> m < int (length leaves)) then Inl (IndexError ''no such leaf'')
      else if length leaves = 1 then Inr []
      else let k = k_split (length leaves) in
        if m < int k
        then py_bind (inclusion_proof (take k leaves) m) (\<lambda>p. Inr (p @ [root (drop k leaves)]))
        else py_bind (inclusion_proof (drop k leaves) (m - int k)) (\<lambda>p. Inr (p @ [root (take k leaves)])))"
  by pat_completeness auto
termination
proof (relation "measure (\<lambda>(l, m). length l)", goal_cases)
  case (2 leaves m k)
  then show ?case using k_split_shrinks [of leaves] by (cases "leaves = []") auto
next
  case (3 leaves m k)
  then show ?case using k_split_shrinks [of leaves] by (cases "leaves = []") auto
qed simp

declare inclusion_proof.simps [simp del]

text \<open>
  \<open>_subproof\<close>. It is only called with \<open>0 < m \<le> n\<close>, so where \<open>m \<noteq> n\<close> there are at least two
  leaves; the branch for fewer is never taken and stands for the recursion that would not end.
\<close>

function subproof :: "bytes list \<Rightarrow> nat \<Rightarrow> bool \<Rightarrow> bytes list" where
  "subproof leaves m b =
     (if m = length leaves then (if b then [] else [root leaves])
      else if length leaves < 2 then []
      else let k = k_split (length leaves) in
        if m \<le> k then subproof (take k leaves) m b @ [root (drop k leaves)]
        else subproof (drop k leaves) (m - k) False @ [root (take k leaves)])"
  by pat_completeness auto
termination
proof (relation "measure (\<lambda>(l, m, b). length l)", goal_cases)
  case (2 leaves m b k)
  then show ?case using k_split_shrinks [of leaves] by (cases "leaves = []") auto
next
  case (3 leaves m b k)
  then show ?case using k_split_shrinks [of leaves] by (cases "leaves = []") auto
qed simp

declare subproof.simps [simp del]

definition consistency_proof :: "bytes list \<Rightarrow> int \<Rightarrow> bytes list py" where
  "consistency_proof leaves m =
     (let n = int (length leaves) in
      if \<not> (0 < m \<and> m \<le> n) then Inl (IndexError ''bad prefix size'')
      else if m = n then Inr []
      else Inr (subproof leaves (nat m) True))"

section \<open>The verifier\<close>

text \<open>\<open>while not (fn == 0 or fn & 1)\<close>: shift both indices.\<close>

function strip_even :: "nat \<Rightarrow> nat \<Rightarrow> nat \<times> nat" where
  "strip_even fn sn = (if fn = 0 \<or> odd fn then (fn, sn) else strip_even (fn div 2) (sn div 2))"
  by pat_completeness auto
termination by (relation "measure fst") auto

declare strip_even.simps [simp del]

text \<open>\<open>while fn & 1\<close>: shift both indices.\<close>

function strip_odd :: "nat \<Rightarrow> nat \<Rightarrow> nat \<times> nat" where
  "strip_odd fn sn = (if odd fn then strip_odd (fn div 2) (sn div 2) else (fn, sn))"
  by pat_completeness auto
termination by (relation "measure fst") (auto elim: oddE)

declare strip_odd.simps [simp del]

text \<open>The loop over the siblings; \<open>None\<close> is its early \<open>return False\<close>.\<close>

fun incl_loop :: "nat \<Rightarrow> nat \<Rightarrow> bytes \<Rightarrow> bytes list \<Rightarrow> (nat \<times> bytes) option" where
  "incl_loop fn sn node [] = Some (sn, node)"
| "incl_loop fn sn node (sibling # proof') =
     (if sn = 0 then None
      else if odd fn \<or> fn = sn then
        (let (fn', sn') = strip_even fn sn
         in incl_loop (fn' div 2) (sn' div 2) (node_hash sibling node) proof')
      else incl_loop (fn div 2) (sn div 2) (node_hash node sibling) proof')"

definition verify_inclusion :: "bytes \<Rightarrow> int \<Rightarrow> int \<Rightarrow> bytes list \<Rightarrow> bytes \<Rightarrow> bool" where
  "verify_inclusion entry m n prf expected_root =
     (if \<not> (0 \<le> m \<and> m < n) then False
      else case incl_loop (nat m) (nat n - 1) (leaf_hash entry) prf of
        None \<Rightarrow> False
      | Some (sn, node) \<Rightarrow> sn = 0 \<and> node = expected_root)"

fun cons_loop :: "nat \<Rightarrow> nat \<Rightarrow> bytes \<Rightarrow> bytes \<Rightarrow> bytes list \<Rightarrow> (nat \<times> bytes \<times> bytes) option" where
  "cons_loop fn sn fr sr [] = Some (sn, fr, sr)"
| "cons_loop fn sn fr sr (c # p) =
     (if sn = 0 then None
      else if odd fn \<or> fn = sn then
        (let (fn', sn') = strip_even fn sn
         in cons_loop (fn' div 2) (sn' div 2) (node_hash c fr) (node_hash c sr) p)
      else cons_loop (fn div 2) (sn div 2) fr (node_hash sr c) p)"

definition is_pow2 :: "int \<Rightarrow> bool" where
  "is_pow2 m \<longleftrightarrow> m AND (m - 1) = 0"

definition verify_consistency :: "bytes \<Rightarrow> int \<Rightarrow> bytes \<Rightarrow> int \<Rightarrow> bytes list \<Rightarrow> bool" where
  "verify_consistency old_root m new_root n prf =
     (if m = n then old_root = new_root \<and> prf = []
      else if \<not> (0 < m \<and> m < n) \<or> prf = [] then False
      else let p = (if is_pow2 m then old_root # prf else prf);
               (fn, sn) = strip_odd (nat m - 1) (nat n - 1)
           in case cons_loop fn sn (hd p) (hd p) (tl p) of
                None \<Rightarrow> False
              | Some (sn', fr, sr) \<Rightarrow> fr = old_root \<and> sr = new_root \<and> sn' = 0)"

section \<open>The log object\<close>

text \<open>
  A \<open>MerkleLog\<close> is its list of entries; \<open>append\<close> returns the index and the new head beside
  the changed log.
\<close>

type_synonym merkle_log = "bytes list"

definition log_new :: "bytes list \<Rightarrow> merkle_log" where
  "log_new entries = entries"

definition log_len :: "merkle_log \<Rightarrow> nat" where
  "log_len l = length l"

definition log_head :: "merkle_log \<Rightarrow> bytes" where
  "log_head l = root l"

definition log_append :: "merkle_log \<Rightarrow> bytes \<Rightarrow> (nat \<times> bytes) \<times> merkle_log" where
  "log_append l entry = (let l' = l @ [entry] in ((length l' - 1, log_head l'), l'))"

definition log_prove_inclusion :: "merkle_log \<Rightarrow> int \<Rightarrow> bytes list py" where
  "log_prove_inclusion l m = inclusion_proof l m"

definition log_prove_consistency :: "merkle_log \<Rightarrow> int \<Rightarrow> bytes list py" where
  "log_prove_consistency l m = consistency_proof l m"

end
