(* ===== verification/Merkle_Levels.thy ===== *)
theory Merkle_Levels
  imports Merkle
begin

text \<open>
  The Merkle tree level by level: one level pairs up the hashes below it and promotes an odd
  last one. The top-down prover and the bottom-up verifier of \<open>Merkle\<close> are both related to
  this description: the root, the audit path and the consistency path of the prover are the
  ones read off the levels, and each verifier loop climbs the levels one by one.
\<close>

section \<open>Levels\<close>

fun pairup :: "bytes list \<Rightarrow> bytes list" where
  "pairup (a # b # r) = node_hash a b # pairup r"
| "pairup [a] = [a]"
| "pairup [] = []"

lemma length_pairup [simp]: "length (pairup hs) = (length hs + 1) div 2"
  by (induction hs rule: pairup.induct) auto

lemma pairup_append: "even (length xs) \<Longrightarrow> pairup (xs @ ys) = pairup xs @ pairup ys"
  by (induction xs rule: pairup.induct) auto

lemma nth_pairup: "2 * i + 1 < length hs \<Longrightarrow> pairup hs ! i = node_hash (hs ! (2 * i)) (hs ! (2 * i + 1))"
proof (induction hs arbitrary: i rule: pairup.induct)
  case (1 a b r)
  then show ?case by (cases i) auto
qed auto

lemma nth_pairup_last: "2 * i + 1 = length hs \<Longrightarrow> pairup hs ! i = hs ! (2 * i)"
proof (induction hs arbitrary: i rule: pairup.induct)
  case (1 a b r)
  then obtain k where k: "i = Suc k" "length r = Suc (2 * k)" by (cases i) auto
  with "1.IH" [of k] show ?case by simp
qed auto

lemma pairup_eq_Nil [simp]: "pairup hs = [] \<longleftrightarrow> hs = []"
  by (cases hs rule: pairup.cases) auto

function lv_root :: "bytes list \<Rightarrow> bytes" where
  "lv_root hs = (if length hs < 2 then hs ! 0 else lv_root (pairup hs))"
  by pat_completeness auto
termination by (relation "measure length") auto

function lv_path :: "bytes list \<Rightarrow> nat \<Rightarrow> bytes list" where
  "lv_path hs i =
     (if length hs < 2 then []
      else (if odd i then [hs ! (i - 1)] else if i + 1 < length hs then [hs ! (i + 1)] else [])
           @ lv_path (pairup hs) (i div 2))"
  by pat_completeness auto
termination by (relation "measure (\<lambda>(hs, i). length hs)") auto

text \<open>The consistency path of the first \<open>m\<close> leaves.\<close>

function lv_cons :: "bytes list \<Rightarrow> nat \<Rightarrow> bool \<Rightarrow> bytes list" where
  "lv_cons hs m b =
     (if 0 < m \<and> even m then lv_cons (pairup hs) (m div 2) b
      else (if b \<and> m = 1 then [] else [hs ! (m - 1)]) @ lv_path hs (m - 1))"
  by pat_completeness auto
termination by (relation "measure (\<lambda>(hs, m, b). m)") auto

declare lv_root.simps [simp del] lv_path.simps [simp del] lv_cons.simps [simp del]

lemma lv_root_one: "lv_root [x] = x"
  by (simp add: lv_root.simps)

lemma lv_root_pairup: "hs \<noteq> [] \<Longrightarrow> lv_root (pairup hs) = lv_root hs"
  by (cases hs rule: pairup.cases) (simp_all add: lv_root.simps [of "_ # _ # _"])

lemma lv_path_one: "lv_path [x] i = []"
  by (simp add: lv_path.simps)

text \<open>One step of the path, also at the top.\<close>

lemma lv_path_step:
  assumes "i < length hs"
  shows "lv_path hs i = (if odd i then [hs ! (i - 1)] else if i + 1 < length hs then [hs ! (i + 1)] else [])
           @ lv_path (pairup hs) (i div 2)"
proof (cases hs rule: pairup.cases)
  case (1 a b r)
  then show ?thesis by (subst lv_path.simps) simp
next
  case (2 a)
  with assms show ?thesis by (simp add: lv_path_one)
next
  case 3
  with assms show ?thesis by simp
qed

section \<open>A perfect left part\<close>

text \<open>
  Where the left part of a level is a full power of two and the right part is no longer, the
  levels above split at the same place, all the way up to the two roots.
\<close>

lemma pow2_induct_len:
  assumes "length xs = 2 ^ Suc j" "1 \<le> length ys" "length ys \<le> 2 ^ Suc j"
  shows "length (pairup xs) = 2 ^ j" "1 \<le> length (pairup ys)" "length (pairup ys) \<le> 2 ^ j"
    "even (length xs)" "xs \<noteq> []" "ys \<noteq> []"
  using assms by auto

lemma lv_root_append:
  "length xs = 2 ^ j \<Longrightarrow> 1 \<le> length ys \<Longrightarrow> length ys \<le> 2 ^ j \<Longrightarrow>
   lv_root (xs @ ys) = node_hash (lv_root xs) (lv_root ys)"
proof (induction j arbitrary: xs ys)
  case 0
  then obtain x y where "xs = [x]" "ys = [y]"
    by (auto simp: length_Suc_conv le_Suc_eq)
  then show ?case by (simp add: lv_root.simps [of "[x, y]"] lv_root_one)
next
  case (Suc j)
  note l = pow2_induct_len [OF Suc.prems]
  have "lv_root (xs @ ys) = lv_root (pairup xs @ pairup ys)"
    using l lv_root_pairup [of "xs @ ys"] by (simp add: pairup_append)
  also have "\<dots> = node_hash (lv_root (pairup xs)) (lv_root (pairup ys))"
    using l by (intro Suc.IH) auto
  finally show ?case using l by (simp add: lv_root_pairup)
qed

lemma lv_path_append_left:
  "length xs = 2 ^ j \<Longrightarrow> 1 \<le> length ys \<Longrightarrow> length ys \<le> 2 ^ j \<Longrightarrow> i < length xs \<Longrightarrow>
   lv_path (xs @ ys) i = lv_path xs i @ [lv_root ys]"
proof (induction j arbitrary: xs ys i)
  case 0
  then obtain x y where "xs = [x]" "ys = [y]" "i = 0"
    by (auto simp: length_Suc_conv le_Suc_eq)
  then show ?case by (simp add: lv_path.simps [of "[x, y]"] lv_path_one lv_root_one)
next
  case (Suc j)
  note l = pow2_induct_len [OF Suc.prems(1-3)]
  have "lv_path (pairup xs @ pairup ys) (i div 2) = lv_path (pairup xs) (i div 2) @ [lv_root (pairup ys)]"
    using l Suc.prems by (intro Suc.IH) auto
  moreover have "even i \<Longrightarrow> i + 1 < length xs"
    using l(4) Suc.prems(4) by presburger
  ultimately show ?case
    using l Suc.prems lv_path_step [of i "xs @ ys"] lv_path_step [of i xs]
    by (auto simp: pairup_append lv_root_pairup nth_append)
qed

lemma lv_path_append_right:
  "length xs = 2 ^ j \<Longrightarrow> 1 \<le> length ys \<Longrightarrow> length ys \<le> 2 ^ j \<Longrightarrow> i < length ys \<Longrightarrow>
   lv_path (xs @ ys) (length xs + i) = lv_path ys i @ [lv_root xs]"
proof (induction j arbitrary: xs ys i)
  case 0
  then obtain x y where "xs = [x]" "ys = [y]" "i = 0"
    by (auto simp: length_Suc_conv le_Suc_eq)
  then show ?case by (simp add: lv_path.simps [of "[x, y]"] lv_path_one lv_root_one)
next
  case (Suc j)
  note l = pow2_induct_len [OF Suc.prems(1-3)]
  have half: "(length xs + i) div 2 = length (pairup xs) + i div 2"
    using l(4) by (auto elim!: evenE)
  have "lv_path (pairup xs @ pairup ys) (length (pairup xs) + i div 2)
      = lv_path (pairup ys) (i div 2) @ [lv_root (pairup xs)]"
    using l Suc.prems by (intro Suc.IH) auto
  moreover have "odd i \<Longrightarrow> (xs @ ys) ! (length xs + i - 1) = ys ! (i - 1)"
    by (cases i) (auto simp: nth_append)
  ultimately show ?case
    using l(4-6) Suc.prems(4) lv_path_step [of "length xs + i" "xs @ ys"] lv_path_step [of i ys]
    by (simp add: pairup_append lv_root_pairup half nth_append)
qed

lemma lv_cons_append_left:
  "length xs = 2 ^ j \<Longrightarrow> 1 \<le> length ys \<Longrightarrow> length ys \<le> 2 ^ j \<Longrightarrow> 0 < m \<Longrightarrow> m \<le> length xs \<Longrightarrow>
   lv_cons (xs @ ys) m b = lv_cons xs m b @ [lv_root ys]"
proof (induction j arbitrary: xs ys m)
  case 0
  then obtain x y where "xs = [x]" "ys = [y]" "m = Suc 0"
    by (auto simp: length_Suc_conv le_Suc_eq)
  then show ?case
    by (simp add: lv_cons.simps [of _ "Suc 0"] lv_path.simps [of "[x, y]"] lv_path_one lv_root_one)
next
  case (Suc j)
  note l = pow2_induct_len [OF Suc.prems(1-3)]
  show ?case
  proof (cases "even m")
    case True
    have "lv_cons (pairup xs @ pairup ys) (m div 2) b = lv_cons (pairup xs) (m div 2) b @ [lv_root (pairup ys)]"
      using l Suc.prems True by (intro Suc.IH) auto
    with True Suc.prems l show ?thesis
      by (simp add: lv_cons.simps [of _ m] pairup_append lv_root_pairup)
  next
    case False
    have "lv_path (xs @ ys) (m - 1) = lv_path xs (m - 1) @ [lv_root ys]"
      using Suc.prems by (intro lv_path_append_left [of _ "Suc j"]) auto
    with False Suc.prems show ?thesis
      by (auto simp: lv_cons.simps [of _ m] nth_append)
  qed
qed

lemma lv_cons_append_right:
  "length xs = 2 ^ j \<Longrightarrow> 1 \<le> length ys \<Longrightarrow> length ys \<le> 2 ^ j \<Longrightarrow> 0 < m \<Longrightarrow> m < length ys \<Longrightarrow>
   lv_cons (xs @ ys) (length xs + m) b = lv_cons ys m False @ [lv_root xs]"
proof (induction j arbitrary: xs ys m)
  case 0
  then show ?case by simp
next
  case (Suc j)
  note l = pow2_induct_len [OF Suc.prems(1-3)]
  show ?case
  proof (cases "even m")
    case True
    have half: "(length xs + m) div 2 = length (pairup xs) + m div 2"
      using l(4) True by (auto elim!: evenE)
    have "lv_cons (pairup xs @ pairup ys) (length (pairup xs) + m div 2) b
        = lv_cons (pairup ys) (m div 2) False @ [lv_root (pairup xs)]"
      using l Suc.prems True by (intro Suc.IH) auto
    with True Suc.prems(4) l(4-6) half show ?thesis
      by (simp add: lv_cons.simps [of _ m] lv_cons.simps [of _ "length xs + m"] pairup_append lv_root_pairup)
  next
    case False
    have "lv_path (xs @ ys) (length xs + (m - 1)) = lv_path ys (m - 1) @ [lv_root xs]"
      using Suc.prems by (intro lv_path_append_right [of _ "Suc j"]) auto
    moreover have "length xs + (m - 1) = length xs + m - 1" using Suc.prems by simp
    moreover have "1 < length xs + m" using Suc.prems l(5) by (cases xs) auto
    moreover have "(xs @ ys) ! (length xs + m - 1) = ys ! (m - 1)"
      using Suc.prems(4) by (cases m) auto
    ultimately show ?thesis using False Suc.prems(4,5) l(4-6)
      by (simp add: lv_cons.simps [of _ m] lv_cons.simps [of _ "length xs + m"])
  qed
qed

lemma lv_cons_full:
  "length hs = 2 ^ j \<Longrightarrow> lv_cons hs (2 ^ j) b = (if b then [] else [lv_root hs])"
proof (induction j arbitrary: hs)
  case 0
  then obtain x where "hs = [x]" by (auto simp: length_Suc_conv)
  then show ?case by (simp add: lv_cons.simps [of _ "Suc 0"] lv_path_one lv_root_one)
next
  case (Suc j)
  then have "hs \<noteq> []" by auto
  with Suc show ?case
    by (simp add: lv_cons.simps [of hs "2 * 2 ^ j"] lv_root_pairup)
qed

end
