(* ===== verification/Merkle_Proofs.thy ===== *)
theory Merkle_Proofs
  imports Merkle_Levels
begin

unbundle bit_operations_syntax

text \<open>
  The prover computes the level description, the verifier climbs it, and therefore: every
  proof the log gives verifies (completeness), and a proof that verifies against the root of a
  known list either proves a true statement about that list or two of the byte strings hashed
  on the way are different and have one SHA-256 digest (soundness).
\<close>

section \<open>The prover reads off the levels\<close>

lemma split_lens:
  assumes "2 \<le> length xs" "k = k_split (length xs)"
  obtains j where "length (take k xs) = 2 ^ j" "1 \<le> length (drop k xs)" "length (drop k xs) \<le> 2 ^ j"
    "k = length (take k xs)" "k < length xs"
proof -
  obtain j where "k = 2 ^ j" "2 ^ j < length xs" "length xs \<le> 2 * 2 ^ j"
    using k_split_pow2 [OF assms(1)] assms(2) by metis
  then show thesis by (intro that [of j]) auto
qed

lemma root_levels: "leaves \<noteq> [] \<Longrightarrow> root leaves = lv_root (map leaf_hash leaves)"
proof (induction leaves rule: root.induct)
  case (1 leaves)
  show ?case
  proof (cases "length leaves = 1")
    case True
    then show ?thesis by (auto simp: root.simps [of leaves] length_Suc_conv lv_root_one)
  next
    case False
    define k where "k = k_split (length leaves)"
    have n: "2 \<le> length leaves" using False "1.prems" by (cases leaves) (auto simp: Suc_le_eq)
    obtain j where j: "length (take k leaves) = 2 ^ j" "1 \<le> length (drop k leaves)"
      "length (drop k leaves) \<le> 2 ^ j" "k < length leaves" "k = length (take k leaves)"
      using split_lens [OF n k_def] by metis
    have "0 < k" using j(1,5) by simp
    have "root leaves = node_hash (root (take k leaves)) (root (drop k leaves))"
      using n False by (subst root.simps) (auto simp: k_def Let_def)
    also have "\<dots> = node_hash (lv_root (map leaf_hash (take k leaves))) (lv_root (map leaf_hash (drop k leaves)))"
      using n False j(4) \<open>0 < k\<close> "1.prems" "1.IH"(1) [OF _ _ k_def] "1.IH"(2) [OF _ _ k_def] by auto
    also have "\<dots> = lv_root (map leaf_hash (take k leaves) @ map leaf_hash (drop k leaves))"
      using j by (intro lv_root_append [symmetric, of _ j]) (simp_all only: length_map)
    finally show ?thesis by (simp flip: map_append)
  qed
qed

lemma inclusion_proof_levels:
  "i < length leaves \<Longrightarrow> inclusion_proof leaves (int i) = Inr (lv_path (map leaf_hash leaves) i)"
proof (induction leaves "int i" arbitrary: i rule: inclusion_proof.induct)
  case (1 leaves)
  show ?case
  proof (cases "length leaves = 1")
    case True
    with "1.prems" show ?thesis
      by (auto simp: inclusion_proof.simps [of leaves] length_Suc_conv lv_path_one)
  next
    case False
    define k where "k = k_split (length leaves)"
    have n: "2 \<le> length leaves" using False "1.prems" by (cases leaves) (auto simp: Suc_le_eq)
    obtain j where j: "length (take k leaves) = 2 ^ j" "1 \<le> length (drop k leaves)"
      "length (drop k leaves) \<le> 2 ^ j" "k < length leaves" "k = length (take k leaves)"
      using split_lens [OF n k_def] by metis
    let ?l = "map leaf_hash (take k leaves)" and ?r = "map leaf_hash (drop k leaves)"
    have roots: "root (take k leaves) = lv_root ?l" "root (drop k leaves) = lv_root ?r"
      using j(1,2) by (auto intro!: root_levels)
    have unf: "inclusion_proof leaves (int i) =
        (if i < k then py_bind (inclusion_proof (take k leaves) (int i)) (\<lambda>p. Inr (p @ [lv_root ?r]))
         else py_bind (inclusion_proof (drop k leaves) (int (i - k))) (\<lambda>p. Inr (p @ [lv_root ?l])))"
      using "1.prems" False roots
      by (subst inclusion_proof.simps) (simp add: k_def Let_def of_nat_diff)
    show ?thesis
    proof (cases "i < k")
      case True
      have "inclusion_proof (take k leaves) (int i) = Inr (lv_path ?l i)"
        using True "1.prems" False j(4) by (intro "1.hyps"(1) [OF _ _ k_def]) auto
      moreover have "lv_path (?l @ ?r) i = lv_path ?l i @ [lv_root ?r]"
        using True j by (intro lv_path_append_left [of _ j]) (simp_all only: length_map)
      ultimately show ?thesis using True unf by (simp flip: map_append)
    next
      case ge: False
      have "inclusion_proof (drop k leaves) (int (i - k)) = Inr (lv_path ?r (i - k))"
        using ge "1.prems" False j(4) by (intro "1.hyps"(2) [OF _ _ k_def]) (auto simp: of_nat_diff)
      moreover have "lv_path (?l @ ?r) (length ?l + (i - k)) = lv_path ?r (i - k) @ [lv_root ?l]"
        using j "1.prems" ge by (intro lv_path_append_right [of _ j]) (simp_all only: length_map, simp)
      moreover have "length ?l + (i - k) = i" using ge j(5) by simp
      ultimately show ?thesis using ge unf by (simp flip: map_append)
    qed
  qed
qed

lemma subproof_levels:
  "0 < m \<Longrightarrow> m < length leaves \<or> (m = length leaves \<and> (\<exists>j. m = 2 ^ j)) \<Longrightarrow>
   subproof leaves m b = lv_cons (map leaf_hash leaves) m b"
proof (induction leaves m b rule: subproof.induct)
  case (1 leaves m b)
  show ?case
  proof (cases "m = length leaves")
    case True
    then obtain j where j: "length leaves = 2 ^ j" using "1.prems" by auto
    then have "leaves \<noteq> []" by auto
    with j show ?thesis using True by (simp add: subproof.simps [of leaves] lv_cons_full root_levels)
  next
    case False
    then have m: "m < length leaves" and n: "2 \<le> length leaves" using "1.prems" by auto
    define k where "k = k_split (length leaves)"
    obtain j where j: "length (take k leaves) = 2 ^ j" "1 \<le> length (drop k leaves)"
      "length (drop k leaves) \<le> 2 ^ j" "k < length leaves" "k = length (take k leaves)"
      using split_lens [OF n k_def] by metis
    let ?l = "map leaf_hash (take k leaves)" and ?r = "map leaf_hash (drop k leaves)"
    have roots: "root (take k leaves) = lv_root ?l" "root (drop k leaves) = lv_root ?r"
      using j(1,2) by (auto intro!: root_levels)
    have unf: "subproof leaves m b = (if m \<le> k then subproof (take k leaves) m b @ [lv_root ?r]
         else subproof (drop k leaves) (m - k) False @ [lv_root ?l])"
      using False n roots by (subst subproof.simps) (simp add: k_def Let_def)
    show ?thesis
    proof (cases "m \<le> k")
      case True
      have "subproof (take k leaves) m b = lv_cons ?l m b"
        using True "1.prems" False n j by (intro "1.IH"(1) [OF _ _ k_def]) auto
      moreover have "lv_cons (?l @ ?r) m b = lv_cons ?l m b @ [lv_root ?r]"
        using True "1.prems" j by (intro lv_cons_append_left [of _ j]) (simp_all only: length_map)
      ultimately show ?thesis using True unf by (simp flip: map_append)
    next
      case gt: False
      have "subproof (drop k leaves) (m - k) False = lv_cons ?r (m - k) False"
        using gt m False n by (intro "1.IH"(2) [OF _ _ k_def]) auto
      moreover have "lv_cons (?l @ ?r) (length ?l + (m - k)) b = lv_cons ?r (m - k) False @ [lv_root ?l]"
        using j m gt by (intro lv_cons_append_right [of _ j]) (simp_all only: length_map, simp_all)
      moreover have "length ?l + (m - k) = m" using gt j(5) by simp
      ultimately show ?thesis using gt unf by (simp flip: map_append)
    qed
  qed
qed

section \<open>The verifier climbs the levels\<close>

lemma incl_loop_shift:
  "even i \<Longrightarrow> 0 < i \<Longrightarrow>
   incl_loop i i node p = Some (0, r) \<longleftrightarrow> incl_loop (i div 2) (i div 2) node p = Some (0, r)"
  by (cases p) (auto simp: strip_even.simps [of i] elim: evenE)

lemma cons_loop_shift:
  "even i \<Longrightarrow> 0 < i \<Longrightarrow>
   cons_loop i i fr sr p = Some (0, r) \<longleftrightarrow> cons_loop (i div 2) (i div 2) fr sr p = Some (0, r)"
  by (cases p) (auto simp: strip_even.simps [of i] elim: evenE)

lemma strip_even_odd [simp]: "odd fn \<Longrightarrow> strip_even fn sn = (fn, sn)"
  by (simp add: strip_even.simps)

text \<open>
  The three ways up from index \<open>i\<close> of a level: it has a left sibling, it has a right sibling,
  or it is the promoted last one.
\<close>

lemma level_cases:
  assumes "i < length hs" "2 \<le> length hs"
  obtains
    (left) "odd i" "pairup hs ! (i div 2) = node_hash (hs ! (i - 1)) (hs ! i)"
  | (right) "even i" "i + 1 < length hs" "pairup hs ! (i div 2) = node_hash (hs ! i) (hs ! (i + 1))"
  | (last) "even i" "0 < i" "i = length hs - 1" "pairup hs ! (i div 2) = hs ! i"
proof (cases "odd i")
  case True
  then obtain q where "i = 2 * q + 1" by (auto elim: oddE)
  with assms show ?thesis by (intro left) (auto simp: nth_pairup)
next
  case even: False
  then obtain q where q: "i = 2 * q" by (auto elim: evenE)
  show ?thesis
  proof (cases "i + 1 < length hs")
    case True
    with even q show ?thesis by (intro right) (auto simp: nth_pairup)
  next
    case False
    with assms have "i + 1 = length hs" by simp
    with even q assms show ?thesis by (intro last) (auto simp: nth_pairup_last)
  qed
qed

lemma pairup_last_index: "2 \<le> length hs \<Longrightarrow> length (pairup hs) - 1 = (length hs - 1) div 2"
  by (cases hs) auto

lemma pairup_index: "i < length hs \<Longrightarrow> i div 2 < length (pairup hs)"
  by simp

lemma incl_loop_complete:
  "i < length hs \<Longrightarrow> incl_loop i (length hs - 1) (hs ! i) (lv_path hs i) = Some (0, lv_root hs)"
proof (induction hs arbitrary: i rule: lv_root.induct)
  case (1 hs)
  show ?case
  proof (cases "length hs < 2")
    case True
    with "1.prems" show ?thesis by (cases hs) (auto simp: lv_path_one lv_root_one)
  next
    case False
    then have n: "2 \<le> length hs" and "hs \<noteq> []" by auto
    have IH: "incl_loop (i div 2) ((length hs - 1) div 2) (pairup hs ! (i div 2)) (lv_path (pairup hs) (i div 2))
        = Some (0, lv_root hs)"
      using "1.IH" [OF False pairup_index [OF "1.prems"]] n
      by (simp only: pairup_last_index lv_root_pairup [OF \<open>hs \<noteq> []\<close>])
    have path: "lv_path hs i = (if odd i then [hs ! (i - 1)] else if i + 1 < length hs then [hs ! (i + 1)] else [])
           @ lv_path (pairup hs) (i div 2)"
      using "1.prems" by (rule lv_path_step)
    from "1.prems" n show ?thesis
    proof (cases rule: level_cases)
      case left
      then show ?thesis using path IH n by simp
    next
      case right
      then have "i \<noteq> length hs - 1" "length hs - 1 \<noteq> 0" by auto
      with right show ?thesis using path IH by simp
    next
      case last
      then show ?thesis using path IH by (simp add: incl_loop_shift)
    qed
  qed
qed

text \<open>The old tree agrees with the new one below its own last index; so do the levels above.\<close>

lemma pairup_agree:
  assumes "\<forall>i<fn. os ! i = hs ! i" "length os = fn + 1" "fn < length hs" "i < fn div 2"
  shows "pairup os ! i = pairup hs ! i"
  using assms by (simp add: nth_pairup)

lemma pairup_old_last:
  assumes "length os = fn + 1"
  shows "pairup os ! (fn div 2) = (if odd fn then node_hash (os ! (fn - 1)) (os ! fn) else os ! fn)"
  using assms by (auto simp: nth_pairup nth_pairup_last elim!: oddE evenE)

lemma cons_loop_complete:
  "length os = fn + 1 \<Longrightarrow> fn < length hs \<Longrightarrow> \<forall>i<fn. os ! i = hs ! i \<Longrightarrow>
   cons_loop fn (length hs - 1) (os ! fn) (hs ! fn) (lv_path hs fn) = Some (0, lv_root os, lv_root hs)"
proof (induction hs arbitrary: fn os rule: lv_root.induct)
  case (1 hs)
  show ?case
  proof (cases "length hs < 2")
    case True
    with "1.prems" show ?thesis
      by (cases hs; cases os) (auto simp: lv_path_one lv_root_one)
  next
    case False
    then have n: "2 \<le> length hs" and ne: "hs \<noteq> []" "os \<noteq> []" using "1.prems" by auto
    have "cons_loop (fn div 2) (length (pairup hs) - 1) (pairup os ! (fn div 2)) (pairup hs ! (fn div 2))
        (lv_path (pairup hs) (fn div 2)) = Some (0, lv_root (pairup os), lv_root (pairup hs))"
      using "1.prems"(1,2) pairup_agree [OF "1.prems"(3,1,2)] by (intro "1.IH" [OF False]) auto
    then have IH: "cons_loop (fn div 2) ((length hs - 1) div 2) (pairup os ! (fn div 2)) (pairup hs ! (fn div 2))
        (lv_path (pairup hs) (fn div 2)) = Some (0, lv_root os, lv_root hs)"
      unfolding pairup_last_index [OF n] lv_root_pairup [OF ne(1)] lv_root_pairup [OF ne(2)] .
    have path: "lv_path hs fn = (if odd fn then [hs ! (fn - 1)] else if fn + 1 < length hs then [hs ! (fn + 1)] else [])
           @ lv_path (pairup hs) (fn div 2)"
      using "1.prems"(2) by (rule lv_path_step)
    note old = pairup_old_last [OF "1.prems"(1)]
    from "1.prems"(2) n show ?thesis
    proof (cases rule: level_cases)
      case left
      moreover have "os ! (fn - 1) = hs ! (fn - 1)" using "1.prems"(3) left(1) by (auto elim: oddE)
      ultimately show ?thesis using path IH n old by simp
    next
      case right
      then have "fn \<noteq> length hs - 1" "length hs - 1 \<noteq> 0" by auto
      with right show ?thesis using path IH old by simp
    next
      case last
      then show ?thesis using path IH old by (simp add: cons_loop_shift)
    qed
  qed
qed

section \<open>The strings that are hashed\<close>

text \<open>
  The messages SHA-256 is applied to: by the tree over a level, by the two verifier loops, and
  by \<open>root\<close> on a list of entries. Soundness is stated over these explicit lists.
\<close>

definition node_input :: "bytes \<Rightarrow> bytes \<Rightarrow> bytes" where
  "node_input l r = [1] @ l @ r"

definition leaf_input :: "bytes \<Rightarrow> bytes" where
  "leaf_input e = [0] @ e"

fun pair_inputs :: "bytes list \<Rightarrow> bytes list" where
  "pair_inputs (a # b # r) = node_input a b # pair_inputs r"
| "pair_inputs _ = []"

function lv_inputs :: "bytes list \<Rightarrow> bytes list" where
  "lv_inputs hs = (if length hs < 2 then [] else pair_inputs hs @ lv_inputs (pairup hs))"
  by pat_completeness auto
termination by (relation "measure length") auto

declare lv_inputs.simps [simp del]

fun incl_inputs :: "nat \<Rightarrow> nat \<Rightarrow> bytes \<Rightarrow> bytes list \<Rightarrow> bytes list" where
  "incl_inputs fn sn node [] = []"
| "incl_inputs fn sn node (s # p) =
     (if odd fn \<or> fn = sn then
        (let (fn', sn') = strip_even fn sn
         in node_input s node # incl_inputs (fn' div 2) (sn' div 2) (node_hash s node) p)
      else node_input node s # incl_inputs (fn div 2) (sn div 2) (node_hash node s) p)"

fun cons_inputs :: "nat \<Rightarrow> nat \<Rightarrow> bytes \<Rightarrow> bytes \<Rightarrow> bytes list \<Rightarrow> bytes list" where
  "cons_inputs fn sn fr sr [] = []"
| "cons_inputs fn sn fr sr (c # p) =
     (if odd fn \<or> fn = sn then
        (let (fn', sn') = strip_even fn sn
         in [node_input c fr, node_input c sr]
            @ cons_inputs (fn' div 2) (sn' div 2) (node_hash c fr) (node_hash c sr) p)
      else node_input sr c # cons_inputs (fn div 2) (sn div 2) fr (node_hash sr c) p)"

function root_inputs :: "bytes list \<Rightarrow> bytes list" where
  "root_inputs leaves =
     (if length leaves = 0 then [[]]
      else if length leaves = 1 then [leaf_input (leaves ! 0)]
      else let k = k_split (length leaves)
           in node_input (root (take k leaves)) (root (drop k leaves))
              # root_inputs (take k leaves) @ root_inputs (drop k leaves))"
  by pat_completeness auto
termination
proof (relation "measure length", goal_cases)
  case (2 leaves k)
  then show ?case using k_split_shrinks [of leaves] by (cases "leaves = []") auto
next
  case (3 leaves k)
  then show ?case using k_split_shrinks [of leaves] by (cases "leaves = []") auto
qed simp

declare root_inputs.simps [simp del]

lemma node_hash_sha: "node_hash l r = sha256 (node_input l r)"
  by (simp add: node_hash_def h_parts_def node_input_def)

lemma leaf_hash_sha: "leaf_hash e = sha256 (leaf_input e)"
  by (simp add: leaf_hash_def h_parts_def leaf_input_def)

lemma length_node_hash [len_simps, simp]: "length (node_hash l r) = 32"
  by (simp add: node_hash_sha len_simps)

lemma length_leaf_hash [len_simps, simp]: "length (leaf_hash e) = 32"
  by (simp add: leaf_hash_sha len_simps)

lemma node_hash_eqD:
  assumes "node_hash a b = node_hash c d" "inj_on sha256 S" "node_input a b \<in> S" "node_input c d \<in> S"
    and "length a = length c \<or> length b = length d"
  shows "a = c \<and> b = d"
proof -
  have "node_input a b = node_input c d"
    using assms(1-4) by (auto simp: node_hash_sha dest: inj_onD)
  then show ?thesis using assms(5) by (auto simp: node_input_def)
qed

lemma lv_inputs_cons: "lv_inputs (a # b # r) = pair_inputs (a # b # r) @ lv_inputs (pairup (a # b # r))"
  by (simp add: lv_inputs.simps [of "a # b # r"])

lemma lv_inputs_small: "lv_inputs [] = []" "lv_inputs [x] = []"
  by (simp_all add: lv_inputs.simps)

lemma lv_inputs_split: "set (lv_inputs hs) = set (pair_inputs hs) \<union> set (lv_inputs (pairup hs))"
  by (cases hs rule: pairup.cases) (simp_all add: lv_inputs_cons lv_inputs_small)

lemma pair_inputs_append: "even (length xs) \<Longrightarrow> pair_inputs (xs @ ys) = pair_inputs xs @ pair_inputs ys"
  by (induction xs rule: pair_inputs.induct) auto

lemma lv_inputs_pairup: "set (lv_inputs (pairup hs)) \<subseteq> set (lv_inputs hs)"
  by (cases hs rule: pairup.cases) (auto simp: lv_inputs_cons)

lemma pair_input_nth: "2 * i + 1 < length hs \<Longrightarrow> node_input (hs ! (2 * i)) (hs ! (2 * i + 1)) \<in> set (pair_inputs hs)"
proof (induction hs arbitrary: i rule: pair_inputs.induct)
  case (1 a b r)
  then show ?case by (cases i) auto
qed auto

lemma lv_inputs_append:
  "length xs = 2 ^ j \<Longrightarrow> 1 \<le> length ys \<Longrightarrow> length ys \<le> 2 ^ j \<Longrightarrow>
   set (lv_inputs (xs @ ys)) = insert (node_input (lv_root xs) (lv_root ys)) (set (lv_inputs xs) \<union> set (lv_inputs ys))"
proof (induction j arbitrary: xs ys)
  case 0
  then obtain x y where "xs = [x]" "ys = [y]"
    by (auto simp: length_Suc_conv le_Suc_eq)
  then show ?case by (simp add: lv_inputs_cons lv_inputs_small lv_root_one)
next
  case (Suc j)
  note l = pow2_induct_len [OF Suc.prems]
  have "set (lv_inputs (pairup xs @ pairup ys))
      = insert (node_input (lv_root xs) (lv_root ys)) (set (lv_inputs (pairup xs)) \<union> set (lv_inputs (pairup ys)))"
    using Suc.IH [OF l(1-3)] by (simp add: lv_root_pairup [OF l(5)] lv_root_pairup [OF l(6)])
  then show ?case
    using lv_inputs_split [of xs] lv_inputs_split [of ys] lv_inputs_split [of "xs @ ys"] l(4)
    by (simp add: pairup_append pair_inputs_append) blast
qed

lemma lv_input_nth:
  "2 * i + 1 < length hs \<Longrightarrow> node_input (hs ! (2 * i)) (hs ! (2 * i + 1)) \<in> set (lv_inputs hs)"
  using pair_input_nth [of i hs] by (cases hs rule: pairup.cases) (auto simp: lv_inputs_cons)

lemma lv_input_left: "odd i \<Longrightarrow> i < length hs \<Longrightarrow> node_input (hs ! (i - 1)) (hs ! i) \<in> set (lv_inputs hs)"
  using lv_input_nth [of "i div 2" hs] by (auto elim!: oddE)

lemma lv_input_right:
  "even i \<Longrightarrow> i + 1 < length hs \<Longrightarrow> node_input (hs ! i) (hs ! (i + 1)) \<in> set (lv_inputs hs)"
  using lv_input_nth [of "i div 2" hs] by (auto elim!: evenE)

lemma pairup_32: "\<forall>h\<in>set hs. length h = 32 \<Longrightarrow> \<forall>h\<in>set (pairup hs). length h = 32"
  by (induction hs rule: pairup.induct) auto

lemma nth_32: "\<forall>h\<in>set hs. length h = 32 \<Longrightarrow> i < length hs \<Longrightarrow> length (hs ! i) = (32::nat)"
  by simp

section \<open>A verified climb matches the level\<close>

lemma incl_inputs_shift: "even i \<Longrightarrow> 0 < i \<Longrightarrow> incl_inputs (i div 2) (i div 2) node p = incl_inputs i i node p"
  by (cases p) (auto simp: strip_even.simps [of i] elim: evenE)

lemma cons_inputs_shift: "even i \<Longrightarrow> 0 < i \<Longrightarrow> cons_inputs (i div 2) (i div 2) fr sr p = cons_inputs i i fr sr p"
  by (cases p) (auto simp: strip_even.simps [of i] elim: evenE)

lemma incl_loop_sound:
  "incl_loop i (length hs - 1) node p = Some (0, lv_root hs) \<Longrightarrow> i < length hs \<Longrightarrow>
   \<forall>h\<in>set hs. length h = 32 \<Longrightarrow> length node = 32 \<Longrightarrow> inj_on sha256 S \<Longrightarrow>
   set (lv_inputs hs) \<subseteq> S \<Longrightarrow> set (incl_inputs i (length hs - 1) node p) \<subseteq> S \<Longrightarrow>
   node = hs ! i \<and> p = lv_path hs i"
proof (induction hs arbitrary: i node p rule: lv_root.induct)
  case (1 hs)
  show ?case
  proof (cases "length hs < 2")
    case True
    then obtain x where "hs = [x]" "i = 0" using "1.prems"(2) by (cases hs) auto
    then show ?thesis using "1.prems"(1) by (cases p) (auto simp: lv_path_one lv_root_one)
  next
    case False
    then have n: "2 \<le> length hs" and ne: "hs \<noteq> []" by auto
    note up = pairup_last_index [OF n]
    have IH: "node' = pairup hs ! (i div 2) \<and> p' = lv_path (pairup hs) (i div 2)"
      if "incl_loop (i div 2) ((length hs - 1) div 2) node' p' = Some (0, lv_root hs)" "length node' = 32"
        "set (incl_inputs (i div 2) ((length hs - 1) div 2) node' p') \<subseteq> S" for node' p'
      using that
      by (intro "1.IH" [OF False _ pairup_index [OF "1.prems"(2)] pairup_32 [OF "1.prems"(3)] _ "1.prems"(5)
            subset_trans [OF lv_inputs_pairup "1.prems"(6)]]) (simp_all only: up lv_root_pairup [OF ne])
    have path: "lv_path hs i = (if odd i then [hs ! (i - 1)] else if i + 1 < length hs then [hs ! (i + 1)] else [])
           @ lv_path (pairup hs) (i div 2)"
      using "1.prems"(2) by (rule lv_path_step)
    have sn: "length hs - 1 \<noteq> 0" using n by simp
    from "1.prems"(2) n show ?thesis
    proof (cases rule: level_cases)
      case left
      obtain c q where p: "p = c # q" using "1.prems"(1) sn by (cases p) auto
      have "node_hash c node = pairup hs ! (i div 2) \<and> q = lv_path (pairup hs) (i div 2)"
        using "1.prems"(1,7) left(1) sn by (intro IH) (auto simp: p)
      moreover from this have "c = hs ! (i - 1) \<and> node = hs ! i"
        using left "1.prems" lv_input_left [OF left(1) "1.prems"(2)]
        by (intro node_hash_eqD [where S = S]) (auto simp: p)
      ultimately show ?thesis using left(1) path p by simp
    next
      case right
      have i: "i \<noteq> length hs - 1" using right(2) by simp
      obtain c q where p: "p = c # q" using "1.prems"(1) sn by (cases p) auto
      have "node_hash node c = pairup hs ! (i div 2) \<and> q = lv_path (pairup hs) (i div 2)"
        using "1.prems"(1,7) right(1) sn i by (intro IH) (auto simp: p)
      moreover from this have "node = hs ! i \<and> c = hs ! (i + 1)"
        using right i "1.prems" lv_input_right [OF right(1,2)]
        by (intro node_hash_eqD [where S = S]) (auto simp: p)
      ultimately show ?thesis using right(1,2) path p by simp
    next
      case last
      note e = last(3) [symmetric]
      have "incl_loop (i div 2) (i div 2) node p = Some (0, lv_root hs)"
        using "1.prems"(1) last(1,2) unfolding e by (simp add: incl_loop_shift)
      moreover have "set (incl_inputs (i div 2) (i div 2) node p) \<subseteq> S"
        using "1.prems"(7) last(1,2) unfolding e by (simp add: incl_inputs_shift)
      ultimately have "node = pairup hs ! (i div 2) \<and> p = lv_path (pairup hs) (i div 2)"
        using IH [unfolded e] "1.prems"(4) by blast
      then show ?thesis using last path by simp
    qed
  qed
qed

text \<open>Where the pairs above agree, so do the hashes they were made of.\<close>

lemma pair_agree_below:
  assumes "\<forall>i < fn div 2. pairup os ! i = pairup hs ! i" "i < 2 * (fn div 2)"
    and "length os = fn + 1" "fn < length hs"
    and "\<forall>h\<in>set hs. length h = 32" "\<forall>h\<in>set os. length h = 32" "inj_on sha256 S"
    and "set (lv_inputs hs) \<subseteq> S" "set (lv_inputs os) \<subseteq> S"
  shows "os ! i = hs ! i"
proof -
  define q where "q = i div 2"
  have q: "q < fn div 2" "2 * q + 1 < length os" "2 * q + 1 < length hs" "i = 2 * q \<or> i = 2 * q + 1"
    using assms(2-4) by (auto simp: q_def)
  have "node_hash (os ! (2 * q)) (os ! (2 * q + 1)) = node_hash (hs ! (2 * q)) (hs ! (2 * q + 1))"
    using assms(1) q(1) nth_pairup [OF q(2)] nth_pairup [OF q(3)] by simp
  then have "os ! (2 * q) = hs ! (2 * q) \<and> os ! (2 * q + 1) = hs ! (2 * q + 1)"
    using lv_input_nth [OF q(2)] lv_input_nth [OF q(3)] assms(5-9) q
    by (intro node_hash_eqD [where S = S]) auto
  with q(4) show ?thesis by auto
qed

text \<open>
  The running hash of the old tree is never measured by the code, so nothing is assumed about
  its length; that of the new tree is a digest, or (before the first step) the same string.
\<close>

lemma cons_loop_sound:
  "cons_loop fn (length hs - 1) fr sr p = Some (0, lv_root os, lv_root hs) \<Longrightarrow>
   length os = fn + 1 \<Longrightarrow> fn < length hs \<Longrightarrow> \<forall>h\<in>set hs \<union> set os. length h = 32 \<Longrightarrow>
   length sr = 32 \<or> fr = sr \<Longrightarrow> inj_on sha256 S \<Longrightarrow>
   set (lv_inputs hs) \<subseteq> S \<Longrightarrow> set (lv_inputs os) \<subseteq> S \<Longrightarrow>
   set (cons_inputs fn (length hs - 1) fr sr p) \<subseteq> S \<Longrightarrow>
   (length sr = 32 \<longrightarrow> fr = os ! fn \<and> sr = hs ! fn) \<and> (fr = sr \<longrightarrow> os ! fn = hs ! fn) \<and>
   (\<forall>i<fn. os ! i = hs ! i)"
proof (induction hs arbitrary: fn os fr sr p rule: lv_root.induct)
  case (1 hs)
  note len = "1.prems"(2) and fn = "1.prems"(3) and S = "1.prems"(6-8)
  have l32: "\<forall>h\<in>set hs. length h = 32" "\<forall>h\<in>set os. length h = 32" using "1.prems"(4) by auto
  have o32: "length (os ! i) = 32" if "i \<le> fn" for i using l32(2) len that by simp
  have h32: "length (hs ! i) = 32" if "i < length hs" for i using l32(1) that by simp
  show ?case
  proof (cases "length hs < 2")
    case True
    then obtain x where "hs = [x]" "fn = 0" using fn by (cases hs) auto
    moreover from this obtain y where "os = [y]" using len by (cases os) auto
    ultimately show ?thesis using "1.prems"(1) by (cases p) (auto simp: lv_root_one)
  next
    case False
    then have n: "2 \<le> length hs" and ne: "hs \<noteq> []" "os \<noteq> []" using len by auto
    note up = pairup_last_index [OF n] and old = pairup_old_last [OF len]
    have l32': "\<forall>h\<in>set (pairup hs) \<union> set (pairup os). length h = 32"
      using pairup_32 [OF l32(1)] pairup_32 [OF l32(2)] by blast
    have IH: "(length sr' = 32 \<longrightarrow> fr' = pairup os ! (fn div 2) \<and> sr' = pairup hs ! (fn div 2)) \<and>
        (fr' = sr' \<longrightarrow> pairup os ! (fn div 2) = pairup hs ! (fn div 2)) \<and>
        (\<forall>i < fn div 2. pairup os ! i = pairup hs ! i)"
      if "cons_loop (fn div 2) ((length hs - 1) div 2) fr' sr' p' = Some (0, lv_root os, lv_root hs)"
        "length sr' = 32 \<or> fr' = sr'"
        "set (cons_inputs (fn div 2) ((length hs - 1) div 2) fr' sr' p') \<subseteq> S" for fr' sr' p'
      using that len
      by (intro "1.IH" [OF False _ _ pairup_index [OF fn] l32' _ S(1)
            subset_trans [OF lv_inputs_pairup S(2)] subset_trans [OF lv_inputs_pairup S(3)]])
        (simp_all only: up lv_root_pairup [OF ne(1)] lv_root_pairup [OF ne(2)], simp)
    note below = pair_agree_below [OF _ _ len fn l32 S]
    have sn: "length hs - 1 \<noteq> 0" using n by simp
    from fn n show ?thesis
    proof (cases rule: level_cases)
      case left
      obtain c q where p: "p = c # q" using "1.prems"(1) sn by (cases p) auto
      have i: "fn - 1 < length hs" "fn < length os" using fn len by auto
      have r: "node_hash c fr = node_hash (os ! (fn - 1)) (os ! fn)"
          "node_hash c sr = node_hash (hs ! (fn - 1)) (hs ! fn)"
          "\<forall>i < fn div 2. pairup os ! i = pairup hs ! i"
        using "1.prems"(1,9) left sn old IH [of "node_hash c fr" "node_hash c sr" q] by (auto simp: p)
      have mem: "node_input c fr \<in> S" "node_input c sr \<in> S"
          "node_input (hs ! (fn - 1)) (hs ! fn) \<in> S" "node_input (os ! (fn - 1)) (os ! fn) \<in> S"
        using "1.prems"(9) left(1) S lv_input_left [OF left(1) fn] lv_input_left [OF left(1) i(2)]
        by (auto simp: p)
      have new: "c = hs ! (fn - 1) \<and> sr = hs ! fn" if "length sr = 32"
        using that r(2) S(1) mem h32 [OF fn] by (intro node_hash_eqD [where S = S]) auto
      then have old': "c = os ! (fn - 1) \<and> fr = os ! fn" if "length sr = 32"
        using that r(1) S(1) mem h32 [OF i(1)] o32 by (intro node_hash_eqD [where S = S]) auto
      have same: "os ! (fn - 1) = hs ! (fn - 1) \<and> os ! fn = hs ! fn" if "fr = sr"
        using that r(1,2) S(1) mem o32 h32 [OF fn] by (intro node_hash_eqD [where S = S]) auto
      have agree: "os ! (fn - 1) = hs ! (fn - 1)" using "1.prems"(5) new old' same by auto
      have "os ! i = hs ! i" if "i < fn" for i
      proof (cases "i < 2 * (fn div 2)")
        case True
        then show ?thesis using below r(3) by blast
      next
        case False
        then have "i = fn - 1" using that left(1) by presburger
        then show ?thesis using agree by simp
      qed
      then show ?thesis using new old' same by blast
    next
      case right
      have i: "fn \<noteq> length hs - 1" using right(2) by simp
      obtain c q where p: "p = c # q" using "1.prems"(1) sn by (cases p) auto
      have r: "fr = os ! fn" "node_hash sr c = node_hash (hs ! fn) (hs ! (fn + 1))"
          "\<forall>i < fn div 2. pairup os ! i = pairup hs ! i"
        using "1.prems"(1,9) right sn i old IH [of fr "node_hash sr c" q] by (auto simp: p)
      have "sr = hs ! fn \<and> c = hs ! (fn + 1)"
        using r(1,2) right i S(1,2) "1.prems"(5,9) o32 h32 [OF fn] lv_input_right [OF right(1,2)]
        by (intro node_hash_eqD [where S = S]) (auto simp: p)
      then show ?thesis using below r right(1) by auto
    next
      case last
      note e = last(3) [symmetric]
      have "cons_loop (fn div 2) (fn div 2) fr sr p = Some (0, lv_root os, lv_root hs)"
        using "1.prems"(1) last(1,2) unfolding e by (simp add: cons_loop_shift)
      moreover have "set (cons_inputs (fn div 2) (fn div 2) fr sr p) \<subseteq> S"
        using "1.prems"(9) last(1,2) unfolding e by (simp add: cons_inputs_shift)
      ultimately have "(length sr = 32 \<longrightarrow> fr = pairup os ! (fn div 2) \<and> sr = pairup hs ! (fn div 2)) \<and>
          (fr = sr \<longrightarrow> pairup os ! (fn div 2) = pairup hs ! (fn div 2)) \<and>
          (\<forall>i < fn div 2. pairup os ! i = pairup hs ! i)"
        using IH [unfolded e] "1.prems"(5) by blast
      then show ?thesis using below old last by auto
    qed
  qed
qed

section \<open>The first shared level\<close>

text \<open>
  \<open>verify_consistency\<close> starts at the level where the old tree's last index is even: there its
  last node is a full subtree of both trees.
\<close>

function level_up :: "nat \<Rightarrow> bytes list \<Rightarrow> bytes list" where
  "level_up fn hs = (if odd fn then level_up (fn div 2) (pairup hs) else hs)"
  by pat_completeness auto
termination by (relation "measure fst") (auto elim: oddE)

declare level_up.simps [simp del]

definition index_up :: "nat \<Rightarrow> nat" where
  "index_up fn = fst (strip_odd fn 0)"

lemma strip_odd_fst: "fst (strip_odd fn sn) = index_up fn"
  unfolding index_up_def
proof (induction fn sn rule: strip_odd.induct)
  case (1 fn sn)
  then show ?case by (simp add: strip_odd.simps [of fn])
qed

lemma index_up_simp: "index_up fn = (if odd fn then index_up (fn div 2) else fn)"
  by (simp add: index_up_def strip_odd.simps [of fn])

lemma odd_level: "odd fn \<Longrightarrow> fn < length hs \<Longrightarrow> 2 \<le> length hs \<and> hs \<noteq> []"
  by (cases hs) (auto elim: oddE)

lemma level_up_old: "length os = fn + 1 \<Longrightarrow> length (level_up fn os) = index_up fn + 1"
proof (induction fn os rule: level_up.induct)
  case (1 fn os)
  then show ?case by (auto simp: level_up.simps [of fn] index_up_simp [of fn] elim!: oddE)
qed

lemma level_up_new:
  "fn < length hs \<Longrightarrow> index_up fn < length (level_up fn hs) \<and>
     strip_odd fn (length hs - 1) = (index_up fn, length (level_up fn hs) - 1)"
proof (induction fn hs rule: level_up.induct)
  case (1 fn hs)
  show ?case
  proof (cases "odd fn")
    case True
    then have "strip_odd fn (length hs - 1) = strip_odd (fn div 2) (length (pairup hs) - 1)"
      using odd_level [OF True "1.prems"] by (subst strip_odd.simps) (simp only: pairup_last_index not_False_eq_True if_True)
    then show ?thesis
      using True "1.IH" [OF True pairup_index [OF "1.prems"]]
      by (simp add: level_up.simps [of fn] index_up_simp [of fn])
  next
    case False
    with "1.prems" show ?thesis
      by (simp add: level_up.simps [of fn] index_up_simp [of fn] strip_odd.simps)
  qed
qed

lemma level_up_strict: "fn + 1 < length hs \<Longrightarrow> index_up fn + 1 < length (level_up fn hs)"
proof (induction fn hs rule: level_up.induct)
  case (1 fn hs)
  then show ?case by (auto simp: level_up.simps [of fn] index_up_simp [of fn] elim!: oddE)
qed

lemma level_up_root: "fn < length hs \<Longrightarrow> lv_root (level_up fn hs) = lv_root hs"
proof (induction fn hs rule: level_up.induct)
  case (1 fn hs)
  then show ?case
    using pairup_index [OF "1.prems"] odd_level [of fn hs]
    by (cases "odd fn") (simp_all add: level_up.simps [of fn hs] lv_root_pairup)
qed

lemma level_up_32: "\<forall>h\<in>set hs. length h = 32 \<Longrightarrow> \<forall>h\<in>set (level_up fn hs). length h = 32"
proof (induction fn hs rule: level_up.induct)
  case (1 fn hs)
  then show ?case by (cases "odd fn") (simp_all add: level_up.simps [of fn hs] pairup_32)
qed

lemma level_up_inputs: "set (lv_inputs (level_up fn hs)) \<subseteq> set (lv_inputs hs)"
proof (induction fn hs rule: level_up.induct)
  case (1 fn hs)
  then show ?case
    using lv_inputs_pairup [of hs] by (cases "odd fn") (auto simp add: level_up.simps [of fn hs])
qed

text \<open>Agreement of the old tree with a prefix of the new one, carried up and down.\<close>

lemma level_up_agree:
  "length os = fn + 1 \<Longrightarrow> fn < length hs \<Longrightarrow> \<forall>i\<le>fn. os ! i = hs ! i \<Longrightarrow>
   \<forall>i\<le>index_up fn. level_up fn os ! i = level_up fn hs ! i"
proof (induction fn os arbitrary: hs rule: level_up.induct)
  case (1 fn os)
  show ?case
  proof (cases "odd fn")
    case True
    have "\<forall>i\<le>fn div 2. pairup os ! i = pairup hs ! i"
      using "1.prems" True by (auto simp: nth_pairup elim!: oddE)
    moreover have "length (pairup os) = fn div 2 + 1" using "1.prems"(1) by simp
    ultimately show ?thesis
      using True "1.IH" [OF True _ pairup_index [OF "1.prems"(2)]]
      by (simp add: level_up.simps [of fn] index_up_simp [of fn])
  next
    case False
    with "1.prems" show ?thesis by (simp add: level_up.simps [of fn] index_up_simp [of fn])
  qed
qed

lemma level_up_agree_down:
  "\<forall>i\<le>index_up fn. level_up fn os ! i = level_up fn hs ! i \<Longrightarrow> length os = fn + 1 \<Longrightarrow> fn < length hs \<Longrightarrow>
   \<forall>h\<in>set hs. length h = 32 \<Longrightarrow> \<forall>h\<in>set os. length h = 32 \<Longrightarrow> inj_on sha256 S \<Longrightarrow>
   set (lv_inputs hs) \<subseteq> S \<Longrightarrow> set (lv_inputs os) \<subseteq> S \<Longrightarrow> \<forall>i\<le>fn. os ! i = hs ! i"
proof (induction fn os arbitrary: hs rule: level_up.induct)
  case (1 fn os)
  note len = "1.prems"(2,3)
  show ?case
  proof (cases "odd fn")
    case True
    have up: "\<forall>i\<le>fn div 2. pairup os ! i = pairup hs ! i"
      using True "1.prems"(1) len pairup_index [OF len(2)]
      by (intro "1.IH" [OF True _ _ _ pairup_32 [OF "1.prems"(4)] pairup_32 [OF "1.prems"(5)] "1.prems"(6)
            subset_trans [OF lv_inputs_pairup "1.prems"(7)] subset_trans [OF lv_inputs_pairup "1.prems"(8)]])
        (simp_all add: level_up.simps [of fn] index_up_simp [of fn])
    show ?thesis
    proof (intro allI impI)
      fix i assume "i \<le> fn"
      define q where "q = i div 2"
      have q: "2 * q + 1 < length os" "2 * q + 1 < length hs" "q \<le> fn div 2" "i = 2 * q \<or> i = 2 * q + 1"
        using \<open>i \<le> fn\<close> len True unfolding q_def by presburger+
      have "node_hash (os ! (2 * q)) (os ! (2 * q + 1)) = node_hash (hs ! (2 * q)) (hs ! (2 * q + 1))"
        using up q(3) nth_pairup [OF q(1)] nth_pairup [OF q(2)] by simp
      then have "os ! (2 * q) = hs ! (2 * q) \<and> os ! (2 * q + 1) = hs ! (2 * q + 1)"
        using lv_input_nth [OF q(1)] lv_input_nth [OF q(2)] "1.prems" q
        by (intro node_hash_eqD [where S = S]) auto
      with q(4) show "os ! i = hs ! i" by auto
    qed
  next
    case False
    with "1.prems" show ?thesis by (simp add: level_up.simps [of fn] index_up_simp [of fn])
  qed
qed

lemma level_up_cons:
  "fn < length hs \<Longrightarrow> lv_cons hs (fn + 1) b =
     (if b \<and> index_up fn = 0 then [] else [level_up fn hs ! index_up fn]) @ lv_path (level_up fn hs) (index_up fn)"
proof (induction fn hs rule: level_up.induct)
  case (1 fn hs)
  show ?case
  proof (cases "odd fn")
    case True
    then have "lv_cons hs (fn + 1) b = lv_cons (pairup hs) (fn div 2 + 1) b"
      by (subst lv_cons.simps) (auto elim!: oddE)
    then show ?thesis
      using True "1.IH" [OF True pairup_index [OF "1.prems"]]
      by (simp add: level_up.simps [of fn] index_up_simp [of fn])
  next
    case False
    then show ?thesis
      by (simp add: level_up.simps [of fn] index_up_simp [of fn] lv_cons.simps [of hs "Suc fn"])
  qed
qed

lemma is_pow2_iff: "is_pow2 (int fn + 1) \<longleftrightarrow> index_up fn = 0"
proof (induction fn rule: less_induct)
  case (less fn)
  show ?case
  proof (cases "odd fn")
    case True
    then obtain q where q: "fn = 2 * q + 1" by (auto elim: oddE)
    have "(2 * (int q + 1)) AND (2 * (int q + 1) - 1) = 2 * ((int q + 1) AND int q)"
      by (subst and_int_rec) simp
    then have "is_pow2 (int fn + 1) \<longleftrightarrow> is_pow2 (int q + 1)"
      using q by (simp add: is_pow2_def algebra_simps)
    then show ?thesis using less [of q] q by (simp add: index_up_simp [of "Suc (2 * q)"])
  next
    case False
    then obtain q where q: "fn = 2 * q" by (auto elim: evenE)
    have "(2 * int q + 1) AND (2 * int q) = 2 * int q"
      by (subst and_int_rec) simp
    then show ?thesis using q by (simp add: is_pow2_def index_up_simp [of "2 * q"])
  qed
qed

section \<open>Completeness\<close>

lemma inclusion_complete_aux:
  assumes "0 \<le> m" "m < int (length D)"
  shows "\<exists>p. inclusion_proof D m = Inr p \<and> verify_inclusion (D ! nat m) m (int (length D)) p (root D)"
proof -
  obtain i where i: "m = int i" "i < length D" using assms by (metis nonneg_int_cases of_nat_less_iff)
  then have "D \<noteq> []" by auto
  let ?hs = "map leaf_hash D"
  have "incl_loop i (length ?hs - 1) (?hs ! i) (lv_path ?hs i) = Some (0, lv_root ?hs)"
    using i by (intro incl_loop_complete) simp
  then show ?thesis
    using i \<open>D \<noteq> []\<close> by (simp add: inclusion_proof_levels verify_inclusion_def root_levels)
qed

lemma consistency_complete_aux:
  assumes "0 < m" "m \<le> int (length D)"
  shows "\<exists>p. consistency_proof D m = Inr p
    \<and> verify_consistency (root (take (nat m) D)) m (root D) (int (length D)) p"
proof (cases "m = int (length D)")
  case True
  then show ?thesis using assms by (simp add: consistency_proof_def verify_consistency_def)
next
  case False
  obtain fn where fn: "m = int fn + 1" "fn + 1 < length D"
    using assms False by (intro that [of "nat (m - 1)"]) auto
  let ?hs = "map leaf_hash D" and ?os = "map leaf_hash (take (fn + 1) D)"
  have lens: "length ?os = fn + 1" "fn < length ?hs" and ne: "D \<noteq> []" "take (fn + 1) D \<noteq> []"
    using fn(2) by auto
  let ?os' = "level_up fn ?os" and ?hs' = "level_up fn ?hs" and ?fn = "index_up fn"
  note up = level_up_new [OF lens(2)] level_up_old [OF lens(1)]
  have agree: "\<forall>i\<le>?fn. ?os' ! i = ?hs' ! i" using lens by (intro level_up_agree) auto
  have prove: "consistency_proof D m = Inr ((if ?fn = 0 then [] else [?hs' ! ?fn]) @ lv_path ?hs' ?fn)"
    using fn lens level_up_cons [OF lens(2), of True]
    by (simp add: consistency_proof_def subproof_levels nat_add_distrib)
  have roots: "lv_root ?os' = root (take (fn + 1) D)" "lv_root ?hs' = root D"
    using ne lens level_up_root [of fn ?os] level_up_root [of fn ?hs] by (simp_all add: root_levels)
  have "cons_loop ?fn (length ?hs' - 1) (?os' ! ?fn) (?hs' ! ?fn) (lv_path ?hs' ?fn)
      = Some (0, lv_root ?os', lv_root ?hs')"
    using up agree by (intro cons_loop_complete) auto
  then have loop: "cons_loop ?fn (length ?hs' - 1) (?hs' ! ?fn) (?hs' ! ?fn) (lv_path ?hs' ?fn)
      = Some (0, root (take (fn + 1) D), root D)"
    using agree roots by simp
  have path_ne: "(if ?fn = 0 then [] else [?hs' ! ?fn]) @ lv_path ?hs' ?fn \<noteq> []"
  proof -
    have "?fn + 1 < length ?hs'" using level_up_strict [of fn ?hs] fn(2) by simp
    then have "?fn = 0 \<Longrightarrow> 1 < length ?hs'" "0 < length ?hs'" by linarith+
    then show ?thesis using lv_path_step [of 0 ?hs'] by (cases "?fn = 0") auto
  qed
  have start: "?fn = 0 \<Longrightarrow> root (take (fn + 1) D) = ?hs' ! ?fn"
    using roots(1) agree up(2) by (cases ?os') (auto simp: lv_root.simps)
  show ?thesis
    using prove path_ne loop start fn up(1)
    by (auto simp: verify_consistency_def is_pow2_iff nat_add_distrib)
qed

section \<open>Soundness\<close>

lemma root_inputs_levels:
  "leaves \<noteq> [] \<Longrightarrow> set (root_inputs leaves) = leaf_input ` set leaves \<union> set (lv_inputs (map leaf_hash leaves))"
proof (induction leaves rule: root_inputs.induct)
  case (1 leaves)
  show ?case
  proof (cases "length leaves = 1")
    case True
    then show ?thesis by (auto simp: root_inputs.simps [of leaves] lv_inputs_small length_Suc_conv)
  next
    case False
    define k where "k = k_split (length leaves)"
    have n: "2 \<le> length leaves" using False "1.prems" by (cases leaves) (auto simp: Suc_le_eq)
    obtain j where j: "length (take k leaves) = 2 ^ j" "1 \<le> length (drop k leaves)"
      "length (drop k leaves) \<le> 2 ^ j" "k < length leaves" "k = length (take k leaves)"
      using split_lens [OF n k_def] by metis
    let ?l = "map leaf_hash (take k leaves)" and ?r = "map leaf_hash (drop k leaves)"
    have ne: "take k leaves \<noteq> []" "drop k leaves \<noteq> []" using j(1,2) by auto
    have IH: "set (root_inputs (take k leaves)) = leaf_input ` set (take k leaves) \<union> set (lv_inputs ?l)"
        "set (root_inputs (drop k leaves)) = leaf_input ` set (drop k leaves) \<union> set (lv_inputs ?r)"
      using n False "1.prems" ne "1.IH"(1) [OF _ _ k_def] "1.IH"(2) [OF _ _ k_def] by auto
    have "set (root_inputs leaves) = insert (node_input (root (take k leaves)) (root (drop k leaves)))
        (set (root_inputs (take k leaves)) \<union> set (root_inputs (drop k leaves)))"
      using n False "1.prems" by (subst root_inputs.simps) (simp add: k_def Let_def)
    moreover have "set (lv_inputs (?l @ ?r)) = insert (node_input (lv_root ?l) (lv_root ?r))
        (set (lv_inputs ?l) \<union> set (lv_inputs ?r))"
      using j by (intro lv_inputs_append [of _ j]) (simp_all only: length_map)
    moreover have "set leaves = set (take k leaves) \<union> set (drop k leaves)"
      by (metis append_take_drop_id set_append)
    moreover have "?l @ ?r = map leaf_hash leaves" by (simp flip: map_append)
    ultimately show ?thesis
      unfolding root_levels [OF ne(1)] root_levels [OF ne(2)] IH by (simp only: image_Un) blast
  qed
qed

text \<open>Levels of one length with one root are equal.\<close>

lemma pairup_inj:
  "pairup os = pairup hs \<Longrightarrow> length os = length hs \<Longrightarrow> \<forall>h\<in>set hs. length h = 32 \<Longrightarrow>
   \<forall>h\<in>set os. length h = 32 \<Longrightarrow> inj_on sha256 S \<Longrightarrow> set (pair_inputs hs) \<subseteq> S \<Longrightarrow>
   set (pair_inputs os) \<subseteq> S \<Longrightarrow> os = hs"
proof (induction os arbitrary: hs rule: pairup.induct)
  case (1 a b r)
  then obtain a' b' r' where hs: "hs = a' # b' # r'" by (cases hs rule: pairup.cases) auto
  have "a = a' \<and> b = b'"
    using "1.prems" hs by (intro node_hash_eqD [where S = S]) auto
  then show ?case using "1.IH" [of r'] "1.prems" hs by simp
next
  case (2 a)
  then show ?case by (cases hs rule: pairup.cases) auto
qed simp

lemma lv_root_inj:
  "lv_root os = lv_root hs \<Longrightarrow> length os = length hs \<Longrightarrow> \<forall>h\<in>set hs. length h = 32 \<Longrightarrow>
   \<forall>h\<in>set os. length h = 32 \<Longrightarrow> inj_on sha256 S \<Longrightarrow> set (lv_inputs hs) \<subseteq> S \<Longrightarrow>
   set (lv_inputs os) \<subseteq> S \<Longrightarrow> os = hs"
proof (induction os arbitrary: hs rule: lv_root.induct)
  case (1 os)
  note len = "1.prems"(2) and l32 = "1.prems"(3,4) and S = "1.prems"(5-7)
  show ?case
  proof (cases "length os < 2")
    case True
    then show ?thesis using "1.prems"(1) len
      by (cases os; cases hs) (auto simp: lv_root_one)
  next
    case False
    then have ne: "os \<noteq> []" "hs \<noteq> []" using len by auto
    have "pairup os = pairup hs"
      using "1.prems"(1) len
      by (intro "1.IH" [OF False _ _ pairup_32 [OF l32(1)] pairup_32 [OF l32(2)] S(1)
            subset_trans [OF lv_inputs_pairup S(2)] subset_trans [OF lv_inputs_pairup S(3)]])
        (simp_all add: lv_root_pairup [OF ne(1)] lv_root_pairup [OF ne(2)])
    moreover have "set (pair_inputs hs) \<subseteq> S" "set (pair_inputs os) \<subseteq> S"
      using S(2,3) lv_inputs_split [of hs] lv_inputs_split [of os] by blast+
    ultimately show ?thesis by (rule pairup_inj [OF _ len l32 S(1)])
  qed
qed

text \<open>Every message hashed when an inclusion proof is checked against a known list of entries.\<close>

definition inclusion_messages :: "bytes list \<Rightarrow> bytes \<Rightarrow> int \<Rightarrow> bytes list \<Rightarrow> bytes list" where
  "inclusion_messages D entry m p =
     root_inputs D @ leaf_input entry # incl_inputs (nat m) (length D - 1) (leaf_hash entry) p"

lemma inclusion_sound_aux:
  assumes ok: "verify_inclusion e m (int (length D)) p (root D)"
    and inj: "inj_on sha256 (set (inclusion_messages D e m p))"
  shows "e = D ! nat m \<and> inclusion_proof D m = Inr p"
proof -
  from ok obtain i where i: "m = int i" "i < length D"
    by (auto simp: verify_inclusion_def split: if_splits intro: that [of "nat m"])
  then have ne: "D \<noteq> []" by auto
  let ?hs = "map leaf_hash D" and ?S = "set (inclusion_messages D e m p)"
  have loop: "incl_loop i (length ?hs - 1) (leaf_hash e) p = Some (0, lv_root ?hs)"
    using ok i ne by (auto simp: verify_inclusion_def root_levels split: option.splits)
  have S: "set (lv_inputs ?hs) \<subseteq> ?S" "set (incl_inputs i (length ?hs - 1) (leaf_hash e) p) \<subseteq> ?S"
      "leaf_input e \<in> ?S" "leaf_input (D ! i) \<in> ?S"
    using i by (auto simp: inclusion_messages_def root_inputs_levels [OF ne])
  have "leaf_hash e = ?hs ! i \<and> p = lv_path ?hs i"
    using i inj S by (intro incl_loop_sound [OF loop]) auto
  moreover from this have "leaf_input e = leaf_input (D ! i)"
    using i inj S by (auto simp: leaf_hash_sha dest: inj_onD)
  ultimately show ?thesis using i by (simp add: inclusion_proof_levels leaf_input_def)
qed

definition consistency_messages :: "bytes list \<Rightarrow> bytes list \<Rightarrow> bytes list \<Rightarrow> bytes list" where
  "consistency_messages D1 D2 p =
     root_inputs D1 @ root_inputs D2 @
     (let p' = (if is_pow2 (int (length D1)) then root D1 # p else p);
          (fn, sn) = strip_odd (length D1 - 1) (length D2 - 1)
      in cons_inputs fn sn (hd p') (hd p') (tl p'))"

lemma consistency_sound_aux:
  assumes ok: "verify_consistency (root D1) (int (length D1)) (root D2) (int (length D2)) p"
    and ne: "D1 \<noteq> []"
    and inj: "inj_on sha256 (set (consistency_messages D1 D2 p))"
  shows "D1 = take (length D1) D2"
proof -
  let ?S = "set (consistency_messages D1 D2 p)"
  let ?os = "map leaf_hash D1" and ?hs = "map leaf_hash D2"
  have ne2: "D2 \<noteq> []" using ok ne by (auto simp: verify_consistency_def split: if_splits)
  have inputs: "leaf_input ` set D1 \<subseteq> ?S" "leaf_input ` set D2 \<subseteq> ?S"
      "set (lv_inputs ?os) \<subseteq> ?S" "set (lv_inputs ?hs) \<subseteq> ?S"
    using root_inputs_levels [OF ne] root_inputs_levels [OF ne2] by (auto simp: consistency_messages_def)
  obtain fn where fn: "length D1 = fn + 1" using ne by (cases D1) auto
  have lens: "length ?os = fn + 1" using fn by simp
  have agree: "fn < length D2 \<and> (\<forall>i\<le>fn. ?os ! i = ?hs ! i)"
  proof (cases "length D1 = length D2")
    case True
    then have "lv_root ?os = lv_root ?hs"
      using ok by (simp add: verify_consistency_def flip: root_levels [OF ne] root_levels [OF ne2])
    then have "?os = ?hs"
      using True inj inputs(3,4) by (intro lv_root_inj [where S = ?S]) auto
    with True fn show ?thesis by (metis less_add_one)
  next
    case False
    then have less: "fn + 1 < length D2" using ok fn by (auto simp: verify_consistency_def split: if_splits)
    then have fnh: "fn < length ?hs" by simp
    let ?os' = "level_up fn ?os" and ?hs' = "level_up fn ?hs" and ?fn = "index_up fn"
    let ?p = "if is_pow2 (int (length D1)) then root D1 # p else p"
    note up = level_up_new [OF fnh] level_up_old [OF lens]
    have strip: "strip_odd fn (length D2 - 1) = (?fn, length ?hs' - 1)" using up(1) by simp
    have loop: "cons_loop ?fn (length ?hs' - 1) (hd ?p) (hd ?p) (tl ?p) = Some (0, lv_root ?os', lv_root ?hs')"
      using ok False less fn strip level_up_root [OF fnh] level_up_root [of fn ?os] root_levels [OF ne] root_levels [OF ne2]
      by (auto simp: verify_consistency_def Let_def nat_add_distrib split: if_splits option.splits)
    have msgs: "set (cons_inputs ?fn (length ?hs' - 1) (hd ?p) (hd ?p) (tl ?p)) \<subseteq> ?S"
      using strip fn by (auto simp: consistency_messages_def Let_def)
    have l32: "\<forall>h\<in>set ?hs. length h = 32" "\<forall>h\<in>set ?os. length h = 32" by auto
    have l32': "\<forall>h\<in>set ?hs' \<union> set ?os'. length h = 32"
      using level_up_32 [OF l32(1)] level_up_32 [OF l32(2)] by blast
    have "?os' ! ?fn = ?hs' ! ?fn \<and> (\<forall>i<?fn. ?os' ! i = ?hs' ! i)"
      using cons_loop_sound [OF loop up(2) _ l32' _ inj
          subset_trans [OF level_up_inputs inputs(4)] subset_trans [OF level_up_inputs inputs(3)] msgs] up(1)
      by simp
    then have "\<forall>i\<le>?fn. ?os' ! i = ?hs' ! i" by (auto simp: le_less)
    from level_up_agree_down [OF this lens fnh l32 inj inputs(4,3)] less
    show ?thesis by simp
  qed
  have "D1 ! i = D2 ! i" if "i \<le> fn" for i
  proof -
    have l: "i < length D1" "i < length D2" using that agree fn by auto
    have "?os ! i = ?hs ! i" using agree that by blast
    then have "sha256 (leaf_input (D1 ! i)) = sha256 (leaf_input (D2 ! i))"
      using l by (simp flip: leaf_hash_sha)
    moreover have "leaf_input (D1 ! i) \<in> ?S" "leaf_input (D2 ! i) \<in> ?S"
      using inputs(1,2) nth_mem [OF l(1)] nth_mem [OF l(2)] by blast+
    ultimately have "leaf_input (D1 ! i) = leaf_input (D2 ! i)" by (rule inj_onD [OF inj])
    then show ?thesis by (simp add: leaf_input_def)
  qed
  then show ?thesis using agree fn by (intro nth_equalityI) auto
qed

end
