(* ===== verification/Receipt.thy ===== *)
theory Receipt
  imports Merkle_Proofs Json_Proofs Crypto
begin

text \<open>
  \<open>hatls/receipt.py\<close>: the canonical bytes, the log entry of a decision, signed tree heads, and the
  checks a relying party makes of a receipt, an extension and a pair of heads.

  The locale \<open>transparency_log\<close> is what receipts rely on; it is interpreted on the Merkle log.
  Lemmas: canonical bytes determine the value, entries at different positions differ, what was
  signed verifies, a receipt of a log verifies.
\<close>

section \<open>The log as receipts use it\<close>

locale transparency_log =
  fixes empty :: 'l
    and append :: "'l \<Rightarrow> bytes \<Rightarrow> (nat \<times> bytes) \<times> 'l"
    and entries :: "'l \<Rightarrow> bytes list"
    and head :: "'l \<Rightarrow> bytes"
    and prove_incl :: "'l \<Rightarrow> int \<Rightarrow> bytes list py"
    and prove_cons :: "'l \<Rightarrow> int \<Rightarrow> bytes list py"
    and check_incl :: "bytes \<Rightarrow> int \<Rightarrow> int \<Rightarrow> bytes list \<Rightarrow> bytes \<Rightarrow> bool"
    and check_cons :: "bytes \<Rightarrow> int \<Rightarrow> bytes \<Rightarrow> int \<Rightarrow> bytes list \<Rightarrow> bool"
  assumes entries_empty: "entries empty = []"
    and append: "append l e = ((i, h), l') \<Longrightarrow> entries l' = entries l @ [e] \<and> i = length (entries l) \<and> h = head l'"
    and head_entries: "entries l = entries l' \<Longrightarrow> head l = head l'"
    and incl: "0 \<le> m \<Longrightarrow> m < int (length (entries l)) \<Longrightarrow>
      \<exists>p. prove_incl l m = Inr p \<and> check_incl (entries l ! nat m) m (int (length (entries l))) p (head l)"
    and cons: "entries l = entries l0 @ es \<Longrightarrow> entries l0 \<noteq> [] \<Longrightarrow>
      \<exists>p. prove_cons l (int (length (entries l0))) = Inr p
        \<and> check_cons (head l0) (int (length (entries l0))) (head l) (int (length (entries l))) p"
begin

fun appends :: "'l \<Rightarrow> bytes list \<Rightarrow> 'l" where
  "appends l [] = l"
| "appends l (e # es) = appends (snd (append l e)) es"

lemma entries_appends: "entries (appends l es) = entries l @ es"
proof (induction l es rule: appends.induct)
  case (2 l e es)
  obtain i h l' where a: "append l e = ((i, h), l')" by (metis prod.exhaust)
  with 2 append [OF a] show ?case by simp
qed simp

lemma log_of_entries: "entries (appends empty es) = es"
  by (simp add: entries_appends entries_empty)

text \<open>An entry keeps its place whatever is appended after it, and every later log proves it.\<close>

lemma entry_provable:
  assumes "append l e = ((i, h), l')"
  shows "\<exists>p. prove_incl (appends l' es) (int i) = Inr p
    \<and> check_incl e (int i) (int (length (entries (appends l' es)))) p (head (appends l' es))"
  using incl [of "int i" "appends l' es"] append [OF assms]
  by (simp add: entries_appends nth_append)

text \<open>Every later log proves that it extends an earlier one that was not empty.\<close>

lemma extension_provable:
  "entries l \<noteq> [] \<Longrightarrow>
   \<exists>p. prove_cons (appends l es) (int (length (entries l))) = Inr p
     \<and> check_cons (head l) (int (length (entries l))) (head (appends l es)) (int (length (entries (appends l es)))) p"
  by (rule cons) (simp_all add: entries_appends)

end

interpretation mlog: transparency_log "[] :: merkle_log" log_append "\<lambda>l. l" log_head
  log_prove_inclusion log_prove_consistency verify_inclusion verify_consistency
proof unfold_locales
  fix l l0 es :: merkle_log
  assume l: "l = l0 @ es" "l0 \<noteq> []"
  then have "0 < int (length l0)" "int (length l0) \<le> int (length l)" by auto
  from consistency_complete_aux [OF this] l(1)
  show "\<exists>p. log_prove_consistency l (int (length l0)) = Inr p \<and>
      verify_consistency (log_head l0) (int (length l0)) (log_head l) (int (length l)) p"
    by (simp add: log_prove_consistency_def log_head_def)
qed (auto simp: log_append_def log_head_def log_prove_inclusion_def Let_def inclusion_complete_aux)

section \<open>Canonical bytes\<close>

definition canonical :: "json \<Rightarrow> bytes" where
  "canonical obj = encode (dumps compact obj)"

text \<open>An encoding whose bytes can be signed: they determine the value, up to the order of keys.\<close>

locale canonical_encoding =
  fixes enc :: "json \<Rightarrow> bytes"
  assumes enc_eq: "wf_json a \<Longrightarrow> wf_json b \<Longrightarrow> enc a = enc b \<longleftrightarrow> sort_json a = sort_json b"
begin

text \<open>Two signed objects with equal bytes agree on every key.\<close>

lemma enc_field:
  assumes "wf_json (JObj d)" "wf_json (JObj d')" "enc (JObj d) = enc (JObj d')"
  shows "map_option sort_json (map_of d k) = map_option sort_json (map_of d' k)"
  using assms enc_eq sort_json_eq_field by (metis wf_json.simps(2))

end

interpretation canon: canonical_encoding canonical
  by unfold_locales (simp add: canonical_def encode_dumps_inj)

section \<open>Entries\<close>

text \<open>\<open>int(x)\<close> of a clock reading cuts towards zero.\<close>

definition int_of_time :: "rat \<Rightarrow> int" where
  "int_of_time t = (if 0 \<le> t then \<lfloor>t\<rfloor> else \<lceil>t\<rceil>)"

text \<open>\<open>int(time.time() if at is None else at)\<close>, given the reading \<open>now\<close>.\<close>

definition at_or_now :: "rat option \<Rightarrow> rat \<Rightarrow> int" where
  "at_or_now at' now = int_of_time (case at' of None \<Rightarrow> now | Some t \<Rightarrow> t)"

text \<open>\<open>x.hex() if x else None\<close>.\<close>

definition hex_or_null :: "bytes option \<Rightarrow> json" where
  "hex_or_null x = (case x of None \<Rightarrow> JNull | Some b \<Rightarrow> if b = [] then JNull else JStr (hex b))"

definition identity_tag :: "bytes \<Rightarrow> string" where
  "identity_tag tik_pub = hex (sha256 tik_pub)"

definition entry_json :: "string \<Rightarrow> bytes \<Rightarrow> bool \<Rightarrow> string \<Rightarrow> bytes option \<Rightarrow> int \<Rightarrow> int option \<Rightarrow> json" where
  "entry_json kind tik_pub accepted why instance' at' seq =
     JObj [(''v'', JInt 1),
           (''seq'', case seq of None \<Rightarrow> JNull | Some s \<Rightarrow> JInt s),
           (''at'', JInt at'),
           (''kind'', JStr kind),
           (''id'', JStr (identity_tag tik_pub)),
           (''instance'', hex_or_null instance'),
           (''accepted'', JBool accepted),
           (''reason'', JStr why)]"

definition make_entry :: "string \<Rightarrow> bytes \<Rightarrow> bool \<Rightarrow> string \<Rightarrow> bytes option \<Rightarrow> rat option \<Rightarrow> int option \<Rightarrow> rat \<Rightarrow> bytes" where
  "make_entry kind tik_pub accepted why instance' at' seq now =
     canonical (entry_json kind tik_pub accepted why instance' (at_or_now at' now) seq)"

section \<open>Signed tree heads\<close>

record sth =
  sth_v :: int
  sth_size :: int
  sth_root :: string
  sth_at :: int
  sth_sig :: string

definition sth_bytes :: "int \<Rightarrow> bytes \<Rightarrow> int \<Rightarrow> bytes" where
  "sth_bytes size' root' at' = canonical (JObj [(''v'', JInt 1), (''size'', JInt size'),
     (''root'', JStr (hex root')), (''at'', JInt at')])"

definition sign_sth :: "crypto \<Rightarrow> bytes \<Rightarrow> bytes \<Rightarrow> int \<Rightarrow> bytes \<Rightarrow> rat option \<Rightarrow> rat \<Rightarrow> sth" where
  "sign_sth C signing_key rnd size' root' at' now =
     (let a = at_or_now at' now in
      \<lparr>sth_v = 1, sth_size = size', sth_root = hex root', sth_at = a,
       sth_sig = hex (sign_with C signing_key WithSHA256 rnd (sth_bytes size' root' a))\<rparr>)"

text \<open>\<open>verify_sth\<close> returns \<open>True\<close> or raises.\<close>

definition verify_sth :: "crypto \<Rightarrow> bytes \<Rightarrow> sth \<Rightarrow> bool py" where
  "verify_sth C spki s =
     py_bind (load_public C spki) (\<lambda>_.
     py_bind (fromhex (sth_sig s)) (\<lambda>sig.
     py_bind (fromhex (sth_root s)) (\<lambda>r.
     py_bind (verify_with C spki WithSHA256 sig (sth_bytes (sth_size s) r (sth_at s))) (\<lambda>_. Inr True))))"

section \<open>What a relying party checks\<close>

record receipt =
  rc_entry :: string
  rc_index :: int
  rc_proof :: "string list"
  rc_sth :: sth

definition verify_receipt :: "crypto \<Rightarrow> bytes \<Rightarrow> receipt \<Rightarrow> (bool \<times> string) py" where
  "verify_receipt C spki r =
     (case verify_sth C spki (rc_sth r) of
        Inl e \<Rightarrow> Inr (False, ''tree head is not signed by this mandate: '' @ exn_str e)
      | Inr _ \<Rightarrow>
          py_bind (fromhex (rc_entry r)) (\<lambda>entry.
          py_bind (py_map fromhex (rc_proof r)) (\<lambda>prf.
          py_bind (fromhex (sth_root (rc_sth r))) (\<lambda>rt.
            if \<not> verify_inclusion entry (rc_index r) (sth_size (rc_sth r)) prf rt
            then Inr (False, ''entry is not in the log that head commits to'')
            else Inr (True, ''receipt verifies'')))))"

definition consistent :: "sth \<Rightarrow> sth \<Rightarrow> string list \<Rightarrow> bool py" where
  "consistent lo hi prf =
     py_bind (fromhex (sth_root lo)) (\<lambda>a.
     py_bind (fromhex (sth_root hi)) (\<lambda>b.
     py_bind (py_map fromhex prf) (\<lambda>p.
       Inr (verify_consistency a (sth_size lo) b (sth_size hi) p))))"

definition verify_extension :: "crypto \<Rightarrow> bytes \<Rightarrow> sth \<Rightarrow> sth \<Rightarrow> string list \<Rightarrow> bool py" where
  "verify_extension C spki old_sth new_sth prf =
     py_bind (verify_sth C spki old_sth) (\<lambda>_.
     py_bind (verify_sth C spki new_sth) (\<lambda>_.
       consistent old_sth new_sth prf))"

definition is_equivocation ::
  "crypto \<Rightarrow> bytes \<Rightarrow> sth \<Rightarrow> sth \<Rightarrow> string list option \<Rightarrow> string list option \<Rightarrow> (bool \<times> string) py" where
  "is_equivocation C spki sth_a sth_b proof_a_to_b proof_b_to_a =
     py_bind (verify_sth C spki sth_a) (\<lambda>_.
     py_bind (verify_sth C spki sth_b) (\<lambda>_.
       if sth_root sth_a = sth_root sth_b \<and> sth_size sth_a = sth_size sth_b then Inr (False, ''same head'')
       else
         (let a_first = (sth_size sth_a \<le> sth_size sth_b);
              (lo, hi) = (if a_first then (sth_a, sth_b) else (sth_b, sth_a));
              prf = (if a_first then proof_a_to_b else proof_b_to_a)
          in if (case prf of None \<Rightarrow> False | Some p \<Rightarrow> consistent lo hi p = Inr True)
             then Inr (False, ''one head extends the other; this is a consistent log'')
             else Inr (True, ''the mandate signed two heads and cannot show one extends the other: this is equivocation, and both signatures are the evidence''))))"

section \<open>Facts\<close>

lemma wf_entry [simp]: "wf_json (entry_json kind tik acc why inst at' seq)"
  by (auto simp: entry_json_def hex_or_null_def split: option.splits)

text \<open>An entry's bytes say which position it was made for.\<close>

lemma entry_seq:
  assumes "make_entry k t a w i at' (Some s) n = make_entry k' t' a' w' i' at'' (Some s') n'"
  shows "s = s'"
proof -
  have "canonical (entry_json k t a w i (at_or_now at' n) (Some s))
      = canonical (entry_json k' t' a' w' i' (at_or_now at'' n') (Some s'))"
    using assms by (simp add: make_entry_def)
  from canon.enc_field [OF _ _ this [unfolded entry_json_def], of "''seq''"] show ?thesis
    by (auto simp: entry_json_def hex_or_null_def split: option.splits)
qed

text \<open>Two heads sign the same bytes only if they are the same head at the same time.\<close>

lemma sth_bytes_inj:
  assumes "sth_bytes n r a = sth_bytes n' r' a'"
  shows "n = n' \<and> r = r' \<and> a = a'"
  using canon.enc_field [OF _ _ assms [unfolded sth_bytes_def], of "''size''"]
    canon.enc_field [OF _ _ assms [unfolded sth_bytes_def], of "''root''"]
    canon.enc_field [OF _ _ assms [unfolded sth_bytes_def], of "''at''"]
  by simp

lemma verify_sth_Inr:
  "verify_sth C spki s = Inr b \<longleftrightarrow> b \<and> load_public C spki = Inr () \<and>
     (\<exists>sig r. fromhex (sth_sig s) = Inr sig \<and> fromhex (sth_root s) = Inr r \<and>
       verify_with C spki WithSHA256 sig (sth_bytes (sth_size s) r (sth_at s)) = Inr ())"
  by (auto simp: verify_sth_def py_bind_Inr_iff)

lemma sign_sth_sel [simp]:
  "sth_size (sign_sth C k rnd n r at' now) = n"
  "sth_root (sign_sth C k rnd n r at' now) = hex r"
  by (simp_all add: sign_sth_def Let_def)

lemma verify_sign_sth: "sig_correct C \<Longrightarrow> verify_sth C (public_key_of C k) (sign_sth C k rnd n r at' now) = Inr True"
  by (simp add: verify_sth_def sign_sth_def Let_def sig_correctD)

lemma consistent_signed [simp]:
  "consistent (sign_sth C k rnd n r at' now) (sign_sth C k' rnd' n' r' at'' now') (map hex p)
   = Inr (verify_consistency r n r' n' p)"
  by (simp add: consistent_def)

text \<open>What \<open>is_equivocation\<close> answers for two heads that verify.\<close>

lemma is_equivocation_iff:
  assumes "verify_sth C spki a = Inr True" "verify_sth C spki b = Inr True"
  shows "is_equivocation C spki a b pab pba = Inr (False, why) \<longleftrightarrow>
     (if sth_root a = sth_root b \<and> sth_size a = sth_size b then why = ''same head''
      else why = ''one head extends the other; this is a consistent log'' \<and>
        (if sth_size a \<le> sth_size b then \<exists>p. pab = Some p \<and> consistent a b p = Inr True
         else \<exists>p. pba = Some p \<and> consistent b a p = Inr True))"
  using assms by (auto simp: is_equivocation_def Let_def split: option.splits)

text \<open>The proofs the verifiers read are hexadecimal, in either case and with white space.\<close>

lemma fromhex_space: "fromhex (CHR '' '' # s) = fromhex s"
  by (simp add: fromhex_def is_space_def)

lemma verify_sth_space:
  "verify_sth C spki (s\<lparr>sth_root := CHR '' '' # sth_root s\<rparr>) = verify_sth C spki s"
  by (simp add: verify_sth_def fromhex_space)

end
