(* ===== verification/Federation.thy ===== *)
theory Federation
  imports Receipt "HOL-Library.Multiset"
begin

text \<open>
  \<open>hatls/federation.py\<close>: a bundle of several mandates' heads that one report commits to, a
  mandate's signed record of a peer's head, and the check whether a peer's log grew from a head
  it was seen claiming. Facts: the commitment determines the entries or exhibits a collision of
  SHA-256; the order the heads are given in does not matter; what was signed verifies.
\<close>

section \<open>Bundles\<close>

datatype bundle_entry = BundleEntry (be_m: string) (be_size: int) (be_root: string)

text \<open>The key of \<open>sorted\<close>: \<open>(e["m"], e["size"], e["root"])\<close>.\<close>

instantiation bundle_entry :: linorder
begin

definition less_eq_bundle_entry :: "bundle_entry \<Rightarrow> bundle_entry \<Rightarrow> bool" where
  "less_eq_bundle_entry a b \<longleftrightarrow> be_m a < be_m b \<or> (be_m a = be_m b \<and>
     (be_size a < be_size b \<or> (be_size a = be_size b \<and> be_root a \<le> be_root b)))"

definition less_bundle_entry :: "bundle_entry \<Rightarrow> bundle_entry \<Rightarrow> bool" where
  "less_bundle_entry a b \<longleftrightarrow> a \<le> b \<and> \<not> b \<le> a"

instance
proof
  fix a b c :: bundle_entry
  show "a < b \<longleftrightarrow> a \<le> b \<and> \<not> b \<le> a" by (rule less_bundle_entry_def)
  show "a \<le> a" by (simp add: less_eq_bundle_entry_def)
  show "a \<le> b \<Longrightarrow> b \<le> c \<Longrightarrow> a \<le> c"
    unfolding less_eq_bundle_entry_def by (metis less_trans order_trans)
  show "a \<le> b \<Longrightarrow> b \<le> a \<Longrightarrow> a = b"
    unfolding less_eq_bundle_entry_def by (metis bundle_entry.expand less_asym order_antisym)
  show "a \<le> b \<or> b \<le> a"
    unfolding less_eq_bundle_entry_def by (metis linear not_less_iff_gr_or_eq)
qed

end

definition mandate_id :: "bytes \<Rightarrow> string" where
  "mandate_id spki = take 32 (hex (sha256 spki))"

definition bundle_entries :: "(bytes \<times> sth) list \<Rightarrow> bundle_entry list" where
  "bundle_entries pairs = sort (map (\<lambda>(spki, s). BundleEntry (mandate_id spki) (sth_size s) (sth_root s)) pairs)"

definition json_of_entry :: "bundle_entry \<Rightarrow> json" where
  "json_of_entry e = JObj [(''m'', JStr (be_m e)), (''size'', JInt (be_size e)), (''root'', JStr (be_root e))]"

definition bundle_json :: "bundle_entry list \<Rightarrow> json" where
  "bundle_json entries = JObj [(''v'', JInt 1), (''entries'', JList (map json_of_entry entries))]"

definition bundle_commitment :: "bundle_entry list \<Rightarrow> bytes" where
  "bundle_commitment entries = sha256 (canonical (bundle_json entries))"

fun verify_all :: "crypto \<Rightarrow> (bytes \<times> sth) list \<Rightarrow> unit py" where
  "verify_all C [] = Inr ()"
| "verify_all C ((spki, s) # pairs) = py_bind (verify_sth C spki s) (\<lambda>_. verify_all C pairs)"

definition make_bundle :: "crypto \<Rightarrow> (bytes \<times> sth) list \<Rightarrow> (bytes \<times> bundle_entry list) py" where
  "make_bundle C pairs =
     py_bind (verify_all C pairs) (\<lambda>_.
       (let entries = bundle_entries pairs in Inr (bundle_commitment entries, entries)))"

definition verify_bundle :: "bytes \<Rightarrow> bundle_entry list \<Rightarrow> bool" where
  "verify_bundle commitment entries \<longleftrightarrow> bundle_commitment entries = commitment"

definition entry_for :: "bundle_entry list \<Rightarrow> bytes \<Rightarrow> bundle_entry option" where
  "entry_for entries spki = (let mid = mandate_id spki in find (\<lambda>e. be_m e = mid) entries)"

section \<open>Cross-witnessing\<close>

record statement =
  st_v :: int
  st_peer :: string
  st_size :: int
  st_root :: string
  st_at :: int
  st_sig :: string

definition unsigned_json :: "int \<Rightarrow> string \<Rightarrow> int \<Rightarrow> string \<Rightarrow> int \<Rightarrow> json" where
  "unsigned_json v' peer size' root' at' = JObj [(''v'', JInt v'), (''peer'', JStr peer),
     (''size'', JInt size'), (''root'', JStr root'), (''at'', JInt at')]"

definition cross_witness ::
  "crypto \<Rightarrow> bytes \<Rightarrow> bytes \<Rightarrow> bytes \<Rightarrow> sth \<Rightarrow> rat option \<Rightarrow> rat \<Rightarrow> statement py" where
  "cross_witness C signing_key rnd peer_spki peer_sth at' now =
     py_bind (verify_sth C peer_spki peer_sth) (\<lambda>_.
       (let a = at_or_now at' now; m = mandate_id peer_spki;
            body = unsigned_json 1 m (sth_size peer_sth) (sth_root peer_sth) a
        in Inr \<lparr>st_v = 1, st_peer = m, st_size = sth_size peer_sth, st_root = sth_root peer_sth,
             st_at = a, st_sig = hex (sign_with C signing_key WithSHA256 rnd (canonical body))\<rparr>))"

definition verify_cross_witness :: "crypto \<Rightarrow> bytes \<Rightarrow> statement \<Rightarrow> bool py" where
  "verify_cross_witness C observer_spki s =
     py_bind (load_public C observer_spki) (\<lambda>_.
     py_bind (fromhex (st_sig s)) (\<lambda>sig.
     py_bind (verify_with C observer_spki WithSHA256 sig
       (canonical (unsigned_json (st_v s) (st_peer s) (st_size s) (st_root s) (st_at s)))) (\<lambda>_. Inr True)))"

section \<open>Divergence\<close>

definition divergence ::
  "crypto \<Rightarrow> bytes \<Rightarrow> int \<Rightarrow> string \<Rightarrow> sth \<Rightarrow> string list option \<Rightarrow> (bool \<times> string) py" where
  "divergence C peer_spki claimed_size claimed_root_hex later_sth prf =
     py_bind (verify_sth C peer_spki later_sth) (\<lambda>_.
       if claimed_size = sth_size later_sth then
         (if claimed_root_hex = sth_root later_sth then Inr (False, ''same head'')
          else Inr (True, ''same size, different root: the peer signed two histories''))
       else if sth_size later_sth < claimed_size then
         Inr (True, ''the peer'' @ CHR 0x27 # ''s log has shrunk, which an append-only log cannot do'')
       else (case prf of
          None \<Rightarrow> Inr (True, ''the peer offered no proof that it extends the head that was witnessed'')
        | Some p \<Rightarrow>
            (if py_bind (fromhex claimed_root_hex) (\<lambda>a.
                py_bind (fromhex (sth_root later_sth)) (\<lambda>b.
                py_bind (py_map fromhex p) (\<lambda>q.
                  Inr (verify_consistency a claimed_size b (sth_size later_sth) q)))) = Inr True
             then Inr (False, ''the peer'' @ CHR 0x27 # ''s log extends the witnessed head'')
             else Inr (True, ''the peer cannot show its log extends a head it was witnessed claiming: that witness is the evidence''))))"

section \<open>Facts\<close>

lemma bundle_entries_mset: "mset pairs = mset pairs' \<Longrightarrow> bundle_entries pairs = bundle_entries pairs'"
  unfolding bundle_entries_def by (rule properties_for_sort [THEN sym]) simp_all

lemma wf_entry_json [simp]: "wf_json (json_of_entry e)"
  by (simp add: json_of_entry_def)

lemma wf_bundle_json [simp]: "wf_json (bundle_json es)"
  by (simp add: bundle_json_def list_all_iff)

lemma json_of_entry_inj: "sort_json (json_of_entry a) = sort_json (json_of_entry b) \<Longrightarrow> a = b"
  using sort_json_eq_field [of _ _ "''m''"] sort_json_eq_field [of _ _ "''size''"] sort_json_eq_field [of _ _ "''root''"]
  unfolding json_of_entry_def by (intro bundle_entry.expand) fastforce

lemma bundle_json_inj: "canonical (bundle_json es) = canonical (bundle_json es') \<Longrightarrow> es = es'"
proof -
  assume "canonical (bundle_json es) = canonical (bundle_json es')"
  from canon.enc_field [OF _ _ this [unfolded bundle_json_def], of "''entries''"]
  have "map (sort_json \<circ> json_of_entry) es = map (sort_json \<circ> json_of_entry) es'"
    by (simp add: list_all_iff)
  moreover have "inj (sort_json \<circ> json_of_entry)" by (rule injI) (simp add: json_of_entry_inj)
  ultimately show "es = es'" by (simp add: inj_map_eq_map)
qed

lemma bundle_commitment_eqD:
  "bundle_commitment es = bundle_commitment es' \<Longrightarrow>
   es = es' \<or> collision sha256 (canonical (bundle_json es)) (canonical (bundle_json es'))"
  using bundle_json_inj [of es es'] by (auto simp: bundle_commitment_def collision_def)

lemma verify_all_Inr: "verify_all C pairs = Inr () \<longleftrightarrow> (\<forall>(spki, s)\<in>set pairs. \<exists>b. verify_sth C spki s = Inr b)"
  by (induction C pairs rule: verify_all.induct) (auto simp: py_bind_Inr_iff)

lemma length_mandate_id [len_simps]: "length (mandate_id spki) = 32"
  by (simp add: mandate_id_def len_simps)

lemma entry_for_SomeD: "entry_for es spki = Some e \<Longrightarrow> e \<in> set es \<and> be_m e = mandate_id spki"
  by (auto simp: entry_for_def find_Some_iff Let_def)

lemma entry_for_bundle:
  "(spki, s) \<in> set pairs \<Longrightarrow> \<exists>e. entry_for (bundle_entries pairs) spki = Some e"
proof -
  assume "(spki, s) \<in> set pairs"
  then have "BundleEntry (mandate_id spki) (sth_size s) (sth_root s) \<in> set (bundle_entries pairs)"
    by (force simp: bundle_entries_def)
  then have "find (\<lambda>e. be_m e = mandate_id spki) (bundle_entries pairs) \<noteq> None"
    by (auto simp: find_None_iff)
  then show ?thesis by (auto simp: entry_for_def)
qed

lemma verify_cross_witness_made:
  "sig_correct C \<Longrightarrow> cross_witness C k rnd spki s at' now = Inr st \<Longrightarrow>
   verify_cross_witness C (public_key_of C k) st = Inr True"
  by (auto simp: cross_witness_def verify_cross_witness_def py_bind_Inr_iff Let_def sig_correctD)

end
