(* ===== verification/Transfer_Grants.thy ===== *)
theory Transfer_Grants
  imports Receipt Ledger
begin

text \<open>
  \<open>hatls/transfer.py\<close>: the permissions an authority signs, to move an identity (a grant) and to
  create one (an enrolment authorisation), and their checks. A grant arrives as an arbitrary JSON
  value, so the checks are written over \<open>json\<close> with Python's \<open>get\<close>, \<open>==\<close> and \<open>int\<close>.

  Facts: what each maker signs, its check accepts inside the window; what the check of an
  authorisation accepts, exactly; where it raises instead of refusing.
\<close>

section \<open>\<open>int(x)\<close>\<close>

definition is_str_space :: "char \<Rightarrow> bool" where
  "is_str_space c \<longleftrightarrow> (let n = of_char c :: nat in
     9 \<le> n \<and> n \<le> 13 \<or> 28 \<le> n \<and> n \<le> 32 \<or> n = 133 \<or> n = 160)"

definition strip :: "string \<Rightarrow> string" where
  "strip s = rev (dropWhile is_str_space (rev (dropWhile is_str_space s)))"

text \<open>Digits with single underscores between them.\<close>

fun digits_only :: "string \<Rightarrow> bool" where
  "digits_only [] = False"
| "digits_only [c] = is_digit c"
| "digits_only (c # d # r) = (is_digit c \<and> (if d = CHR ''_'' then digits_only r else digits_only (d # r)))"

definition int_of_digits :: "string \<Rightarrow> int option" where
  "int_of_digits s = (if digits_only s then Some (digits_val (filter is_digit s)) else None)"

definition int_of_string :: "string \<Rightarrow> int option" where
  "int_of_string s = (case strip s of
     [] \<Rightarrow> None
   | c # r \<Rightarrow> if c = CHR ''-'' then map_option uminus (int_of_digits r)
       else if c = CHR ''+'' then int_of_digits r
       else int_of_digits (c # r))"

fun py_int :: "json \<Rightarrow> int py" where
  "py_int (JInt n) = Inr n"
| "py_int (JBool b) = Inr (of_bool b)"
| "py_int (JStr s) = (case int_of_string s of
     None \<Rightarrow> Inl (ValueError ''invalid literal for int() with base 10'')
   | Some n \<Rightarrow> Inr n)"
| "py_int _ = Inl (TypeError ''int() argument must be a string, a bytes-like object or a real number'')"

text \<open>\<open>int(d.get("nbf", 0)) <= now <= int(d.get("exp", 0))\<close>; the second is read only if the first holds.\<close>

definition in_window :: "dict \<Rightarrow> int \<Rightarrow> bool py" where
  "in_window d now =
     py_bind (py_int (dget_or d ''nbf'' (JInt 0))) (\<lambda>nbf.
       if \<not> nbf \<le> now then Inr False
       else py_bind (py_int (dget_or d ''exp'' (JInt 0))) (\<lambda>ex. Inr (now \<le> ex)))"

section \<open>Grants\<close>

definition canonical_grant :: "json \<Rightarrow> bytes" where
  "canonical_grant grant = encode (dumps compact grant)"

definition grant_json :: "bytes \<Rightarrow> bytes \<Rightarrow> bytes option \<Rightarrow> bool \<Rightarrow> int \<Rightarrow> int \<Rightarrow> bytes \<Rightarrow> json" where
  "grant_json tik_pub to_instance from_instance any_origin now valid_for nonce =
     JObj [(''v'', JInt 1),
           (''tik'', JStr (hex tik_pub)),
           (''to'', JStr (hex to_instance)),
           (''from'', hex_or_null from_instance),
           (''any_origin'', JBool any_origin),
           (''nbf'', JInt now),
           (''exp'', JInt (now + valid_for)),
           (''nonce'', JStr (hex nonce))]"

text \<open>\<open>nonce\<close> is the call's \<open>os.urandom(16)\<close>, \<open>now\<close> its clock reading.\<close>

definition make_grant ::
  "crypto \<Rightarrow> bytes \<Rightarrow> bytes \<Rightarrow> bytes \<Rightarrow> bytes \<Rightarrow> bytes option \<Rightarrow> int \<Rightarrow> bool \<Rightarrow> rat option \<Rightarrow> rat \<Rightarrow> bytes
   \<Rightarrow> (json \<times> bytes) py" where
  "make_grant C authority_key rnd tik_pub to_instance from_instance valid_for any_origin at' now nonce =
     (if from_instance = None \<and> \<not> any_origin
      then Inl (ValueError ''from_instance is required; pass any_origin=True to issue the stronger permission deliberately'')
      else let grant = grant_json tik_pub to_instance from_instance any_origin (at_or_now at' now) valid_for nonce
           in Inr (grant, sign_with C authority_key WithSHA256 rnd (canonical_grant grant)))"

definition verify_grant :: "crypto \<Rightarrow> bytes \<Rightarrow> json \<Rightarrow> bytes \<Rightarrow> bool py" where
  "verify_grant C authority_spki grant signature =
     py_bind (load_public C authority_spki) (\<lambda>_.
     py_bind (verify_with C authority_spki WithSHA256 signature (canonical_grant grant)) (\<lambda>_. Inr True))"

section \<open>Enrolment authorisations\<close>

definition authorisation_json :: "bytes \<Rightarrow> bytes \<Rightarrow> int \<Rightarrow> int \<Rightarrow> json" where
  "authorisation_json tik_pub nonce now valid_for =
     JObj [(''v'', JInt 1), (''kind'', JStr ''enrol''), (''tik'', JStr (hex tik_pub)),
           (''nonce'', JStr (hex nonce)), (''nbf'', JInt now), (''exp'', JInt (now + valid_for))]"

definition make_enrolment_authorisation ::
  "crypto \<Rightarrow> bytes \<Rightarrow> bytes \<Rightarrow> bytes \<Rightarrow> bytes \<Rightarrow> int \<Rightarrow> rat option \<Rightarrow> rat \<Rightarrow> json \<times> bytes" where
  "make_enrolment_authorisation C authority_key rnd tik_pub nonce valid_for at' now =
     (let body = authorisation_json tik_pub nonce (at_or_now at' now) valid_for
      in (body, sign_with C authority_key WithSHA256 rnd (canonical_grant body)))"

definition verify_enrolment_authorisation ::
  "crypto \<Rightarrow> bytes \<Rightarrow> json \<Rightarrow> bytes \<Rightarrow> bytes \<Rightarrow> bytes \<Rightarrow> rat \<Rightarrow> (bool \<times> string) py" where
  "verify_enrolment_authorisation C authority_spki body signature tik_pub nonce clock =
     (case body of
        JObj d \<Rightarrow>
          if \<not> py_eq (dget d ''v'') (JInt 1) \<or> \<not> py_eq (dget d ''kind'') (JStr ''enrol'')
          then Inr (False, ''unsupported enrolment authorisation'')
          else if \<not> py_eq (dget d ''tik'') (JStr (hex tik_pub))
          then Inr (False, ''enrolment authorisation is for a different identity'')
          else if \<not> py_eq (dget d ''nonce'') (JStr (hex nonce))
          then Inr (False, ''enrolment authorisation is for a different challenge'')
          else py_bind (in_window d (int_of_time clock)) (\<lambda>inside.
            if \<not> inside
            then Inr (False, ''enrolment authorisation is outside its validity window (times are the issuer'' @ CHR 0x27 # ''s clock; allow for skew)'')
            else (case py_bind (load_public C authority_spki) (\<lambda>_.
                         verify_with C authority_spki WithSHA256 signature (canonical_grant body)) of
                    Inl _ \<Rightarrow> Inr (False, ''enrolment authorisation is not signed by this mandate'' @ CHR 0x27 # ''s enrolment authority'')
                  | Inr _ \<Rightarrow> Inr (True, ''authorised'')))
      | _ \<Rightarrow> Inr (False, ''unsupported enrolment authorisation''))"

section \<open>Facts\<close>

lemma canonical_grant_canonical: "canonical_grant = canonical"
  by (simp add: canonical_grant_def canonical_def fun_eq_iff)

interpretation grants: canonical_encoding canonical_grant
  unfolding canonical_grant_canonical by (rule canon.canonical_encoding_axioms)

lemma py_norm_JStr [simp]: "py_norm a = JStr s \<longleftrightarrow> a = JStr s"
  by (cases a) auto

lemma py_eq_JStr [simp]: "py_eq a (JStr s) \<longleftrightarrow> a = JStr s"
  by (simp add: py_eq_def)

lemma py_eq_refl [simp]: "py_eq a a"
  by (simp add: py_eq_def)

lemma py_eq_sym: "py_eq a b \<Longrightarrow> py_eq b a"
  by (simp add: py_eq_def)

lemma py_eq_trans: "py_eq a b \<Longrightarrow> py_eq b c \<Longrightarrow> py_eq a c"
  by (simp add: py_eq_def)

lemma wf_hex_or_null [simp]: "wf_json (hex_or_null x)"
  by (simp add: hex_or_null_def split: option.splits)

lemma wf_grant_json [simp]: "wf_json (grant_json t i f o' n v c)"
  by (simp add: grant_json_def)

lemma verify_grant_Inr:
  "verify_grant C spki g s = Inr b \<longleftrightarrow> b \<and> load_public C spki = Inr () \<and>
     verify_with C spki WithSHA256 s (canonical_grant g) = Inr ()"
  by (auto simp: verify_grant_def py_bind_Inr_iff)

lemma make_grant_verifies:
  "sig_correct C \<Longrightarrow> make_grant C k rnd t i f v o' at' now nonce = Inr (g, s) \<Longrightarrow>
   verify_grant C (public_key_of C k) g s = Inr True"
  by (auto simp: make_grant_def verify_grant_def Let_def sig_correctD split: if_splits)

lemma in_window_ints:
  "in_window [(''nbf'', JInt a), (''exp'', JInt b)] t = Inr (a \<le> t \<and> t \<le> b)"
  by (simp add: in_window_def dget_or_def)

lemma in_window_True:
  "in_window d t = Inr True \<longleftrightarrow> (\<exists>a b. py_int (dget_or d ''nbf'' (JInt 0)) = Inr a \<and>
     py_int (dget_or d ''exp'' (JInt 0)) = Inr b \<and> a \<le> t \<and> t \<le> b)"
  by (auto simp: in_window_def py_bind_Inr_iff)

lemma verify_authorisation_True:
  "verify_enrolment_authorisation C spki body sig tik nonce clock = Inr (True, why) \<longleftrightarrow>
   (\<exists>d. body = JObj d \<and> py_eq (dget d ''v'') (JInt 1) \<and> dget d ''kind'' = JStr ''enrol''
     \<and> dget d ''tik'' = JStr (hex tik) \<and> dget d ''nonce'' = JStr (hex nonce)
     \<and> in_window d (int_of_time clock) = Inr True
     \<and> load_public C spki = Inr () \<and> verify_with C spki WithSHA256 sig (canonical_grant body) = Inr ()
     \<and> why = ''authorised'')"
  by (auto simp: verify_enrolment_authorisation_def py_bind_Inr_iff split: json.splits sum.splits if_splits)

lemma make_authorisation_verifies:
  assumes "sig_correct C" "make_enrolment_authorisation C k rnd tik nonce v at' now = (body, s)"
    and "at_or_now at' now \<le> int_of_time clock" "int_of_time clock \<le> at_or_now at' now + v"
  shows "verify_enrolment_authorisation C (public_key_of C k) body s tik nonce clock = Inr (True, ''authorised'')"
  unfolding verify_authorisation_True
  using assms by (auto simp: make_enrolment_authorisation_def authorisation_json_def Let_def dget_def dget_or_def
      in_window_True sig_correctD)

end
