(* ===== verification/Store.thy ===== *)
theory Store
  imports Ledger
begin

text \<open>
  \<open>hatls/store.py\<close>: the two stores of the ledger. \<open>MemoryStore\<close> is its dict; \<open>FileStore\<close> is a
  directory, a list of file names with their text. A store's values are Python dicts (\<open>json\<close>).

  The locale \<open>ledger_store\<close> is what the mandate relies on: a record put under a key is what \<open>get\<close>
  returns for it (up to the order of keys), every other key keeps its value. It is interpreted on
  both stores and on their union. \<open>FileStore.put\<close> is also given as a step relation over its system
  calls, to state what a crash between any two of them leaves behind.
\<close>

section \<open>MemoryStore\<close>

type_synonym memory = "(string \<times> json) list"

definition memory_get :: "memory \<Rightarrow> string \<Rightarrow> json option py" where
  "memory_get d key = Inr (map_of d key)"

definition memory_put :: "memory \<Rightarrow> string \<Rightarrow> json \<Rightarrow> memory py" where
  "memory_put d key record' = Inr (AList.update key record' d)"

definition memory_keys :: "memory \<Rightarrow> string list" where
  "memory_keys d = map fst d"

section \<open>FileStore\<close>

type_synonym dir = "(string \<times> string) list"

definition is_hex_key :: "string \<Rightarrow> bool" where
  "is_hex_key key \<longleftrightarrow> list_all (\<lambda>c. c \<in> set hex_chars) key"

definition key_file :: "string \<Rightarrow> string" where
  "key_file key = key @ ''.json''"

definition store_file :: "string \<Rightarrow> string py" where
  "store_file key = (if \<not> is_hex_key key then Inl (ValueError ''ledger keys are hex identity strings'')
     else Inr (key_file key))"

definition file_get :: "dir \<Rightarrow> string \<Rightarrow> json option py" where
  "file_get d key = py_bind (store_file key) (\<lambda>f.
     case map_of d f of
       None \<Rightarrow> Inr None
     | Some t \<Rightarrow> (case loads t of
         None \<Rightarrow> Inl (ValueError ''Expecting value'')
       | Some JNull \<Rightarrow> Inr None
       | Some j \<Rightarrow> Inr (Some j)))"

text \<open>A \<open>put\<close> that runs to its end; the steps it takes are below.\<close>

definition file_put :: "dir \<Rightarrow> string \<Rightarrow> json \<Rightarrow> dir py" where
  "file_put d key record' = py_bind (store_file key) (\<lambda>f.
     Inr (AList.update f (dumps default_seps record') d))"

definition file_keys :: "dir \<Rightarrow> string list" where
  "file_keys d = map (\<lambda>f. take (length f - 5) f) (filter (\<lambda>f. ends_with f ''.json'') (map fst d))"

section \<open>The stores a mandate is given\<close>

datatype store =
    MemoryStore memory
  | FileStore string dir

fun durable :: "store \<Rightarrow> bool" where
  "durable (MemoryStore d) = False"
| "durable (FileStore p d) = True"

fun store_get :: "store \<Rightarrow> string \<Rightarrow> json option py" where
  "store_get (MemoryStore d) key = memory_get d key"
| "store_get (FileStore p d) key = file_get d key"

fun store_put :: "store \<Rightarrow> string \<Rightarrow> json \<Rightarrow> store py" where
  "store_put (MemoryStore d) key r = py_bind (memory_put d key r) (\<lambda>d'. Inr (MemoryStore d'))"
| "store_put (FileStore p d) key r = py_bind (file_put d key r) (\<lambda>d'. Inr (FileStore p d'))"

fun store_keys :: "store \<Rightarrow> string list" where
  "store_keys (MemoryStore d) = memory_keys d"
| "store_keys (FileStore p d) = file_keys d"

text \<open>What \<open>get\<close> does to the record that was put.\<close>

fun store_norm :: "store \<Rightarrow> json \<Rightarrow> json" where
  "store_norm (MemoryStore d) j = j"
| "store_norm (FileStore p d) j = sort_json j"

section \<open>The contract\<close>

text \<open>What the mandate puts: a \<open>dict\<close> with distinct keys all the way down.\<close>

fun is_record :: "json \<Rightarrow> bool" where
  "is_record (JObj kvs) = wf_json (JObj kvs)"
| "is_record _ = False"

locale ledger_store =
  fixes get :: "'s \<Rightarrow> string \<Rightarrow> json option py"
    and put :: "'s \<Rightarrow> string \<Rightarrow> json \<Rightarrow> 's py"
    and keys :: "'s \<Rightarrow> string list"
    and norm :: "'s \<Rightarrow> json \<Rightarrow> json"
  assumes put_ok: "is_hex_key k \<Longrightarrow> \<exists>s'. put s k v = Inr s'"
    and get_put: "put s k v = Inr s' \<Longrightarrow> is_record v \<Longrightarrow> get s' k = Inr (Some (norm s v))"
    and get_put_other: "put s k v = Inr s' \<Longrightarrow> k \<noteq> k' \<Longrightarrow> get s' k' = get s k'"
    and keys_put: "put s k v = Inr s' \<Longrightarrow> set (keys s') = insert k (set (keys s))"
    and norm_put: "put s k v = Inr s' \<Longrightarrow> norm s' = norm s"
begin

text \<open>A run of puts, as a mandate's sequence of decisions makes them.\<close>

fun puts :: "'s \<Rightarrow> (string \<times> json) list \<Rightarrow> 's py" where
  "puts s [] = Inr s"
| "puts s ((k, v) # kvs) = py_bind (put s k v) (\<lambda>s'. puts s' kvs)"

lemma puts_ok: "list_all (is_hex_key \<circ> fst) kvs \<Longrightarrow> \<exists>s'. puts s kvs = Inr s'"
proof (induction kvs arbitrary: s)
  case (Cons kv kvs)
  then obtain s' where "put s (fst kv) (snd kv) = Inr s'" using put_ok [of "fst kv" s "snd kv"] by auto
  with Cons show ?case by (cases kv) auto
qed simp

lemma puts_norm: "puts s kvs = Inr s' \<Longrightarrow> norm s' = norm s"
proof (induction s kvs rule: puts.induct)
  case (2 s k v kvs)
  then obtain t where "put s k v = Inr t" "puts t kvs = Inr s'" by (auto simp: py_bind_Inr_iff)
  with 2 norm_put show ?case by metis
qed simp

text \<open>The last record put under a key is the one read back; a key never put keeps its old one.\<close>

lemma puts_get:
  "puts s kvs = Inr s' \<Longrightarrow> list_all (is_record \<circ> snd) kvs \<Longrightarrow>
   get s' k = (case map_of (rev kvs) k of None \<Rightarrow> get s k | Some v \<Rightarrow> Inr (Some (norm s v)))"
proof (induction s kvs rule: puts.induct)
  case (2 s j v kvs)
  then obtain t where t: "put s j v = Inr t" "puts t kvs = Inr s'" by (auto simp: py_bind_Inr_iff)
  have "get s' k = (case map_of (rev kvs) k of None \<Rightarrow> get t k | Some w \<Rightarrow> Inr (Some (norm s w)))"
    using 2 t norm_put [OF t(1)] by (auto split: option.splits)
  moreover have "get t k = (if j = k then Inr (Some (norm s v)) else get s k)"
    using get_put [OF t(1)] get_put_other [OF t(1)] "2.prems" by auto
  ultimately show ?case by (auto simp: map_add_def split: option.splits)
qed simp

lemma puts_keys: "puts s kvs = Inr s' \<Longrightarrow> set (keys s') = fst ` set kvs \<union> set (keys s)"
proof (induction s kvs rule: puts.induct)
  case (2 s k v kvs)
  then obtain t where t: "put s k v = Inr t" "puts t kvs = Inr s'" by (auto simp: py_bind_Inr_iff)
  with 2 keys_put [OF t(1)] show ?case by auto
qed simp

end

section \<open>Both stores meet it\<close>

lemma key_file_inj [simp]: "key_file k = key_file k' \<longleftrightarrow> k = k'"
  by (simp add: key_file_def)

lemma sort_json_obj: "\<exists>kvs'. sort_json (JObj kvs) = JObj kvs'"
  by simp

lemma key_file_json: "ends_with (key_file k) ''.json''"
  by (simp add: ends_with_def key_file_def)

lemma take_key_file: "take (length (key_file k) - 5) (key_file k) = k"
  by (simp add: key_file_def)

lemma file_get_put:
  assumes "file_put d k v = Inr d'" "is_record v"
  shows "file_get d' k = Inr (Some (sort_json v))"
proof -
  obtain kvs where "v = JObj kvs" "wf_json v" using assms(2) by (cases v) auto
  then have "loads (dumps default_seps v) = Some (sort_json v)" by (intro loads_dumps) simp_all
  with assms \<open>v = JObj kvs\<close> show ?thesis
    by (auto simp: file_put_def file_get_def store_file_def update_conv' split: if_splits)
qed

lemma file_get_put_other: "file_put d k v = Inr d' \<Longrightarrow> k \<noteq> k' \<Longrightarrow> file_get d' k' = file_get d k'"
  by (auto simp: file_put_def file_get_def store_file_def update_conv' split: if_splits)

lemma file_keys_put: "file_put d k v = Inr d' \<Longrightarrow> set (file_keys d') = insert k (set (file_keys d))"
proof -
  assume "file_put d k v = Inr d'"
  then have d': "d' = AList.update (key_file k) (dumps default_seps v) d"
    by (auto simp: file_put_def store_file_def split: if_splits)
  have "fst ` set d' = insert (key_file k) (fst ` set d)"
    by (simp add: d' dom_map_of_conv_image_fst [symmetric] update_conv')
  then have "set (filter (\<lambda>f. ends_with f ''.json'') (map fst d')) =
      insert (key_file k) (set (filter (\<lambda>f. ends_with f ''.json'') (map fst d)))"
    by (auto simp: key_file_json)
  then show ?thesis by (simp only: file_keys_def set_map image_insert take_key_file)
qed

interpretation mem: ledger_store memory_get memory_put memory_keys "\<lambda>d v. v"
proof unfold_locales
  fix s k v s'
  assume "memory_put s k v = Inr s'"
  then have "s' = AList.update k v s" by (simp add: memory_put_def)
  then show "set (memory_keys s') = insert k (set (memory_keys s))"
    by (simp add: memory_keys_def dom_map_of_conv_image_fst [symmetric] update_conv')
qed (auto simp: memory_get_def memory_put_def update_conv')

interpretation fil: ledger_store file_get file_put file_keys "\<lambda>d. sort_json"
  by unfold_locales
    (simp_all add: file_get_put file_get_put_other file_keys_put, simp add: file_put_def store_file_def)

interpretation st: ledger_store store_get store_put store_keys store_norm
proof unfold_locales
  fix k s v
  assume "is_hex_key k"
  then show "\<exists>s'. store_put s k v = Inr s'"
    using mem.put_ok fil.put_ok by (cases s) (force simp: py_bind_Inr_iff)+
next
  fix s k v s'
  assume p: "store_put s k v = Inr s'"
  show "is_record v \<Longrightarrow> store_get s' k = Inr (Some (store_norm s v))"
    using p mem.get_put fil.get_put by (cases s) (auto simp: py_bind_Inr_iff)
  show "k \<noteq> k' \<Longrightarrow> store_get s' k' = store_get s k'" for k'
    using p mem.get_put_other fil.get_put_other by (cases s) (auto simp: py_bind_Inr_iff)
  show "set (store_keys s') = insert k (set (store_keys s))"
    using p mem.keys_put fil.keys_put by (cases s) (auto simp: py_bind_Inr_iff)
  show "store_norm s' = store_norm s"
    using p by (cases s) (auto simp: py_bind_Inr_iff)
qed

text \<open>The same run of puts on the mandate's store, and the finite map it refines.\<close>

fun store_puts :: "store \<Rightarrow> (string \<times> json) list \<Rightarrow> store py" where
  "store_puts s [] = Inr s"
| "store_puts s ((k, v) # kvs) = py_bind (store_put s k v) (\<lambda>s'. store_puts s' kvs)"

lemma store_puts_eq: "store_puts s kvs = st.puts s kvs"
  by (induction s kvs rule: store_puts.induct) (auto intro!: arg_cong2 [where f = py_bind])

definition spec_puts :: "(string \<Rightarrow> json option) \<Rightarrow> (string \<times> json) list \<Rightarrow> string \<Rightarrow> json option" where
  "spec_puts M kvs = foldl (\<lambda>M (k, v). M(k \<mapsto> v)) M kvs"

lemma spec_puts_map_of: "spec_puts M kvs k = (case map_of (rev kvs) k of None \<Rightarrow> M k | Some v \<Rightarrow> Some v)"
  unfolding spec_puts_def
  by (induction kvs arbitrary: M) (auto simp: map_add_def split: option.splits)

lemma durable_put: "store_put s k v = Inr s' \<Longrightarrow> durable s' = durable s"
  by (cases s) (auto simp: py_bind_Inr_iff)

lemma is_hex_key_hex [simp]: "is_hex_key (hex b)"
  using set_hex [of b] by (auto simp: is_hex_key_def list_all_iff)

section \<open>The system calls of \<open>FileStore.put\<close>\<close>

text \<open>
  Where \<open>put\<close> is. \<open>mkstemp\<close> makes an empty file of a new name ending in \<open>.tmp\<close>; the text reaches
  it in pieces, all of it by \<open>fsync\<close>; \<open>os.replace\<close> renames it over the target in one step. An
  exception while writing or renaming removes the temporary file, or fails to, and is raised.
\<close>

datatype put_pc =
    Begin
  | Writing string string
  | Synced string
  | Failing string
  | Replaced
  | Raised

inductive put_step :: "string \<Rightarrow> string \<Rightarrow> put_pc \<times> dir \<Rightarrow> put_pc \<times> dir \<Rightarrow> bool"
  for target :: string and text' :: string
  where
  mkstemp: "map_of d tmp = None \<Longrightarrow> ends_with tmp ''.tmp'' \<Longrightarrow>
    put_step target text' (Begin, d) (Writing tmp [], AList.update tmp [] d)"
| write_part: "text' = w @ p @ r \<Longrightarrow>
    put_step target text' (Writing tmp w, d) (Writing tmp (w @ p), AList.update tmp (w @ p) d)"
| fsync: "put_step target text' (Writing tmp text', d) (Synced tmp, AList.update tmp text' d)"
| replace: "put_step target text' (Synced tmp, d) (Replaced, AList.delete tmp (AList.update target text' d))"
| write_error: "put_step target text' (Writing tmp w, d) (Failing tmp, d)"
| replace_error: "put_step target text' (Synced tmp, d) (Failing tmp, d)"
| unlink: "put_step target text' (Failing tmp, d) (Raised, AList.delete tmp d)"
| unlink_error: "put_step target text' (Failing tmp, d) (Raised, d)"

inductive_cases put_step_Begin: "put_step target text' (Begin, d) s"
inductive_cases put_step_Writing: "put_step target text' (Writing tmp w, d) s"
inductive_cases put_step_Synced: "put_step target text' (Synced tmp, d) s"
inductive_cases put_step_Failing: "put_step target text' (Failing tmp, d) s"
inductive_simps put_step_done: "put_step target text' (Replaced, d) s" "put_step target text' (Raised, d) s"

lemmas put_step_elims = put_step_Begin put_step_Writing put_step_Synced put_step_Failing

definition put_run :: "string \<Rightarrow> string \<Rightarrow> put_pc \<times> dir \<Rightarrow> put_pc \<times> dir \<Rightarrow> bool" where
  "put_run target text' = (put_step target text')\<^sup>*\<^sup>*"

text \<open>
  The invariant of the run: files other than the temporary one and the target never change, the
  temporary one is not a ledger file, and the target changes only in the last step.
\<close>

fun tmp_of :: "put_pc \<Rightarrow> string option" where
  "tmp_of (Writing t w) = Some t"
| "tmp_of (Synced t) = Some t"
| "tmp_of (Failing t) = Some t"
| "tmp_of _ = None"

definition is_ledger_file :: "string \<Rightarrow> bool" where
  "is_ledger_file f \<longleftrightarrow> ends_with f ''.json''"

fun tmp_full :: "string \<Rightarrow> put_pc \<Rightarrow> bool" where
  "tmp_full text' (Writing t w) = (\<exists>r. text' = w @ r)"
| "tmp_full text' _ = True"

definition put_inv :: "string \<Rightarrow> string \<Rightarrow> dir \<Rightarrow> put_pc \<times> dir \<Rightarrow> bool" where
  "put_inv target text' d0 s = (case s of (pc, d) \<Rightarrow>
     (\<forall>t. tmp_of pc = Some t \<longrightarrow> \<not> is_ledger_file t) \<and> tmp_full text' pc \<and>
     (\<forall>f. is_ledger_file f \<longrightarrow>
        map_of d f = (if pc = Replaced \<and> f = target then Some text' else map_of d0 f)))"

lemma tmp_not_ledger: "ends_with t ''.tmp'' \<Longrightarrow> \<not> is_ledger_file t"
proof
  assume t: "ends_with t ''.tmp''" "is_ledger_file t"
  obtain a b where "t = a @ ''.tmp''" "t = b @ ''.json''"
    using t by (metis append_take_drop_id ends_with_def is_ledger_file_def)
  then have "rev (a @ ''.tmp'') = rev (b @ ''.json'')" by simp
  then show False by simp
qed

lemma put_inv_step:
  "put_step target text' s s' \<Longrightarrow> put_inv target text' d0 s \<Longrightarrow> put_inv target text' d0 s'"
proof (induction s s' rule: put_step.induct)
  case (mkstemp d tmp)
  then show ?case
    using tmp_not_ledger [of tmp] by (auto simp: put_inv_def update_conv')
qed (auto simp: put_inv_def update_conv' delete_conv')

lemma put_inv_run: "put_run target text' (Begin, d0) s \<Longrightarrow> put_inv target text' d0 s"
  unfolding put_run_def
  by (induction rule: rtranclp_induct) (auto simp: put_inv_step, simp add: put_inv_def)

lemma file_get_ledger: "map_of d (key_file k) = map_of d' (key_file k) \<Longrightarrow> file_get d k = file_get d' k"
  by (simp add: file_get_def store_file_def)

lemma is_ledger_key_file [simp]: "is_ledger_file (key_file k)"
  by (simp add: is_ledger_file_def key_file_json)

lemma file_keys_dom:
  "(\<And>f. is_ledger_file f \<Longrightarrow> map_of d f = map_of d' f) \<Longrightarrow> set (file_keys d) = set (file_keys d')"
proof -
  assume eq: "\<And>f. is_ledger_file f \<Longrightarrow> map_of d f = map_of d' f"
  have dom: "fst ` set e = {f. map_of e f \<noteq> None}" for e :: dir
    using dom_map_of_conv_image_fst [of e] by (simp add: dom_def)
  have "{f \<in> fst ` set d. ends_with f ''.json''} = {f \<in> fst ` set d'. ends_with f ''.json''}"
    using eq unfolding dom is_ledger_file_def by auto
  then show ?thesis by (simp add: file_keys_def)
qed

text \<open>
  Stop the run anywhere, a crash included: every key reads as before the call, or the call had
  renamed its file and the directory reads as after a complete \<open>file_put\<close>.
\<close>

lemma put_crash_atomic:
  assumes "put_run (key_file k) (dumps default_seps v) (Begin, d0) (pc, d)" "file_put d0 k v = Inr d1"
  shows "if pc = Replaced
     then file_get d = file_get d1 \<and> set (file_keys d) = set (file_keys d1)
     else file_get d = file_get d0 \<and> set (file_keys d) = set (file_keys d0)"
proof -
  let ?e = "if pc = Replaced then d1 else d0"
  have d1: "d1 = AList.update (key_file k) (dumps default_seps v) d0"
    using assms(2) by (auto simp: file_put_def store_file_def split: if_splits)
  have eq: "map_of d f = map_of ?e f" if "is_ledger_file f" for f
    using put_inv_run [OF assms(1)] that by (auto simp: put_inv_def d1 update_conv')
  then have "file_get d = file_get ?e"
    by (intro ext file_get_ledger) simp
  moreover have "set (file_keys d) = set (file_keys ?e)"
    using eq by (rule file_keys_dom)
  ultimately show ?thesis by simp
qed

text \<open>The run that meets no error ends with the file replaced.\<close>

lemma put_completes:
  assumes "map_of d0 tmp = None" "ends_with tmp ''.tmp''"
  shows "\<exists>d. put_run target text' (Begin, d0) (Replaced, d)"
proof -
  let ?d = "AList.update tmp text' (AList.update tmp [] d0)"
  have "put_step target text' (Begin, d0) (Writing tmp [], AList.update tmp [] d0)"
    using assms by (rule put_step.mkstemp)
  moreover have "put_step target text' (Writing tmp [], AList.update tmp [] d0) (Writing tmp text', ?d)"
    using put_step.write_part [of text' "[]" text' "[]" target tmp "AList.update tmp [] d0"] by simp
  moreover have "put_step target text' (Writing tmp text', ?d) (Synced tmp, AList.update tmp text' ?d)"
    by (rule put_step.fsync)
  moreover have "\<exists>d. put_step target text' (Synced tmp, AList.update tmp text' ?d) (Replaced, d)"
    by (blast intro: put_step.replace)
  ultimately show ?thesis
    unfolding put_run_def by (blast intro: converse_rtranclp_into_rtranclp)
qed

end
