(* ===== verification/Mandate.thy ===== *)
theory Mandate
  imports Attester Federation Transfer_Grants Store
begin

text \<open>
  \<open>Mandate\<close> of \<open>hatls/protocol.py\<close>: its state and one definition per method, each the whole method.
  A method that changes state returns what it returned or raised together with the new state; the
  clock readings, the randomness of a signature and of a nonce are inputs of the call. The log of
  events keeps its tuples as lists of strings and integers. What the constructor fixes for good is
  in \<open>config\<close>; \<open>verify_report\<close> is the function the deployment passes.
\<close>

section \<open>State\<close>

record config =
  cf_crypto :: crypto
  verify_report :: "json \<Rightarrow> bytes \<Rightarrow> (bool \<times> anchor option) py"
  signing_key :: bytes
  ephemeral_signing_key :: bool
  require_anchor :: bool
  require_enrolment :: bool
  require_place :: bool
  challenge_ttl :: rat
  witness_ttl :: int
  enrolment_authority :: "bytes option"

record session =
  ss_prev :: bytes
  ss_counter :: int

datatype evarg = ES string | EI int

type_synonym event = "evarg list"

record peer_head =
  ph_size :: int
  ph_root :: string
  ph_at :: int

record mandate =
  cfg :: config
  merkle :: merkle_log
  last_receipt :: "receipt option"
  roots :: "string \<Rightarrow> nat option"
  peers :: "string \<Rightarrow> peer_head list option"
  mstore :: store
  sessions :: "string \<times> string \<Rightarrow> session option"
  challenges :: "bytes \<Rightarrow> rat option"
  events :: "event list"

text \<open>What one call reads from outside: the clock at each place the method reads it, and randomness.\<close>

record inputs =
  t_check :: rat
  t_auth :: rat
  t_witness :: rat
  t_dispute :: rat
  t_entry :: rat
  t_sth :: rat
  sth_rnd :: bytes

definition emit_event :: "mandate \<Rightarrow> event \<Rightarrow> mandate" where
  "emit_event m ev = m\<lparr>events := events m @ [ev]\<rparr>"

definition mandate_new :: "config \<Rightarrow> store \<Rightarrow> mandate" where
  "mandate_new c st =
     emit_event \<lparr>cfg = c, merkle = log_new [], last_receipt = None,
        roots = [hex (log_head (log_new [])) \<mapsto> 0], peers = Map.empty, mstore = st,
        sessions = Map.empty, challenges = Map.empty, events = []\<rparr>
       [ES ''mandate-mode'',
        ES (if durable st then ''durable'' else ''in-process''),
        ES (if require_enrolment c then ''enrolment-required'' else ''enrolment-optional''),
        ES (if require_anchor c then ''anchor-required'' else ''anchor-optional'')]"

section \<open>The ledger\<close>

definition mandate_rec :: "mandate \<Rightarrow> string \<Rightarrow> ledger_rec py" where
  "mandate_rec m k = py_bind (store_get (mstore m) k) (\<lambda>r. case r of
     None \<Rightarrow> Inr blank
   | Some j \<Rightarrow> (case rec_of_json j of None \<Rightarrow> Inl (TypeError ''ledger record'') | Some r' \<Rightarrow> Inr r'))"

definition save_rec :: "mandate \<Rightarrow> string \<Rightarrow> ledger_rec \<Rightarrow> unit py \<times> mandate" where
  "save_rec m k r = (case store_put (mstore m) k (json_of_rec r) of
     Inl e \<Rightarrow> (Inl e, m)
   | Inr st \<Rightarrow> (Inr (), m\<lparr>mstore := st\<rparr>))"

definition mandate_durable :: "mandate \<Rightarrow> bool" where
  "mandate_durable m = durable (mstore m)"

text \<open>\<open>self.store.get(k) or {}\<close>.\<close>

definition raw_rec :: "mandate \<Rightarrow> string \<Rightarrow> dict py" where
  "raw_rec m k = py_bind (store_get (mstore m) k) (\<lambda>r. case r of
     None \<Rightarrow> Inr []
   | Some j \<Rightarrow> if \<not> truthy j then Inr [] else (case j of JObj d \<Rightarrow> Inr d
       | _ \<Rightarrow> Inl (AttributeError ''object has no attribute get'')))"

text \<open>\<open>bytes.fromhex(a) if a else None\<close>.\<close>

definition fromhex_if :: "json \<Rightarrow> bytes option py" where
  "fromhex_if a = (if truthy a then py_bind (fromhex_json a) (\<lambda>b. Inr (Some b)) else Inr None)"

fun enrolled_of :: "mandate \<Rightarrow> string list \<Rightarrow> (string \<times> bytes) list py" where
  "enrolled_of m [] = Inr []"
| "enrolled_of m (k # ks) =
     py_bind (raw_rec m k) (\<lambda>d.
     py_bind (fromhex_if (dget d ''enrolled_instance'')) (\<lambda>a.
     py_bind (enrolled_of m ks) (\<lambda>rest. Inr ((case a of None \<Rightarrow> [] | Some b \<Rightarrow> [(k, b)]) @ rest))))"

definition enrolled :: "mandate \<Rightarrow> (string \<times> bytes) list py" where
  "enrolled m = enrolled_of m (store_keys (mstore m))"

record identity_view =
  iv_anchor :: "bytes option"
  iv_place :: "bytes option"
  iv_revoked :: json

fun identity_of :: "mandate \<Rightarrow> string list \<Rightarrow> (string \<times> identity_view) list py" where
  "identity_of m [] = Inr []"
| "identity_of m (k # ks) =
     py_bind (raw_rec m k) (\<lambda>d.
     py_bind (fromhex_if (dget d ''observed_instance'')) (\<lambda>a.
     py_bind (fromhex_if (dget d ''enrolled_place'')) (\<lambda>p.
     py_bind (identity_of m ks) (\<lambda>rest.
       Inr ((k, \<lparr>iv_anchor = a, iv_place = p, iv_revoked = dget_or d ''revoked'' (JBool False)\<rparr>) # rest)))))"

definition identity :: "mandate \<Rightarrow> (string \<times> identity_view) list py" where
  "identity m = identity_of m (store_keys (mstore m))"

fun contention_of :: "mandate \<Rightarrow> string list \<Rightarrow> (string \<times> json) list py" where
  "contention_of m [] = Inr []"
| "contention_of m (k # ks) =
     py_bind (raw_rec m k) (\<lambda>d.
     py_bind (contention_of m ks) (\<lambda>rest.
       (let c = dget d ''contention'' in Inr ((if truthy c then [(k, c)] else []) @ rest))))"

definition mandate_contention :: "mandate \<Rightarrow> (string \<times> json) list py" where
  "mandate_contention m = contention_of m (store_keys (mstore m))"

text \<open>\<open>x.hex() if x else None\<close>.\<close>

definition hex_opt :: "bytes option \<Rightarrow> string option" where
  "hex_opt x = (case x of None \<Rightarrow> None | Some b \<Rightarrow> if b = [] then None else Some (hex b))"

definition opt_fromhex :: "string option \<Rightarrow> bytes option py" where
  "opt_fromhex x = (case x of None \<Rightarrow> Inr None
     | Some s \<Rightarrow> if s = [] then Inr None else py_bind (fromhex s) (\<lambda>b. Inr (Some b)))"

definition witness_rec :: "config \<Rightarrow> rat \<Rightarrow> ledger_rec \<Rightarrow> bytes \<Rightarrow> bytes option \<Rightarrow> ledger_rec" where
  "witness_rec c clock r inst place =
     (let now = int_of_time clock;
          seen = filter (\<lambda>w. w_instance w \<noteq> hex inst \<and> now - w_at w < witness_ttl c) (witnessed r)
      in r\<lparr>witnessed := last_n 32 (seen @ [\<lparr>w_instance = hex inst, w_place = hex_opt place, w_at = now\<rparr>])\<rparr>)"

definition dispute_rec :: "rat \<Rightarrow> ledger_rec \<Rightarrow> string \<Rightarrow> ledger_rec" where
  "dispute_rec clock r why =
     r\<lparr>contention := last_n 64 (contention r @ [\<lparr>dsp_at = int_of_time clock, dsp_why = why\<rparr>])\<rparr>"

section \<open>The transparency side\<close>

definition mandate_public_key :: "mandate \<Rightarrow> bytes" where
  "mandate_public_key m = public_key_of (cf_crypto (cfg m)) (signing_key (cfg m))"

definition mandate_own_id :: "mandate \<Rightarrow> string" where
  "mandate_own_id m = mandate_id (mandate_public_key m)"

text \<open>\<open>setdefault(peer, []).append(...)\<close>: the cross-witness is made first.\<close>

definition observe :: "inputs \<Rightarrow> mandate \<Rightarrow> bytes \<Rightarrow> sth \<Rightarrow> statement py \<times> mandate" where
  "observe i m peer_spki peer_sth =
     (case cross_witness (cf_crypto (cfg m)) (signing_key (cfg m)) (sth_rnd i) peer_spki peer_sth None (t_check i) of
        Inl e \<Rightarrow> (Inl e, m)
      | Inr s \<Rightarrow>
          (let p = mandate_id peer_spki;
               old = (case peers m p of None \<Rightarrow> [] | Some l \<Rightarrow> l)
           in (Inr s, m\<lparr>peers := (peers m)(p \<mapsto> old @ [\<lparr>ph_size = sth_size peer_sth, ph_root = sth_root peer_sth, ph_at = st_at s\<rparr>])\<rparr>)))"

definition head_for_attestation :: "mandate \<Rightarrow> bytes" where
  "head_for_attestation m = log_head (merkle m)"

definition knows_head :: "mandate \<Rightarrow> bytes \<Rightarrow> bool" where
  "knows_head m head \<longleftrightarrow> roots m (hex head) \<noteq> None"

definition mandate_sth :: "inputs \<Rightarrow> mandate \<Rightarrow> sth" where
  "mandate_sth i m = sign_sth (cf_crypto (cfg m)) (signing_key (cfg m)) (sth_rnd i)
     (int (log_len (merkle m))) (log_head (merkle m)) None (t_sth i)"

definition prove_extension :: "mandate \<Rightarrow> int \<Rightarrow> string list py" where
  "prove_extension m old_size = py_bind (log_prove_consistency (merkle m) old_size) (\<lambda>p. Inr (map hex p))"

text \<open>\<open>xs[i]\<close>: a negative index counts from the end.\<close>

definition py_index :: "'a list \<Rightarrow> int \<Rightarrow> 'a py" where
  "py_index xs i = (let n = int (length xs) in
     if 0 \<le> i \<and> i < n then Inr (xs ! nat i)
     else if - n \<le> i \<and> i < 0 then Inr (xs ! nat (i + n))
     else Inl (IndexError ''list index out of range''))"

definition mandate_receipt :: "inputs \<Rightarrow> mandate \<Rightarrow> int \<Rightarrow> receipt py" where
  "mandate_receipt i m index =
     py_bind (py_index (merkle m) index) (\<lambda>entry.
     py_bind (log_prove_inclusion (merkle m) index) (\<lambda>p.
       Inr \<lparr>rc_entry = hex entry, rc_index = index, rc_proof = map hex p, rc_sth = mandate_sth i m\<rparr>))"

definition record_decision ::
  "inputs \<Rightarrow> mandate \<Rightarrow> string \<Rightarrow> bytes \<Rightarrow> bool \<Rightarrow> string \<Rightarrow> bytes option \<Rightarrow> receipt py \<times> mandate" where
  "record_decision i m kind tik_pub accepted why inst =
     (let entry = make_entry kind tik_pub accepted why inst None (Some (int (log_len (merkle m)))) (t_entry i);
          ((index, new_root), l) = log_append (merkle m) entry;
          m1 = m\<lparr>merkle := l, roots := (roots m)(hex new_root \<mapsto> log_len l)\<rparr>
      in case mandate_receipt i m1 (int index) of
           Inl e \<Rightarrow> (Inl e, m1)
         | Inr r \<Rightarrow> (Inr r, m1\<lparr>last_receipt := Some r\<rparr>))"

section \<open>Enrolment\<close>

text \<open>\<open>n\<close> is the call's \<open>os.urandom(32)\<close>.\<close>

definition challenge :: "rat \<Rightarrow> bytes \<Rightarrow> mandate \<Rightarrow> bytes \<times> mandate" where
  "challenge now n m =
     (let live = (\<lambda>x. case challenges m x of None \<Rightarrow> None | Some e \<Rightarrow> if now < e then Some e else None)
      in (n, m\<lparr>challenges := live(n \<mapsto> now + challenge_ttl (cfg m))\<rparr>))"

record enrolment =
  en_tik_pub :: bytes
  en_evidence :: json
  en_nonce :: bytes
  en_csr :: bytes
  en_transfer_authority :: "bytes option"
  en_authorisation :: "json option"
  en_authorisation_sig :: "bytes option"

definition enroll_reject :: "mandate \<Rightarrow> string \<Rightarrow> string \<Rightarrow> string \<Rightarrow> (bool \<times> string) py \<times> mandate" where
  "enroll_reject m k tag why = (Inr (False, why), emit_event m [ES ''enroll-rejected'', ES (take 16 k), ES tag])"

text \<open>The check of the enrolment authority's permission: \<open>Some\<close> is the tag and the reason of a refusal.\<close>

definition enroll_permitted :: "inputs \<Rightarrow> mandate \<Rightarrow> enrolment \<Rightarrow> (string \<times> string) option py" where
  "enroll_permitted i m e = (case enrolment_authority (cfg m) of
     None \<Rightarrow> Inr None
   | Some authority \<Rightarrow> (case (en_authorisation e, en_authorisation_sig e) of
       (Some body, Some sig) \<Rightarrow>
         py_bind (verify_enrolment_authorisation (cf_crypto (cfg m)) authority body sig
             (en_tik_pub e) (en_nonce e) (t_auth i)) (\<lambda>(aok, awhy).
           if \<not> aok then Inr (Some (''bad enrolment authorisation'', awhy)) else Inr None)
     | _ \<Rightarrow> Inr (Some (''no enrolment authorisation'',
         ''this mandate enrols only what its enrolment authority has permitted, and no authorisation was offered''))))"

text \<open>What a permitted enrolment writes: the nonce is spent, the record names the instance.\<close>

definition enrolled_rec :: "enrolment \<Rightarrow> ledger_rec \<Rightarrow> anchor \<Rightarrow> ledger_rec" where
  "enrolled_rec e r a =
     (let r1 = r\<lparr>enrolled_instance := Some (hex (anchor_instance a)), enrolled_place := hex_opt (anchor_place a)\<rparr>
      in case en_transfer_authority e of None \<Rightarrow> r1
         | Some ta \<Rightarrow> r1\<lparr>transfer_authority := Some (hex ta)\<rparr>)"

definition enroll_write :: "mandate \<Rightarrow> enrolment \<Rightarrow> ledger_rec \<Rightarrow> anchor \<Rightarrow> (bool \<times> string) py \<times> mandate" where
  "enroll_write m e r a =
     (let k = hex (en_tik_pub e);
          m1 = m\<lparr>challenges := (challenges m)(en_nonce e := None)\<rparr>
      in case save_rec m1 k (enrolled_rec e r a) of
           (Inl x, m2) \<Rightarrow> (Inl x, m2)
         | (Inr _, m2) \<Rightarrow> (Inr (True, ''enrolled''),
             emit_event m2 [ES ''enrolled'', ES (take 16 k), ES (take 12 (hex (anchor_instance a))),
               ES (if en_transfer_authority e \<noteq> None then ''transferable'' else ''fixed'')]))"

text \<open>From the ledger record on: the CSR, the evidence, and the write.\<close>

definition enroll_bind :: "mandate \<Rightarrow> enrolment \<Rightarrow> ledger_rec \<Rightarrow> (bool \<times> string) py \<times> mandate" where
  "enroll_bind m e r =
     (let k = hex (en_tik_pub e) in
      if enrolled_instance r \<noteq> None
      then enroll_reject m k ''already enrolled'' ''identity already enrolled; re-enrolment is an operator action''
      else (case csr_public_key_der (cf_crypto (cfg m)) (en_csr e) of
        Inl x \<Rightarrow> enroll_reject m k (''bad CSR: '' @ exn_str x) (''CSR unusable: '' @ exn_str x)
      | Inr csr_spki \<Rightarrow>
          if csr_spki \<noteq> en_tik_pub e
          then enroll_reject m k ''CSR carries a different key'' ''CSR does not carry the key being enrolled''
          else (case verify_report (cfg m) (en_evidence e) (sha512 (en_nonce e @ en_csr e)) of
            Inl x \<Rightarrow> (Inl x, m)
          | Inr (ok, an) \<Rightarrow>
              if \<not> ok then enroll_reject m k ''evidence invalid'' ''enrolment evidence invalid''
              else (case an of
                None \<Rightarrow> enroll_reject m k ''platform exposes no instance claim''
                  ''platform exposes no usable instance claim: continuity-to-an-instance cannot be enrolled here''
              | Some a \<Rightarrow>
                  if require_place (cfg m) \<and> anchor_place a = None
                  then enroll_reject m k ''platform exposes no place claim''
                    ''platform exposes no place claim and this mandate requires one''
                  else
                  enroll_write m e r a))))"

definition enroll_decide :: "inputs \<Rightarrow> mandate \<Rightarrow> enrolment \<Rightarrow> (bool \<times> string) py \<times> mandate" where
  "enroll_decide i m e =
     (let k = hex (en_tik_pub e) in
      case challenges m (en_nonce e) of
        None \<Rightarrow> enroll_reject m k ''stale or unissued nonce'' ''nonce was not issued by this mandate (replay)''
      | Some expiry \<Rightarrow>
          if expiry \<le> t_check i
          then enroll_reject (m\<lparr>challenges := (challenges m)(en_nonce e := None)\<rparr>) k ''nonce expired'' ''nonce expired''
          else (case enroll_permitted i m e of
            Inl x \<Rightarrow> (Inl x, m)
          | Inr (Some (tag, why)) \<Rightarrow> enroll_reject m k tag why
          | Inr None \<Rightarrow> (case mandate_rec m k of
              Inl x \<Rightarrow> (Inl x, m)
            | Inr r \<Rightarrow> enroll_bind m e r)))"

text \<open>\<open>enroll\<close>: decide, then record the decision with the instance it left on record.\<close>

definition enroll :: "inputs \<Rightarrow> mandate \<Rightarrow> enrolment \<Rightarrow> (bool \<times> string) py \<times> mandate" where
  "enroll i m e = (case enroll_decide i m e of
     (Inl x, m1) \<Rightarrow> (Inl x, m1)
   | (Inr (ok, why), m1) \<Rightarrow>
       (case (if ok then py_bind (mandate_rec m1 (hex (en_tik_pub e))) (\<lambda>r. opt_fromhex (enrolled_instance r))
              else Inr None) of
          Inl x \<Rightarrow> (Inl x, m1)
        | Inr inst \<Rightarrow> (case record_decision i m1 ''enroll'' (en_tik_pub e) ok why inst of
            (Inl x, m2) \<Rightarrow> (Inl x, m2)
          | (Inr _, m2) \<Rightarrow> (Inr (ok, why), m2))))"

section \<open>Revocation\<close>

definition revoke :: "inputs \<Rightarrow> mandate \<Rightarrow> bytes \<Rightarrow> string \<Rightarrow> (bool \<times> string) py \<times> mandate" where
  "revoke i m tik_pub why =
     (let k = hex tik_pub in
      case mandate_rec m k of
        Inl x \<Rightarrow> (Inl x, m)
      | Inr r \<Rightarrow> (case save_rec m k (r\<lparr>revoked := True, reason := Some why\<rparr>) of
          (Inl x, m1) \<Rightarrow> (Inl x, m1)
        | (Inr _, m1) \<Rightarrow>
            (case record_decision i (emit_event m1 [ES ''revoked'', ES (take 16 k), ES why]) ''revoke'' tik_pub True why None of
               (Inl x, m2) \<Rightarrow> (Inl x, m2)
             | (Inr _, m2) \<Rightarrow> (Inr (True, ''identity revoked: '' @ why), m2))))"

section \<open>Transfer\<close>

text \<open>The local function \<open>no\<close>: a refusal is logged and recorded.\<close>

definition transfer_no :: "inputs \<Rightarrow> mandate \<Rightarrow> bytes \<Rightarrow> string \<Rightarrow> string \<Rightarrow> (bool \<times> string) py \<times> mandate" where
  "transfer_no i m tik_pub why tag =
     (case record_decision i (emit_event m [ES ''transfer-rejected'', ES (take 16 (hex tik_pub)), ES tag])
             ''transfer'' tik_pub False why None of
        (Inl x, m1) \<Rightarrow> (Inl x, m1)
      | (Inr _, m1) \<Rightarrow> (Inr (False, why), m1))"

datatype transfer_plan =
    Refuse string string
  | Move dict string bytes sighting bool

text \<open>
  The checks in order; \<open>Refuse\<close> holds the reason and the tag. First the terms of a grant that is
  signed and inside its window, then the whole.
\<close>

definition transfer_terms :: "config \<Rightarrow> int \<Rightarrow> ledger_rec \<Rightarrow> string \<Rightarrow> dict \<Rightarrow> transfer_plan" where
  "transfer_terms c now r current d =
     (if py_in (dget d ''nonce'') (consumed_grants r) then Refuse ''grant has already been used'' ''replayed''
      else let any_origin = truthy (dget d ''any_origin''); from_v = dget d ''from'' in
        if from_v = JNull \<and> \<not> any_origin then Refuse ''grant does not name the instance being left'' ''no-origin''
        else if from_v \<noteq> JNull \<and> \<not> py_eq from_v (JStr current)
        then Refuse ''grant was issued for a different current instance'' ''from-mismatch''
        else (case dget d ''to'' of
          JStr to_hex \<Rightarrow> (case fromhex to_hex of
              Inl _ \<Rightarrow> Refuse ''grant carries an unreadable destination'' ''bad-destination''
            | Inr to_instance \<Rightarrow>
                if \<not> any_set to_instance
                then Refuse ''cannot transfer to a platform with no instance claim'' ''no-anchor''
                else (case find (\<lambda>w. w_instance w = to_hex \<and> now - w_at w < witness_ttl c) (witnessed r) of
                    None \<Rightarrow> Refuse ''destination instance has not presented valid evidence to this mandate (let it attest first, then issue the grant)'' ''unwitnessed''
                  | Some w \<Rightarrow> Move d to_hex to_instance w any_origin))
        | _ \<Rightarrow> Refuse ''grant carries an unreadable destination'' ''bad-destination''))"

definition transfer_check :: "config \<Rightarrow> int \<Rightarrow> string \<Rightarrow> ledger_rec \<Rightarrow> json \<Rightarrow> bytes \<Rightarrow> transfer_plan py" where
  "transfer_check c now k r grant signature =
     (if revoked r then Inr (Refuse ''identity revoked'' ''revoked'')
      else case enrolled_instance r of
        None \<Rightarrow> Inr (Refuse ''identity is not enrolled; there is nothing to transfer'' ''not-enrolled'')
      | Some current \<Rightarrow> (case transfer_authority r of
        None \<Rightarrow> Inr (Refuse ''identity named no transfer authority at enrolment and cannot be moved'' ''not-transferable'')
      | Some authority \<Rightarrow> (case grant of
        JObj d \<Rightarrow>
          if \<not> py_eq (dget d ''v'') (JInt 1) then Inr (Refuse ''unsupported grant version'' ''bad-version'')
          else if \<not> py_eq (dget d ''tik'') (JStr k) then Inr (Refuse ''grant is for a different identity'' ''wrong-identity'')
          else if \<not> py_ok (py_bind (fromhex authority) (\<lambda>spki. verify_grant (cf_crypto c) spki grant signature))
          then Inr (Refuse (''grant is not signed by this identity'' @ CHR 0x27 # ''s transfer authority'') ''bad-signature'')
          else py_bind (in_window d now) (\<lambda>inside.
            if \<not> inside
            then Inr (Refuse (''grant is outside its validity window (times are the issuer'' @ CHR 0x27 # ''s clock; allow for skew)'') ''expired'')
            else Inr (transfer_terms c now r current d))
      | _ \<Rightarrow> Inr (Refuse ''unsupported grant version'' ''bad-version''))))"

text \<open>The record a transfer writes.\<close>

definition moved_rec :: "ledger_rec \<Rightarrow> int \<Rightarrow> string \<Rightarrow> sighting \<Rightarrow> json \<Rightarrow> bool \<Rightarrow> ledger_rec" where
  "moved_rec r now to_hex w nonce any_origin =
     r\<lparr>enrolled_instance := Some to_hex,
       enrolled_place := w_place w,
       observed_instance := None,
       observed_place := None,
       transfers := last_n 64 (transfers r @ [\<lparr>mv_at = now, mv_from = enrolled_instance r, mv_to = to_hex,
         mv_nonce = nonce, mv_any_origin = any_origin\<rparr>]),
       consumed_grants := last_n 256 (consumed_grants r @ [nonce])\<rparr>"

definition end_sessions :: "mandate \<Rightarrow> string \<Rightarrow> mandate" where
  "end_sessions m k = m\<lparr>sessions := (\<lambda>x. if fst x = k then None else sessions m x)\<rparr>"

definition transfer_apply ::
  "inputs \<Rightarrow> mandate \<Rightarrow> bytes \<Rightarrow> ledger_rec \<Rightarrow> int \<Rightarrow> dict \<Rightarrow> string \<Rightarrow> bytes \<Rightarrow> sighting \<Rightarrow> bool \<Rightarrow> (bool \<times> string) py \<times> mandate" where
  "transfer_apply i m tik_pub r now d to_hex to_instance w any_origin =
     (let k = hex tik_pub;
          prev = (case enrolled_instance r of None \<Rightarrow> [] | Some p \<Rightarrow> p) in
      case dindex d ''nonce'' of
        Inl x \<Rightarrow> (Inl x, m)
      | Inr nonce \<Rightarrow> (case save_rec m k (moved_rec r now to_hex w nonce any_origin) of
          (Inl x, m1) \<Rightarrow> (Inl x, m1)
        | (Inr _, m1) \<Rightarrow>
            (let m2 = end_sessions m1 k;
                 m3 = (if any_origin then emit_event m2 [ES ''transfer-any-origin'', ES (take 16 k), ES (take 12 prev), ES (take 12 to_hex)] else m2);
                 m4 = emit_event m3 [ES ''transferred'', ES (take 16 k), ES (take 12 prev), ES (take 12 to_hex)]
             in case record_decision i m4 ''transfer'' tik_pub True ''transferred to the authorised instance'' (Some to_instance) of
                  (Inl x, m5) \<Rightarrow> (Inl x, m5)
                | (Inr _, m5) \<Rightarrow> (Inr (True, ''transferred to the authorised instance''), m5))))"

definition accept_transfer :: "inputs \<Rightarrow> mandate \<Rightarrow> bytes \<Rightarrow> json \<Rightarrow> bytes \<Rightarrow> (bool \<times> string) py \<times> mandate" where
  "accept_transfer i m tik_pub grant signature =
     (let k = hex tik_pub; now = int_of_time (t_check i) in
      case mandate_rec m k of
        Inl x \<Rightarrow> (Inl x, m)
      | Inr r \<Rightarrow> (case transfer_check (cfg m) now k r grant signature of
          Inl x \<Rightarrow> (Inl x, m)
        | Inr (Refuse why tag) \<Rightarrow> transfer_no i m tik_pub why tag
        | Inr (Move d to_hex to_instance w any_origin) \<Rightarrow> transfer_apply i m tik_pub r now d to_hex to_instance w any_origin))"

section \<open>Appraisal\<close>

definition session_key :: "bytes \<Rightarrow> string" where
  "session_key session_context = take 32 (hex (sha256 session_context))"

text \<open>The head the attester bound, and the bundle it belongs to: \<open>Some\<close> is the event and the reason of a refusal.\<close>

definition head_check :: "mandate \<Rightarrow> string \<Rightarrow> bytes option \<Rightarrow> bundle_entry list option \<Rightarrow> (event \<times> string) option py" where
  "head_check m k head bundle = (case head of
     None \<Rightarrow> Inr None
   | Some h \<Rightarrow> (case bundle of
       Some es \<Rightarrow>
         if \<not> verify_bundle h es
         then Inr (Some ([ES ''declined-bad-bundle'', ES (take 16 k)], ''the witnessed bundle does not match what was bound''))
         else (case entry_for es (mandate_public_key m) of
           None \<Rightarrow> Inr (Some ([ES ''declined-absent-from-bundle'', ES (take 16 k)], ''this mandate is not named in the bundle the attester witnessed''))
         | Some mine \<Rightarrow> py_bind (fromhex (be_root mine)) (\<lambda>rt.
             if \<not> knows_head m rt
             then Inr (Some ([ES ''declined-unknown-head'', ES (take 16 k), ES (take 12 (be_root mine))],
               ''the bundle names a head for this mandate that its log never had''))
             else Inr None))
     | None \<Rightarrow>
         if \<not> knows_head m h
         then Inr (Some ([ES ''declined-unknown-head'', ES (take 16 k), ES (take 12 (hex h))],
           ''the ledger head offered for this attestation is not one this log had''))
         else Inr None))"

type_synonym verdict = "bool \<times> string \<times> bytes option"

definition refuse :: "mandate \<Rightarrow> event \<Rightarrow> string \<Rightarrow> bytes option \<Rightarrow> verdict py \<times> mandate" where
  "refuse m ev why inst = (Inr (False, why, inst), emit_event m ev)"

text \<open>A refusal that first saves the record with a dispute.\<close>

definition refuse_saved :: "mandate \<Rightarrow> string \<Rightarrow> ledger_rec \<Rightarrow> event \<Rightarrow> string \<Rightarrow> bytes option \<Rightarrow> verdict py \<times> mandate" where
  "refuse_saved m k r ev why inst = (case save_rec m k r of
     (Inl x, m1) \<Rightarrow> (Inl x, m1)
   | (Inr _, m1) \<Rightarrow> refuse m1 ev why inst)"

text \<open>Steps 3 and 4: the chain of this connection, the link, and what an accepted step writes.\<close>

definition accept_step ::
  "mandate \<Rightarrow> string \<Rightarrow> string \<Rightarrow> ledger_rec \<Rightarrow> int \<Rightarrow> bytes \<Rightarrow> bytes option \<Rightarrow> bytes option \<Rightarrow> verdict py \<times> mandate" where
  "accept_step m k skey r counter pl inst place =
     (let m1 = m\<lparr>sessions := (sessions m)((k, skey) \<mapsto> \<lparr>ss_prev = pl, ss_counter = counter\<rparr>)\<rparr>;
          ev = [ES ''accept'', ES (take 16 k), ES (take 8 skey), EI counter,
                ES (case hex_opt inst of Some s \<Rightarrow> take 12 s | None \<Rightarrow> ''no-instance'')];
          done' = (\<lambda>m2. (Inr (True, ''accepted; continuity intact'', inst), emit_event m2 ev))
      in case inst of
           None \<Rightarrow> done' m1
         | Some b \<Rightarrow> (case save_rec m1 k (r\<lparr>observed_instance := Some (hex b), observed_place := hex_opt place\<rparr>) of
             (Inl x, m2) \<Rightarrow> (Inl x, m2)
           | (Inr _, m2) \<Rightarrow> done' m2))"

definition appraise_link ::
  "inputs \<Rightarrow> mandate \<Rightarrow> bytes \<Rightarrow> bytes \<Rightarrow> bytes \<Rightarrow> message \<Rightarrow> bytes \<Rightarrow> ledger_rec \<Rightarrow> bytes option \<Rightarrow> bytes option
   \<Rightarrow> bytes \<Rightarrow> verdict py \<times> mandate" where
  "appraise_link i m tik_pub session_context exporter msg pl r inst place base =
     (let k = hex tik_pub; counter = msg_counter msg in
      case post_link exporter base counter of
        Inl x \<Rightarrow> (Inl x, m)
      | Inr l \<Rightarrow>
          if l \<noteq> pl
          then refuse_saved m k (dispute_rec (t_dispute i) r ''link does not chain'')
            [ES ''declined-linkmismatch'', ES (take 16 k), EI counter]
            ''link does not chain (relay, replay or a foreign session)'' inst
          else accept_step m k (session_key session_context) r counter pl inst place)"

definition appraise_chain ::
  "inputs \<Rightarrow> mandate \<Rightarrow> bytes \<Rightarrow> bytes \<Rightarrow> bytes \<Rightarrow> message \<Rightarrow> bytes \<Rightarrow> ledger_rec \<Rightarrow> bytes option \<Rightarrow> bytes option
   \<Rightarrow> verdict py \<times> mandate" where
  "appraise_chain i m tik_pub session_context exporter msg pl r inst place =
     (let k = hex tik_pub; counter = msg_counter msg in
      case sessions m (k, session_key session_context) of
        None \<Rightarrow>
          if counter \<noteq> 0
          then refuse m [ES ''declined-counter'', ES (take 16 k), ES ''new session'', EI counter]
            (''a session'' @ CHR 0x27 # ''s first link must be counter 0'') inst
          else (case intra_link session_context tik_pub of
              Inl x \<Rightarrow> (Inl x, m)
            | Inr base \<Rightarrow> appraise_link i m tik_pub session_context exporter msg pl r inst place base)
      | Some s \<Rightarrow>
          if counter \<noteq> ss_counter s + 1
          then refuse_saved m k (dispute_rec (t_dispute i) r ''counter did not advance'')
            [ES ''declined-counter'', ES (take 16 k), EI (ss_counter s), EI counter]
            ''counter did not advance by one (replay or reorder)'' inst
          else appraise_link i m tik_pub session_context exporter msg pl r inst place (ss_prev s))"

text \<open>Steps 1b to 2: enrolment, place and contention.\<close>

definition appraise_gate ::
  "inputs \<Rightarrow> mandate \<Rightarrow> bytes \<Rightarrow> bytes \<Rightarrow> bytes \<Rightarrow> message \<Rightarrow> bytes \<Rightarrow> ledger_rec \<Rightarrow> anchor option
   \<Rightarrow> verdict py \<times> mandate" where
  "appraise_gate i m tik_pub session_context exporter msg pl r an =
     (let k = hex tik_pub; counter = msg_counter msg;
          inst = map_option anchor_instance an; place = Option.bind an anchor_place in
      case opt_fromhex (enrolled_instance r) of
        Inl x \<Rightarrow> (Inl x, m)
      | Inr enr \<Rightarrow>
          if enr = None \<and> require_enrolment (cfg m)
          then refuse m [ES ''declined-not-enrolled'', ES (take 16 k), EI counter]
            ''identity has no enrolment on record and this mandate requires one (a lost ledger must not silently downgrade the guarantee)'' inst
          else if enr \<noteq> None \<and> inst \<noteq> None \<and> inst \<noteq> enr
          then refuse_saved m k
            (dispute_rec (t_dispute i) (witness_rec (cfg m) (t_witness i) r (the inst) place) ''evidence from a non-enrolled instance'')
            [ES ''rejected-impostor'', ES (take 16 k), ES (take 12 (hex (the enr))), ES (take 12 (hex (the inst))), EI counter]
            ''rejected: key presented from an instance it was not enrolled on'' inst
          else if require_place (cfg m) \<and> place = None
          then refuse m [ES ''declined-no-place'', ES (take 16 k), EI counter]
            ''platform exposes no place claim and this mandate requires one'' inst
          else (case opt_fromhex (enrolled_place r) of
            Inl x \<Rightarrow> (Inl x, m)
          | Inr enr_place \<Rightarrow>
              if require_place (cfg m) \<and> enr_place \<noteq> None \<and> place \<noteq> enr_place
              then refuse_saved m k (dispute_rec (t_dispute i) r ''instance moved to different silicon'')
                [ES ''declined-place-changed'', ES (take 16 k), EI counter]
                ''the enrolled instance is reporting from different silicon'' inst
              else (case opt_fromhex (observed_instance r) of
                Inl x \<Rightarrow> (Inl x, m)
              | Inr observed \<Rightarrow>
                  if observed \<noteq> None \<and> inst \<noteq> None \<and> inst \<noteq> observed
                  then refuse_saved m k
                    (dispute_rec (t_dispute i) (witness_rec (cfg m) (t_witness i) r (the inst) place) ''second instance under one identity'')
                    [ES ''contention-anchor'', ES (take 16 k), ES (take 12 (hex (the observed))), ES (take 12 (hex (the inst))), EI counter]
                    ''continuity contention: a second instance claims this identity (no enrolment on record, so the mandate refuses to pick a winner)'' inst
                  else appraise_chain i m tik_pub session_context exporter msg pl r inst place)))"

definition appraise ::
  "inputs \<Rightarrow> mandate \<Rightarrow> bytes \<Rightarrow> bytes \<Rightarrow> bytes \<Rightarrow> message \<Rightarrow> bytes option \<Rightarrow> bundle_entry list option
   \<Rightarrow> verdict py \<times> mandate" where
  "appraise i m tik_pub session_context exporter msg head bundle =
     (let k = hex tik_pub; counter = msg_counter msg in
      case mandate_rec m k of
        Inl x \<Rightarrow> (Inl x, m)
      | Inr r \<Rightarrow>
          if revoked r then refuse m [ES ''declined-revoked'', ES (take 16 k), EI counter] ''identity revoked'' None
          else (case fromhex (msg_post_link msg) of
            Inl x \<Rightarrow> (Inl x, m)
          | Inr pl \<Rightarrow> (case head_check m k head bundle of
            Inl x \<Rightarrow> (Inl x, m)
          | Inr (Some (ev, why)) \<Rightarrow> refuse m ev why None
          | Inr None \<Rightarrow> (case verify_report (cfg m) (msg_evidence msg) (report_data_for pl head) of
            Inl x \<Rightarrow> (Inl x, m)
          | Inr (ok, an) \<Rightarrow>
              if \<not> ok
              then refuse m [ES ''declined-evidence'', ES (take 16 k), EI counter] ''evidence invalid or does not bind the link'' None
              else if an = None \<and> require_anchor (cfg m)
              then refuse m [ES ''declined-no-anchor'', ES (take 16 k), EI counter]
                ''platform exposes no usable instance claim: re-hosting is undecidable here (set require_anchor=False to accept that)'' None
              else
                (let m1 = (if an = None then emit_event m [ES ''anchor-absent-downgraded'', ES (take 16 k), EI counter] else m)
                 in appraise_gate i m1 tik_pub session_context exporter msg pl r an)))))"

definition present ::
  "inputs \<Rightarrow> mandate \<Rightarrow> bytes \<Rightarrow> bytes \<Rightarrow> bytes \<Rightarrow> message \<Rightarrow> bytes option \<Rightarrow> bundle_entry list option
   \<Rightarrow> (bool \<times> string) py \<times> mandate" where
  "present i m tik_pub session_context exporter msg head bundle =
     (case appraise i m tik_pub session_context exporter msg head bundle of
        (Inl x, m1) \<Rightarrow> (Inl x, m1)
      | (Inr (ok, why, inst), m1) \<Rightarrow>
          (case record_decision i m1 ''present'' tik_pub ok why inst of
             (Inl x, m2) \<Rightarrow> (Inl x, m2)
           | (Inr _, m2) \<Rightarrow> (Inr (ok, why), m2)))"

end
