(* ===== verification/Mandate_Frame.thy ===== *)
theory Mandate_Frame
  imports Mandate
begin

text \<open>
  What the operations of a mandate leave alone. The ledger behaves as a map from identities to
  records; recording a decision appends one entry and never raises; appraisal writes at most the
  observations and the disputes of one record; enrolment, revocation and transfer write what
  their names say. Every operation keeps the invariant \<open>mandate_inv\<close>.
\<close>

section \<open>The ledger\<close>

lemma emit_event_sel [simp]:
  "cfg (emit_event m e) = cfg m" "merkle (emit_event m e) = merkle m" "roots (emit_event m e) = roots m"
  "peers (emit_event m e) = peers m" "mstore (emit_event m e) = mstore m"
  "sessions (emit_event m e) = sessions m" "challenges (emit_event m e) = challenges m"
  "last_receipt (emit_event m e) = last_receipt m"
  by (simp_all add: emit_event_def)

lemma mandate_rec_cong: "mstore m = mstore m' \<Longrightarrow> mandate_rec m = mandate_rec m'"
  by (simp add: mandate_rec_def fun_eq_iff)

lemma mandate_rec_emit [simp]: "mandate_rec (emit_event m e) = mandate_rec m"
  by (rule mandate_rec_cong) simp

lemma is_record_rec: "wf_rec r \<Longrightarrow> is_record (json_of_rec r)"
  using wf_json_of_rec [of r] by (simp add: json_of_rec_def)

lemma rec_of_norm: "rec_of_json (store_norm st (json_of_rec r)) = Some (map_nonces (store_norm st) r)"
proof (cases st)
  case (MemoryStore d)
  then have "store_norm st = (\<lambda>j. j)" by (simp add: fun_eq_iff)
  then show ?thesis by (simp add: rec_of_json_of_rec map_nonces_id)
next
  case (FileStore p d)
  then have "store_norm st = sort_json" by (simp add: fun_eq_iff)
  then show ?thesis by (simp add: rec_of_json_sorted)
qed

lemma save_rec_Inl: "save_rec m (hex b) r \<noteq> (Inl x, m')"
  using st.put_ok [of "hex b" "mstore m" "json_of_rec r"] by (auto simp: save_rec_def)

lemma save_rec_Inr:
  assumes "save_rec m k r = (Inr u, m')"
  shows "store_put (mstore m) k (json_of_rec r) = Inr (mstore m')" "m' = m\<lparr>mstore := mstore m'\<rparr>"
  using assms by (auto simp: save_rec_def split: sum.splits)

lemma save_rec_sel:
  assumes "save_rec m k r = (res, m')"
  shows "cfg m' = cfg m" "merkle m' = merkle m" "roots m' = roots m" "peers m' = peers m"
    "sessions m' = sessions m" "challenges m' = challenges m" "last_receipt m' = last_receipt m" "events m' = events m"
  using assms by (auto simp: save_rec_def split: sum.splits)

text \<open>A saved record is read back, up to the order of keys inside a nonce; others stay.\<close>

lemma rec_put_same:
  assumes "store_put (mstore m) k (json_of_rec r) = Inr (mstore m')" "wf_rec r"
  shows "mandate_rec m' k = Inr (map_nonces (store_norm (mstore m)) r)"
  using st.get_put [OF assms(1) is_record_rec [OF assms(2)]] by (simp add: mandate_rec_def rec_of_norm)

lemma rec_put_other:
  assumes "store_put (mstore m) k v = Inr (mstore m')" "k' \<noteq> k"
  shows "mandate_rec m' k' = mandate_rec m k'"
  using st.get_put_other [OF assms(1)] assms(2) by (simp add: mandate_rec_def)

lemma py_in_norm: "list_all wf_json xs \<Longrightarrow> py_in a (map (store_norm st) xs) \<longleftrightarrow> py_in a xs"
proof (cases st)
  case (MemoryStore d)
  then have "store_norm st = (\<lambda>j. j)" by (simp add: fun_eq_iff)
  then show ?thesis by simp
next
  case (FileStore p d)
  then have "store_norm st = sort_json" by (simp add: fun_eq_iff)
  then show "list_all wf_json xs \<Longrightarrow> ?thesis" by (simp add: py_in_map_sort)
qed

lemma wf_norm: "wf_rec r \<Longrightarrow> wf_rec (map_nonces (store_norm st) r)"
proof (cases st)
  case (MemoryStore d)
  then have "store_norm st = (\<lambda>j. j)" by (simp add: fun_eq_iff)
  then show "wf_rec r \<Longrightarrow> ?thesis" by (simp add: map_nonces_id)
next
  case (FileStore p d)
  then have "store_norm st = sort_json" by (simp add: fun_eq_iff)
  then show "wf_rec r \<Longrightarrow> ?thesis" by (simp add: wf_map_nonces)
qed

section \<open>Recording a decision\<close>

definition decision_entry :: "inputs \<Rightarrow> mandate \<Rightarrow> string \<Rightarrow> bytes \<Rightarrow> bool \<Rightarrow> string \<Rightarrow> bytes option \<Rightarrow> bytes" where
  "decision_entry i m kind tik acc why inst =
     make_entry kind tik acc why inst None (Some (int (length (merkle m)))) (t_entry i)"

text \<open>The receipt of the last entry.\<close>

lemma mandate_receipt_ok:
  assumes "n < length (merkle m)"
  shows "\<exists>p. log_prove_inclusion (merkle m) (int n) = Inr p
    \<and> verify_inclusion (merkle m ! n) (int n) (int (length (merkle m))) p (root (merkle m))
    \<and> mandate_receipt i m (int n) = Inr \<lparr>rc_entry = hex (merkle m ! n), rc_index = int n,
        rc_proof = map hex p, rc_sth = mandate_sth i m\<rparr>"
proof -
  obtain p where "log_prove_inclusion (merkle m) (int n) = Inr p"
    "verify_inclusion (merkle m ! n) (int n) (int (length (merkle m))) p (root (merkle m))"
    using inclusion_complete_aux [of "int n" "merkle m"] assms by (auto simp: log_prove_inclusion_def)
  then show ?thesis using assms by (simp add: mandate_receipt_def py_index_def Let_def)
qed

lemma record_decision_eq:
  obtains rc where "record_decision i m kind tik acc why inst =
    (Inr rc, m\<lparr>merkle := merkle m @ [decision_entry i m kind tik acc why inst],
       roots := (roots m)(hex (root (merkle m @ [decision_entry i m kind tik acc why inst])) \<mapsto> length (merkle m) + 1),
       last_receipt := Some rc\<rparr>)"
proof -
  let ?e = "decision_entry i m kind tik acc why inst"
  let ?m = "m\<lparr>merkle := merkle m @ [?e], roots := (roots m)(hex (root (merkle m @ [?e])) \<mapsto> length (merkle m) + 1)\<rparr>"
  obtain rc where "mandate_receipt i ?m (int (length (merkle m))) = Inr rc"
    using mandate_receipt_ok [of "length (merkle m)" ?m i] by auto
  then have "record_decision i m kind tik acc why inst = (Inr rc, ?m\<lparr>last_receipt := Some rc\<rparr>)"
    by (simp add: record_decision_def log_append_def log_len_def log_head_def Let_def decision_entry_def)
  then show thesis by (intro that) simp
qed

lemma record_decision_sel:
  assumes "record_decision i m kind tik acc why inst = (res, m')"
  shows "\<exists>rc. res = Inr rc \<and> last_receipt m' = Some rc" "cfg m' = cfg m" "mstore m' = mstore m"
    "merkle m' = merkle m @ [decision_entry i m kind tik acc why inst]"
    "roots m' = (roots m)(hex (root (merkle m')) \<mapsto> length (merkle m'))"
    "sessions m' = sessions m" "challenges m' = challenges m" "peers m' = peers m" "events m' = events m"
    "mandate_rec m' = mandate_rec m"
proof -
  obtain rc where "record_decision i m kind tik acc why inst =
    (Inr rc, m\<lparr>merkle := merkle m @ [decision_entry i m kind tik acc why inst],
       roots := (roots m)(hex (root (merkle m @ [decision_entry i m kind tik acc why inst])) \<mapsto> length (merkle m) + 1),
       last_receipt := Some rc\<rparr>)" (is "_ = (_, ?m)")
    by (rule record_decision_eq)
  with assms have eq: "res = Inr rc" "m' = ?m" by simp_all
  show "mandate_rec m' = mandate_rec m" unfolding eq(2) by (rule mandate_rec_cong) simp
  show "\<exists>rc. res = Inr rc \<and> last_receipt m' = Some rc" "cfg m' = cfg m" "mstore m' = mstore m"
    "merkle m' = merkle m @ [decision_entry i m kind tik acc why inst]"
    "roots m' = (roots m)(hex (root (merkle m')) \<mapsto> length (merkle m'))"
    "sessions m' = sessions m" "challenges m' = challenges m" "peers m' = peers m" "events m' = events m"
    unfolding eq by simp_all
qed

lemma record_decision_Inl: "record_decision i m kind tik acc why inst \<noteq> (Inl x, m')"
  using record_decision_eq [of i m kind tik acc why inst] by (metis Pair_inject sum.distinct(1))

text \<open>The case distinction after \<open>_record\<close> has one branch.\<close>

lemma case_record_decision:
  "(case record_decision i m kind tik acc why inst of (Inl x, m2) \<Rightarrow> f x m2 | (Inr rc, m2) \<Rightarrow> (Inr y, m2))
   = (Inr y, snd (record_decision i m kind tik acc why inst))"
  using record_decision_Inl by (auto split: prod.splits sum.splits)

section \<open>What appraisal writes\<close>

text \<open>The fields that the code reads back with \<open>bytes.fromhex\<close> hold hexadecimal.\<close>

definition hexed :: "string option \<Rightarrow> bool" where
  "hexed x \<longleftrightarrow> (\<exists>b. opt_fromhex x = Inr b)"

lemma hexed_simps [simp]: "hexed None" "hexed (Some (hex b))" "hexed (hex_opt p)"
  by (simp_all add: hexed_def opt_fromhex_def hex_opt_def split: option.splits)

lemma hexed_of: "fromhex s = Inr b \<Longrightarrow> hexed (Some s)"
  by (simp add: hexed_def opt_fromhex_def)

definition rec_typed :: "ledger_rec \<Rightarrow> bool" where
  "rec_typed r \<longleftrightarrow> hexed (enrolled_instance r) \<and> hexed (enrolled_place r) \<and> hexed (observed_instance r) \<and> hexed (observed_place r)
     \<and> hexed (transfer_authority r) \<and> list_all (\<lambda>w. hexed (w_place w)) (witnessed r)"

lemma rec_typed_dispute [simp]: "rec_typed (dispute_rec t r why) = rec_typed r"
  by (simp add: rec_typed_def dispute_rec_def)

lemma rec_typed_witness: "rec_typed r \<Longrightarrow> rec_typed (witness_rec c t r inst place)"
  using set_last_n [of 32] by (fastforce simp: rec_typed_def witness_rec_def Let_def list_all_iff)

lemma rec_typed_observe: "rec_typed r \<Longrightarrow> hexed a \<Longrightarrow> hexed b \<Longrightarrow> rec_typed (r\<lparr>observed_instance := a, observed_place := b\<rparr>)"
  by (simp add: rec_typed_def)

text \<open>Observations and disputes may change; nothing that decides who owns the identity does.\<close>

definition soft :: "ledger_rec \<Rightarrow> ledger_rec \<Rightarrow> bool" where
  "soft r r' \<longleftrightarrow> (\<exists>oi op' ct wi. r' = r\<lparr>observed_instance := oi, observed_place := op', contention := ct, witnessed := wi\<rparr>
     \<and> (length ct \<le> 64 \<or> ct = contention r) \<and> (length wi \<le> 32 \<or> wi = witnessed r)
     \<and> (rec_typed r \<longrightarrow> rec_typed r'))"

lemma soft_refl [simp]: "soft r r"
  unfolding soft_def by (intro exI [of _ "observed_instance r"] exI [of _ "observed_place r"]
      exI [of _ "contention r"] exI [of _ "witnessed r"]) simp

lemma soft_dispute [simp]: "soft r (dispute_rec t r why)"
  unfolding soft_def dispute_rec_def
  by (intro exI [of _ "observed_instance r"] exI [of _ "observed_place r"]
      exI [of _ "contention (dispute_rec t r why)"] exI [of _ "witnessed r"]) (simp add: dispute_rec_def len_simps rec_typed_def)

lemma soft_witness [simp]: "soft r (dispute_rec t (witness_rec c t' r inst place) why)"
  unfolding soft_def
  by (intro exI [of _ "observed_instance r"] exI [of _ "observed_place r"]
      exI [of _ "contention (dispute_rec t r why)"] exI [of _ "witnessed (witness_rec c t' r inst place)"] conjI impI)
    (simp_all add: rec_typed_witness, simp_all add: dispute_rec_def witness_rec_def Let_def len_simps)

lemma soft_observe: "hexed a \<Longrightarrow> hexed b \<Longrightarrow> soft r (r\<lparr>observed_instance := a, observed_place := b\<rparr>)"
  unfolding soft_def by (intro exI [of _ a] exI [of _ b] exI [of _ "contention r"] exI [of _ "witnessed r"]) (simp add: rec_typed_observe)

lemma soft_sel:
  assumes "soft r r'"
  shows "enrolled_instance r' = enrolled_instance r" "enrolled_place r' = enrolled_place r"
    "revoked r' = revoked r" "reason r' = reason r" "transfer_authority r' = transfer_authority r"
    "transfers r' = transfers r" "consumed_grants r' = consumed_grants r" "wf_rec r' = wf_rec r"
  using assms by (auto simp: soft_def wf_rec_def)

text \<open>The outcome of an operation that touches one record, softly, and otherwise sessions and events.\<close>

definition soft_out :: "mandate \<Rightarrow> string \<Rightarrow> ledger_rec \<Rightarrow> mandate \<Rightarrow> bool" where
  "soft_out m k r m' \<longleftrightarrow> cfg m' = cfg m \<and> merkle m' = merkle m \<and> roots m' = roots m \<and> peers m' = peers m
     \<and> challenges m' = challenges m \<and> last_receipt m' = last_receipt m
     \<and> (\<forall>x. fst x \<noteq> k \<longrightarrow> sessions m' x = sessions m x)
     \<and> (mstore m' = mstore m \<or> (\<exists>r'. soft r r' \<and> store_put (mstore m) k (json_of_rec r') = Inr (mstore m')))"

lemma soft_out_refl [simp]: "soft_out m k r m"
  by (simp add: soft_out_def)

lemma soft_out_emit [simp]: "soft_out m k r (emit_event m e)"
  by (simp add: soft_out_def)

lemma soft_out_refuse: "refuse m ev why inst = (res, m') \<Longrightarrow> soft_out m k r m'"
  by (auto simp: refuse_def)

lemma soft_out_save:
  "save_rec m k r' = (res, m') \<Longrightarrow> soft r r' \<Longrightarrow> soft_out m k r m'"
proof -
  assume a: "save_rec m k r' = (res, m')" "soft r r'"
  show ?thesis
  proof (cases res)
    case (Inl x)
    with a(1) show ?thesis by (simp add: save_rec_def split: sum.splits)
  next
    case (Inr u)
    with a have "store_put (mstore m) k (json_of_rec r') = Inr (mstore m')" using save_rec_Inr(1) by metis
    with save_rec_sel [OF a(1)] a(2) show ?thesis by (auto simp: soft_out_def)
  qed
qed

lemma soft_out_refuse_saved:
  "refuse_saved m k r' ev why inst = (res, m') \<Longrightarrow> soft r r' \<Longrightarrow> soft_out m k r m'"
proof -
  assume a: "refuse_saved m k r' ev why inst = (res, m')" "soft r r'"
  obtain o1 m1 where s: "save_rec m k r' = (o1, m1)" by fastforce
  from soft_out_save [OF s a(2)] s a(1) show ?thesis
    by (cases o1) (auto simp: refuse_saved_def refuse_def soft_out_def)
qed

lemma soft_out_accept:
  "accept_step m k skey r c pl inst place = (res, m') \<Longrightarrow> soft_out m k r m'"
proof (cases inst)
  case None
  then show "accept_step m k skey r c pl inst place = (res, m') \<Longrightarrow> ?thesis"
    by (auto simp: accept_step_def soft_out_def Let_def)
next
  case (Some b)
  let ?m1 = "m\<lparr>sessions := (sessions m)((k, skey) \<mapsto> \<lparr>ss_prev = pl, ss_counter = c\<rparr>)\<rparr>"
  let ?r = "r\<lparr>observed_instance := Some (hex b), observed_place := hex_opt place\<rparr>"
  obtain o1 m2 where s: "save_rec ?m1 k ?r = (o1, m2)" by fastforce
  assume "accept_step m k skey r c pl inst place = (res, m')"
  with soft_out_save [OF s soft_observe [OF hexed_simps(2,3)]] s Some show ?thesis
    by (cases o1) (auto simp: accept_step_def soft_out_def Let_def)
qed

lemma soft_out_link:
  "appraise_link i m tik sc ex msg pl r inst place base = (res, m') \<Longrightarrow> soft_out m (hex tik) r m'"
  unfolding appraise_link_def Let_def
  by (auto split: sum.splits if_splits intro: soft_out_refuse_saved [OF _ soft_dispute] soft_out_accept)

lemma soft_out_chain:
  "appraise_chain i m tik sc ex msg pl r inst place = (res, m') \<Longrightarrow> soft_out m (hex tik) r m'"
  unfolding appraise_chain_def Let_def
  by (auto split: option.splits sum.splits if_splits
      intro: soft_out_refuse soft_out_refuse_saved [OF _ soft_dispute] soft_out_link)

lemma soft_out_gate:
  "appraise_gate i m tik sc ex msg pl r an = (res, m') \<Longrightarrow> soft_out m (hex tik) r m'"
  unfolding appraise_gate_def Let_def
  by (auto split: sum.splits if_splits
      intro: soft_out_refuse soft_out_refuse_saved [OF _ soft_dispute] soft_out_refuse_saved [OF _ soft_witness]
        soft_out_chain)

lemma soft_out_trans_emit: "soft_out (emit_event m e) k r m' \<Longrightarrow> soft_out m k r m'"
  by (simp add: soft_out_def)

lemma soft_out_appraise:
  assumes "appraise i m tik sc ex msg head bundle = (res, m')" "mandate_rec m (hex tik) = Inr r"
  shows "soft_out m (hex tik) r m'"
  using assms unfolding appraise_def Let_def
  by (auto split: sum.splits if_splits option.splits prod.splits
      intro: soft_out_refuse soft_out_gate soft_out_trans_emit)

lemma appraise_unreadable:
  "mandate_rec m (hex tik) = Inl x \<Longrightarrow> appraise i m tik sc ex msg head bundle = (Inl x, m)"
  by (simp add: appraise_def)

section \<open>What each operation does to the log and to the ledger\<close>

text \<open>The log: nothing, or one decision recorded.\<close>

definition log_step :: "mandate \<Rightarrow> mandate \<Rightarrow> bool" where
  "log_step m m' \<longleftrightarrow> (merkle m' = merkle m \<and> roots m' = roots m \<and> last_receipt m' = last_receipt m)
     \<or> (\<exists>i m1 kind tik acc why inst. merkle m1 = merkle m \<and> roots m1 = roots m \<and> cfg m1 = cfg m
          \<and> m' = snd (record_decision i m1 kind tik acc why inst))"

lemma log_step_refl [simp]: "log_step m m"
  by (simp add: log_step_def)

lemma log_step_same: "merkle m' = merkle m \<Longrightarrow> roots m' = roots m \<Longrightarrow> last_receipt m' = last_receipt m \<Longrightarrow> log_step m m'"
  by (simp add: log_step_def)

lemma log_step_record:
  "merkle m1 = merkle m \<Longrightarrow> roots m1 = roots m \<Longrightarrow> cfg m1 = cfg m \<Longrightarrow> log_step m (snd (record_decision i m1 kind tik acc why inst))"
  unfolding log_step_def by blast

text \<open>The ledger: nothing, or one record of one identity written, related to the one it had.\<close>

definition ledger_step :: "string \<Rightarrow> (ledger_rec \<Rightarrow> ledger_rec \<Rightarrow> bool) \<Rightarrow> mandate \<Rightarrow> mandate \<Rightarrow> bool" where
  "ledger_step k R m m' \<longleftrightarrow> cfg m' = cfg m \<and> (mstore m' = mstore m \<or>
     (\<exists>r r'. mandate_rec m k = Inr r \<and> R r r' \<and> store_put (mstore m) k (json_of_rec r') = Inr (mstore m')))"

lemma ledger_step_same: "cfg m' = cfg m \<Longrightarrow> mstore m' = mstore m \<Longrightarrow> ledger_step k R m m'"
  by (simp add: ledger_step_def)

lemma ledger_step_put:
  "cfg m' = cfg m \<Longrightarrow> mandate_rec m k = Inr r \<Longrightarrow> R r r' \<Longrightarrow>
   store_put (mstore m) k (json_of_rec r') = Inr (mstore m') \<Longrightarrow> ledger_step k R m m'"
  unfolding ledger_step_def by blast

lemma ledger_step_mono: "ledger_step k R m m' \<Longrightarrow> (\<And>r r'. R r r' \<Longrightarrow> S r r') \<Longrightarrow> ledger_step k S m m'"
  unfolding ledger_step_def by blast

lemma ledger_step_other: "ledger_step k R m m' \<Longrightarrow> k' \<noteq> k \<Longrightarrow> mandate_rec m' k' = mandate_rec m k'"
  using mandate_rec_cong rec_put_other unfolding ledger_step_def by metis

lemma ledger_step_rec:
  assumes "ledger_step k R m m'" "mandate_rec m k = Inr r" "\<And>r'. R r r' \<Longrightarrow> wf_rec r'"
  obtains "mandate_rec m' k = Inr r"
  | r' where "R r r'" "mandate_rec m' k = Inr (map_nonces (store_norm (mstore m)) r')"
  using assms mandate_rec_cong rec_put_same unfolding ledger_step_def by (metis sum.inject(2))

lemma soft_out_log: "soft_out m k r m' \<Longrightarrow> log_step m m'"
  by (simp add: soft_out_def log_step_same)

lemma soft_out_ledger: "soft_out m k r m' \<Longrightarrow> mandate_rec m k = Inr r \<Longrightarrow> ledger_step k soft m m'"
  unfolding soft_out_def ledger_step_def by blast

text \<open>\<open>present\<close>.\<close>

lemma present_eq:
  "present i m tik sc ex msg head bundle = (case appraise i m tik sc ex msg head bundle of
     (Inl x, m1) \<Rightarrow> (Inl x, m1)
   | (Inr (ok, why, inst), m1) \<Rightarrow> (Inr (ok, why), snd (record_decision i m1 ''present'' tik ok why inst)))"
  by (simp only: present_def case_record_decision)

lemma present_steps:
  assumes "present i m tik sc ex msg head bundle = (res, m')"
  shows "log_step m m'" "ledger_step (hex tik) soft m m'" "challenges m' = challenges m" "peers m' = peers m"
    "\<forall>x. fst x \<noteq> hex tik \<longrightarrow> sessions m' x = sessions m x"
proof -
  have "log_step m m' \<and> ledger_step (hex tik) soft m m' \<and> challenges m' = challenges m \<and> peers m' = peers m
      \<and> (\<forall>x. fst x \<noteq> hex tik \<longrightarrow> sessions m' x = sessions m x)"
  proof (cases "mandate_rec m (hex tik)")
    case (Inl x)
    with assms show ?thesis by (simp add: present_eq appraise_unreadable ledger_step_same)
  next
    case (Inr r)
    obtain o1 m1 where a: "appraise i m tik sc ex msg head bundle = (o1, m1)" by fastforce
    note s = soft_out_appraise [OF a Inr]
    show ?thesis
    proof (cases o1)
      case (Inl x)
      with a assms have "m' = m1" by (simp add: present_eq)
      with s soft_out_log [OF s] soft_out_ledger [OF s Inr] show ?thesis by (simp add: soft_out_def)
    next
      case (Inr v)
      obtain ok why inst where "v = (ok, why, inst)" by (cases v) auto
      with Inr a assms have "snd (record_decision i m1 ''present'' tik ok why inst) = m'" by (simp add: present_eq)
      then obtain o2 where r: "record_decision i m1 ''present'' tik ok why inst = (o2, m')" by (cases "record_decision i m1 ''present'' tik ok why inst") auto
      have "ledger_step (hex tik) soft m m'"
        using soft_out_ledger [OF s \<open>mandate_rec m (hex tik) = Inr r\<close>] record_decision_sel(2,3) [OF r]
        by (simp add: ledger_step_def)
      moreover have "log_step m m'"
        using s log_step_record [of m1 m i "''present''" tik ok why inst] r by (simp add: soft_out_def)
      ultimately show ?thesis using s record_decision_sel [OF r] by (simp add: soft_out_def)
    qed
  qed
  then show "log_step m m'" "ledger_step (hex tik) soft m m'" "challenges m' = challenges m" "peers m' = peers m"
    "\<forall>x. fst x \<noteq> hex tik \<longrightarrow> sessions m' x = sessions m x" by simp_all
qed

text \<open>\<open>enroll\<close>.\<close>

definition enrolled_by :: "ledger_rec \<Rightarrow> ledger_rec \<Rightarrow> bool" where
  "enrolled_by r r' \<longleftrightarrow> enrolled_instance r = None \<and> (\<exists>e a. r' = enrolled_rec e r a)"

text \<open>What deciding an enrolment may change: the nonce, one record, the events.\<close>

definition enroll_out :: "mandate \<Rightarrow> enrolment \<Rightarrow> mandate \<Rightarrow> bool" where
  "enroll_out m e m' \<longleftrightarrow> ledger_step (hex (en_tik_pub e)) enrolled_by m m' \<and> merkle m' = merkle m \<and> roots m' = roots m
     \<and> last_receipt m' = last_receipt m \<and> peers m' = peers m \<and> sessions m' = sessions m
     \<and> (challenges m' = challenges m \<or> challenges m' = (challenges m)(en_nonce e := None))"

lemma enroll_out_refl [simp]: "enroll_out m e m"
  by (simp add: enroll_out_def ledger_step_same)

lemma enroll_out_reject: "enroll_reject m k tag why = (res, m') \<Longrightarrow> enroll_out m e m'"
  by (auto simp: enroll_reject_def enroll_out_def ledger_step_same)

lemma enroll_out_expired:
  "enroll_reject (m\<lparr>challenges := (challenges m)(en_nonce e := None)\<rparr>) k tag why = (res, m') \<Longrightarrow> enroll_out m e m'"
  by (auto simp: enroll_reject_def enroll_out_def ledger_step_same)

lemma enroll_out_write:
  assumes "enroll_write m e r a = (res, m')" "mandate_rec m (hex (en_tik_pub e)) = Inr r" "enrolled_instance r = None"
  shows "enroll_out m e m'"
proof -
  let ?m1 = "m\<lparr>challenges := (challenges m)(en_nonce e := None)\<rparr>"
  obtain o1 m2 where s: "save_rec ?m1 (hex (en_tik_pub e)) (enrolled_rec e r a) = (o1, m2)" by fastforce
  show ?thesis
  proof (cases o1)
    case (Inl x)
    with s save_rec_Inl show ?thesis by fast
  next
    case (Inr u)
    note p = save_rec_Inr(1) [OF s [unfolded Inr]]
    have "enrolled_by r (enrolled_rec e r a)" using assms(3) by (auto simp: enrolled_by_def)
    moreover have "mstore m' = mstore m2" "cfg m' = cfg m" "merkle m' = merkle m" "roots m' = roots m"
      "last_receipt m' = last_receipt m" "peers m' = peers m" "sessions m' = sessions m"
      "challenges m' = (challenges m)(en_nonce e := None)"
      using assms(1) s Inr save_rec_sel [OF s] by (auto simp: enroll_write_def Let_def)
    ultimately show ?thesis
      using p assms(2) by (auto simp: enroll_out_def intro: ledger_step_put)
  qed
qed

lemma enroll_out_bind:
  "enroll_bind m e r = (res, m') \<Longrightarrow> mandate_rec m (hex (en_tik_pub e)) = Inr r \<Longrightarrow> enroll_out m e m'"
  unfolding enroll_bind_def Let_def
  by (auto split: if_splits sum.splits prod.splits option.splits intro: enroll_out_reject enroll_out_write)

lemma enroll_out_decide: "enroll_decide i m e = (res, m') \<Longrightarrow> enroll_out m e m'"
  unfolding enroll_decide_def Let_def
  by (auto split: if_splits sum.splits prod.splits option.splits
      intro: enroll_out_reject enroll_out_expired enroll_out_bind)

lemma enroll_eq:
  "enroll i m e = (case enroll_decide i m e of
     (Inl x, m1) \<Rightarrow> (Inl x, m1)
   | (Inr (ok, why), m1) \<Rightarrow>
       (case (if ok then py_bind (mandate_rec m1 (hex (en_tik_pub e))) (\<lambda>r. opt_fromhex (enrolled_instance r))
              else Inr None) of
          Inl x \<Rightarrow> (Inl x, m1)
        | Inr inst \<Rightarrow> (Inr (ok, why), snd (record_decision i m1 ''enroll'' (en_tik_pub e) ok why inst))))"
  by (simp only: enroll_def case_record_decision)

lemma enroll_steps:
  assumes "enroll i m e = (res, m')"
  shows "log_step m m'" "ledger_step (hex (en_tik_pub e)) enrolled_by m m'" "peers m' = peers m" "sessions m' = sessions m"
    "challenges m' = challenges m \<or> challenges m' = (challenges m)(en_nonce e := None)"
proof -
  obtain o1 m1 where d: "enroll_decide i m e = (o1, m1)" by fastforce
  note s = enroll_out_decide [OF d]
  have "m' = m1 \<or> (\<exists>ok why inst. m' = snd (record_decision i m1 ''enroll'' (en_tik_pub e) ok why inst))"
    using assms d unfolding enroll_eq by (auto split: sum.splits) blast
  then have "log_step m m' \<and> ledger_step (hex (en_tik_pub e)) enrolled_by m m' \<and> peers m' = peers m
      \<and> sessions m' = sessions m \<and> challenges m' = challenges m1"
  proof (elim disjE exE)
    assume "m' = m1"
    with s show ?thesis by (simp add: enroll_out_def log_step_same)
  next
    fix ok why inst
    assume m': "m' = snd (record_decision i m1 ''enroll'' (en_tik_pub e) ok why inst)"
    then obtain o2 where r: "record_decision i m1 ''enroll'' (en_tik_pub e) ok why inst = (o2, m')"
      by (cases "record_decision i m1 ''enroll'' (en_tik_pub e) ok why inst") auto
    have "log_step m m'"
      unfolding m' using s by (intro log_step_record) (auto simp: enroll_out_def ledger_step_def)
    with s record_decision_sel [OF r] show ?thesis by (simp add: enroll_out_def ledger_step_def)
  qed
  with s show "log_step m m'" "ledger_step (hex (en_tik_pub e)) enrolled_by m m'" "peers m' = peers m"
    "sessions m' = sessions m" "challenges m' = challenges m \<or> challenges m' = (challenges m)(en_nonce e := None)"
    by (auto simp: enroll_out_def)
qed

text \<open>\<open>revoke\<close>.\<close>

definition revoked_by :: "ledger_rec \<Rightarrow> ledger_rec \<Rightarrow> bool" where
  "revoked_by r r' \<longleftrightarrow> (\<exists>why. r' = r\<lparr>revoked := True, reason := Some why\<rparr>)"

lemma revoke_ok:
  assumes "mandate_rec m (hex tik) = Inr r"
  obtains m1 where "save_rec m (hex tik) (r\<lparr>revoked := True, reason := Some why\<rparr>) = (Inr (), m1)"
    "revoke i m tik why = (Inr (True, ''identity revoked: '' @ why),
       snd (record_decision i (emit_event m1 [ES ''revoked'', ES (take 16 (hex tik)), ES why]) ''revoke'' tik True why None))"
proof -
  obtain o1 m1 where s: "save_rec m (hex tik) (r\<lparr>revoked := True, reason := Some why\<rparr>) = (o1, m1)" by fastforce
  then obtain u where "o1 = Inr u" using save_rec_Inl by (cases o1) auto
  with s assms show thesis
    by (intro that [of m1]) (simp_all add: revoke_def Let_def case_record_decision)
qed

lemma revoke_steps:
  assumes "revoke i m tik why = (res, m')"
  shows "log_step m m'" "ledger_step (hex tik) revoked_by m m'" "peers m' = peers m" "sessions m' = sessions m"
    "challenges m' = challenges m"
proof -
  have "log_step m m' \<and> ledger_step (hex tik) revoked_by m m' \<and> peers m' = peers m \<and> sessions m' = sessions m
      \<and> challenges m' = challenges m"
  proof (cases "mandate_rec m (hex tik)")
    case (Inl x)
    with assms show ?thesis by (simp add: revoke_def Let_def ledger_step_same)
  next
    case (Inr r)
    then obtain m1 where s: "save_rec m (hex tik) (r\<lparr>revoked := True, reason := Some why\<rparr>) = (Inr (), m1)"
      and e: "revoke i m tik why = (Inr (True, ''identity revoked: '' @ why),
       snd (record_decision i (emit_event m1 [ES ''revoked'', ES (take 16 (hex tik)), ES why]) ''revoke'' tik True why None))"
      by (rule revoke_ok)
    let ?m = "emit_event m1 [ES ''revoked'', ES (take 16 (hex tik)), ES why]"
    obtain o2 where r: "record_decision i ?m ''revoke'' tik True why None = (o2, m')"
      using e assms by (cases "record_decision i ?m ''revoke'' tik True why None") auto
    have "log_step m m'"
      using log_step_record [of ?m m i "''revoke''" tik True why None] save_rec_sel [OF s] r by simp
    moreover have "ledger_step (hex tik) revoked_by m m'"
      using save_rec_Inr(1) [OF s] save_rec_sel [OF s] record_decision_sel(2,3) [OF r] Inr
      by (intro ledger_step_put) (auto simp: revoked_by_def)
    ultimately show ?thesis using record_decision_sel [OF r] save_rec_sel [OF s] by simp
  qed
  then show "log_step m m'" "ledger_step (hex tik) revoked_by m m'" "peers m' = peers m" "sessions m' = sessions m"
    "challenges m' = challenges m" by simp_all
qed

text \<open>\<open>accept_transfer\<close>.\<close>

lemma transfer_no_eq:
  "transfer_no i m tik why tag = (Inr (False, why), snd (record_decision i
     (emit_event m [ES ''transfer-rejected'', ES (take 16 (hex tik)), ES tag]) ''transfer'' tik False why None))"
  by (simp only: transfer_no_def case_record_decision)

text \<open>The events of a transfer, and the state in which the decision is recorded.\<close>

definition transfer_events :: "mandate \<Rightarrow> string \<Rightarrow> ledger_rec \<Rightarrow> string \<Rightarrow> bool \<Rightarrow> mandate" where
  "transfer_events m k r to_hex any_origin =
     (let prev = (case enrolled_instance r of None \<Rightarrow> [] | Some p \<Rightarrow> p);
          m2 = end_sessions m k;
          m3 = (if any_origin then emit_event m2 [ES ''transfer-any-origin'', ES (take 16 k), ES (take 12 prev), ES (take 12 to_hex)] else m2)
      in emit_event m3 [ES ''transferred'', ES (take 16 k), ES (take 12 prev), ES (take 12 to_hex)])"

lemma transfer_events_sel [simp]:
  "cfg (transfer_events m k r t o') = cfg m" "merkle (transfer_events m k r t o') = merkle m"
  "roots (transfer_events m k r t o') = roots m" "peers (transfer_events m k r t o') = peers m"
  "mstore (transfer_events m k r t o') = mstore m" "challenges (transfer_events m k r t o') = challenges m"
  "last_receipt (transfer_events m k r t o') = last_receipt m"
  "sessions (transfer_events m k r t o') = (\<lambda>x. if fst x = k then None else sessions m x)"
  by (simp_all add: transfer_events_def end_sessions_def Let_def)

lemma transfer_apply_ok:
  assumes "dindex d ''nonce'' = Inr nonce"
  obtains m1 where "save_rec m (hex tik) (moved_rec r now t w nonce o') = (Inr (), m1)"
    "transfer_apply i m tik r now d t ti w o' = (Inr (True, ''transferred to the authorised instance''),
       snd (record_decision i (transfer_events m1 (hex tik) r t o') ''transfer'' tik True
         ''transferred to the authorised instance'' (Some ti)))"
proof -
  obtain o1 m1 where s: "save_rec m (hex tik) (moved_rec r now t w nonce o') = (o1, m1)" by fastforce
  then obtain u where "o1 = Inr u" using save_rec_Inl by (cases o1) auto
  with s assms show thesis
    by (intro that [of m1]) (simp_all add: transfer_apply_def Let_def case_record_decision transfer_events_def)
qed

definition moved_by :: "ledger_rec \<Rightarrow> ledger_rec \<Rightarrow> bool" where
  "moved_by r r' \<longleftrightarrow> (\<exists>now t w nonce o'. r' = moved_rec r now t w nonce o' \<and> wf_json nonce \<and> enrolled_instance r \<noteq> None
     \<and> \<not> revoked r \<and> (rec_typed r \<longrightarrow> rec_typed r'))"

text \<open>What the checks of a transfer let through.\<close>

definition transfer_admitted ::
  "config \<Rightarrow> int \<Rightarrow> string \<Rightarrow> ledger_rec \<Rightarrow> json \<Rightarrow> bytes \<Rightarrow> dict \<Rightarrow> string \<Rightarrow> bytes \<Rightarrow> sighting \<Rightarrow> bool \<Rightarrow> bool" where
  "transfer_admitted c now k r grant sig d t ti w o' \<longleftrightarrow>
     \<not> revoked r \<and> grant = JObj d
     \<and> (\<exists>cur authority spki. enrolled_instance r = Some cur \<and> transfer_authority r = Some authority
         \<and> fromhex authority = Inr spki \<and> verify_grant (cf_crypto c) spki grant sig = Inr True
         \<and> ((dget d ''from'' = JNull \<and> o') \<or> dget d ''from'' = JStr cur))
     \<and> py_eq (dget d ''v'') (JInt 1) \<and> dget d ''tik'' = JStr k
     \<and> in_window d now = Inr True \<and> \<not> py_in (dget d ''nonce'') (consumed_grants r)
     \<and> o' = truthy (dget d ''any_origin'')
     \<and> dget d ''to'' = JStr t \<and> fromhex t = Inr ti \<and> any_set ti
     \<and> find (\<lambda>w. w_instance w = t \<and> now - w_at w < witness_ttl c) (witnessed r) = Some w"

lemma py_ok_bind: "py_ok (py_bind m f) \<longleftrightarrow> (\<exists>x. m = Inr x \<and> py_ok (f x))"
  by (cases m) auto

lemma verify_grant_ok: "py_ok (verify_grant C spki g s) \<longleftrightarrow> verify_grant C spki g s = Inr True"
  by (auto simp: py_ok_iff verify_grant_def py_bind_Inr_iff)

lemma transfer_terms_Move:
  "transfer_terms c now r cur d' = Move d t ti w o' \<longleftrightarrow>
     d' = d \<and> \<not> py_in (dget d ''nonce'') (consumed_grants r) \<and> o' = truthy (dget d ''any_origin'')
     \<and> ((dget d ''from'' = JNull \<and> o') \<or> dget d ''from'' = JStr cur)
     \<and> dget d ''to'' = JStr t \<and> fromhex t = Inr ti \<and> any_set ti
     \<and> find (\<lambda>w. w_instance w = t \<and> now - w_at w < witness_ttl c) (witnessed r) = Some w"
proof (cases "py_in (dget d' ''nonce'') (consumed_grants r)
    \<or> dget d' ''from'' = JNull \<and> \<not> truthy (dget d' ''any_origin'')
    \<or> dget d' ''from'' \<noteq> JNull \<and> dget d' ''from'' \<noteq> JStr cur")
  case True
  then show ?thesis by (auto simp: transfer_terms_def Let_def)
next
  case False
  then have f: "transfer_terms c now r cur d' = (case dget d' ''to'' of
          JStr to_hex \<Rightarrow> (case fromhex to_hex of
              Inl _ \<Rightarrow> Refuse ''grant carries an unreadable destination'' ''bad-destination''
            | Inr to_instance \<Rightarrow>
                if \<not> any_set to_instance
                then Refuse ''cannot transfer to a platform with no instance claim'' ''no-anchor''
                else (case find (\<lambda>w. w_instance w = to_hex \<and> now - w_at w < witness_ttl c) (witnessed r) of
                    None \<Rightarrow> Refuse ''destination instance has not presented valid evidence to this mandate (let it attest first, then issue the grant)'' ''unwitnessed''
                  | Some w \<Rightarrow> Move d' to_hex to_instance w (truthy (dget d' ''any_origin''))))
        | _ \<Rightarrow> Refuse ''grant carries an unreadable destination'' ''bad-destination'')"
    by (auto simp: transfer_terms_def Let_def)
  show ?thesis
  proof (cases "\<exists>s b. dget d' ''to'' = JStr s \<and> fromhex s = Inr b")
    case True
    then obtain s b where sb: "dget d' ''to'' = JStr s" "fromhex s = Inr b" by blast
    let ?w = "find (\<lambda>w. w_instance w = s \<and> now - w_at w < witness_ttl c) (witnessed r)"
    show ?thesis
    proof (cases "any_set b \<and> ?w \<noteq> None")
      case True
      then obtain x where "?w = Some x" by blast
      with True sb f have "transfer_terms c now r cur d' = Move d' s b x (truthy (dget d' ''any_origin''))" by simp
      with False True sb \<open>?w = Some x\<close> show ?thesis by auto
    next
      case none: False
      then have "transfer_terms c now r cur d' \<noteq> Move d t ti w o'"
        unfolding f sb json.case sum.case by (cases "any_set b"; cases ?w) simp_all
      with none sb show ?thesis by auto
    qed
  next
    case none: False
    then have "transfer_terms c now r cur d' \<noteq> Move d t ti w o'"
      unfolding f by (auto split: json.splits sum.splits)
    with none show ?thesis by auto
  qed
qed

lemma transfer_check_Move:
  "transfer_check c now k r grant sig = Inr (Move d t ti w o') \<longleftrightarrow> transfer_admitted c now k r grant sig d t ti w o'"
proof (cases "\<exists>cur authority d'. enrolled_instance r = Some cur \<and> transfer_authority r = Some authority \<and> grant = JObj d'")
  case False
  then show ?thesis by (auto simp: transfer_check_def transfer_admitted_def split: option.splits json.splits)
next
  case True
  then obtain cur authority d' where r: "enrolled_instance r = Some cur" "transfer_authority r = Some authority"
    "grant = JObj d'" by blast
  have "transfer_check c now k r grant sig = Inr (Move d t ti w o') \<longleftrightarrow>
     \<not> revoked r \<and> py_eq (dget d' ''v'') (JInt 1) \<and> dget d' ''tik'' = JStr k
     \<and> (\<exists>spki. fromhex authority = Inr spki \<and> verify_grant (cf_crypto c) spki grant sig = Inr True)
     \<and> in_window d' now = Inr True \<and> transfer_terms c now r cur d' = Move d t ti w o'"
    by (simp add: transfer_check_def r py_ok_bind verify_grant_ok py_bind_Inr_iff cong: conj_cong) blast
  then show ?thesis
    unfolding transfer_terms_Move transfer_admitted_def by (auto simp: r)
qed

lemma wf_dget: "wf_json (JObj d) \<Longrightarrow> wf_json (dget d k)"
  by (auto simp: dget_def list_all_iff dest!: map_of_SomeD split: option.splits)

lemma dindex_dget: "dindex d k = Inr v \<Longrightarrow> dget d k = v"
  by (auto simp: dindex_def dget_def split: option.splits)

lemma accept_transfer_cases:
  assumes "accept_transfer i m tik grant sig = (res, m')"
  obtains (raised) x where "res = Inl x" "m' = m"
  | (refused) r why tag where "mandate_rec m (hex tik) = Inr r" "res = Inr (False, why)"
      "m' = snd (record_decision i (emit_event m [ES ''transfer-rejected'', ES (take 16 (hex tik)), ES tag])
         ''transfer'' tik False why None)"
  | (moved) r d t ti w o' nonce m1 where "mandate_rec m (hex tik) = Inr r"
      "transfer_admitted (cfg m) (int_of_time (t_check i)) (hex tik) r grant sig d t ti w o'"
      "dindex d ''nonce'' = Inr nonce"
      "save_rec m (hex tik) (moved_rec r (int_of_time (t_check i)) t w nonce o') = (Inr (), m1)"
      "res = Inr (True, ''transferred to the authorised instance'')"
      "m' = snd (record_decision i (transfer_events m1 (hex tik) r t o') ''transfer'' tik True
         ''transferred to the authorised instance'' (Some ti))"
proof (cases "mandate_rec m (hex tik)")
  case (Inl x)
  with assms show thesis by (intro raised [of x]) (auto simp: accept_transfer_def Let_def)
next
  case r: (Inr r)
  let ?now = "int_of_time (t_check i)"
  show thesis
  proof (cases "transfer_check (cfg m) ?now (hex tik) r grant sig")
    case (Inl x)
    with assms r show thesis by (intro raised [of x]) (auto simp: accept_transfer_def Let_def)
  next
    case (Inr plan)
    show thesis
    proof (cases plan)
      case (Refuse why tag)
      with Inr r assms show thesis
        by (intro refused [of r why tag]) (auto simp: accept_transfer_def Let_def transfer_no_eq)
    next
      case (Move d t ti w o')
      note adm = Inr [unfolded Move transfer_check_Move]
      show thesis
      proof (cases "dindex d ''nonce''")
        case (Inl x)
        with \<open>transfer_check _ _ _ _ _ _ = Inr plan\<close> r assms Move show thesis
          by (intro raised [of x]) (auto simp: accept_transfer_def Let_def transfer_apply_def)
      next
        case n: (Inr nonce)
        obtain m1 where s: "save_rec m (hex tik) (moved_rec r ?now t w nonce o') = (Inr (), m1)"
          "transfer_apply i m tik r ?now d t ti w o' = (Inr (True, ''transferred to the authorised instance''),
             snd (record_decision i (transfer_events m1 (hex tik) r t o') ''transfer'' tik True
               ''transferred to the authorised instance'' (Some ti)))"
          by (rule transfer_apply_ok [OF n])
        from Inr r assms Move s(2) show thesis
          by (intro moved [OF r adm n s(1)]) (auto simp: accept_transfer_def Let_def)
      qed
    qed
  qed
qed

lemma transfer_steps:
  assumes "accept_transfer i m tik grant sig = (res, m')"
  shows "log_step m m'" "peers m' = peers m" "challenges m' = challenges m"
    "\<forall>x. fst x \<noteq> hex tik \<longrightarrow> sessions m' x = sessions m x" "wf_json grant \<longrightarrow> ledger_step (hex tik) moved_by m m'"
proof -
  have "log_step m m' \<and> peers m' = peers m \<and> challenges m' = challenges m
      \<and> (\<forall>x. fst x \<noteq> hex tik \<longrightarrow> sessions m' x = sessions m x) \<and> (wf_json grant \<longrightarrow> ledger_step (hex tik) moved_by m m')"
    using assms
  proof (cases rule: accept_transfer_cases)
    case (raised x)
    then show ?thesis by (simp add: ledger_step_same)
  next
    case (refused r why tag)
    let ?m = "emit_event m [ES ''transfer-rejected'', ES (take 16 (hex tik)), ES tag]"
    obtain o2 where rd: "record_decision i ?m ''transfer'' tik False why None = (o2, m')"
      using refused(3) by (cases "record_decision i ?m ''transfer'' tik False why None") auto
    have "log_step m m'" unfolding refused(3) by (rule log_step_record) simp_all
    with record_decision_sel [OF rd] show ?thesis by (simp add: ledger_step_same)
  next
    case (moved r d t ti w o' nonce m1)
    let ?m = "transfer_events m1 (hex tik) r t o'"
    obtain o2 where rd: "record_decision i ?m ''transfer'' tik True ''transferred to the authorised instance'' (Some ti) = (o2, m')"
      using moved(6) by (cases "record_decision i ?m ''transfer'' tik True ''transferred to the authorised instance'' (Some ti)") auto
    note sv = save_rec_sel [OF moved(4)] save_rec_Inr(1) [OF moved(4)]
    have "log_step m m'" unfolding moved(6) by (rule log_step_record) (simp_all add: sv)
    moreover have "ledger_step (hex tik) moved_by m m'" if wf: "wf_json grant"
    proof -
      have "grant = JObj d" "enrolled_instance r \<noteq> None" "\<not> revoked r" using moved(2) by (auto simp: transfer_admitted_def)
      moreover have "dget d ''nonce'' = nonce" using moved(3) by (rule dindex_dget)
      moreover have "hexed (Some t)" "w \<in> set (witnessed r)"
        using moved(2) by (auto simp: transfer_admitted_def find_Some_iff intro: hexed_of)
      then have "rec_typed r \<longrightarrow> rec_typed (moved_rec r (int_of_time (t_check i)) t w nonce o')"
        by (simp add: rec_typed_def moved_rec_def list_all_iff)
      ultimately have "moved_by r (moved_rec r (int_of_time (t_check i)) t w nonce o')"
        using wf_dget [of d "''nonce''"] wf unfolding moved_by_def by blast
      with moved(1) sv record_decision_sel(2,3) [OF rd] show ?thesis by (intro ledger_step_put) simp_all
    qed
    ultimately show ?thesis using record_decision_sel [OF rd] sv by simp
  qed
  then show "log_step m m'" "peers m' = peers m" "challenges m' = challenges m"
    "\<forall>x. fst x \<noteq> hex tik \<longrightarrow> sessions m' x = sessions m x" "wf_json grant \<longrightarrow> ledger_step (hex tik) moved_by m m'"
    by simp_all
qed

end
