(* ===== verification/Mandate_Steps.thy ===== *)
theory Mandate_Steps
  imports Mandate_Frame
begin

text \<open>
  The mandate as a state machine: a step is one call of one operation, with whatever arguments a
  peer or an operator chooses. What holds along every run: the ledger stays readable, well formed
  and bounded, the log only grows and knows its heads, a revocation stands, and an enrolment
  moves only by a transfer its own authority signed.
\<close>

section \<open>Steps\<close>

inductive mstep :: "mandate \<Rightarrow> mandate \<Rightarrow> bool" where
  present: "present i m tik sc ex msg head bundle = (res, m') \<Longrightarrow> mstep m m'"
| enroll: "enroll i m e = (res, m') \<Longrightarrow> mstep m m'"
| revoke: "revoke i m tik why = (res, m') \<Longrightarrow> mstep m m'"
| transfer: "accept_transfer i m tik grant sig = (res, m') \<Longrightarrow> wf_json grant \<Longrightarrow> mstep m m'"
| challenge: "challenge now n m = (c, m') \<Longrightarrow> mstep m m'"
| observe: "observe i m spki s = (res, m') \<Longrightarrow> mstep m m'"

definition reach :: "mandate \<Rightarrow> mandate \<Rightarrow> bool" where
  "reach = mstep\<^sup>*\<^sup>*"

lemma reach_refl [simp]: "reach m m"
  by (simp add: reach_def)

lemma reach_step: "reach m m' \<Longrightarrow> mstep m' m'' \<Longrightarrow> reach m m''"
  unfolding reach_def by (rule rtranclp.rtrancl_into_rtrancl)

lemma reach_induct [consumes 1, case_names refl step]:
  assumes "reach m m'" "P m" "\<And>m1 m2. reach m m1 \<Longrightarrow> mstep m1 m2 \<Longrightarrow> P m1 \<Longrightarrow> P m2"
  shows "P m'"
  using assms unfolding reach_def by (rule rtranclp_induct)

lemma challenge_sel:
  assumes "challenge now n m = (c, m')"
  shows "c = n" "cfg m' = cfg m" "merkle m' = merkle m" "roots m' = roots m" "mstore m' = mstore m"
    "last_receipt m' = last_receipt m" "sessions m' = sessions m"
  using assms by (auto simp: challenge_def Let_def)

lemma observe_sel:
  assumes "observe i m spki s = (res, m')"
  shows "cfg m' = cfg m" "merkle m' = merkle m" "roots m' = roots m" "mstore m' = mstore m"
    "last_receipt m' = last_receipt m" "sessions m' = sessions m"
  using assms by (auto simp: observe_def Let_def split: sum.splits)

lemma mstep_log: "mstep m m' \<Longrightarrow> log_step m m'"
  by (induction rule: mstep.induct)
    (auto dest: present_steps enroll_steps revoke_steps transfer_steps challenge_sel observe_sel intro: log_step_same)

text \<open>The one record a step may write, and how.\<close>

definition rec_step :: "ledger_rec \<Rightarrow> ledger_rec \<Rightarrow> bool" where
  "rec_step r r' \<longleftrightarrow> soft r r' \<or> enrolled_by r r' \<or> revoked_by r r' \<or> moved_by r r'"

lemma mstep_ledger: "mstep m m' \<Longrightarrow> \<exists>tik. ledger_step (hex tik) rec_step m m'"
proof (induction rule: mstep.induct)
  case (present i m tik sc ex msg head bd res m')
  show ?case
    by (rule exI, rule ledger_step_mono [OF present_steps(2) [OF present]]) (simp add: rec_step_def)
next
  case (enroll i m e res m')
  show ?case
    by (rule exI, rule ledger_step_mono [OF enroll_steps(2) [OF enroll]]) (simp add: rec_step_def)
next
  case (revoke i m tik why res m')
  show ?case
    by (rule exI, rule ledger_step_mono [OF revoke_steps(2) [OF revoke]]) (simp add: rec_step_def)
next
  case (transfer i m tik grant sig res m')
  show ?case
    by (rule exI, rule ledger_step_mono [OF transfer_steps(5) [OF transfer(1), rule_format, OF transfer(2)]]) (simp add: rec_step_def)
next
  case (challenge now n m c m')
  show ?case by (rule exI, rule ledger_step_same) (simp_all add: challenge_sel [OF challenge])
next
  case (observe i m spki s res m')
  show ?case by (rule exI, rule ledger_step_same) (simp_all add: observe_sel [OF observe])
qed

lemma mstep_cfg: "mstep m m' \<Longrightarrow> cfg m' = cfg m"
  using mstep_ledger ledger_step_def by blast

lemma reach_cfg: "reach m m' \<Longrightarrow> cfg m' = cfg m"
  by (induction rule: reach_induct) (auto dest: mstep_cfg)

section \<open>The ledger along a run\<close>

definition rec_bounded :: "ledger_rec \<Rightarrow> bool" where
  "rec_bounded r \<longleftrightarrow> length (witnessed r) \<le> 32 \<and> length (contention r) \<le> 64
     \<and> length (transfers r) \<le> 64 \<and> length (consumed_grants r) \<le> 256"

definition ledger_ok :: "mandate \<Rightarrow> bool" where
  "ledger_ok m \<longleftrightarrow> (\<forall>b. \<exists>r. mandate_rec m (hex b) = Inr r \<and> wf_rec r \<and> rec_bounded r)"

lemma ledger_okE:
  assumes "ledger_ok m"
  obtains r where "mandate_rec m (hex b) = Inr r" "wf_rec r" "rec_bounded r"
  using assms by (auto simp: ledger_ok_def)

lemma list_all_last_n: "list_all P xs \<Longrightarrow> P x \<Longrightarrow> list_all P (last_n n (xs @ [x]))"
  using set_last_n [of n "xs @ [x]"] by (auto simp: list_all_iff)

lemma moved_rec_wf: "wf_rec r \<Longrightarrow> wf_json nonce \<Longrightarrow> wf_rec (moved_rec r now t w nonce o')"
  by (simp add: wf_rec_def moved_rec_def list_all_last_n)

lemma enrolled_rec_sel [simp]:
  "enrolled_instance (enrolled_rec e r a) = Some (hex (anchor_instance a))"
  "enrolled_place (enrolled_rec e r a) = hex_opt (anchor_place a)"
  "revoked (enrolled_rec e r a) = revoked r" "reason (enrolled_rec e r a) = reason r"
  "observed_instance (enrolled_rec e r a) = observed_instance r"
  "contention (enrolled_rec e r a) = contention r" "witnessed (enrolled_rec e r a) = witnessed r"
  "transfers (enrolled_rec e r a) = transfers r" "consumed_grants (enrolled_rec e r a) = consumed_grants r"
  "wf_rec (enrolled_rec e r a) = wf_rec r"
  "transfer_authority (enrolled_rec e r a) =
     (case en_transfer_authority e of None \<Rightarrow> transfer_authority r | Some ta \<Rightarrow> Some (hex ta))"
  by (simp_all add: enrolled_rec_def wf_rec_def Let_def split: option.splits)

lemma moved_rec_sel [simp]:
  "enrolled_instance (moved_rec r now t w nonce o') = Some t"
  "enrolled_place (moved_rec r now t w nonce o') = w_place w"
  "revoked (moved_rec r now t w nonce o') = revoked r"
  "observed_instance (moved_rec r now t w nonce o') = None"
  "contention (moved_rec r now t w nonce o') = contention r"
  "witnessed (moved_rec r now t w nonce o') = witnessed r"
  "transfer_authority (moved_rec r now t w nonce o') = transfer_authority r"
  "consumed_grants (moved_rec r now t w nonce o') = last_n 256 (consumed_grants r @ [nonce])"
  by (simp_all add: moved_rec_def)

lemma rec_step_keeps:
  assumes "rec_step r r'" "wf_rec r" "rec_bounded r"
  shows "wf_rec r' \<and> rec_bounded r'"
  using assms unfolding rec_step_def
proof (elim disjE)
  assume "soft r r'"
  then show ?thesis using assms(2,3) by (auto simp: soft_def wf_rec_def rec_bounded_def)
next
  assume "enrolled_by r r'"
  then show ?thesis using assms(2,3) by (auto simp: enrolled_by_def rec_bounded_def)
next
  assume "revoked_by r r'"
  then show ?thesis using assms(2,3) by (auto simp: revoked_by_def wf_rec_def rec_bounded_def)
next
  assume "moved_by r r'"
  then show ?thesis
    using assms(2,3) by (auto simp: moved_by_def moved_rec_wf) (simp_all add: rec_bounded_def moved_rec_def len_simps)
qed

lemma rec_bounded_norm [simp]: "rec_bounded (map_nonces f r) = rec_bounded r"
  by (simp add: rec_bounded_def) (simp add: map_nonces_def)

text \<open>How the record of one identity relates to the one before, after any step of the mandate.\<close>

lemma mstep_rec:
  assumes "mstep m m'" "mandate_rec m (hex b) = Inr r" "wf_rec r" "rec_bounded r"
  obtains r' where "mandate_rec m' (hex b) = Inr r'" "wf_rec r'" "rec_bounded r'"
    "r' = r \<or> (\<exists>r1. rec_step r r1 \<and> r' = map_nonces (store_norm (mstore m)) r1)"
proof -
  obtain tik where l: "ledger_step (hex tik) rec_step m m'" using mstep_ledger [OF assms(1)] by blast
  show thesis
  proof (cases "hex b = hex tik")
    case False
    then show thesis using that ledger_step_other [OF l, of "hex b"] assms by auto
  next
    case True
    have wf: "wf_rec r1 \<and> rec_bounded r1" if "rec_step r r1" for r1
      using rec_step_keeps [OF that assms(3,4)] .
    from l assms(2) [unfolded True] show thesis
    proof (rule ledger_step_rec)
      show "rec_step r r' \<Longrightarrow> wf_rec r'" for r' using wf by blast
      show "mandate_rec m' (hex tik) = Inr r \<Longrightarrow> thesis" using that assms True by auto
      show "rec_step r r1 \<Longrightarrow> mandate_rec m' (hex tik) = Inr (map_nonces (store_norm (mstore m)) r1) \<Longrightarrow> thesis" for r1
        using that wf [of r1] wf_norm [of r1] True by auto
    qed
  qed
qed

lemma mstep_ledger_ok: "mstep m m' \<Longrightarrow> ledger_ok m \<Longrightarrow> ledger_ok m'"
  unfolding ledger_ok_def by (meson mstep_rec)

lemma reach_ledger_ok: "reach m m' \<Longrightarrow> ledger_ok m \<Longrightarrow> ledger_ok m'"
  by (induction rule: reach_induct) (auto intro: mstep_ledger_ok)

text \<open>What no step takes back.\<close>

definition stands :: "ledger_rec \<Rightarrow> ledger_rec \<Rightarrow> bool" where
  "stands r r' \<longleftrightarrow> (revoked r \<longrightarrow> revoked r')
     \<and> (revoked r \<and> enrolled_instance r \<noteq> None \<longrightarrow> enrolled_instance r' = enrolled_instance r)
     \<and> (enrolled_instance r \<noteq> None \<longrightarrow> enrolled_instance r' \<noteq> None \<and> transfer_authority r' = transfer_authority r)"

lemma stands_refl [simp]: "stands r r"
  by (simp add: stands_def)

lemma stands_trans: "stands r r' \<Longrightarrow> stands r' r'' \<Longrightarrow> stands r r''"
  by (auto simp: stands_def)

lemma rec_step_stands: "rec_step r r' \<Longrightarrow> stands r (map_nonces f r')"
  unfolding rec_step_def
  by (auto simp: stands_def soft_sel enrolled_by_def revoked_by_def moved_by_def)

lemma reach_stands:
  assumes "reach m m'" "ledger_ok m" "mandate_rec m (hex b) = Inr r"
  shows "\<exists>r'. mandate_rec m' (hex b) = Inr r' \<and> stands r r'"
  using assms(1)
proof (induction rule: reach_induct)
  case refl
  then show ?case using assms(3) by auto
next
  case (step m1 m2)
  then obtain r1 where r1: "mandate_rec m1 (hex b) = Inr r1" "stands r r1" by blast
  obtain w where w: "mandate_rec m1 (hex b) = Inr w" "wf_rec w" "rec_bounded w"
    using reach_ledger_ok [OF step(1) assms(2)] by (rule ledger_okE)
  with r1 have "wf_rec r1" "rec_bounded r1" by simp_all
  with step(2) r1(1) obtain r2 where "mandate_rec m2 (hex b) = Inr r2"
    "r2 = r1 \<or> (\<exists>q. rec_step r1 q \<and> r2 = map_nonces (store_norm (mstore m1)) q)"
    by (rule mstep_rec) blast
  then show ?case using r1(2) rec_step_stands stands_trans by blast
qed

section \<open>The log along a run\<close>

definition entry_at :: "nat \<Rightarrow> bytes \<Rightarrow> bool" where
  "entry_at n e \<longleftrightarrow> (\<exists>kind tik acc why inst at' now. e = make_entry kind tik acc why inst at' (Some (int n)) now)"

lemma entry_at_decision: "merkle m = es \<Longrightarrow> entry_at (length es) (decision_entry i m kind tik acc why inst)"
  unfolding entry_at_def decision_entry_def by blast

lemma entry_at_inj: "entry_at n e \<Longrightarrow> entry_at n' e \<Longrightarrow> n = n'"
  by (auto simp: entry_at_def dest!: entry_seq)

definition log_inv :: "mandate \<Rightarrow> bool" where
  "log_inv m \<longleftrightarrow> (\<forall>h n. roots m h = Some n \<longrightarrow> n \<le> length (merkle m) \<and> h = hex (root (take n (merkle m))))
     \<and> (\<forall>n \<le> length (merkle m). roots m (hex (root (take n (merkle m)))) \<noteq> None)
     \<and> (\<forall>n < length (merkle m). entry_at n (merkle m ! n))"

lemma log_step_cases:
  assumes "log_step m m'"
  obtains (same) "merkle m' = merkle m" "roots m' = roots m" "last_receipt m' = last_receipt m"
  | (grew) e where "merkle m' = merkle m @ [e]" "entry_at (length (merkle m)) e"
      "roots m' = (roots m)(hex (root (merkle m')) \<mapsto> length (merkle m'))"
  using assms unfolding log_step_def
proof (elim disjE exE conjE)
  fix i m1 kind tik acc why inst
  assume m1: "merkle m1 = merkle m" "roots m1 = roots m" and m': "m' = snd (record_decision i m1 kind tik acc why inst)"
  obtain o2 where r: "record_decision i m1 kind tik acc why inst = (o2, m')"
    using m' by (cases "record_decision i m1 kind tik acc why inst") auto
  show thesis
    using grew [of "decision_entry i m1 kind tik acc why inst"] record_decision_sel [OF r] m1
      entry_at_decision [OF m1(1)] by simp
qed (blast intro: same)

lemma log_inv_step: "log_step m m' \<Longrightarrow> log_inv m \<Longrightarrow> log_inv m'"
proof (erule log_step_cases)
  assume "log_inv m" "merkle m' = merkle m" "roots m' = roots m"
  then show ?thesis by (simp add: log_inv_def)
next
  fix e
  assume inv: "log_inv m" and e: "merkle m' = merkle m @ [e]" "entry_at (length (merkle m)) e"
    "roots m' = (roots m)(hex (root (merkle m')) \<mapsto> length (merkle m'))"
  have "n \<le> length (merkle m') \<and> h = hex (root (take n (merkle m')))" if "roots m' h = Some n" for h n
  proof (cases "h = hex (root (merkle m'))")
    case True
    with that e(3) have "n = length (merkle m')" by simp
    with True show ?thesis by simp
  next
    case False
    with that e(3) have "roots m h = Some n" by simp
    then have "n \<le> length (merkle m) \<and> h = hex (root (take n (merkle m)))"
      using inv unfolding log_inv_def by blast
    with e(1) show ?thesis by simp
  qed
  moreover have "roots m' (hex (root (take n (merkle m')))) \<noteq> None" if "n \<le> length (merkle m')" for n
  proof (cases "n = length (merkle m')")
    case False
    with that e(1) have "n \<le> length (merkle m)" "take n (merkle m') = take n (merkle m)" by simp_all
    with inv e(3) show ?thesis by (auto simp: log_inv_def)
  qed (simp add: e(3))
  moreover have "entry_at n (merkle m' ! n)" if "n < length (merkle m')" for n
    using that inv e(1,2) by (cases "n = length (merkle m)") (auto simp: log_inv_def nth_append)
  ultimately show ?thesis unfolding log_inv_def by blast
qed

lemma log_inv_new: "log_inv (mandate_new c st)"
  by (simp add: log_inv_def mandate_new_def log_new_def log_head_def)

lemma reach_log_inv: "reach m m' \<Longrightarrow> log_inv m \<Longrightarrow> log_inv m'"
  by (induction rule: reach_induct) (auto intro: log_inv_step mstep_log)

lemma log_inv_distinct: "log_inv m \<Longrightarrow> distinct (merkle m)"
  unfolding distinct_conv_nth log_inv_def using entry_at_inj by metis

lemma knows_head_iff: "log_inv m \<Longrightarrow> knows_head m h \<longleftrightarrow> (\<exists>n \<le> length (merkle m). h = root (take n (merkle m)))"
  unfolding log_inv_def knows_head_def by (metis hex_inj option.exhaust)

lemma log_step_grows: "log_step m m' \<Longrightarrow> \<exists>es. merkle m' = merkle m @ es"
  by (erule log_step_cases) auto

lemma reach_grows: "reach m m' \<Longrightarrow> \<exists>es. merkle m' = merkle m @ es"
proof (induction rule: reach_induct)
  case (step m1 m2)
  then show ?case using log_step_grows [OF mstep_log [OF step(2)]] by auto
qed simp

section \<open>Receipts and extensions\<close>

lemma verify_mandate_sth:
  "sig_correct (cf_crypto (cfg m)) \<Longrightarrow> verify_sth (cf_crypto (cfg m)) (mandate_public_key m) (mandate_sth i m) = Inr True"
  by (simp add: mandate_sth_def mandate_public_key_def verify_sign_sth)

lemma mandate_sth_sel [simp]:
  "sth_size (mandate_sth i m) = int (length (merkle m))" "sth_root (mandate_sth i m) = hex (root (merkle m))"
  by (simp_all add: mandate_sth_def log_len_def log_head_def)

lemma receipt_verifies:
  assumes "sig_correct (cf_crypto (cfg m))" "n < length (merkle m)"
  shows "\<exists>rc. mandate_receipt i m (int n) = Inr rc \<and> rc_entry rc = hex (merkle m ! n)
    \<and> verify_receipt (cf_crypto (cfg m)) (mandate_public_key m) rc = Inr (True, ''receipt verifies'')"
  using mandate_receipt_ok [OF assms(2), of i] verify_mandate_sth [OF assms(1), of i]
  by (auto simp: verify_receipt_def)

lemma extension_verifies:
  assumes "sig_correct (cf_crypto (cfg m))" "reach m m'" "merkle m \<noteq> []"
  shows "\<exists>p. prove_extension m' (int (length (merkle m))) = Inr p
    \<and> verify_extension (cf_crypto (cfg m)) (mandate_public_key m) (mandate_sth i m) (mandate_sth i' m') p = Inr True"
proof -
  obtain es where es: "merkle m' = merkle m @ es" using reach_grows [OF assms(2)] by blast
  have c: "cfg m' = cfg m" by (rule reach_cfg [OF assms(2)])
  then have k: "mandate_public_key m' = mandate_public_key m" by (simp add: mandate_public_key_def)
  obtain p where p: "log_prove_consistency (merkle m') (int (length (merkle m))) = Inr p"
    "verify_consistency (log_head (merkle m)) (int (length (merkle m))) (log_head (merkle m')) (int (length (merkle m'))) p"
    using mlog.cons [OF es assms(3)] by blast
  then show ?thesis
    using verify_mandate_sth [OF assms(1), of i] verify_mandate_sth [of m' i'] assms(1) c k
    by (simp add: prove_extension_def verify_extension_def consistent_def log_head_def)
qed

section \<open>Who can move an identity\<close>

lemma present_rec:
  assumes "present i m tik sc ex msg head bundle = (res, m')" "mandate_rec m (hex b) = Inr r" "wf_rec r"
  obtains r' where "mandate_rec m' (hex b) = Inr r'" "enrolled_instance r' = enrolled_instance r"
    "enrolled_place r' = enrolled_place r" "revoked r' = revoked r" "reason r' = reason r"
    "transfer_authority r' = transfer_authority r" "length (transfers r') = length (transfers r)"
    "\<And>x. py_in x (consumed_grants r') = py_in x (consumed_grants r)" "b \<noteq> tik \<Longrightarrow> r' = r"
proof (cases "b = tik")
  case False
  then show thesis
    using that [of r] ledger_step_other [OF present_steps(2) [OF assms(1)], of "hex b"] assms(2) by simp
next
  case True
  have nt: "length (transfers (map_nonces f q)) = length (transfers q)" for f q
    by (simp add: map_nonces_def)
  from present_steps(2) [OF assms(1)] assms(2) [unfolded True] show thesis
  proof (rule ledger_step_rec)
    show "soft r r' \<Longrightarrow> wf_rec r'" for r' using assms(3) by (simp add: soft_sel)
    show "mandate_rec m' (hex tik) = Inr r \<Longrightarrow> thesis" using that [of r] True by simp
    fix r1
    assume s: "soft r r1" and e: "mandate_rec m' (hex tik) = Inr (map_nonces (store_norm (mstore m)) r1)"
    have "list_all wf_json (consumed_grants r1)" using soft_sel(8) [OF s] assms(3) by (simp add: wf_rec_def)
    then show thesis
      using that [OF e [folded True]] True soft_sel [OF s] by (simp add: py_in_norm nt)
  qed
qed

text \<open>A step that changes an enrolment is a transfer that was admitted.\<close>

lemma enrolment_moves_only_by_grant:
  assumes "mstep m m'" "ledger_ok m" "mandate_rec m (hex b) = Inr r" "mandate_rec m' (hex b) = Inr r'"
    and "enrolled_instance r = Some a" "enrolled_instance r' \<noteq> Some a"
  shows "\<exists>i grant sig d t ti w o'. accept_transfer i m b grant sig = (Inr (True, ''transferred to the authorised instance''), m')
    \<and> transfer_admitted (cfg m) (int_of_time (t_check i)) (hex b) r grant sig d t ti w o' \<and> enrolled_instance r' = Some t"
proof -
  have wf: "wf_rec r" using assms(2,3) ledger_okE by (metis sum.inject(2))
  have no: False if "ledger_step (hex tik) R m m'" "\<And>q. R r q \<Longrightarrow> wf_rec q \<and> enrolled_instance q = enrolled_instance r" for tik R
  proof (cases "b = tik")
    case False
    then show False using ledger_step_other [OF that(1), of "hex b"] assms by auto
  next
    case True
    show False
      by (rule ledger_step_rec [OF that(1) assms(3) [unfolded True]]) (use that(2) assms True in auto)
  qed
  from assms(1) show ?thesis
  proof cases
    case (present i tik sc ex msg head bd res)
    from no [OF present_steps(2) [OF present]] wf show ?thesis by (auto simp: soft_sel)
  next
    case (enroll i e res)
    from no [OF enroll_steps(2) [OF enroll]] assms(5) show ?thesis by (auto simp: enrolled_by_def)
  next
    case (revoke i tik why res)
    have False by (rule no [OF revoke_steps(2) [OF revoke]]) (use wf in \<open>auto simp: revoked_by_def wf_rec_def\<close>)
    then show ?thesis ..
  next
    case (challenge now n c)
    from no [of _ "\<lambda>r r'. False"] ledger_step_same challenge_sel [OF challenge] show ?thesis by blast
  next
    case (observe i spki s res)
    from no [of _ "\<lambda>r r'. False"] ledger_step_same observe_sel [OF observe] show ?thesis by blast
  next
    case (transfer i tik grant sig res)
    note steps = transfer_steps [OF transfer(1)]
    have tik: "tik = b"
      using ledger_step_other [OF steps(5) [rule_format, OF transfer(2)], of "hex b"] assms by force
    from transfer(1) show ?thesis
    proof (cases rule: accept_transfer_cases)
      case (raised x)
      with assms show ?thesis by simp
    next
      case (refused r0 why tag)
      obtain o2 where "record_decision i (emit_event m [ES ''transfer-rejected'', ES (take 16 (hex tik)), ES tag])
          ''transfer'' tik False why None = (o2, m')"
        using refused(3) by (cases "record_decision i (emit_event m [ES ''transfer-rejected'', ES (take 16 (hex tik)), ES tag])
          ''transfer'' tik False why None") auto
      from record_decision_sel(10) [OF this] assms show ?thesis by simp
    next
      case (moved r0 d t ti w o' nonce m1)
      have r0: "r0 = r" using moved(1) assms(3) tik by simp
      have nonce: "wf_json nonce"
        using moved(2) wf_dget [of d "''nonce''"] dindex_dget [OF moved(3)] transfer(2) by (auto simp: transfer_admitted_def)
      obtain o2 where rd: "record_decision i (transfer_events m1 (hex tik) r0 t o') ''transfer'' tik True
          ''transferred to the authorised instance'' (Some ti) = (o2, m')"
        using moved(6) by (cases "record_decision i (transfer_events m1 (hex tik) r0 t o') ''transfer'' tik True
          ''transferred to the authorised instance'' (Some ti)") auto
      have "mandate_rec m' (hex tik) = mandate_rec m1 (hex tik)"
        using record_decision_sel(10) [OF rd] mandate_rec_cong [of "transfer_events m1 (hex tik) r0 t o'" m1] by simp
      also have "\<dots> = Inr (map_nonces (store_norm (mstore m)) (moved_rec r0 (int_of_time (t_check i)) t w nonce o'))"
        using moved_rec_wf [OF wf nonce] r0 by (intro rec_put_same save_rec_Inr(1) [OF moved(4)]) simp
      finally have "enrolled_instance r' = Some t" using assms(4) tik by simp
      with moved transfer(1) tik r0 show ?thesis by blast
    qed
  qed
qed

end
