(* ===== verification/Mandate_Accept.thy ===== *)
theory Mandate_Accept
  imports Mandate_Frame
begin

text \<open>
  Exactly when \<open>present\<close>, \<open>enroll\<close> and \<open>accept_transfer\<close> accept, and what an acceptance writes. The
  predicate \<open>admits\<close> states what a mandate promises of an accepted step; the model implements it.
\<close>

section \<open>Acceptance of a step\<close>

definition chain_base :: "mandate \<Rightarrow> bytes \<Rightarrow> bytes \<Rightarrow> int \<Rightarrow> bytes \<Rightarrow> bool" where
  "chain_base m tik sc c base \<longleftrightarrow> (case sessions m (hex tik, session_key sc) of
     None \<Rightarrow> c = 0 \<and> intra_link sc tik = Inr base
   | Some s \<Rightarrow> c = ss_counter s + 1 \<and> base = ss_prev s)"

definition agrees :: "bytes option \<Rightarrow> bytes option \<Rightarrow> bool" where
  "agrees known seen \<longleftrightarrow> known = None \<or> seen = None \<or> seen = known"

definition ledger_admits :: "config \<Rightarrow> ledger_rec \<Rightarrow> anchor option \<Rightarrow> bool" where
  "ledger_admits c r an \<longleftrightarrow> (let inst = map_option anchor_instance an; place = Option.bind an anchor_place in
     (\<exists>enr. opt_fromhex (enrolled_instance r) = Inr enr \<and> agrees enr inst \<and> (enr = None \<longrightarrow> \<not> require_enrolment c))
     \<and> (require_place c \<longrightarrow> place \<noteq> None)
     \<and> (\<exists>p. opt_fromhex (enrolled_place r) = Inr p \<and> (require_place c \<longrightarrow> p = None \<or> place = p))
     \<and> (\<exists>ob. opt_fromhex (observed_instance r) = Inr ob \<and> agrees ob inst))"

definition admits ::
  "mandate \<Rightarrow> bytes \<Rightarrow> bytes \<Rightarrow> bytes \<Rightarrow> message \<Rightarrow> bytes option \<Rightarrow> bundle_entry list option
   \<Rightarrow> ledger_rec \<Rightarrow> bytes \<Rightarrow> anchor option \<Rightarrow> bool" where
  "admits m tik sc ex msg head bundle r pl an \<longleftrightarrow>
     mandate_rec m (hex tik) = Inr r \<and> \<not> revoked r
     \<and> fromhex (msg_post_link msg) = Inr pl
     \<and> head_check m (hex tik) head bundle = Inr None
     \<and> verify_report (cfg m) (msg_evidence msg) (report_data_for pl head) = Inr (True, an)
     \<and> (an = None \<longrightarrow> \<not> require_anchor (cfg m))
     \<and> ledger_admits (cfg m) r an
     \<and> (\<exists>base. chain_base m tik sc (msg_counter msg) base \<and> post_link ex base (msg_counter msg) = Inr pl)"

lemma refuse_not: "refuse m ev why inst \<noteq> (Inr (True, w, j), m')"
  by (simp add: refuse_def)

lemma refuse_saved_not: "refuse_saved m k r ev why inst \<noteq> (Inr (True, w, j), m')"
  by (auto simp: refuse_saved_def refuse_def split: prod.splits sum.splits)

text \<open>The record and the sessions that an accepted step leaves.\<close>

definition step_rec :: "ledger_rec \<Rightarrow> anchor option \<Rightarrow> ledger_rec" where
  "step_rec r an = (case an of None \<Rightarrow> r
     | Some a \<Rightarrow> r\<lparr>observed_instance := Some (hex (anchor_instance a)), observed_place := hex_opt (anchor_place a)\<rparr>)"

definition step_done :: "mandate \<Rightarrow> bytes \<Rightarrow> bytes \<Rightarrow> int \<Rightarrow> bytes \<Rightarrow> ledger_rec \<Rightarrow> anchor option \<Rightarrow> mandate \<Rightarrow> bool" where
  "step_done m tik sc c pl r an m' \<longleftrightarrow>
     sessions m' = (sessions m)((hex tik, session_key sc) \<mapsto> \<lparr>ss_prev = pl, ss_counter = c\<rparr>)
     \<and> cfg m' = cfg m
     \<and> (if an = None then mstore m' = mstore m
        else store_put (mstore m) (hex tik) (json_of_rec (step_rec r an)) = Inr (mstore m'))"

lemma accept_step_eq:
  "\<exists>m'. accept_step m (hex tik) (session_key sc) r c pl (map_option anchor_instance an) (Option.bind an anchor_place)
     = (Inr (True, ''accepted; continuity intact'', map_option anchor_instance an), m') \<and> step_done m tik sc c pl r an m'"
proof (cases an)
  case None
  then show ?thesis by (simp add: accept_step_def Let_def step_done_def)
next
  case (Some a)
  let ?m1 = "m\<lparr>sessions := (sessions m)((hex tik, session_key sc) \<mapsto> \<lparr>ss_prev = pl, ss_counter = c\<rparr>)\<rparr>"
  obtain o1 m2 where s: "save_rec ?m1 (hex tik) (step_rec r an) = (o1, m2)" by fastforce
  then obtain u where u: "o1 = Inr u" using save_rec_Inl by (cases o1) auto
  from save_rec_Inr(1) [OF s [unfolded u]] save_rec_sel [OF s] s u show ?thesis
    by (simp add: accept_step_def Let_def step_done_def Some step_rec_def)
qed

lemma appraise_link_True:
  fixes an :: "anchor option"
  shows "(\<exists>m'. appraise_link i m tik sc ex msg pl r (map_option anchor_instance an) (Option.bind an anchor_place) base
      = (Inr (True, why, inst), m') \<and> P m') \<longleftrightarrow>
   post_link ex base (msg_counter msg) = Inr pl \<and> why = ''accepted; continuity intact'' \<and> inst = map_option anchor_instance an
   \<and> P (snd (accept_step m (hex tik) (session_key sc) r (msg_counter msg) pl (map_option anchor_instance an) (Option.bind an anchor_place)))"
proof (cases "post_link ex base (msg_counter msg)")
  case (Inl x)
  then show ?thesis by (simp add: appraise_link_def Let_def)
next
  case (Inr l)
  show ?thesis
  proof (cases "l = pl")
    case True
    with Inr accept_step_eq [of m tik sc r "msg_counter msg" pl an] show ?thesis
      by (auto simp: appraise_link_def Let_def)
  next
    case False
    with Inr show ?thesis by (auto simp: appraise_link_def Let_def refuse_saved_not)
  qed
qed

lemma appraise_chain_True:
  fixes an :: "anchor option"
  shows "(\<exists>m'. appraise_chain i m tik sc ex msg pl r (map_option anchor_instance an) (Option.bind an anchor_place)
      = (Inr (True, why, inst), m') \<and> P m') \<longleftrightarrow>
   (\<exists>base. chain_base m tik sc (msg_counter msg) base \<and> post_link ex base (msg_counter msg) = Inr pl)
   \<and> why = ''accepted; continuity intact'' \<and> inst = map_option anchor_instance an
   \<and> P (snd (accept_step m (hex tik) (session_key sc) r (msg_counter msg) pl (map_option anchor_instance an) (Option.bind an anchor_place)))"
proof (cases "sessions m (hex tik, session_key sc)")
  case None
  show ?thesis
  proof (cases "msg_counter msg = 0")
    case True
    with None show ?thesis
      using appraise_link_True [of i m tik sc ex msg pl r an _ why inst P]
      by (cases "intra_link sc tik") (simp_all add: appraise_chain_def Let_def chain_base_def)
  next
    case False
    with None show ?thesis by (simp add: appraise_chain_def Let_def chain_base_def refuse_not)
  qed
next
  case (Some s)
  then show ?thesis
    using appraise_link_True [of i m tik sc ex msg pl r an "ss_prev s" why inst P]
    by (cases "msg_counter msg = ss_counter s + 1")
      (simp_all add: appraise_chain_def Let_def chain_base_def refuse_saved_not)
qed

lemma appraise_gate_True:
  "appraise_gate i m tik sc ex msg pl r an = (Inr (True, why, inst), m') \<longleftrightarrow>
   ledger_admits (cfg m) r an \<and>
   appraise_chain i m tik sc ex msg pl r (map_option anchor_instance an) (Option.bind an anchor_place)
     = (Inr (True, why, inst), m')"
proof -
  let ?i = "map_option anchor_instance an" and ?p = "Option.bind an anchor_place"
  have ag: "agrees known ?i \<longleftrightarrow> \<not> (known \<noteq> None \<and> ?i \<noteq> None \<and> ?i \<noteq> known)" for known
    by (auto simp: agrees_def)
  show ?thesis
  proof (cases "opt_fromhex (enrolled_instance r)")
    case (Inl x)
    then show ?thesis by (simp add: appraise_gate_def ledger_admits_def Let_def)
  next
    case enr: (Inr enr)
    show ?thesis
    proof (cases "opt_fromhex (enrolled_place r)")
      case (Inl x)
      then show ?thesis by (simp add: appraise_gate_def ledger_admits_def Let_def enr refuse_not refuse_saved_not)
    next
      case p: (Inr p)
      show ?thesis
      proof (cases "opt_fromhex (observed_instance r)")
        case (Inl x)
        then show ?thesis by (simp add: appraise_gate_def ledger_admits_def Let_def enr p refuse_not refuse_saved_not)
      next
        case ob: (Inr ob)
        show ?thesis
          unfolding appraise_gate_def ledger_admits_def Let_def enr p ob ag
          by (auto simp: refuse_not refuse_saved_not)
      qed
    qed
  qed
qed

lemma step_done_emit: "step_done (emit_event m e) tik sc c pl r an m' \<longleftrightarrow> step_done m tik sc c pl r an m'"
  by (simp add: step_done_def)

lemma chain_base_emit: "chain_base (emit_event m e) tik sc c base \<longleftrightarrow> chain_base m tik sc c base"
  by (simp add: chain_base_def)

lemma appraise_True:
  assumes "appraise i m tik sc ex msg head bundle = (Inr (True, why, inst), m')"
  shows "\<exists>r pl an. admits m tik sc ex msg head bundle r pl an \<and> why = ''accepted; continuity intact''
    \<and> inst = map_option anchor_instance an \<and> step_done m tik sc (msg_counter msg) pl r an m'"
proof -
  let ?e = "[ES ''anchor-absent-downgraded'', ES (take 16 (hex tik)), EI (msg_counter msg)]"
  obtain r pl an where r: "mandate_rec m (hex tik) = Inr r" "\<not> revoked r" "fromhex (msg_post_link msg) = Inr pl"
    "head_check m (hex tik) head bundle = Inr None"
    "verify_report (cfg m) (msg_evidence msg) (report_data_for pl head) = Inr (True, an)"
    "an = None \<longrightarrow> \<not> require_anchor (cfg m)"
    and g: "appraise_gate i (if an = None then emit_event m ?e else m) tik sc ex msg pl r an = (Inr (True, why, inst), m')"
    using assms unfolding appraise_def Let_def
    by (auto simp: refuse_not split: sum.splits if_splits option.splits prod.splits)
  define m1 where "m1 = (if an = None then emit_event m ?e else m)"
  have m1: "m1 = m \<or> (\<exists>e. m1 = emit_event m e)" by (auto simp: m1_def)
  note g = g [folded m1_def]
  from g have adm: "ledger_admits (cfg m1) r an"
    and ch: "appraise_chain i m1 tik sc ex msg pl r (map_option anchor_instance an) (Option.bind an anchor_place) = (Inr (True, why, inst), m')"
    unfolding appraise_gate_True by simp_all
  have "step_done m1 tik sc (msg_counter msg) pl r an
      (snd (accept_step m1 (hex tik) (session_key sc) r (msg_counter msg) pl (map_option anchor_instance an) (Option.bind an anchor_place)))"
    using accept_step_eq [of m1 tik sc r "msg_counter msg" pl an] by auto
  with ch appraise_chain_True [of i m1 tik sc ex msg pl r an why inst "\<lambda>x. x = m'"]
  have "step_done m1 tik sc (msg_counter msg) pl r an m'" "why = ''accepted; continuity intact''" "inst = map_option anchor_instance an"
    "\<exists>base. chain_base m1 tik sc (msg_counter msg) base \<and> post_link ex base (msg_counter msg) = Inr pl"
    by auto
  with r m1 adm show ?thesis
    by (intro exI [of _ r] exI [of _ pl] exI [of _ an]) (auto simp: admits_def step_done_emit chain_base_emit)
qed

lemma appraise_admits:
  assumes "admits m tik sc ex msg head bundle r pl an"
  shows "\<exists>m'. appraise i m tik sc ex msg head bundle = (Inr (True, ''accepted; continuity intact'', map_option anchor_instance an), m')
    \<and> step_done m tik sc (msg_counter msg) pl r an m'"
proof -
  let ?e = "[ES ''anchor-absent-downgraded'', ES (take 16 (hex tik)), EI (msg_counter msg)]"
  define m1 where "m1 = (if an = None then emit_event m ?e else m)"
  have m1: "m1 = m \<or> (\<exists>e. m1 = emit_event m e)" by (auto simp: m1_def)
  have "\<exists>base. chain_base m1 tik sc (msg_counter msg) base \<and> post_link ex base (msg_counter msg) = Inr pl"
    using assms m1 by (auto simp: admits_def chain_base_emit)
  then obtain m' where "appraise_chain i m1 tik sc ex msg pl r (map_option anchor_instance an) (Option.bind an anchor_place)
      = (Inr (True, ''accepted; continuity intact'', map_option anchor_instance an), m')"
    "step_done m1 tik sc (msg_counter msg) pl r an m'"
    using appraise_chain_True [of i m1 tik sc ex msg pl r an "''accepted; continuity intact''" "map_option anchor_instance an"
        "step_done m1 tik sc (msg_counter msg) pl r an"] accept_step_eq [of m1 tik sc r "msg_counter msg" pl an]
    by auto
  moreover have "ledger_admits (cfg m1) r an" using assms m1 by (auto simp: admits_def)
  ultimately have "appraise_gate i m1 tik sc ex msg pl r an
      = (Inr (True, ''accepted; continuity intact'', map_option anchor_instance an), m')" "step_done m tik sc (msg_counter msg) pl r an m'"
    using m1 by (auto simp: appraise_gate_True step_done_emit)
  moreover have "appraise i m tik sc ex msg head bundle = appraise_gate i m1 tik sc ex msg pl r an"
    using assms by (auto simp: admits_def appraise_def Let_def m1_def)
  ultimately show ?thesis by auto
qed

text \<open>\<open>present\<close> accepts what \<open>admits\<close> describes, and nothing else.\<close>

lemma present_True:
  assumes "present i m tik sc ex msg head bundle = (Inr (True, why), m')"
  obtains r pl an where "admits m tik sc ex msg head bundle r pl an" "why = ''accepted; continuity intact''"
    "step_done m tik sc (msg_counter msg) pl r an m'"
proof -
  obtain inst m1 where a: "appraise i m tik sc ex msg head bundle = (Inr (True, why, inst), m1)"
    "m' = snd (record_decision i m1 ''present'' tik True why inst)"
    using assms unfolding present_eq by (auto split: prod.splits sum.splits)
  from appraise_True [OF a(1)] obtain r pl an where *: "admits m tik sc ex msg head bundle r pl an"
    "why = ''accepted; continuity intact''" "step_done m tik sc (msg_counter msg) pl r an m1" by blast
  obtain o2 where "record_decision i m1 ''present'' tik True why inst = (o2, m')"
    using a(2) by (cases "record_decision i m1 ''present'' tik True why inst") auto
  from record_decision_sel [OF this] *(3) have "step_done m tik sc (msg_counter msg) pl r an m'"
    by (simp add: step_done_def)
  with * show thesis by (intro that)
qed

lemma present_admits:
  assumes "admits m tik sc ex msg head bundle r pl an"
  obtains m' where "present i m tik sc ex msg head bundle = (Inr (True, ''accepted; continuity intact''), m')"
    "step_done m tik sc (msg_counter msg) pl r an m'"
proof -
  obtain m1 where a: "appraise i m tik sc ex msg head bundle = (Inr (True, ''accepted; continuity intact'', map_option anchor_instance an), m1)"
    "step_done m tik sc (msg_counter msg) pl r an m1"
    using appraise_admits [OF assms] by blast
  obtain o2 m2 where r: "record_decision i m1 ''present'' tik True ''accepted; continuity intact'' (map_option anchor_instance an) = (o2, m2)"
    by fastforce
  from record_decision_sel [OF r] a(2) have "step_done m tik sc (msg_counter msg) pl r an m2" by (simp add: step_done_def)
  with a(1) r show thesis by (intro that [of m2]) (simp_all add: present_eq)
qed

lemma present_accepts:
  "(\<exists>why m'. present i m tik sc ex msg head bundle = (Inr (True, why), m')) \<longleftrightarrow>
   (\<exists>r pl an. admits m tik sc ex msg head bundle r pl an)"
  by (metis present_True present_admits)

section \<open>The chain\<close>

text \<open>An accepted step carries the link this mandate computes from its own values.\<close>

definition expected_base :: "mandate \<Rightarrow> bytes \<Rightarrow> bytes \<Rightarrow> bytes" where
  "expected_base m tik sc = (case sessions m (hex tik, session_key sc) of
     None \<Rightarrow> intra_value sc tik | Some s \<Rightarrow> ss_prev s)"

lemma admits_link:
  assumes "admits m tik sc ex msg head bundle r pl an"
  shows "pl = post_value ex (expected_base m tik sc) (msg_counter msg)" "0 \<le> msg_counter msg" "msg_counter msg < 2 ^ 64"
    "length pl = 32"
  using assms
  by (auto simp: admits_def chain_base_def expected_base_def post_link_Inr intra_link_Inr len_simps split: option.splits)

lemma admits_counter:
  assumes "admits m tik sc ex msg head bundle r pl an"
  shows "msg_counter msg = (case sessions m (hex tik, session_key sc) of None \<Rightarrow> 0 | Some s \<Rightarrow> ss_counter s + 1)"
  using assms by (auto simp: admits_def chain_base_def split: option.splits)

lemma step_done_rec:
  assumes "step_done m tik sc c pl r an m'" "mandate_rec m (hex tik) = Inr r" "wf_rec r"
  shows "mandate_rec m' (hex tik) = Inr (if an = None then r else map_nonces (store_norm (mstore m)) (step_rec r an))"
proof (cases an)
  case None
  with assms show ?thesis using mandate_rec_cong [of m' m] by (simp add: step_done_def)
next
  case (Some a)
  have "wf_rec (step_rec r an)" using assms(3) by (simp add: Some step_rec_def wf_rec_def)
  with assms(1) Some show ?thesis by (simp add: step_done_def rec_put_same)
qed

end
