(* ===== verification/Mandate_Protocol.thy ===== *)
theory Mandate_Protocol
  imports Mandate_Steps Mandate_Accept
begin

text \<open>
  Attester and mandate together: an honest chain is accepted step by step; a relayed, replayed
  or foreign step is not, short of a collision; an impostor is refused on its first message and
  leaves the identity as it was. Enrolment and transfer: when they succeed, what they write,
  and that nonces and grants are spent.
\<close>

section \<open>Sessions\<close>

lemma refuse_saved_sessions: "refuse_saved m k r ev why inst = (res, m') \<Longrightarrow> sessions m' = sessions m"
  using save_rec_sel(5) by (auto simp: refuse_saved_def refuse_def split: prod.splits sum.splits)

lemma accept_step_True: "accept_step m (hex tik) skey r c pl inst place = (res, m') \<Longrightarrow> \<exists>w j. res = Inr (True, w, j)"
  using save_rec_Inl by (auto simp: accept_step_def Let_def split: option.splits prod.splits sum.splits)

lemma appraise_sessions:
  assumes "appraise i m tik sc ex msg head bundle = (res, m')"
  shows "sessions m' = sessions m \<or> (\<exists>w j. res = Inr (True, w, j))"
proof -
  have link: "sessions m' = sessions m \<or> (\<exists>w j. res = Inr (True, w, j))"
    if "appraise_link i m tik sc ex msg pl r inst place base = (res, m')" for m pl r inst place base
    using that refuse_saved_sessions accept_step_True unfolding appraise_link_def Let_def
    by (auto split: sum.splits if_splits)
  have chain: "sessions m' = sessions m \<or> (\<exists>w j. res = Inr (True, w, j))"
    if "appraise_chain i m tik sc ex msg pl r inst place = (res, m')" for m pl r inst place
    using that refuse_saved_sessions link unfolding appraise_chain_def Let_def
    by (auto simp: refuse_def split: sum.splits if_splits option.splits)
  have gate: "sessions m' = sessions m \<or> (\<exists>w j. res = Inr (True, w, j))"
    if "appraise_gate i m tik sc ex msg pl r an = (res, m')" for m pl r an
    using that refuse_saved_sessions chain unfolding appraise_gate_def Let_def
    by (auto simp: refuse_def split: sum.splits if_splits)
  show ?thesis
    using assms gate unfolding appraise_def Let_def
    by (fastforce simp: refuse_def split: sum.splits if_splits option.splits prod.splits)
qed

lemma present_sessions:
  assumes "present i m tik sc ex msg head bundle = (res, m')"
  shows "sessions m' = sessions m \<or> (\<exists>why. res = Inr (True, why))"
proof -
  obtain o1 m1 where a: "appraise i m tik sc ex msg head bundle = (o1, m1)" by fastforce
  show ?thesis
  proof (cases o1)
    case (Inl x)
    with appraise_sessions [OF a] assms a show ?thesis by (simp add: present_eq)
  next
    case (Inr v)
    obtain ok why inst where v: "v = (ok, why, inst)" by (cases v) auto
    with assms a Inr have "res = Inr (ok, why)" "m' = snd (record_decision i m1 ''present'' tik ok why inst)"
      by (simp_all add: present_eq)
    moreover obtain o2 m2 where "record_decision i m1 ''present'' tik ok why inst = (o2, m2)" by fastforce
    ultimately show ?thesis using appraise_sessions [OF a] record_decision_sel(6) Inr v by fastforce
  qed
qed

definition sessions_ok :: "mandate \<Rightarrow> bool" where
  "sessions_ok m \<longleftrightarrow> (\<forall>x s. sessions m x = Some s \<longrightarrow> length (ss_prev s) = 32 \<and> 0 \<le> ss_counter s \<and> ss_counter s < 2 ^ 64)"

lemma sessions_ok_new: "sessions_ok (mandate_new c st)"
  by (simp add: sessions_ok_def mandate_new_def)

text \<open>How one step changes one session: an accepted step of it, or the end that a transfer puts to it.\<close>

lemma mstep_sessions:
  assumes "mstep m m'" "sessions m' x \<noteq> sessions m x"
  shows "(\<exists>i tik sc ex msg head bundle r pl an. x = (hex tik, session_key sc)
      \<and> present i m tik sc ex msg head bundle = (Inr (True, ''accepted; continuity intact''), m')
      \<and> admits m tik sc ex msg head bundle r pl an
      \<and> sessions m' x = Some \<lparr>ss_prev = pl, ss_counter = msg_counter msg\<rparr>)
    \<or> (sessions m' x = None \<and> (\<exists>i tik grant sig why. fst x = hex tik
      \<and> accept_transfer i m tik grant sig = (Inr (True, why), m')))"
  using assms(1)
proof cases
  case (present i tik sc ex msg head bd res)
  have "sessions m' \<noteq> sessions m" using assms(2) by auto
  then obtain why where w: "present i m tik sc ex msg head bd = (Inr (True, why), m')"
    using present_sessions [OF present] present by blast
  then show ?thesis
  proof (rule present_True)
    fix r pl an
    assume a: "admits m tik sc ex msg head bd r pl an" "why = ''accepted; continuity intact''"
      and d: "step_done m tik sc (msg_counter msg) pl r an m'"
    then have "x = (hex tik, session_key sc)" "sessions m' x = Some \<lparr>ss_prev = pl, ss_counter = msg_counter msg\<rparr>"
      using assms(2) by (auto simp: step_done_def split: if_splits)
    with a w show ?thesis by blast
  qed
next
  case (transfer i tik grant sig res)
  have x: "fst x = hex tik" using assms(2) transfer_steps(4) [OF transfer(1)] by metis
  from transfer(1) show ?thesis
  proof (cases rule: accept_transfer_cases)
    case (raised e)
    with assms(2) show ?thesis by simp
  next
    case (refused r why tag)
    obtain o2 where "record_decision i (emit_event m [ES ''transfer-rejected'', ES (take 16 (hex tik)), ES tag])
        ''transfer'' tik False why None = (o2, m')"
      using refused(3) by (cases "record_decision i (emit_event m [ES ''transfer-rejected'', ES (take 16 (hex tik)), ES tag])
        ''transfer'' tik False why None") auto
    from record_decision_sel(6) [OF this] assms(2) show ?thesis by simp
  next
    case (moved r d t ti w o' nonce m1)
    obtain o2 where "record_decision i (transfer_events m1 (hex tik) r t o') ''transfer'' tik True
        ''transferred to the authorised instance'' (Some ti) = (o2, m')"
      using moved(6) by (cases "record_decision i (transfer_events m1 (hex tik) r t o') ''transfer'' tik True
        ''transferred to the authorised instance'' (Some ti)") auto
    from record_decision_sel(6) [OF this] x have "sessions m' x = None" by simp
    with moved(5) transfer(1) x show ?thesis by blast
  qed
qed (use assms(2) enroll_steps(4) revoke_steps(4) challenge_sel(7) observe_sel(6) in metis)+

lemma mstep_sessions_ok: "mstep m m' \<Longrightarrow> sessions_ok m \<Longrightarrow> sessions_ok m'"
proof -
  assume step: "mstep m m'" and ok: "sessions_ok m"
  show ?thesis
    unfolding sessions_ok_def
  proof (intro allI impI)
    fix x s
    assume s: "sessions m' x = Some s"
    show "length (ss_prev s) = 32 \<and> 0 \<le> ss_counter s \<and> ss_counter s < 2 ^ 64"
    proof (cases "sessions m' x = sessions m x")
      case True
      with s have "sessions m x = Some s" by simp
      with ok show ?thesis unfolding sessions_ok_def by blast
    next
      case False
      from mstep_sessions [OF step this] s show ?thesis
        by (auto dest: admits_link)
    qed
  qed
qed

lemma reach_sessions_ok: "reach m m' \<Longrightarrow> sessions_ok m \<Longrightarrow> sessions_ok m'"
  by (induction rule: reach_induct) (auto intro: mstep_sessions_ok)

lemma expected_base_32: "sessions_ok m \<Longrightarrow> length (expected_base m tik sc) = 32"
  by (auto simp: expected_base_def sessions_ok_def len_simps split: option.splits)

section \<open>Replay and relay\<close>

lemma step_replayed:
  assumes "present i m tik sc ex msg head bundle = (Inr (True, why), m')" "msg_counter msg' = msg_counter msg"
  shows "present i' m' tik sc ex' msg' head' bundle' \<noteq> (Inr (True, why'), m'')"
proof
  assume a: "present i' m' tik sc ex' msg' head' bundle' = (Inr (True, why'), m'')"
  from assms(1) obtain r pl an where "step_done m tik sc (msg_counter msg) pl r an m'" by (rule present_True)
  then have s: "sessions m' (hex tik, session_key sc) = Some \<lparr>ss_prev = pl, ss_counter = msg_counter msg\<rparr>"
    by (simp add: step_done_def)
  from a obtain r' pl' an' where "admits m' tik sc ex' msg' head' bundle' r' pl' an'" by (rule present_True)
  from admits_counter [OF this] s assms(2) show False by simp
qed

text \<open>A message whose link was made from another exporter, base or counter is accepted only on a collision.\<close>

lemma foreign_link:
  assumes "present i m tik sc ex msg head bundle = (Inr (True, why), m')" "sessions_ok m"
    and "msg_post_link msg = hex (post_value ex' base' c')" "length base' = 32" "0 \<le> c'" "c' < 2 ^ 64"
    and "length ex' = length ex" "length ex \<le> 128"
  shows "(ex' = ex \<and> base' = expected_base m tik sc \<and> c' = msg_counter msg)
    \<or> link_collision (ex', base', c') (ex, expected_base m tik sc, msg_counter msg)"
proof -
  from assms(1) obtain r pl an where a: "admits m tik sc ex msg head bundle r pl an" by (rule present_True)
  then have "pl = post_value ex' base' c'" using assms(3) by (simp add: admits_def)
  with admits_link [OF a] have "post_value ex' base' c' = post_value ex (expected_base m tik sc) (msg_counter msg)" by simp
  then show ?thesis
    using assms(4-8) admits_link [OF a] expected_base_32 [OF assms(2)]
    by (intro post_value_eqD) simp_all
qed

lemma attest_Inr:
  assumes "attest report a sc ex head = (Inr msg, a')"
  obtains il where "intra_link sc (at_tik_pub a) = Inr il"
    "post_link ex (case at_prev a of Some p \<Rightarrow> p | None \<Rightarrow> il) (at_counter a) = Inr (the (at_prev a'))"
    "msg_post_link msg = hex (the (at_prev a'))" "msg_counter msg = at_counter a"
    "report (report_data_for (the (at_prev a')) head) = Inr (msg_evidence msg)"
  using assms by (auto simp: attest_def Let_def py_bind_Inr_iff split: sum.splits prod.splits)

text \<open>The base an attester continues from.\<close>

definition attester_base :: "attester \<Rightarrow> bytes \<Rightarrow> bytes" where
  "attester_base a sc = (case at_prev a of Some p \<Rightarrow> p | None \<Rightarrow> intra_value sc (at_tik_pub a))"

lemma relay_collides:
  assumes "attest report a sc ex head = (Inr msg, a')" "case at_prev a of None \<Rightarrow> True | Some p \<Rightarrow> length p = 32"
    and "present i m tik sc' ex' msg head' bundle = (Inr (True, why), m')" "sessions_ok m"
    and "length ex = length ex'" "length ex' \<le> 128"
  shows "(ex = ex' \<and> attester_base a sc = expected_base m tik sc')
    \<or> link_collision (ex, attester_base a sc, at_counter a) (ex', expected_base m tik sc', at_counter a)"
proof -
  obtain il where il: "intra_link sc (at_tik_pub a) = Inr il"
    and pl: "post_link ex (case at_prev a of Some p \<Rightarrow> p | None \<Rightarrow> il) (at_counter a) = Inr (the (at_prev a'))"
    and msg: "msg_post_link msg = hex (the (at_prev a'))" "msg_counter msg = at_counter a"
    by (rule attest_Inr [OF assms(1)])
  have "(case at_prev a of Some p \<Rightarrow> p | None \<Rightarrow> il) = attester_base a sc"
    using il by (auto simp: attester_base_def intra_link_Inr split: option.splits)
  with pl have "the (at_prev a') = post_value ex (attester_base a sc) (at_counter a)"
    "0 \<le> at_counter a" "at_counter a < 2 ^ 64" by (simp_all add: post_link_Inr)
  moreover have "length (attester_base a sc) = 32"
    using assms(2) by (auto simp: attester_base_def len_simps split: option.splits)
  ultimately show ?thesis
    using foreign_link [OF assms(3,4), of ex "attester_base a sc" "at_counter a"] msg assms(5,6) by auto
qed

section \<open>An honest chain\<close>

text \<open>
  \<open>n\<close> rounds over one connection: the attester makes a message, over the mandate's head when
  \<open>heads\<close> is set, and the mandate appraises it. \<open>None\<close> as soon as a step raises or is refused.
\<close>

fun chain_run ::
  "(bytes \<Rightarrow> json py) \<Rightarrow> (nat \<Rightarrow> inputs) \<Rightarrow> bool \<Rightarrow> bytes \<Rightarrow> bytes \<Rightarrow> nat \<Rightarrow> attester \<times> mandate \<Rightarrow> (attester \<times> mandate) option" where
  "chain_run report ins heads sc ex 0 s = Some s"
| "chain_run report ins heads sc ex (Suc n) s = (case chain_run report ins heads sc ex n s of
     None \<Rightarrow> None
   | Some (a, m) \<Rightarrow>
       (let head = (if heads then Some (head_for_attestation m) else None) in
        case attest report a sc ex head of
          (Inl x, a') \<Rightarrow> None
        | (Inr msg, a') \<Rightarrow> (case present (ins n) m (at_tik_pub a) sc ex msg head None of
            (Inr (True, why), m') \<Rightarrow> Some (a', m')
          | _ \<Rightarrow> None)))"

definition faithful_tee :: "config \<Rightarrow> (bytes \<Rightarrow> json py) \<Rightarrow> anchor \<Rightarrow> bool" where
  "faithful_tee c report an \<longleftrightarrow> (\<forall>rd. \<exists>ev. report rd = Inr ev \<and> verify_report c ev rd = Inr (True, Some an))"

text \<open>The state of the mandate after \<open>n\<close> accepted steps of the session.\<close>

definition chain_state :: "mandate \<Rightarrow> bytes \<Rightarrow> bytes \<Rightarrow> bytes \<Rightarrow> anchor \<Rightarrow> nat \<Rightarrow> bool" where
  "chain_state m tik sc ex an n \<longleftrightarrow>
     (\<exists>r. mandate_rec m (hex tik) = Inr r \<and> wf_rec r \<and> \<not> revoked r \<and> ledger_admits (cfg m) r (Some an))
     \<and> sessions m (hex tik, session_key sc) =
        (if n = 0 then None else Some \<lparr>ss_prev = link_at sc tik ex (n - 1), ss_counter = int n - 1\<rparr>)
     \<and> log_inv m"

lemma ledger_admits_step:
  "ledger_admits c r (Some an) \<Longrightarrow> ledger_admits c (map_nonces f (step_rec r (Some an))) (Some an)"
  by (auto simp: ledger_admits_def step_rec_def Let_def agrees_def opt_fromhex_def)

text \<open>The mandate's side of a step: any message that carries the next link and Evidence bound to it.\<close>

lemma chain_present:
  assumes st: "chain_state m tik sc ex an n" and len: "length sc < 256" "int n < 2 ^ 64"
    and head: "head = None \<or> head = Some (head_for_attestation m)"
    and ev: "verify_report (cfg m) (msg_evidence msg) (report_data_for (link_at sc tik ex n) head) = Inr (True, Some an)"
    and msg: "msg_counter msg = int n" "msg_post_link msg = hex (link_at sc tik ex n)"
  shows "\<exists>m'. present i m tik sc ex msg head None = (Inr (True, ''accepted; continuity intact''), m')
    \<and> chain_state m' tik sc ex an (Suc n) \<and> cfg m' = cfg m"
proof -
  obtain r where r: "mandate_rec m (hex tik) = Inr r" "wf_rec r" "\<not> revoked r" "ledger_admits (cfg m) r (Some an)"
    and s: "sessions m (hex tik, session_key sc) =
        (if n = 0 then None else Some \<lparr>ss_prev = link_at sc tik ex (n - 1), ss_counter = int n - 1\<rparr>)"
    and inv: "log_inv m"
    using st by (auto simp: chain_state_def)
  have head: "head_check m (hex tik) head None = Inr None"
    using head knows_head_iff [OF inv, of "root (merkle m)"]
    by (auto simp: head_check_def head_for_attestation_def log_head_def intro: exI [of _ "length (merkle m)"])
  let ?base = "if n = 0 then intra_value sc tik else link_at sc tik ex (n - 1)"
  have "chain_base m tik sc (int n) ?base" using s len(1) by (simp add: chain_base_def intra_link_Inr)
  moreover have "post_link ex ?base (int n) = Inr (link_at sc tik ex n)"
    using len(2) by (cases n) (simp_all add: post_link_Inr len_simps)
  ultimately have "admits m tik sc ex msg head None r (link_at sc tik ex n) (Some an)"
    using r ev head msg by (auto simp: admits_def)
  then obtain m' where m': "present i m tik sc ex msg head None = (Inr (True, ''accepted; continuity intact''), m')"
    and d: "step_done m tik sc (msg_counter msg) (link_at sc tik ex n) r (Some an) m'"
    by (rule present_admits)
  have rec: "mandate_rec m' (hex tik) = Inr (map_nonces (store_norm (mstore m)) (step_rec r (Some an)))"
    using step_done_rec [OF d r(1,2)] by simp
  have "wf_rec (step_rec r (Some an))" "\<not> revoked (step_rec r (Some an))" using r by (simp_all add: step_rec_def wf_rec_def)
  then have "chain_state m' tik sc ex an (Suc n)"
    using rec d r(4) msg log_inv_step [OF present_steps(1) [OF m'] inv] wf_norm ledger_admits_step
    by (simp add: chain_state_def step_done_def)
  with m' d show ?thesis by (auto simp: step_done_def)
qed

lemma chain_step:
  assumes st: "chain_state m tik sc ex an n" and tee: "faithful_tee (cfg m) report an"
    and len: "length sc < 256" "int n < 2 ^ 64"
  shows "\<exists>msg m'. attest report (attester_at sc tik ex n) sc ex (if heads then Some (head_for_attestation m) else None)
      = (Inr msg, attester_at sc tik ex (Suc n))
    \<and> present i m tik sc ex msg (if heads then Some (head_for_attestation m) else None) None
      = (Inr (True, ''accepted; continuity intact''), m')
    \<and> chain_state m' tik sc ex an (Suc n) \<and> cfg m' = cfg m"
proof -
  let ?h = "if heads then Some (head_for_attestation m) else None"
  obtain ev where ev: "report (report_data_for (link_at sc tik ex n) ?h) = Inr ev"
    "verify_report (cfg m) ev (report_data_for (link_at sc tik ex n) ?h) = Inr (True, Some an)"
    using tee unfolding faithful_tee_def by blast
  let ?msg = "\<lparr>msg_counter = int n, msg_intra_ok_base = (n = 0), msg_post_link = hex (link_at sc tik ex n),
       msg_evidence = ev, msg_head = map_option hex ?h\<rparr>"
  have "attest report (attester_at sc tik ex n) sc ex ?h = (Inr ?msg, attester_at sc tik ex (Suc n))"
    by (rule attest_link [where report = report, OF len]) (rule ev(1))
  moreover have "\<exists>m'. present i m tik sc ex ?msg ?h None = (Inr (True, ''accepted; continuity intact''), m')
      \<and> chain_state m' tik sc ex an (Suc n) \<and> cfg m' = cfg m"
    using ev(2) by (intro chain_present [OF st len]) simp_all
  ultimately show ?thesis by blast
qed

lemma chain_run_state:
  assumes "chain_state m tik sc ex an 0" "faithful_tee (cfg m) report an" "length sc < 256" "n \<le> 2 ^ 64"
  shows "\<exists>m'. chain_run report ins heads sc ex n (attester_new tik, m) = Some (attester_at sc tik ex n, m')
    \<and> chain_state m' tik sc ex an n \<and> cfg m' = cfg m"
  using assms(4)
proof (induction n)
  case 0
  then show ?case using assms(1) by (simp add: attester_new_def attester_at_def)
next
  case (Suc n)
  then obtain m1 where m1: "chain_run report ins heads sc ex n (attester_new tik, m) = Some (attester_at sc tik ex n, m1)"
    "chain_state m1 tik sc ex an n" "cfg m1 = cfg m" by auto
  have "int n < 2 ^ 64" using Suc.prems by simp
  with chain_step [OF m1(2) _ assms(3), of report heads "ins n"] assms(2) m1(3) obtain msg m2 where
    "attest report (attester_at sc tik ex n) sc ex (if heads then Some (head_for_attestation m1) else None)
      = (Inr msg, attester_at sc tik ex (Suc n))"
    "present (ins n) m1 tik sc ex msg (if heads then Some (head_for_attestation m1) else None) None
      = (Inr (True, ''accepted; continuity intact''), m2)"
    "chain_state m2 tik sc ex an (Suc n)" "cfg m2 = cfg m" by auto
  with m1(1) show ?case by (simp add: attester_at_def [of sc tik ex n] Let_def)
qed

end
