(* ===== verification/Mandate_Authority.thy ===== *)
theory Mandate_Authority
  imports Mandate_Steps Mandate_Accept
begin

text \<open>
  Who may speak for an identity: the exact conditions and effects of an enrolment and of a
  transfer, the refusal of an impostor, the spending of nonces and grants, and how long a spent
  grant is remembered.
\<close>

section \<open>An impostor\<close>

lemma opt_fromhex_hex: "b \<noteq> [] \<Longrightarrow> opt_fromhex (Some (hex b)) = Inr (Some b)"
  by (simp add: opt_fromhex_def)

lemma last_last_n: "0 < n \<Longrightarrow> last (last_n n (xs @ [x])) = x"
  by (simp add: last_n_snoc)

definition sees :: "mandate \<Rightarrow> bytes \<Rightarrow> message \<Rightarrow> bytes option \<Rightarrow> bundle_entry list option \<Rightarrow> anchor \<Rightarrow> bool" where
  "sees m tik msg head bundle an \<longleftrightarrow> (\<exists>pl. fromhex (msg_post_link msg) = Inr pl
     \<and> head_check m (hex tik) head bundle = Inr None
     \<and> verify_report (cfg m) (msg_evidence msg) (report_data_for pl head) = Inr (True, Some an))"

lemma impostor_step:
  assumes "mandate_rec m (hex tik) = Inr r" "wf_rec r" "\<not> revoked r"
    and "enrolled_instance r = Some (hex a)" "a \<noteq> []"
    and "sees m tik msg head bundle an" "anchor_instance an \<noteq> a"
  shows "\<exists>m'. present i m tik sc ex msg head bundle
      = (Inr (False, ''rejected: key presented from an instance it was not enrolled on''), m')
    \<and> mandate_rec m' (hex tik) = Inr (map_nonces (store_norm (mstore m))
        (dispute_rec (t_dispute i) (witness_rec (cfg m) (t_witness i) r (anchor_instance an) (anchor_place an))
          ''evidence from a non-enrolled instance''))
    \<and> sessions m' = sessions m"
proof -
  let ?r1 = "dispute_rec (t_dispute i) (witness_rec (cfg m) (t_witness i) r (anchor_instance an) (anchor_place an))
    ''evidence from a non-enrolled instance''"
  let ?ev = "[ES ''rejected-impostor'', ES (take 16 (hex tik)), ES (take 12 (hex a)),
    ES (take 12 (hex (anchor_instance an))), EI (msg_counter msg)]"
  let ?why = "''rejected: key presented from an instance it was not enrolled on''"
  obtain o1 m1 where s: "save_rec m (hex tik) ?r1 = (o1, m1)" by fastforce
  then obtain u where "o1 = Inr u" using save_rec_Inl by (cases o1) auto
  note s = s [unfolded this]
  have "appraise i m tik sc ex msg head bundle = (Inr (False, ?why, Some (anchor_instance an)), emit_event m1 ?ev)"
    using assms(1,3,4,6,7) opt_fromhex_hex [OF assms(5)] s
    by (auto simp: sees_def appraise_def Let_def appraise_gate_def refuse_saved_def refuse_def)
  then have p: "present i m tik sc ex msg head bundle = (Inr (False, ?why),
      snd (record_decision i (emit_event m1 ?ev) ''present'' tik False ?why (Some (anchor_instance an))))"
    by (simp add: present_eq)
  obtain o2 m2 where rd: "record_decision i (emit_event m1 ?ev) ''present'' tik False ?why (Some (anchor_instance an)) = (o2, m2)"
    by fastforce
  have wf: "wf_rec ?r1" using assms(2) by (simp add: dispute_rec_def witness_rec_def wf_rec_def Let_def)
  have "mandate_rec m2 (hex tik) = Inr (map_nonces (store_norm (mstore m)) ?r1)"
    using record_decision_sel(10) [OF rd] rec_put_same [OF save_rec_Inr(1) [OF s] wf] by simp
  moreover have "sessions m2 = sessions m" using record_decision_sel(6) [OF rd] save_rec_sel(5) [OF s] by simp
  ultimately show ?thesis using p rd by simp
qed

lemma impostor_refused:
  assumes "mandate_rec m (hex tik) = Inr r" "wf_rec r" "\<not> revoked r"
    and "enrolled_instance r = Some (hex a)" "a \<noteq> []"
    and "sees m tik msg head bundle an" "anchor_instance an \<noteq> a"
  shows "\<exists>m' r'. present i m tik sc ex msg head bundle
      = (Inr (False, ''rejected: key presented from an instance it was not enrolled on''), m')
    \<and> mandate_rec m' (hex tik) = Inr r' \<and> enrolled_instance r' = Some (hex a) \<and> \<not> revoked r'
    \<and> observed_instance r' = observed_instance r
    \<and> dsp_why (last (contention r')) = ''evidence from a non-enrolled instance''
    \<and> w_instance (last (witnessed r')) = hex (anchor_instance an) \<and> sessions m' = sessions m"
  using impostor_step [OF assms, of i sc ex] assms(3,4)
  by (auto simp: dispute_rec_def witness_rec_def Let_def last_last_n)

section \<open>Enrolment\<close>

definition enroll_admits :: "inputs \<Rightarrow> mandate \<Rightarrow> enrolment \<Rightarrow> ledger_rec \<Rightarrow> anchor \<Rightarrow> bool" where
  "enroll_admits i m e r a \<longleftrightarrow>
     (\<exists>expiry. challenges m (en_nonce e) = Some expiry \<and> t_check i < expiry)
     \<and> enroll_permitted i m e = Inr None
     \<and> mandate_rec m (hex (en_tik_pub e)) = Inr r \<and> enrolled_instance r = None
     \<and> load_csr (cf_crypto (cfg m)) (en_csr e) = Inr (True, en_tik_pub e)
     \<and> verify_report (cfg m) (en_evidence e) (sha512 (en_nonce e @ en_csr e)) = Inr (True, Some a)
     \<and> (require_place (cfg m) \<longrightarrow> anchor_place a \<noteq> None)"

lemma csr_public_key_Inr: "csr_public_key_der C d = Inr k \<longleftrightarrow> load_csr C d = Inr (True, k)"
  by (auto simp: csr_public_key_der_def py_bind_Inr_iff split: if_splits)

lemma enroll_reject_not: "enroll_reject m k tag why \<noteq> (Inr (True, w), m')"
  by (simp add: enroll_reject_def)

definition enroll_done :: "mandate \<Rightarrow> enrolment \<Rightarrow> ledger_rec \<Rightarrow> anchor \<Rightarrow> mandate \<Rightarrow> bool" where
  "enroll_done m e r a m' \<longleftrightarrow> challenges m' = (challenges m)(en_nonce e := None)
     \<and> store_put (mstore m) (hex (en_tik_pub e)) (json_of_rec (enrolled_rec e r a)) = Inr (mstore m')"

lemma enroll_write_ok: "\<exists>m'. enroll_write m e r a = (Inr (True, ''enrolled''), m') \<and> enroll_done m e r a m'"
proof -
  let ?m1 = "m\<lparr>challenges := (challenges m)(en_nonce e := None)\<rparr>"
  obtain o1 m2 where s: "save_rec ?m1 (hex (en_tik_pub e)) (enrolled_rec e r a) = (o1, m2)" by fastforce
  then obtain u where "o1 = Inr u" using save_rec_Inl by (cases o1) auto
  with s save_rec_sel(6) [OF s] save_rec_Inr(1) show ?thesis
    by (fastforce simp: enroll_write_def Let_def enroll_done_def)
qed

lemma enroll_bind_True:
  "enroll_bind m e r = (Inr (True, why), m') \<longleftrightarrow>
   (\<exists>a. enrolled_instance r = None \<and> load_csr (cf_crypto (cfg m)) (en_csr e) = Inr (True, en_tik_pub e)
     \<and> verify_report (cfg m) (en_evidence e) (sha512 (en_nonce e @ en_csr e)) = Inr (True, Some a)
     \<and> (require_place (cfg m) \<longrightarrow> anchor_place a \<noteq> None) \<and> enroll_write m e r a = (Inr (True, why), m'))"
proof (cases "enrolled_instance r = None \<and> csr_public_key_der (cf_crypto (cfg m)) (en_csr e) = Inr (en_tik_pub e)")
  case True
  then have "load_csr (cf_crypto (cfg m)) (en_csr e) = Inr (True, en_tik_pub e)" by (simp add: csr_public_key_Inr)
  with True show ?thesis
    by (auto simp: enroll_bind_def Let_def enroll_reject_not split: sum.splits prod.splits if_splits option.splits)
next
  case False
  then have "enroll_bind m e r \<noteq> (Inr (True, why), m')"
    by (auto simp: enroll_bind_def Let_def enroll_reject_not split: sum.splits)
  with False show ?thesis by (auto simp: csr_public_key_Inr)
qed

lemma enroll_decide_True:
  "enroll_decide i m e = (Inr (True, why), m') \<longleftrightarrow>
   (\<exists>r a. enroll_admits i m e r a \<and> enroll_write m e r a = (Inr (True, why), m'))"
  unfolding enroll_admits_def enroll_decide_def Let_def
  by (auto simp: enroll_reject_not enroll_bind_True split: option.splits sum.splits if_splits prod.splits)

lemma enroll_True:
  assumes "enroll i m e = (Inr (True, why), m')"
  obtains r a where "enroll_admits i m e r a" "enroll_done m e r a m'" "why = ''enrolled''"
proof -
  obtain m1 where d: "enroll_decide i m e = (Inr (True, why), m1)"
    and m': "m' = m1 \<or> (\<exists>inst. m' = snd (record_decision i m1 ''enroll'' (en_tik_pub e) True why inst))"
    using assms unfolding enroll_eq by (auto split: prod.splits sum.splits if_splits) blast+
  then obtain r a where ra: "enroll_admits i m e r a" "enroll_write m e r a = (Inr (True, why), m1)"
    unfolding enroll_decide_True by blast
  with enroll_write_ok [of m e r a] have w: "why = ''enrolled''" "enroll_done m e r a m1" by auto
  have "mstore m' = mstore m1 \<and> challenges m' = challenges m1"
    using m'
  proof (elim disjE exE)
    fix inst
    assume "m' = snd (record_decision i m1 ''enroll'' (en_tik_pub e) True why inst)"
    then obtain o2 where "record_decision i m1 ''enroll'' (en_tik_pub e) True why inst = (o2, m')"
      by (cases "record_decision i m1 ''enroll'' (en_tik_pub e) True why inst") auto
    from record_decision_sel [OF this] show ?thesis by simp
  qed simp
  with w(2) have "enroll_done m e r a m'" unfolding enroll_done_def by metis
  with ra w show thesis by (intro that)
qed

lemma enroll_done_rec:
  assumes "enroll_done m e r a m'" "wf_rec r"
  shows "mandate_rec m' (hex (en_tik_pub e)) = Inr (map_nonces (store_norm (mstore m)) (enrolled_rec e r a))"
  using assms by (intro rec_put_same) (simp_all add: enroll_done_def)

lemma enroll_accepts:
  assumes "enroll_admits i m e r a" "wf_rec r"
  shows "\<exists>m'. enroll i m e = (Inr (True, ''enrolled''), m') \<and> enroll_done m e r a m'"
proof -
  obtain m1 where w: "enroll_write m e r a = (Inr (True, ''enrolled''), m1)" "enroll_done m e r a m1"
    using enroll_write_ok by blast
  then have d: "enroll_decide i m e = (Inr (True, ''enrolled''), m1)"
    using assms(1) enroll_decide_True by blast
  obtain inst where "py_bind (mandate_rec m1 (hex (en_tik_pub e))) (\<lambda>r. opt_fromhex (enrolled_instance r)) = Inr inst"
    using enroll_done_rec [OF w(2) assms(2)] by (cases "anchor_instance a = []") (auto simp: opt_fromhex_def)
  then have "enroll i m e = (Inr (True, ''enrolled''), snd (record_decision i m1 ''enroll'' (en_tik_pub e) True ''enrolled'' inst))"
    using d by (simp add: enroll_eq)
  moreover obtain o2 m2 where rd: "record_decision i m1 ''enroll'' (en_tik_pub e) True ''enrolled'' inst = (o2, m2)" by fastforce
  ultimately show ?thesis
    using record_decision_sel [OF rd] w(2) by (auto simp: enroll_done_def)
qed

text \<open>A nonce enrols once, and only while it lives.\<close>

lemma enroll_needs_nonce:
  assumes "enroll i m e = (Inr (True, why), m')"
  shows "\<exists>x. challenges m (en_nonce e) = Some x \<and> t_check i < x" "challenges m' (en_nonce e) = None"
  using assms by (auto elim!: enroll_True simp: enroll_admits_def enroll_done_def)

lemma challenge_nonce:
  assumes "challenge now n m = (c, m')"
  shows "challenges m' n = Some (now + challenge_ttl (cfg m))"
  using assms by (auto simp: challenge_def Let_def)

section \<open>Transfer\<close>

lemma accept_transfer_True:
  assumes "accept_transfer i m tik grant sig = (Inr (True, why), m')" "wf_json grant"
    and "mandate_rec m (hex tik) = Inr r" "wf_rec r"
  obtains d t ti w o' nonce where "transfer_admitted (cfg m) (int_of_time (t_check i)) (hex tik) r grant sig d t ti w o'"
    "dindex d ''nonce'' = Inr nonce" "wf_json nonce"
    "mandate_rec m' (hex tik) = Inr (map_nonces (store_norm (mstore m)) (moved_rec r (int_of_time (t_check i)) t w nonce o'))"
    "\<And>x. fst x = hex tik \<Longrightarrow> sessions m' x = None" "cfg m' = cfg m"
  using assms(1)
proof (cases rule: accept_transfer_cases)
  case (moved r0 d t ti w o' nonce m1)
  have r0: "r0 = r" using moved(1) assms(3) by simp
  have nonce: "wf_json nonce"
    using moved(2) wf_dget [of d "''nonce''"] dindex_dget [OF moved(3)] assms(2) by (auto simp: transfer_admitted_def)
  obtain o2 where rd: "record_decision i (transfer_events m1 (hex tik) r0 t o') ''transfer'' tik True
      ''transferred to the authorised instance'' (Some ti) = (o2, m')"
    using moved(6) by (cases "record_decision i (transfer_events m1 (hex tik) r0 t o') ''transfer'' tik True
      ''transferred to the authorised instance'' (Some ti)") auto
  have "mandate_rec m' (hex tik) = mandate_rec m1 (hex tik)"
    using record_decision_sel(10) [OF rd] mandate_rec_cong [of "transfer_events m1 (hex tik) r0 t o'" m1] by simp
  also have "\<dots> = Inr (map_nonces (store_norm (mstore m)) (moved_rec r (int_of_time (t_check i)) t w nonce o'))"
    using moved_rec_wf [OF assms(4) nonce] r0 by (intro rec_put_same) (use save_rec_Inr(1) [OF moved(4)] in simp_all)
  finally show thesis
    using that moved(2,3) nonce r0 record_decision_sel(2,6) [OF rd] save_rec_sel(1) [OF moved(4)] by auto
qed simp_all

lemma transfer_accepts:
  assumes "mandate_rec m (hex tik) = Inr r" "dindex d ''nonce'' = Inr nonce"
    and "transfer_admitted (cfg m) (int_of_time (t_check i)) (hex tik) r grant sig d t ti w o'"
  shows "\<exists>m'. accept_transfer i m tik grant sig = (Inr (True, ''transferred to the authorised instance''), m')"
proof -
  obtain m1 where "transfer_apply i m tik r (int_of_time (t_check i)) d t ti w o' = (Inr (True, ''transferred to the authorised instance''), m1)"
    by (rule transfer_apply_ok [OF assms(2)]) auto
  with assms(1,3) show ?thesis
    by (simp add: accept_transfer_def Let_def transfer_check_Move [symmetric])
qed

section \<open>How long a grant is remembered\<close>

lemma py_in_last_n: "py_in x (last_n n (xs @ [y])) \<longleftrightarrow> (0 < n \<and> py_eq x y) \<or> (0 < n \<and> py_in x (last_n (n - 1) xs))"
  by (cases n) (auto simp: py_in_def last_n_snoc, simp_all add: last_n_def)

lemma moved_remembers: "py_in x (consumed_grants (moved_rec r now t w nonce o')) \<longleftrightarrow>
    py_eq x nonce \<or> py_in x (last_n 255 (consumed_grants r))"
  by (simp add: py_in_last_n)

text \<open>While the list has room, nothing in it is forgotten.\<close>

definition remembers :: "ledger_rec \<Rightarrow> ledger_rec \<Rightarrow> bool" where
  "remembers r r' \<longleftrightarrow> length (consumed_grants r) \<le> length (consumed_grants r')
     \<and> (length (consumed_grants r') < 256 \<longrightarrow> (\<forall>x. py_in x (consumed_grants r) \<longrightarrow> py_in x (consumed_grants r')))"

lemma remembers_refl: "remembers r r"
  by (simp add: remembers_def)

lemma remembers_trans: "remembers r r' \<Longrightarrow> remembers r' r'' \<Longrightarrow> remembers r r''"
  by (auto simp: remembers_def)

lemma rec_step_remembers:
  assumes "rec_step r r1" "wf_rec r" "rec_bounded r"
  shows "remembers r (map_nonces (store_norm st) r1)"
proof -
  have wf: "list_all wf_json (consumed_grants r1)"
    using rec_step_keeps [OF assms] by (simp add: wf_rec_def)
  from assms(1) consider "consumed_grants r1 = consumed_grants r"
    | now t w nonce o' where "r1 = moved_rec r now t w nonce o'"
    unfolding rec_step_def by (auto simp: soft_sel enrolled_by_def revoked_by_def moved_by_def)
  then show ?thesis
  proof cases
    case 1
    with wf show ?thesis by (simp add: remembers_def py_in_norm)
  next
    case 2
    then have c: "consumed_grants r1 = last_n 256 (consumed_grants r @ [nonce])" by simp
    have "length (consumed_grants r) \<le> length (consumed_grants r1)"
      using assms(3) by (auto simp: c len_simps rec_bounded_def min_def)
    moreover have "py_in x (consumed_grants r1)" if "length (consumed_grants r1) < 256" "py_in x (consumed_grants r)" for x
      using that by (simp add: c len_simps last_n_all) (auto simp: py_in_def)
    ultimately show ?thesis using wf by (simp add: remembers_def py_in_norm)
  qed
qed

lemma reach_remembers:
  assumes "reach m m'" "ledger_ok m" "mandate_rec m (hex b) = Inr r"
  shows "\<exists>r'. mandate_rec m' (hex b) = Inr r' \<and> remembers r r'"
  using assms(1)
proof (induction rule: reach_induct)
  case refl
  then show ?case using assms(3) remembers_refl by auto
next
  case (step m1 m2)
  then obtain r1 where r1: "mandate_rec m1 (hex b) = Inr r1" "remembers r r1" by blast
  obtain w where w: "mandate_rec m1 (hex b) = Inr w" "wf_rec w" "rec_bounded w"
    using reach_ledger_ok [OF step(1) assms(2)] by (rule ledger_okE)
  with r1 have wf: "wf_rec r1" "rec_bounded r1" by simp_all
  with step(2) r1(1) obtain r2 where "mandate_rec m2 (hex b) = Inr r2"
    "r2 = r1 \<or> (\<exists>q. rec_step r1 q \<and> r2 = map_nonces (store_norm (mstore m1)) q)"
    by (rule mstep_rec) blast
  then show ?case using r1(2) rec_step_remembers [OF _ wf] remembers_trans by blast
qed

text \<open>A grant that was used is refused as long as its nonce is on record.\<close>

lemma used_grant_refused:
  assumes "mandate_rec m (hex tik) = Inr r" "py_in (dget d ''nonce'') (consumed_grants r)"
  shows "accept_transfer i m tik (JObj d) sig \<noteq> (Inr (True, why), m')"
proof
  assume "accept_transfer i m tik (JObj d) sig = (Inr (True, why), m')"
  then show False
    using assms by (cases rule: accept_transfer_cases) (auto simp: transfer_admitted_def)
qed

lemma transfer_spends:
  assumes "accept_transfer i m tik (JObj d) sig = (Inr (True, why), m')" "wf_json (JObj d)"
    and "mandate_rec m (hex tik) = Inr r" "wf_rec r"
  shows "\<exists>r'. mandate_rec m' (hex tik) = Inr r' \<and> py_in (dget d ''nonce'') (consumed_grants r')"
  using assms
proof (rule accept_transfer_True)
  fix d' t ti w o' nonce
  assume a: "transfer_admitted (cfg m) (int_of_time (t_check i)) (hex tik) r (JObj d) sig d' t ti w o'"
    "dindex d' ''nonce'' = Inr nonce" "wf_json nonce"
    and r': "mandate_rec m' (hex tik) = Inr (map_nonces (store_norm (mstore m)) (moved_rec r (int_of_time (t_check i)) t w nonce o'))"
  let ?r = "moved_rec r (int_of_time (t_check i)) t w nonce o'"
  have "dget d ''nonce'' = nonce" using a(1) dindex_dget [OF a(2)] by (auto simp: transfer_admitted_def)
  moreover have "list_all wf_json (consumed_grants ?r)" using moved_rec_wf [OF assms(4) a(3)] by (simp only: wf_rec_def)
  ultimately show ?thesis using r' py_in_norm [of "consumed_grants ?r"] by (simp add: py_in_last_n)
qed

text \<open>The list keeps 256 nonces: one grant, then 256 others, and the first is forgotten.\<close>

fun moves :: "ledger_rec \<Rightarrow> int \<Rightarrow> string \<Rightarrow> sighting \<Rightarrow> bool \<Rightarrow> json list \<Rightarrow> ledger_rec" where
  "moves r now t w o' [] = r"
| "moves r now t w o' (n # ns) = moves (moved_rec r now t w n o') now t w o' ns"

lemma last_n_append: "last_n n (last_n n xs @ ys) = last_n n (xs @ ys)"
  by (cases "n \<le> length xs") (simp_all add: last_n_def add.commute)

lemma moves_consumed: "consumed_grants (moves r now t w o' ns) = (if ns = [] then consumed_grants r else last_n 256 (consumed_grants r @ ns))"
  by (induction ns arbitrary: r) (auto simp: last_n_append)

lemma moves_forget:
  assumes "length ns = 256" "\<not> py_in n ns"
  shows "\<not> py_in n (consumed_grants (moves r now t w o' (n # ns)))"
proof -
  have "last_n 256 (last_n 256 (consumed_grants r @ [n]) @ ns) = ns" using assms(1) by (simp add: last_n_def)
  moreover have "ns \<noteq> []" using assms(1) by auto
  ultimately show ?thesis using assms(2) by (simp add: moves_consumed)
qed

text \<open>
  A nonce enrols once: an accepted enrolment was made against a nonce this mandate had issued
  and that had not expired; the nonce is gone afterwards, and presenting it again is answered with
  a refusal.
\<close>

lemma enrolment_nonce_spent:
  assumes "enroll i m e = (Inr (True, why), m')" "en_nonce e' = en_nonce e"
  shows "(\<exists>x. challenges m (en_nonce e) = Some x \<and> t_check i < x) \<and> challenges m' (en_nonce e) = None
    \<and> (\<exists>m''. enroll i' m' e' = (Inr (False, ''nonce was not issued by this mandate (replay)''), m''))"
proof -
  note n = enroll_needs_nonce [OF assms(1)]
  have "enroll_decide i' m' e' = enroll_reject m' (hex (en_tik_pub e')) ''stale or unissued nonce''
      ''nonce was not issued by this mandate (replay)''"
    using n(2) assms(2) by (simp add: enroll_decide_def Let_def)
  with n show ?thesis by (auto simp: enroll_eq enroll_reject_def)
qed

end
