(* ===== verification/Samples.thy ===== *)
theory Samples
  imports Mandate_Protocol Mandate_Authority
begin

text \<open>
  Concrete configurations for the examples that accompany the properties: a mandate over the mock
  verifier, a mock TEE it trusts, an empty ledger, a ledger with one enrolled identity, a grant
  and an enrolment. Hashes stay symbolic.
\<close>

definition sample_tee :: mock_tee where
  "sample_tee = \<lparr>mock_chip = [1], mock_instance = [7], mock_key = [2], mock_pub = [2]\<rparr>"

definition sample_anchor :: anchor where
  "sample_anchor = \<lparr>anchor_instance = [7], anchor_place = Some [1]\<rparr>"

definition sample_report :: "bytes \<Rightarrow> json py" where
  "sample_report rd = Inr (mock_report sample_crypto sample_tee [] rd)"

definition sample_cfg :: config where
  "sample_cfg = \<lparr>cf_crypto = sample_crypto, verify_report = mock_verifier sample_crypto [hex [2]],
     signing_key = [3], ephemeral_signing_key = False, require_anchor = True, require_enrolment = False,
     require_place = False, challenge_ttl = 300, witness_ttl = 3600, enrolment_authority = None\<rparr>"

definition sample_inputs :: inputs where
  "sample_inputs = \<lparr>t_check = 10, t_auth = 10, t_witness = 10, t_dispute = 10, t_entry = 10, t_sth = 10, sth_rnd = []\<rparr>"

definition sample_mandate :: mandate where
  "sample_mandate = mandate_new sample_cfg (MemoryStore [])"

text \<open>A mandate whose ledger holds one record, for the identity \<open>[2]\<close>.\<close>

definition ledger_with :: "ledger_rec \<Rightarrow> mandate" where
  "ledger_with r = mandate_new sample_cfg (MemoryStore [(hex [2], json_of_rec r)])"

definition sample_rec :: ledger_rec where
  "sample_rec = blank\<lparr>enrolled_instance := Some (hex [7]), transfer_authority := Some (hex [4]),
     witnessed := [\<lparr>w_instance = hex [6], w_place = None, w_at = 0\<rparr>]\<rparr>"

definition sample_grant :: json where
  "sample_grant = grant_json [2] [6] (Some [7]) False 0 900 [1]"

definition sample_grant_sig :: bytes where
  "sample_grant_sig = [4] @ canonical_grant sample_grant"

definition sample_enrolment :: enrolment where
  "sample_enrolment = \<lparr>en_tik_pub = [2], en_evidence = mock_report sample_crypto sample_tee [] (sha512 ([8] @ [2])),
     en_nonce = [8], en_csr = [2], en_transfer_authority = Some [4], en_authorisation = None, en_authorisation_sig = None\<rparr>"

text \<open>The sample mandate after it issued the nonce of the sample enrolment.\<close>

definition challenged :: mandate where
  "challenged = snd (challenge 0 [8] sample_mandate)"

lemma cfg_samples [simp]: "cfg sample_mandate = sample_cfg" "cfg (ledger_with r) = sample_cfg" "cfg challenged = sample_cfg"
  by (simp_all add: sample_mandate_def ledger_with_def mandate_new_def challenged_def challenge_def Let_def)

lemma sample_cfg_sel [simp]:
  "cf_crypto sample_cfg = sample_crypto" "verify_report sample_cfg = mock_verifier sample_crypto [hex [2]]"
  "require_anchor sample_cfg" "\<not> require_enrolment sample_cfg" "\<not> require_place sample_cfg"
  "challenge_ttl sample_cfg = 300" "witness_ttl sample_cfg = 3600" "enrolment_authority sample_cfg = None"
  "signing_key sample_cfg = [3]"
  by (simp_all add: sample_cfg_def)

lemma sample_verifies:
  "mock_verifier sample_crypto [hex [2]] (mock_report sample_crypto sample_tee [] rd) rd = Inr (True, Some sample_anchor)"
proof -
  have "mock_pub sample_tee = public_key_of sample_crypto (mock_key sample_tee)" "hex (mock_pub sample_tee) \<in> set [hex [2]]"
    by (simp_all add: sample_tee_def sample_crypto_def)
  from mock_verifies_report [OF sample_sig_correct this(2,1), of "[]" rd]
  show ?thesis
    by (simp add: sample_anchor_def) (simp add: sample_tee_def any_set_def present_id_def)
qed

lemma sample_faithful: "faithful_tee sample_cfg sample_report sample_anchor"
  by (simp add: faithful_tee_def sample_report_def sample_verifies)

lemma sample_mandate_rec [simp]: "mandate_rec sample_mandate k = Inr blank"
  by (simp add: mandate_rec_def sample_mandate_def mandate_new_def memory_get_def)

lemma challenged_rec [simp]: "mandate_rec challenged k = Inr blank"
proof -
  have "mandate_rec challenged = mandate_rec sample_mandate"
    by (rule mandate_rec_cong) (simp add: challenged_def challenge_def Let_def)
  then show ?thesis by simp
qed

lemma ledger_with_rec [simp]: "mandate_rec (ledger_with r) (hex [2]) = Inr r"
  by (simp add: mandate_rec_def ledger_with_def mandate_new_def memory_get_def rec_of_json_of_rec)

lemma ledger_with_other: "k \<noteq> hex [2] \<Longrightarrow> mandate_rec (ledger_with r) k = Inr blank"
  by (simp add: mandate_rec_def ledger_with_def mandate_new_def memory_get_def)

lemma blank_bounded [simp]: "rec_bounded blank"
  by (simp add: rec_bounded_def blank_def)

lemma ledger_ok_sample: "ledger_ok sample_mandate" "ledger_ok challenged"
  by (simp_all add: ledger_ok_def)

lemma ledger_ok_with: "wf_rec r \<Longrightarrow> rec_bounded r \<Longrightarrow> ledger_ok (ledger_with r)"
  unfolding ledger_ok_def using ledger_with_other ledger_with_rec wf_blank blank_bounded by metis

lemma sample_rec_ok [simp]: "wf_rec sample_rec" "rec_bounded sample_rec" "\<not> revoked sample_rec"
  "enrolled_instance sample_rec = Some (hex [7])" "transfer_authority sample_rec = Some (hex [4])"
  "consumed_grants sample_rec = []"
  by (simp_all add: sample_rec_def wf_rec_def rec_bounded_def)

lemma chain_state_sample: "chain_state sample_mandate [2] [5] [9] sample_anchor 0"
proof -
  have "ledger_admits sample_cfg blank (Some sample_anchor)"
    by (simp add: ledger_admits_def Let_def opt_fromhex_def agrees_def)
  moreover have "sessions sample_mandate = Map.empty" by (simp add: sample_mandate_def mandate_new_def)
  moreover have "log_inv sample_mandate" by (simp add: sample_mandate_def log_inv_new)
  ultimately show ?thesis by (simp add: chain_state_def)
qed

lemma sample_sessions: "sessions_ok sample_mandate" "sessions_ok (ledger_with r)"
  by (simp_all add: sample_mandate_def ledger_with_def sessions_ok_new)

text \<open>One honest step on the sample mandate.\<close>

lemma sample_step:
  obtains msg m' where "attest sample_report (attester_new [2]) [5] [9] None = (Inr msg, attester_at [5] [2] [9] 1)"
    "present sample_inputs sample_mandate [2] [5] [9] msg None None = (Inr (True, ''accepted; continuity intact''), m')"
proof -
  have a: "attester_new [2] = attester_at [5] [2] [9] 0" by (simp add: attester_new_def attester_at_def)
  show thesis
    using that chain_step [OF chain_state_sample, of sample_report False sample_inputs] sample_faithful
    by (auto simp: a)
qed

lemma challenged_nonce [simp]: "challenges challenged [8] = Some 300"
  by (simp add: challenged_def challenge_def Let_def)

lemma sample_enroll_admits: "enroll_admits sample_inputs challenged sample_enrolment blank sample_anchor"
  by (simp add: enroll_admits_def sample_enrolment_def enroll_permitted_def sample_verifies [of "sha512 [8, 2]"] sample_inputs_def)
    (simp add: sample_crypto_def)

lemma wf_sample_grant [simp]: "wf_json sample_grant"
  by (simp add: sample_grant_def)

lemma sample_transfer_admitted:
  "\<exists>d. sample_grant = JObj d \<and> dindex d ''nonce'' = Inr (JStr (hex [1]))
    \<and> transfer_admitted sample_cfg 10 (hex [2]) sample_rec sample_grant sample_grant_sig d (hex [6]) [6]
        \<lparr>w_instance = hex [6], w_place = None, w_at = 0\<rparr> False"
  by (simp add: transfer_admitted_def sample_grant_def grant_json_def hex_or_null_def dget_def dindex_def sample_rec_def
      verify_grant_def sample_grant_sig_def in_window_def dget_or_def any_set_def py_in_def)
    (simp add: sample_crypto_def grant_json_def hex_or_null_def)

lemma sample_time [simp]: "int_of_time (t_check sample_inputs) = 10"
  by (simp add: sample_inputs_def int_of_time_def)

lemma sample_transfer:
  "\<exists>m'. accept_transfer sample_inputs (ledger_with sample_rec) [2] sample_grant sample_grant_sig
     = (Inr (True, ''transferred to the authorised instance''), m')"
proof -
  obtain d where "dindex d ''nonce'' = Inr (JStr (hex [1]))" "transfer_admitted sample_cfg 10 (hex [2]) sample_rec sample_grant
      sample_grant_sig d (hex [6]) [6] \<lparr>w_instance = hex [6], w_place = None, w_at = 0\<rparr> False"
    using sample_transfer_admitted by blast
  then show ?thesis by (intro transfer_accepts [OF ledger_with_rec]) simp_all
qed

end
