(* ===== verification/Findings.thy ===== *)
theory Findings
  imports Samples Merkle_Proofs
begin

text \<open>
  Where the code departs from what it says of itself, as lemmas about the model: an honest mandate's
  first head is taken for equivocation, a head in another spelling of the same bytes too, and two calls
  raise where they should refuse. (That a grant is forgotten after 256 others is \<open>moves_forget\<close>.)
\<close>

lemma no_proof_from_the_empty_log:
  "prove_extension m 0 = Inl (IndexError ''bad prefix size'')"
  by (simp add: prove_extension_def log_prove_consistency_def consistency_proof_def)

text \<open>The head over the empty log and any later head: convicted, whatever proof is offered.\<close>

lemma first_head_convicts:
  assumes "sig_correct C" "D \<noteq> []"
  shows "\<exists>why. is_equivocation C (public_key_of C k) (sign_sth C k rnd 0 (root []) at' now)
      (sign_sth C k rnd' (int (length D)) (root D) at'' now') pab pba = Inr (True, why)"
proof -
  let ?a = "sign_sth C k rnd 0 (root []) at' now" and ?b = "sign_sth C k rnd' (int (length D)) (root D) at'' now'"
  have "verify_sth C (public_key_of C k) ?a = Inr True" "verify_sth C (public_key_of C k) ?b = Inr True"
    using assms(1) by (simp_all add: verify_sign_sth)
  moreover have "consistent ?a ?b p \<noteq> Inr True" for p
    using assms(2) by (auto simp: consistent_def py_bind_Inr_iff verify_consistency_def)
  ultimately show ?thesis
    using assms(2) by (auto simp: is_equivocation_def Let_def split: option.splits)
qed

text \<open>One head, and the same head with a space before its root: both verify, and convict their signer.\<close>

lemma respelled_head_convicts:
  assumes "verify_sth C spki s = Inr True"
  shows "\<exists>why. is_equivocation C spki s (s\<lparr>sth_root := CHR '' '' # sth_root s\<rparr>) None None = Inr (True, why)"
proof -
  have "verify_sth C spki (s\<lparr>sth_root := CHR '' '' # sth_root s\<rparr>) = Inr True" using assms by (simp add: verify_sth_space)
  moreover have "sth_root s \<noteq> CHR '' '' # sth_root s" by simp
  ultimately show ?thesis using assms by (simp add: is_equivocation_def)
qed

text \<open>A grant that passes every check and has no nonce: \<open>accept_transfer\<close> raises and refuses nothing.\<close>

lemma grant_without_nonce_raises:
  assumes "mandate_rec m (hex tik) = Inr r" "dindex d ''nonce'' = Inl x"
    and "transfer_admitted (cfg m) (int_of_time (t_check i)) (hex tik) r grant sig d t ti w o'"
  shows "accept_transfer i m tik grant sig = (Inl x, m)"
  using assms by (simp add: accept_transfer_def Let_def transfer_check_Move [symmetric] transfer_apply_def)

text \<open>An authorisation that nobody signed, with a null start: raised, not refused.\<close>

lemma unsigned_authorisation_raises:
  "\<exists>x. verify_enrolment_authorisation C spki (JObj [(''v'', JInt 1), (''kind'', JStr ''enrol''), (''tik'', JStr (hex tik)),
     (''nonce'', JStr (hex nonce)), (''nbf'', JNull)]) sig tik nonce clock = Inl x"
  by (simp add: verify_enrolment_authorisation_def dget_def in_window_def dget_or_def)

end
