(* ===== verification/Attacks.thy ===== *)
theory Attacks
  imports Mandate_Protocol Mandate_Authority
begin

text \<open>
  The attack playground, \<open>examples/attack.py\<close>: sixteen runs against a mandate over two mock TEEs.
  Each attack is the sequence of calls the script makes, over the modelled operations; what it
  prints and returns is its value. The module's keys are in \<open>world\<close>, what one attack draws
  (\<open>os.urandom\<close>, generated keys, clock readings) in \<open>draws\<close>.
\<close>

record world =
  wd_crypto :: crypto
  wd_tik_key :: bytes
  wd_csr_rnd :: bytes
  wd_inst_a :: bytes
  wd_key_a :: bytes
  wd_inst_b :: bytes
  wd_key_b :: bytes

text \<open>The index of \<open>dr_nonce\<close>, \<open>dr_now\<close>, \<open>dr_rnd\<close> and \<open>dr_ins\<close> is the position of the call in the attack.\<close>

record draws =
  dr_sth_key :: bytes
  dr_nonce :: "nat \<Rightarrow> bytes"
  dr_now :: "nat \<Rightarrow> rat"
  dr_e :: bytes
  dr_t :: bytes
  dr_e2 :: bytes
  dr_t2 :: bytes
  dr_rnd :: "nat \<Rightarrow> bytes"
  dr_ins :: "nat \<Rightarrow> inputs"
  dr_owner :: bytes
  dr_rogue :: bytes
  dr_grant_nonce :: bytes
  dr_grant_now :: rat
  dr_grant_now2 :: rat
  dr_z1 :: "bytes \<times> bytes"
  dr_z2 :: "bytes \<times> bytes"
  dr_dir :: string

section \<open>The module's constants\<close>

definition CHIP_A :: bytes where
  "CHIP_A = take 64 (concat (replicate 16 [0xa2, 0xb2, 0x58, 0x0a]))"

definition CHIP_B :: bytes where
  "CHIP_B = take 64 (concat (replicate 16 [0x76, 0x10, 0x22, 0xd0]))"

definition wd_tik :: "world \<Rightarrow> bytes" where
  "wd_tik W = public_key_of (wd_crypto W) (wd_tik_key W)"

definition wd_csr :: "world \<Rightarrow> bytes" where
  "wd_csr W = make_enrolment_csr (wd_crypto W) (wd_tik_key W) ''hatls-identity'' (wd_csr_rnd W)"

definition teeA :: "world \<Rightarrow> mock_tee" where
  "teeA W = mock_tee_new (wd_crypto W) CHIP_A None (wd_inst_a W) (wd_key_a W)"

definition teeB :: "world \<Rightarrow> mock_tee" where
  "teeB W = mock_tee_new (wd_crypto W) CHIP_B None (wd_inst_b W) (wd_key_b W)"

text \<open>\<open>Mandate(mock_verifier(pubs), require_enrolment=re, store=st)\<close>, the other arguments at their defaults.\<close>

definition attack_cfg :: "world \<Rightarrow> draws \<Rightarrow> string list \<Rightarrow> bool \<Rightarrow> config" where
  "attack_cfg W D pubs re = \<lparr>cf_crypto = wd_crypto W, verify_report = mock_verifier (wd_crypto W) pubs,
     signing_key = dr_sth_key D, ephemeral_signing_key = True, require_anchor = True, require_enrolment = re,
     require_place = False, challenge_ttl = 300, witness_ttl = 3600, enrolment_authority = None\<rparr>"

definition both_chips :: "world \<Rightarrow> string list" where
  "both_chips W = [hex (mock_pub (teeA W)), hex (mock_pub (teeB W))]"

definition plain_mandate :: "world \<Rightarrow> draws \<Rightarrow> mandate" where
  "plain_mandate W D = mandate_new (attack_cfg W D (both_chips W) False) (MemoryStore [])"

section \<open>The steps of an attack\<close>

text \<open>\<open>n = m.challenge(); m.enroll(TIK, tee.report(sha512(n + CSR)), n, CSR, transfer_authority=ta)\<close>.\<close>

definition enrol_on :: "world \<Rightarrow> draws \<Rightarrow> nat \<Rightarrow> mock_tee \<Rightarrow> bytes option \<Rightarrow> mandate \<Rightarrow> (bool \<times> string) py \<times> mandate" where
  "enrol_on W D j tee ta m =
     (let (n, m1) = challenge (dr_now D j) (dr_nonce D j) m
      in enroll (dr_ins D j) m1 \<lparr>en_tik_pub = wd_tik W,
           en_evidence = mock_report (wd_crypto W) tee (dr_rnd D j) (sha512 (n @ wd_csr W)),
           en_nonce = n, en_csr = wd_csr W, en_transfer_authority = ta,
           en_authorisation = None, en_authorisation_sig = None\<rparr>)"

text \<open>\<open>assert ok, why\<close>.\<close>

definition asserted :: "(bool \<times> string) py \<times> mandate \<Rightarrow> mandate py" where
  "asserted x = (case x of (Inl e, m) \<Rightarrow> Inl e | (Inr (ok, why), m) \<Rightarrow> if ok then Inr m else Inl (AssertionError why))"

definition fresh_mandate :: "world \<Rightarrow> draws \<Rightarrow> bool \<Rightarrow> mandate py" where
  "fresh_mandate W D enrol = (if enrol then asserted (enrol_on W D 0 (teeA W) None (plain_mandate W D))
     else Inr (plain_mandate W D))"

definition show_verdict :: "string \<Rightarrow> bool \<Rightarrow> string \<Rightarrow> string list \<times> bool" where
  "show_verdict name accepted why =
     ([''  ['' @ (if \<not> accepted then ''STOPPED '' else ''!! GOT IN'') @ ''] '' @ name @ '': '' @ why], \<not> accepted)"

text \<open>\<open>a.attest(t, e)\<close>, \<open>m.present(TIK, t, e, msg)\<close>, and one after the other.\<close>

definition atk_attest :: "world \<Rightarrow> draws \<Rightarrow> nat \<Rightarrow> mock_tee \<Rightarrow> attester \<Rightarrow> bytes \<Rightarrow> bytes \<Rightarrow> (message \<times> attester) py" where
  "atk_attest W D j tee a t e =
     (case attest (\<lambda>rd. Inr (mock_report (wd_crypto W) tee (dr_rnd D j) rd)) a t e None of
        (Inl x, a') \<Rightarrow> Inl x
      | (Inr msg, a') \<Rightarrow> Inr (msg, a'))"

definition atk_present :: "world \<Rightarrow> draws \<Rightarrow> nat \<Rightarrow> mandate \<Rightarrow> bytes \<Rightarrow> bytes \<Rightarrow> message \<Rightarrow> (bool \<times> string \<times> mandate) py" where
  "atk_present W D j m t e msg =
     (case present (dr_ins D j) m (wd_tik W) t e msg None None of
        (Inl x, m') \<Rightarrow> Inl x
      | (Inr (ok, why), m') \<Rightarrow> Inr (ok, why, m'))"

definition atk_step ::
  "world \<Rightarrow> draws \<Rightarrow> nat \<Rightarrow> mock_tee \<Rightarrow> attester \<Rightarrow> mandate \<Rightarrow> bytes \<Rightarrow> bytes \<Rightarrow> (bool \<times> string \<times> message \<times> attester \<times> mandate) py" where
  "atk_step W D j tee a m t e =
     py_bind (atk_attest W D j tee a t e) (\<lambda>(msg, a').
     py_bind (atk_present W D j m t e msg) (\<lambda>(ok, why, m'). Inr (ok, why, msg, a', m')))"

section \<open>The attacks on a chain\<close>

type_synonym outcome = "(string list \<times> bool) py"

definition a_honest :: "world \<Rightarrow> draws \<Rightarrow> outcome" where
  "a_honest W D =
     py_bind (fresh_mandate W D True) (\<lambda>m.
     py_bind (atk_step W D 1 (teeA W) (attester_new (wd_tik W)) m (dr_t D) (dr_e D)) (\<lambda>(ok, why, _).
       Inr ([''  [CONTROL ] honest server: '' @ (if ok then ''accepted'' else ''REJECTED?!'') @ '' - '' @ why], ok)))"

definition a_rehost :: "world \<Rightarrow> draws \<Rightarrow> outcome" where
  "a_rehost W D =
     py_bind (fresh_mandate W D True) (\<lambda>m.
     py_bind (atk_step W D 1 (teeB W) (attester_new (wd_tik W)) m (dr_t D) (dr_e D)) (\<lambda>(ok, why, _).
       Inr (show_verdict ''re-host (stolen key, other chip)'' ok why)))"

definition a_replay :: "world \<Rightarrow> draws \<Rightarrow> outcome" where
  "a_replay W D =
     py_bind (fresh_mandate W D True) (\<lambda>m.
     py_bind (atk_step W D 1 (teeA W) (attester_new (wd_tik W)) m (dr_t D) (dr_e D)) (\<lambda>(_, _, _, a1, m1).
     py_bind (atk_attest W D 2 (teeA W) a1 (dr_t D) (dr_e D)) (\<lambda>(step, _).
     py_bind (atk_present W D 2 m1 (dr_t D) (dr_e D) step) (\<lambda>(_, _, m2).
     py_bind (atk_present W D 3 m2 (dr_t D) (dr_e D) step) (\<lambda>(ok, why, _).
       Inr (show_verdict ''replay (resend an old step)'' ok why))))))"

definition a_relay :: "world \<Rightarrow> draws \<Rightarrow> outcome" where
  "a_relay W D =
     py_bind (fresh_mandate W D True) (\<lambda>m.
     py_bind (atk_step W D 1 (teeA W) (attester_new (wd_tik W)) m (dr_t D) (dr_e D)) (\<lambda>(_, _, _, a1, m1).
     py_bind (atk_attest W D 2 (teeA W) a1 (dr_t D) (dr_e D)) (\<lambda>(step, _).
     py_bind (atk_present W D 2 m1 (dr_t D) (dr_e2 D) step) (\<lambda>(ok, why, _).
       Inr (show_verdict ''relay (forward genuine evidence)'' ok why)))))"

definition a_forge_malleable :: "world \<Rightarrow> draws \<Rightarrow> outcome" where
  "a_forge_malleable W D =
     py_bind (fresh_mandate W D True) (\<lambda>m.
     py_bind (atk_attest W D 1 (teeA W) (attester_new (wd_tik W)) (dr_t D) (dr_e D)) (\<lambda>(step, _).
     py_bind (atk_present W D 1 m (dr_t D) (dr_e D) step) (\<lambda>(_, _, m1).
     py_bind (atk_present W D 2 m1 (dr_t D) (dr_e D) step) (\<lambda>(ok2, why2, _).
       Inr (show_verdict ''signature-forge / duplicate'' ok2 why2)))))"

definition a_rollback_counter :: "world \<Rightarrow> draws \<Rightarrow> outcome" where
  "a_rollback_counter W D =
     py_bind (fresh_mandate W D True) (\<lambda>m.
     py_bind (atk_step W D 1 (teeA W) (attester_new (wd_tik W)) m (dr_t D) (dr_e D)) (\<lambda>(_, _, _, a1, m1).
     py_bind (atk_step W D 2 (teeA W) a1 m1 (dr_t D) (dr_e D)) (\<lambda>(_, _, _, _, m2).
     py_bind (atk_step W D 3 (teeA W) (attester_new (wd_tik W)) m2 (dr_t D) (dr_e D)) (\<lambda>(ok, why, _).
       Inr (show_verdict ''counter rollback'' ok why)))))"

definition a_splice :: "world \<Rightarrow> draws \<Rightarrow> outcome" where
  "a_splice W D =
     py_bind (fresh_mandate W D True) (\<lambda>m.
     py_bind (atk_step W D 1 (teeA W) (attester_new (wd_tik W)) m (dr_t D) (dr_e D)) (\<lambda>(_, _, _, a1, m1).
     py_bind (atk_attest W D 2 (teeA W) a1 (dr_t D) (dr_e D)) (\<lambda>(stolen, _).
     py_bind (atk_present W D 2 m1 (dr_t2 D) (dr_e2 D) stolen) (\<lambda>(ok, why, _).
       Inr (show_verdict ''splice link into another session'' ok why)))))"

definition a_no_enrollment :: "world \<Rightarrow> draws \<Rightarrow> outcome" where
  "a_no_enrollment W D =
     py_bind (fresh_mandate W D False) (\<lambda>m.
     py_bind (atk_step W D 1 (teeB W) (attester_new (wd_tik W)) m (dr_t D) (dr_e D)) (\<lambda>(ok, why, _).
       Inr ([''  [WEAKER  ] no-enrolment first message: ''
         @ (if ok then ''got in (a later second instance is flagged as contention)'' else ''stopped'') @ '' - '' @ why], True)))"

section \<open>The attacks on an identity\<close>

definition a_enrolment_hijack :: "world \<Rightarrow> draws \<Rightarrow> outcome" where
  "a_enrolment_hijack W D =
     py_bind (fresh_mandate W D True) (\<lambda>m.
     (case enrol_on W D 1 (teeB W) None m of
        (Inl x, _) \<Rightarrow> Inl x
      | (Inr _, m1) \<Rightarrow>
          py_bind (atk_step W D 2 (teeA W) (attester_new (wd_tik W)) m1 (dr_t D) (dr_e D)) (\<lambda>(ok, why, _).
            Inr (show_verdict ''enrolment hijack (lock the real owner out)'' (\<not> ok)
              (if ok then ''re-enrolment refused; the rightful owner is still served'' else why)))))"

definition a_masked_chip :: "world \<Rightarrow> draws \<Rightarrow> outcome" where
  "a_masked_chip W D =
     (let z1 = mock_tee_new (wd_crypto W) (zeros 64) None (fst (dr_z1 D)) (snd (dr_z1 D));
          z2 = mock_tee_new (wd_crypto W) (zeros 64) None (fst (dr_z2 D)) (snd (dr_z2 D));
          m = mandate_new (attack_cfg W D [hex (mock_pub z1), hex (mock_pub z2)] False) (MemoryStore [])
      in case enrol_on W D 0 z1 None m of
           (Inl x, _) \<Rightarrow> Inl x
         | (Inr _, m1) \<Rightarrow>
             py_bind (atk_step W D 1 z2 (attester_new (wd_tik W)) m1 (dr_t D) (dr_e D)) (\<lambda>(ok, why, _).
               Inr (show_verdict ''re-host on a masked-CHIP_ID platform'' ok why)))"

text \<open>The local function \<open>thief\<close>.\<close>

definition thief :: "world \<Rightarrow> draws \<Rightarrow> nat \<Rightarrow> mandate \<Rightarrow> (bool \<times> string) py" where
  "thief W D j m =
     py_bind (atk_step W D j (teeB W) (attester_new (wd_tik W)) m (dr_t D) (dr_e D)) (\<lambda>(ok, why, _). Inr (ok, why))"

definition a_mandate_restart :: "world \<Rightarrow> draws \<Rightarrow> outcome" where
  "a_mandate_restart W D =
     py_bind (fresh_mandate W D True) (\<lambda>_.
     py_bind (thief W D 1 (plain_mandate W D)) (\<lambda>(ok_mem, why_mem).
     (let line = ''  [WEAKER  ] restart, in-memory ledger (the default): ''
            @ (if ok_mem then ''got in -- the record did not survive'' else ''stopped'') @ '' - '' @ why_mem;
          c = attack_cfg W D (both_chips W) False
      in case enrol_on W D 2 (teeA W) None (mandate_new c (FileStore (dr_dir D) [])) of
           (Inl x, _) \<Rightarrow> Inl x
         | (Inr _, m1) \<Rightarrow>
             py_bind (thief W D 3 (mandate_new c (mstore m1))) (\<lambda>(ok_dur, why_dur).
             py_bind (thief W D 4 (mandate_new (attack_cfg W D (both_chips W) True) (MemoryStore []))) (\<lambda>(ok_pol, why_pol).
               Inr (line # fst (show_verdict ''restart, durable ledger'' ok_dur why_dur)
                 @ fst (show_verdict ''restart, ledger lost, require_enrolment=True'' ok_pol why_pol), True))))))"

section \<open>The attacks on a transfer\<close>

definition transferable_mandate :: "world \<Rightarrow> draws \<Rightarrow> bool \<Rightarrow> mandate py" where
  "transferable_mandate W D witness_b =
     py_bind (asserted (enrol_on W D 0 (teeA W) (Some (public_key_of (wd_crypto W) (dr_owner D))) (plain_mandate W D))) (\<lambda>m.
       if witness_b then
         py_bind (atk_step W D 1 (teeB W) (attester_new (wd_tik W)) m (dr_t D) (dr_e D)) (\<lambda>(_, _, _, _, m1). Inr m1)
       else Inr m)"

definition atk_grant :: "world \<Rightarrow> draws \<Rightarrow> bytes \<Rightarrow> (json \<times> bytes) py" where
  "atk_grant W D key = make_grant (wd_crypto W) key (dr_rnd D 2) (wd_tik W) (mock_instance (teeB W))
     (Some (mock_instance (teeA W))) 900 False None (dr_grant_now D) (dr_grant_nonce D)"

definition atk_transfer :: "world \<Rightarrow> draws \<Rightarrow> nat \<Rightarrow> mandate \<Rightarrow> json \<Rightarrow> bytes \<Rightarrow> (bool \<times> string \<times> mandate) py" where
  "atk_transfer W D j m grant sig = (case accept_transfer (dr_ins D j) m (wd_tik W) grant sig of
     (Inl x, m') \<Rightarrow> Inl x
   | (Inr (ok, why), m') \<Rightarrow> Inr (ok, why, m'))"

definition a_forge_grant :: "world \<Rightarrow> draws \<Rightarrow> outcome" where
  "a_forge_grant W D =
     py_bind (transferable_mandate W D True) (\<lambda>m.
     py_bind (atk_grant W D (dr_rogue D)) (\<lambda>(grant, sig).
     py_bind (atk_transfer W D 3 m grant sig) (\<lambda>(ok, why, _).
       Inr (show_verdict ''forge a transfer grant'' ok why))))"

definition a_replay_grant :: "world \<Rightarrow> draws \<Rightarrow> outcome" where
  "a_replay_grant W D =
     py_bind (transferable_mandate W D True) (\<lambda>m.
     py_bind (atk_grant W D (dr_owner D)) (\<lambda>(grant, sig).
     py_bind (atk_transfer W D 3 m grant sig) (\<lambda>(_, _, m1).
     py_bind (atk_transfer W D 4 m1 grant sig) (\<lambda>(ok, why, _).
       Inr (show_verdict ''replay a used transfer grant'' ok why)))))"

text \<open>\<open>grant["to"] = ...\<close>, on a grant that has the key.\<close>

definition redirected :: "json \<Rightarrow> json" where
  "redirected grant = (case grant of
     JObj d \<Rightarrow> JObj (map (\<lambda>(k, v). (k, if k = ''to'' then JStr (hex (replicate 32 0x99)) else v)) d)
   | j \<Rightarrow> j)"

definition a_redirect_grant :: "world \<Rightarrow> draws \<Rightarrow> outcome" where
  "a_redirect_grant W D =
     py_bind (transferable_mandate W D True) (\<lambda>m.
     py_bind (atk_grant W D (dr_owner D)) (\<lambda>(grant, sig).
     py_bind (atk_transfer W D 3 m (redirected grant) sig) (\<lambda>(ok, why, _).
       Inr (show_verdict ''redirect a genuine grant'' ok why))))"

definition a_grant_without_origin :: "world \<Rightarrow> draws \<Rightarrow> outcome" where
  "a_grant_without_origin W D =
     py_bind (transferable_mandate W D True) (\<lambda>m.
     (let now = int_of_time (dr_grant_now D);
          g = grant_json (wd_tik W) (mock_instance (teeB W)) None False now (int_of_time (dr_grant_now2 D) + 900 - now) (dr_grant_nonce D);
          sig = sign_with (wd_crypto W) (dr_owner D) WithSHA256 (dr_rnd D 2) (canonical_grant g)
      in py_bind (atk_transfer W D 3 m g sig) (\<lambda>(ok, why, _).
           Inr (show_verdict ''grant that names no instance to leave'' ok why))))"

definition a_grant_to_a_ghost :: "world \<Rightarrow> draws \<Rightarrow> outcome" where
  "a_grant_to_a_ghost W D =
     py_bind (transferable_mandate W D False) (\<lambda>m.
     py_bind (atk_grant W D (dr_owner D)) (\<lambda>(grant, sig).
     py_bind (atk_transfer W D 3 m grant sig) (\<lambda>(ok, why, _).
       Inr (show_verdict ''transfer onto an unwitnessed instance'' ok why))))"

section \<open>The playground\<close>

definition ATTACKS :: "(string \<times> (world \<Rightarrow> draws \<Rightarrow> outcome)) list" where
  "ATTACKS = [(''honest'', a_honest), (''rehost'', a_rehost), (''replay'', a_replay), (''relay'', a_relay),
     (''forge'', a_forge_malleable), (''rollback'', a_rollback_counter), (''splice'', a_splice),
     (''noenroll'', a_no_enrollment), (''hijack'', a_enrolment_hijack), (''masked'', a_masked_chip),
     (''restart'', a_mandate_restart), (''forgegrant'', a_forge_grant), (''replaygrant'', a_replay_grant),
     (''redirectgrant'', a_redirect_grant), (''noorigin'', a_grant_without_origin), (''ghost'', a_grant_to_a_ghost)]"

record tally =
  tl_out :: "string list"
  tl_stopped :: nat
  tl_total :: nat
  tl_control :: bool

text \<open>The loop of the main program; \<open>Ds\<close> gives each attack its own draws.\<close>

fun play :: "world \<Rightarrow> (string \<Rightarrow> draws) \<Rightarrow> string list \<Rightarrow> tally \<Rightarrow> tally py" where
  "play W Ds [] s = Inr s"
| "play W Ds (name # rest) s = (case map_of ATTACKS name of
     None \<Rightarrow> play W Ds rest (s\<lparr>tl_out := tl_out s @ [''  unknown attack: '' @ name]\<rparr>)
   | Some fn \<Rightarrow> py_bind (fn W (Ds name)) (\<lambda>(out, r).
       (let s1 = s\<lparr>tl_out := tl_out s @ out\<rparr> in
        play W Ds rest
          (if name = ''honest'' then s1\<lparr>tl_control := r\<rparr>
           else if name \<notin> {''noenroll'', ''restart''}
           then s1\<lparr>tl_total := tl_total s1 + 1, tl_stopped := tl_stopped s1 + of_bool r\<rparr>
           else s1))))"

text \<open>What the process prints and its exit status.\<close>

definition attack_main :: "world \<Rightarrow> (string \<Rightarrow> draws) \<Rightarrow> string list \<Rightarrow> (string list \<times> nat) py" where
  "attack_main W Ds argv =
     py_bind (play W Ds (if argv = [] then map fst ATTACKS else argv)
        \<lparr>tl_out = [''HATLS attack playground (local, MockTEE). STOPPED = the mandate caught it.'' @ [CHR 0x0A]],
         tl_stopped = 0, tl_total = 0, tl_control = True\<rparr>) (\<lambda>s.
     (let out = tl_out s @ [CHR 0x0A # ''  attacks stopped: '' @ dec_int (int (tl_stopped s)) @ ''/'' @ dec_int (int (tl_total s))]
      in if \<not> tl_control s then Inr (out @ [''  CONTROL FAILED: the honest server was rejected''], 1)
         else if tl_stopped s \<noteq> tl_total s
         then Inr (out @ [''  FAILURE: '' @ dec_int (int (tl_total s) - int (tl_stopped s)) @ '' attack(s) got in''], 1)
         else Inr (out, 0)))"

end
