(* ===== verification/Attack_Steps.thy ===== *)
theory Attack_Steps
  imports Attacks
begin

text \<open>
  Lemmas for the runs of \<open>Attacks\<close>: \<open>present\<close> returns whatever a trusted platform sends, an enrolment
  on a trusted TEE succeeds, honest steps are accepted one after the other, and an identity that is
  enrolled on one TEE stays with it when another TEE presents its key or asks for a new enrolment.
\<close>

section \<open>A call of \<open>present\<close> that returns\<close>

definition returns :: "'a py \<times> mandate \<Rightarrow> bool" where
  "returns x \<longleftrightarrow> (\<exists>v m. x = (Inr v, m))"

lemma returns_if: "(b \<Longrightarrow> returns x) \<Longrightarrow> (\<not> b \<Longrightarrow> returns y) \<Longrightarrow> returns (if b then x else y)"
  by simp

lemma returns_refuse: "returns (refuse m ev why inst)"
  by (auto simp: returns_def refuse_def)

lemma returns_refuse_saved: "returns (refuse_saved m (hex b) r ev why inst)"
  using save_rec_Inl [of m b r] by (cases "save_rec m (hex b) r"; cases "fst (save_rec m (hex b) r)")
    (auto simp: refuse_saved_def refuse_def returns_def)

lemma returns_link:
  fixes an :: "anchor option"
  assumes "length base = 32" "0 \<le> msg_counter msg" "msg_counter msg < 2 ^ 64"
  shows "returns (appraise_link i m tik sc ex msg pl r (map_option anchor_instance an) (Option.bind an anchor_place) base)"
proof -
  obtain l where l: "post_link ex base (msg_counter msg) = Inr l" using assms by (auto simp: post_link_Inr)
  have "returns (accept_step m (hex tik) (session_key sc) r (msg_counter msg) pl (map_option anchor_instance an) (Option.bind an anchor_place))"
    using accept_step_eq [of m tik sc r "msg_counter msg" pl an] by (auto simp: returns_def)
  then show ?thesis
    unfolding appraise_link_def Let_def l sum.case by (intro returns_if returns_refuse_saved)
qed

lemma returns_chain:
  fixes an :: "anchor option"
  assumes "sessions_ok m" "length sc < 256" "0 \<le> msg_counter msg" "msg_counter msg < 2 ^ 64"
  shows "returns (appraise_chain i m tik sc ex msg pl r (map_option anchor_instance an) (Option.bind an anchor_place))"
proof (cases "sessions m (hex tik, session_key sc)")
  case None
  have il: "intra_link sc tik = Inr (intra_value sc tik)" using assms(2) by (simp add: intra_link_Inr)
  show ?thesis
    unfolding appraise_chain_def Let_def None option.case il sum.case
    by (intro returns_if returns_refuse returns_link) (use assms in \<open>simp_all add: len_simps\<close>)
next
  case (Some s)
  then have "length (ss_prev s) = 32" using assms(1) by (auto simp: sessions_ok_def)
  then show ?thesis
    unfolding appraise_chain_def Let_def Some option.case
    by (intro returns_if returns_refuse_saved returns_link) (use assms in simp_all)
qed

lemma present_returns:
  assumes r: "mandate_rec m (hex tik) = Inr r" "opt_fromhex (enrolled_instance r) = Inr x"
      "opt_fromhex (enrolled_place r) = Inr y" "opt_fromhex (observed_instance r) = Inr z"
    and ev: "sees m tik msg None None an" and ok: "sessions_ok m"
    and len: "length sc < 256" "0 \<le> msg_counter msg" "msg_counter msg < 2 ^ 64"
  shows "\<exists>acc why m'. present i m tik sc ex msg None None = (Inr (acc, why), m')"
proof -
  obtain pl where pl: "fromhex (msg_post_link msg) = Inr pl"
    "verify_report (cfg m) (msg_evidence msg) (report_data_for pl None) = Inr (True, Some an)"
    using ev by (auto simp: sees_def)
  have "returns (appraise_gate i m tik sc ex msg pl r (Some an))"
    unfolding appraise_gate_def Let_def r sum.case
    by (intro returns_if returns_refuse returns_refuse_saved returns_chain ok len)
  then have "returns (appraise i m tik sc ex msg None None)"
    using r pl returns_refuse by (simp add: appraise_def Let_def head_check_def)
  then obtain v m1 where "appraise i m tik sc ex msg None None = (Inr v, m1)" by (auto simp: returns_def)
  moreover obtain acc why inst where "v = (acc, why, inst)" by (cases v)
  ultimately show ?thesis by (simp add: present_eq)
qed

section \<open>Enrolment in an attack\<close>

definition sound_crypto :: "world \<Rightarrow> bool" where
  "sound_crypto W \<longleftrightarrow> sig_correct (wd_crypto W) \<and> csr_correct (wd_crypto W)"

definition trusted_tee :: "world \<Rightarrow> string list \<Rightarrow> mock_tee \<Rightarrow> bool" where
  "trusted_tee W pubs tee \<longleftrightarrow> hex (mock_pub tee) \<in> set pubs \<and> mock_pub tee = public_key_of (wd_crypto W) (mock_key tee)
     \<and> any_set (mock_instance tee)"

definition anchor_of :: "mock_tee \<Rightarrow> anchor" where
  "anchor_of tee = \<lparr>anchor_instance = mock_instance tee, anchor_place = present_id (Some (mock_chip tee))\<rparr>"

lemma tee_verifies:
  "sound_crypto W \<Longrightarrow> trusted_tee W pubs tee \<Longrightarrow>
   mock_verifier (wd_crypto W) pubs (mock_report (wd_crypto W) tee rnd rd) rd = Inr (True, Some (anchor_of tee))"
  unfolding sound_crypto_def trusted_tee_def anchor_of_def
  using mock_verifies_report [of "wd_crypto W" tee pubs rnd rd] by (elim conjE) (simp only: if_True simp_thms)

lemma attack_cfg_sel [simp]:
  "cf_crypto (attack_cfg W D pubs re) = wd_crypto W" "verify_report (attack_cfg W D pubs re) = mock_verifier (wd_crypto W) pubs"
  "require_anchor (attack_cfg W D pubs re)" "require_enrolment (attack_cfg W D pubs re) = re"
  "\<not> require_place (attack_cfg W D pubs re)" "challenge_ttl (attack_cfg W D pubs re) = 300"
  "witness_ttl (attack_cfg W D pubs re) = 3600" "enrolment_authority (attack_cfg W D pubs re) = None"
  by (simp_all add: attack_cfg_def)

text \<open>The state after the identity was enrolled on \<open>tee\<close>, and after that only refused steps.\<close>

definition owned :: "world \<Rightarrow> string list \<Rightarrow> mock_tee \<Rightarrow> bytes option \<Rightarrow> sighting list \<Rightarrow> mandate \<Rightarrow> bool" where
  "owned W pubs tee ta ws m \<longleftrightarrow> (\<exists>r. mandate_rec m (hex (wd_tik W)) = Inr r \<and> wf_rec r \<and> \<not> revoked r
     \<and> enrolled_instance r = Some (hex (mock_instance tee)) \<and> enrolled_place r = hex_opt (present_id (Some (mock_chip tee)))
     \<and> observed_instance r = None \<and> transfer_authority r = map_option hex ta \<and> witnessed r = ws \<and> consumed_grants r = [])
     \<and> verify_report (cfg m) = mock_verifier (wd_crypto W) pubs \<and> cf_crypto (cfg m) = wd_crypto W
     \<and> require_place (cfg m) = False \<and> witness_ttl (cfg m) = 3600 \<and> sessions m = Map.empty \<and> log_inv m"

lemma enrolled_owned:
  assumes W: "sound_crypto W" "trusted_tee W pubs tee" and t: "t_check (dr_ins D j) < dr_now D j + 300"
    and m: "cfg m = attack_cfg W D' pubs re" "mandate_rec m (hex (wd_tik W)) = Inr blank" "sessions m = Map.empty" "log_inv m"
  shows "\<exists>m'. enrol_on W D j tee ta m = (Inr (True, ''enrolled''), m') \<and> owned W pubs tee ta [] m'
    \<and> ledger_step (hex (wd_tik W)) enrolled_by m m'"
proof -
  obtain m1 where c: "challenge (dr_now D j) (dr_nonce D j) m = (dr_nonce D j, m1)" by (simp add: challenge_def Let_def)
  note s = challenge_sel [OF c]
  have c1: "challenges m1 (dr_nonce D j) = Some (dr_now D j + 300)" using challenge_nonce [OF c] m(1) by simp
  let ?e = "\<lparr>en_tik_pub = wd_tik W, en_evidence = mock_report (wd_crypto W) tee (dr_rnd D j) (sha512 (dr_nonce D j @ wd_csr W)),
           en_nonce = dr_nonce D j, en_csr = wd_csr W, en_transfer_authority = ta,
           en_authorisation = None, en_authorisation_sig = None\<rparr>"
  have "csr_correct (wd_crypto W)" using W(1) by (simp add: sound_crypto_def)
  then have "load_csr (wd_crypto W) (wd_csr W) = Inr (True, wd_tik W)"
    by (simp add: wd_csr_def wd_tik_def make_enrolment_csr_def csr_correctD)
  moreover have rec1: "mandate_rec m1 (hex (wd_tik W)) = Inr blank" using mandate_rec_cong [of m1 m] s m(2) by simp
  ultimately have adm: "enroll_admits (dr_ins D j) m1 ?e blank (anchor_of tee)"
    using c1 t tee_verifies [OF W] s(2) m(1) by (simp add: enroll_admits_def enroll_permitted_def)
  then obtain m2 where m2: "enroll (dr_ins D j) m1 ?e = (Inr (True, ''enrolled''), m2)" "enroll_done m1 ?e blank (anchor_of tee) m2"
    using enroll_accepts [OF adm wf_blank] by auto
  have rec2: "mandate_rec m2 (hex (wd_tik W)) = Inr (map_nonces (store_norm (mstore m1)) (enrolled_rec ?e blank (anchor_of tee)))"
    using enroll_done_rec [OF m2(2) wf_blank] by simp
  have l: "ledger_step (hex (wd_tik W)) enrolled_by m1 m2" using enroll_steps(2) [OF m2(1)] by simp
  have "owned W pubs tee ta [] m2"
    unfolding owned_def
    using rec2 l m s enroll_steps(4) [OF m2(1)] log_inv_step [OF enroll_steps(1) [OF m2(1)]] log_inv_step [of m m1]
    by (auto simp: ledger_step_def anchor_of_def wf_norm wf_blank log_step_def split: option.splits)
  moreover have "ledger_step (hex (wd_tik W)) enrolled_by m m2"
    using l s mandate_rec_cong [of m1 m] by (simp add: ledger_step_def)
  ultimately show ?thesis using c m2(1) by (auto simp: enrol_on_def)
qed

section \<open>Steps in an attack\<close>

text \<open>What an honest attester on a trusted TEE sends, and what the mandate sees in it.\<close>

lemma atk_attest_link:
  assumes W: "sound_crypto W" "trusted_tee W pubs tee" and len: "length t < 256" "int n < 2 ^ 64"
  shows "\<exists>msg. atk_attest W D j tee (attester_at t (wd_tik W) e n) t e = Inr (msg, attester_at t (wd_tik W) e (Suc n))
    \<and> msg_counter msg = int n \<and> msg_post_link msg = hex (link_at t (wd_tik W) e n)
    \<and> (\<forall>m. verify_report (cfg m) = mock_verifier (wd_crypto W) pubs \<longrightarrow>
         verify_report (cfg m) (msg_evidence msg) (report_data_for (link_at t (wd_tik W) e n) None) = Inr (True, Some (anchor_of tee))
         \<and> sees m (wd_tik W) msg None None (anchor_of tee))"
proof -
  let ?rep = "\<lambda>rd. Inr (mock_report (wd_crypto W) tee (dr_rnd D j) rd) :: json py"
  have "attest ?rep (attester_at t (wd_tik W) e n) t e None = (Inr \<lparr>msg_counter = int n, msg_intra_ok_base = (n = 0),
       msg_post_link = hex (link_at t (wd_tik W) e n),
       msg_evidence = mock_report (wd_crypto W) tee (dr_rnd D j) (report_data_for (link_at t (wd_tik W) e n) None),
       msg_head = map_option hex None\<rparr>, attester_at t (wd_tik W) e (Suc n))"
    by (rule attest_link [where report = ?rep, OF len]) simp
  then show ?thesis
    by (auto simp: atk_attest_def sees_def head_check_def tee_verifies [OF W])
qed

lemma attester_new_at: "attester_new tik = attester_at t tik e 0"
  by (simp add: attester_new_def attester_at_def)

lemma owned_chain:
  assumes "owned W pubs tee ta ws m" "any_set (mock_instance tee)"
  shows "chain_state m (wd_tik W) t e (anchor_of tee) 0"
proof -
  obtain r where r: "mandate_rec m (hex (wd_tik W)) = Inr r" "wf_rec r" "\<not> revoked r"
    "enrolled_instance r = Some (hex (mock_instance tee))" "enrolled_place r = hex_opt (present_id (Some (mock_chip tee)))"
    "observed_instance r = None" and m: "\<not> require_place (cfg m)" "sessions m = Map.empty" "log_inv m"
    using assms(1) by (auto simp: owned_def)
  have "mock_instance tee \<noteq> []" using assms(2) by (auto simp: any_set_def)
  then have "ledger_admits (cfg m) r (Some (anchor_of tee))"
    using r m by (auto simp: ledger_admits_def Let_def opt_fromhex_hex agrees_def anchor_of_def opt_fromhex_def hex_opt_def split: option.splits)
  with r m show ?thesis by (auto simp: chain_state_def)
qed

text \<open>What goes on after an honest chain of \<open>n\<close> steps.\<close>

definition running :: "world \<Rightarrow> string list \<Rightarrow> mock_tee \<Rightarrow> bytes \<Rightarrow> bytes \<Rightarrow> nat \<Rightarrow> mandate \<Rightarrow> bool" where
  "running W pubs tee t e n m \<longleftrightarrow> chain_state m (wd_tik W) t e (anchor_of tee) n \<and> sessions_ok m
     \<and> verify_report (cfg m) = mock_verifier (wd_crypto W) pubs"

lemma running_present:
  assumes run: "running W pubs tee t e n m" and len: "length t < 256" "int n < 2 ^ 64"
    and msg: "msg_counter msg = int n" "msg_post_link msg = hex (link_at t (wd_tik W) e n)"
      "verify_report (cfg m) (msg_evidence msg) (report_data_for (link_at t (wd_tik W) e n) None) = Inr (True, Some (anchor_of tee))"
  shows "\<exists>m'. atk_present W D j m t e msg = Inr (True, ''accepted; continuity intact'', m')
    \<and> present (dr_ins D j) m (wd_tik W) t e msg None None = (Inr (True, ''accepted; continuity intact''), m')
    \<and> running W pubs tee t e (Suc n) m'"
proof -
  have st: "chain_state m (wd_tik W) t e (anchor_of tee) n" and ok: "sessions_ok m"
    and v: "verify_report (cfg m) = mock_verifier (wd_crypto W) pubs"
    using run by (simp_all add: running_def)
  obtain m' where p: "present (dr_ins D j) m (wd_tik W) t e msg None None = (Inr (True, ''accepted; continuity intact''), m')"
    and st': "chain_state m' (wd_tik W) t e (anchor_of tee) (Suc n)" and c: "cfg m' = cfg m"
    using chain_present [OF st len disjI1 [OF refl] msg(3) msg(1,2), of "dr_ins D j"] by auto
  have "running W pubs tee t e (Suc n) m'"
    using st' c v mstep_sessions_ok [OF mstep.present [OF p] ok] by (simp add: running_def)
  with p show ?thesis by (auto simp: atk_present_def)
qed

lemma running_step:
  assumes W: "sound_crypto W" "trusted_tee W pubs tee" and run: "running W pubs tee t e n m" and len: "length t < 256" "int n < 2 ^ 64"
  shows "\<exists>msg m'. atk_step W D j tee (attester_at t (wd_tik W) e n) m t e
      = Inr (True, ''accepted; continuity intact'', msg, attester_at t (wd_tik W) e (Suc n), m') \<and> running W pubs tee t e (Suc n) m'"
proof -
  obtain msg where msg: "atk_attest W D j tee (attester_at t (wd_tik W) e n) t e = Inr (msg, attester_at t (wd_tik W) e (Suc n))"
    "msg_counter msg = int n" "msg_post_link msg = hex (link_at t (wd_tik W) e n)"
    "verify_report (cfg m) (msg_evidence msg) (report_data_for (link_at t (wd_tik W) e n) None) = Inr (True, Some (anchor_of tee))"
    using atk_attest_link [OF W len, of D j e] run by (auto simp: running_def)
  with running_present [OF run len msg(2-4), of D j] show ?thesis by (auto simp: atk_step_def)
qed

lemma atk_present_Inr:
  "atk_present W D j m t e msg = Inr (ok, why, m') \<longleftrightarrow> present (dr_ins D j) m (wd_tik W) t e msg None None = (Inr (ok, why), m')"
  unfolding atk_present_def by (cases "present (dr_ins D j) m (wd_tik W) t e msg None None") (auto split: sum.splits)

lemma atk_step_present:
  assumes "atk_step W D j tee a m t e = Inr (ok, why, msg, a', m')"
  shows "present (dr_ins D j) m (wd_tik W) t e msg None None = (Inr (ok, why), m')"
proof -
  obtain msg1 a1 where 1: "atk_attest W D j tee a t e = Inr (msg1, a1)"
    using assms by (auto simp: atk_step_def py_bind_Inr_iff)
  then obtain ok1 why1 m1 where "atk_present W D j m t e msg1 = Inr (ok1, why1, m1)"
    using assms by (auto simp: atk_step_def py_bind_Inr_iff)
  with 1 assms show ?thesis by (simp add: atk_step_def atk_present_Inr)
qed

text \<open>Any message that carries trusted Evidence is answered; it is accepted only if \<open>admits\<close> holds.\<close>

lemma running_answers:
  assumes run: "running W pubs tee t e n m" and len: "length sc < 256" "0 \<le> msg_counter msg" "msg_counter msg < 2 ^ 64"
    and msg: "sees m (wd_tik W) msg None None an"
    and no: "\<And>r pl an. \<not> admits m (wd_tik W) sc ex msg None None r pl an"
  shows "\<exists>why m'. atk_present W D j m sc ex msg = Inr (False, why, m')"
proof -
  obtain r where r: "mandate_rec m (hex (wd_tik W)) = Inr r" "ledger_admits (cfg m) r (Some (anchor_of tee))" and ok: "sessions_ok m"
    using run by (auto simp: running_def chain_state_def)
  then obtain x y z where "opt_fromhex (enrolled_instance r) = Inr x" "opt_fromhex (enrolled_place r) = Inr y"
    "opt_fromhex (observed_instance r) = Inr z" by (auto simp: ledger_admits_def Let_def)
  from present_returns [OF r(1) this msg ok len, of "dr_ins D j" ex]
  obtain acc why m' where p: "present (dr_ins D j) m (wd_tik W) sc ex msg None None = (Inr (acc, why), m')" by blast
  then have "\<not> acc" using no present_accepts [of "dr_ins D j" m "wd_tik W" sc ex msg None None] by auto
  with p show ?thesis by (simp add: atk_present_def)
qed

section \<open>Owner and thief\<close>

lemma owned_running: "owned W pubs tee ta ws m \<Longrightarrow> any_set (mock_instance tee) \<Longrightarrow> running W pubs tee t e 0 m"
  using owned_chain by (auto simp: running_def owned_def sessions_ok_def)

lemma new_readable:
  "cfg (mandate_new c st) = c" "sessions (mandate_new c st) = Map.empty" "log_inv (mandate_new c st)"
  "mstore (mandate_new c st) = st" "mandate_rec (mandate_new c (MemoryStore [])) (hex b) = Inr blank"
  "mandate_rec (mandate_new c (FileStore p [])) (hex b) = Inr blank"
  by (simp_all add: log_inv_new) (simp_all add: mandate_rec_def memory_get_def file_get_def store_file_def mandate_new_def)

lemma atk_step_returns:
  assumes W: "sound_crypto W" "trusted_tee W pubs tee" and len: "length t < 256"
    and r: "mandate_rec m (hex (wd_tik W)) = Inr r" "opt_fromhex (enrolled_instance r) = Inr x"
      "opt_fromhex (enrolled_place r) = Inr y" "opt_fromhex (observed_instance r) = Inr z"
    and m: "sessions_ok m" "verify_report (cfg m) = mock_verifier (wd_crypto W) pubs"
  shows "\<exists>acc why msg a' m'. atk_step W D j tee (attester_new (wd_tik W)) m t e = Inr (acc, why, msg, a', m')"
proof -
  obtain msg where msg: "atk_attest W D j tee (attester_at t (wd_tik W) e 0) t e = Inr (msg, attester_at t (wd_tik W) e (Suc 0))"
    "msg_counter msg = 0" "sees m (wd_tik W) msg None None (anchor_of tee)"
    using atk_attest_link [OF W len, of 0 D j e] m(2) by auto
  from present_returns [OF r msg(3) m(1) len, of "dr_ins D j" e] msg show ?thesis
    by (auto simp: atk_step_def atk_present_def attester_new_at [of _ t e])
qed

text \<open>A step from another trusted TEE on an owned identity is refused, and leaves a sighting.\<close>

lemma owned_thief:
  assumes own: "owned W pubs tee ta ws m" and W: "sound_crypto W" "trusted_tee W pubs tee" "trusted_tee W pubs tee'"
    and ne: "mock_instance tee' \<noteq> mock_instance tee" and len: "length t < 256"
  shows "\<exists>msg a' m'. atk_step W D j tee' (attester_new (wd_tik W)) m t e
      = Inr (False, ''rejected: key presented from an instance it was not enrolled on'', msg, a', m')
    \<and> (ws = [] \<longrightarrow> owned W pubs tee ta [\<lparr>w_instance = hex (mock_instance tee'),
          w_place = hex_opt (present_id (Some (mock_chip tee'))), w_at = int_of_time (t_witness (dr_ins D j))\<rparr>] m')"
proof -
  obtain r where r: "mandate_rec m (hex (wd_tik W)) = Inr r" "wf_rec r" "\<not> revoked r"
    "enrolled_instance r = Some (hex (mock_instance tee))" "enrolled_place r = hex_opt (present_id (Some (mock_chip tee)))"
    "observed_instance r = None" "transfer_authority r = map_option hex ta" "witnessed r = ws" "consumed_grants r = []"
    and m: "verify_report (cfg m) = mock_verifier (wd_crypto W) pubs" "cf_crypto (cfg m) = wd_crypto W"
      "require_place (cfg m) = False" "witness_ttl (cfg m) = 3600" "sessions m = Map.empty" "log_inv m"
    using own by (auto simp: owned_def)
  obtain msg where msg: "atk_attest W D j tee' (attester_at t (wd_tik W) e 0) t e = Inr (msg, attester_at t (wd_tik W) e (Suc 0))"
    "sees m (wd_tik W) msg None None (anchor_of tee')"
    using atk_attest_link [OF W(1,3) len, of 0 D j e] m(1) by auto
  have "mock_instance tee \<noteq> []" using W(2) by (auto simp: trusted_tee_def any_set_def)
  moreover have "anchor_instance (anchor_of tee') \<noteq> mock_instance tee" using ne by (simp add: anchor_of_def)
  ultimately obtain m' where p: "present (dr_ins D j) m (wd_tik W) t e msg None None
      = (Inr (False, ''rejected: key presented from an instance it was not enrolled on''), m')"
    and rec: "mandate_rec m' (hex (wd_tik W)) = Inr (map_nonces (store_norm (mstore m))
        (dispute_rec (t_dispute (dr_ins D j)) (witness_rec (cfg m) (t_witness (dr_ins D j)) r (mock_instance tee')
          (present_id (Some (mock_chip tee')))) ''evidence from a non-enrolled instance''))"
    and s: "sessions m' = sessions m"
    using impostor_step [OF r(1-4) _ msg(2), of "dr_ins D j" t e] by (auto simp: anchor_of_def)
  have "cfg m' = cfg m" "log_inv m'" using present_steps(1,2) [OF p] log_inv_step m(6) by (auto simp: ledger_step_def)
  moreover have "wf_rec (map_nonces (store_norm st) (dispute_rec c (witness_rec c' t' r i p) why))" for st c c' t' i p why
    using r(2) by (intro wf_norm) (simp add: wf_rec_def dispute_rec_def witness_rec_def Let_def)
  ultimately have "ws = [] \<longrightarrow> owned W pubs tee ta [\<lparr>w_instance = hex (mock_instance tee'),
      w_place = hex_opt (present_id (Some (mock_chip tee'))), w_at = int_of_time (t_witness (dr_ins D j))\<rparr>] m'"
    using rec s r m by (simp add: owned_def) (simp add: witness_rec_def dispute_rec_def Let_def last_n_def)
  with p msg show ?thesis by (auto simp: atk_step_def atk_present_def attester_new_at [of _ t e])
qed

text \<open>Re-enrolment of an owned identity.\<close>

lemma owned_reenrol:
  assumes own: "owned W pubs tee ta ws m" and time: "t_check (dr_ins D j) < dr_now D j + challenge_ttl (cfg m)"
    and noauth: "enrolment_authority (cfg m) = None"
  shows "\<exists>v m'. enrol_on W D j tee' ta' m = (Inr v, m') \<and> owned W pubs tee ta ws m'"
proof -
  obtain m1 where c: "challenge (dr_now D j) (dr_nonce D j) m = (dr_nonce D j, m1)" by (simp add: challenge_def Let_def)
  note s = challenge_sel [OF c]
  let ?e = "\<lparr>en_tik_pub = wd_tik W, en_evidence = mock_report (wd_crypto W) tee' (dr_rnd D j) (sha512 (dr_nonce D j @ wd_csr W)),
           en_nonce = dr_nonce D j, en_csr = wd_csr W, en_transfer_authority = ta',
           en_authorisation = None, en_authorisation_sig = None\<rparr>"
  obtain r where r: "mandate_rec m (hex (wd_tik W)) = Inr r" "enrolled_instance r = Some (hex (mock_instance tee))"
    using own by (auto simp: owned_def)
  have rec1: "mandate_rec m1 = mandate_rec m" using mandate_rec_cong [of m1 m] s by simp
  let ?m2 = "emit_event m1 [ES ''enroll-rejected'', ES (take 16 (hex (wd_tik W))), ES ''already enrolled'']"
  have d: "enroll_decide (dr_ins D j) m1 ?e = (Inr (False, ''identity already enrolled; re-enrolment is an operator action''), ?m2)"
    using r rec1 s(2) challenge_nonce [OF c] time noauth
    by (simp add: enroll_decide_def Let_def enroll_permitted_def enroll_bind_def enroll_reject_def)
  obtain o3 m3 where rd: "record_decision (dr_ins D j) ?m2 ''enroll'' (wd_tik W) False
      ''identity already enrolled; re-enrolment is an operator action'' None = (o3, m3)" by fastforce
  have e: "enroll (dr_ins D j) m1 ?e = (Inr (False, ''identity already enrolled; re-enrolment is an operator action''), m3)"
    using d rd by (simp add: enroll_eq)
  have "log_inv m1" using own s log_inv_step [of m m1] by (auto simp: owned_def log_step_def)
  then have "log_inv m3" using log_inv_step [OF enroll_steps(1) [OF e]] by simp
  then have "owned W pubs tee ta ws m3"
    using own record_decision_sel [OF rd] s rec1 by (simp add: owned_def)
  with c e show ?thesis by (auto simp: enrol_on_def)
qed

end
