(* ===== verification/Attack_Proofs.thy ===== *)
theory Attack_Proofs
  imports Attack_Steps
begin

text \<open>
  Every attack of \<open>Attacks\<close> is stopped and the honest control passes, so the playground exits with
  status 0, whatever attacks are named on its command line.
\<close>

section \<open>The attacks on a chain are stopped\<close>

definition fair_world :: "world \<Rightarrow> bool" where
  "fair_world W \<longleftrightarrow> sound_crypto W \<and> any_set (wd_inst_a W) \<and> any_set (wd_inst_b W) \<and> wd_inst_a W \<noteq> wd_inst_b W"

definition fair_draws :: "draws \<Rightarrow> bool" where
  "fair_draws D \<longleftrightarrow> (\<forall>j. t_check (dr_ins D j) < dr_now D j + 300) \<and> length (dr_t D) < 256 \<and> length (dr_t2 D) < 256
     \<and> length (dr_e D) = length (dr_e2 D) \<and> length (dr_e2 D) \<le> 128 \<and> dr_e D \<noteq> dr_e2 D"

text \<open>The second link of the honest chain, under its own exporter and under the other one.\<close>

definition exporters_collide :: "world \<Rightarrow> draws \<Rightarrow> bool" where
  "exporters_collide W D \<longleftrightarrow> (let l = link_at (dr_t D) (wd_tik W) (dr_e D) 0 in
     link_collision (dr_e D, l, 1) (dr_e2 D, l, 1))"

lemma trusted_both:
  assumes "fair_world W"
  shows "trusted_tee W (both_chips W) (teeA W)" "trusted_tee W (both_chips W) (teeB W)" "sound_crypto W"
    "mock_instance (teeB W) \<noteq> mock_instance (teeA W)" "any_set (mock_instance (teeA W))"
  using assms by (auto simp: fair_world_def trusted_tee_def both_chips_def teeA_def teeB_def mock_tee_new_def)

lemma plain_readable:
  "cfg (plain_mandate W D) = attack_cfg W D (both_chips W) False" "sessions (plain_mandate W D) = Map.empty"
  "log_inv (plain_mandate W D)" "mandate_rec (plain_mandate W D) (hex b) = Inr blank"
  by (simp_all add: plain_mandate_def new_readable)

lemma enrolled_cfg: "ledger_step k R m m' \<Longrightarrow> cfg m' = cfg m"
  by (simp add: ledger_step_def)

lemma plain_enrolled:
  assumes "fair_world W" "fair_draws D"
  shows "\<exists>m. enrol_on W D 0 (teeA W) ta (plain_mandate W D) = (Inr (True, ''enrolled''), m)
    \<and> owned W (both_chips W) (teeA W) ta [] m \<and> cfg m = attack_cfg W D (both_chips W) False"
proof -
  have "t_check (dr_ins D 0) < dr_now D 0 + 300" using assms(2) by (simp add: fair_draws_def)
  from enrolled_owned [OF trusted_both(3,1) [OF assms(1)] this plain_readable(1) plain_readable(4,2,3), of ta]
  show ?thesis using enrolled_cfg plain_readable(1) by metis
qed

lemma fresh_owned:
  assumes "fair_world W" "fair_draws D"
  obtains m where "fresh_mandate W D True = Inr m" "owned W (both_chips W) (teeA W) None [] m"
    "cfg m = attack_cfg W D (both_chips W) False"
  using plain_enrolled [OF assms, of None] by (auto simp: fresh_mandate_def asserted_def)

text \<open>Two steps of the owner: the first accepted, the second made.\<close>

lemma fresh_two:
  assumes F: "fair_world W" "fair_draws D"
  obtains m msg m1 step where "fresh_mandate W D True = Inr m"
    "atk_step W D 1 (teeA W) (attester_new (wd_tik W)) m (dr_t D) (dr_e D)
      = Inr (True, ''accepted; continuity intact'', msg, attester_at (dr_t D) (wd_tik W) (dr_e D) 1, m1)"
    "running W (both_chips W) (teeA W) (dr_t D) (dr_e D) 1 m1"
    "sessions m1 = [(hex (wd_tik W), session_key (dr_t D)) \<mapsto> \<lparr>ss_prev = link_at (dr_t D) (wd_tik W) (dr_e D) 0, ss_counter = 0\<rparr>]"
    "atk_attest W D 2 (teeA W) (attester_at (dr_t D) (wd_tik W) (dr_e D) 1) (dr_t D) (dr_e D)
      = Inr (step, attester_at (dr_t D) (wd_tik W) (dr_e D) 2)"
    "msg_counter step = 1" "msg_post_link step = hex (link_at (dr_t D) (wd_tik W) (dr_e D) 1)"
    "verify_report (cfg m1) (msg_evidence step) (report_data_for (link_at (dr_t D) (wd_tik W) (dr_e D) 1) None) = Inr (True, Some (anchor_of (teeA W)))"
    "sees m1 (wd_tik W) step None None (anchor_of (teeA W))"
proof -
  note T = trusted_both [OF F(1)]
  have len: "length (dr_t D) < 256" using F(2) by (simp add: fair_draws_def)
  obtain m where m: "fresh_mandate W D True = Inr m" "owned W (both_chips W) (teeA W) None [] m"
    by (rule fresh_owned [OF F])
  then have run: "running W (both_chips W) (teeA W) (dr_t D) (dr_e D) 0 m" using owned_running T(5) by blast
  obtain msg m1 where s: "atk_step W D 1 (teeA W) (attester_at (dr_t D) (wd_tik W) (dr_e D) 0) m (dr_t D) (dr_e D)
      = Inr (True, ''accepted; continuity intact'', msg, attester_at (dr_t D) (wd_tik W) (dr_e D) (Suc 0), m1)"
    "running W (both_chips W) (teeA W) (dr_t D) (dr_e D) (Suc 0) m1"
    using running_step [OF T(3,1) run len, of D 1] by auto
  from s(1) have "\<exists>why. present (dr_ins D 1) m (wd_tik W) (dr_t D) (dr_e D) msg None None = (Inr (True, why), m1)"
    using atk_step_present by blast
  then obtain c pl r an where "step_done m (wd_tik W) (dr_t D) c pl r an m1" by (auto elim: present_True)
  moreover have "sessions m = Map.empty" using m(2) by (simp add: owned_def)
  ultimately have "sessions m1 = [(hex (wd_tik W), session_key (dr_t D)) \<mapsto> \<lparr>ss_prev = pl, ss_counter = c\<rparr>]"
    by (simp add: step_done_def)
  moreover have "sessions m1 (hex (wd_tik W), session_key (dr_t D)) = Some \<lparr>ss_prev = link_at (dr_t D) (wd_tik W) (dr_e D) 0, ss_counter = 0\<rparr>"
    using s(2) by (simp add: running_def chain_state_def)
  ultimately have ss: "sessions m1 = [(hex (wd_tik W), session_key (dr_t D)) \<mapsto> \<lparr>ss_prev = link_at (dr_t D) (wd_tik W) (dr_e D) 0, ss_counter = 0\<rparr>]"
    by simp
  obtain step where "atk_attest W D 2 (teeA W) (attester_at (dr_t D) (wd_tik W) (dr_e D) 1) (dr_t D) (dr_e D)
      = Inr (step, attester_at (dr_t D) (wd_tik W) (dr_e D) (Suc 1))"
    "msg_counter step = int 1" "msg_post_link step = hex (link_at (dr_t D) (wd_tik W) (dr_e D) 1)"
    "verify_report (cfg m1) (msg_evidence step) (report_data_for (link_at (dr_t D) (wd_tik W) (dr_e D) 1) None) = Inr (True, Some (anchor_of (teeA W)))"
    "sees m1 (wd_tik W) step None None (anchor_of (teeA W))"
    using atk_attest_link [OF T(3,1) len, of 1 D 2 "dr_e D"] s(2) by (auto simp: running_def)
  with that m(1) s ss show thesis by (simp add: attester_new_at [of _ "dr_t D" "dr_e D"] numeral_2_eq_2)
qed

lemma honest_accepted:
  assumes "fair_world W" "fair_draws D"
  shows "\<exists>out. a_honest W D = Inr (out, True)"
  by (rule fresh_two [OF assms]) (simp add: a_honest_def)

lemma rehost_stopped:
  assumes F: "fair_world W" "fair_draws D"
  shows "\<exists>out. a_rehost W D = Inr (out, True)"
proof -
  note T = trusted_both [OF F(1)]
  obtain m where m: "fresh_mandate W D True = Inr m" "owned W (both_chips W) (teeA W) None [] m" by (rule fresh_owned [OF F])
  from owned_thief [OF m(2) T(3,1,2,4), of "dr_t D" D 1 "dr_e D"] m(1) F(2) show ?thesis
    by (auto simp: a_rehost_def show_verdict_def fair_draws_def)
qed

lemma counter_refused:
  assumes "running W pubs tee t e n m" "length t < 256" "msg_counter msg \<noteq> int n" "0 \<le> msg_counter msg" "msg_counter msg < 2 ^ 64"
    and "sees m (wd_tik W) msg None None an"
  shows "\<exists>why m'. atk_present W D j m t e' msg = Inr (False, why, m')"
proof (rule running_answers [OF assms(1,2,4,5,6)])
  fix r pl an
  show "\<not> admits m (wd_tik W) t e' msg None None r pl an"
    using admits_counter [of m "wd_tik W" t e' msg None None r pl an] assms(1,3)
    by (auto simp: running_def chain_state_def split: if_splits)
qed

lemma sees_cong: "verify_report (cfg m) = verify_report (cfg m') \<Longrightarrow> sees m tik msg None None an = sees m' tik msg None None an"
  by (simp add: sees_def head_check_def)

lemma replay_stopped:
  assumes F: "fair_world W" "fair_draws D"
  shows "\<exists>out. a_replay W D = Inr (out, True)"
proof (rule fresh_two [OF F])
  fix m msg m1 step
  assume 1: "fresh_mandate W D True = Inr m"
    "atk_step W D 1 (teeA W) (attester_new (wd_tik W)) m (dr_t D) (dr_e D)
      = Inr (True, ''accepted; continuity intact'', msg, attester_at (dr_t D) (wd_tik W) (dr_e D) 1, m1)"
    and run: "running W (both_chips W) (teeA W) (dr_t D) (dr_e D) 1 m1"
    and 2: "atk_attest W D 2 (teeA W) (attester_at (dr_t D) (wd_tik W) (dr_e D) 1) (dr_t D) (dr_e D)
      = Inr (step, attester_at (dr_t D) (wd_tik W) (dr_e D) 2)"
    and step: "msg_counter step = 1" "msg_post_link step = hex (link_at (dr_t D) (wd_tik W) (dr_e D) 1)"
    "verify_report (cfg m1) (msg_evidence step) (report_data_for (link_at (dr_t D) (wd_tik W) (dr_e D) 1) None) = Inr (True, Some (anchor_of (teeA W)))"
    and sees: "sees m1 (wd_tik W) step None None (anchor_of (teeA W))"
  have len: "length (dr_t D) < 256" using F(2) by (simp add: fair_draws_def)
  obtain m2 where m2: "atk_present W D 2 m1 (dr_t D) (dr_e D) step = Inr (True, ''accepted; continuity intact'', m2)"
    "running W (both_chips W) (teeA W) (dr_t D) (dr_e D) 2 m2"
    using running_present [OF run len _ _ step(2,3), of D 2] step(1) by (auto simp: numeral_2_eq_2)
  have "sees m2 (wd_tik W) step None None (anchor_of (teeA W))"
    using sees sees_cong [of m1 m2] run m2(2) by (simp add: running_def)
  from counter_refused [OF m2(2) len _ _ _ this, of D 3 "dr_e D"] obtain why m3
    where "atk_present W D 3 m2 (dr_t D) (dr_e D) step = Inr (False, why, m3)" using step(1) by auto
  with 1 2 m2 show ?thesis by (simp add: a_replay_def show_verdict_def)
qed

lemma link_at_1: "link_at t tik e 1 = post_value e (link_at t tik e 0) 1"
  using link_at.simps(2) [of t tik e 0] by simp

text \<open>The second link under another exporter is accepted only on a collision, in whatever session.\<close>

lemma other_exporter_refused:
  assumes F: "fair_draws D" and run: "running W pubs tee (dr_t D) (dr_e D) 1 m1" and len: "length t' < 256"
    and ss: "sessions m1 = [(hex (wd_tik W), session_key (dr_t D)) \<mapsto> \<lparr>ss_prev = link_at (dr_t D) (wd_tik W) (dr_e D) 0, ss_counter = 0\<rparr>]"
    and step: "msg_counter step = 1" "msg_post_link step = hex (link_at (dr_t D) (wd_tik W) (dr_e D) 1)"
    and sees: "sees m1 (wd_tik W) step None None an"
  shows "(\<exists>why m'. atk_present W D j m1 t' (dr_e2 D) step = Inr (False, why, m')) \<or> exporters_collide W D"
proof (rule disjCI)
  let ?l = "link_at (dr_t D) (wd_tik W) (dr_e D) 0"
  assume no: "\<not> exporters_collide W D"
  have "\<not> admits m1 (wd_tik W) t' (dr_e2 D) step None None r pl an" for r pl an
  proof
    assume a: "admits m1 (wd_tik W) t' (dr_e2 D) step None None r pl an"
    from admits_counter [OF a] ss step(1) have k: "session_key t' = session_key (dr_t D)" by (auto split: if_splits)
    have "pl = link_at (dr_t D) (wd_tik W) (dr_e D) 1" using a step(2) by (simp add: admits_def)
    then have "post_value (dr_e D) ?l 1 = post_value (dr_e2 D) ?l 1"
      using admits_link(1) [OF a] ss k step(1) by (simp add: link_at_1 expected_base_def)
    from post_value_eqD [OF this] F no show False
      by (auto simp: fair_draws_def exporters_collide_def Let_def)
  qed
  then show "\<exists>why m'. atk_present W D j m1 t' (dr_e2 D) step = Inr (False, why, m')"
    using step(1) by (intro running_answers [OF run len _ _ sees]) simp_all
qed

lemma relay_stopped:
  assumes F: "fair_world W" "fair_draws D"
  shows "(\<exists>out. a_relay W D = Inr (out, True)) \<or> exporters_collide W D"
    and "(\<exists>out. a_splice W D = Inr (out, True)) \<or> exporters_collide W D"
proof -
  obtain m msg m1 step where 1: "fresh_mandate W D True = Inr m"
    "atk_step W D 1 (teeA W) (attester_new (wd_tik W)) m (dr_t D) (dr_e D)
      = Inr (True, ''accepted; continuity intact'', msg, attester_at (dr_t D) (wd_tik W) (dr_e D) 1, m1)"
    and run: "running W (both_chips W) (teeA W) (dr_t D) (dr_e D) 1 m1"
    and ss: "sessions m1 = [(hex (wd_tik W), session_key (dr_t D)) \<mapsto> \<lparr>ss_prev = link_at (dr_t D) (wd_tik W) (dr_e D) 0, ss_counter = 0\<rparr>]"
    and 2: "atk_attest W D 2 (teeA W) (attester_at (dr_t D) (wd_tik W) (dr_e D) 1) (dr_t D) (dr_e D)
      = Inr (step, attester_at (dr_t D) (wd_tik W) (dr_e D) 2)"
    and step: "msg_counter step = 1" "msg_post_link step = hex (link_at (dr_t D) (wd_tik W) (dr_e D) 1)"
      "sees m1 (wd_tik W) step None None (anchor_of (teeA W))"
    by (rule fresh_two [OF F])
  have "length (dr_t D) < 256" "length (dr_t2 D) < 256" using F(2) by (simp_all add: fair_draws_def)
  note r = other_exporter_refused [OF F(2) run _ ss step]
  show "(\<exists>out. a_relay W D = Inr (out, True)) \<or> exporters_collide W D"
    using r [OF \<open>length (dr_t D) < 256\<close>, of 2] 1 2 by (auto simp: a_relay_def show_verdict_def)
  show "(\<exists>out. a_splice W D = Inr (out, True)) \<or> exporters_collide W D"
    using r [OF \<open>length (dr_t2 D) < 256\<close>, of 2] 1 2 by (auto simp: a_splice_def show_verdict_def)
qed

lemma forge_stopped:
  assumes F: "fair_world W" "fair_draws D"
  shows "\<exists>out. a_forge_malleable W D = Inr (out, True)"
proof -
  note T = trusted_both [OF F(1)]
  have len: "length (dr_t D) < 256" using F(2) by (simp add: fair_draws_def)
  obtain m where m: "fresh_mandate W D True = Inr m" "owned W (both_chips W) (teeA W) None [] m" by (rule fresh_owned [OF F])
  have run: "running W (both_chips W) (teeA W) (dr_t D) (dr_e D) 0 m" by (rule owned_running [OF m(2) T(5)])
  obtain step where step: "atk_attest W D 1 (teeA W) (attester_new (wd_tik W)) (dr_t D) (dr_e D)
      = Inr (step, attester_at (dr_t D) (wd_tik W) (dr_e D) (Suc 0))" "msg_counter step = int 0"
    "msg_post_link step = hex (link_at (dr_t D) (wd_tik W) (dr_e D) 0)"
    "verify_report (cfg m) (msg_evidence step) (report_data_for (link_at (dr_t D) (wd_tik W) (dr_e D) 0) None) = Inr (True, Some (anchor_of (teeA W)))"
    "sees m (wd_tik W) step None None (anchor_of (teeA W))"
    using atk_attest_link [OF T(3,1) len, of 0 D 1 "dr_e D"] run
    by (auto simp: running_def attester_new_at [of _ "dr_t D" "dr_e D"])
  obtain m1 where m1: "atk_present W D 1 m (dr_t D) (dr_e D) step = Inr (True, ''accepted; continuity intact'', m1)"
    "running W (both_chips W) (teeA W) (dr_t D) (dr_e D) (Suc 0) m1"
    using running_present [OF run len _ step(2-4), of D 1] by auto
  have "sees m1 (wd_tik W) step None None (anchor_of (teeA W))"
    using step(5) sees_cong [of m m1] run m1(2) by (simp add: running_def)
  from counter_refused [OF m1(2) len _ _ _ this, of D 2 "dr_e D"] step m1(1) m(1) show ?thesis
    by (auto simp: a_forge_malleable_def show_verdict_def)
qed

lemma rollback_stopped:
  assumes F: "fair_world W" "fair_draws D"
  shows "\<exists>out. a_rollback_counter W D = Inr (out, True)"
proof (rule fresh_two [OF F])
  fix m msg m1
  assume 1: "fresh_mandate W D True = Inr m"
    "atk_step W D 1 (teeA W) (attester_new (wd_tik W)) m (dr_t D) (dr_e D)
      = Inr (True, ''accepted; continuity intact'', msg, attester_at (dr_t D) (wd_tik W) (dr_e D) 1, m1)"
    and run: "running W (both_chips W) (teeA W) (dr_t D) (dr_e D) 1 m1"
  note T = trusted_both [OF F(1)]
  have len: "length (dr_t D) < 256" using F(2) by (simp add: fair_draws_def)
  obtain msg2 m2 where 2: "atk_step W D 2 (teeA W) (attester_at (dr_t D) (wd_tik W) (dr_e D) 1) m1 (dr_t D) (dr_e D)
      = Inr (True, ''accepted; continuity intact'', msg2, attester_at (dr_t D) (wd_tik W) (dr_e D) (Suc 1), m2)"
    "running W (both_chips W) (teeA W) (dr_t D) (dr_e D) (Suc 1) m2"
    using running_step [OF T(3,1) run len, of D 2] by auto
  obtain b where b: "atk_attest W D 3 (teeA W) (attester_new (wd_tik W)) (dr_t D) (dr_e D)
      = Inr (b, attester_at (dr_t D) (wd_tik W) (dr_e D) (Suc 0))" "msg_counter b = 0"
    "sees m2 (wd_tik W) b None None (anchor_of (teeA W))"
    using atk_attest_link [OF T(3,1) len, of 0 D 3 "dr_e D"] 2(2)
    by (auto simp: running_def attester_new_at [of _ "dr_t D" "dr_e D"])
  from counter_refused [OF 2(2) len _ _ _ b(3), of D 3 "dr_e D"] b(1,2) 1 2(1) show ?thesis
    by (auto simp: a_rollback_counter_def show_verdict_def atk_step_def)
qed

lemma blank_opt: "opt_fromhex (enrolled_instance blank) = Inr None" "opt_fromhex (enrolled_place blank) = Inr None"
  "opt_fromhex (observed_instance blank) = Inr None"
  by (simp_all add: opt_fromhex_def)

lemma new_thief_returns:
  assumes F: "fair_world W" "fair_draws D"
  shows "\<exists>ok why msg a' m'. atk_step W D j (teeB W) (attester_new (wd_tik W))
      (mandate_new (attack_cfg W D (both_chips W) re) (MemoryStore [])) (dr_t D) (dr_e D) = Inr (ok, why, msg, a', m')"
proof -
  have "length (dr_t D) < 256" using F(2) by (simp add: fair_draws_def)
  from atk_step_returns [OF trusted_both(3,2) [OF F(1)] this new_readable(5) blank_opt] show ?thesis
    by (simp add: new_readable sessions_ok_new)
qed

lemma no_enrollment_runs:
  assumes F: "fair_world W" "fair_draws D"
  shows "\<exists>out. a_no_enrollment W D = Inr (out, True)"
  using new_thief_returns [OF F, of 1 False]
  by (auto simp: a_no_enrollment_def fresh_mandate_def plain_mandate_def)

section \<open>The attacks on an identity are stopped\<close>

lemma hijack_stopped:
  assumes F: "fair_world W" "fair_draws D"
  shows "\<exists>out. a_enrolment_hijack W D = Inr (out, True)"
proof -
  note T = trusted_both [OF F(1)]
  have D: "length (dr_t D) < 256" "t_check (dr_ins D 1) < dr_now D 1 + 300" using F(2) by (simp_all add: fair_draws_def)
  obtain m where m: "fresh_mandate W D True = Inr m" "owned W (both_chips W) (teeA W) None [] m"
    "cfg m = attack_cfg W D (both_chips W) False" by (rule fresh_owned [OF F])
  obtain v m1 where m1: "enrol_on W D 1 (teeB W) None m = (Inr v, m1)" "owned W (both_chips W) (teeA W) None [] m1"
    using owned_reenrol [OF m(2), of D 1 "teeB W" None] D(2) m(3) by auto
  from running_step [OF T(3,1) owned_running [OF m1(2) T(5)] D(1), of D 2 "dr_e D"] m(1) m1(1) show ?thesis
    by (auto simp: a_enrolment_hijack_def show_verdict_def attester_new_at [of _ "dr_t D" "dr_e D"])
qed

lemma masked_stopped:
  assumes F: "fair_world W" "fair_draws D" and z: "any_set (fst (dr_z1 D))" "any_set (fst (dr_z2 D))" "fst (dr_z1 D) \<noteq> fst (dr_z2 D)"
  shows "\<exists>out. a_masked_chip W D = Inr (out, True)"
proof -
  let ?z1 = "mock_tee_new (wd_crypto W) (zeros 64) None (fst (dr_z1 D)) (snd (dr_z1 D))"
  let ?z2 = "mock_tee_new (wd_crypto W) (zeros 64) None (fst (dr_z2 D)) (snd (dr_z2 D))"
  let ?p = "[hex (mock_pub ?z1), hex (mock_pub ?z2)]"
  have T: "trusted_tee W ?p ?z1" "trusted_tee W ?p ?z2" "mock_instance ?z2 \<noteq> mock_instance ?z1"
    using z by (auto simp: trusted_tee_def mock_tee_new_def)
  have W: "sound_crypto W" using F(1) by (simp add: fair_world_def)
  have D: "length (dr_t D) < 256" "t_check (dr_ins D 0) < dr_now D 0 + 300" using F(2) by (simp_all add: fair_draws_def)
  obtain m1 where m1: "enrol_on W D 0 ?z1 None (mandate_new (attack_cfg W D ?p False) (MemoryStore [])) = (Inr (True, ''enrolled''), m1)"
    "owned W ?p ?z1 None [] m1"
    using enrolled_owned [OF W T(1) D(2) new_readable(1,5,2,3), of None] by blast
  from owned_thief [OF m1(2) W T D(1), of D 1 "dr_e D"] m1(1) show ?thesis
    by (auto simp: a_masked_chip_def show_verdict_def Let_def)
qed

text \<open>An owned identity is still owned when the process comes back with the same directory.\<close>

lemma owned_restart:
  assumes "owned W pubs tee ta ws m" "c = attack_cfg W D pubs False"
  shows "owned W pubs tee ta ws (mandate_new c (mstore m))"
  using assms mandate_rec_cong [of "mandate_new c (mstore m)" m] by (simp add: owned_def new_readable)

lemma restart_runs:
  assumes F: "fair_world W" "fair_draws D"
  shows "\<exists>l l'. a_mandate_restart W D = Inr ([l, ''  [STOPPED ] restart, durable ledger: rejected: key presented from an instance it was not enrolled on'', l'], True)"
proof -
  note T = trusted_both [OF F(1)]
  let ?c = "attack_cfg W D (both_chips W) False"
  have D: "length (dr_t D) < 256" "t_check (dr_ins D 2) < dr_now D 2 + 300" using F(2) by (simp_all add: fair_draws_def)
  obtain m where m: "fresh_mandate W D True = Inr m" by (rule fresh_owned [OF F])
  obtain ok1 why1 where 1: "thief W D 1 (plain_mandate W D) = Inr (ok1, why1)"
    using new_thief_returns [OF F, of 1 False] by (auto simp: thief_def plain_mandate_def)
  obtain m2 where 2: "enrol_on W D 2 (teeA W) None (mandate_new ?c (FileStore (dr_dir D) [])) = (Inr (True, ''enrolled''), m2)"
    "owned W (both_chips W) (teeA W) None [] m2"
    using enrolled_owned [OF T(3,1) D(2) new_readable(1,6,2,3), of None] by blast
  have own: "owned W (both_chips W) (teeA W) None [] (mandate_new ?c (mstore m2))" by (rule owned_restart [OF 2(2) refl])
  have 3: "thief W D 3 (mandate_new ?c (mstore m2)) = Inr (False, ''rejected: key presented from an instance it was not enrolled on'')"
    using owned_thief [OF own T(3,1,2,4) D(1), of D 3 "dr_e D"] by (auto simp: thief_def)
  obtain ok4 why4 where 4: "thief W D 4 (mandate_new (attack_cfg W D (both_chips W) True) (MemoryStore [])) = Inr (ok4, why4)"
    using new_thief_returns [OF F, of 4 True] by (auto simp: thief_def)
  show ?thesis using m 1 2(1) 3 4 by (simp add: a_mandate_restart_def show_verdict_def Let_def)
qed

section \<open>The attacks on a transfer are stopped\<close>

lemma transfer_returns:
  assumes "mandate_rec m (hex tik) = Inr r" "in_window d (int_of_time (t_check i)) = Inr b" "dindex d ''nonce'' = Inr n"
  shows "\<exists>ok why m'. accept_transfer i m tik (JObj d) sig = (Inr (ok, why), m')"
proof -
  let ?now = "int_of_time (t_check i)"
  have "\<exists>plan. transfer_check (cfg m) ?now (hex tik) r (JObj d) sig = Inr plan"
    using assms(2) by (cases "enrolled_instance r"; cases "transfer_authority r") (simp_all add: transfer_check_def)
  then obtain plan where plan: "transfer_check (cfg m) ?now (hex tik) r (JObj d) sig = Inr plan" by blast
  show ?thesis
  proof (cases plan)
    case (Refuse why tag)
    with plan assms(1) show ?thesis by (auto simp: accept_transfer_def Let_def transfer_no_eq)
  next
    case (Move d' t ti w o')
    then have "JObj d = JObj d'"
      using plan transfer_check_Move [of "cfg m" ?now "hex tik" r "JObj d" sig d' t ti w o'] by (auto simp: transfer_admitted_def)
    then have "d' = d" by simp
    moreover obtain m1 where "transfer_apply i m tik r ?now d t ti w o' = (Inr (True, ''transferred to the authorised instance''), m1)"
      by (rule transfer_apply_ok [OF assms(3)]) auto
    ultimately show ?thesis using plan assms(1) Move by (auto simp: accept_transfer_def Let_def)
  qed
qed

lemma grant_refused:
  assumes "mandate_rec m (hex (wd_tik W)) = Inr r" "in_window d (int_of_time (t_check (dr_ins D j))) = Inr b" "dindex d ''nonce'' = Inr n"
    and no: "\<And>d' t ti w o'. \<not> transfer_admitted (cfg m) (int_of_time (t_check (dr_ins D j))) (hex (wd_tik W)) r (JObj d) sig d' t ti w o'"
  shows "\<exists>why m'. atk_transfer W D j m (JObj d) sig = Inr (False, why, m')"
proof -
  obtain ok why m' where t: "accept_transfer (dr_ins D j) m (wd_tik W) (JObj d) sig = (Inr (ok, why), m')"
    using transfer_returns [OF assms(1-3)] by blast
  then have "\<not> ok" using no assms(1) by (cases rule: accept_transfer_cases) auto
  with t show ?thesis by (simp add: atk_transfer_def)
qed

text \<open>The grants of the attacks: their fields, and the mandate they meet.\<close>

definition grant_dict :: "world \<Rightarrow> json \<Rightarrow> bytes \<Rightarrow> int \<Rightarrow> int \<Rightarrow> bytes \<Rightarrow> dict" where
  "grant_dict W from_v to nbf ex nonce = [(''v'', JInt 1), (''tik'', JStr (hex (wd_tik W))), (''to'', JStr (hex to)),
     (''from'', from_v), (''any_origin'', JBool False), (''nbf'', JInt nbf), (''exp'', JInt ex), (''nonce'', JStr (hex nonce))]"

lemma grant_dict_sel [simp]:
  "dget (grant_dict W f to nbf ex nonce) ''from'' = f" "dget (grant_dict W f to nbf ex nonce) ''any_origin'' = JBool False"
  "dget (grant_dict W f to nbf ex nonce) ''to'' = JStr (hex to)" "dget (grant_dict W f to nbf ex nonce) ''nonce'' = JStr (hex nonce)"
  "dindex (grant_dict W f to nbf ex nonce) ''nonce'' = Inr (JStr (hex nonce))"
  "dget (grant_dict W f to nbf ex nonce) ''v'' = JInt 1" "dget (grant_dict W f to nbf ex nonce) ''tik'' = JStr (hex (wd_tik W))"
  "in_window (grant_dict W f to nbf ex nonce) now = Inr (nbf \<le> now \<and> now \<le> ex)"
  by (simp_all add: grant_dict_def dget_def dindex_def in_window_def dget_or_def)

definition owner_grant :: "world \<Rightarrow> draws \<Rightarrow> json" where
  "owner_grant W D = JObj (grant_dict W (JStr (hex (wd_inst_a W))) (wd_inst_b W) (int_of_time (dr_grant_now D))
     (int_of_time (dr_grant_now D) + 900) (dr_grant_nonce D))"

definition grant_sig :: "world \<Rightarrow> draws \<Rightarrow> bytes \<Rightarrow> bytes" where
  "grant_sig W D key = sign_with (wd_crypto W) key WithSHA256 (dr_rnd D 2) (canonical_grant (owner_grant W D))"

lemma atk_grant_eq:
  assumes "fair_world W"
  shows "atk_grant W D key = Inr (owner_grant W D, grant_sig W D key)"
  using assms by (auto simp: fair_world_def any_set_def atk_grant_def make_grant_def grant_json_def owner_grant_def grant_sig_def grant_dict_def hex_or_null_def
      teeA_def teeB_def mock_tee_new_def at_or_now_def Let_def)

definition sighting_b :: "world \<Rightarrow> draws \<Rightarrow> sighting" where
  "sighting_b W D = \<lparr>w_instance = hex (wd_inst_b W), w_place = hex_opt (present_id (Some CHIP_B)),
     w_at = int_of_time (t_witness (dr_ins D 1))\<rparr>"

lemma transferable_owned:
  assumes F: "fair_world W" "fair_draws D"
  obtains m where "transferable_mandate W D b = Inr m"
    "owned W (both_chips W) (teeA W) (Some (public_key_of (wd_crypto W) (dr_owner D))) (if b then [sighting_b W D] else []) m"
proof -
  note T = trusted_both [OF F(1)]
  have len: "length (dr_t D) < 256" using F(2) by (simp add: fair_draws_def)
  obtain m where m: "enrol_on W D 0 (teeA W) (Some (public_key_of (wd_crypto W) (dr_owner D))) (plain_mandate W D) = (Inr (True, ''enrolled''), m)"
    "owned W (both_chips W) (teeA W) (Some (public_key_of (wd_crypto W) (dr_owner D))) [] m"
    using plain_enrolled [OF F] by blast
  show thesis
  proof (cases b)
    case False
    with m that show ?thesis by (simp add: transferable_mandate_def asserted_def)
  next
    case True
    have s: "sighting_b W D = \<lparr>w_instance = hex (mock_instance (teeB W)), w_place = hex_opt (present_id (Some (mock_chip (teeB W)))),
        w_at = int_of_time (t_witness (dr_ins D 1))\<rparr>"
      by (simp add: sighting_b_def teeB_def mock_tee_new_def)
    show ?thesis
      using owned_thief [OF m(2) T(3,1,2,4) len, of D 1 "dr_e D"] m(1) True that
      by (auto simp: transferable_mandate_def asserted_def s)
  qed
qed

lemma owned_record:
  assumes "owned W pubs tee ta ws m"
  obtains r where "mandate_rec m (hex (wd_tik W)) = Inr r" "wf_rec r" "\<not> revoked r" "enrolled_instance r = Some (hex (mock_instance tee))"
    "transfer_authority r = map_option hex ta" "witnessed r = ws" "consumed_grants r = []"
  using assms by (auto simp: owned_def)

lemma forge_grant_stopped:
  assumes F: "fair_world W" "fair_draws D"
    and sig: "verify_grant (wd_crypto W) (public_key_of (wd_crypto W) (dr_owner D)) (owner_grant W D) (grant_sig W D (dr_rogue D)) \<noteq> Inr True"
  shows "\<exists>out. a_forge_grant W D = Inr (out, True)"
proof -
  obtain m where m: "transferable_mandate W D True = Inr m"
    "owned W (both_chips W) (teeA W) (Some (public_key_of (wd_crypto W) (dr_owner D))) [sighting_b W D] m"
    using transferable_owned [OF F, of True] by auto
  obtain r where r: "mandate_rec m (hex (wd_tik W)) = Inr r" "transfer_authority r = Some (hex (public_key_of (wd_crypto W) (dr_owner D)))"
    using m(2) by (auto elim: owned_record)
  have "\<not> transfer_admitted (cfg m) now (hex (wd_tik W)) r (owner_grant W D) (grant_sig W D (dr_rogue D)) d t ti w o'" for now d t ti w o'
    using sig r(2) m(2) by (auto simp: transfer_admitted_def owned_def)
  then have "\<exists>why m'. atk_transfer W D 3 m (owner_grant W D) (grant_sig W D (dr_rogue D)) = Inr (False, why, m')"
    unfolding owner_grant_def by (intro grant_refused [OF r(1)]) simp_all
  with m(1) show ?thesis by (auto simp: a_forge_grant_def atk_grant_eq [OF F(1)] show_verdict_def)
qed

lemma redirect_grant_stopped:
  assumes F: "fair_world W" "fair_draws D"
    and sig: "verify_grant (wd_crypto W) (public_key_of (wd_crypto W) (dr_owner D)) (redirected (owner_grant W D)) (grant_sig W D (dr_owner D)) \<noteq> Inr True"
  shows "\<exists>out. a_redirect_grant W D = Inr (out, True)"
proof -
  obtain m where m: "transferable_mandate W D True = Inr m"
    "owned W (both_chips W) (teeA W) (Some (public_key_of (wd_crypto W) (dr_owner D))) [sighting_b W D] m"
    using transferable_owned [OF F, of True] by auto
  obtain r where r: "mandate_rec m (hex (wd_tik W)) = Inr r" "transfer_authority r = Some (hex (public_key_of (wd_crypto W) (dr_owner D)))"
    using m(2) by (auto elim: owned_record)
  have red: "redirected (owner_grant W D) = JObj (grant_dict W (JStr (hex (wd_inst_a W))) (replicate 32 0x99)
      (int_of_time (dr_grant_now D)) (int_of_time (dr_grant_now D) + 900) (dr_grant_nonce D))"
    by (simp add: redirected_def owner_grant_def grant_dict_def)
  have "\<not> transfer_admitted (cfg m) now (hex (wd_tik W)) r (redirected (owner_grant W D)) (grant_sig W D (dr_owner D)) d t ti w o'" for now d t ti w o'
    using sig r(2) m(2) by (auto simp: transfer_admitted_def owned_def)
  then have "\<exists>why m'. atk_transfer W D 3 m (redirected (owner_grant W D)) (grant_sig W D (dr_owner D)) = Inr (False, why, m')"
    unfolding red by (intro grant_refused [OF r(1)]) simp_all
  with m(1) show ?thesis by (auto simp: a_redirect_grant_def atk_grant_eq [OF F(1)] show_verdict_def)
qed

lemma no_origin_stopped:
  assumes F: "fair_world W" "fair_draws D"
  shows "\<exists>out. a_grant_without_origin W D = Inr (out, True)"
proof -
  obtain m where m: "transferable_mandate W D True = Inr m"
    "owned W (both_chips W) (teeA W) (Some (public_key_of (wd_crypto W) (dr_owner D))) [sighting_b W D] m"
    using transferable_owned [OF F, of True] by auto
  obtain r where r: "mandate_rec m (hex (wd_tik W)) = Inr r" using m(2) by (auto elim: owned_record)
  let ?now = "int_of_time (dr_grant_now D)"
  let ?g = "JObj (grant_dict W JNull (mock_instance (teeB W)) ?now (int_of_time (dr_grant_now2 D) + 900) (dr_grant_nonce D))"
  have g: "grant_json (wd_tik W) (mock_instance (teeB W)) None False ?now (int_of_time (dr_grant_now2 D) + 900 - ?now) (dr_grant_nonce D) = ?g"
    by (simp add: grant_json_def grant_dict_def hex_or_null_def)
  have "\<exists>why m'. atk_transfer W D 3 m ?g (sign_with (wd_crypto W) (dr_owner D) WithSHA256 (dr_rnd D 2) (canonical_grant ?g)) = Inr (False, why, m')"
    by (intro grant_refused [OF r(1)]) (auto simp: transfer_admitted_def)
  with m(1) show ?thesis by (auto simp: a_grant_without_origin_def Let_def g show_verdict_def)
qed

lemma ghost_stopped:
  assumes F: "fair_world W" "fair_draws D"
  shows "\<exists>out. a_grant_to_a_ghost W D = Inr (out, True)"
proof -
  obtain m where m: "transferable_mandate W D False = Inr m"
    "owned W (both_chips W) (teeA W) (Some (public_key_of (wd_crypto W) (dr_owner D))) [] m"
    using transferable_owned [OF F, of False] by auto
  obtain r where r: "mandate_rec m (hex (wd_tik W)) = Inr r" "witnessed r = []" using m(2) by (auto elim: owned_record)
  then have "\<exists>why m'. atk_transfer W D 3 m (owner_grant W D) (grant_sig W D (dr_owner D)) = Inr (False, why, m')"
    unfolding owner_grant_def by (intro grant_refused [OF r(1)]) (simp_all add: transfer_admitted_def)
  with m(1) show ?thesis by (auto simp: a_grant_to_a_ghost_def atk_grant_eq [OF F(1)] show_verdict_def)
qed

text \<open>The owner's grant is in its window, and the other instance was seen within the hour.\<close>

definition timely :: "draws \<Rightarrow> bool" where
  "timely D \<longleftrightarrow> (let now = int_of_time (t_check (dr_ins D 3)) in
     int_of_time (dr_grant_now D) \<le> now \<and> now \<le> int_of_time (dr_grant_now D) + 900
     \<and> now - int_of_time (t_witness (dr_ins D 1)) < 3600)"

lemma replay_grant_stopped:
  assumes F: "fair_world W" "fair_draws D" and time: "timely D"
  shows "\<exists>out. a_replay_grant W D = Inr (out, True)"
proof -
  let ?pub = "public_key_of (wd_crypto W) (dr_owner D)"
  let ?d = "grant_dict W (JStr (hex (wd_inst_a W))) (wd_inst_b W) (int_of_time (dr_grant_now D))
     (int_of_time (dr_grant_now D) + 900) (dr_grant_nonce D)"
  let ?s = "grant_sig W D (dr_owner D)"
  obtain m where m: "transferable_mandate W D True = Inr m" "owned W (both_chips W) (teeA W) (Some ?pub) [sighting_b W D] m"
    using transferable_owned [OF F, of True] by auto
  obtain r where r: "mandate_rec m (hex (wd_tik W)) = Inr r" "wf_rec r" "\<not> revoked r" "enrolled_instance r = Some (hex (wd_inst_a W))"
    "transfer_authority r = Some (hex ?pub)" "witnessed r = [sighting_b W D]" "consumed_grants r = []"
    using m(2) by (auto elim!: owned_record simp: teeA_def mock_tee_new_def)
  have "sig_correct (wd_crypto W)" "any_set (wd_inst_b W)" using F(1) by (simp_all add: fair_world_def sound_crypto_def)
  then have "transfer_admitted (cfg m) (int_of_time (t_check (dr_ins D 3))) (hex (wd_tik W)) r (JObj ?d) ?s ?d
      (hex (wd_inst_b W)) (wd_inst_b W) (sighting_b W D) False"
    using r m(2) time
    by (simp add: transfer_admitted_def owned_def timely_def Let_def py_in_def grant_sig_def owner_grant_def
        verify_grant_Inr sig_correctD) (simp add: sighting_b_def)
  then obtain m1 where t: "accept_transfer (dr_ins D 3) m (wd_tik W) (JObj ?d) ?s = (Inr (True, ''transferred to the authorised instance''), m1)"
    using transfer_accepts [OF r(1) grant_dict_sel(5)] by blast
  have wf: "wf_json (JObj ?d)" by (simp add: grant_dict_def)
  obtain r1 where r1: "mandate_rec m1 (hex (wd_tik W)) = Inr r1" "py_in (dget ?d ''nonce'') (consumed_grants r1)"
    using transfer_spends [OF t wf r(1,2)] by blast
  have "\<exists>why m'. atk_transfer W D 4 m1 (JObj ?d) ?s = Inr (False, why, m')"
    using r1 by (intro grant_refused [OF r1(1)]) (auto simp: transfer_admitted_def)
  with m(1) t show ?thesis
    by (auto simp: a_replay_grant_def atk_grant_eq [OF F(1)] owner_grant_def atk_transfer_def show_verdict_def)
qed

section \<open>The playground\<close>

definition fair_game :: "world \<Rightarrow> (string \<Rightarrow> draws) \<Rightarrow> bool" where
  "fair_game W Ds \<longleftrightarrow> fair_world W \<and> (\<forall>n. fair_draws (Ds n))
     \<and> (let D = Ds ''masked'' in any_set (fst (dr_z1 D)) \<and> any_set (fst (dr_z2 D)) \<and> fst (dr_z1 D) \<noteq> fst (dr_z2 D))
     \<and> timely (Ds ''replaygrant'')
     \<and> (let D = Ds ''forgegrant'' in
          verify_grant (wd_crypto W) (public_key_of (wd_crypto W) (dr_owner D)) (owner_grant W D) (grant_sig W D (dr_rogue D)) \<noteq> Inr True)
     \<and> (let D = Ds ''redirectgrant'' in
          verify_grant (wd_crypto W) (public_key_of (wd_crypto W) (dr_owner D)) (redirected (owner_grant W D)) (grant_sig W D (dr_owner D)) \<noteq> Inr True)"

lemma attack_stopped:
  assumes F: "fair_game W Ds" and a: "map_of ATTACKS name = Some fn"
  shows "(\<exists>out. fn W (Ds name) = Inr (out, True)) \<or> exporters_collide W (Ds ''relay'') \<or> exporters_collide W (Ds ''splice'')"
proof -
  have W: "fair_world W" and D: "fair_draws (Ds n)" for n using F by (simp_all add: fair_game_def)
  from a have "(name, fn) \<in> set ATTACKS" by (rule map_of_SomeD)
  then show ?thesis
    using honest_accepted [OF W D] rehost_stopped [OF W D] replay_stopped [OF W D] relay_stopped [OF W D]
      forge_stopped [OF W D] rollback_stopped [OF W D] no_enrollment_runs [OF W D] hijack_stopped [OF W D]
      masked_stopped [OF W D] restart_runs [OF W D] forge_grant_stopped [OF W D] replay_grant_stopped [OF W D]
      redirect_grant_stopped [OF W D] no_origin_stopped [OF W D] ghost_stopped [OF W D] F
    unfolding ATTACKS_def fair_game_def Let_def by (elim set_ConsD [THEN disjE] conjE) (simp_all, blast+)
qed

lemma play_stops:
  assumes F: "fair_game W Ds" and no: "\<not> exporters_collide W (Ds ''relay'')" "\<not> exporters_collide W (Ds ''splice'')"
  shows "tl_control s \<Longrightarrow> tl_stopped s = tl_total s \<Longrightarrow>
    \<exists>s'. play W Ds names s = Inr s' \<and> tl_control s' \<and> tl_stopped s' = tl_total s'"
proof (induction names arbitrary: s)
  case (Cons name names)
  show ?case
  proof (cases "map_of ATTACKS name")
    case None
    with Cons show ?thesis by simp
  next
    case (Some fn)
    then obtain out where "fn W (Ds name) = Inr (out, True)" using attack_stopped [OF F Some] no by blast
    with Some Cons show ?thesis by (simp add: Let_def)
  qed
qed simp

lemma playground_stops:
  assumes "fair_game W Ds"
  shows "(\<exists>out. attack_main W Ds argv = Inr (out, 0)) \<or> exporters_collide W (Ds ''relay'') \<or> exporters_collide W (Ds ''splice'')"
proof (rule disjCI)
  assume "\<not> (exporters_collide W (Ds ''relay'') \<or> exporters_collide W (Ds ''splice''))"
  then have no: "\<not> exporters_collide W (Ds ''relay'')" "\<not> exporters_collide W (Ds ''splice'')" by simp_all
  let ?s = "\<lparr>tl_out = [''HATLS attack playground (local, MockTEE). STOPPED = the mandate caught it.'' @ [CHR 0x0A]],
         tl_stopped = 0, tl_total = 0, tl_control = True\<rparr>"
  obtain s' where "play W Ds (if argv = [] then map fst ATTACKS else argv) ?s = Inr s'" "tl_control s'" "tl_stopped s' = tl_total s'"
    using play_stops [OF assms no, of ?s] by auto
  then show "\<exists>out. attack_main W Ds argv = Inr (out, 0)" by (simp add: attack_main_def Let_def)
qed

end
