(* ===== verification/Framing.thy ===== *)
theory Framing
  imports Json_Proofs
begin

text \<open>
  The messages the client and the guest exchange: one JSON value as UTF-8 text, the reply with its
  length in four bytes in front (\<open>struct.pack(">I", len(blob)) + blob\<close>). \<open>dumps_bytes\<close> is
  \<open>json.dumps(obj).encode()\<close>, in insertion order and with the default separators; \<open>loads_bytes\<close> is
  \<open>json.loads\<close> of a \<open>bytes\<close> object. Both sides build on this theory.

  Lemmas: what was framed reads back.
\<close>

definition dumps_bytes :: "json \<Rightarrow> bytes" where
  "dumps_bytes j = encode (emit default_seps j)"

text \<open>UTF-8, for code points below 256.\<close>

fun utf8_decode :: "bytes \<Rightarrow> string option" where
  "utf8_decode [] = Some []"
| "utf8_decode (b # bs) =
     (if b < 128 then map_option ((#) (char_of (unat b))) (utf8_decode bs)
      else (case bs of
          [] \<Rightarrow> None
        | c # cs \<Rightarrow> if b \<in> {0xC2, 0xC3} \<and> 0x80 \<le> c \<and> c < 0xC0
            then map_option ((#) (char_of ((unat b - 192) * 64 + (unat c - 128)))) (utf8_decode cs)
            else None))"

definition loads_bytes :: "bytes \<Rightarrow> json py" where
  "loads_bytes b = (case utf8_decode b of
     None \<Rightarrow> Inl (ValueError ''invalid start byte'')
   | Some s \<Rightarrow> (case loads s of None \<Rightarrow> Inl (ValueError ''Expecting value'') | Some j \<Rightarrow> Inr j))"

text \<open>\<open>struct.pack(">I", n)\<close>, and the unpacked length.\<close>

definition pack_len :: "nat \<Rightarrow> bytes py" where
  "pack_len n = (if n < 2 ^ 32 then Inr (be_bytes 4 (int n)) else Inl (LibError ''argument out of range''))"

definition unpack_len :: "bytes \<Rightarrow> nat" where
  "unpack_len b = nat (from_be b)"

definition frame :: "bytes \<Rightarrow> bytes py" where
  "frame blob = py_bind (pack_len (length blob)) (\<lambda>n. Inr (n @ blob))"

lemma char_of_lit: "ascii_char c \<Longrightarrow> char_of (unat (of_nat (of_char c) :: byte)) = c"
  by (simp add: ascii_char_def unat_of_nat take_bit_eq_mod)

lemma lit_small: "ascii_char c \<Longrightarrow> (of_nat (of_char c) :: byte) < 128"
  by (simp add: ascii_char_def word_less_nat_alt unat_of_nat take_bit_eq_mod)

lemma utf8_decode_lit: "list_all ascii_char s \<Longrightarrow> utf8_decode (lit s) = Some s"
  by (induction s) (simp_all add: lit_def char_of_lit lit_small)

lemma dumps_bytes_lit: "dumps_bytes j = lit (emit default_seps j)"
  by (simp add: dumps_bytes_def encode_ascii ascii_emit)

lemma loads_dumps_bytes: "wf_json j \<Longrightarrow> loads_bytes (dumps_bytes j) = Inr j"
  by (simp add: dumps_bytes_lit loads_bytes_def utf8_decode_lit ascii_emit loads_emit)

lemma frame_Inr: "length blob < 2 ^ 32 \<Longrightarrow> frame blob = Inr (be_bytes 4 (int (length blob)) @ blob)"
  by (simp add: frame_def pack_len_def)

lemma unpack_pack: "n < 2 ^ 32 \<Longrightarrow> unpack_len (be_bytes 4 (int n)) = n"
  by (simp add: unpack_len_def from_be_be_bytes)

end
