(* ===== verification/Client.thy ===== *)
theory Client
  imports Framing
begin

text \<open>
  \<open>HatlsClient\<close> of \<open>hatls/client.py\<close>: the values the relying party derives from its own TLS
  connection and the framed exchange. The connection is pyOpenSSL's, a parameter: its context, its
  handshake, the exporter, the peer's certificate, \<open>sendall\<close>, \<open>recv\<close> and \<open>shutdown\<close>
  on an abstract state \<open>'c\<close>.

  Lemmas: \<open>_recv\<close> returns exactly the bytes asked for, whatever chunks they arrive in, and a request
  returns the very value the peer framed.
\<close>

definition EXPORTER_LABEL :: bytes where
  "EXPORTER_LABEL = lit ''EXPERIMENTAL-hatls-continuity-exporter''"

definition CONTEXT_LABEL :: bytes where
  "CONTEXT_LABEL = lit ''EXPERIMENTAL-hatls-session-context''"

text \<open>The settings of an \<open>SSL.Context\<close>: the least protocol version, and whether the peer's certificate is verified.\<close>

record tls_context =
  tx_min_version :: string
  tx_locations :: "string option"
  tx_verify_peer :: bool

record 'c tls_conn =
  tc_load_verify_locations :: "string \<Rightarrow> unit py"
  tc_create_connection :: "string \<Rightarrow> int \<Rightarrow> int \<Rightarrow> 'c py"
  tc_do_handshake :: "tls_context \<Rightarrow> 'c \<Rightarrow> unit py \<times> 'c"
  tc_export :: "'c \<Rightarrow> bytes \<Rightarrow> nat \<Rightarrow> bytes \<Rightarrow> bytes py"
  tc_peer_certificate :: "'c \<Rightarrow> bytes py"
  tc_certificate_spki :: "bytes \<Rightarrow> bytes py"
  tc_sendall :: "'c \<Rightarrow> bytes \<Rightarrow> unit py \<times> 'c"
  tc_recv :: "'c \<Rightarrow> nat \<Rightarrow> bytes py \<times> 'c"
  tc_shutdown :: "'c \<Rightarrow> unit py \<times> 'c"
  tc_close :: "'c \<Rightarrow> unit py \<times> 'c"

record client =
  cl_host :: string
  cl_port :: int
  cl_timeout :: int
  cl_ca_file :: "string option"

definition client_new :: "string \<Rightarrow> int \<Rightarrow> int option \<Rightarrow> string option \<Rightarrow> client" where
  "client_new host port timeout ca_file =
     \<lparr>cl_host = host, cl_port = port, cl_timeout = (case timeout of None \<Rightarrow> 30 | Some t \<Rightarrow> t), cl_ca_file = ca_file\<rparr>"

text \<open>
  \<open>__enter__\<close>: TLS 1.3 only, the peer's certificate checked against \<open>ca_file\<close> when one is given; the
  socket is connected and the handshake run. What is raised leaves no client.
\<close>

definition client_context :: "'c tls_conn \<Rightarrow> client \<Rightarrow> tls_context py" where
  "client_context T cl = (case cl_ca_file cl of
     Some f \<Rightarrow> if f \<noteq> [] then py_bind (tc_load_verify_locations T f)
         (\<lambda>_. Inr \<lparr>tx_min_version = ''TLS1_3'', tx_locations = Some f, tx_verify_peer = True\<rparr>)
       else Inr \<lparr>tx_min_version = ''TLS1_3'', tx_locations = None, tx_verify_peer = False\<rparr>
   | None \<Rightarrow> Inr \<lparr>tx_min_version = ''TLS1_3'', tx_locations = None, tx_verify_peer = False\<rparr>)"

definition client_enter :: "'c tls_conn \<Rightarrow> client \<Rightarrow> 'c py" where
  "client_enter T cl =
     py_bind (client_context T cl) (\<lambda>ctx.
     py_bind (tc_create_connection T (cl_host cl) (cl_port cl) (cl_timeout cl)) (\<lambda>c.
     (case tc_do_handshake T ctx c of (Inl x, _) \<Rightarrow> Inl x | (Inr _, c1) \<Rightarrow> Inr c1)))"

text \<open>\<open>__exit__\<close>: shut down and close, ignoring what either raises; exceptions of the body propagate.\<close>

definition client_exit :: "'c tls_conn \<Rightarrow> 'c \<Rightarrow> bool \<times> 'c" where
  "client_exit T c = (let (_, c1) = tc_shutdown T c; (_, c2) = tc_close T c1 in (False, c2))"

definition exporter :: "'c tls_conn \<Rightarrow> 'c \<Rightarrow> bytes py" where
  "exporter T c = tc_export T c EXPORTER_LABEL 32 []"

definition session_context :: "'c tls_conn \<Rightarrow> 'c \<Rightarrow> bytes py" where
  "session_context T c = tc_export T c CONTEXT_LABEL 48 []"

definition peer_identity_key :: "'c tls_conn \<Rightarrow> 'c \<Rightarrow> bytes py" where
  "peer_identity_key T c = py_bind (tc_peer_certificate T c) (tc_certificate_spki T)"

partial_function (option) recv_loop :: "'c tls_conn \<Rightarrow> 'c \<Rightarrow> nat \<Rightarrow> bytes \<Rightarrow> (bytes py \<times> 'c) option" where
  "recv_loop T c n b =
     (if length b < n then
        (case tc_recv T c (n - length b) of
           (Inl x, c') \<Rightarrow> Some (Inl x, c')
         | (Inr chunk, c') \<Rightarrow>
             if chunk = [] then Some (Inl (ConnectionError ''peer closed mid-message''), c')
             else recv_loop T c' n (b @ chunk))
      else Some (Inr b, c))"

definition client_recv :: "'c tls_conn \<Rightarrow> 'c \<Rightarrow> nat \<Rightarrow> (bytes py \<times> 'c) option" where
  "client_recv T c n = recv_loop T c n []"

definition client_request :: "'c tls_conn \<Rightarrow> 'c \<Rightarrow> json \<Rightarrow> (json py \<times> 'c) option" where
  "client_request T c obj = (case tc_sendall T c (encode (emit default_seps obj @ [CHR 0x0A])) of
     (Inl x, c1) \<Rightarrow> Some (Inl x, c1)
   | (Inr _, c1) \<Rightarrow> Option.bind (client_recv T c1 4) (\<lambda>(r, c2). case r of
       Inl x \<Rightarrow> Some (Inl x, c2)
     | Inr h \<Rightarrow> Option.bind (client_recv T c2 (unpack_len h)) (\<lambda>(r, c3). case r of
         Inl x \<Rightarrow> Some (Inl x, c3)
       | Inr b \<Rightarrow> Some (loads_bytes b, c3))))"

section \<open>What arrives\<close>

text \<open>
  Documented behaviour of \<open>recv\<close>: between one and the requested number of bytes of what the peer
  sent, in order. \<open>inbox\<close> names what is still to be read in a state.
\<close>

definition delivers :: "'c tls_conn \<Rightarrow> ('c \<Rightarrow> bytes) \<Rightarrow> bool" where
  "delivers T inbox \<longleftrightarrow> (\<forall>c n. inbox c \<noteq> [] \<and> 0 < n \<longrightarrow>
     (\<exists>d c'. tc_recv T c n = (Inr d, c') \<and> d \<noteq> [] \<and> length d \<le> n \<and> inbox c = d @ inbox c'))"

lemma recv_loop_delivers:
  assumes "delivers T inbox"
  shows "n - length b \<le> length (inbox c) \<Longrightarrow> length b \<le> n \<Longrightarrow>
    \<exists>c'. recv_loop T c n b = Some (Inr (b @ take (n - length b) (inbox c)), c') \<and> inbox c' = drop (n - length b) (inbox c)"
proof (induction "n - length b" arbitrary: c b rule: less_induct)
  case less
  show ?case
  proof (cases "length b < n")
    case True
    then have "inbox c \<noteq> [] \<and> 0 < n - length b" using less.prems by auto
    then obtain d c' where d: "tc_recv T c (n - length b) = (Inr d, c')" "d \<noteq> []" "length d \<le> n - length b"
      "inbox c = d @ inbox c'" using assms unfolding delivers_def by blast
    have "\<exists>c2. recv_loop T c' n (b @ d) = Some (Inr ((b @ d) @ take (n - length (b @ d)) (inbox c')), c2)
        \<and> inbox c2 = drop (n - length (b @ d)) (inbox c')"
      using d True less.prems by (intro less.hyps) (auto simp: diff_less_mono2)
    then show ?thesis
      using True d by (subst recv_loop.simps) (auto simp: diff_diff_left)
  qed (use less.prems in \<open>subst recv_loop.simps, auto\<close>)
qed

lemma client_recv_delivers:
  assumes "delivers T inbox" "n \<le> length (inbox c)"
  obtains c' where "client_recv T c n = Some (Inr (take n (inbox c)), c')" "inbox c' = drop n (inbox c)"
  using recv_loop_delivers [OF assms(1), of n "[]" c] assms(2) by (auto simp: client_recv_def)

lemma client_request_reads:
  assumes "delivers T inbox" "tc_sendall T c (dumps_bytes req @ [0x0A]) = (Inr u, c1)"
    and "frame (dumps_bytes reply) = Inr out" "inbox c1 = out @ rest" "wf_json reply"
  shows "\<exists>c'. client_request T c req = Some (Inr reply, c') \<and> inbox c' = rest"
proof -
  let ?b = "dumps_bytes reply"
  have n: "length ?b < 2 ^ 32" using assms(3) by (auto simp: frame_def pack_len_def split: if_splits)
  then have out: "out = be_bytes 4 (int (length ?b)) @ ?b" using assms(3) frame_Inr by auto
  have "4 \<le> length (inbox c1)" unfolding assms(4) out by (simp add: len_simps)
  then obtain c2 where c2: "client_recv T c1 4 = Some (Inr (be_bytes 4 (int (length ?b))), c2)" "inbox c2 = ?b @ rest"
    by (rule client_recv_delivers [OF assms(1)]) (simp_all add: assms(4) out len_simps)
  obtain c3 where c3: "client_recv T c2 (length ?b) = Some (Inr ?b, c3)" "inbox c3 = rest"
    by (rule client_recv_delivers [OF assms(1), of "length ?b" c2]) (simp_all add: c2)
  have "encode (emit default_seps req @ [CHR 0x0A]) = dumps_bytes req @ [0x0A]"
    by (simp add: dumps_bytes_def encode_def utf8_char_def)
  then show ?thesis
    using assms(2) c2 c3 n by (simp add: client_request_def unpack_pack loads_dumps_bytes assms(5))
qed

end
