(* ===== verification/Transcript.thy ===== *)
theory Transcript
  imports Binder
begin

text \<open>
  The functions of \<open>hatls/transcript.py\<close>: the binder of draft-fossati-seat-early-attestation-07
  and the extraction of ClientHello and ServerHello from the recorded byte streams
  (\<open>BioConnection\<close>, which records them, is in \<open>Connection\<close>).

  Lemmas: reassembly of the first handshake message from any fragmentation into records, and the
  length of the binder.
\<close>

unbundle bit_operations_syntax

section \<open>The binder\<close>

definition HRR_RANDOM :: bytes where
  "HRR_RANDOM = [0xcf, 0x21, 0xad, 0x74, 0xe5, 0x9a, 0x61, 0x11, 0xbe, 0x1d, 0x8c, 0x02, 0x1e, 0x65, 0xb8, 0x91,
     0xc2, 0xa2, 0x11, 0x16, 0x7a, 0xbb, 0x8c, 0x5e, 0x07, 0x9e, 0x09, 0xe2, 0xc8, 0xa8, 0x33, 0x9c]"

definition tls13_hkdf_expand_label :: "bytes \<Rightarrow> bytes \<Rightarrow> bytes \<Rightarrow> nat \<Rightarrow> hash_alg \<Rightarrow> bytes py" where
  "tls13_hkdf_expand_label secret label context' n H =
     py_bind (hkdf_info (lit ''tls13 '' @ label) context' n) (\<lambda>info. hkdf_expand secret info n H)"

definition suite_hash :: "string \<Rightarrow> hash_alg py" where
  "suite_hash cipher_name =
     (if ends_with cipher_name ''_SHA384'' then Inr SHA384
      else if ends_with cipher_name ''_SHA256'' then Inr SHA256
      else Inl (ValueError (''not a TLS 1.3 suite: '' @ cipher_name)))"

text \<open>The loop: \<open>stream\<close> is what is left of the stream from index \<open>i\<close> on, \<open>hs\<close> the handshake bytes so far.\<close>

function fhm_loop :: "bytes \<Rightarrow> bytes \<Rightarrow> byte \<Rightarrow> bytes option" where
  "fhm_loop stream hs msg_type =
     (if 5 \<le> length stream then
        (let ctype = stream ! 0;
             rlen = nat (from_be (slice 3 5 stream));
             body = slice 5 (5 + rlen) stream;
             rest = drop (5 + rlen) stream in
         if ctype \<noteq> 0x16 then (if hs \<noteq> [] then None else fhm_loop rest hs msg_type)
         else
           (let hs' = hs @ body in
            if 4 \<le> length hs' then
              (let t = hs' ! 0; L = nat (from_be (slice 1 4 hs')) in
               if 4 + L \<le> length hs' then (if t = msg_type then Some (take (4 + L) hs') else None)
               else fhm_loop rest hs' msg_type)
            else fhm_loop rest hs' msg_type))
      else None)"
  by pat_completeness auto
termination by (relation "measure (\<lambda>(s, h, t). length s)") auto

declare fhm_loop.simps [simp del]

definition first_handshake_message :: "bytes \<Rightarrow> byte \<Rightarrow> bytes option" where
  "first_handshake_message stream msg_type = fhm_loop stream [] msg_type"

definition transcript_ch_sh :: "bytes \<Rightarrow> bytes \<Rightarrow> (bytes \<times> bytes) py" where
  "transcript_ch_sh client_to_server server_to_client =
     (case (first_handshake_message client_to_server 0x01, first_handshake_message server_to_client 0x02) of
        (Some ch, Some sh) \<Rightarrow>
          if slice 6 38 sh = HRR_RANDOM
          then Inl (ValueError ''HelloRetryRequest handshake: the CH..SH transcript is not the simple concatenation'')
          else Inr (ch, sh)
      | _ \<Rightarrow> Inl (ValueError ''could not find ClientHello/ServerHello at the start of the streams''))"

definition draft_binder :: "bytes \<Rightarrow> bytes \<Rightarrow> bytes \<Rightarrow> hash_alg \<Rightarrow> bytes py" where
  "draft_binder ch sh server_spki_der H =
     (let L = digest_size H; transcript_hash = digest H (ch @ sh) in
      py_bind (tls13_hkdf_expand_label (zeros L) (lit ''attestation base'') transcript_hash L H) (\<lambda>base.
        tls13_hkdf_expand_label base (lit ''attestation'') (digest H server_spki_der) L H))"

definition binder_report_data :: "bytes \<Rightarrow> bytes py" where
  "binder_report_data binder =
     (if length binder \<le> 64 then Inr (binder @ zeros (64 - length binder)) else Inl (AssertionError []))"

section \<open>Reassembly\<close>

text \<open>A TLS record and a handshake message, as they are on the wire.\<close>

definition tls_record :: "byte \<Rightarrow> byte \<times> byte \<Rightarrow> bytes \<Rightarrow> bytes" where
  "tls_record ctype v body = ctype # fst v # snd v # be_bytes 2 (int (length body)) @ body"

definition hs_message :: "byte \<Rightarrow> bytes \<Rightarrow> bytes" where
  "hs_message t body = t # be_bytes 3 (int (length body)) @ body"

lemma length_tls_record [len_simps]: "length (tls_record c v body) = 5 + length body"
  by (simp add: tls_record_def len_simps)

lemma length_hs_message [len_simps]: "length (hs_message t body) = 4 + length body"
  by (simp add: hs_message_def len_simps)

lemma record_fields:
  assumes "length body < 65536"
  shows "(tls_record c v body @ s) ! 0 = c" "nat (from_be (slice 3 5 (tls_record c v body @ s))) = length body"
    "slice 5 (5 + length body) (tls_record c v body @ s) = body" "drop (5 + length body) (tls_record c v body @ s) = s"
proof -
  have "slice 3 5 (tls_record c v body @ s) = be_bytes 2 (int (length body))"
    by (simp add: tls_record_def slice_def len_simps)
  then show "nat (from_be (slice 3 5 (tls_record c v body @ s))) = length body"
    using assms by (simp add: from_be_be_bytes)
  show "drop (5 + length body) (tls_record c v body @ s) = s" by (simp add: len_simps)
qed (simp_all add: tls_record_def slice_def len_simps)

definition complete :: "bytes \<Rightarrow> bool" where
  "complete hs \<longleftrightarrow> 4 \<le> length hs \<and> 4 + nat (from_be (slice 1 4 hs)) \<le> length hs"

lemma fhm_loop_end: "length s < 5 \<Longrightarrow> fhm_loop s hs ty = None"
  by (subst fhm_loop.simps) simp

lemma fhm_loop_other:
  "length body < 65536 \<Longrightarrow> c \<noteq> 0x16 \<Longrightarrow>
   fhm_loop (tls_record c v body @ s) hs ty = (if hs = [] then fhm_loop s [] ty else None)"
  by (subst fhm_loop.simps) (simp add: Let_def record_fields [of body] len_simps)

lemma fhm_loop_handshake:
  "length body < 65536 \<Longrightarrow>
   fhm_loop (tls_record 0x16 v body @ s) hs ty =
    (if complete (hs @ body)
     then (if (hs @ body) ! 0 = ty then Some (take (4 + nat (from_be (slice 1 4 (hs @ body)))) (hs @ body)) else None)
     else fhm_loop s (hs @ body) ty)"
  by (subst fhm_loop.simps) (simp add: Let_def record_fields [of body] len_simps complete_def)

lemma message_prefix:
  assumes "hs @ r = hs_message t body @ extra" "length body < 2 ^ 24"
  shows "complete hs \<longleftrightarrow> 4 + length body \<le> length hs"
    and "complete hs \<Longrightarrow> hs ! 0 = t \<and> take (4 + nat (from_be (slice 1 4 hs))) hs = hs_message t body"
proof -
  have L: "nat (from_be (slice 1 4 hs)) = length body" if "4 \<le> length hs"
  proof -
    have "slice 1 4 hs = slice 1 4 (hs @ r)" using that by (simp add: slice_def)
    also have "\<dots> = be_bytes 3 (int (length body))"
      unfolding assms(1) by (simp add: hs_message_def slice_def len_simps)
    finally show ?thesis using assms(2) by (simp add: from_be_be_bytes)
  qed
  then show "complete hs \<longleftrightarrow> 4 + length body \<le> length hs" by (auto simp: complete_def)
  assume c: "complete hs"
  then have n: "4 \<le> length hs" "4 + length body \<le> length hs" using L by (auto simp: complete_def)
  have "take (4 + length body) hs = take (4 + length body) (hs @ r)" using n by simp
  also have "\<dots> = hs_message t body" unfolding assms(1) by (simp add: len_simps)
  finally have t: "take (4 + length body) hs = hs_message t body" .
  moreover have "hs ! 0 = take (4 + length body) hs ! 0" by simp
  ultimately show "hs ! 0 = t \<and> take (4 + nat (from_be (slice 1 4 hs))) hs = hs_message t body"
    using L n by (simp add: hs_message_def)
qed

lemma fhm_loop_fragments:
  "hs @ concat frs = hs_message t body @ extra \<Longrightarrow> length body < 2 ^ 24 \<Longrightarrow> \<not> complete hs \<Longrightarrow>
   list_all (\<lambda>f. length f < 65536) frs \<Longrightarrow>
   fhm_loop (concat (map (tls_record 0x16 v) frs) @ rest) hs ty = (if t = ty then Some (hs_message t body) else None)"
proof (induction frs arbitrary: hs)
  case Nil
  then have "4 + length body \<le> length hs" by (simp add: len_simps)
  then show ?case using message_prefix(1) [of hs "[]"] Nil by simp
next
  case (Cons f frs)
  have eq: "(hs @ f) @ concat frs = hs_message t body @ extra" using Cons.prems(1) by simp
  show ?case
  proof (cases "complete (hs @ f)")
    case True
    then show ?thesis
      using Cons.prems message_prefix(2) [OF eq Cons.prems(2)] by (simp add: fhm_loop_handshake)
  next
    case False
    then show ?thesis
      using Cons.IH [OF eq Cons.prems(2)] Cons.prems(4) by (simp add: fhm_loop_handshake)
  qed
qed

lemma fhm_loop_leading:
  "list_all (\<lambda>(c, f). c \<noteq> 0x16 \<and> length f < 65536) pre \<Longrightarrow>
   fhm_loop (concat (map (\<lambda>(c, f). tls_record c v f) pre) @ s) [] ty = fhm_loop s [] ty"
  by (induction pre) (auto simp: fhm_loop_other)

lemma first_message_fragments:
  assumes "concat frs = hs_message t body @ extra" "length body < 2 ^ 24" "list_all (\<lambda>f. length f < 65536) frs"
    and "list_all (\<lambda>(c, f). c \<noteq> 0x16 \<and> length f < 65536) pre"
  shows "first_handshake_message
      (concat (map (\<lambda>(c, f). tls_record c v f) pre) @ concat (map (tls_record 0x16 v) frs) @ rest) ty
    = (if t = ty then Some (hs_message t body) else None)"
proof -
  have "\<not> complete []" by (simp add: complete_def)
  from fhm_loop_fragments [OF _ assms(2) this assms(3)] assms(1) show ?thesis
    unfolding first_handshake_message_def fhm_loop_leading [OF assms(4)] by simp
qed

section \<open>The binder's value\<close>

context hash_function
begin

lemma tls13_label_ok:
  assumes "n \<le> 255 * digest_size H" "n < 65536" "length label \<le> 249" "length ctx < 256"
  shows "\<exists>k. tls13_hkdf_expand_label s label ctx n H = Inr k \<and> length k = n"
  using hkdf_expand_ok [OF assms(1)] assms(2-4)
  by (simp add: tls13_hkdf_expand_label_def hkdf_info_ok len_simps)

lemma draft_binder_ok:
  assumes "digest_size H < 256"
  shows "\<exists>b. draft_binder ch sh spki H = Inr b \<and> length b = digest_size H"
proof -
  let ?L = "digest_size H"
  have n: "?L \<le> 255 * digest_size H" "?L < 65536" using assms digest_size_pos by auto
  obtain base where "tls13_hkdf_expand_label (zeros ?L) (lit ''attestation base'') (digest H (ch @ sh)) ?L H = Inr base"
    using tls13_label_ok [OF n, of "lit ''attestation base''" "digest H (ch @ sh)"] assms by (auto simp: digest_len len_simps)
  moreover obtain b where "tls13_hkdf_expand_label base (lit ''attestation'') (digest H spki) ?L H = Inr b \<and> length b = ?L"
    using tls13_label_ok [OF n, of "lit ''attestation''" "digest H spki"] assms by (auto simp: digest_len len_simps)
  ultimately show ?thesis by (simp add: draft_binder_def Let_def)
qed

end

end
