(* ===== verification/Connection.thy ===== *)
theory Connection
  imports Transcript
begin

text \<open>
  \<open>BioConnection\<close> of \<open>hatls/transcript.py\<close>, the TLS connection over memory BIOs that records its
  handshake. pyOpenSSL is a parameter: a record of the operations of \<open>SSL.Connection\<close> on an
  abstract state \<open>'c\<close>. The loops are partial functions, whose \<open>None\<close> is not returning.

  Lemmas: what \<open>sent\<close> and \<open>received\<close> hold during a handshake and after it, and that every loop
  returns when the library's output drains and the peer's input is finite.
\<close>

section \<open>The connection\<close>

text \<open>What a call of pyOpenSSL does: \<open>SSL.WantReadError\<close>, another exception, or a result.\<close>

datatype 'a ssl = WantRead | Raises exn | Done 'a

record 'c ssl_ops =
  ssl_bio_read :: "'c \<Rightarrow> nat \<Rightarrow> bytes ssl \<times> 'c"
  ssl_bio_write :: "'c \<Rightarrow> bytes \<Rightarrow> unit py \<times> 'c"
  ssl_do_handshake :: "'c \<Rightarrow> unit ssl \<times> 'c"
  ssl_recv :: "'c \<Rightarrow> nat \<Rightarrow> bytes ssl \<times> 'c"
  ssl_sendall :: "'c \<Rightarrow> bytes \<Rightarrow> unit py \<times> 'c"
  ssl_shutdown :: "'c \<Rightarrow> unit py \<times> 'c"

text \<open>
  The socket: what the peer will have sent, chunk by chunk as \<open>recv\<close> returns it (nothing left is
  end of file), everything written to it, and whether it is broken.
\<close>

record wire =
  wr_in :: "bytes list"
  wr_out :: bytes
  wr_broken :: bool

definition sock_recv :: "wire \<Rightarrow> bytes py \<times> wire" where
  "sock_recv w = (if wr_broken w then (Inl (OSError ''socket''), w)
     else (case wr_in w of [] \<Rightarrow> (Inr [], w) | d # r \<Rightarrow> (Inr d, w\<lparr>wr_in := r\<rparr>)))"

definition sock_sendall :: "wire \<Rightarrow> bytes \<Rightarrow> unit py \<times> wire" where
  "sock_sendall w d = (if wr_broken w then (Inl (OSError ''socket''), w) else (Inr (), w\<lparr>wr_out := wr_out w @ d\<rparr>))"

record 'c bio =
  bio_conn :: 'c
  bio_sock :: wire
  bio_sent :: bytes
  bio_received :: bytes
  bio_recording :: bool

definition bio_new :: "'c \<Rightarrow> wire \<Rightarrow> 'c bio" where
  "bio_new c w = \<lparr>bio_conn = c, bio_sock = w, bio_sent = [], bio_received = [], bio_recording = True\<rparr>"

text \<open>Sequencing of calls that may raise or not return.\<close>

definition bio_then :: "('a py \<times> 's) option \<Rightarrow> ('a \<Rightarrow> 's \<Rightarrow> ('b py \<times> 's) option) \<Rightarrow> ('b py \<times> 's) option" where
  "bio_then m f = Option.bind m (\<lambda>(r, s). case r of Inl x \<Rightarrow> Some (Inl x, s) | Inr v \<Rightarrow> f v s)"

lemma bio_then_mono [partial_function_mono]:
  assumes "mono_option B" "\<And>v s. mono_option (\<lambda>f. C v s f)"
  shows "mono_option (\<lambda>f. bio_then (B f) (\<lambda>v s. C v s f))"
proof -
  have "mono_option (\<lambda>f. case p of (r, s) \<Rightarrow> (case r of Inl x \<Rightarrow> Some (Inl x, s) | Inr v \<Rightarrow> C v s f))" for p
    using assms(2) by (cases p; cases "fst p") (simp_all add: option.const_mono)
  with assms(1) show ?thesis unfolding bio_then_def by (rule bind_mono)
qed

lemma bio_then_Some:
  "bio_then m f = Some y \<longleftrightarrow>
   (\<exists>x s. m = Some (Inl x, s) \<and> y = (Inl x, s)) \<or> (\<exists>v s. m = Some (Inr v, s) \<and> f v s = Some y)"
proof (cases m)
  case (Some p)
  then show ?thesis by (cases p; cases "fst p") (auto simp: bio_then_def)
qed (simp add: bio_then_def)

lemma bio_then_simps [simp]: "bio_then (Some (Inl x, s)) f = Some (Inl x, s)" "bio_then (Some (Inr v, s)) f = f v s"
  by (simp_all add: bio_then_def)

lemma bio_then_returns:
  "m = Some (r, s) \<Longrightarrow> (\<And>v. r = Inr v \<Longrightarrow> \<exists>y. f v s = Some y) \<Longrightarrow> \<exists>y. bio_then m f = Some y"
  by (cases r) auto

partial_function (option) bio_flush :: "'c ssl_ops \<Rightarrow> 'c bio \<Rightarrow> (unit py \<times> 'c bio) option" where
  "bio_flush S b = (case ssl_bio_read S (bio_conn b) 65536 of
     (WantRead, c) \<Rightarrow> Some (Inr (), b\<lparr>bio_conn := c\<rparr>)
   | (Raises x, c) \<Rightarrow> Some (Inl x, b\<lparr>bio_conn := c\<rparr>)
   | (Done data, c) \<Rightarrow> (case sock_sendall (bio_sock b) data of
       (Inl x, w) \<Rightarrow> Some (Inl x, b\<lparr>bio_conn := c, bio_sock := w\<rparr>)
     | (Inr _, w) \<Rightarrow> bio_flush S (b\<lparr>bio_conn := c, bio_sock := w,
         bio_sent := (if bio_recording b then bio_sent b @ data else bio_sent b)\<rparr>)))"

definition bio_feed :: "'c ssl_ops \<Rightarrow> 'c bio \<Rightarrow> unit py \<times> 'c bio" where
  "bio_feed S b = (case sock_recv (bio_sock b) of
     (Inl x, w) \<Rightarrow> (Inl x, b\<lparr>bio_sock := w\<rparr>)
   | (Inr data, w) \<Rightarrow>
       if data = [] then (Inl (ConnectionError ''peer closed''), b\<lparr>bio_sock := w\<rparr>)
       else (case ssl_bio_write S (bio_conn b) data of
         (r, c) \<Rightarrow> (r, b\<lparr>bio_conn := c, bio_sock := w,
            bio_received := (if bio_recording b then bio_received b @ data else bio_received b)\<rparr>)))"

text \<open>The \<open>except SSL.WantReadError\<close> branch of the loops below: flush, then feed.\<close>

definition bio_turn :: "'c ssl_ops \<Rightarrow> 'c bio \<Rightarrow> (unit py \<times> 'c bio) option" where
  "bio_turn S b = bio_then (bio_flush S b) (\<lambda>_ b1. Some (bio_feed S b1))"

partial_function (option) bio_handshake :: "'c ssl_ops \<Rightarrow> 'c bio \<Rightarrow> (unit py \<times> 'c bio) option" where
  "bio_handshake S b = (case ssl_do_handshake S (bio_conn b) of
     (Raises x, c) \<Rightarrow> Some (Inl x, b\<lparr>bio_conn := c\<rparr>)
   | (Done _, c) \<Rightarrow> bio_then (bio_flush S (b\<lparr>bio_conn := c\<rparr>)) (\<lambda>_ b1. Some (Inr (), b1\<lparr>bio_recording := False\<rparr>))
   | (WantRead, c) \<Rightarrow> bio_then (bio_turn S (b\<lparr>bio_conn := c\<rparr>)) (\<lambda>_ b1. bio_handshake S b1))"

partial_function (option) bio_recv :: "'c ssl_ops \<Rightarrow> 'c bio \<Rightarrow> nat \<Rightarrow> (bytes py \<times> 'c bio) option" where
  "bio_recv S b n = (case ssl_recv S (bio_conn b) n of
     (Raises x, c) \<Rightarrow> Some (Inl x, b\<lparr>bio_conn := c\<rparr>)
   | (Done data, c) \<Rightarrow> bio_then (bio_flush S (b\<lparr>bio_conn := c\<rparr>)) (\<lambda>_ b1. Some (Inr data, b1))
   | (WantRead, c) \<Rightarrow> bio_then (bio_turn S (b\<lparr>bio_conn := c\<rparr>)) (\<lambda>_ b1. bio_recv S b1 n))"

partial_function (option) recv_exact_loop :: "'c ssl_ops \<Rightarrow> 'c bio \<Rightarrow> nat \<Rightarrow> bytes \<Rightarrow> (bytes py \<times> 'c bio) option" where
  "recv_exact_loop S b n acc =
     (if length acc < n then
        bio_then (bio_recv S b (n - length acc)) (\<lambda>d b1. if d = [] then Some (Inl (ConnectionError ''closed''), b1)
                   else recv_exact_loop S b1 n (acc @ d))
      else Some (Inr acc, b))"

definition bio_recv_exact :: "'c ssl_ops \<Rightarrow> 'c bio \<Rightarrow> nat \<Rightarrow> (bytes py \<times> 'c bio) option" where
  "bio_recv_exact S b n = recv_exact_loop S b n []"

definition bio_sendall :: "'c ssl_ops \<Rightarrow> 'c bio \<Rightarrow> bytes \<Rightarrow> (unit py \<times> 'c bio) option" where
  "bio_sendall S b d = (case ssl_sendall S (bio_conn b) d of
     (Inl x, c) \<Rightarrow> Some (Inl x, b\<lparr>bio_conn := c\<rparr>)
   | (Inr _, c) \<Rightarrow> bio_flush S (b\<lparr>bio_conn := c\<rparr>))"

text \<open>\<open>shutdown\<close> swallows every exception.\<close>

definition bio_shutdown :: "'c ssl_ops \<Rightarrow> 'c bio \<Rightarrow> 'c bio option" where
  "bio_shutdown S b = (case ssl_shutdown S (bio_conn b) of
     (Inl x, c) \<Rightarrow> Some (b\<lparr>bio_conn := c\<rparr>)
   | (Inr _, c) \<Rightarrow> map_option snd (bio_flush S (b\<lparr>bio_conn := c\<rparr>)))"

section \<open>What is recorded\<close>

text \<open>
  While recording, \<open>sent\<close> is everything written to the socket and \<open>received\<close> what was read of the
  input \<open>ins\<close>; afterwards neither changes.
\<close>

definition records :: "bytes \<Rightarrow> 'c bio \<Rightarrow> bool" where
  "records ins b \<longleftrightarrow> bio_recording b \<and> bio_sent b = wr_out (bio_sock b)
     \<and> bio_received b @ concat (wr_in (bio_sock b)) = ins"

definition keeps :: "bytes \<Rightarrow> 'c bio \<Rightarrow> 'c bio \<Rightarrow> bool" where
  "keeps ins b b' \<longleftrightarrow> (records ins b \<longrightarrow> records ins b')
     \<and> (\<not> bio_recording b \<longrightarrow> \<not> bio_recording b' \<and> bio_sent b' = bio_sent b \<and> bio_received b' = bio_received b)"

lemma keeps_refl [simp]: "keeps ins b b"
  by (simp add: keeps_def)

lemma keeps_trans: "keeps ins b b1 \<Longrightarrow> keeps ins b1 b2 \<Longrightarrow> keeps ins b b2"
  by (simp add: keeps_def)

lemma keeps_conn [simp]: "keeps ins b (b\<lparr>bio_conn := c\<rparr>)" "keeps ins (b\<lparr>bio_conn := c\<rparr>) b' = keeps ins b b'"
  by (simp_all add: keeps_def records_def)

lemma keeps_write:
  "sock_sendall (bio_sock b) d = (Inr u, w) \<Longrightarrow>
   keeps ins b (b\<lparr>bio_conn := c, bio_sock := w, bio_sent := (if bio_recording b then bio_sent b @ d else bio_sent b)\<rparr>)"
  by (auto simp: sock_sendall_def keeps_def records_def split: if_splits)

lemma keeps_write_fails: "sock_sendall (bio_sock b) d = (Inl x, w) \<Longrightarrow> keeps ins b (b\<lparr>bio_conn := c, bio_sock := w\<rparr>)"
  by (auto simp: sock_sendall_def keeps_def records_def split: if_splits)

lemma flush_keeps: "bio_flush S b = Some y \<Longrightarrow> keeps ins b (snd y)"
proof (induction rule: bio_flush.raw_induct [rotated, consumes 1, case_names step])
  case (step flush S b y)
  then show ?case
    by (auto split: prod.split_asm ssl.split_asm sum.split_asm if_split_asm dest: keeps_write_fails
        dest!: keeps_write [of b _ _ _ ins] step.IH intro: keeps_trans)
qed

lemma feed_keeps: "keeps ins b (snd (bio_feed S b))"
  by (auto simp: bio_feed_def sock_recv_def keeps_def records_def split: prod.splits sum.splits list.splits if_splits)

lemma turn_keeps: "bio_turn S b = Some y \<Longrightarrow> keeps ins b (snd y)"
  unfolding bio_turn_def bio_then_Some
  by (auto split: sum.split_asm prod.split_asm dest!: flush_keeps [where ins = ins] intro: keeps_trans [OF _ feed_keeps])

lemma handshake_keeps:
  "bio_handshake S b = Some y \<Longrightarrow> fst y = Inr () \<Longrightarrow>
   \<exists>b1. keeps ins b b1 \<and> snd y = b1\<lparr>bio_recording := False\<rparr>"
proof (induction rule: bio_handshake.raw_induct [rotated, consumes 1, case_names step])
  case (step handshake S b y)
  show ?case
  proof (cases "ssl_do_handshake S (bio_conn b)")
    case (Pair r c)
    show ?thesis
    proof (cases r)
      case WantRead
      then obtain b1 where b1: "bio_turn S (b\<lparr>bio_conn := c\<rparr>) = Some (Inr (), b1)" "handshake S b1 = Some y"
        using step.prems Pair step.hyps by (auto simp: bio_then_Some split: sum.split_asm)
      obtain b2 where "keeps ins b1 b2" "snd y = b2\<lparr>bio_recording := False\<rparr>"
        using step.IH [OF b1(2) step.prems] by blast
      moreover have "keeps ins b b1" using turn_keeps [OF b1(1), of ins] by simp
      ultimately show ?thesis using keeps_trans by blast
    next
      case (Raises x)
      then show ?thesis using step.prems Pair step.hyps by auto
    next
      case (Done u)
      then obtain b1 where b1: "bio_flush S (b\<lparr>bio_conn := c\<rparr>) = Some (Inr (), b1)" "y = (Inr (), b1\<lparr>bio_recording := False\<rparr>)"
        using step.prems Pair step.hyps by (auto simp: bio_then_Some split: sum.split_asm)
      then show ?thesis using flush_keeps [OF b1(1), of ins] by auto
    qed
  qed
qed

lemma recv_keeps: "bio_recv S b n = Some y \<Longrightarrow> keeps ins b (snd y)"
proof (induction rule: bio_recv.raw_induct [rotated, consumes 1, case_names step])
  case (step recv S b n y)
  show ?case
  proof (cases "ssl_recv S (bio_conn b) n")
    case (Pair r c)
    show ?thesis
    proof (cases r)
      case WantRead
      then obtain r1 b1 where b1: "bio_turn S (b\<lparr>bio_conn := c\<rparr>) = Some (r1, b1)"
        "y = (Inl (projl r1), b1) \<or> recv S b1 n = Some y"
        using Pair step.hyps by (auto simp: bio_then_Some split: sum.split_asm)
      have "keeps ins b b1" using turn_keeps [OF b1(1), of ins] by simp
      then show ?thesis using b1(2) step.IH [of S b1 n y] keeps_trans by auto
    next
      case (Raises x)
      then show ?thesis using Pair step.hyps by auto
    next
      case (Done d)
      then show ?thesis using Pair step.hyps
        by (auto simp: bio_then_Some split: sum.split_asm dest: flush_keeps [where ins = ins])
    qed
  qed
qed

lemma recv_exact_keeps: "recv_exact_loop S b n acc = Some y \<Longrightarrow> keeps ins b (snd y)"
proof (induction rule: recv_exact_loop.raw_induct [rotated, consumes 1, case_names step])
  case (step loop S b n acc y)
  show ?case
  proof (cases "length acc < n")
    case True
    then obtain r b1 where b1: "bio_recv S b (n - length acc) = Some (r, b1)"
      and "snd y = b1 \<or> (\<exists>acc'. loop S b1 n acc' = Some y)"
      using step.hyps by (auto simp: bio_then_Some split: sum.split_asm if_split_asm)
    then show ?thesis using recv_keeps [OF b1, of ins] step.IH keeps_trans by fastforce
  qed (use step.hyps in auto)
qed

lemma sendall_keeps: "bio_sendall S b d = Some y \<Longrightarrow> keeps ins b (snd y)"
  by (auto simp: bio_sendall_def split: prod.split_asm sum.split_asm dest: flush_keeps [where ins = ins])

lemma shutdown_keeps: "bio_shutdown S b = Some b' \<Longrightarrow> keeps ins b b'"
  by (auto simp: bio_shutdown_def split: prod.split_asm sum.split_asm dest: flush_keeps [where ins = ins])

lemma records_new: "records (concat (wr_in w)) (bio_new c (w\<lparr>wr_out := []\<rparr>))"
  by (simp add: records_def bio_new_def)

section \<open>Returning\<close>

text \<open>Documented behaviour of a memory BIO: every successful \<open>bio_read\<close> takes something out of it.\<close>

definition drains :: "'c ssl_ops \<Rightarrow> ('c \<Rightarrow> nat) \<Rightarrow> bool" where
  "drains S pending \<longleftrightarrow> (\<forall>c n d c'. ssl_bio_read S c n = (Done d, c') \<longrightarrow> pending c' < pending c)"

lemma flush_returns:
  assumes "drains S pending"
  shows "\<exists>r b'. bio_flush S b = Some (r, b') \<and> wr_in (bio_sock b') = wr_in (bio_sock b)"
proof (induction "pending (bio_conn b)" arbitrary: b rule: less_induct)
  case less
  show ?case
  proof (cases "ssl_bio_read S (bio_conn b) 65536")
    case (Pair r c)
    show ?thesis
    proof (cases r)
      case (Done d)
      have lt: "pending c < pending (bio_conn b)" using assms Pair Done by (auto simp: drains_def)
      show ?thesis
      proof (cases "sock_sendall (bio_sock b) d")
        case (Pair u w)
        have w: "wr_in w = wr_in (bio_sock b)" using Pair by (auto simp: sock_sendall_def split: if_splits)
        let ?b = "b\<lparr>bio_conn := c, bio_sock := w, bio_sent := (if bio_recording b then bio_sent b @ d else bio_sent b)\<rparr>"
        show ?thesis
          using \<open>ssl_bio_read S (bio_conn b) 65536 = (r, c)\<close> Done Pair less [of ?b] lt w
          by (subst (1) bio_flush.simps) (auto split: sum.splits)
      qed
    qed (use Pair in \<open>subst (1) bio_flush.simps, simp\<close>)+
  qed
qed

lemma feed_consumes:
  "bio_feed S b = (Inr u, b') \<Longrightarrow> length (wr_in (bio_sock b')) < length (wr_in (bio_sock b))"
  by (auto simp: bio_feed_def sock_recv_def split: prod.splits sum.splits list.splits if_splits)

lemma turn_returns:
  assumes "drains S pending"
  shows "\<exists>r b'. bio_turn S b = Some (r, b') \<and> (\<forall>u. r = Inr u \<longrightarrow> length (wr_in (bio_sock b')) < length (wr_in (bio_sock b)))"
proof -
  obtain r b1 where f: "bio_flush S b = Some (r, b1)" "wr_in (bio_sock b1) = wr_in (bio_sock b)"
    using flush_returns [OF assms] by blast
  obtain r2 b2 where "bio_feed S b1 = (r2, b2)" by fastforce
  then show ?thesis using f feed_consumes [of S b1 _ b2] by (cases r) (auto simp: bio_turn_def)
qed

lemma handshake_returns:
  assumes "drains S pending"
  shows "\<exists>y. bio_handshake S b = Some y"
proof (induction "length (wr_in (bio_sock b))" arbitrary: b rule: less_induct)
  case less
  obtain r c where s: "ssl_do_handshake S (bio_conn b) = (r, c)" by fastforce
  let ?b = "b\<lparr>bio_conn := c\<rparr>"
  obtain r1 b1 where t: "bio_turn S ?b = Some (r1, b1)"
    "\<forall>u. r1 = Inr u \<longrightarrow> length (wr_in (bio_sock b1)) < length (wr_in (bio_sock b))"
    using turn_returns [OF assms, of ?b] by auto
  obtain r2 b2 where f: "bio_flush S ?b = Some (r2, b2)" using flush_returns [OF assms] by blast
  have "\<exists>y. bio_then (bio_turn S ?b) (\<lambda>_ b1. bio_handshake S b1) = Some y"
    using t less by (intro bio_then_returns) auto
  moreover have "\<exists>y. bio_then (bio_flush S ?b) (\<lambda>_ b1. Some (Inr (), b1\<lparr>bio_recording := False\<rparr>)) = Some y"
    using f by (intro bio_then_returns) auto
  ultimately show ?case using s by (subst bio_handshake.simps) (cases r; simp)
qed

lemma recv_returns:
  assumes "drains S pending"
  shows "\<exists>y. bio_recv S b n = Some y"
proof (induction "length (wr_in (bio_sock b))" arbitrary: b rule: less_induct)
  case less
  obtain r c where s: "ssl_recv S (bio_conn b) n = (r, c)" by fastforce
  let ?b = "b\<lparr>bio_conn := c\<rparr>"
  obtain r1 b1 where t: "bio_turn S ?b = Some (r1, b1)"
    "\<forall>u. r1 = Inr u \<longrightarrow> length (wr_in (bio_sock b1)) < length (wr_in (bio_sock b))"
    using turn_returns [OF assms, of ?b] by auto
  obtain r2 b2 where f: "bio_flush S ?b = Some (r2, b2)" using flush_returns [OF assms] by blast
  have "\<exists>y. bio_then (bio_turn S ?b) (\<lambda>_ b1. bio_recv S b1 n) = Some y"
    using t less by (intro bio_then_returns) auto
  moreover have "\<exists>y. bio_then (bio_flush S ?b) (\<lambda>_ b1. Some (Inr d, b1)) = Some y" for d :: bytes
    using f by (intro bio_then_returns) auto
  ultimately show ?case using s by (subst bio_recv.simps) (cases r; simp)
qed

lemma recv_exact_returns:
  assumes "drains S pending"
  shows "\<exists>y. recv_exact_loop S b n acc = Some y"
proof (induction "n - length acc" arbitrary: b acc rule: less_induct)
  case less
  obtain r b1 where r: "bio_recv S b (n - length acc) = Some (r, b1)" using recv_returns [OF assms] by force
  have "\<exists>y. recv_exact_loop S b1 n (acc @ d) = Some y" if "length acc < n" "d \<noteq> []" for d
    using that by (intro less) (cases d; simp)
  then have "length acc < n \<Longrightarrow> \<exists>y. bio_then (bio_recv S b (n - length acc))
      (\<lambda>d b1. if d = [] then Some (Inl (ConnectionError ''closed''), b1) else recv_exact_loop S b1 n (acc @ d)) = Some y"
    using r by (intro bio_then_returns) auto
  then show ?case by (subst recv_exact_loop.simps) simp
qed

end
