(* ===== verification/Guest_Probe.thy ===== *)
theory Guest_Probe
  imports Framing Connection Tee Transfer_Grants
begin

text \<open>
  \<open>tools/guest_probe.py\<close>, the TLS server inside the SEV-SNP guest. It has its own copies of the
  binder maths and of the transcript functions (it runs without the package); they carry the prefix
  \<open>gp_\<close> here and are proved equal to the library's. Then the service of one connection: the request,
  the enrolment reply, the static binder and the chain of links, each with the files it writes.

  The device, the exporter, the CSR and the clock are parameters of a connection (\<open>probe\<close>).
\<close>

unbundle bit_operations_syntax

section \<open>The copies\<close>

function gp_hkdf_loop :: "hash_alg \<Rightarrow> bytes \<Rightarrow> bytes \<Rightarrow> nat \<Rightarrow> bytes \<Rightarrow> bytes \<Rightarrow> nat \<Rightarrow> bytes py" where
  "gp_hkdf_loop H secret info n out t i =
     (if length out < n then
        (if i < 256 then
           (let t' = hmac H secret (t @ info @ [of_nat i]) in gp_hkdf_loop H secret info n (out @ t') t' (i + 1))
         else Inl (ValueError ''bytes must be in range(0, 256)''))
      else Inr (take n out))"
  by pat_completeness auto
termination by (relation "measure (\<lambda>(H, s, info, n, out, t, i). 256 - i)") auto

declare gp_hkdf_loop.simps [simp del]

definition gp_hkdf_expand_label :: "bytes \<Rightarrow> bytes \<Rightarrow> bytes \<Rightarrow> nat \<Rightarrow> bytes py" where
  "gp_hkdf_expand_label secret label ctx n =
     (let full = lit ''EXPERIMENTAL-hatls '' @ label in
      py_bind (to_bytes 2 (int n)) (\<lambda>nb.
      py_bind (one_byte (length full)) (\<lambda>lf.
      py_bind (one_byte (length ctx)) (\<lambda>lc.
        gp_hkdf_loop SHA384 secret (nb @ lf @ full @ lc @ ctx) n [] [] 1))))"

definition gp_intra_link :: "bytes \<Rightarrow> bytes \<Rightarrow> bytes py" where
  "gp_intra_link th tik_pub =
     py_bind (gp_hkdf_expand_label (zeros 48) (lit ''attestation base'') th 48) (\<lambda>base.
       gp_hkdf_expand_label base (lit ''attestation'') (sha384 tik_pub) 32)"

definition gp_post_link :: "bytes \<Rightarrow> bytes \<Rightarrow> int \<Rightarrow> bytes py" where
  "gp_post_link ex prev counter =
     py_bind (to_bytes 8 counter) (\<lambda>c. gp_hkdf_expand_label ex (lit ''continuity'') (prev @ c) 32)"

definition gp_report_data_for :: "bytes \<Rightarrow> bytes option \<Rightarrow> bytes" where
  "gp_report_data_for link head = (case head of
     None \<Rightarrow> sha512 (lit ''HATLS-continuity-v0'' @ link)
   | Some h \<Rightarrow> sha512 (lit ''HATLS-continuity-v1'' @ link @ h))"

definition gp_tls13_hkdf_expand_label :: "bytes \<Rightarrow> bytes \<Rightarrow> bytes \<Rightarrow> nat \<Rightarrow> hash_alg \<Rightarrow> bytes py" where
  "gp_tls13_hkdf_expand_label secret label context' n H =
     (let full = lit ''tls13 '' @ label in
      py_bind (to_bytes 2 (int n)) (\<lambda>nb.
      py_bind (one_byte (length full)) (\<lambda>lf.
      py_bind (one_byte (length context')) (\<lambda>lc.
        gp_hkdf_loop H secret (nb @ lf @ full @ lc @ context') n [] [] 1))))"

definition gp_suite_hash :: "string \<Rightarrow> hash_alg py" where
  "gp_suite_hash cipher_name =
     (if ends_with cipher_name ''_SHA384'' then Inr SHA384
      else if ends_with cipher_name ''_SHA256'' then Inr SHA256
      else Inl (ValueError cipher_name))"

function gp_fhm_loop :: "bytes \<Rightarrow> bytes \<Rightarrow> byte \<Rightarrow> bytes option" where
  "gp_fhm_loop stream hs msg_type =
     (if 5 \<le> length stream then
        (let ctype = stream ! 0;
             rlen = nat (from_be (slice 3 5 stream));
             body = slice 5 (5 + rlen) stream;
             rest = drop (5 + rlen) stream in
         if ctype \<noteq> 0x16 then (if hs \<noteq> [] then None else gp_fhm_loop rest hs msg_type)
         else
           (let hs' = hs @ body in
            if 4 \<le> length hs' then
              (let t = hs' ! 0; L = nat (from_be (slice 1 4 hs')) in
               if 4 + L \<le> length hs' then (if t = msg_type then Some (take (4 + L) hs') else None)
               else gp_fhm_loop rest hs' msg_type)
            else gp_fhm_loop rest hs' msg_type))
      else None)"
  by pat_completeness auto
termination by (relation "measure (\<lambda>(s, h, t). length s)") auto

declare gp_fhm_loop.simps [simp del]

definition gp_first_handshake_message :: "bytes \<Rightarrow> byte \<Rightarrow> bytes option" where
  "gp_first_handshake_message stream msg_type = gp_fhm_loop stream [] msg_type"

definition gp_transcript_ch_sh :: "bytes \<Rightarrow> bytes \<Rightarrow> (bytes \<times> bytes) py" where
  "gp_transcript_ch_sh client_to_server server_to_client =
     (case (gp_first_handshake_message client_to_server 0x01, gp_first_handshake_message server_to_client 0x02) of
        (Some ch, Some sh) \<Rightarrow>
          if slice 6 38 sh = HRR_RANDOM then Inl (ValueError ''HelloRetryRequest handshake not modelled'')
          else Inr (ch, sh)
      | _ \<Rightarrow> Inl (ValueError ''no ClientHello/ServerHello at the start of the streams''))"

definition gp_draft_binder :: "bytes \<Rightarrow> bytes \<Rightarrow> bytes \<Rightarrow> hash_alg \<Rightarrow> bytes py" where
  "gp_draft_binder ch sh server_spki_der H =
     (let L = digest_size H in
      py_bind (gp_tls13_hkdf_expand_label (zeros L) (lit ''attestation base'') (digest H (ch @ sh)) L H) (\<lambda>base.
        gp_tls13_hkdf_expand_label base (lit ''attestation'') (digest H server_spki_der) L H))"

text \<open>\<open>bytes(64 - len(binder))\<close> raises on a negative count.\<close>

definition gp_binder_report_data :: "bytes \<Rightarrow> bytes py" where
  "gp_binder_report_data binder =
     (if length binder \<le> 64 then Inr (binder @ zeros (64 - length binder)) else Inl (ValueError ''negative count''))"

subsection \<open>They agree with the library\<close>

lemma gp_hkdf_loop_eq: "gp_hkdf_loop H s info n out t i = hkdf_loop H s info n out t i"
proof (induction H s info n out t i rule: gp_hkdf_loop.induct)
  case (1 H s info n out t i)
  then show ?case by (subst gp_hkdf_loop.simps, subst hkdf_loop.simps) (simp add: Let_def)
qed

lemma py_bind_assoc: "py_bind (py_bind m f) g = py_bind m (\<lambda>x. py_bind (f x) g)"
  by (cases m) simp_all

lemma gp_hkdf_expand_label_eq: "gp_hkdf_expand_label s l c n = hkdf_expand_label s l c n SHA384"
  by (simp add: gp_hkdf_expand_label_def hkdf_expand_label_def hkdf_info_def hkdf_expand_def gp_hkdf_loop_eq py_bind_assoc Let_def)

lemma gp_tls13_eq: "gp_tls13_hkdf_expand_label s l c n H = tls13_hkdf_expand_label s l c n H"
  by (simp add: gp_tls13_hkdf_expand_label_def tls13_hkdf_expand_label_def hkdf_info_def hkdf_expand_def gp_hkdf_loop_eq py_bind_assoc Let_def)

lemma gp_links_eq:
  "gp_intra_link = intra_link" "gp_post_link = post_link" "gp_report_data_for = report_data_for"
  by (auto simp: fun_eq_iff gp_intra_link_def intra_link_def gp_post_link_def post_link_def gp_hkdf_expand_label_eq
      gp_report_data_for_def report_data_for_def report_preimage_def split: option.splits)

lemma gp_fhm_loop_eq: "gp_fhm_loop s hs t = fhm_loop s hs t"
proof (induction s arbitrary: hs rule: measure_induct_rule [of length])
  case (less s)
  have "gp_fhm_loop (drop (5 + r) s) h t = fhm_loop (drop (5 + r) s) h t" if "5 \<le> length s" for r h
    using that by (intro less) simp
  then show ?case unfolding gp_fhm_loop.simps [of s] fhm_loop.simps [of s] by (simp only: Let_def cong: if_cong)
qed

lemma gp_binder_eq: "gp_draft_binder = draft_binder" "gp_first_handshake_message = first_handshake_message"
  by (auto simp: fun_eq_iff gp_draft_binder_def draft_binder_def gp_tls13_eq gp_first_handshake_message_def
      first_handshake_message_def gp_fhm_loop_eq Let_def)

text \<open>The rest agrees but for the text of an exception.\<close>

definition same_value :: "'a py \<Rightarrow> 'a py \<Rightarrow> bool" where
  "same_value m m' \<longleftrightarrow> (case m of Inr x \<Rightarrow> m' = Inr x | Inl _ \<Rightarrow> \<not> py_ok m')"

lemma gp_same_value:
  "same_value (gp_suite_hash c) (suite_hash c)"
  "same_value (gp_transcript_ch_sh a b) (transcript_ch_sh a b)"
  "same_value (gp_binder_report_data b) (binder_report_data b)"
  by (auto simp: same_value_def gp_suite_hash_def suite_hash_def gp_transcript_ch_sh_def transcript_ch_sh_def
      gp_binder_eq gp_binder_report_data_def binder_report_data_def split: option.splits)

section \<open>The connection\<close>

text \<open>The probe's own \<open>BioConnection\<close>.\<close>

partial_function (option) gp_flush :: "'c ssl_ops \<Rightarrow> 'c bio \<Rightarrow> (unit py \<times> 'c bio) option" where
  "gp_flush S b = (case ssl_bio_read S (bio_conn b) 65536 of
     (WantRead, c) \<Rightarrow> Some (Inr (), b\<lparr>bio_conn := c\<rparr>)
   | (Raises x, c) \<Rightarrow> Some (Inl x, b\<lparr>bio_conn := c\<rparr>)
   | (Done data, c) \<Rightarrow> (case sock_sendall (bio_sock b) data of
       (Inl x, w) \<Rightarrow> Some (Inl x, b\<lparr>bio_conn := c, bio_sock := w\<rparr>)
     | (Inr _, w) \<Rightarrow> gp_flush S (b\<lparr>bio_conn := c, bio_sock := w,
         bio_sent := (if bio_recording b then bio_sent b @ data else bio_sent b)\<rparr>)))"

definition gp_feed :: "'c ssl_ops \<Rightarrow> 'c bio \<Rightarrow> unit py \<times> 'c bio" where
  "gp_feed S b = (case sock_recv (bio_sock b) of
     (Inl x, w) \<Rightarrow> (Inl x, b\<lparr>bio_sock := w\<rparr>)
   | (Inr data, w) \<Rightarrow>
       if data = [] then (Inl (ConnectionError ''peer closed''), b\<lparr>bio_sock := w\<rparr>)
       else (case ssl_bio_write S (bio_conn b) data of
         (r, c) \<Rightarrow> (r, b\<lparr>bio_conn := c, bio_sock := w,
            bio_received := (if bio_recording b then bio_received b @ data else bio_received b)\<rparr>)))"

definition gp_turn :: "'c ssl_ops \<Rightarrow> 'c bio \<Rightarrow> (unit py \<times> 'c bio) option" where
  "gp_turn S b = bio_then (gp_flush S b) (\<lambda>_ b1. Some (gp_feed S b1))"

partial_function (option) gp_handshake :: "'c ssl_ops \<Rightarrow> 'c bio \<Rightarrow> (unit py \<times> 'c bio) option" where
  "gp_handshake S b = (case ssl_do_handshake S (bio_conn b) of
     (Raises x, c) \<Rightarrow> Some (Inl x, b\<lparr>bio_conn := c\<rparr>)
   | (Done _, c) \<Rightarrow> bio_then (gp_flush S (b\<lparr>bio_conn := c\<rparr>)) (\<lambda>_ b1. Some (Inr (), b1\<lparr>bio_recording := False\<rparr>))
   | (WantRead, c) \<Rightarrow> bio_then (gp_turn S (b\<lparr>bio_conn := c\<rparr>)) (\<lambda>_ b1. gp_handshake S b1))"

partial_function (option) gp_recv :: "'c ssl_ops \<Rightarrow> 'c bio \<Rightarrow> nat \<Rightarrow> (bytes py \<times> 'c bio) option" where
  "gp_recv S b n = (case ssl_recv S (bio_conn b) n of
     (Raises x, c) \<Rightarrow> Some (Inl x, b\<lparr>bio_conn := c\<rparr>)
   | (Done data, c) \<Rightarrow> bio_then (gp_flush S (b\<lparr>bio_conn := c\<rparr>)) (\<lambda>_ b1. Some (Inr data, b1))
   | (WantRead, c) \<Rightarrow> bio_then (gp_turn S (b\<lparr>bio_conn := c\<rparr>)) (\<lambda>_ b1. gp_recv S b1 n))"

definition gp_sendall :: "'c ssl_ops \<Rightarrow> 'c bio \<Rightarrow> bytes \<Rightarrow> (unit py \<times> 'c bio) option" where
  "gp_sendall S b d = (case ssl_sendall S (bio_conn b) d of
     (Inl x, c) \<Rightarrow> Some (Inl x, b\<lparr>bio_conn := c\<rparr>)
   | (Inr _, c) \<Rightarrow> gp_flush S (b\<lparr>bio_conn := c\<rparr>))"

definition gp_shutdown :: "'c ssl_ops \<Rightarrow> 'c bio \<Rightarrow> 'c bio option" where
  "gp_shutdown S b = (case ssl_shutdown S (bio_conn b) of
     (Inl x, c) \<Rightarrow> Some (b\<lparr>bio_conn := c\<rparr>)
   | (Inr _, c) \<Rightarrow> map_option snd (gp_flush S (b\<lparr>bio_conn := c\<rparr>)))"

lemma option_same: "(\<And>y. f = Some y \<Longrightarrow> g = Some y) \<Longrightarrow> (\<And>y. g = Some y \<Longrightarrow> f = Some y) \<Longrightarrow> f = g"
  by (cases f; cases g) auto

lemma gp_flush_eq: "(gp_flush :: 'c ssl_ops \<Rightarrow> _) = bio_flush"
proof -
  have 1: "gp_flush S b = Some y \<Longrightarrow> bio_flush S b = Some y" for S :: "'c ssl_ops" and b y
    by (induction rule: gp_flush.raw_induct [rotated, consumes 1, case_names step], subst bio_flush.simps)
      (auto split: prod.splits ssl.splits sum.splits)
  have 2: "bio_flush S b = Some y \<Longrightarrow> gp_flush S b = Some y" for S :: "'c ssl_ops" and b y
    by (induction rule: bio_flush.raw_induct [rotated, consumes 1, case_names step], subst gp_flush.simps)
      (auto split: prod.splits ssl.splits sum.splits)
  show ?thesis by (rule ext, rule ext, rule option_same) (rule 1, assumption, rule 2, assumption)
qed

lemma gp_turn_eq: "gp_turn = bio_turn"
  by (simp add: fun_eq_iff gp_turn_def bio_turn_def gp_flush_eq gp_feed_def bio_feed_def)

lemma gp_handshake_eq: "(gp_handshake :: 'c ssl_ops \<Rightarrow> _) = bio_handshake"
proof -
  have 1: "gp_handshake S b = Some y \<Longrightarrow> bio_handshake S b = Some y" for S :: "'c ssl_ops" and b y
    by (induction rule: gp_handshake.raw_induct [rotated, consumes 1, case_names step], subst bio_handshake.simps)
      (auto simp: bio_then_Some gp_flush_eq gp_turn_eq split: prod.splits ssl.splits)
  have 2: "bio_handshake S b = Some y \<Longrightarrow> gp_handshake S b = Some y" for S :: "'c ssl_ops" and b y
    by (induction rule: bio_handshake.raw_induct [rotated, consumes 1, case_names step], subst gp_handshake.simps)
      (auto simp: bio_then_Some gp_flush_eq gp_turn_eq split: prod.splits ssl.splits)
  show ?thesis by (rule ext, rule ext, rule option_same) (rule 1, assumption, rule 2, assumption)
qed

lemma gp_recv_eq: "(gp_recv :: 'c ssl_ops \<Rightarrow> _) = bio_recv"
proof -
  have 1: "gp_recv S b n = Some y \<Longrightarrow> bio_recv S b n = Some y" for S :: "'c ssl_ops" and b n y
    by (induction rule: gp_recv.raw_induct [rotated, consumes 1, case_names step], subst bio_recv.simps)
      (auto simp: bio_then_Some gp_flush_eq gp_turn_eq split: prod.splits ssl.splits)
  have 2: "bio_recv S b n = Some y \<Longrightarrow> gp_recv S b n = Some y" for S :: "'c ssl_ops" and b n y
    by (induction rule: bio_recv.raw_induct [rotated, consumes 1, case_names step], subst gp_recv.simps)
      (auto simp: bio_then_Some gp_flush_eq gp_turn_eq split: prod.splits ssl.splits)
  show ?thesis by (rule ext, rule ext, rule ext, rule option_same) (rule 1, assumption, rule 2, assumption)
qed

lemma gp_sendall_eq: "gp_sendall = bio_sendall"
  unfolding fun_eq_iff gp_sendall_def bio_sendall_def gp_flush_eq by blast

lemma gp_shutdown_eq: "gp_shutdown = bio_shutdown"
  unfolding fun_eq_iff gp_shutdown_def bio_shutdown_def gp_flush_eq by blast

section \<open>The service of one connection\<close>

text \<open>
  What \<open>main\<close> has at hand: the TLS library, the exporter and the suite of a connection, the device
  behind \<open>/dev/sev-guest\<close> (status, size and bytes of the answer to the \<open>i\<close>-th request of the
  connection), the guest's names and key, its CSR, and the measured milliseconds of a report.
\<close>

record 'c probe =
  pb_ops :: "'c ssl_ops"
  pb_export :: "'c \<Rightarrow> bytes \<Rightarrow> nat \<Rightarrow> bytes \<Rightarrow> bytes py"
  pb_cipher :: "'c \<Rightarrow> string"
  pb_device :: "nat \<Rightarrow> bytes \<Rightarrow> (nat \<times> nat \<times> bytes) py"
  pb_instance :: string
  pb_zone :: string
  pb_tik_pub :: bytes
  pb_csr :: "bytes py"
  pb_gen_ms :: "nat \<Rightarrow> json"

type_synonym files = "(string \<times> bytes) list"

definition GP_EXPORTER_LABEL :: bytes where
  "GP_EXPORTER_LABEL = lit ''EXPERIMENTAL-hatls-continuity-exporter''"

definition GP_CONTEXT_LABEL :: bytes where
  "GP_CONTEXT_LABEL = lit ''EXPERIMENTAL-hatls-session-context''"

definition snp_report :: "'c probe \<Rightarrow> nat \<Rightarrow> bytes \<Rightarrow> bytes py" where
  "snp_report P i user_data =
     py_bind (pb_device P i (take 64 user_data)) (\<lambda>(status, size, report).
       if status \<noteq> 0 \<or> size \<noteq> 1184 then Inl (RuntimeError (''fw_status '' @ dec_int (int status)))
       else Inr (take 1184 report))"

text \<open>\<open>f"conn{n:02d}..."\<close>.\<close>

definition conn_file :: "nat \<Rightarrow> string \<Rightarrow> string" where
  "conn_file n rest = ''conn'' @ (if n < 10 then ''0'' else []) @ dec_int (int n) @ rest"

definition serve_enroll :: "'c probe \<Rightarrow> dict \<Rightarrow> (bytes \<times> bytes) py" where
  "serve_enroll P req =
     py_bind (dindex req ''nonce'') (\<lambda>j.
     py_bind (fromhex_json j) (\<lambda>nonce.
     py_bind (pb_csr P) (\<lambda>csr.
     py_bind (snp_report P 0 (sha512 (nonce @ csr))) (\<lambda>rep.
       Inr (dumps_bytes (JObj [(''instance'', JStr (pb_instance P)), (''zone'', JStr (pb_zone P)),
          (''enroll'', JBool True), (''csr'', JStr (hex csr)), (''report'', JStr (b64encode rep))]), rep)))))"

fun static_rounds :: "'c probe \<Rightarrow> nat \<Rightarrow> bytes \<Rightarrow> bytes \<Rightarrow> nat list \<Rightarrow> files \<Rightarrow> json list py \<times> files" where
  "static_rounds P n rd binder [] fs = (Inr [], fs)"
| "static_rounds P n rd binder (c # cs) fs = (case snp_report P c rd of
     Inl x \<Rightarrow> (Inl x, fs)
   | Inr rep \<Rightarrow>
      (case static_rounds P n rd binder cs
           (fs @ [(conn_file n (''-static'' @ dec_int (int c) @ ''-report.bin''), rep)]) of
         (Inl x, fs') \<Rightarrow> (Inl x, fs')
       | (Inr rs, fs') \<Rightarrow> (Inr (JObj [(''round'', JInt (int c)), (''binder'', JStr (hex binder)),
            (''report'', JStr (b64encode rep))] # rs), fs')))"

text \<open>The binder of a static connection, the bytes it puts in \<open>REPORT_DATA\<close>, and the extra fields of the reply.\<close>

definition static_binder :: "'c probe \<Rightarrow> 'c bio \<Rightarrow> dict \<Rightarrow> bytes \<Rightarrow> bytes option \<Rightarrow> (bytes \<times> bytes \<times> dict) py" where
  "static_binder P b req sc head =
     (if dget req ''binder'' = JStr ''draft-transcript'' then
        py_bind (gp_transcript_ch_sh (bio_received b) (bio_sent b)) (\<lambda>(ch, sh).
        py_bind (gp_suite_hash (pb_cipher P (bio_conn b))) (\<lambda>H.
        py_bind (gp_draft_binder ch sh (pb_tik_pub P) H) (\<lambda>binder.
        py_bind (gp_binder_report_data binder) (\<lambda>rd.
          Inr (binder, rd, [(''binder_kind'', JStr ''draft-transcript''), (''suite'', JStr (pb_cipher P (bio_conn b))),
            (''transcript_sha256'', JStr (hex (sha256 (ch @ sh)))),
            (''ch_len'', JInt (int (length ch))), (''sh_len'', JInt (int (length sh)))])))))
      else py_bind (gp_intra_link sc (pb_tik_pub P)) (\<lambda>binder.
          Inr (binder, gp_report_data_for binder head, [(''binder_kind'', JStr ''session-context'')])))"

fun chain_items ::
  "'c probe \<Rightarrow> nat \<Rightarrow> bytes \<Rightarrow> bytes \<Rightarrow> bytes option \<Rightarrow> bytes \<Rightarrow> nat list \<Rightarrow> files \<Rightarrow> json list py \<times> files" where
  "chain_items P n ex sc head prev [] fs = (Inr [], fs)"
| "chain_items P n ex sc head prev (c # cs) fs =
     (case py_bind (if c \<noteq> 0 then Inr prev else gp_intra_link sc (pb_tik_pub P)) (\<lambda>base.
           py_bind (gp_post_link ex base (int c)) (\<lambda>pl.
           py_bind (snp_report P c (gp_report_data_for pl head)) (\<lambda>rep. Inr (pl, rep)))) of
        Inl x \<Rightarrow> (Inl x, fs)
      | Inr (pl, rep) \<Rightarrow>
         (case chain_items P n ex sc head pl cs
              (fs @ [(conn_file n (''-c'' @ dec_int (int c) @ ''-report.bin''), rep)]) of
            (Inl x, fs') \<Rightarrow> (Inl x, fs')
          | (Inr items, fs') \<Rightarrow> (Inr (JObj [(''counter'', JInt (int c)), (''post_link'', JStr (hex pl)),
               (''report'', JStr (b64encode rep)), (''gen_ms'', pb_gen_ms P c)] # items), fs')))"

text \<open>Send the framed reply, then write the files that follow it.\<close>

definition send_reply ::
  "'c probe \<Rightarrow> 'c bio \<Rightarrow> bytes \<Rightarrow> files \<Rightarrow> files py \<Rightarrow> (unit py \<times> 'c bio \<times> files) option" where
  "send_reply P b blob fs after = (case frame blob of
     Inl x \<Rightarrow> Some (Inl x, b, fs)
   | Inr out \<Rightarrow> map_option (\<lambda>(r, b1). case r of
         Inl x \<Rightarrow> (Inl x, b1, fs)
       | Inr _ \<Rightarrow> (case after of Inl x \<Rightarrow> (Inl x, b1, fs) | Inr written \<Rightarrow> (Inr (), b1, fs @ written)))
       (gp_sendall (pb_ops P) b out))"

definition json_file :: "string \<Rightarrow> bytes \<Rightarrow> files py" where
  "json_file name blob = py_bind (loads_bytes blob) (\<lambda>j. Inr [(name, dumps_bytes j)])"

definition serve_static :: "'c probe \<Rightarrow> nat \<Rightarrow> dict \<Rightarrow> 'c bio \<Rightarrow> int \<Rightarrow> bytes option \<Rightarrow> bytes \<Rightarrow> (unit py \<times> 'c bio \<times> files) option" where
  "serve_static P n req b steps head sc = (case static_binder P b req sc head of
     Inl x \<Rightarrow> Some (Inl x, b, [])
   | Inr (binder, rd, extra) \<Rightarrow> (case static_rounds P n rd binder [0..<nat steps] [] of
       (Inl x, fs) \<Rightarrow> Some (Inl x, b, fs)
     | (Inr rounds', fs) \<Rightarrow>
         (let blob = dumps_bytes (JObj ([(''instance'', JStr (pb_instance P)), (''zone'', JStr (pb_zone P)),
                (''static'', JBool True), (''rounds'', JList rounds')] @ extra))
          in send_reply P b blob fs (json_file (conn_file n ''-static.json'') blob))))"

definition chain_reply :: "'c probe \<Rightarrow> json list \<Rightarrow> bytes option \<Rightarrow> json" where
  "chain_reply P chain head = JObj [(''instance'', JStr (pb_instance P)), (''zone'', JStr (pb_zone P)),
     (''chain'', JList chain), (''head'', jopt (map_option hex head))]"

definition serve_chain :: "'c probe \<Rightarrow> nat \<Rightarrow> 'c bio \<Rightarrow> int \<Rightarrow> bytes option \<Rightarrow> bytes \<Rightarrow> bytes \<Rightarrow> (unit py \<times> 'c bio \<times> files) option" where
  "serve_chain P n b steps head ex sc = (case gp_intra_link sc (pb_tik_pub P) of
     Inl x \<Rightarrow> Some (Inl x, b, [])
   | Inr prev \<Rightarrow> (case chain_items P n ex sc head prev [0..<nat steps] [] of
       (Inl x, fs) \<Rightarrow> Some (Inl x, b, fs)
     | (Inr chain, fs) \<Rightarrow>
         (let blob = dumps_bytes (chain_reply P chain head)
          in send_reply P b blob fs (json_file (conn_file n ''.json'') blob))))"

text \<open>
  What follows the reply of an enrolment and of a static request: \<open>conn.shutdown()\<close> and \<open>s.close()\<close>,
  inside the body, before the \<open>finally\<close> clause does both again.
\<close>

definition close_bio :: "'c bio \<Rightarrow> 'c bio" where
  "close_bio b = b\<lparr>bio_sock := (bio_sock b)\<lparr>wr_broken := True\<rparr>\<rparr>"

definition then_close :: "'c probe \<Rightarrow> (unit py \<times> 'c bio \<times> files) option \<Rightarrow> (unit py \<times> 'c bio \<times> files) option" where
  "then_close P m = Option.bind m (\<lambda>(r, b, fs). case r of
     Inl x \<Rightarrow> Some (Inl x, b, fs)
   | Inr _ \<Rightarrow> map_option (\<lambda>b1. (Inr (), close_bio b1, fs)) (gp_shutdown (pb_ops P) b))"

definition serve_request :: "'c probe \<Rightarrow> nat \<Rightarrow> dict \<Rightarrow> 'c bio \<Rightarrow> (unit py \<times> 'c bio \<times> files) option" where
  "serve_request P n req b =
     (if truthy (dget req ''enroll'') then (case serve_enroll P req of
          Inl x \<Rightarrow> Some (Inl x, b, [])
        | Inr (blob, rep) \<Rightarrow> then_close P (send_reply P b blob [] (Inr [(conn_file n ''-enroll.bin'', rep)])))
      else (case py_bind (py_int (dget_or req ''steps'' (JInt 3))) (\<lambda>steps.
            py_bind (if truthy (dget req ''head'') then py_bind (fromhex_json (dget req ''head'')) (\<lambda>h. Inr (Some h))
                     else Inr None) (\<lambda>head.
            py_bind (pb_export P (bio_conn b) GP_EXPORTER_LABEL 32 []) (\<lambda>ex.
            py_bind (pb_export P (bio_conn b) GP_CONTEXT_LABEL 48 []) (\<lambda>sc. Inr (steps, head, ex, sc))))) of
          Inl x \<Rightarrow> Some (Inl x, b, [])
        | Inr (steps, head, ex, sc) \<Rightarrow>
            if truthy (dget req ''static'') then then_close P (serve_static P n req b steps head sc)
            else serve_chain P n b steps head ex sc))"

text \<open>\<open>while not line.endswith(b"\n") and len(line) < 300: line += conn.recv(1)\<close>.\<close>

partial_function (option) read_line :: "'c ssl_ops \<Rightarrow> 'c bio \<Rightarrow> bytes \<Rightarrow> (bytes py \<times> 'c bio) option" where
  "read_line S b line =
     (if \<not> (line \<noteq> [] \<and> last line = 0x0A) \<and> length line < 300
      then bio_then (gp_recv S b 1) (\<lambda>d b1. read_line S b1 (line @ d))
      else Some (Inr line, b))"

definition is_byte_space :: "byte \<Rightarrow> bool" where
  "is_byte_space x \<longleftrightarrow> x = 0x20 \<or> 0x09 \<le> x \<and> x \<le> 0x0D"

definition strip_bytes :: "bytes \<Rightarrow> bytes" where
  "strip_bytes s = rev (dropWhile is_byte_space (rev (dropWhile is_byte_space s)))"

text \<open>
  One turn of the accept loop: the body of \<open>try\<close>, then \<open>finally\<close>. Whatever was raised is printed and
  dropped.
\<close>

definition serve_body :: "'c probe \<Rightarrow> nat \<Rightarrow> 'c bio \<Rightarrow> (unit py \<times> 'c bio \<times> files) option" where
  "serve_body P n b = Option.bind (gp_handshake (pb_ops P) b) (\<lambda>(r, b1). case r of
     Inl x \<Rightarrow> Some (Inl x, b1, [])
   | Inr _ \<Rightarrow> Option.bind (read_line (pb_ops P) b1 []) (\<lambda>(r, b2). case r of
       Inl x \<Rightarrow> Some (Inl x, b2, [])
     | Inr line \<Rightarrow> (case loads_bytes (strip_bytes line) of
         Inl x \<Rightarrow> Some (Inl x, b2, [])
       | Inr (JObj req) \<Rightarrow> serve_request P n req b2
       | Inr _ \<Rightarrow> Some (Inl (AttributeError ''object has no attribute get''), b2, []))))"

definition serve :: "'c probe \<Rightarrow> nat \<Rightarrow> 'c bio \<Rightarrow> ('c bio \<times> files) option" where
  "serve P n b = Option.bind (serve_body P n b) (\<lambda>(r, b1, fs).
     map_option (\<lambda>b2. (close_bio b2, fs)) (gp_shutdown (pb_ops P) b1))"

end
