(* ===== verification/Relying_Party.thy ===== *)
theory Relying_Party
  imports Client Guest_Probe Mandate_Protocol
begin

text \<open>
  The relying party of \<open>examples/client_mandate.py\<close> against the guest of \<open>tools/guest_probe.py\<close>: it
  asks for a chain over its own connection, takes the identity key from the certificate and the
  binding values from its own side of the session, and presents each step to the mandate.

  Lemmas: the chain the probe serves is the chain of links both sides compute, with the device's
  reports over them; and the whole exchange is accepted step by step.
\<close>

section \<open>What the probe serves\<close>

text \<open>Item \<open>c\<close> of the chain, and the file written for it.\<close>

definition item_report :: "'c probe \<Rightarrow> bytes \<Rightarrow> bytes \<Rightarrow> bytes option \<Rightarrow> nat \<Rightarrow> bytes py" where
  "item_report P sc ex head c = snp_report P c (report_data_for (link_at sc (pb_tik_pub P) ex c) head)"

definition chain_item :: "'c probe \<Rightarrow> bytes \<Rightarrow> bytes \<Rightarrow> nat \<Rightarrow> bytes \<Rightarrow> json" where
  "chain_item P sc ex c rep = JObj [(''counter'', JInt (int c)), (''post_link'', JStr (hex (link_at sc (pb_tik_pub P) ex c))),
     (''report'', JStr (b64encode rep)), (''gen_ms'', pb_gen_ms P c)]"

definition item_file :: "nat \<Rightarrow> nat \<Rightarrow> bytes \<Rightarrow> string \<times> bytes" where
  "item_file n c rep = (conn_file n (''-c'' @ dec_int (int c) @ ''-report.bin''), rep)"

lemma upt_Cons_eqD: "c # cs = [c0..<n] \<Longrightarrow> c0 = c \<and> cs = [Suc c..<n] \<and> c < n"
  using upt_eq_Cons_conv [of c0 n c cs] by auto

lemma chain_items_served:
  assumes "length sc < 256"
  shows "\<forall>c\<in>set cs. item_report P sc ex head c = Inr (rep c) \<Longrightarrow> cs = [c0..<c0 + k] \<Longrightarrow> c0 + k \<le> 2 ^ 64 \<Longrightarrow>
    (0 < c0 \<longrightarrow> prev = link_at sc (pb_tik_pub P) ex (c0 - 1)) \<Longrightarrow>
    chain_items P n ex sc head prev cs fs
     = (Inr (map (\<lambda>c. chain_item P sc ex c (rep c)) cs), fs @ map (\<lambda>c. item_file n c (rep c)) cs)"
proof (induction cs arbitrary: c0 k prev fs)
  case (Cons c cs)
  have c: "c0 = c" "cs = [Suc c..<Suc c + (k - 1)]" "0 < k"
    using upt_Cons_eqD [OF Cons.prems(2)] by auto
  let ?l = "link_at sc (pb_tik_pub P) ex"
  have il: "gp_intra_link sc (pb_tik_pub P) = Inr (intra_value sc (pb_tik_pub P))"
    using assms by (simp add: gp_links_eq intra_link_Inr)
  have "post_link ex (if c \<noteq> 0 then prev else intra_value sc (pb_tik_pub P)) (int c) = Inr (?l c)"
    using Cons.prems(3,4) c by (cases c) (simp_all add: post_link_Inr len_simps)
  moreover have "snp_report P c (report_data_for (?l c) head) = Inr (rep c)"
    using Cons.prems(1) by (simp add: item_report_def)
  moreover have "chain_items P n ex sc head (?l c) cs (fs @ [item_file n c (rep c)])
      = (Inr (map (\<lambda>c. chain_item P sc ex c (rep c)) cs), (fs @ [item_file n c (rep c)]) @ map (\<lambda>c. item_file n c (rep c)) cs)"
    using Cons.prems(1,3) c by (intro Cons.IH [of "Suc c" "k - 1"]) auto
  ultimately show ?case
    using il by (cases c) (simp_all add: gp_links_eq chain_item_def item_file_def)
qed simp

section \<open>The relying party\<close>

text \<open>The counter a peer sent; a boolean is an integer in Python.\<close>

definition counter_of :: "json \<Rightarrow> int py" where
  "counter_of j = (case j of JInt c \<Rightarrow> Inr c | JBool b \<Rightarrow> Inr (if b then 1 else 0) | _ \<Rightarrow> Inl (TypeError ''counter''))"

definition as_evidence :: "json \<Rightarrow> message py" where
  "as_evidence step = (case step of
     JObj d \<Rightarrow>
       py_bind (dindex d ''counter'') (\<lambda>jc.
       py_bind (dindex d ''post_link'') (\<lambda>jl.
       py_bind (dindex d ''report'') (\<lambda>jr.
       py_bind (fromhex_json jl) (\<lambda>pl. py_bind (counter_of jc) (\<lambda>c. (case jl of
         JStr l \<Rightarrow> Inr \<lparr>msg_counter = c, msg_intra_ok_base = False, msg_post_link = l,
            msg_evidence = JObj [(''kind'', JStr ''sev-snp''), (''report'', jr),
              (''report_data'', JStr (hex (report_data_for pl None)))], msg_head = None\<rparr>
       | _ \<Rightarrow> Inl (TypeError ''fromhex() argument must be str'')))))))
   | _ \<Rightarrow> Inl (TypeError ''string indices must be integers''))"

text \<open>The loop over the chain: the results of the steps presented, up to the first refusal.\<close>

fun run_steps ::
  "(nat \<Rightarrow> inputs) \<Rightarrow> bytes \<Rightarrow> bytes \<Rightarrow> bytes \<Rightarrow> json list \<Rightarrow> nat \<Rightarrow> mandate \<Rightarrow> (bool \<times> string) list py \<times> mandate" where
  "run_steps ins tik sc ex [] t m = (Inr [], m)"
| "run_steps ins tik sc ex (step # rest) t m = (case as_evidence step of
     Inl x \<Rightarrow> (Inl x, m)
   | Inr msg \<Rightarrow> (case present (ins t) m tik sc ex msg None None of
       (Inl x, m1) \<Rightarrow> (Inl x, m1)
     | (Inr (ok, why), m1) \<Rightarrow>
         if \<not> ok then (Inr [(ok, why)], m1)
         else (case run_steps ins tik sc ex rest (Suc t) m1 of
             (Inl x, m2) \<Rightarrow> (Inl x, m2)
           | (Inr rs, m2) \<Rightarrow> (Inr ((ok, why) # rs), m2))))"

text \<open>\<open>run\<close>: one connection. The values are derived from the connection, not read from the reply.\<close>

definition run_client ::
  "'c tls_conn \<Rightarrow> (nat \<Rightarrow> inputs) \<Rightarrow> mandate \<Rightarrow> 'c \<Rightarrow> int \<Rightarrow> ((bool \<times> string) list py \<times> mandate) option" where
  "run_client T ins m c steps =
     map_option (\<lambda>(r, c1).
       (case py_bind r (\<lambda>blob. py_bind (peer_identity_key T c1) (\<lambda>tik.
             (case blob of JObj d \<Rightarrow> py_bind (dindex d ''chain'') (\<lambda>ch.
                (case ch of JList xs \<Rightarrow>
                   (if xs = [] then Inr (tik, [], [], [])
                    else py_bind (session_context T c1) (\<lambda>sc. py_bind (exporter T c1) (\<lambda>ex. Inr (tik, sc, ex, xs))))
                 | _ \<Rightarrow> Inl (TypeError ''not iterable'')))
              | _ \<Rightarrow> Inl (TypeError ''list indices must be integers'')))) of
          Inl x \<Rightarrow> (Inl x, m)
        | Inr (tik, sc, ex, xs) \<Rightarrow> run_steps ins tik sc ex xs 0 m))
       (client_request T c (JObj [(''steps'', JInt steps)]))"

lemma as_evidence_item:
  "as_evidence (chain_item P sc ex c rep) = Inr \<lparr>msg_counter = int c, msg_intra_ok_base = False,
     msg_post_link = hex (link_at sc (pb_tik_pub P) ex c),
     msg_evidence = snp_evidence rep (report_data_for (link_at sc (pb_tik_pub P) ex c) None), msg_head = None\<rparr>"
  by (simp add: as_evidence_def counter_of_def chain_item_def dindex_def snp_evidence_def)

text \<open>The verifier of the mandate accepts what the device returns for the link asked about.\<close>

definition device_trusted :: "config \<Rightarrow> 'c probe \<Rightarrow> bytes \<Rightarrow> bytes \<Rightarrow> (nat \<Rightarrow> bytes) \<Rightarrow> anchor \<Rightarrow> nat \<Rightarrow> bool" where
  "device_trusted cf P sc ex rep an n \<longleftrightarrow> (\<forall>c<n. item_report P sc ex None c = Inr (rep c)
     \<and> (let rd = report_data_for (link_at sc (pb_tik_pub P) ex c) None in
        verify_report cf (snp_evidence (rep c) rd) rd = Inr (True, Some an)))"

lemma run_steps_accepts:
  assumes len: "length sc < 256"
  shows "device_trusted (cfg m) P sc ex rep an n \<Longrightarrow> chain_state m (pb_tik_pub P) sc ex an c0 \<Longrightarrow>
    cs = [c0..<n] \<Longrightarrow> n \<le> 2 ^ 64 \<Longrightarrow> c0 \<le> n \<Longrightarrow>
    \<exists>m'. run_steps ins (pb_tik_pub P) sc ex (map (\<lambda>c. chain_item P sc ex c (rep c)) cs) t m
      = (Inr (replicate (length cs) (True, ''accepted; continuity intact'')), m')
    \<and> chain_state m' (pb_tik_pub P) sc ex an n \<and> cfg m' = cfg m \<and> (sessions_ok m \<longrightarrow> sessions_ok m')"
proof (induction cs arbitrary: c0 t m)
  case Nil
  from Nil(3) have "[c0..<n] = []" by simp
  with Nil(5) have "c0 = n" by (auto simp: upt_eq_Nil_conv)
  with Nil show ?case by simp
next
  case (Cons c cs)
  have c: "c0 = c" "cs = [Suc c..<n]" "c < n" using upt_Cons_eqD [OF Cons.prems(3)] by auto
  obtain msg where msg: "as_evidence (chain_item P sc ex c (rep c)) = Inr msg" "msg_counter msg = int c"
      "msg_post_link msg = hex (link_at sc (pb_tik_pub P) ex c)"
      "msg_evidence msg = snp_evidence (rep c) (report_data_for (link_at sc (pb_tik_pub P) ex c) None)"
    by (simp add: as_evidence_item)
  have ev: "verify_report (cfg m) (msg_evidence msg) (report_data_for (link_at sc (pb_tik_pub P) ex c) None) = Inr (True, Some an)"
    using Cons.prems(1) c(3) msg(4) by (simp add: device_trusted_def Let_def)
  have "int c < 2 ^ 64" using c(3) Cons.prems(4) by simp
  from chain_present [OF Cons.prems(2) [unfolded c(1)] len this disjI1 [OF refl] ev msg(2,3), of "ins t"]
  obtain m1 where m1: "present (ins t) m (pb_tik_pub P) sc ex msg None None = (Inr (True, ''accepted; continuity intact''), m1)"
    "chain_state m1 (pb_tik_pub P) sc ex an (Suc c)" "cfg m1 = cfg m" by blast
  have ok: "sessions_ok m \<longrightarrow> sessions_ok m1" using mstep_sessions_ok [OF mstep.present [OF m1(1)]] by blast
  from Cons.IH [OF _ m1(2) c(2) Cons.prems(4), of "Suc t"] Cons.prems(1) m1(3) msg(1) m1(1) c(3) ok show ?case
    by auto
qed


section \<open>The whole exchange\<close>

text \<open>
  One TLS session: the relying party exports the values the guest exports, and the certificate it
  was shown carries the guest's key.
\<close>

definition same_session :: "'c tls_conn \<Rightarrow> 'd probe \<Rightarrow> bytes \<Rightarrow> bytes \<Rightarrow> bool" where
  "same_session T P ex sc \<longleftrightarrow> (\<forall>c. exporter T c = Inr ex \<and> session_context T c = Inr sc
     \<and> peer_identity_key T c = Inr (pb_tik_pub P))"

lemma wf_chain_reply:
  "(\<And>c. wf_json (pb_gen_ms P c)) \<Longrightarrow> wf_json (chain_reply P (map (\<lambda>c. chain_item P sc ex c (rep c)) cs) head)"
  by (cases head) (simp_all add: chain_reply_def chain_item_def list_all_iff)

lemma serve_chain_reply:
  assumes "length sc < 256" "\<forall>c<k. item_report P sc ex head c = Inr (rep c)" "k \<le> 2 ^ 64"
  shows "serve_chain P n b (int k) head ex sc
    = (let blob = dumps_bytes (chain_reply P (map (\<lambda>c. chain_item P sc ex c (rep c)) [0..<k]) head)
       in send_reply P b blob (map (\<lambda>c. item_file n c (rep c)) [0..<k]) (json_file (conn_file n ''.json'') blob))"
proof -
  obtain prev where prev: "gp_intra_link sc (pb_tik_pub P) = Inr prev"
    using assms(1) by (simp add: gp_links_eq intra_link_Inr)
  have "chain_items P n ex sc head prev [0..<k] [] = (Inr (map (\<lambda>c. chain_item P sc ex c (rep c)) [0..<k]),
      [] @ map (\<lambda>c. item_file n c (rep c)) [0..<k])"
    using assms by (intro chain_items_served [where ?c0.0 = 0 and k = k]) simp_all
  then show ?thesis by (simp add: serve_chain_def prev Let_def)
qed

lemma run_client_accepts:
  assumes "same_session T P ex sc" "length sc < 256" "device_trusted (cfg m) P sc ex rep an k"
    and "chain_state m (pb_tik_pub P) sc ex an 0" "k \<le> 2 ^ 64" "\<And>c. wf_json (pb_gen_ms P c)"
    and "delivers T inbox" "tc_sendall T c (dumps_bytes (JObj [(''steps'', JInt (int k))]) @ [0x0A]) = (Inr u, c1)"
    and "frame (dumps_bytes (chain_reply P (map (\<lambda>c. chain_item P sc ex c (rep c)) [0..<k]) head)) = Inr out"
    and "inbox c1 = out @ rest"
  shows "\<exists>m'. run_client T ins m c (int k) = Some (Inr (replicate k (True, ''accepted; continuity intact'')), m')"
proof -
  let ?items = "map (\<lambda>c. chain_item P sc ex c (rep c)) [0..<k]"
  obtain c2 where c2: "client_request T c (JObj [(''steps'', JInt (int k))]) = Some (Inr (chain_reply P ?items head), c2)"
    using client_request_reads [OF assms(7-10) wf_chain_reply [OF assms(6)]] by blast
  obtain m' where "run_steps ins (pb_tik_pub P) sc ex ?items 0 m
      = (Inr (replicate (length [0..<k]) (True, ''accepted; continuity intact'')), m')"
    using run_steps_accepts [OF assms(2,3,4) refl assms(5) le0] by blast
  then show ?thesis
    using assms(1) c2 by (cases k) (simp_all add: run_client_def chain_reply_def dindex_def same_session_def)
qed

end
