(* ===== verification/Relay_Demo.thy ===== *)
theory Relay_Demo
  imports Attack_Steps Relying_Party
begin

text \<open>
  \<open>examples/relay_demo.py\<close>: a guest behind TLS, a relay that holds the guest's TLS key and forwards its
  answers, and a client with a mandate that enrols the guest, talks to it directly and then through the
  relay. The TLS library is a parameter, as for \<open>HatlsClient\<close>; the keys are those of \<open>world\<close>, the random
  bytes and clock readings those of \<open>draws\<close>. What is printed is not modelled.
\<close>

section \<open>Messages as JSON\<close>

text \<open>The dictionary \<open>Attester.attest\<close> returns, and the same dictionary as \<open>Mandate.present\<close> reads it.\<close>

definition message_json :: "message \<Rightarrow> json" where
  "message_json msg = JObj ([(''counter'', JInt (msg_counter msg)), (''intra_ok_base'', JBool (msg_intra_ok_base msg)),
     (''post_link'', JStr (msg_post_link msg)), (''evidence'', msg_evidence msg)]
     @ (case msg_head msg of None \<Rightarrow> [] | Some h \<Rightarrow> [(''head'', JStr h)]))"

definition message_of_json :: "json \<Rightarrow> message py" where
  "message_of_json step = (case step of
     JObj d \<Rightarrow>
       py_bind (dindex d ''counter'') (\<lambda>jc.
       py_bind (dindex d ''post_link'') (\<lambda>jl.
       py_bind (dindex d ''evidence'') (\<lambda>ev. py_bind (counter_of jc) (\<lambda>c. (case jl of
         JStr l \<Rightarrow> Inr \<lparr>msg_counter = c, msg_intra_ok_base = truthy (dget d ''intra_ok_base''),
            msg_post_link = l, msg_evidence = ev,
            msg_head = (case dget d ''head'' of JStr h \<Rightarrow> Some h | _ \<Rightarrow> None)\<rparr>
       | _ \<Rightarrow> Inl (TypeError ''fromhex() argument must be str''))))))
   | _ \<Rightarrow> Inl (TypeError ''string indices must be integers''))"

section \<open>The guest\<close>

text \<open>\<open>_recv\<close> and \<open>_line\<close>.\<close>

partial_function (option) rd_recv_loop :: "'c tls_conn \<Rightarrow> 'c \<Rightarrow> nat \<Rightarrow> bytes \<Rightarrow> (bytes py \<times> 'c) option" where
  "rd_recv_loop T c n b =
     (if length b < n then
        (case tc_recv T c (n - length b) of
           (Inl x, c') \<Rightarrow> Some (Inl x, c')
         | (Inr d, c') \<Rightarrow>
             if d = [] then Some (Inl (ConnectionError ''closed''), c')
             else rd_recv_loop T c' n (b @ d))
      else Some (Inr b, c))"

definition rd_recv :: "'c tls_conn \<Rightarrow> 'c \<Rightarrow> nat \<Rightarrow> (bytes py \<times> 'c) option" where
  "rd_recv T c n = rd_recv_loop T c n []"

partial_function (option) rd_line_loop :: "'c tls_conn \<Rightarrow> 'c \<Rightarrow> bytes \<Rightarrow> (bytes py \<times> 'c) option" where
  "rd_line_loop T c b =
     (if b \<noteq> [] \<and> last b = 0x0A then Some (Inr b, c)
      else (case tc_recv T c 1 of
          (Inl x, c') \<Rightarrow> Some (Inl x, c')
        | (Inr d, c') \<Rightarrow> rd_line_loop T c' (b @ d)))"

definition rd_line :: "'c tls_conn \<Rightarrow> 'c \<Rightarrow> (bytes py \<times> 'c) option" where
  "rd_line T c = rd_line_loop T c []"

text \<open>\<open>[att.attest(sc, exp) for _ in range(...)]\<close>.\<close>

fun attest_many :: "world \<Rightarrow> draws \<Rightarrow> attester \<Rightarrow> bytes \<Rightarrow> bytes \<Rightarrow> nat list \<Rightarrow> message list py" where
  "attest_many W D a sc ex [] = Inr []"
| "attest_many W D a sc ex (j # js) =
     py_bind (atk_attest W D j (teeA W) a sc ex) (\<lambda>(msg, a').
     py_bind (attest_many W D a' sc ex js) (\<lambda>ms. Inr (msg # ms)))"

text \<open>What the guest answers to a request, given what its connection exports.\<close>

definition guest_reply :: "world \<Rightarrow> draws \<Rightarrow> nat \<Rightarrow> bytes py \<Rightarrow> bytes py \<Rightarrow> json \<Rightarrow> json py" where
  "guest_reply W D j ex sc req = (case req of
     JObj d \<Rightarrow>
       if truthy (dget d ''enroll'') then
         py_bind (dindex d ''nonce'') (\<lambda>jn.
         py_bind (fromhex_json jn) (\<lambda>nonce.
           Inr (JObj [(''csr'', JStr (hex (wd_csr W))),
             (''evidence'', mock_report (wd_crypto W) (teeA W) (dr_rnd D j) (sha512 (nonce @ wd_csr W)))])))
       else
         py_bind ex (\<lambda>e. py_bind sc (\<lambda>s.
         py_bind (py_int (dget_or d ''steps'' (JInt 2))) (\<lambda>n.
         py_bind (attest_many W D (attester_new (wd_tik W)) s e [j..<j + nat n]) (\<lambda>ms.
           Inr (JObj [(''chain'', JList (map message_json ms))])))))
   | _ \<Rightarrow> Inl (AttributeError ''object has no attribute get''))"

text \<open>\<open>struct.pack(">I", len(blob)) + blob\<close> of the answer.\<close>

definition guest_frame :: "world \<Rightarrow> draws \<Rightarrow> nat \<Rightarrow> bytes py \<Rightarrow> bytes py \<Rightarrow> json \<Rightarrow> bytes py" where
  "guest_frame W D j ex sc req = py_bind (guest_reply W D j ex sc req) (\<lambda>out. frame (dumps_bytes out))"

definition guest_body :: "world \<Rightarrow> draws \<Rightarrow> nat \<Rightarrow> 'c tls_conn \<Rightarrow> tls_context \<Rightarrow> 'c \<Rightarrow> (unit py \<times> 'c) option" where
  "guest_body W D j T ctx c =
     bio_then (Some (tc_do_handshake T ctx c)) (\<lambda>_ c1.
     bio_then (rd_line T c1) (\<lambda>l c2.
       (case py_bind (loads_bytes l) (guest_frame W D j (tc_export T c2 EXPORTER_LABEL 32 []) (tc_export T c2 CONTEXT_LABEL 48 [])) of
          Inl x \<Rightarrow> Some (Inl x, c2)
        | Inr out \<Rightarrow> Some (tc_sendall T c2 out))))"

text \<open>One connection: what its body raises is printed, then it is shut down and closed.\<close>

definition guest_conn :: "world \<Rightarrow> draws \<Rightarrow> nat \<Rightarrow> 'c tls_conn \<Rightarrow> tls_context \<Rightarrow> 'c \<Rightarrow> (exn option \<times> 'c) option" where
  "guest_conn W D j T ctx c = map_option (\<lambda>(r, c1).
     ((case r of Inl x \<Rightarrow> Some x | Inr _ \<Rightarrow> None), snd (client_exit T c1))) (guest_body W D j T ctx c)"

section \<open>The relay\<close>

text \<open>
  The relay's two connections, the one it accepted and the one it opens; a step on either of them, and
  the whole exchange. What it raises leaves both to the \<open>finally\<close> clause.
\<close>

definition on_down :: "('a py \<times> 'c) option \<Rightarrow> 'd \<Rightarrow> ('a py \<times> 'c \<times> 'd) option" where
  "on_down m u = map_option (\<lambda>(r, d). (r, d, u)) m"

definition on_up :: "'c \<Rightarrow> ('a py \<times> 'd) option \<Rightarrow> ('a py \<times> 'c \<times> 'd) option" where
  "on_up d m = map_option (\<lambda>(r, u). (r, d, u)) m"

definition relay_exchange :: "'c tls_conn \<Rightarrow> 'd tls_conn \<Rightarrow> tls_context \<Rightarrow> tls_context \<Rightarrow> 'c \<Rightarrow> 'd py \<Rightarrow> (unit py \<times> 'c \<times> 'd option) option" where
  "relay_exchange Td Tu ctx up_ctx down us =
     bio_then (on_down (Some (tc_do_handshake Td ctx down)) None) (\<lambda>_ (d, _).
     bio_then (on_down (rd_line Td d) None) (\<lambda>l (d, _).
       (case us of
          Inl x \<Rightarrow> Some (Inl x, d, None)
        | Inr u0 \<Rightarrow> map_option (\<lambda>(r, d, u). (r, d, Some u))
            (bio_then (on_up d (Some (tc_do_handshake Tu up_ctx u0))) (\<lambda>_ (d, u).
             bio_then (on_up d (Some (tc_sendall Tu u l))) (\<lambda>_ (d, u).
             bio_then (on_up d (rd_recv Tu u 4)) (\<lambda>h (d, u).
             bio_then (on_up d (rd_recv Tu u (unpack_len h))) (\<lambda>blob (d, u).
               (case pack_len (unpack_len h) of
                  Inl x \<Rightarrow> Some (Inl x, d, u)
                | Inr n \<Rightarrow>
                    bio_then (on_down (Some (tc_sendall Td d (n @ blob))) u) (\<lambda>_ (d, u).
                      (case py_bind (tc_export Tu u EXPORTER_LABEL 32 []) (\<lambda>_. py_bind (tc_export Td d EXPORTER_LABEL 32 []) (\<lambda>_. Inr ())) of
                         Inl x \<Rightarrow> Some (Inl x, d, u)
                       | Inr _ \<Rightarrow> (let (_, u1) = tc_shutdown Tu u; (_, d1) = tc_shutdown Td d; (_, u2) = tc_close Tu u1
                           in Some (Inr (), d1, u2)))))))))))))"

definition relay_conn :: "'c tls_conn \<Rightarrow> 'd tls_conn \<Rightarrow> tls_context \<Rightarrow> tls_context \<Rightarrow> 'c \<Rightarrow> 'd py \<Rightarrow> (unit py \<times> 'c \<times> 'd option) option" where
  "relay_conn Td Tu ctx up_ctx down us =
     map_option (\<lambda>(r, d, u). (r, snd (tc_close Td d), u)) (relay_exchange Td Tu ctx up_ctx down us)"

section \<open>The client\<close>

text \<open>\<open>feed\<close>: the verdict of the last step presented, \<open>None\<close> if there was none.\<close>

fun feed :: "'c tls_conn \<Rightarrow> 'c \<Rightarrow> (nat \<Rightarrow> inputs) \<Rightarrow> nat \<Rightarrow> json list \<Rightarrow> bool option \<Rightarrow> mandate \<Rightarrow> bool option py \<times> mandate" where
  "feed T c ins j [] ok m = (Inr ok, m)"
| "feed T c ins j (step # rest) ok m =
     (case py_bind (peer_identity_key T c) (\<lambda>tik. py_bind (session_context T c) (\<lambda>sc.
           py_bind (exporter T c) (\<lambda>ex. py_bind (message_of_json step) (\<lambda>msg. Inr (tik, sc, ex, msg))))) of
        Inl x \<Rightarrow> (Inl x, m)
      | Inr (tik, sc, ex, msg) \<Rightarrow> (case present (ins j) m tik sc ex msg None None of
            (Inl x, m1) \<Rightarrow> (Inl x, m1)
          | (Inr (ok, why), m1) \<Rightarrow> if \<not> ok then (Inr (Some ok), m1) else feed T c ins (Suc j) rest (Some ok) m1))"

definition chain_of :: "json \<Rightarrow> json list py" where
  "chain_of blob = (case blob of
     JObj d \<Rightarrow> py_bind (dindex d ''chain'') (\<lambda>ch. case ch of JList xs \<Rightarrow> Inr xs | _ \<Rightarrow> Inl (TypeError ''not iterable''))
   | _ \<Rightarrow> Inl (TypeError ''list indices must be integers''))"

text \<open>A \<open>with HatlsClient(...) as cl\<close> block around a request for two steps and \<open>feed\<close>.\<close>

definition ask_chain :: "'c tls_conn \<Rightarrow> int \<Rightarrow> (nat \<Rightarrow> inputs) \<Rightarrow> nat \<Rightarrow> mandate \<Rightarrow> (bool option py \<times> mandate) option" where
  "ask_chain T port ins j m = (case client_enter T (client_new ''127.0.0.1'' port None None) of
     Inl x \<Rightarrow> Some (Inl x, m)
   | Inr c \<Rightarrow> map_option (\<lambda>(r, c1). case py_bind r chain_of of
         Inl x \<Rightarrow> (Inl x, m)
       | Inr xs \<Rightarrow> feed T c1 ins j xs None m)
       (client_request T c (JObj [(''steps'', JInt 2)])))"

text \<open>The enrolment block.\<close>

definition demo_enrol :: "world \<Rightarrow> draws \<Rightarrow> 'c tls_conn \<Rightarrow> mandate \<Rightarrow> ((bool \<times> string) py \<times> mandate) option" where
  "demo_enrol W D T m = (case client_enter T (client_new ''127.0.0.1'' 18443 None None) of
     Inl x \<Rightarrow> Some (Inl x, m)
   | Inr c \<Rightarrow>
       (let (nonce, m1) = challenge (dr_now D 0) (dr_nonce D 0) m in
        map_option (\<lambda>(r, c1).
          (case py_bind r (\<lambda>blob. case blob of
               JObj d \<Rightarrow>
                 py_bind (dindex d ''csr'') (\<lambda>jc. py_bind (fromhex_json jc) (\<lambda>csr.
                 py_bind (csr_public_key_der (wd_crypto W) csr) (\<lambda>k. py_bind (peer_identity_key T c1) (\<lambda>tik.
                   if k \<noteq> tik then Inl (AssertionError ''CSR does not match the TLS peer key'')
                   else py_bind (dindex d ''evidence'') (\<lambda>ev. Inr (tik, csr, ev))))))
             | _ \<Rightarrow> Inl (TypeError ''list indices must be integers'')) of
             Inl x \<Rightarrow> (Inl x, m1)
           | Inr (tik, csr, ev) \<Rightarrow> enroll (dr_ins D 0) m1 \<lparr>en_tik_pub = tik, en_evidence = ev, en_nonce = nonce,
               en_csr = csr, en_transfer_authority = None, en_authorisation = None, en_authorisation_sig = None\<rparr>))
          (client_request T c (JObj [(''enroll'', JBool True), (''nonce'', JStr (hex nonce))]))))"

text \<open>
  \<open>main\<close>, over the library as the client finds it in each of its three blocks: the verdicts of the
  direct and of the relayed run, and the exit status.
\<close>

definition demo_main :: "world \<Rightarrow> draws \<Rightarrow> (nat \<Rightarrow> 'c tls_conn) \<Rightarrow> ((bool option \<times> bool option \<times> nat) py \<times> mandate) option" where
  "demo_main W D T =
     bio_then (demo_enrol W D (T 0) (mandate_new (attack_cfg W D [hex (mock_pub (teeA W))] False) (MemoryStore []))) (\<lambda>_ m1.
     bio_then (ask_chain (T 1) 18443 (dr_ins D) 1 m1) (\<lambda>direct m2.
     bio_then (ask_chain (T 2) 18444 (dr_ins D) 3 m2) (\<lambda>relayed m3.
       Some (Inr (direct, relayed, if direct = Some True \<and> relayed \<noteq> Some True then 0 else 1), m3))))"

end
