(* ===== verification/Relay_Proofs.thy ===== *)
theory Relay_Proofs
  imports Relay_Demo
begin

text \<open>
  The relay demonstration: the guest answers the request it reads, the relay passes the answer on byte
  for byte, and the client, whose exporter is not the guest's, has the relayed steps refused and the
  direct ones accepted.
\<close>

section \<open>Messages over the wire\<close>

lemma message_of_message_json: "message_of_json (message_json msg) = Inr msg"
  by (simp add: message_of_json_def counter_of_def message_json_def dindex_def dget_def split: option.split)

lemma wf_message_json: "wf_json (message_json msg) \<longleftrightarrow> wf_json (msg_evidence msg)"
  by (simp add: message_json_def split: option.split)

lemma wf_mock_report [simp]: "wf_json (mock_report C t rnd rd)"
  by (simp add: mock_report_def Let_def)

text \<open>A request as it is sent: the value, and a line feed.\<close>

lemma loads_line: "wf_json j \<Longrightarrow> loads_bytes (dumps_bytes j @ [0x0A]) = Inr j"
proof -
  assume j: "wf_json j"
  let ?s = "emit default_seps j @ [CHR 0x0A]"
  have "list_all ascii_char ?s" by (simp add: ascii_emit) (simp add: ascii_char_def)
  moreover have "dumps_bytes j @ [0x0A] = lit ?s" by (simp add: dumps_bytes_lit) (simp add: lit_def)
  moreover have "loads ?s = Some j"
    using parse_emit(1) [of default_seps j "Suc (length ?s)" "[CHR 0x0A]"] skip_ws_value [of "[]" default_seps j "[CHR 0x0A]"] j
    by (simp add: loads_def num_end_def skip_ws_def is_ws_def is_digit_def Let_def)
  ultimately show ?thesis by (simp add: loads_bytes_def utf8_decode_lit)
qed

text \<open>No line feed inside a value.\<close>

definition shown :: "char \<Rightarrow> bool" where
  "shown c \<longleftrightarrow> 32 \<le> (of_char c :: nat)"

lemma shown_hex_digit: "n < 16 \<Longrightarrow> shown (hex_digit n)"
  by (drule nat_lt_16_cases) (auto simp: hex_digit_def shown_def)

lemma shown_esc: "list_all shown (esc_char c)"
  by (simp add: esc_char_def Let_def hex4_def shown_hex_digit) (simp add: shown_def bslash_def quote_def)

lemma shown_emit_str: "list_all shown (emit_str s)"
  by (induction s) (simp_all add: emit_str_def shown_esc, simp_all add: shown_def quote_def)

lemma shown_dec_int: "list_all shown (dec_int n)"
proof -
  have "list_all shown (dec_nat n)" if "0 \<le> n" for n
    using dec_nat_digits [OF that] by (auto simp: list_all_iff is_digit_def shown_def Let_def)
  then show ?thesis by (simp add: dec_int_def) (simp add: shown_def)
qed

lemma shown_emit:
  shows "list_all shown (emit default_seps j)" "list_all shown (emit_items default_seps xs)" "list_all shown (emit_members default_seps kvs)"
  by (induction default_seps j and default_seps xs and default_seps kvs rule: emit_emit_items_emit_members.induct)
    (simp_all add: shown_emit_str shown_dec_int, simp_all add: shown_def default_seps_def)

lemma dumps_no_newline: "0x0A \<notin> set (dumps_bytes j)"
proof
  assume "0x0A \<in> set (dumps_bytes j)"
  then obtain c where c: "c \<in> set (emit default_seps j)" "(of_nat (of_char c) :: byte) = 0x0A"
    by (auto simp: dumps_bytes_lit lit_def)
  then have "shown c" "ascii_char c" using shown_emit(1) [of j] ascii_emit(1) [of default_seps j] by (auto simp: list_all_iff)
  moreover from this(2) have "c = char_of (unat (0x0A :: byte))" using char_of_lit [of c] c(2) by simp
  ultimately show False by (simp add: shown_def)
qed

section \<open>The guest and the relay pass bytes on\<close>

lemma rd_recv_loop_delivers:
  assumes "delivers T inbox"
  shows "n - length b \<le> length (inbox c) \<Longrightarrow> length b \<le> n \<Longrightarrow>
    \<exists>c'. rd_recv_loop T c n b = Some (Inr (b @ take (n - length b) (inbox c)), c') \<and> inbox c' = drop (n - length b) (inbox c)"
proof (induction "n - length b" arbitrary: c b rule: less_induct)
  case less
  show ?case
  proof (cases "length b < n")
    case True
    then have "inbox c \<noteq> [] \<and> 0 < n - length b" using less.prems by auto
    then obtain d c' where d: "tc_recv T c (n - length b) = (Inr d, c')" "d \<noteq> []" "length d \<le> n - length b"
      "inbox c = d @ inbox c'" using assms unfolding delivers_def by blast
    have "\<exists>c2. rd_recv_loop T c' n (b @ d) = Some (Inr ((b @ d) @ take (n - length (b @ d)) (inbox c')), c2)
        \<and> inbox c2 = drop (n - length (b @ d)) (inbox c')"
      using d True less.prems by (intro less.hyps) (auto simp: diff_less_mono2)
    then show ?thesis
      using True d by (subst rd_recv_loop.simps) (auto simp: diff_diff_left)
  qed (use less.prems in \<open>subst rd_recv_loop.simps, auto\<close>)
qed

lemma rd_recv_delivers:
  assumes "delivers T inbox" "inbox c = b @ rest"
  obtains c' where "rd_recv T c (length b) = Some (Inr b, c')" "inbox c' = rest"
  using rd_recv_loop_delivers [OF assms(1), of "length b" "[]" c] assms(2) by (auto simp: rd_recv_def)

text \<open>A line is read byte by byte, up to its line feed and no further.\<close>

lemma rd_line_loop_delivers:
  assumes "delivers T inbox"
  shows "inbox c = l @ 0x0A # rest \<Longrightarrow> 0x0A \<notin> set l \<Longrightarrow> 0x0A \<notin> set b \<Longrightarrow>
    \<exists>c'. rd_line_loop T c b = Some (Inr (b @ l @ [0x0A]), c') \<and> inbox c' = rest"
proof (induction l arbitrary: c b)
  case Nil
  then obtain d c' where d: "tc_recv T c 1 = (Inr d, c')" "d \<noteq> []" "length d \<le> 1" "inbox c = d @ inbox c'"
    using assms unfolding delivers_def by (metis append_Nil list.distinct(1) zero_less_one)
  then have "d = [0x0A]" "inbox c' = rest" using Nil(1) by (cases d; simp)+
  moreover have "\<not> (b \<noteq> [] \<and> last b = 0x0A)" using Nil(3) last_in_set by metis
  ultimately show ?case
    using d(1) by (subst rd_line_loop.simps, subst rd_line_loop.simps) simp
next
  case (Cons x l)
  then obtain d c' where d: "tc_recv T c 1 = (Inr d, c')" "d \<noteq> []" "length d \<le> 1" "inbox c = d @ inbox c'"
    using assms unfolding delivers_def by (metis append_Cons list.distinct(1) zero_less_one)
  then have x: "d = [x]" "inbox c' = l @ 0x0A # rest" using Cons(2) by (cases d; simp)+
  have "\<not> (b \<noteq> [] \<and> last b = 0x0A)" using Cons.prems(3) last_in_set by metis
  moreover obtain c2 where "rd_line_loop T c' (b @ d) = Some (Inr ((b @ d) @ l @ [0x0A]), c2)" "inbox c2 = rest"
    using Cons.IH [OF x(2), of "b @ d"] Cons.prems x(1) by auto
  ultimately show ?case using d(1) x(1) by (subst rd_line_loop.simps) simp
qed

lemma rd_line_delivers:
  assumes "delivers T inbox" "inbox c = dumps_bytes req @ 0x0A # rest"
  obtains c' where "rd_line T c = Some (Inr (dumps_bytes req @ [0x0A]), c')" "inbox c' = rest"
  using rd_line_loop_delivers [OF assms dumps_no_newline, of "[]"] by (auto simp: rd_line_def)

text \<open>The guest hands exactly its frame to \<open>sendall\<close>.\<close>

lemma guest_serves:
  assumes "delivers T inbox" "tc_do_handshake T ctx c = (Inr u, c1)" "inbox c1 = dumps_bytes req @ 0x0A # rest" "wf_json req"
    and "\<And>x. tc_export T x EXPORTER_LABEL 32 [] = ex \<and> tc_export T x CONTEXT_LABEL 48 [] = sc"
    and "guest_frame W D j ex sc req = Inr out"
  obtains c2 where "guest_body W D j T ctx c = Some (tc_sendall T c2 out)" "inbox c2 = rest"
proof -
  obtain c2 where "rd_line T c1 = Some (Inr (dumps_bytes req @ [0x0A]), c2)" "inbox c2 = rest"
    by (rule rd_line_delivers [OF assms(1,3)])
  then show ?thesis using assms(2,4,5,6) that by (simp add: guest_body_def loads_line)
qed

text \<open>The relay sends the request up and the framed answer down, unchanged.\<close>

lemma relay_forwards:
  assumes d: "delivers Td inbox" "tc_do_handshake Td ctx d0 = (Inr ud, d1)" "inbox d1 = dumps_bytes req @ 0x0A # rest"
    and u: "delivers Tu inbox'" "tc_do_handshake Tu up_ctx u0 = (Inr uu, u1)"
    and sent: "tc_sendall Tu u1 (dumps_bytes req @ [0x0A]) = (Inr us, u2)" "inbox' u2 = out @ rest'"
    and out: "frame blob = Inr out"
  shows "\<exists>d2 u3. relay_exchange Td Tu ctx up_ctx d0 (Inr u0) = map_option (\<lambda>(r, d, u). (r, d, Some u))
    (bio_then (on_down (Some (tc_sendall Td d2 out)) u3) (\<lambda>_ (d, u).
       (case py_bind (tc_export Tu u EXPORTER_LABEL 32 []) (\<lambda>_. py_bind (tc_export Td d EXPORTER_LABEL 32 []) (\<lambda>_. Inr ())) of
          Inl x \<Rightarrow> Some (Inl x, d, u)
        | Inr _ \<Rightarrow> (let (_, u1) = tc_shutdown Tu u; (_, d1) = tc_shutdown Td d; (_, u2) = tc_close Tu u1
            in Some (Inr (), d1, u2)))))"
proof -
  obtain d2 where l: "rd_line Td d1 = Some (Inr (dumps_bytes req @ [0x0A]), d2)"
    by (rule rd_line_delivers [OF d(1,3)])
  have n: "length blob < 2 ^ 32" using out by (auto simp: frame_def pack_len_def split: if_splits)
  let ?h = "be_bytes 4 (int (length blob))"
  have o: "out = ?h @ blob" using n out frame_Inr by auto
  obtain u3 where h: "rd_recv Tu u2 (length ?h) = Some (Inr ?h, u3)" "inbox' u3 = blob @ rest'"
    by (rule rd_recv_delivers [OF u(1), of u2 ?h "blob @ rest'"]) (simp_all add: sent(2) o)
  obtain u4 where b: "rd_recv Tu u3 (length blob) = Some (Inr blob, u4)"
    by (rule rd_recv_delivers [OF u(1) h(2)])
  have "relay_exchange Td Tu ctx up_ctx d0 (Inr u0) = map_option (\<lambda>(r, d, u). (r, d, Some u))
    (bio_then (on_down (Some (tc_sendall Td d2 out)) u4) (\<lambda>_ (d, u).
       (case py_bind (tc_export Tu u EXPORTER_LABEL 32 []) (\<lambda>_. py_bind (tc_export Td d EXPORTER_LABEL 32 []) (\<lambda>_. Inr ())) of
          Inl x \<Rightarrow> Some (Inl x, d, u)
        | Inr _ \<Rightarrow> (let (_, u1) = tc_shutdown Tu u; (_, d1) = tc_shutdown Td d; (_, u2) = tc_close Tu u1
            in Some (Inr (), d1, u2)))))"
    using d(2) l u(2) sent(1) h(1) b n
    by (simp add: relay_exchange_def on_down_def [of "Some (Inr _, _)"] on_up_def unpack_pack pack_len_def o len_simps)
  then show ?thesis by blast
qed

section \<open>What the guest answers\<close>

definition honest_message :: "world \<Rightarrow> draws \<Rightarrow> nat \<Rightarrow> bytes \<Rightarrow> bytes \<Rightarrow> nat \<Rightarrow> message" where
  "honest_message W D j sc ex n = \<lparr>msg_counter = int n, msg_intra_ok_base = (n = 0),
     msg_post_link = hex (link_at sc (wd_tik W) ex n),
     msg_evidence = mock_report (wd_crypto W) (teeA W) (dr_rnd D j) (report_data_for (link_at sc (wd_tik W) ex n) None),
     msg_head = None\<rparr>"

lemma honest_message_sel [simp]:
  "msg_counter (honest_message W D j sc ex n) = int n"
  "msg_post_link (honest_message W D j sc ex n) = hex (link_at sc (wd_tik W) ex n)"
  "msg_evidence (honest_message W D j sc ex n)
    = mock_report (wd_crypto W) (teeA W) (dr_rnd D j) (report_data_for (link_at sc (wd_tik W) ex n) None)"
  by (simp_all add: honest_message_def)

lemma attest_honest:
  assumes "length sc < 256" "int n < 2 ^ 64"
  shows "atk_attest W D j (teeA W) (attester_at sc (wd_tik W) ex n) sc ex
    = Inr (honest_message W D j sc ex n, attester_at sc (wd_tik W) ex (Suc n))"
  using attest_link [OF assms, where report = "\<lambda>rd. Inr (mock_report (wd_crypto W) (teeA W) (dr_rnd D j) rd)" and head = None]
  by (simp add: atk_attest_def honest_message_def)

definition steps_request :: json where
  "steps_request = JObj [(''steps'', JInt 2)]"

definition two_steps :: "world \<Rightarrow> draws \<Rightarrow> nat \<Rightarrow> bytes \<Rightarrow> bytes \<Rightarrow> json list" where
  "two_steps W D j sc ex = [message_json (honest_message W D j sc ex 0), message_json (honest_message W D (Suc j) sc ex 1)]"

lemma guest_reply_steps:
  "length sc < 256 \<Longrightarrow> guest_reply W D j (Inr ex) (Inr sc) steps_request = Inr (JObj [(''chain'', JList (two_steps W D j sc ex))])"
  using attest_honest [of sc 0 W D j ex] attest_honest [of sc 1 W D "Suc j" ex]
  by (simp add: guest_reply_def steps_request_def dget_def dget_or_def attester_new_at [of _ sc ex] upt_rec [of j] two_steps_def)

definition enrol_request :: "draws \<Rightarrow> json" where
  "enrol_request D = JObj [(''enroll'', JBool True), (''nonce'', JStr (hex (dr_nonce D 0)))]"

lemma guest_reply_enrol:
  "guest_reply W D j ex sc (enrol_request D) = Inr (JObj [(''csr'', JStr (hex (wd_csr W))),
     (''evidence'', mock_report (wd_crypto W) (teeA W) (dr_rnd D j) (sha512 (dr_nonce D 0 @ wd_csr W)))])"
  by (simp add: guest_reply_def enrol_request_def dget_def dindex_def)

section \<open>The client's connections\<close>

text \<open>
  A connection of the client: it comes up, exports these values, shows a certificate with this key, and
  once the request is sent, the bytes of the answer are what arrives.
\<close>

definition session_with :: "'c tls_conn \<Rightarrow> int \<Rightarrow> bytes \<Rightarrow> bytes \<Rightarrow> bytes \<Rightarrow> json \<Rightarrow> bytes \<Rightarrow> bool" where
  "session_with T port tik sc ex req out \<longleftrightarrow> (\<exists>c c1 inbox rest. client_enter T (client_new ''127.0.0.1'' port None None) = Inr c
     \<and> (\<forall>x. peer_identity_key T x = Inr tik \<and> session_context T x = Inr sc \<and> exporter T x = Inr ex)
     \<and> delivers T inbox \<and> tc_sendall T c (dumps_bytes req @ [0x0A]) = (Inr (), c1) \<and> inbox c1 = out @ rest)"

lemma session_request:
  assumes "session_with T port tik sc ex req out" "frame (dumps_bytes reply) = Inr out" "wf_json reply"
  obtains c c' where "client_enter T (client_new ''127.0.0.1'' port None None) = Inr c" "client_request T c req = Some (Inr reply, c')"
proof -
  obtain c c1 inbox rest where c: "client_enter T (client_new ''127.0.0.1'' port None None) = Inr c" "delivers T inbox"
    "tc_sendall T c (dumps_bytes req @ [0x0A]) = (Inr (), c1)" "inbox c1 = out @ rest"
    using assms(1) by (auto simp: session_with_def)
  from client_request_reads [OF c(2,3) assms(2) c(4) assms(3)] c(1) that show thesis by blast
qed

lemma ask_chain_feeds:
  assumes "session_with T port tik sc' ex' steps_request out" "guest_frame W D j (Inr ex) (Inr sc) steps_request = Inr out"
    and "length sc < 256"
  obtains c where "ask_chain T port ins i m = Some (feed T c ins i (two_steps W D j sc ex) None m)"
proof -
  let ?reply = "JObj [(''chain'', JList (two_steps W D j sc ex))]"
  have "frame (dumps_bytes ?reply) = Inr out" using assms(2,3) by (simp add: guest_frame_def guest_reply_steps)
  moreover have "wf_json ?reply" by (simp add: two_steps_def wf_message_json)
  ultimately obtain c c' where "client_enter T (client_new ''127.0.0.1'' port None None) = Inr c"
    "client_request T c steps_request = Some (Inr ?reply, c')"
    by (rule session_request [OF assms(1)])
  then have "ask_chain T port ins i m = Some (feed T c' ins i (two_steps W D j sc ex) None m)"
    by (simp add: ask_chain_def steps_request_def chain_of_def dindex_def)
  then show thesis by (rule that)
qed

lemma feed_step:
  assumes "peer_identity_key T c = Inr tik" "session_context T c = Inr sc" "exporter T c = Inr ex"
  shows "feed T c ins i (message_json msg # rest) ok m = (case present (ins i) m tik sc ex msg None None of
      (Inl x, m1) \<Rightarrow> (Inl x, m1)
    | (Inr (ok, why), m1) \<Rightarrow> if \<not> ok then (Inr (Some ok), m1) else feed T c ins (Suc i) rest (Some ok) m1)"
  using assms by (simp add: message_of_message_json)

lemma session_values:
  "session_with T port tik sc ex req out \<Longrightarrow> peer_identity_key T c = Inr tik"
  "session_with T port tik sc ex req out \<Longrightarrow> session_context T c = Inr sc"
  "session_with T port tik sc ex req out \<Longrightarrow> exporter T c = Inr ex"
  by (auto simp: session_with_def)

section \<open>Direct and relayed\<close>

lemma honest_seen:
  assumes "sound_crypto W" "trusted_tee W pubs (teeA W)" "verify_report (cfg m) = mock_verifier (wd_crypto W) pubs"
  shows "verify_report (cfg m) (msg_evidence (honest_message W D j sc ex n)) (report_data_for (link_at sc (wd_tik W) ex n) None)
      = Inr (True, Some (anchor_of (teeA W)))"
    and "sees m (wd_tik W) (honest_message W D j sc ex n) None None (anchor_of (teeA W))"
  using assms by (simp_all add: tee_verifies sees_def head_check_def)

lemma running_honest:
  assumes "sound_crypto W" "trusted_tee W pubs (teeA W)" "running W pubs (teeA W) sc ex n m" "length sc < 256" "int n < 2 ^ 64"
  obtains m' where "present (dr_ins D i) m (wd_tik W) sc ex (honest_message W D j sc ex n) None None
      = (Inr (True, ''accepted; continuity intact''), m')" "running W pubs (teeA W) sc ex (Suc n) m'"
proof -
  have "verify_report (cfg m) = mock_verifier (wd_crypto W) pubs" using assms(3) by (simp add: running_def)
  from running_present [OF assms(3-5) honest_message_sel(1,2) honest_seen(1) [OF assms(1,2) this]] that show thesis by blast
qed

lemma direct_accepted:
  assumes W: "sound_crypto W" "trusted_tee W pubs (teeA W)" and run: "running W pubs (teeA W) sc ex 0 m"
    and len: "length sc < 256" and s: "session_with T port (wd_tik W) sc ex steps_request out"
  obtains m' where "feed T c (dr_ins D) i (two_steps W D j sc ex) None m = (Inr (Some True), m')" "running W pubs (teeA W) sc ex 2 m'"
proof -
  have n: "int 0 < 2 ^ 64" "int 1 < 2 ^ 64" by simp_all
  obtain m1 where m1: "present (dr_ins D i) m (wd_tik W) sc ex (honest_message W D j sc ex 0) None None
      = (Inr (True, ''accepted; continuity intact''), m1)" "running W pubs (teeA W) sc ex 1 m1"
    unfolding One_nat_def by (rule running_honest [OF W run len n(1)])
  obtain m2 where "present (dr_ins D (Suc i)) m1 (wd_tik W) sc ex (honest_message W D (Suc j) sc ex 1) None None
      = (Inr (True, ''accepted; continuity intact''), m2)" "running W pubs (teeA W) sc ex (Suc 1) m2"
    by (rule running_honest [OF W m1(2) len n(2)])
  then show thesis
    using that m1(1) by (simp add: two_steps_def feed_step [OF session_values [OF s]] numeral_2_eq_2 del: feed.simps(2))
qed

text \<open>The first links of two sessions of the same key, under the guest's exporter and the client's.\<close>

definition relay_collision :: "world \<Rightarrow> bytes \<Rightarrow> bytes \<Rightarrow> bytes \<Rightarrow> bytes \<Rightarrow> bool" where
  "relay_collision W sc ex sc' ex' = link_collision (ex, intra_value sc (wd_tik W), 0) (ex', intra_value sc' (wd_tik W), 0)"

lemma relayed_refused:
  assumes W: "sound_crypto W" "trusted_tee W pubs (teeA W)" and run: "running W pubs (teeA W) sc0 ex0 2 m"
    and len: "length sc' < 256" "length ex = length ex'" "length ex' \<le> 128" and ne: "ex \<noteq> ex'"
    and s: "session_with T port (wd_tik W) sc' ex' steps_request out" and no: "\<not> relay_collision W sc ex sc' ex'"
  obtains m' where "feed T c (dr_ins D) i (two_steps W D j sc ex) None m = (Inr (Some False), m')"
proof -
  let ?msg = "honest_message W D j sc ex 0"
  have "\<not> admits m (wd_tik W) sc' ex' ?msg None None r pl an" for r pl an
  proof
    assume a: "admits m (wd_tik W) sc' ex' ?msg None None r pl an"
    have ss: "sessions_ok m" using run by (simp add: running_def)
    have "sessions m (hex (wd_tik W), session_key sc') = None"
    proof (cases "sessions m (hex (wd_tik W), session_key sc')")
      case (Some s)
      then have "0 \<le> ss_counter s" using ss by (simp add: sessions_ok_def)
      then show ?thesis using admits_counter [OF a] Some by simp
    qed simp
    then have "expected_base m (wd_tik W) sc' = intra_value sc' (wd_tik W)" by (simp add: expected_base_def)
    moreover have "pl = post_value ex (intra_value sc (wd_tik W)) 0" using a by (simp add: admits_def)
    ultimately have "post_value ex (intra_value sc (wd_tik W)) 0 = post_value ex' (intra_value sc' (wd_tik W)) 0"
      using admits_link(1) [OF a] by simp
    from post_value_eqD [OF this] ne no len show False by (auto simp: relay_collision_def len_simps)
  qed
  moreover have "sees m (wd_tik W) ?msg None None (anchor_of (teeA W))"
    using run by (intro honest_seen(2) [OF W]) (simp add: running_def)
  ultimately obtain why m' where "atk_present W D i m sc' ex' ?msg = Inr (False, why, m')"
    using running_answers [OF run len(1) _ _ \<open>sees m _ _ _ _ _\<close>, of ex' D i] by auto
  then show thesis
    using that by (simp add: two_steps_def feed_step [OF session_values [OF s]] atk_present_Inr del: feed.simps(2))
qed

text \<open>The enrolment block is the enrolment of the guest's identity on its TEE.\<close>

lemma demo_enrols:
  assumes W: "sound_crypto W" and s: "session_with T 18443 (wd_tik W) sc ex (enrol_request D) out"
    and out: "guest_frame W D 0 (Inr ex) (Inr sc) (enrol_request D) = Inr out"
  shows "demo_enrol W D T m = Some (enrol_on W D 0 (teeA W) None m)"
proof -
  have f: "frame (dumps_bytes (JObj [(''csr'', JStr (hex (wd_csr W))),
     (''evidence'', mock_report (wd_crypto W) (teeA W) (dr_rnd D 0) (sha512 (dr_nonce D 0 @ wd_csr W)))])) = Inr out"
    using out by (simp add: guest_frame_def guest_reply_enrol)
  obtain c c' where c: "client_enter T (client_new ''127.0.0.1'' 18443 None None) = Inr c"
    "client_request T c (enrol_request D) = Some (Inr (JObj [(''csr'', JStr (hex (wd_csr W))),
     (''evidence'', mock_report (wd_crypto W) (teeA W) (dr_rnd D 0) (sha512 (dr_nonce D 0 @ wd_csr W)))]), c')"
    by (rule session_request [OF s f]) simp_all
  have "csr_public_key_der (wd_crypto W) (wd_csr W) = Inr (wd_tik W)"
    using W by (simp add: csr_public_key_Inr sound_crypto_def wd_csr_def wd_tik_def make_enrolment_csr_def csr_correctD)
  then show ?thesis
    using c session_values(1) [OF s] by (simp add: demo_enrol_def challenge_def Let_def dindex_def enrol_on_def enrol_request_def)
qed

lemma relay_stopped_in_demo:
  assumes W: "sound_crypto W" "any_set (wd_inst_a W)" and t: "t_check (dr_ins D 0) < dr_now D 0 + 300"
    and s0: "session_with (T 0) 18443 (wd_tik W) sc0 ex0 (enrol_request D) out0"
      "guest_frame W D 0 (Inr ex0) (Inr sc0) (enrol_request D) = Inr out0"
    and s1: "session_with (T 1) 18443 (wd_tik W) sc1 ex1 steps_request out1"
      "guest_frame W D 1 (Inr ex1) (Inr sc1) steps_request = Inr out1" "length sc1 < 256"
    and s2: "session_with (T 2) 18444 (wd_tik W) sc2 ex2 steps_request out2"
      "guest_frame W D 3 (Inr ex3) (Inr sc3) steps_request = Inr out2" "length sc2 < 256" "length sc3 < 256"
    and ex: "ex3 \<noteq> ex2" "length ex3 = length ex2" "length ex2 \<le> 128"
  shows "(\<exists>m. demo_main W D T = Some (Inr (Some True, Some False, 0), m)) \<or> relay_collision W sc3 ex3 sc2 ex2"
proof (rule disjCI)
  assume no: "\<not> relay_collision W sc3 ex3 sc2 ex2"
  let ?pubs = "[hex (mock_pub (teeA W))]"
  let ?m = "mandate_new (attack_cfg W D ?pubs False) (MemoryStore [])"
  have tee: "trusted_tee W ?pubs (teeA W)" using W(2) by (simp add: trusted_tee_def teeA_def mock_tee_new_def)
  obtain m1 where m1: "enrol_on W D 0 (teeA W) None ?m = (Inr (True, ''enrolled''), m1)" "owned W ?pubs (teeA W) None [] m1"
    using enrolled_owned [OF W(1) tee t, of ?m D False None] new_readable by auto
  have run1: "running W ?pubs (teeA W) sc1 ex1 0 m1" using owned_running [OF m1(2)] tee by (simp add: trusted_tee_def)
  obtain c1 where c1: "ask_chain (T 1) 18443 (dr_ins D) 1 m1 = Some (feed (T 1) c1 (dr_ins D) 1 (two_steps W D 1 sc1 ex1) None m1)"
    by (rule ask_chain_feeds [OF s1])
  obtain m2 where m2: "feed (T 1) c1 (dr_ins D) 1 (two_steps W D 1 sc1 ex1) None m1 = (Inr (Some True), m2)"
    "running W ?pubs (teeA W) sc1 ex1 2 m2"
    by (rule direct_accepted [OF W(1) tee run1 s1(3,1)])
  obtain c2 where c2: "ask_chain (T 2) 18444 (dr_ins D) 3 m2 = Some (feed (T 2) c2 (dr_ins D) 3 (two_steps W D 3 sc3 ex3) None m2)"
    by (rule ask_chain_feeds [OF s2(1,2,4)])
  obtain m3 where m3: "feed (T 2) c2 (dr_ins D) 3 (two_steps W D 3 sc3 ex3) None m2 = (Inr (Some False), m3)"
    by (rule relayed_refused [OF W(1) tee m2(2) s2(3) ex(2,3,1) s2(1) no])
  have "demo_main W D T = Some (Inr (Some True, Some False, 0), m3)"
    using demo_enrols [OF W(1) s0] m1(1) c1 m2(1) c2 m3 by (simp add: demo_main_def)
  then show "\<exists>m. demo_main W D T = Some (Inr (Some True, Some False, 0), m)" by blast
qed

end
