(* ===== verification/Sample_Worlds.thy ===== *)
theory Sample_Worlds
  imports Samples Attack_Proofs Relay_Proofs
begin

text \<open>
  Concrete runs of the whole system: a guest with a device that answers every request, a client whose
  connection holds its reply, and a playground with distinct keys. Facts: the hypotheses of the
  end-to-end theorems hold of them.
\<close>

section \<open>A guest and its client\<close>

definition sample_guest :: "nat probe" where
  "sample_guest = \<lparr>pb_ops = \<lparr>ssl_bio_read = (\<lambda>c n. (WantRead, c)), ssl_bio_write = (\<lambda>c d. (Inr (), c)),
       ssl_do_handshake = (\<lambda>c. (Done (), c)), ssl_recv = (\<lambda>c n. (Done [], c)), ssl_sendall = (\<lambda>c d. (Inr (), c)),
       ssl_shutdown = (\<lambda>c. (Inr (), c))\<rparr>,
     pb_export = (\<lambda>c label n ctx. Inr [9]), pb_cipher = (\<lambda>c. ''TLS_AES_256_GCM_SHA384''),
     pb_device = (\<lambda>i rd. Inr (0, 1184, zeros 1184)), pb_instance = ''vm'', pb_zone = ''zone'',
     pb_tik_pub = [2], pb_csr = Inr [2], pb_gen_ms = (\<lambda>i. JInt 5)\<rparr>"

definition guest_verifier :: "json \<Rightarrow> bytes \<Rightarrow> (bool \<times> anchor option) py" where
  "guest_verifier ev rd = (if ev = snp_evidence (zeros 1184) rd then Inr (True, Some sample_anchor) else Inr (False, None))"

definition guest_mandate :: mandate where
  "guest_mandate = mandate_new (sample_cfg\<lparr>verify_report := guest_verifier\<rparr>) (MemoryStore [])"

text \<open>The two steps the guest serves over a connection with exporter \<open>[9]\<close> and session context \<open>[5]\<close>.\<close>

definition sample_blob :: bytes where
  "sample_blob = dumps_bytes (chain_reply sample_guest
     (map (\<lambda>c. chain_item sample_guest [5] [9] c (zeros 1184)) [0..<2]) None)"

text \<open>A connection whose state is what is still to be read; sending a request makes \<open>out\<close> arrive.\<close>

definition conn_with :: "bytes \<Rightarrow> bytes \<Rightarrow> bytes \<Rightarrow> bytes tls_conn" where
  "conn_with sc ex out = \<lparr>tc_load_verify_locations = (\<lambda>f. Inr ()), tc_create_connection = (\<lambda>h p t. Inr []),
     tc_do_handshake = (\<lambda>x c. (Inr (), c)),
     tc_export = (\<lambda>c label n ctx. Inr (if label = EXPORTER_LABEL then ex else sc)),
     tc_peer_certificate = (\<lambda>c. Inr [2]), tc_certificate_spki = Inr, tc_sendall = (\<lambda>c d. (Inr (), out)),
     tc_recv = (\<lambda>c n. (Inr (take n c), drop n c)), tc_shutdown = (\<lambda>c. (Inr (), c)), tc_close = (\<lambda>c. (Inr (), c))\<rparr>"

definition sample_conn :: "bytes tls_conn" where
  "sample_conn = conn_with [5] [9] (be_bytes 4 (int (length sample_blob)) @ sample_blob)"

lemma length_esc_char: "length (esc_char c) \<le> 6"
  by (simp add: esc_char_def Let_def)

lemma length_emit_str: "length (emit_str s) \<le> 6 * length s + 2"
proof -
  have "length (concat (map esc_char s)) \<le> 6 * length s"
    by (induction s) (use length_esc_char in \<open>auto intro: add_mono\<close>)
  then show ?thesis by (simp add: emit_str_def)
qed

lemma length_b64encode: "length (b64encode b) \<le> 2 * length b + 4"
  by (induction b rule: b64encode.induct) simp_all

lemma sample_blob_short: "length sample_blob < 2 ^ 32"
proof -
  have link: "length (emit_str (hex (post_value e b c))) \<le> 386" for e b c
    using length_emit_str [of "hex (post_value e b c)"] by (simp add: len_simps)
  have "length (emit_str (b64encode (zeros 1184))) \<le> 14234"
    using length_emit_str [of "b64encode (zeros 1184)"] length_b64encode [of "zeros 1184"] by (simp add: len_simps)
  moreover have "length (emit_str ''vm'') \<le> 14" "length (emit_str ''zone'') \<le> 26" "length (emit_str ''instance'') \<le> 50"
    "length (emit_str ''chain'') \<le> 32" "length (emit_str ''head'') \<le> 26" "length (emit_str ''counter'') \<le> 44"
    "length (emit_str ''post_link'') \<le> 56" "length (emit_str ''report'') \<le> 38" "length (emit_str ''gen_ms'') \<le> 38"
    using length_emit_str [of "''vm''"] length_emit_str [of "''zone''"] length_emit_str [of "''instance''"]
      length_emit_str [of "''chain''"] length_emit_str [of "''head''"] length_emit_str [of "''counter''"]
      length_emit_str [of "''post_link''"] length_emit_str [of "''report''"] length_emit_str [of "''gen_ms''"] by simp_all
  moreover have "length (dec_int 0) = 1" "length (dec_int 1) = 1" "length (dec_int 5) = 1"
    by (simp_all add: dec_int_def dec_nat.simps)
  moreover have "[0..<2] = [0, Suc 0]" by (simp add: upt_rec)
  ultimately show ?thesis
    using link [of "[9]" "intra_value [5] [2]" 0] link [of "[9]" "post_value [9] (intra_value [5] [2]) 0" 1]
    by (simp add: sample_blob_def dumps_bytes_lit chain_reply_def chain_item_def default_seps_def sample_guest_def len_simps)
qed

lemma conn_with_delivers: "delivers (conn_with sc ex out) id"
  unfolding delivers_def by (auto simp: conn_with_def)

lemma conn_with_values:
  "exporter (conn_with sc ex out) c = Inr ex" "session_context (conn_with sc ex out) c = Inr sc"
  "peer_identity_key (conn_with sc ex out) c = Inr [2]"
proof -
  have "CONTEXT_LABEL \<noteq> EXPORTER_LABEL"
    by (simp add: CONTEXT_LABEL_def EXPORTER_LABEL_def lit_inj)
  then show "exporter (conn_with sc ex out) c = Inr ex" "session_context (conn_with sc ex out) c = Inr sc"
    "peer_identity_key (conn_with sc ex out) c = Inr [2]"
    by (simp_all add: exporter_def session_context_def peer_identity_key_def conn_with_def)
qed

lemma conn_with_session: "session_with (conn_with sc ex out) port [2] sc ex req out"
proof -
  have "client_enter (conn_with sc ex out) (client_new ''127.0.0.1'' port None None) = Inr []"
    by (simp add: client_enter_def client_context_def client_new_def) (simp add: conn_with_def)
  moreover have "tc_sendall (conn_with sc ex out) [] d = (Inr (), out)" for d by (simp add: conn_with_def)
  moreover have "id out = out @ []" by simp
  ultimately show ?thesis unfolding session_with_def using conn_with_delivers conn_with_values by metis
qed

lemma sample_conn_delivers: "delivers sample_conn id"
  unfolding sample_conn_def by (rule conn_with_delivers)

lemma sample_same_session: "same_session sample_conn sample_guest [9] [5]"
  by (simp add: same_session_def sample_conn_def conn_with_values) (simp add: sample_guest_def)

lemma sample_device_trusted: "device_trusted (cfg guest_mandate) sample_guest [5] [9] (\<lambda>c. zeros 1184) sample_anchor n"
  by (simp add: device_trusted_def Let_def item_report_def snp_report_def)
    (simp add: sample_guest_def guest_mandate_def mandate_new_def guest_verifier_def len_simps)

lemma guest_chain_state: "chain_state guest_mandate (pb_tik_pub sample_guest) [5] [9] sample_anchor 0"
proof -
  have "mandate_rec guest_mandate k = Inr blank" for k
    by (simp add: mandate_rec_def guest_mandate_def mandate_new_def memory_get_def)
  moreover have "ledger_admits (cfg guest_mandate) blank (Some sample_anchor)"
    by (simp add: ledger_admits_def Let_def opt_fromhex_def agrees_def guest_mandate_def mandate_new_def)
  moreover have "sessions guest_mandate = Map.empty" by (simp add: guest_mandate_def mandate_new_def)
  moreover have "log_inv guest_mandate" by (simp add: guest_mandate_def log_inv_new)
  ultimately show ?thesis by (simp add: chain_state_def)
qed

section \<open>A playground\<close>

definition sample_world :: world where
  "sample_world = \<lparr>wd_crypto = sample_crypto, wd_tik_key = [2], wd_csr_rnd = [], wd_inst_a = [7], wd_key_a = [1],
     wd_inst_b = [8], wd_key_b = [3]\<rparr>"

definition sample_draws :: draws where
  "sample_draws = \<lparr>dr_sth_key = [6], dr_nonce = (\<lambda>j. [of_nat j]), dr_now = (\<lambda>j. 10), dr_e = [9], dr_t = [5], dr_e2 = [10], dr_t2 = [6],
     dr_rnd = (\<lambda>j. []), dr_ins = (\<lambda>j. sample_inputs), dr_owner = [4], dr_rogue = [5], dr_grant_nonce = [1],
     dr_grant_now = 10, dr_grant_now2 = 10, dr_z1 = ([11], [12]), dr_z2 = ([13], [14]), dr_dir = ''d''\<rparr>"

lemma sample_game: "fair_game sample_world (\<lambda>name. sample_draws)"
proof -
  have "canonical_grant (redirected (owner_grant sample_world sample_draws)) \<noteq> canonical_grant (owner_grant sample_world sample_draws)"
  proof
    assume eq: "canonical_grant (redirected (owner_grant sample_world sample_draws)) = canonical_grant (owner_grant sample_world sample_draws)"
    have "hex (replicate 32 0x99) \<noteq> hex [8]" by (simp add: numeral_eq_Suc)
    with grants.enc_field [OF _ _ eq [unfolded owner_grant_def redirected_def json.case], of "''to''"]
    show False by (simp add: grant_dict_def sample_world_def)
  qed
  moreover have "int_of_time 10 = 10" by (simp add: int_of_time_def)
  ultimately show ?thesis
    by (simp add: fair_game_def fair_world_def fair_draws_def sound_crypto_def sample_sig_correct sample_csr_correct Let_def
        timely_def verify_grant_def grant_sig_def any_set_def sample_world_def sample_draws_def sample_inputs_def)
      (simp add: sample_crypto_def)
qed

section \<open>A relay\<close>

lemma sample_world_sel [simp]: "wd_tik sample_world = [2]" "wd_csr sample_world = [2]" "sound_crypto sample_world"
  "any_set (wd_inst_a sample_world)"
  by (simp_all add: wd_tik_def wd_csr_def sample_world_def make_enrolment_csr_def sound_crypto_def sample_sig_correct
      sample_csr_correct any_set_def) (simp_all add: sample_crypto_def)

lemma sample_evidence_short:
  assumes "length rd = 64"
  shows "length (emit default_seps (mock_report (wd_crypto sample_world) (teeA sample_world) rnd rd)) \<le> 4096"
proof -
  have "length CHIP_A = 64" by (simp add: CHIP_A_def numeral_eq_Suc)
  then have "length (emit_str (hex CHIP_A)) \<le> 770" "length (emit_str (hex rd)) \<le> 770"
    "length (emit_str (hex (1 # 7 # CHIP_A @ rd))) \<le> 1562" "length (emit_str (hex [7])) \<le> 14" "length (emit_str (hex [1])) \<le> 14"
    using assms length_emit_str [of "hex CHIP_A"] length_emit_str [of "hex rd"] length_emit_str [of "hex (1 # 7 # CHIP_A @ rd)"]
      length_emit_str [of "hex [7]"] length_emit_str [of "hex [1]"] by (simp_all add: len_simps)
  moreover have "length (emit_str ''kind'') \<le> 26" "length (emit_str ''mock'') \<le> 26" "length (emit_str ''instance'') \<le> 50"
    "length (emit_str ''chip'') \<le> 26" "length (emit_str ''report_data'') \<le> 68" "length (emit_str ''pub'') \<le> 20"
    "length (emit_str ''sig'') \<le> 20"
    using length_emit_str [of "''kind''"] length_emit_str [of "''mock''"] length_emit_str [of "''instance''"]
      length_emit_str [of "''chip''"] length_emit_str [of "''report_data''"] length_emit_str [of "''pub''"]
      length_emit_str [of "''sig''"] by simp_all
  ultimately show ?thesis
    by (simp add: mock_report_def Let_def default_seps_def teeA_def mock_tee_new_def sample_world_def sample_crypto_def)
qed

lemma sample_step_short:
  "length (emit default_seps (message_json (honest_message sample_world D j sc ex n))) \<le> 5000" if "n < 2"
proof -
  obtain l where l: "link_at sc [2] ex n = l" "length l = 32" by (simp add: len_simps)
  have "length (report_data_for l None) = 64" by (simp add: len_simps)
  then have "length (emit default_seps (mock_report (wd_crypto sample_world) (teeA sample_world) (dr_rnd D j) (report_data_for l None))) \<le> 4096"
    by (rule sample_evidence_short)
  moreover have "length (emit_str (hex l)) \<le> 386" "length (emit_str ''counter'') \<le> 44" "length (emit_str ''intra_ok_base'') \<le> 80"
    "length (emit_str ''post_link'') \<le> 56" "length (emit_str ''evidence'') \<le> 50"
    using l(2) length_emit_str [of "hex l"] length_emit_str [of "''counter''"] length_emit_str [of "''intra_ok_base''"]
      length_emit_str [of "''post_link''"] length_emit_str [of "''evidence''"] by (simp_all add: len_simps)
  moreover have "length (dec_int (int n)) = 1" using that by (cases n) (simp_all add: dec_int_def dec_nat.simps)
  ultimately show ?thesis
    using l(1) by (simp add: message_json_def honest_message_def) (simp add: default_seps_def)
qed

lemma sample_frames:
  "length sc < 256 \<Longrightarrow> \<exists>out. guest_frame sample_world sample_draws j (Inr ex) (Inr sc) steps_request = Inr out"
  "\<exists>out. guest_frame sample_world sample_draws 0 (Inr ex) (Inr sc) (enrol_request sample_draws) = Inr out"
proof -
  have c: "length (emit_str ''chain'') \<le> 32" "length (emit_str ''csr'') \<le> 20" "length (emit_str ''evidence'') \<le> 50" "length (emit_str (hex [2])) \<le> 14"
    using length_emit_str [of "''chain''"] length_emit_str [of "''csr''"] length_emit_str [of "''evidence''"] length_emit_str [of "hex [2]"]
    by (simp_all add: len_simps)
  have "length (dumps_bytes (JObj [(''chain'', JList (two_steps sample_world sample_draws j sc ex))])) < 2 ^ 32"
    using sample_step_short [of 0 sample_draws j sc ex] sample_step_short [of 1 sample_draws "Suc j" sc ex] c(1)
    by (simp add: dumps_bytes_lit two_steps_def len_simps) (simp add: default_seps_def)
  then show "\<exists>out. guest_frame sample_world sample_draws j (Inr ex) (Inr sc) steps_request = Inr out" if "length sc < 256"
    using that by (simp add: guest_frame_def guest_reply_steps frame_Inr)
  have "length (sha512 (dr_nonce sample_draws 0 @ wd_csr sample_world)) = 64" by (simp add: len_simps)
  from sample_evidence_short [OF this, of "dr_rnd sample_draws 0"] c(2-4)
  have "length (dumps_bytes (JObj [(''csr'', JStr (hex (wd_csr sample_world))), (''evidence'', mock_report (wd_crypto sample_world)
      (teeA sample_world) (dr_rnd sample_draws 0) (sha512 (dr_nonce sample_draws 0 @ wd_csr sample_world)))])) < 2 ^ 32"
    by (simp add: dumps_bytes_lit len_simps) (simp add: default_seps_def)
  then show "\<exists>out. guest_frame sample_world sample_draws 0 (Inr ex) (Inr sc) (enrol_request sample_draws) = Inr out"
    unfolding guest_frame_def guest_reply_enrol by (simp add: frame_Inr)
qed

end
