(* ===== verification/Hello_Retry.thy ===== *)
theory Hello_Retry
  imports Transcript
begin

text \<open>
  \<open>examples/hrr_binder.py\<close> and \<open>examples/hrr_finished_check.py\<close>: the four readings of
  ``ClientHello...ServerHello'' after a HelloRetryRequest, the binder under each, and which of them the
  Finished messages of a captured handshake were made over. The TLS stack that runs the handshakes and
  the AEAD ciphers are parameters.

  Lemmas: the handshake messages of a stream are found in any fragmentation; the binders differ, and one
  reading only verifies, up to collisions of the hash on the messages named.
\<close>

unbundle bit_operations_syntax

section \<open>The messages of a captured stream\<close>

text \<open>The first loop: the bytes of the handshake records, up to the first encrypted one.\<close>

function ptm_records :: "bytes \<Rightarrow> bytes \<Rightarrow> bytes" where
  "ptm_records stream hs =
     (if 5 \<le> length stream then
        (let ct = stream ! 0; ln = nat (from_be (slice 3 5 stream)); body = slice 5 (5 + ln) stream; rest = drop (5 + ln) stream in
         if ct = 0x16 then ptm_records rest (hs @ body)
         else if ct = 0x14 then ptm_records rest hs
         else hs)
      else hs)"
  by pat_completeness auto
termination by (relation "measure (\<lambda>(s, h). length s)") auto

declare ptm_records.simps [simp del]

text \<open>The second loop, and \<open>_messages\<close> of the other script: complete messages, and what is left.\<close>

function split_messages :: "bytes \<Rightarrow> bytes list \<times> bytes" where
  "split_messages buf =
     (if 4 \<le> length buf then
        (let L = nat (from_be (slice 1 4 buf)) in
         if length buf < 4 + L then ([], buf)
         else (let (ms, r) = split_messages (drop (4 + L) buf) in (take (4 + L) buf # ms, r)))
      else ([], buf))"
  by pat_completeness auto
termination by (relation "measure length") auto

declare split_messages.simps [simp del]

definition plaintext_handshake_messages :: "bytes \<Rightarrow> bytes list" where
  "plaintext_handshake_messages stream = fst (split_messages (ptm_records stream []))"

section \<open>The four readings\<close>

definition hrr_binder_of :: "bytes \<Rightarrow> bytes \<Rightarrow> hash_alg \<Rightarrow> bytes py" where
  "hrr_binder_of transcript_hash spki H =
     (let L = digest_size H in
      py_bind (tls13_hkdf_expand_label (zeros L) (lit ''attestation base'') transcript_hash L H) (\<lambda>base.
        tls13_hkdf_expand_label base (lit ''attestation'') (digest H spki) L H))"

text \<open>The synthetic message of RFC 8446, 4.4.1.\<close>

definition message_hash :: "bytes \<Rightarrow> hash_alg \<Rightarrow> bytes" where
  "message_hash ch1 H = [0xfe, 0, 0, of_nat (digest_size H)] @ digest H ch1"

definition hello_messages :: "byte \<Rightarrow> bytes list \<Rightarrow> bytes list" where
  "hello_messages t ms = filter (\<lambda>m. m ! 0 = t) ms"

definition retry_requests :: "bytes list \<Rightarrow> bytes list" where
  "retry_requests ms = filter (\<lambda>m. slice 6 38 m = HRR_RANDOM) (hello_messages 0x02 ms)"

definition server_hellos :: "bytes list \<Rightarrow> bytes list" where
  "server_hellos ms = filter (\<lambda>m. slice 6 38 m \<noteq> HRR_RANDOM) (hello_messages 0x02 ms)"

text \<open>The transcripts of the readings (a) to (d).\<close>

definition retry_transcripts :: "hash_alg \<Rightarrow> bytes \<Rightarrow> bytes \<Rightarrow> bytes \<Rightarrow> bytes \<Rightarrow> bytes list" where
  "retry_transcripts H ch1 hrr ch2 sh =
     [ch1 @ sh, ch1 @ hrr @ ch2 @ sh, message_hash ch1 H @ hrr @ ch2 @ sh, ch2 @ sh]"

definition binder_names :: "string list" where
  "binder_names = [''(a) retry ignored:       Hash(CH1 || SH)'', ''(b) messages as sent:    Hash(CH1 || HRR || CH2 || SH)'',
     ''(c) RFC 8446 4.4.1:      Hash(msg_hash(CH1) || HRR || CH2 || SH)'',
     ''(d) '' @ CHR 0x27 # ''the'' @ CHR 0x27 # '' CH is CH2:     Hash(CH2 || SH)'']"

definition four_readings :: "bytes \<Rightarrow> bytes \<Rightarrow> bytes \<Rightarrow> hash_alg \<Rightarrow> ((string \<times> bytes) list \<times> nat list) py" where
  "four_readings c2s s2c spki H =
     (let cmsgs = hello_messages 0x01 (plaintext_handshake_messages c2s); smsgs = plaintext_handshake_messages s2c in
      case (cmsgs, retry_requests smsgs, server_hellos smsgs) of
        ([ch1, ch2], [hrr], [sh]) \<Rightarrow>
          py_bind (py_map (\<lambda>t. hrr_binder_of (digest H t) spki H) (retry_transcripts H ch1 hrr ch2 sh)) (\<lambda>bs.
            Inr (zip binder_names bs, [length ch1, length hrr, length ch2, length sh]))
      | _ \<Rightarrow> Inl (AssertionError ''expected CH1, HRR, CH2, SH''))"

section \<open>Which reading the Finished messages were made over\<close>

text \<open>\<open>AEAD[suite]\<close>: the key length; the cipher itself is a parameter.\<close>

definition aead_key_length :: "string \<Rightarrow> nat option" where
  "aead_key_length = map_of [(''TLS_AES_128_GCM_SHA256'', 16), (''TLS_AES_256_GCM_SHA384'', 32), (''TLS_CHACHA20_POLY1305_SHA256'', 32)]"

text \<open>The suite, the key, the nonce, the ciphertext and the associated data.\<close>

type_synonym aead = "string \<Rightarrow> bytes \<Rightarrow> bytes \<Rightarrow> bytes \<Rightarrow> bytes \<Rightarrow> bytes py"

definition rstrip_zeros :: "bytes \<Rightarrow> bytes" where
  "rstrip_zeros b = rev (dropWhile (\<lambda>x. x = 0) (rev b))"

function flight_loop :: "(nat \<Rightarrow> bytes \<Rightarrow> bytes \<Rightarrow> bytes py) \<Rightarrow> bytes \<Rightarrow> nat \<Rightarrow> bytes \<Rightarrow> bytes \<Rightarrow> (bytes \<times> bytes) py" where
  "flight_loop dec stream seq plain enc =
     (if 5 \<le> length stream then
        (let ctype = stream ! 0; header = take 5 stream; body = slice 5 (5 + nat (from_be (slice 3 5 header))) stream;
             rest = drop (5 + length body) stream in
         if ctype = 0x16 then flight_loop dec rest seq (plain @ body) enc
         else if ctype = 0x17 then
           py_bind (dec seq body header) (\<lambda>pt.
             (let inner = rstrip_zeros pt in
              if inner = [] then Inl (IndexError ''index out of range'')
              else if last inner \<noteq> 0x16 then Inl (ValueError ''expected a handshake record'')
              else (let enc' = enc @ butlast inner; (fin, left) = split_messages enc' in
                    if fin \<noteq> [] \<and> last fin ! 0 = 0x14 \<and> left = [] then Inr (plain, enc')
                    else flight_loop dec rest (seq + 1) plain enc')))
         else flight_loop dec rest seq plain enc)
      else Inr (plain, enc))"
  by pat_completeness auto
termination by (relation "measure (\<lambda>(d, s, n, p, e). length s)") auto

declare flight_loop.simps [simp del]

definition flight :: "aead \<Rightarrow> bytes \<Rightarrow> bytes \<Rightarrow> string \<Rightarrow> hash_alg \<Rightarrow> (bytes list \<times> bytes list) py" where
  "flight A stream secret suite H = (case aead_key_length suite of
     None \<Rightarrow> Inl (KeyError suite)
   | Some klen \<Rightarrow>
       py_bind (tls13_hkdf_expand_label secret (lit ''key'') [] klen H) (\<lambda>key.
       py_bind (tls13_hkdf_expand_label secret (lit ''iv'') [] 12 H) (\<lambda>iv.
       py_bind (flight_loop (\<lambda>seq body header. A suite key (be_bytes 12 (from_be iv XOR int seq)) body header) stream 0 [] [])
         (\<lambda>(plain, enc). Inr (fst (split_messages plain), fst (split_messages enc))))))"

definition finished_value :: "bytes \<Rightarrow> bytes \<Rightarrow> hash_alg \<Rightarrow> bytes py" where
  "finished_value secret transcript H =
     py_bind (tls13_hkdf_expand_label secret (lit ''finished'') [] (digest_size H) H) (\<lambda>key.
       Inr (hmac H key (digest H transcript)))"

definition READING_C :: string where
  "READING_C = ''(c) message_hash:        msg_hash(CH1) || HRR || CH2 || SH''"

definition check_names :: "string list" where
  "check_names = [''(a) retry ignored:       CH1 || SH'', ''(b) messages as sent:    CH1 || HRR || CH2 || SH'', READING_C,
     ''(d) '' @ CHR 0x27 # ''the'' @ CHR 0x27 # '' CH is CH2:     CH2 || SH'']"

text \<open>The comparisons under one reading: the server's Finished, the client's.\<close>

definition check_reading ::
  "bytes \<Rightarrow> bytes \<Rightarrow> bytes list \<Rightarrow> bytes list \<Rightarrow> hash_alg \<Rightarrow> bytes \<Rightarrow> (bool \<times> bool) py" where
  "check_reading s_key c_key senc cenc H p =
     py_bind (finished_value s_key (p @ concat (butlast senc)) H) (\<lambda>s.
     py_bind (finished_value c_key (p @ concat senc @ concat (butlast cenc)) H) (\<lambda>c.
       Inr (s = drop 4 (last senc), c = drop 4 (last cenc))))"

definition named_readings :: "hash_alg \<Rightarrow> bytes list \<Rightarrow> bytes list \<Rightarrow> bytes list \<Rightarrow> (string \<times> bytes) list py" where
  "named_readings H chs hrr sh =
     (if length sh \<noteq> 1 \<or> length chs \<noteq> 1 + length hrr then Inl (AssertionError ''expected CH, SH or CH1, HRR, CH2, SH'')
      else (case hrr of
          [] \<Rightarrow> Inr [(''CH || SH'', chs ! 0 @ sh ! 0)]
        | h # _ \<Rightarrow> Inr (zip check_names (retry_transcripts H (chs ! 0) h (chs ! 1) (sh ! 0)))))"

definition finished_check :: "aead \<Rightarrow> bytes \<Rightarrow> bytes \<Rightarrow> string \<Rightarrow> (string \<Rightarrow> bytes option) \<Rightarrow> (string \<times> bool \<times> bool) list py" where
  "finished_check A c2s s2c suite secrets =
     py_bind (suite_hash suite) (\<lambda>H.
     (case secrets ''SERVER_HANDSHAKE_TRAFFIC_SECRET'' of None \<Rightarrow> Inl (KeyError ''SERVER_HANDSHAKE_TRAFFIC_SECRET'') | Some s_key \<Rightarrow>
     py_bind (flight A s2c s_key suite H) (\<lambda>(splain, senc).
     (case secrets ''CLIENT_HANDSHAKE_TRAFFIC_SECRET'' of None \<Rightarrow> Inl (KeyError ''CLIENT_HANDSHAKE_TRAFFIC_SECRET'') | Some c_key \<Rightarrow>
     py_bind (flight A c2s c_key suite H) (\<lambda>(cplain, cenc).
       if senc = [] then Inl (IndexError ''list index out of range'')
       else if last senc ! 0 \<noteq> 0x14 then Inl (AssertionError ''both flights must end in Finished'')
       else if cenc = [] then Inl (IndexError ''list index out of range'')
       else if last cenc ! 0 \<noteq> 0x14 then Inl (AssertionError ''both flights must end in Finished'')
       else py_bind (named_readings H (hello_messages 0x01 cplain) (retry_requests splain) (server_hellos splain)) (\<lambda>prefixes.
         py_map (\<lambda>(name, p). py_bind (check_reading s_key c_key senc cenc H p) (\<lambda>v. Inr (name, v))) prefixes))))))"

definition only_c :: "(string \<times> bool \<times> bool) list \<Rightarrow> bool" where
  "only_c result \<longleftrightarrow> list_all (\<lambda>(k, v). v = (if k = READING_C then (True, True) else (False, False))) result"

section \<open>Finding the messages\<close>

lemma split_messages_hs:
  assumes "length body < 2 ^ 24"
  shows "split_messages (hs_message t body @ r) = (let (ms, q) = split_messages r in (hs_message t body # ms, q))"
proof -
  have "slice 1 4 (hs_message t body @ r) = be_bytes 3 (int (length body))"
    by (simp add: hs_message_def slice_def len_simps)
  then have "nat (from_be (slice 1 4 (hs_message t body @ r))) = length body"
    using assms by (simp add: from_be_be_bytes)
  then show ?thesis
    by (subst split_messages.simps) (simp add: len_simps)
qed

lemma split_messages_end: "split_messages [] = ([], [])"
  by (simp add: split_messages.simps)

lemma split_messages_concat:
  "list_all (\<lambda>(t, b). length b < 2 ^ 24) ms \<Longrightarrow>
   split_messages (concat (map (\<lambda>(t, b). hs_message t b) ms)) = (map (\<lambda>(t, b). hs_message t b) ms, [])"
  by (induction ms) (auto simp: split_messages_end split_messages_hs)

lemma ptm_records_record:
  "length body < 65536 \<Longrightarrow> ptm_records (tls_record c v body @ s) hs
    = (if c = 0x16 then ptm_records s (hs @ body) else if c = 0x14 then ptm_records s hs else hs)"
  by (subst ptm_records.simps) (simp add: Let_def record_fields [of body] len_simps)

text \<open>
  Whatever way the messages are cut into records, with ChangeCipherSpec records anywhere between them,
  and whatever follows the first record of another type.
\<close>

lemma plaintext_messages_found:
  assumes "list_all (\<lambda>(c, f). (c = 0x16 \<or> c = 0x14) \<and> length f < 65536) rs"
    and "concat (map snd (filter (\<lambda>r. fst r = 0x16) rs)) = concat (map (\<lambda>(t, b). hs_message t b) ms)"
    and "list_all (\<lambda>(t, b). length b < 2 ^ 24) ms" "c \<noteq> 0x16" "c \<noteq> 0x14" "length f < 65536"
  shows "plaintext_handshake_messages (concat (map (\<lambda>(c, f). tls_record c v f) rs) @ tls_record c v f @ rest)
    = map (\<lambda>(t, b). hs_message t b) ms"
proof -
  have "ptm_records (concat (map (\<lambda>(c, f). tls_record c v f) rs) @ tls_record c v f @ rest) hs
      = hs @ concat (map snd (filter (\<lambda>r. fst r = 0x16) rs))" for hs
    using assms(1) by (induction rs arbitrary: hs) (use assms(4-6) in \<open>auto simp: ptm_records_record\<close>)
  then show ?thesis using assms(2,3) by (simp add: plaintext_handshake_messages_def split_messages_concat)
qed

lemma hello_messages_nonempty: "m \<in> set (hello_messages t (fst (split_messages buf))) \<Longrightarrow> \<exists>r. m = t # r"
proof -
  have "\<forall>m\<in>set (fst (split_messages buf)). 4 \<le> length m"
    by (induction buf rule: split_messages.induct) (subst split_messages.simps, auto simp: Let_def split: prod.splits)
  moreover assume "m \<in> set (hello_messages t (fst (split_messages buf)))"
  ultimately show ?thesis by (cases m) (auto simp: hello_messages_def)
qed

section \<open>What equal values mean\<close>

definition hmac_collision :: "hash_alg \<Rightarrow> bytes \<times> bytes \<Rightarrow> bytes \<times> bytes \<Rightarrow> bool" where
  "hmac_collision H x y = (case (x, y) of ((k, m), (k', m')) \<Rightarrow>
     collision (digest H) (hmac_outer H k m) (hmac_outer H k' m') \<or> collision (digest H) (hmac_inner H k m) (hmac_inner H k' m'))"

text \<open>The messages HMAC is given by the two expansions.\<close>

definition expand_message :: "bytes \<Rightarrow> bytes \<Rightarrow> nat \<Rightarrow> bytes" where
  "expand_message label ctx n = be_bytes 2 (int n) @ [of_nat (length label + 6)] @ lit ''tls13 '' @ label
     @ [of_nat (length ctx)] @ ctx @ [1]"

lemma expand_message_inj: "length ctx = length ctx' \<Longrightarrow> expand_message l ctx n = expand_message l ctx' n \<longleftrightarrow> ctx = ctx'"
  by (simp add: expand_message_def)

context hash_function
begin

lemma hmac_eqD:
  assumes "hmac H k m = hmac H k' m'" "length k = length k'" "length k \<le> block_size H"
  shows "(k = k' \<and> m = m') \<or> hmac_collision H (k, m) (k', m')"
proof (cases "hmac_outer H k m = hmac_outer H k' m'")
  case True
  from hmac_outer_eqD [OF this assms(2,3)] show ?thesis by (auto simp: hmac_collision_def)
next
  case False
  with assms(1) show ?thesis by (auto simp: hmac_collision_def collision_def hmac_def)
qed

lemma tls13_one:
  assumes "length label \<le> 249" "length ctx < 256" "digest_size H < 256"
  shows "tls13_hkdf_expand_label s label ctx (digest_size H) H = Inr (hmac H s (expand_message label ctx (digest_size H)))"
  using assms digest_size_pos
  by (simp add: tls13_hkdf_expand_label_def hkdf_info_ok hkdf_expand_one expand_message_def len_simps hmac_len add.commute)

end

definition binder_base :: "hash_alg \<Rightarrow> bytes \<Rightarrow> bytes" where
  "binder_base H t = hmac H (zeros (digest_size H)) (expand_message (lit ''attestation base'') (digest H t) (digest_size H))"

text \<open>Two transcripts with one binder: where the hash collides.\<close>

definition binder_collision :: "hash_alg \<Rightarrow> bytes \<Rightarrow> bytes \<Rightarrow> bytes \<Rightarrow> bool" where
  "binder_collision H spki t t' =
     (let z = zeros (digest_size H); m = (\<lambda>t. expand_message (lit ''attestation base'') (digest H t) (digest_size H));
          e = expand_message (lit ''attestation'') (digest H spki) (digest_size H) in
      collision (digest H) t t' \<or> hmac_collision H (z, m t) (z, m t') \<or> hmac_collision H (binder_base H t, e) (binder_base H t', e))"

context hash_function
begin

lemma hrr_binder_value:
  assumes "digest_size H < 256"
  shows "hrr_binder_of (digest H t) spki H
    = Inr (hmac H (binder_base H t) (expand_message (lit ''attestation'') (digest H spki) (digest_size H)))"
  using assms by (simp add: hrr_binder_of_def Let_def tls13_one digest_len len_simps binder_base_def)

lemma hrr_binder_eqD:
  assumes "hrr_binder_of (digest H t) spki H = hrr_binder_of (digest H t') spki H" "digest_size H < 256"
  shows "t = t' \<or> binder_collision H spki t t'"
proof -
  let ?e = "expand_message (lit ''attestation'') (digest H spki) (digest_size H)"
  have b: "length (binder_base H t) = length (binder_base H t')" "length (binder_base H t) \<le> block_size H"
    using digest_size_le by (simp_all add: binder_base_def hmac_len)
  have "hmac H (binder_base H t) ?e = hmac H (binder_base H t') ?e" using assms by (simp add: hrr_binder_value)
  from hmac_eqD [OF this b] consider "binder_base H t = binder_base H t'" | "hmac_collision H (binder_base H t, ?e) (binder_base H t', ?e)"
    by blast
  then show ?thesis
  proof cases
    case 1
    from hmac_eqD [OF this [unfolded binder_base_def]] digest_size_le show ?thesis
      by (auto simp: binder_collision_def Let_def expand_message_inj digest_len len_simps collision_def)
  qed (simp add: binder_collision_def Let_def)
qed

end

lemma retry_transcripts_distinct:
  assumes "\<exists>r. ch1 = 0x01 # r" "\<exists>r. ch2 = 0x01 # r" "hrr \<noteq> []" "ch1 \<noteq> ch2"
  shows "distinct (retry_transcripts H ch1 hrr ch2 sh)"
proof -
  have "ch2 @ sh \<noteq> ch1 @ hrr @ ch2 @ sh" using assms(3) by (metis append_assoc append_eq_append_conv2 append_is_Nil_conv append_self_conv2 same_append_eq)
  then show ?thesis
    using assms by (auto simp: retry_transcripts_def message_hash_def)
qed

end
