(* ===== verification/Hello_Retry_Proofs.thy ===== *)
theory Hello_Retry_Proofs
  imports Hello_Retry
begin

text \<open>
  What a flight of a TLS 1.3 handshake is on the wire, that \<open>flight\<close> recovers its messages whatever the
  records and the padding, and what the comparisons of \<open>finished_check\<close> decide; at the end sample handshakes.
\<close>

unbundle bit_operations_syntax

section \<open>What a flight of the handshake looks like\<close>

text \<open>
  RFC 8446, 5.1 and 5.2: a record in the clear, or a fragment of the handshake sealed with some padding
  under the next sequence number.
\<close>

datatype tls_item = Clear byte bytes | Sealed bytes nat

definition inner_text :: "bytes \<Rightarrow> nat \<Rightarrow> bytes" where
  "inner_text f k = f @ [0x16] @ zeros k"

definition sealed_header :: "byte \<times> byte \<Rightarrow> bytes \<Rightarrow> nat \<Rightarrow> bytes" where
  "sealed_header v f k = [0x17, fst v, snd v] @ be_bytes 2 (int (length f + k + 17))"

fun wire_of :: "(nat \<Rightarrow> bytes \<Rightarrow> bytes \<Rightarrow> bytes) \<Rightarrow> byte \<times> byte \<Rightarrow> nat \<Rightarrow> tls_item list \<Rightarrow> bytes" where
  "wire_of enc v n [] = []"
| "wire_of enc v n (Clear c b # is) = tls_record c v b @ wire_of enc v n is"
| "wire_of enc v n (Sealed f k # is) =
     sealed_header v f k @ enc n (inner_text f k) (sealed_header v f k) @ wire_of enc v (n + 1) is"

fun clear_part :: "tls_item list \<Rightarrow> bytes" where
  "clear_part [] = []"
| "clear_part (Clear c b # is) = (if c = 0x16 then b else []) @ clear_part is"
| "clear_part (Sealed f k # is) = clear_part is"

fun sealed_part :: "tls_item list \<Rightarrow> bytes" where
  "sealed_part [] = []"
| "sealed_part (Clear c b # is) = sealed_part is"
| "sealed_part (Sealed f k # is) = f @ sealed_part is"

fun item_ok :: "tls_item \<Rightarrow> bool" where
  "item_ok (Clear c b) \<longleftrightarrow> c \<noteq> 0x17 \<and> length b < 65536"
| "item_ok (Sealed f k) \<longleftrightarrow> f \<noteq> [] \<and> length f + k + 17 < 65536"

fun is_sealed :: "tls_item \<Rightarrow> bool" where
  "is_sealed (Clear c b) = False" | "is_sealed (Sealed f k) = True"

text \<open>Handshake messages that end in Finished, which is found nowhere else.\<close>

definition ends_in_finished :: "(byte \<times> bytes) list \<Rightarrow> bool" where
  "ends_in_finished ms \<longleftrightarrow> ms \<noteq> [] \<and> fst (last ms) = 0x14 \<and> list_all (\<lambda>(t, b). t \<noteq> 0x14) (butlast ms)
     \<and> list_all (\<lambda>(t, b). length b < 2 ^ 24) ms"

abbreviation hs_bytes :: "(byte \<times> bytes) list \<Rightarrow> bytes list" where
  "hs_bytes ms \<equiv> map (\<lambda>(t, b). hs_message t b) ms"

lemma split_messages_more:
  "split_messages (buf @ x) = (let (ms, l) = split_messages buf; (ms', l') = split_messages (l @ x) in (ms @ ms', l'))"
proof (induction buf rule: split_messages.induct)
  case (1 buf)
  show ?case
  proof (cases "4 \<le> length buf \<and> 4 + nat (from_be (slice 1 4 buf)) \<le> length buf")
    case True
    define L where "L = nat (from_be (slice 1 4 buf))"
    have L: "nat (from_be (slice 1 4 (buf @ x))) = L" using True by (simp add: slice_def L_def)
    have a: "split_messages buf = (let (ms, r) = split_messages (drop (4 + L) buf) in (take (4 + L) buf # ms, r))"
      by (subst split_messages.simps) (use True in \<open>simp add: L_def Let_def\<close>)
    have b: "split_messages (buf @ x) = (let (ms, r) = split_messages (drop (4 + L) buf @ x) in (take (4 + L) buf # ms, r))"
      by (subst split_messages.simps) (use True L in \<open>simp add: L_def Let_def\<close>)
    have "split_messages (drop (4 + L) buf @ x)
        = (let (ms, l) = split_messages (drop (4 + L) buf); (ms', l') = split_messages (l @ x) in (ms @ ms', l'))"
      using 1 [OF _ L_def] True unfolding L_def by simp
    then show ?thesis unfolding a b by (simp split: prod.splits)
  next
    case False
    then have "split_messages buf = ([], buf)" by (subst split_messages.simps) auto
    then show ?thesis by (simp split: prod.splits)
  qed
qed

lemma split_messages_join: "split_messages buf = (ms, l) \<Longrightarrow> concat ms @ l = buf"
proof (induction buf arbitrary: ms l rule: split_messages.induct)
  case (1 buf)
  define L where "L = nat (from_be (slice 1 4 buf))"
  show ?case
  proof (cases "4 \<le> length buf \<and> 4 + L \<le> length buf")
    case True
    then have a: "split_messages buf = (let (ms, r) = split_messages (drop (4 + L) buf) in (take (4 + L) buf # ms, r))"
      by (subst split_messages.simps) (simp add: L_def Let_def)
    obtain ns r where n: "split_messages (drop (4 + L) buf) = (ns, r)" by fastforce
    from 1(1) [OF _ L_def _ n] True have "concat ns @ r = drop (4 + L) buf" by simp
    then show ?thesis using 1(2) a n by auto
  next
    case False
    then have "split_messages buf = ([], buf)" by (subst split_messages.simps) (auto simp: L_def)
    then show ?thesis using 1(2) by simp
  qed
qed

text \<open>A part of such messages that ends at the end of a Finished is all of them.\<close>

lemma finished_only_at_end:
  assumes "p @ x = concat (hs_bytes ms)" "ends_in_finished ms" "split_messages p = (done, [])" "done \<noteq> []" "last done ! 0 = 0x14"
  shows "x = []"
proof -
  have all: "split_messages (p @ x) = (hs_bytes ms, [])"
    using assms(2) unfolding assms(1) by (intro split_messages_concat) (simp add: ends_in_finished_def)
  obtain ms' l' where x: "split_messages x = (ms', l')" by fastforce
  have e: "done @ ms' = hs_bytes ms" and l: "l' = []"
    using all split_messages_more [of p x] unfolding assms(3) by (simp_all add: x)
  have "ms' = []"
  proof (rule ccontr)
    assume n: "ms' \<noteq> []"
    then have "last done \<in> set (butlast (hs_bytes ms))" using assms(4) by (simp add: e [symmetric] butlast_append)
    moreover have "\<forall>m\<in>set (butlast (hs_bytes ms)). m ! 0 \<noteq> 0x14"
      using assms(2) by (auto simp: ends_in_finished_def map_butlast [symmetric] list_all_iff hs_message_def)
    ultimately show False using assms(5) by simp
  qed
  with split_messages_join [OF x] l show ?thesis by simp
qed

lemma finished_at_end:
  assumes "ends_in_finished ms"
  shows "split_messages (concat (hs_bytes ms)) = (hs_bytes ms, [])" "hs_bytes ms \<noteq> []" "last (hs_bytes ms) ! 0 = 0x14"
proof -
  show "split_messages (concat (hs_bytes ms)) = (hs_bytes ms, [])"
    using assms by (intro split_messages_concat) (simp add: ends_in_finished_def)
qed (use assms in \<open>auto simp: ends_in_finished_def last_map hs_message_def split: prod.splits\<close>)

lemma rstrip_inner [simp]: "rstrip_zeros (inner_text f k) = f @ [0x16]"
proof -
  have "dropWhile (\<lambda>x. x = 0) (replicate k 0 @ 0x16 # rev f) = 0x16 # rev f" by (induction k) simp_all
  then show ?thesis by (simp add: rstrip_zeros_def inner_text_def zeros_def)
qed

lemma flight_loop_record:
  assumes "length b < 65536"
  shows "flight_loop dec (tls_record c v b @ s) n plain enc =
    (if c = 0x16 then flight_loop dec s n (plain @ b) enc
     else if c = 0x17 then
       py_bind (dec n b (take 5 (tls_record c v b))) (\<lambda>pt.
         if rstrip_zeros pt = [] then Inl (IndexError ''index out of range'')
         else if last (rstrip_zeros pt) \<noteq> 0x16 then Inl (ValueError ''expected a handshake record'')
         else (let enc' = enc @ butlast (rstrip_zeros pt); (fin, left) = split_messages enc' in
               if fin \<noteq> [] \<and> last fin ! 0 = 0x14 \<and> left = [] then Inr (plain, enc')
               else flight_loop dec s (n + 1) plain enc'))
     else flight_loop dec s n plain enc)"
proof -
  have h: "take 5 (tls_record c v b @ s) = take 5 (tls_record c v b)" by (simp add: len_simps)
  have n: "nat (from_be (slice 3 5 (take 5 (tls_record c v b)))) = length b"
    using assms by (simp add: tls_record_def slice_def len_simps from_be_be_bytes)
  have g: "5 \<le> length (tls_record c v b @ s)" by (simp add: len_simps)
  show ?thesis
    by (subst flight_loop.simps, unfold Let_def, unfold h n record_fields [OF assms] if_P [OF g]) (rule refl)
qed

lemma flight_loop_clear:
  "length b < 65536 \<Longrightarrow> c \<noteq> 0x17 \<Longrightarrow>
   flight_loop dec (tls_record c v b @ s) n plain enc = flight_loop dec s n (plain @ (if c = 0x16 then b else [])) enc"
  by (simp add: flight_loop_record)

lemma flight_loop_sealed:
  assumes "length f + k + 17 < 65536" "f \<noteq> []"
    and "\<And>n p h. dec n (enc n p h) h = Inr p" "\<And>n p h. length (enc n p h) = length p + 16"
  shows "flight_loop dec (sealed_header v f k @ enc n (inner_text f k) (sealed_header v f k) @ s) n plain e =
    (let (fin, left) = split_messages (e @ f) in
     if fin \<noteq> [] \<and> last fin ! 0 = 0x14 \<and> left = [] then Inr (plain, e @ f) else flight_loop dec s (n + 1) plain (e @ f))"
proof -
  let ?h = "sealed_header v f k"
  define c where "c = enc n (inner_text f k) ?h"
  have l: "length c = length f + k + 17" by (simp add: c_def assms(4) inner_text_def len_simps)
  have d: "dec n c ?h = Inr (inner_text f k)" by (simp add: c_def assms(3))
  have r: "?h @ c @ s = tls_record 0x17 v c @ s" by (simp add: tls_record_def sealed_header_def l)
  have h: "take 5 (tls_record 0x17 v c) = ?h" by (simp add: tls_record_def sealed_header_def l len_simps)
  show ?thesis unfolding c_def [symmetric] r
    using assms(1) by (simp add: flight_loop_record l h d Let_def)
qed

lemma sealed_part_in: "Sealed f k \<in> set is \<Longrightarrow> sealed_part is = [] \<Longrightarrow> f = []"
  by (induction "is" rule: sealed_part.induct) auto

lemma flight_loop_wire:
  assumes dec: "\<And>n p h. dec n (enc n p h) h = Inr p" "\<And>n p h. length (enc n p h) = length p + 16"
    and fin: "ends_in_finished ms"
  shows "list_all item_ok is \<Longrightarrow> is \<noteq> [] \<Longrightarrow> is_sealed (last is) \<Longrightarrow> e @ sealed_part is = concat (hs_bytes ms) \<Longrightarrow>
    flight_loop dec (wire_of enc v n is @ rest) n plain e = Inr (plain @ clear_part is, concat (hs_bytes ms))"
proof (induction "is" arbitrary: n plain e)
  case (Cons i "is")
  show ?case
  proof (cases i)
    case (Clear c b)
    with Cons.prems have "is \<noteq> []" by auto
    with Clear Cons show ?thesis by (simp add: flight_loop_clear)
  next
    case (Sealed f k)
    obtain fin left where s: "split_messages (e @ f) = (fin, left)" by fastforce
    have step: "flight_loop dec (wire_of enc v n (i # is) @ rest) n plain e =
        (if fin \<noteq> [] \<and> last fin ! 0 = 0x14 \<and> left = [] then Inr (plain, e @ f)
         else flight_loop dec (wire_of enc v (n + 1) is @ rest) (n + 1) plain (e @ f))"
      using Sealed Cons.prems(1) flight_loop_sealed [of f k dec enc v n _ plain e, OF _ _ dec] by (simp add: s)
    show ?thesis
    proof (cases "fin \<noteq> [] \<and> last fin ! 0 = 0x14 \<and> left = []")
      case True
      have "sealed_part is = []"
        using finished_only_at_end [OF _ assms(3), of "e @ f"] Cons.prems(4) Sealed s True by simp
      moreover have "is = []"
      proof (rule ccontr)
        assume n: "is \<noteq> []"
        then have "is_sealed (last is)" "item_ok (last is)" "last is \<in> set is" using Cons.prems by (auto simp: list_all_iff)
        then show False using calculation sealed_part_in by (cases "last is") auto
      qed
      ultimately show ?thesis using step True Cons.prems(4) Sealed by simp
    next
      case False
      have "is \<noteq> []"
      proof
        assume "is = []"
        with Cons.prems(4) Sealed s finished_at_end [OF fin] False show False by simp
      qed
      with Cons Sealed show ?thesis unfolding step if_not_P [OF False] by simp
    qed
  qed
qed simp

text \<open>The law of the AEAD ciphers: opening returns what was sealed, and a tag is 16 bytes (RFC 8446, 5.2; RFC 5116).\<close>

definition aead_law :: "aead \<Rightarrow> (string \<Rightarrow> bytes \<Rightarrow> bytes \<Rightarrow> bytes \<Rightarrow> bytes \<Rightarrow> bytes) \<Rightarrow> bool" where
  "aead_law A S \<longleftrightarrow> (\<forall>c k n p h. A c k n (S c k n p h) h = Inr p \<and> length (S c k n p h) = length p + 16)"

text \<open>The bytes one direction puts on the wire: the records of the handshake, then whatever follows.\<close>

definition sealed_stream ::
  "(string \<Rightarrow> bytes \<Rightarrow> bytes \<Rightarrow> bytes \<Rightarrow> bytes \<Rightarrow> bytes) \<Rightarrow> string \<Rightarrow> hash_alg \<Rightarrow> nat \<Rightarrow> bytes \<Rightarrow> byte \<times> byte \<Rightarrow> tls_item list \<Rightarrow> bytes \<Rightarrow> bytes py" where
  "sealed_stream S suite H klen secret v is rest =
     py_bind (tls13_hkdf_expand_label secret (lit ''key'') [] klen H) (\<lambda>key.
     py_bind (tls13_hkdf_expand_label secret (lit ''iv'') [] 12 H) (\<lambda>iv.
       Inr (wire_of (\<lambda>n p h. S suite key (be_bytes 12 (from_be iv XOR int n)) p h) v 0 is @ rest)))"

definition flight_items_ok :: "tls_item list \<Rightarrow> (byte \<times> bytes) list \<Rightarrow> (byte \<times> bytes) list \<Rightarrow> bool" where
  "flight_items_ok is cs ms \<longleftrightarrow> list_all item_ok is \<and> is \<noteq> [] \<and> is_sealed (last is) \<and> clear_part is = concat (hs_bytes cs)
     \<and> sealed_part is = concat (hs_bytes ms) \<and> list_all (\<lambda>(t, b). length b < 2 ^ 24) cs \<and> ends_in_finished ms"

lemma flight_recovers:
  assumes "aead_law A S" "aead_key_length suite = Some klen" "flight_items_ok is cs ms"
    and "sealed_stream S suite H klen secret v is rest = Inr stream"
  shows "flight A stream secret suite H = Inr (hs_bytes cs, hs_bytes ms)"
proof -
  obtain key iv where k: "tls13_hkdf_expand_label secret (lit ''key'') [] klen H = Inr key"
      "tls13_hkdf_expand_label secret (lit ''iv'') [] 12 H = Inr iv"
    and s: "stream = wire_of (\<lambda>n p h. S suite key (be_bytes 12 (from_be iv XOR int n)) p h) v 0 is @ rest"
    using assms(4) by (auto simp: sealed_stream_def py_bind_Inr_iff)
  have "flight_loop (\<lambda>seq body header. A suite key (be_bytes 12 (from_be iv XOR int seq)) body header) stream 0 [] []
      = Inr ([] @ clear_part is, concat (hs_bytes ms))"
    unfolding s
    by (rule flight_loop_wire) (use assms(1,3) in \<open>simp_all add: aead_law_def flight_items_ok_def\<close>)
  then show ?thesis
    using assms(2,3) by (simp add: flight_def k flight_items_ok_def split_messages_concat finished_at_end)
qed

section \<open>The Finished messages\<close>

definition finished_key :: "hash_alg \<Rightarrow> bytes \<Rightarrow> bytes" where
  "finished_key H secret = hmac H secret (expand_message (lit ''finished'') [] (digest_size H))"

definition finished_collision :: "hash_alg \<Rightarrow> bytes \<Rightarrow> bytes \<Rightarrow> bytes \<Rightarrow> bool" where
  "finished_collision H secret m m' \<longleftrightarrow> collision (digest H) m m' \<or>
     hmac_collision H (finished_key H secret, digest H m) (finished_key H secret, digest H m')"

context hash_function
begin

lemma finished_value_Inr:
  "digest_size H < 256 \<Longrightarrow> finished_value secret t H = Inr (hmac H (finished_key H secret) (digest H t))"
  by (simp add: finished_value_def tls13_one finished_key_def len_simps)

lemma finished_value_eqD:
  assumes "finished_value secret m H = finished_value secret m' H" "digest_size H < 256"
  shows "m = m' \<or> finished_collision H secret m m'"
  using hmac_eqD [of "finished_key H secret" "digest H m" "finished_key H secret" "digest H m'"] assms digest_size_le
  by (auto simp: finished_value_Inr finished_collision_def collision_def finished_key_def hmac_len)

end

lemma suite_hash_function: "suite_hash suite = Inr H \<Longrightarrow> hash_function H \<and> digest_size H < 256"
  using h256.hash_function_axioms h384.hash_function_axioms by (auto simp: suite_hash_def split: if_splits)

text \<open>The readings of a captured handshake are four, and different.\<close>

lemma hello_messages_hs: "m \<in> set (hello_messages t (hs_bytes ms)) \<Longrightarrow> \<exists>r. m = t # r"
  by (auto simp: hello_messages_def hs_message_def)

lemma captured_transcripts_distinct:
  assumes "hello_messages 0x01 (hs_bytes ccs) = [ch1, ch2]" "retry_requests (hs_bytes scs) = [hrr]" "ch1 \<noteq> ch2"
  shows "distinct (retry_transcripts H ch1 hrr ch2 sh)"
proof (rule retry_transcripts_distinct)
  show "\<exists>r. ch1 = 0x01 # r" "\<exists>r. ch2 = 0x01 # r" using assms(1) hello_messages_hs [where t = "0x01" and ms = ccs] by auto
  have "hrr \<in> set (hello_messages 0x02 (hs_bytes scs))"
    using assms(2) by (auto simp: retry_requests_def filter_eq_Cons_iff)
  then show "hrr \<noteq> []" by (auto dest: hello_messages_hs)
qed (rule assms)

text \<open>What the two comparisons say of a transcript \<open>t\<close>, when the Finished messages were made over \<open>u\<close>.\<close>

definition finished_confused :: "hash_alg \<Rightarrow> bytes \<Rightarrow> bytes \<Rightarrow> bytes list \<Rightarrow> bytes list \<Rightarrow> bytes \<Rightarrow> bytes \<Rightarrow> bool" where
  "finished_confused H sk ck senc cenc t u \<longleftrightarrow>
     finished_collision H sk (t @ concat (butlast senc)) (u @ concat (butlast senc)) \<or>
     finished_collision H ck (t @ concat senc @ concat (butlast cenc)) (u @ concat senc @ concat (butlast cenc))"

definition reading_verdict :: "hash_alg \<Rightarrow> bytes \<Rightarrow> bytes \<Rightarrow> bytes list \<Rightarrow> bytes list \<Rightarrow> bytes \<Rightarrow> bool \<times> bool" where
  "reading_verdict H sk ck senc cenc t =
     (hmac H (finished_key H sk) (digest H (t @ concat (butlast senc))) = drop 4 (last senc),
      hmac H (finished_key H ck) (digest H (t @ concat senc @ concat (butlast cenc))) = drop 4 (last cenc))"

lemma check_reading_Inr:
  "hash_function H \<Longrightarrow> digest_size H < 256 \<Longrightarrow> check_reading sk ck senc cenc H t = Inr (reading_verdict H sk ck senc cenc t)"
  by (simp add: check_reading_def hash_function.finished_value_Inr reading_verdict_def)

lemma reading_verdict_of:
  assumes "hash_function H" "digest_size H < 256"
    and "finished_value sk (u @ concat (butlast senc)) H = Inr (drop 4 (last senc))"
    and "finished_value ck (u @ concat senc @ concat (butlast cenc)) H = Inr (drop 4 (last cenc))"
    and "\<not> (t \<noteq> u \<and> finished_confused H sk ck senc cenc t u)"
  shows "reading_verdict H sk ck senc cenc t = (t = u, t = u)"
proof -
  note h = hash_function.finished_value_Inr [OF assms(1,2)] and d = hash_function.finished_value_eqD [OF assms(1) _ assms(2)]
  show ?thesis
    using assms(3-5) d [of sk "t @ concat (butlast senc)" "u @ concat (butlast senc)"]
      d [of ck "t @ concat senc @ concat (butlast cenc)" "u @ concat senc @ concat (butlast cenc)"]
    by (auto simp: h finished_confused_def reading_verdict_def)
qed

lemma finished_check_named:
  assumes "aead_law A S" "aead_key_length suite = Some klen" "suite_hash suite = Inr H"
    and "secrets ''SERVER_HANDSHAKE_TRAFFIC_SECRET'' = Some sk" "secrets ''CLIENT_HANDSHAKE_TRAFFIC_SECRET'' = Some ck"
    and "flight_items_ok sitems scs sms" "sealed_stream S suite H klen sk v sitems srest = Inr s2c"
    and "flight_items_ok citems ccs cms" "sealed_stream S suite H klen ck v' citems crest = Inr c2s"
    and "named_readings H (hello_messages 0x01 (hs_bytes ccs)) (retry_requests (hs_bytes scs)) (server_hellos (hs_bytes scs)) = Inr ps"
  shows "finished_check A c2s s2c suite secrets =
    Inr (map (\<lambda>(n, t). (n, reading_verdict H sk ck (hs_bytes sms) (hs_bytes cms) t)) ps)"
proof -
  note fs = flight_recovers [OF assms(1,2,6,7)] and fc = flight_recovers [OF assms(1,2,8,9)]
  have e: "sms \<noteq> []" "last (hs_bytes sms) ! 0 = 0x14" "cms \<noteq> []" "last (hs_bytes cms) ! 0 = 0x14"
    using assms(6,8) finished_at_end by (simp_all add: flight_items_ok_def ends_in_finished_def)
  have m: "py_map (\<lambda>(name, p). py_bind (check_reading sk ck (hs_bytes sms) (hs_bytes cms) H p) (\<lambda>v. Inr (name, v))) ps
      = Inr (map (\<lambda>(n, t). (n, reading_verdict H sk ck (hs_bytes sms) (hs_bytes cms) t)) ps)" for ps :: "(string \<times> bytes) list"
    using suite_hash_function [OF assms(3)] by (induction ps) (auto simp: check_reading_Inr)
  show ?thesis
    by (simp add: finished_check_def assms(3-5) fs fc e assms(10) m)
qed

lemma finished_check_value:
  assumes "aead_law A S" "aead_key_length suite = Some klen" "suite_hash suite = Inr H"
    and "secrets ''SERVER_HANDSHAKE_TRAFFIC_SECRET'' = Some sk" "secrets ''CLIENT_HANDSHAKE_TRAFFIC_SECRET'' = Some ck"
    and "flight_items_ok sitems scs sms" "sealed_stream S suite H klen sk v sitems srest = Inr s2c"
    and "flight_items_ok citems ccs cms" "sealed_stream S suite H klen ck v' citems crest = Inr c2s"
    and "hello_messages 0x01 (hs_bytes ccs) = [ch1, ch2]" "retry_requests (hs_bytes scs) = [hrr]" "server_hellos (hs_bytes scs) = [sh]"
  shows "finished_check A c2s s2c suite secrets =
    Inr (map (\<lambda>(n, t). (n, reading_verdict H sk ck (hs_bytes sms) (hs_bytes cms) t)) (zip check_names (retry_transcripts H ch1 hrr ch2 sh)))"
  by (rule finished_check_named [OF assms(1-9)]) (simp add: named_readings_def assms(10-12))

lemma only_c_iff:
  assumes "map fst r = check_names" "map snd r = map (\<lambda>j. (j = i, j = i)) [0..<4]"
  shows "only_c r \<longleftrightarrow> i = 2"
proof -
  have "r = zip check_names (map (\<lambda>j. (j = i, j = i)) [0..<4])"
    using zip_map_fst_snd [of r] assms by simp
  then show ?thesis
    by (simp add: only_c_def check_names_def READING_C_def upt_rec) auto
qed

section \<open>Sample handshakes\<close>

definition ch_one :: bytes where "ch_one = hs_message 0x01 [1]"
definition ch_two :: bytes where "ch_two = hs_message 0x01 [2]"
definition hello_retry :: bytes where "hello_retry = hs_message 0x02 ([3, 3] @ HRR_RANDOM)"
definition hello_server :: bytes where "hello_server = hs_message 0x02 ([3, 3] @ zeros 32)"

lemma sample_hellos:
  "hello_messages 0x01 [ch_one, ch_two] = [ch_one, ch_two]" "retry_requests [hello_retry, hello_server] = [hello_retry]"
  "server_hellos [hello_retry, hello_server] = [hello_server]" "ch_one \<noteq> ch_two" "length hello_retry = 38" "length hello_server = 38"
  "length ch_one = 5" "length ch_two = 5"
  by (simp_all add: hello_messages_def retry_requests_def server_hellos_def ch_one_def ch_two_def hello_retry_def
      hello_server_def hs_message_def slice_def HRR_RANDOM_def len_simps be_bytes_def zeros_def numeral_eq_Suc)

text \<open>A capture: ClientHello1 in two records, ChangeCipherSpec, ClientHello2, an encrypted record.\<close>

definition capture_c2s :: bytes where
  "capture_c2s = tls_record 0x16 (3, 1) (take 3 ch_one) @ tls_record 0x16 (3, 3) (drop 3 ch_one) @ tls_record 0x14 (3, 3) [1]
     @ tls_record 0x16 (3, 3) ch_two @ tls_record 0x17 (3, 3) [0xff]"

definition capture_s2c :: bytes where
  "capture_s2c = tls_record 0x16 (3, 3) hello_retry @ tls_record 0x14 (3, 3) [1] @ tls_record 0x16 (3, 3) hello_server
     @ tls_record 0x17 (3, 3) [0xff]"

lemma split_two:
  "length a < 2 ^ 24 \<Longrightarrow> length b < 2 ^ 24 \<Longrightarrow> split_messages (hs_message s a @ hs_message t b) = ([hs_message s a, hs_message t b], [])"
  using split_messages_concat [of "[(s, a), (t, b)]"] by simp

lemma capture_messages:
  "plaintext_handshake_messages capture_c2s = [ch_one, ch_two]" "plaintext_handshake_messages capture_s2c = [hello_retry, hello_server]"
proof -
  have "ptm_records capture_c2s [] = ch_one @ ch_two"
    unfolding capture_c2s_def
    by (simp add: ptm_records_record sample_hellos ptm_records_record [where s = "[]", simplified])
  then show "plaintext_handshake_messages capture_c2s = [ch_one, ch_two]"
    by (simp add: plaintext_handshake_messages_def ch_one_def ch_two_def split_two)
  have "ptm_records capture_s2c [] = hello_retry @ hello_server"
    unfolding capture_s2c_def
    by (simp add: ptm_records_record sample_hellos ptm_records_record [where s = "[]", simplified])
  then show "plaintext_handshake_messages capture_s2c = [hello_retry, hello_server]"
    by (simp add: plaintext_handshake_messages_def hello_retry_def hello_server_def split_two HRR_RANDOM_def len_simps)
qed

text \<open>A cipher that meets the law, to show that it can be met: no secrecy is needed for what the check decides.\<close>

definition plain_seal :: "string \<Rightarrow> bytes \<Rightarrow> bytes \<Rightarrow> bytes \<Rightarrow> bytes \<Rightarrow> bytes" where
  "plain_seal c k n p h = p @ zeros 16"

definition plain_open :: aead where
  "plain_open c k n ct h = Inr (take (length ct - 16) ct)"

definition sample_reading :: bytes where
  "sample_reading = retry_transcripts SHA256 ch_one hello_retry ch_two hello_server ! 2"

definition server_fin :: bytes where
  "server_fin = hmac SHA256 (finished_key SHA256 (zeros 32)) (sha256 (sample_reading @ hs_message 0x08 []))"

definition server_ms :: "(byte \<times> bytes) list" where "server_ms = [(0x08, []), (0x14, server_fin)]"

definition client_fin :: bytes where
  "client_fin = hmac SHA256 (finished_key SHA256 (zeros 31)) (sha256 (sample_reading @ concat (hs_bytes server_ms)))"

definition client_ms :: "(byte \<times> bytes) list" where "client_ms = [(0x14, client_fin)]"

definition server_items :: "tls_item list" where
  "server_items = [Clear 0x16 hello_retry, Clear 0x14 [1], Clear 0x16 hello_server, Sealed (hs_message 0x08 []) 3,
     Sealed (take 7 (hs_message 0x14 server_fin)) 0, Sealed (drop 7 (hs_message 0x14 server_fin)) 1]"

definition client_items :: "tls_item list" where
  "client_items = [Clear 0x16 ch_one, Clear 0x14 [1], Clear 0x16 ch_two, Sealed (hs_message 0x14 client_fin) 0]"

lemma sample_streams:
  "\<exists>s. sealed_stream S suite SHA256 16 secret v is rest = Inr s"
  by (simp add: sealed_stream_def tls13_hkdf_expand_label_def hkdf_info_ok h256.hkdf_expand_one len_simps)

lemma hs_message_not_empty: "hs_message t b \<noteq> []"
  by (simp add: hs_message_def)

lemma sample_flights:
  "flight_items_ok server_items [(0x02, [3, 3] @ HRR_RANDOM), (0x02, [3, 3] @ zeros 32)] server_ms"
  "flight_items_ok client_items [(0x01, [1]), (0x01, [2])] client_ms"
  by (simp_all add: flight_items_ok_def server_items_def client_items_def server_ms_def client_ms_def ends_in_finished_def
      hello_retry_def hello_server_def ch_one_def ch_two_def server_fin_def client_fin_def h256.hmac_len len_simps HRR_RANDOM_def hs_message_not_empty)

lemma sample_finished:
  "finished_value (zeros 32) (sample_reading @ concat (butlast (hs_bytes server_ms))) SHA256 = Inr (drop 4 (last (hs_bytes server_ms)))"
  "finished_value (zeros 31) (sample_reading @ concat (hs_bytes server_ms) @ concat (butlast (hs_bytes client_ms))) SHA256
    = Inr (drop 4 (last (hs_bytes client_ms)))"
  by (simp_all add: h256.finished_value_Inr server_ms_def client_ms_def hs_message_def server_fin_def client_fin_def len_simps)

lemma plain_law: "aead_law plain_open plain_seal"
  by (simp add: aead_law_def plain_open_def plain_seal_def len_simps)

definition sample_secrets :: "string \<Rightarrow> bytes option" where
  "sample_secrets = map_of [(''SERVER_HANDSHAKE_TRAFFIC_SECRET'', zeros 32), (''CLIENT_HANDSHAKE_TRAFFIC_SECRET'', zeros 31)]"

end
