(* ===== verification/Malleability.thy ===== *)
theory Malleability
  imports Mandate
begin

text \<open>
  \<open>examples/malleability.py\<close>: a SEV-SNP report whose signature is \<open>(r, n - s)\<close> in place of \<open>(r, s)\<close>. The
  files under \<open>evidence/\<close> (parsed), the certificate library and ECDSA over P-256 are parameters; printing is left out.
\<close>

section \<open>Reading and replacing the signature\<close>

definition N384 :: int where
  "N384 = 0xffffffffffffffffffffffffffffffffffffffffffffffffc7634d81f4372ddf581a0db248b0a77aecec196accc52973"

definition SIG :: nat where "SIG = 0x2A0"

definition rep_rs :: "bytes \<Rightarrow> int \<times> int" where
  "rep_rs rep = (from_le (slice SIG (SIG + 48) rep), from_le (slice (SIG + 72) (SIG + 120) rep))"

definition with_s :: "bytes \<Rightarrow> int \<Rightarrow> bytes py" where
  "with_s rep s_new = py_bind (to_bytes 72 s_new) (\<lambda>be. Inr (take (SIG + 72) rep @ rev be @ drop (SIG + 144) rep))"

section \<open>The reports shipped\<close>

fun b64_reports :: "json \<Rightarrow> bytes list" where
  "b64_reports (JStr s) =
     (if 1500 \<le> length s \<and> length s \<le> 1700
      then (case b64decode s of Inl _ \<Rightarrow> [] | Inr b \<Rightarrow> if length b = 1184 then [b] else [])
      else [])"
| "b64_reports (JObj kvs) = concat (map (\<lambda>(k, v). b64_reports v) kvs)"
| "b64_reports (JList xs) = concat (map b64_reports xs)"
| "b64_reports _ = []"

text \<open>Each report with the file it was found in and the leaf certificate shipped with it.\<close>

type_synonym reports = "(bytes \<times> string \<times> json) list"

definition setdefault :: "reports \<Rightarrow> bytes \<Rightarrow> string \<times> json \<Rightarrow> reports" where
  "setdefault out b v = (if b \<in> fst ` set out then out else out @ [(b, v)])"

fun is_dict :: "json \<Rightarrow> bool" where
  "is_dict (JObj _) = True" | "is_dict _ = False"

fun has_leaf :: "json \<Rightarrow> bool" where
  "has_leaf (JObj d) \<longleftrightarrow> ''leaf'' \<in> fst ` set d" | "has_leaf _ = False"

fun leaf_of :: "json \<Rightarrow> json" where
  "leaf_of (JObj d) = dget d ''leaf''" | "leaf_of _ = JNull"

fun reports_of_file :: "string \<times> json \<Rightarrow> reports \<Rightarrow> reports" where
  "reports_of_file (rel, d) out = (case d of
     JObj kvs \<Rightarrow>
       if list_all (\<lambda>(k, v). is_dict v) kvs \<and> list_ex (\<lambda>(k, v). has_leaf v) kvs
       then fold (\<lambda>(k, e) o'. fold (\<lambda>b o''. setdefault o'' b (rel, leaf_of e)) (b64_reports e) o') kvs out
       else fold (\<lambda>b o'. setdefault o' b (rel, JNull)) (b64_reports d) out
   | _ \<Rightarrow> fold (\<lambda>b o'. setdefault o' b (rel, JNull)) (b64_reports d) out)"

text \<open>The JSON files that parse, in the order \<open>glob\<close> lists them, then the binary files.\<close>

definition shipped_reports :: "(string \<times> json py) list \<Rightarrow> (string \<times> bytes) list \<Rightarrow> reports" where
  "shipped_reports jsons bins =
     fold (\<lambda>(rel, b) out. if length b = 1184 then setdefault out b (rel, JNull) else out) bins
      (fold (\<lambda>(rel, d) out. case d of Inl _ \<Rightarrow> out | Inr j \<Rightarrow> reports_of_file (rel, j) out) jsons [])"

section \<open>1. and 2.: the signer\<close>

record signer_stats =
  hi_s :: nat
  lo_s :: nat
  bad_rs :: nat
  distinct_r :: nat
  repeated_r :: nat
  hi_r :: nat

definition rs_in_range :: "bytes \<Rightarrow> bool" where
  "rs_in_range b = (case rep_rs b of (r, s) \<Rightarrow> 0 < r \<and> r < N384 \<and> 0 < s \<and> s < N384)"

definition high_s :: "bytes \<Rightarrow> bool" where
  "high_s b \<longleftrightarrow> N384 div 2 \<le> snd (rep_rs b)"

definition the_signer :: "bytes list \<Rightarrow> signer_stats" where
  "the_signer reps =
     (let rs = map (fst \<circ> rep_rs) reps; rvals = remdups rs in
      \<lparr>hi_s = length (filter (\<lambda>b. rs_in_range b \<and> high_s b) reps),
       lo_s = length (filter (\<lambda>b. rs_in_range b \<and> \<not> high_s b) reps),
       bad_rs = length (filter (\<lambda>b. \<not> rs_in_range b) reps),
       distinct_r = length rvals,
       repeated_r = length (filter (\<lambda>r. 1 < count_list rs r) rvals),
       hi_r = length (filter (\<lambda>r. N384 div 2 \<le> r) rvals)\<rparr>)"

text \<open>Bodies signed more than once: how many have more than one signature.\<close>

definition signatures_of :: "bytes list \<Rightarrow> bytes \<Rightarrow> bytes list" where
  "signatures_of reps body = remdups (map (drop SIG) (filter (\<lambda>b. take SIG b = body) reps))"

definition resigned_bodies :: "bytes list \<Rightarrow> nat" where
  "resigned_bodies reps = length (filter (\<lambda>body. 1 < length (signatures_of reps body)) (remdups (map (take SIG) reps)))"

section \<open>3. The flip\<close>

text \<open>\<open>vlek_pem\<close>: \<open>P\<close> loads a DER certificate and writes it as PEM.\<close>

definition vlek_pem :: "(bytes \<Rightarrow> string py) \<Rightarrow> json \<Rightarrow> string py" where
  "vlek_pem P leaf_hex = py_bind (fromhex_json leaf_hex) P"

definition report_evidence :: "bytes \<Rightarrow> dict \<Rightarrow> json" where
  "report_evidence b extra = JObj ([(''kind'', JStr ''sev-snp''), (''report'', JStr (b64encode b))] @ extra)"

record flip_stats =
  orig_ok :: nat
  flip_ok :: nat
  tried :: nat
  skipped :: nat
  example :: "(string \<times> bytes \<times> bytes \<times> anchor option) option"

type_synonym verifier = "cache \<Rightarrow> json \<Rightarrow> bytes \<Rightarrow> (bool \<times> anchor option) py \<times> cache"

definition flip_one ::
  "verifier \<Rightarrow> (bytes \<Rightarrow> string py) \<Rightarrow> bytes \<times> string \<times> json \<Rightarrow> flip_stats \<Rightarrow> cache \<Rightarrow> flip_stats py \<times> cache" where
  "flip_one verify P kv st cache = (case kv of (b, src, leaf) \<Rightarrow>
     (case parse_snp b of Inl e \<Rightarrow> (Inl e, cache) | Inr f \<Rightarrow>
       let vlek = (snp_signing_key f = SkName ''VLEK'') in
       if vlek \<and> \<not> truthy leaf then (Inr (st\<lparr>skipped := skipped st + 1\<rparr>), cache)
       else (case (if vlek then py_bind (vlek_pem P leaf) (\<lambda>p. Inr [(''leaf_pem'', JStr p)]) else Inr []) of
           Inl e \<Rightarrow> (Inl e, cache)
         | Inr extra \<Rightarrow> (case verify cache (report_evidence b extra) (snp_report_data f) of
             (Inl e, c1) \<Rightarrow> (Inl e, c1)
           | (Inr (ok, _), c1) \<Rightarrow> (case with_s b (N384 - snd (rep_rs b)) of
               Inl e \<Rightarrow> (Inl e, c1)
             | Inr flipped \<Rightarrow> (case verify c1 (report_evidence flipped extra) (snp_report_data f) of
                 (Inl e, c2) \<Rightarrow> (Inl e, c2)
               | (Inr (ok2, anchor2), c2) \<Rightarrow>
                   (Inr (st\<lparr>orig_ok := orig_ok st + (if ok then 1 else 0), flip_ok := flip_ok st + (if ok2 then 1 else 0),
                      tried := tried st + 1,
                      example := (if ok \<and> ok2 \<and> example st = None then Some (src, b, flipped, anchor2) else example st)\<rparr>), c2)))))))"

fun flip_all ::
  "verifier \<Rightarrow> (bytes \<Rightarrow> string py) \<Rightarrow> reports \<Rightarrow> flip_stats \<Rightarrow> cache \<Rightarrow> flip_stats py \<times> cache" where
  "flip_all verify P [] st cache = (Inr st, cache)"
| "flip_all verify P (kv # kvs) st cache = (case flip_one verify P kv st cache of
     (Inl e, c) \<Rightarrow> (Inl e, c) | (Inr st', c) \<Rightarrow> flip_all verify P kvs st' c)"

section \<open>4. The controls\<close>

definition wrong_s :: "bytes \<Rightarrow> bytes py" where
  "wrong_s b = with_s b ((N384 - snd (rep_rs b) + 1) mod N384)"

definition wrong_body :: "bytes \<Rightarrow> bytes" where
  "wrong_body b = take 0x50 b @ [(b ! 0x50) XOR 1] @ drop 0x51 b"

definition controls :: "verifier \<Rightarrow> bytes \<Rightarrow> cache \<Rightarrow> (bool \<times> bool) py \<times> cache" where
  "controls verify b cache = (case parse_snp b of Inl e \<Rightarrow> (Inl e, cache) | Inr f \<Rightarrow>
     (case wrong_s b of Inl e \<Rightarrow> (Inl e, cache) | Inr bs \<Rightarrow>
     (case verify cache (report_evidence bs []) (snp_report_data f) of (Inl e, c1) \<Rightarrow> (Inl e, c1) | (Inr (ok1, _), c1) \<Rightarrow>
     (case parse_snp (wrong_body b) of Inl e \<Rightarrow> (Inl e, c1) | Inr f' \<Rightarrow>
     (case verify c1 (report_evidence (wrong_body b) []) (snp_report_data f') of (Inl e, c2) \<Rightarrow> (Inl e, c2) | (Inr (ok2, _), c2) \<Rightarrow>
        (Inr (ok1, ok2), c2))))))"

section \<open>5. Quotes of Intel TDX\<close>

definition N256 :: int where
  "N256 = 0xFFFFFFFF00000000FFFFFFFFFFFFFFFFBCE6FAADA7179E84F3B9CAC2FC632551"

text \<open>ECDSA over P-256: the key from its coordinates, and the verification of \<open>(r, s)\<close> over a message.\<close>

record p256_lib =
  p_key :: "int \<Rightarrow> int \<Rightarrow> bytes py"
  p_verify :: "bytes \<Rightarrow> int \<Rightarrow> int \<Rightarrow> bytes \<Rightarrow> unit py"

definition quote_signed :: "bytes \<Rightarrow> bytes" where
  "quote_signed q = take (48 + 584) q"

definition quote_rs :: "bytes \<Rightarrow> int \<times> int" where
  "quote_rs q = (let sig = take 64 (drop (48 + 584 + 4) q) in (from_be (take 32 sig), from_be (drop 32 sig)))"

text \<open>High \<open>s\<close>, the original verifies, the flipped one verifies.\<close>

definition tdx_one :: "p256_lib \<Rightarrow> bytes \<Rightarrow> (bool \<times> bool \<times> bool) py" where
  "tdx_one E q =
     (let xy = slice 64 128 (drop (48 + 584 + 4) q); (r, s) = quote_rs q in
      py_bind (p_key E (from_be (take 32 xy)) (from_be (drop 32 xy))) (\<lambda>pub.
        let ok = (\<lambda>s. case p_verify E pub r s (quote_signed q) of Inl _ \<Rightarrow> False | Inr _ \<Rightarrow> True) in
        Inr (N256 div 2 \<le> s, ok s, ok (N256 - s))))"

section \<open>\<open>main\<close>\<close>

record malleability_result =
  mr_signer :: signer_stats
  mr_resigned :: nat
  mr_flips :: flip_stats
  mr_controls :: "(bool \<times> bool) option"
  mr_quotes :: "(bool \<times> bool \<times> bool) list"

definition flip_zero :: flip_stats where
  "flip_zero = \<lparr>orig_ok = 0, flip_ok = 0, tried = 0, skipped = 0, example = None\<rparr>"

definition flip_policy :: snp_policy_cfg where
  "flip_policy = \<lparr>require_chain = True, allow_debug = False, pinned_measurement = None, pinned_ark = None\<rparr>"

text \<open>The quotes come in the order of their file names. An example without an anchor cannot be printed.\<close>

definition malleability_main ::
  "x509_lib \<Rightarrow> http \<Rightarrow> (bytes \<Rightarrow> string py) \<Rightarrow> p256_lib \<Rightarrow> reports \<Rightarrow> bytes list \<Rightarrow> cache \<Rightarrow> malleability_result py" where
  "malleability_main X h P E reps quotes cache =
     (let verify = sevsnp_verifier X h flip_policy in
      case flip_all verify P (sort_key (fst \<circ> snd) reps) flip_zero cache of
        (Inl e, _) \<Rightarrow> Inl e
      | (Inr st, c) \<Rightarrow>
          py_bind (case example st of
              None \<Rightarrow> Inr None
            | Some (src, b, fl, None) \<Rightarrow> Inl (TypeError (CHR 0x27 # ''NoneType'' @ CHR 0x27 # '' object is not subscriptable''))
            | Some (src, b, fl, Some _) \<Rightarrow> py_bind (fst (controls verify b c)) (\<lambda>v. Inr (Some v))) (\<lambda>ctl.
          py_bind (py_map (tdx_one E) quotes) (\<lambda>qs.
            Inr \<lparr>mr_signer = the_signer (map fst reps), mr_resigned = resigned_bodies (map fst reps), mr_flips = st,
                 mr_controls = ctl, mr_quotes = qs\<rparr>)))"

end
