(* ===== verification/Malleability_Proofs.thy ===== *)
theory Malleability_Proofs
  imports Malleability
begin

text \<open>
  The flipped report: that it differs, has the same body, and is the same evidence to the verifier and to the
  mandate; the certificate cache; the loop over the reports, the reports found, and what the controls show.
\<close>

section \<open>The flipped report\<close>

lemma N384_pos: "0 < N384"
  by (simp add: N384_def)

lemma N384_odd: "N384 mod 2 = 1"
  by (simp add: N384_def)

lemma N384_less: "N384 < 256 ^ 48"
  by (simp add: N384_def)

lemma take_le_bytes: "j \<le> k \<Longrightarrow> take j (le_bytes k n) = le_bytes j n"
proof (induction k n arbitrary: j rule: le_bytes.induct)
  case (2 k n)
  then show ?case by (cases j) simp_all
qed simp

lemma take_drop_swap: "take (j - i) (drop i b) = drop i (take j b)"
  by (cases "i \<le> j") (simp_all add: take_drop)

lemma slice_same_prefix:
  assumes "take n b = take n b'" "j \<le> n"
  shows "slice i j b = slice i j b'"
proof -
  have "take j b = take j b'" using arg_cong [OF assms(1), of "take j"] assms(2) by (simp add: min_absorb1)
  then show ?thesis by (simp add: slice_def take_drop_swap)
qed

lemma with_s_Inr:
  assumes "0 \<le> v" "v < 256 ^ 48" "length b = 1184"
  obtains fl where "with_s b v = Inr fl" "length fl = 1184" "take (SIG + 72) fl = take (SIG + 72) b"
    "slice (SIG + 72) (SIG + 120) fl = le_bytes 48 v"
proof
  have v: "v < 256 ^ 72" using assms(2) by simp
  show "with_s b v = Inr (take (SIG + 72) b @ le_bytes 72 v @ drop (SIG + 144) b)"
    using assms(1) v by (simp add: with_s_def to_bytes_def be_bytes_def)
  show "slice (SIG + 72) (SIG + 120) (take (SIG + 72) b @ le_bytes 72 v @ drop (SIG + 144) b) = le_bytes 48 v"
    using assms(3) by (simp add: slice_def SIG_def len_simps take_le_bytes)
qed (use assms(3) in \<open>simp_all add: SIG_def len_simps\<close>)

text \<open>A report is read only below offset \<open>SIG\<close>; two with one body are one to \<open>parse_snp\<close>.\<close>

lemma parse_snp_body:
  assumes "take SIG b = take SIG b'" "length b = length b'"
  shows "parse_snp b = parse_snp b'"
proof -
  have s: "slice i j b = slice i j b'" if "j \<le> SIG" for i j using slice_same_prefix [OF assms(1) that] .
  have n: "b ! i = b' ! i" if "i < SIG" for i using assms(1) that by (metis nth_take)
  show ?thesis
    using assms(2) by (simp add: parse_snp_def u32_at_def u64_at_def snp_product_of_def s n SIG_def Let_def)
qed

text \<open>What the verifier reads of the evidence.\<close>

lemma report_evidence_fields:
  "dget ([(''kind'', JStr ''sev-snp''), (''report'', JStr x)] @ extra) ''kind'' = JStr ''sev-snp''"
  "dindex ([(''kind'', JStr ''sev-snp''), (''report'', JStr x)] @ extra) ''report'' = Inr (JStr x)"
  "dget ([(''kind'', JStr ''sev-snp''), (''report'', JStr x)] @ extra) ''leaf_pem'' = dget extra ''leaf_pem''"
  by (simp_all add: dget_def dindex_def)

definition rs_verifies :: "x509_lib \<Rightarrow> bytes \<Rightarrow> bytes \<Rightarrow> bool" where
  "rs_verifies X der b = (case rep_rs b of (r, s) \<Rightarrow> x_verify_rs X der r s (take SIG b) = Inr ())"

lemma verifier_reads_body_and_verdict:
  assumes "take SIG b = take SIG b'" "length b = length b'" "\<And>der. rs_verifies X der b \<longleftrightarrow> rs_verifies X der b'"
  shows "sevsnp_verifier X h pol cache (report_evidence b extra) rd = sevsnp_verifier X h pol cache (report_evidence b' extra) rd"
proof (cases "parse_snp b'")
  case (Inr f)
  let ?d = "\<lambda>b. [(''kind'', JStr ''sev-snp''), (''report'', JStr (b64encode b))] @ extra"
  have v: "x_verify_rs X der (from_le (slice 672 720 b)) (from_le (slice 744 792 b)) (take 672 b) = Inr ()
      \<longleftrightarrow> x_verify_rs X der (from_le (slice 672 720 b')) (from_le (slice 744 792 b')) (take 672 b') = Inr ()" for der
    using assms(3) [of der] by (simp add: rs_verifies_def rep_rs_def SIG_def)
  define J :: "bool py \<times> cache \<Rightarrow> (bool \<times> anchor option) py \<times> cache" where
    "J x = (case x of (Inr True, c') \<Rightarrow> (Inr (True, snp_anchor f), c') | (_, c') \<Rightarrow> (Inr (False, None), c'))" for x
  have "J (snp_signature_ok X h pol cache (?d b) b f) = J (snp_signature_ok X h pol cache (?d b') b' f)"
  proof (cases "supplied_pem_of (dget extra ''leaf_pem'')")
    case (Inr sup)
    obtain res c1 where l: "leaf_cert X h cache f sup = (res, c1)" by fastforce
    show ?thesis
    proof (cases res)
      case (Inr der)
      with l \<open>supplied_pem_of _ = Inr sup\<close> v [of der] show ?thesis
        unfolding snp_signature_ok_def report_evidence_fields
        by (cases "x_verify_rs X der (from_le (slice 672 720 b)) (from_le (slice 744 792 b)) (take 672 b)";
            cases "x_verify_rs X der (from_le (slice 672 720 b')) (from_le (slice 744 792 b')) (take 672 b')") (simp_all add: J_def Let_def)
    qed (use l Inr in \<open>simp add: snp_signature_ok_def report_evidence_fields [simplified]\<close>)
  qed (simp add: snp_signature_ok_def report_evidence_fields [simplified])
  then show ?thesis
    using Inr parse_snp_body [OF assms(1,2)]
    by (simp add: sevsnp_verifier_def report_evidence_def report_evidence_fields [simplified] J_def)
qed (use parse_snp_body [OF assms(1,2)] in \<open>simp add: sevsnp_verifier_def report_evidence_def report_evidence_fields [simplified]\<close>)

lemma other_fields:
  "msg_counter (msg\<lparr>msg_evidence := e\<rparr>) = msg_counter msg" "msg_post_link (msg\<lparr>msg_evidence := e\<rparr>) = msg_post_link msg"
  "msg_evidence (msg\<lparr>msg_evidence := e\<rparr>) = e"
  by simp_all

lemma link_ignores_evidence:
  "appraise_link i m tik sc ex (msg\<lparr>msg_evidence := e\<rparr>) pl r inst place base = appraise_link i m tik sc ex msg pl r inst place base"
  unfolding appraise_link_def other_fields ..

lemma chain_ignores_evidence:
  "appraise_chain i m tik sc ex (msg\<lparr>msg_evidence := e\<rparr>) pl r inst place = appraise_chain i m tik sc ex msg pl r inst place"
  unfolding appraise_chain_def other_fields link_ignores_evidence ..

lemma gate_ignores_evidence:
  "appraise_gate i m tik sc ex (msg\<lparr>msg_evidence := e\<rparr>) pl r an = appraise_gate i m tik sc ex msg pl r an"
  unfolding appraise_gate_def other_fields chain_ignores_evidence ..

lemma present_same_evidence:
  assumes "verify_report (cfg m) e = verify_report (cfg m) e'"
  shows "present i m tik sc ex (msg\<lparr>msg_evidence := e\<rparr>) head bundle = present i m tik sc ex (msg\<lparr>msg_evidence := e'\<rparr>) head bundle"
  unfolding present_def appraise_def other_fields gate_ignores_evidence assms ..

section \<open>The cache\<close>

lemma kds_get_again:
  assumes "kds_get h c u k = (res, c')" "c'' k = c' k"
  shows "fst (kds_get h c'' u k) = res" "(\<exists>d. res = Inr d) \<Longrightarrow> snd (kds_get h c'' u k) = c''" "k' \<noteq> k \<Longrightarrow> c' k' = c k'"
  using assms by (auto simp: kds_get_def split: option.splits sum.splits)

definition leaf_key :: "snp_fields \<Rightarrow> string" where
  "leaf_key f = take 32 (hex (sha256 (encode (vcek_url f)))) @ ''.der''"

lemma leaf_key_not_chain: "leaf_key f \<noteq> p @ ''-'' @ k @ ''-chain.pem''"
proof
  assume "leaf_key f = p @ ''-'' @ k @ ''-chain.pem''"
  then have "last (leaf_key f) = last (p @ ''-'' @ k @ ''-chain.pem'')" by simp
  then show False by (simp add: leaf_key_def)
qed

lemma leaf_cert_again:
  assumes "leaf_cert X h c f supp = (res, c')" "c'' (leaf_key f) = c' (leaf_key f)"
  shows "fst (leaf_cert X h c'' f supp) = res" "(\<exists>d. res = Inr d) \<Longrightarrow> snd (leaf_cert X h c'' f supp) = c''"
    "k \<noteq> leaf_key f \<Longrightarrow> c' k = c k"
proof -
  have "fst (leaf_cert X h c'' f supp) = res \<and> ((\<exists>d. res = Inr d) \<longrightarrow> snd (leaf_cert X h c'' f supp) = c'') \<and> (k \<noteq> leaf_key f \<longrightarrow> c' k = c k)" for k
  proof (cases "snp_signing_key f = SkName ''VCEK''")
    case True
    have n: "snp_signing_key f \<noteq> SkName ''VLEK''" and nn: "\<not> snp_signing_key f \<noteq> SkName ''VCEK''" using True by simp_all
    obtain g c1 where g: "kds_get h c (vcek_url f) (leaf_key f) = (g, c1)" by fastforce
    have e: "leaf_cert X h c0 f supp = (case kds_get h c0 (vcek_url f) (leaf_key f) of
        (Inl e, cache') \<Rightarrow> (Inl e, cache') | (Inr der, cache') \<Rightarrow> (py_bind (x_load_der X der) (\<lambda>_. Inr der), cache'))" for c0
      unfolding leaf_cert_def leaf_key_def Let_def if_not_P [OF n] if_not_P [OF nn] ..
    have c1: "c1 = c'" and r: "res = py_bind g (\<lambda>der. py_bind (x_load_der X der) (\<lambda>_. Inr der))"
      using assms(1) [unfolded e g] by (auto split: sum.splits)
    obtain g2 c2 where g2: "kds_get h c'' (vcek_url f) (leaf_key f) = (g2, c2)" by fastforce
    have k: "g2 = g" "(\<exists>d. g = Inr d) \<Longrightarrow> c2 = c''" "k \<noteq> leaf_key f \<Longrightarrow> c' k = c k"
      using kds_get_again [where c'' = c'' and c' = c1 and k = "leaf_key f", OF g assms(2) [folded c1], unfolded g2 fst_conv snd_conv] unfolding c1 by metis+
    show ?thesis
      unfolding e g2 using k r by (cases g) auto
  qed (use assms(1) in \<open>auto simp: leaf_cert_def split: if_splits\<close>)
  then show "fst (leaf_cert X h c'' f supp) = res" "(\<exists>d. res = Inr d) \<Longrightarrow> snd (leaf_cert X h c'' f supp) = c''"
    "k \<noteq> leaf_key f \<Longrightarrow> c' k = c k" by blast+
qed

lemma chain_ok_again:
  assumes "chain_ok X h ark c der f = (res, c')"
  shows "fst (chain_ok X h ark c' der f) = res \<and> c' (leaf_key f) = c (leaf_key f)"
proof -
  define kind where "kind = (if snp_signing_key f = SkName ''VLEK'' then ''vlek'' else ''vcek'')"
  define u where "u = ''https://kdsintf.amd.com/'' @ kind @ ''/v1/'' @ snp_product f @ ''/cert_chain''"
  define k where "k = snp_product f @ ''-'' @ kind @ ''-chain.pem''"
  define F where "F pem = (let blocks = pem_blocks pem in
           if length blocks < 2
           then Inr (False, ''AMD chain did not contain the intermediate and ARK'')
           else py_bind (py_map (x_openssl_pem X) blocks) (\<lambda>certs.
             let ask = hd certs; ark' = last certs in
             if (case ark of None \<Rightarrow> False | Some p \<Rightarrow> p \<noteq> [] \<and> hex (sha256 ark') \<noteq> p)
             then Inr (False, ''AMD root key does not match the pinned value'')
             else (case x_verify_chain X ark' ask der of
                 Inr _ \<Rightarrow> Inr (True, ''chain ok'')
               | Inl e \<Rightarrow> Inr (False, ''certificate chain broken: '' @ exn_str e))))" for pem
  have e: "chain_ok X h ark c0 der f = (case kds_get h c0 u k of (Inl e, cache') \<Rightarrow> (Inl e, cache') | (Inr pem, cache') \<Rightarrow> (F pem, cache'))" for c0
    unfolding chain_ok_def Let_def kind_def u_def k_def F_def ..
  obtain g c1 where g: "kds_get h c u k = (g, c1)" by fastforce
  have c1: "c1 = c'" and r: "(case g of Inl e \<Rightarrow> Inl e | Inr pem \<Rightarrow> F pem) = res"
    using assms [unfolded e g] by (auto split: sum.splits)
  obtain g2 c2 where g2: "kds_get h c' u k = (g2, c2)" by fastforce
  have "g2 = g" "c' (leaf_key f) = c (leaf_key f)"
    using kds_get_again(1,3) [where c'' = c' and c' = c' and k = k, OF g [unfolded c1] refl] g2 leaf_key_not_chain [of f]
    unfolding k_def by auto
  then show ?thesis unfolding e g2 using r by (cases g) auto
qed

lemma signature_again:
  assumes "snp_signature_ok X h pol c d b f = (res, c')"
  shows "fst (snp_signature_ok X h pol c' d b f) = res"
proof (cases "supplied_pem_of (dget d ''leaf_pem'')")
  case (Inr supp)
  define V where "V der = x_verify_rs X der (from_le (slice 0x2A0 (0x2A0 + 48) b)) (from_le (slice (0x2A0 + 72) (0x2A0 + 120) b)) (take 0x2A0 b)" for der
  have e: "snp_signature_ok X h pol c0 d b f = (case leaf_cert X h c0 f supp of
       (Inl e, c1) \<Rightarrow> (Inl e, c1)
     | (Inr der, c1) \<Rightarrow> (case V der of
            Inl e \<Rightarrow> (Inl e, c1)
          | Inr _ \<Rightarrow> if require_chain pol then
                (case chain_ok X h (pinned_ark pol) c1 der f of
                   (Inl e, c2) \<Rightarrow> (Inl e, c2)
                 | (Inr (ok, _), c2) \<Rightarrow> (Inr ok, c2))
              else (Inr True, c1)))" for c0
    unfolding snp_signature_ok_def Inr sum.case Let_def V_def ..
  obtain l c1 where l: "leaf_cert X h c f supp = (l, c1)" by fastforce
  have again: "leaf_cert X h c0 f supp = (l, c0)" if "l = Inr der" "c0 (leaf_key f) = c1 (leaf_key f)" for der c0
    using leaf_cert_again(1,2) [OF l, of c0] that by (metis prod.collapse)
  show ?thesis
  proof (cases l)
    case (Inl x)
    have "fst (leaf_cert X h c1 f supp) = l" using leaf_cert_again(1) [OF l, of c1] by simp
    then show ?thesis using assms [unfolded e l] Inl unfolding e by (auto split: prod.splits)
  next
    case (Inr der)
    obtain r c2 where r: "chain_ok X h (pinned_ark pol) c1 der f = (r, c2)" by fastforce
    from chain_ok_again [OF r] have r2: "fst (chain_ok X h (pinned_ark pol) c2 der f) = r" "c2 (leaf_key f) = c1 (leaf_key f)" by auto
    show ?thesis
      using assms [unfolded e l] Inr r r2 again [of der c2, OF Inr r2(2)] again [of der c1, OF Inr refl] unfolding e
      by (auto split: sum.splits prod.splits if_splits)
  qed
qed (use assms in \<open>auto simp: snp_signature_ok_def\<close>)

lemma verifier_again:
  assumes "sevsnp_verifier X h pol c ev rd = (res, c')"
  shows "fst (sevsnp_verifier X h pol c' ev rd) = res"
proof (cases "\<exists>d b f. ev = JObj d \<and> py_bind (dindex d ''report'') (\<lambda>j. py_bind (b64_json j) (\<lambda>b. py_bind (parse_snp b) (\<lambda>f. Inr (b, f)))) = Inr (b, f)")
  case True
  then obtain d b f where d: "ev = JObj d"
    and p: "py_bind (dindex d ''report'') (\<lambda>j. py_bind (b64_json j) (\<lambda>b. py_bind (parse_snp b) (\<lambda>f. Inr (b, f)))) = Inr (b, f)" by blast
  obtain s c1 where s: "snp_signature_ok X h pol c d b f = (s, c1)" by fastforce
  obtain s' c2 where s': "snp_signature_ok X h pol c1 d b f = (s', c2)" by fastforce
  with signature_again [OF s] have "s' = s" by simp
  then show ?thesis
    using assms s s' unfolding sevsnp_verifier_def d json.case p sum.case prod.case
    by (cases s; cases "projr s") (auto split: if_splits)
qed (use assms in \<open>cases ev; auto simp: sevsnp_verifier_def split: sum.splits if_splits\<close>)

section \<open>The flip\<close>

text \<open>ECDSA's symmetry on one report: \<open>(r, n - s)\<close> verifies exactly when \<open>(r, s)\<close> does (SEC 1, 4.1.4).\<close>

definition ecdsa_symmetric :: "x509_lib \<Rightarrow> bytes \<Rightarrow> bool" where
  "ecdsa_symmetric X b = (case rep_rs b of (r, s) \<Rightarrow>
     \<forall>der. x_verify_rs X der r (N384 - s) (take SIG b) = Inr () \<longleftrightarrow> x_verify_rs X der r s (take SIG b) = Inr ())"

lemma flipped:
  assumes "length b = 1184" "rep_rs b = (r, s)" "0 < s" "s < N384"
  obtains fl where "with_s b (N384 - s) = Inr fl" "length fl = 1184" "take SIG fl = take SIG b"
    "rep_rs fl = (r, N384 - s)" "fl \<noteq> b"
proof -
  have v: "0 \<le> N384 - s" "N384 - s < 256 ^ 48" using assms(3,4) N384_less by linarith+
  obtain fl where f: "with_s b (N384 - s) = Inr fl" "length fl = 1184" "take (SIG + 72) fl = take (SIG + 72) b"
      "slice (SIG + 72) (SIG + 120) fl = le_bytes 48 (N384 - s)"
    using with_s_Inr [OF v assms(1)] by metis
  have r: "slice SIG (SIG + 48) fl = slice SIG (SIG + 48) b" by (rule slice_same_prefix [OF f(3)]) simp
  have t: "take SIG fl = take SIG b" using slice_same_prefix [OF f(3), of SIG 0] by (simp add: slice_def)
  have rs: "rep_rs fl = (r, N384 - s)"
    using assms(2) r v by (simp add: rep_rs_def f(4) from_le_le_bytes)
  have "s \<noteq> N384 - s" using N384_odd by presburger
  with rs assms(2) have "fl \<noteq> b" by auto
  with that f(1,2) t rs show ?thesis by blast
qed

lemma flipped_verifies:
  assumes "length b = 1184" "rep_rs b = (r, s)" "0 < s" "s < N384" "ecdsa_symmetric X b" "with_s b (N384 - s) = Inr fl"
  shows "sevsnp_verifier X h pol cache (report_evidence fl extra) rd = sevsnp_verifier X h pol cache (report_evidence b extra) rd"
proof -
  from flipped [OF assms(1-4)] assms(6) have f: "length fl = 1184" "take SIG fl = take SIG b" "rep_rs fl = (r, N384 - s)"
    by (metis sum.inject(2))+
  show ?thesis
    by (rule verifier_reads_body_and_verdict) (use f assms(1,2,5) in \<open>simp_all add: rs_verifies_def ecdsa_symmetric_def\<close>)
qed

section \<open>The loop over the reports\<close>

definition flips_agree :: "nat \<Rightarrow> flip_stats \<Rightarrow> bool" where
  "flips_agree n st \<longleftrightarrow> flip_ok st = orig_ok st \<and> tried st + skipped st = n \<and> orig_ok st \<le> tried st \<and>
     (case example st of None \<Rightarrow> orig_ok st = 0
      | Some (src, b, fl, an) \<Rightarrow> fl \<noteq> b \<and> take SIG fl = take SIG b \<and> with_s b (N384 - snd (rep_rs b)) = Inr fl)"

definition report_ok :: "x509_lib \<Rightarrow> (bytes \<Rightarrow> string py) \<Rightarrow> bytes \<times> string \<times> json \<Rightarrow> bool" where
  "report_ok X P kv = (case kv of (b, src, leaf) \<Rightarrow> length b = 1184 \<and> rs_in_range b \<and> ecdsa_symmetric X b \<and>
     (truthy leaf \<longrightarrow> (\<exists>p. vlek_pem P leaf = Inr p)))"

lemma verifier_returns: "\<exists>r c. sevsnp_verifier X h pol cache (report_evidence b extra) rd = (Inr r, c)"
  by (auto simp: sevsnp_verifier_def report_evidence_def split: sum.splits prod.splits bool.splits)

lemma parse_snp_Inr: "length b = 1184 \<Longrightarrow> \<exists>f. parse_snp b = Inr f"
  by (simp add: parse_snp_def Let_def)

lemma flip_one_agrees:
  assumes "report_ok X P kv" "flips_agree n st"
  shows "\<exists>st' c. flip_one (sevsnp_verifier X h pol) P kv st cache = (Inr st', c) \<and> flips_agree (Suc n) st'"
proof -
  obtain b src leaf where kv: "kv = (b, src, leaf)" by (cases kv)
  obtain r s where rs: "rep_rs b = (r, s)" by fastforce
  have b: "length b = 1184" "0 < s" "s < N384" "ecdsa_symmetric X b" using assms(1) rs by (auto simp: report_ok_def kv rs_in_range_def)
  from parse_snp_Inr [OF b(1)] obtain f where f: "parse_snp b = Inr f" by blast
  from flipped [OF b(1) rs b(2,3)] obtain fl where fl: "with_s b (N384 - s) = Inr fl" "take SIG fl = take SIG b" "fl \<noteq> b" by metis
  show ?thesis
  proof (cases "snp_signing_key f = SkName ''VLEK'' \<and> \<not> truthy leaf")
    case True
    with assms(2) show ?thesis by (auto simp: flip_one_def kv f flips_agree_def split: option.splits)
  next
    case False
    have "\<exists>p. vlek_pem P leaf = Inr p" if "truthy leaf" using assms(1) that by (simp add: report_ok_def kv)
    with False obtain extra where x: "(if snp_signing_key f = SkName ''VLEK'' then py_bind (vlek_pem P leaf) (\<lambda>p. Inr [(''leaf_pem'', JStr p)]) else Inr []) = Inr extra"
      by (cases "snp_signing_key f = SkName ''VLEK''") auto
    obtain v c1 where v: "sevsnp_verifier X h pol cache (report_evidence b extra) (snp_report_data f) = (Inr v, c1)"
      using verifier_returns by metis
    obtain v' c2 where v': "sevsnp_verifier X h pol c1 (report_evidence fl extra) (snp_report_data f) = (Inr v', c2)"
      using verifier_returns by metis
    have "v' = v"
      using verifier_again [OF v] v' flipped_verifies [OF b(1) rs b(2-4) fl(1)] by simp
    obtain ok an where va: "v = (ok, an)" by fastforce
    have "flip_one (sevsnp_verifier X h pol) P kv st cache = (Inr (st\<lparr>orig_ok := orig_ok st + (if ok then 1 else 0),
        flip_ok := flip_ok st + (if ok then 1 else 0), tried := tried st + 1,
        example := (if ok \<and> example st = None then Some (src, b, fl, an) else example st)\<rparr>), c2)"
      unfolding flip_one_def kv prod.case f sum.case Let_def if_not_P [OF False] x v v' \<open>v' = v\<close> va rs snd_conv fl(1) by simp
    then show ?thesis
      using assms(2) fl rs by (auto simp: flips_agree_def split: option.splits)
  qed
qed

lemma flips_verify_as_originals:
  assumes "\<And>kv. kv \<in> set reps \<Longrightarrow> report_ok X P kv"
  shows "\<exists>st c. flip_all (sevsnp_verifier X h pol) P reps flip_zero cache = (Inr st, c) \<and> flips_agree (length reps) st"
proof -
  have "\<exists>st' c. flip_all (sevsnp_verifier X h pol) P reps st cache = (Inr st', c) \<and> flips_agree (n + length reps) st'"
    if "flips_agree n st" for n st
    using assms that
  proof (induction reps arbitrary: n st cache)
    case (Cons kv reps)
    obtain st' c where s: "flip_one (sevsnp_verifier X h pol) P kv st cache = (Inr st', c)" "flips_agree (Suc n) st'"
      using flip_one_agrees [OF Cons.prems(1) Cons.prems(2), of kv h pol cache] by auto
    from Cons.IH [OF Cons.prems(1) s(2), of c] s(1) show ?case by auto
  qed simp
  from this [of 0 flip_zero] show ?thesis by (simp add: flips_agree_def flip_zero_def)
qed

section \<open>The reports found, and the controls\<close>

lemma b64_reports_all: "list_all (\<lambda>b. length b = 1184) (b64_reports j)"
proof (induction j rule: b64_reports.induct)
  case (2 kvs)
  have "list_all (\<lambda>x. list_all (\<lambda>b. length b = 1184) (b64_reports (snd x))) kvs"
    using 2 by (fastforce simp: list_all_iff)
  then show ?case by (induction kvs) auto
next
  case (3 xs)
  then show ?case by (induction xs) auto
qed (simp_all split: sum.split)

lemma b64_reports_length: "b \<in> set (b64_reports j) \<Longrightarrow> length b = 1184"
  using b64_reports_all [of j] by (auto simp: list_all_iff)

definition reports_ok :: "reports \<Rightarrow> bool" where
  "reports_ok out \<longleftrightarrow> distinct (map fst out) \<and> list_all (\<lambda>(b, v). length b = 1184) out"

lemma setdefault_ok: "reports_ok out \<Longrightarrow> length b = 1184 \<Longrightarrow> reports_ok (setdefault out b v)"
  by (auto simp: reports_ok_def setdefault_def)

lemma fold_keeps: "(\<And>x s. x \<in> set xs \<Longrightarrow> Q s \<Longrightarrow> Q (f x s)) \<Longrightarrow> Q s \<Longrightarrow> Q (fold f xs s)"
  by (induction xs arbitrary: s) auto

lemma found_ok: "reports_ok out \<Longrightarrow> reports_ok (fold (\<lambda>b o'. setdefault o' b v) (b64_reports j) out)"
  using b64_reports_length [of _ j] by (intro fold_keeps [where Q = reports_ok]) (simp_all add: setdefault_ok)

lemma entries_ok:
  "reports_ok out \<Longrightarrow> reports_ok (fold (\<lambda>(k, e) o'. fold (\<lambda>b o''. setdefault o'' b (rel, leaf_of e)) (b64_reports e) o') kvs out)"
  by (rule fold_keeps [where Q = reports_ok]) (auto intro: found_ok)

lemma reports_of_file_ok: "reports_ok out \<Longrightarrow> reports_ok (reports_of_file f out)"
proof (induction f out rule: reports_of_file.induct)
  case (1 rel d out)
  note o = found_ok [OF 1] and e = entries_ok [OF 1]
  show ?case by (cases d) (simp_all add: o e del: b64_reports.simps)
qed

text \<open>Every report found has 1184 bytes, and none is listed twice.\<close>

lemma shipped_reports_ok: "reports_ok (shipped_reports jsons bins)"
proof -
  have j: "reports_ok (fold (\<lambda>(rel, d) out. case d of Inl _ \<Rightarrow> out | Inr j \<Rightarrow> reports_of_file (rel, j) out) jsons [])"
    by (rule fold_keeps [where Q = reports_ok]) (auto intro: reports_of_file_ok simp: reports_ok_def [of "[]"] simp del: reports_of_file.simps split: sum.split)
  show ?thesis unfolding shipped_reports_def
    by (rule fold_keeps [where Q = reports_ok]) (use j in \<open>auto intro: setdefault_ok\<close>)
qed

text \<open>
  The controls leave the leaf certificate out of the evidence; on a VLEK-signed report they are refused for
  that, whatever the signature.
\<close>

lemma no_leaf_refused:
  assumes "parse_snp b = Inr f" "snp_signing_key f = SkName ''VLEK''"
  shows "fst (sevsnp_verifier X h pol cache (report_evidence b []) rd) = Inr (False, None)"
proof -
  have "supplied_pem_of (dget [(''kind'', JStr ''sev-snp''), (''report'', JStr (b64encode b))] ''leaf_pem'') = Inr None"
    by (simp add: dget_def supplied_pem_of_def)
  then have "\<exists>e. fst (snp_signature_ok X h pol cache [(''kind'', JStr ''sev-snp''), (''report'', JStr (b64encode b))] b f) = Inl e"
    using assms(2) by (simp add: snp_signature_ok_def leaf_cert_def)
  then show ?thesis
    using assms(1) by (auto simp: sevsnp_verifier_def report_evidence_def report_evidence_fields [where extra = "[]", simplified] split: sum.splits prod.splits bool.splits)
qed

text \<open>
  The reports being a dictionary keyed by their bytes, a body that was signed twice alike is listed once:
  every body that appears more than once has different signatures, whoever signs.
\<close>

lemma repeats_are_resigned:
  assumes "distinct reps"
  shows "length (signatures_of reps body) = length (filter (\<lambda>b. take SIG b = body) reps)"
proof -
  have "inj_on (drop SIG) (set (filter (\<lambda>b. take SIG b = body) reps))"
    by (rule inj_onI) (auto, metis append_take_drop_id)
  then have "distinct (map (drop SIG) (filter (\<lambda>b. take SIG b = body) reps))"
    using assms by (simp add: distinct_map)
  then show ?thesis by (simp add: signatures_of_def distinct_remdups_id)
qed

end
