(* ===== verification/Serial_Console.thy ===== *)
theory Serial_Console
  imports Framing Sha2
begin

text \<open>
  How a guest without a network reports: the probes of \<open>examples/aws_anchor_run.py\<close>,
  \<open>examples/azure_anchor_run.py\<close> and \<open>examples/tdx_claims_run.py\<close> print one JSON value on the serial console
  as numbered chunks of hexadecimal with a digest, and \<open>reassemble\<close> (the same in the three scripts) picks them
  out of whatever else the console holds. The regular expressions are written out as matchers: in each, a
  repeated class stops at a character that the next literal cannot match, so there is nothing to backtrack.

  Facts are in \<open>Serial_Proofs\<close>.
\<close>

section \<open>\<open>re.search\<close> and \<open>re.findall\<close>\<close>

fun search :: "(string \<Rightarrow> 'a option) \<Rightarrow> string \<Rightarrow> 'a option" where
  "search f [] = f []"
| "search f (c # r) = (case f (c # r) of Some x \<Rightarrow> Some x | None \<Rightarrow> search f r)"

definition after :: "string \<Rightarrow> string \<Rightarrow> string option" where
  "after w s = (if take (length w) s = w then Some (drop (length w) s) else None)"

text \<open>What \<open>\S\<close> leaves out, below code point 256.\<close>

definition space_char :: "char \<Rightarrow> bool" where
  "space_char c \<longleftrightarrow> (let n = of_char c :: nat in 9 \<le> n \<and> n \<le> 13 \<or> 28 \<le> n \<and> n \<le> 32 \<or> n = 133 \<or> n = 160)"

text \<open>A non-empty run of a class, and what follows a blank after it.\<close>

definition run_then_blank :: "(char \<Rightarrow> bool) \<Rightarrow> string \<Rightarrow> (string \<times> string) option" where
  "run_then_blank p s = (let a = takeWhile p s in
     if a = [] then None else map_option (Pair a) (after '' '' (dropWhile p s)))"

definition hex_run :: "nat \<Rightarrow> string \<Rightarrow> string option" where
  "hex_run n s = (if n \<le> length s \<and> list_all (\<lambda>c. c \<in> set hex_chars) (take n s) then Some (take n s) else None)"

text \<open>\<open>HATLSMETA (\S+) (\S+) (\d+) ([0-9a-f]{64})\<close>: the last two groups.\<close>

definition match_meta :: "string \<Rightarrow> (int \<times> string) option" where
  "match_meta s =
     Option.bind (after ''HATLSMETA '' s) (\<lambda>r1.
     Option.bind (run_then_blank (\<lambda>c. \<not> space_char c) r1) (\<lambda>(_, r2).
     Option.bind (run_then_blank (\<lambda>c. \<not> space_char c) r2) (\<lambda>(_, r3).
     Option.bind (run_then_blank is_digit r3) (\<lambda>(d, r4).
       map_option (\<lambda>h. (digits_val d, h)) (hex_run 64 r4)))))"

text \<open>\<open>HATLSLEN (\d+)\<close>.\<close>

definition match_len :: "string \<Rightarrow> int option" where
  "match_len s = Option.bind (after ''HATLSLEN '' s) (\<lambda>r.
     let d = takeWhile is_digit r in if d = [] then None else Some (digits_val d))"

text \<open>\<open>HATLSC (\d{4}) ([0-9a-f]{256})\<close>, and what follows.\<close>

definition match_chunk :: "string \<Rightarrow> (int \<times> string \<times> string) option" where
  "match_chunk s =
     Option.bind (after ''HATLSC '' s) (\<lambda>r.
     if 4 \<le> length r \<and> list_all is_digit (take 4 r)
     then Option.bind (after '' '' (drop 4 r)) (\<lambda>q.
       map_option (\<lambda>h. (digits_val (take 4 r), h, drop 256 q)) (hex_run 256 q))
     else None)"

lemma after_Some: "after w s = Some r \<Longrightarrow> s = w @ r"
  by (auto simp: after_def split: if_splits) (metis append_take_drop_id)

lemma match_chunk_shorter: "match_chunk s = Some (n, h, r) \<Longrightarrow> length r < length s"
proof -
  assume "match_chunk s = Some (n, h, r)"
  then obtain r0 q where "after ''HATLSC '' s = Some r0" "after '' '' (drop 4 r0) = Some q" "r = drop 256 q"
    by (auto simp: match_chunk_def bind_eq_Some_conv split: if_splits)
  from after_Some [OF this(1)] after_Some [OF this(2)] this(3) have "length s = 7 + length r0" "length (drop 4 r0) = 1 + length q" "length r \<le> length q"
    by simp_all
  then show ?thesis by simp
qed

function find_chunks :: "string \<Rightarrow> (int \<times> string) list" where
  "find_chunks [] = []"
| "find_chunks (c # s) = (case match_chunk (c # s) of
     Some (n, h, r) \<Rightarrow> (n, h) # find_chunks r
   | None \<Rightarrow> find_chunks s)"
  by pat_completeness auto
termination by (relation "measure length") (auto dest: match_chunk_shorter)

section \<open>\<open>reassemble\<close>\<close>

text \<open>\<open>chunks\<close> is a dictionary: of two chunks with one number the later stays.\<close>

definition join_chunks :: "(int \<times> string) list \<Rightarrow> int \<Rightarrow> string list py" where
  "join_chunks cs want = py_map (\<lambda>i. case map_of (rev cs) (int i) of
     None \<Rightarrow> Inl (KeyError (dec_int (int i))) | Some h \<Rightarrow> Inr h) [0..<nat want]"

definition reassemble :: "string \<Rightarrow> json option py" where
  "reassemble txt = (case (search match_meta txt, search match_len txt) of
     (Some (want, dg), Some hexlen) \<Rightarrow>
       (let cs = find_chunks txt in
        if int (length (remdups (map fst cs))) \<noteq> want then Inr None
        else py_bind (join_chunks cs want) (\<lambda>hs.
          case fromhex (take (nat hexlen) (concat hs)) of
            Inl _ \<Rightarrow> Inr None
          | Inr payload \<Rightarrow>
              if hex (sha256 payload) \<noteq> dg then Inr None
              else py_bind (loads_bytes payload) (\<lambda>j. Inr (Some j))))
   | _ \<Rightarrow> Inr None)"

section \<open>What the probe prints\<close>

definition dec4 :: "nat \<Rightarrow> string" where
  "dec4 n = (let d = dec_nat (int n) in replicate (4 - length d) CHR ''0'' @ d)"

definition chunk_line :: "string \<Rightarrow> nat \<Rightarrow> string" where
  "chunk_line hx k = (let c = slice (256 * k) (256 * k + 256) hx in
     ''HATLSC '' @ dec4 k @ '' '' @ (if length hx < 256 * k + 256 then c @ replicate (256 - length c) CHR ''0'' else c))"

definition chunk_count :: "string \<Rightarrow> nat" where
  "chunk_count hx = (length hx + 255) div 256"

definition meta_line :: "string \<Rightarrow> string \<Rightarrow> bytes \<Rightarrow> string" where
  "meta_line name place payload = ''HATLSMETA '' @ name @ '' '' @ place @ '' '' @
     dec_int (int (chunk_count (hex payload))) @ '' '' @ hex (sha256 payload)"

text \<open>The AWS probe prints the chunks once, the Azure and TDX probes twice.\<close>

definition probe_lines :: "nat \<Rightarrow> string \<Rightarrow> string \<Rightarrow> json \<Rightarrow> string list" where
  "probe_lines passes name place out =
     (let payload = encode (dumps default_seps out); hx = hex payload in
      meta_line name place payload # concat (replicate passes (map (chunk_line hx) [0..<chunk_count hx]))
        @ [''HATLSLEN '' @ dec_int (int (length hx)), ''HATLSEND''])"

end
