(* ===== verification/Serial_Proofs.thy ===== *)
theory Serial_Proofs
  imports Serial_Console
begin

text \<open>
  Facts about \<open>Serial_Console\<close>: text without the tag \<open>HATLS\<close> is skipped by every pattern, a line of the probe is read
  by its own pattern and by no other, and so what was printed is read back from any console that shows each chunk
  intact at least once (\<open>reassemble_gaps\<close>); what can come of any other console (\<open>reassemble_damaged\<close>).
\<close>

section \<open>Skipping what is not a line of the probe\<close>

definition TAG :: string where "TAG = ''HATLS''"

fun no_tag :: "string \<Rightarrow> bool" where
  "no_tag [] = True"
| "no_tag (c # r) \<longleftrightarrow> take 5 (c # r) \<noteq> TAG \<and> no_tag r"

text \<open>What comes after a piece of text without the tag: nothing, or a tag.\<close>

definition starts_tagged :: "string \<Rightarrow> bool" where
  "starts_tagged s \<longleftrightarrow> s = [] \<or> (\<exists>r. s = TAG @ r)"

lemma TAG_facts: "length TAG = 5" "TAG = [CHR ''H'', CHR ''A'', CHR ''T'', CHR ''L'', CHR ''S'']"
  by (simp_all add: TAG_def)

lemma no_border:
  assumes "no_tag (c # n)" "starts_tagged s"
  shows "take 5 (c # n @ s) \<noteq> TAG"
proof
  assume t: "take 5 (c # n @ s) = TAG"
  show False
  proof (cases "5 \<le> length (c # n)")
    case True
    then have "take 5 (c # n @ s) = take 5 (c # n)" by simp
    with t assms(1) show False by simp
  next
    case False
    define k where "k = length (c # n)"
    have k: "1 \<le> k" "k < 5" using False by (auto simp: k_def)
    have "(c # n @ s) ! k = TAG ! k" using k(2) t by (metis nth_take)
    moreover have "(c # n @ s) ! k = s ! 0" by (simp add: k_def nth_append)
    moreover have "s \<noteq> []"
    proof
      assume "s = []"
      with t have "length (take 5 (c # n)) = 5" by (simp add: TAG_facts)
      with False show False by simp
    qed
    then have "s ! 0 = CHR ''H''" using assms(2) by (auto simp: starts_tagged_def TAG_facts)
    moreover have "TAG ! k \<noteq> CHR ''H''" using k by (auto simp: TAG_facts less_Suc_eq numeral_eq_Suc)
    ultimately show False by simp
  qed
qed

lemma not_after:
  assumes "take 5 s \<noteq> TAG"
  shows "after (TAG @ w) s = None"
proof (rule ccontr)
  assume "after (TAG @ w) s \<noteq> None"
  then have "take (5 + length w) s = TAG @ w" by (auto simp: after_def TAG_facts(1) split: if_splits)
  then have "take 5 (take (5 + length w) s) = take 5 (TAG @ w)" by simp
  then have "take 5 s = TAG" by (simp add: TAG_facts(1) min_def)
  with assms show False ..
qed

lemma tags: "''HATLSMETA '' = TAG @ ''META ''" "''HATLSLEN '' = TAG @ ''LEN ''" "''HATLSC '' = TAG @ ''C ''"
  by (simp_all add: TAG_facts)

lemma untagged:
  "take 5 s \<noteq> TAG \<Longrightarrow> match_meta s = None" "take 5 s \<noteq> TAG \<Longrightarrow> match_len s = None" "take 5 s \<noteq> TAG \<Longrightarrow> match_chunk s = None"
  unfolding match_meta_def match_len_def match_chunk_def tags by (simp_all add: not_after)

lemma search_skips:
  assumes "\<And>s. take 5 s \<noteq> TAG \<Longrightarrow> f s = None" "starts_tagged s"
  shows "no_tag n \<Longrightarrow> search f (n @ s) = search f s"
proof (induction n)
  case (Cons c n)
  have "f (c # n @ s) = None" using assms(1) no_border [OF Cons.prems assms(2)] by blast
  with Cons show ?case by simp
qed simp

lemma find_chunks_skips:
  assumes "starts_tagged s"
  shows "no_tag n \<Longrightarrow> find_chunks (n @ s) = find_chunks s"
proof (induction n)
  case (Cons c n)
  have "match_chunk (c # n @ s) = None" using untagged(3) no_border [OF Cons.prems assms] by blast
  with Cons show ?case by simp
qed simp

text \<open>Text without the tag, in two pieces with a character between them that the tag does not hold.\<close>

lemma no_tag_join: "no_tag a \<Longrightarrow> no_tag b \<Longrightarrow> x \<notin> set TAG \<Longrightarrow> no_tag (a @ x # b)"
proof (induction a)
  case Nil
  then show ?case by (auto simp: TAG_facts)
next
  case (Cons c a)
  have "take 5 (c # a @ x # b) \<noteq> TAG"
  proof
    assume t: "take 5 (c # a @ x # b) = TAG"
    show False
    proof (cases "5 \<le> length (c # a)")
      case True
      then have "take 5 (c # a @ x # b) = take 5 (c # a)" by simp
      with t Cons.prems(1) show False by simp
    next
      case False
      then have "x \<in> set (take 5 (c # a @ x # b))" by (auto simp: take_Cons' not_le)
      with t Cons.prems(3) show False by simp
    qed
  qed
  with Cons show ?case by simp
qed

lemma no_tag_chars: "list_all (\<lambda>c. c \<noteq> CHR ''H'') s \<Longrightarrow> no_tag s"
  by (induction s) (auto simp: TAG_facts)

section \<open>The lines of the probe\<close>

abbreviation NL :: char where "NL \<equiv> CHR 0x0A"

lemma after_append [simp]: "after w (w @ s) = Some s"
  by (simp add: after_def)

lemma takeWhile_run: "list_all p a \<Longrightarrow> \<not> p c \<Longrightarrow> takeWhile p (a @ c # s) = a \<and> dropWhile p (a @ c # s) = c # s"
  by (induction a) auto

lemma run_then_blank_run:
  "list_all p a \<Longrightarrow> a \<noteq> [] \<Longrightarrow> \<not> p CHR '' '' \<Longrightarrow> run_then_blank p (a @ CHR '' '' # s) = Some (a, s)"
  using takeWhile_run [of p a "CHR '' ''" s] after_append [of "'' ''" s] by (simp add: run_then_blank_def Let_def)

lemma hex_run_append: "length h = n \<Longrightarrow> list_all (\<lambda>c. c \<in> set hex_chars) h \<Longrightarrow> hex_run n (h @ s) = Some h"
  by (auto simp: hex_run_def)

lemma hex_is_hex: "list_all (\<lambda>c. c \<in> set hex_chars) (hex b)"
  using set_hex [of b] by (auto simp: list_all_iff)

lemma blank_facts: "space_char CHR '' ''" "\<not> is_digit CHR '' ''" "\<not> is_digit NL"
  by (simp_all add: space_char_def is_digit_def)

lemma dec_int_nat: "list_all is_digit (dec_int (int n))" "dec_int (int n) \<noteq> []" "digits_val (dec_int (int n)) = int n"
  using dec_nat_digits [of "int n"] digits_val_dec_nat [of "int n"] by (simp_all add: dec_int_def)

definition word_ok :: "string \<Rightarrow> bool" where
  "word_ok s \<longleftrightarrow> s \<noteq> [] \<and> list_all (\<lambda>c. \<not> space_char c) s \<and> no_tag s"

lemma match_meta_line:
  assumes "word_ok name" "word_ok place"
  shows "match_meta (meta_line name place payload @ s) = Some (int (chunk_count (hex payload)), hex (sha256 payload))"
proof -
  let ?r4 = "hex (sha256 payload) @ s"
  let ?r3 = "dec_int (int (chunk_count (hex payload))) @ CHR '' '' # ?r4"
  let ?r2 = "place @ CHR '' '' # ?r3"
  let ?r1 = "name @ CHR '' '' # ?r2"
  have e: "meta_line name place payload @ s = ''HATLSMETA '' @ ?r1" by (simp add: meta_line_def)
  have "run_then_blank (\<lambda>c. \<not> space_char c) ?r1 = Some (name, ?r2)" "run_then_blank (\<lambda>c. \<not> space_char c) ?r2 = Some (place, ?r3)"
    using assms blank_facts(1) by (auto simp: word_ok_def intro: run_then_blank_run)
  moreover have "run_then_blank is_digit ?r3 = Some (dec_int (int (chunk_count (hex payload))), ?r4)"
    by (rule run_then_blank_run) (simp_all add: dec_int_nat blank_facts)
  moreover have "hex_run 64 ?r4 = Some (hex (sha256 payload))"
    by (rule hex_run_append) (simp_all add: hex_is_hex len_simps)
  ultimately show ?thesis
    unfolding match_meta_def e after_append by (simp add: dec_int_nat)
qed

lemma match_len_line: "match_len (''HATLSLEN '' @ dec_int (int n) @ NL # s) = Some (int n)"
proof -
  have "takeWhile is_digit (dec_int (int n) @ NL # s) = dec_int (int n)"
    using takeWhile_run [of is_digit "dec_int (int n)" NL s] by (simp add: dec_int_nat blank_facts)
  then show ?thesis unfolding match_len_def after_append by (simp add: dec_int_nat)
qed

lemma other_lines:
  "match_len (''HATLSM'' @ s) = None" "match_len (''HATLSC'' @ s) = None"
  "match_chunk (''HATLSM'' @ s) = None" "match_chunk (''HATLSL'' @ s) = None" "match_chunk (''HATLSE'' @ s) = None"
  by (simp_all add: match_len_def match_chunk_def after_def)

lemma length_dec_nat: "0 \<le> n \<Longrightarrow> n < 10 ^ Suc k \<Longrightarrow> length (dec_nat n) \<le> Suc k"
proof (induction k arbitrary: n)
  case 0
  then show ?case by (subst dec_nat.simps) simp
next
  case (Suc k)
  have "n < 10 * m \<Longrightarrow> n div 10 < m" for m :: int by presburger
  then have "n div 10 < 10 ^ Suc k" using Suc.prems(2) by simp
  then show ?case using Suc.IH [of "n div 10"] Suc.prems by (subst dec_nat.simps) simp
qed

lemma dec4_facts:
  assumes "n < 10000"
  shows "length (dec4 n) = 4" "list_all is_digit (dec4 n)" "digits_val (dec4 n) = int n"
proof -
  have "length (dec_nat (int n)) \<le> 4" using length_dec_nat [of "int n" 3] assms by simp
  then show "length (dec4 n) = 4" by (simp add: dec4_def Let_def)
  have zero: "is_digit CHR ''0''" by (simp add: is_digit_def)
  show "list_all is_digit (dec4 n)" using dec_nat_digits [of "int n"] zero by (auto simp: dec4_def Let_def list_all_iff)
  have "digits_val (replicate k CHR ''0'' @ d) = digits_val d" for k d
    by (induction k) (simp_all add: digits_val_def)
  then show "digits_val (dec4 n) = int n" using digits_val_dec_nat [of "int n"] by (simp add: dec4_def Let_def)
qed

text \<open>The digits a chunk carries, padded to 256.\<close>

definition chunk_text :: "string \<Rightarrow> nat \<Rightarrow> string" where
  "chunk_text hx k = (let c = slice (256 * k) (256 * k + 256) hx in c @ replicate (256 - length c) CHR ''0'')"

lemma chunk_line_text: "k < chunk_count hx \<Longrightarrow> chunk_line hx k = ''HATLSC '' @ dec4 k @ '' '' @ chunk_text hx k"
  by (simp add: chunk_line_def chunk_text_def Let_def len_simps)

lemma chunk_text_ok:
  assumes "list_all (\<lambda>c. c \<in> set hex_chars) hx"
  shows "length (chunk_text hx k) = 256" "list_all (\<lambda>c. c \<in> set hex_chars) (chunk_text hx k)"
proof -
  show "length (chunk_text hx k) = 256" by (simp add: chunk_text_def Let_def len_simps)
  have z: "CHR ''0'' \<in> set hex_chars" by (simp add: hex_chars_def)
  have "set (slice i j hx) \<subseteq> set hx" for i j
    using set_take_subset [of "j - i" "drop i hx"] set_drop_subset [of i hx] by (simp add: slice_def)
  then show "list_all (\<lambda>c. c \<in> set hex_chars) (chunk_text hx k)"
    using assms z unfolding chunk_text_def Let_def list_all_iff by fastforce
qed

lemma match_chunk_line:
  assumes "list_all (\<lambda>c. c \<in> set hex_chars) hx" "k < chunk_count hx" "k < 10000"
  shows "match_chunk (chunk_line hx k @ s) = Some (int k, chunk_text hx k, s)"
proof -
  note d = dec4_facts [OF assms(3)] and c = chunk_text_ok [OF assms(1), of k]
  have e: "chunk_line hx k @ s = ''HATLSC '' @ dec4 k @ '' '' @ chunk_text hx k @ s" using chunk_line_text [OF assms(2)] by simp
  have "hex_run 256 (chunk_text hx k @ s) = Some (chunk_text hx k)" using c by (intro hex_run_append)
  then show ?thesis
    unfolding match_chunk_def e after_append using d c after_append [of "'' ''" "chunk_text hx k @ s"] by simp
qed

section \<open>A console\<close>

text \<open>The lines of the probe, each with what the console printed after it.\<close>

definition console :: "(string \<times> string) list \<Rightarrow> string" where
  "console ls = concat (map (\<lambda>(l, n). l @ NL # n) ls)"

lemma console_simps [simp]: "console [] = []" "console ((l, n) # ls) = l @ NL # n @ console ls"
  by (simp_all add: console_def)

text \<open>A line of the probe: what \<open>findall\<close> takes from it does not depend on what follows.\<close>

definition own_line :: "string \<Rightarrow> (int \<times> string) option \<Rightarrow> bool" where
  "own_line l x \<longleftrightarrow> (\<exists>t. l = TAG @ t) \<and> no_tag (tl l) \<and> (\<forall>s. match_chunk (l @ s) = map_option (\<lambda>(k, h). (k, h, s)) x)"

lemma starts_console: "list_all (\<lambda>(l, n). \<exists>t. l = TAG @ t) ls \<Longrightarrow> starts_tagged (console ls)"
  by (cases ls) (auto simp: starts_tagged_def)

lemma tail_no_tag: "no_tag t \<Longrightarrow> no_tag n \<Longrightarrow> no_tag (t @ NL # n)"
  by (rule no_tag_join) (simp_all add: TAG_facts)

lemma search_passes:
  assumes "\<And>s. take 5 s \<noteq> TAG \<Longrightarrow> f s = None" "l = TAG @ t" "no_tag (tl l)" "\<And>s. f (l @ s) = None"
    and "no_tag n" "starts_tagged s"
  shows "search f (l @ NL # n @ s) = search f s"
proof -
  obtain c u where l: "l = c # u" using assms(2) by (cases l) (simp_all add: TAG_facts)
  have "f (c # u @ NL # n @ s) = None" using assms(4) [of "NL # n @ s"] l by simp
  then have "search f (l @ NL # n @ s) = search f ((u @ NL # n) @ s)" using l by simp
  also have "\<dots> = search f s"
    using assms(3,5) l by (intro search_skips [OF assms(1) assms(6)] tail_no_tag) simp_all
  finally show ?thesis .
qed

lemma find_chunks_passes:
  assumes "own_line l x" "no_tag n" "starts_tagged s"
  shows "find_chunks (l @ NL # n @ s) = (case x of None \<Rightarrow> [] | Some y \<Rightarrow> [y]) @ find_chunks s"
proof -
  obtain c u where l: "l = c # u" using assms(1) by (cases l) (auto simp: own_line_def TAG_facts)
  have m: "match_chunk (c # u @ NL # n @ s) = map_option (\<lambda>(k, h). (k, h, NL # n @ s)) x" and u: "no_tag u"
    using assms(1) l unfolding own_line_def by (metis append_Cons, simp)
  show ?thesis
  proof (cases x)
    case None
    have "find_chunks ((u @ NL # n) @ s) = find_chunks s"
      using u assms(2) by (intro find_chunks_skips [OF assms(3)] tail_no_tag)
    then show ?thesis using m None l by simp
  next
    case (Some y)
    have "no_tag (NL # n)" using tail_no_tag [of "[]" n] assms(2) by simp
    then have "find_chunks ((NL # n) @ s) = find_chunks s" by (rule find_chunks_skips [OF assms(3)])
    then show ?thesis using m Some l by (simp add: split_beta)
  qed
qed

lemma find_chunks_console:
  assumes "list_all2 (\<lambda>(l, n) x. own_line l x \<and> no_tag n) ls xs"
  shows "find_chunks (console ls) = concat (map (case_option [] (\<lambda>y. [y])) xs)"
  using assms
proof (induction rule: list_all2_induct)
  case (Cons ln ls x xs)
  obtain l n where ln: "ln = (l, n)" by fastforce
  have "list_all (\<lambda>(l, n). \<exists>t. l = TAG @ t) ls"
    using Cons.hyps(2) by (auto simp: list_all2_conv_all_nth list_all_length own_line_def split_beta)
  from find_chunks_passes [OF _ _ starts_console [OF this], of l x n] Cons ln show ?case by (cases x) auto
qed simp

section \<open>The lines of the probe are such lines\<close>

lemma no_H: "list_all (\<lambda>c. c \<in> set hex_chars) s \<Longrightarrow> list_all (\<lambda>c. c \<noteq> CHR ''H'') s"
proof -
  have "CHR ''H'' \<notin> set hex_chars" by (simp add: hex_chars_def)
  then show "list_all (\<lambda>c. c \<in> set hex_chars) s \<Longrightarrow> list_all (\<lambda>c. c \<noteq> CHR ''H'') s"
    unfolding list_all_iff by blast
qed

lemma digits_no_H: "list_all is_digit s \<Longrightarrow> list_all (\<lambda>c. c \<noteq> CHR ''H'') s"
proof -
  have "\<not> is_digit CHR ''H''" by (simp add: is_digit_def)
  then show "list_all is_digit s \<Longrightarrow> list_all (\<lambda>c. c \<noteq> CHR ''H'') s"
    unfolding list_all_iff by blast
qed

lemma own_chunk:
  assumes "list_all (\<lambda>c. c \<in> set hex_chars) hx" "k < chunk_count hx" "k < 10000"
  shows "own_line (chunk_line hx k) (Some (int k, chunk_text hx k))"
  unfolding own_line_def
proof (intro conjI allI)
  have e: "chunk_line hx k = TAG @ ''C '' @ dec4 k @ '' '' @ chunk_text hx k" using chunk_line_text [OF assms(2)] by (simp add: TAG_facts)
  then show "\<exists>t. chunk_line hx k = TAG @ t" by blast
  have "list_all (\<lambda>c. c \<noteq> CHR ''H'') (tl (chunk_line hx k))"
    using no_H [OF chunk_text_ok(2) [OF assms(1), of k]] digits_no_H [OF dec4_facts(2) [OF assms(3)]] by (simp add: e TAG_facts)
  then show "no_tag (tl (chunk_line hx k))" by (rule no_tag_chars)
  show "match_chunk (chunk_line hx k @ s) = map_option (\<lambda>(k, h). (k, h, s)) (Some (int k, chunk_text hx k))" for s
    using match_chunk_line [OF assms] by simp
qed

lemma own_meta:
  assumes "word_ok name" "word_ok place"
  shows "own_line (meta_line name place payload) None"
  unfolding own_line_def
proof (intro conjI allI)
  have e: "meta_line name place payload = ''HATLSM'' @ ''ETA '' @ name @ '' '' @ place @ '' '' @
      dec_int (int (chunk_count (hex payload))) @ '' '' @ hex (sha256 payload)" by (simp add: meta_line_def)
  then show "\<exists>t. meta_line name place payload = TAG @ t" by (simp add: TAG_facts)
  have h: "no_tag (dec_int (int (chunk_count (hex payload))) @ CHR '' '' # hex (sha256 payload))"
    using no_H [OF hex_is_hex] digits_no_H [OF dec_int_nat(1)] by (intro no_tag_chars) simp
  have sp: "CHR '' '' \<notin> set TAG" by (simp add: TAG_facts)
  have "no_tag (''ATLSMETA'' @ CHR '' '' # name @ CHR '' '' # place @ CHR '' '' # dec_int (int (chunk_count (hex payload))) @ CHR '' '' # hex (sha256 payload))"
    using assms unfolding word_ok_def by (intro no_tag_join h sp) (simp_all add: TAG_facts)
  then show "no_tag (tl (meta_line name place payload))" by (simp add: e)
  show "match_chunk (meta_line name place payload @ s) = map_option (\<lambda>(k, h). (k, h, s)) None" for s
    using other_lines(3) by (simp add: e)
qed

lemma own_ends: "own_line (''HATLSLEN '' @ dec_int (int n)) None" "own_line ''HATLSEND'' None"
proof -
  show "own_line (''HATLSLEN '' @ dec_int (int n)) None"
    unfolding own_line_def
  proof (intro conjI allI)
    show "\<exists>t. ''HATLSLEN '' @ dec_int (int n) = TAG @ t" by (simp add: TAG_facts)
    show "no_tag (tl (''HATLSLEN '' @ dec_int (int n)))"
      using digits_no_H [OF dec_int_nat(1) [of n]] by (intro no_tag_chars) simp
    show "match_chunk ((''HATLSLEN '' @ dec_int (int n)) @ s) = map_option (\<lambda>(k, h). (k, h, s)) None" for s
      using other_lines(4) by simp
  qed
  show "own_line ''HATLSEND'' None"
    unfolding own_line_def
  proof (intro conjI allI)
    show "\<exists>t. ''HATLSEND'' = TAG @ t" by (simp add: TAG_facts)
    show "no_tag (tl ''HATLSEND'')" by (intro no_tag_chars) simp
    show "match_chunk (''HATLSEND'' @ s) = map_option (\<lambda>(k, h). (k, h, s)) None" for s
      using other_lines(5) by simp
  qed
qed

section \<open>What was printed is read back\<close>

lemma probe_payload: "wf_json out \<Longrightarrow> loads_bytes (encode (dumps default_seps out)) = Inr (sort_json out)"
  using loads_dumps_bytes [of "sort_json out"] by (simp add: dumps_bytes_def dumps_def wf_sort_json)

definition all_chunks :: "string \<Rightarrow> (int \<times> string) list" where
  "all_chunks hx = map (\<lambda>k. (int k, chunk_text hx k)) [0..<chunk_count hx]"

lemma chunk_keys:
  assumes "set cs = set (all_chunks hx)"
  shows "length (remdups (map fst cs)) = chunk_count hx"
proof -
  have "set (map fst cs) = int ` {0..<chunk_count hx}"
    using assms by (auto simp: all_chunks_def image_iff)
  then have "card (set (map fst cs)) = chunk_count hx" by (simp add: card_image)
  then show ?thesis by (simp only: length_remdups_card_conv)
qed

lemma map_of_only: "(k, v) \<in> set xs \<Longrightarrow> (\<And>w. (k, w) \<in> set xs \<Longrightarrow> w = v) \<Longrightarrow> map_of xs k = Some v"
  by (metis map_of_SomeD weak_map_of_SomeI)

lemma chunk_join:
  assumes "set cs = set (all_chunks hx)"
  shows "join_chunks cs (int (chunk_count hx)) = Inr (map (chunk_text hx) [0..<chunk_count hx])"
proof -
  have found: "map_of (rev cs) (int i) = Some (chunk_text hx i)" if "i \<in> set [0..<chunk_count hx]" for i
    using that assms by (intro map_of_only) (auto simp: all_chunks_def)
  show ?thesis unfolding join_chunks_def nat_int by (rule py_map_Inr) (simp add: found)
qed

lemma chunks_full: "256 * n \<le> length hx \<Longrightarrow> concat (map (chunk_text hx) [0..<n]) = take (256 * n) hx"
proof (induction n)
  case (Suc n)
  then have "chunk_text hx n = take 256 (drop (256 * n) hx)" by (simp add: chunk_text_def Let_def slice_def)
  with Suc show ?case by (simp add: take_add [of "256 * n" 256 hx, symmetric] add.commute)
qed simp

lemma chunks_join: "take (length hx) (concat (map (chunk_text hx) [0..<chunk_count hx])) = hx"
proof -
  define m where "m = length hx div 256"
  have m: "256 * m \<le> length hx" "length hx < 256 * m + 256" by (simp_all add: m_def)
  show ?thesis
  proof (cases "length hx = 256 * m")
    case True
    then have "chunk_count hx = m" by (simp add: chunk_count_def)
    then show ?thesis using chunks_full [OF m(1)] True by simp
  next
    case False
    define r where "r = length hx mod 256"
    have r: "length hx + 255 = (r + 255) + m * 256" "0 < r" "r < 256"
      using False mult_div_mod_eq [of 256 "length hx"] unfolding r_def m_def by linarith+
    have "(r + 255) div 256 = 1" using r(2,3) by (intro div_nat_eqI) simp_all
    then have "chunk_count hx = Suc m" unfolding chunk_count_def r(1) by simp
    moreover have "chunk_text hx m = drop (256 * m) hx @ replicate (256 - (length hx - 256 * m)) CHR ''0''"
      using m by (simp add: chunk_text_def Let_def slice_def)
    ultimately show ?thesis using chunks_full [OF m(1)] by (simp add: min_absorb2 m(1))
  qed
qed

lemma split_at: "map fst ls = a @ x # c \<Longrightarrow> \<exists>d n b. ls = d @ (x, n) # b \<and> map fst d = a"
  by (auto simp: map_eq_append_conv) blast

lemma console_append: "console (a @ b) = console a @ console b"
  by (simp add: console_def)

definition tagged_line :: "string \<times> string \<Rightarrow> bool" where
  "tagged_line = (\<lambda>(l, n). (\<exists>t. l = TAG @ t) \<and> no_tag (tl l) \<and> no_tag n)"

lemma search_console:
  assumes "\<And>s. take 5 s \<noteq> TAG \<Longrightarrow> f s = None" "starts_tagged s"
  shows "\<forall>x \<in> set ls. tagged_line x \<and> (\<forall>s. f (fst x @ s) = None) \<Longrightarrow>
    search f (console ls @ s) = search f s"
proof (induction ls)
  case (Cons ln ls)
  obtain l n where ln: "ln = (l, n)" by fastforce
  with Cons.prems obtain t where l: "l = TAG @ t" "no_tag (tl l)" and n: "no_tag n" and none: "\<And>s. f (l @ s) = None" by (auto simp: tagged_line_def)
  have "starts_tagged (console ls @ s)" using Cons.prems assms(2) by (cases ls) (auto simp: starts_tagged_def tagged_line_def)
  from search_passes [of f l t n "console ls @ s", OF assms(1) l none n this] Cons ln show ?case by simp
qed simp

abbreviation sent_hex :: "json \<Rightarrow> string" where
  "sent_hex out \<equiv> hex (encode (dumps default_seps out))"

abbreviation first_line :: "string \<Rightarrow> string \<Rightarrow> json \<Rightarrow> string" where
  "first_line name place out \<equiv> meta_line name place (encode (dumps default_seps out))"

abbreviation len_line :: "json \<Rightarrow> string" where
  "len_line out \<equiv> ''HATLSLEN '' @ dec_int (int (length (sent_hex out)))"

text \<open>A line that the console damaged so that no pattern finds anything in it.\<close>

definition lost_line :: "string \<Rightarrow> bool" where
  "lost_line l \<longleftrightarrow> own_line l None \<and> (\<forall>s. match_len (l @ s) = None)"

text \<open>
  What the console holds: text without the tag before the first line and after each, the first line, chunk lines
  of which some are lost and each is intact somewhere, the length and the end.
\<close>

definition received :: "string \<Rightarrow> string \<Rightarrow> json \<Rightarrow> string \<Rightarrow> string list \<Rightarrow> (string \<times> string) list \<Rightarrow> bool" where
  "received name place out n0 mid ls \<longleftrightarrow>
     word_ok name \<and> word_ok place \<and> wf_json out \<and> chunk_count (sent_hex out) \<le> 10000 \<and>
     no_tag n0 \<and> list_all (\<lambda>(l, n). no_tag n) ls \<and> map fst ls = first_line name place out # mid @ [len_line out, ''HATLSEND''] \<and>
     list_all (\<lambda>l. lost_line l \<or> l \<in> set (map (chunk_line (sent_hex out)) [0..<chunk_count (sent_hex out)])) mid \<and>
     list_all (\<lambda>k. chunk_line (sent_hex out) k \<in> set mid) [0..<chunk_count (sent_hex out)]"

definition read_of :: "string \<Rightarrow> (int \<times> string) option" where
  "read_of l = map_option (\<lambda>(k, h, _). (k, h)) (match_chunk l)"

lemma own_read: "own_line l x \<Longrightarrow> own_line l (read_of l) \<and> read_of l = x"
proof -
  assume o: "own_line l x"
  then have "match_chunk l = map_option (\<lambda>(k, h). (k, h, [])) x" unfolding own_line_def by (metis append_Nil2)
  then have "read_of l = x" by (cases x) (auto simp: read_of_def)
  with o show ?thesis by simp
qed

lemma received_mid:
  assumes "received name place out n0 mid ls" "l \<in> set mid"
  shows "lost_line l \<or> (\<exists>k < chunk_count (sent_hex out). l = chunk_line (sent_hex out) k)"
proof -
  have "lost_line l \<or> l \<in> set (map (chunk_line (sent_hex out)) [0..<chunk_count (sent_hex out)])"
    using assms unfolding received_def list_all_iff by blast
  then show ?thesis by auto
qed

lemma received_chunk:
  assumes "received name place out n0 mid ls" "k < chunk_count (sent_hex out)"
  shows "own_line (chunk_line (sent_hex out) k) (Some (int k, chunk_text (sent_hex out) k))"
  using assms by (intro own_chunk [OF hex_is_hex]) (auto simp: received_def)

lemma received_own:
  assumes "received name place out n0 mid ls" "l \<in> fst ` set ls"
  shows "own_line l (read_of l)"
proof -
  have "l \<in> set (map fst ls)" using assms(2) by simp
  then have "l = first_line name place out \<or> l \<in> set mid \<or> l = len_line out \<or> l = ''HATLSEND''"
    using assms(1) unfolding received_def by fastforce
  then have "\<exists>x. own_line l x"
  proof (elim disjE)
    assume "l = first_line name place out"
    then show ?thesis using own_meta [of name place] assms(1) unfolding received_def by blast
  next
    assume "l \<in> set mid"
    from received_mid [OF assms(1) this] show ?thesis
      using received_chunk [OF assms(1)] unfolding lost_line_def by blast
  next
    assume "l = len_line out"
    then show ?thesis using own_ends(1) by blast
  next
    assume "l = ''HATLSEND''"
    then show ?thesis using own_ends(2) by blast
  qed
  then show ?thesis using own_read by blast
qed

lemma received_tagged:
  assumes "received name place out n0 mid ls"
  shows "\<forall>x \<in> set ls. tagged_line x"
proof
  fix x assume x: "x \<in> set ls"
  then have "own_line (fst x) (read_of (fst x))" by (intro received_own [OF assms]) simp
  moreover have "no_tag (snd x)" using x assms unfolding received_def list_all_iff by (simp add: split_beta)
  ultimately show "tagged_line x" by (simp add: own_line_def tagged_line_def split_beta)
qed

lemma received_start: "received name place out n0 mid ls \<Longrightarrow> starts_tagged (console ls)"
  using received_tagged [of name place out n0 mid ls] by (intro starts_console) (auto simp: list_all_iff tagged_line_def)

lemma received_chunks:
  assumes "received name place out n0 mid ls"
  shows "set (find_chunks (n0 @ console ls)) = set (all_chunks (sent_hex out))"
proof -
  let ?xs = "map (read_of \<circ> fst) ls"
  have "list_all2 (\<lambda>(l, n) x. own_line l x \<and> no_tag n) ls ?xs"
    using received_own [OF assms] assms by (auto simp: list_all2_conv_all_nth received_def list_all_length split_beta)
  then have f: "find_chunks (n0 @ console ls) = concat (map (case_option [] (\<lambda>y. [y])) ?xs)"
    using find_chunks_console find_chunks_skips [OF received_start [OF assms]] assms by (simp add: received_def)
  have ends: "read_of (first_line name place out) = None" "read_of (len_line out) = None" "read_of ''HATLSEND'' = None"
    using own_read own_meta own_ends assms unfolding received_def by blast+
  have "set (find_chunks (n0 @ console ls)) = {y. Some y \<in> read_of ` set (map fst ls)}"
    unfolding f by (auto simp: image_iff split: option.splits)
  also have "\<dots> = {y. Some y \<in> read_of ` set mid}"
    using assms ends unfolding received_def by auto
  also have "\<dots> = set (all_chunks (sent_hex out))"
  proof -
    have "read_of (chunk_line (sent_hex out) k) = Some (int k, chunk_text (sent_hex out) k)" if "k < chunk_count (sent_hex out)" for k
      using own_read [OF received_chunk [OF assms that]] by simp
    moreover have "lost_line l \<Longrightarrow> read_of l = None" for l using own_read unfolding lost_line_def by blast
    moreover have "\<forall>k < chunk_count (sent_hex out). chunk_line (sent_hex out) k \<in> set mid"
      using assms by (simp add: received_def list_all_iff)
    ultimately show ?thesis
      using received_mid [OF assms] unfolding all_chunks_def by (auto simp: image_iff) force+
  qed
  finally show ?thesis .
qed

lemma search_first_line:
  assumes "word_ok name" "word_ok place"
  shows "search match_meta (first_line name place out @ s) =
    Some (int (chunk_count (sent_hex out)), hex (sha256 (encode (dumps default_seps out))))"
proof -
  obtain u where u: "first_line name place out = CHR ''H'' # u" by (simp add: meta_line_def)
  show ?thesis using match_meta_line [OF assms, of "encode (dumps default_seps out)" s] unfolding u by simp
qed

lemma received_meta:
  assumes "received name place out n0 mid ls"
  shows "search match_meta (n0 @ console ls) =
    Some (int (chunk_count (sent_hex out)), hex (sha256 (encode (dumps default_seps out))))"
proof -
  obtain n1 ls1 where ls: "ls = (first_line name place out, n1) # ls1" using assms by (cases ls) (auto simp: received_def)
  have "search match_meta (first_line name place out @ NL # n1 @ console ls1) =
      Some (int (chunk_count (sent_hex out)), hex (sha256 (encode (dumps default_seps out))))"
    using assms by (intro search_first_line) (simp_all add: received_def)
  then have "search match_meta (console ls) = Some (int (chunk_count (sent_hex out)), hex (sha256 (encode (dumps default_seps out))))"
    by (simp add: ls)
  then show ?thesis using search_skips [OF untagged(1) received_start [OF assms]] assms by (simp add: received_def)
qed

lemma no_len: "match_len (meta_line name place payload @ s) = None" "match_len (chunk_line hx k @ s) = None"
  using other_lines(1,2) by (simp_all add: meta_line_def chunk_line_def Let_def)

lemma received_len:
  assumes "received name place out n0 mid ls"
  shows "search match_len (n0 @ console ls) = Some (int (length (sent_hex out)))"
proof -
  define l where "l = len_line out"
  have lines: "map fst ls = (first_line name place out # mid) @ l # [''HATLSEND'']"
    using assms by (simp add: received_def l_def)
  obtain a n b where ab: "ls = a @ (l, n) # b" "map fst a = first_line name place out # mid"
    using split_at [OF lines] by (elim exE conjE) (rule that)
  have "match_len (x @ s) = None" if "x \<in> set (map fst a)" for x s
    using that received_mid [OF assms, of x] no_len unfolding ab(2) lost_line_def by auto
  then have "\<forall>x \<in> set a. tagged_line x \<and> (\<forall>s. match_len (fst x @ s) = None)"
    using received_tagged [OF assms] unfolding ab(1) by (simp add: list_all_iff)
  moreover have "starts_tagged (console ((l, n) # b))" by (simp add: l_def starts_tagged_def TAG_facts)
  ultimately have "search match_len (console ls) = search match_len (l @ NL # n @ console b)"
    using search_console [OF untagged(2)] by (simp add: ab(1) console_append)
  also have "\<dots> = Some (int (length (sent_hex out)))"
    using match_len_line [of "length (sent_hex out)" "n @ console b"] by (simp add: l_def)
  finally show ?thesis using search_skips [OF untagged(2) received_start [OF assms]] assms by (simp add: received_def)
qed

lemma reassemble_gaps:
  assumes "received name place out n0 mid ls"
  shows "reassemble (n0 @ console ls) = Inr (Some (sort_json out))"
proof -
  note cs = received_chunks [OF assms]
  have "wf_json out" using assms by (simp add: received_def)
  then show ?thesis
    unfolding reassemble_def received_meta [OF assms] received_len [OF assms]
    by (simp add: chunk_keys [OF cs] chunk_join [OF cs] chunks_join probe_payload Let_def)
qed

text \<open>What a probe prints is received when nothing is lost.\<close>

lemma probe_received:
  assumes "word_ok name" "word_ok place" "wf_json out" "chunk_count (sent_hex out) \<le> 10000" "0 < p" "no_tag n0"
    and "map fst ls = probe_lines p name place out" "list_all (\<lambda>(l, n). no_tag n) ls"
  shows "received name place out n0 (concat (replicate p (map (chunk_line (sent_hex out)) [0..<chunk_count (sent_hex out)]))) ls"
proof -
  have "set (concat (replicate p xs)) = set xs" for xs :: "string list" using assms(5) by (induction p) auto
  then show ?thesis using assms by (simp add: received_def probe_lines_def Let_def list_all_iff del: set_concat)
qed

text \<open>A chunk line into which the console wrote a character of its own.\<close>

lemma cut_line_lost:
  assumes "k < 10000" "list_all (\<lambda>c. c \<in> set hex_chars) a" "length a < 256" "x \<notin> set hex_chars" "x \<notin> set TAG" "no_tag b"
  shows "lost_line (''HATLSC '' @ dec4 k @ '' '' @ a @ x # b)" (is "lost_line ?l")
  unfolding lost_line_def own_line_def
proof (intro conjI allI)
  show "\<exists>t. ?l = TAG @ t" by (simp add: TAG_facts)
  have "no_tag (tl (''HATLSC '' @ dec4 k @ '' '' @ a))"
    using no_H [OF assms(2)] digits_no_H [OF dec4_facts(2) [OF assms(1)]] by (intro no_tag_chars) simp
  moreover have "tl ?l = tl (''HATLSC '' @ dec4 k @ '' '' @ a) @ x # b" by simp
  ultimately show "no_tag (tl ?l)" using no_tag_join [OF _ assms(6,5)] by (simp only:)
  have "\<not> list_all (\<lambda>c. c \<in> set hex_chars) (take 256 (a @ x # b @ s))" for s
    using assms(3,4) by (simp add: take_Cons')
  then have "hex_run 256 (a @ x # b @ s) = None" for s by (simp add: hex_run_def)
  then show "match_chunk (?l @ s) = map_option (\<lambda>(k, h). (k, h, s)) None" for s
    unfolding match_chunk_def using dec4_facts [OF assms(1)] after_append [of "''HATLSC ''" "dec4 k @ '' '' @ a @ x # b @ s"]
      after_append [of "'' ''" "a @ x # b @ s"] by simp
  show "match_len (?l @ s) = None" for s using other_lines(2) by simp
qed

section \<open>A damaged console\<close>

lemma py_map_Inl: "py_map f xs = Inl e \<Longrightarrow> \<exists>x \<in> set xs. f x = Inl e"
proof (induction xs)
  case (Cons x xs)
  then show ?case by (cases "f x"; cases "py_map f xs") auto
qed simp

lemma join_chunks_error: "join_chunks cs want = Inl e \<Longrightarrow> \<exists>i. e = KeyError i"
  unfolding join_chunks_def by (drule py_map_Inl) (auto split: option.splits)

text \<open>The numbers of the chunks a console shows, and the bytes its chunks and its length give.\<close>

definition chunk_numbers :: "string \<Rightarrow> int set" where
  "chunk_numbers t = fst ` set (find_chunks t)"

definition console_payload :: "string \<Rightarrow> nat \<Rightarrow> bytes \<Rightarrow> bool" where
  "console_payload t n p \<longleftrightarrow> (\<exists>hexlen hs. search match_len t = Some hexlen \<and> join_chunks (find_chunks t) (int n) = Inr hs
     \<and> fromhex (take (nat hexlen) (concat hs)) = Inr p)"

lemma join_missing:
  assumes "join_chunks cs (int n) = Inl e" "length (remdups (map fst cs)) = n" "\<And>k h. (k, h) \<in> set cs \<Longrightarrow> 0 \<le> k"
  shows "\<exists>i j. e = KeyError (dec_int (int i)) \<and> i < n \<and> int i \<notin> fst ` set cs \<and> j \<in> fst ` set cs \<and> int n \<le> j"
proof -
  obtain i where i: "i < n" "map_of (rev cs) (int i) = None" "e = KeyError (dec_int (int i))"
    using py_map_Inl [OF assms(1) [unfolded join_chunks_def]] by (auto split: option.splits)
  then have no: "int i \<notin> fst ` set cs" by (auto simp: map_of_eq_None_iff)
  have "\<exists>j \<in> fst ` set cs. int n \<le> j"
  proof (rule ccontr)
    assume small: "\<not> ?thesis"
    have "fst ` set cs \<subseteq> int ` {0..<n} - {int i}"
    proof
      fix j assume j: "j \<in> fst ` set cs"
      then have "0 \<le> j" "j < int n" using small assms(3) by auto
      then have "j = int (nat j)" "nat j < n" by auto
      then have "j \<in> int ` {0..<n}" by (metis atLeastLessThan_iff imageI le0)
      moreover have "j \<noteq> int i" using j no by blast
      ultimately show "j \<in> int ` {0..<n} - {int i}" by simp
    qed
    then have "card (fst ` set cs) \<le> card (int ` {0..<n} - {int i})" by (intro card_mono) auto
    also have "\<dots> < n" using i(1) by (simp add: card_Diff_singleton card_image)
    finally show False using assms(2) by (simp add: length_remdups_card_conv)
  qed
  with i no show ?thesis by blast
qed

lemma digits_val_nonneg: "list_all is_digit s \<Longrightarrow> 0 \<le> digits_val s"
proof -
  have d: "0 \<le> (of_char c :: int) - 48" if "is_digit c" for c
  proof -
    have "48 \<le> (of_char c :: nat)" using that by (simp add: is_digit_def Let_def)
    then have "int 48 \<le> int (of_char c)" by (rule iffD2 [OF of_nat_le_iff])
    then show ?thesis unfolding of_nat_of_char by simp
  qed
  have "list_all is_digit s \<Longrightarrow> 0 \<le> a \<Longrightarrow> 0 \<le> foldl (\<lambda>a c. 10 * a + (of_char c - 48)) a s" for a :: int
  proof (induction s arbitrary: a)
    case (Cons c s)
    then have "0 \<le> 10 * a + (of_char c - 48)" using d [of c] by (metis add_nonneg_nonneg list.pred_inject(2) zero_le_mult_iff zero_le_numeral)
    with Cons show ?case by simp
  qed simp
  then show "list_all is_digit s \<Longrightarrow> 0 \<le> digits_val s" by (simp add: digits_val_def)
qed

lemma chunk_number_nonneg: "(k, h) \<in> set (find_chunks t) \<Longrightarrow> 0 \<le> k"
proof (induction t rule: find_chunks.induct)
  case (2 c s)
  have "0 \<le> n" if "match_chunk (c # s) = Some (n, x, r)" for n x r
    using that digits_val_nonneg by (auto simp: match_chunk_def bind_eq_Some_conv split: if_splits)
  with 2 show ?case by (auto split: option.splits)
qed simp

text \<open>\<open>reassemble\<close> on a console whose first line is intact.\<close>

lemma reassemble_first_line:
  assumes "word_ok name" "word_ok place" "no_tag n0" and t: "t = n0 @ first_line name place out @ rest"
  shows "reassemble t = (case search match_len t of None \<Rightarrow> Inr None | Some hexlen \<Rightarrow>
      if length (remdups (map fst (find_chunks t))) \<noteq> chunk_count (sent_hex out) then Inr None
      else py_bind (join_chunks (find_chunks t) (int (chunk_count (sent_hex out)))) (\<lambda>hs.
        case fromhex (take (nat hexlen) (concat hs)) of
          Inl _ \<Rightarrow> Inr None
        | Inr payload \<Rightarrow> if sha256 payload \<noteq> sha256 (encode (dumps default_seps out)) then Inr None
            else py_bind (loads_bytes payload) (\<lambda>j. Inr (Some j))))"
proof -
  have "starts_tagged (first_line name place out @ rest)" by (simp add: meta_line_def starts_tagged_def TAG_facts)
  then have m: "search match_meta t = Some (int (chunk_count (sent_hex out)), hex (sha256 (encode (dumps default_seps out))))"
    unfolding t using search_skips [OF untagged(1) _ assms(3)] search_first_line [OF assms(1,2)] by simp
  show ?thesis unfolding reassemble_def m prod.case option.case hex_inj by (cases "search match_len t") (simp_all add: Let_def)
qed

text \<open>
  Whatever follows an intact first line: nothing, the value that was sent, the exception of a missing number where a
  number out of range stands, or the value of another payload that the console holds and that has the digest of the first.
\<close>

lemma reassemble_damaged:
  assumes "word_ok name" "word_ok place" "wf_json out" "no_tag n0" and t: "t = n0 @ first_line name place out @ rest"
    and q: "q = encode (dumps default_seps out)" and n: "n = chunk_count (hex q)"
  shows "reassemble t = Inr None \<or> reassemble t = Inr (Some (sort_json out))
    \<or> (\<exists>i j. reassemble t = Inl (KeyError (dec_int (int i))) \<and> i < n \<and> int i \<notin> chunk_numbers t \<and> j \<in> chunk_numbers t \<and> int n \<le> j)
    \<or> (\<exists>p. console_payload t n p \<and> p \<noteq> q \<and> sha256 p = sha256 q \<and> reassemble t = py_bind (loads_bytes p) (\<lambda>j. Inr (Some j)))"
proof -
  note e = reassemble_first_line [OF assms(1,2,4) t, folded q, folded n]
  show ?thesis
  proof (cases "search match_len t = None \<or> length (remdups (map fst (find_chunks t))) \<noteq> n")
    case True
    then show ?thesis using e by (auto split: option.splits)
  next
    case False
    then obtain hexlen where l: "search match_len t = Some hexlen" and c: "length (remdups (map fst (find_chunks t))) = n" by auto
    show ?thesis
    proof (cases "join_chunks (find_chunks t) (int n)")
      case (Inl x)
      then have "reassemble t = Inl x" using e l c by simp
      with join_missing [OF Inl c chunk_number_nonneg] show ?thesis by (auto simp: chunk_numbers_def)
    next
      case (Inr hs)
      show ?thesis
      proof (cases "fromhex (take (nat hexlen) (concat hs))")
        case f: (Inr p)
        have cp: "console_payload t n p" using l Inr f by (simp add: console_payload_def)
        have r: "reassemble t = (if sha256 p \<noteq> sha256 q then Inr None else py_bind (loads_bytes p) (\<lambda>j. Inr (Some j)))"
          using e l c Inr f by simp
        show ?thesis
        proof (cases "p = q")
          case True
          then show ?thesis using r probe_payload [OF assms(3)] by (simp add: q)
        next
          case False
          with cp r show ?thesis by (cases "sha256 p = sha256 q") auto
        qed
      qed (use e l c Inr in simp)
    qed
  qed
qed

text \<open>A damaged number: what was chunk 0 of a payload of one chunk came as chunk 1.\<close>

definition renumbered :: string where
  "renumbered = ''boot '' @ first_line ''i-1'' ''z'' (JObj []) @ NL # console [(chunk_line (replicate 257 CHR ''0'') 1, []), (''HATLSLEN 4'', [])]"

lemma renumbered_reads:
  "find_chunks renumbered = [(1, chunk_text (replicate 257 CHR ''0'') 1)]" "search match_len renumbered = Some 4"
proof -
  let ?hx = "replicate 257 CHR ''0''" and ?m = "first_line ''i-1'' ''z'' (JObj [])"
  let ?ls = "[(?m, []), (chunk_line ?hx 1, []), (''HATLSLEN 4'', [])]"
  have w: "word_ok ''i-1''" "word_ok ''z''" and b: "no_tag ''boot ''" by code_simp+
  have hx: "list_all (\<lambda>c. c \<in> set hex_chars) ?hx" "1 < chunk_count ?hx" by (simp_all add: list_all_iff hex_chars_def chunk_count_def)
  have L: "''HATLSLEN 4'' = ''HATLSLEN '' @ dec_int (int 4)" by code_simp
  have o: "own_line ?m None" "own_line (chunk_line ?hx 1) (Some (1, chunk_text ?hx 1))" "own_line ''HATLSLEN 4'' None"
    using own_meta [OF w] own_chunk [OF hx] own_ends(1) [of 4] unfolding L by simp_all
  have t: "renumbered = ''boot '' @ console ?ls" by (simp add: renumbered_def)
  have tg: "\<exists>t. ?m = TAG @ t" "\<exists>t. chunk_line ?hx 1 = TAG @ t" "\<exists>t. ''HATLSLEN 4'' = TAG @ t"
    using o unfolding own_line_def by blast+
  have st: "starts_tagged (console ?ls)" "starts_tagged (console (tl ?ls))" "starts_tagged (console (tl (tl ?ls)))"
    by (rule starts_console, simp only: list.pred_inject list.sel prod.case tg)+
  show "find_chunks renumbered = [(1, chunk_text ?hx 1)]"
    unfolding t find_chunks_skips [OF st(1) b] using o find_chunks_console [of ?ls "[None, Some (1, chunk_text ?hx 1), None]"] by simp
  have p: "search match_len (l @ NL # [] @ s) = search match_len s"
    if h: "own_line l x" "\<And>s. match_len (l @ s) = None" "starts_tagged s" for l x s
  proof -
    obtain u where "l = TAG @ u" using h(1) by (auto simp: own_line_def)
    then show ?thesis using h by (intro search_passes [OF untagged(2)]) (simp_all add: own_line_def)
  qed
  have "search match_len renumbered = search match_len (console ?ls)"
    unfolding t by (rule search_skips [OF untagged(2) st(1) b])
  also have "\<dots> = search match_len (console (tl ?ls))"
    using p [OF o(1) no_len(1) st(2)] by (simp only: console_simps list.sel)
  also have "\<dots> = search match_len (console (tl (tl ?ls)))"
    using p [OF o(2) no_len(2) st(3)] by (simp only: console_simps list.sel)
  also have "\<dots> = search match_len (''HATLSLEN 4'' @ NL # [])" by (simp only: console_simps list.sel append_Nil)
  also have "\<dots> = Some 4" by code_simp
  finally show "search match_len renumbered = Some 4" .
qed

lemma renumbered_raises: "reassemble renumbered = Inl (KeyError ''0'')" "chunk_count (sent_hex (JObj [])) = 1" "\<not> console_payload renumbered 1 p"
proof -
  have w: "word_ok ''i-1''" "word_ok ''z''" "no_tag ''boot ''" by code_simp+
  have n: "chunk_count (sent_hex (JObj [])) = 1" by code_simp
  have j: "join_chunks [(1, x)] (int 1) = Inl (KeyError ''0'')" for x by (simp add: join_chunks_def) code_simp
  from reassemble_first_line [OF w renumbered_def] show "reassemble renumbered = Inl (KeyError ''0'')"
    unfolding renumbered_reads n using j by simp
  show "chunk_count (sent_hex (JObj [])) = 1" by (rule n)
  show "\<not> console_payload renumbered 1 p" using j [of "chunk_text (replicate 257 CHR ''0'') 1"] by (simp add: console_payload_def renumbered_reads)
qed

lemma damaged_number_raises:
  "reassemble (''HATLSMETA i z 1 '' @ replicate 64 CHR ''0'' @ '' HATLSC 0001 '' @ replicate 256 CHR ''0'' @ '' HATLSLEN 256'') = Inl (KeyError ''0'')"
  by code_simp

end
