(* ===== verification/Anchor_Probe.thy ===== *)
theory Anchor_Probe
  imports Serial_Console Guest_Probe
begin

text \<open>
  The probes that \<open>examples/aws_anchor_run.py\<close> and \<open>examples/azure_anchor_run.py\<close> start in a guest: their own copy of
  the chain link, the report with the host's certificate table, the leaf certificate found in the table, and the
  value they print. The device, the instance's name and zone, the kernel's version line and \<open>repr\<close> of an exception
  are parameters. The AWS probe carries the prefix \<open>aw_\<close>, the Azure probe \<open>az_\<close>.

  Facts: the copies agree with the library, and the leaf is the one of the table the scripts' reader finds.
\<close>

section \<open>The link\<close>

function aw_hkdf_loop :: "bytes \<Rightarrow> bytes \<Rightarrow> nat \<Rightarrow> bytes \<Rightarrow> bytes \<Rightarrow> nat \<Rightarrow> bytes py" where
  "aw_hkdf_loop secret info n out t i =
     (if length out < n then
        (if i < 256 then
           (let t' = hmac SHA384 secret (t @ info @ [of_nat i]) in aw_hkdf_loop secret info n (out @ t') t' (i + 1))
         else Inl (ValueError ''bytes must be in range(0, 256)''))
      else Inr (take n out))"
  by pat_completeness auto
termination by (relation "measure (\<lambda>(s, info, n, out, t, i). 256 - i)") auto

declare aw_hkdf_loop.simps [simp del]

definition aw_hkdf_expand_label :: "bytes \<Rightarrow> bytes \<Rightarrow> bytes \<Rightarrow> nat \<Rightarrow> bytes py" where
  "aw_hkdf_expand_label secret label ctx n =
     (let full = lit ''EXPERIMENTAL-hatls '' @ label in
      py_bind (to_bytes 2 (int n)) (\<lambda>nb.
      py_bind (one_byte (length full)) (\<lambda>lf.
      py_bind (one_byte (length ctx)) (\<lambda>lc.
        aw_hkdf_loop secret (nb @ lf @ full @ lc @ ctx) n [] [] 1))))"

definition aw_intra :: "bytes \<Rightarrow> bytes \<Rightarrow> bytes py" where
  "aw_intra th tik =
     py_bind (aw_hkdf_expand_label (zeros 48) (lit ''attestation base'') th 48) (\<lambda>base.
       aw_hkdf_expand_label base (lit ''attestation'') (sha384 tik) 32)"

definition aw_post :: "bytes \<Rightarrow> bytes \<Rightarrow> int \<Rightarrow> bytes py" where
  "aw_post ex prev counter =
     py_bind (to_bytes 8 counter) (\<lambda>c. aw_hkdf_expand_label ex (lit ''continuity'') (prev @ c) 32)"

text \<open>The Azure probe.\<close>

function az_hkdf_loop :: "bytes \<Rightarrow> bytes \<Rightarrow> nat \<Rightarrow> bytes \<Rightarrow> bytes \<Rightarrow> nat \<Rightarrow> bytes py" where
  "az_hkdf_loop secret info n out t i =
     (if length out < n then
        (if i < 256 then
           (let t' = hmac SHA384 secret (t @ info @ [of_nat i]) in az_hkdf_loop secret info n (out @ t') t' (i + 1))
         else Inl (ValueError ''bytes must be in range(0, 256)''))
      else Inr (take n out))"
  by pat_completeness auto
termination by (relation "measure (\<lambda>(s, info, n, out, t, i). 256 - i)") auto

declare az_hkdf_loop.simps [simp del]

definition az_hkdf_expand_label :: "bytes \<Rightarrow> bytes \<Rightarrow> bytes \<Rightarrow> nat \<Rightarrow> bytes py" where
  "az_hkdf_expand_label secret label ctx n =
     (let full = lit ''EXPERIMENTAL-hatls '' @ label in
      py_bind (to_bytes 2 (int n)) (\<lambda>nb.
      py_bind (one_byte (length full)) (\<lambda>lf.
      py_bind (one_byte (length ctx)) (\<lambda>lc.
        az_hkdf_loop secret (nb @ lf @ full @ lc @ ctx) n [] [] 1))))"

definition az_intra :: "bytes \<Rightarrow> bytes \<Rightarrow> bytes py" where
  "az_intra th tik =
     py_bind (az_hkdf_expand_label (zeros 48) (lit ''attestation base'') th 48) (\<lambda>base.
       az_hkdf_expand_label base (lit ''attestation'') (sha384 tik) 32)"

definition az_post :: "bytes \<Rightarrow> bytes \<Rightarrow> int \<Rightarrow> bytes py" where
  "az_post ex prev counter =
     py_bind (to_bytes 8 counter) (\<lambda>c. az_hkdf_expand_label ex (lit ''continuity'') (prev @ c) 32)"

section \<open>The device\<close>

text \<open>
  The two calls of \<open>/dev/sev-guest\<close>, by the number of the call: status, size and report, and for the extended one the
  length of the certificates and the buffer; the buffer's length is an argument, 0 for the null address.
\<close>

record sev_device =
  dev_report :: "nat \<Rightarrow> bytes \<Rightarrow> (nat \<times> nat \<times> bytes) py"
  dev_ext :: "nat \<Rightarrow> bytes \<Rightarrow> nat \<Rightarrow> (nat \<times> nat \<times> bytes \<times> nat \<times> bytes) py"

definition aw_snp :: "sev_device \<Rightarrow> nat \<Rightarrow> bytes \<Rightarrow> bytes py" where
  "aw_snp D j user_data = py_bind (dev_report D j (take 64 user_data)) (\<lambda>(status, size, report).
     if status \<noteq> 0 \<or> size \<noteq> 1184 then Inl (RuntimeError (''fw '' @ dec_int (int status))) else Inr (take 1184 report))"

definition ext_len :: "nat \<Rightarrow> nat" where
  "ext_len buflen = (let b = min (max buflen 4096) 16384 in b - b mod 4096)"

definition aw_snp_ext :: "sev_device \<Rightarrow> nat \<Rightarrow> bytes \<Rightarrow> nat \<Rightarrow> (bytes \<times> bytes) py" where
  "aw_snp_ext D j user_data buflen = (let n = ext_len buflen in
     py_bind (dev_ext D j (take 64 user_data) n) (\<lambda>(status, size, report, clen, buf).
       if status \<noteq> 0 \<or> size \<noteq> 1184 then Inl (RuntimeError (''fw '' @ dec_int (int status)))
       else Inr (take 1184 report, take (min clen n) buf)))"

definition aw_snp_ext_size :: "sev_device \<Rightarrow> nat \<Rightarrow> bytes \<Rightarrow> nat py" where
  "aw_snp_ext_size D j user_data = py_bind (dev_ext D j (take 64 user_data) 0) (\<lambda>(_, _, _, clen, _). Inr clen)"

text \<open>The Azure probe.\<close>

definition az_snp :: "sev_device \<Rightarrow> nat \<Rightarrow> bytes \<Rightarrow> bytes py" where
  "az_snp D j user_data = py_bind (dev_report D j (take 64 user_data)) (\<lambda>(status, size, report).
     if status \<noteq> 0 \<or> size \<noteq> 1184 then Inl (RuntimeError (''fw '' @ dec_int (int status))) else Inr (take 1184 report))"

definition az_snp_ext :: "sev_device \<Rightarrow> nat \<Rightarrow> bytes \<Rightarrow> nat \<Rightarrow> (bytes \<times> bytes) py" where
  "az_snp_ext D j user_data buflen = (let n = ext_len buflen in
     py_bind (dev_ext D j (take 64 user_data) n) (\<lambda>(status, size, report, clen, buf).
       if status \<noteq> 0 \<or> size \<noteq> 1184 then Inl (RuntimeError (''fw '' @ dec_int (int status)))
       else Inr (take 1184 report, take (min clen n) buf)))"

section \<open>The certificate table\<close>

definition VLEK_GUID :: string where
  "VLEK_GUID = ''c24b07a85aa23e48aae639c045a0b8a1''"

text \<open>One entry: the GUID, where the certificate starts and how long it is.\<close>

definition table_entry :: "bytes \<Rightarrow> nat \<Rightarrow> bytes \<times> nat \<times> nat" where
  "table_entry blob off = (slice off (off + 16) blob, nat (from_le (slice (off + 16) (off + 20) blob)),
     nat (from_le (slice (off + 20) (off + 24) blob)))"

function pick_loop :: "bytes \<Rightarrow> nat \<Rightarrow> string list \<Rightarrow> bytes \<Rightarrow> bytes \<times> string list" where
  "pick_loop blob off ivs leaf =
     (if off + 24 \<le> length blob then
        (case table_entry blob off of (guid, p, l) \<Rightarrow>
         if guid = zeros 16 then (leaf, ivs)
         else if l \<noteq> 0 \<and> p + l \<le> length blob
         then pick_loop blob (off + 24) (ivs @ [take 8 (hex guid) @ '':'' @ dec_int (int l)])
                (if hex guid = VLEK_GUID then slice p (p + l) blob else leaf)
         else pick_loop blob (off + 24) ivs leaf)
      else (leaf, ivs))"
  by pat_completeness auto
termination by (relation "measure (\<lambda>(b, off, i, l). length b - off)") auto

declare pick_loop.simps [simp del]

text \<open>Without a VLEK entry: the first entry shaped like a DER certificate.\<close>

function first_der :: "bytes \<Rightarrow> nat \<Rightarrow> bytes" where
  "first_der blob off =
     (if off + 24 \<le> length blob then
        (case table_entry blob off of (guid, p, l) \<Rightarrow>
         if guid = zeros 16 then []
         else if l \<noteq> 0 \<and> p + l \<le> length blob \<and> slice p (p + 1) blob = [0x30] \<and> 600 < l \<and> l < 3000
         then slice p (p + l) blob
         else first_der blob (off + 24))
      else [])"
  by pat_completeness auto
termination by (relation "measure (\<lambda>(b, off). length b - off)") auto

declare first_der.simps [simp del]

definition aw_pick_leaf :: "bytes \<Rightarrow> bytes \<times> string list" where
  "aw_pick_leaf blob = (case pick_loop blob 0 [] [] of (leaf, ivs) \<Rightarrow>
     ((if leaf = [] then first_der blob 0 else leaf), ivs))"

definition az_pick_leaf :: "bytes \<Rightarrow> bytes \<times> string list" where
  "az_pick_leaf blob = pick_loop blob 0 [] []"

text \<open>The reader of the table on the verifier's side.\<close>

function table_loop :: "bytes \<Rightarrow> nat \<Rightarrow> (string \<times> bytes) list" where
  "table_loop blob off =
     (if off + 24 \<le> length blob then
        (case table_entry blob off of (guid, p, l) \<Rightarrow>
         if guid = zeros 16 then []
         else (if l \<noteq> 0 \<and> p + l \<le> length blob then [(hex guid, slice p (p + l) blob)] else []) @ table_loop blob (off + 24))
      else [])"
  by pat_completeness auto
termination by (relation "measure (\<lambda>(b, off). length b - off)") auto

declare table_loop.simps [simp del]

definition certs_from_table :: "bytes \<Rightarrow> (string \<times> bytes) list" where
  "certs_from_table blob = table_loop blob 0"

section \<open>The enrolment report\<close>

text \<open>The report, the certificates and the notes; \<open>rp\<close> is \<open>repr\<close> of an exception.\<close>

definition aw_plain :: "sev_device \<Rightarrow> (exn \<Rightarrow> string) \<Rightarrow> bytes \<Rightarrow> string list \<Rightarrow> exn \<Rightarrow> (bytes \<times> bytes \<times> string list) py" where
  "aw_plain D rp rd notes e2 =
     py_bind (aw_snp D 0 rd) (\<lambda>rep. Inr (rep, [], notes @ [''ext two-step failed: '' @ rp e2]))"

definition aw_enrol_report :: "sev_device \<Rightarrow> (exn \<Rightarrow> string) \<Rightarrow> bytes \<Rightarrow> (bytes \<times> bytes \<times> string list) py" where
  "aw_enrol_report D rp rd = (case aw_snp_ext D 0 rd 16384 of
     Inr (rep, certs) \<Rightarrow> Inr (rep, certs, [''ext direct ok len='' @ dec_int (int (length certs))])
   | Inl e \<Rightarrow> (let notes = [''ext direct failed: '' @ rp e] in
       case aw_snp_ext_size D 1 rd of
         Inl e2 \<Rightarrow> aw_plain D rp rd notes e2
       | Inr wanted \<Rightarrow> (let notes' = notes @ [''kernel asked for '' @ dec_int (int wanted) @ '' bytes''] in
           case aw_snp_ext D 2 rd wanted of
             Inl e2 \<Rightarrow> aw_plain D rp rd notes' e2
           | Inr (rep, certs) \<Rightarrow> Inr (rep, certs, notes' @ [''ext two-step ok len='' @ dec_int (int (length certs))]))))"

definition az_enrol_report :: "sev_device \<Rightarrow> (exn \<Rightarrow> string) \<Rightarrow> bytes \<Rightarrow> (bytes \<times> bytes \<times> string list) py" where
  "az_enrol_report D rp rd = (case az_snp_ext D 0 rd 16384 of
     Inr (rep, certs) \<Rightarrow> Inr (rep, certs, [''ext ok certs='' @ dec_int (int (length certs))])
   | Inl e \<Rightarrow> py_bind (az_snp D 0 rd) (\<lambda>rep. Inr (rep, [], [''ext failed: '' @ rp e])))"

section \<open>What the probe prints\<close>

text \<open>What the script writes into the probe, and what the guest has of its own.\<close>

record probe_args =
  pa_nonce :: bytes
  pa_csr :: bytes
  pa_exporter :: bytes
  pa_sctx :: bytes
  pa_tik :: bytes

record guest =
  gs_name :: string
  gs_zone :: string
  gs_device :: sev_device
  gs_repr :: "exn \<Rightarrow> string"
  gs_kernel :: "string list"
    \<comment> \<open>the note on the kernel's version, absent where \<open>/proc/version\<close> could not be read\<close>

fun comma_join :: "string list \<Rightarrow> string" where
  "comma_join [] = []"
| "comma_join [s] = s"
| "comma_join (s # t # r) = s @ '','' @ comma_join (t # r)"

definition table_note :: "string \<Rightarrow> string list \<Rightarrow> bytes \<Rightarrow> string" where
  "table_note intro ivs leaf = intro @ (if ivs = [] then ''none'' else comma_join ivs) @ ''; leaf '' @ dec_int (int (length leaf))"

definition cont_preimage :: "bytes \<Rightarrow> bytes" where
  "cont_preimage pl = sha512 (lit ''HATLS-continuity-v0'' @ pl)"

definition aw_out :: "guest \<Rightarrow> probe_args \<Rightarrow> json py" where
  "aw_out G A =
     py_bind (py_bind (aw_intra (pa_sctx A) (pa_tik A)) (\<lambda>il. aw_post (pa_exporter A) il 0)) (\<lambda>pl.
     py_bind (aw_enrol_report (gs_device G) (gs_repr G) (sha512 (pa_nonce A @ pa_csr A))) (\<lambda>(rep, certs, notes).
       (case aw_pick_leaf certs of (leaf, ivs) \<Rightarrow>
        py_bind (aw_snp (gs_device G) 1 (cont_preimage pl)) (\<lambda>step.
          Inr (JObj [(''instance'', JStr (gs_name G)), (''az'', JStr (gs_zone G)), (''enrol'', JStr (b64encode rep)),
            (''leaf'', JStr (hex leaf)), (''table'', JList (map JStr ivs)),
            (''notes'', JList (map JStr (notes @ gs_kernel G @ [table_note ''table entries '' ivs leaf @ '' bytes'']))),
            (''post_link'', JStr (hex pl)), (''step'', JStr (b64encode step))])))))"

definition az_out :: "guest \<Rightarrow> probe_args \<Rightarrow> json py" where
  "az_out G A =
     py_bind (az_enrol_report (gs_device G) (gs_repr G) (sha512 (pa_nonce A @ pa_csr A))) (\<lambda>(rep, certs, notes).
       (case az_pick_leaf certs of (leaf, ivs) \<Rightarrow>
        py_bind (py_bind (az_intra (pa_sctx A) (pa_tik A)) (\<lambda>il. az_post (pa_exporter A) il 0)) (\<lambda>pl.
        py_bind (az_snp (gs_device G) 1 (cont_preimage pl)) (\<lambda>step.
          Inr (JObj [(''host'', JStr (gs_name G)), (''enrol'', JStr (b64encode rep)),
            (''leaf'', JStr (hex leaf)), (''post_link'', JStr (hex pl)),
            (''notes'', JList (map JStr (notes @ gs_kernel G @ [table_note ''table '' ivs leaf]))),
            (''step'', JStr (b64encode step))])))))"

text \<open>Azure prints the payload twice.\<close>

definition aw_print :: "guest \<Rightarrow> json \<Rightarrow> string list" where
  "aw_print G out = probe_lines 1 (gs_name G) (gs_zone G) out"

definition az_print :: "guest \<Rightarrow> json \<Rightarrow> string list" where
  "az_print G out = probe_lines 2 (gs_name G) ''azure'' out"

section \<open>Agreement with the library\<close>

lemma aw_hkdf_loop_eq: "aw_hkdf_loop s info n out t i = hkdf_loop SHA384 s info n out t i"
proof (induction s info n out t i rule: aw_hkdf_loop.induct)
  case (1 s info n out t i)
  then show ?case by (subst aw_hkdf_loop.simps, subst hkdf_loop.simps) (simp add: Let_def)
qed

lemma aw_hkdf_expand_label_eq: "aw_hkdf_expand_label s l c n = hkdf_expand_label s l c n SHA384"
  by (simp add: aw_hkdf_expand_label_def hkdf_expand_label_def hkdf_info_def hkdf_expand_def aw_hkdf_loop_eq py_bind_assoc Let_def)

lemma aw_links_eq: "aw_intra = intra_link" "aw_post = post_link" "cont_preimage pl = report_data_for pl None"
  by (auto simp: fun_eq_iff aw_intra_def intra_link_def aw_post_def post_link_def aw_hkdf_expand_label_eq
      cont_preimage_def report_data_for_def report_preimage_def)

lemma az_hkdf_loop_eq: "az_hkdf_loop s info n out t i = aw_hkdf_loop s info n out t i"
proof (induction s info n out t i rule: az_hkdf_loop.induct)
  case (1 s info n out t i)
  then show ?case by (subst az_hkdf_loop.simps, subst aw_hkdf_loop.simps) (simp add: Let_def)
qed

text \<open>The two probes share their text.\<close>

lemma az_aw [simp]: "az_intra = aw_intra" "az_post = aw_post" "az_snp = aw_snp" "az_snp_ext = aw_snp_ext"
proof -
  have "az_hkdf_expand_label = aw_hkdf_expand_label"
    by (simp add: fun_eq_iff az_hkdf_expand_label_def aw_hkdf_expand_label_def az_hkdf_loop_eq)
  then show "az_intra = aw_intra" "az_post = aw_post" "az_snp = aw_snp" "az_snp_ext = aw_snp_ext"
    by (simp_all add: fun_eq_iff az_intra_def aw_intra_def az_post_def aw_post_def az_snp_def aw_snp_def az_snp_ext_def aw_snp_ext_def)
qed

section \<open>The leaf of the table\<close>

text \<open>The last VLEK entry of a table.\<close>

definition vlek_leaf :: "bytes \<Rightarrow> (string \<times> bytes) list \<Rightarrow> bytes" where
  "vlek_leaf leaf es = foldl (\<lambda>l (g, c). if g = VLEK_GUID then c else l) leaf es"

definition entry_note :: "string \<times> bytes \<Rightarrow> string" where
  "entry_note e = take 8 (fst e) @ '':'' @ dec_int (int (length (snd e)))"

lemma pick_loop_eq: "pick_loop blob off ivs leaf = (vlek_leaf leaf (table_loop blob off), ivs @ map entry_note (table_loop blob off))"
proof (induction blob off ivs leaf rule: pick_loop.induct)
  case (1 blob off ivs leaf)
  obtain guid p l where e: "table_entry blob off = (guid, p, l)" by (cases "table_entry blob off")
  have len: "p + l \<le> length blob \<Longrightarrow> length (slice p (p + l) blob) = l" by (simp add: length_slice)
  show ?case
    unfolding pick_loop.simps [of blob off ivs leaf] table_loop.simps [of blob off]
    using 1 e len by (simp add: vlek_leaf_def entry_note_def)
qed

lemma first_der_eq:
  "first_der blob off = (case filter (\<lambda>(g, c). take 1 c = [0x30] \<and> 600 < length c \<and> length c < 3000) (table_loop blob off) of
     [] \<Rightarrow> [] | (g, c) # _ \<Rightarrow> c)"
proof (induction blob off rule: first_der.induct)
  case IH: (1 blob off)
  obtain guid p l where e: "table_entry blob off = (guid, p, l)" by (cases "table_entry blob off")
  have len: "p + l \<le> length blob \<Longrightarrow> length (slice p (p + l) blob) = l" by (simp add: length_slice)
  have one: "p + l \<le> length blob \<Longrightarrow> l \<noteq> 0 \<Longrightarrow> take 1 (slice p (p + l) blob) = slice p (p + 1) blob"
    by (simp add: slice_def min_def)
  note u = first_der.simps [of blob off] table_loop.simps [of blob off]
  consider "off + 24 \<le> length blob" "guid \<noteq> zeros 16" "l \<noteq> 0 \<and> p + l \<le> length blob"
    | "off + 24 \<le> length blob" "guid \<noteq> zeros 16" "\<not> (l \<noteq> 0 \<and> p + l \<le> length blob)"
    | "\<not> (off + 24 \<le> length blob \<and> guid \<noteq> zeros 16)" by blast
  then show ?case
  proof cases
    case 1
    then show ?thesis unfolding u e using IH e len one by simp
  next
    case 2
    then have "(l \<noteq> 0 \<and> p + l \<le> length blob) = False" "(l \<noteq> 0 \<and> p + l \<le> length blob \<and> q) = False" for q by blast+
    with 2(1,2) show ?thesis unfolding u e using IH e by (simp only: if_False if_True prod.case append_Nil) auto
  next
    case 3
    then have "off + 24 \<le> length blob \<Longrightarrow> guid = zeros 16" by blast
    then show ?thesis unfolding u e by (cases "off + 24 \<le> length blob") simp_all
  qed
qed

text \<open>What the guest sends is what the reader of the table would pick.\<close>

lemma pick_leaf_of_table:
  "az_pick_leaf blob = (vlek_leaf [] (certs_from_table blob), map entry_note (certs_from_table blob))"
  "aw_pick_leaf blob = (case vlek_leaf [] (certs_from_table blob) of
     [] \<Rightarrow> (case filter (\<lambda>(g, c). take 1 c = [0x30] \<and> 600 < length c \<and> length c < 3000) (certs_from_table blob) of
         [] \<Rightarrow> [] | (g, c) # _ \<Rightarrow> c)
     | c # cs \<Rightarrow> c # cs, map entry_note (certs_from_table blob))"
  by (simp_all add: az_pick_leaf_def aw_pick_leaf_def pick_loop_eq first_der_eq certs_from_table_def split: list.split)

end
