(* ===== verification/Anchor_Run.thy ===== *)
theory Anchor_Run
  imports Anchor_Probe Mandate
begin

text \<open>
  \<open>main\<close> of \<open>examples/aws_anchor_run.py\<close> and of \<open>examples/azure_anchor_run.py\<close>, from the challenge to the exit code:
  the loop that reads the consoles of the two machines until both have reported, the claims of their reports, and the
  mandate that enrols the first to report and is presented the second and then the first. Creating and deleting the
  machines, and reading a console, are the cloud's command line: a console read is a parameter that may raise.
\<close>

section \<open>The consoles\<close>

definition in_text :: "string \<Rightarrow> string \<Rightarrow> bool" where
  "in_text w s \<longleftrightarrow> search (after w) s \<noteq> None"

text \<open>One round over the machines that have not reported; \<open>rd\<close> is the script's \<open>reassemble\<close>, \<open>got\<close> is the dictionary of results in order of arrival.\<close>

fun poll_round :: "(string \<Rightarrow> json option py) \<Rightarrow> (string \<Rightarrow> string py) \<Rightarrow> string list \<Rightarrow> (string \<times> json) list \<Rightarrow> (string \<times> json) list py" where
  "poll_round rd con [] got = Inr got"
| "poll_round rd con (i # is) got =
     (if i \<in> fst ` set got then poll_round rd con is got
      else (case con i of
        Inl _ \<Rightarrow> poll_round rd con is got
      | Inr t \<Rightarrow>
          if \<not> in_text ''HATLSEND'' t then poll_round rd con is got
          else (case rd t of
            Inl e \<Rightarrow> Inl e
          | Inr None \<Rightarrow> poll_round rd con is got
          | Inr (Some j) \<Rightarrow> if j = JNull then poll_round rd con is got else poll_round rd con is (got @ [(i, j)]))))"

partial_function (option) poll ::
  "(string \<Rightarrow> json option py) \<Rightarrow> (nat \<Rightarrow> rat) \<Rightarrow> (nat \<Rightarrow> string \<Rightarrow> string py) \<Rightarrow> rat \<Rightarrow> string list \<Rightarrow> nat \<Rightarrow> (string \<times> json) list \<Rightarrow> (string \<times> json) list py option" where
  "poll rd clock con deadline ids n got =
     (if clock n < deadline \<and> length got < length ids
      then (case poll_round rd (con n) ids got of
          Inl e \<Rightarrow> Some (Inl e)
        | Inr got' \<Rightarrow> poll rd clock con deadline ids (Suc n) got')
      else Some (Inr got))"

section \<open>What the reports say\<close>

record claim =
  cl_signing_key :: sk_name
  cl_chip_zero :: bool
  cl_mask_flag :: bool
  cl_instance :: string
  cl_place :: "string option"

definition subscript :: "json \<Rightarrow> string \<Rightarrow> json py" where
  "subscript r k = (case r of JObj d \<Rightarrow> dindex d k | _ \<Rightarrow> Inl (TypeError ''indices must be integers''))"

definition claim_of :: "snp_fields \<Rightarrow> claim py" where
  "claim_of f = (case snp_anchor f of
     None \<Rightarrow> Inl (TypeError ''NoneType object is not subscriptable'')
   | Some a \<Rightarrow> Inr \<lparr>cl_signing_key = snp_signing_key f, cl_chip_zero = snp_chip_id_zero f,
       cl_mask_flag = snp_mask_chip_key f \<noteq> 0, cl_instance = hex (anchor_instance a), cl_place = hex_opt (anchor_place a)\<rparr>)"

definition report_fields :: "json \<Rightarrow> snp_fields py" where
  "report_fields r = py_bind (subscript r ''enrol'') (\<lambda>j. py_bind (b64_json j) parse_snp)"

text \<open>\<open>f"{r['az']:12}"\<close> accepts a string or a number.\<close>

definition aw_claim :: "json \<Rightarrow> claim py" where
  "aw_claim r = py_bind (report_fields r) (\<lambda>f.
     py_bind (subscript r ''az'') (\<lambda>az.
     py_bind (claim_of f) (\<lambda>c.
       (case az of JStr _ \<Rightarrow> Inr c | JInt _ \<Rightarrow> Inr c | JBool _ \<Rightarrow> Inr c
        | _ \<Rightarrow> Inl (TypeError ''unsupported format string'')))))"

text \<open>A \<open>for\<close> loop over a parsed value.\<close>

definition notes_of :: "json \<Rightarrow> unit py" where
  "notes_of j = (case j of JList _ \<Rightarrow> Inr () | JStr _ \<Rightarrow> Inr () | JObj _ \<Rightarrow> Inr ()
     | _ \<Rightarrow> Inl (TypeError ''object is not iterable''))"

definition az_claim :: "json \<Rightarrow> claim py" where
  "az_claim r = py_bind (py_bind (subscript r ''notes'') notes_of) (\<lambda>_.
     py_bind (report_fields r) claim_of)"

definition leaf_pem :: "x509_lib \<Rightarrow> (bytes \<Rightarrow> string) \<Rightarrow> json \<Rightarrow> string option py" where
  "leaf_pem X pem leaf_hex =
     (if \<not> truthy leaf_hex then Inr None
      else py_bind (fromhex_json leaf_hex) (\<lambda>data.
        (case (if take 11 data = lit ''-----BEGIN '' then x_pem_to_der X data
               else py_bind (x_load_der X data) (\<lambda>_. Inr data)) of
           Inl _ \<Rightarrow> Inr None
         | Inr der \<Rightarrow> Inr (Some (pem der)))))"

definition result_leaf :: "x509_lib \<Rightarrow> (bytes \<Rightarrow> string) \<Rightarrow> json \<Rightarrow> string option py" where
  "result_leaf X pem r = (case r of
     JObj d \<Rightarrow> leaf_pem X pem (dget d ''leaf'')
   | _ \<Rightarrow> Inl (AttributeError ''object has no attribute get''))"

section \<open>The mandate on the reports\<close>

definition run_evidence :: "json \<Rightarrow> string option \<Rightarrow> bytes \<Rightarrow> json" where
  "run_evidence report leaf rd = JObj [(''kind'', JStr ''sev-snp''), (''report'', report), (''leaf_pem'', jopt leaf),
     (''report_data'', JStr (hex rd))]"

definition run_step :: "json \<Rightarrow> string option \<Rightarrow> message py" where
  "run_step r leaf =
     py_bind (subscript r ''post_link'') (\<lambda>jl.
     py_bind (fromhex_json jl) (\<lambda>pl.
     py_bind (subscript r ''step'') (\<lambda>js. (case jl of
       JStr l \<Rightarrow> Inr \<lparr>msg_counter = 0, msg_intra_ok_base = False, msg_post_link = l,
         msg_evidence = run_evidence js leaf (report_data_for pl None), msg_head = None\<rparr>
     | _ \<Rightarrow> Inl (TypeError ''fromhex'')))))"

text \<open>
  What a run starts from: the libraries, the verifier, the keys and random values drawn, the clock of the challenge
  and of the mandate's three calls, and the machines with their consoles.
\<close>

record anchor_world =
  aw_crypto :: crypto
  aw_verify :: "json \<Rightarrow> bytes \<Rightarrow> (bool \<times> anchor option) py"
  aw_x509 :: x509_lib
  aw_pem :: "bytes \<Rightarrow> string"
  aw_sth_key :: bytes
  aw_key :: bytes
  aw_csr_rnd :: bytes
  aw_nonce :: bytes
  aw_exporter :: bytes
  aw_sctx :: bytes
  aw_start :: rat
  aw_ins :: "nat \<Rightarrow> inputs"
  aw_ids :: "string list"
  aw_clock :: "nat \<Rightarrow> rat"
  aw_console :: "nat \<Rightarrow> string \<Rightarrow> string py"

definition run_tik :: "anchor_world \<Rightarrow> bytes" where
  "run_tik W = public_key_of (aw_crypto W) (aw_key W)"

definition run_csr :: "anchor_world \<Rightarrow> bytes" where
  "run_csr W = make_enrolment_csr (aw_crypto W) (aw_key W) ''hatls-identity'' (aw_csr_rnd W)"

definition run_args :: "anchor_world \<Rightarrow> probe_args" where
  "run_args W = \<lparr>pa_nonce = aw_nonce W, pa_csr = run_csr W, pa_exporter = aw_exporter W, pa_sctx = aw_sctx W, pa_tik = run_tik W\<rparr>"

text \<open>\<open>Mandate(sevsnp_verifier())\<close>, the other arguments at their defaults, after \<open>challenge\<close>.\<close>

definition run_cfg :: "anchor_world \<Rightarrow> config" where
  "run_cfg W = \<lparr>cf_crypto = aw_crypto W, verify_report = aw_verify W, signing_key = aw_sth_key W,
     ephemeral_signing_key = True, require_anchor = True, require_enrolment = False, require_place = False,
     challenge_ttl = 300, witness_ttl = 3600, enrolment_authority = None\<rparr>"

definition run_mandate :: "anchor_world \<Rightarrow> mandate" where
  "run_mandate W = snd (challenge (aw_start W) (aw_nonce W) (mandate_new (run_cfg W) (MemoryStore [])))"

record outcomes =
  oc_enrolled :: bool
  oc_present_b :: bool
  oc_why_b :: string
  oc_present_a :: bool
  oc_log :: "event list"

definition run_enrolment :: "anchor_world \<Rightarrow> json \<Rightarrow> string option \<Rightarrow> enrolment" where
  "run_enrolment W report leaf = \<lparr>en_tik_pub = run_tik W,
     en_evidence = run_evidence report leaf (sha512 (aw_nonce W @ run_csr W)), en_nonce = aw_nonce W, en_csr = run_csr W,
     en_transfer_authority = None, en_authorisation = None, en_authorisation_sig = None\<rparr>"

definition run_present ::
  "anchor_world \<Rightarrow> nat \<Rightarrow> json \<Rightarrow> string option \<Rightarrow> mandate \<Rightarrow> ((bool \<times> string) \<times> mandate) py" where
  "run_present W n r leaf m = py_bind (run_step r leaf) (\<lambda>msg.
     (case present (aw_ins W n) m (run_tik W) (aw_sctx W) (aw_exporter W) msg None None of
        (Inl x, _) \<Rightarrow> Inl x
      | (Inr res, m') \<Rightarrow> Inr (res, m')))"

definition mandate_section :: "anchor_world \<Rightarrow> json \<Rightarrow> string option \<Rightarrow> json \<Rightarrow> string option \<Rightarrow> outcomes py" where
  "mandate_section W rA lA rB lB =
     py_bind (subscript rA ''enrol'') (\<lambda>report.
     (case enroll (aw_ins W 0) (run_mandate W) (run_enrolment W report lA) of
        (Inl x, _) \<Rightarrow> Inl x
      | (Inr (okA, _), m1) \<Rightarrow>
          py_bind (run_present W 1 rB lB m1) (\<lambda>((okB, whyB), m2).
          py_bind (run_present W 2 rA lA m2) (\<lambda>((okA2, _), m3).
            Inr \<lparr>oc_enrolled = okA, oc_present_b = okB, oc_why_b = whyB, oc_present_a = okA2, oc_log = events m3\<rparr>))))"

section \<open>The AWS run\<close>

record anchor_verdict =
  vd_both_masked :: bool
  vd_differ :: bool
  vd_outcomes :: outcomes

definition aw_sections :: "anchor_world \<Rightarrow> (string \<times> json) list \<Rightarrow> anchor_verdict py" where
  "aw_sections W got =
     py_bind (py_map (\<lambda>(n, r). aw_claim r) got) (\<lambda>cls.
     py_bind (py_map (\<lambda>(n, r). result_leaf (aw_x509 W) (aw_pem W) r) got) (\<lambda>leaves.
     py_bind (py_map (\<lambda>(n, r). case r of JObj d \<Rightarrow> notes_of (dget_or d ''notes'' (JList []))
        | _ \<Rightarrow> Inl (AttributeError ''object has no attribute get'')) got) (\<lambda>_.
     py_bind (mandate_section W (snd (got ! 0)) (leaves ! 0) (snd (got ! 1)) (leaves ! 1)) (\<lambda>oc.
       Inr \<lparr>vd_both_masked = list_all cl_chip_zero cls, vd_differ = (cl_instance (cls ! 0) \<noteq> cl_instance (cls ! 1)),
         vd_outcomes = oc\<rparr>))))"

definition aw_good :: "anchor_verdict \<Rightarrow> bool" where
  "aw_good v \<longleftrightarrow> vd_both_masked v \<and> vd_differ v \<and> oc_enrolled (vd_outcomes v) \<and> \<not> oc_present_b (vd_outcomes v)
     \<and> oc_present_a (vd_outcomes v)"

text \<open>The exit code, or what escaped; and whether the machines were terminated. \<open>start\<close> is the time the waiting began.\<close>

definition aw_main :: "anchor_world \<Rightarrow> bool \<Rightarrow> rat \<Rightarrow> (int py \<times> bool) option" where
  "aw_main W keep start =
     map_option (\<lambda>res. case res of
       Inl e \<Rightarrow> (Inl e, False)
     | Inr got \<Rightarrow>
         if length got < 2 then (Inr 1, \<not> keep)
         else (case aw_sections W got of
           Inl e \<Rightarrow> (Inl e, False)
         | Inr v \<Rightarrow> (Inr (if aw_good v then 0 else 1), \<not> keep)))
     (poll reassemble (aw_clock W) (aw_console W) (start + 900) (aw_ids W) 0 [])"

section \<open>The Azure run\<close>

definition az_reassemble :: "string \<Rightarrow> json option py" where
  "az_reassemble t = (case (search match_meta t, search match_len t) of
     (Some (want, dg), Some hexlen) \<Rightarrow>
       (let cs = find_chunks t in
        if int (length (remdups (map fst cs))) \<noteq> want then Inr None
        else py_bind (join_chunks cs want) (\<lambda>hs.
          case fromhex (take (nat hexlen) (concat hs)) of
            Inl _ \<Rightarrow> Inr None
          | Inr payload \<Rightarrow>
              if hex (sha256 payload) \<noteq> dg then Inr None
              else py_bind (loads_bytes payload) (\<lambda>j. Inr (Some j))))
   | _ \<Rightarrow> Inr None)"

definition az_leaf_pem :: "x509_lib \<Rightarrow> (bytes \<Rightarrow> string) \<Rightarrow> json \<Rightarrow> string option py" where
  "az_leaf_pem X pem leaf_hex =
     (if \<not> truthy leaf_hex then Inr None
      else py_bind (fromhex_json leaf_hex) (\<lambda>data.
        (case (if take 11 data = lit ''-----BEGIN '' then x_pem_to_der X data
               else py_bind (x_load_der X data) (\<lambda>_. Inr data)) of
           Inl _ \<Rightarrow> Inr None
         | Inr der \<Rightarrow> Inr (Some (pem der)))))"

definition az_result_leaf :: "x509_lib \<Rightarrow> (bytes \<Rightarrow> string) \<Rightarrow> json \<Rightarrow> string option py" where
  "az_result_leaf X pem r = (case r of
     JObj d \<Rightarrow> az_leaf_pem X pem (dget d ''leaf'')
   | _ \<Rightarrow> Inl (AttributeError ''object has no attribute get''))"

lemma az_leaf [simp]: "az_leaf_pem = leaf_pem" "az_result_leaf = result_leaf"
proof -
  show "az_leaf_pem = leaf_pem" by (intro ext) (simp only: az_leaf_pem_def leaf_pem_def)
  then show "az_result_leaf = result_leaf" by (intro ext) (simp only: az_result_leaf_def result_leaf_def)
qed

record az_verdict = anchor_verdict +
  vd_places_differ :: bool

definition az_sections :: "anchor_world \<Rightarrow> (string \<times> json) list \<Rightarrow> az_verdict py" where
  "az_sections W got =
     py_bind (py_map (\<lambda>(n, r). az_claim r) got) (\<lambda>cls.
     py_bind (py_map (\<lambda>(n, r). az_result_leaf (aw_x509 W) (aw_pem W) r) got) (\<lambda>leaves.
     py_bind (mandate_section W (snd (got ! 0)) (leaves ! 0) (snd (got ! 1)) (leaves ! 1)) (\<lambda>oc.
       Inr \<lparr>vd_both_masked = list_all cl_chip_zero cls, vd_differ = (cl_instance (cls ! 0) \<noteq> cl_instance (cls ! 1)),
         vd_outcomes = oc, vd_places_differ = (cl_place (cls ! 0) \<noteq> cl_place (cls ! 1))\<rparr>)))"

definition az_good :: "az_verdict \<Rightarrow> bool" where
  "az_good v \<longleftrightarrow> vd_differ v \<and> oc_enrolled (vd_outcomes v) \<and> \<not> oc_present_b (vd_outcomes v)
     \<and> oc_present_a (vd_outcomes v)"

definition az_main :: "anchor_world \<Rightarrow> bool \<Rightarrow> rat \<Rightarrow> (int py \<times> bool) option" where
  "az_main W keep start =
     map_option (\<lambda>res. case res of
       Inl e \<Rightarrow> (Inl e, False)
     | Inr got \<Rightarrow>
         if length got < 2 then (Inr 1, \<not> keep)
         else (case az_sections W got of
           Inl e \<Rightarrow> (Inl e, False)
         | Inr v \<Rightarrow> (Inr (if az_good v then 0 else 1), \<not> keep)))
     (poll az_reassemble (aw_clock W) (aw_console W) (start + 1200) (aw_ids W) 0 [])"

end
