(* ===== verification/Anchor_Proofs.thy ===== *)
theory Anchor_Proofs
  imports Anchor_Run Serial_Proofs Attack_Steps
begin

text \<open>
  Facts about \<open>Anchor_Run\<close>: the loop over the consoles ends by its deadline and returns what the machines printed;
  the run over two honest machines ends with exit code 0, on AWS (\<open>aw_main_exits_0\<close>) and on Azure
  (\<open>az_main_exits_0\<close>); what exit code 0 shows (\<open>aw_main_sound\<close>); and two gaps of the run, the life of its nonce
  (\<open>late_run_fails\<close>) and the refusal it counts (\<open>unverified_counts_as_refused\<close>).
\<close>

section \<open>The loop over the consoles\<close>

text \<open>It ends by the deadline.\<close>

lemma poll_returns:
  assumes "deadline \<le> clock n"
  shows "\<exists>r. poll rd clock con deadline ids k got = Some r \<or> n < k"
proof (induction "Suc n - k" arbitrary: k got)
  case (Suc d)
  have IH: "\<exists>r. poll rd clock con deadline ids (Suc k) got' = Some r \<or> n < Suc k" for got'
    using Suc.hyps(2) by (intro Suc.hyps(1)) simp
  show ?case
  proof (cases "k = n")
    case True
    then have "poll rd clock con deadline ids k got = Some (Inr got)" using assms by (subst poll.simps) simp
    then show ?thesis by blast
  next
    case False
    then have "k < n" using Suc.hyps(2) by simp
    then show ?thesis using IH by (subst poll.simps) (auto split: sum.split)
  qed
qed auto

text \<open>Machines whose consoles show nothing but the value \<open>val\<close> of the machine.\<close>

definition shows_only :: "(string \<Rightarrow> json option py) \<Rightarrow> (string \<Rightarrow> json) \<Rightarrow> string \<Rightarrow> string py \<Rightarrow> bool" where
  "shows_only rd val i c \<longleftrightarrow> (\<forall>t. c = Inr t \<and> in_text ''HATLSEND'' t \<longrightarrow> rd t = Inr None \<or> rd t = Inr (Some (val i)))"

definition shown :: "(string \<Rightarrow> json option py) \<Rightarrow> (string \<Rightarrow> json) \<Rightarrow> string \<Rightarrow> string py \<Rightarrow> bool" where
  "shown rd val i c \<longleftrightarrow> (\<exists>t. c = Inr t \<and> in_text ''HATLSEND'' t \<and> rd t = Inr (Some (val i)))"

lemma poll_round_shows:
  assumes "\<forall>i \<in> set ids. shows_only rd val i (con i) \<and> val i \<noteq> JNull" "distinct ids"
  shows "poll_round rd con ids got = Inr (got @ map (\<lambda>i. (i, val i)) (filter (\<lambda>i. i \<notin> fst ` set got \<and> shown rd val i (con i)) ids))"
  using assms
proof (induction ids arbitrary: got)
  case (Cons i ids)
  have so: "shows_only rd val i (con i)" "val i \<noteq> JNull" and new: "i \<notin> set ids" using Cons.prems by auto
  have IH: "poll_round rd con ids got' =
      Inr (got' @ map (\<lambda>i. (i, val i)) (filter (\<lambda>i. i \<notin> fst ` set got' \<and> shown rd val i (con i)) ids))" for got'
    using Cons by simp
  show ?case
  proof (cases "i \<notin> fst ` set got \<and> shown rd val i (con i)")
    case True
    then obtain t where "con i = Inr t" "in_text ''HATLSEND'' t" "rd t = Inr (Some (val i))" by (auto simp: shown_def)
    moreover have "filter (\<lambda>k. k \<notin> fst ` set (got @ [(i, val i)]) \<and> shown rd val k (con k)) ids
        = filter (\<lambda>k. k \<notin> fst ` set got \<and> shown rd val k (con k)) ids"
      using new by (intro filter_cong) auto
    ultimately show ?thesis using True so(2) IH [of "got @ [(i, val i)]"] by simp
  next
    case old: False
    have "poll_round rd con (i # ids) got = poll_round rd con ids got"
    proof (cases "i \<in> fst ` set got")
      case False
      with old have "\<not> shown rd val i (con i)" by simp
      with so(1) False show ?thesis by (auto simp: shows_only_def shown_def split: sum.split option.split)
    qed simp
    with old IH show ?thesis by auto
  qed
qed simp

definition sound_results :: "(string \<Rightarrow> json) \<Rightarrow> string list \<Rightarrow> (string \<times> json) list \<Rightarrow> bool" where
  "sound_results val ids got \<longleftrightarrow> (\<forall>(i, v) \<in> set got. v = val i \<and> i \<in> set ids) \<and> distinct (map fst got)"

lemma round_sound:
  assumes "sound_results val ids got" "distinct ids"
  shows "sound_results val ids (got @ map (\<lambda>i. (i, val i)) (filter (\<lambda>i. i \<notin> fst ` set got \<and> P i) ids))"
  using assms by (auto simp: sound_results_def distinct_map inj_on_def comp_def)

lemma sound_length:
  assumes "sound_results val ids got" "distinct ids"
  shows "length got \<le> length ids" "length got = length ids \<Longrightarrow> fst ` set got = set ids" "fst ` set got = set ids \<Longrightarrow> length got = length ids"
proof -
  have d: "distinct (map fst got)" "set (map fst got) \<subseteq> set ids" using assms(1) by (auto simp: sound_results_def)
  have c: "card (set (map fst got)) = length got" "card (set ids) = length ids"
    using d(1) assms(2) distinct_card [of "map fst got"] distinct_card [of ids] by simp_all
  show "length got \<le> length ids" using card_mono [OF _ d(2)] c by simp
  show "fst ` set got = set ids" if "length got = length ids"
    using card_subset_eq [OF _ d(2)] c that by simp
  show "length got = length ids" if "fst ` set got = set ids" using c that by simp
qed

lemma poll_shows:
  assumes con: "\<forall>k. \<forall>i \<in> set ids. shows_only rd val i (con k i)" and val: "\<forall>i \<in> set ids. val i \<noteq> JNull" and ids: "distinct ids"
    and time: "\<forall>k \<le> N. clock k < deadline"
  shows "sound_results val ids got \<Longrightarrow> k \<le> Suc N \<Longrightarrow>
    (\<forall>i \<in> set ids. i \<in> fst ` set got \<or> (\<exists>n. k \<le> n \<and> n \<le> N \<and> shown rd val i (con n i))) \<Longrightarrow>
    \<exists>got'. poll rd clock con deadline ids k got = Some (Inr got') \<and> sound_results val ids got' \<and> length got' = length ids"
proof (induction "Suc N - k" arbitrary: k got)
  case 0
  then have "fst ` set got = set ids" unfolding sound_results_def by fastforce
  then have "length got = length ids" using sound_length(3) [OF "0.prems"(1) ids] by simp
  with 0 show ?case by (subst poll.simps) auto
next
  case (Suc d)
  show ?case
  proof (cases "length got < length ids")
    case False
    then have "length got = length ids" using sound_length(1) [OF Suc.prems(1) ids] by simp
    with Suc.prems(1) show ?thesis by (subst poll.simps) auto
  next
    case True
    define got1 where "got1 = got @ map (\<lambda>i. (i, val i)) (filter (\<lambda>i. i \<notin> fst ` set got \<and> shown rd val i (con k i)) ids)"
    have r: "poll_round rd (con k) ids got = Inr got1"
      unfolding got1_def using con val ids by (intro poll_round_shows) auto
    have names: "fst ` set got1 = fst ` set got \<union> {i \<in> set ids. i \<notin> fst ` set got \<and> shown rd val i (con k i)}"
      unfolding got1_def set_append image_Un set_map set_filter image_image by simp
    have k: "k \<le> N" using Suc.hyps(2) by simp
    have "\<exists>got'. poll rd clock con deadline ids (Suc k) got1 = Some (Inr got') \<and> sound_results val ids got' \<and> length got' = length ids"
    proof (rule Suc.hyps(1))
      show "sound_results val ids got1" unfolding got1_def by (rule round_sound [OF Suc.prems(1) ids])
      show "\<forall>i \<in> set ids. i \<in> fst ` set got1 \<or> (\<exists>n. Suc k \<le> n \<and> n \<le> N \<and> shown rd val i (con n i))"
      proof
        fix i assume i: "i \<in> set ids"
        with Suc.prems(3) consider "i \<in> fst ` set got" | n where "k \<le> n" "n \<le> N" "shown rd val i (con n i)" by blast
        then show "i \<in> fst ` set got1 \<or> (\<exists>n. Suc k \<le> n \<and> n \<le> N \<and> shown rd val i (con n i))"
        proof cases
          case 1
          then show ?thesis unfolding names by blast
        next
          case 2
          show ?thesis
          proof (cases "n = k")
            case True
            then show ?thesis using i 2(3) unfolding names by blast
          next
            case False
            then have "Suc k \<le> n" using 2(1) by simp
            then show ?thesis using 2 by blast
          qed
        qed
      qed
    qed (use Suc.hyps(2) in simp_all)
    moreover have "clock k < deadline" using time k by simp
    ultimately show ?thesis using True r by (subst poll.simps) simp
  qed
qed

text \<open>Two machines: the results come in one of two orders.\<close>

lemma two_results:
  assumes "sound_results val [i, j] got" "length got = 2" "i \<noteq> j"
  shows "got = [(i, val i), (j, val j)] \<or> got = [(j, val j), (i, val i)]"
proof -
  obtain x y where g: "got = [x, y]" using assms(2) by (metis length_0_conv length_Suc_conv numeral_2_eq_2)
  then show ?thesis using assms(1,3) by (cases x; cases y) (auto simp: sound_results_def)
qed

section \<open>What an honest probe sends\<close>

definition run_link :: "anchor_world \<Rightarrow> bytes" where
  "run_link W = link_at (aw_sctx W) (run_tik W) (aw_exporter W) 0"

text \<open>
  A guest on an SEV-SNP machine whose reports the verifier accepts as the instance \<open>a\<close>, for the two values the probe
  asks for and with the leaf the probe sends. \<open>pick\<close> is the script's \<open>pick_leaf\<close>, \<open>enr\<close> its way to the first report.
\<close>

record sent =
  se_rep :: bytes
  se_certs :: bytes
  se_notes :: "string list"
  se_step :: bytes
  se_leaf :: "string option"

definition genuine ::
  "(bytes \<Rightarrow> bytes \<times> string list) \<Rightarrow> (sev_device \<Rightarrow> (exn \<Rightarrow> string) \<Rightarrow> bytes \<Rightarrow> (bytes \<times> bytes \<times> string list) py) \<Rightarrow>
   anchor_world \<Rightarrow> guest \<Rightarrow> snp_fields \<Rightarrow> anchor \<Rightarrow> sent \<Rightarrow> bool" where
  "genuine pick enr W G f a S \<longleftrightarrow>
     (let rd = sha512 (aw_nonce W @ run_csr W); rd' = report_data_for (run_link W) None in
      enr (gs_device G) (gs_repr G) rd = Inr (se_rep S, se_certs S, se_notes S) \<and> parse_snp (se_rep S) = Inr f \<and> snp_anchor f = Some a \<and>
      aw_snp (gs_device G) 1 rd' = Inr (se_step S) \<and>
      leaf_pem (aw_x509 W) (aw_pem W) (JStr (hex (fst (pick (se_certs S))))) = Inr (se_leaf S) \<and>
      aw_verify W (run_evidence (JStr (b64encode (se_rep S))) (se_leaf S) rd) rd = Inr (True, Some a) \<and>
      aw_verify W (run_evidence (JStr (b64encode (se_step S))) (se_leaf S) rd') rd' = Inr (True, Some a))"

abbreviation aw_genuine where "aw_genuine \<equiv> genuine aw_pick_leaf aw_enrol_report"

text \<open>What the relying side reads in a result.\<close>

definition reads :: "json \<Rightarrow> anchor_world \<Rightarrow> sent \<Rightarrow> string \<Rightarrow> bool" where
  "reads r W S leaf \<longleftrightarrow> (\<exists>d. r = JObj d \<and>
     map_of d ''enrol'' = Some (JStr (b64encode (se_rep S))) \<and> map_of d ''step'' = Some (JStr (b64encode (se_step S))) \<and>
     map_of d ''post_link'' = Some (JStr (hex (run_link W))) \<and> map_of d ''leaf'' = Some (JStr leaf) \<and>
     (\<exists>ns. map_of d ''notes'' = Some (JList ns)))"

lemma run_link_Inr:
  assumes "length (aw_sctx W) < 256"
  shows "py_bind (aw_intra (pa_sctx (run_args W)) (pa_tik (run_args W))) (\<lambda>il. aw_post (pa_exporter (run_args W)) il 0) = Inr (run_link W)"
  using assms by (simp add: aw_links_eq run_args_def intra_link_Inr post_link_Inr run_link_def py_bind_Inr_iff len_simps)

definition aw_json :: "anchor_world \<Rightarrow> guest \<Rightarrow> sent \<Rightarrow> dict" where
  "aw_json W G S = (case aw_pick_leaf (se_certs S) of (leaf, ivs) \<Rightarrow>
     [(''instance'', JStr (gs_name G)), (''az'', JStr (gs_zone G)), (''enrol'', JStr (b64encode (se_rep S))),
      (''leaf'', JStr (hex leaf)), (''table'', JList (map JStr ivs)),
      (''notes'', JList (map JStr (se_notes S @ gs_kernel G @ [table_note ''table entries '' ivs leaf @ '' bytes'']))),
      (''post_link'', JStr (hex (run_link W))), (''step'', JStr (b64encode (se_step S)))])"

lemma aw_out_json:
  assumes g: "aw_genuine W G f a S" and len: "length (aw_sctx W) < 256"
  shows "aw_out G (run_args W) = Inr (JObj (aw_json W G S))"
  unfolding aw_out_def run_link_Inr [OF len] py_bind.simps
  using g by (simp add: genuine_def Let_def run_args_def aw_links_eq aw_json_def split: prod.split)

lemma aw_out_genuine:
  assumes g: "aw_genuine W G f a S" and len: "length (aw_sctx W) < 256"
  shows "\<exists>out. aw_out G (run_args W) = Inr out \<and> wf_json out \<and> reads (sort_json out) W S (hex (fst (aw_pick_leaf (se_certs S))))
    \<and> (\<exists>d. sort_json out = JObj d \<and> map_of d ''az'' = Some (JStr (gs_zone G)))"
proof -
  obtain leaf ivs where l: "aw_pick_leaf (se_certs S) = (leaf, ivs)" by fastforce
  have w: "wf_json (JObj (aw_json W G S))" by (auto simp: aw_json_def l list_all_iff)
  have dis: "distinct (map fst (aw_json W G S))" by (simp add: aw_json_def l)
  obtain d where d: "sort_json (JObj (aw_json W G S)) = JObj d" by simp
  note lk = sort_json_lookup [OF dis d]
  have "reads (JObj d) W S (hex leaf)" "map_of d ''az'' = Some (JStr (gs_zone G))"
    by (simp_all add: reads_def lk) (simp_all add: aw_json_def l)
  then show ?thesis using aw_out_json [OF g len] w d l by auto
qed

section \<open>The mandate on honest results\<close>

lemma run_cfg_sel [simp]:
  "cf_crypto (run_cfg W) = aw_crypto W" "verify_report (run_cfg W) = aw_verify W" "require_anchor (run_cfg W)"
  "\<not> require_enrolment (run_cfg W)" "\<not> require_place (run_cfg W)" "challenge_ttl (run_cfg W) = 300"
  "enrolment_authority (run_cfg W) = None"
  by (simp_all add: run_cfg_def)

text \<open>The identity was enrolled on \<open>a\<close>; since then only refused steps.\<close>

definition held :: "anchor_world \<Rightarrow> anchor \<Rightarrow> mandate \<Rightarrow> bool" where
  "held W a m \<longleftrightarrow> (\<exists>r. mandate_rec m (hex (run_tik W)) = Inr r \<and> wf_rec r \<and> \<not> revoked r
     \<and> enrolled_instance r = Some (hex (anchor_instance a)) \<and> enrolled_place r = hex_opt (anchor_place a) \<and> observed_instance r = None)
     \<and> cfg m = run_cfg W \<and> sessions m = Map.empty \<and> log_inv m"

lemma snp_anchor_ne: "snp_anchor f = Some a \<Longrightarrow> anchor_instance a \<noteq> []"
  by (auto simp: snp_anchor_def present_id_Some any_set_def split: option.splits)

lemma run_mandate_sel:
  "cfg (run_mandate W) = run_cfg W" "mandate_rec (run_mandate W) (hex b) = Inr blank" "sessions (run_mandate W) = Map.empty"
  "log_inv (run_mandate W)" "challenges (run_mandate W) (aw_nonce W) = Some (aw_start W + 300)"
proof -
  let ?m = "mandate_new (run_cfg W) (MemoryStore [])"
  obtain m1 where c: "challenge (aw_start W) (aw_nonce W) ?m = (aw_nonce W, m1)" by (simp add: challenge_def Let_def)
  then have m: "run_mandate W = m1" by (simp add: run_mandate_def)
  note s = challenge_sel [OF c]
  show "cfg (run_mandate W) = run_cfg W" using s m by (simp add: new_readable)
  show "mandate_rec (run_mandate W) (hex b) = Inr blank" using mandate_rec_cong [of m1 ?m] s m by (simp add: new_readable)
  show "sessions (run_mandate W) = Map.empty" using c m by (auto simp: challenge_def Let_def new_readable)
  show "log_inv (run_mandate W)" using s m log_inv_step [of ?m m1] by (simp add: log_step_def new_readable)
  show "challenges (run_mandate W) (aw_nonce W) = Some (aw_start W + 300)"
    using challenge_nonce [OF c] m by (simp add: new_readable)
qed

lemma run_enrols:
  assumes csr: "csr_correct (aw_crypto W)" and t: "t_check (aw_ins W 0) < aw_start W + 300"
    and v: "aw_verify W (run_evidence (JStr (b64encode rep)) leaf (sha512 (aw_nonce W @ run_csr W))) (sha512 (aw_nonce W @ run_csr W))
      = Inr (True, Some a)"
  shows "\<exists>m1. enroll (aw_ins W 0) (run_mandate W) (run_enrolment W (JStr (b64encode rep)) leaf) = (Inr (True, ''enrolled''), m1) \<and> held W a m1"
proof -
  let ?e = "run_enrolment W (JStr (b64encode rep)) leaf" and ?m = "run_mandate W"
  have "load_csr (aw_crypto W) (run_csr W) = Inr (True, run_tik W)"
    using csr by (simp add: run_csr_def run_tik_def make_enrolment_csr_def csr_correctD)
  then have adm: "enroll_admits (aw_ins W 0) ?m ?e blank a"
    using run_mandate_sel [of W] t v by (simp add: enroll_admits_def enroll_permitted_def run_enrolment_def)
  then obtain m1 where m1: "enroll (aw_ins W 0) ?m ?e = (Inr (True, ''enrolled''), m1)" "enroll_done ?m ?e blank a m1"
    using enroll_accepts [OF adm wf_blank] by auto
  have "mandate_rec m1 (hex (run_tik W)) = Inr (map_nonces (store_norm (mstore ?m)) (enrolled_rec ?e blank a))"
    using enroll_done_rec [OF m1(2) wf_blank] by (simp add: run_enrolment_def)
  moreover have "ledger_step (hex (run_tik W)) enrolled_by ?m m1" using enroll_steps(2) [OF m1(1)] by (simp add: run_enrolment_def)
  ultimately have "held W a m1"
    using run_mandate_sel [of W] enroll_steps(4) [OF m1(1)] log_inv_step [OF enroll_steps(1) [OF m1(1)]]
    by (auto simp: held_def ledger_step_def wf_norm wf_blank run_enrolment_def)
  with m1(1) show ?thesis by blast
qed

lemma run_step_reads:
  assumes "reads r W S l"
  shows "run_step r leaf = Inr \<lparr>msg_counter = 0, msg_intra_ok_base = False, msg_post_link = hex (run_link W),
    msg_evidence = run_evidence (JStr (b64encode (se_step S))) leaf (report_data_for (run_link W) None), msg_head = None\<rparr>"
  using assms by (auto simp: reads_def run_step_def subscript_def dindex_def)

lemma run_impostor:
  assumes h: "held W a m" and r: "reads r W S l" and ne: "anchor_instance a \<noteq> []" "anchor_instance b \<noteq> anchor_instance a"
    and v: "aw_verify W (run_evidence (JStr (b64encode (se_step S))) leaf (report_data_for (run_link W) None)) (report_data_for (run_link W) None)
      = Inr (True, Some b)"
  shows "\<exists>m'. run_present W n r leaf m = Inr ((False, ''rejected: key presented from an instance it was not enrolled on''), m') \<and> held W a m'"
proof -
  obtain rc where rc: "mandate_rec m (hex (run_tik W)) = Inr rc" "wf_rec rc" "\<not> revoked rc"
    "enrolled_instance rc = Some (hex (anchor_instance a))" "enrolled_place rc = hex_opt (anchor_place a)" "observed_instance rc = None"
    and m: "cfg m = run_cfg W" "sessions m = Map.empty" "log_inv m" using h by (auto simp: held_def)
  let ?msg = "\<lparr>msg_counter = 0, msg_intra_ok_base = False, msg_post_link = hex (run_link W),
    msg_evidence = run_evidence (JStr (b64encode (se_step S))) leaf (report_data_for (run_link W) None), msg_head = None\<rparr>"
  have s: "sees m (run_tik W) ?msg None None b" using v m(1) by (simp add: sees_def head_check_def)
  obtain m' where p: "present (aw_ins W n) m (run_tik W) (aw_sctx W) (aw_exporter W) ?msg None None
      = (Inr (False, ''rejected: key presented from an instance it was not enrolled on''), m')"
    and rec: "mandate_rec m' (hex (run_tik W)) = Inr (map_nonces (store_norm (mstore m))
        (dispute_rec (t_dispute (aw_ins W n)) (witness_rec (cfg m) (t_witness (aw_ins W n)) rc (anchor_instance b) (anchor_place b))
          ''evidence from a non-enrolled instance''))" and ss: "sessions m' = sessions m"
    using impostor_step [OF rc(1-4) ne(1) s ne(2)] by blast
  have "cfg m' = cfg m" "log_inv m'" using present_steps(1,2) [OF p] log_inv_step m(3) by (auto simp: ledger_step_def)
  moreover have "wf_rec (map_nonces (store_norm st) (dispute_rec c (witness_rec c' t' rc i p) why))" for st c c' t' i p why
    using rc(2) by (intro wf_norm) (simp add: wf_rec_def dispute_rec_def witness_rec_def Let_def)
  ultimately have "held W a m'"
    using rec ss rc m by (simp add: held_def) (simp add: witness_rec_def dispute_rec_def Let_def)
  with p show ?thesis by (auto simp: run_present_def run_step_reads [OF r])
qed

lemma run_owner:
  assumes h: "held W a m" and r: "reads r W S l" and ne: "anchor_instance a \<noteq> []" and len: "length (aw_sctx W) < 256"
    and v: "aw_verify W (run_evidence (JStr (b64encode (se_step S))) leaf (report_data_for (run_link W) None)) (report_data_for (run_link W) None)
      = Inr (True, Some a)"
  shows "\<exists>m'. run_present W n r leaf m = Inr ((True, ''accepted; continuity intact''), m')"
proof -
  obtain rc where rc: "mandate_rec m (hex (run_tik W)) = Inr rc" "wf_rec rc" "\<not> revoked rc"
    "enrolled_instance rc = Some (hex (anchor_instance a))" "enrolled_place rc = hex_opt (anchor_place a)" "observed_instance rc = None"
    and m: "cfg m = run_cfg W" "sessions m = Map.empty" using h by (auto simp: held_def)
  let ?msg = "\<lparr>msg_counter = 0, msg_intra_ok_base = False, msg_post_link = hex (run_link W),
    msg_evidence = run_evidence (JStr (b64encode (se_step S))) leaf (report_data_for (run_link W) None), msg_head = None\<rparr>"
  have "ledger_admits (cfg m) rc (Some a)"
    using rc m ne by (auto simp: ledger_admits_def Let_def opt_fromhex_hex agrees_def opt_fromhex_def hex_opt_def split: option.splits)
  then have "admits m (run_tik W) (aw_sctx W) (aw_exporter W) ?msg None None rc (run_link W) (Some a)"
    using rc m v len by (auto simp: admits_def head_check_def chain_base_def intra_link_Inr post_link_Inr run_link_def len_simps)
  from present_admits [OF this, of "aw_ins W n"] obtain m' where
    "present (aw_ins W n) m (run_tik W) (aw_sctx W) (aw_exporter W) ?msg None None = (Inr (True, ''accepted; continuity intact''), m')" by blast
  then show ?thesis by (simp add: run_present_def run_step_reads [OF r])
qed

section \<open>Both sections on honest results\<close>

text \<open>Two honest results of different instances, the first enrolled.\<close>

lemma mandate_section_honest:
  assumes csr: "csr_correct (aw_crypto W)" and len: "length (aw_sctx W) < 256" and t: "t_check (aw_ins W 0) < aw_start W + 300"
    and A: "genuine pick enr W G f a S" "reads r W S l" and B: "genuine pick enr W G' f' b S'" "reads r' W S' l'"
    and ne: "anchor_instance b \<noteq> anchor_instance a"
  shows "\<exists>lg. mandate_section W r (se_leaf S) r' (se_leaf S') = Inr \<lparr>oc_enrolled = True, oc_present_b = False,
    oc_why_b = ''rejected: key presented from an instance it was not enrolled on'', oc_present_a = True, oc_log = lg\<rparr>"
proof -
  have a: "anchor_instance a \<noteq> []" using A(1) snp_anchor_ne by (auto simp: genuine_def Let_def)
  obtain m1 where m1: "enroll (aw_ins W 0) (run_mandate W) (run_enrolment W (JStr (b64encode (se_rep S))) (se_leaf S)) = (Inr (True, ''enrolled''), m1)"
    "held W a m1" using run_enrols [OF csr t, of "se_rep S" "se_leaf S" a] A(1) by (auto simp: genuine_def Let_def)
  obtain m2 where m2: "run_present W 1 r' (se_leaf S') m1 = Inr ((False, ''rejected: key presented from an instance it was not enrolled on''), m2)"
    "held W a m2" using run_impostor [OF m1(2) B(2) a ne, of "se_leaf S'" 1] B(1) by (auto simp: genuine_def Let_def)
  obtain m3 where m3: "run_present W 2 r (se_leaf S) m2 = Inr ((True, ''accepted; continuity intact''), m3)"
    using run_owner [OF m2(2) A(2) a len, of "se_leaf S" 2] A(1) by (auto simp: genuine_def Let_def)
  have "subscript r ''enrol'' = Inr (JStr (b64encode (se_rep S)))" using A(2) by (auto simp: reads_def subscript_def dindex_def)
  then show ?thesis using m1 m2 m3 by (simp add: mandate_section_def)
qed

lemma honest_report_fields:
  assumes "genuine pick enr W G f a S" "reads r W S l"
  shows "report_fields r = Inr f"
  using assms by (auto simp: genuine_def Let_def reads_def report_fields_def subscript_def dindex_def b64decode_encode)

lemma honest_claim_of:
  assumes "genuine pick enr W G f a S"
  shows "claim_of f = Inr \<lparr>cl_signing_key = snp_signing_key f, cl_chip_zero = snp_chip_id_zero f,
    cl_mask_flag = snp_mask_chip_key f \<noteq> 0, cl_instance = hex (anchor_instance a), cl_place = hex_opt (anchor_place a)\<rparr>"
  using assms by (auto simp: genuine_def Let_def claim_of_def)

lemma honest_leaf:
  assumes "genuine pick enr W G f a S" "reads r W S (hex (fst (pick (se_certs S))))"
  shows "result_leaf (aw_x509 W) (aw_pem W) r = Inr (se_leaf S)"
  using assms by (auto simp: genuine_def Let_def reads_def result_leaf_def dget_def)

definition aw_result :: "anchor_world \<Rightarrow> guest \<Rightarrow> sent \<Rightarrow> json \<Rightarrow> bool" where
  "aw_result W G S r \<longleftrightarrow> reads r W S (hex (fst (aw_pick_leaf (se_certs S)))) \<and> (\<exists>d. r = JObj d \<and> map_of d ''az'' = Some (JStr (gs_zone G)))"

lemma aw_sections_honest:
  assumes csr: "csr_correct (aw_crypto W)" and len: "length (aw_sctx W) < 256" and t: "t_check (aw_ins W 0) < aw_start W + 300"
    and A: "aw_genuine W G f a S" "aw_result W G S r" "snp_chip_id_zero f"
    and B: "aw_genuine W G' f' b S'" "aw_result W G' S' r'" "snp_chip_id_zero f'"
    and ne: "anchor_instance b \<noteq> anchor_instance a"
  shows "\<exists>v. aw_sections W [(i, r), (j, r')] = Inr v \<and> aw_good v"
proof -
  have r: "reads r W S (hex (fst (aw_pick_leaf (se_certs S))))" "reads r' W S' (hex (fst (aw_pick_leaf (se_certs S'))))"
    using A(2) B(2) by (simp_all add: aw_result_def)
  have c: "aw_claim r = claim_of f" "aw_claim r' = claim_of f'"
    using honest_report_fields [OF A(1) r(1)] honest_report_fields [OF B(1) r(2)] A(2) B(2) honest_claim_of [OF A(1)] honest_claim_of [OF B(1)]
    by (auto simp: aw_claim_def aw_result_def subscript_def dindex_def)
  have n: "(case r of JObj d \<Rightarrow> notes_of (dget_or d ''notes'' (JList [])) | _ \<Rightarrow> Inl (AttributeError ''object has no attribute get'')) = Inr ()"
    "(case r' of JObj d \<Rightarrow> notes_of (dget_or d ''notes'' (JList [])) | _ \<Rightarrow> Inl (AttributeError ''object has no attribute get'')) = Inr ()"
    using r by (auto simp: reads_def dget_or_def notes_of_def)
  obtain lg where "mandate_section W r (se_leaf S) r' (se_leaf S') = Inr \<lparr>oc_enrolled = True, oc_present_b = False,
    oc_why_b = ''rejected: key presented from an instance it was not enrolled on'', oc_present_a = True, oc_log = lg\<rparr>"
    using mandate_section_honest [OF csr len t A(1) r(1) B(1) r(2) ne] by blast
  then show ?thesis
    using honest_leaf [OF A(1) r(1)] honest_leaf [OF B(1) r(2)] honest_claim_of [OF A(1)] honest_claim_of [OF B(1)] A(3) B(3) ne
    by (simp add: aw_sections_def c n aw_good_def)
qed

section \<open>From the probes to the exit code\<close>

lemma search_finds: "search (after w) (a @ w @ b) \<noteq> None"
proof (induction a)
  case Nil
  have "after w (w @ b) = Some b" by simp
  then show ?case by (cases "w @ b") simp_all
qed (auto split: option.split)

lemma received_end:
  assumes "received name place out n0 mid ls"
  shows "in_text ''HATLSEND'' (n0 @ console ls)"
proof -
  have "''HATLSEND'' \<in> set (map fst ls)" using assms by (simp add: received_def)
  then obtain n where "(''HATLSEND'', n) \<in> set ls" by auto
  then obtain xs ys where "ls = xs @ (''HATLSEND'', n) # ys" by (metis split_list)
  then have "n0 @ console ls = (n0 @ console xs) @ ''HATLSEND'' @ (NL # n @ console ys)" by (simp add: console_append)
  then show ?thesis using search_finds [of "''HATLSEND''" "n0 @ console xs"] by (simp add: in_text_def)
qed

text \<open>A console that raises, is not complete, or holds what the guest printed, chunks lost or not.\<close>

definition console_of :: "string \<Rightarrow> string \<Rightarrow> json \<Rightarrow> string py \<Rightarrow> bool" where
  "console_of name place out c \<longleftrightarrow> (\<forall>t. c = Inr t \<and> in_text ''HATLSEND'' t \<longrightarrow>
     (\<exists>n0 mid ls. received name place out n0 mid ls \<and> t = n0 @ console ls))"

definition complete :: "string \<Rightarrow> string \<Rightarrow> json \<Rightarrow> string py \<Rightarrow> bool" where
  "complete name place out c \<longleftrightarrow> (\<exists>n0 mid ls. received name place out n0 mid ls \<and> c = Inr (n0 @ console ls))"

lemma console_shows:
  "console_of name place out c \<Longrightarrow> shows_only reassemble (\<lambda>_. sort_json out) i c"
  "complete name place out c \<Longrightarrow> shown reassemble (\<lambda>_. sort_json out) i c"
  using reassemble_gaps received_end by (fastforce simp: console_of_def complete_def shows_only_def shown_def)+

text \<open>What a probe prints, undisturbed.\<close>

lemma printed_complete:
  assumes "word_ok name" "word_ok place" "wf_json out" "chunk_count (sent_hex out) \<le> 10000" "0 < p"
  shows "complete name place out (Inr (console (map (\<lambda>l. (l, [])) (probe_lines p name place out))))"
proof -
  let ?ls = "map (\<lambda>l. (l, [])) (probe_lines p name place out)"
  have "received name place out [] (concat (replicate p (map (chunk_line (sent_hex out)) [0..<chunk_count (sent_hex out)]))) ?ls"
    using assms by (intro probe_received) (simp_all add: comp_def list_all_iff)
  then have "\<exists>n0 mid ls. received name place out n0 mid ls \<and> console ?ls = n0 @ console ls" by fastforce
  then show ?thesis by (simp add: complete_def)
qed

lemma guest_prints:
  assumes "word_ok (gs_name G)" "wf_json out" "chunk_count (sent_hex out) \<le> 10000"
  shows "word_ok (gs_zone G) \<Longrightarrow> complete (gs_name G) (gs_zone G) out (Inr (console (map (\<lambda>l. (l, [])) (aw_print G out))))"
    and "complete (gs_name G) ''azure'' out (Inr (console (map (\<lambda>l. (l, [])) (az_print G out))))"
proof -
  have "word_ok ''azure''" by (auto simp: word_ok_def space_char_def TAG_def)
  then show "complete (gs_name G) ''azure'' out (Inr (console (map (\<lambda>l. (l, [])) (az_print G out))))"
    unfolding az_print_def using assms by (intro printed_complete) simp_all
qed (use assms in \<open>auto simp: aw_print_def intro: printed_complete\<close>)

text \<open>The two machines of a run: their guests, reports and instances.\<close>

record machine =
  mc_guest :: guest
  mc_fields :: snp_fields
  mc_anchor :: anchor
  mc_sent :: sent
  mc_out :: json

definition aw_machine :: "anchor_world \<Rightarrow> machine \<Rightarrow> bool" where
  "aw_machine W M \<longleftrightarrow> aw_genuine W (mc_guest M) (mc_fields M) (mc_anchor M) (mc_sent M) \<and> snp_chip_id_zero (mc_fields M)
     \<and> aw_out (mc_guest M) (run_args W) = Inr (mc_out M)"

lemma honest_poll:
  assumes ids: "i \<noteq> j" and obj: "\<And>n. n \<in> {i, j} \<Longrightarrow> val n \<noteq> JNull"
    and con: "\<And>k n. n \<in> {i, j} \<Longrightarrow> \<exists>name place out. val n = sort_json out \<and> console_of name place out (con k n)"
    and done': "\<And>n. n \<in> {i, j} \<Longrightarrow> \<exists>k \<le> N. \<exists>name place out. val n = sort_json out \<and> complete name place out (con k n)"
    and time: "\<And>k. k \<le> N \<Longrightarrow> clock k < deadline"
  obtains got where "poll reassemble clock con deadline [i, j] 0 [] = Some (Inr got)"
    "got = [(i, val i), (j, val j)] \<or> got = [(j, val j), (i, val i)]"
proof -
  have "\<exists>got. poll reassemble clock con deadline [i, j] 0 [] = Some (Inr got) \<and>
      sound_results val [i, j] got \<and> length got = length [i, j]"
  proof (rule poll_shows [where N = N])
    show "\<forall>k. \<forall>n \<in> set [i, j]. shows_only reassemble val n (con k n)"
    proof (intro allI ballI)
      fix k n assume "n \<in> set [i, j]"
      then have "n \<in> {i, j}" by simp
      from con [OF this] obtain name place out where "val n = sort_json out" "console_of name place out (con k n)" by blast
      then show "shows_only reassemble val n (con k n)" using console_shows(1) [of name place out "con k n" n] by (simp add: shows_only_def)
    qed
    show "\<forall>n \<in> set [i, j]. n \<in> fst ` set [] \<or> (\<exists>k. 0 \<le> k \<and> k \<le> N \<and> shown reassemble val n (con k n))"
    proof
      fix n assume "n \<in> set [i, j]"
      then have "n \<in> {i, j}" by simp
      from done' [OF this] obtain k name place out where "k \<le> N" "val n = sort_json out" "complete name place out (con k n)" by blast
      then show "n \<in> fst ` set [] \<or> (\<exists>k. 0 \<le> k \<and> k \<le> N \<and> shown reassemble val n (con k n))"
        using console_shows(2) [of name place out "con k n" n] by (auto simp: shown_def)
    qed
  qed (use obj ids time in \<open>auto simp: sound_results_def\<close>)
  with two_results [OF _ _ ids] that show thesis by auto
qed

lemma aw_main_exits_0:
  assumes csr: "csr_correct (aw_crypto W)" and len: "length (aw_sctx W) < 256" and t: "t_check (aw_ins W 0) < aw_start W + 300"
    and ids: "aw_ids W = [i, j]" "i \<noteq> j"
    and M: "aw_machine W (M i)" "aw_machine W (M j)" and ne: "anchor_instance (mc_anchor (M i)) \<noteq> anchor_instance (mc_anchor (M j))"
    and con: "\<And>k n. n \<in> {i, j} \<Longrightarrow> console_of (gs_name (mc_guest (M n))) (gs_zone (mc_guest (M n))) (mc_out (M n)) (aw_console W k n)"
    and done': "\<And>n. n \<in> {i, j} \<Longrightarrow> \<exists>k \<le> N. complete (gs_name (mc_guest (M n))) (gs_zone (mc_guest (M n))) (mc_out (M n)) (aw_console W k n)"
    and time: "\<And>k. k \<le> N \<Longrightarrow> aw_clock W k < start + 900"
  shows "aw_main W keep start = Some (Inr 0, \<not> keep)"
proof -
  define val where "val = (\<lambda>n. sort_json (mc_out (M n)))"
  have res: "aw_result W (mc_guest (M n)) (mc_sent (M n)) (val n)" if "n \<in> {i, j}" for n
    using aw_out_genuine [OF _ len, of "mc_guest (M n)" "mc_fields (M n)" "mc_anchor (M n)" "mc_sent (M n)"] M that
    by (auto simp: aw_machine_def aw_result_def val_def)
  then have obj: "val n \<noteq> JNull" if "n \<in> {i, j}" for n using that by (fastforce simp: aw_result_def)
  obtain got where got: "poll reassemble (aw_clock W) (aw_console W) (start + 900) [i, j] 0 [] = Some (Inr got)"
    "got = [(i, val i), (j, val j)] \<or> got = [(j, val j), (i, val i)]"
    using honest_poll [where val = val and con = "aw_console W" and clock = "aw_clock W" and N = N, OF ids(2) obj _ _ time] con done'
    by (metis val_def)
  have "\<exists>v. aw_sections W got = Inr v \<and> aw_good v"
    using got(2)
  proof
    assume "got = [(i, val i), (j, val j)]"
    then show ?thesis
      using aw_sections_honest [OF csr len t, of "mc_guest (M i)" _ _ "mc_sent (M i)" "val i" "mc_guest (M j)" _ _ "mc_sent (M j)" "val j"]
        M res ne by (auto simp: aw_machine_def)
  next
    assume "got = [(j, val j), (i, val i)]"
    then show ?thesis
      using aw_sections_honest [OF csr len t, of "mc_guest (M j)" _ _ "mc_sent (M j)" "val j" "mc_guest (M i)" _ _ "mc_sent (M i)" "val i"]
        M res ne by (auto simp: aw_machine_def)
  qed
  then show ?thesis using got ids by (auto simp: aw_main_def)
qed

section \<open>What exit code 0 means\<close>

lemma run_present_Inr:
  "run_present W n r leaf m = Inr (res, m') \<longleftrightarrow> (\<exists>msg. run_step r leaf = Inr msg
     \<and> present (aw_ins W n) m (run_tik W) (aw_sctx W) (aw_exporter W) msg None None = (Inr res, m'))"
proof (cases "run_step r leaf")
  case (Inr msg)
  obtain x m1 where "present (aw_ins W n) m (run_tik W) (aw_sctx W) (aw_exporter W) msg None None = (x, m1)" by fastforce
  with Inr show ?thesis by (cases x) (auto simp: run_present_def)
qed (simp add: run_present_def)

lemma mandate_section_Inr:
  assumes "mandate_section W r leaf r' leaf' = Inr oc"
  obtains report okA whyA m1 okB whyB m2 okA2 whyA2 m3 where "subscript r ''enrol'' = Inr report"
    "enroll (aw_ins W 0) (run_mandate W) (run_enrolment W report leaf) = (Inr (okA, whyA), m1)"
    "run_present W 1 r' leaf' m1 = Inr ((okB, whyB), m2)" "run_present W 2 r leaf m2 = Inr ((okA2, whyA2), m3)"
    "oc = \<lparr>oc_enrolled = okA, oc_present_b = okB, oc_why_b = whyB, oc_present_a = okA2, oc_log = events m3\<rparr>"
proof -
  obtain report where r: "subscript r ''enrol'' = Inr report" using assms by (auto simp: mandate_section_def py_bind_Inr_iff)
  obtain x m1 where e: "enroll (aw_ins W 0) (run_mandate W) (run_enrolment W report leaf) = (x, m1)" by fastforce
  show thesis
  proof (cases x)
    case (Inr res)
    obtain okA whyA where res: "res = (okA, whyA)" by fastforce
    have "py_bind (run_present W 1 r' leaf' m1) (\<lambda>((okB, whyB), m2).
        py_bind (run_present W 2 r leaf m2) (\<lambda>((okA2, _), m3).
          Inr \<lparr>oc_enrolled = okA, oc_present_b = okB, oc_why_b = whyB, oc_present_a = okA2, oc_log = events m3\<rparr>)) = Inr oc"
      using assms r e Inr res by (simp add: mandate_section_def)
    then obtain okB whyB m2 okA2 whyA2 m3 where "run_present W 1 r' leaf' m1 = Inr ((okB, whyB), m2)"
      "run_present W 2 r leaf m2 = Inr ((okA2, whyA2), m3)"
      "oc = \<lparr>oc_enrolled = okA, oc_present_b = okB, oc_why_b = whyB, oc_present_a = okA2, oc_log = events m3\<rparr>"
      by (auto simp: py_bind_Inr_iff)
    with that r e Inr res show thesis by blast
  next
    case (Inl y)
    with assms r e show thesis by (simp add: mandate_section_def)
  qed
qed

lemma run_present_accepted:
  assumes "run_present W n r leaf m = Inr ((True, why), m')"
  obtains l js pl rc an where "subscript r ''post_link'' = Inr (JStr l)" "fromhex l = Inr pl" "subscript r ''step'' = Inr js"
    "mandate_rec m (hex (run_tik W)) = Inr rc" "ledger_admits (cfg m) rc an" "an = None \<longrightarrow> \<not> require_anchor (cfg m)"
    "verify_report (cfg m) (run_evidence js leaf (report_data_for pl None)) (report_data_for pl None) = Inr (True, an)"
    "pl = post_value (aw_exporter W) (expected_base m (run_tik W) (aw_sctx W)) 0"
proof -
  obtain msg where msg: "run_step r leaf = Inr msg"
    and p: "present (aw_ins W n) m (run_tik W) (aw_sctx W) (aw_exporter W) msg None None = (Inr (True, why), m')"
    using assms by (auto simp: run_present_Inr)
  from msg obtain jl pl js where s: "subscript r ''post_link'' = Inr jl" "fromhex_json jl = Inr pl" "subscript r ''step'' = Inr js"
    by (auto simp: run_step_def py_bind_Inr_iff)
  then obtain l where l: "jl = JStr l" "fromhex l = Inr pl" by (cases jl) auto
  have m: "msg = \<lparr>msg_counter = 0, msg_intra_ok_base = False, msg_post_link = l,
      msg_evidence = run_evidence js leaf (report_data_for pl None), msg_head = None\<rparr>"
    using msg s l by (simp add: run_step_def)
  obtain rc pl' an where adm: "admits m (run_tik W) (aw_sctx W) (aw_exporter W) msg None None rc pl' an"
    using p by (rule present_True)
  have "pl' = pl" using adm l m by (simp add: admits_def)
  note adm = adm [unfolded this]
  show thesis
  proof (rule that)
    show "subscript r ''post_link'' = Inr (JStr l)" "fromhex l = Inr pl" "subscript r ''step'' = Inr js" using s l by simp_all
    show "mandate_rec m (hex (run_tik W)) = Inr rc" "ledger_admits (cfg m) rc an" "an = None \<longrightarrow> \<not> require_anchor (cfg m)"
      using adm by (simp_all add: admits_def)
    show "verify_report (cfg m) (run_evidence js leaf (report_data_for pl None)) (report_data_for pl None) = Inr (True, an)"
      using adm by (simp add: admits_def m)
    show "pl = post_value (aw_exporter W) (expected_base m (run_tik W) (aw_sctx W)) 0"
      using admits_link(1) [OF adm] by (simp add: m)
  qed
qed

lemma held_enrolled_of_enroll:
  assumes "enroll (aw_ins W 0) (run_mandate W) (run_enrolment W report leaf) = (Inr (True, why), m1)"
  obtains a where "t_check (aw_ins W 0) < aw_start W + 300"
    "aw_verify W (run_evidence report leaf (sha512 (aw_nonce W @ run_csr W))) (sha512 (aw_nonce W @ run_csr W)) = Inr (True, Some a)"
    "\<exists>r1. mandate_rec m1 (hex (run_tik W)) = Inr r1 \<and> enrolled_instance r1 = Some (hex (anchor_instance a)) \<and> wf_rec r1"
    "cfg m1 = run_cfg W"
proof -
  obtain rc a where adm: "enroll_admits (aw_ins W 0) (run_mandate W) (run_enrolment W report leaf) rc a"
    and d: "enroll_done (run_mandate W) (run_enrolment W report leaf) rc a m1" using assms by (rule enroll_True)
  have rc: "rc = blank" using adm run_mandate_sel(2) [of W "run_tik W"] by (simp add: enroll_admits_def run_enrolment_def)
  have "mandate_rec m1 (hex (run_tik W)) = Inr (map_nonces (store_norm (mstore (run_mandate W))) (enrolled_rec (run_enrolment W report leaf) blank a))"
    using enroll_done_rec [OF d] rc wf_blank by (simp add: run_enrolment_def)
  moreover have "cfg m1 = run_cfg W" using enroll_steps(2) [OF assms] run_mandate_sel(1) by (simp add: ledger_step_def)
  ultimately show thesis
    using that [of a] adm run_mandate_sel [of W] by (auto simp: enroll_admits_def run_enrolment_def wf_norm wf_blank)
qed

text \<open>
  Of the first machine to report: the verifier accepted its report and its step, within the life of the nonce, and if
  the ledger could be read, as one instance.
\<close>

definition owner_proved :: "anchor_world \<Rightarrow> json \<Rightarrow> string option \<Rightarrow> bool" where
  "owner_proved W r leaf \<longleftrightarrow> (let rd = sha512 (aw_nonce W @ run_csr W); rd' = report_data_for (run_link W) None in
     \<exists>report step a an. subscript r ''enrol'' = Inr report \<and> subscript r ''step'' = Inr step
       \<and> aw_verify W (run_evidence report leaf rd) rd = Inr (True, Some a)
       \<and> aw_verify W (run_evidence step leaf rd') rd' = Inr (True, Some an)
       \<and> (anchor_instance a \<noteq> [] \<longrightarrow> anchor_instance an = anchor_instance a))"

lemma run_present_frame:
  assumes "run_present W n r leaf m = Inr (res, m')"
  shows "ledger_step (hex (run_tik W)) soft m m'" "\<not> fst res \<Longrightarrow> sessions m' = sessions m"
    "mandate_rec m (hex (run_tik W)) = Inr rc \<Longrightarrow> wf_rec rc \<Longrightarrow>
      \<exists>rc'. mandate_rec m' (hex (run_tik W)) = Inr rc' \<and> enrolled_instance rc' = enrolled_instance rc"
proof -
  obtain msg where p: "present (aw_ins W n) m (run_tik W) (aw_sctx W) (aw_exporter W) msg None None = (Inr res, m')"
    using assms by (auto simp: run_present_Inr)
  show "ledger_step (hex (run_tik W)) soft m m'" by (rule present_steps(2) [OF p])
  show "\<not> fst res \<Longrightarrow> sessions m' = sessions m" using present_sessions [OF p] by auto
  show "mandate_rec m (hex (run_tik W)) = Inr rc \<Longrightarrow> wf_rec rc \<Longrightarrow>
      \<exists>rc'. mandate_rec m' (hex (run_tik W)) = Inr rc' \<and> enrolled_instance rc' = enrolled_instance rc"
    by (rule present_rec [OF p]) auto
qed

lemma mandate_section_sound:
  assumes "mandate_section W r leaf r' leaf' = Inr oc" "oc_enrolled oc" "\<not> oc_present_b oc" "oc_present_a oc"
  shows "t_check (aw_ins W 0) < aw_start W + 300 \<and> owner_proved W r leaf"
proof -
  obtain report okA whyA m1 okB whyB m2 okA2 whyA2 m3 where rep: "subscript r ''enrol'' = Inr report"
    and calls: "enroll (aw_ins W 0) (run_mandate W) (run_enrolment W report leaf) = (Inr (okA, whyA), m1)"
      "run_present W 1 r' leaf' m1 = Inr ((okB, whyB), m2)" "run_present W 2 r leaf m2 = Inr ((okA2, whyA2), m3)"
    and oc: "oc = \<lparr>oc_enrolled = okA, oc_present_b = okB, oc_why_b = whyB, oc_present_a = okA2, oc_log = events m3\<rparr>"
    using assms(1) by (rule mandate_section_Inr)
  have ok: "okA" "\<not> okB" "okA2" using oc assms(2-4) by simp_all
  then have e: "enroll (aw_ins W 0) (run_mandate W) (run_enrolment W report leaf) = (Inr (True, whyA), m1)"
    and b: "run_present W 1 r' leaf' m1 = Inr ((False, whyB), m2)" and a: "run_present W 2 r leaf m2 = Inr ((True, whyA2), m3)"
    using calls by simp_all
  obtain an0 r1 where en: "t_check (aw_ins W 0) < aw_start W + 300"
    "aw_verify W (run_evidence report leaf (sha512 (aw_nonce W @ run_csr W))) (sha512 (aw_nonce W @ run_csr W)) = Inr (True, Some an0)"
    "mandate_rec m1 (hex (run_tik W)) = Inr r1" "enrolled_instance r1 = Some (hex (anchor_instance an0))" "wf_rec r1"
    "cfg m1 = run_cfg W" using held_enrolled_of_enroll [OF e] by metis
  have s1: "sessions m1 = Map.empty" using enroll_steps(4) [OF e] run_mandate_sel(3) by simp
  have f: "ledger_step (hex (run_tik W)) soft m1 m2" "sessions m2 = sessions m1" using run_present_frame [OF b] by simp_all
  have c2: "cfg m2 = run_cfg W" using f(1) en(6) by (simp add: ledger_step_def)
  obtain l js pl rc an where A: "subscript r ''step'' = Inr js" "mandate_rec m2 (hex (run_tik W)) = Inr rc"
    "ledger_admits (cfg m2) rc an" "an = None \<longrightarrow> \<not> require_anchor (cfg m2)"
    "verify_report (cfg m2) (run_evidence js leaf (report_data_for pl None)) (report_data_for pl None) = Inr (True, an)"
    "pl = post_value (aw_exporter W) (expected_base m2 (run_tik W) (aw_sctx W)) 0"
    using a by (rule run_present_accepted) blast
  have pl: "pl = run_link W" using A(6) s1 f(2) by (simp add: expected_base_def run_link_def)
  have "enrolled_instance rc = Some (hex (anchor_instance an0))"
    using run_present_frame(3) [OF b en(3,5)] en(4) A(2) by auto
  moreover obtain an1 where an1: "an = Some an1" using A(4) c2 by (cases an) auto
  ultimately have "anchor_instance an0 \<noteq> [] \<longrightarrow> anchor_instance an1 = anchor_instance an0"
    using A(3) by (auto simp: ledger_admits_def Let_def opt_fromhex_hex agrees_def)
  then show ?thesis
    using en rep A c2 pl an1 by (auto simp: owner_proved_def Let_def)
qed


lemma py_map_nth: "py_map f xs = Inr ys \<Longrightarrow> length ys = length xs \<and> (\<forall>k < length xs. f (xs ! k) = Inr (ys ! k))"
proof (induction xs arbitrary: ys)
  case (Cons x xs)
  then obtain z zs where "ys = z # zs" "f x = Inr z" "py_map f xs = Inr zs" by (auto simp: py_bind_Inr_iff)
  with Cons.IH show ?case by (auto simp: nth_Cons split: nat.split)
qed simp

lemma claim_of_Inr: "claim_of f = Inr c \<Longrightarrow> \<exists>a. snp_anchor f = Some a \<and> cl_instance c = hex (anchor_instance a) \<and> cl_chip_zero c = snp_chip_id_zero f"
  by (auto simp: claim_of_def split: option.splits)

lemma aw_claim_Inr: "aw_claim r = Inr c \<Longrightarrow> \<exists>f. report_fields r = Inr f \<and> claim_of f = Inr c"
proof -
  assume "aw_claim r = Inr c"
  then obtain f az c' where "report_fields r = Inr f" "claim_of f = Inr c'"
    and "(case az of JStr _ \<Rightarrow> Inr c' | JInt _ \<Rightarrow> Inr c' | JBool _ \<Rightarrow> Inr c' | _ \<Rightarrow> Inl (TypeError ''unsupported format string'')) = Inr c"
    unfolding aw_claim_def py_bind_Inr_iff by blast
  then show ?thesis by (cases az) auto
qed

lemma snp_anchor_report_id: "snp_anchor f = Some a \<Longrightarrow> anchor_instance a = snp_report_id f"
  by (auto simp: snp_anchor_def present_id_Some split: option.splits)

lemma aw_main_sound:
  assumes "aw_main W keep start = Some (Inr 0, fin)"
  shows "fin = (\<not> keep) \<and> t_check (aw_ins W 0) < aw_start W + 300 \<and> (\<exists>i rA j rB rest fA fB leaf.
    poll reassemble (aw_clock W) (aw_console W) (start + 900) (aw_ids W) 0 [] = Some (Inr ((i, rA) # (j, rB) # rest)) \<and>
    report_fields rA = Inr fA \<and> report_fields rB = Inr fB \<and> snp_chip_id_zero fA \<and> snp_chip_id_zero fB \<and>
    snp_report_id fA \<noteq> snp_report_id fB \<and> result_leaf (aw_x509 W) (aw_pem W) rA = Inr leaf \<and> owner_proved W rA leaf)"
proof -
  obtain got v where got: "poll reassemble (aw_clock W) (aw_console W) (start + 900) (aw_ids W) 0 [] = Some (Inr got)"
    and two: "\<not> length got < 2" and v: "aw_sections W got = Inr v" "aw_good v" and fin: "fin = (\<not> keep)"
  proof -
    obtain res where p: "poll reassemble (aw_clock W) (aw_console W) (start + 900) (aw_ids W) 0 [] = Some res"
      using assms by (cases "poll reassemble (aw_clock W) (aw_console W) (start + 900) (aw_ids W) 0 []") (simp_all add: aw_main_def)
    obtain got where r: "res = Inr got" using assms p by (cases res) (simp_all add: aw_main_def)
    have two: "\<not> length got < 2" using assms p r by (auto simp: aw_main_def)
    obtain v where "aw_sections W got = Inr v" using assms p r two by (cases "aw_sections W got") (simp_all add: aw_main_def)
    with assms p r two that show thesis by (cases "aw_good v") (simp_all add: aw_main_def)
  qed
  obtain i rA j rB rest where g: "got = (i, rA) # (j, rB) # rest"
    using two by (cases got; cases "tl got") auto
  obtain cls leaves oc where c: "py_map (\<lambda>(n, r). aw_claim r) got = Inr cls"
    "py_map (\<lambda>(n, r). result_leaf (aw_x509 W) (aw_pem W) r) got = Inr leaves"
    "mandate_section W rA (leaves ! 0) rB (leaves ! 1) = Inr oc"
    and v': "v = \<lparr>vd_both_masked = list_all cl_chip_zero cls, vd_differ = (cl_instance (cls ! 0) \<noteq> cl_instance (cls ! 1)), vd_outcomes = oc\<rparr>"
    using v(1) g by (auto simp: aw_sections_def py_bind_Inr_iff)
  have cl: "aw_claim rA = Inr (cls ! 0)" "aw_claim rB = Inr (cls ! 1)" "length cls = length got"
    using py_map_nth [OF c(1)] g by (auto dest: spec [of _ 0] spec [of _ 1])
  obtain fA fB where f: "report_fields rA = Inr fA" "claim_of fA = Inr (cls ! 0)" "report_fields rB = Inr fB" "claim_of fB = Inr (cls ! 1)"
    using aw_claim_Inr [OF cl(1)] aw_claim_Inr [OF cl(2)] by blast
  have good: "list_all cl_chip_zero cls" "cl_instance (cls ! 0) \<noteq> cl_instance (cls ! 1)" "oc_enrolled oc" "\<not> oc_present_b oc" "oc_present_a oc"
    using v(2) v' by (simp_all add: aw_good_def)
  have "cl_chip_zero (cls ! 0)" "cl_chip_zero (cls ! 1)" using good(1) cl(3) g by (simp_all add: list_all_length)
  moreover have "result_leaf (aw_x509 W) (aw_pem W) rA = Inr (leaves ! 0)" using py_map_nth [OF c(2)] g by (auto dest: spec [of _ 0])
  ultimately show ?thesis
    using fin got g f good(2) claim_of_Inr [OF f(2)] claim_of_Inr [OF f(4)] snp_anchor_report_id mandate_section_sound [OF c(3) good(3-5)]
    by auto
qed

section \<open>Where the verdict says more than the run\<close>

text \<open>The nonce lives 300 seconds, the waiting alone may take 900: a run whose reports come later never ends with 0.\<close>

lemma late_run_fails:
  "aw_start W + 300 \<le> t_check (aw_ins W 0) \<Longrightarrow> aw_main W keep start \<noteq> Some (Inr 0, fin)"
  using aw_main_sound [of W keep start fin] by auto

text \<open>A second machine whose Evidence does not verify at all counts as an impostor refused.\<close>

lemma run_unverified:
  assumes h: "held W a m" and r: "reads r W S l"
    and v: "aw_verify W (run_evidence (JStr (b64encode (se_step S))) leaf (report_data_for (run_link W) None)) (report_data_for (run_link W) None)
      = Inr (False, None)"
  shows "\<exists>m'. run_present W n r leaf m = Inr ((False, ''evidence invalid or does not bind the link''), m') \<and> held W a m'"
proof -
  obtain rc where rc: "mandate_rec m (hex (run_tik W)) = Inr rc" "wf_rec rc" "\<not> revoked rc"
    "enrolled_instance rc = Some (hex (anchor_instance a))" "enrolled_place rc = hex_opt (anchor_place a)" "observed_instance rc = None"
    and m: "cfg m = run_cfg W" "sessions m = Map.empty" "log_inv m" using h by (auto simp: held_def)
  let ?msg = "\<lparr>msg_counter = 0, msg_intra_ok_base = False, msg_post_link = hex (run_link W),
    msg_evidence = run_evidence (JStr (b64encode (se_step S))) leaf (report_data_for (run_link W) None), msg_head = None\<rparr>"
  let ?why = "''evidence invalid or does not bind the link''"
  let ?m1 = "emit_event m [ES ''declined-evidence'', ES (take 16 (hex (run_tik W))), EI 0]"
  have ap: "appraise (aw_ins W n) m (run_tik W) (aw_sctx W) (aw_exporter W) ?msg None None = (Inr (False, ?why, None), ?m1)"
    using rc v m by (simp add: appraise_def Let_def head_check_def refuse_def)
  obtain o2 m2 where rd: "record_decision (aw_ins W n) ?m1 ''present'' (run_tik W) False ?why None = (o2, m2)" by fastforce
  have p: "present (aw_ins W n) m (run_tik W) (aw_sctx W) (aw_exporter W) ?msg None None = (Inr (False, ?why), m2)"
    using ap rd by (simp add: present_eq)
  have "held W a m2"
    using h record_decision_sel [OF rd] present_steps(1) [OF p] log_inv_step [of m m2] m(3) by (simp add: held_def)
  with p show ?thesis by (auto simp: run_present_Inr run_step_reads [OF r])
qed

lemma unverified_counts_as_refused:
  assumes csr: "csr_correct (aw_crypto W)" and len: "length (aw_sctx W) < 256" and t: "t_check (aw_ins W 0) < aw_start W + 300"
    and A: "genuine pick enr W G f a S" "reads r W S l" and B: "reads r' W S' l'"
      "aw_verify W (run_evidence (JStr (b64encode (se_step S'))) leaf' (report_data_for (run_link W) None)) (report_data_for (run_link W) None)
        = Inr (False, None)"
  shows "\<exists>lg. mandate_section W r (se_leaf S) r' leaf' = Inr \<lparr>oc_enrolled = True, oc_present_b = False,
    oc_why_b = ''evidence invalid or does not bind the link'', oc_present_a = True, oc_log = lg\<rparr>"
proof -
  have a: "anchor_instance a \<noteq> []" using A(1) snp_anchor_ne by (auto simp: genuine_def Let_def)
  obtain m1 where m1: "enroll (aw_ins W 0) (run_mandate W) (run_enrolment W (JStr (b64encode (se_rep S))) (se_leaf S)) = (Inr (True, ''enrolled''), m1)"
    "held W a m1" using run_enrols [OF csr t, of "se_rep S" "se_leaf S" a] A(1) by (auto simp: genuine_def Let_def)
  obtain m2 where m2: "run_present W 1 r' leaf' m1 = Inr ((False, ''evidence invalid or does not bind the link''), m2)"
    "held W a m2" using run_unverified [OF m1(2) B] by blast
  obtain m3 where m3: "run_present W 2 r (se_leaf S) m2 = Inr ((True, ''accepted; continuity intact''), m3)"
    using run_owner [OF m2(2) A(2) a len, of "se_leaf S" 2] A(1) by (auto simp: genuine_def Let_def)
  have "subscript r ''enrol'' = Inr (JStr (b64encode (se_rep S)))" using A(2) by (auto simp: reads_def subscript_def dindex_def)
  then show ?thesis using m1 m2 m3 by (simp add: mandate_section_def)
qed

section \<open>The Azure run\<close>

lemma az_reassemble_eq: "az_reassemble = reassemble"
  by (rule ext) (simp only: az_reassemble_def reassemble_def)

abbreviation az_genuine where "az_genuine \<equiv> genuine az_pick_leaf az_enrol_report"

lemma az_out_genuine:
  assumes g: "az_genuine W G f a S" and len: "length (aw_sctx W) < 256"
  shows "\<exists>out. az_out G (run_args W) = Inr out \<and> wf_json out \<and> reads (sort_json out) W S (hex (fst (az_pick_leaf (se_certs S))))"
proof -
  obtain leaf ivs where l: "az_pick_leaf (se_certs S) = (leaf, ivs)" by fastforce
  let ?kvs = "[(''host'', JStr (gs_name G)), (''enrol'', JStr (b64encode (se_rep S))),
            (''leaf'', JStr (hex leaf)), (''post_link'', JStr (hex (run_link W))),
            (''notes'', JList (map JStr (se_notes S @ gs_kernel G @ [table_note ''table '' ivs leaf]))),
            (''step'', JStr (b64encode (se_step S)))]"
  have o: "az_out G (run_args W) = Inr (JObj ?kvs)"
    unfolding az_out_def az_aw run_link_Inr [OF len] py_bind.simps
    using g l by (simp add: genuine_def Let_def run_args_def aw_links_eq)
  have w: "wf_json (JObj ?kvs)" by (auto simp: list_all_iff)
  have dis: "distinct (map fst ?kvs)" by simp
  obtain d where d: "sort_json (JObj ?kvs) = JObj d" by simp
  note lk = sort_json_lookup [OF dis d]
  show ?thesis
    by (rule exI [of _ "JObj ?kvs"]) (use o w d l in \<open>simp add: reads_def lk\<close>)
qed

lemma az_sections_honest:
  assumes csr: "csr_correct (aw_crypto W)" and len: "length (aw_sctx W) < 256" and t: "t_check (aw_ins W 0) < aw_start W + 300"
    and A: "az_genuine W G f a S" "reads r W S (hex (fst (az_pick_leaf (se_certs S))))"
    and B: "az_genuine W G' f' b S'" "reads r' W S' (hex (fst (az_pick_leaf (se_certs S'))))"
    and ne: "anchor_instance b \<noteq> anchor_instance a"
  shows "\<exists>v. az_sections W [(i, r), (j, r')] = Inr v \<and> az_good v"
proof -
  have c: "az_claim r = claim_of f" "az_claim r' = claim_of f'"
    using honest_report_fields [OF A] honest_report_fields [OF B] A(2) B(2)
    by (auto simp: az_claim_def reads_def subscript_def dindex_def notes_of_def)
  obtain lg where "mandate_section W r (se_leaf S) r' (se_leaf S') = Inr \<lparr>oc_enrolled = True, oc_present_b = False,
    oc_why_b = ''rejected: key presented from an instance it was not enrolled on'', oc_present_a = True, oc_log = lg\<rparr>"
    using mandate_section_honest [OF csr len t A B ne] by blast
  then show ?thesis
    using honest_leaf [OF A] honest_leaf [OF B] honest_claim_of [OF A(1)] honest_claim_of [OF B(1)] ne
    by (simp add: az_sections_def c az_good_def)
qed

definition az_machine :: "anchor_world \<Rightarrow> machine \<Rightarrow> bool" where
  "az_machine W M \<longleftrightarrow> az_genuine W (mc_guest M) (mc_fields M) (mc_anchor M) (mc_sent M)
     \<and> az_out (mc_guest M) (run_args W) = Inr (mc_out M)"

lemma az_main_exits_0:
  assumes csr: "csr_correct (aw_crypto W)" and len: "length (aw_sctx W) < 256" and t: "t_check (aw_ins W 0) < aw_start W + 300"
    and ids: "aw_ids W = [i, j]" "i \<noteq> j"
    and M: "az_machine W (M i)" "az_machine W (M j)" and ne: "anchor_instance (mc_anchor (M i)) \<noteq> anchor_instance (mc_anchor (M j))"
    and con: "\<And>k n. n \<in> {i, j} \<Longrightarrow> console_of (gs_name (mc_guest (M n))) ''azure'' (mc_out (M n)) (aw_console W k n)"
    and done': "\<And>n. n \<in> {i, j} \<Longrightarrow> \<exists>k \<le> N. complete (gs_name (mc_guest (M n))) ''azure'' (mc_out (M n)) (aw_console W k n)"
    and time: "\<And>k. k \<le> N \<Longrightarrow> aw_clock W k < start + 1200"
  shows "az_main W keep start = Some (Inr 0, \<not> keep)"
proof -
  define val where "val = (\<lambda>n. sort_json (mc_out (M n)))"
  have res: "reads (val n) W (mc_sent (M n)) (hex (fst (az_pick_leaf (se_certs (mc_sent (M n))))))" if "n \<in> {i, j}" for n
    using az_out_genuine [OF _ len, of "mc_guest (M n)" "mc_fields (M n)" "mc_anchor (M n)" "mc_sent (M n)"] M that
    by (auto simp: az_machine_def val_def)
  then have obj: "val n \<noteq> JNull" if "n \<in> {i, j}" for n using that by (fastforce simp: reads_def)
  obtain got where got: "poll reassemble (aw_clock W) (aw_console W) (start + 1200) [i, j] 0 [] = Some (Inr got)"
    "got = [(i, val i), (j, val j)] \<or> got = [(j, val j), (i, val i)]"
    using honest_poll [where val = val and con = "aw_console W" and clock = "aw_clock W" and N = N, OF ids(2) obj _ _ time] con done'
    by (metis val_def)
  have "\<exists>v. az_sections W got = Inr v \<and> az_good v"
    using got(2) az_sections_honest [OF csr len t, of "mc_guest (M i)" _ _ "mc_sent (M i)" "val i" "mc_guest (M j)" _ _ "mc_sent (M j)" "val j"]
      az_sections_honest [OF csr len t, of "mc_guest (M j)" _ _ "mc_sent (M j)" "val j" "mc_guest (M i)" _ _ "mc_sent (M i)" "val i"]
      M res ne by (auto simp: az_machine_def)
  then show ?thesis using got ids by (auto simp: az_main_def az_reassemble_eq)
qed

end
