(* ===== verification/Sample_Machines.thy ===== *)
theory Sample_Machines
  imports Anchor_Proofs Sample_Worlds
begin

text \<open>
  Two machines with devices that return well-formed SEV-SNP reports, and the run over them: the hypotheses of the
  theorems on the anchor run hold of them. The length of a dumped value is bounded on the way.
\<close>

section \<open>The length of a dumped value\<close>

fun jbound :: "json \<Rightarrow> nat" where
  "jbound JNull = 4"
| "jbound (JBool b) = 5"
| "jbound (JInt n) = length (dec_int n)"
| "jbound (JStr s) = 6 * length s + 2"
| "jbound (JList xs) = 2 + sum_list (map (\<lambda>x. jbound x + 2) xs)"
| "jbound (JObj kvs) = 2 + sum_list (map (\<lambda>(k, v). 6 * length k + 6 + jbound v) kvs)"

lemma length_emit:
  "length (item_sep p) \<le> 2 \<Longrightarrow> length (key_sep p) \<le> 2 \<Longrightarrow> length (emit p j) \<le> jbound j"
  "length (item_sep p) \<le> 2 \<Longrightarrow> length (key_sep p) \<le> 2 \<Longrightarrow> length (emit_items p xs) \<le> sum_list (map (\<lambda>x. jbound x + 2) xs)"
  "length (item_sep p) \<le> 2 \<Longrightarrow> length (key_sep p) \<le> 2 \<Longrightarrow>
    length (emit_members p kvs) \<le> sum_list (map (\<lambda>(k, v). 6 * length k + 6 + jbound v) kvs)"
proof (induction p j and p xs and p kvs rule: emit_emit_items_emit_members.induct)
  case (10 p k v kvs)
  then show ?case using length_emit_str [of k] by auto
qed (use length_emit_str in \<open>auto\<close>)

lemma sum_list_sort: "sum_list (map f (sort_key g xs)) = (sum_list (map f xs) :: nat)"
  by (metis mset_map mset_sort sum_mset_sum_list)

lemma jbound_sort: "jbound (sort_json j) = jbound j"
proof (induction j)
  case (JList xs)
  then show ?case by (simp add: comp_def cong: map_cong)
next
  case (JObj kvs)
  then have "\<forall>x \<in> set kvs. jbound (sort_json (snd x)) = jbound (snd x)" by (auto simp: snds.simps)
  then show ?case by (simp add: sum_list_sort comp_def case_prod_unfold cong: map_cong)
qed simp_all

lemma dumps_bound: "length (encode (dumps default_seps j)) \<le> jbound j"
proof -
  have "encode (dumps default_seps j) = lit (emit default_seps (sort_json j))" by (simp add: dumps_def encode_ascii ascii_emit)
  then show ?thesis using length_emit(1) [of default_seps "sort_json j"] by (simp add: jbound_sort len_simps default_seps_def)
qed

section \<open>Two machines that report\<close>

text \<open>A report that names an instance, signed under a VCEK of all-zero TCB; the certificate table is empty.\<close>

definition snp_bytes :: "bytes \<Rightarrow> bytes \<Rightarrow> bytes" where
  "snp_bytes rid rd = zeros 80 @ rd @ zeros 176 @ rid @ zeros 832"

definition sample_snp_device :: "bytes \<Rightarrow> sev_device" where
  "sample_snp_device rid = \<lparr>dev_report = (\<lambda>j ud. Inr (0, 1184, snp_bytes rid ud)),
     dev_ext = (\<lambda>j ud n. Inr (0, 1184, snp_bytes rid ud, 0, zeros n))\<rparr>"

text \<open>Libraries that accept every signature.\<close>

definition sample_x509 :: x509_lib where
  "sample_x509 = \<lparr>x_pem_to_der = Inr, x_load_der = (\<lambda>d. Inr ()), x_verify_rs = (\<lambda>d r s b. Inr ()),
     x_openssl_pem = Inr, x_verify_chain = (\<lambda>a b c. Inr ())\<rparr>"

definition sample_snp_verifier :: "json \<Rightarrow> bytes \<Rightarrow> (bool \<times> anchor option) py" where
  "sample_snp_verifier ev rd = fst (sevsnp_verifier sample_x509 (\<lambda>u n. HttpBody [])
     \<lparr>require_chain = False, allow_debug = False, pinned_measurement = None, pinned_ark = None\<rparr> Map.empty ev rd)"

definition rid_of :: "string \<Rightarrow> bytes" where
  "rid_of n = replicate 32 (if n = ''a'' then 1 else 2)"

definition sample_guest_of :: "string \<Rightarrow> guest" where
  "sample_guest_of n = \<lparr>gs_name = n, gs_zone = ''z'', gs_device = sample_snp_device (rid_of n), gs_repr = (\<lambda>e. []), gs_kernel = []\<rparr>"

lemma le_of_zeros [simp]: "from_le (zeros n) = 0"
  by (induction n) (simp_all add: zeros_def)

lemma snp_bytes_fields:
  assumes "length rid = 32" "length rd = 64" "any_set rid"
  shows "length (snp_bytes rid rd) = 1184"
    "\<exists>f. parse_snp (snp_bytes rid rd) = Inr f \<and> snp_report_data f = rd \<and> snp_policy f = 0 \<and> snp_chip_id_zero f
      \<and> snp_signing_key f = SkName ''VCEK'' \<and> snp_anchor f = Some \<lparr>anchor_instance = rid, anchor_place = None\<rparr>"
proof -
  show len: "length (snp_bytes rid rd) = 1184" using assms by (simp add: snp_bytes_def len_simps)
  have sl: "slice 8 16 (snp_bytes rid rd) = zeros 8" "slice 72 76 (snp_bytes rid rd) = zeros 4" "slice 416 480 (snp_bytes rid rd) = zeros 64"
    "slice 80 144 (snp_bytes rid rd) = rd" "slice 320 352 (snp_bytes rid rd) = rid" "slice 0 4 (snp_bytes rid rd) = zeros 4"
    using assms by (simp_all add: slice_def snp_bytes_def zeros_def)
  show "\<exists>f. parse_snp (snp_bytes rid rd) = Inr f \<and> snp_report_data f = rd \<and> snp_policy f = 0 \<and> snp_chip_id_zero f
      \<and> snp_signing_key f = SkName ''VCEK'' \<and> snp_anchor f = Some \<lparr>anchor_instance = rid, anchor_place = None\<rparr>"
    using len assms(3) sl by (simp add: parse_snp_def Let_def u32_at_def u64_at_def snp_key_name_def snp_anchor_def present_id_def)
qed


lemma sample_snp_accepts:
  assumes "length rid = 32" "length rd = 64" "any_set rid"
  shows "sample_snp_verifier (run_evidence (JStr (b64encode (snp_bytes rid rd))) None rd) rd = Inr (True, Some \<lparr>anchor_instance = rid, anchor_place = None\<rparr>)"
proof -
  obtain f where f: "parse_snp (snp_bytes rid rd) = Inr f" "snp_report_data f = rd" "snp_policy f = 0"
      "snp_signing_key f = SkName ''VCEK''" "snp_anchor f = Some \<lparr>anchor_instance = rid, anchor_place = None\<rparr>"
    using snp_bytes_fields(2) [OF assms] by blast
  have "[0..<6] = [0, 1, 2, 3, 4, 5::nat]" by (simp add: upt_rec)
  then have leaf: "fst (leaf_cert sample_x509 (\<lambda>u n. HttpBody []) Map.empty f None) = Inr []"
    using f(4) by (simp add: leaf_cert_def Let_def kds_get_def split: prod.split) (simp add: sample_x509_def)
  obtain c1 where l: "leaf_cert sample_x509 (\<lambda>u n. HttpBody []) Map.empty f None = (Inr [], c1)"
    using leaf by (cases "leaf_cert sample_x509 (\<lambda>u n. HttpBody []) Map.empty f None") auto
  have v: "x_verify_rs sample_x509 d r s b = Inr ()" for d r s b by (simp add: sample_x509_def)
  show ?thesis
    using f l v by (simp add: sample_snp_verifier_def sevsnp_verifier_def run_evidence_def dget_def dindex_def b64decode_encode
        snp_signature_ok_def supplied_pem_of_def Let_def)
qed

definition sample_anchor_world :: anchor_world where
  "sample_anchor_world = \<lparr>aw_crypto = sample_crypto, aw_verify = sample_snp_verifier, aw_x509 = sample_x509, aw_pem = (\<lambda>d. []),
     aw_sth_key = [3], aw_key = [2], aw_csr_rnd = [], aw_nonce = [8], aw_exporter = [9], aw_sctx = [5], aw_start = 0,
     aw_ins = (\<lambda>n. sample_inputs), aw_ids = [''a'', ''b''], aw_clock = (\<lambda>k. 0), aw_console = (\<lambda>k n. Inr [])\<rparr>"

definition sample_sent :: "string \<Rightarrow> sent" where
  "sample_sent n = \<lparr>se_rep = snp_bytes (rid_of n) (sha512 (aw_nonce sample_anchor_world @ run_csr sample_anchor_world)), se_certs = [],
     se_notes = [''ext direct ok len='' @ dec_int 0],
     se_step = snp_bytes (rid_of n) (report_data_for (run_link sample_anchor_world) None), se_leaf = None\<rparr>"

lemma rid_of_facts: "length (rid_of n) = 32" "any_set (rid_of n)" "rid_of ''a'' \<noteq> rid_of ''b''"
  by (simp_all add: rid_of_def any_set_def list_ex_iff)

lemma sample_world_verify [simp]: "aw_verify (sample_anchor_world\<lparr>aw_console := c\<rparr>) = sample_snp_verifier"
  by (simp add: sample_anchor_world_def)

text \<open>The consoles show what each guest prints, from the first round on.\<close>

definition sample_out :: "string \<Rightarrow> json" where
  "sample_out n = (case aw_out (sample_guest_of n) (run_args sample_anchor_world) of Inl e \<Rightarrow> JNull | Inr j \<Rightarrow> j)"

definition sample_lines :: "string \<Rightarrow> (string \<times> string) list" where
  "sample_lines n = map (\<lambda>l. (l, [])) (probe_lines 1 n ''z'' (sample_out n))"

definition running_world :: anchor_world where
  "running_world = sample_anchor_world\<lparr>aw_console := \<lambda>k n. Inr (console (sample_lines n))\<rparr>"

lemma running_sel [simp]:
  "aw_crypto running_world = sample_crypto" "aw_verify running_world = sample_snp_verifier" "aw_x509 running_world = sample_x509"
  "aw_pem running_world = (\<lambda>d. [])" "aw_nonce running_world = [8]" "aw_exporter running_world = [9]" "aw_sctx running_world = [5]"
  "aw_start running_world = 0" "aw_ins running_world = (\<lambda>n. sample_inputs)" "aw_ids running_world = [''a'', ''b'']"
  "aw_clock running_world = (\<lambda>k. 0)" "aw_console running_world = (\<lambda>k n. Inr (console (sample_lines n)))"
  "run_csr running_world = run_csr sample_anchor_world" "run_tik running_world = run_tik sample_anchor_world"
  "run_link running_world = run_link sample_anchor_world" "run_args running_world = run_args sample_anchor_world"
  by (simp_all add: running_world_def sample_anchor_world_def run_csr_def run_tik_def run_link_def run_args_def)

lemma sample_genuine:
  "\<exists>f. aw_genuine running_world (sample_guest_of n) f \<lparr>anchor_instance = rid_of n, anchor_place = None\<rparr> (sample_sent n) \<and> snp_chip_id_zero f"
proof -
  have n8: "aw_nonce sample_anchor_world = [8]" by (simp add: sample_anchor_world_def)
  let ?rd = "sha512 (8 # run_csr sample_anchor_world)" and ?rd' = "report_data_for (run_link sample_anchor_world) None"
  have len: "length ?rd = 64" "length ?rd' = 64" by (simp_all add: len_simps)
  obtain f where f: "parse_snp (snp_bytes (rid_of n) ?rd) = Inr f" "snp_chip_id_zero f"
      "snp_anchor f = Some \<lparr>anchor_instance = rid_of n, anchor_place = None\<rparr>"
    using snp_bytes_fields(2) [OF rid_of_facts(1) len(1) rid_of_facts(2)] by blast
  have l: "length (snp_bytes (rid_of n) ?rd) = 1184" "length (snp_bytes (rid_of n) ?rd') = 1184"
    using snp_bytes_fields(1) rid_of_facts len by blast+
  have pick: "aw_pick_leaf [] = ([], [])" by (simp add: aw_pick_leaf_def pick_loop.simps first_der.simps)
  show ?thesis
    using f l len n8 sample_snp_accepts [OF rid_of_facts(1) len(1) rid_of_facts(2)] sample_snp_accepts [OF rid_of_facts(1) len(2) rid_of_facts(2)]
    by (intro exI [of _ f]) (simp add: genuine_def Let_def sample_sent_def sample_guest_of_def sample_snp_device_def aw_enrol_report_def
        aw_snp_ext_def ext_len_def aw_snp_def pick leaf_pem_def)
qed


lemma sample_csr_ok: "csr_correct (aw_crypto running_world)" "length (aw_sctx running_world) < 256"
  "t_check (aw_ins running_world 0) < aw_start running_world + 300"
  by (simp_all add: sample_csr_correct sample_inputs_def)

definition sample_fields :: "string \<Rightarrow> snp_fields" where
  "sample_fields n = (case parse_snp (se_rep (sample_sent n)) of Inl e \<Rightarrow> undefined | Inr f \<Rightarrow> f)"

definition sample_machine :: "string \<Rightarrow> machine" where
  "sample_machine n = \<lparr>mc_guest = sample_guest_of n, mc_fields = sample_fields n,
     mc_anchor = \<lparr>anchor_instance = rid_of n, anchor_place = None\<rparr>, mc_sent = sample_sent n, mc_out = sample_out n\<rparr>"

lemma sample_machine_ok:
  "aw_machine running_world (sample_machine n)" "wf_json (sample_out n)"
proof -
  obtain f where f: "aw_genuine running_world (sample_guest_of n) f \<lparr>anchor_instance = rid_of n, anchor_place = None\<rparr> (sample_sent n)"
    "snp_chip_id_zero f" using sample_genuine by blast
  then have ff: "sample_fields n = f" by (simp add: genuine_def Let_def sample_fields_def)
  obtain out where out: "aw_out (sample_guest_of n) (run_args running_world) = Inr out" "wf_json out"
    using aw_out_genuine [OF f(1) sample_csr_ok(2)] by blast
  then have o: "sample_out n = out" by (simp add: sample_out_def)
  show "aw_machine running_world (sample_machine n)" using f ff out o by (simp add: aw_machine_def sample_machine_def)
  show "wf_json (sample_out n)" using out o by simp
qed

lemma sample_out_short:
  assumes "n = ''a'' \<or> n = ''b''"
  shows "chunk_count (sent_hex (sample_out n)) \<le> 10000"
proof -
  obtain f where f: "aw_genuine running_world (sample_guest_of n) f \<lparr>anchor_instance = rid_of n, anchor_place = None\<rparr> (sample_sent n)"
    using sample_genuine by blast
  have o: "sample_out n = JObj (aw_json running_world (sample_guest_of n) (sample_sent n))"
    using aw_out_json [OF f sample_csr_ok(2)] by (simp add: sample_out_def)
  have pick: "aw_pick_leaf [] = ([], [])" by (simp add: aw_pick_leaf_def pick_loop.simps first_der.simps)
  have l: "length (se_rep (sample_sent n)) = 1184" "length (se_step (sample_sent n)) = 1184"
    using snp_bytes_fields(1) rid_of_facts by (simp_all add: sample_sent_def len_simps)
  have b: "length (b64encode (se_rep (sample_sent n))) \<le> 2372" "length (b64encode (se_step (sample_sent n))) \<le> 2372"
    using length_b64encode [of "se_rep (sample_sent n)"] length_b64encode [of "se_step (sample_sent n)"] l by simp_all
  have z: "dec_int 0 = ''0''" by code_simp
  have s: "se_certs (sample_sent n) = []" "se_notes (sample_sent n) = [''ext direct ok len='' @ dec_int 0]" by (simp_all add: sample_sent_def)
  have "jbound (sample_out n) \<le> 100000"
    using b assms unfolding o aw_json_def by (auto simp: sample_guest_of_def pick table_note_def z s len_simps run_link_def)
  then have "length (encode (dumps default_seps (sample_out n))) \<le> 100000" using dumps_bound [of "sample_out n"] by simp
  then show ?thesis by (simp add: chunk_count_def len_simps)
qed

text \<open>The run of two such machines ends with 0.\<close>

lemma sample_received:
  assumes "n = ''a'' \<or> n = ''b''"
  shows "\<exists>mid. received n ''z'' (sample_out n) [] mid (sample_lines n)"
proof -
  have "word_ok n" "word_ok ''z''" using assms by (auto simp: word_ok_def space_char_def TAG_def)
  then have "received n ''z'' (sample_out n) [] (concat (replicate 1 (map (chunk_line (sent_hex (sample_out n)))
      [0..<chunk_count (sent_hex (sample_out n))]))) (sample_lines n)"
    using sample_machine_ok(2) [of n] sample_out_short [OF assms]
    by (intro probe_received) (simp_all add: sample_lines_def comp_def list_all_iff)
  then show ?thesis by blast
qed

lemma sample_console:
  assumes "n \<in> {''a'', ''b''}"
  shows "console_of (gs_name (mc_guest (sample_machine n))) (gs_zone (mc_guest (sample_machine n))) (mc_out (sample_machine n))
      (aw_console running_world k n)"
    "complete (gs_name (mc_guest (sample_machine n))) (gs_zone (mc_guest (sample_machine n))) (mc_out (sample_machine n))
      (aw_console running_world k n)"
proof -
  obtain mid where "received n ''z'' (sample_out n) [] mid (sample_lines n)" using sample_received assms by blast
  then have "\<exists>n0 mid ls. received n ''z'' (sample_out n) n0 mid ls \<and> console (sample_lines n) = n0 @ console ls" by fastforce
  then show "console_of (gs_name (mc_guest (sample_machine n))) (gs_zone (mc_guest (sample_machine n))) (mc_out (sample_machine n))
      (aw_console running_world k n)"
    "complete (gs_name (mc_guest (sample_machine n))) (gs_zone (mc_guest (sample_machine n))) (mc_out (sample_machine n))
      (aw_console running_world k n)"
    by (simp_all add: console_of_def complete_def sample_machine_def sample_guest_of_def)
qed

lemma sample_run: "aw_main running_world keep 0 = Some (Inr 0, \<not> keep)"
proof (rule aw_main_exits_0 [where M = sample_machine and N = 0])
  show "aw_ids running_world = [''a'', ''b'']" by simp
qed (use sample_csr_ok sample_machine_ok(1) sample_console rid_of_facts(3) in \<open>auto simp: sample_machine_def\<close>)

end
