(* ===== verification/Hw_Runs.thy ===== *)
theory Hw_Runs
  imports Anchor_Run Relying_Party
begin

text \<open>
  The runs against live SEV-SNP guests: \<open>main\<close> of \<open>examples/enroll_run.py\<close>, \<open>examples/transfer_hw.py\<close>,
  \<open>examples/witness_hw.py\<close>, \<open>examples/federation_hw.py\<close> and \<open>examples/reattest_freshness_hw.py\<close>, each as the
  sequence of its client blocks and its calls of the mandate. The result is the exit code with the content of
  \<open>verdict.json\<close>, or what escaped, and the mandate. The TLS library of each connection is a parameter, as for
  \<open>HatlsClient\<close>; so are the verifier, the keys, the random values and the clock. What is printed is not modelled,
  what a \<open>print\<close> reads is; the copies of replies and reports saved beside the verdict are not either. Of the verdict
  of the last script only what was accepted, and why, is kept.
\<close>

section \<open>What the scripts share\<close>

record hw_world =
  hw_crypto :: crypto
  hw_verify :: "json \<Rightarrow> bytes \<Rightarrow> (bool \<times> anchor option) py"
  hw_sth_key :: "nat \<Rightarrow> bytes"
  hw_now :: "nat \<Rightarrow> rat"
  hw_nonce :: "nat \<Rightarrow> bytes"
  hw_ins :: "nat \<Rightarrow> inputs"
  hw_owner :: bytes
  hw_grant_rnd :: bytes
  hw_grant_now :: rat
  hw_grant_nonce :: bytes
  hw_random :: bytes
  hw_rewrite_at :: rat

text \<open>\<open>Mandate(sevsnp_verifier())\<close>, the \<open>k\<close>-th of the run, the other arguments at their defaults.\<close>

definition hw_cfg :: "hw_world \<Rightarrow> nat \<Rightarrow> config" where
  "hw_cfg W k = \<lparr>cf_crypto = hw_crypto W, verify_report = hw_verify W, signing_key = hw_sth_key W k,
     ephemeral_signing_key = True, require_anchor = True, require_enrolment = False, require_place = False,
     challenge_ttl = 300, witness_ttl = 3600, enrolment_authority = None\<rparr>"

definition hw_mandate :: "hw_world \<Rightarrow> nat \<Rightarrow> mandate" where
  "hw_mandate W k = mandate_new (hw_cfg W k) (MemoryStore [])"

text \<open>\<open>with HatlsClient(ip, port) as cl\<close>: leaving the block closes the connection and changes nothing the script reads later.\<close>

definition in_client_at :: "'c tls_conn \<Rightarrow> string \<Rightarrow> int \<Rightarrow> 's \<Rightarrow> ('c \<Rightarrow> ('a py \<times> 's) option) \<Rightarrow> ('a py \<times> 's) option" where
  "in_client_at T ip port s body = (case client_enter T (client_new ip port None None) of
     Inl x \<Rightarrow> Some (Inl x, s)
   | Inr c \<Rightarrow> body c)"

abbreviation in_client :: "'c tls_conn \<Rightarrow> string \<Rightarrow> 's \<Rightarrow> ('c \<Rightarrow> ('a py \<times> 's) option) \<Rightarrow> ('a py \<times> 's) option" where
  "in_client T ip \<equiv> in_client_at T ip 8443"

definition client_ask :: "'c tls_conn \<Rightarrow> 'c \<Rightarrow> json \<Rightarrow> 's \<Rightarrow> ((json \<times> 'c) py \<times> 's) option" where
  "client_ask T c obj s = map_option (\<lambda>(r, c1). (py_bind r (\<lambda>j. Inr (j, c1)), s)) (client_request T c obj)"

definition hw_enrol_request :: "bytes \<Rightarrow> json" where
  "hw_enrol_request nonce = JObj [(''enroll'', JBool True), (''nonce'', JStr (hex nonce))]"

definition hw_steps_request :: "int \<Rightarrow> bytes option \<Rightarrow> json" where
  "hw_steps_request n head = JObj ((''steps'', JInt n) # (case head of None \<Rightarrow> [] | Some h \<Rightarrow> [(''head'', JStr (hex h))]))"

text \<open>\<open>xs[n]\<close> of a parsed value.\<close>

definition nth_of :: "json \<Rightarrow> nat \<Rightarrow> json py" where
  "nth_of j n = (case j of
     JList xs \<Rightarrow> if n < length xs then Inr (xs ! n) else Inl (IndexError ''list index out of range'')
   | JStr s \<Rightarrow> if n < length s then Inr (JStr [s ! n]) else Inl (IndexError ''string index out of range'')
   | JObj _ \<Rightarrow> Inl (KeyError (dec_int (int n)))
   | _ \<Rightarrow> Inl (TypeError ''object is not subscriptable''))"

definition first_step :: "json \<Rightarrow> json py" where
  "first_step blob = py_bind (subscript blob ''chain'') (\<lambda>ch. nth_of ch 0)"

text \<open>The message made of a step, over the head the guest was given.\<close>

definition step_msg :: "json \<Rightarrow> bytes option \<Rightarrow> message py" where
  "step_msg s head =
     py_bind (subscript s ''post_link'') (\<lambda>jl.
     py_bind (subscript s ''report'') (\<lambda>jr.
     py_bind (fromhex_json jl) (\<lambda>pl. (case jl of
       JStr l \<Rightarrow> Inr \<lparr>msg_counter = 0, msg_intra_ok_base = False, msg_post_link = l,
         msg_evidence = JObj [(''kind'', JStr ''sev-snp''), (''report'', jr),
           (''report_data'', JStr (hex (report_data_for pl head)))], msg_head = None\<rparr>
     | _ \<Rightarrow> Inl (TypeError ''fromhex'')))))"

text \<open>\<open>m.present(tik, cl.session_context, cl.exporter, msg, ...)\<close>, the message evaluated last.\<close>

definition hw_present ::
  "inputs \<Rightarrow> 'c tls_conn \<Rightarrow> 'c \<Rightarrow> bytes \<Rightarrow> message py \<Rightarrow> bytes option \<Rightarrow> bundle_entry list option \<Rightarrow> mandate
   \<Rightarrow> ((bool \<times> string) py \<times> mandate) option" where
  "hw_present i T c tik pm head bundle' m =
     (case py_bind (session_context T c) (\<lambda>sc. py_bind (exporter T c) (\<lambda>ex. py_bind pm (\<lambda>msg. Inr (sc, ex, msg)))) of
        Inl x \<Rightarrow> Some (Inl x, m)
      | Inr (sc, ex, msg) \<Rightarrow> Some (present i m tik sc ex msg head bundle'))"

text \<open>\<open>snp_anchor(parse_snp(base64.b64decode(report)))\<close>, and its subscript by the line that follows.\<close>

definition report_anchor :: "json \<Rightarrow> anchor option py" where
  "report_anchor jr = py_bind (b64_json jr) (\<lambda>raw. py_bind (parse_snp raw) (\<lambda>f. Inr (snp_anchor f)))"

definition some_anchor :: "anchor option \<Rightarrow> anchor py" where
  "some_anchor a = (case a of None \<Rightarrow> Inl (TypeError ''NoneType object is not subscriptable'') | Some a' \<Rightarrow> Inr a')"

definition guest_enrolment :: "json \<Rightarrow> bytes \<Rightarrow> bytes \<Rightarrow> bytes \<Rightarrow> bytes option \<Rightarrow> enrolment" where
  "guest_enrolment report tik nonce csr ta = \<lparr>en_tik_pub = tik,
     en_evidence = JObj [(''kind'', JStr ''sev-snp''), (''report'', report),
       (''report_data'', JStr (hex (sha512 (nonce @ csr))))],
     en_nonce = nonce, en_csr = csr, en_transfer_authority = ta, en_authorisation = None, en_authorisation_sig = None\<rparr>"

text \<open>
  The enrolment block up to the call of \<open>enroll\<close>: the challenge, the guest's answer, and whether its CSR carries the
  key of the certificate. \<open>enrol_call\<close> is the call, with the two lines before it.
\<close>

definition ask_enrolment ::
  "hw_world \<Rightarrow> nat \<Rightarrow> 'c tls_conn \<Rightarrow> 'c \<Rightarrow> mandate \<Rightarrow> ((json \<times> bytes \<times> bytes \<times> bytes \<times> bool) py \<times> mandate) option" where
  "ask_enrolment W j T c m =
     (let (nonce, m1) = challenge (hw_now W j) (hw_nonce W j) m in
      bio_then (client_ask T c (hw_enrol_request nonce) m1) (\<lambda>(r, c1) m2.
        Some (py_bind (subscript r ''csr'') (\<lambda>jc. py_bind (fromhex_json jc) (\<lambda>csr.
          py_bind (peer_identity_key T c1) (\<lambda>tik. py_bind (csr_public_key_der (hw_crypto W) csr) (\<lambda>k.
            Inr (r, nonce, csr, tik, k = tik))))), m2)))"

definition enrol_call ::
  "inputs \<Rightarrow> json \<Rightarrow> bytes \<Rightarrow> bytes \<Rightarrow> bytes \<Rightarrow> bytes option \<Rightarrow> mandate \<Rightarrow> ((bool \<times> string) py \<times> mandate) option" where
  "enrol_call i r nonce csr tik ta m = (case subscript r ''report'' of
     Inl x \<Rightarrow> Some (Inl x, m)
   | Inr jr \<Rightarrow> Some (enroll i m (guest_enrolment jr tik nonce csr ta)))"

text \<open>\<open>[list(map(str, e)) for e in m.log]\<close>.\<close>

fun evarg_str :: "evarg \<Rightarrow> string" where
  "evarg_str (ES s) = s"
| "evarg_str (EI n) = dec_int n"

definition log_json :: "mandate \<Rightarrow> json" where
  "log_json m = JList (map (\<lambda>e. JList (map (\<lambda>a. JStr (evarg_str a)) e)) (events m))"

type_synonym hw_exit = "nat \<times> json option"

section \<open>Enrolment prevention\<close>

text \<open>The three blocks: \<open>None\<close> is a \<open>return 1\<close> inside the block.\<close>

definition er_enrol :: "hw_world \<Rightarrow> 'c tls_conn \<Rightarrow> string \<Rightarrow> mandate \<Rightarrow> (bytes option py \<times> mandate) option" where
  "er_enrol W T ip m = in_client T ip m (\<lambda>c.
     bio_then (ask_enrolment W 0 T c m) (\<lambda>(r, nonce, csr, tik, same) m1.
       if \<not> same then Some (Inr None, m1)
       else bio_then (enrol_call (hw_ins W 0) r nonce csr tik None m1) (\<lambda>(ok, why) m2.
         Some (py_bind (py_bind (subscript r ''report'') report_anchor) (\<lambda>a. py_bind (subscript r ''zone'') (\<lambda>_.
           py_bind (some_anchor a) (\<lambda>_. Inr (if ok then Some tik else None)))), m2))))"

definition er_attack :: "hw_world \<Rightarrow> 'c tls_conn \<Rightarrow> string \<Rightarrow> bytes \<Rightarrow> mandate \<Rightarrow> (bool option py \<times> mandate) option" where
  "er_attack W T ip tik m = in_client T ip m (\<lambda>c.
     bio_then (client_ask T c (hw_steps_request 2 None) m) (\<lambda>(blob, c1) m1.
     bio_then (Some (peer_identity_key T c1, m1)) (\<lambda>k m2.
       if k \<noteq> tik then Some (Inr None, m2)
       else bio_then (Some (py_bind (first_step blob) (\<lambda>s. step_msg s None), m2)) (\<lambda>msg m3.
         bio_then (hw_present (hw_ins W 1) T c1 tik (Inr msg) None None m3) (\<lambda>(ok, why) m4.
           Some (py_bind (subscript blob ''zone'') (\<lambda>_. Inr (Some ok)), m4))))))"

definition er_control :: "hw_world \<Rightarrow> 'c tls_conn \<Rightarrow> string \<Rightarrow> mandate \<Rightarrow> (bool py \<times> mandate) option" where
  "er_control W T ip m = in_client T ip m (\<lambda>c.
     bio_then (client_ask T c (hw_steps_request 2 None) m) (\<lambda>(blob, c1) m1.
     bio_then (Some (py_bind (first_step blob) (\<lambda>s. step_msg s None), m1)) (\<lambda>msg m2.
     bio_then (Some (peer_identity_key T c1, m2)) (\<lambda>tik m3.
     bio_then (hw_present (hw_ins W 2) T c1 tik (Inr msg) None None m3) (\<lambda>(ok, why) m4. Some (Inr ok, m4))))))"

definition enroll_main :: "hw_world \<Rightarrow> string \<Rightarrow> string \<Rightarrow> (nat \<Rightarrow> 'c tls_conn) \<Rightarrow> (hw_exit py \<times> mandate) option" where
  "enroll_main W ipA ipB T =
     bio_then (er_enrol W (T 0) ipA (hw_mandate W 0)) (\<lambda>rt m1. case rt of
       None \<Rightarrow> Some (Inr (1, None), m1)
     | Some tik \<Rightarrow> bio_then (er_attack W (T 1) ipB tik m1) (\<lambda>rb m2. case rb of
         None \<Rightarrow> Some (Inr (1, None), m2)
       | Some okB \<Rightarrow> bio_then (er_control W (T 2) ipA m2) (\<lambda>okA m3.
           Some (Inr (if \<not> okB \<and> okA then 0 else 1,
             Some (JObj [(''impostor_blocked_first_message'', JBool (\<not> okB)), (''victim_accepted'', JBool okA),
               (''log'', log_json m3)])), m3))))"

section \<open>Owner-authorised transfer\<close>

definition th_claims :: "json \<Rightarrow> (bytes \<times> string) py" where
  "th_claims jr = py_bind (py_bind (report_anchor jr) some_anchor) (\<lambda>a.
     Inr (anchor_instance a, case hex_opt (anchor_place a) of None \<Rightarrow> ''masked'' | Some h \<Rightarrow> take 16 h))"

record th_enrolled =
  te_ok :: bool
  te_tik :: bytes
  te_instance :: bytes
  te_place :: string

definition th_enrol :: "hw_world \<Rightarrow> 'c tls_conn \<Rightarrow> string \<Rightarrow> mandate \<Rightarrow> (th_enrolled py \<times> mandate) option" where
  "th_enrol W T ip m = in_client T ip m (\<lambda>c.
     bio_then (ask_enrolment W 0 T c m) (\<lambda>(r, nonce, csr, tik, same) m1.
       if \<not> same then Some (Inl (AssertionError ''CSR does not carry the TLS peer key''), m1)
       else bio_then (enrol_call (hw_ins W 0) r nonce csr tik (Some (public_key_of (hw_crypto W) (hw_owner W))) m1) (\<lambda>(ok, why) m2.
         Some (py_bind (py_bind (subscript r ''report'') th_claims) (\<lambda>(inst, place). py_bind (subscript r ''zone'') (\<lambda>_.
           Inr \<lparr>te_ok = ok, te_tik = tik, te_instance = inst, te_place = place\<rparr>)), m2))))"

definition th_refused :: "hw_world \<Rightarrow> 'c tls_conn \<Rightarrow> string \<Rightarrow> bytes \<Rightarrow> mandate \<Rightarrow> ((bytes \<times> string \<times> bool) py \<times> mandate) option" where
  "th_refused W T ip tik m = in_client T ip m (\<lambda>c.
     bio_then (client_ask T c (hw_steps_request 1 None) m) (\<lambda>(blob, c1) m1.
     bio_then (Some (py_bind (py_bind (first_step blob) (\<lambda>s. subscript s ''report'')) th_claims, m1)) (\<lambda>(inst, place) m2.
     bio_then (hw_present (hw_ins W 1) T c1 tik (py_bind (first_step blob) (\<lambda>s. step_msg s None)) None None m2) (\<lambda>(ok, why) m3.
       Some (py_bind (subscript blob ''zone'') (\<lambda>_. Inr (inst, place, ok)), m3)))))"

text \<open>A block of the last section, with the \<open>j\<close>-th call of the mandate.\<close>

definition th_after :: "hw_world \<Rightarrow> nat \<Rightarrow> 'c tls_conn \<Rightarrow> string \<Rightarrow> bytes \<Rightarrow> mandate \<Rightarrow> (bool py \<times> mandate) option" where
  "th_after W j T ip tik m = in_client T ip m (\<lambda>c.
     bio_then (client_ask T c (hw_steps_request 1 None) m) (\<lambda>(blob, c1) m1.
     bio_then (hw_present (hw_ins W j) T c1 tik (py_bind (first_step blob) (\<lambda>s. step_msg s None)) None None m1) (\<lambda>(ok, why) m2.
       Some (Inr ok, m2))))"

definition th_transfer :: "hw_world \<Rightarrow> nat \<Rightarrow> bytes \<Rightarrow> json \<Rightarrow> bytes \<Rightarrow> mandate \<Rightarrow> ((bool \<times> string) py \<times> mandate) option" where
  "th_transfer W j tik grant sig m = Some (accept_transfer (hw_ins W j) m tik grant sig)"

definition transfer_main :: "hw_world \<Rightarrow> string \<Rightarrow> string \<Rightarrow> (nat \<Rightarrow> 'c tls_conn) \<Rightarrow> (hw_exit py \<times> mandate) option" where
  "transfer_main W ipA ipB T =
     bio_then (th_enrol W (T 0) ipA (hw_mandate W 0)) (\<lambda>e m1.
       if \<not> te_ok e then Some (Inr (1, None), m1)
       else bio_then (th_refused W (T 1) ipB (te_tik e) m1) (\<lambda>(instB, placeB, okB) m2.
       bio_then (Some (mandate_rec m2 (hex (te_tik e)), m2)) (\<lambda>_ m3.
       bio_then (Some (make_grant (hw_crypto W) (hw_owner W) (hw_grant_rnd W) (te_tik e) instB (Some (te_instance e)) 300 False None
         (hw_grant_now W) (hw_grant_nonce W), m3)) (\<lambda>(grant, sig) m4.
       bio_then (th_transfer W 2 (te_tik e) grant sig m4) (\<lambda>(ok, _) m5.
       bio_then (th_after W 3 (T 2) ipB (te_tik e) m5) (\<lambda>okB2 m6.
       bio_then (th_after W 4 (T 3) ipA (te_tik e) m6) (\<lambda>okA2 m7.
       bio_then (th_transfer W 5 (te_tik e) grant sig m7) (\<lambda>(ok3, _) m8.
         Some (Inr (if te_ok e \<and> \<not> okB \<and> ok \<and> okB2 \<and> \<not> okA2 \<and> \<not> ok3 then 0 else 1,
           Some (JObj [(''enrolled'', JBool (te_ok e)), (''instance_a'', JStr (hex (te_instance e))), (''place_a'', JStr (te_place e)),
             (''instance_b'', JStr (hex instB)), (''place_b'', JStr placeB), (''b_refused_before'', JBool (\<not> okB)),
             (''transferred'', JBool ok), (''b_accepted_after'', JBool okB2), (''a_refused_after'', JBool (\<not> okA2)),
             (''replay_refused'', JBool (\<not> ok3)), (''log'', log_json m8)])), m8)))))))))"

section \<open>The chip as a witness of the ledger\<close>

definition wh_enrol :: "hw_world \<Rightarrow> 'c tls_conn \<Rightarrow> string \<Rightarrow> mandate \<Rightarrow> ((bytes \<times> bool) py \<times> mandate) option" where
  "wh_enrol W T ip m = in_client T ip m (\<lambda>c.
     bio_then (ask_enrolment W 0 T c m) (\<lambda>(r, nonce, csr, tik, same) m1.
       if \<not> same then Some (Inl (AssertionError []), m1)
       else bio_then (enrol_call (hw_ins W 0) r nonce csr tik None m1) (\<lambda>(ok, why) m2.
         Some (py_bind (py_bind (subscript r ''report'') report_anchor) (\<lambda>a. py_bind (subscript r ''zone'') (\<lambda>_.
           py_bind (some_anchor a) (\<lambda>_. Inr (tik, ok)))), m2))))"

text \<open>The step over the head, and the receipt of the decision.\<close>

definition last_receipt_of :: "mandate \<Rightarrow> (bool \<times> string) py" where
  "last_receipt_of m = (case last_receipt m of
     None \<Rightarrow> Inl (TypeError ''NoneType object is not subscriptable'')
   | Some rc \<Rightarrow> verify_receipt (cf_crypto (cfg m)) (mandate_public_key m) rc)"

definition wh_witness :: "hw_world \<Rightarrow> 'c tls_conn \<Rightarrow> string \<Rightarrow> bytes \<Rightarrow> bytes \<Rightarrow> mandate \<Rightarrow> ((json \<times> bool \<times> bool) py \<times> mandate) option" where
  "wh_witness W T ip tik head m = in_client T ip m (\<lambda>c.
     bio_then (client_ask T c (hw_steps_request 1 (Some head)) m) (\<lambda>(blob, c1) m1.
     bio_then (Some (first_step blob, m1)) (\<lambda>s m2.
     bio_then (Some (step_msg s (Some head), m2)) (\<lambda>msg m3.
     bio_then (hw_present (hw_ins W 1) T c1 tik (Inr msg) (Some head) None m3) (\<lambda>(ok, why) m4.
       Some (py_bind (last_receipt_of m4) (\<lambda>(rok, _). Inr (s, ok, rok)), m4))))))"

text \<open>What an auditor recomputes from the step: does the report bind the link and the head?\<close>

definition audited :: "json \<Rightarrow> bytes \<Rightarrow> bool py" where
  "audited s head = py_bind (py_bind (subscript s ''report'') b64_json) (\<lambda>raw. py_bind (parse_snp raw) (\<lambda>f.
     py_bind (py_bind (subscript s ''post_link'') fromhex_json) (\<lambda>pl. Inr (snp_report_data f = report_data_for pl (Some head)))))"

text \<open>The log replaced by one other entry, and the heads that were with it.\<close>

definition rewritten :: "rat \<Rightarrow> bytes \<Rightarrow> mandate \<Rightarrow> mandate" where
  "rewritten t tik m =
     (let l = [make_entry ''present'' tik True ''a different history'' None None (Some 0) t]
      in m\<lparr>merkle := l, roots := [hex (log_head l) \<mapsto> 1]\<rparr>)"

definition witness_main :: "hw_world \<Rightarrow> string \<Rightarrow> (nat \<Rightarrow> 'c tls_conn) \<Rightarrow> (hw_exit py \<times> mandate) option" where
  "witness_main W ip T =
     bio_then (wh_enrol W (T 0) ip (hw_mandate W 0)) (\<lambda>(tik, enr) m1.
       if \<not> enr then Some (Inr (1, None), m1)
       else (let head = head_for_attestation m1 in
         bio_then (wh_witness W (T 1) ip tik head m1) (\<lambda>(s, ok, rok) m2.
         bio_then (Some (audited s head, m2)) (\<lambda>matches m3.
         bio_then (Some (audited s (hw_random W), m3)) (\<lambda>wrong m4.
           (let m5 = rewritten (hw_rewrite_at W) tik m4;
                confirms = (matches \<and> \<not> wrong); detectable = (knows_head m4 head \<and> \<not> knows_head m5 head)
            in Some (Inr (if ok \<and> rok \<and> confirms \<and> detectable then 0 else 1,
                 Some (JObj [(''witnessed_accepted'', JBool ok), (''receipt_ok'', JBool rok),
                   (''auditor_confirms_head'', JBool confirms), (''rewrite_detectable'', JBool detectable)])), m5)))))))"

section \<open>Two mandates, one report\<close>

text \<open>A step of the first mandate, and of the second.\<close>

definition on_first :: "('a py \<times> mandate) option \<Rightarrow> mandate \<Rightarrow> ('a py \<times> mandate \<times> mandate) option" where
  "on_first x b = map_option (\<lambda>(r, a). (r, a, b)) x"

definition on_second :: "mandate \<Rightarrow> ('a py \<times> mandate) option \<Rightarrow> ('a py \<times> mandate \<times> mandate) option" where
  "on_second a x = map_option (\<lambda>(r, b). (r, a, b)) x"

definition fh_enrol :: "hw_world \<Rightarrow> nat \<Rightarrow> 'c tls_conn \<Rightarrow> 'c \<Rightarrow> bytes \<Rightarrow> mandate \<Rightarrow> ((bool \<times> json) py \<times> mandate) option" where
  "fh_enrol W j T c tik m =
     (let (nonce, m1) = challenge (hw_now W j) (hw_nonce W j) m in
      bio_then (client_ask T c (hw_enrol_request nonce) m1) (\<lambda>(r, c1) m2.
      bio_then (Some (py_bind (subscript r ''csr'') (\<lambda>jc. py_bind (fromhex_json jc) (\<lambda>csr.
          py_bind (csr_public_key_der (hw_crypto W) csr) (\<lambda>k.
            if k \<noteq> tik then Inl (AssertionError ''CSR does not carry the TLS peer key'') else Inr csr))), m2)) (\<lambda>csr m3.
      bio_then (enrol_call (hw_ins W j) r nonce csr tik None m3) (\<lambda>(ok, why) m4. Some (Inr (ok, r), m4)))))"

text \<open>The third block: the step over the bundle, presented to both.\<close>

definition fh_witness ::
  "hw_world \<Rightarrow> 'c tls_conn \<Rightarrow> string \<Rightarrow> bytes \<Rightarrow> bytes \<Rightarrow> bundle_entry list \<Rightarrow> mandate \<times> mandate
   \<Rightarrow> ((json \<times> bool \<times> bool) py \<times> mandate \<times> mandate) option" where
  "fh_witness W T ip tik commitment entries ms = in_client T ip ms (\<lambda>c.
     bio_then (client_ask T c (hw_steps_request 1 (Some commitment)) ms) (\<lambda>(blob, c1) ms1.
     bio_then (Some (first_step blob, ms1)) (\<lambda>s ms2.
     bio_then (Some (step_msg s (Some commitment), ms2)) (\<lambda>msg (a, b).
     bio_then (on_first (hw_present (hw_ins W 2) T c1 tik (Inr msg) (Some commitment) (Some entries) a) b) (\<lambda>(okA, _) (a1, b1).
     bio_then (on_second a1 (hw_present (hw_ins W 3) T c1 tik (Inr msg) (Some commitment) (Some entries) b1)) (\<lambda>(okB, _) (a2, b2).
       Some (Inr (s, okA, okB), a2, b2)))))))"

text \<open>What one asks of the mandate that rewrote its log.\<close>

definition fh_divergence :: "hw_world \<Rightarrow> mandate \<Rightarrow> bundle_entry list \<Rightarrow> (bool \<times> string) py" where
  "fh_divergence W a entries = (case entry_for entries (mandate_public_key a) of
     None \<Rightarrow> Inl (TypeError ''NoneType object is not subscriptable'')
   | Some w \<Rightarrow> divergence (hw_crypto W) (mandate_public_key a) (be_size w) (be_root w) (mandate_sth (hw_ins W 4) a)
       (case prove_extension a (be_size w) of Inl _ \<Rightarrow> None | Inr p \<Rightarrow> Some p))"

definition federation_main :: "hw_world \<Rightarrow> string \<Rightarrow> (nat \<Rightarrow> 'c tls_conn) \<Rightarrow> (hw_exit py \<times> mandate \<times> mandate) option" where
  "federation_main W ip T =
     bio_then (on_first (in_client (T 0) ip (hw_mandate W 0) (\<lambda>c.
       bio_then (Some (peer_identity_key (T 0) c, hw_mandate W 0)) (\<lambda>tik m.
       bio_then (fh_enrol W 0 (T 0) c tik m) (\<lambda>(ok, r) m1. Some (Inr (tik, ok, r), m1))))) (hw_mandate W 1)) (\<lambda>(tik, okA, rA) (a1, b1).
     bio_then (on_second a1 (in_client (T 1) ip b1 (\<lambda>c. fh_enrol W 1 (T 1) c tik b1))) (\<lambda>(okB, _) (a2, b2).
     bio_then (Some (py_bind (py_bind (subscript rA ''report'') report_anchor) some_anchor, a2, b2)) (\<lambda>_ (a3, b3).
       if \<not> (okA \<and> okB) then Some (Inr (1, None), a3, b3)
       else bio_then (Some (make_bundle (hw_crypto W) [(mandate_public_key a3, mandate_sth (hw_ins W 2) a3),
           (mandate_public_key b3, mandate_sth (hw_ins W 3) b3)], a3, b3)) (\<lambda>(commitment, entries) ms4.
       bio_then (fh_witness W (T 2) ip tik commitment entries ms4) (\<lambda>(s, okA2, okB2) ms5.
       bio_then (Some (audited s (bundle_commitment entries), ms5)) (\<lambda>confirms (a6, b6).
         (let a7 = rewritten (hw_rewrite_at W) tik a6 in
          bio_then (Some (fh_divergence W a7 entries, a7, b6)) (\<lambda>(diverged, _) ms8.
            Some (Inr (if okA \<and> okB \<and> okA2 \<and> okB2 \<and> confirms \<and> diverged then 0 else 1,
              Some (JObj [(''enrolled_both'', JBool (okA \<and> okB)), (''both_accepted'', JBool (okA2 \<and> okB2)),
                (''auditor_confirms_bundle'', JBool confirms), (''divergence_detected'', JBool diverged)])), ms8)))))))))"

section \<open>Freshness at reattestation\<close>

text \<open>The static connection: what is read of it beside the framed bytes is the suite and the peer's key.\<close>

record 'c static_conn =
  sc_ops :: "'c ssl_ops"
  sc_cipher :: "'c \<Rightarrow> string"
  sc_peer_spki :: "'c \<Rightarrow> bytes py"

record draft_session =
  ds_blob :: json
  ds_binder :: bytes
  ds_ch :: bytes
  ds_sh :: bytes
  ds_suite :: string

definition static_request :: "int \<Rightarrow> json" where
  "static_request n = JObj [(''static'', JBool True), (''steps'', JInt n), (''binder'', JStr ''draft-transcript'')]"

definition draft_of :: "'c static_conn \<Rightarrow> 'c bio \<Rightarrow> json \<Rightarrow> draft_session py" where
  "draft_of S b blob =
     py_bind (transcript_ch_sh (bio_sent b) (bio_received b)) (\<lambda>(ch, sh).
     py_bind (suite_hash (sc_cipher S (bio_conn b))) (\<lambda>H.
     py_bind (sc_peer_spki S (bio_conn b)) (\<lambda>spki.
     py_bind (draft_binder ch sh spki H) (\<lambda>ours.
       Inr \<lparr>ds_blob = blob, ds_binder = ours, ds_ch = ch, ds_sh = sh, ds_suite = sc_cipher S (bio_conn b)\<rparr>))))"

definition draft_binder_session :: "'c static_conn \<Rightarrow> 'c \<Rightarrow> wire \<Rightarrow> int \<Rightarrow> (draft_session py \<times> 'c bio) option" where
  "draft_binder_session S c sock steps =
     bio_then (bio_handshake (sc_ops S) (bio_new c sock)) (\<lambda>_ b1.
     bio_then (bio_sendall (sc_ops S) b1 (dumps_bytes (static_request steps) @ [0x0A])) (\<lambda>_ b2.
     bio_then (bio_recv_exact (sc_ops S) b2 4) (\<lambda>h b3.
     bio_then (bio_recv_exact (sc_ops S) b3 (unpack_len h)) (\<lambda>d b4.
       (case py_bind (loads_bytes d) (draft_of S b4) of
          Inl x \<Rightarrow> Some (Inl x, b4)
        | Inr ds \<Rightarrow> map_option (\<lambda>b5. (Inr ds, b5)) (bio_shutdown (sc_ops S) b4))))))"

text \<open>The first half: \<open>None\<close> is one of its two aborts, otherwise whether the resent Evidence was accepted.\<close>

definition static_evidence :: "json \<Rightarrow> json" where
  "static_evidence report = JObj [(''kind'', JStr ''sev-snp''), (''report'', report)]"

definition rf_static :: "hw_world \<Rightarrow> draft_session \<Rightarrow> bool option py" where
  "rf_static W ds =
     py_bind (subscript (ds_blob ds) ''rounds'') (\<lambda>rounds. (case rounds of
       JList [x, y] \<Rightarrow>
         py_bind (subscript x ''report'') (\<lambda>j0. py_bind (b64_json j0) (\<lambda>r0.
         py_bind (subscript y ''report'') (\<lambda>j1. py_bind (b64_json j1) (\<lambda>r1.
         py_bind (py_bind (subscript x ''binder'') fromhex_json) (\<lambda>theirs.
         py_bind (subscript (ds_blob ds) ''instance'') (\<lambda>_. py_bind (subscript (ds_blob ds) ''zone'') (\<lambda>_.
         py_bind (subscript (ds_blob ds) ''transcript_sha256'') (\<lambda>_.
           if ds_binder ds \<noteq> theirs then Inr None
           else py_bind (binder_report_data (ds_binder ds)) (\<lambda>expect.
             py_bind (hw_verify W (static_evidence j0) expect) (\<lambda>(ok0, anc0).
             py_bind (hw_verify W (static_evidence j1) expect) (\<lambda>(ok1, anc1).
               if \<not> (ok0 \<and> ok1) then Inr None
               else py_bind (some_anchor anc0) (\<lambda>_.
                 py_bind (hw_verify W (static_evidence j0) expect) (\<lambda>(accepted, _). Inr (Some accepted))))))))))))))
     | JList _ \<Rightarrow> Inl (ValueError ''not two rounds'')
     | _ \<Rightarrow> Inl (TypeError ''not two rounds'')))"

text \<open>The second half: the chain over one connection, and its first step resent to another mandate.\<close>

definition rf_chain :: "'c tls_conn \<Rightarrow> string \<Rightarrow> mandate \<Rightarrow> ((bytes \<times> bytes \<times> bytes \<times> json) py \<times> mandate) option" where
  "rf_chain T ip m = in_client T ip m (\<lambda>c.
     bio_then (Some (exporter T c, m)) (\<lambda>ex m1. bio_then (Some (session_context T c, m1)) (\<lambda>sc m2.
     bio_then (Some (peer_identity_key T c, m2)) (\<lambda>tik m3.
     bio_then (client_ask T c (hw_steps_request 2 None) m3) (\<lambda>(blob, _) m4.
       Some (py_bind (subscript blob ''chain'') (\<lambda>ch. Inr (ex, sc, tik, ch)), m4))))))"

definition rf_present :: "inputs \<Rightarrow> bytes \<times> bytes \<times> bytes \<Rightarrow> json py \<Rightarrow> mandate \<Rightarrow> ((bool \<times> string) py \<times> mandate) option" where
  "rf_present i vals js m = (case (vals, py_bind js as_evidence) of
     (_, Inl x) \<Rightarrow> Some (Inl x, m)
   | ((ex, sc, tik), Inr msg) \<Rightarrow> Some (present i m tik sc ex msg None None))"

record rf_verdict =
  rf_stale_static :: bool
  rf_step0 :: string
  rf_step1 :: string
  rf_stale_chained :: bool
  rf_reason :: string

definition rf_chained :: "hw_world \<Rightarrow> 'c tls_conn \<Rightarrow> string \<Rightarrow> bool \<Rightarrow> (rf_verdict py \<times> mandate \<times> mandate) option" where
  "rf_chained W T ip accepted =
     bio_then (on_first (rf_chain T ip (hw_mandate W 0)) (hw_mandate W 1)) (\<lambda>(ex, sc, tik, ch) (a1, b1).
     bio_then (on_first (rf_present (hw_ins W 0) (ex, sc, tik) (nth_of ch 0) a1) b1) (\<lambda>(_, why0) (a2, b2).
     bio_then (on_first (rf_present (hw_ins W 1) (ex, sc, tik) (nth_of ch 1) a2) b2) (\<lambda>(_, why1) (a3, b3).
     bio_then (on_second a3 (rf_present (hw_ins W 2) (ex, sc, tik) (nth_of ch 0) b3)) (\<lambda>_ (a4, b4).
     bio_then (on_second a4 (rf_present (hw_ins W 3) (ex, sc, tik) (nth_of ch 0) b4)) (\<lambda>(okR, whyR) ms5.
       Some (Inr \<lparr>rf_stale_static = accepted, rf_step0 = why0, rf_step1 = why1, rf_stale_chained = okR, rf_reason = whyR\<rparr>, ms5))))))"

definition reattest_main ::
  "hw_world \<Rightarrow> string \<Rightarrow> 'd static_conn \<Rightarrow> 'd \<Rightarrow> wire \<Rightarrow> 'c tls_conn \<Rightarrow> (nat \<times> rf_verdict option) py option" where
  "reattest_main W ip S c sock T =
     Option.bind (draft_binder_session S c sock 2) (\<lambda>(r, _). case py_bind r (rf_static W) of
       Inl x \<Rightarrow> Some (Inl x)
     | Inr None \<Rightarrow> Some (Inr (1, None))
     | Inr (Some accepted) \<Rightarrow> map_option (\<lambda>(r, _). py_bind r (\<lambda>v. Inr (0, Some v))) (rf_chained W T ip accepted))"

end
