(* ===== verification/Local_Run.thy ===== *)
theory Local_Run
  imports Hw_Runs Attacks
begin

text \<open>
  \<open>examples/run_local.py\<close>: eleven scenarios against mandates over mock TEEs, run as the module is. What a scenario
  prints of each verdict (\<open>line\<close>) is its value; \<open>Ds\<close> gives the \<open>k\<close>-th scenario its draws, \<open>S\<close> the pairs of \<open>sess\<close> in
  the order they are drawn. The constants (\<open>CHIP_A\<close>, \<open>teeA\<close>, \<open>TIK\<close>, \<open>CSR\<close>) and the calls are those of \<open>Attacks\<close>.
\<close>

type_synonym said = "(bool \<times> string) list"

definition enrolled_mandate :: "world \<Rightarrow> draws \<Rightarrow> mandate py" where
  "enrolled_mandate W D = asserted (enrol_on W D 0 (teeA W) None (plain_mandate W D))"

text \<open>1. and 2.: three steps of one connection, then a new connection of the same instance.\<close>

definition local_honest :: "world \<Rightarrow> draws \<Rightarrow> bytes \<times> bytes \<Rightarrow> bytes \<times> bytes \<Rightarrow> said py" where
  "local_honest W D s s2 =
     py_bind (enrolled_mandate W D) (\<lambda>m.
     py_bind (atk_step W D 1 (teeA W) (attester_new (wd_tik W)) m (fst s) (snd s)) (\<lambda>(ok1, why1, _, a1, m1).
     py_bind (atk_step W D 2 (teeA W) a1 m1 (fst s) (snd s)) (\<lambda>(ok2, why2, _, a2, m2).
     py_bind (atk_step W D 3 (teeA W) a2 m2 (fst s) (snd s)) (\<lambda>(ok3, why3, _, _, m3).
     py_bind (atk_step W D 4 (teeA W) (attester_new (wd_tik W)) m3 (fst s2) (snd s2)) (\<lambda>(ok4, why4, _).
       Inr [(ok1, why1), (ok2, why2), (ok3, why3), (ok4, why4)])))))"

text \<open>3.: the first of two connections goes on after the second was opened.\<close>

definition local_parallel :: "world \<Rightarrow> draws \<Rightarrow> bytes \<times> bytes \<Rightarrow> bytes \<times> bytes \<Rightarrow> said py" where
  "local_parallel W D s s2 =
     py_bind (enrolled_mandate W D) (\<lambda>m.
     py_bind (atk_step W D 1 (teeA W) (attester_new (wd_tik W)) m (fst s) (snd s)) (\<lambda>(_, _, _, x1, m1).
     py_bind (atk_step W D 2 (teeA W) (attester_new (wd_tik W)) m1 (fst s2) (snd s2)) (\<lambda>(_, _, _, _, m2).
     py_bind (atk_step W D 3 (teeA W) x1 m2 (fst s) (snd s)) (\<lambda>(ok, why, _). Inr [(ok, why)]))))"

text \<open>4.: the guest signed for its exporter with the relay, the verifier derived another.\<close>

definition local_relay :: "world \<Rightarrow> draws \<Rightarrow> bytes \<times> bytes \<Rightarrow> bytes \<Rightarrow> said py" where
  "local_relay W D s ec' =
     py_bind (enrolled_mandate W D) (\<lambda>m.
     py_bind (atk_step W D 1 (teeA W) (attester_new (wd_tik W)) m (fst s) (snd s)) (\<lambda>(_, _, _, a1, m1).
     py_bind (atk_attest W D 2 (teeA W) a1 (fst s) (snd s)) (\<lambda>(step, _).
     py_bind (atk_present W D 2 m1 (fst s) ec' step) (\<lambda>(ok, why, _). Inr [(ok, why)]))))"

text \<open>5.: the thief holds the key and the victim's chain state.\<close>

definition local_rehost :: "world \<Rightarrow> draws \<Rightarrow> bytes \<times> bytes \<Rightarrow> bytes \<times> bytes \<Rightarrow> said py" where
  "local_rehost W D s sX =
     py_bind (enrolled_mandate W D) (\<lambda>m.
     py_bind (atk_step W D 1 (teeA W) (attester_new (wd_tik W)) m (fst s) (snd s)) (\<lambda>(ok1, why1, _, aA, m1).
     (let aB = attester_new (wd_tik W)\<lparr>at_prev := at_prev aA, at_counter := at_counter aA\<rparr> in
     py_bind (atk_step W D 2 (teeB W) aB m1 (fst sX) (snd sX)) (\<lambda>(ok2, why2, _, _, m2).
     py_bind (atk_step W D 3 (teeA W) aA m2 (fst s) (snd s)) (\<lambda>(ok3, why3, _).
       Inr [(ok1, why1), (ok2, why2), (ok3, why3)])))))"

text \<open>6.\<close>

definition local_replay :: "world \<Rightarrow> draws \<Rightarrow> bytes \<times> bytes \<Rightarrow> said py" where
  "local_replay W D s =
     py_bind (enrolled_mandate W D) (\<lambda>m.
     py_bind (atk_step W D 1 (teeA W) (attester_new (wd_tik W)) m (fst s) (snd s)) (\<lambda>(_, _, _, a1, m1).
     py_bind (atk_attest W D 2 (teeA W) a1 (fst s) (snd s)) (\<lambda>(step, _).
     py_bind (atk_present W D 2 m1 (fst s) (snd s) step) (\<lambda>(_, _, m2).
     py_bind (atk_present W D 3 m2 (fst s) (snd s) step) (\<lambda>(ok, why, _). Inr [(ok, why)])))))"

text \<open>7.: two TEEs with an all-zero chip, and a mandate that does not ask for an anchor.\<close>

definition zero_tee :: "world \<Rightarrow> bytes \<times> bytes \<Rightarrow> mock_tee" where
  "zero_tee W z = mock_tee_new (wd_crypto W) (zeros 64) None (fst z) (snd z)"

definition local_masked :: "world \<Rightarrow> draws \<Rightarrow> bytes \<times> bytes \<Rightarrow> bytes \<times> bytes \<Rightarrow> said py" where
  "local_masked W D s s2 =
     (let z1 = zero_tee W (dr_z1 D); z2 = zero_tee W (dr_z2 D);
          vz = [hex (mock_pub z1), hex (mock_pub z2)]
      in case enrol_on W D 0 z1 None (mandate_new (attack_cfg W D vz False) (MemoryStore [])) of
           (Inl x, _) \<Rightarrow> Inl x
         | (Inr (ok, why), mz) \<Rightarrow>
             py_bind (atk_step W D 1 z2 (attester_new (wd_tik W)) mz (fst s) (snd s)) (\<lambda>(ok1, why1, _).
             py_bind (atk_step W D 2 z2 (attester_new (wd_tik W))
                 (mandate_new (attack_cfg W D vz False\<lparr>require_anchor := False\<rparr>) (MemoryStore [])) (fst s2) (snd s2)) (\<lambda>(ok2, why2, _).
               Inr [(ok, why), (ok1, why1), (ok2, why2)])))"

text \<open>8. and 9.: the impostor's first message, the owner's, and the impostor's enrolment.\<close>

definition local_prevention :: "world \<Rightarrow> draws \<Rightarrow> bytes \<times> bytes \<Rightarrow> bytes \<times> bytes \<Rightarrow> said py" where
  "local_prevention W D s s2 =
     py_bind (enrolled_mandate W D) (\<lambda>m.
     py_bind (atk_step W D 1 (teeB W) (attester_new (wd_tik W)) m (fst s) (snd s)) (\<lambda>(ok1, why1, _, _, m1).
     py_bind (atk_step W D 2 (teeA W) (attester_new (wd_tik W)) m1 (fst s2) (snd s2)) (\<lambda>(ok2, why2, _, _, m2).
     (case enrol_on W D 3 (teeB W) None m2 of
        (Inl x, _) \<Rightarrow> Inl x
      | (Inr (ok3, why3), _) \<Rightarrow> Inr [(ok1, why1), (ok2, why2), (ok3, why3)]))))"

text \<open>10.: the owner moves the identity; with the verdicts the log that is printed at the end.\<close>

definition local_recovery :: "world \<Rightarrow> draws \<Rightarrow> bytes \<times> bytes \<Rightarrow> bytes \<times> bytes \<Rightarrow> bytes \<times> bytes \<Rightarrow> (said \<times> event list) py" where
  "local_recovery W D s s2 s3 =
     (case enrol_on W D 0 (teeA W) (Some (public_key_of (wd_crypto W) (dr_owner D))) (plain_mandate W D) of
        (Inl x, _) \<Rightarrow> Inl x
      | (Inr (ok0, why0), m) \<Rightarrow>
          py_bind (atk_step W D 1 (teeB W) (attester_new (wd_tik W)) m (fst s) (snd s)) (\<lambda>(ok1, why1, _, _, m1).
          py_bind (atk_grant W D (dr_owner D)) (\<lambda>(grant, sig).
          py_bind (atk_transfer W D 3 m1 grant sig) (\<lambda>(ok2, why2, m2).
          py_bind (atk_step W D 4 (teeB W) (attester_new (wd_tik W)) m2 (fst s2) (snd s2)) (\<lambda>(ok3, why3, _, _, m3).
          py_bind (atk_step W D 5 (teeA W) (attester_new (wd_tik W)) m3 (fst s3) (snd s3)) (\<lambda>(ok4, why4, _, _, m4).
          py_bind (atk_transfer W D 6 m4 grant sig) (\<lambda>(ok5, why5, m5).
            Inr ([(ok0, why0), (ok1, why1), (ok2, why2), (ok3, why3), (ok4, why4), (ok5, why5)], events m5))))))))"

text \<open>11.: one report over the heads of two mandates, and the one that rewrites its log afterwards.\<close>

definition one_mandate :: "world \<Rightarrow> draws \<Rightarrow> mandate" where
  "one_mandate W D = mandate_new (attack_cfg W D [hex (mock_pub (teeA W))] False) (MemoryStore [])"

definition local_divergence :: "world \<Rightarrow> draws \<Rightarrow> bundle_entry list \<Rightarrow> mandate \<Rightarrow> (bool \<times> string) py" where
  "local_divergence W D entries mA = (case entry_for entries (mandate_public_key mA) of
     None \<Rightarrow> Inl (TypeError ''NoneType object is not subscriptable'')
   | Some w \<Rightarrow> (let m = rewritten (dr_now D 1) (wd_tik W) mA in
       divergence (wd_crypto W) (mandate_public_key m) (be_size w) (be_root w) (mandate_sth (dr_ins D 2) m)
         (case prove_extension m (be_size w) of Inl _ \<Rightarrow> None | Inr p \<Rightarrow> Some p)))"

definition local_federation :: "world \<Rightarrow> draws \<Rightarrow> draws \<Rightarrow> bytes \<times> bytes \<Rightarrow> said py" where
  "local_federation W D D' s =
     (case enrol_on W D 0 (teeA W) None (one_mandate W D) of (Inl x, _) \<Rightarrow> Inl x | (Inr _, mA) \<Rightarrow>
     (case enrol_on W D' 0 (teeA W) None (one_mandate W D') of (Inl x, _) \<Rightarrow> Inl x | (Inr _, mB) \<Rightarrow>
     py_bind (make_bundle (wd_crypto W) [(mandate_public_key mA, mandate_sth (dr_ins D 1) mA), (mandate_public_key mB, mandate_sth (dr_ins D' 1) mB)])
       (\<lambda>(commitment, entries).
     py_bind (fst (attest (\<lambda>rd. Inr (mock_report (wd_crypto W) (teeA W) (dr_rnd D 1) rd)) (attester_new (wd_tik W)) (fst s) (snd s) (Some commitment)))
       (\<lambda>msg.
     (case present (dr_ins D 1) mA (wd_tik W) (fst s) (snd s) msg (Some commitment) (Some entries) of (Inl x, _) \<Rightarrow> Inl x | (Inr v, mA1) \<Rightarrow>
     (case present (dr_ins D' 1) mB (wd_tik W) (fst s) (snd s) msg (Some commitment) (Some entries) of (Inl x, _) \<Rightarrow> Inl x | (Inr v', _) \<Rightarrow>
     py_bind (local_divergence W D entries mA1) (\<lambda>d. Inr [v, v', d])))))))"

definition local_main :: "world \<Rightarrow> (nat \<Rightarrow> draws) \<Rightarrow> (nat \<Rightarrow> bytes \<times> bytes) \<Rightarrow> (said \<times> event list) py" where
  "local_main W Ds S =
     py_bind (local_honest W (Ds 1) (S 0) (S 1)) (\<lambda>v1.
     py_bind (local_parallel W (Ds 3) (S 2) (S 3)) (\<lambda>v3.
     py_bind (local_relay W (Ds 4) (S 4) (dr_e2 (Ds 4))) (\<lambda>v4.
     py_bind (local_rehost W (Ds 5) (S 5) (S 6)) (\<lambda>v5.
     py_bind (local_replay W (Ds 6) (S 7)) (\<lambda>v6.
     py_bind (local_masked W (Ds 7) (S 8) (S 9)) (\<lambda>v7.
     py_bind (local_prevention W (Ds 8) (S 10) (S 11)) (\<lambda>v8.
     py_bind (local_recovery W (Ds 10) (S 12) (S 13) (S 14)) (\<lambda>(v10, lg).
     py_bind (local_federation W (Ds 11) (Ds 12) (S 15)) (\<lambda>v11.
       Inr (v1 @ v3 @ v4 @ v5 @ v6 @ v7 @ v8 @ v10 @ v11, lg))))))))))"

end
