(* ===== verification/Live_Runs.thy ===== *)
theory Live_Runs
  imports Hw_Runs Relay_Demo
begin

text \<open>
  \<open>main\<close> of \<open>examples/client_mandate.py\<close>, the run without enrolment, and \<open>main\<close> and \<open>relay\<close> of
  \<open>examples/relay_hw.py\<close>, with the conventions of \<open>Hw_Runs\<close>; that the relay's key files can be read and its socket
  comes up in time is taken for granted.
\<close>

section \<open>A mandate without enrolment\<close>

text \<open>\<open>for x in v\<close> over a parsed value.\<close>

definition py_iter :: "json \<Rightarrow> json list py" where
  "py_iter v = (case v of
     JList xs \<Rightarrow> Inr xs
   | JObj kvs \<Rightarrow> Inr (map (\<lambda>(k, _). JStr k) kvs)
   | JStr s \<Rightarrow> Inr (map (\<lambda>c. JStr [c]) s)
   | _ \<Rightarrow> Inl (TypeError ''object is not iterable''))"

text \<open>A row of \<open>results\<close>; the counter has been read by \<open>as_evidence\<close>.\<close>

definition cm_result :: "string \<Rightarrow> json \<times> bool \<times> string \<Rightarrow> json" where
  "cm_result label = (\<lambda>(step, ok, why). JList [JStr label, (case subscript step ''counter'' of Inl _ \<Rightarrow> JNull | Inr c \<Rightarrow> c), JBool ok, JStr why])"

text \<open>The loop over the steps of a reply: the verdicts up to the first refusal, the \<open>t\<close>-th with inputs \<open>3 t + j\<close>.\<close>

definition feed_steps :: "hw_world \<Rightarrow> nat \<Rightarrow> 'c tls_conn \<Rightarrow> 'c \<Rightarrow> json \<Rightarrow> mandate \<Rightarrow> (((json \<times> bool \<times> string) list) py \<times> mandate) option" where
  "feed_steps W j T c blob m =
     bio_then (Some (py_bind (subscript blob ''chain'') py_iter, m)) (\<lambda>xs m1.
       if xs = [] then Some (Inr [], m1)
       else bio_then (Some (py_bind (peer_identity_key T c) (\<lambda>tik. py_bind (session_context T c) (\<lambda>sc. py_bind (exporter T c) (\<lambda>ex.
           Inr (tik, sc, ex)))), m1)) (\<lambda>(tik, sc, ex) m2.
         bio_then (Some (run_steps (\<lambda>t. hw_ins W (3 * t + j)) tik sc ex xs 0 m2)) (\<lambda>rs m3. Some (Inr (zip xs rs), m3))))"

definition last_verdict :: "(json \<times> bool \<times> string) list \<Rightarrow> bool option" where
  "last_verdict rs = (if rs = [] then None else Some (fst (snd (last rs))))"

definition cm_run ::
  "hw_world \<Rightarrow> nat \<Rightarrow> 'c tls_conn \<Rightarrow> string \<Rightarrow> string \<Rightarrow> int \<Rightarrow> mandate \<Rightarrow> ((json \<times> bool option \<times> json list) py \<times> mandate) option" where
  "cm_run W j T ip label steps m = in_client T ip m (\<lambda>c.
     bio_then (client_ask T c (hw_steps_request steps None) m) (\<lambda>(blob, c1) m1.
     bio_then (Some (peer_identity_key T c1, m1)) (\<lambda>_ m2.
     bio_then (feed_steps W j T c1 blob m2) (\<lambda>rs m3.
       Some (Inr (blob, last_verdict rs, map (cm_result label) rs), m3)))))"

definition client_main :: "hw_world \<Rightarrow> string \<Rightarrow> string \<Rightarrow> (nat \<Rightarrow> 'c tls_conn) \<Rightarrow> (hw_exit py \<times> mandate) option" where
  "client_main W ipA ipB T =
     bio_then (cm_run W 0 (T 0) ipA ''A'' 3 (hw_mandate W 0)) (\<lambda>(bA, okA, rA) m1.
     bio_then (cm_run W 1 (T 1) ipB ''B'' 3 m1) (\<lambda>(bB, okB, rB) m2.
     bio_then (Some (py_bind (subscript bA ''zone'') (\<lambda>_. subscript bB ''zone''), m2)) (\<lambda>_ m3.
     bio_then (cm_run W 2 (T 2) ipA ''A-after'' 1 m3) (\<lambda>(_, okA2, rA2) m4.
     bio_then (Some (mandate_contention m4, m4)) (\<lambda>ct m5.
       Some (Inr (if okB = Some False \<and> okA2 = Some True then 0 else 1,
         Some (JObj [(''impostor_rejected'', JBool (okB = Some False)), (''victim_still_serving'', JBool (okA2 = Some True)),
           (''contention_recorded'', JObj ct), (''results'', JList (rA @ rB @ rA2)), (''log'', log_json m5)])), m5))))))"

section \<open>A relay with the stolen key\<close>

text \<open>
  The relay's one exchange. What it leaves in \<open>note\<close> are the exporters of its two connections, and the \<open>repr\<close> of what it
  raised, if it did; \<open>us\<close> is what \<open>socket.create_connection\<close> gave, asked for once the client's line is read.
\<close>

definition relay_note :: "(exn \<Rightarrow> string) \<Rightarrow> dict \<Rightarrow> dict py \<Rightarrow> dict" where
  "relay_note repr part r = (case r of Inl x \<Rightarrow> part @ [(''error'', JStr (repr x))] | Inr d \<Rightarrow> d)"

definition relay_exporters :: "(exn \<Rightarrow> string) \<Rightarrow> 'c tls_conn \<Rightarrow> 'd tls_conn \<Rightarrow> 'c \<Rightarrow> 'd \<Rightarrow> (dict \<times> bool)" where
  "relay_exporters repr Td Tu d u = (case tc_export Tu u EXPORTER_LABEL 32 [] of
     Inl x \<Rightarrow> (relay_note repr [] (Inl x), False)
   | Inr g \<Rightarrow> (case tc_export Td d EXPORTER_LABEL 32 [] of
       Inl x \<Rightarrow> (relay_note repr [(''guest_side'', JStr (hex g))] (Inl x), False)
     | Inr k \<Rightarrow> ([(''guest_side'', JStr (hex g)), (''client_side'', JStr (hex k))], True)))"

definition rh_exchange ::
  "(exn \<Rightarrow> string) \<Rightarrow> 'c tls_conn \<Rightarrow> 'd tls_conn \<Rightarrow> tls_context \<Rightarrow> tls_context \<Rightarrow> 'c \<Rightarrow> 'd py \<Rightarrow> (dict py \<times> 'c \<times> 'd option) option" where
  "rh_exchange repr Td Tu ctx up_ctx down us =
     bio_then (on_down (Some (tc_do_handshake Td ctx down)) None) (\<lambda>_ (d, _).
     bio_then (on_down (rd_line Td d) None) (\<lambda>l (d, _).
       (case us of
          Inl x \<Rightarrow> Some (Inl x, d, None)
        | Inr u0 \<Rightarrow> map_option (\<lambda>(r, d, u). (r, d, Some u))
            (bio_then (on_up d (Some (tc_do_handshake Tu up_ctx u0))) (\<lambda>_ (d, u).
             bio_then (on_up d (Some (tc_sendall Tu u l))) (\<lambda>_ (d, u).
             bio_then (on_up d (rd_recv Tu u 4)) (\<lambda>h (d, u).
             bio_then (on_up d (rd_recv Tu u (unpack_len h))) (\<lambda>blob (d, u).
             bio_then (Some (pack_len (unpack_len h), d, u)) (\<lambda>n (d, u).
             bio_then (on_down (Some (tc_sendall Td d (n @ blob))) u) (\<lambda>_ (d, u).
               (case relay_exporters repr Td Tu d u of
                  (note, False) \<Rightarrow> Some (Inr note, d, u)
                | (note, True) \<Rightarrow> (let (_, u1) = tc_shutdown Tu u; (_, d1) = tc_shutdown Td d; (_, u2) = tc_close Tu u1
                    in Some (Inr note, d1, u2)))))))))))))"

definition rh_relay ::
  "(exn \<Rightarrow> string) \<Rightarrow> 'c tls_conn \<Rightarrow> 'd tls_conn \<Rightarrow> tls_context \<Rightarrow> tls_context \<Rightarrow> 'c \<Rightarrow> 'd py \<Rightarrow> (dict \<times> 'c \<times> 'd option) option" where
  "rh_relay repr Td Tu ctx up_ctx down us =
     map_option (\<lambda>(r, d, u). (relay_note repr [] r, snd (tc_close Td d), u)) (rh_exchange repr Td Tu ctx up_ctx down us)"

text \<open>The enrolment block: whether it is enrolled, and what the verdict says of the guest.\<close>

definition rh_enrol :: "hw_world \<Rightarrow> 'c tls_conn \<Rightarrow> string \<Rightarrow> mandate \<Rightarrow> ((bool \<times> dict) py \<times> mandate) option" where
  "rh_enrol W T ip m = in_client T ip m (\<lambda>c.
     bio_then (ask_enrolment W 0 T c m) (\<lambda>(r, nonce, csr, tik, same) m1.
       if \<not> same then Some (Inl (AssertionError ''CSR does not carry the TLS peer key''), m1)
       else bio_then (enrol_call (hw_ins W 0) r nonce csr tik None m1) (\<lambda>(ok, why) m2.
         Some (py_bind (py_bind (subscript r ''report'') th_claims) (\<lambda>(inst, place). py_bind (subscript r ''zone'') (\<lambda>zone.
           Inr (ok, [(''enrolled'', JBool ok), (''instance'', JStr (take 16 (hex inst))), (''place'', JStr place), (''zone'', zone)]))), m2))))"

definition rh_direct :: "hw_world \<Rightarrow> 'c tls_conn \<Rightarrow> string \<Rightarrow> mandate \<Rightarrow> (bool option py \<times> mandate) option" where
  "rh_direct W T ip m = in_client T ip m (\<lambda>c.
     bio_then (client_ask T c (hw_steps_request 2 None) m) (\<lambda>(blob, c1) m1.
     bio_then (feed_steps W 1 T c1 blob m1) (\<lambda>rs m2. Some (Inr (last_verdict rs), m2))))"

definition RELAY_PORT :: int where "RELAY_PORT = 18543"

definition rh_relayed :: "hw_world \<Rightarrow> 'c tls_conn \<Rightarrow> mandate \<Rightarrow> (bool option py \<times> mandate) option" where
  "rh_relayed W T m = in_client_at T ''127.0.0.1'' RELAY_PORT m (\<lambda>c.
     bio_then (client_ask T c (hw_steps_request 2 None) m) (\<lambda>(blob, c1) m1.
     bio_then (Some (subscript blob ''zone'', m1)) (\<lambda>_ m2.
     bio_then (feed_steps W 2 T c1 blob m2) (\<lambda>rs m3. Some (Inr (last_verdict rs), m3)))))"

text \<open>\<open>None\<close> among the values of the verdict.\<close>

definition jbool_opt :: "bool option \<Rightarrow> json" where
  "jbool_opt b = (case b of None \<Rightarrow> JNull | Some v \<Rightarrow> JBool v)"

text \<open>\<open>main\<close>, over what the main thread finds in \<open>note\<close> once its own exchange is done.\<close>

definition relay_hw_main :: "hw_world \<Rightarrow> string \<Rightarrow> (nat \<Rightarrow> 'c tls_conn) \<Rightarrow> dict \<Rightarrow> (hw_exit py \<times> mandate) option" where
  "relay_hw_main W ip T note =
     bio_then (rh_enrol W (T 0) ip (hw_mandate W 0)) (\<lambda>(ok, out) m1.
       if \<not> ok then Some (Inr (1, None), m1)
       else bio_then (rh_direct W (T 1) ip m1) (\<lambda>direct m2.
       bio_then (rh_relayed W (T 2) m2) (\<lambda>relayed m3.
       bio_then (Some (if map_of note ''guest_side'' = None then Inr JNull else dindex note ''client_side'', m3)) (\<lambda>_ m4.
         Some (Inr (if direct = Some True \<and> relayed = Some False then 0 else 1,
           Some (JObj ([(''guest'', JStr ip)] @ out @ [(''direct_accepted'', jbool_opt direct), (''relay_accepted'', jbool_opt relayed),
             (''exporters'', JObj note), (''log'', log_json m4)]))), m4)))))"

end
