(* ===== verification/Hw_Mandate.thy ===== *)
theory Hw_Mandate
  imports Hw_Runs Attack_Proofs
begin

text \<open>
  The mandate's side of the runs: an enrolment of a fresh mandate succeeds and leaves the identity owned (\<open>owns\<close>); the
  owner is then accepted, another instance is refused and witnessed, a grant of the owner's authority moves the identity
  (\<open>moved_to\<close>), and afterwards the same holds with the roles exchanged and the grant is spent.
\<close>

section \<open>States\<close>

definition owns :: "config \<Rightarrow> bytes \<Rightarrow> anchor \<Rightarrow> bytes option \<Rightarrow> sighting list \<Rightarrow> mandate \<Rightarrow> bool" where
  "owns cf tik a ta ws m \<longleftrightarrow> (\<exists>r. mandate_rec m (hex tik) = Inr r \<and> wf_rec r \<and> \<not> revoked r
     \<and> enrolled_instance r = Some (hex (anchor_instance a)) \<and> enrolled_place r = hex_opt (anchor_place a)
     \<and> observed_instance r = None \<and> transfer_authority r = map_option hex ta \<and> witnessed r = ws \<and> consumed_grants r = [])
     \<and> anchor_instance a \<noteq> [] \<and> cfg m = cf \<and> sessions m = Map.empty \<and> log_inv m \<and> ledger_ok m"

lemma ownsE:
  assumes "owns cf tik a ta ws m"
  obtains r where "mandate_rec m (hex tik) = Inr r" "wf_rec r" "\<not> revoked r"
    "enrolled_instance r = Some (hex (anchor_instance a))" "enrolled_place r = hex_opt (anchor_place a)" "observed_instance r = None"
    "transfer_authority r = map_option hex ta" "witnessed r = ws" "consumed_grants r = []"
    "anchor_instance a \<noteq> []" "cfg m = cf" "sessions m = Map.empty" "log_inv m" "ledger_ok m"
  using assms unfolding owns_def by blast

lemma hw_cfg_sel [simp]:
  "cf_crypto (hw_cfg W k) = hw_crypto W" "verify_report (hw_cfg W k) = hw_verify W" "require_anchor (hw_cfg W k)"
  "\<not> require_enrolment (hw_cfg W k)" "\<not> require_place (hw_cfg W k)" "challenge_ttl (hw_cfg W k) = 300"
  "witness_ttl (hw_cfg W k) = 3600" "enrolment_authority (hw_cfg W k) = None"
  by (simp_all add: hw_cfg_def)

lemma ledger_ok_new: "ledger_ok (mandate_new c (MemoryStore []))"
  by (simp add: ledger_ok_def new_readable wf_blank) (simp add: rec_bounded_def blank_def)

lemma hw_mandate_sel:
  "cfg (hw_mandate W k) = hw_cfg W k" "mandate_rec (hw_mandate W k) (hex b) = Inr blank" "sessions (hw_mandate W k) = Map.empty"
  "log_inv (hw_mandate W k)" "ledger_ok (hw_mandate W k)" "merkle (hw_mandate W k) = []"
  by (simp_all add: hw_mandate_def new_readable ledger_ok_new) (simp add: mandate_new_def log_new_def)

section \<open>Enrolment\<close>

text \<open>An enrolment that is accepted is logged as one, with the instance then on record.\<close>

lemma enroll_logs:
  assumes "enroll i m e = (Inr (True, why), m')"
  shows "\<exists>inst. merkle m' = merkle m @ [make_entry ''enroll'' (en_tik_pub e) True why inst None (Some (int (length (merkle m)))) (t_entry i)]
    \<and> py_bind (mandate_rec m' (hex (en_tik_pub e))) (\<lambda>r. opt_fromhex (enrolled_instance r)) = Inr inst"
proof -
  obtain m1 inst where d: "enroll_decide i m e = (Inr (True, why), m1)"
    and inst: "py_bind (mandate_rec m1 (hex (en_tik_pub e))) (\<lambda>r. opt_fromhex (enrolled_instance r)) = Inr inst"
    and m': "m' = snd (record_decision i m1 ''enroll'' (en_tik_pub e) True why inst)"
    using assms unfolding enroll_eq by (auto split: prod.splits sum.splits if_splits)
  have m1: "merkle m1 = merkle m" using enroll_out_decide [OF d] by (simp add: enroll_out_def)
  obtain o2 where rd: "record_decision i m1 ''enroll'' (en_tik_pub e) True why inst = (o2, m')"
    using m' by (cases "record_decision i m1 ''enroll'' (en_tik_pub e) True why inst") auto
  show ?thesis using record_decision_sel(4,10) [OF rd] inst m1 by (auto simp: decision_entry_def)
qed

text \<open>The entry of an enrolment in an empty log.\<close>

definition enrol_entry :: "bytes \<Rightarrow> anchor \<Rightarrow> inputs \<Rightarrow> bytes" where
  "enrol_entry tik a i = make_entry ''enroll'' tik True ''enrolled'' (Some (anchor_instance a)) None (Some 0) (t_entry i)"

lemma hw_enrols:
  assumes csr: "load_csr (hw_crypto W) csr = Inr (True, tik)" and t: "t_check i < now + 300" and a: "anchor_instance a \<noteq> []"
    and v: "hw_verify W (snp_evidence rep (sha512 (n @ csr))) (sha512 (n @ csr)) = Inr (True, Some a)"
    and c: "challenge now n (hw_mandate W k) = (n', m1)"
  shows "\<exists>m'. enroll i m1 (guest_enrolment (JStr (b64encode rep)) tik n csr ta) = (Inr (True, ''enrolled''), m')
    \<and> owns (hw_cfg W k) tik a ta [] m'
    \<and> merkle m' = [enrol_entry tik a i]"
proof -
  let ?e = "guest_enrolment (JStr (b64encode rep)) tik n csr ta"
  note s = challenge_sel [OF c] and h = hw_mandate_sel [of W k]
  have rec1: "mandate_rec m1 = mandate_rec (hw_mandate W k)" using mandate_rec_cong [of m1 "hw_mandate W k"] s by simp
  have ok1: "log_inv m1" "ledger_ok m1"
    using log_inv_step [of "hw_mandate W k" m1] mstep_ledger_ok [OF mstep.challenge [OF c]] h s by (auto simp: log_step_def)
  have ev: "en_evidence ?e = snp_evidence rep (sha512 (n @ csr))" by (simp add: guest_enrolment_def snp_evidence_def)
  have adm: "enroll_admits i m1 ?e blank a"
    using s h rec1 t csr v challenge_nonce [OF c] by (simp add: enroll_admits_def enroll_permitted_def ev) (simp add: guest_enrolment_def)
  then obtain m2 where m2: "enroll i m1 ?e = (Inr (True, ''enrolled''), m2)" "enroll_done m1 ?e blank a m2"
    using enroll_accepts [OF adm wf_blank] by auto
  have "mandate_rec m2 (hex tik) = Inr (map_nonces (store_norm (mstore m1)) (enrolled_rec ?e blank a))"
    using enroll_done_rec [OF m2(2) wf_blank] by (simp add: guest_enrolment_def)
  moreover have "cfg m2 = cfg m1" using enroll_steps(2) [OF m2(1)] by (simp add: ledger_step_def)
  moreover from calculation(1) have "merkle m2 = [enrol_entry tik a i]"
    using enroll_logs [OF m2(1)] s h opt_fromhex_hex [OF a] by (auto simp: enrol_entry_def guest_enrolment_def)
  ultimately have "owns (hw_cfg W k) tik a ta [] m2" "merkle m2 = [enrol_entry tik a i]"
    using h s a enroll_steps(4) [OF m2(1)] log_inv_step [OF enroll_steps(1) [OF m2(1)] ok1(1)]
      mstep_ledger_ok [OF mstep.enroll [OF m2(1)] ok1(2)]
    by (auto simp: owns_def wf_norm wf_blank guest_enrolment_def split: option.splits)
  with m2(1) show ?thesis by blast
qed

section \<open>Steps\<close>

text \<open>The message of the first step of a connection, and what the verifier says of it.\<close>

definition first_message :: "bytes \<Rightarrow> bytes \<Rightarrow> bytes \<Rightarrow> bytes option \<Rightarrow> bytes \<Rightarrow> message" where
  "first_message tik sc ex head rep = \<lparr>msg_counter = 0, msg_intra_ok_base = False, msg_post_link = hex (link_at sc tik ex 0),
     msg_evidence = snp_evidence rep (report_data_for (link_at sc tik ex 0) head), msg_head = None\<rparr>"

definition genuine_step :: "hw_world \<Rightarrow> bytes \<Rightarrow> bytes \<Rightarrow> bytes \<Rightarrow> bytes option \<Rightarrow> bytes \<Rightarrow> anchor \<Rightarrow> bool" where
  "genuine_step W tik sc ex head rep a \<longleftrightarrow> length sc < 256 \<and>
     (let rd = report_data_for (link_at sc tik ex 0) head in hw_verify W (snp_evidence rep rd) rd = Inr (True, Some a))"

lemma ledger_admits_owner:
  assumes "enrolled_instance r = Some (hex (anchor_instance a))" "anchor_instance a \<noteq> []" "observed_instance r = None"
    and "enrolled_place r = hex_opt (anchor_place a)" "\<not> require_place c"
  shows "ledger_admits c r (Some a)"
  using assms by (auto simp: ledger_admits_def Let_def opt_fromhex_hex agrees_def opt_fromhex_def hex_opt_def split: option.splits)

lemma admits_first:
  assumes rec: "mandate_rec m (hex tik) = Inr r" "\<not> revoked r" "ledger_admits (cfg m) r (Some a)"
    and m: "cfg m = hw_cfg W k" "sessions m (hex tik, session_key sc) = None" "head_check m (hex tik) head bd = Inr None"
    and g: "genuine_step W tik sc ex head rep a"
  shows "admits m tik sc ex (first_message tik sc ex head rep) head bd r (link_at sc tik ex 0) (Some a)"
  using assms by (auto simp: admits_def genuine_step_def first_message_def Let_def chain_base_def intra_link_Inr post_link_Inr len_simps)

lemma owns_accepts:
  assumes o: "owns (hw_cfg W k) tik a ta ws m" and g: "genuine_step W tik sc ex head rep a" and h: "head_check m (hex tik) head bd = Inr None"
  shows "\<exists>m'. present i m tik sc ex (first_message tik sc ex head rep) head bd = (Inr (True, ''accepted; continuity intact''), m')"
proof -
  obtain r where r: "mandate_rec m (hex tik) = Inr r" "\<not> revoked r" "ledger_admits (cfg m) r (Some a)"
    and m: "cfg m = hw_cfg W k" "sessions m = Map.empty"
    using o by (rule ownsE) (use ledger_admits_owner in auto)
  have s: "sessions m (hex tik, session_key sc) = None" using m(2) by simp
  show ?thesis by (rule present_admits [OF admits_first [OF r m(1) s h g]]) blast
qed

text \<open>Evidence of another instance is refused and leaves a sighting.\<close>

definition sighted :: "rat \<Rightarrow> anchor \<Rightarrow> sighting" where
  "sighted t b = \<lparr>w_instance = hex (anchor_instance b), w_place = hex_opt (anchor_place b), w_at = int_of_time t\<rparr>"

lemma sees_first:
  assumes "genuine_step W tik sc ex None rep b" "cfg m = hw_cfg W k"
  shows "sees m tik' (first_message tik sc ex None rep) None None b"
  using assms by (simp add: sees_def genuine_step_def first_message_def head_check_def Let_def)

lemma owns_refuses:
  assumes o: "owns (hw_cfg W k) tik a ta [] m" and g: "genuine_step W tik sc ex None rep b"
    and ne: "anchor_instance b \<noteq> anchor_instance a"
  shows "\<exists>m'. present i m tik sc ex (first_message tik sc ex None rep) None None
      = (Inr (False, ''rejected: key presented from an instance it was not enrolled on''), m')
    \<and> owns (hw_cfg W k) tik a ta [sighted (t_witness i) b] m'"
proof -
  from o obtain r where r: "mandate_rec m (hex tik) = Inr r" "wf_rec r" "\<not> revoked r"
    "enrolled_instance r = Some (hex (anchor_instance a))" "enrolled_place r = hex_opt (anchor_place a)" "observed_instance r = None"
    "transfer_authority r = map_option hex ta" "witnessed r = []" "consumed_grants r = []"
    and m: "anchor_instance a \<noteq> []" "cfg m = hw_cfg W k" "sessions m = Map.empty" "log_inv m" "ledger_ok m" by (rule ownsE)
  obtain m' where p: "present i m tik sc ex (first_message tik sc ex None rep) None None
      = (Inr (False, ''rejected: key presented from an instance it was not enrolled on''), m')"
    and rec: "mandate_rec m' (hex tik) = Inr (map_nonces (store_norm (mstore m))
        (dispute_rec (t_dispute i) (witness_rec (cfg m) (t_witness i) r (anchor_instance b) (anchor_place b))
          ''evidence from a non-enrolled instance''))" and ss: "sessions m' = sessions m"
    using impostor_step [OF r(1-4) m(1) sees_first [OF g m(2)] ne] by blast
  have "cfg m' = cfg m" "log_inv m'" "ledger_ok m'"
    using present_steps(1,2) [OF p] log_inv_step m(4) mstep_ledger_ok [OF mstep.present [OF p] m(5)] by (auto simp: ledger_step_def)
  moreover have "wf_rec (map_nonces (store_norm st) (dispute_rec c (witness_rec c' t' r i p) why))" for st c c' t' i p why
    using r(2) by (intro wf_norm) (simp add: wf_rec_def dispute_rec_def witness_rec_def Let_def)
  ultimately have "owns (hw_cfg W k) tik a ta [sighted (t_witness i) b] m'"
    using rec ss r m by (simp add: owns_def) (simp add: witness_rec_def dispute_rec_def Let_def sighted_def last_n_def)
  with p show ?thesis by blast
qed

section \<open>Transfer\<close>

text \<open>The identity is enrolled on \<open>b\<close> and the grant with this nonce is spent.\<close>

definition moved_to :: "config \<Rightarrow> bytes \<Rightarrow> anchor \<Rightarrow> json \<Rightarrow> mandate \<Rightarrow> bool" where
  "moved_to cf tik b nonce m \<longleftrightarrow> (\<exists>r. mandate_rec m (hex tik) = Inr r \<and> \<not> revoked r
     \<and> enrolled_instance r = Some (hex (anchor_instance b)) \<and> py_in nonce (consumed_grants r))
     \<and> anchor_instance b \<noteq> [] \<and> cfg m = cf \<and> ledger_ok m"

lemma moved_toE:
  assumes "moved_to cf tik b nonce m"
  obtains r where "mandate_rec m (hex tik) = Inr r" "wf_rec r" "\<not> revoked r" "enrolled_instance r = Some (hex (anchor_instance b))"
    "py_in nonce (consumed_grants r)" "anchor_instance b \<noteq> []" "cfg m = cf" "ledger_ok m"
proof -
  from assms obtain r where r: "mandate_rec m (hex tik) = Inr r" "\<not> revoked r" "enrolled_instance r = Some (hex (anchor_instance b))"
    "py_in nonce (consumed_grants r)" and m: "anchor_instance b \<noteq> []" "cfg m = cf" "ledger_ok m" unfolding moved_to_def by blast
  from m(3) obtain w where "mandate_rec m (hex tik) = Inr w" "wf_rec w" by (rule ledger_okE)
  with r(1) have "wf_rec r" by simp
  with that r m show thesis by blast
qed

lemma moved_to_present:
  assumes mv: "moved_to cf tik b nonce m" and p: "present i m tik sc ex msg head bd = (res, m')"
  shows "moved_to cf tik b nonce m'"
proof -
  from mv obtain r where r: "mandate_rec m (hex tik) = Inr r" "wf_rec r" "\<not> revoked r" "enrolled_instance r = Some (hex (anchor_instance b))"
    "py_in nonce (consumed_grants r)" and m: "anchor_instance b \<noteq> []" "cfg m = cf" "ledger_ok m" by (rule moved_toE)
  obtain r' where "mandate_rec m' (hex tik) = Inr r'" "enrolled_instance r' = enrolled_instance r" "revoked r' = revoked r"
    "\<And>x. py_in x (consumed_grants r') = py_in x (consumed_grants r)"
    using p r(1,2) by (rule present_rec) blast
  moreover have "cfg m' = cf" "ledger_ok m'"
    using present_steps(2) [OF p] m mstep_ledger_ok [OF mstep.present [OF p]] by (simp_all add: ledger_step_def)
  ultimately show ?thesis using r m(1) by (auto simp: moved_to_def)
qed

lemma moved_to_refuses:
  assumes mv: "moved_to (hw_cfg W k) tik b nonce m" and g: "genuine_step W tik sc ex None rep a"
    and ne: "anchor_instance a \<noteq> anchor_instance b"
  shows "\<exists>m'. present i m tik sc ex (first_message tik sc ex None rep) None None
      = (Inr (False, ''rejected: key presented from an instance it was not enrolled on''), m')"
proof -
  from mv obtain r where r: "mandate_rec m (hex tik) = Inr r" "wf_rec r" "\<not> revoked r" "enrolled_instance r = Some (hex (anchor_instance b))"
    and m: "anchor_instance b \<noteq> []" "cfg m = hw_cfg W k" by (rule moved_toE)
  show ?thesis using impostor_step [OF r m(1) sees_first [OF g m(2)] ne] by blast
qed

lemma moved_to_spent:
  assumes mv: "moved_to cf tik b (dget d ''nonce'') m" and d: "in_window d (int_of_time (t_check i)) = Inr v" "dindex d ''nonce'' = Inr n"
  shows "\<exists>why m'. accept_transfer i m tik (JObj d) sig = (Inr (False, why), m')"
proof -
  from mv obtain r where r: "mandate_rec m (hex tik) = Inr r" "py_in (dget d ''nonce'') (consumed_grants r)" by (rule moved_toE)
  show ?thesis using transfer_returns [OF r(1) d, of sig] used_grant_refused [OF r] by (metis (full_types))
qed

text \<open>The owner's grant from \<open>a\<close> to \<open>b\<close>, which the mandate has sighted.\<close>

definition move_grant :: "hw_world \<Rightarrow> bytes \<Rightarrow> anchor \<Rightarrow> anchor \<Rightarrow> dict" where
  "move_grant W tik a b =
     (let now = int_of_time (hw_grant_now W) in
      [(''v'', JInt 1), (''tik'', JStr (hex tik)), (''to'', JStr (hex (anchor_instance b))), (''from'', JStr (hex (anchor_instance a))),
       (''any_origin'', JBool False), (''nbf'', JInt now), (''exp'', JInt (now + 300)), (''nonce'', JStr (hex (hw_grant_nonce W)))])"

definition move_sig :: "hw_world \<Rightarrow> bytes \<Rightarrow> anchor \<Rightarrow> anchor \<Rightarrow> bytes" where
  "move_sig W tik a b = sign_with (hw_crypto W) (hw_owner W) WithSHA256 (hw_grant_rnd W) (canonical_grant (JObj (move_grant W tik a b)))"

lemma move_grant_sel [simp]:
  "dget (move_grant W tik a b) ''from'' = JStr (hex (anchor_instance a))" "dget (move_grant W tik a b) ''any_origin'' = JBool False"
  "dget (move_grant W tik a b) ''to'' = JStr (hex (anchor_instance b))" "dget (move_grant W tik a b) ''nonce'' = JStr (hex (hw_grant_nonce W))"
  "dindex (move_grant W tik a b) ''nonce'' = Inr (JStr (hex (hw_grant_nonce W)))"
  "dget (move_grant W tik a b) ''v'' = JInt 1" "dget (move_grant W tik a b) ''tik'' = JStr (hex tik)"
  "in_window (move_grant W tik a b) now = Inr (int_of_time (hw_grant_now W) \<le> now \<and> now \<le> int_of_time (hw_grant_now W) + 300)"
  "wf_json (JObj (move_grant W tik a b))"
  by (simp_all add: move_grant_def Let_def dget_def dindex_def in_window_def dget_or_def)

lemma make_grant_move:
  assumes "anchor_instance a \<noteq> []"
  shows "make_grant (hw_crypto W) (hw_owner W) (hw_grant_rnd W) tik (anchor_instance b) (Some (anchor_instance a)) 300 False None
    (hw_grant_now W) (hw_grant_nonce W) = Inr (JObj (move_grant W tik a b), move_sig W tik a b)"
  using assms by (simp add: make_grant_def grant_json_def move_grant_def move_sig_def hex_or_null_def at_or_now_def Let_def)

definition in_time :: "hw_world \<Rightarrow> inputs \<Rightarrow> rat \<Rightarrow> bool" where
  "in_time W i seen \<longleftrightarrow> (let now = int_of_time (t_check i); made = int_of_time (hw_grant_now W) in
     made \<le> now \<and> now \<le> made + 300 \<and> now - int_of_time seen < 3600)"

lemma owns_moves:
  assumes o: "owns (hw_cfg W k) tik a (Some (public_key_of (hw_crypto W) (hw_owner W))) [sighted t b] m"
    and sig: "sig_correct (hw_crypto W)" and b: "any_set (anchor_instance b)" and t: "in_time W i t"
  shows "\<exists>m' r. accept_transfer i m tik (JObj (move_grant W tik a b)) (move_sig W tik a b)
      = (Inr (True, ''transferred to the authorised instance''), m')
    \<and> moved_to (hw_cfg W k) tik b (JStr (hex (hw_grant_nonce W))) m' \<and> (\<forall>s. sessions m' (hex tik, s) = None)
    \<and> mandate_rec m' (hex tik) = Inr r \<and> \<not> revoked r \<and> ledger_admits (cfg m') r (Some b)"
proof -
  let ?d = "move_grant W tik a b" and ?s = "move_sig W tik a b" and ?now = "int_of_time (t_check i)"
  from o obtain r where r: "mandate_rec m (hex tik) = Inr r" "wf_rec r" "\<not> revoked r"
    "enrolled_instance r = Some (hex (anchor_instance a))" "transfer_authority r = Some (hex (public_key_of (hw_crypto W) (hw_owner W)))"
    "witnessed r = [sighted t b]" "consumed_grants r = []" and m: "cfg m = hw_cfg W k" "ledger_ok m"
    by (rule ownsE) auto
  have adm: "transfer_admitted (cfg m) ?now (hex tik) r (JObj ?d) ?s ?d (hex (anchor_instance b)) (anchor_instance b) (sighted t b) False"
    using r m sig b t by (simp add: transfer_admitted_def in_time_def Let_def py_in_def move_sig_def verify_grant_Inr sig_correctD)
      (simp add: sighted_def)
  from transfer_accepts [OF r(1) move_grant_sel(5) adm] obtain m' where
    t: "accept_transfer i m tik (JObj ?d) ?s = (Inr (True, ''transferred to the authorised instance''), m')" by blast
  have bne: "anchor_instance b \<noteq> []" using b by (auto simp: any_set_def)
  from t move_grant_sel(9) r(1,2) show ?thesis
  proof (rule accept_transfer_True)
    fix d to ti w o' nonce
    assume A: "transfer_admitted (cfg m) ?now (hex tik) r (JObj ?d) ?s d to ti w o'" "dindex d ''nonce'' = Inr nonce" "wf_json nonce"
      and rec: "mandate_rec m' (hex tik) = Inr (map_nonces (store_norm (mstore m)) (moved_rec r ?now to w nonce o'))"
      and ss: "\<And>x. fst x = hex tik \<Longrightarrow> sessions m' x = None" and c: "cfg m' = cfg m"
    let ?r = "map_nonces (store_norm (mstore m)) (moved_rec r ?now to w nonce o')"
    have d: "d = ?d" "to = hex (anchor_instance b)" "w = sighted t b" "nonce = JStr (hex (hw_grant_nonce W))"
      using A r(6) by (auto simp: transfer_admitted_def split: if_splits)
    have "list_all wf_json (consumed_grants (moved_rec r ?now to w nonce o'))" using moved_rec_wf [OF r(2) A(3)] by (simp only: wf_rec_def)
    then have "py_in nonce (consumed_grants ?r)" using py_in_norm [of "consumed_grants (moved_rec r ?now to w nonce o')"]
      by (simp add: py_in_last_n)
    moreover have "ledger_ok m'" using mstep_ledger_ok [OF mstep.transfer [OF t move_grant_sel(9)] m(2)] .
    moreover have "ledger_admits (cfg m') ?r (Some b)"
      using c m(1) bne d by (intro ledger_admits_owner) (simp_all add: sighted_def)
    ultimately show ?thesis using t rec ss c m(1) bne d r(3) by (auto simp: moved_to_def)
  qed
qed

lemma moved_accepts:
  assumes "mandate_rec m (hex tik) = Inr r" "\<not> revoked r" "ledger_admits (cfg m) r (Some b)" "cfg m = hw_cfg W k"
    and "\<forall>s. sessions m (hex tik, s) = None" "genuine_step W tik sc ex None rep b"
  shows "\<exists>m'. present i m tik sc ex (first_message tik sc ex None rep) None None = (Inr (True, ''accepted; continuity intact''), m')"
proof -
  have "sessions m (hex tik, session_key sc) = None" "head_check m (hex tik) None None = Inr None"
    using assms(5) by (simp_all add: head_check_def)
  from admits_first [OF assms(1-4) this assms(6)] show ?thesis by (rule present_admits) blast
qed

section \<open>The log\<close>

text \<open>The receipt \<open>present\<close> leaves verifies.\<close>

lemma present_receipt:
  assumes "present i m tik sc ex msg head bd = (Inr (ok, why), m')" "sig_correct (cf_crypto (cfg m))"
  shows "last_receipt_of m' = Inr (True, ''receipt verifies'')"
proof -
  obtain inst m1 where a: "appraise i m tik sc ex msg head bd = (Inr (ok, why, inst), m1)"
    and m': "m' = snd (record_decision i m1 ''present'' tik ok why inst)"
    using assms(1) by (auto simp: present_eq split: prod.splits sum.splits)
  let ?e = "decision_entry i m1 ''present'' tik ok why inst"
  let ?m = "m1\<lparr>merkle := merkle m1 @ [?e], roots := (roots m1)(hex (root (merkle m1 @ [?e])) \<mapsto> length (merkle m1) + 1)\<rparr>"
  have c: "cfg m' = cfg m" using present_steps(2) [OF assms(1)] by (simp add: ledger_step_def)
  obtain o2 where "record_decision i m1 ''present'' tik ok why inst = (o2, m')"
    using m' by (cases "record_decision i m1 ''present'' tik ok why inst") auto
  then have c1: "cfg m1 = cfg m" using record_decision_sel(2) c by metis
  obtain rc where rc: "mandate_receipt i ?m (int (length (merkle m1))) = Inr rc"
    "verify_receipt (cf_crypto (cfg ?m)) (mandate_public_key ?m) rc = Inr (True, ''receipt verifies'')"
    using receipt_verifies [of ?m "length (merkle m1)" i] assms(2) c1 by auto
  then have "m' = ?m\<lparr>last_receipt := Some rc\<rparr>"
    using m' by (simp add: record_decision_def log_append_def log_len_def log_head_def Let_def decision_entry_def)
  then show ?thesis using rc(2) by (simp add: last_receipt_of_def mandate_public_key_def)
qed

text \<open>Two one-entry logs have the same head only if a leaf of one collides with the other's.\<close>

lemma entry_kind:
  assumes "make_entry k t a w i at' s n = make_entry k' t' a' w' i' at'' s' n'"
  shows "k = k'"
proof -
  have "canonical (entry_json k t a w i (at_or_now at' n) s) = canonical (entry_json k' t' a' w' i' (at_or_now at'' n') s')"
    using assms by (simp add: make_entry_def)
  from canon.enc_field [OF _ _ this [unfolded entry_json_def], of "''kind''"] show ?thesis
    by (auto simp: entry_json_def hex_or_null_def split: option.splits)
qed

lemma root_one: "root [e] = leaf_hash e"
  by (subst root.simps) simp

definition history_collision :: "bytes \<Rightarrow> bytes \<Rightarrow> rat \<Rightarrow> bool" where
  "history_collision tik e t \<longleftrightarrow> collision sha256 (leaf_input e)
     (leaf_input (make_entry ''present'' tik True ''a different history'' None None (Some 0) t))"

lemma rewritten_head:
  assumes e: "e = make_entry ''enroll'' tik' True why inst None s n" and c: "\<not> history_collision tik e t"
  shows "root [e] \<noteq> root (merkle (rewritten t tik m))"
proof
  let ?e' = "make_entry ''present'' tik True ''a different history'' None None (Some 0) t"
  assume "root [e] = root (merkle (rewritten t tik m))"
  then have "sha256 (leaf_input e) = sha256 (leaf_input ?e')" by (simp add: root_one rewritten_def Let_def leaf_hash_sha)
  with c have "leaf_input e = leaf_input ?e'" by (simp add: history_collision_def collision_def)
  then have "e = ?e'" by (simp add: leaf_input_def)
  with e entry_kind show False by fastforce
qed

lemma rewritten_forgets:
  "\<not> history_collision tik (enrol_entry tik a i) t \<Longrightarrow> root (merkle (rewritten t tik m)) \<noteq> leaf_hash (enrol_entry tik a i)"
  using rewritten_head [OF enrol_entry_def, of tik tik a i t m] by (simp add: root_one)

end
