(* ===== verification/Hw_Proofs.thy ===== *)
theory Hw_Proofs
  imports Hw_Mandate
begin

text \<open>
  The runs of \<open>Hw_Runs\<close> against honest guests: each client block returns what its guest serves, and the run ends with
  exit code 0 and the verdict it means to show.
\<close>

section \<open>What a guest serves\<close>

text \<open>The reply arrives in any pieces; a connection to \<open>ip\<close> is opened and the request sent.\<close>

definition answered_at :: "'c tls_conn \<Rightarrow> string \<Rightarrow> int \<Rightarrow> json \<Rightarrow> json \<Rightarrow> bool" where
  "answered_at T ip port req reply \<longleftrightarrow> wf_json reply \<and> (\<exists>inbox c c1 u out rest. delivers T inbox
     \<and> client_enter T (client_new ip port None None) = Inr c \<and> tc_sendall T c (dumps_bytes req @ [0x0A]) = (Inr u, c1)
     \<and> frame (dumps_bytes reply) = Inr out \<and> inbox c1 = out @ rest)"

abbreviation answered :: "'c tls_conn \<Rightarrow> string \<Rightarrow> json \<Rightarrow> json \<Rightarrow> bool" where
  "answered T ip \<equiv> answered_at T ip 8443"

lemma answered_request:
  assumes "answered_at T ip port req reply"
  obtains c c1 where "client_enter T (client_new ip port None None) = Inr c" "client_request T c req = Some (Inr reply, c1)"
proof -
  from assms obtain inbox c c1 u out rest where a: "wf_json reply" "delivers T inbox" "client_enter T (client_new ip port None None) = Inr c"
    "tc_sendall T c (dumps_bytes req @ [0x0A]) = (Inr u, c1)" "frame (dumps_bytes reply) = Inr out" "inbox c1 = out @ rest"
    unfolding answered_at_def by (elim conjE exE)
  with client_request_reads [OF a(2,4-6,1)] that show thesis by blast
qed

definition enroll_reply :: "'d probe \<Rightarrow> bytes \<Rightarrow> bytes \<Rightarrow> json" where
  "enroll_reply P csr rep = JObj [(''instance'', JStr (pb_instance P)), (''zone'', JStr (pb_zone P)),
     (''enroll'', JBool True), (''csr'', JStr (hex csr)), (''report'', JStr (b64encode rep))]"

lemma serve_enroll_reply:
  assumes "pb_csr P = Inr csr" "snp_report P 0 (sha512 (n @ csr)) = Inr rep"
  shows "\<exists>d. hw_enrol_request n = JObj d \<and> truthy (dget d ''enroll'') \<and> serve_enroll P d = Inr (dumps_bytes (enroll_reply P csr rep), rep)"
  using assms by (simp add: hw_enrol_request_def serve_enroll_def dget_def dindex_def enroll_reply_def)

text \<open>
  The guest \<open>P\<close> answers an enrolment with a CSR of its key and a report the verifier takes as \<open>a\<close>; it answers a request
  for \<open>n\<close> steps with the chain of its connection, the first report of which is taken as \<open>a\<close>.
\<close>

definition enrols_as :: "hw_world \<Rightarrow> nat \<Rightarrow> 'c tls_conn \<Rightarrow> string \<Rightarrow> 'd probe \<Rightarrow> anchor \<Rightarrow> bool" where
  "enrols_as W j T ip P a \<longleftrightarrow> (\<exists>csr rep f ex sc. pb_csr P = Inr csr \<and> load_csr (hw_crypto W) csr = Inr (True, pb_tik_pub P)
     \<and> (let rd = sha512 (hw_nonce W j @ csr) in snp_report P 0 rd = Inr rep \<and> parse_snp rep = Inr f \<and> snp_anchor f = Some a
          \<and> hw_verify W (snp_evidence rep rd) rd = Inr (True, Some a))
     \<and> same_session T P ex sc \<and> answered T ip (hw_enrol_request (hw_nonce W j)) (enroll_reply P csr rep))"

record 'd visit =
  vs_probe :: "'d probe"
  vs_exporter :: bytes
  vs_sctx :: bytes
  vs_report :: "nat \<Rightarrow> bytes"

definition visit_link :: "'d visit \<Rightarrow> bytes" where
  "visit_link V = link_at (vs_sctx V) (pb_tik_pub (vs_probe V)) (vs_exporter V) 0"

definition visit_item :: "'d visit \<Rightarrow> nat \<Rightarrow> json" where
  "visit_item V c = chain_item (vs_probe V) (vs_sctx V) (vs_exporter V) c (vs_report V c)"

definition visit_reply :: "'d visit \<Rightarrow> nat \<Rightarrow> bytes option \<Rightarrow> json" where
  "visit_reply V n head = chain_reply (vs_probe V) (map (visit_item V) [0..<n]) head"

definition visit_msg :: "'d visit \<Rightarrow> bytes option \<Rightarrow> message" where
  "visit_msg V head = first_message (pb_tik_pub (vs_probe V)) (vs_sctx V) (vs_exporter V) head (vs_report V 0)"

definition presents_as :: "hw_world \<Rightarrow> 'c tls_conn \<Rightarrow> string \<Rightarrow> bytes \<Rightarrow> 'd visit \<Rightarrow> nat \<Rightarrow> bytes option \<Rightarrow> anchor \<Rightarrow> bool" where
  "presents_as W T ip tik V n head a \<longleftrightarrow> pb_tik_pub (vs_probe V) = tik \<and> same_session T (vs_probe V) (vs_exporter V) (vs_sctx V) \<and> 0 < n
     \<and> (\<forall>c<n. item_report (vs_probe V) (vs_sctx V) (vs_exporter V) head c = Inr (vs_report V c))
     \<and> (\<exists>f. parse_snp (vs_report V 0) = Inr f \<and> snp_anchor f = Some a \<and> snp_report_data f = report_data_for (visit_link V) head)
     \<and> genuine_step W tik (vs_sctx V) (vs_exporter V) head (vs_report V 0) a
     \<and> answered T ip (hw_steps_request (int n) head) (visit_reply V n head)"

lemma visit_served:
  assumes "presents_as W T ip tik V n head a" "n \<le> 2 ^ 64"
  shows "\<exists>fs. serve_chain (vs_probe V) k b (int n) head (vs_exporter V) (vs_sctx V)
    = (let blob = dumps_bytes (visit_reply V n head) in send_reply (vs_probe V) b blob fs (json_file (conn_file k ''.json'') blob))"
  using serve_chain_reply [of "vs_sctx V" n "vs_probe V" "vs_exporter V" head "vs_report V" k b] assms
  by (auto simp: presents_as_def genuine_step_def visit_reply_def visit_item_def [abs_def] Let_def)

lemma snp_anchor_any: "snp_anchor f = Some a \<Longrightarrow> any_set (anchor_instance a)"
  by (auto simp: snp_anchor_def present_id_Some split: option.splits)

section \<open>The blocks\<close>

lemma bio_then_ok [simp]: "bio_then (Some (Inr v, s)) f = f v s" "bio_then (Some (Inl x, s)) f = Some (Inl x, s)"
  by (simp_all add: bio_then_def)

lemma ask_enrolment_ok:
  assumes g: "same_session T P ex sc" "load_csr (hw_crypto W) csr = Inr (True, pb_tik_pub P)"
    and q: "client_request T c (hw_enrol_request (hw_nonce W j)) = Some (Inr (enroll_reply P csr rep), c1)"
  shows "ask_enrolment W j T c m = Some (Inr (enroll_reply P csr rep, hw_nonce W j, csr, pb_tik_pub P, True),
    snd (challenge (hw_now W j) (hw_nonce W j) m))"
  using assms by (simp add: ask_enrolment_def challenge_def Let_def client_ask_def)
    (simp add: enroll_reply_def subscript_def dindex_def same_session_def csr_public_key_Inr [THEN iffD2])

lemma enroll_reply_sel [simp]:
  "subscript (enroll_reply P csr rep) ''report'' = Inr (JStr (b64encode rep))" "subscript (enroll_reply P csr rep) ''zone'' = Inr (JStr (pb_zone P))"
  "subscript (enroll_reply P csr rep) ''csr'' = Inr (JStr (hex csr))"
  by (simp_all add: enroll_reply_def subscript_def dindex_def)

lemma visit_reply_sel [simp]:
  "0 < n \<Longrightarrow> first_step (visit_reply V n head) = Inr (visit_item V 0)"
  "subscript (visit_reply V n head) ''zone'' = Inr (JStr (pb_zone (vs_probe V)))"
  "subscript (visit_reply V n head) ''chain'' = Inr (JList (map (visit_item V) [0..<n]))"
  by (simp_all add: visit_reply_def chain_reply_def subscript_def dindex_def first_step_def nth_of_def)

lemma visit_item_sel [simp]:
  "subscript (visit_item V c) ''report'' = Inr (JStr (b64encode (vs_report V c)))"
  "subscript (visit_item V 0) ''post_link'' = Inr (JStr (hex (visit_link V)))"
  "step_msg (visit_item V 0) head = Inr (visit_msg V head)"
proof -
  show "subscript (visit_item V c) ''report'' = Inr (JStr (b64encode (vs_report V c)))"
    and l: "subscript (visit_item V 0) ''post_link'' = Inr (JStr (hex (visit_link V)))" for c
    by (simp_all add: visit_item_def chain_item_def subscript_def dindex_def visit_link_def)
  then show "step_msg (visit_item V 0) head = Inr (visit_msg V head)"
    by (simp add: step_msg_def visit_msg_def first_message_def snp_evidence_def) (simp add: visit_link_def)
qed

lemma report_anchor_ok: "parse_snp rep = Inr f \<Longrightarrow> snp_anchor f = Some a \<Longrightarrow> py_bind (report_anchor (JStr (b64encode rep))) some_anchor = Inr a"
  by (simp add: report_anchor_def some_anchor_def b64decode_encode)

lemma enrol_call_ok:
  assumes e: "enrols_as W j T ip P a" and t: "t_check (hw_ins W j) < hw_now W j + 300"
  obtains c c1 csr rep f ex sc m where "client_enter T (client_new ip 8443 None None) = Inr c" "same_session T P ex sc"
    "client_request T c (hw_enrol_request (hw_nonce W j)) = Some (Inr (enroll_reply P csr rep), c1)"
    "load_csr (hw_crypto W) csr = Inr (True, pb_tik_pub P)" "parse_snp rep = Inr f" "snp_anchor f = Some a"
    "enrol_call (hw_ins W j) (enroll_reply P csr rep) (hw_nonce W j) csr (pb_tik_pub P) ta
       (snd (challenge (hw_now W j) (hw_nonce W j) (hw_mandate W k))) = Some (Inr (True, ''enrolled''), m)"
    "owns (hw_cfg W k) (pb_tik_pub P) a ta [] m" "merkle m = [enrol_entry (pb_tik_pub P) a (hw_ins W j)]"
proof -
  from e obtain csr rep f ex sc where g: "load_csr (hw_crypto W) csr = Inr (True, pb_tik_pub P)" "parse_snp rep = Inr f" "snp_anchor f = Some a"
    "hw_verify W (snp_evidence rep (sha512 (hw_nonce W j @ csr))) (sha512 (hw_nonce W j @ csr)) = Inr (True, Some a)"
    "same_session T P ex sc" "answered T ip (hw_enrol_request (hw_nonce W j)) (enroll_reply P csr rep)"
    unfolding enrols_as_def Let_def by blast
  from g(6) obtain c c1 where c: "client_enter T (client_new ip 8443 None None) = Inr c"
    "client_request T c (hw_enrol_request (hw_nonce W j)) = Some (Inr (enroll_reply P csr rep), c1)" by (rule answered_request)
  obtain n' m1 where ch: "challenge (hw_now W j) (hw_nonce W j) (hw_mandate W k) = (n', m1)" by fastforce
  have a: "anchor_instance a \<noteq> []" using g(3) by (auto dest: snp_anchor_any simp: any_set_def)
  obtain m where "enroll (hw_ins W j) m1 (guest_enrolment (JStr (b64encode rep)) (pb_tik_pub P) (hw_nonce W j) csr ta) = (Inr (True, ''enrolled''), m)"
    "owns (hw_cfg W k) (pb_tik_pub P) a ta [] m" "merkle m = [enrol_entry (pb_tik_pub P) a (hw_ins W j)]"
    using hw_enrols [OF g(1) t a g(4) ch, of ta] by blast
  then show thesis using that c g(1-3,5) by (simp add: enrol_call_def ch)
qed

lemma step_block:
  assumes "presents_as W T ip tik V n head a"
  obtains c c1 where "client_enter T (client_new ip 8443 None None) = Inr c"
    "client_request T c (hw_steps_request (int n) head) = Some (Inr (visit_reply V n head), c1)"
  using assms answered_request unfolding presents_as_def by metis

lemma visit_keys:
  assumes "presents_as W T ip tik V n head a"
  shows "peer_identity_key T c = Inr tik" "0 < n" "visit_msg V head = first_message tik (vs_sctx V) (vs_exporter V) head (vs_report V 0)"
    "hw_present i T c k (Inr msg) h bd m = Some (present i m k (vs_sctx V) (vs_exporter V) msg h bd)"
    "genuine_step W tik (vs_sctx V) (vs_exporter V) head (vs_report V 0) a"
  using assms by (auto simp: presents_as_def same_session_def visit_msg_def hw_present_def)

text \<open>What the mandate says of a visit of the owner, and of another instance.\<close>

lemma visit_accepted:
  assumes o: "owns (hw_cfg W k) tik a ta ws m" and p: "presents_as W T ip tik V n head a" and h: "head_check m (hex tik) head bd = Inr None"
  shows "\<exists>m'. present i m tik (vs_sctx V) (vs_exporter V) (visit_msg V head) head bd = (Inr (True, ''accepted; continuity intact''), m')"
  unfolding visit_keys(3) [OF p] by (rule owns_accepts [OF o visit_keys(5) [OF p] h])

lemma visit_refused:
  assumes o: "owns (hw_cfg W k) tik a ta [] m" and p: "presents_as W T ip tik V n None b" and ne: "anchor_instance b \<noteq> anchor_instance a"
  shows "\<exists>m'. present i m tik (vs_sctx V) (vs_exporter V) (visit_msg V None) None None
      = (Inr (False, ''rejected: key presented from an instance it was not enrolled on''), m')
    \<and> owns (hw_cfg W k) tik a ta [sighted (t_witness i) b] m'"
  unfolding visit_keys(3) [OF p] by (rule owns_refuses [OF o visit_keys(5) [OF p] ne])

section \<open>Enrolment prevention\<close>

lemma er_enrol_ok:
  assumes e: "enrols_as W 0 T ip P a" and t: "t_check (hw_ins W 0) < hw_now W 0 + 300"
  shows "\<exists>m. er_enrol W T ip (hw_mandate W 0) = Some (Inr (Some (pb_tik_pub P)), m) \<and> owns (hw_cfg W 0) (pb_tik_pub P) a None [] m"
proof -
  from e t obtain c c1 csr rep f ex sc m where c: "client_enter T (client_new ip 8443 None None) = Inr c" "same_session T P ex sc"
    "client_request T c (hw_enrol_request (hw_nonce W 0)) = Some (Inr (enroll_reply P csr rep), c1)"
    "load_csr (hw_crypto W) csr = Inr (True, pb_tik_pub P)" "parse_snp rep = Inr f" "snp_anchor f = Some a"
    "enrol_call (hw_ins W 0) (enroll_reply P csr rep) (hw_nonce W 0) csr (pb_tik_pub P) None
       (snd (challenge (hw_now W 0) (hw_nonce W 0) (hw_mandate W 0))) = Some (Inr (True, ''enrolled''), m)"
    "owns (hw_cfg W 0) (pb_tik_pub P) a None [] m" by (rule enrol_call_ok)
  have "er_enrol W T ip (hw_mandate W 0) = Some (Inr (Some (pb_tik_pub P)), m)"
    using c(5-7) by (simp add: er_enrol_def in_client_at_def c(1) ask_enrolment_ok [OF c(2,4,3)] report_anchor_def b64decode_encode some_anchor_def)
  with c(8) show ?thesis by blast
qed

lemma er_attack_ok:
  assumes o: "owns (hw_cfg W 0) tik a None [] m" and p: "presents_as W T ip tik V 2 None b" and ne: "anchor_instance b \<noteq> anchor_instance a"
  shows "\<exists>m' ws. er_attack W T ip tik m = Some (Inr (Some False), m') \<and> owns (hw_cfg W 0) tik a None ws m'"
proof -
  from p obtain c c1 where c: "client_enter T (client_new ip 8443 None None) = Inr c"
    "client_request T c (hw_steps_request (int 2) None) = Some (Inr (visit_reply V 2 None), c1)" by (rule step_block)
  obtain m' where "present (hw_ins W 1) m tik (vs_sctx V) (vs_exporter V) (visit_msg V None) None None
      = (Inr (False, ''rejected: key presented from an instance it was not enrolled on''), m')"
    "owns (hw_cfg W 0) tik a None [sighted (t_witness (hw_ins W 1)) b] m'" using visit_refused [OF o p ne] by blast
  with c(2) visit_keys [OF p] show ?thesis by (auto simp: er_attack_def in_client_at_def c(1) client_ask_def)
qed

lemma er_control_ok:
  assumes o: "owns (hw_cfg W 0) tik a None ws m" and p: "presents_as W T ip tik V 2 None a"
  shows "\<exists>m'. er_control W T ip m = Some (Inr True, m')"
proof -
  from p obtain c c1 where c: "client_enter T (client_new ip 8443 None None) = Inr c"
    "client_request T c (hw_steps_request (int 2) None) = Some (Inr (visit_reply V 2 None), c1)" by (rule step_block)
  have "head_check m (hex tik) None None = Inr None" by (simp add: head_check_def)
  then obtain m' where "present (hw_ins W 2) m tik (vs_sctx V) (vs_exporter V) (visit_msg V None) None None
      = (Inr (True, ''accepted; continuity intact''), m')" using visit_accepted [OF o p] by blast
  with c(2) visit_keys [OF p] show ?thesis by (simp add: er_control_def in_client_at_def c(1) client_ask_def)
qed

text \<open>
  A report that names no instance is refused by the mandate, and the line that prints the anchor then subscripts
  \<open>None\<close>: the refusal is not reported, and the run ends with a TypeError instead of 1.
\<close>

lemma er_no_anchor:
  assumes "client_enter T (client_new ip 8443 None None) = Inr c" "ask_enrolment W 0 T c m = Some (Inr (r, nonce, csr, tik, True), m1)"
    and "enrol_call (hw_ins W 0) r nonce csr tik None m1 = Some (Inr (False, why), m2)"
    and "py_bind (subscript r ''report'') report_anchor = Inr None" "subscript r ''zone'' = Inr z"
  shows "er_enrol W T ip m = Some (Inl (TypeError ''NoneType object is not subscriptable''), m2)"
  using assms by (simp add: er_enrol_def in_client_at_def some_anchor_def)

lemma enroll_main_exits_0:
  assumes A: "enrols_as W 0 (T 0) ipA P a" "presents_as W (T 2) ipA (pb_tik_pub P) V 2 None a"
    and B: "presents_as W (T 1) ipB (pb_tik_pub P) V' 2 None b"
    and ne: "anchor_instance b \<noteq> anchor_instance a" and t: "t_check (hw_ins W 0) < hw_now W 0 + 300"
  shows "\<exists>m. enroll_main W ipA ipB T = Some (Inr (0, Some (JObj [(''impostor_blocked_first_message'', JBool True),
    (''victim_accepted'', JBool True), (''log'', log_json m)])), m)"
proof -
  obtain m1 where m1: "er_enrol W (T 0) ipA (hw_mandate W 0) = Some (Inr (Some (pb_tik_pub P)), m1)"
    "owns (hw_cfg W 0) (pb_tik_pub P) a None [] m1" using er_enrol_ok [OF A(1) t] by blast
  obtain m2 ws where m2: "er_attack W (T 1) ipB (pb_tik_pub P) m1 = Some (Inr (Some False), m2)"
    "owns (hw_cfg W 0) (pb_tik_pub P) a None ws m2" using er_attack_ok [OF m1(2) B ne] by blast
  obtain m3 where "er_control W (T 2) ipA m2 = Some (Inr True, m3)" using er_control_ok [OF m2(2) A(2)] by blast
  with m1(1) m2(1) show ?thesis by (simp add: enroll_main_def)
qed

section \<open>Transfer\<close>

definition place_text :: "anchor \<Rightarrow> string" where
  "place_text a = (case hex_opt (anchor_place a) of None \<Rightarrow> ''masked'' | Some h \<Rightarrow> take 16 h)"

lemma th_claims_ok:
  "parse_snp rep = Inr f \<Longrightarrow> snp_anchor f = Some a \<Longrightarrow> th_claims (JStr (b64encode rep)) = Inr (anchor_instance a, place_text a)"
  by (simp add: th_claims_def report_anchor_ok place_text_def)

lemma th_enrol_ok:
  assumes e: "enrols_as W 0 T ip P a" and t: "t_check (hw_ins W 0) < hw_now W 0 + 300"
  shows "\<exists>m. th_enrol W T ip (hw_mandate W 0) = Some (Inr \<lparr>te_ok = True, te_tik = pb_tik_pub P, te_instance = anchor_instance a,
      te_place = place_text a\<rparr>, m)
    \<and> owns (hw_cfg W 0) (pb_tik_pub P) a (Some (public_key_of (hw_crypto W) (hw_owner W))) [] m"
proof -
  from e t obtain c c1 csr rep f ex sc m where c: "client_enter T (client_new ip 8443 None None) = Inr c" "same_session T P ex sc"
    "client_request T c (hw_enrol_request (hw_nonce W 0)) = Some (Inr (enroll_reply P csr rep), c1)"
    "load_csr (hw_crypto W) csr = Inr (True, pb_tik_pub P)" "parse_snp rep = Inr f" "snp_anchor f = Some a"
    "enrol_call (hw_ins W 0) (enroll_reply P csr rep) (hw_nonce W 0) csr (pb_tik_pub P) (Some (public_key_of (hw_crypto W) (hw_owner W)))
       (snd (challenge (hw_now W 0) (hw_nonce W 0) (hw_mandate W 0))) = Some (Inr (True, ''enrolled''), m)"
    "owns (hw_cfg W 0) (pb_tik_pub P) a (Some (public_key_of (hw_crypto W) (hw_owner W))) [] m" by (rule enrol_call_ok)
  have "th_enrol W T ip (hw_mandate W 0) = Some (Inr \<lparr>te_ok = True, te_tik = pb_tik_pub P, te_instance = anchor_instance a,
      te_place = place_text a\<rparr>, m)"
    using c(7) by (simp add: th_enrol_def in_client_at_def c(1) ask_enrolment_ok [OF c(2,4,3)] th_claims_ok [OF c(5,6)])
  with c(8) show ?thesis by blast
qed

lemma th_refused_ok:
  assumes o: "owns (hw_cfg W 0) tik a ta [] m" and p: "presents_as W T ip tik V 1 None b" and ne: "anchor_instance b \<noteq> anchor_instance a"
  shows "\<exists>m'. th_refused W T ip tik m = Some (Inr (anchor_instance b, place_text b, False), m')
    \<and> owns (hw_cfg W 0) tik a ta [sighted (t_witness (hw_ins W 1)) b] m'"
proof -
  from p obtain c c1 where c: "client_enter T (client_new ip 8443 None None) = Inr c"
    "client_request T c (hw_steps_request (int 1) None) = Some (Inr (visit_reply V 1 None), c1)" by (rule step_block)
  have "th_claims (JStr (b64encode (vs_report V 0))) = Inr (anchor_instance b, place_text b)"
    using p th_claims_ok by (auto simp: presents_as_def)
  with visit_refused [OF o p ne, of "hw_ins W 1"] c(2) visit_keys [OF p] show ?thesis
    by (auto simp: th_refused_def in_client_at_def c(1) client_ask_def)
qed

text \<open>A block of the last section returns what the mandate says of the visit.\<close>

lemma th_after_ok:
  assumes p: "presents_as W T ip tik V 1 None b"
    and m: "present (hw_ins W j) m tik (vs_sctx V) (vs_exporter V) (visit_msg V None) None None = (Inr (ok, why), m')"
  shows "th_after W j T ip tik m = Some (Inr ok, m')"
proof -
  from p obtain c c1 where c: "client_enter T (client_new ip 8443 None None) = Inr c"
    "client_request T c (hw_steps_request (int 1) None) = Some (Inr (visit_reply V 1 None), c1)" by (rule step_block)
  with m visit_keys [OF p] show ?thesis by (simp add: th_after_def in_client_at_def client_ask_def)
qed

definition transfer_verdict :: "anchor \<Rightarrow> anchor \<Rightarrow> mandate \<Rightarrow> json" where
  "transfer_verdict a b m = JObj [(''enrolled'', JBool True), (''instance_a'', JStr (hex (anchor_instance a))), (''place_a'', JStr (place_text a)),
     (''instance_b'', JStr (hex (anchor_instance b))), (''place_b'', JStr (place_text b)), (''b_refused_before'', JBool True),
     (''transferred'', JBool True), (''b_accepted_after'', JBool True), (''a_refused_after'', JBool True),
     (''replay_refused'', JBool True), (''log'', log_json m)]"

lemma transfer_main_exits_0:
  assumes sig: "sig_correct (hw_crypto W)"
    and A: "enrols_as W 0 (T 0) ipA P a" "presents_as W (T 3) ipA (pb_tik_pub P) V3 1 None a"
    and B: "presents_as W (T 1) ipB (pb_tik_pub P) V1 1 None b" "presents_as W (T 2) ipB (pb_tik_pub P) V2 1 None b"
    and ne: "anchor_instance b \<noteq> anchor_instance a"
    and t: "t_check (hw_ins W 0) < hw_now W 0 + 300" "in_time W (hw_ins W 2) (t_witness (hw_ins W 1))"
  shows "\<exists>m. transfer_main W ipA ipB T = Some (Inr (0, Some (transfer_verdict a b m)), m)"
proof -
  let ?tik = "pb_tik_pub P" and ?d = "move_grant W (pb_tik_pub P) a b" and ?s = "move_sig W (pb_tik_pub P) a b"
  let ?ta = "Some (public_key_of (hw_crypto W) (hw_owner W))" and ?n = "JStr (hex (hw_grant_nonce W))"
  obtain m1 where m1: "th_enrol W (T 0) ipA (hw_mandate W 0) = Some (Inr \<lparr>te_ok = True, te_tik = ?tik, te_instance = anchor_instance a,
      te_place = place_text a\<rparr>, m1)" "owns (hw_cfg W 0) ?tik a ?ta [] m1" using th_enrol_ok [OF A(1) t(1)] by blast
  obtain m2 where m2: "th_refused W (T 1) ipB ?tik m1 = Some (Inr (anchor_instance b, place_text b, False), m2)"
    "owns (hw_cfg W 0) ?tik a ?ta [sighted (t_witness (hw_ins W 1)) b] m2" using th_refused_ok [OF m1(2) B(1) ne] by blast
  have any: "any_set (anchor_instance b)" "anchor_instance a \<noteq> []"
    using B(1) m2(2) snp_anchor_any by (auto simp: presents_as_def owns_def)
  obtain r2 where r2: "mandate_rec m2 (hex ?tik) = Inr r2" using m2(2) by (rule ownsE)
  obtain m3 r where m3: "accept_transfer (hw_ins W 2) m2 ?tik (JObj ?d) ?s = (Inr (True, ''transferred to the authorised instance''), m3)"
    "moved_to (hw_cfg W 0) ?tik b ?n m3" "\<forall>s. sessions m3 (hex ?tik, s) = None"
    "mandate_rec m3 (hex ?tik) = Inr r" "\<not> revoked r" "ledger_admits (cfg m3) r (Some b)"
    using owns_moves [OF m2(2) sig any(1) t(2)] by blast
  have c3: "cfg m3 = hw_cfg W 0" using m3(2) by (rule moved_toE)
  obtain m4 where m4: "present (hw_ins W 3) m3 ?tik (vs_sctx V2) (vs_exporter V2) (visit_msg V2 None) None None
      = (Inr (True, ''accepted; continuity intact''), m4)"
    using moved_accepts [OF m3(4-6) c3 m3(3) visit_keys(5) [OF B(2)], of "hw_ins W 3"] visit_keys(3) [OF B(2)] by auto
  note mv4 = moved_to_present [OF m3(2) m4]
  obtain m5 where m5: "present (hw_ins W 4) m4 ?tik (vs_sctx V3) (vs_exporter V3) (visit_msg V3 None) None None
      = (Inr (False, ''rejected: key presented from an instance it was not enrolled on''), m5)"
    using moved_to_refuses [OF mv4 visit_keys(5) [OF A(2)] ne [symmetric], of "hw_ins W 4"] visit_keys(3) [OF A(2)] by auto
  obtain why m6 where "accept_transfer (hw_ins W 5) m5 ?tik (JObj ?d) ?s = (Inr (False, why), m6)"
    using moved_to_spent [OF _ move_grant_sel(8,5), of "hw_cfg W 0" ?tik b] moved_to_present [OF mv4 m5] by fastforce
  with m1(1) m2(1) m3(1) r2 show ?thesis
    by (simp add: transfer_main_def make_grant_move [OF any(2)] th_transfer_def transfer_verdict_def
        th_after_ok [OF B(2) m4] th_after_ok [OF A(2) m5])
qed

section \<open>The chip as a witness\<close>

lemma wh_enrol_ok:
  assumes e: "enrols_as W 0 T ip P a" and t: "t_check (hw_ins W 0) < hw_now W 0 + 300"
  shows "\<exists>m. wh_enrol W T ip (hw_mandate W 0) = Some (Inr (pb_tik_pub P, True), m) \<and> owns (hw_cfg W 0) (pb_tik_pub P) a None [] m
    \<and> merkle m = [enrol_entry (pb_tik_pub P) a (hw_ins W 0)]"
proof -
  from e t obtain c c1 csr rep f ex sc m where c: "client_enter T (client_new ip 8443 None None) = Inr c" "same_session T P ex sc"
    "client_request T c (hw_enrol_request (hw_nonce W 0)) = Some (Inr (enroll_reply P csr rep), c1)"
    "load_csr (hw_crypto W) csr = Inr (True, pb_tik_pub P)" "parse_snp rep = Inr f" "snp_anchor f = Some a"
    "enrol_call (hw_ins W 0) (enroll_reply P csr rep) (hw_nonce W 0) csr (pb_tik_pub P) None
       (snd (challenge (hw_now W 0) (hw_nonce W 0) (hw_mandate W 0))) = Some (Inr (True, ''enrolled''), m)"
    "owns (hw_cfg W 0) (pb_tik_pub P) a None [] m" "merkle m = [enrol_entry (pb_tik_pub P) a (hw_ins W 0)]" by (rule enrol_call_ok)
  have "wh_enrol W T ip (hw_mandate W 0) = Some (Inr (pb_tik_pub P, True), m)"
    using c(5-7) by (simp add: wh_enrol_def in_client_at_def c(1) ask_enrolment_ok [OF c(2,4,3)] report_anchor_def b64decode_encode some_anchor_def)
  with c(8,9) show ?thesis by blast
qed

lemma audited_visit:
  "presents_as W T ip tik V n head a \<Longrightarrow> audited (visit_item V 0) h = Inr (report_data_for (visit_link V) head = report_data_for (visit_link V) (Some h))"
  by (auto simp: audited_def presents_as_def b64decode_encode)

lemma owns_knows_root: "owns cf tik a ta ws m \<Longrightarrow> knows_head m (root (merkle m))"
  using knows_head_iff [of m "root (merkle m)"] by (auto simp: owns_def)

text \<open>A head stays known.\<close>

lemma step_knows_head:
  assumes p: "present i m tik sc ex msg head bd = (res, m')" and inv: "log_inv m" and k: "knows_head m h"
  shows "knows_head m' h"
proof -
  note l = present_steps(1) [OF p]
  obtain es where "merkle m' = merkle m @ es" using log_step_grows [OF l] by blast
  moreover obtain n where "n \<le> length (merkle m)" "h = root (take n (merkle m))" using k knows_head_iff [OF inv] by blast
  ultimately have "\<exists>n \<le> length (merkle m'). h = root (take n (merkle m'))" by (intro exI [of _ n]) simp
  then show ?thesis using knows_head_iff [OF log_inv_step [OF l inv]] by blast
qed

lemma wh_witness_ok:
  assumes o: "owns (hw_cfg W 0) tik a None [] m" and h: "h = head_for_attestation m" and sig: "sig_correct (hw_crypto W)"
    and p: "presents_as W T ip tik V 1 (Some h) a"
  shows "\<exists>m'. wh_witness W T ip tik h m = Some (Inr (visit_item V 0, True, True), m') \<and> knows_head m' h"
proof -
  from p obtain c c1 where c: "client_enter T (client_new ip 8443 None None) = Inr c"
    "client_request T c (hw_steps_request (int 1) (Some h)) = Some (Inr (visit_reply V 1 (Some h)), c1)" by (rule step_block)
  have kh: "knows_head m h" using owns_knows_root [OF o] by (simp add: h head_for_attestation_def log_head_def)
  then have "head_check m (hex tik) (Some h) None = Inr None" by (simp add: head_check_def)
  from visit_accepted [OF o p this, of "hw_ins W 1"] obtain m' where m': "present (hw_ins W 1) m tik (vs_sctx V) (vs_exporter V)
      (visit_msg V (Some h)) (Some h) None = (Inr (True, ''accepted; continuity intact''), m')" by blast
  have "log_inv m" "cf_crypto (cfg m) = hw_crypto W" using o by (auto simp: owns_def)
  then have "last_receipt_of m' = Inr (True, ''receipt verifies'')" "knows_head m' h"
    using present_receipt [OF m'] step_knows_head [OF m' _ kh] sig by simp_all
  then show ?thesis
    using c m' visit_keys [OF p] by (simp add: wh_witness_def in_client_at_def client_ask_def)
qed

lemma knows_rewritten: "knows_head (rewritten t tik m) h \<longleftrightarrow> h = root (merkle (rewritten t tik m))"
  by (auto simp: knows_head_def rewritten_def Let_def log_head_def)

text \<open>
  The head the guest is given is that of the enrolment alone. The run ends with exit code 0, unless the value the script
  draws for a wrong head is that head, or SHA-512 collides on the two report preimages or SHA-256 on the two histories.
\<close>

definition enrol_head :: "hw_world \<Rightarrow> nat \<Rightarrow> bytes \<Rightarrow> anchor \<Rightarrow> bytes" where
  "enrol_head W j tik a = leaf_hash (enrol_entry tik a (hw_ins W j))"

definition witness_verdict :: json where
  "witness_verdict = JObj [(''witnessed_accepted'', JBool True), (''receipt_ok'', JBool True),
     (''auditor_confirms_head'', JBool True), (''rewrite_detectable'', JBool True)]"

lemma witness_main_exits_0:
  assumes sig: "sig_correct (hw_crypto W)" and t: "t_check (hw_ins W 0) < hw_now W 0 + 300"
    and A: "enrols_as W 0 (T 0) ip P a" "presents_as W (T 1) ip (pb_tik_pub P) V 1 (Some (enrol_head W 0 (pb_tik_pub P) a)) a"
  shows "(\<exists>m. witness_main W ip T = Some (Inr (0, Some witness_verdict), m))
    \<or> hw_random W = enrol_head W 0 (pb_tik_pub P) a
    \<or> collision sha512 (report_preimage (visit_link V) (Some (enrol_head W 0 (pb_tik_pub P) a))) (report_preimage (visit_link V) (Some (hw_random W)))
    \<or> history_collision (pb_tik_pub P) (enrol_entry (pb_tik_pub P) a (hw_ins W 0)) (hw_rewrite_at W)"
proof -
  let ?tik = "pb_tik_pub P" and ?h = "enrol_head W 0 (pb_tik_pub P) a" and ?e = "enrol_entry (pb_tik_pub P) a (hw_ins W 0)"
  obtain m1 where m1: "wh_enrol W (T 0) ip (hw_mandate W 0) = Some (Inr (?tik, True), m1)" "owns (hw_cfg W 0) ?tik a None [] m1"
    "merkle m1 = [?e]" using wh_enrol_ok [OF A(1) t] by blast
  have h: "?h = head_for_attestation m1" using m1(3) by (simp add: enrol_head_def head_for_attestation_def log_head_def root_one)
  obtain m2 where m2: "wh_witness W (T 1) ip ?tik ?h m1 = Some (Inr (visit_item V 0, True, True), m2)" "knows_head m2 ?h"
    using wh_witness_ok [OF m1(2) h sig A(2)] by blast
  note au = audited_visit [OF A(2)]
  show ?thesis
  proof (cases "report_data_for (visit_link V) (Some ?h) = report_data_for (visit_link V) (Some (hw_random W))")
    case True
    then show ?thesis using report_data_for_eqD [OF refl True] by auto
  next
    case False
    show ?thesis
    proof (cases "history_collision ?tik ?e (hw_rewrite_at W)")
      case False
      then have "\<not> knows_head (rewritten (hw_rewrite_at W) ?tik m2) ?h"
        using rewritten_forgets [OF False] by (metis knows_rewritten enrol_head_def)
      with \<open>report_data_for _ _ \<noteq> _\<close> have "\<exists>m. witness_main W ip T = Some (Inr (0, Some witness_verdict), m)"
        using m1(1) m2 by (simp add: witness_main_def au Let_def witness_verdict_def h [symmetric])
      then show ?thesis ..
    qed simp
  qed
qed

section \<open>Two mandates\<close>

definition fed_key :: "hw_world \<Rightarrow> nat \<Rightarrow> bytes" where
  "fed_key W k = public_key_of (hw_crypto W) (hw_sth_key W k)"

lemma fed_key_eq: "cfg m = hw_cfg W k \<Longrightarrow> mandate_public_key m = fed_key W k"
  by (simp add: mandate_public_key_def fed_key_def) (simp add: hw_cfg_def)

definition fed_entry :: "hw_world \<Rightarrow> nat \<Rightarrow> bytes \<Rightarrow> anchor \<Rightarrow> bundle_entry" where
  "fed_entry W k tik a = BundleEntry (mandate_id (fed_key W k)) 1 (hex (enrol_head W k tik a))"

definition fed_bundle :: "hw_world \<Rightarrow> bytes \<Rightarrow> anchor \<Rightarrow> bundle_entry list" where
  "fed_bundle W tik a = sort [fed_entry W 0 tik a, fed_entry W 1 tik a]"

lemma fed_bundle_made:
  assumes sig: "sig_correct (hw_crypto W)" and A: "cfg m = hw_cfg W 0" "merkle m = [enrol_entry tik a (hw_ins W 0)]"
    and B: "cfg m' = hw_cfg W 1" "merkle m' = [enrol_entry tik a (hw_ins W 1)]"
  shows "make_bundle (hw_crypto W) [(mandate_public_key m, mandate_sth i m), (mandate_public_key m', mandate_sth i' m')]
    = Inr (bundle_commitment (fed_bundle W tik a), fed_bundle W tik a)"
  using verify_mandate_sth [of m i] verify_mandate_sth [of m' i'] sig A B fed_key_eq [OF A(1)] fed_key_eq [OF B(1)]
  by (simp add: make_bundle_def bundle_entries_def fed_bundle_def fed_entry_def enrol_head_def root_one Let_def)

lemma fed_entry_for:
  assumes "mandate_id (fed_key W 0) \<noteq> mandate_id (fed_key W 1)"
  shows "entry_for (fed_bundle W tik a) (fed_key W 0) = Some (fed_entry W 0 tik a)"
    "entry_for (fed_bundle W tik a) (fed_key W 1) = Some (fed_entry W 1 tik a)"
  using assms by (auto simp: entry_for_def fed_bundle_def fed_entry_def Let_def)

lemma fed_head_check:
  assumes o: "owns (hw_cfg W k) tik a ta ws m" and m: "merkle m = [enrol_entry tik a (hw_ins W k)]"
    and e: "entry_for es (fed_key W k) = Some (fed_entry W k tik a)"
  shows "head_check m tk (Some (bundle_commitment es)) (Some es) = Inr None"
proof -
  have "cfg m = hw_cfg W k" using o by (simp add: owns_def)
  moreover have "knows_head m (enrol_head W k tik a)" using owns_knows_root [OF o] m by (simp add: root_one enrol_head_def)
  ultimately show ?thesis using e by (simp add: head_check_def verify_bundle_def fed_key_eq) (simp add: fed_entry_def)
qed

lemma fh_enrol_ok:
  assumes e: "enrols_as W j T ip P a" and t: "t_check (hw_ins W j) < hw_now W j + 300"
  shows "\<exists>c csr rep f m. client_enter T (client_new ip 8443 None None) = Inr c \<and> (\<forall>c. peer_identity_key T c = Inr (pb_tik_pub P))
    \<and> fh_enrol W j T c (pb_tik_pub P) (hw_mandate W k) = Some (Inr (True, enroll_reply P csr rep), m)
    \<and> parse_snp rep = Inr f \<and> snp_anchor f = Some a
    \<and> owns (hw_cfg W k) (pb_tik_pub P) a None [] m \<and> merkle m = [enrol_entry (pb_tik_pub P) a (hw_ins W j)]"
proof -
  from e t obtain c c1 csr rep f ex sc m where c: "client_enter T (client_new ip 8443 None None) = Inr c" "same_session T P ex sc"
    "client_request T c (hw_enrol_request (hw_nonce W j)) = Some (Inr (enroll_reply P csr rep), c1)"
    "load_csr (hw_crypto W) csr = Inr (True, pb_tik_pub P)" "parse_snp rep = Inr f" "snp_anchor f = Some a"
    "enrol_call (hw_ins W j) (enroll_reply P csr rep) (hw_nonce W j) csr (pb_tik_pub P) None
       (snd (challenge (hw_now W j) (hw_nonce W j) (hw_mandate W k))) = Some (Inr (True, ''enrolled''), m)"
    "owns (hw_cfg W k) (pb_tik_pub P) a None [] m" "merkle m = [enrol_entry (pb_tik_pub P) a (hw_ins W j)]" by (rule enrol_call_ok)
  have "fh_enrol W j T c (pb_tik_pub P) (hw_mandate W k) = Some (Inr (True, enroll_reply P csr rep), m)"
    using c(3,4,7) by (simp add: fh_enrol_def challenge_def Let_def client_ask_def csr_public_key_Inr [THEN iffD2])
  moreover have "\<forall>c. peer_identity_key T c = Inr (pb_tik_pub P)" using c(2) by (simp add: same_session_def)
  ultimately show ?thesis using c by blast
qed

lemma fh_witness_ok:
  assumes A: "owns (hw_cfg W 0) tik a None [] m" "head_check m (hex tik) (Some cm) (Some es) = Inr None"
    and B: "owns (hw_cfg W 1) tik a None [] m'" "head_check m' (hex tik) (Some cm) (Some es) = Inr None"
    and p: "presents_as W T ip tik V 1 (Some cm) a"
  shows "\<exists>m1 m2. fh_witness W T ip tik cm es (m, m') = Some (Inr (visit_item V 0, True, True), m1, m2) \<and> cfg m1 = hw_cfg W 0"
proof -
  from p obtain c c1 where c: "client_enter T (client_new ip 8443 None None) = Inr c"
    "client_request T c (hw_steps_request (int 1) (Some cm)) = Some (Inr (visit_reply V 1 (Some cm)), c1)" by (rule step_block)
  obtain m1 where m1: "present (hw_ins W 2) m tik (vs_sctx V) (vs_exporter V) (visit_msg V (Some cm)) (Some cm) (Some es)
      = (Inr (True, ''accepted; continuity intact''), m1)" using visit_accepted [OF A(1) p A(2)] by blast
  obtain m2 where m2: "present (hw_ins W 3) m' tik (vs_sctx V) (vs_exporter V) (visit_msg V (Some cm)) (Some cm) (Some es)
      = (Inr (True, ''accepted; continuity intact''), m2)" using visit_accepted [OF B(1) p B(2)] by blast
  have "cfg m1 = hw_cfg W 0" using present_steps(2) [OF m1] A(1) by (simp add: ledger_step_def owns_def)
  moreover have "fh_witness W T ip tik cm es (m, m') = Some (Inr (visit_item V 0, True, True), m1, m2)"
    using c m1 m2 visit_keys [OF p] by (simp add: fh_witness_def in_client_at_def client_ask_def on_first_def on_second_def)
  ultimately show ?thesis by blast
qed

lemma fh_divergence_ok:
  assumes sig: "sig_correct (hw_crypto W)" and c: "cfg m = hw_cfg W 0" and e: "entry_for es (fed_key W 0) = Some (fed_entry W 0 tik a)"
    and h: "\<not> history_collision tik (enrol_entry tik a (hw_ins W 0)) t"
  shows "fh_divergence W (rewritten t tik m) es = Inr (True, ''same size, different root: the peer signed two histories'')"
proof -
  let ?m = "rewritten t tik m"
  have m: "cfg ?m = hw_cfg W 0" "length (merkle ?m) = 1" using c by (simp_all add: rewritten_def Let_def)
  have "root (merkle ?m) \<noteq> enrol_head W 0 tik a"
    using rewritten_forgets [OF h] by (simp add: enrol_head_def)
  moreover have "verify_sth (hw_crypto W) (fed_key W 0) (mandate_sth (hw_ins W 4) ?m) = Inr True"
    using verify_mandate_sth [of ?m "hw_ins W 4"] m(1) sig fed_key_eq [OF m(1)] by simp
  ultimately show ?thesis
    using e fed_key_eq [OF m(1)] m(2) by (simp add: fh_divergence_def divergence_def) (auto simp: fed_entry_def)
qed

definition federation_verdict :: json where
  "federation_verdict = JObj [(''enrolled_both'', JBool True), (''both_accepted'', JBool True),
     (''auditor_confirms_bundle'', JBool True), (''divergence_detected'', JBool True)]"

lemma federation_main_exits_0:
  assumes sig: "sig_correct (hw_crypto W)" and t: "t_check (hw_ins W 0) < hw_now W 0 + 300" "t_check (hw_ins W 1) < hw_now W 1 + 300"
    and A: "enrols_as W 0 (T 0) ip P a" and B: "enrols_as W 1 (T 1) ip Q a" "pb_tik_pub Q = pb_tik_pub P"
    and p: "presents_as W (T 2) ip (pb_tik_pub P) V 1 (Some (bundle_commitment (fed_bundle W (pb_tik_pub P) a))) a"
    and ids: "mandate_id (fed_key W 0) \<noteq> mandate_id (fed_key W 1)"
  shows "(\<exists>ms. federation_main W ip T = Some (Inr (0, Some federation_verdict), ms))
    \<or> history_collision (pb_tik_pub P) (enrol_entry (pb_tik_pub P) a (hw_ins W 0)) (hw_rewrite_at W)"
proof (cases "history_collision (pb_tik_pub P) (enrol_entry (pb_tik_pub P) a (hw_ins W 0)) (hw_rewrite_at W)")
  case False
  let ?tik = "pb_tik_pub P" and ?es = "fed_bundle W (pb_tik_pub P) a"
  obtain c csr rep f m where m: "client_enter (T 0) (client_new ip 8443 None None) = Inr c" "\<forall>c. peer_identity_key (T 0) c = Inr ?tik"
    "fh_enrol W 0 (T 0) c ?tik (hw_mandate W 0) = Some (Inr (True, enroll_reply P csr rep), m)" "parse_snp rep = Inr f" "snp_anchor f = Some a"
    "owns (hw_cfg W 0) ?tik a None [] m" "merkle m = [enrol_entry ?tik a (hw_ins W 0)]"
    using fh_enrol_ok [OF A t(1), of 0] by blast
  obtain c' csr' rep' m' where m': "client_enter (T 1) (client_new ip 8443 None None) = Inr c'"
    "fh_enrol W 1 (T 1) c' ?tik (hw_mandate W 1) = Some (Inr (True, enroll_reply Q csr' rep'), m')"
    "owns (hw_cfg W 1) ?tik a None [] m'" "merkle m' = [enrol_entry ?tik a (hw_ins W 1)]"
    using fh_enrol_ok [OF B(1) t(2), of 1] unfolding B(2) by blast
  have c: "cfg m = hw_cfg W 0" "cfg m' = hw_cfg W 1" using m(6) m'(3) by (simp_all add: owns_def)
  note e = fed_entry_for [OF ids, of ?tik a]
  obtain m1 m2 where w: "fh_witness W (T 2) ip ?tik (bundle_commitment ?es) ?es (m, m') = Some (Inr (visit_item V 0, True, True), m1, m2)"
    "cfg m1 = hw_cfg W 0"
    using fh_witness_ok [OF m(6) fed_head_check [OF m(6,7) e(1)] m'(3) fed_head_check [OF m'(3,4) e(2)] p] by blast
  have "federation_main W ip T = Some (Inr (0, Some federation_verdict), rewritten (hw_rewrite_at W) ?tik m1, m2)"
    using m(1-3) m'(1,2) w(1)
    by (simp add: federation_main_def in_client_at_def on_first_def on_second_def report_anchor_ok [OF m(4,5)]
        fed_bundle_made [OF sig c(1) m(7) c(2) m'(4)] audited_visit [OF p] Let_def
        fh_divergence_ok [OF sig w(2) e(1) False] federation_verdict_def)
  then show ?thesis by blast
qed simp

section \<open>Freshness\<close>

text \<open>The resent Evidence of the static half is appraised by the very call that accepted it; the exit code says nothing of the chained half.\<close>

lemma rf_static_accepts:
  assumes "rf_static W ds = Inr (Some x)"
  shows x
proof -
  obtain rounds where r: "subscript (ds_blob ds) ''rounds'' = Inr rounds"
    using assms by (cases "subscript (ds_blob ds) ''rounds''") (simp_all add: rf_static_def)
  show x
  proof (cases "\<exists>a b. rounds = JList [a, b]")
    case True
    with r assms show x by (auto simp: rf_static_def py_bind_Inr_iff split: if_splits)
  next
    case False
    with r assms show x
    proof (cases rounds)
      case (JList xs)
      with False r assms show x by (cases xs; cases "tl xs"; cases "tl (tl xs)") (auto simp: rf_static_def)
    qed (simp_all add: rf_static_def)
  qed
qed

lemma reattest_exit_blind:
  assumes "reattest_main W ip S c sock T = Some (Inr (n, Some v))"
  shows "n = 0"
proof -
  obtain r b where d: "draft_binder_session S c sock 2 = Some (r, b)"
    using assms by (cases "draft_binder_session S c sock 2") (auto simp: reattest_main_def)
  show ?thesis
  proof (cases "py_bind r (rf_static W)")
    case (Inr z)
    with assms d show ?thesis by (cases z) (auto simp: reattest_main_def py_bind_Inr_iff)
  qed (use assms d in \<open>simp add: reattest_main_def\<close>)
qed

text \<open>The static reply of a guest whose binder is ours.\<close>

definition static_reply :: "'d probe \<Rightarrow> bytes \<Rightarrow> bytes \<Rightarrow> bytes \<Rightarrow> dict \<Rightarrow> json" where
  "static_reply P binder r0 r1 extra = JObj ([(''instance'', JStr (pb_instance P)), (''zone'', JStr (pb_zone P)), (''static'', JBool True),
     (''rounds'', JList [JObj [(''round'', JInt 0), (''binder'', JStr (hex binder)), (''report'', JStr (b64encode r0))],
        JObj [(''round'', JInt 1), (''binder'', JStr (hex binder)), (''report'', JStr (b64encode r1))]])] @ extra)"

definition static_guest :: "hw_world \<Rightarrow> 'd probe \<Rightarrow> draft_session \<Rightarrow> bool" where
  "static_guest W P ds \<longleftrightarrow> (\<exists>r0 r1 extra rd a0 a1. ds_blob ds = static_reply P (ds_binder ds) r0 r1 extra
     \<and> map_of extra ''transcript_sha256'' \<noteq> None \<and> binder_report_data (ds_binder ds) = Inr rd
     \<and> snp_report P 0 rd = Inr r0 \<and> snp_report P 1 rd = Inr r1
     \<and> hw_verify W (static_evidence (JStr (b64encode r0))) rd = Inr (True, Some a0)
     \<and> hw_verify W (static_evidence (JStr (b64encode r1))) rd = Inr (True, a1))"

lemma static_reply_sel [simp]:
  "subscript (static_reply P b r0 r1 ex) ''rounds'' = Inr (JList [JObj [(''round'', JInt 0), (''binder'', JStr (hex b)), (''report'', JStr (b64encode r0))],
        JObj [(''round'', JInt 1), (''binder'', JStr (hex b)), (''report'', JStr (b64encode r1))]])"
  "subscript (static_reply P b r0 r1 ex) ''instance'' = Inr (JStr (pb_instance P))"
  "subscript (static_reply P b r0 r1 ex) ''zone'' = Inr (JStr (pb_zone P))"
  "map_of ex ''transcript_sha256'' = Some v \<Longrightarrow> subscript (static_reply P b r0 r1 ex) ''transcript_sha256'' = Inr v"
  by (simp_all add: static_reply_def subscript_def dindex_def)

lemma rf_static_ok:
  assumes "static_guest W P ds"
  shows "rf_static W ds = Inr (Some True)"
proof -
  from assms obtain r0 r1 extra rd a0 a1 v where g: "ds_blob ds = static_reply P (ds_binder ds) r0 r1 extra"
    "map_of extra ''transcript_sha256'' = Some v" "binder_report_data (ds_binder ds) = Inr rd"
    "hw_verify W (static_evidence (JStr (b64encode r0))) rd = Inr (True, Some a0)"
    "hw_verify W (static_evidence (JStr (b64encode r1))) rd = Inr (True, a1)" unfolding static_guest_def by blast
  then show ?thesis
    by (simp add: rf_static_def some_anchor_def) (simp add: subscript_def dindex_def b64decode_encode some_anchor_def)
qed

text \<open>The guest's replies are those of the probe.\<close>

lemma static_reply_served:
  assumes "snp_report P 0 rd = Inr r0" "snp_report P 1 rd = Inr r1" "static_binder P b req sc head = Inr (binder, rd, extra)"
  shows "\<exists>fs. serve_static P n req b 2 head sc = (let blob = dumps_bytes (static_reply P binder r0 r1 extra) in
    send_reply P b blob fs (json_file (conn_file n ''-static.json'') blob))"
  using assms by (simp add: serve_static_def static_reply_def Let_def numeral_2_eq_2 upt_rec) (rule exI, rule refl)

text \<open>A mandate that knows nothing of the identity takes the chain of its first instance.\<close>

lemma fresh_chain_state: "chain_state (hw_mandate W k) tik sc ex a 0"
  using hw_mandate_sel [of W k]
  by (auto simp: chain_state_def wf_blank) (auto simp: blank_def ledger_admits_def Let_def agrees_def opt_fromhex_def)

definition chain_visit :: "hw_world \<Rightarrow> 'c tls_conn \<Rightarrow> string \<Rightarrow> bytes \<Rightarrow> 'd visit \<Rightarrow> anchor \<Rightarrow> bool" where
  "chain_visit W T ip tik V a \<longleftrightarrow> presents_as W T ip tik V 2 None a
     \<and> (let rd = report_data_for (link_at (vs_sctx V) tik (vs_exporter V) 1) None
        in hw_verify W (snp_evidence (vs_report V 1) rd) rd = Inr (True, Some a))"

definition visit_step :: "'d visit \<Rightarrow> nat \<Rightarrow> message" where
  "visit_step V c = \<lparr>msg_counter = int c, msg_intra_ok_base = False,
     msg_post_link = hex (link_at (vs_sctx V) (pb_tik_pub (vs_probe V)) (vs_exporter V) c),
     msg_evidence = snp_evidence (vs_report V c) (report_data_for (link_at (vs_sctx V) (pb_tik_pub (vs_probe V)) (vs_exporter V) c) None),
     msg_head = None\<rparr>"

lemma as_evidence_visit: "as_evidence (visit_item V c) = Inr (visit_step V c)"
  by (simp add: visit_item_def visit_step_def as_evidence_item)

lemma visit_evidence:
  assumes "chain_visit W T ip tik V a" "c < 2" "cfg m = hw_cfg W k"
  shows "verify_report (cfg m) (msg_evidence (visit_step V c)) (report_data_for (link_at (vs_sctx V) tik (vs_exporter V) c) None) = Inr (True, Some a)"
    "msg_counter (visit_step V c) = int c" "msg_post_link (visit_step V c) = hex (link_at (vs_sctx V) tik (vs_exporter V) c)"
    "length (vs_sctx V) < 256"
proof -
  have "c = 0 \<or> c = 1" using assms(2) by auto
  then show "verify_report (cfg m) (msg_evidence (visit_step V c)) (report_data_for (link_at (vs_sctx V) tik (vs_exporter V) c) None) = Inr (True, Some a)"
    using assms(1,3) by (auto simp: chain_visit_def visit_step_def presents_as_def genuine_step_def Let_def)
  show "msg_counter (visit_step V c) = int c" "msg_post_link (visit_step V c) = hex (link_at (vs_sctx V) tik (vs_exporter V) c)"
    "length (vs_sctx V) < 256"
    using assms(1) by (auto simp: chain_visit_def visit_step_def presents_as_def genuine_step_def)
qed

lemma rf_chained_ok:
  assumes v: "chain_visit W T ip tik V a"
  shows "\<exists>w ms. rf_chained W T ip x = Some (Inr \<lparr>rf_stale_static = x, rf_step0 = ''accepted; continuity intact'',
    rf_step1 = ''accepted; continuity intact'', rf_stale_chained = False, rf_reason = w\<rparr>, ms)"
proof -
  let ?sc = "vs_sctx V" and ?ex = "vs_exporter V" and ?acc = "(True, ''accepted; continuity intact'')"
  have p: "presents_as W T ip tik V 2 None a" using v by (simp add: chain_visit_def)
  from p obtain c c1 where c: "client_enter T (client_new ip 8443 None None) = Inr c"
    "client_request T c (hw_steps_request (int 2) None) = Some (Inr (visit_reply V 2 None), c1)" by (rule step_block)
  have s: "exporter T d = Inr ?ex" "session_context T d = Inr ?sc" "peer_identity_key T d = Inr tik" for d
    using p by (simp_all add: presents_as_def same_session_def)
  have ch: "rf_chain T ip m = Some (Inr (?ex, ?sc, tik, JList (map (visit_item V) [0..<2])), m)" for m
    using c by (simp add: rf_chain_def in_client_at_def s client_ask_def del: upt_Suc)
  have nth: "nth_of (JList (map (visit_item V) [0..<2])) n = Inr (visit_item V n)" if "n < 2" for n
    using that by (simp add: nth_of_def del: upt_Suc)
  have pr: "rf_present i (?ex, ?sc, tik) (nth_of (JList (map (visit_item V) [0..<2])) n) m = Some (present i m tik ?sc ?ex (visit_step V n) None None)"
    if "n < 2" for i n m by (simp add: rf_present_def nth [OF that] as_evidence_visit)
  have step: "\<exists>m'. present i m tik ?sc ?ex (visit_step V n) None None = (Inr ?acc, m') \<and> chain_state m' tik ?sc ?ex a (Suc n) \<and> cfg m' = hw_cfg W k"
    if n: "n < 2" "chain_state m tik ?sc ?ex a n" "cfg m = hw_cfg W k" for i m n k
    using chain_present [OF n(2) visit_evidence(4) [OF v n(1,3)] _ disjI1 [OF refl] visit_evidence(1-3) [OF v n(1,3)], of i] n(1,3) by auto
  obtain m1 where m1: "present (hw_ins W 0) (hw_mandate W 0) tik ?sc ?ex (visit_step V 0) None None = (Inr ?acc, m1)"
    "chain_state m1 tik ?sc ?ex a 1" "cfg m1 = hw_cfg W 0"
    using step [OF _ fresh_chain_state hw_mandate_sel(1), where i = "hw_ins W 0"] by auto
  obtain m2 where m2: "present (hw_ins W 1) m1 tik ?sc ?ex (visit_step V 1) None None = (Inr ?acc, m2)"
    using step [OF _ m1(2,3), of "hw_ins W 1"] by auto
  obtain n1 where n1: "present (hw_ins W 2) (hw_mandate W 1) tik ?sc ?ex (visit_step V 0) None None = (Inr ?acc, n1)"
    "chain_state n1 tik ?sc ?ex a 1" "cfg n1 = hw_cfg W 1"
    using step [OF _ fresh_chain_state hw_mandate_sel(1), where i = "hw_ins W 2"] by auto
  have ok1: "sessions_ok n1" using mstep_sessions_ok [OF mstep.present [OF n1(1)]] hw_mandate_sel(3) [of W 1] by (simp add: sessions_ok_def)
  obtain r where r: "mandate_rec n1 (hex tik) = Inr r" "ledger_admits (cfg n1) r (Some a)" using n1(2) by (auto simp: chain_state_def)
  then obtain u y z where xyz: "opt_fromhex (enrolled_instance r) = Inr u" "opt_fromhex (enrolled_place r) = Inr y" "opt_fromhex (observed_instance r) = Inr z"
    by (auto simp: ledger_admits_def Let_def)
  have sees: "sees n1 tik (visit_step V 0) None None a"
    using visit_evidence [OF v _ n1(3), of 0] by (simp add: sees_def head_check_def)
  have len: "length ?sc < 256" using p by (simp add: presents_as_def genuine_step_def)
  have "0 \<le> msg_counter (visit_step V 0)" "msg_counter (visit_step V 0) < 2 ^ 64" by (simp_all add: visit_step_def)
  from present_returns [OF r(1) xyz sees ok1 len this, where i = "hw_ins W 3" and ex = ?ex]
  obtain acc w n2 where n2: "present (hw_ins W 3) n1 tik ?sc ?ex (visit_step V 0) None None = (Inr (acc, w), n2)" by auto
  have "\<not> acc" using step_replayed [OF n1(1) refl] n2 by (metis (full_types))
  then have "rf_chained W T ip x = Some (Inr \<lparr>rf_stale_static = x, rf_step0 = ''accepted; continuity intact'',
      rf_step1 = ''accepted; continuity intact'', rf_stale_chained = False, rf_reason = w\<rparr>, m2, n2)"
    by (simp add: rf_chained_def on_first_def on_second_def ch pr m1(1) m2 n1(1) n2 del: One_nat_def)
  then show ?thesis by blast
qed

lemma reattest_shows_both:
  assumes "draft_binder_session S c sock 2 = Some (Inr ds, b)" "static_guest W P ds" "chain_visit W T ip tik V a"
  shows "\<exists>w. reattest_main W ip S c sock T = Some (Inr (0, Some \<lparr>rf_stale_static = True, rf_step0 = ''accepted; continuity intact'',
    rf_step1 = ''accepted; continuity intact'', rf_stale_chained = False, rf_reason = w\<rparr>))"
  using rf_chained_ok [OF assms(3), of True] assms(1) rf_static_ok [OF assms(2)] by (auto simp: reattest_main_def)

end
