(* ===== verification/Live_Proofs.thy ===== *)
theory Live_Proofs
  imports Live_Runs Hw_Proofs Relay_Proofs
begin

text \<open>
  The runs of \<open>Live_Runs\<close> against honest guests: a mandate without enrolment keeps serving the instance it saw first
  and refuses the second; a relay with the stolen key is refused unless two link derivations collide.
\<close>

section \<open>A visit of several steps\<close>

definition genuine_visit :: "hw_world \<Rightarrow> bytes \<Rightarrow> 'd visit \<Rightarrow> nat \<Rightarrow> anchor \<Rightarrow> bool" where
  "genuine_visit W tik V n a \<longleftrightarrow> pb_tik_pub (vs_probe V) = tik \<and> length (vs_sctx V) < 256 \<and> 0 < n \<and> n \<le> 2 ^ 64
     \<and> anchor_instance a \<noteq> [] \<and> device_trusted (hw_cfg W 0) (vs_probe V) (vs_sctx V) (vs_exporter V) (vs_report V) a n"

text \<open>The client's end of a connection exports these values and shows this key; the reply to its request is the visit's.\<close>

definition meets :: "'c tls_conn \<Rightarrow> string \<Rightarrow> int \<Rightarrow> bytes \<Rightarrow> bytes \<Rightarrow> bytes \<Rightarrow> 'd visit \<Rightarrow> nat \<Rightarrow> bool" where
  "meets T ip port tik sc ex V n \<longleftrightarrow> (\<forall>c. peer_identity_key T c = Inr tik \<and> session_context T c = Inr sc \<and> exporter T c = Inr ex)
     \<and> answered_at T ip port (hw_steps_request (int n) None) (visit_reply V n None)"

definition visits :: "hw_world \<Rightarrow> 'c tls_conn \<Rightarrow> string \<Rightarrow> bytes \<Rightarrow> 'd visit \<Rightarrow> nat \<Rightarrow> anchor \<Rightarrow> bool" where
  "visits W T ip tik V n a \<longleftrightarrow> genuine_visit W tik V n a \<and> meets T ip 8443 tik (vs_sctx V) (vs_exporter V) V n"

lemma meets_request:
  assumes "meets T ip port tik sc ex V n"
  obtains c c1 where "client_enter T (client_new ip port None None) = Inr c"
    "client_request T c (hw_steps_request (int n) None) = Some (Inr (visit_reply V n None), c1)"
  using assms answered_request unfolding meets_def by metis

lemma meets_keys:
  assumes "meets T ip port tik sc ex V n"
  shows "peer_identity_key T c = Inr tik" "session_context T c = Inr sc" "exporter T c = Inr ex"
  using assms by (auto simp: meets_def)

lemma genuine_sees:
  "genuine_visit W tik V n a \<Longrightarrow> cfg m = hw_cfg W 0 \<Longrightarrow> sees m tik (visit_msg V None) None None a"
  by (auto simp: genuine_visit_def device_trusted_def sees_def visit_msg_def first_message_def head_check_def Let_def)

lemma feed_steps_visit:
  assumes "meets T ip port tik sc ex V n" "0 < n"
  shows "feed_steps W j T c (visit_reply V n None) m = map_option (\<lambda>(r, m'). (py_bind r (\<lambda>rs. Inr (zip (map (visit_item V) [0..<n]) rs)), m'))
    (Some (run_steps (\<lambda>t. hw_ins W (3 * t + j)) tik sc ex (map (visit_item V) [0..<n]) 0 m))"
  using assms(2) meets_keys [OF assms(1)]
  by (cases "run_steps (\<lambda>t. hw_ins W (3 * t + j)) tik sc ex (map (visit_item V) [0..<n]) 0 m";
      cases "fst (run_steps (\<lambda>t. hw_ins W (3 * t + j)) tik sc ex (map (visit_item V) [0..<n]) 0 m)")
    (auto simp: feed_steps_def py_iter_def simp del: upt_Suc)

text \<open>The verdicts of a visit that is accepted throughout, and of one refused at once.\<close>

definition accepted_rows :: "'d visit \<Rightarrow> nat \<Rightarrow> (json \<times> bool \<times> string) list" where
  "accepted_rows V n = map (\<lambda>c. (visit_item V c, True, ''accepted; continuity intact'')) [0..<n]"

lemma last_accepted: "0 < n \<Longrightarrow> last_verdict (accepted_rows V n) = Some True"
  by (simp add: last_verdict_def accepted_rows_def last_map del: upt_Suc)

lemma feed_accepts:
  assumes v: "genuine_visit W tik V n a" and c: "meets T ip port tik (vs_sctx V) (vs_exporter V) V n"
    and st: "chain_state m tik (vs_sctx V) (vs_exporter V) a 0" "cfg m = hw_cfg W 0"
  shows "\<exists>m'. feed_steps W j T x (visit_reply V n None) m = Some (Inr (accepted_rows V n), m')
    \<and> run_steps (\<lambda>t. hw_ins W (3 * t + j)) tik (vs_sctx V) (vs_exporter V) (map (visit_item V) [0..<n]) 0 m
      = (Inr (replicate n (True, ''accepted; continuity intact'')), m')
    \<and> chain_state m' tik (vs_sctx V) (vs_exporter V) a n \<and> cfg m' = cfg m \<and> (sessions_ok m \<longrightarrow> sessions_ok m')"
proof -
  have v': "length (vs_sctx V) < 256" "device_trusted (cfg m) (vs_probe V) (vs_sctx V) (vs_exporter V) (vs_report V) a n" "n \<le> 2 ^ 64"
    "chain_state m (pb_tik_pub (vs_probe V)) (vs_sctx V) (vs_exporter V) a 0" "pb_tik_pub (vs_probe V) = tik" "0 < n"
    using v st by (auto simp: genuine_visit_def)
  obtain m' where m': "run_steps (\<lambda>t. hw_ins W (3 * t + j)) tik (vs_sctx V) (vs_exporter V) (map (visit_item V) [0..<n]) 0 m
      = (Inr (replicate n (True, ''accepted; continuity intact'')), m')"
    "chain_state m' tik (vs_sctx V) (vs_exporter V) a n" "cfg m' = cfg m" "sessions_ok m \<longrightarrow> sessions_ok m'"
    using run_steps_accepts [OF v'(1,2,4) refl v'(3) le0, of "\<lambda>t. hw_ins W (3 * t + j)" 0] v'(5) by (auto simp: visit_item_def [abs_def])
  moreover have "zip (map f [0..<n]) (replicate n x) = map (\<lambda>c. (f c, x)) [0..<n]" for f :: "nat \<Rightarrow> json" and x :: "bool \<times> string"
    by (rule nth_equalityI) auto
  ultimately show ?thesis unfolding feed_steps_visit [OF c v'(6)] by (simp add: accepted_rows_def del: upt_Suc)
qed

lemma feed_first:
  assumes c: "meets T ip port tik sc ex V n" "0 < n"
    and p: "present (hw_ins W j) m tik sc ex (visit_msg V None) None None = (Inr (False, why), m')"
  shows "feed_steps W j T x (visit_reply V n None) m = Some (Inr [(visit_item V 0, False, why)], m')"
proof -
  have n: "[0..<n] = 0 # [Suc 0..<n]" using c(2) by (simp add: upt_rec)
  have "as_evidence (visit_item V 0) = Inr (visit_msg V None)"
    by (simp add: visit_item_def as_evidence_item visit_msg_def first_message_def)
  then show ?thesis unfolding feed_steps_visit [OF c] n using p by simp
qed

section \<open>An identity that is watched, not enrolled\<close>

text \<open>The contention of a store that holds one identity can be listed.\<close>

definition readable :: "mandate \<Rightarrow> bytes \<Rightarrow> bool" where
  "readable m tik \<longleftrightarrow> set (store_keys (mstore m)) \<subseteq> {hex tik} \<and> (\<exists>d. raw_rec m (hex tik) = Inr d)"

lemma readable_new: "readable (hw_mandate W k) tik"
  by (simp add: readable_def hw_mandate_def mandate_new_def raw_rec_def memory_get_def memory_keys_def)

lemma readable_contention: "readable m tik \<Longrightarrow> \<exists>ct. mandate_contention m = Inr ct"
proof -
  assume r: "readable m tik"
  have "\<exists>ct. contention_of m ks = Inr ct" if "set ks \<subseteq> {hex tik}" for ks
    using that r by (induction ks) (auto simp: readable_def Let_def)
  with r show ?thesis by (simp add: mandate_contention_def readable_def)
qed

lemma raw_rec_cong: "mstore m = mstore m' \<Longrightarrow> raw_rec m = raw_rec m'"
  by (simp add: raw_rec_def [abs_def])

lemma readable_present:
  assumes r: "readable m tik" "mandate_rec m (hex tik) = Inr r" "wf_rec r" and p: "present i m tik sc ex msg head bd = (res, m')"
  shows "readable m' tik"
proof -
  from present_steps(2) [OF p] consider "mstore m' = mstore m"
    | r' where "soft r r'" "store_put (mstore m) (hex tik) (json_of_rec r') = Inr (mstore m')"
    using r(2) by (auto simp: ledger_step_def)
  then show ?thesis
  proof cases
    case 1
    with r(1) raw_rec_cong [OF 1] show ?thesis by (simp add: readable_def)
  next
    case 2
    have "wf_rec r'" using soft_sel(8) [OF 2(1)] r(3) by simp
    then have "store_get (mstore m') (hex tik) = Inr (Some (store_norm (mstore m) (json_of_rec r')))"
      using st.get_put [OF 2(2)] is_record_rec by blast
    moreover have "\<exists>d. store_norm (mstore m) (json_of_rec r') = JObj d"
      by (cases "mstore m") (simp_all add: json_of_rec_def)
    ultimately show ?thesis using st.keys_put [OF 2(2)] r(1) by (auto simp: readable_def raw_rec_def)
  qed
qed

definition watch :: "config \<Rightarrow> bytes \<Rightarrow> bytes option \<Rightarrow> mandate \<Rightarrow> bool" where
  "watch cf tik ob m \<longleftrightarrow> (\<exists>r. mandate_rec m (hex tik) = Inr r \<and> wf_rec r \<and> \<not> revoked r \<and> enrolled_instance r = None
     \<and> enrolled_place r = None \<and> observed_instance r = map_option hex ob) \<and> cfg m = cf \<and> log_inv m \<and> readable m tik"

lemma watchE:
  assumes "watch cf tik ob m"
  obtains r where "mandate_rec m (hex tik) = Inr r" "wf_rec r" "\<not> revoked r" "enrolled_instance r = None"
    "enrolled_place r = None" "observed_instance r = map_option hex ob" "cfg m = cf" "log_inv m" "readable m tik"
  using assms unfolding watch_def by blast

lemma watch_new: "watch (hw_cfg W k) tik None (hw_mandate W k)"
  using hw_mandate_sel [of W k] readable_new by (auto simp: watch_def wf_blank)

lemma watch_admits:
  assumes w: "watch (hw_cfg W k) tik ob m" and a: "ob = None \<or> ob = Some (anchor_instance a)" "anchor_instance a \<noteq> []"
    and s: "sessions m (hex tik, session_key sc) = None"
  shows "chain_state m tik sc ex a 0"
proof -
  from w obtain r where r: "mandate_rec m (hex tik) = Inr r" "wf_rec r" "\<not> revoked r" "enrolled_instance r = None"
    "enrolled_place r = None" "observed_instance r = map_option hex ob" "cfg m = hw_cfg W k" "log_inv m" by (rule watchE)
  have "ledger_admits (cfg m) r (Some a)"
    using r a by (auto simp: ledger_admits_def Let_def agrees_def opt_fromhex_hex) (auto simp: opt_fromhex_def)
  with r s show ?thesis by (auto simp: chain_state_def)
qed

lemma watch_accept:
  assumes w: "watch cf tik ob m" and p: "present i m tik sc ex msg head bd = (Inr (True, why), m')"
    and e: "fromhex (msg_post_link msg) = Inr pl" "verify_report cf (msg_evidence msg) (report_data_for pl head) = Inr (True, Some a)"
  shows "watch cf tik (Some (anchor_instance a)) m'" "s \<noteq> session_key sc \<Longrightarrow> sessions m' (hex tik, s) = sessions m (hex tik, s)"
proof -
  from w obtain r where r: "mandate_rec m (hex tik) = Inr r" "wf_rec r" "\<not> revoked r" "enrolled_instance r = None"
    "enrolled_place r = None" "cfg m = cf" "log_inv m" "readable m tik" by (rule watchE)
  obtain q pl' an where q: "admits m tik sc ex msg head bd q pl' an" "step_done m tik sc (msg_counter msg) pl' q an m'"
    using p by (rule present_True)
  then have an: "q = r" "an = Some a" using r(1,6) e by (auto simp: admits_def)
  have "mandate_rec m' (hex tik) = Inr (map_nonces (store_norm (mstore m)) (step_rec r (Some a)))"
    using step_done_rec [OF q(2) [unfolded an] r(1,2)] by simp
  moreover have "wf_rec (map_nonces (store_norm (mstore m)) (step_rec r (Some a)))"
    using r(2) by (intro wf_norm) (simp add: step_rec_def wf_rec_def)
  moreover have "cfg m' = cf" using q(2) r(6) by (simp add: step_done_def)
  ultimately show "watch cf tik (Some (anchor_instance a)) m'"
    using r log_inv_step [OF present_steps(1) [OF p] r(7)] readable_present [OF r(8,1,2) p] by (simp add: watch_def step_rec_def)
  show "s \<noteq> session_key sc \<Longrightarrow> sessions m' (hex tik, s) = sessions m (hex tik, s)" using q(2) by (simp add: step_done_def)
qed

text \<open>A second instance is refused, and noted.\<close>

lemma watch_second:
  assumes w: "watch (hw_cfg W k) tik (Some x) m" and x: "x \<noteq> []" "anchor_instance b \<noteq> x" and s: "sees m tik msg head bd b"
  shows "\<exists>m'. present i m tik sc ex msg head bd = (Inr (False,
      ''continuity contention: a second instance claims this identity (no enrolment on record, so the mandate refuses to pick a winner)''), m')
    \<and> watch (hw_cfg W k) tik (Some x) m' \<and> sessions m' = sessions m"
proof -
  from w obtain r where r: "mandate_rec m (hex tik) = Inr r" "wf_rec r" "\<not> revoked r" "enrolled_instance r = None"
    "enrolled_place r = None" "observed_instance r = map_option hex (Some x)" "cfg m = hw_cfg W k" "log_inv m" "readable m tik" by (rule watchE)
  let ?r1 = "dispute_rec (t_dispute i) (witness_rec (cfg m) (t_witness i) r (anchor_instance b) (anchor_place b))
    ''second instance under one identity''"
  let ?ev = "[ES ''contention-anchor'', ES (take 16 (hex tik)), ES (take 12 (hex x)), ES (take 12 (hex (anchor_instance b))), EI (msg_counter msg)]"
  let ?why = "''continuity contention: a second instance claims this identity (no enrolment on record, so the mandate refuses to pick a winner)''"
  obtain o1 m1 where s1: "save_rec m (hex tik) ?r1 = (o1, m1)" by fastforce
  then obtain u where "o1 = Inr u" using save_rec_Inl by (cases o1) auto
  note s1 = s1 [unfolded this]
  have ob: "opt_fromhex (observed_instance r) = Inr (Some x)" using r(6) opt_fromhex_hex [OF x(1)] by simp
  have no: "opt_fromhex None = Inr None" by (simp add: opt_fromhex_def)
  have "appraise i m tik sc ex msg head bd = (Inr (False, ?why, Some (anchor_instance b)), emit_event m1 ?ev)"
    using s x(2) r(1,3,4,5,7) ob no s1
    by (auto simp: sees_def appraise_def Let_def appraise_gate_def refuse_saved_def refuse_def)
  then have p: "present i m tik sc ex msg head bd = (Inr (False, ?why),
      snd (record_decision i (emit_event m1 ?ev) ''present'' tik False ?why (Some (anchor_instance b))))"
    by (simp add: present_eq)
  obtain o2 m2 where rd: "record_decision i (emit_event m1 ?ev) ''present'' tik False ?why (Some (anchor_instance b)) = (o2, m2)"
    by fastforce
  have p: "present i m tik sc ex msg head bd = (Inr (False, ?why), m2)" using p rd by simp
  have wf: "wf_rec ?r1" using r(2) by (simp add: dispute_rec_def witness_rec_def wf_rec_def Let_def)
  have "mandate_rec m2 (hex tik) = Inr (map_nonces (store_norm (mstore m)) ?r1)"
    using record_decision_sel(10) [OF rd] rec_put_same [OF save_rec_Inr(1) [OF s1] wf] by simp
  moreover have "sessions m2 = sessions m" using record_decision_sel(6) [OF rd] save_rec_sel(5) [OF s1] by simp
  moreover have "cfg m2 = cfg m" using present_steps(2) [OF p] by (simp add: ledger_step_def)
  ultimately show ?thesis
    using p r wf_norm [OF wf] log_inv_step [OF present_steps(1) [OF p] r(8)] readable_present [OF r(9,1,2) p]
    by (intro exI [of _ m2]) (simp add: watch_def, simp add: dispute_rec_def witness_rec_def Let_def)
qed

lemma run_steps_watch:
  "device_trusted cf P sc ex rep a n \<Longrightarrow> cs = [c0..<n] \<Longrightarrow> cs \<noteq> [] \<Longrightarrow> watch cf (pb_tik_pub P) ob m \<Longrightarrow>
    run_steps ins (pb_tik_pub P) sc ex (map (\<lambda>c. chain_item P sc ex c (rep c)) cs) t m = (Inr (replicate (length cs) (True, why)), m') \<Longrightarrow>
    watch cf (pb_tik_pub P) (Some (anchor_instance a)) m'
    \<and> (\<forall>s. s \<noteq> session_key sc \<longrightarrow> sessions m' (hex (pb_tik_pub P), s) = sessions m (hex (pb_tik_pub P), s))"
proof (induction cs arbitrary: c0 ob t m)
  case (Cons c cs)
  have c: "c0 = c" "cs = [Suc c..<n]" "c < n" using upt_Cons_eqD [OF Cons.prems(2)] by auto
  obtain msg where msg: "as_evidence (chain_item P sc ex c (rep c)) = Inr msg" "msg_post_link msg = hex (link_at sc (pb_tik_pub P) ex c)"
      "msg_evidence msg = snp_evidence (rep c) (report_data_for (link_at sc (pb_tik_pub P) ex c) None)"
    by (simp add: as_evidence_item)
  obtain m1 where p: "present (ins t) m (pb_tik_pub P) sc ex msg None None = (Inr (True, why), m1)"
    and rest: "run_steps ins (pb_tik_pub P) sc ex (map (\<lambda>c. chain_item P sc ex c (rep c)) cs) (Suc t) m1 = (Inr (replicate (length cs) (True, why)), m')"
    using Cons.prems(5) msg(1) by (auto split: prod.splits sum.splits if_splits)
  have ev: "fromhex (msg_post_link msg) = Inr (link_at sc (pb_tik_pub P) ex c)"
    "verify_report cf (msg_evidence msg) (report_data_for (link_at sc (pb_tik_pub P) ex c) None) = Inr (True, Some a)"
    using Cons.prems(1) c(3) msg by (simp_all add: device_trusted_def Let_def)
  note w = watch_accept [OF Cons.prems(4) p ev]
  show ?case
  proof (cases "cs = []")
    case True
    with rest w show ?thesis by auto
  next
    case False
    with Cons.IH [OF Cons.prems(1) c(2) False w(1) rest] w(2) show ?thesis by auto
  qed
qed simp

section \<open>The run without enrolment\<close>

lemma cm_run_accepted:
  assumes v: "visits W T ip tik V n a" and w: "watch (hw_cfg W 0) tik ob m" "ob = None \<or> ob = Some (anchor_instance a)"
    and s: "sessions m (hex tik, session_key (vs_sctx V)) = None"
  shows "\<exists>m'. cm_run W j T ip label (int n) m = Some (Inr (visit_reply V n None, Some True, map (cm_result label) (accepted_rows V n)), m')
    \<and> watch (hw_cfg W 0) tik (Some (anchor_instance a)) m'
    \<and> (\<forall>s. s \<noteq> session_key (vs_sctx V) \<longrightarrow> sessions m' (hex tik, s) = sessions m (hex tik, s))"
proof -
  have g: "genuine_visit W tik V n a" and k: "meets T ip 8443 tik (vs_sctx V) (vs_exporter V) V n" using v by (simp_all add: visits_def)
  have v': "anchor_instance a \<noteq> []" "0 < n" "pb_tik_pub (vs_probe V) = tik"
    "device_trusted (hw_cfg W 0) (vs_probe V) (vs_sctx V) (vs_exporter V) (vs_report V) a n"
    using g by (simp_all add: genuine_visit_def)
  obtain c c1 where c: "client_enter T (client_new ip 8443 None None) = Inr c"
    "client_request T c (hw_steps_request (int n) None) = Some (Inr (visit_reply V n None), c1)" by (rule meets_request [OF k])
  have cf: "cfg m = hw_cfg W 0" using w(1) by (rule watchE)
  obtain m' where m': "feed_steps W j T c1 (visit_reply V n None) m = Some (Inr (accepted_rows V n), m')"
    "run_steps (\<lambda>t. hw_ins W (3 * t + j)) tik (vs_sctx V) (vs_exporter V) (map (visit_item V) [0..<n]) 0 m
      = (Inr (replicate n (True, ''accepted; continuity intact'')), m')"
    using feed_accepts [OF g k watch_admits [OF w v'(1) s] cf] by blast
  have "cm_run W j T ip label (int n) m = Some (Inr (visit_reply V n None, Some True, map (cm_result label) (accepted_rows V n)), m')"
    using c m'(1) meets_keys [OF k] by (simp add: cm_run_def in_client_at_def client_ask_def last_accepted [OF v'(2)])
  moreover note run_steps_watch [OF v'(4) refl _ w(1) [folded v'(3)], of 0 "\<lambda>t. hw_ins W (3 * t + j)" 0 "''accepted; continuity intact''" m']
  ultimately show ?thesis using m'(2) v'(2,3) by (auto simp: visit_item_def [abs_def])
qed

lemma cm_run_refused:
  assumes v: "visits W T ip tik V n b" and w: "watch (hw_cfg W 0) tik (Some x) m" and x: "x \<noteq> []" "anchor_instance b \<noteq> x"
  shows "\<exists>why m'. cm_run W j T ip label (int n) m
      = Some (Inr (visit_reply V n None, Some False, [cm_result label (visit_item V 0, False, why)]), m')
    \<and> watch (hw_cfg W 0) tik (Some x) m' \<and> sessions m' = sessions m"
proof -
  have g: "genuine_visit W tik V n b" and k: "meets T ip 8443 tik (vs_sctx V) (vs_exporter V) V n" using v by (simp_all add: visits_def)
  have n: "0 < n" using g by (simp add: genuine_visit_def)
  obtain c c1 where c: "client_enter T (client_new ip 8443 None None) = Inr c"
    "client_request T c (hw_steps_request (int n) None) = Some (Inr (visit_reply V n None), c1)" by (rule meets_request [OF k])
  have "cfg m = hw_cfg W 0" using w by (rule watchE)
  from watch_second [OF w x genuine_sees [OF g this], of "hw_ins W j" "vs_sctx V" "vs_exporter V"] obtain why m' where
    m': "present (hw_ins W j) m tik (vs_sctx V) (vs_exporter V) (visit_msg V None) None None = (Inr (False, why), m')"
    "watch (hw_cfg W 0) tik (Some x) m'" "sessions m' = sessions m" by blast
  have "cm_run W j T ip label (int n) m = Some (Inr (visit_reply V n None, Some False, [cm_result label (visit_item V 0, False, why)]), m')"
    using c feed_first [OF k n m'(1)] meets_keys [OF k] by (simp add: cm_run_def in_client_at_def client_ask_def last_verdict_def)
  with m'(2,3) show ?thesis by blast
qed

lemma client_main_exits_0:
  assumes A: "visits W (T 0) ipA tik V 3 a" "visits W (T 2) ipA tik V' 1 a" and B: "visits W (T 1) ipB tik U 3 b"
    and ne: "anchor_instance b \<noteq> anchor_instance a" and s: "session_key (vs_sctx V') \<noteq> session_key (vs_sctx V)"
  shows "\<exists>why ct m. client_main W ipA ipB T = Some (Inr (0, Some (JObj [(''impostor_rejected'', JBool True), (''victim_still_serving'', JBool True),
      (''contention_recorded'', JObj ct), (''results'', JList (map (cm_result ''A'') (accepted_rows V 3)
        @ cm_result ''B'' (visit_item U 0, False, why) # map (cm_result ''A-after'') (accepted_rows V' 1))), (''log'', log_json m)])), m)"
proof -
  have a: "anchor_instance a \<noteq> []" using A(1) by (simp add: visits_def genuine_visit_def)
  have s0: "sessions (hw_mandate W 0) (hex tik, k) = None" for k by (simp add: hw_mandate_sel)
  obtain m1 where m1: "cm_run W 0 (T 0) ipA ''A'' (int 3) (hw_mandate W 0)
      = Some (Inr (visit_reply V 3 None, Some True, map (cm_result ''A'') (accepted_rows V 3)), m1)"
    "watch (hw_cfg W 0) tik (Some (anchor_instance a)) m1" "sessions m1 (hex tik, session_key (vs_sctx V')) = None"
    using cm_run_accepted [OF A(1) watch_new disjI1 [OF refl] s0, of 0 "''A''"] s s0 by auto
  obtain why m2 where m2: "cm_run W 1 (T 1) ipB ''B'' (int 3) m1
      = Some (Inr (visit_reply U 3 None, Some False, [cm_result ''B'' (visit_item U 0, False, why)]), m2)"
    "watch (hw_cfg W 0) tik (Some (anchor_instance a)) m2" "sessions m2 = sessions m1"
    using cm_run_refused [OF B m1(2) a ne] by blast
  have s2: "sessions m2 (hex tik, session_key (vs_sctx V')) = None" using m1(3) m2(3) by simp
  obtain m3 where m3: "cm_run W 2 (T 2) ipA ''A-after'' (int 1) m2
      = Some (Inr (visit_reply V' 1 None, Some True, map (cm_result ''A-after'') (accepted_rows V' 1)), m3)"
    "watch (hw_cfg W 0) tik (Some (anchor_instance a)) m3"
    using cm_run_accepted [OF A(2) m2(2) disjI2 [OF refl] s2] by blast
  obtain ct where "mandate_contention m3 = Inr ct" using m3(2) readable_contention unfolding watch_def by blast
  with m1(1) m2(1) m3(1) have "client_main W ipA ipB T = Some (Inr (0, Some (JObj [(''impostor_rejected'', JBool True),
      (''victim_still_serving'', JBool True), (''contention_recorded'', JObj ct), (''results'', JList (map (cm_result ''A'') (accepted_rows V 3)
        @ cm_result ''B'' (visit_item U 0, False, why) # map (cm_result ''A-after'') (accepted_rows V' 1))), (''log'', log_json m3)])), m3)"
    by (simp add: client_main_def)
  then show ?thesis by blast
qed

section \<open>The run through a relay\<close>

text \<open>
  What a relay passes on is the guest's message over its session with the relay. The client, whose exporter is another,
  refuses it, unless the two derivations of the link collide.
\<close>

lemma foreign_visit_refused:
  assumes v: "genuine_visit W tik V n a" and o: "sessions_ok m" "cfg m = hw_cfg W 0" "chain_state m tik sc' ex' a k"
    and sc: "length sc < 256" and ex: "ex \<noteq> vs_exporter V" "length ex = length (vs_exporter V)" "length ex \<le> 128"
  shows "(\<exists>why m'. present i m tik sc ex (visit_msg V None) None None = (Inr (False, why), m'))
    \<or> link_collision (vs_exporter V, intra_value (vs_sctx V) tik, 0) (ex, intra_value sc tik, 0)"
proof -
  have g: "msg_post_link (visit_msg V None) = hex (post_value (vs_exporter V) (intra_value (vs_sctx V) tik) 0)" "msg_counter (visit_msg V None) = 0"
    using v by (auto simp: genuine_visit_def visit_msg_def first_message_def)
  obtain r where r: "mandate_rec m (hex tik) = Inr r" "ledger_admits (cfg m) r (Some a)" using o(3) by (auto simp: chain_state_def)
  then obtain x y z where xyz: "opt_fromhex (enrolled_instance r) = Inr x" "opt_fromhex (enrolled_place r) = Inr y"
    "opt_fromhex (observed_instance r) = Inr z" by (auto simp: ledger_admits_def Let_def)
  obtain acc why m' where p: "present i m tik sc ex (visit_msg V None) None None = (Inr (acc, why), m')"
    using present_returns [OF r(1) xyz genuine_sees [OF v o(2)] o(1) sc] g(2) by fastforce
  show ?thesis
  proof (cases acc)
    case True
    with p have p: "present i m tik sc ex (visit_msg V None) None None = (Inr (True, why), m')" by simp
    obtain r pl an where "admits m tik sc ex (visit_msg V None) None None r pl an" using p by (rule present_True)
    from admits_counter [OF this] o(1) g(2) have "sessions m (hex tik, session_key sc) = None"
      by (cases "sessions m (hex tik, session_key sc)") (auto simp: sessions_ok_def dest!: spec)
    then have "expected_base m tik sc = intra_value sc tik" by (simp add: expected_base_def)
    with foreign_link [OF p o(1) g(1)] ex g(2) show ?thesis by (auto simp: len_simps)
  qed (use p in simp)
qed

lemma rh_enrol_ok:
  assumes e: "enrols_as W 0 T ip P a" and t: "t_check (hw_ins W 0) < hw_now W 0 + 300"
  shows "\<exists>out m. rh_enrol W T ip (hw_mandate W 0) = Some (Inr (True, out), m) \<and> owns (hw_cfg W 0) (pb_tik_pub P) a None [] m"
proof -
  from e t obtain c c1 csr rep f ex sc m where c: "client_enter T (client_new ip 8443 None None) = Inr c" "same_session T P ex sc"
    "client_request T c (hw_enrol_request (hw_nonce W 0)) = Some (Inr (enroll_reply P csr rep), c1)"
    "load_csr (hw_crypto W) csr = Inr (True, pb_tik_pub P)" "parse_snp rep = Inr f" "snp_anchor f = Some a"
    "enrol_call (hw_ins W 0) (enroll_reply P csr rep) (hw_nonce W 0) csr (pb_tik_pub P) None
       (snd (challenge (hw_now W 0) (hw_nonce W 0) (hw_mandate W 0))) = Some (Inr (True, ''enrolled''), m)"
    "owns (hw_cfg W 0) (pb_tik_pub P) a None [] m" by (rule enrol_call_ok)
  then show ?thesis
    by (simp add: rh_enrol_def in_client_at_def ask_enrolment_ok [OF c(2,4,3)] th_claims_ok [OF c(5,6)])
qed

lemma owns_chain_state:
  assumes "owns (hw_cfg W k) tik a ta ws m"
  shows "chain_state m tik sc ex a 0" "sessions_ok m" "cfg m = hw_cfg W k"
proof -
  from assms obtain r where r: "mandate_rec m (hex tik) = Inr r" "wf_rec r" "\<not> revoked r" "enrolled_instance r = Some (hex (anchor_instance a))"
    "enrolled_place r = hex_opt (anchor_place a)" "observed_instance r = None" and m: "anchor_instance a \<noteq> []" "cfg m = hw_cfg W k"
    "sessions m = Map.empty" "log_inv m" by (rule ownsE)
  show "chain_state m tik sc ex a 0" using r m ledger_admits_owner [OF r(4) m(1) r(6,5)] by (auto simp: chain_state_def)
  show "sessions_ok m" "cfg m = hw_cfg W k" using m by (simp_all add: sessions_ok_def)
qed

lemma relay_hw_exits_0:
  assumes E: "enrols_as W 0 (T 0) ip P a" "t_check (hw_ins W 0) < hw_now W 0 + 300"
    and D: "visits W (T 1) ip (pb_tik_pub P) V 2 a"
    and R: "genuine_visit W (pb_tik_pub P) U 2 a" "meets (T 2) ''127.0.0.1'' RELAY_PORT (pb_tik_pub P) sc ex U 2"
    and ex: "ex \<noteq> vs_exporter U" "length ex = length (vs_exporter U)" "length ex \<le> 128" "length sc < 256"
    and note': "map_of nt ''guest_side'' = None \<or> map_of nt ''client_side'' \<noteq> None"
  shows "(\<exists>v m. relay_hw_main W ip T nt = Some (Inr (0, Some v), m))
    \<or> link_collision (vs_exporter U, intra_value (vs_sctx U) (pb_tik_pub P), 0) (ex, intra_value sc (pb_tik_pub P), 0)"
proof (cases "link_collision (vs_exporter U, intra_value (vs_sctx U) (pb_tik_pub P), 0) (ex, intra_value sc (pb_tik_pub P), 0)")
  case False
  let ?tik = "pb_tik_pub P"
  have g: "genuine_visit W ?tik V 2 a" and k: "meets (T 1) ip 8443 ?tik (vs_sctx V) (vs_exporter V) V 2" using D by (simp_all add: visits_def)
  obtain out m1 where m1: "rh_enrol W (T 0) ip (hw_mandate W 0) = Some (Inr (True, out), m1)" "owns (hw_cfg W 0) ?tik a None [] m1"
    using rh_enrol_ok [OF E] by blast
  obtain c c1 where c: "client_enter (T 1) (client_new ip 8443 None None) = Inr c"
    "client_request (T 1) c (hw_steps_request (int 2) None) = Some (Inr (visit_reply V 2 None), c1)" by (rule meets_request [OF k])
  obtain m2 where m2: "feed_steps W 1 (T 1) c1 (visit_reply V 2 None) m1 = Some (Inr (accepted_rows V 2), m2)"
    "chain_state m2 ?tik (vs_sctx V) (vs_exporter V) a 2" "cfg m2 = hw_cfg W 0" "sessions_ok m2"
    using feed_accepts [OF g k owns_chain_state(1) [OF m1(2)] owns_chain_state(3) [OF m1(2)], of 1 c1] owns_chain_state(2,3) [OF m1(2)] by auto
  have d: "rh_direct W (T 1) ip m1 = Some (Inr (Some True), m2)"
    using c m2(1) by (simp add: rh_direct_def in_client_at_def client_ask_def last_accepted)
  obtain d d1 where dd: "client_enter (T 2) (client_new ''127.0.0.1'' RELAY_PORT None None) = Inr d"
    "client_request (T 2) d (hw_steps_request (int 2) None) = Some (Inr (visit_reply U 2 None), d1)" by (rule meets_request [OF R(2)])
  obtain why m3 where p: "present (hw_ins W 2) m2 ?tik sc ex (visit_msg U None) None None = (Inr (False, why), m3)"
    using foreign_visit_refused [OF R(1) m2(4,3,2) ex(4,1-3)] False by blast
  have "rh_relayed W (T 2) m2 = Some (Inr (Some False), m3)"
    using dd feed_first [OF R(2) _ p] by (simp add: rh_relayed_def in_client_at_def client_ask_def last_verdict_def)
  with m1(1) d note' show ?thesis by (auto simp: relay_hw_main_def dindex_def)
qed simp

text \<open>
  The relay writes its two exporters into \<open>note\<close> one after the other, after it has answered: a main thread that looks
  in between finds the first alone and raises.
\<close>

lemma note_race:
  assumes "rh_enrol W (T 0) ip (hw_mandate W 0) = Some (Inr (True, out), m1)" "rh_direct W (T 1) ip m1 = Some (Inr d, m2)"
    and "rh_relayed W (T 2) m2 = Some (Inr rl, m3)"
  shows "relay_hw_main W ip T [(''guest_side'', g)] = Some (Inl (KeyError ''client_side''), m3)"
  using assms by (simp add: relay_hw_main_def dindex_def)

end
