(* ===== verification/Local_Proofs.thy ===== *)
theory Local_Proofs
  imports Local_Run Live_Proofs
begin

text \<open>
  The scenarios of \<open>Local_Run\<close> print the verdicts of \<open>local_verdicts\<close>. \<open>served\<close> is the state in which an identity is
  enrolled on one instance, whatever connections are open; each step of the owner and each refused step keeps it.
\<close>

section \<open>An identity that is served\<close>

definition served :: "world \<Rightarrow> string list \<Rightarrow> config \<Rightarrow> anchor \<Rightarrow> mandate \<Rightarrow> bool" where
  "served W pubs cf a m \<longleftrightarrow> (\<exists>r. mandate_rec m (hex (wd_tik W)) = Inr r \<and> wf_rec r \<and> \<not> revoked r
     \<and> enrolled_instance r = Some (hex (anchor_instance a)) \<and> enrolled_place r = hex_opt (anchor_place a)
     \<and> (observed_instance r = None \<or> observed_instance r = Some (hex (anchor_instance a))))
     \<and> anchor_instance a \<noteq> [] \<and> cfg m = cf \<and> \<not> require_place cf \<and> verify_report cf = mock_verifier (wd_crypto W) pubs
     \<and> sessions_ok m \<and> log_inv m"

lemma servedE:
  assumes "served W pubs cf a m"
  obtains r where "mandate_rec m (hex (wd_tik W)) = Inr r" "wf_rec r" "\<not> revoked r" "enrolled_instance r = Some (hex (anchor_instance a))"
    "enrolled_place r = hex_opt (anchor_place a)" "observed_instance r = None \<or> observed_instance r = Some (hex (anchor_instance a))"
    "anchor_instance a \<noteq> []" "cfg m = cf" "\<not> require_place cf" "verify_report cf = mock_verifier (wd_crypto W) pubs" "sessions_ok m" "log_inv m"
  using assms unfolding served_def by blast

lemma served_owned:
  assumes "owned W pubs tee ta ws m" "any_set (mock_instance tee)"
  shows "served W pubs (cfg m) (anchor_of tee) m" "sessions m = Map.empty"
  using assms unfolding owned_def served_def sessions_ok_def any_set_def
  by (auto simp: anchor_of_def)

lemma served_chain:
  assumes s: "served W pubs cf a m"
    and n: "sessions m (hex (wd_tik W), session_key t) = (if n = 0 then None else Some \<lparr>ss_prev = link_at t (wd_tik W) e (n - 1), ss_counter = int n - 1\<rparr>)"
  shows "chain_state m (wd_tik W) t e a n"
proof -
  from s obtain r where r: "mandate_rec m (hex (wd_tik W)) = Inr r" "wf_rec r" "\<not> revoked r" "enrolled_instance r = Some (hex (anchor_instance a))"
    "enrolled_place r = hex_opt (anchor_place a)" "observed_instance r = None \<or> observed_instance r = Some (hex (anchor_instance a))"
    and m: "anchor_instance a \<noteq> []" "cfg m = cf" "\<not> require_place cf" "log_inv m" by (rule servedE)
  then have "ledger_admits (cfg m) r (Some a)"
    by (auto simp: ledger_admits_def Let_def opt_fromhex_hex agrees_def opt_fromhex_def hex_opt_def split: option.splits)
  with r m n show ?thesis by (auto simp: chain_state_def)
qed

text \<open>A call of \<open>present\<close> keeps it, when what is accepted is of the enrolled instance.\<close>

lemma served_present:
  assumes s: "served W pubs cf a m" and p: "present i m (wd_tik W) t e msg head bd = (Inr (True, why), m')"
    and v: "sees m (wd_tik W) msg head bd a"
  shows "served W pubs cf a m' \<and> (\<exists>pl. fromhex (msg_post_link msg) = Inr pl
    \<and> sessions m' = (sessions m)((hex (wd_tik W), session_key t) \<mapsto> \<lparr>ss_prev = pl, ss_counter = msg_counter msg\<rparr>))"
proof -
  from s obtain r where r: "mandate_rec m (hex (wd_tik W)) = Inr r" "wf_rec r" "\<not> revoked r" "enrolled_instance r = Some (hex (anchor_instance a))"
    "enrolled_place r = hex_opt (anchor_place a)" "observed_instance r = None \<or> observed_instance r = Some (hex (anchor_instance a))"
    and m: "anchor_instance a \<noteq> []" "cfg m = cf" "\<not> require_place cf" "verify_report cf = mock_verifier (wd_crypto W) pubs" "sessions_ok m" "log_inv m"
    by (rule servedE)
  obtain q pl an where q: "admits m (wd_tik W) t e msg head bd q pl an" "step_done m (wd_tik W) t (msg_counter msg) pl q an m'"
    using p by (rule present_True)
  have an: "an = Some a" "q = r" "fromhex (msg_post_link msg) = Inr pl" using q(1) v r(1) by (auto simp: admits_def sees_def)
  have "mandate_rec m' (hex (wd_tik W)) = Inr (map_nonces (store_norm (mstore m)) (step_rec r (Some a)))"
    using step_done_rec [OF q(2) [unfolded an] r(1,2)] by simp
  moreover have "wf_rec (map_nonces (store_norm (mstore m)) (step_rec r (Some a)))"
    using r(2) by (intro wf_norm) (simp add: step_rec_def wf_rec_def)
  moreover have "sessions_ok m'" "log_inv m'" "cfg m' = cf"
    using mstep_sessions_ok [OF mstep.present [OF p] m(5)] log_inv_step [OF present_steps(1) [OF p] m(6)] q(2) m(2) by (simp_all add: step_done_def)
  ultimately have "served W pubs cf a m'" using r m by (simp add: served_def step_rec_def)
  then show ?thesis using q(2) an by (simp add: step_done_def)
qed

lemma served_refused:
  assumes s: "served W pubs cf a m" and v: "sees m (wd_tik W) msg None None b" and ne: "anchor_instance b \<noteq> anchor_instance a"
  shows "\<exists>why m'. atk_present W D j m t e msg = Inr (False, why, m') \<and> served W pubs cf a m' \<and> sessions m' = sessions m"
proof -
  from s obtain r where r: "mandate_rec m (hex (wd_tik W)) = Inr r" "wf_rec r" "\<not> revoked r" "enrolled_instance r = Some (hex (anchor_instance a))"
    "enrolled_place r = hex_opt (anchor_place a)" "observed_instance r = None \<or> observed_instance r = Some (hex (anchor_instance a))"
    and m: "anchor_instance a \<noteq> []" "cfg m = cf" "\<not> require_place cf" "verify_report cf = mock_verifier (wd_crypto W) pubs" "sessions_ok m" "log_inv m"
    by (rule servedE)
  let ?r = "map_nonces (store_norm (mstore m)) (dispute_rec (t_dispute (dr_ins D j)) (witness_rec (cfg m) (t_witness (dr_ins D j)) r
      (anchor_instance b) (anchor_place b)) ''evidence from a non-enrolled instance'')"
  obtain m' where p: "present (dr_ins D j) m (wd_tik W) t e msg None None
      = (Inr (False, ''rejected: key presented from an instance it was not enrolled on''), m')"
    and rec: "mandate_rec m' (hex (wd_tik W)) = Inr ?r" and ss: "sessions m' = sessions m"
    using impostor_step [OF r(1-4) m(1) v ne, of "dr_ins D j" t e] by blast
  have "wf_rec ?r" using r(2) by (intro wf_norm) (simp add: wf_rec_def dispute_rec_def witness_rec_def Let_def)
  moreover have "sessions_ok m'" "log_inv m'" "cfg m' = cf"
    using ss m present_steps(1,2) [OF p] log_inv_step by (auto simp: sessions_ok_def ledger_step_def)
  ultimately have "served W pubs cf a m'" using rec r m by (simp add: served_def) (simp add: witness_rec_def dispute_rec_def Let_def)
  with p ss show ?thesis by (auto simp: atk_present_def)
qed

section \<open>Steps over mock TEEs\<close>

lemma served_step:
  assumes W: "sound_crypto W" "trusted_tee W pubs tee" and s: "served W pubs cf (anchor_of tee) m" and len: "length t < 256" "int n < 2 ^ 64"
    and n: "sessions m (hex (wd_tik W), session_key t) = (if n = 0 then None else Some \<lparr>ss_prev = link_at t (wd_tik W) e (n - 1), ss_counter = int n - 1\<rparr>)"
  shows "\<exists>why msg m'. atk_step W D j tee (attester_at t (wd_tik W) e n) m t e = Inr (True, why, msg, attester_at t (wd_tik W) e (Suc n), m')
    \<and> served W pubs cf (anchor_of tee) m'
    \<and> sessions m' = (sessions m)((hex (wd_tik W), session_key t) \<mapsto> \<lparr>ss_prev = link_at t (wd_tik W) e n, ss_counter = int n\<rparr>)"
proof -
  have m: "cfg m = cf" "verify_report cf = mock_verifier (wd_crypto W) pubs" "sessions_ok m" using s by (simp_all add: served_def)
  obtain msg where msg: "atk_attest W D j tee (attester_at t (wd_tik W) e n) t e = Inr (msg, attester_at t (wd_tik W) e (Suc n))"
    "msg_counter msg = int n" "msg_post_link msg = hex (link_at t (wd_tik W) e n)"
    "verify_report (cfg m) (msg_evidence msg) (report_data_for (link_at t (wd_tik W) e n) None) = Inr (True, Some (anchor_of tee))"
    "sees m (wd_tik W) msg None None (anchor_of tee)"
    using atk_attest_link [OF W len, of D j e] m(1,2) by auto
  have "running W pubs tee t e n m" using served_chain [OF s n] m by (simp add: running_def)
  from running_present [OF this len msg(2-4), of D j] obtain m' where
    p: "atk_present W D j m t e msg = Inr (True, ''accepted; continuity intact'', m')"
    "present (dr_ins D j) m (wd_tik W) t e msg None None = (Inr (True, ''accepted; continuity intact''), m')" by blast
  from served_present [OF s p(2) msg(5)] msg p(1) show ?thesis by (auto simp: atk_step_def)
qed

text \<open>A chain's first step, and its next one.\<close>

lemma served_first:
  assumes W: "sound_crypto W" "trusted_tee W pubs tee" and len: "length t < 256"
    and s: "served W pubs cf (anchor_of tee) m" "sessions m (hex (wd_tik W), session_key t) = None"
  obtains why msg m' where "atk_step W D j tee (attester_new (wd_tik W)) m t e = Inr (True, why, msg, attester_at t (wd_tik W) e 1, m')"
    "served W pubs cf (anchor_of tee) m'"
    "sessions m' = (sessions m)((hex (wd_tik W), session_key t) \<mapsto> \<lparr>ss_prev = link_at t (wd_tik W) e 0, ss_counter = 0\<rparr>)"
  using served_step [OF W s(1) len, of 0 e D j] s(2) by (auto simp: attester_new_at [of _ t e])

lemma served_next:
  assumes W: "sound_crypto W" "trusted_tee W pubs tee" and len: "length t < 256" and s: "served W pubs cf (anchor_of tee) m"
    and n: "sessions m (hex (wd_tik W), session_key t) = Some \<lparr>ss_prev = link_at t (wd_tik W) e n, ss_counter = int n\<rparr>" "int (Suc n) < 2 ^ 64"
  obtains why msg m' where "atk_step W D j tee (attester_at t (wd_tik W) e (Suc n)) m t e = Inr (True, why, msg, attester_at t (wd_tik W) e (Suc (Suc n)), m')"
    "served W pubs cf (anchor_of tee) m'"
    "sessions m' = (sessions m)((hex (wd_tik W), session_key t) \<mapsto> \<lparr>ss_prev = link_at t (wd_tik W) e (Suc n), ss_counter = int (Suc n)\<rparr>)"
  using served_step [OF W s len n(2), of e D j] n(1) by auto

text \<open>An attester in any state, on a trusted TEE.\<close>

lemma atk_attest_any:
  assumes W: "sound_crypto W" "trusted_tee W pubs tee" and len: "length t < 256" "0 \<le> at_counter a" "at_counter a < 2 ^ 64"
    and prev: "\<And>p. at_prev a = Some p \<Longrightarrow> length p = 32" and v: "verify_report (cfg m) = mock_verifier (wd_crypto W) pubs"
  shows "\<exists>msg a'. atk_attest W D j tee a t e = Inr (msg, a') \<and> sees m (wd_tik W) msg None None (anchor_of tee)"
proof -
  let ?b = "case at_prev a of Some p \<Rightarrow> p | None \<Rightarrow> intra_value t (at_tik_pub a)"
  have il: "intra_link t (at_tik_pub a) = Inr (intra_value t (at_tik_pub a))" using len(1) by (simp add: intra_link_Inr)
  have "length ?b = 32" using prev by (simp add: len_simps split: option.splits)
  then have "post_link e ?b (at_counter a) = Inr (post_value e ?b (at_counter a))" using len by (simp add: post_link_Inr)
  then show ?thesis
    using tee_verifies [OF W] v by (simp add: atk_attest_def attest_def Let_def il) (simp add: sees_def head_check_def)
qed

lemma served_intruder:
  assumes W: "sound_crypto W" "trusted_tee W pubs tee'" and s: "served W pubs cf (anchor_of tee) m"
    and ne: "mock_instance tee' \<noteq> mock_instance tee"
    and len: "length t < 256" "0 \<le> at_counter a" "at_counter a < 2 ^ 64" "\<And>p. at_prev a = Some p \<Longrightarrow> length p = 32"
  shows "\<exists>why msg a' m'. atk_step W D j tee' a m t e = Inr (False, why, msg, a', m') \<and> served W pubs cf (anchor_of tee) m' \<and> sessions m' = sessions m"
proof -
  have "verify_report (cfg m) = mock_verifier (wd_crypto W) pubs" using s by (simp add: served_def)
  from atk_attest_any [OF W len this] obtain msg a' where a: "atk_attest W D j tee' a t e = Inr (msg, a')"
    "sees m (wd_tik W) msg None None (anchor_of tee')" by blast
  have "anchor_instance (anchor_of tee') \<noteq> anchor_instance (anchor_of tee)" using ne by (simp add: anchor_of_def)
  from served_refused [OF s a(2) this, of D j t e] a(1) show ?thesis by (auto simp: atk_step_def)
qed

section \<open>The scenarios on one chain\<close>

definition on_time :: "draws \<Rightarrow> bool" where
  "on_time D \<longleftrightarrow> (\<forall>j. t_check (dr_ins D j) < dr_now D j + 300)"

lemma plain_enrols:
  assumes F: "fair_world W" "on_time D"
  shows "\<exists>m. enrol_on W D 0 (teeA W) ta (plain_mandate W D) = (Inr (True, ''enrolled''), m) \<and> owned W (both_chips W) (teeA W) ta [] m
    \<and> served W (both_chips W) (attack_cfg W D (both_chips W) False) (anchor_of (teeA W)) m \<and> sessions m = Map.empty"
proof -
  have "t_check (dr_ins D 0) < dr_now D 0 + 300" using F(2) by (simp add: on_time_def)
  from enrolled_owned [OF trusted_both(3,1) [OF F(1)] this plain_readable(1) plain_readable(4,2,3), of ta]
  obtain m where m: "enrol_on W D 0 (teeA W) ta (plain_mandate W D) = (Inr (True, ''enrolled''), m)" "owned W (both_chips W) (teeA W) ta [] m"
    "cfg m = attack_cfg W D (both_chips W) False" using enrolled_cfg plain_readable(1) by metis
  with served_owned [OF m(2) trusted_both(5) [OF F(1)]] show ?thesis by auto
qed

lemma enrolled_served:
  assumes "fair_world W" "on_time D"
  obtains m where "enrolled_mandate W D = Inr m" "served W (both_chips W) (attack_cfg W D (both_chips W) False) (anchor_of (teeA W)) m"
    "sessions m = Map.empty"
  using plain_enrols [OF assms, of None] by (auto simp: enrolled_mandate_def asserted_def)

lemma local_honest_says:
  assumes F: "fair_world W" "on_time D" and len: "length (fst s) < 256" "length (fst s2) < 256"
    and ne: "session_key (fst s2) \<noteq> session_key (fst s)"
  shows "\<exists>v. local_honest W D s s2 = Inr v \<and> map fst v = [True, True, True, True]"
proof -
  note T = trusted_both [OF F(1)]
  let ?S = "served W (both_chips W) (attack_cfg W D (both_chips W) False) (anchor_of (teeA W))"
  let ?k = "(hex (wd_tik W), session_key (fst s))" and ?at = "attester_at (fst s) (wd_tik W) (snd s)" and ?l = "link_at (fst s) (wd_tik W) (snd s)"
  obtain m where m: "enrolled_mandate W D = Inr m" "?S m" "sessions m = Map.empty" by (rule enrolled_served [OF F])
  have "sessions m ?k = None" using m(3) by simp
  then obtain w1 g1 m1 where 1: "atk_step W D 1 (teeA W) (attester_new (wd_tik W)) m (fst s) (snd s) = Inr (True, w1, g1, ?at (Suc 0), m1)" "?S m1"
    "sessions m1 = (sessions m)(?k \<mapsto> \<lparr>ss_prev = ?l 0, ss_counter = 0\<rparr>)"
    by (rule served_first [OF T(3,1) len(1) m(2), of D 1 "snd s"]) auto
  have "sessions m1 ?k = Some \<lparr>ss_prev = ?l 0, ss_counter = int 0\<rparr>" using 1(3) by simp
  then obtain w2 g2 m2 where 2: "atk_step W D 2 (teeA W) (?at (Suc 0)) m1 (fst s) (snd s) = Inr (True, w2, g2, ?at (Suc (Suc 0)), m2)" "?S m2"
    "sessions m2 = (sessions m1)(?k \<mapsto> \<lparr>ss_prev = ?l (Suc 0), ss_counter = int (Suc 0)\<rparr>)"
    by (rule served_next [OF T(3,1) len(1) 1(2), of "snd s" 0 D 2]) auto
  have "sessions m2 ?k = Some \<lparr>ss_prev = ?l (Suc 0), ss_counter = int (Suc 0)\<rparr>" using 2(3) by simp
  then obtain w3 g3 m3 a3 where 3: "atk_step W D 3 (teeA W) (?at (Suc (Suc 0))) m2 (fst s) (snd s) = Inr (True, w3, g3, a3, m3)" "?S m3"
    "sessions m3 = (sessions m2)(?k \<mapsto> \<lparr>ss_prev = ?l (Suc (Suc 0)), ss_counter = int (Suc (Suc 0))\<rparr>)"
    by (rule served_next [OF T(3,1) len(1) 2(2), of "snd s" "Suc 0" D 3]) auto
  have "sessions m3 (hex (wd_tik W), session_key (fst s2)) = None" using m(3) 1(3) 2(3) 3(3) ne by simp
  then obtain w4 g4 m4 a4 where "atk_step W D 4 (teeA W) (attester_new (wd_tik W)) m3 (fst s2) (snd s2) = Inr (True, w4, g4, a4, m4)"
    by (rule served_first [OF T(3,1) len(2) 3(2), of D 4 "snd s2"]) auto
  with m(1) 1(1) 2(1) 3(1) show ?thesis by (simp add: local_honest_def)
qed

lemma local_parallel_says:
  assumes F: "fair_world W" "on_time D" and len: "length (fst s) < 256" "length (fst s2) < 256"
    and ne: "session_key (fst s2) \<noteq> session_key (fst s)"
  shows "\<exists>v. local_parallel W D s s2 = Inr v \<and> map fst v = [True]"
proof -
  note T = trusted_both [OF F(1)]
  let ?S = "served W (both_chips W) (attack_cfg W D (both_chips W) False) (anchor_of (teeA W))"
  let ?k = "(hex (wd_tik W), session_key (fst s))" and ?at = "attester_at (fst s) (wd_tik W) (snd s)" and ?l = "link_at (fst s) (wd_tik W) (snd s)"
  obtain m where m: "enrolled_mandate W D = Inr m" "?S m" "sessions m = Map.empty" by (rule enrolled_served [OF F])
  have "sessions m ?k = None" using m(3) by simp
  then obtain w1 g1 m1 where 1: "atk_step W D 1 (teeA W) (attester_new (wd_tik W)) m (fst s) (snd s) = Inr (True, w1, g1, ?at (Suc 0), m1)" "?S m1"
    "sessions m1 = (sessions m)(?k \<mapsto> \<lparr>ss_prev = ?l 0, ss_counter = 0\<rparr>)"
    by (rule served_first [OF T(3,1) len(1) m(2), of D 1 "snd s"]) auto
  have "sessions m1 (hex (wd_tik W), session_key (fst s2)) = None" using m(3) 1(3) ne by simp
  then obtain w2 g2 m2 a2 where 2: "atk_step W D 2 (teeA W) (attester_new (wd_tik W)) m1 (fst s2) (snd s2) = Inr (True, w2, g2, a2, m2)" "?S m2"
    "sessions m2 = (sessions m1)((hex (wd_tik W), session_key (fst s2)) \<mapsto> \<lparr>ss_prev = link_at (fst s2) (wd_tik W) (snd s2) 0, ss_counter = 0\<rparr>)"
    by (rule served_first [OF T(3,1) len(2) 1(2), of D 2 "snd s2"]) auto
  have "sessions m2 ?k = Some \<lparr>ss_prev = ?l 0, ss_counter = int 0\<rparr>" using 1(3) 2(3) ne by simp
  then obtain w3 g3 m3 a3 where 3: "atk_step W D 3 (teeA W) (?at (Suc 0)) m2 (fst s) (snd s) = Inr (True, w3, g3, a3, m3)"
    by (rule served_next [OF T(3,1) len(1) 2(2), of "snd s" 0 D 3]) auto
  with m(1) 1(1) 2(1) show ?thesis by (simp add: local_parallel_def)
qed

lemma local_rehost_says:
  assumes F: "fair_world W" "on_time D" and len: "length (fst s) < 256" "length (fst sX) < 256"
  shows "\<exists>v. local_rehost W D s sX = Inr v \<and> map fst v = [True, False, True]"
proof -
  note T = trusted_both [OF F(1)]
  let ?S = "served W (both_chips W) (attack_cfg W D (both_chips W) False) (anchor_of (teeA W))"
  let ?k = "(hex (wd_tik W), session_key (fst s))" and ?at = "attester_at (fst s) (wd_tik W) (snd s)" and ?l = "link_at (fst s) (wd_tik W) (snd s)"
  let ?aB = "attester_new (wd_tik W)\<lparr>at_prev := at_prev (?at (Suc 0)), at_counter := at_counter (?at (Suc 0))\<rparr>"
  obtain m where m: "enrolled_mandate W D = Inr m" "?S m" "sessions m = Map.empty" by (rule enrolled_served [OF F])
  have "sessions m ?k = None" using m(3) by simp
  then obtain w1 g1 m1 where 1: "atk_step W D 1 (teeA W) (attester_new (wd_tik W)) m (fst s) (snd s) = Inr (True, w1, g1, ?at (Suc 0), m1)" "?S m1"
    "sessions m1 = (sessions m)(?k \<mapsto> \<lparr>ss_prev = ?l 0, ss_counter = 0\<rparr>)"
    by (rule served_first [OF T(3,1) len(1) m(2), of D 1 "snd s"]) auto
  have aB: "0 \<le> at_counter ?aB" "at_counter ?aB < 2 ^ 64" "\<And>p. at_prev ?aB = Some p \<Longrightarrow> length p = 32"
    by (auto simp: attester_at_def len_simps)
  obtain w2 g2 a2 m2 where 2: "atk_step W D 2 (teeB W) ?aB m1 (fst sX) (snd sX) = Inr (False, w2, g2, a2, m2)" "?S m2" "sessions m2 = sessions m1"
    using served_intruder [OF T(3,2) 1(2) T(4) len(2) aB, of D 2 "snd sX"] by blast
  have "sessions m2 ?k = Some \<lparr>ss_prev = ?l 0, ss_counter = int 0\<rparr>" using 1(3) 2(3) by simp
  then obtain w3 g3 m3 a3 where 3: "atk_step W D 3 (teeA W) (?at (Suc 0)) m2 (fst s) (snd s) = Inr (True, w3, g3, a3, m3)"
    by (rule served_next [OF T(3,1) len(1) 2(2), of "snd s" 0 D 3]) auto
  with m(1) 1(1) 2(1) show ?thesis by (simp add: local_rehost_def Let_def)
qed

section \<open>Relay, replay, a masked platform, prevention\<close>

lemma served_running:
  assumes "served W pubs cf (anchor_of tee) m"
    and "sessions m (hex (wd_tik W), session_key t) = (if n = 0 then None else Some \<lparr>ss_prev = link_at t (wd_tik W) e (n - 1), ss_counter = int n - 1\<rparr>)"
  shows "running W pubs tee t e n m"
  using served_chain [OF assms] assms(1) by (simp add: running_def served_def)

text \<open>The second link of a chain under another exporter is refused, unless the two links collide.\<close>

lemma foreign_exporter:
  assumes run: "running W pubs tee t e 1 m" and len: "length t < 256" and e: "length e = length e2" "length e2 \<le> 128" "e \<noteq> e2"
    and step: "msg_counter step = 1" "msg_post_link step = hex (link_at t (wd_tik W) e 1)" "sees m (wd_tik W) step None None an"
    and no: "\<not> link_collision (e, link_at t (wd_tik W) e 0, 1) (e2, link_at t (wd_tik W) e 0, 1)"
  shows "\<exists>why m'. atk_present W D j m t e2 step = Inr (False, why, m')"
proof -
  have ss: "sessions m (hex (wd_tik W), session_key t) = Some \<lparr>ss_prev = link_at t (wd_tik W) e 0, ss_counter = 0\<rparr>"
    using run by (simp add: running_def chain_state_def)
  have "\<not> admits m (wd_tik W) t e2 step None None r pl an" for r pl an
  proof
    assume a: "admits m (wd_tik W) t e2 step None None r pl an"
    have "pl = link_at t (wd_tik W) e 1" using a step(2) by (simp add: admits_def)
    then have "post_value e (link_at t (wd_tik W) e 0) 1 = post_value e2 (link_at t (wd_tik W) e 0) 1"
      using admits_link(1) [OF a] ss step(1) by (simp add: link_at_1 expected_base_def)
    from post_value_eqD [OF this] e no show False by auto
  qed
  then show ?thesis using step(1) by (intro running_answers [OF run len _ _ step(3)]) simp_all
qed

text \<open>An enrolled mandate after one step, and the second step as it is sent.\<close>

lemma enrolled_two:
  assumes F: "fair_world W" "on_time D" and len: "length t < 256"
  obtains m why msg m1 step a2 where "enrolled_mandate W D = Inr m"
    "atk_step W D 1 (teeA W) (attester_new (wd_tik W)) m t e = Inr (True, why, msg, attester_at t (wd_tik W) e 1, m1)"
    "running W (both_chips W) (teeA W) t e 1 m1"
    "atk_attest W D 2 (teeA W) (attester_at t (wd_tik W) e 1) t e = Inr (step, a2)"
    "msg_counter step = 1" "msg_post_link step = hex (link_at t (wd_tik W) e 1)"
    "verify_report (cfg m1) (msg_evidence step) (report_data_for (link_at t (wd_tik W) e 1) None) = Inr (True, Some (anchor_of (teeA W)))"
    "sees m1 (wd_tik W) step None None (anchor_of (teeA W))"
proof -
  note T = trusted_both [OF F(1)]
  let ?S = "served W (both_chips W) (attack_cfg W D (both_chips W) False) (anchor_of (teeA W))"
  obtain m where m: "enrolled_mandate W D = Inr m" "?S m" "sessions m = Map.empty" by (rule enrolled_served [OF F])
  have "sessions m (hex (wd_tik W), session_key t) = None" using m(3) by simp
  then obtain why msg m1 where 1: "atk_step W D 1 (teeA W) (attester_new (wd_tik W)) m t e = Inr (True, why, msg, attester_at t (wd_tik W) e 1, m1)" "?S m1"
    "sessions m1 = (sessions m)((hex (wd_tik W), session_key t) \<mapsto> \<lparr>ss_prev = link_at t (wd_tik W) e 0, ss_counter = 0\<rparr>)"
    by (rule served_first [OF T(3,1) len m(2), of D 1 e]) auto
  have run: "running W (both_chips W) (teeA W) t e 1 m1" using 1(2,3) by (intro served_running) simp_all
  then have "verify_report (cfg m1) = mock_verifier (wd_crypto W) (both_chips W)" by (simp add: running_def)
  with atk_attest_link [OF T(3,1) len, of 1 D 2 e] that [OF m(1) 1(1) run] show thesis by auto
qed

lemma local_relay_says:
  assumes F: "fair_world W" "on_time D" and len: "length (fst s) < 256"
    and e: "length (snd s) = length e2" "length e2 \<le> 128" "snd s \<noteq> e2"
    and no: "\<not> link_collision (snd s, link_at (fst s) (wd_tik W) (snd s) 0, 1) (e2, link_at (fst s) (wd_tik W) (snd s) 0, 1)"
  shows "\<exists>v. local_relay W D s e2 = Inr v \<and> map fst v = [False]"
proof (rule enrolled_two [OF F len])
  fix m why msg m1 step a2
  assume 1: "enrolled_mandate W D = Inr m"
    "atk_step W D 1 (teeA W) (attester_new (wd_tik W)) m (fst s) (snd s) = Inr (True, why, msg, attester_at (fst s) (wd_tik W) (snd s) 1, m1)"
    "running W (both_chips W) (teeA W) (fst s) (snd s) 1 m1"
    "atk_attest W D 2 (teeA W) (attester_at (fst s) (wd_tik W) (snd s) 1) (fst s) (snd s) = Inr (step, a2)"
    and step: "msg_counter step = 1" "msg_post_link step = hex (link_at (fst s) (wd_tik W) (snd s) 1)"
    "sees m1 (wd_tik W) step None None (anchor_of (teeA W))"
  from foreign_exporter [OF 1(3) len e step no, of D 2] 1 show ?thesis by (auto simp: local_relay_def)
qed

lemma local_replay_says:
  assumes F: "fair_world W" "on_time D" and len: "length (fst s) < 256"
  shows "\<exists>v. local_replay W D s = Inr v \<and> map fst v = [False]"
proof (rule enrolled_two [OF F len])
  fix m why msg m1 step a2
  assume 1: "enrolled_mandate W D = Inr m"
    "atk_step W D 1 (teeA W) (attester_new (wd_tik W)) m (fst s) (snd s) = Inr (True, why, msg, attester_at (fst s) (wd_tik W) (snd s) 1, m1)"
    "atk_attest W D 2 (teeA W) (attester_at (fst s) (wd_tik W) (snd s) 1) (fst s) (snd s) = Inr (step, a2)"
    and run: "running W (both_chips W) (teeA W) (fst s) (snd s) 1 m1"
    and step: "msg_counter step = 1" "msg_post_link step = hex (link_at (fst s) (wd_tik W) (snd s) 1)"
    "verify_report (cfg m1) (msg_evidence step) (report_data_for (link_at (fst s) (wd_tik W) (snd s) 1) None) = Inr (True, Some (anchor_of (teeA W)))"
    and v: "sees m1 (wd_tik W) step None None (anchor_of (teeA W))"
  obtain m2 where m2: "atk_present W D 2 m1 (fst s) (snd s) step = Inr (True, ''accepted; continuity intact'', m2)"
    "running W (both_chips W) (teeA W) (fst s) (snd s) 2 m2"
    using running_present [OF run len _ _ step(2,3), of D 2] step(1) by (auto simp: numeral_2_eq_2)
  have "sees m2 (wd_tik W) step None None (anchor_of (teeA W))"
    using v sees_cong [of m1 m2] run m2(2) by (simp add: running_def)
  from counter_refused [OF m2(2) len _ _ _ this, of D 3 "snd s"] step(1) 1 m2(1) show ?thesis by (auto simp: local_replay_def)
qed

lemma attester_new_ok:
  "0 \<le> at_counter (attester_new k)" "at_counter (attester_new k) < 2 ^ 64" "\<And>q. at_prev (attester_new k) = Some q \<Longrightarrow> length q = 32"
  by (simp_all add: attester_new_def)

lemma local_masked_says:
  assumes F: "fair_world W" "on_time D" and len: "length (fst s) < 256" "length (fst s2) < 256"
    and z: "any_set (fst (dr_z1 D))" "any_set (fst (dr_z2 D))" "fst (dr_z1 D) \<noteq> fst (dr_z2 D)"
  shows "\<exists>v. local_masked W D s s2 = Inr v \<and> map fst v = [True, False, True]"
proof -
  let ?z1 = "zero_tee W (dr_z1 D)" and ?z2 = "zero_tee W (dr_z2 D)"
  let ?p = "[hex (mock_pub ?z1), hex (mock_pub ?z2)]"
  have T: "trusted_tee W ?p ?z1" "trusted_tee W ?p ?z2" "mock_instance ?z2 \<noteq> mock_instance ?z1" "any_set (mock_instance ?z1)"
    using z by (auto simp: trusted_tee_def zero_tee_def mock_tee_new_def)
  have W: "sound_crypto W" using F(1) by (simp add: fair_world_def)
  have D: "t_check (dr_ins D 0) < dr_now D 0 + 300" using F(2) by (simp add: on_time_def)
  obtain mz where mz: "enrol_on W D 0 ?z1 None (mandate_new (attack_cfg W D ?p False) (MemoryStore [])) = (Inr (True, ''enrolled''), mz)"
    "owned W ?p ?z1 None [] mz" using enrolled_owned [OF W T(1) D new_readable(1,5,2,3), of None] by blast
  obtain w1 g1 a1 m1 where 1: "atk_step W D 1 ?z2 (attester_new (wd_tik W)) mz (fst s) (snd s) = Inr (False, w1, g1, a1, m1)"
    using served_intruder [OF W T(2) served_owned(1) [OF mz(2) T(4)] T(3) len(1) attester_new_ok [of "wd_tik W"], where D = D and j = 1 and e = "snd s"] by blast
  let ?md = "mandate_new (attack_cfg W D ?p False\<lparr>require_anchor := False\<rparr>) (MemoryStore [])"
  have cf: "cfg ?md = attack_cfg W D ?p False\<lparr>require_anchor := False\<rparr>" by (simp add: new_readable)
  have "ledger_admits (cfg ?md) blank (Some (anchor_of ?z2))"
    unfolding cf by (simp add: ledger_admits_def Let_def agrees_def opt_fromhex_def)
  then have "running W ?p ?z2 (fst s2) (snd s2) 0 ?md"
    using cf by (simp add: running_def chain_state_def new_readable wf_blank sessions_ok_new)
  from running_step [OF W T(2) this len(2), of D 2] obtain w2 g2 m2 a2 where
    2: "atk_step W D 2 ?z2 (attester_new (wd_tik W)) ?md (fst s2) (snd s2) = Inr (True, w2, g2, a2, m2)"
    by (auto simp: attester_new_at [of _ "fst s2" "snd s2"])
  show ?thesis using mz(1) 1 2 by (simp add: local_masked_def Let_def)
qed

text \<open>An enrolment of an identity that has one is refused.\<close>

lemma served_reenrol:
  assumes s: "served W pubs cf a m" and time: "t_check (dr_ins D j) < dr_now D j + challenge_ttl cf" and noauth: "enrolment_authority cf = None"
  shows "\<exists>why m'. enrol_on W D j tee ta m = (Inr (False, why), m')"
proof -
  from s obtain r where r: "mandate_rec m (hex (wd_tik W)) = Inr r" "enrolled_instance r = Some (hex (anchor_instance a))" and m: "cfg m = cf" by (rule servedE)
  obtain m1 where c: "challenge (dr_now D j) (dr_nonce D j) m = (dr_nonce D j, m1)" by (simp add: challenge_def Let_def)
  note cs = challenge_sel [OF c]
  have "mandate_rec m1 = mandate_rec m" using mandate_rec_cong [of m1 m] cs by simp
  then show ?thesis
    using r m cs(2) challenge_nonce [OF c] time noauth c
    by (simp add: enrol_on_def enroll_eq enroll_decide_def Let_def enroll_permitted_def enroll_bind_def enroll_reject_def)
qed

lemma local_prevention_says:
  assumes F: "fair_world W" "on_time D" and len: "length (fst s) < 256" "length (fst s2) < 256"
  shows "\<exists>v. local_prevention W D s s2 = Inr v \<and> map fst v = [False, True, False]"
proof -
  note T = trusted_both [OF F(1)]
  let ?S = "served W (both_chips W) (attack_cfg W D (both_chips W) False) (anchor_of (teeA W))"
  obtain m where m: "enrolled_mandate W D = Inr m" "?S m" "sessions m = Map.empty" by (rule enrolled_served [OF F])
  obtain w1 g1 a1 m1 where 1: "atk_step W D 1 (teeB W) (attester_new (wd_tik W)) m (fst s) (snd s) = Inr (False, w1, g1, a1, m1)" "?S m1" "sessions m1 = sessions m"
    using served_intruder [OF T(3,2) m(2) T(4) len(1) attester_new_ok [of "wd_tik W"], where D = D and j = 1 and e = "snd s"] by blast
  have "sessions m1 (hex (wd_tik W), session_key (fst s2)) = None" using m(3) 1(3) by simp
  then obtain w2 g2 m2 a2 where 2: "atk_step W D 2 (teeA W) (attester_new (wd_tik W)) m1 (fst s2) (snd s2) = Inr (True, w2, g2, a2, m2)" "?S m2"
    by (rule served_first [OF T(3,1) len(2) 1(2), of D 2 "snd s2"]) auto
  have "t_check (dr_ins D 3) < dr_now D 3 + challenge_ttl (attack_cfg W D (both_chips W) False)" using F(2) by (simp add: on_time_def)
  from served_reenrol [OF 2(2) this, of "teeB W" None] obtain w3 m3 where "enrol_on W D 3 (teeB W) None m2 = (Inr (False, w3), m3)" by auto
  with m(1) 1(1) 2(1) show ?thesis by (simp add: local_prevention_def)
qed

section \<open>Recovery\<close>

text \<open>The owner's grant moves an owned identity whose new instance was seen.\<close>

lemma owned_moves:
  assumes F: "fair_world W" "timely D" and m: "owned W (both_chips W) (teeA W) (Some (public_key_of (wd_crypto W) (dr_owner D))) [sighting_b W D] m"
    and ok: "ledger_ok m"
  obtains m' where "atk_transfer W D 3 m (owner_grant W D) (grant_sig W D (dr_owner D)) = Inr (True, ''transferred to the authorised instance'', m')"
    "moved_to (cfg m) (wd_tik W) (anchor_of (teeB W)) (JStr (hex (dr_grant_nonce D))) m'"
    "running W (both_chips W) (teeB W) t e 0 m'"
proof -
  let ?pub = "public_key_of (wd_crypto W) (dr_owner D)" and ?s = "grant_sig W D (dr_owner D)"
  let ?d = "grant_dict W (JStr (hex (wd_inst_a W))) (wd_inst_b W) (int_of_time (dr_grant_now D))
     (int_of_time (dr_grant_now D) + 900) (dr_grant_nonce D)"
  let ?now = "int_of_time (t_check (dr_ins D 3))"
  have g: "owner_grant W D = JObj ?d" "wf_json (JObj ?d)" by (simp_all add: owner_grant_def grant_dict_def)
  have inst: "anchor_instance (anchor_of (teeB W)) = wd_inst_b W" "anchor_place (anchor_of (teeB W)) = present_id (Some CHIP_B)"
    by (simp_all add: anchor_of_def teeB_def mock_tee_new_def)
  obtain r where r: "mandate_rec m (hex (wd_tik W)) = Inr r" "wf_rec r" "\<not> revoked r" "enrolled_instance r = Some (hex (wd_inst_a W))"
    "transfer_authority r = Some (hex ?pub)" "witnessed r = [sighting_b W D]" "consumed_grants r = []"
    using m by (auto elim!: owned_record simp: teeA_def mock_tee_new_def)
  have b: "sig_correct (wd_crypto W)" "any_set (wd_inst_b W)" "wd_inst_b W \<noteq> []"
    using F(1) by (auto simp: fair_world_def sound_crypto_def any_set_def)
  have m': "cf_crypto (cfg m) = wd_crypto W" "witness_ttl (cfg m) = 3600" "\<not> require_place (cfg m)" "sessions m = Map.empty" "log_inv m"
    "verify_report (cfg m) = mock_verifier (wd_crypto W) (both_chips W)" using m by (auto simp: owned_def)
  have "transfer_admitted (cfg m) ?now (hex (wd_tik W)) r (JObj ?d) ?s ?d (hex (wd_inst_b W)) (wd_inst_b W) (sighting_b W D) False"
    using r m' b F(2)
    by (simp add: transfer_admitted_def timely_def Let_def py_in_def grant_sig_def g(1) verify_grant_Inr sig_correctD) (simp add: sighting_b_def)
  from transfer_accepts [OF r(1) grant_dict_sel(5) this] obtain m1 where
    t: "accept_transfer (dr_ins D 3) m (wd_tik W) (JObj ?d) ?s = (Inr (True, ''transferred to the authorised instance''), m1)" by blast
  from t g(2) r(1,2) show thesis
  proof (rule accept_transfer_True)
    fix d ti' ti w o' nonce
    assume A: "transfer_admitted (cfg m) ?now (hex (wd_tik W)) r (JObj ?d) ?s d ti' ti w o'" "dindex d ''nonce'' = Inr nonce" "wf_json nonce"
      and rec: "mandate_rec m1 (hex (wd_tik W)) = Inr (map_nonces (store_norm (mstore m)) (moved_rec r ?now ti' w nonce o'))"
      and ss: "\<And>x. fst x = hex (wd_tik W) \<Longrightarrow> sessions m1 x = None" and c: "cfg m1 = cfg m"
    let ?r = "map_nonces (store_norm (mstore m)) (moved_rec r ?now ti' w nonce o')"
    have d: "d = ?d" "ti' = hex (wd_inst_b W)" "w = sighting_b W D" "nonce = JStr (hex (dr_grant_nonce D))"
      using A r(6) by (auto simp: transfer_admitted_def split: if_splits)
    have "list_all wf_json (consumed_grants (moved_rec r ?now ti' w nonce o'))" using moved_rec_wf [OF r(2) A(3)] by (simp only: wf_rec_def)
    then have "py_in nonce (consumed_grants ?r)" using py_in_norm [of "consumed_grants (moved_rec r ?now ti' w nonce o')"]
      by (simp add: py_in_last_n)
    moreover have "ledger_ok m1" using mstep_ledger_ok [OF mstep.transfer [OF t g(2)] ok] .
    ultimately have mv: "moved_to (cfg m) (wd_tik W) (anchor_of (teeB W)) (JStr (hex (dr_grant_nonce D))) m1"
      using rec c b(3) d r(3) inst by (auto simp: moved_to_def)
    have "ledger_admits (cfg m1) ?r (Some (anchor_of (teeB W)))"
      using c m'(3) b(3) d inst by (intro ledger_admits_owner) (simp_all add: sighting_b_def)
    moreover have "wf_rec ?r" using moved_rec_wf [OF r(2) A(3)] by (intro wf_norm)
    moreover have "log_inv m1" using log_inv_step [OF transfer_steps(1) [OF t] m'(5)] .
    moreover have "sessions_ok m1" using mstep_sessions_ok [OF mstep.transfer [OF t g(2)]] m'(4) by (simp add: sessions_ok_def)
    ultimately have "running W (both_chips W) (teeB W) t e 0 m1"
      using rec r(3) ss c m'(6) by (auto simp: running_def chain_state_def)
    with that [of m1] t mv g(1) show thesis by (simp add: atk_transfer_def)
  qed
qed

lemma plain_ledger_ok: "ledger_ok (plain_mandate W D)"
  by (simp add: plain_mandate_def ledger_ok_new)

lemma enrol_on_ledger_ok: "enrol_on W D j tee ta m = (res, m') \<Longrightarrow> ledger_ok m \<Longrightarrow> ledger_ok m'"
proof -
  assume e: "enrol_on W D j tee ta m = (res, m')" and ok: "ledger_ok m"
  obtain n m1 where c: "challenge (dr_now D j) (dr_nonce D j) m = (n, m1)" by (cases "challenge (dr_now D j) (dr_nonce D j) m") auto
  have "ledger_ok m1" using mstep_ledger_ok [OF mstep.challenge [OF c] ok] .
  with e c show ?thesis unfolding enrol_on_def by (auto intro: mstep_ledger_ok [OF mstep.enroll])
qed

lemma local_recovery_says:
  assumes F: "fair_world W" "on_time D" "timely D" and len: "length (fst s) < 256" "length (fst s2) < 256" "length (fst s3) < 256"
  shows "\<exists>v lg. local_recovery W D s s2 s3 = Inr (v, lg) \<and> map fst v = [True, False, True, True, False, False]"
proof -
  note T = trusted_both [OF F(1)]
  let ?g = "owner_grant W D" and ?s = "grant_sig W D (dr_owner D)"
  obtain m where m: "enrol_on W D 0 (teeA W) (Some (public_key_of (wd_crypto W) (dr_owner D))) (plain_mandate W D) = (Inr (True, ''enrolled''), m)"
    "owned W (both_chips W) (teeA W) (Some (public_key_of (wd_crypto W) (dr_owner D))) [] m" using plain_enrols [OF F(1,2)] by blast
  have sb: "sighting_b W D = \<lparr>w_instance = hex (mock_instance (teeB W)), w_place = hex_opt (present_id (Some (mock_chip (teeB W)))),
      w_at = int_of_time (t_witness (dr_ins D 1))\<rparr>" by (simp add: sighting_b_def teeB_def mock_tee_new_def)
  obtain w1 g1 a1 m1 where 1: "atk_step W D 1 (teeB W) (attester_new (wd_tik W)) m (fst s) (snd s) = Inr (False, w1, g1, a1, m1)"
    "owned W (both_chips W) (teeA W) (Some (public_key_of (wd_crypto W) (dr_owner D))) [sighting_b W D] m1"
    using owned_thief [OF m(2) T(3,1,2,4) len(1), of D 1 "snd s"] unfolding sb by blast
  have "ledger_ok m1"
    using mstep_ledger_ok [OF mstep.present [OF atk_step_present [OF 1(1)]]] enrol_on_ledger_ok [OF m(1) plain_ledger_ok] by blast
  from owned_moves [OF F(1,3) 1(2) this, of "fst s2" "snd s2"] obtain m2 where
    2: "atk_transfer W D 3 m1 ?g ?s = Inr (True, ''transferred to the authorised instance'', m2)"
    "moved_to (cfg m1) (wd_tik W) (anchor_of (teeB W)) (JStr (hex (dr_grant_nonce D))) m2" "running W (both_chips W) (teeB W) (fst s2) (snd s2) 0 m2" .
  obtain g3 m3 a3 where 3: "atk_step W D 4 (teeB W) (attester_new (wd_tik W)) m2 (fst s2) (snd s2) = Inr (True, ''accepted; continuity intact'', g3, a3, m3)"
    using running_step [OF T(3,2) 2(3) len(2), of D 4] by (auto simp: attester_new_at [of _ "fst s2" "snd s2"])
  have mv: "moved_to (cfg m1) (wd_tik W) (anchor_of (teeB W)) (JStr (hex (dr_grant_nonce D))) m3"
    using moved_to_present [OF 2(2) atk_step_present [OF 3]] .
  then obtain r where r: "mandate_rec m3 (hex (wd_tik W)) = Inr r" "wf_rec r" "\<not> revoked r"
    "enrolled_instance r = Some (hex (anchor_instance (anchor_of (teeB W))))" "anchor_instance (anchor_of (teeB W)) \<noteq> []" "cfg m3 = cfg m1" by (rule moved_toE)
  have "verify_report (cfg m3) = mock_verifier (wd_crypto W) (both_chips W)" using r(6) 1(2) by (simp add: owned_def)
  from atk_attest_any [OF T(3,1) len(3) attester_new_ok [of "wd_tik W"] this, where D = D and j = 5 and e = "snd s3"] obtain g4 a4 where
    a4: "atk_attest W D 5 (teeA W) (attester_new (wd_tik W)) (fst s3) (snd s3) = Inr (g4, a4)" "sees m3 (wd_tik W) g4 None None (anchor_of (teeA W))" by blast
  have "anchor_instance (anchor_of (teeA W)) \<noteq> anchor_instance (anchor_of (teeB W))" using T(4) by (simp add: anchor_of_def)
  then obtain m4 where p: "present (dr_ins D 5) m3 (wd_tik W) (fst s3) (snd s3) g4 None None
      = (Inr (False, ''rejected: key presented from an instance it was not enrolled on''), m4)"
    using impostor_step [OF r(1-5) a4(2)] by blast
  then have 4: "atk_step W D 5 (teeA W) (attester_new (wd_tik W)) m3 (fst s3) (snd s3)
      = Inr (False, ''rejected: key presented from an instance it was not enrolled on'', g4, a4, m4)"
    using a4(1) by (simp add: atk_step_def atk_present_def)
  have "moved_to (cfg m1) (wd_tik W) (anchor_of (teeB W)) (dget (grant_dict W (JStr (hex (wd_inst_a W))) (wd_inst_b W) (int_of_time (dr_grant_now D))
      (int_of_time (dr_grant_now D) + 900) (dr_grant_nonce D)) ''nonce'') m4"
    using moved_to_present [OF mv p] by simp
  from moved_to_spent [OF this grant_dict_sel(8) grant_dict_sel(5), of "dr_ins D 6" ?s] obtain w5 m5 where
    "atk_transfer W D 6 m4 ?g ?s = Inr (False, w5, m5)" by (auto simp: owner_grant_def atk_transfer_def)
  with m(1) 1(1) 2(1) 3 4 show ?thesis by (simp add: local_recovery_def atk_grant_eq [OF F(1)])
qed

section \<open>Two mandates\<close>

text \<open>A mandate of scenario 11 after its enrolment: one entry in its log, and its head known.\<close>

definition local_entry :: "world \<Rightarrow> draws \<Rightarrow> bytes" where
  "local_entry W D = enrol_entry (wd_tik W) (anchor_of (teeA W)) (dr_ins D 0)"

definition enrolled_alone :: "world \<Rightarrow> draws \<Rightarrow> mandate \<Rightarrow> bool" where
  "enrolled_alone W D m \<longleftrightarrow> served W [hex (mock_pub (teeA W))] (attack_cfg W D [hex (mock_pub (teeA W))] False) (anchor_of (teeA W)) m
     \<and> sessions m = Map.empty \<and> knows_head m (root (merkle m))
     \<and> merkle m = [local_entry W D]"

lemma one_enrols:
  assumes F: "fair_world W" "on_time D"
  shows "\<exists>w m. enrol_on W D 0 (teeA W) None (one_mandate W D) = (Inr (True, w), m) \<and> enrolled_alone W D m"
proof -
  let ?p = "[hex (mock_pub (teeA W))]"
  note T = trusted_both [OF F(1)]
  have A: "trusted_tee W ?p (teeA W)" using T(1) by (simp add: trusted_tee_def)
  have D: "t_check (dr_ins D 0) < dr_now D 0 + 300" using F(2) by (simp add: on_time_def)
  obtain m where m: "enrol_on W D 0 (teeA W) None (one_mandate W D) = (Inr (True, ''enrolled''), m)" "owned W ?p (teeA W) None [] m"
    "cfg m = attack_cfg W D ?p False"
    using enrolled_owned [OF T(3) A D new_readable(1,5,2,3), of None] enrolled_cfg new_readable(1) unfolding one_mandate_def by metis
  obtain n m1 where c: "challenge (dr_now D 0) (dr_nonce D 0) (one_mandate W D) = (n, m1)" by (cases "challenge (dr_now D 0) (dr_nonce D 0) (one_mandate W D)") auto
  let ?e = "\<lparr>en_tik_pub = wd_tik W, en_evidence = mock_report (wd_crypto W) (teeA W) (dr_rnd D 0) (sha512 (n @ wd_csr W)),
           en_nonce = n, en_csr = wd_csr W, en_transfer_authority = None, en_authorisation = None, en_authorisation_sig = None\<rparr>"
  have "enroll (dr_ins D 0) m1 ?e = (Inr (True, ''enrolled''), m)" using m(1) c by (simp add: enrol_on_def)
  moreover have "merkle m1 = []" using challenge_sel(3) [OF c] by (simp add: one_mandate_def mandate_new_def log_new_def)
  moreover
  have ne: "mock_instance (teeA W) \<noteq> []" using T(5) by (auto simp: any_set_def)
  then have "py_bind (mandate_rec m (hex (wd_tik W))) (\<lambda>r. opt_fromhex (enrolled_instance r)) = Inr (Some (mock_instance (teeA W)))"
    using m(2) opt_fromhex_hex [OF ne] by (auto simp: owned_def)
  ultimately have "merkle m = [local_entry W D]"
    using enroll_logs [of "dr_ins D 0" m1 ?e "''enrolled''" m] by (auto simp: local_entry_def enrol_entry_def anchor_of_def)
  moreover have "knows_head m (root (merkle m))" using m(2) knows_head_iff [of m "root (merkle m)"] by (auto simp: owned_def)
  ultimately have "enrolled_alone W D m" using served_owned [OF m(2) T(5)] m(3) by (simp add: enrolled_alone_def)
  with m(1) show ?thesis by blast
qed

text \<open>The bundle over their two heads, and the step whose report carries it.\<close>

lemma alone_key: "enrolled_alone W D m \<Longrightarrow> mandate_public_key m = public_key_of (wd_crypto W) (dr_sth_key D)"
  by (simp add: enrolled_alone_def served_def mandate_public_key_def attack_cfg_def)

definition head_entry :: "mandate \<Rightarrow> bundle_entry" where
  "head_entry m = BundleEntry (mandate_id (mandate_public_key m)) (int (length (merkle m))) (hex (root (merkle m)))"

lemma alone_bundle:
  assumes W: "sig_correct (wd_crypto W)" and a: "enrolled_alone W D m" "enrolled_alone W D' m'"
    and ne: "mandate_id (mandate_public_key m) \<noteq> mandate_id (mandate_public_key m')"
  shows "\<exists>es. make_bundle (wd_crypto W) [(mandate_public_key m, mandate_sth i m), (mandate_public_key m', mandate_sth i' m')] = Inr (bundle_commitment es, es)
    \<and> entry_for es (mandate_public_key m) = Some (head_entry m) \<and> entry_for es (mandate_public_key m') = Some (head_entry m')"
proof -
  have c: "cf_crypto (cfg m) = wd_crypto W" "cf_crypto (cfg m') = wd_crypto W" using a by (simp_all add: enrolled_alone_def served_def)
  let ?es = "sort [head_entry m, head_entry m']"
  have "make_bundle (wd_crypto W) [(mandate_public_key m, mandate_sth i m), (mandate_public_key m', mandate_sth i' m')] = Inr (bundle_commitment ?es, ?es)"
    using verify_mandate_sth [of m i] verify_mandate_sth [of m' i'] c W
    by (simp add: make_bundle_def bundle_entries_def head_entry_def Let_def)
  moreover have "entry_for ?es (mandate_public_key m) = Some (head_entry m)" "entry_for ?es (mandate_public_key m') = Some (head_entry m')"
    using ne by (auto simp: entry_for_def head_entry_def Let_def)
  ultimately show ?thesis by blast
qed

lemma alone_accepts:
  assumes W: "sound_crypto W" "trusted_tee W [hex (mock_pub (teeA W))] (teeA W)" and a: "enrolled_alone W D m" and len: "length t < 256"
    and e: "entry_for es (mandate_public_key m) = Some (head_entry m)"
    and msg: "msg_counter msg = 0" "msg_post_link msg = hex (link_at t (wd_tik W) e 0)"
      "msg_evidence msg = mock_report (wd_crypto W) (teeA W) rnd (report_data_for (link_at t (wd_tik W) e 0) (Some (bundle_commitment es)))"
  shows "\<exists>w m'. present i m (wd_tik W) t e msg (Some (bundle_commitment es)) (Some es) = (Inr (True, w), m') \<and> cfg m' = cfg m"
proof -
  let ?h = "Some (bundle_commitment es)"
  have s: "served W [hex (mock_pub (teeA W))] (attack_cfg W D [hex (mock_pub (teeA W))] False) (anchor_of (teeA W)) m" "sessions m = Map.empty"
    "knows_head m (root (merkle m))" using a unfolding enrolled_alone_def by blast+
  have "chain_state m (wd_tik W) t e (anchor_of (teeA W)) 0" by (rule served_chain [OF s(1)]) (simp add: s(2))
  then obtain r where r: "mandate_rec m (hex (wd_tik W)) = Inr r" "\<not> revoked r" "ledger_admits (cfg m) r (Some (anchor_of (teeA W)))"
    by (auto simp: chain_state_def)
  have h: "head_check m (hex (wd_tik W)) ?h (Some es) = Inr None"
    using e s(3) by (simp add: head_check_def verify_bundle_def) (simp add: head_entry_def)
  have v: "verify_report (cfg m) (msg_evidence msg) (report_data_for (link_at t (wd_tik W) e 0) ?h) = Inr (True, Some (anchor_of (teeA W)))"
    using tee_verifies [OF W] s(1) msg(3) by (simp add: served_def)
  have adm: "admits m (wd_tik W) t e msg ?h (Some es) r (link_at t (wd_tik W) e 0) (Some (anchor_of (teeA W)))"
    using r h v msg(1,2) s(2) len by (simp add: admits_def chain_base_def intra_link_Inr post_link_Inr len_simps)
  obtain m' where "present i m (wd_tik W) t e msg ?h (Some es) = (Inr (True, ''accepted; continuity intact''), m')"
    "step_done m (wd_tik W) t (msg_counter msg) (link_at t (wd_tik W) e 0) r (Some (anchor_of (teeA W))) m'"
    by (rule present_admits [OF adm, of i])
  then show ?thesis unfolding step_done_def by blast
qed

lemma alone_diverges:
  assumes W: "sig_correct (wd_crypto W)" and a: "enrolled_alone W D m" and c: "cfg mA = cfg m"
    and e: "entry_for es (mandate_public_key m) = Some (head_entry m)"
    and h: "\<not> history_collision (wd_tik W) (local_entry W D) (dr_now D 1)"
  shows "\<exists>w. local_divergence W D es mA = Inr (True, w)"
proof -
  let ?m = "rewritten (dr_now D 1) (wd_tik W) mA"
  have l: "merkle m = [local_entry W D]" using a by (simp add: enrolled_alone_def)
  then have "root (merkle m) \<noteq> root (merkle ?m)"
    using rewritten_forgets [of "wd_tik W" "anchor_of (teeA W)" "dr_ins D 0" "dr_now D 1" mA] h by (simp add: local_entry_def root_one)
  moreover have m: "cfg ?m = cfg m" "length (merkle ?m) = 1" using c by (simp_all add: rewritten_def Let_def)
  moreover have "mandate_public_key ?m = mandate_public_key m" "mandate_public_key mA = mandate_public_key m"
    using m(1) c by (simp_all add: mandate_public_key_def)
  moreover have "cf_crypto (cfg m) = wd_crypto W" using a by (simp add: enrolled_alone_def served_def)
  ultimately show ?thesis
    using verify_mandate_sth [of ?m "dr_ins D 2"] W e l by (simp add: local_divergence_def divergence_def Let_def head_entry_def)
qed

lemma local_federation_says:
  assumes F: "fair_world W" "on_time D" "on_time D'" and len: "length (fst s) < 256"
    and ne: "mandate_id (public_key_of (wd_crypto W) (dr_sth_key D)) \<noteq> mandate_id (public_key_of (wd_crypto W) (dr_sth_key D'))"
  shows "(\<exists>v. local_federation W D D' s = Inr v \<and> map fst v = [True, True, True])
    \<or> history_collision (wd_tik W) (local_entry W D) (dr_now D 1)"
proof (rule disjCI)
  assume no: "\<not> history_collision (wd_tik W) (local_entry W D) (dr_now D 1)"
  note T = trusted_both [OF F(1)]
  have W: "sig_correct (wd_crypto W)" "trusted_tee W [hex (mock_pub (teeA W))] (teeA W)"
    using T(1,3) by (simp_all add: sound_crypto_def trusted_tee_def)
  obtain w m where m: "enrol_on W D 0 (teeA W) None (one_mandate W D) = (Inr (True, w), m)" "enrolled_alone W D m" using one_enrols [OF F(1,2)] by blast
  obtain w' m' where m': "enrol_on W D' 0 (teeA W) None (one_mandate W D') = (Inr (True, w'), m')" "enrolled_alone W D' m'"
    using one_enrols [OF F(1,3)] by blast
  have "mandate_id (mandate_public_key m) \<noteq> mandate_id (mandate_public_key m')" using ne alone_key [OF m(2)] alone_key [OF m'(2)] by simp
  from alone_bundle [OF W(1) m(2) m'(2) this, of "dr_ins D 1" "dr_ins D' 1"] obtain es where
    b: "make_bundle (wd_crypto W) [(mandate_public_key m, mandate_sth (dr_ins D 1) m), (mandate_public_key m', mandate_sth (dr_ins D' 1) m')]
      = Inr (bundle_commitment es, es)"
      "entry_for es (mandate_public_key m) = Some (head_entry m)" "entry_for es (mandate_public_key m') = Some (head_entry m')" by blast
  let ?rd = "report_data_for (link_at (fst s) (wd_tik W) (snd s) 0) (Some (bundle_commitment es))"
  let ?msg = "\<lparr>msg_counter = int 0, msg_intra_ok_base = True, msg_post_link = hex (link_at (fst s) (wd_tik W) (snd s) 0),
     msg_evidence = mock_report (wd_crypto W) (teeA W) (dr_rnd D 1) ?rd, msg_head = map_option hex (Some (bundle_commitment es))\<rparr>"
  have a: "fst (attest (\<lambda>rd. Inr (mock_report (wd_crypto W) (teeA W) (dr_rnd D 1) rd)) (attester_new (wd_tik W)) (fst s) (snd s) (Some (bundle_commitment es)))
      = Inr ?msg"
    using attest_link [of "fst s" 0 "\<lambda>rd. Inr (mock_report (wd_crypto W) (teeA W) (dr_rnd D 1) rd)" "wd_tik W" "snd s" "Some (bundle_commitment es)"] len
    by (simp add: attester_new_at [of _ "fst s" "snd s"])
  have msg: "msg_counter ?msg = 0" "msg_post_link ?msg = hex (link_at (fst s) (wd_tik W) (snd s) 0)"
    "msg_evidence ?msg = mock_report (wd_crypto W) (teeA W) (dr_rnd D 1) ?rd" by simp_all
  obtain x mA where A: "present (dr_ins D 1) m (wd_tik W) (fst s) (snd s) ?msg (Some (bundle_commitment es)) (Some es) = (Inr (True, x), mA)" "cfg mA = cfg m"
    using alone_accepts [OF T(3) W(2) m(2) len b(2) msg, of "dr_ins D 1"] by blast
  obtain y mB where B: "present (dr_ins D' 1) m' (wd_tik W) (fst s) (snd s) ?msg (Some (bundle_commitment es)) (Some es) = (Inr (True, y), mB)"
    using alone_accepts [OF T(3) W(2) m'(2) len b(3) msg, of "dr_ins D' 1"] by blast
  obtain z where "local_divergence W D es mA = Inr (True, z)" using alone_diverges [OF W(1) m(2) A(2) b(2)] no m(2) by blast
  with m(1) m'(1) b(1) a A(1) B show "\<exists>v. local_federation W D D' s = Inr v \<and> map fst v = [True, True, True]"
    by (simp add: local_federation_def)
qed

section \<open>The whole run\<close>

definition fair_local :: "world \<Rightarrow> (nat \<Rightarrow> draws) \<Rightarrow> (nat \<Rightarrow> bytes \<times> bytes) \<Rightarrow> bool" where
  "fair_local W Ds S \<longleftrightarrow> fair_world W \<and> (\<forall>k. on_time (Ds k)) \<and> (\<forall>k. length (fst (S k)) < 256)
     \<and> session_key (fst (S 1)) \<noteq> session_key (fst (S 0)) \<and> session_key (fst (S 3)) \<noteq> session_key (fst (S 2))
     \<and> length (snd (S 4)) = length (dr_e2 (Ds 4)) \<and> length (dr_e2 (Ds 4)) \<le> 128 \<and> snd (S 4) \<noteq> dr_e2 (Ds 4)
     \<and> (let D = Ds 7 in any_set (fst (dr_z1 D)) \<and> any_set (fst (dr_z2 D)) \<and> fst (dr_z1 D) \<noteq> fst (dr_z2 D)) \<and> timely (Ds 10)
     \<and> mandate_id (public_key_of (wd_crypto W) (dr_sth_key (Ds 11))) \<noteq> mandate_id (public_key_of (wd_crypto W) (dr_sth_key (Ds 12)))"

text \<open>
  The verdicts by the number of the scenario; 1 and 2 are one call, and so are 8 and 9. The enrolment of 7 is accepted: its
  TEEs have an all-zero chip and an instance identifier all the same.
\<close>

definition local_verdicts :: "(nat \<times> bool list) list" where
  "local_verdicts = [(1, [True, True, True]), (2, [True]), (3, [True]), (4, [False]), (5, [True, False, True]), (6, [False]),
     (7, [True, False, True]), (8, [False, True]), (9, [False]), (10, [True, False, True, True, False, False]), (11, [True, True, True])]"

lemma local_main_says:
  assumes F: "fair_local W Ds S"
  shows "(\<exists>v lg. local_main W Ds S = Inr (v, lg) \<and> map fst v = concat (map snd local_verdicts))
    \<or> (let l = link_at (fst (S 4)) (wd_tik W) (snd (S 4)) 0 in link_collision (snd (S 4), l, 1) (dr_e2 (Ds 4), l, 1))
    \<or> history_collision (wd_tik W) (local_entry W (Ds 11)) (dr_now (Ds 11) 1)"
proof (rule disjCI)
  assume "\<not> ((let l = link_at (fst (S 4)) (wd_tik W) (snd (S 4)) 0 in link_collision (snd (S 4), l, 1) (dr_e2 (Ds 4), l, 1))
    \<or> history_collision (wd_tik W) (local_entry W (Ds 11)) (dr_now (Ds 11) 1))"
  then have no: "\<not> link_collision (snd (S 4), link_at (fst (S 4)) (wd_tik W) (snd (S 4)) 0, 1) (dr_e2 (Ds 4), link_at (fst (S 4)) (wd_tik W) (snd (S 4)) 0, 1)"
    "\<not> history_collision (wd_tik W) (local_entry W (Ds 11)) (dr_now (Ds 11) 1)" by (simp_all add: Let_def)
  have W: "fair_world W" and t: "\<And>k. on_time (Ds k)" and len: "\<And>k. length (fst (S k)) < 256"
    and k: "session_key (fst (S 1)) \<noteq> session_key (fst (S 0))" "session_key (fst (S 3)) \<noteq> session_key (fst (S 2))"
    and e: "length (snd (S 4)) = length (dr_e2 (Ds 4))" "length (dr_e2 (Ds 4)) \<le> 128" "snd (S 4) \<noteq> dr_e2 (Ds 4)"
    and z: "any_set (fst (dr_z1 (Ds 7)))" "any_set (fst (dr_z2 (Ds 7)))" "fst (dr_z1 (Ds 7)) \<noteq> fst (dr_z2 (Ds 7))" and tm: "timely (Ds 10)"
    and ids: "mandate_id (public_key_of (wd_crypto W) (dr_sth_key (Ds 11))) \<noteq> mandate_id (public_key_of (wd_crypto W) (dr_sth_key (Ds 12)))"
    using F unfolding fair_local_def Let_def by - ((elim conjE, (assumption | erule spec))+)
  obtain v1 where 1: "local_honest W (Ds 1) (S 0) (S 1) = Inr v1" "map fst v1 = [True, True, True, True]"
    using local_honest_says [OF W t [of 1] len len k(1)] by (elim exE conjE) (rule that)
  obtain v3 where 3: "local_parallel W (Ds 3) (S 2) (S 3) = Inr v3" "map fst v3 = [True]" using local_parallel_says [OF W t [of 3] len len k(2)] by (elim exE conjE) (rule that)
  obtain v4 where 4: "local_relay W (Ds 4) (S 4) (dr_e2 (Ds 4)) = Inr v4" "map fst v4 = [False]" using local_relay_says [OF W t [of 4] len e no(1)] by (elim exE conjE) (rule that)
  obtain v5 where 5: "local_rehost W (Ds 5) (S 5) (S 6) = Inr v5" "map fst v5 = [True, False, True]" using local_rehost_says [OF W t [of 5] len [of 5] len [of 6]] by (elim exE conjE) (rule that)
  obtain v6 where 6: "local_replay W (Ds 6) (S 7) = Inr v6" "map fst v6 = [False]" using local_replay_says [OF W t [of 6] len [of 7]] by (elim exE conjE) (rule that)
  obtain v7 where 7: "local_masked W (Ds 7) (S 8) (S 9) = Inr v7" "map fst v7 = [True, False, True]" using local_masked_says [OF W t [of 7] len [of 8] len [of 9] z] by (elim exE conjE) (rule that)
  obtain v8 where 8: "local_prevention W (Ds 8) (S 10) (S 11) = Inr v8" "map fst v8 = [False, True, False]" using local_prevention_says [OF W t [of 8] len [of 10] len [of 11]] by (elim exE conjE) (rule that)
  obtain v10 lg where 10: "local_recovery W (Ds 10) (S 12) (S 13) (S 14) = Inr (v10, lg)" "map fst v10 = [True, False, True, True, False, False]"
    using local_recovery_says [OF W t [of 10] tm len [of 12] len [of 13] len [of 14]] by (elim exE conjE) (rule that)
  obtain v11 where 11: "local_federation W (Ds 11) (Ds 12) (S 15) = Inr v11" "map fst v11 = [True, True, True]"
    using local_federation_says [OF W t [of 11] t [of 12] len [of 15] ids] no(2) by (elim disjE exE conjE) (rule that, assumption+, blast)
  have "local_main W Ds S = Inr (v1 @ v3 @ v4 @ v5 @ v6 @ v7 @ v8 @ v10 @ v11, lg)"
    unfolding local_main_def 1(1) 3(1) 4(1) 5(1) 6(1) 7(1) 8(1) 10(1) 11(1) by simp
  moreover have "map fst (v1 @ v3 @ v4 @ v5 @ v6 @ v7 @ v8 @ v10 @ v11) = concat (map snd local_verdicts)"
    using 1(2) 3(2) 4(2) 5(2) 6(2) 7(2) 8(2) 10(2) 11(2) by (simp add: local_verdicts_def)
  ultimately show "\<exists>v lg. local_main W Ds S = Inr (v, lg) \<and> map fst v = concat (map snd local_verdicts)" by blast
qed

end
