(* ===== verification/Sample_Guests.thy ===== *)
theory Sample_Guests
  imports Hw_Proofs Sample_Machines
begin

text \<open>
  Guests with devices that return well-formed SEV-SNP reports, the connections to them, and the libraries of the runs of
  \<open>Hw_Runs\<close> over them: the hypotheses of the theorems on those runs hold of them.
\<close>

section \<open>The verifier\<close>

definition rid_anchor :: "bytes \<Rightarrow> anchor" where
  "rid_anchor rid = \<lparr>anchor_instance = rid, anchor_place = None\<rparr>"

lemma sample_snp_verifies:
  assumes "length rid = 32" "length rd = 64" "any_set rid"
  shows "sample_snp_verifier (snp_evidence (snp_bytes rid rd) rd) rd = Inr (True, Some (rid_anchor rid))"
    "sample_snp_verifier (static_evidence (JStr (b64encode (snp_bytes rid rd)))) rd = Inr (True, Some (rid_anchor rid))"
proof -
  obtain f where f: "parse_snp (snp_bytes rid rd) = Inr f" "snp_report_data f = rd" "snp_policy f = 0"
      "snp_signing_key f = SkName ''VCEK''" "snp_anchor f = Some \<lparr>anchor_instance = rid, anchor_place = None\<rparr>"
    using snp_bytes_fields(2) [OF assms] by blast
  have "[0..<6] = [0, 1, 2, 3, 4, 5::nat]" by (simp add: upt_rec)
  then have leaf: "fst (leaf_cert sample_x509 (\<lambda>u n. HttpBody []) Map.empty f None) = Inr []"
    using f(4) by (simp add: leaf_cert_def Let_def kds_get_def split: prod.split) (simp add: sample_x509_def)
  obtain c1 where l: "leaf_cert sample_x509 (\<lambda>u n. HttpBody []) Map.empty f None = (Inr [], c1)"
    using leaf by (cases "leaf_cert sample_x509 (\<lambda>u n. HttpBody []) Map.empty f None") auto
  have v: "x_verify_rs sample_x509 d r s b = Inr ()" for d r s b by (simp add: sample_x509_def)
  show "sample_snp_verifier (snp_evidence (snp_bytes rid rd) rd) rd = Inr (True, Some (rid_anchor rid))"
    "sample_snp_verifier (static_evidence (JStr (b64encode (snp_bytes rid rd)))) rd = Inr (True, Some (rid_anchor rid))"
    using f l v by (simp_all add: sample_snp_verifier_def sevsnp_verifier_def snp_evidence_def static_evidence_def dget_def dindex_def
        b64decode_encode snp_signature_ok_def supplied_pem_of_def Let_def rid_anchor_def)
qed

section \<open>The guests and the connections to them\<close>

definition snp_guest :: "string \<Rightarrow> nat probe" where
  "snp_guest n = sample_guest\<lparr>pb_device := (\<lambda>i rd. Inr (0, 1184, snp_bytes (rid_of n) rd))\<rparr>"

text \<open>A guest's session with these two values; most use the same.\<close>

definition snp_visit_at :: "bytes \<Rightarrow> bytes \<Rightarrow> string \<Rightarrow> bytes option \<Rightarrow> nat visit" where
  "snp_visit_at sc ex n head = \<lparr>vs_probe = snp_guest n, vs_exporter = ex, vs_sctx = sc,
     vs_report = (\<lambda>c. snp_bytes (rid_of n) (report_data_for (link_at sc [2] ex c) head))\<rparr>"

abbreviation snp_visit :: "string \<Rightarrow> bytes option \<Rightarrow> nat visit" where
  "snp_visit \<equiv> snp_visit_at [5] [9]"

definition conn_at :: "bytes \<Rightarrow> bytes \<Rightarrow> json \<Rightarrow> bytes tls_conn" where
  "conn_at sc ex reply = conn_with sc ex (be_bytes 4 (int (length (dumps_bytes reply))) @ dumps_bytes reply)"

abbreviation conn_to :: "json \<Rightarrow> bytes tls_conn" where
  "conn_to \<equiv> conn_at [5] [9]"

definition sample_hw :: hw_world where
  "sample_hw = \<lparr>hw_crypto = sample_crypto, hw_verify = sample_snp_verifier, hw_sth_key = (\<lambda>k. [of_nat k]), hw_now = (\<lambda>j. 0),
     hw_nonce = (\<lambda>j. [8]), hw_ins = (\<lambda>j. sample_inputs), hw_owner = [4], hw_grant_rnd = [], hw_grant_now = 10, hw_grant_nonce = [1],
     hw_random = [7], hw_rewrite_at = 10\<rparr>"

lemma sample_hw_sel [simp]:
  "hw_crypto sample_hw = sample_crypto" "hw_verify sample_hw = sample_snp_verifier" "hw_now sample_hw j = 0" "hw_nonce sample_hw j = [8]"
  "hw_ins sample_hw j = sample_inputs" "hw_sth_key sample_hw k = [of_nat k]"
  by (simp_all add: sample_hw_def)

lemma snp_guest_sel [simp]:
  "pb_tik_pub (snp_guest n) = [2]" "pb_csr (snp_guest n) = Inr [2]" "pb_instance (snp_guest n) = ''vm''" "pb_zone (snp_guest n) = ''zone''"
  "pb_gen_ms (snp_guest n) c = JInt 5" "pb_device (snp_guest n) i rd = Inr (0, 1184, snp_bytes (rid_of n) rd)"
  by (simp_all add: snp_guest_def sample_guest_def)

lemma snp_visit_sel [simp]:
  "vs_probe (snp_visit_at sc ex n h) = snp_guest n" "vs_exporter (snp_visit_at sc ex n h) = ex" "vs_sctx (snp_visit_at sc ex n h) = sc"
  "vs_report (snp_visit_at sc ex n h) c = snp_bytes (rid_of n) (report_data_for (link_at sc [2] ex c) h)"
  "visit_link (snp_visit_at sc ex n h) = link_at sc [2] ex 0"
  by (simp_all add: snp_visit_at_def visit_link_def)

lemma snp_guest_report: "length rd = 64 \<Longrightarrow> snp_report (snp_guest n) i rd = Inr (snp_bytes (rid_of n) rd)"
  by (simp add: snp_report_def snp_bytes_fields(1) [OF rid_of_facts(1) _ rid_of_facts(2)])

lemma conn_to_session: "same_session (conn_to r) (snp_guest n) [9] [5]"
  by (simp add: same_session_def conn_at_def conn_with_values)

lemma conn_at_answers:
  assumes "wf_json reply" "length (dumps_bytes reply) < 2 ^ 32"
  shows "answered_at (conn_at sc ex reply) ip port req reply"
proof -
  have "client_enter (conn_at sc ex reply) (client_new ip port None None) = Inr []"
    by (simp add: client_enter_def client_context_def client_new_def) (simp add: conn_at_def conn_with_def)
  moreover have "tc_sendall (conn_at sc ex reply) [] d = (Inr (), be_bytes 4 (int (length (dumps_bytes reply))) @ dumps_bytes reply)" for d
    by (simp add: conn_at_def conn_with_def)
  moreover have "delivers (conn_at sc ex reply) id" unfolding conn_at_def by (rule conn_with_delivers)
  ultimately show ?thesis unfolding answered_at_def using frame_Inr [OF assms(2)] assms(1)
    by (metis append_Nil2 id_apply)
qed

text \<open>Their replies are short.\<close>

lemma emit_bound: "length (dumps_bytes j) \<le> jbound j"
  using length_emit(1) [of default_seps j] by (simp add: dumps_bytes_lit len_simps default_seps_def)

lemma b64_report: "length rd = 64 \<Longrightarrow> length (b64encode (snp_bytes (rid_of n) rd)) \<le> 2372"
  using length_b64encode [of "snp_bytes (rid_of n) rd"] snp_bytes_fields(1) [OF rid_of_facts(1) _ rid_of_facts(2)] by simp

lemma visit_short:
  assumes "n \<le> 3" "\<forall>h. head = Some h \<longrightarrow> length h = 32"
  shows "length (dumps_bytes (visit_reply (snp_visit_at sc ex g head) n head)) < 2 ^ 32"
proof -
  let ?V = "snp_visit_at sc ex g head"
  have item: "jbound (visit_item ?V c) \<le> 16000" if "c < 3" for c
  proof -
    have "length (link_at sc [2] ex c) = 32" "length (report_data_for (link_at sc [2] ex c) head) = 64" by (simp_all add: len_simps)
    moreover have "c = 0 \<or> c = 1 \<or> c = 2" using that by auto
    then have "length (dec_int (int c)) = 1" "length (dec_int 5) = 1" by (auto simp: dec_int_def dec_nat.simps)
    ultimately show ?thesis using b64_report [of "report_data_for (link_at sc [2] ex c) head" g]
      by (simp add: visit_item_def chain_item_def len_simps)
  qed
  have "sum_list (map (\<lambda>c. jbound (visit_item ?V c) + 2) [0..<n]) \<le> sum_list (map (\<lambda>c. 16002) [0..<n])"
    by (rule sum_list_mono) (use item assms(1) in auto)
  moreover have "jbound (jopt (map_option hex head)) \<le> 400"
    using assms(2) by (cases head) (auto simp: len_simps)
  ultimately have "jbound (visit_reply ?V n head) \<le> 1000 + n * 16002"
    by (simp add: visit_reply_def chain_reply_def comp_def sum_list_triv)
  then show ?thesis using emit_bound [of "visit_reply ?V n head"] assms(1) by simp
qed

lemma snp_presents:
  assumes "0 < n" "n \<le> 2" "\<forall>h. head = Some h \<longrightarrow> length h = 32"
  shows "presents_as sample_hw (conn_to (visit_reply (snp_visit g head) n head)) ip [2] (snp_visit g head) n head (rid_anchor (rid_of g))"
proof -
  have len: "length (report_data_for (link_at [5] [2] [9] c) head) = 64" for c by (simp add: len_simps)
  have wf: "wf_json (visit_reply (snp_visit g head) n head)"
    unfolding visit_reply_def visit_item_def by (rule wf_chain_reply) simp
  have "\<exists>f. parse_snp (vs_report (snp_visit g head) 0) = Inr f \<and> snp_anchor f = Some (rid_anchor (rid_of g))
      \<and> snp_report_data f = report_data_for (visit_link (snp_visit g head)) head"
    using snp_bytes_fields(2) [OF rid_of_facts(1) len [of 0] rid_of_facts(2), of g] by (auto simp: rid_anchor_def)
  moreover have "genuine_step sample_hw [2] [5] [9] head (vs_report (snp_visit g head) 0) (rid_anchor (rid_of g))"
    using sample_snp_verifies(1) [OF rid_of_facts(1) len [of 0] rid_of_facts(2), of g] unfolding genuine_step_def Let_def by simp
  moreover have "item_report (snp_guest g) [5] [9] head c = Inr (vs_report (snp_visit g head) c)" for c
    using snp_guest_report [OF len [of c], of g c] unfolding item_report_def by simp
  moreover have "answered (conn_to (visit_reply (snp_visit g head) n head)) ip (hw_steps_request (int n) head) (visit_reply (snp_visit g head) n head)"
    using conn_at_answers [OF wf visit_short [OF _ assms(3)]] assms(2) by simp
  ultimately show ?thesis using assms(1) conn_to_session unfolding presents_as_def by simp
qed

definition enrol_conn :: "string \<Rightarrow> bytes tls_conn" where
  "enrol_conn g = conn_to (enroll_reply (snp_guest g) [2] (snp_bytes (rid_of g) (sha512 ([8] @ [2]))))"

lemma snp_enrols: "enrols_as sample_hw j (enrol_conn g) ip (snp_guest g) (rid_anchor (rid_of g))"
proof -
  let ?rd = "sha512 ([8] @ [2])" and ?rep = "snp_bytes (rid_of g) (sha512 ([8] @ [2]))"
  have len: "length ?rd = 64" by (simp add: len_simps)
  have "jbound (enroll_reply (snp_guest g) [2] ?rep) \<le> 20000"
    using b64_report [OF len, of g] by (simp add: enroll_reply_def len_simps)
  then have "length (dumps_bytes (enroll_reply (snp_guest g) [2] ?rep)) < 2 ^ 32"
    using emit_bound [of "enroll_reply (snp_guest g) [2] ?rep"] by simp
  then have ans: "answered (enrol_conn g) ip (hw_enrol_request (hw_nonce sample_hw j)) (enroll_reply (snp_guest g) [2] ?rep)"
    unfolding enrol_conn_def by (rule conn_at_answers [rotated]) (simp add: enroll_reply_def)
  obtain f where f: "parse_snp ?rep = Inr f" "snp_anchor f = Some (rid_anchor (rid_of g))"
    using snp_bytes_fields(2) [OF rid_of_facts(1) len rid_of_facts(2)] by (auto simp: rid_anchor_def)
  have load: "load_csr (hw_crypto sample_hw) [2] = Inr (True, pb_tik_pub (snp_guest g))" by (simp add: sample_crypto_def)
  have ses: "same_session (enrol_conn g) (snp_guest g) [9] [5]" unfolding enrol_conn_def by (rule conn_to_session)
  show ?thesis
    using load ses ans f snp_guest_report [OF len, of g 0] sample_snp_verifies(1) [OF rid_of_facts(1) len rid_of_facts(2)]
    unfolding enrols_as_def Let_def by (intro exI [of _ "[2]"] exI [of _ ?rep] exI [of _ f] exI [of _ "[9]"] exI [of _ "[5]"]) simp
qed

lemma rids_differ: "anchor_instance (rid_anchor (rid_of ''b'')) \<noteq> anchor_instance (rid_anchor (rid_of ''a''))"
  using rid_of_facts(3) by (simp add: rid_anchor_def)

section \<open>A static session\<close>

text \<open>The state: what the library has to write, what it has to read, and whether the peer's flight has arrived.\<close>

type_synonym ssl_state = "bytes list \<times> bytes \<times> bool"

definition static_ops :: "ssl_state ssl_ops" where
  "static_ops = \<lparr>ssl_bio_read = (\<lambda>(out, p, h) n. (case out of [] \<Rightarrow> (WantRead, (out, p, h)) | d # r \<Rightarrow> (Done d, (r, p, h)))),
     ssl_bio_write = (\<lambda>(out, p, h) d. (Inr (), (out, p, True))),
     ssl_do_handshake = (\<lambda>(out, p, h). (if h then Done () else WantRead, (out, p, h))),
     ssl_recv = (\<lambda>(out, p, h) n. (Done (take n p), (out, drop n p, h))),
     ssl_sendall = (\<lambda>c d. (Inr (), c)), ssl_shutdown = (\<lambda>c. (Inr (), c))\<rparr>"

definition static_hello :: "byte \<Rightarrow> bytes" where
  "static_hello t = hs_message t (zeros 40)"

definition static_binder_of :: bytes where
  "static_binder_of = (case draft_binder (static_hello 1) (static_hello 2) [2] SHA384 of Inl x \<Rightarrow> [] | Inr b \<Rightarrow> b)"

definition static_rd :: bytes where
  "static_rd = static_binder_of @ zeros 16"

definition static_blob :: json where
  "static_blob = (let r = snp_bytes (rid_of ''a'') static_rd in static_reply (snp_guest ''a'') static_binder_of r r [(''transcript_sha256'', JStr [])])"

definition static_sess :: draft_session where
  "static_sess = \<lparr>ds_blob = static_blob, ds_binder = static_binder_of, ds_ch = static_hello 1, ds_sh = static_hello 2, ds_suite = ''TLS_AES_256_GCM_SHA384''\<rparr>"

definition static_conn_of :: "ssl_state static_conn" where
  "static_conn_of = \<lparr>sc_ops = static_ops, sc_cipher = (\<lambda>c. ''TLS_AES_256_GCM_SHA384''), sc_peer_spki = (\<lambda>c. Inr [2])\<rparr>"

definition static_start :: ssl_state where
  "static_start = ([tls_record 0x16 (3, 3) (static_hello 1)], be_bytes 4 (int (length (dumps_bytes static_blob))) @ dumps_bytes static_blob, False)"

definition static_wire :: wire where
  "static_wire = \<lparr>wr_in = [tls_record 0x16 (3, 3) (static_hello 2)], wr_out = [], wr_broken = False\<rparr>"

lemma static_binder_ok:
  "draft_binder (static_hello 1) (static_hello 2) [2] SHA384 = Inr static_binder_of" "length static_binder_of = 48"
  "binder_report_data static_binder_of = Inr static_rd" "length static_rd = 64"
  using h384.draft_binder_ok [of "static_hello 1" "static_hello 2" "[2]"]
  by (auto simp: static_binder_of_def binder_report_data_def static_rd_def len_simps)

lemma static_transcript:
  "transcript_ch_sh (tls_record 0x16 (3, 3) (static_hello 1)) (tls_record 0x16 (3, 3) (static_hello 2)) = Inr (static_hello 1, static_hello 2)"
proof -
  have l: "length (zeros 40) < 2 ^ 24" "length (static_hello t) < 65536" for t by (simp_all add: static_hello_def hs_message_def len_simps)
  have f: "first_handshake_message (tls_record 0x16 (3, 3) (static_hello t)) t = Some (static_hello t)" for t
    using first_message_fragments [of "[static_hello t]" t "zeros 40" "[]" "[]" "(3, 3)" "[]" t] l by (simp add: static_hello_def)
  have "slice 6 38 (static_hello 2) \<noteq> HRR_RANDOM"
    by (simp add: static_hello_def hs_message_def slice_def HRR_RANDOM_def be_bytes_def zeros_def numeral_eq_Suc)
  then show ?thesis using f by (simp add: transcript_ch_sh_def)
qed

lemma static_blob_facts: "wf_json static_blob" "length (dumps_bytes static_blob) < 2 ^ 32"
proof -
  show "wf_json static_blob" by (simp add: static_blob_def static_reply_def Let_def)
  have "jbound static_blob \<le> 50000"
    using b64_report [OF static_binder_ok(4), of "''a''"] static_binder_ok(2)
    by (simp add: static_blob_def static_reply_def Let_def len_simps dec_int_def dec_nat.simps)
  then show "length (dumps_bytes static_blob) < 2 ^ 32" using emit_bound [of static_blob] by simp
qed

lemma static_ops_sel [simp]:
  "ssl_bio_read static_ops ([], p, h) n = (WantRead, ([], p, h))" "ssl_bio_read static_ops (d # r, p, h) n = (Done d, (r, p, h))"
  "ssl_bio_write static_ops (out, p, h) d = (Inr (), (out, p, True))"
  "ssl_do_handshake static_ops (out, p, h) = (if h then Done () else WantRead, (out, p, h))"
  "ssl_recv static_ops (out, p, h) n = (Done (take n p), (out, drop n p, h))"
  "ssl_sendall static_ops c d = (Inr (), c)" "ssl_shutdown static_ops c = (Inr (), c)"
  by (simp_all add: static_ops_def)

definition static_bio :: "bytes \<Rightarrow> bool \<Rightarrow> ssl_state bio" where
  "static_bio p rec = \<lparr>bio_conn = ([], p, True), bio_sock = \<lparr>wr_in = [], wr_out = tls_record 0x16 (3, 3) (static_hello 1), wr_broken = False\<rparr>,
     bio_sent = tls_record 0x16 (3, 3) (static_hello 1), bio_received = tls_record 0x16 (3, 3) (static_hello 2), bio_recording = rec\<rparr>"

lemma static_flush: "bio_flush static_ops (static_bio p rec) = Some (Inr (), static_bio p rec)"
  by (simp add: bio_flush.simps static_bio_def)

lemma static_handshake:
  "bio_handshake static_ops (bio_new static_start static_wire)
    = Some (Inr (), static_bio (be_bytes 4 (int (length (dumps_bytes static_blob))) @ dumps_bytes static_blob) False)"
proof -
  let ?p = "be_bytes 4 (int (length (dumps_bytes static_blob))) @ dumps_bytes static_blob"
  have ne: "tls_record 0x16 (3, 3) (static_hello 2) \<noteq> []" by (simp add: tls_record_def)
  have "bio_turn static_ops (bio_new static_start static_wire) = Some (Inr (), static_bio ?p True)"
    using ne by (simp add: bio_turn_def bio_new_def static_start_def static_wire_def bio_flush.simps sock_sendall_def)
      (simp add: bio_feed_def sock_recv_def static_bio_def)
  moreover have "bio_handshake static_ops (static_bio ?p True) = Some (Inr (), static_bio ?p False)"
    using static_flush [of ?p True] by (simp add: bio_handshake.simps [of static_ops "static_bio ?p True"]) (simp add: static_bio_def)
  ultimately show ?thesis
    by (simp add: bio_handshake.simps [of static_ops "bio_new static_start static_wire"]) (simp add: static_start_def bio_new_def)
qed

lemma static_recv:
  assumes "0 < n" "n \<le> length p"
  shows "bio_recv_exact static_ops (static_bio p rec) n = Some (Inr (take n p), static_bio (drop n p) rec)"
proof -
  have "bio_recv static_ops (static_bio p rec) n = Some (Inr (take n p), static_bio (drop n p) rec)"
    using static_flush [of "drop n p" rec] by (simp add: bio_recv.simps) (simp add: static_bio_def)
  moreover have "take n p \<noteq> []" using assms by auto
  ultimately show ?thesis using assms
    by (simp add: bio_recv_exact_def recv_exact_loop.simps [of _ _ _ "[]"]) (simp add: recv_exact_loop.simps)
qed

lemma static_session_returns:
  "\<exists>b. draft_binder_session static_conn_of static_start static_wire 2 = Some (Inr static_sess, b)"
proof -
  let ?b = "dumps_bytes static_blob"
  let ?p = "be_bytes 4 (int (length ?b)) @ ?b"
  have u: "unpack_len (be_bytes 4 (int (length ?b))) = length ?b" using unpack_pack [OF static_blob_facts(2)] .
  have l4: "length (be_bytes 4 (int (length ?b))) = 4" by (simp add: len_simps)
  have ne: "0 < length ?b" by (simp add: dumps_bytes_lit static_blob_def static_reply_def Let_def len_simps default_seps_def)
  have r1: "bio_recv_exact static_ops (static_bio ?p False) 4 = Some (Inr (be_bytes 4 (int (length ?b))), static_bio ?b False)"
    using static_recv [of 4 ?p False] l4 by simp
  have r2: "bio_recv_exact static_ops (static_bio ?b False) (length ?b) = Some (Inr ?b, static_bio [] False)"
    using static_recv [OF ne order_refl, of False] by simp
  have s: "bio_sendall static_ops (static_bio ?p False) d = Some (Inr (), static_bio ?p False)" for d
    using static_flush [of ?p False] by (simp add: bio_sendall_def)
  have d: "draft_of static_conn_of (static_bio [] False) static_blob = Inr static_sess"
    using static_transcript static_binder_ok(1)
    by (simp add: draft_of_def static_conn_of_def static_bio_def suite_hash_def ends_with_def static_sess_def)
  have "\<exists>b. bio_shutdown static_ops (static_bio [] False) = Some b"
    using static_flush [of "[]" False] by (simp add: bio_shutdown_def)
  then obtain b where sh: "bio_shutdown static_ops (static_bio [] False) = Some b" by blast
  have ops: "sc_ops static_conn_of = static_ops" by (simp add: static_conn_of_def)
  show ?thesis
    by (simp add: draft_binder_session_def ops static_handshake s r1 u r2 loads_dumps_bytes [OF static_blob_facts(1)] d sh)
qed

lemma static_guest_ok: "static_guest sample_hw (snp_guest ''a'') static_sess"
proof -
  have "sample_snp_verifier (static_evidence (JStr (b64encode (snp_bytes (rid_of ''a'') static_rd)))) static_rd = Inr (True, Some (rid_anchor (rid_of ''a'')))"
    by (rule sample_snp_verifies(2) [OF rid_of_facts(1) static_binder_ok(4) rid_of_facts(2)])
  moreover have "\<exists>extra. ds_blob static_sess = static_reply (snp_guest ''a'') (ds_binder static_sess) (snp_bytes (rid_of ''a'') static_rd)
      (snp_bytes (rid_of ''a'') static_rd) extra \<and> map_of extra ''transcript_sha256'' \<noteq> None"
    by (intro exI [of _ "[(''transcript_sha256'', JStr [])]"]) (simp add: static_sess_def static_blob_def Let_def)
  moreover have "ds_binder static_sess = static_binder_of" by (simp add: static_sess_def)
  ultimately show ?thesis unfolding static_guest_def
    using static_binder_ok(3) snp_guest_report [OF static_binder_ok(4)] by auto
qed

lemma snp_chain_visit:
  "chain_visit sample_hw (conn_to (visit_reply (snp_visit ''a'' None) 2 None)) ip [2] (snp_visit ''a'' None) (rid_anchor (rid_of ''a''))"
proof -
  have len: "length (report_data_for (link_at [5] [2] [9] 1) None) = 64" by (simp add: len_simps)
  have "sample_snp_verifier (snp_evidence (vs_report (snp_visit ''a'' None) 1) (report_data_for (link_at [5] [2] [9] 1) None))
      (report_data_for (link_at [5] [2] [9] 1) None) = Inr (True, Some (rid_anchor (rid_of ''a'')))"
    using sample_snp_verifies(1) [OF rid_of_facts(1) len rid_of_facts(2)] by (simp del: One_nat_def)
  then show ?thesis using snp_presents [of 2 None "''a''" ip] unfolding chain_visit_def Let_def by (simp del: One_nat_def)
qed

section \<open>The connections of the runs\<close>

definition transfer_conns :: "nat \<Rightarrow> bytes tls_conn" where
  "transfer_conns j = (if j = 0 then enrol_conn ''a''
     else conn_to (visit_reply (snp_visit (if j = 3 then ''a'' else ''b'') None) 1 None))"

definition federation_conns :: "nat \<Rightarrow> bytes tls_conn" where
  "federation_conns j = (let h = bundle_commitment (fed_bundle sample_hw [2] (rid_anchor (rid_of ''a''))) in
     if j < 2 then enrol_conn ''a'' else conn_to (visit_reply (snp_visit ''a'' (Some h)) 1 (Some h)))"

text \<open>The federation run over them.\<close>

lemma sample_federation:
  "(\<exists>ms. federation_main sample_hw ''A'' federation_conns = Some (Inr (0, Some federation_verdict), ms))
    \<or> mandate_id (fed_key sample_hw 0) = mandate_id (fed_key sample_hw 1)
    \<or> history_collision [2] (enrol_entry [2] (rid_anchor (rid_of ''a'')) sample_inputs) 10"
proof -
  let ?h = "bundle_commitment (fed_bundle sample_hw [2] (rid_anchor (rid_of ''a'')))"
  have "presents_as sample_hw (conn_to (visit_reply (snp_visit ''a'' (Some ?h)) 1 (Some ?h))) ''A'' [2] (snp_visit ''a'' (Some ?h)) 1 (Some ?h)
      (rid_anchor (rid_of ''a''))"
    by (rule snp_presents) (simp_all add: bundle_commitment_def len_simps)
  moreover have "hw_rewrite_at sample_hw = 10" by (simp add: sample_hw_def)
  moreover have "hw_ins sample_hw j = sample_inputs" "t_check sample_inputs < 300" for j by (simp_all add: sample_inputs_def)
  moreover have "sig_correct (hw_crypto sample_hw)" using sample_sig_correct by simp
  ultimately show ?thesis
    using federation_main_exits_0 [of sample_hw federation_conns "''A''" "snp_guest ''a''" "rid_anchor (rid_of ''a'')" "snp_guest ''a''"
        "snp_visit ''a'' (Some ?h)"] snp_enrols
    by (cases "mandate_id (fed_key sample_hw 0) = mandate_id (fed_key sample_hw 1)") (simp_all add: federation_conns_def Let_def del: One_nat_def)
qed

end
