(* ===== verification/Sha2_Vectors.thy ===== *)
theory Sha2_Vectors
  imports Sha2
begin

text \<open>
  Known answers of FIPS 180-4 for the model of SHA-256: the empty message and \<open>abc\<close>, evaluated in the kernel, block and
  rounds apart so that each step stays small.
\<close>

definition key_quarter :: "nat \<Rightarrow> 32 word list" where
  "key_quarter i = take 16 (drop (16 * i) (round_keys p256))"

lemma rounds_append: "rounds p (xs @ ys) s = rounds p ys (rounds p xs s)"
  by (induction p xs s rule: rounds.induct) (simp_all add: Let_def)

lemma key_quarters:
  "round_keys p256 = key_quarter 0 @ key_quarter 1 @ key_quarter 2 @ key_quarter 3"
  "length (key_quarter 0) = 16" "length (key_quarter 1) = 16" "length (key_quarter 2) = 16" "length (key_quarter 3) = 16"
proof -
  have l: "length (round_keys p256) = 64" by (simp add: p256_def k512_def)
  have q: "xs = take 16 xs @ take 16 (drop 16 xs) @ take 16 (drop 32 xs) @ take 16 (drop 48 xs)"
    if "length xs = 64" for xs :: "32 word list"
    using that append_take_drop_id [of 16 xs] append_take_drop_id [of 16 "drop 16 xs"] append_take_drop_id [of 16 "drop 32 xs"] by simp
  show "round_keys p256 = key_quarter 0 @ key_quarter 1 @ key_quarter 2 @ key_quarter 3"
    using q [OF l] by (simp add: key_quarter_def)
  show "length (key_quarter 0) = 16" "length (key_quarter 1) = 16" "length (key_quarter 2) = 16" "length (key_quarter 3) = 16"
    using l by (simp_all add: key_quarter_def)
qed

text \<open>A message of one block.\<close>

lemma sha256_block:
  assumes "map (\<lambda>b. map word_of_bytes (chunks 4 b)) (chunks 64 (pad 4 m)) = [blk]"
    and "rev (schedule p256 48 (rev blk)) = w0 @ w1 @ w2 @ w3" "length w0 = 16" "length w1 = 16" "length w2 = 16"
    and "rounds p256 (zip (key_quarter 0) w0) iv256 = s0" "rounds p256 (zip (key_quarter 1) w1) s0 = s1"
    and "rounds p256 (zip (key_quarter 2) w2) s1 = s2" "rounds p256 (zip (key_quarter 3) w3) s2 = s3"
  shows "sha256 m = chain_bytes (add_chain iv256 s3)"
proof -
  have n: "length (round_keys p256) - 16 = 48" by (simp add: p256_def k512_def)
  have z: "zip (round_keys p256) (w0 @ w1 @ w2 @ w3)
      = zip (key_quarter 0) w0 @ zip (key_quarter 1) w1 @ zip (key_quarter 2) w2 @ zip (key_quarter 3) w3"
    unfolding key_quarters(1) using assms(3-5) key_quarters(2-4) by simp
  have "compress p256 iv256 blk = add_chain iv256 s3"
    unfolding compress_def n assms(2) z rounds_append assms(6-9) ..
  with assms(1) show ?thesis by (simp add: sha256_def sha2_def Let_def del: chunks.simps)
qed

section \<open>The empty message\<close>

lemma empty_blocks:
  "map (\<lambda>b. map word_of_bytes (chunks 4 b)) (chunks 64 (pad 4 [])) = [[2147483648, 0, 0, 0, 0, 0, 0, 0, 0, 0, 0, 0, 0, 0, 0, 0] :: 32 word list]"
  by code_simp

lemma empty_schedule: "rev (schedule p256 48 (rev [2147483648, 0, 0, 0, 0, 0, 0, 0, 0, 0, 0, 0, 0, 0, 0, 0])) =
    [2147483648, 0, 0, 0, 0, 0, 0, 0,
     0, 0, 0, 0, 0, 0, 0, 0] @
    [2147483648, 0, 2117632, 0, 570427392, 0, 84448578, 2147483648,
     1476919296, 4235264, 1451269, 1711282176, 3592562048, 337794312, 3594910044, 3374850048] @
    [3287351444, 676112230, 109604294, 2742808854, 1904000662, 4274181962, 2813755136, 2165675682,
     2561075048, 62000258, 1562224585, 2975250741, 3286092305, 614207615, 3297584367, 1575308336] @
    [3741240933, 748767245, 1008022316, 30329261, 369937616, 195877528, 907775968, 3526495142,
     43741191, 1967544444, 133517113, 4161330627, 3704256008, 1581412744, 1153231965, 996066459]"
  by code_simp

lemma empty_rounds0: "rounds p256 (zip (key_quarter 0)
    [2147483648, 0, 0, 0, 0, 0, 0, 0,
     0, 0, 0, 0, 0, 0, 0, 0])
    iv256 =
    (3019933109, 3096116699, 1170215847, 553833165, 1555621987, 483372089, 725774998, 3455974994)"
  by code_simp

lemma empty_rounds1: "rounds p256 (zip (key_quarter 1)
    [2147483648, 0, 2117632, 0, 570427392, 0, 84448578, 2147483648,
     1476919296, 4235264, 1451269, 1711282176, 3592562048, 337794312, 3594910044, 3374850048])
    (3019933109, 3096116699, 1170215847, 553833165, 1555621987, 483372089, 725774998, 3455974994) =
    (300352095, 2696613087, 1926471693, 1690082844, 3151463532, 1447716390, 2957685293, 2506713973)"
  by code_simp

lemma empty_rounds2: "rounds p256 (zip (key_quarter 2)
    [3287351444, 676112230, 109604294, 2742808854, 1904000662, 4274181962, 2813755136, 2165675682,
     2561075048, 62000258, 1562224585, 2975250741, 3286092305, 614207615, 3297584367, 1575308336])
    (300352095, 2696613087, 1926471693, 1690082844, 3151463532, 1447716390, 2957685293, 2506713973) =
    (911881421, 1419259244, 855262251, 2752082644, 3417569515, 2322236082, 3531982457, 2855016464)"
  by code_simp

lemma empty_rounds3: "rounds p256 (zip (key_quarter 3)
    [3741240933, 748767245, 1008022316, 30329261, 369937616, 195877528, 907775968, 3526495142,
     43741191, 1967544444, 133517113, 4161330627, 3704256008, 1581412744, 1153231965, 996066459])
    (911881421, 1419259244, 855262251, 2752082644, 3417569515, 2322236082, 3531982457, 2855016464) =
    (2040978907, 3717492111, 1586299222, 4095722474, 3600805733, 3382061760, 2232532848, 477227836)"
  by code_simp

lemma sha256_empty: "sha256 [] =
    [227, 176, 196, 66, 152, 252, 28, 20, 154, 251, 244, 200, 153, 111, 185, 36,
     39, 174, 65, 228, 100, 155, 147, 76, 164, 149, 153, 27, 120, 82, 184, 85]"
proof -
  have "sha256 [] = chain_bytes (add_chain iv256 (2040978907, 3717492111, 1586299222, 4095722474, 3600805733, 3382061760, 2232532848, 477227836))"
    by (rule sha256_block [OF empty_blocks empty_schedule _ _ _ empty_rounds0 empty_rounds1 empty_rounds2 empty_rounds3]) simp_all
  also have "\<dots> = [227, 176, 196, 66, 152, 252, 28, 20, 154, 251, 244, 200, 153, 111, 185, 36,
     39, 174, 65, 228, 100, 155, 147, 76, 164, 149, 153, 27, 120, 82, 184, 85]" by code_simp
  finally show ?thesis .
qed

section \<open>abc\<close>

lemma abc_blocks:
  "map (\<lambda>b. map word_of_bytes (chunks 4 b)) (chunks 64 (pad 4 [97, 98, 99])) = [[1633837952, 0, 0, 0, 0, 0, 0, 0, 0, 0, 0, 0, 0, 0, 0, 24] :: 32 word list]"
  by code_simp

lemma abc_schedule: "rev (schedule p256 48 (rev [1633837952, 0, 0, 0, 0, 0, 0, 0, 0, 0, 0, 0, 0, 0, 0, 24])) =
    [1633837952, 0, 0, 0, 0, 0, 0, 0,
     0, 0, 0, 0, 0, 0, 0, 24] @
    [1633837952, 983040, 2108187653, 1610613702, 1050508152, 25426944, 316456923, 3806512014,
     3357629466, 3073800610, 3854317833, 845560923, 2636160359, 3968280267, 1881225380, 3552024379] @
    [2482346367, 996719219, 2952069057, 4043988066, 176896406, 1924104970, 2483675966, 610538786,
     2672279444, 4037431130, 1042573945, 657669027, 206005234, 2215296807, 2049510749, 106709978] @
    [4215179723, 3430291419, 3118885940, 2845390439, 2226839261, 3256115900, 344409900, 2987358873,
     4015503821, 3957764664, 2682456414, 2025622859, 2755645205, 1720397816, 4004225740, 313650667]"
  by code_simp

lemma abc_rounds0: "rounds p256 (zip (key_quarter 0)
    [1633837952, 0, 0, 0, 0, 0, 0, 0,
     0, 0, 0, 0, 0, 0, 0, 24])
    iv256 =
    (2969183118, 3227803614, 3643992854, 2274437520, 123276749, 194179596, 1952073950, 509051416)"
  by code_simp

lemma abc_rounds1: "rounds p256 (zip (key_quarter 1)
    [1633837952, 983040, 2108187653, 1610613702, 1050508152, 25426944, 316456923, 3806512014,
     3357629466, 3073800610, 3854317833, 845560923, 2636160359, 3968280267, 1881225380, 3552024379])
    (2969183118, 3227803614, 3643992854, 2274437520, 123276749, 194179596, 1952073950, 509051416) =
    (1941126133, 3935906338, 2684750640, 909411017, 3126399250, 17410874, 2917635127, 1628611511)"
  by code_simp

lemma abc_rounds2: "rounds p256 (zip (key_quarter 2)
    [2482346367, 996719219, 2952069057, 4043988066, 176896406, 1924104970, 2483675966, 610538786,
     2672279444, 4037431130, 1042573945, 657669027, 206005234, 2215296807, 2049510749, 106709978])
    (1941126133, 3935906338, 2684750640, 909411017, 3126399250, 17410874, 2917635127, 1628611511) =
    (1098003085, 2706117808, 1923828625, 643991573, 4274981830, 3581645993, 3077922209, 2819559920)"
  by code_simp

lemma abc_rounds3: "rounds p256 (zip (key_quarter 3)
    [4215179723, 3430291419, 3118885940, 2845390439, 2226839261, 3256115900, 344409900, 2987358873,
     4015503821, 3957764664, 2682456414, 2025622859, 2755645205, 1720397816, 4004225740, 313650667])
    (1098003085, 2706117808, 1923828625, 643991573, 4274981830, 3581645993, 3077922209, 2819559920) =
    (1349398616, 3550093669, 80891244, 3093179625, 1593118500, 4212265488, 2492278198, 2518632596)"
  by code_simp

lemma sha256_abc: "sha256 [97, 98, 99] =
    [186, 120, 22, 191, 143, 1, 207, 234, 65, 65, 64, 222, 93, 174, 34, 35,
     176, 3, 97, 163, 150, 23, 122, 156, 180, 16, 255, 97, 242, 0, 21, 173]"
proof -
  have "sha256 [97, 98, 99] = chain_bytes (add_chain iv256 (1349398616, 3550093669, 80891244, 3093179625, 1593118500, 4212265488, 2492278198, 2518632596))"
    by (rule sha256_block [OF abc_blocks abc_schedule _ _ _ abc_rounds0 abc_rounds1 abc_rounds2 abc_rounds3]) simp_all
  also have "\<dots> = [186, 120, 22, 191, 143, 1, 207, 234, 65, 65, 64, 222, 93, 174, 34, 35,
     176, 3, 97, 163, 150, 23, 122, 156, 180, 16, 255, 97, 242, 0, 21, 173]" by code_simp
  finally show ?thesis .
qed

end
