(* ===== verification/Sample_Live.thy ===== *)
theory Sample_Live
  imports Live_Proofs Sample_Guests Sha2_Vectors
begin

text \<open>
  Guests and connections for the runs of \<open>Live_Runs\<close>. The known answers of SHA-256 tell two session contexts apart.
\<close>

lemma session_keys_differ: "session_key [] \<noteq> session_key [97, 98, 99]"
  unfolding session_key_def sha256_empty sha256_abc by code_simp

lemma snp_genuine:
  assumes "0 < n" "n \<le> 3" "length sc < 256"
  shows "genuine_visit sample_hw [2] (snp_visit_at sc ex g None) n (rid_anchor (rid_of g))"
proof -
  have len: "length (report_data_for (link_at sc [2] ex c) None) = 64" for c by (simp add: len_simps)
  have "item_report (snp_guest g) sc ex None c = Inr (snp_bytes (rid_of g) (report_data_for (link_at sc [2] ex c) None))" for c
    using snp_guest_report [OF len [of c], of g c] unfolding item_report_def by simp
  moreover have "sample_snp_verifier (snp_evidence (snp_bytes (rid_of g) (report_data_for (link_at sc [2] ex c) None))
      (report_data_for (link_at sc [2] ex c) None)) (report_data_for (link_at sc [2] ex c) None) = Inr (True, Some (rid_anchor (rid_of g)))" for c
    by (rule sample_snp_verifies(1) [OF rid_of_facts(1) len rid_of_facts(2)])
  moreover have "rid_of g \<noteq> []" using rid_of_facts(1) [of g] by auto
  ultimately show ?thesis
    using assms unfolding genuine_visit_def device_trusted_def Let_def by (simp add: rid_anchor_def)
qed

lemma conn_meets:
  assumes "n \<le> 3"
  shows "meets (conn_at sc' ex' (visit_reply (snp_visit_at sc ex g None) n None)) ip port [2] sc' ex' (snp_visit_at sc ex g None) n"
proof -
  have "wf_json (visit_reply (snp_visit_at sc ex g None) n None)"
    unfolding visit_reply_def visit_item_def by (rule wf_chain_reply) simp
  from conn_at_answers [OF this visit_short [OF assms]] show ?thesis
    by (simp add: meets_def conn_at_def conn_with_values)
qed

definition client_conns :: "nat \<Rightarrow> bytes tls_conn" where
  "client_conns j = (if j = 0 then conn_at [] [9] (visit_reply (snp_visit_at [] [9] ''a'' None) 3 None)
     else if j = 1 then conn_at [5] [9] (visit_reply (snp_visit_at [5] [9] ''b'' None) 3 None)
     else conn_at [97, 98, 99] [9] (visit_reply (snp_visit_at [97, 98, 99] [9] ''a'' None) 1 None))"

lemma client_visits:
  "visits sample_hw (client_conns 0) ip [2] (snp_visit_at [] [9] ''a'' None) 3 (rid_anchor (rid_of ''a''))"
  "visits sample_hw (client_conns 1) ip [2] (snp_visit_at [5] [9] ''b'' None) 3 (rid_anchor (rid_of ''b''))"
  "visits sample_hw (client_conns 2) ip [2] (snp_visit_at [97, 98, 99] [9] ''a'' None) 1 (rid_anchor (rid_of ''a''))"
  unfolding visits_def client_conns_def
  by (simp_all add: snp_genuine conn_meets del: One_nat_def)

text \<open>The relay: a session with the guest, and another with the client.\<close>

definition relay_conns :: "nat \<Rightarrow> bytes tls_conn" where
  "relay_conns j = (if j = 0 then enrol_conn ''a'' else if j = 1 then conn_to (visit_reply (snp_visit ''a'' None) 2 None)
     else conn_at [6] [10] (visit_reply (snp_visit_at [7] [9] ''a'' None) 2 None))"

lemma relay_visits:
  "visits sample_hw (relay_conns 1) ip [2] (snp_visit ''a'' None) 2 (rid_anchor (rid_of ''a''))"
  "genuine_visit sample_hw [2] (snp_visit_at [7] [9] ''a'' None) 2 (rid_anchor (rid_of ''a''))"
  "meets (relay_conns 2) ip port [2] [6] [10] (snp_visit_at [7] [9] ''a'' None) 2"
  unfolding visits_def relay_conns_def by (simp_all add: snp_genuine conn_meets)

text \<open>The run through the relay: exit code 0, unless the two links collide.\<close>

lemma sample_relay_hw:
  "(\<exists>v m. relay_hw_main sample_hw ''A'' relay_conns [] = Some (Inr (0, Some v), m))
    \<or> link_collision ([9], intra_value [7] [2], 0) ([10], intra_value [6] [2], 0)"
proof -
  have k: "pb_tik_pub (snp_guest ''a'') = [2]" "vs_exporter (snp_visit_at [7] [9] ''a'' None) = [9]" "vs_sctx (snp_visit_at [7] [9] ''a'' None) = [7]"
    by simp_all
  have e: "enrols_as sample_hw 0 (relay_conns 0) ''A'' (snp_guest ''a'') (rid_anchor (rid_of ''a''))"
    using snp_enrols by (simp add: relay_conns_def)
  have t: "t_check (hw_ins sample_hw 0) < hw_now sample_hw 0 + 300"
    by (simp_all add: sample_inputs_def sample_hw_def int_of_time_def)
  show ?thesis
    using relay_hw_exits_0 [where P = "snp_guest ''a''" and T = relay_conns and W = sample_hw and nt = "[]" and ip = "''A''"
        and U = "snp_visit_at [7] [9] ''a'' None" and ex = "[10]" and sc = "[6]" and V = "snp_visit ''a'' None", unfolded k,
        OF e t relay_visits]
    by simp
qed

text \<open>The reattestation run over the guests of \<open>Sample_Guests\<close>.\<close>

lemma sample_reattest:
  "\<exists>w. reattest_main sample_hw ''A'' static_conn_of static_start static_wire (conn_to (visit_reply (snp_visit ''a'' None) 2 None))
    = Some (Inr (0, Some \<lparr>rf_stale_static = True, rf_step0 = ''accepted; continuity intact'',
      rf_step1 = ''accepted; continuity intact'', rf_stale_chained = False, rf_reason = w\<rparr>))"
proof -
  obtain b where "draft_binder_session static_conn_of static_start static_wire 2 = Some (Inr static_sess, b)"
    using static_session_returns by blast
  from reattest_shows_both [OF this static_guest_ok snp_chain_visit] show ?thesis .
qed

end
