(* ===== verification/Sample_Local.thy ===== *)
theory Sample_Local
  imports Local_Proofs Sample_Live
begin

text \<open>Draws and sessions for \<open>Local_Run\<close>; the known answers of SHA-256 tell the sessions and the two mandates apart.\<close>

definition local_draws :: "nat \<Rightarrow> draws" where
  "local_draws k = sample_draws\<lparr>dr_sth_key := (if k = 11 then [] else [97, 98, 99])\<rparr>"

definition local_sess :: "nat \<Rightarrow> bytes \<times> bytes" where
  "local_sess k = (if odd k then [97, 98, 99] else [], [9])"

lemma mandate_ids_differ: "mandate_id [] \<noteq> mandate_id [97, 98, 99]"
  unfolding mandate_id_def sha256_empty sha256_abc by code_simp

lemma local_draws_sel [simp]:
  "dr_ins (local_draws k) j = sample_inputs" "dr_now (local_draws k) j = 10" "dr_e2 (local_draws k) = [10]"
  "dr_z1 (local_draws k) = ([11], [12])" "dr_z2 (local_draws k) = ([13], [14])" "dr_grant_now (local_draws k) = 10"
  "dr_sth_key (local_draws k) = (if k = 11 then [] else [97, 98, 99])"
  by (simp_all add: local_draws_def sample_draws_def)

lemma local_is_fair: "fair_local sample_world local_draws local_sess"
proof -
  have "fair_world sample_world" using sample_game by (simp add: fair_game_def)
  moreover have "wd_crypto sample_world = sample_crypto" "public_key_of sample_crypto k = k" for k
    by (simp_all add: sample_world_def) (simp add: sample_crypto_def)
  moreover have "timely (local_draws 10)" by (simp add: timely_def sample_inputs_def int_of_time_def Let_def)
  moreover have "on_time (local_draws k)" for k by (simp add: on_time_def sample_inputs_def)
  ultimately show ?thesis
    using session_keys_differ mandate_ids_differ by (simp add: fair_local_def local_sess_def Let_def any_set_def)
qed

end
