(* ===== verification/Claims.thy ===== *)
theory Claims
  imports Anchor_Run Malleability "HOL-Library.AList"
begin

text \<open>
  Which claim tells two machines apart: \<open>examples/tdx_claims_run.py\<close>, which compares the TDREPORTs of two fresh TDs field
  by field, and \<open>examples/granularity.py\<close>, which counts identifiers over the reports shipped under \<open>evidence/\<close> and compares
  two shipped TDREPORTs by a table of its own. The cloud command line, the file system (parsed files) and the certificate
  library are parameters; printing is left out, a value printed that may raise is not.
\<close>

section \<open>The TD's probe\<close>

text \<open>\<open>dev\<close> is what opening the device and the ioctl gives, \<open>kern\<close> the third word of \<open>/proc/version\<close>, if there is one.\<close>

definition tdx_notes :: "(exn \<Rightarrow> string) \<Rightarrow> bytes py \<Rightarrow> string option \<Rightarrow> bool \<Rightarrow> string list" where
  "tdx_notes rp dev kern here =
     (case dev of Inl e \<Rightarrow> [''tdreport failed: '' @ rp e] | Inr rep \<Rightarrow> [''tdreport '' @ dec_int (int (length rep)) @ '' bytes''])
     @ (case kern of None \<Rightarrow> [] | Some k \<Rightarrow> [''kernel '' @ k])
     @ [''tdx_guest present: '' @ (if here then ''True'' else ''False'')]"

definition tdx_report :: "bytes py \<Rightarrow> bytes" where
  "tdx_report dev = (case dev of Inl _ \<Rightarrow> [] | Inr rep \<Rightarrow> rep)"

definition tdx_out :: "string \<Rightarrow> bytes py \<Rightarrow> string list \<Rightarrow> json" where
  "tdx_out host dev notes = JObj [(''host'', JStr host), (''tdreport'', JStr (hex (tdx_report dev))), (''notes'', JList (map JStr notes))]"

definition tx_print :: "string \<Rightarrow> json \<Rightarrow> string list" where
  "tx_print host out = probe_lines 2 host ''tdx'' out"

section \<open>The fields of a TDREPORT\<close>

definition FIELDS :: "(string \<times> nat \<times> nat) list" where
  "FIELDS = [(''REPORTMACSTRUCT.reporttype'', 0, 4), (''REPORTMACSTRUCT.cpusvn'', 16, 16),
     (''REPORTMACSTRUCT.tcbinfohash'', 32, 48), (''REPORTMACSTRUCT.teeinfohash'', 80, 48),
     (''REPORTMACSTRUCT.reportdata'', 128, 64), (''REPORTMACSTRUCT.mac'', 224, 32), (''TEE_TCB_INFO'', 256, 239),
     (''TDINFO.attributes'', 512, 8), (''TDINFO.xfam'', 520, 8), (''TDINFO.MRTD'', 528, 48), (''TDINFO.MRCONFIGID'', 576, 48),
     (''TDINFO.MROWNER'', 624, 48), (''TDINFO.MROWNERCONFIG'', 672, 48), (''TDINFO.RTMR0'', 720, 48), (''TDINFO.RTMR1'', 768, 48),
     (''TDINFO.RTMR2'', 816, 48), (''TDINFO.RTMR3'', 864, 48), (''TDINFO.SERVTD_HASH'', 912, 48), (''TDINFO.tail'', 960, 64)]"

definition field_differs :: "bytes \<Rightarrow> bytes \<Rightarrow> string \<times> nat \<times> nat \<Rightarrow> bool" where
  "field_differs a b = (\<lambda>(name, off, ln). slice off (off + ln) a \<noteq> slice off (off + ln) b)"

text \<open>The verdict that is written: the fields that differ, those of them outside the MAC structure, and the others.\<close>

record tdx_verdict =
  tv_differ :: "string list"
  tv_candidates :: "string list"
  tv_same :: "string list"

definition starts_with :: "string \<Rightarrow> string \<Rightarrow> bool" where
  "starts_with w s \<longleftrightarrow> take (length w) s = w"

definition compare_reports :: "bytes \<Rightarrow> bytes \<Rightarrow> tdx_verdict" where
  "compare_reports a b =
     (let differ = filter (field_differs a b) FIELDS; same = filter (\<lambda>f. \<not> field_differs a b f) FIELDS
      in \<lparr>tv_differ = map fst differ, tv_candidates = filter (\<lambda>n. \<not> starts_with ''REPORTMACSTRUCT'' n) (map fst differ),
          tv_same = map fst same\<rparr>)"

section \<open>The run over two TDs\<close>

definition tx_reassemble :: "string \<Rightarrow> json option py" where
  "tx_reassemble txt = (case (search match_meta txt, search match_len txt) of
     (Some (want, dg), Some hexlen) \<Rightarrow>
       (let cs = find_chunks txt in
        if int (length (remdups (map fst cs))) \<noteq> want then Inr None
        else py_bind (join_chunks cs want) (\<lambda>hs.
          case fromhex (take (nat hexlen) (concat hs)) of
            Inl _ \<Rightarrow> Inr None
          | Inr payload \<Rightarrow>
              if hex (sha256 payload) \<noteq> dg then Inr None
              else py_bind (loads_bytes payload) (\<lambda>j. Inr (Some j))))
   | _ \<Rightarrow> Inr None)"

definition tx_names :: "string list" where "tx_names = [''tdx-a'', ''tdx-b'']"

text \<open>\<open>bytes.fromhex(got[n]["tdreport"])\<close>.\<close>

definition report_of :: "(string \<times> json) list \<Rightarrow> string \<Rightarrow> bytes py" where
  "report_of got n = (case map_of got n of None \<Rightarrow> Inl (KeyError n) | Some j \<Rightarrow> py_bind (subscript j ''tdreport'') fromhex_json)"

definition tx_sections :: "(string \<times> json) list \<Rightarrow> tdx_verdict py" where
  "tx_sections got =
     py_bind (py_map (\<lambda>(n, p). py_bind (subscript p ''notes'') notes_of) got) (\<lambda>_.
     py_bind (report_of got (tx_names ! 0)) (\<lambda>a.
     py_bind (report_of got (tx_names ! 1)) (\<lambda>b. Inr (compare_reports a b))))"

text \<open>The exit code, or what escaped; the verdict; and whether the machines were deleted. \<open>start\<close> is when the waiting began.\<close>

definition tx_main :: "(nat \<Rightarrow> rat) \<Rightarrow> (nat \<Rightarrow> string \<Rightarrow> string py) \<Rightarrow> bool \<Rightarrow> rat \<Rightarrow> (int py \<times> tdx_verdict option \<times> bool) option" where
  "tx_main clock con keep start =
     map_option (\<lambda>res. case res of
         Inl e \<Rightarrow> (Inl e, None, False)
       | Inr got \<Rightarrow>
           if length got < 2 then (Inr 1, None, \<not> keep)
           else (case tx_sections got of
             Inl e \<Rightarrow> (Inl e, None, False)
           | Inr v \<Rightarrow> (Inr 0, Some v, \<not> keep)))
       (poll tx_reassemble clock con (start + 900) tx_names 0 [])"

section \<open>Granularity: the SEV-SNP reports shipped\<close>

definition gr_field :: "bytes \<Rightarrow> nat \<Rightarrow> nat \<Rightarrow> bytes" where
  "gr_field b off n = slice off (off + n) b"

definition of_cloud :: "string \<Rightarrow> reports \<Rightarrow> reports" where
  "of_cloud cloud reps = filter (\<lambda>(b, src, leaf). (if starts_with ''aws-'' src then ''aws'' else ''gcp'') = cloud) reps"

text \<open>\<open>Counter\<close>: how often each value occurs, in the order of first occurrence.\<close>

definition py_counter :: "'a list \<Rightarrow> ('a \<times> nat) list" where
  "py_counter xs = map (\<lambda>x. (x, length (filter (\<lambda>y. y = x) xs))) (rev (remdups (rev xs)))"

record cloud_stats =
  cs_reports :: nat
  cs_keys :: "(sk_name \<times> nat) list"
  cs_chips :: nat
  cs_zero :: nat
  cs_masked :: nat
  cs_instances :: nat
  cs_ma_ones :: nat
  cs_families :: nat
  cs_images :: nat
  cs_host_data :: nat
  cs_measurements :: nat
  cs_multi :: "(string \<times> nat) list"

definition distinct_values :: "'a list \<Rightarrow> nat" where
  "distinct_values xs = length (remdups xs)"

text \<open>The instances each chip served, and, as a dictionary by the first characters of its id, the chips that served several.\<close>

definition inst_per_chip :: "snp_fields list \<Rightarrow> (bytes \<times> nat) list" where
  "inst_per_chip f = map (\<lambda>(c, _). (c, distinct_values (map snp_report_id (filter (\<lambda>y. snp_chip_id y = c) f)))) (py_counter (map snp_chip_id f))"

definition multi_chips :: "(bytes \<times> nat) list \<Rightarrow> (string \<times> nat) list" where
  "multi_chips xs = fold (\<lambda>(c, n) d. if n > 1 then AList.update (take 12 (hex c)) n d else d) xs []"

definition cloud_row :: "reports \<Rightarrow> string \<Rightarrow> cloud_stats py" where
  "cloud_row reps cloud =
     (let bs = map fst (of_cloud cloud reps) in
      py_bind (py_map parse_snp bs) (\<lambda>f.
        Inr \<lparr>cs_reports = length bs, cs_keys = py_counter (map snp_signing_key f), cs_chips = distinct_values (map snp_chip_id f),
          cs_zero = length (filter (\<lambda>x. snp_chip_id x = zeros 64) f), cs_masked = length (filter (\<lambda>x. snp_mask_chip_key x \<noteq> 0) f),
          cs_instances = distinct_values (map snp_report_id f),
          cs_ma_ones = length (filter (\<lambda>b. gr_field b 0x160 32 = replicate 32 0xff) bs),
          cs_families = distinct_values (map (\<lambda>b. gr_field b 0x10 16) bs), cs_images = distinct_values (map (\<lambda>b. gr_field b 0x20 16) bs),
          cs_host_data = distinct_values (map (\<lambda>b. gr_field b 0xC0 32) bs), cs_measurements = distinct_values (map snp_measurement f),
          cs_multi = (if cloud = ''gcp'' then multi_chips (inst_per_chip f) else [])\<rparr>))"

text \<open>The leaf certificates, the instances they signed for, and what the library reads of each: subject and CSP id.\<close>

definition by_leaf :: "reports \<Rightarrow> (json \<times> bytes list) list" where
  "by_leaf reps = map (\<lambda>(leaf, _). (leaf, map fst (filter (\<lambda>(b, src, l). l = leaf) reps)))
     (py_counter (filter truthy (map (snd \<circ> snd) reps)))"

definition leaf_row :: "(bytes \<Rightarrow> (string \<times> string) py) \<Rightarrow> json \<times> bytes list \<Rightarrow> (string \<times> string \<times> nat) py" where
  "leaf_row cert = (\<lambda>(leaf, bs). py_bind (py_map parse_snp bs) (\<lambda>f. py_bind (fromhex_json leaf) (\<lambda>der. py_bind (cert der) (\<lambda>(subj, csp).
     Inr (take 12 subj, csp, distinct_values (map snp_report_id f))))))"

definition gr_sev_snp :: "(bytes \<Rightarrow> (string \<times> string) py) \<Rightarrow> reports \<Rightarrow> (cloud_stats list \<times> (string \<times> string \<times> nat) list) py" where
  "gr_sev_snp cert reps =
     py_bind (py_map (cloud_row reps) [''gcp'', ''aws'']) (\<lambda>rows.
     py_bind (py_map (leaf_row cert) (by_leaf reps)) (\<lambda>ls. Inr (rows, ls)))"

section \<open>Granularity: the TDREPORTs shipped\<close>

definition TD :: "(string \<times> nat \<times> nat) list" where
  "TD = [(''REPORTMACSTRUCT.reporttype'', 0, 16), (''REPORTMACSTRUCT.cpusvn'', 16, 16), (''REPORTMACSTRUCT.tcbinfohash'', 32, 48),
     (''REPORTMACSTRUCT.teeinfohash'', 80, 48), (''REPORTMACSTRUCT.reportdata'', 128, 64), (''REPORTMACSTRUCT.mac'', 224, 32),
     (''TEE_TCB_INFO'', 256, 239), (''TDINFO.attributes'', 512, 8), (''TDINFO.xfam'', 520, 8), (''TDINFO.MRTD'', 528, 48),
     (''TDINFO.MRCONFIGID'', 576, 48), (''TDINFO.MROWNER'', 624, 48), (''TDINFO.MROWNERCONFIG'', 672, 48),
     (''TDINFO.RTMR0'', 720, 48), (''TDINFO.RTMR1'', 768, 48), (''TDINFO.RTMR2'', 816, 48), (''TDINFO.RTMR3'', 864, 48),
     (''TDINFO.SERVTD_HASH'', 912, 48), (''TDINFO.tail'', 960, 64)]"

text \<open>The values of a probes file that are dictionaries with a report.\<close>

definition td_reports :: "json \<Rightarrow> bytes list py" where
  "td_reports d = (case d of
     JObj kvs \<Rightarrow> py_map (\<lambda>(k, v). py_bind (subscript v ''tdreport'') fromhex_json)
       (filter (\<lambda>(k, v). (case v of JObj e \<Rightarrow> ''tdreport'' \<in> fst ` set e | _ \<Rightarrow> False)) kvs)
   | _ \<Rightarrow> Inl (AttributeError ''object has no attribute items''))"

text \<open>The last of the sorted runs, if there is one; the fields that differ.\<close>

definition gr_tdx :: "json py list \<Rightarrow> string list option py" where
  "gr_tdx runs = (if runs = [] then Inr None
     else py_bind (last runs) (\<lambda>d. py_bind (td_reports d) (\<lambda>tds. (case tds of
         a # b # _ \<Rightarrow> if length a = 1024 \<and> length b = 1024 then Inr (Some (map fst (filter (field_differs a b) TD))) else Inl (AssertionError '''')
       | _ \<Rightarrow> Inl (ValueError ''not enough values to unpack'')))))"

definition gr_main ::
  "(bytes \<Rightarrow> (string \<times> string) py) \<Rightarrow> reports \<Rightarrow> json py list \<Rightarrow> (int \<times> (cloud_stats list \<times> (string \<times> string \<times> nat) list) \<times> string list option) py" where
  "gr_main cert reps runs = py_bind (gr_sev_snp cert reps) (\<lambda>rows. py_bind (gr_tdx runs) (\<lambda>differ. Inr (0, rows, differ)))"

end
