(* ===== verification/Claims_Proofs.thy ===== *)
theory Claims_Proofs
  imports Claims Anchor_Proofs
begin

text \<open>
  What the comparison of two TDREPORTs covers, that the two tables of \<open>Claims\<close> agree, and what a run over two honest TDs
  ends with; and what it says when neither TD gave a report.
\<close>

section \<open>The tables\<close>

lemma slice_join: "i \<le> j \<Longrightarrow> j \<le> k \<Longrightarrow> slice i k xs = slice i j xs @ slice j k xs"
proof -
  assume ijk: "i \<le> j" "j \<le> k"
  then have "k - i = (j - i) + (k - j)" by simp
  then have "slice i k xs = take ((j - i) + (k - j)) (drop i xs)" by (simp only: slice_def)
  also have "\<dots> = slice i j xs @ slice j k xs" using ijk by (simp only: take_add slice_def drop_drop) simp
  finally show ?thesis .
qed

lemma slice_split:
  assumes "length a = length b" "i \<le> j" "j \<le> k"
  shows "slice i k a = slice i k b \<longleftrightarrow> slice i j a = slice i j b \<and> slice j k a = slice j k b"
  using assms slice_join [of i j k a] slice_join [of i j k b] by (simp add: slice_def)

text \<open>The two tables name the same fields in the same order, and differ in the width of the first.\<close>

lemma tables:
  "map fst FIELDS = map fst TD" "tl FIELDS = tl TD" "hd FIELDS = (''REPORTMACSTRUCT.reporttype'', 0, 4)"
  "hd TD = (''REPORTMACSTRUCT.reporttype'', 0, 16)" "FIELDS = hd FIELDS # tl FIELDS" "TD = hd TD # tl TD"
  by (simp_all add: FIELDS_def TD_def)

lemma tables_agree:
  assumes "slice 4 16 a = slice 4 16 b"
  shows "map fst (filter (field_differs a b) TD) = tv_differ (compare_reports a b)"
proof -
  have "take 16 xs = take 4 xs @ slice 4 16 xs" for xs :: bytes using slice_join [of 0 4 16 xs] by (simp add: slice_def)
  then have "take 16 a = take 16 b" if "take 4 a = take 4 b" using that assms by simp
  moreover have "take 4 a = take 4 b" if "take 16 a = take 16 b" using arg_cong [OF that, of "take 4"] by simp
  ultimately have "field_differs a b (hd TD) = field_differs a b (hd FIELDS)"
    unfolding tables(3,4) field_differs_def slice_def by auto
  moreover have "fst (hd TD) = fst (hd FIELDS)" by (simp only: tables(3,4) fst_conv)
  ultimately have "map fst (filter (field_differs a b) (hd TD # tl TD)) = map fst (filter (field_differs a b) (hd FIELDS # tl FIELDS))"
    by (simp add: tables(2))
  then show ?thesis by (simp add: compare_reports_def Let_def tables(5,6) [symmetric])
qed

lemma field_differs_sym: "field_differs a b = field_differs b a"
  by (auto simp: field_differs_def fun_eq_iff)

lemma compare_reports_sym: "compare_reports a b = compare_reports b a"
  by (simp add: compare_reports_def field_differs_sym [of a b])

section \<open>What the comparison covers\<close>

definition agree_on :: "bytes \<Rightarrow> bytes \<Rightarrow> nat \<Rightarrow> nat \<Rightarrow> bool" where
  "agree_on a b i j \<longleftrightarrow> slice i j a = slice i j b"

lemma agree_split: "length a = length b \<Longrightarrow> i \<le> j \<Longrightarrow> j \<le> k \<Longrightarrow> agree_on a b i k \<longleftrightarrow> agree_on a b i j \<and> agree_on a b j k"
  unfolding agree_on_def by (rule slice_split)

lemma candidates_mem: "tv_candidates (compare_reports a b) = [] \<longleftrightarrow>
   (\<forall>f \<in> set FIELDS. \<not> starts_with ''REPORTMACSTRUCT'' (fst f) \<longrightarrow> \<not> field_differs a b f)"
proof -
  have "filter (\<lambda>n. \<not> starts_with w n) (map fst (filter p xs)) = [] \<longleftrightarrow> (\<forall>f \<in> set xs. \<not> starts_with w (fst f) \<longrightarrow> \<not> p f)" for w p
    and xs :: "(string \<times> nat \<times> nat) list" by (induction xs) auto
  then show ?thesis by (simp add: compare_reports_def Let_def)
qed

lemma differ_mem: "tv_differ (compare_reports a b) = [] \<longleftrightarrow> (\<forall>f \<in> set FIELDS. \<not> field_differs a b f)"
  by (auto simp: compare_reports_def Let_def filter_empty_conv)

lemma tdinfo_fields:
  assumes "length a = length b"
  shows "agree_on a b 512 1024 \<longleftrightarrow> agree_on a b 512 520 \<and> agree_on a b 520 528 \<and> agree_on a b 528 576 \<and> agree_on a b 576 624 \<and> agree_on a b 624 672
    \<and> agree_on a b 672 720 \<and> agree_on a b 720 768 \<and> agree_on a b 768 816 \<and> agree_on a b 816 864 \<and> agree_on a b 864 912 \<and> agree_on a b 912 960
    \<and> agree_on a b 960 1024"
proof -
  note s = agree_split [OF assms]
  show ?thesis
    using s [of 512 520 1024] s [of 520 528 1024] s [of 528 576 1024] s [of 576 624 1024] s [of 624 672 1024] s [of 672 720 1024]
      s [of 720 768 1024] s [of 768 816 1024] s [of 816 864 1024] s [of 864 912 1024] s [of 912 960 1024] by simp
qed

lemma no_candidates_iff:
  assumes "length a = length b"
  shows "tv_candidates (compare_reports a b) = [] \<longleftrightarrow> agree_on a b 256 495 \<and> agree_on a b 512 1024"
  unfolding candidates_mem tdinfo_fields [OF assms] by (auto simp: FIELDS_def starts_with_def field_differs_def agree_on_def)

lemma no_difference_iff:
  assumes "length a = length b"
  shows "tv_differ (compare_reports a b) = [] \<longleftrightarrow>
    agree_on a b 0 4 \<and> agree_on a b 16 192 \<and> agree_on a b 224 495 \<and> agree_on a b 512 1024"
proof -
  note s = agree_split [OF assms]
  have "agree_on a b 16 192 \<longleftrightarrow> agree_on a b 16 32 \<and> agree_on a b 32 80 \<and> agree_on a b 80 128 \<and> agree_on a b 128 192"
    using s [of 16 32 192] s [of 32 80 192] s [of 80 128 192] by simp
  moreover have "agree_on a b 224 495 \<longleftrightarrow> agree_on a b 224 256 \<and> agree_on a b 256 495" using s [of 224 256 495] by simp
  ultimately show ?thesis
    unfolding differ_mem tdinfo_fields [OF assms] by (auto simp: FIELDS_def field_differs_def agree_on_def)
qed

section \<open>The run over two TDs\<close>

lemma tx_reassemble_eq: "tx_reassemble = reassemble"
  by (rule ext) (simp only: tx_reassemble_def reassemble_def)

text \<open>A TD: what its probe finds, and so prints.\<close>

record td_guest =
  tg_host :: string
  tg_device :: "bytes py"
  tg_repr :: "exn \<Rightarrow> string"
  tg_kernel :: "string option"
  tg_here :: bool

definition td_out :: "td_guest \<Rightarrow> json" where
  "td_out T = tdx_out (tg_host T) (tg_device T) (tdx_notes (tg_repr T) (tg_device T) (tg_kernel T) (tg_here T))"

abbreviation td_rep :: "td_guest \<Rightarrow> bytes" where
  "td_rep T \<equiv> tdx_report (tg_device T)"

lemma td_result:
  "\<exists>d ns. sort_json (td_out T) = JObj d \<and> map_of d ''tdreport'' = Some (JStr (hex (td_rep T))) \<and> map_of d ''notes'' = Some (JList ns)"
proof -
  let ?kvs = "[(''host'', JStr (tg_host T)), (''tdreport'', JStr (hex (td_rep T))),
      (''notes'', JList (map JStr (tdx_notes (tg_repr T) (tg_device T) (tg_kernel T) (tg_here T))))]"
  have o: "td_out T = JObj ?kvs" by (simp only: td_out_def tdx_out_def)
  have dis: "distinct (map fst ?kvs)" by simp
  obtain d where d: "sort_json (JObj ?kvs) = JObj d" by simp
  note lk = sort_json_lookup [OF dis d]
  have "map_of d ''tdreport'' = Some (JStr (hex (td_rep T)))" unfolding lk by simp
  moreover have "\<exists>ns. map_of d ''notes'' = Some (JList ns)" unfolding lk by simp
  ultimately show ?thesis using o d by auto
qed

lemma td_reads:
  "py_bind (subscript (sort_json (td_out T)) ''tdreport'') fromhex_json = Inr (td_rep T)"
  "py_bind (subscript (sort_json (td_out T)) ''notes'') notes_of = Inr ()"
  "\<exists>d. sort_json (td_out T) = JObj d \<and> ''tdreport'' \<in> fst ` set d" "sort_json (td_out T) \<noteq> JNull"
proof -
  obtain d ns where d: "sort_json (td_out T) = JObj d" "map_of d ''tdreport'' = Some (JStr (hex (td_rep T)))" "map_of d ''notes'' = Some (JList ns)"
    using td_result by blast
  have "''tdreport'' \<in> fst ` set d" using map_of_SomeD [OF d(2)] by force
  then show "\<exists>d. sort_json (td_out T) = JObj d \<and> ''tdreport'' \<in> fst ` set d" "sort_json (td_out T) \<noteq> JNull"
    "py_bind (subscript (sort_json (td_out T)) ''tdreport'') fromhex_json = Inr (td_rep T)"
    "py_bind (subscript (sort_json (td_out T)) ''notes'') notes_of = Inr ()"
    using d by (auto simp del: sort_json.simps simp: subscript_def dindex_def notes_of_def)
qed

text \<open>The results file of a run, in the order in which the consoles were complete.\<close>

definition td_results :: "(string \<Rightarrow> td_guest) \<Rightarrow> string list \<Rightarrow> (string \<times> json) list" where
  "td_results M = map (\<lambda>n. (n, sort_json (td_out (M n))))"

lemma td_sections:
  assumes "ns = [''tdx-a'', ''tdx-b''] \<or> ns = [''tdx-b'', ''tdx-a'']"
  shows "tx_sections (td_results M ns) = Inr (compare_reports (td_rep (M ''tdx-a'')) (td_rep (M ''tdx-b'')))"
    "td_reports (JObj (td_results M ns)) = Inr (map (\<lambda>n. td_rep (M n)) ns)"
proof -
  have r: "report_of (td_results M ns) n = Inr (td_rep (M n))" if "n \<in> {''tdx-a'', ''tdx-b''}" for n
    using assms that td_reads(1) [of "M n"] by (auto simp: report_of_def td_results_def)
  show "tx_sections (td_results M ns) = Inr (compare_reports (td_rep (M ''tdx-a'')) (td_rep (M ''tdx-b'')))"
    using assms r [of "''tdx-a''"] r [of "''tdx-b''"] td_reads(2)
    by (auto simp: tx_sections_def tx_names_def td_results_def)
  have "(case sort_json (td_out T) of JObj e \<Rightarrow> ''tdreport'' \<in> fst ` set e | _ \<Rightarrow> False)" for T
    using td_reads(3) [of T] by (elim exE conjE) (simp only: json.case)
  then have "filter (\<lambda>(k, v). (case v of JObj e \<Rightarrow> ''tdreport'' \<in> fst ` set e | _ \<Rightarrow> False)) (td_results M ns) = td_results M ns"
    by (simp add: td_results_def filter_map comp_def)
  then show "td_reports (JObj (td_results M ns)) = Inr (map (\<lambda>n. td_rep (M n)) ns)"
    using assms td_reads(1) by (auto simp: td_reports_def td_results_def)
qed

lemma gr_tdx_run:
  assumes "ns = [''tdx-a'', ''tdx-b''] \<or> ns = [''tdx-b'', ''tdx-a'']"
    and "length (td_rep (M ''tdx-a'')) = 1024" "length (td_rep (M ''tdx-b'')) = 1024"
    and "agree_on (td_rep (M ''tdx-a'')) (td_rep (M ''tdx-b'')) 4 16"
  shows "gr_tdx (earlier @ [Inr (JObj (td_results M ns))]) = Inr (Some (tv_differ (compare_reports (td_rep (M ''tdx-a'')) (td_rep (M ''tdx-b'')))))"
  using assms(1)
proof
  assume ns: "ns = [''tdx-a'', ''tdx-b'']"
  show ?thesis using td_sections(2) [OF assms(1), of M] assms tables_agree [of "td_rep (M ''tdx-a'')" "td_rep (M ''tdx-b'')"]
    by (simp add: gr_tdx_def agree_on_def ns)
next
  assume ns: "ns = [''tdx-b'', ''tdx-a'']"
  show ?thesis using td_sections(2) [OF assms(1), of M] assms tables_agree [of "td_rep (M ''tdx-b'')" "td_rep (M ''tdx-a'')"]
    by (simp add: gr_tdx_def agree_on_def ns compare_reports_sym [of "td_rep (M ''tdx-b'')"])
qed

lemma tx_main_verdict:
  assumes con: "\<And>k n. n \<in> {''tdx-a'', ''tdx-b''} \<Longrightarrow> console_of (tg_host (M n)) ''tdx'' (td_out (M n)) (con k n)"
    and done': "\<And>n. n \<in> {''tdx-a'', ''tdx-b''} \<Longrightarrow> \<exists>k \<le> N. complete (tg_host (M n)) ''tdx'' (td_out (M n)) (con k n)"
    and time: "\<And>k. k \<le> N \<Longrightarrow> clock k < start + 900"
  shows "tx_main clock con keep start = Some (Inr 0, Some (compare_reports (td_rep (M ''tdx-a'')) (td_rep (M ''tdx-b''))), \<not> keep)"
proof -
  define val where "val = (\<lambda>n. sort_json (td_out (M n)))"
  have ne: "''tdx-a'' \<noteq> ''tdx-b''" by simp
  have obj: "val n \<noteq> JNull" for n unfolding val_def by (rule td_reads(4))
  obtain got where got: "poll reassemble clock con (start + 900) [''tdx-a'', ''tdx-b''] 0 [] = Some (Inr got)"
    "got = [(''tdx-a'', val ''tdx-a''), (''tdx-b'', val ''tdx-b'')] \<or> got = [(''tdx-b'', val ''tdx-b''), (''tdx-a'', val ''tdx-a'')]"
    using honest_poll [where val = val and con = con and clock = clock and N = N, OF ne obj _ _ time] con done'
    by (metis val_def)
  from got(2) have "got = td_results M [''tdx-a'', ''tdx-b''] \<or> got = td_results M [''tdx-b'', ''tdx-a'']"
    by (simp add: td_results_def val_def)
  then obtain ns where "ns = [''tdx-a'', ''tdx-b''] \<or> ns = [''tdx-b'', ''tdx-a'']" "got = td_results M ns" by blast
  with got(1) td_sections(1) [of ns M] show ?thesis
    by (auto simp: tx_main_def tx_reassemble_eq tx_names_def td_results_def)
qed

text \<open>
  When neither TD could open its device, the verdict is that of two equal reports: nothing separates two live TDs.
\<close>

lemma no_reports_no_difference:
  assumes "tg_device A = Inl e" "tg_device B = Inl e'"
  shows "tv_differ (compare_reports (td_rep A) (td_rep B)) = []" "tv_candidates (compare_reports (td_rep A) (td_rep B)) = []"
  using assms by (simp_all add: differ_mem candidates_mem tdx_report_def field_differs_def split: prod.split)

section \<open>What the counts are\<close>

lemma counter_set: "set (map fst (py_counter xs)) = set xs" "distinct (map fst (py_counter xs))" "length (py_counter xs) = distinct_values xs"
proof -
  have m: "map fst (py_counter xs) = rev (remdups (rev xs))" by (simp add: py_counter_def comp_def)
  then show "set (map fst (py_counter xs)) = set xs" "distinct (map fst (py_counter xs))" by simp_all
  have "length (remdups (rev xs)) = length (remdups xs)" by (metis length_remdups_card_conv set_rev)
  then show "length (py_counter xs) = distinct_values xs" by (simp add: py_counter_def distinct_values_def)
qed

lemma counter_count: "(x, n) \<in> set (py_counter xs) \<longleftrightarrow> x \<in> set xs \<and> n = length (filter (\<lambda>y. y = x) xs)"
  by (auto simp: py_counter_def)

lemma sum_counts: "set xs \<subseteq> set ys \<Longrightarrow> distinct ys \<Longrightarrow> (\<Sum>x\<leftarrow>ys. length (filter (\<lambda>y. y = x) xs)) = length xs"
proof (induction xs)
  case (Cons z xs)
  have "(\<Sum>x\<leftarrow>ys. length (filter (\<lambda>y. y = x) (z # xs))) = (\<Sum>x\<leftarrow>ys. (if z = x then 1 else 0) + length (filter (\<lambda>y. y = x) xs))"
    by (rule arg_cong [where f = sum_list]) simp
  also have "\<dots> = (\<Sum>x\<leftarrow>ys. if z = x then 1 else 0) + length xs" using Cons by (simp add: sum_list_addf)
  also have "(\<Sum>x\<leftarrow>ys. if z = x then 1 else 0) = (1 :: nat)"
    using Cons.prems by (simp add: sum_list_distinct_conv_sum_set)
  finally show ?case by simp
qed simp

lemma counter_total: "sum_list (map snd (py_counter xs)) = length xs"
proof -
  have "sum_list (map snd (py_counter xs)) = (\<Sum>x\<leftarrow>rev (remdups (rev xs)). length (filter (\<lambda>y. y = x) xs))"
    by (simp only: py_counter_def map_map comp_def snd_conv)
  also have "\<dots> = length xs" by (rule sum_counts) simp_all
  finally show ?thesis .
qed

lemma distinct_values_le: "distinct_values xs \<le> length xs"
  by (simp add: distinct_values_def)

text \<open>A row counts every report of its cloud, and the two rows count every report once.\<close>

definition row_sound :: "reports \<Rightarrow> string \<Rightarrow> cloud_stats \<Rightarrow> bool" where
  "row_sound reps cloud s \<longleftrightarrow> cs_reports s = length (of_cloud cloud reps) \<and> sum_list (map snd (cs_keys s)) = cs_reports s
     \<and> cs_chips s \<le> cs_reports s \<and> cs_instances s \<le> cs_reports s
     \<and> (\<forall>f. py_map parse_snp (map fst (of_cloud cloud reps)) = Inr f \<longrightarrow>
         cs_chips s = card (snp_chip_id ` set f) \<and> cs_instances s = card (snp_report_id ` set f))"

lemma py_map_length: "py_map f xs = Inr ys \<Longrightarrow> length ys = length xs"
  by (induction xs arbitrary: ys) (auto simp: py_bind_Inr_iff)

lemma cloud_row_sound:
  assumes "cloud_row reps cloud = Inr s"
  shows "row_sound reps cloud s"
proof -
  obtain f where f: "py_map parse_snp (map fst (of_cloud cloud reps)) = Inr f"
    using assms by (auto simp: cloud_row_def Let_def py_bind_Inr_iff)
  then have n: "length f = length (of_cloud cloud reps)" using py_map_length by fastforce
  have s: "cs_reports s = length (of_cloud cloud reps)" "cs_keys s = py_counter (map snp_signing_key f)"
    "cs_chips s = distinct_values (map snp_chip_id f)" "cs_instances s = distinct_values (map snp_report_id f)"
    using assms f by (auto simp: cloud_row_def Let_def)
  show ?thesis
    unfolding row_sound_def f sum.inject s(2-4) counter_total
    using s(1) n distinct_values_le [of "map snp_chip_id f"] distinct_values_le [of "map snp_report_id f"]
    by (simp add: distinct_values_def length_remdups_card_conv)
qed

lemma clouds_partition: "length (of_cloud ''gcp'' reps) + length (of_cloud ''aws'' reps) = length reps"
proof -
  have "of_cloud ''gcp'' reps = filter (\<lambda>r. \<not> starts_with ''aws-'' (fst (snd r))) reps"
    "of_cloud ''aws'' reps = filter (\<lambda>r. starts_with ''aws-'' (fst (snd r))) reps"
    unfolding of_cloud_def by (rule filter_cong; auto split: if_splits)+
  then show ?thesis using sum_length_filter_compl [of "\<lambda>r. starts_with ''aws-'' (fst (snd r))" reps] by simp
qed

lemma gr_sev_snp_sound:
  assumes "gr_sev_snp cert reps = Inr (rows, ls)"
  shows "\<exists>g a. rows = [g, a] \<and> row_sound reps ''gcp'' g \<and> row_sound reps ''aws'' a \<and> cs_reports g + cs_reports a = length reps"
proof -
  obtain g a where r: "rows = [g, a]" "cloud_row reps ''gcp'' = Inr g" "cloud_row reps ''aws'' = Inr a"
    using assms by (auto simp: gr_sev_snp_def py_bind_Inr_iff)
  from cloud_row_sound [OF r(2)] cloud_row_sound [OF r(3)] r(1) clouds_partition [of reps] show ?thesis by (auto simp: row_sound_def)
qed

text \<open>Each leaf's line counts the instances of exactly the reports that come with it.\<close>

lemma by_leaf_mem: "(l, bs) \<in> set (by_leaf reps) \<longleftrightarrow> truthy l \<and> l \<in> snd ` snd ` set reps \<and> bs = map fst (filter (\<lambda>(b, src, k). k = l) reps)"
proof -
  have "fst ` set (py_counter (filter truthy (map (snd \<circ> snd) reps))) = set (filter truthy (map (snd \<circ> snd) reps))"
    using counter_set(1) by (metis set_map)
  then have "(\<exists>n. (l, n) \<in> set (py_counter (filter truthy (map (snd \<circ> snd) reps)))) \<longleftrightarrow> truthy l \<and> l \<in> snd ` snd ` set reps"
    by (force simp: counter_count)
  then show ?thesis by (auto simp: by_leaf_def)
qed

lemma gr_main_sound:
  assumes "gr_main cert reps runs = Inr (rc, (rows, ls), differ)"
  shows "rc = 0 \<and> (\<exists>g a. rows = [g, a] \<and> row_sound reps ''gcp'' g \<and> row_sound reps ''aws'' a \<and> cs_reports g + cs_reports a = length reps)
    \<and> length ls = card {l \<in> snd ` snd ` set reps. truthy l}"
proof -
  have g: "rc = 0" "gr_sev_snp cert reps = Inr (rows, ls)" using assms by (auto simp: gr_main_def py_bind_Inr_iff)
  then have "length ls = length (by_leaf reps)" by (auto simp: gr_sev_snp_def py_bind_Inr_iff dest: py_map_length)
  also have "\<dots> = card (set (filter truthy (map (snd \<circ> snd) reps)))"
    by (simp only: by_leaf_def length_map counter_set(3) distinct_values_def length_remdups_card_conv)
  also have "set (filter truthy (map (snd \<circ> snd) reps)) = {l \<in> snd ` snd ` set reps. truthy l}" by force
  finally show ?thesis using g(1) gr_sev_snp_sound [OF g(2)] by simp
qed

text \<open>What the TD's probe prints, undisturbed.\<close>

lemma td_prints:
  assumes "word_ok host" "wf_json out" "chunk_count (sent_hex out) \<le> 10000"
  shows "complete host ''tdx'' out (Inr (console (map (\<lambda>l. (l, [])) (tx_print host out))))"
proof -
  have "word_ok ''tdx''" by (auto simp: word_ok_def space_char_def TAG_def)
  then show ?thesis unfolding tx_print_def using assms by (intro printed_complete) simp_all
qed

end
