(* ===== verification/Sample_Claims.thy ===== *)
theory Sample_Claims
  imports Claims_Proofs Sample_Machines
begin

text \<open>
  Two TDs from one image whose reports differ in \<open>MROWNER\<close>, as the ones shipped under \<open>evidence/\<close> do, and their consoles.
\<close>

definition sample_tdreport :: "byte \<Rightarrow> bytes" where
  "sample_tdreport b = zeros 624 @ replicate 48 b @ zeros 352"

definition sample_td :: "string \<Rightarrow> td_guest" where
  "sample_td n = \<lparr>tg_host = n, tg_device = Inr (sample_tdreport (if n = ''tdx-a'' then 1 else 2)), tg_repr = (\<lambda>e. []), tg_kernel = None, tg_here = True\<rparr>"

definition td_lines :: "string \<Rightarrow> (string \<times> string) list" where
  "td_lines n = map (\<lambda>l. (l, [])) (probe_lines 2 n ''tdx'' (td_out (sample_td n)))"

definition td_console :: "nat \<Rightarrow> string \<Rightarrow> string py" where
  "td_console k n = Inr (console (td_lines n))"

lemma td_short: "chunk_count (sent_hex (td_out (sample_td n))) \<le> 10000" if "n = ''tdx-a'' \<or> n = ''tdx-b''"
proof -
  have d: "dec_int 1024 = ''1024''" by code_simp
  have "jbound (td_out (sample_td n)) \<le> 100000"
    using that by (auto simp: td_out_def tdx_out_def tdx_notes_def sample_td_def tdx_report_def sample_tdreport_def d len_simps)
  then have "length (encode (dumps default_seps (td_out (sample_td n)))) \<le> 100000" using dumps_bound [of "td_out (sample_td n)"] by simp
  then show ?thesis by (simp add: chunk_count_def len_simps)
qed

lemma td_received:
  assumes n: "n = ''tdx-a'' \<or> n = ''tdx-b''"
  shows "\<exists>mid. received n ''tdx'' (td_out (sample_td n)) [] mid (td_lines n)"
proof -
  have "word_ok n" "word_ok ''tdx''" using n by (auto simp: word_ok_def space_char_def TAG_def)
  moreover have "wf_json (td_out (sample_td n))"
    using n by (auto simp: td_out_def tdx_out_def tdx_notes_def sample_td_def list_all_iff)
  ultimately have "received n ''tdx'' (td_out (sample_td n)) [] (concat (replicate 2 (map (chunk_line (sent_hex (td_out (sample_td n))))
      [0..<chunk_count (sent_hex (td_out (sample_td n)))]))) (td_lines n)"
    using td_short [OF n] by (intro probe_received) (simp_all add: td_lines_def comp_def list_all_iff)
  then show ?thesis by blast
qed

lemma td_console_ok:
  assumes "n \<in> {''tdx-a'', ''tdx-b''}"
  shows "console_of (tg_host (sample_td n)) ''tdx'' (td_out (sample_td n)) (td_console k n)"
    "complete (tg_host (sample_td n)) ''tdx'' (td_out (sample_td n)) (td_console k n)"
proof -
  obtain mid where "received n ''tdx'' (td_out (sample_td n)) [] mid (td_lines n)" using td_received assms by blast
  then have "\<exists>n0 mid ls. received n ''tdx'' (td_out (sample_td n)) n0 mid ls \<and> console (td_lines n) = n0 @ console ls" by fastforce
  moreover have "tg_host (sample_td n) = n" by (simp add: sample_td_def)
  ultimately show "console_of (tg_host (sample_td n)) ''tdx'' (td_out (sample_td n)) (td_console k n)"
    "complete (tg_host (sample_td n)) ''tdx'' (td_out (sample_td n)) (td_console k n)"
    by (simp_all add: console_of_def complete_def td_console_def)
qed

lemma sample_td_reports:
  "td_rep (sample_td ''tdx-a'') = sample_tdreport 1" "td_rep (sample_td ''tdx-b'') = sample_tdreport 2" "length (sample_tdreport b) = 1024"
  by (simp_all add: sample_td_def tdx_report_def sample_tdreport_def len_simps)

lemma sample_td_differ: "compare_reports (sample_tdreport 1) (sample_tdreport 2)
    = \<lparr>tv_differ = [''TDINFO.MROWNER''], tv_candidates = [''TDINFO.MROWNER''],
      tv_same = filter (\<lambda>n. n \<noteq> ''TDINFO.MROWNER'') (map fst FIELDS)\<rparr>"
proof -
  have s: "slice i j (sample_tdreport 1) = slice i j (sample_tdreport 2)" if "j \<le> 624 \<or> 672 \<le> i" for i j
    using that by (auto simp: slice_def sample_tdreport_def len_simps)
  have "slice 624 672 (sample_tdreport b) = replicate 48 b" for b by (simp add: slice_def sample_tdreport_def len_simps)
  then have "slice 624 672 (sample_tdreport 1) \<noteq> slice 624 672 (sample_tdreport 2)" by simp
  then show ?thesis by (simp add: compare_reports_def FIELDS_def field_differs_def Let_def s starts_with_def)
qed

section \<open>Three SEV-SNP reports of two instances\<close>

definition granular_reports :: reports where
  "granular_reports = [(snp_bytes (rid_of ''a'') (zeros 64), ''gcp-run'', JNull),
     (snp_bytes (rid_of ''a'') (replicate 64 1), ''aws-run'', JStr ''00''), (snp_bytes (rid_of ''b'') (zeros 64), ''aws-run'', JStr ''00'')]"

lemma granular_parse:
  assumes "length rd = 64"
  obtains f where "parse_snp (snp_bytes (rid_of n) rd) = Inr f" "snp_report_id f = rid_of n"
proof -
  obtain f where f: "parse_snp (snp_bytes (rid_of n) rd) = Inr f" "snp_anchor f = Some \<lparr>anchor_instance = rid_of n, anchor_place = None\<rparr>"
    using snp_bytes_fields(2) [OF rid_of_facts(1) assms rid_of_facts(2)] by blast
  from f(2) have "snp_report_id f = rid_of n" by (auto simp: snp_anchor_def present_id_def split: if_splits option.splits)
  with f(1) show thesis by (rule that)
qed

lemma granular_run:
  "\<exists>rows. gr_main (\<lambda>_. Inr (''CN=SEV-VLEK'', ''us-east-2'')) granular_reports [] = Inr (0, (rows, [(''CN=SEV-VLEK'', ''us-east-2'', 2)]), None)
    \<and> map cs_reports rows = [1, 2]"
proof -
  obtain f where f: "parse_snp (snp_bytes (rid_of ''a'') (zeros 64)) = Inr f" "snp_report_id f = rid_of ''a''"
    by (rule granular_parse [of "zeros 64"]) (simp add: len_simps)
  obtain g where g: "parse_snp (snp_bytes (rid_of ''a'') (replicate 64 1)) = Inr g" "snp_report_id g = rid_of ''a''"
    by (rule granular_parse [of "replicate 64 1"]) simp
  obtain h where h: "parse_snp (snp_bytes (rid_of ''b'') (zeros 64)) = Inr h" "snp_report_id h = rid_of ''b''"
    by (rule granular_parse [of "zeros 64"]) (simp add: len_simps)
  have of: "of_cloud ''gcp'' granular_reports = [granular_reports ! 0]" "of_cloud ''aws'' granular_reports = [granular_reports ! 1, granular_reports ! 2]"
    by (simp_all add: of_cloud_def granular_reports_def starts_with_def)
  have bl: "by_leaf granular_reports = [(JStr ''00'', [snp_bytes (rid_of ''a'') (replicate 64 1), snp_bytes (rid_of ''b'') (zeros 64)])]"
    by (simp add: by_leaf_def granular_reports_def py_counter_def)
  have z: "fromhex ''00'' = Inr [0]" by code_simp
  have r: "\<exists>s. cloud_row granular_reports ''gcp'' = Inr s \<and> cs_reports s = 1" "\<exists>s. cloud_row granular_reports ''aws'' = Inr s \<and> cs_reports s = 2"
    unfolding cloud_row_def of using f g h by (simp_all add: granular_reports_def Let_def)
  have l: "py_map (leaf_row (\<lambda>_. Inr (''CN=SEV-VLEK'', ''us-east-2''))) (by_leaf granular_reports) = Inr [(''CN=SEV-VLEK'', ''us-east-2'', 2)]"
    unfolding bl using g h rid_of_facts(3) z by (simp add: leaf_row_def distinct_values_def)
  from r l show ?thesis by (auto simp: gr_main_def gr_sev_snp_def gr_tdx_def)
qed

end
