(* ===== verification/Mandate_Types.thy ===== *)
theory Mandate_Types
  imports Attack_Steps
begin

text \<open>
  Typing of the mandate's state along every run: the hexadecimal fields of each record read back, links have 32 bytes
  and counters 64 bits. In a state so typed the calls that read the ledger do not raise.
\<close>

definition well_typed :: "mandate \<Rightarrow> bool" where
  "well_typed m \<longleftrightarrow> sessions_ok m \<and> set (store_keys (mstore m)) \<subseteq> range hex \<and> (\<forall>b. \<exists>r. mandate_rec m (hex b) = Inr r \<and> wf_rec r \<and> rec_bounded r \<and> rec_typed r)"

lemma well_typedE:
  assumes "well_typed m"
  obtains r where "mandate_rec m (hex b) = Inr r" "wf_rec r" "rec_bounded r" "rec_typed r"
  using assms by (auto simp: well_typed_def)

lemma rec_typed_norm [simp]: "rec_typed (map_nonces f r) = rec_typed r"
  by (simp add: rec_typed_def map_nonces_def)

lemma rec_step_typed:
  assumes "rec_step r r'" "rec_typed r"
  shows "rec_typed r'"
  using assms(1) unfolding rec_step_def
proof (elim disjE)
  assume "enrolled_by r r'"
  then show ?thesis using assms(2) by (auto simp: enrolled_by_def rec_typed_def enrolled_rec_def Let_def split: option.splits)
next
  assume "revoked_by r r'"
  then show ?thesis using assms(2) by (auto simp: revoked_by_def rec_typed_def)
qed (use assms(2) in \<open>auto simp: soft_def moved_by_def\<close>)

lemma mstep_well_typed:
  assumes "mstep m m'" "well_typed m"
  shows "well_typed m'"
  unfolding well_typed_def
proof (intro conjI allI)
  show "sessions_ok m'" using mstep_sessions_ok [OF assms(1)] assms(2) by (simp add: well_typed_def)
  obtain tik where "ledger_step (hex tik) rec_step m m'" using mstep_ledger [OF assms(1)] by blast
  then show "set (store_keys (mstore m')) \<subseteq> range hex"
    using assms(2) st.keys_put by (fastforce simp: ledger_step_def well_typed_def)
  fix b
  obtain r where r: "mandate_rec m (hex b) = Inr r" "wf_rec r" "rec_bounded r" "rec_typed r" using assms(2) by (rule well_typedE)
  obtain r' where "mandate_rec m' (hex b) = Inr r'" "wf_rec r'" "rec_bounded r'"
    "r' = r \<or> (\<exists>s. rec_step r s \<and> r' = map_nonces (store_norm (mstore m)) s)"
    using mstep_rec [OF assms(1) r(1-3)] by blast
  then show "\<exists>r. mandate_rec m' (hex b) = Inr r \<and> wf_rec r \<and> rec_bounded r \<and> rec_typed r"
    using rec_step_typed r(4) by fastforce
qed

lemma reach_well_typed: "reach m m' \<Longrightarrow> well_typed m \<Longrightarrow> well_typed m'"
  by (induction rule: reach_induct) (auto intro: mstep_well_typed)

lemma new_keys: "set (store_keys (mstore (mandate_new c (MemoryStore [])))) = {}" "set (store_keys (mstore (mandate_new c (FileStore p [])))) = {}"
  by (simp_all add: mandate_new_def memory_keys_def file_keys_def)

lemma well_typed_new: "well_typed (mandate_new c (MemoryStore []))" "well_typed (mandate_new c (FileStore p []))"
proof -
  have "wf_rec blank" "rec_bounded blank" "rec_typed blank" by (simp_all add: wf_rec_def rec_bounded_def) (simp add: rec_typed_def blank_def)
  moreover have "mandate_rec (mandate_new c (MemoryStore [])) (hex b) = Inr blank" "mandate_rec (mandate_new c (FileStore p [])) (hex b) = Inr blank" for b
    by (simp_all add: mandate_rec_def mandate_new_def memory_get_def file_get_def store_file_def)
  ultimately show "well_typed (mandate_new c (MemoryStore []))" "well_typed (mandate_new c (FileStore p []))"
    by (simp_all add: well_typed_def sessions_ok_new new_keys)
qed

text \<open>The calls that return in such a state, whatever a peer presents.\<close>

lemma returns_present:
  assumes t: "well_typed m" and pl: "fromhex (msg_post_link msg) = Inr pl"
    and v: "verify_report (cfg m) (msg_evidence msg) (report_data_for pl head) = Inr v"
    and len: "length sc < 256" "0 \<le> msg_counter msg" "msg_counter msg < 2 ^ 64"
  shows "\<exists>acc why m'. present i m tik sc ex msg head None = (Inr (acc, why), m') \<and> well_typed m'"
proof -
  obtain r where r: "mandate_rec m (hex tik) = Inr r" "rec_typed r" using t by (rule well_typedE)
  obtain x y z where xyz: "opt_fromhex (enrolled_instance r) = Inr x" "opt_fromhex (enrolled_place r) = Inr y"
    "opt_fromhex (observed_instance r) = Inr z" using r(2) by (auto simp: rec_typed_def hexed_def)
  obtain ok an where va: "v = (ok, an)" by (cases v)
  have ok: "sessions_ok m" "sessions_ok (emit_event m e)" for e using t by (simp_all add: well_typed_def sessions_ok_def)
  have g: "returns (appraise_gate i m1 tik sc ex msg pl r an)" if "sessions_ok m1" for m1
    unfolding appraise_gate_def Let_def xyz sum.case
    by (intro returns_if returns_refuse returns_refuse_saved returns_chain that len)
  have "\<exists>h. head_check m (hex tik) head None = Inr h" by (cases head) (auto simp: head_check_def split: if_splits)
  then obtain h where h: "head_check m (hex tik) head None = Inr h" by blast
  have "returns (appraise i m tik sc ex msg head None)"
    using r(1) pl h v va g [OF ok(1)] g [OF ok(2)] returns_refuse by (cases h) (auto simp: appraise_def Let_def)
  then obtain w m1 where "appraise i m tik sc ex msg head None = (Inr w, m1)" by (auto simp: returns_def)
  moreover obtain acc why inst where "w = (acc, why, inst)" by (cases w)
  ultimately obtain m' where "present i m tik sc ex msg head None = (Inr (acc, why), m')" by (simp add: present_eq)
  with mstep_well_typed [OF mstep.present t] show ?thesis by blast
qed

lemma returns_revoke:
  assumes "well_typed m"
  shows "\<exists>m'. revoke i m tik why = (Inr (True, ''identity revoked: '' @ why), m') \<and> well_typed m'"
proof -
  obtain r where r: "mandate_rec m (hex tik) = Inr r" using assms by (rule well_typedE)
  then obtain m' where "revoke i m tik why = (Inr (True, ''identity revoked: '' @ why), m')" by (rule revoke_ok [of m tik r why i])
  with mstep_well_typed [OF mstep.revoke assms] show ?thesis by blast
qed

text \<open>The views of the ledger: a dictionary that reads as a record gives its hexadecimal fields.\<close>

lemma hexed_field: "field d k opt_of None = Some x \<Longrightarrow> hexed x \<Longrightarrow> \<exists>a. fromhex_if (dget d k) = Inr a"
  by (auto simp: field_def dget_def hexed_def opt_fromhex_def fromhex_if_def split: option.splits if_splits elim!: opt_of.elims)

lemma raw_fields:
  assumes "mandate_rec m k = Inr r" "rec_typed r"
  obtains d a ob p where "raw_rec m k = Inr d" "fromhex_if (dget d ''enrolled_instance'') = Inr a"
    "fromhex_if (dget d ''observed_instance'') = Inr ob" "fromhex_if (dget d ''enrolled_place'') = Inr p"
proof -
  from assms(1) consider "store_get (mstore m) k = Inr None" | j where "store_get (mstore m) k = Inr (Some j)" "rec_of_json j = Some r"
    unfolding mandate_rec_def py_bind_Inr_iff by (elim exE conjE) (force split: option.splits)
  then show thesis
  proof cases
    case 1
    then show thesis by (intro that [of "[]"]) (simp_all add: raw_rec_def dget_def fromhex_if_def)
  next
    case 2
    from 2(2) obtain d where d: "j = JObj d" by (cases j) auto
    have "field d ''enrolled_instance'' opt_of None = Some (enrolled_instance r)"
      "field d ''observed_instance'' opt_of None = Some (observed_instance r)"
      "field d ''enrolled_place'' opt_of None = Some (enrolled_place r)"
      using 2(2) unfolding d by (auto simp: Option.bind_eq_Some_conv)
    with assms(2) obtain a ob p where f: "fromhex_if (dget d ''enrolled_instance'') = Inr a"
      "fromhex_if (dget d ''observed_instance'') = Inr ob" "fromhex_if (dget d ''enrolled_place'') = Inr p"
      unfolding rec_typed_def using hexed_field by metis
    have "raw_rec m k = Inr d" using 2(1) by (cases d) (simp_all add: raw_rec_def d)
    then show thesis using f by (rule that)
  qed
qed

lemma returns_views:
  assumes "well_typed m"
  shows "\<exists>e. enrolled m = Inr e" "\<exists>v. identity m = Inr v" "\<exists>c. mandate_contention m = Inr c"
proof -
  have "(\<exists>e. enrolled_of m ks = Inr e) \<and> (\<exists>v. identity_of m ks = Inr v) \<and> (\<exists>c. contention_of m ks = Inr c)"
    if "set ks \<subseteq> range hex" for ks
    using that
  proof (induction ks)
    case (Cons k ks)
    then obtain b where b: "k = hex b" by auto
    obtain r where "mandate_rec m k = Inr r" "rec_typed r" using assms unfolding b by (rule well_typedE)
    then obtain d a ob p where "raw_rec m k = Inr d" "fromhex_if (dget d ''enrolled_instance'') = Inr a"
      "fromhex_if (dget d ''observed_instance'') = Inr ob" "fromhex_if (dget d ''enrolled_place'') = Inr p" by (rule raw_fields)
    with Cons show ?case by (auto simp: Let_def)
  qed simp
  moreover have "set (store_keys (mstore m)) \<subseteq> range hex" using assms by (simp add: well_typed_def)
  ultimately show "\<exists>e. enrolled m = Inr e" "\<exists>v. identity m = Inr v" "\<exists>c. mandate_contention m = Inr c"
    by (simp_all add: enrolled_def identity_def mandate_contention_def)
qed

end
