(* ===== verification/Bench.thy ===== *)
theory Bench
  imports Local_Run
begin

text \<open>
  \<open>bench/benchmark.py\<close>: the time of a link and of a check, and five counts over many trials: honest reconnects refused,
  stolen keys accepted, honest steps refused on one connection and on sixteen, relayed exporters accepted. The constants are
  those of \<open>Attacks\<close>, \<open>enrolled\<close> is \<open>enrolled_mandate\<close>. The clock is an argument, by the number of its reading; \<open>k\<close> runs over the trials, each
  with its draws and its pair of session context and exporter.
\<close>

section \<open>Loops that are timed or counted\<close>

text \<open>\<open>timed(fn, reps)\<close>: the mean over the calls, and what they left behind. The clock is read for the \<open>j\<close>-th time before them.\<close>

definition timed :: "(nat \<Rightarrow> rat) \<Rightarrow> nat \<Rightarrow> (nat \<Rightarrow> 's \<Rightarrow> 's py) \<Rightarrow> nat \<Rightarrow> 's \<Rightarrow> (rat \<times> 's) py" where
  "timed clock j fn reps s = py_bind (py_fold fn [0..<reps] s) (\<lambda>s'.
     if reps = 0 then Inl (ZeroDivisionError ''float division by zero'') else Inr ((clock (Suc j) - clock j) / of_nat reps, s'))"

text \<open>\<open>1/t\<close>, as it is printed.\<close>

definition per_second :: "rat \<Rightarrow> rat py" where
  "per_second t = (if t = 0 then Inl (ZeroDivisionError ''float division by zero'') else Inr (1 / t))"

definition count_of :: "(nat \<Rightarrow> bool py) \<Rightarrow> nat \<Rightarrow> nat py" where
  "count_of f n = py_fold (\<lambda>k c. py_bind (f k) (\<lambda>b. Inr (c + (if b then 1 else 0)))) [0..<n] 0"

section \<open>The two times\<close>

definition LINK_REPS :: nat where "LINK_REPS = 200000"

definition CHECK_REPS :: nat where "CHECK_REPS = 2000"

definition bench_link :: "(nat \<Rightarrow> rat) \<Rightarrow> world \<Rightarrow> bytes \<Rightarrow> bytes \<Rightarrow> (rat \<times> rat) py" where
  "bench_link clock W sc ex =
     py_bind (intra_link sc (wd_tik W)) (\<lambda>base.
     py_bind (timed clock 0 (\<lambda>k s. py_bind (post_link ex base 7) (\<lambda>_. Inr s)) LINK_REPS ()) (\<lambda>(t, _).
     py_bind (per_second t) (\<lambda>r. Inr (t, r))))"

text \<open>The steps are attested before; each check takes the next one.\<close>

definition bench_steps :: "world \<Rightarrow> draws \<Rightarrow> bytes \<times> bytes \<Rightarrow> message list py" where
  "bench_steps W D s =
     py_bind (py_fold (\<lambda>k (ms, a). py_bind (atk_attest W D (Suc k) (teeA W) a (fst s) (snd s)) (\<lambda>(msg, a'). Inr (ms @ [msg], a')))
       [0..<CHECK_REPS] ([], attester_new (wd_tik W))) (\<lambda>(ms, _). Inr ms)"

definition bench_check :: "(nat \<Rightarrow> rat) \<Rightarrow> world \<Rightarrow> draws \<Rightarrow> bytes \<times> bytes \<Rightarrow> (rat \<times> rat) py" where
  "bench_check clock W D s =
     py_bind (enrolled_mandate W D) (\<lambda>m.
     py_bind (bench_steps W D s) (\<lambda>steps.
     py_bind (timed clock 2 (\<lambda>k m. if k < length steps then py_bind (atk_present W D (Suc k) m (fst s) (snd s) (steps ! k)) (\<lambda>(_, _, m'). Inr m')
         else Inl (LibError ''StopIteration'')) CHECK_REPS m) (\<lambda>(t, _).
     py_bind (per_second t) (\<lambda>r. Inr (t, r)))))"

section \<open>The five counts\<close>

text \<open>1. and 2.: a trial on the enrolled instance, and with the stolen key on another.\<close>

definition false_reject :: "world \<Rightarrow> draws \<Rightarrow> bytes \<times> bytes \<Rightarrow> bool py" where
  "false_reject W D s = py_bind (enrolled_mandate W D) (\<lambda>m.
     py_bind (atk_step W D 1 (teeA W) (attester_new (wd_tik W)) m (fst s) (snd s)) (\<lambda>(ok, _). Inr (\<not> ok)))"

definition missed_theft :: "world \<Rightarrow> draws \<Rightarrow> bytes \<times> bytes \<Rightarrow> bool py" where
  "missed_theft W D s = py_bind (enrolled_mandate W D) (\<lambda>m.
     py_bind (atk_step W D 1 (teeB W) (attester_new (wd_tik W)) m (fst s) (snd s)) (\<lambda>(ok, _). Inr ok))"

text \<open>3.: the steps of one connection.\<close>

definition one_chain :: "world \<Rightarrow> draws \<Rightarrow> bytes \<times> bytes \<Rightarrow> nat \<Rightarrow> nat py" where
  "one_chain W D s n = py_bind (enrolled_mandate W D) (\<lambda>m.
     py_bind (py_fold (\<lambda>k (c, a, m). py_bind (atk_step W D (Suc k) (teeA W) a m (fst s) (snd s)) (\<lambda>(ok, _, _, a', m').
         Inr (c + (if ok then 0 else 1), a', m'))) [0..<n] (0, attester_new (wd_tik W), m)) (\<lambda>(c, _). Inr c))"

text \<open>4.: \<open>n // 16\<close> rounds over sixteen connections; \<open>P i\<close> is the pair of the \<open>i\<close>-th.\<close>

definition parallel_step :: "world \<Rightarrow> draws \<Rightarrow> (nat \<Rightarrow> bytes \<times> bytes) \<Rightarrow> nat \<Rightarrow> nat \<Rightarrow> nat \<times> attester list \<times> mandate \<Rightarrow> (nat \<times> attester list \<times> mandate) py" where
  "parallel_step W D P r i = (\<lambda>(c, ats, m).
     py_bind (atk_step W D (Suc (16 * r + i)) (teeA W) (ats ! i) m (fst (P i)) (snd (P i))) (\<lambda>(ok, _, _, a', m').
       Inr (c + (if ok then 0 else 1), ats[i := a'], m')))"

definition many_chains :: "world \<Rightarrow> draws \<Rightarrow> (nat \<Rightarrow> bytes \<times> bytes) \<Rightarrow> nat \<Rightarrow> nat py" where
  "many_chains W D P n = py_bind (enrolled_mandate W D) (\<lambda>m.
     py_bind (py_fold (\<lambda>r. py_fold (parallel_step W D P r) [0..<16]) [0..<n div 16] (0, replicate 16 (attester_new (wd_tik W)), m))
       (\<lambda>(c, _). Inr c))"

text \<open>5.: the verifier derives an exporter of its own.\<close>

definition relayed_in :: "world \<Rightarrow> draws \<Rightarrow> bytes \<times> bytes \<Rightarrow> bool py" where
  "relayed_in W D s = py_bind (enrolled_mandate W D) (\<lambda>m.
     py_bind (atk_step W D 1 (teeA W) (attester_new (wd_tik W)) m (fst s) (snd s)) (\<lambda>(_, _, _, g, m1).
     py_bind (atk_attest W D 2 (teeA W) g (fst s) (snd s)) (\<lambda>(msg, _).
     py_bind (atk_present W D 2 m1 (fst s) (dr_e2 D) msg) (\<lambda>(ok, _). Inr ok))))"

section \<open>The script\<close>

record bench_result =
  br_link :: "rat \<times> rat"
  br_check :: "rat \<times> rat"
  br_false_rejects :: nat
  br_missed :: nat
  br_breaks :: nat
  br_par_breaks :: nat
  br_relay_in :: nat

text \<open>\<open>Ds q k\<close> and \<open>S q k\<close>: of the \<open>k\<close>-th trial of the \<open>q\<close>-th part.\<close>

definition bench_main :: "(nat \<Rightarrow> rat) \<Rightarrow> world \<Rightarrow> nat \<Rightarrow> (nat \<Rightarrow> nat \<Rightarrow> draws) \<Rightarrow> (nat \<Rightarrow> nat \<Rightarrow> bytes \<times> bytes) \<Rightarrow> bench_result py" where
  "bench_main clock W n Ds S =
     py_bind (bench_link clock W (fst (S 0 0)) (snd (S 0 0))) (\<lambda>l.
     py_bind (bench_check clock W (Ds 0 0) (S 0 1)) (\<lambda>c.
     py_bind (count_of (\<lambda>k. false_reject W (Ds 1 k) (S 1 k)) n) (\<lambda>c1.
     py_bind (count_of (\<lambda>k. missed_theft W (Ds 2 k) (S 2 k)) n) (\<lambda>c2.
     py_bind (one_chain W (Ds 3 0) (S 3 0) n) (\<lambda>c3.
     py_bind (many_chains W (Ds 4 0) (S 4) n) (\<lambda>c4.
     py_bind (count_of (\<lambda>k. relayed_in W (Ds 5 k) (S 5 k)) n) (\<lambda>c5.
       Inr \<lparr>br_link = l, br_check = c, br_false_rejects = c1, br_missed = c2, br_breaks = c3, br_par_breaks = c4, br_relay_in = c5\<rparr>)))))))"

end
