(* ===== verification/Bench_Proofs.thy ===== *)
theory Bench_Proofs
  imports Bench Sample_Local
begin

text \<open>
  The five counts of \<open>Bench\<close> are 0, for any number of trials, but for trials with a relayed exporter whose links collide.
\<close>

section \<open>Loops\<close>

lemma count_zero:
  assumes "\<And>k. k < n \<Longrightarrow> f k = Inr False"
  shows "count_of f n = Inr 0"
proof -
  have "\<exists>c. py_fold (\<lambda>k c. py_bind (f k) (\<lambda>b. Inr (c + (if b then 1 else 0)))) [0..<n] 0 = Inr c \<and> c = (0 :: nat)"
    by (rule py_fold_upto [where P = "\<lambda>k c. c = 0"]) (simp_all add: assms)
  then show ?thesis by (simp add: count_of_def)
qed

lemma timed_returns:
  assumes "P 0 s" "\<And>k s. k < n \<Longrightarrow> P k s \<Longrightarrow> \<exists>s'. f k s = Inr s' \<and> P (Suc k) s'" "0 < n" "clock j < clock (Suc j)"
  shows "\<exists>t s' r. timed clock j f n s = Inr (t, s') \<and> per_second t = Inr r \<and> 0 < t"
proof -
  obtain s' where "py_fold f [0..<n] s = Inr s'" using py_fold_upto [of P s n f, OF assms(1,2)] by auto
  moreover have "0 < (clock (Suc j) - clock j) / of_nat n" using assms(3,4) by simp
  ultimately show ?thesis using assms(3,4) by (simp add: timed_def per_second_def)
qed

section \<open>The times\<close>

lemma bench_link_returns:
  assumes "length sc < 256" "clock 0 < clock 1"
  shows "\<exists>t r. bench_link clock W sc ex = Inr (t, r) \<and> 0 < t"
proof -
  have i: "intra_link sc (wd_tik W) = Inr (intra_value sc (wd_tik W))" using assms(1) by (simp add: intra_link_Inr)
  have p: "post_link ex (intra_value sc (wd_tik W)) 7 = Inr (post_value ex (intra_value sc (wd_tik W)) 7)" by (simp add: post_link_Inr len_simps)
  have "clock 0 < clock (Suc 0)" using assms(2) by simp
  then obtain t r where "timed clock 0 (\<lambda>k s. py_bind (post_link ex (intra_value sc (wd_tik W)) 7) (\<lambda>_. Inr s)) LINK_REPS () = Inr (t, ())"
    "per_second t = Inr r" "0 < t"
    using timed_returns [of "\<lambda>k s. True" "()" LINK_REPS "\<lambda>k s. py_bind (post_link ex (intra_value sc (wd_tik W)) 7) (\<lambda>_. Inr s)" clock 0] p
    by (auto simp: LINK_REPS_def)
  then show ?thesis by (simp add: bench_link_def i)
qed

text \<open>A chain attested ahead of its checks.\<close>

definition attested :: "world \<Rightarrow> bytes \<times> bytes \<Rightarrow> message list \<Rightarrow> nat \<Rightarrow> bool" where
  "attested W s ms n \<longleftrightarrow> length ms = n \<and> (\<forall>k < n. msg_counter (ms ! k) = int k \<and> msg_post_link (ms ! k) = hex (link_at (fst s) (wd_tik W) (snd s) k)
     \<and> mock_verifier (wd_crypto W) (both_chips W) (msg_evidence (ms ! k)) (report_data_for (link_at (fst s) (wd_tik W) (snd s) k) None)
       = Inr (True, Some (anchor_of (teeA W))))"

lemma plain_verifies: "verify_report (cfg (plain_mandate W D)) = mock_verifier (wd_crypto W) (both_chips W)"
  by (simp add: plain_mandate_def mandate_new_def)

lemma bench_steps_attested:
  assumes W: "fair_world W" and len: "length (fst s) < 256"
  shows "\<exists>ms. bench_steps W D s = Inr ms \<and> attested W s ms CHECK_REPS"
proof -
  note T = trusted_both [OF W]
  let ?f = "\<lambda>k (ms, a). py_bind (atk_attest W D (Suc k) (teeA W) a (fst s) (snd s)) (\<lambda>(msg, a'). Inr (ms @ [msg], a'))"
  let ?P = "\<lambda>k (ms, a). attested W s ms k \<and> a = attester_at (fst s) (wd_tik W) (snd s) k"
  obtain x where x: "py_fold ?f [0..<CHECK_REPS] ([], attester_new (wd_tik W)) = Inr x" "?P CHECK_REPS x"
  proof -
    have "\<exists>x. py_fold ?f [0..<CHECK_REPS] ([], attester_new (wd_tik W)) = Inr x \<and> ?P CHECK_REPS x"
    proof (rule py_fold_upto)
      show "?P 0 ([], attester_new (wd_tik W))" by (simp add: attested_def attester_new_at [of _ "fst s" "snd s"])
    next
      fix k x assume k: "k < CHECK_REPS" and P: "?P k x"
      obtain ms where ms: "x = (ms, attester_at (fst s) (wd_tik W) (snd s) k)" "attested W s ms k" using P by (cases x) auto
      have n: "int k < 2 ^ 64" using k by (simp add: CHECK_REPS_def)
      obtain msg where msg: "atk_attest W D (Suc k) (teeA W) (attester_at (fst s) (wd_tik W) (snd s) k) (fst s) (snd s)
            = Inr (msg, attester_at (fst s) (wd_tik W) (snd s) (Suc k))" "msg_counter msg = int k"
          "msg_post_link msg = hex (link_at (fst s) (wd_tik W) (snd s) k)"
          "\<forall>m. verify_report (cfg m) = mock_verifier (wd_crypto W) (both_chips W) \<longrightarrow>
            verify_report (cfg m) (msg_evidence msg) (report_data_for (link_at (fst s) (wd_tik W) (snd s) k) None) = Inr (True, Some (anchor_of (teeA W)))
            \<and> sees m (wd_tik W) msg None None (anchor_of (teeA W))"
        using atk_attest_link [OF T(3,1) len n, of D "Suc k" "snd s"] by (elim exE conjE) (rule that)
      have v: "mock_verifier (wd_crypto W) (both_chips W) (msg_evidence msg) (report_data_for (link_at (fst s) (wd_tik W) (snd s) k) None)
            = Inr (True, Some (anchor_of (teeA W)))"
        using spec [OF msg(4), of "plain_mandate W D"] plain_verifies [of W D] by simp
      have "attested W s (ms @ [msg]) (Suc k)" using ms(2) msg(2,3) v by (auto simp: attested_def nth_append less_Suc_eq)
      with ms(1) msg(1) show "\<exists>x'. ?f k x = Inr x' \<and> ?P (Suc k) x'" by simp
    qed
    with that show thesis by blast
  qed
  then show ?thesis by (auto simp: bench_steps_def split: prod.splits)
qed

lemma bench_check_returns:
  assumes W: "fair_world W" "on_time D" and len: "length (fst s) < 256" and clock: "clock 2 < clock 3"
  shows "\<exists>t r. bench_check clock W D s = Inr (t, r) \<and> 0 < t"
proof -
  note T = trusted_both [OF W(1)]
  obtain m where m: "enrolled_mandate W D = Inr m" "served W (both_chips W) (attack_cfg W D (both_chips W) False) (anchor_of (teeA W)) m"
    "sessions m = Map.empty" by (rule enrolled_served [OF W])
  obtain ms where ms: "bench_steps W D s = Inr ms" "attested W s ms CHECK_REPS" using bench_steps_attested [OF W(1) len, of D] by blast
  let ?P = "\<lambda>k m. running W (both_chips W) (teeA W) (fst s) (snd s) k m"
  let ?f = "\<lambda>k m. if k < length ms then py_bind (atk_present W D (Suc k) m (fst s) (snd s) (ms ! k)) (\<lambda>(_, _, m'). Inr m')
     else Inl (LibError ''StopIteration'')"
  have start: "?P 0 m" using m by (intro served_running) simp_all
  have step: "\<exists>m'. ?f k m = Inr m' \<and> ?P (Suc k) m'" if k: "k < CHECK_REPS" and P: "?P k m" for k m
  proof -
    have n: "int k < 2 ^ 64" using k by (simp add: CHECK_REPS_def)
    have g: "msg_counter (ms ! k) = int k" "msg_post_link (ms ! k) = hex (link_at (fst s) (wd_tik W) (snd s) k)" "length ms = CHECK_REPS"
      "verify_report (cfg m) (msg_evidence (ms ! k)) (report_data_for (link_at (fst s) (wd_tik W) (snd s) k) None) = Inr (True, Some (anchor_of (teeA W)))"
      using ms(2) k P by (simp_all add: attested_def running_def)
    from running_present [OF P len n g(1,2,4), of D "Suc k"] obtain m' where
      "atk_present W D (Suc k) m (fst s) (snd s) (ms ! k) = Inr (True, ''accepted; continuity intact'', m')" "?P (Suc k) m'" by blast
    with g(3) k show ?thesis by simp
  qed
  have c: "clock 2 < clock (Suc 2)" using clock by (simp add: eval_nat_numeral)
  have "0 < CHECK_REPS" by (simp add: CHECK_REPS_def)
  from timed_returns [of ?P m CHECK_REPS ?f clock 2, OF start step this c] obtain t m' r where
    "timed clock 2 ?f CHECK_REPS m = Inr (t, m')" "per_second t = Inr r" "0 < t" by blast
  with m(1) ms(1) show ?thesis by (simp add: bench_check_def)
qed

section \<open>The counts\<close>

lemma no_false_reject:
  assumes W: "fair_world W" "on_time D" and len: "length (fst s) < 256"
  shows "false_reject W D s = Inr False"
proof -
  note T = trusted_both [OF W(1)]
  obtain m where m: "enrolled_mandate W D = Inr m" "served W (both_chips W) (attack_cfg W D (both_chips W) False) (anchor_of (teeA W)) m"
    "sessions m = Map.empty" by (rule enrolled_served [OF W])
  have "sessions m (hex (wd_tik W), session_key (fst s)) = None" using m(3) by simp
  then obtain w g a m1 where "atk_step W D 1 (teeA W) (attester_new (wd_tik W)) m (fst s) (snd s) = Inr (True, w, g, a, m1)"
    by (rule served_first [OF T(3,1) len m(2), of D 1 "snd s"]) auto
  with m(1) show ?thesis by (simp add: false_reject_def)
qed

lemma no_missed_theft:
  assumes W: "fair_world W" "on_time D" and len: "length (fst s) < 256"
  shows "missed_theft W D s = Inr False"
proof -
  note T = trusted_both [OF W(1)]
  obtain m where m: "enrolled_mandate W D = Inr m" "served W (both_chips W) (attack_cfg W D (both_chips W) False) (anchor_of (teeA W)) m"
    by (rule enrolled_served [OF W])
  have a: "0 \<le> at_counter (attester_new (wd_tik W))" "at_counter (attester_new (wd_tik W)) < 2 ^ 64"
    "\<And>p. at_prev (attester_new (wd_tik W)) = Some p \<Longrightarrow> length p = 32" by (simp_all add: attester_new_def)
  obtain w g a' m1 where "atk_step W D 1 (teeB W) (attester_new (wd_tik W)) m (fst s) (snd s) = Inr (False, w, g, a', m1)"
    using served_intruder [OF T(3,2) m(2) T(4) len a, of D 1 "snd s"] by blast
  with m(1) show ?thesis by (simp add: missed_theft_def)
qed

lemma no_relay_in:
  assumes W: "fair_world W" "on_time D" and len: "length (fst s) < 256"
    and e: "length (snd s) = length (dr_e2 D)" "length (dr_e2 D) \<le> 128" "snd s \<noteq> dr_e2 D"
    and no: "\<not> link_collision (snd s, link_at (fst s) (wd_tik W) (snd s) 0, 1) (dr_e2 D, link_at (fst s) (wd_tik W) (snd s) 0, 1)"
  shows "relayed_in W D s = Inr False"
proof (rule enrolled_two [OF W len])
  fix m why msg m1 step a2
  assume 1: "enrolled_mandate W D = Inr m"
    "atk_step W D 1 (teeA W) (attester_new (wd_tik W)) m (fst s) (snd s) = Inr (True, why, msg, attester_at (fst s) (wd_tik W) (snd s) 1, m1)"
    "running W (both_chips W) (teeA W) (fst s) (snd s) 1 m1"
    "atk_attest W D 2 (teeA W) (attester_at (fst s) (wd_tik W) (snd s) 1) (fst s) (snd s) = Inr (step, a2)"
    and step: "msg_counter step = 1" "msg_post_link step = hex (link_at (fst s) (wd_tik W) (snd s) 1)"
    "sees m1 (wd_tik W) step None None (anchor_of (teeA W))"
  from foreign_exporter [OF 1(3) len e step no, of D 2] obtain w m2 where "atk_present W D 2 m1 (fst s) (dr_e2 D) step = Inr (False, w, m2)" by blast
  with 1 show ?thesis by (simp add: relayed_in_def)
qed

text \<open>The state of a connection that was used \<open>n\<close> times.\<close>

definition used :: "world \<Rightarrow> bytes \<times> bytes \<Rightarrow> nat \<Rightarrow> mandate \<Rightarrow> bool" where
  "used W s n m \<longleftrightarrow> sessions m (hex (wd_tik W), session_key (fst s))
     = (if n = 0 then None else Some \<lparr>ss_prev = link_at (fst s) (wd_tik W) (snd s) (n - 1), ss_counter = int n - 1\<rparr>)"

lemma used_step:
  assumes W: "fair_world W" and s: "served W (both_chips W) cf (anchor_of (teeA W)) m" "used W s n m" and len: "length (fst s) < 256" "int n < 2 ^ 64"
  obtains w g m' where "atk_step W D j (teeA W) (attester_at (fst s) (wd_tik W) (snd s) n) m (fst s) (snd s)
      = Inr (True, w, g, attester_at (fst s) (wd_tik W) (snd s) (Suc n), m')"
    "served W (both_chips W) cf (anchor_of (teeA W)) m'" "used W s (Suc n) m'"
    "\<And>s' n'. session_key (fst s') \<noteq> session_key (fst s) \<Longrightarrow> used W s' n' m' = used W s' n' m"
proof -
  note T = trusted_both [OF W]
  obtain w g m' where m': "atk_step W D j (teeA W) (attester_at (fst s) (wd_tik W) (snd s) n) m (fst s) (snd s)
      = Inr (True, w, g, attester_at (fst s) (wd_tik W) (snd s) (Suc n), m')"
    "served W (both_chips W) cf (anchor_of (teeA W)) m'"
    "sessions m' = (sessions m)((hex (wd_tik W), session_key (fst s)) \<mapsto> \<lparr>ss_prev = link_at (fst s) (wd_tik W) (snd s) n, ss_counter = int n\<rparr>)"
    using served_step [OF T(3,1) s(1) len s(2) [unfolded used_def], of D j] by blast
  then show thesis by (intro that [OF m'(1,2)]) (simp_all add: used_def)
qed

lemma no_break:
  assumes W: "fair_world W" "on_time D" and len: "length (fst s) < 256" "n \<le> 2 ^ 64"
  shows "one_chain W D s n = Inr 0"
proof -
  let ?S = "served W (both_chips W) (attack_cfg W D (both_chips W) False) (anchor_of (teeA W))"
  let ?f = "\<lambda>k (c, a, m). py_bind (atk_step W D (Suc k) (teeA W) a m (fst s) (snd s)) (\<lambda>(ok, _, _, a', m'). Inr (c + (if ok then 0 else 1), a', m'))"
  let ?P = "\<lambda>k (c, a, m). c = (0 :: nat) \<and> a = attester_at (fst s) (wd_tik W) (snd s) k \<and> ?S m \<and> used W s k m"
  obtain m where m: "enrolled_mandate W D = Inr m" "?S m" "sessions m = Map.empty" by (rule enrolled_served [OF W])
  have "\<exists>x. py_fold ?f [0..<n] (0, attester_new (wd_tik W), m) = Inr x \<and> ?P n x"
  proof (rule py_fold_upto)
    show "?P 0 (0, attester_new (wd_tik W), m)" using m by (simp add: used_def attester_new_at [of _ "fst s" "snd s"])
  next
    fix k x assume k: "k < n" and P: "?P k x"
    obtain m1 where x: "x = (0, attester_at (fst s) (wd_tik W) (snd s) k, m1)" "?S m1" "used W s k m1" using P by (cases x) auto
    have "int k < 2 ^ 64" using k len(2) by (metis of_nat_less_iff of_nat_numeral of_nat_power order_less_le_trans)
    then obtain w g m' where
      "atk_step W D (Suc k) (teeA W) (attester_at (fst s) (wd_tik W) (snd s) k) m1 (fst s) (snd s)
        = Inr (True, w, g, attester_at (fst s) (wd_tik W) (snd s) (Suc k), m')" "?S m'" "used W s (Suc k) m'"
      by (rule used_step [OF W(1) x(2,3) len(1), of D "Suc k"]) (rule that)
    with x(1) show "\<exists>x'. ?f k x = Inr x' \<and> ?P (Suc k) x'" by simp
  qed
  with m(1) show ?thesis by (auto simp: one_chain_def split: prod.splits)
qed

text \<open>Sixteen connections in the \<open>r\<close>-th round, when the first \<open>i\<close> had their step.\<close>

definition rounds :: "world \<Rightarrow> config \<Rightarrow> (nat \<Rightarrow> bytes \<times> bytes) \<Rightarrow> nat \<Rightarrow> nat \<Rightarrow> nat \<times> attester list \<times> mandate \<Rightarrow> bool" where
  "rounds W cf P r i = (\<lambda>(c, ats, m). c = 0 \<and> length ats = 16 \<and> served W (both_chips W) cf (anchor_of (teeA W)) m
     \<and> (\<forall>j < 16. let n = (if j < i then Suc r else r) in ats ! j = attester_at (fst (P j)) (wd_tik W) (snd (P j)) n \<and> used W (P j) n m))"

lemma rounds_step:
  assumes W: "fair_world W" and len: "length (fst (P i)) < 256" "int r < 2 ^ 64" and i: "i < 16"
    and keys: "\<And>j. j < 16 \<Longrightarrow> j \<noteq> i \<Longrightarrow> session_key (fst (P j)) \<noteq> session_key (fst (P i))" and x: "rounds W cf P r i x"
  shows "\<exists>x'. parallel_step W D P r i x = Inr x' \<and> rounds W cf P r (Suc i) x'"
proof -
  obtain ats m where e: "x = (0, ats, m)" using x by (cases x) (simp add: rounds_def)
  have s: "length ats = 16" "served W (both_chips W) cf (anchor_of (teeA W)) m"
    and all: "\<And>j. j < 16 \<Longrightarrow> ats ! j = attester_at (fst (P j)) (wd_tik W) (snd (P j)) (if j < i then Suc r else r) \<and> used W (P j) (if j < i then Suc r else r) m"
    using x unfolding e rounds_def Let_def by simp_all
  have here: "ats ! i = attester_at (fst (P i)) (wd_tik W) (snd (P i)) r" "used W (P i) r m" using all [OF i] by simp_all
  obtain w g m' where m': "atk_step W D (Suc (16 * r + i)) (teeA W) (attester_at (fst (P i)) (wd_tik W) (snd (P i)) r) m (fst (P i)) (snd (P i))
      = Inr (True, w, g, attester_at (fst (P i)) (wd_tik W) (snd (P i)) (Suc r), m')"
    "served W (both_chips W) cf (anchor_of (teeA W)) m'" "used W (P i) (Suc r) m'"
    "\<And>s' n'. session_key (fst s') \<noteq> session_key (fst (P i)) \<Longrightarrow> used W s' n' m' = used W s' n' m"
    by (rule used_step [OF W s(2) here(2) len, of D "Suc (16 * r + i)"]) (rule that)
  let ?ats = "ats[i := attester_at (fst (P i)) (wd_tik W) (snd (P i)) (Suc r)]"
  have "parallel_step W D P r i x = Inr (0, ?ats, m')" using m'(1) here(1) by (simp add: e parallel_step_def)
  moreover have "?ats ! j = attester_at (fst (P j)) (wd_tik W) (snd (P j)) (if j < Suc i then Suc r else r) \<and> used W (P j) (if j < Suc i then Suc r else r) m'"
    if j: "j < 16" for j
  proof (cases "j = i")
    case True
    then show ?thesis using s(1) i m'(3) by simp
  next
    case False
    then have "(j < Suc i) = (j < i)" by auto
    with False all [OF j] m'(4) [OF keys [OF j False]] show ?thesis by simp
  qed
  ultimately show ?thesis using s(1) m'(2) by (simp add: rounds_def Let_def)
qed

lemma no_parallel_break:
  assumes W: "fair_world W" "on_time D" and len: "\<And>i. length (fst (P i)) < 256" "n \<le> 2 ^ 64"
    and keys: "\<And>i j. i < 16 \<Longrightarrow> j < 16 \<Longrightarrow> i \<noteq> j \<Longrightarrow> session_key (fst (P i)) \<noteq> session_key (fst (P j))"
  shows "many_chains W D P n = Inr 0"
proof -
  let ?cf = "attack_cfg W D (both_chips W) False"
  obtain m where m: "enrolled_mandate W D = Inr m" "served W (both_chips W) ?cf (anchor_of (teeA W)) m" "sessions m = Map.empty"
    by (rule enrolled_served [OF W])
  have "\<exists>x. py_fold (\<lambda>r. py_fold (parallel_step W D P r) [0..<16]) [0..<n div 16] (0, replicate 16 (attester_new (wd_tik W)), m) = Inr x
      \<and> rounds W ?cf P (n div 16) 0 x"
  proof (rule py_fold_upto [where P = "\<lambda>r. rounds W ?cf P r 0"])
    show "rounds W ?cf P 0 0 (0, replicate 16 (attester_new (wd_tik W)), m)"
      using m by (auto simp: rounds_def used_def) (rule attester_new_at)
  next
    fix r x assume r: "r < n div 16" and x: "rounds W ?cf P r 0 x"
    have "r < 2 ^ 64" using r len(2) div_le_dividend [of n 16] by linarith
    then have r64: "int r < 2 ^ 64" by (metis of_nat_less_iff of_nat_numeral of_nat_power)
    have "\<exists>x'. py_fold (parallel_step W D P r) [0..<16] x = Inr x' \<and> rounds W ?cf P r 16 x'"
      by (rule py_fold_upto [where P = "rounds W ?cf P r"], rule x) (rule rounds_step [OF W(1) len(1) r64], auto dest: keys)
    moreover have "rounds W ?cf P r 16 x' \<Longrightarrow> rounds W ?cf P (Suc r) 0 x'" for x' by (simp add: rounds_def split: prod.splits)
    ultimately show "\<exists>x'. py_fold (parallel_step W D P r) [0..<16] x = Inr x' \<and> rounds W ?cf P (Suc r) 0 x'" by blast
  qed
  then obtain x where x: "py_fold (\<lambda>r. py_fold (parallel_step W D P r) [0..<16]) [0..<n div 16] (0, replicate 16 (attester_new (wd_tik W)), m) = Inr x"
    "rounds W ?cf P (n div 16) 0 x" by blast
  obtain ats m' where "x = (0, ats, m')" using x(2) by (cases x) (simp add: rounds_def)
  with m(1) x(1) show ?thesis by (simp add: many_chains_def)
qed

section \<open>The script\<close>

definition fair_bench :: "(nat \<Rightarrow> rat) \<Rightarrow> world \<Rightarrow> nat \<Rightarrow> (nat \<Rightarrow> nat \<Rightarrow> draws) \<Rightarrow> (nat \<Rightarrow> nat \<Rightarrow> bytes \<times> bytes) \<Rightarrow> bool" where
  "fair_bench clock W n Ds S \<longleftrightarrow> fair_world W \<and> (\<forall>q k. on_time (Ds q k)) \<and> (\<forall>q k. length (fst (S q k)) < 256) \<and> n \<le> 2 ^ 64
     \<and> clock 0 < clock 1 \<and> clock 2 < clock 3
     \<and> (\<forall>k < n. length (snd (S 5 k)) = length (dr_e2 (Ds 5 k)) \<and> length (dr_e2 (Ds 5 k)) \<le> 128 \<and> snd (S 5 k) \<noteq> dr_e2 (Ds 5 k))"

text \<open>A trial with a relay in which the links under the two exporters collide.\<close>

definition relay_trial_collides :: "world \<Rightarrow> nat \<Rightarrow> (nat \<Rightarrow> nat \<Rightarrow> draws) \<Rightarrow> (nat \<Rightarrow> nat \<Rightarrow> bytes \<times> bytes) \<Rightarrow> bool" where
  "relay_trial_collides W n Ds S \<longleftrightarrow>
     (\<exists>k < n. let l = link_at (fst (S 5 k)) (wd_tik W) (snd (S 5 k)) 0 in link_collision (snd (S 5 k), l, 1) (dr_e2 (Ds 5 k), l, 1))"

lemma bench_main_zero:
  assumes F: "fair_bench clock W n Ds S"
  shows "(\<exists>l c. bench_main clock W n Ds S = Inr \<lparr>br_link = l, br_check = c, br_false_rejects = 0, br_missed = 0, br_breaks = 0, br_par_breaks = 0,
      br_relay_in = 0\<rparr> \<and> 0 < fst l \<and> 0 < fst c)
    \<or> relay_trial_collides W n Ds S \<or> (\<exists>i j. i < j \<and> j < 16 \<and> session_key (fst (S 4 i)) = session_key (fst (S 4 j)))"
proof (rule disjCI)
  assume "\<not> (relay_trial_collides W n Ds S \<or> (\<exists>i j. i < j \<and> j < 16 \<and> session_key (fst (S 4 i)) = session_key (fst (S 4 j))))"
  then have no: "\<not> relay_trial_collides W n Ds S" and lt: "\<And>i j. i < j \<Longrightarrow> j < 16 \<Longrightarrow> session_key (fst (S 4 i)) \<noteq> session_key (fst (S 4 j))" by blast+
  have keys: "session_key (fst (S 4 i)) \<noteq> session_key (fst (S 4 j))" if "i < 16" "j < 16" "i \<noteq> j" for i j
    using lt [of i j] lt [of j i] that by (cases "i < j") simp_all
  have W: "fair_world W" and t: "\<And>q k. on_time (Ds q k)" and len: "\<And>q k. length (fst (S q k)) < 256" and n: "n \<le> 2 ^ 64"
    and clk: "clock 0 < clock 1" "clock 2 < clock 3"
    and e: "\<And>k. k < n \<Longrightarrow> length (snd (S 5 k)) = length (dr_e2 (Ds 5 k))" "\<And>k. k < n \<Longrightarrow> length (dr_e2 (Ds 5 k)) \<le> 128"
      "\<And>k. k < n \<Longrightarrow> snd (S 5 k) \<noteq> dr_e2 (Ds 5 k)"
    using F unfolding fair_bench_def by blast+
  obtain tl rl where l: "bench_link clock W (fst (S 0 0)) (snd (S 0 0)) = Inr (tl, rl)" "0 < tl" using bench_link_returns [where clock = clock, OF len clk(1)] by blast
  obtain tc rc where c: "bench_check clock W (Ds 0 0) (S 0 1) = Inr (tc, rc)" "0 < tc" using bench_check_returns [where clock = clock, OF W t len clk(2)] by blast
  have c1: "count_of (\<lambda>k. false_reject W (Ds 1 k) (S 1 k)) n = Inr 0" by (rule count_zero) (rule no_false_reject [OF W t len])
  have c2: "count_of (\<lambda>k. missed_theft W (Ds 2 k) (S 2 k)) n = Inr 0" by (rule count_zero) (rule no_missed_theft [OF W t len])
  have c3: "one_chain W (Ds 3 0) (S 3 0) n = Inr 0" by (rule no_break [OF W t len n])
  have c4: "many_chains W (Ds 4 0) (S 4) n = Inr 0" by (rule no_parallel_break [OF W t len n keys])
  have c5: "count_of (\<lambda>k. relayed_in W (Ds 5 k) (S 5 k)) n = Inr 0"
  proof (rule count_zero)
    fix k assume k: "k < n"
    with no have "\<not> link_collision (snd (S 5 k), link_at (fst (S 5 k)) (wd_tik W) (snd (S 5 k)) 0, 1)
        (dr_e2 (Ds 5 k), link_at (fst (S 5 k)) (wd_tik W) (snd (S 5 k)) 0, 1)" unfolding relay_trial_collides_def Let_def by blast
    then show "relayed_in W (Ds 5 k) (S 5 k) = Inr False" by (rule no_relay_in [OF W t len e(1-3) [OF k]])
  qed
  show "\<exists>l c. bench_main clock W n Ds S = Inr \<lparr>br_link = l, br_check = c, br_false_rejects = 0, br_missed = 0, br_breaks = 0, br_par_breaks = 0,
      br_relay_in = 0\<rparr> \<and> 0 < fst l \<and> 0 < fst c"
    by (intro exI [of _ "(tl, rl)"] exI [of _ "(tc, rc)"]) (simp only: bench_main_def l(1) c(1) c1 c2 c3 c4 c5 py_bind.simps fst_conv l(2) c(2) simp_thms)
qed

text \<open>On sample worlds: the hypotheses can hold.\<close>

lemma sample_bench: "fair_bench of_nat sample_world 48 (\<lambda>q k. local_draws 1) (\<lambda>q k. ([of_nat k], [9]))"
proof -
  have "fair_world sample_world" using local_is_fair by (simp add: fair_local_def)
  then show ?thesis by (simp add: fair_bench_def on_time_def sample_inputs_def)
qed

end
