(* ===== verification/Measures.thy ===== *)
theory Measures
  imports Live_Runs Bench
begin

text \<open>
  The scripts that measure: \<open>examples/evidence_size.py\<close> (the size of Evidence against the first flight),
  \<open>examples/cost.py\<close> (the time of a link, of an appraisal and of a step), \<open>examples/e2e_timing_hw.py\<close> (the time to the first
  accepted link over the Internet) and \<open>tools/liveness_probe.py\<close> (the time of a beacon in a guest). The readings of the
  performance counter are arguments, by their number; a float is a rational. What is printed is the value.
\<close>

section \<open>Statistics\<close>

definition median :: "rat list \<Rightarrow> rat py" where
  "median xs = (let s = sort xs; n = length xs in
     if n = 0 then Inl (LibError ''no median for empty data'')
     else if n mod 2 = 1 then Inr (s ! (n div 2)) else Inr ((s ! (n div 2 - 1) + s ! (n div 2)) / 2))"

text \<open>\<open>statistics.median(ts), min(ts), max(ts)\<close>.\<close>

definition spread :: "rat list \<Rightarrow> (rat \<times> rat \<times> rat) py" where
  "spread xs = py_bind (median xs) (\<lambda>m. Inr (m, Min (set xs), Max (set xs)))"

section \<open>The size of Evidence\<close>

definition MSS :: int where "MSS = 1448"
definition INITCWND :: int where "INITCWND = 10"
definition BUDGET :: int where "BUDGET = MSS * INITCWND"
definition CMW :: int where "CMW = 40"
definition REC :: int where "REC = 5 + 16"

definition baselines :: "(string \<times> int) list" where
  "baselines = [(''www.ietf.org'', 3416), (''www.amazon.com'', 4310), (''www.microsoft.com'', 5902)]"

definition flight_base :: "int \<Rightarrow> int" where
  "flight_base cert = 1210 + 10 + cert + 79 + 52 + REC * 5"

definition evidence_sizes :: "(string \<times> int) list" where
  "evidence_sizes =
     [(''SEV-SNP report only (verifier fetches VCEK+chain from AMD KDS)'', 1184), (''SEV-SNP report + VCEK leaf'', 1184 + 1351),
      (''SEV-SNP report + VCEK + ASK + ARK (SNP_GET_EXT_REPORT table)'', 1184 + 1351 + 1677 + 1639),
      (''SEV-SNP report + VLEK leaf (AWS; chain fetched)'', 1184 + 1319), (''TDX quote v4 (QE report + PCK chain included)'', 8000)]"

definition segs :: "int \<Rightarrow> int" where
  "segs n = - ((- n) div MSS)"

text \<open>A cell: the flight, its segments, and whether it costs a round trip more.\<close>

definition size_cell :: "int \<Rightarrow> int \<Rightarrow> int \<times> int \<times> bool" where
  "size_cell cert v = (let flight = flight_base cert + v + CMW in (flight, segs flight, flight > BUDGET))"

definition size_main :: "(string \<times> int \<times> int) list \<times> (string \<times> int \<times> (int \<times> int \<times> bool) list) list" where
  "size_main = (map (\<lambda>(site, cert). (site, flight_base cert, segs (flight_base cert))) baselines,
     map (\<lambda>(k, v). (k, v, map (\<lambda>(_, cert). size_cell cert v) baselines)) evidence_sizes)"

section \<open>The cost of a link\<close>

text \<open>\<open>bench(fn, n)\<close>: the readings \<open>2 k\<close> and \<open>2 k + 1\<close> are around the \<open>k\<close>-th call.\<close>

definition bench_calls :: "(nat \<Rightarrow> rat) \<Rightarrow> (nat \<Rightarrow> unit py) \<Rightarrow> nat \<Rightarrow> (rat \<times> rat \<times> rat) py" where
  "bench_calls pc fn n = py_bind (py_map (\<lambda>k. py_bind (fn k) (\<lambda>_. Inr (pc (2 * k + 1) - pc (2 * k)))) [0..<n]) spread"

record cost_world =
  cw_crypto :: crypto
  cw_report :: bytes
  cw_verify :: "nat \<Rightarrow> json \<Rightarrow> bytes \<Rightarrow> (bool \<times> anchor option) py"
  cw_pc :: "nat \<Rightarrow> nat \<Rightarrow> rat"
  cw_chip_key :: bytes
  cw_sth_key :: "nat \<Rightarrow> bytes"
  cw_rnd :: "nat \<Rightarrow> bytes"
  cw_ins :: "nat \<Rightarrow> inputs"

definition cost_tik :: bytes where "cost_tik = [0x30, 0x59] @ zeros 89"

definition cost_chip :: "cost_world \<Rightarrow> mock_tee" where
  "cost_chip W = mock_tee_new (cw_crypto W) (replicate 64 0x11) (Some (replicate 32 0x22)) [] (cw_chip_key W)"

definition cost_cfg :: "cost_world \<Rightarrow> nat \<Rightarrow> config" where
  "cost_cfg W k = \<lparr>cf_crypto = cw_crypto W, verify_report = mock_verifier (cw_crypto W) [hex (mock_pub (cost_chip W))],
     signing_key = cw_sth_key W k, ephemeral_signing_key = True, require_anchor = True, require_enrolment = False,
     require_place = False, challenge_ttl = 300, witness_ttl = 3600, enrolment_authority = None\<rparr>"

definition one_step :: "cost_world \<Rightarrow> bytes \<Rightarrow> bytes \<Rightarrow> nat \<Rightarrow> (bool \<times> string) py" where
  "one_step W sc ex k =
     py_bind (fst (attest (\<lambda>rd. Inr (mock_report (cw_crypto W) (cost_chip W) (cw_rnd W k) rd)) (attester_new cost_tik) sc ex None)) (\<lambda>msg.
       fst (present (cw_ins W k) (mandate_new (cost_cfg W k) (MemoryStore [])) cost_tik sc ex msg None None))"

text \<open>What is printed: the spreads of a link, of the first link, of the cold appraisal (one time), of a warm one and of a step.\<close>

record cost_result =
  cr_post :: "rat \<times> rat \<times> rat"
  cr_intra :: "rat \<times> rat \<times> rat"
  cr_cold :: rat
  cr_warm :: "rat \<times> rat \<times> rat"
  cr_step :: "rat \<times> rat \<times> rat"

definition cost_main :: "cost_world \<Rightarrow> cost_result py" where
  "cost_main W = (let sc = zeros 48; ex = zeros 32;
       ev = JObj [(''kind'', JStr ''sev-snp''), (''report'', JStr (b64encode (cw_report W)))];
       expected = slice 0x50 (0x50 + 64) (cw_report W) in
     py_bind (intra_link sc cost_tik) (\<lambda>il.
     py_bind (bench_calls (cw_pc W 0) (\<lambda>k. py_bind (post_link ex il 1) (\<lambda>_. Inr ())) 20000) (\<lambda>post.
     py_bind (bench_calls (cw_pc W 1) (\<lambda>k. py_bind (intra_link sc cost_tik) (\<lambda>_. Inr ())) 20000) (\<lambda>intra.
     py_bind (cw_verify W 0 ev expected) (\<lambda>(ok, _).
     if \<not> ok then Inl (AssertionError ''the shipped report must appraise'') else
     py_bind (bench_calls (cw_pc W 3) (\<lambda>k. py_bind (cw_verify W (Suc k) ev expected) (\<lambda>_. Inr ())) 50) (\<lambda>warm.
     py_bind (one_step W sc ex 0) (\<lambda>(ok, why).
     if \<not> ok then Inl (AssertionError why) else
     py_bind (bench_calls (cw_pc W 4) (\<lambda>k. py_bind (one_step W sc ex (Suc k)) (\<lambda>_. Inr ())) 2000) (\<lambda>step.
       Inr \<lparr>cr_post = post, cr_intra = intra, cr_cold = cw_pc W 2 1 - cw_pc W 2 0, cr_warm = warm, cr_step = step\<rparr>))))))))"

section \<open>The time to the first accepted link\<close>

record timing =
  tm_connect :: rat
  tm_handshake :: rat
  tm_request :: rat
  tm_gen :: "rat option list"
  tm_appraise :: "rat list"
  tm_first :: rat
  tm_bytes :: nat

text \<open>The steps of the reply: each is timed (readings \<open>6 + 2 k\<close>, \<open>7 + 2 k\<close>) and has to be accepted.\<close>

fun appraise_all ::
  "(nat \<Rightarrow> inputs) \<Rightarrow> (nat \<Rightarrow> rat) \<Rightarrow> bytes \<Rightarrow> bytes \<Rightarrow> bytes \<Rightarrow> json list \<Rightarrow> nat \<Rightarrow> mandate \<Rightarrow> rat list py" where
  "appraise_all ins pc tik sc ex [] k m = Inr []"
| "appraise_all ins pc tik sc ex (s # ss) k m =
     py_bind (as_evidence s) (\<lambda>msg. (case present (ins k) m tik sc ex msg None None of
         (Inl x, _) \<Rightarrow> Inl x
       | (Inr (ok, why), m') \<Rightarrow> if ok then py_bind (appraise_all ins pc tik sc ex ss (Suc k) m') (\<lambda>ts. Inr ((pc (7 + 2 * k) - pc (6 + 2 * k)) # ts))
           else Inl (AssertionError why)))"

text \<open>\<open>first\<close> is the connection that is opened and closed before; \<open>gen\<close> is \<open>s.get("gen_ms")\<close>, a fraction that \<open>json\<close> leaves out.\<close>

definition e2e_one ::
  "hw_world \<Rightarrow> nat \<Rightarrow> (nat \<Rightarrow> rat) \<Rightarrow> (json \<Rightarrow> rat option py) \<Rightarrow> unit py \<Rightarrow> 'c tls_conn \<Rightarrow> string \<Rightarrow> int \<Rightarrow> timing py option" where
  "e2e_one W k pc gen first T ip steps = map_option fst
     (bio_then (Some (first, ())) (\<lambda>_ _.
      bio_then (in_client T ip () (\<lambda>c.
        bio_then (Some (py_bind (exporter T c) (\<lambda>ex. py_bind (session_context T c) (\<lambda>sc. py_bind (peer_identity_key T c) (\<lambda>tik. Inr (ex, sc, tik)))), ())) (\<lambda>(ex, sc, tik) _.
        bio_then (client_ask T c (hw_steps_request steps None) ()) (\<lambda>(blob, c1) _. Some (Inr (ex, sc, tik, blob), ()))))) (\<lambda>(ex, sc, tik, blob) _.
      Some (py_bind (subscript blob ''chain'') (\<lambda>ch. py_bind (py_iter ch) (\<lambda>chain. py_bind (py_map gen chain) (\<lambda>gens.
        py_bind (appraise_all (hw_ins W) pc tik sc ex chain 0 (hw_mandate W k)) (\<lambda>appr.
          (case appr of [] \<Rightarrow> Inl (IndexError ''list index out of range'')
           | a # _ \<Rightarrow> Inr \<lparr>tm_connect = pc 1 - pc 0, tm_handshake = pc 3 - pc 2, tm_request = pc 5 - pc 4, tm_gen = gens, tm_appraise = appr,
               tm_first = pc 2 - pc 0 + (pc 3 - pc 2) + (pc 5 - pc 4) + a, tm_bytes = length (dumps_bytes blob)\<rparr>))))), ()))))"

text \<open>The report over all connections: the cold appraisal, and the spreads over the warm connections, in the order printed.\<close>

record e2e_report =
  ee_cold :: rat
  ee_connect :: "rat \<times> rat \<times> rat"
  ee_handshake :: "rat \<times> rat \<times> rat"
  ee_request :: "rat \<times> rat \<times> rat"
  ee_gen :: "(rat \<times> rat \<times> rat) option"
  ee_appraise :: "rat \<times> rat \<times> rat"
  ee_first :: "rat \<times> rat \<times> rat"
  ee_bytes :: "rat \<times> rat \<times> rat"

definition e2e_report_of :: "timing list \<Rightarrow> e2e_report py" where
  "e2e_report_of runs = (case runs of [] \<Rightarrow> Inl (IndexError ''list index out of range'') | first # warm \<Rightarrow>
     (let g = concat (map (\<lambda>r. List.map_filter id (tm_gen r)) warm) in
     py_bind (spread (map tm_connect warm)) (\<lambda>a. py_bind (spread (map tm_handshake warm)) (\<lambda>b. py_bind (spread (map tm_request warm)) (\<lambda>c.
     py_bind (if g = [] then Inr None else py_bind (spread g) (\<lambda>s. Inr (Some s))) (\<lambda>d.
     py_bind (spread (map (\<lambda>r. hd (tm_appraise r)) warm)) (\<lambda>e. py_bind (spread (map tm_first warm)) (\<lambda>f.
     py_bind (spread (map (\<lambda>r. of_nat (tm_bytes r)) warm)) (\<lambda>b'.
       Inr \<lparr>ee_cold = hd (tm_appraise first), ee_connect = a, ee_handshake = b, ee_request = c, ee_gen = d, ee_appraise = e, ee_first = f,
         ee_bytes = b'\<rparr>)))))))))"

text \<open>\<open>main\<close>: \<open>runs k\<close> is the \<open>k\<close>-th connection. The exit code, the report, and the runs that are saved.\<close>

definition e2e_main :: "(nat \<Rightarrow> timing py option) \<Rightarrow> nat \<Rightarrow> (int \<times> e2e_report \<times> timing list) py option" where
  "e2e_main run n = map_option (\<lambda>rs. py_bind rs (\<lambda>runs. py_bind (e2e_report_of runs) (\<lambda>r. Inr (0, r, runs))))
     (fold (\<lambda>k acc. case acc of None \<Rightarrow> None | Some (Inl x) \<Rightarrow> Some (Inl x)
        | Some (Inr rs) \<Rightarrow> map_option (\<lambda>r. py_bind r (\<lambda>t. Inr (rs @ [t]))) (run k)) [0..<n] (Some (Inr [])))"

section \<open>The liveness beacons\<close>

definition BEACONS :: nat where "BEACONS = 64"

text \<open>\<open>snp_report\<close>: unlike the other probes' copies it does not read the size the firmware gives.\<close>

definition lv_report :: "sev_device \<Rightarrow> nat \<Rightarrow> bytes \<Rightarrow> bytes py" where
  "lv_report D j user_data = py_bind (dev_report D j (take 64 user_data)) (\<lambda>(status, size, report).
     if status \<noteq> 0 then Inl (RuntimeError (''fw '' @ dec_int (int status))) else Inr (take 1184 report))"

text \<open>A beacon: the chip is asked for the link and the counter; the next link is the hash of the report.\<close>

definition beacon :: "sev_device \<Rightarrow> (nat \<Rightarrow> rat) \<Rightarrow> nat \<Rightarrow> bytes \<times> rat list \<times> bytes list \<Rightarrow> (bytes \<times> rat list \<times> bytes list) py" where
  "beacon dev pc c = (\<lambda>(link, times, reps).
     py_bind (to_bytes 8 (int c)) (\<lambda>cb.
     py_bind (lv_report dev c (sha512 (lit ''HATLS-liveness'' @ link @ cb))) (\<lambda>rep.
       Inr (sha256 rep, times @ [(pc (2 * c + 1) - pc (2 * c)) * 1000], reps @ [rep]))))"

record beacons =
  bc_chips :: "string set"
  bc_count :: nat
  bc_min :: rat
  bc_median :: rat
  bc_max :: rat
  bc_per_sec :: rat

definition liveness_run :: "sev_device \<Rightarrow> (nat \<Rightarrow> rat) \<Rightarrow> (bytes \<times> rat list \<times> bytes list) py" where
  "liveness_run dev pc = py_fold (beacon dev pc) [0..<BEACONS] (sha256 (lit ''liveness-seed''), [], [])"

text \<open>Without the rounding of the numbers and what the vTPM's tools print.\<close>

definition liveness_main :: "sev_device \<Rightarrow> (nat \<Rightarrow> rat) \<Rightarrow> beacons py" where
  "liveness_main dev pc = py_bind (liveness_run dev pc) (\<lambda>(_, times, reps). (let ts = sort times; mid = ts ! (BEACONS div 2) in
     if mid = 0 then Inl (ZeroDivisionError ''float division by zero'')
     else Inr \<lparr>bc_chips = set (map (\<lambda>rep. take 16 (hex (slice 0x1A0 0x1E0 rep))) reps), bc_count = BEACONS, bc_min = ts ! 0, bc_median = mid,
       bc_max = last ts, bc_per_sec = 1000 / mid\<rparr>))"

end
