(* ===== verification/Measures_Proofs.thy ===== *)
theory Measures_Proofs
  imports Measures Bench_Proofs Live_Proofs
begin

text \<open>
  Facts about \<open>Measures\<close>: which Evidence costs a round trip, that the runs return, that each median lies between its
  extremes, what the time to the first link adds up, and what each beacon commits to.
\<close>

section \<open>Sizes\<close>

lemma segs_ceiling: "n \<le> segs n * MSS" "(segs n - 1) * MSS < n"
proof -
  define q where "q = (- n) div 1448"
  define r where "r = (- n) mod 1448"
  have "0 \<le> r" "r < 1448" "- n = 1448 * q + r" by (simp_all add: q_def r_def)
  moreover have "segs n = - q" by (simp add: segs_def MSS_def q_def)
  ultimately show "n \<le> segs n * MSS" "(segs n - 1) * MSS < n" by (simp_all add: MSS_def algebra_simps)
qed

text \<open>A flight waits for a round trip exactly when it needs more than ten segments.\<close>

lemma over_budget_iff: "flight > BUDGET \<longleftrightarrow> segs flight > INITCWND"
proof -
  have "flight \<le> segs flight * 1448" "(segs flight - 1) * 1448 < flight" using segs_ceiling [of flight] by (simp_all add: MSS_def)
  moreover have "BUDGET = 14480" "INITCWND = 10" by (simp_all add: BUDGET_def MSS_def INITCWND_def)
  ultimately show ?thesis by (auto simp: algebra_simps)
qed

text \<open>Of the flights in the table one does.\<close>

lemma one_flight_waits:
  "filter (\<lambda>(site, k, c). snd (snd c)) (concat (map (\<lambda>(k, v). map (\<lambda>(site, cert). (site, k, size_cell cert v)) baselines) evidence_sizes))
    = [(''www.microsoft.com'', ''TDX quote v4 (QE report + PCK chain included)'', 15398, 11, True)]"
  by (simp add: baselines_def evidence_sizes_def size_cell_def flight_base_def CMW_def REC_def BUDGET_def MSS_def INITCWND_def segs_def)

text \<open>No Evidence of the table fills the window of the client's flight on its own.\<close>

lemma client_flights_fit: "(k, v) \<in> set evidence_sizes \<Longrightarrow> v + CMW < BUDGET"
  by (auto simp: evidence_sizes_def CMW_def BUDGET_def MSS_def INITCWND_def)

section \<open>Statistics\<close>

lemma median_between:
  assumes "median xs = Inr m"
  shows "xs \<noteq> []" "Min (set xs) \<le> m" "m \<le> Max (set xs)"
proof -
  show ne: "xs \<noteq> []" using assms by (auto simp: median_def Let_def)
  have b: "Min (set xs) \<le> sort xs ! i" "sort xs ! i \<le> Max (set xs)" if "i < length xs" for i
    using that nth_mem [of i "sort xs"] by simp_all
  have n: "length xs div 2 < length xs" "length xs div 2 - 1 < length xs" using ne by (simp_all add: less_imp_diff_less)
  from assms consider "m = sort xs ! (length xs div 2)" | "m = (sort xs ! (length xs div 2 - 1) + sort xs ! (length xs div 2)) / 2"
    by (auto simp: median_def Let_def split: if_splits)
  then show "Min (set xs) \<le> m" "m \<le> Max (set xs)"
    by (cases; use b [OF n(1)] b [OF n(2)] in simp)+
qed

lemma spread_ok: "xs \<noteq> [] \<Longrightarrow> \<exists>m. spread xs = Inr (m, Min (set xs), Max (set xs))"
proof -
  assume "xs \<noteq> []"
  then have "median xs = Inr (if length xs mod 2 = 1 then sort xs ! (length xs div 2)
      else (sort xs ! (length xs div 2 - 1) + sort xs ! (length xs div 2)) / 2)" by (simp add: median_def Let_def)
  then show ?thesis by (simp add: spread_def)
qed

lemma spread_ordered: "spread xs = Inr (m, lo, hi) \<Longrightarrow> lo \<le> m \<and> m \<le> hi"
  using median_between by (auto simp: spread_def py_bind_Inr_iff)

lemma bench_calls_returns:
  assumes "\<And>k. k < n \<Longrightarrow> fn k = Inr ()" "0 < n"
  shows "\<exists>m lo hi. bench_calls pc fn n = Inr (m, lo, hi) \<and> lo \<le> m \<and> m \<le> hi"
proof -
  have "py_map (\<lambda>k. py_bind (fn k) (\<lambda>_. Inr (pc (2 * k + 1) - pc (2 * k)))) [0..<n] = Inr (map (\<lambda>k. pc (2 * k + 1) - pc (2 * k)) [0..<n])"
    by (rule py_map_Inr) (simp add: assms(1))
  moreover have "map (\<lambda>k. pc (2 * k + 1) - pc (2 * k)) [0..<n] \<noteq> []" using assms(2) by simp
  then obtain m where m: "spread (map (\<lambda>k. pc (2 * k + 1) - pc (2 * k)) [0..<n])
      = Inr (m, Min (set (map (\<lambda>k. pc (2 * k + 1) - pc (2 * k)) [0..<n])), Max (set (map (\<lambda>k. pc (2 * k + 1) - pc (2 * k)) [0..<n])))"
    using spread_ok by blast
  ultimately have "bench_calls pc fn n = Inr (m, Min (set (map (\<lambda>k. pc (2 * k + 1) - pc (2 * k)) [0..<n])),
      Max (set (map (\<lambda>k. pc (2 * k + 1) - pc (2 * k)) [0..<n])))" by (simp only: bench_calls_def py_bind.simps)
  with spread_ordered [OF m] show ?thesis by blast
qed

section \<open>The cost run\<close>

definition ordered :: "rat \<times> rat \<times> rat \<Rightarrow> bool" where
  "ordered s \<longleftrightarrow> (case s of (m, lo, hi) \<Rightarrow> lo \<le> m \<and> m \<le> hi)"

lemma cost_chip_trusted:
  assumes "sig_correct (cw_crypto W)"
  shows "mock_verifier (cw_crypto W) [hex (mock_pub (cost_chip W))] (mock_report (cw_crypto W) (cost_chip W) rnd rd) rd
    = Inr (True, Some \<lparr>anchor_instance = replicate 32 0x22, anchor_place = Some (replicate 64 0x11)\<rparr>)"
proof -
  have p: "mock_pub (cost_chip W) = public_key_of (cw_crypto W) (mock_key (cost_chip W))" "any_set (mock_instance (cost_chip W))"
    "mock_instance (cost_chip W) = replicate 32 0x22" "present_id (Some (mock_chip (cost_chip W))) = Some (replicate 64 0x11)"
    by (simp_all add: cost_chip_def mock_tee_new_def any_set_def present_id_def list_ex_iff)
  show ?thesis using mock_verifies_report [OF assms _ p(1), of "[hex (mock_pub (cost_chip W))]" rnd rd] p by simp
qed

lemma cost_state:
  "cfg (mandate_new (cost_cfg W k) (MemoryStore [])) = cost_cfg W k" "sessions (mandate_new (cost_cfg W k) (MemoryStore [])) = Map.empty"
  "mandate_rec (mandate_new (cost_cfg W k) (MemoryStore [])) (hex b) = Inr blank" "log_inv (mandate_new (cost_cfg W k) (MemoryStore []))"
  by (simp_all add: new_readable)

lemma one_step_accepted:
  assumes "sig_correct (cw_crypto W)" "length sc < 256"
  shows "one_step W sc ex k = Inr (True, ''accepted; continuity intact'')"
proof -
  let ?m = "mandate_new (cost_cfg W k) (MemoryStore [])" and ?a = "\<lparr>anchor_instance = replicate 32 0x22, anchor_place = Some (replicate 64 0x11)\<rparr>"
  let ?rep = "\<lambda>rd. Inr (mock_report (cw_crypto W) (cost_chip W) (cw_rnd W k) rd) :: json py"
  have c: "verify_report (cost_cfg W k) = mock_verifier (cw_crypto W) [hex (mock_pub (cost_chip W))]" "\<not> require_enrolment (cost_cfg W k)"
    "\<not> require_place (cost_cfg W k)" by (simp_all add: cost_cfg_def)
  have "ledger_admits (cost_cfg W k) blank (Some ?a)"
    using c by (simp add: ledger_admits_def Let_def agrees_def opt_fromhex_def)
  then have st: "chain_state ?m cost_tik sc ex ?a 0" using cost_state [of W k] by (simp add: chain_state_def wf_blank)
  have t: "faithful_tee (cfg ?m) ?rep ?a" using cost_chip_trusted [OF assms(1)] c(1) by (simp add: faithful_tee_def cost_state(1))
  from chain_step [OF st t assms(2), where heads = False and i = "cw_ins W k"] obtain msg m' where
    "attest ?rep (attester_at sc cost_tik ex 0) sc ex None = (Inr msg, attester_at sc cost_tik ex 1)"
    "present (cw_ins W k) ?m cost_tik sc ex msg None None = (Inr (True, ''accepted; continuity intact''), m')" by auto
  then show ?thesis by (simp add: one_step_def attester_new_at [of _ sc ex])
qed

text \<open>The run ends with its figures, when the verifier accepts the shipped report whenever it is asked.\<close>

lemma cost_main_returns:
  assumes W: "sig_correct (cw_crypto W)"
    and v: "\<And>k. \<exists>a. cw_verify W k (JObj [(''kind'', JStr ''sev-snp''), (''report'', JStr (b64encode (cw_report W)))])
      (slice 0x50 (0x50 + 64) (cw_report W)) = Inr (True, a)"
  shows "\<exists>r. cost_main W = Inr r \<and> ordered (cr_post r) \<and> ordered (cr_intra r) \<and> ordered (cr_warm r) \<and> ordered (cr_step r)"
proof -
  let ?ev = "JObj [(''kind'', JStr ''sev-snp''), (''report'', JStr (b64encode (cw_report W)))]" and ?rd = "slice 0x50 (0x50 + 64) (cw_report W)"
  have sc: "length (zeros 48) < 256" by (simp add: len_simps)
  have il: "intra_link (zeros 48) cost_tik = Inr (intra_value (zeros 48) cost_tik)" using sc by (simp add: intra_link_Inr)
  have "post_link (zeros 32) (intra_value (zeros 48) cost_tik) 1 = Inr (post_value (zeros 32) (intra_value (zeros 48) cost_tik) 1)"
    by (simp add: post_link_Inr len_simps)
  then have pl: "py_bind (post_link (zeros 32) (intra_value (zeros 48) cost_tik) 1) (\<lambda>_. Inr ()) = Inr ()" by simp
  have st: "one_step W (zeros 48) (zeros 32) k = Inr (True, ''accepted; continuity intact'')" for k by (rule one_step_accepted [OF W sc])
  have cold: "\<exists>a. cw_verify W k ?ev ?rd = Inr (True, a)" for k by (rule v)
  obtain a where a: "cw_verify W 0 ?ev ?rd = Inr (True, a)" using cold by blast
  have warm: "py_bind (cw_verify W (Suc k) ?ev ?rd) (\<lambda>_. Inr ()) = Inr ()" for k using cold [of "Suc k"] by auto
  have "\<exists>s. bench_calls (cw_pc W 0) (\<lambda>k. py_bind (post_link (zeros 32) (intra_value (zeros 48) cost_tik) 1) (\<lambda>_. Inr ())) 20000 = Inr s \<and> ordered s"
    using bench_calls_returns [of 20000 "\<lambda>k. py_bind (post_link (zeros 32) (intra_value (zeros 48) cost_tik) 1) (\<lambda>_. Inr ())" "cw_pc W 0"] pl
    by (auto simp: ordered_def)
  moreover have "\<exists>s. bench_calls (cw_pc W 1) (\<lambda>k. py_bind (intra_link (zeros 48) cost_tik) (\<lambda>_. Inr ())) 20000 = Inr s \<and> ordered s"
    using bench_calls_returns [of 20000 "\<lambda>k. py_bind (intra_link (zeros 48) cost_tik) (\<lambda>_. Inr ())" "cw_pc W 1"] il by (auto simp: ordered_def)
  moreover have "\<exists>s. bench_calls (cw_pc W 3) (\<lambda>k. py_bind (cw_verify W (Suc k) ?ev ?rd) (\<lambda>_. Inr ())) 50 = Inr s \<and> ordered s"
    using bench_calls_returns [of 50 "\<lambda>k. py_bind (cw_verify W (Suc k) ?ev ?rd) (\<lambda>_. Inr ())" "cw_pc W 3", OF warm] by (auto simp: ordered_def)
  moreover have "\<exists>s. bench_calls (cw_pc W 4) (\<lambda>k. py_bind (one_step W (zeros 48) (zeros 32) (Suc k)) (\<lambda>_. Inr ())) 2000 = Inr s \<and> ordered s"
    using bench_calls_returns [of 2000 "\<lambda>k. py_bind (one_step W (zeros 48) (zeros 32) (Suc k)) (\<lambda>_. Inr ())" "cw_pc W 4"] st by (auto simp: ordered_def)
  ultimately obtain s0 s1 s3 s4 where
    "bench_calls (cw_pc W 0) (\<lambda>k. py_bind (post_link (zeros 32) (intra_value (zeros 48) cost_tik) 1) (\<lambda>_. Inr ())) 20000 = Inr s0" "ordered s0"
    "bench_calls (cw_pc W 1) (\<lambda>k. py_bind (intra_link (zeros 48) cost_tik) (\<lambda>_. Inr ())) 20000 = Inr s1" "ordered s1"
    "bench_calls (cw_pc W 3) (\<lambda>k. py_bind (cw_verify W (Suc k) ?ev ?rd) (\<lambda>_. Inr ())) 50 = Inr s3" "ordered s3"
    "bench_calls (cw_pc W 4) (\<lambda>k. py_bind (one_step W (zeros 48) (zeros 32) (Suc k)) (\<lambda>_. Inr ())) 2000 = Inr s4" "ordered s4"
    by (elim exE conjE) (rule that)
  then show ?thesis
    by (intro exI [of _ "\<lparr>cr_post = s0, cr_intra = s1, cr_cold = cw_pc W 2 1 - cw_pc W 2 0, cr_warm = s3, cr_step = s4\<rparr>"])
      (simp only: cost_main_def Let_def il py_bind.simps a st prod.case simp_thms if_True if_False cost_result.select_convs)
qed

section \<open>The time to the first link\<close>

lemma appraise_all_accepted:
  assumes "run_steps ins tik sc ex ss k m = (Inr (replicate (length ss) (True, w)), m')"
  shows "appraise_all ins pc tik sc ex ss k m = Inr (map (\<lambda>j. pc (7 + 2 * j) - pc (6 + 2 * j)) [k..<k + length ss])"
  using assms
proof (induction ss arbitrary: k m)
  case (Cons s ss)
  then obtain msg where msg: "as_evidence s = Inr msg" by (cases "as_evidence s") auto
  obtain r m1 where p: "present (ins k) m tik sc ex msg None None = (r, m1)" by fastforce
  with Cons.prems msg obtain ok why where r: "r = Inr (ok, why)" by (cases r) auto
  obtain r' m2 where q: "run_steps ins tik sc ex ss (Suc k) m1 = (r', m2)" by fastforce
  have "ok" using Cons.prems msg p r by (cases ok) auto
  with Cons.prems msg p r q have "r' = Inr (replicate (length ss) (True, w))" "m2 = m'" by (cases r'; auto)+
  with Cons.IH [of "Suc k" m1] q have "appraise_all ins pc tik sc ex ss (Suc k) m1
      = Inr (map (\<lambda>j. pc (7 + 2 * j) - pc (6 + 2 * j)) [Suc k..<Suc k + length ss])" by simp
  moreover have "[k..<k + length (s # ss)] = k # [Suc k..<Suc k + length ss]" by (subst upt_rec) simp
  ultimately show ?case using msg p r \<open>ok\<close> by simp
qed simp

text \<open>
  A connection to an honest guest: every link is accepted, and the time to the first one adds up a connection that is opened and
  closed, the client's own connection, the exchange of all links, and the first appraisal.
\<close>

lemma e2e_one_visit:
  assumes v: "visits W T ip tik V n a" and g: "\<And>c. c < n \<Longrightarrow> gen (visit_item V c) = Inr (gs c)"
  shows "e2e_one W k pc gen (Inr ()) T ip (int n) = Some (Inr \<lparr>tm_connect = pc 1 - pc 0, tm_handshake = pc 3 - pc 2, tm_request = pc 5 - pc 4,
    tm_gen = map gs [0..<n], tm_appraise = map (\<lambda>j. pc (7 + 2 * j) - pc (6 + 2 * j)) [0..<n],
    tm_first = (pc 2 - pc 0) + (pc 3 - pc 2) + (pc 5 - pc 4) + (pc 7 - pc 6), tm_bytes = length (dumps_bytes (visit_reply V n None))\<rparr>)"
proof -
  have gv: "genuine_visit W tik V n a" and me: "meets T ip 8443 tik (vs_sctx V) (vs_exporter V) V n" using v by (simp_all add: visits_def)
  obtain c c1 where c: "client_enter T (client_new ip 8443 None None) = Inr c"
    "client_request T c (hw_steps_request (int n) None) = Some (Inr (visit_reply V n None), c1)" by (rule meets_request [OF me])
  have d: "length (vs_sctx V) < 256" "device_trusted (hw_cfg W k) (vs_probe V) (vs_sctx V) (vs_exporter V) (vs_report V) a n" "n \<le> 2 ^ 64"
    "pb_tik_pub (vs_probe V) = tik" "0 < n" "anchor_instance a \<noteq> []"
    using gv by (auto simp: genuine_visit_def device_trusted_def hw_cfg_def Let_def)
  have st: "chain_state (hw_mandate W k) tik (vs_sctx V) (vs_exporter V) a 0"
    using watch_admits [OF watch_new _ d(6)] hw_mandate_sel [of W k] by simp
  have dt: "device_trusted (cfg (hw_mandate W k)) (vs_probe V) (vs_sctx V) (vs_exporter V) (vs_report V) a n" using d(2) hw_mandate_sel [of W k] by simp
  obtain m' where "run_steps (hw_ins W) tik (vs_sctx V) (vs_exporter V) (map (visit_item V) [0..<n]) 0 (hw_mandate W k)
      = (Inr (replicate (length (map (visit_item V) [0..<n])) (True, ''accepted; continuity intact'')), m')"
    using run_steps_accepts [OF d(1) dt _ refl d(3) le0, of "hw_ins W" 0] st d(4) by (auto simp: visit_item_def [abs_def])
  from appraise_all_accepted [OF this, of pc] have ap: "appraise_all (hw_ins W) pc tik (vs_sctx V) (vs_exporter V) (map (visit_item V) [0..<n]) 0 (hw_mandate W k)
      = Inr (map (\<lambda>j. pc (7 + 2 * j) - pc (6 + 2 * j)) [0..<n])" by simp
  have gs: "py_map gen (map (visit_item V) [0..<n]) = Inr (map gs [0..<n])"
  proof -
    have "py_map gen (map (visit_item V) xs) = Inr (map gs xs)" if "\<And>c. c \<in> set xs \<Longrightarrow> c < n" for xs
      using that g by (induction xs) simp_all
    from this [of "[0..<n]"] show ?thesis by simp
  qed
  define L where "L = map (\<lambda>j. pc (7 + 2 * j) - pc (6 + 2 * j)) [0..<n]"
  have "[0..<n] = 0 # [1..<n]" using d(5) by (simp add: upt_rec)
  then have hd: "L = (pc 7 - pc 6) # tl L" by (simp add: L_def)
  have "e2e_one W k pc gen (Inr ()) T ip (int n) = Some (case L of [] \<Rightarrow> Inl (IndexError ''list index out of range'')
      | x # xs \<Rightarrow> Inr \<lparr>tm_connect = pc 1 - pc 0, tm_handshake = pc 3 - pc 2, tm_request = pc 5 - pc 4, tm_gen = map gs [0..<n], tm_appraise = L,
        tm_first = pc 2 - pc 0 + (pc 3 - pc 2) + (pc 5 - pc 4) + x, tm_bytes = length (dumps_bytes (visit_reply V n None))\<rparr>)"
    using c meets_keys [OF me] gs ap [folded L_def]
    by (simp add: e2e_one_def in_client_at_def client_ask_def py_iter_def del: upt_Suc)
  also have "\<dots> = Some (Inr \<lparr>tm_connect = pc 1 - pc 0, tm_handshake = pc 3 - pc 2, tm_request = pc 5 - pc 4, tm_gen = map gs [0..<n], tm_appraise = L,
        tm_first = pc 2 - pc 0 + (pc 3 - pc 2) + (pc 5 - pc 4) + (pc 7 - pc 6), tm_bytes = length (dumps_bytes (visit_reply V n None))\<rparr>)"
    using hd by (cases L) simp_all
  finally show ?thesis unfolding L_def .
qed

text \<open>So it exceeds the time from the client's own connection to the first link by that of the other connection.\<close>

lemma first_link_counts_two_connections:
  assumes "visits W T ip tik V n a" "\<And>c. c < n \<Longrightarrow> gen (visit_item V c) = Inr (gs c)" "pc 1 \<le> pc 2"
  obtains t where "e2e_one W k pc gen (Inr ()) T ip (int n) = Some (Inr t)" "tm_connect t = pc 1 - pc 0"
    "tm_connect t \<le> tm_first t - (tm_handshake t + tm_request t + hd (tm_appraise t))"
proof -
  have "0 < n" using assms(1) by (simp add: visits_def genuine_visit_def)
  then have "[0..<n] = 0 # [1..<n]" by (simp add: upt_rec)
  then show thesis using e2e_one_visit [where pc = pc and k = k and gen = gen and gs = gs, OF assms(1) assms(2)] assms(3) that by simp
qed

text \<open>With one connection nothing is reported, and nothing saved: there is no warm run to take a median of.\<close>

lemma one_connection_reports_nothing: "e2e_main run 1 = map_option (\<lambda>r. case r of Inl x \<Rightarrow> Inl x | Inr t \<Rightarrow> Inl (LibError ''no median for empty data'')) (run 0)"
  by (cases "run 0"; cases "the (run 0)") (simp_all add: e2e_main_def e2e_report_of_def spread_def median_def)

section \<open>The beacons\<close>

text \<open>What each report was asked for: the link and its counter, the link being the hash of the report before.\<close>

definition beacon_chain :: "sev_device \<Rightarrow> bytes list \<Rightarrow> bool" where
  "beacon_chain dev reps \<longleftrightarrow> (\<forall>k < length reps. lv_report dev k (sha512 (lit ''HATLS-liveness''
     @ sha256 (if k = 0 then lit ''liveness-seed'' else reps ! (k - 1)) @ be_bytes 8 (int k))) = Inr (reps ! k))"

lemma beacon_run:
  assumes "py_fold (beacon dev pc) [0..<n] (sha256 (lit ''liveness-seed''), [], []) = Inr (link, tms, reps)"
  shows "length reps = n \<and> tms = map (\<lambda>k. (pc (2 * k + 1) - pc (2 * k)) * 1000) [0..<n] \<and> beacon_chain dev reps
    \<and> link = sha256 (if n = 0 then lit ''liveness-seed'' else last reps)"
  using assms
proof (induction n arbitrary: link tms reps)
  case 0
  then show ?case by (simp add: beacon_chain_def)
next
  case (Suc n)
  then obtain l ts rs where s: "py_fold (beacon dev pc) [0..<n] (sha256 (lit ''liveness-seed''), [], []) = Inr (l, ts, rs)"
    "beacon dev pc n (l, ts, rs) = Inr (link, tms, reps)" by (auto simp: py_fold_append py_bind_Inr_iff)
  note IH = Suc.IH [OF s(1)]
  from s(2) obtain cb rep where b: "to_bytes 8 (int n) = Inr cb" "lv_report dev n (sha512 (lit ''HATLS-liveness'' @ l @ cb)) = Inr rep"
    "link = sha256 rep" "tms = ts @ [(pc (2 * n + 1) - pc (2 * n)) * 1000]" "reps = rs @ [rep]"
    by (auto simp: beacon_def py_bind_Inr_iff)
  have "cb = be_bytes 8 (int n)" using b(1) by (auto simp: to_bytes_def split: if_splits)
  moreover have "l = sha256 (if n = 0 then lit ''liveness-seed'' else rs ! (n - 1))" using IH by (cases "n = 0") (auto simp: last_conv_nth)
  ultimately have "beacon_chain dev reps" using IH b(2,5) by (auto simp: beacon_chain_def nth_append less_Suc_eq)
  then show ?case using IH b by simp
qed

lemma liveness_figures:
  assumes "liveness_main dev pc = Inr r"
  shows "bc_min r \<le> bc_median r \<and> bc_median r \<le> bc_max r \<and> bc_per_sec r * bc_median r = 1000
    \<and> (\<exists>reps. length reps = 64 \<and> beacon_chain dev reps \<and> bc_chips r = (\<lambda>rep. take 16 (hex (slice 0x1A0 0x1E0 rep))) ` set reps)"
proof -
  from assms obtain link tms reps where s: "liveness_run dev pc = Inr (link, tms, reps)" by (auto simp: liveness_main_def py_bind_Inr_iff)
  note b = beacon_run [OF s [unfolded liveness_run_def]]
  let ?ts = "sort tms"
  have l: "length ?ts = 64" using b by (simp add: BEACONS_def del: upt_Suc)
  have "?ts \<noteq> []" using l by (metis length_0_conv zero_neq_numeral)
  then have la: "last ?ts = ?ts ! 63" using l by (simp add: last_conv_nth)
  have r: "bc_min r = ?ts ! 0" "bc_median r = ?ts ! 32" "bc_max r = ?ts ! 63" "bc_per_sec r = 1000 / ?ts ! 32" "?ts ! 32 \<noteq> 0"
    "bc_chips r = (\<lambda>rep. take 16 (hex (slice 0x1A0 0x1E0 rep))) ` set reps"
    using assms s la by (auto simp: liveness_main_def Let_def BEACONS_def split: if_splits)
  have "?ts ! 0 \<le> ?ts ! 32" "?ts ! 32 \<le> ?ts ! 63" using l by (simp_all add: sorted_nth_mono)
  then show ?thesis using b r by (auto simp: BEACONS_def)
qed

end
