(* ===== verification/Retry_Run.thy ===== *)
theory Retry_Run
  imports Hello_Retry Serial_Console
begin

text \<open>
  The handshakes that \<open>examples/hrr_binder.py\<close> and \<open>examples/hrr_finished_check.py\<close> run in one process, and their \<open>main\<close>:
  two ends of the TLS library over memory buffers, with every byte between them captured, and the counts over many
  handshakes. An end of the library is a record of functions on its state; the identity is drawn outside.
\<close>

section \<open>The handshake\<close>

text \<open>\<open>do_handshake\<close>: done, not yet (\<open>SSLWantReadError\<close> or \<open>SSLWantWriteError\<close>), or another exception.\<close>

record 'c tls_end =
  ep_do :: "'c \<Rightarrow> bool py \<times> 'c"
  ep_read :: "'c \<Rightarrow> bytes \<times> 'c"
  ep_feed :: "bytes \<Rightarrow> 'c \<Rightarrow> 'c"

text \<open>One end's turn: what it has to say is captured and given to its peer.\<close>

definition hs_turn :: "'c tls_end \<Rightarrow> 'd tls_end \<Rightarrow> 'c \<Rightarrow> 'd \<Rightarrow> (bool \<times> bytes \<times> 'c \<times> 'd) py" where
  "hs_turn C S c s = (case ep_do C c of
     (Inl x, _) \<Rightarrow> Inl x
   | (Inr fin, c1) \<Rightarrow> (let (data, c2) = ep_read C c1 in Inr (fin, data, c2, if data = [] then s else ep_feed S data s)))"

fun hs_loop :: "'c tls_end \<Rightarrow> 'd tls_end \<Rightarrow> nat \<Rightarrow> 'c \<Rightarrow> 'd \<Rightarrow> bytes \<Rightarrow> bytes \<Rightarrow> (bytes \<times> bytes \<times> 'c \<times> 'd) py" where
  "hs_loop C S 0 c s c2s s2c = Inr (c2s, s2c, c, s)"
| "hs_loop C S (Suc n) c s c2s s2c =
     py_bind (hs_turn C S c s) (\<lambda>(d1, out, c1, s1).
     py_bind (hs_turn S C s1 c1) (\<lambda>(d2, back, s2, c2).
       if d1 \<and> d2 then Inr (c2s @ out, s2c @ back, c2, s2) else hs_loop C S n c2 s2 (c2s @ out) (s2c @ back)))"

text \<open>\<open>suite\<close> is \<open>c.cipher()[0]\<close>, which raises when no cipher was agreed.\<close>

definition hrr_handshake :: "'c tls_end \<Rightarrow> 'd tls_end \<Rightarrow> ('c \<Rightarrow> string py) \<Rightarrow> 'c \<Rightarrow> 'd \<Rightarrow> (bytes \<times> bytes \<times> string) py" where
  "hrr_handshake C S suite c s = py_bind (hs_loop C S 40 c s [] []) (\<lambda>(c2s, s2c, c', _). py_bind (suite c') (\<lambda>n. Inr (c2s, s2c, n)))"

section \<open>The key log\<close>

text \<open>\<open>line.split()\<close>.\<close>

fun py_split :: "string \<Rightarrow> string \<Rightarrow> string list" where
  "py_split acc [] = (if acc = [] then [] else [acc])"
| "py_split acc (c # r) = (if space_char c then (if acc = [] then [] else [acc]) @ py_split [] r else py_split (acc @ [c]) r)"

definition log_secret :: "string \<Rightarrow> (string \<Rightarrow> bytes option) \<Rightarrow> (string \<Rightarrow> bytes option) py" where
  "log_secret line d = (case py_split [] line of
     [label, rnd, value] \<Rightarrow> py_bind (fromhex value) (\<lambda>b. Inr (d(label \<mapsto> b)))
   | _ \<Rightarrow> Inr d)"

definition keylog_secrets :: "string list \<Rightarrow> (string \<Rightarrow> bytes option) py" where
  "keylog_secrets ls = py_fold log_secret ls Map.empty"

type_synonym capture = "bytes \<times> bytes \<times> string \<times> (string \<Rightarrow> bytes option)"

text \<open>The handshake of the other script; \<open>keylog\<close> is what the client's library logged by the end.\<close>

definition logged_handshake :: "'c tls_end \<Rightarrow> 'd tls_end \<Rightarrow> ('c \<Rightarrow> string py) \<Rightarrow> ('c \<Rightarrow> string list py) \<Rightarrow> 'c \<Rightarrow> 'd \<Rightarrow> capture py" where
  "logged_handshake C S suite keylog c s = py_bind (hs_loop C S 40 c s [] []) (\<lambda>(c2s, s2c, c', _).
     py_bind (keylog c') (\<lambda>ls. py_bind (keylog_secrets ls) (\<lambda>secrets. py_bind (suite c') (\<lambda>n. Inr (c2s, s2c, n, secrets)))))"

section \<open>The script that compares the binders\<close>

definition binders_of :: "bytes \<Rightarrow> bytes \<times> bytes \<times> string \<Rightarrow> ((string \<times> bytes) list \<times> nat list) py" where
  "binders_of spki = (\<lambda>(c2s, s2c, suite). py_bind (suite_hash suite) (\<lambda>H. four_readings c2s s2c spki H))"

text \<open>\<open>len(set(b.values()))\<close>.\<close>

definition distinct_binders :: "(string \<times> bytes) list \<Rightarrow> nat" where
  "distinct_binders b = length (remdups (map snd b))"

text \<open>\<open>hs 0\<close> is the first handshake, \<open>hs (k + 1)\<close> the \<open>k\<close>-th of the loop, \<open>ctl\<close> the one between two ends of one group.\<close>

record binder_result =
  hb_binders :: "(string \<times> bytes) list"
  hb_sizes :: "nat list"
  hb_all4 :: nat
  hb_control :: bool

definition binder_main :: "(nat \<Rightarrow> (bytes \<times> bytes \<times> string) py) \<Rightarrow> (bytes \<times> bytes \<times> string) py \<Rightarrow> bytes \<Rightarrow> nat \<Rightarrow> (int \<times> binder_result) py" where
  "binder_main hs ctl spki runs =
     py_bind (hs 0) (\<lambda>x. py_bind (binders_of spki x) (\<lambda>(b, sizes).
     py_bind (py_fold (\<lambda>k n. py_bind (hs (Suc k)) (\<lambda>x. py_bind (binders_of spki x) (\<lambda>(b, _).
         Inr (n + (if distinct_binders b = 4 then 1 else 0))))) [0..<runs] 0) (\<lambda>all4.
     py_bind ctl (\<lambda>(_, s2c, _).
       Inr (0, \<lparr>hb_binders = b, hb_sizes = sizes, hb_all4 = all4,
         hb_control = list_ex (\<lambda>m. slice 6 38 m = HRR_RANDOM) (plaintext_handshake_messages s2c)\<rparr>)))))"

section \<open>The script that checks the Finished messages\<close>

definition check_capture :: "aead \<Rightarrow> capture \<Rightarrow> (string \<times> bool \<times> bool) list py" where
  "check_capture A = (\<lambda>(c2s, s2c, suite, secrets). finished_check A c2s s2c suite secrets)"

definition finished_main :: "aead \<Rightarrow> (nat \<Rightarrow> capture py) \<Rightarrow> capture py \<Rightarrow> nat \<Rightarrow> (int \<times> nat) py" where
  "finished_main A hs ctl runs =
     py_bind (py_bind (hs 0) (check_capture A)) (\<lambda>_.
     py_bind (py_fold (\<lambda>k n. py_bind (py_bind (hs (Suc k)) (check_capture A)) (\<lambda>r. Inr (n + (if only_c r then 1 else 0)))) [0..<runs] 0) (\<lambda>ok.
     py_bind (py_bind ctl (check_capture A)) (\<lambda>ctrl.
       Inr (if ok = runs \<and> map_of ctrl ''CH || SH'' = Some (True, True) then 0 else 1, ok))))"

end
