(* ===== verification/Retry_Proofs.thy ===== *)
theory Retry_Proofs
  imports Retry_Run Hello_Retry_Proofs
begin

text \<open>
  Facts about \<open>Retry_Run\<close>: what is captured is what the ends were given, the key log is read back, the four binders differ
  in every run and the Finished check of a run tells which reading its handshake was made over, up to collisions.
\<close>

section \<open>What is captured\<close>

text \<open>\<open>fed\<close> is what an end was given so far; its own calls do not change it.\<close>

definition keeps_fed :: "'c tls_end \<Rightarrow> ('c \<Rightarrow> bytes) \<Rightarrow> bool" where
  "keeps_fed C fed \<longleftrightarrow> (\<forall>c. fed (snd (ep_do C c)) = fed c \<and> fed (snd (ep_read C c)) = fed c) \<and> (\<forall>d c. fed (ep_feed C d c) = fed c @ d)"

lemma hs_turn_fed:
  assumes "keeps_fed C fc" "keeps_fed S fs" "hs_turn C S c s = Inr (fin, data, c', s')"
  shows "fc c' = fc c" "fs s' = fs s @ data"
proof -
  obtain r c1 where 1: "ep_do C c = (r, c1)" by fastforce
  obtain d c2 where 2: "ep_read C c1 = (d, c2)" by fastforce
  have f: "fc (snd (ep_do C c)) = fc c" "fc (snd (ep_read C c1)) = fc c1" using assms(1) by (simp_all add: keeps_fed_def)
  have g: "fs (ep_feed S d s) = fs s @ d" using assms(2) by (simp add: keeps_fed_def)
  show "fc c' = fc c" "fs s' = fs s @ data" using assms(3) 1 2 f g by (auto simp: hs_turn_def split: sum.splits)
qed

lemma captured_is_fed:
  assumes C: "keeps_fed C fc" and S: "keeps_fed S fs" and l: "hs_loop C S n c s c2s s2c = Inr (c2s', s2c', c', s')"
  shows "\<exists>x y. c2s' = c2s @ x \<and> s2c' = s2c @ y \<and> fs s' = fs s @ x \<and> fc c' = fc c @ y"
  using l
proof (induction n arbitrary: c s c2s s2c)
  case (Suc n)
  obtain d1 out c1 s1 where 1: "hs_turn C S c s = Inr (d1, out, c1, s1)" using Suc.prems by (auto simp: py_bind_Inr_iff)
  obtain d2 bk s2 c2 where 2: "hs_turn S C s1 c1 = Inr (d2, bk, s2, c2)" using Suc.prems 1 by (auto simp: py_bind_Inr_iff)
  note f = hs_turn_fed [OF C S 1] hs_turn_fed [OF S C 2]
  show ?case
  proof (cases "d1 \<and> d2")
    case True
    with Suc.prems 1 2 f show ?thesis by auto
  next
    case False
    then have "hs_loop C S n c2 s2 (c2s @ out) (s2c @ bk) = Inr (c2s', s2c', c', s')" using Suc.prems 1 2 by auto
    from Suc.IH [OF this] f show ?thesis by auto
  qed
qed simp

section \<open>The key log\<close>

lemma split_word: "list_all (\<lambda>c. \<not> space_char c) w \<Longrightarrow> py_split acc (w @ r) = py_split (acc @ w) r"
  by (induction w arbitrary: acc) auto

text \<open>A line as a TLS library writes it: label, client random, secret.\<close>

definition log_line :: "string \<times> bytes \<times> bytes \<Rightarrow> string" where
  "log_line = (\<lambda>(label, rnd, secret). label @ '' '' @ hex rnd @ '' '' @ hex secret @ [CHR 0x0A])"

definition log_word :: "string \<Rightarrow> bool" where
  "log_word w \<longleftrightarrow> w \<noteq> [] \<and> list_all (\<lambda>c. \<not> space_char c) w"

lemma hex_word: "b \<noteq> [] \<Longrightarrow> log_word (hex b)"
proof -
  have s: "\<not> space_char c" if "c \<in> set hex_chars" for c using that by (auto simp: hex_chars_def space_char_def)
  have "c \<in> set hex_chars" if "c \<in> set (hex b)" for c using that set_hex by blast
  moreover assume "b \<noteq> []"
  ultimately show ?thesis using s by (auto simp: log_word_def list_all_iff)
qed

lemma log_line_secret:
  assumes "log_word label" "rnd \<noteq> []" "secret \<noteq> []"
  shows "log_secret (log_line (label, rnd, secret)) d = Inr (d(label \<mapsto> secret))"
proof -
  have w: "log_word (hex rnd)" "log_word (hex secret)" using assms hex_word by blast+
  have nl: "space_char (CHR 0x0A)" "space_char CHR '' ''" by (simp_all add: space_char_def)
  have one: "py_split [] (v @ c # r) = v # py_split [] r" if "log_word v" "space_char c" for v c r
    using that split_word [of v "[]" "c # r"] by (simp add: log_word_def)
  have "py_split [] (log_line (label, rnd, secret)) = [label, hex rnd, hex secret]"
    using one [OF assms(1) nl(2)] one [OF w(1) nl(2)] one [OF w(2) nl(1)] by (simp add: log_line_def)
  then show ?thesis by (simp add: log_secret_def)
qed

lemma keylog_read_back:
  assumes "list_all (\<lambda>(label, rnd, secret). log_word label \<and> rnd \<noteq> [] \<and> secret \<noteq> []) es"
  shows "keylog_secrets (map log_line es) = Inr (map_of (rev (map (\<lambda>(label, _, secret). (label, secret)) es)))"
proof -
  have "py_fold log_secret (map log_line es) d = Inr (d ++ map_of (rev (map (\<lambda>(label, _, secret). (label, secret)) es)))" for d
    using assms by (induction es arbitrary: d) (auto simp: log_line_secret map_add_def fun_eq_iff split: option.splits)
  from this [of Map.empty] show ?thesis by (simp add: keylog_secrets_def)
qed

section \<open>The binders\<close>

text \<open>
  Over every capture that holds two ClientHellos, one HelloRetryRequest and one ServerHello, the script
  returns the sizes and four named binders; if the two ClientHellos differ, as a retry makes them,
  the binders are distinct unless the hash or HMAC collides on the transcripts of two of the readings.
\<close>

lemma four_readings_distinct:
  assumes "suite_hash suite = Inr H"
    and "hello_messages 0x01 (plaintext_handshake_messages c2s) = [ch1, ch2]"
    and "retry_requests (plaintext_handshake_messages s2c) = [hrr]" "server_hellos (plaintext_handshake_messages s2c) = [sh]"
    and "ch1 \<noteq> ch2"
  shows "\<exists>bs. four_readings c2s s2c spki H = Inr (bs, [length ch1, length hrr, length ch2, length sh]) \<and>
    map fst bs = binder_names \<and>
    (distinct (map snd bs) \<or>
     (\<exists>t\<in>set (retry_transcripts H ch1 hrr ch2 sh). \<exists>t'\<in>set (retry_transcripts H ch1 hrr ch2 sh).
        t \<noteq> t' \<and> binder_collision H spki t t'))"
proof -
  let ?T = "retry_transcripts H ch1 hrr ch2 sh"
  let ?B = "\<lambda>t. hmac H (binder_base H t) (expand_message (lit ''attestation'') (digest H spki) (digest_size H))"
  have hf: "hash_function H" "digest_size H < 256" using suite_hash_function [OF assms(1)] by auto
  have b: "hrr_binder_of (digest H t) spki H = Inr (?B t)" for t using hash_function.hrr_binder_value [OF hf] .
  have "four_readings c2s s2c spki H = Inr (zip binder_names (map ?B ?T), [length ch1, length hrr, length ch2, length sh])"
    using py_map_Inr [of ?T "\<lambda>t. hrr_binder_of (digest H t) spki H" ?B] by (simp add: four_readings_def assms b)
  moreover have F: "map fst (zip binder_names (map ?B ?T)) = binder_names" and M: "map snd (zip binder_names (map ?B ?T)) = map ?B ?T"
    by (simp_all add: binder_names_def retry_transcripts_def)
  moreover have D: "distinct ?T"
  proof (rule retry_transcripts_distinct)
    show "\<exists>r. ch1 = 0x01 # r" "\<exists>r. ch2 = 0x01 # r"
      using hello_messages_nonempty [where t = "0x01" and buf = "ptm_records c2s []"] assms(2) by (auto simp: plaintext_handshake_messages_def)
    have "hrr \<in> set (hello_messages 0x02 (plaintext_handshake_messages s2c))"
      using assms(3) by (auto simp: retry_requests_def filter_eq_Cons_iff)
    then show "hrr \<noteq> []" using hello_messages_nonempty by (auto simp: plaintext_handshake_messages_def)
  qed (rule assms)
  moreover have "t = t' \<or> binder_collision H spki t t'" if "?B t = ?B t'" for t t'
    using hash_function.hrr_binder_eqD [OF hf(1) _ hf(2)] b that by metis
  then have "distinct (map ?B ?T) \<or> (\<exists>t\<in>set ?T. \<exists>t'\<in>set ?T. t \<noteq> t' \<and> binder_collision H spki t t')"
    using D unfolding distinct_map inj_on_def by blast
  ultimately show ?thesis using F M by (intro exI [of _ "zip binder_names (map ?B ?T)"]) simp
qed


definition retried :: "bytes \<times> bytes \<times> string \<Rightarrow> hash_alg \<Rightarrow> bytes \<Rightarrow> bytes \<Rightarrow> bytes \<Rightarrow> bytes \<Rightarrow> bool" where
  "retried x H ch1 hrr ch2 sh \<longleftrightarrow> (case x of (c2s, s2c, suite) \<Rightarrow> suite_hash suite = Inr H
     \<and> hello_messages 0x01 (plaintext_handshake_messages c2s) = [ch1, ch2] \<and> retry_requests (plaintext_handshake_messages s2c) = [hrr]
     \<and> server_hellos (plaintext_handshake_messages s2c) = [sh] \<and> ch1 \<noteq> ch2)"

definition binders_collide :: "bytes \<Rightarrow> bytes \<times> bytes \<times> string \<Rightarrow> bool" where
  "binders_collide spki x \<longleftrightarrow> (\<exists>H ch1 hrr ch2 sh. retried x H ch1 hrr ch2 sh \<and>
     (\<exists>t \<in> set (retry_transcripts H ch1 hrr ch2 sh). \<exists>t' \<in> set (retry_transcripts H ch1 hrr ch2 sh). t \<noteq> t' \<and> binder_collision H spki t t'))"

lemma binders_of_retried:
  assumes r: "retried x H ch1 hrr ch2 sh" and no: "\<not> binders_collide spki x"
  shows "\<exists>b. binders_of spki x = Inr (b, [length ch1, length hrr, length ch2, length sh]) \<and> map fst b = binder_names \<and> distinct_binders b = 4"
proof -
  obtain c2s s2c suite where x: "x = (c2s, s2c, suite)" by (cases x)
  have h: "suite_hash suite = Inr H" "hello_messages 0x01 (plaintext_handshake_messages c2s) = [ch1, ch2]"
    "retry_requests (plaintext_handshake_messages s2c) = [hrr]" "server_hellos (plaintext_handshake_messages s2c) = [sh]" "ch1 \<noteq> ch2"
    using r by (simp_all add: retried_def x)
  from four_readings_distinct [OF h, of spki] obtain b where
    b: "four_readings c2s s2c spki H = Inr (b, [length ch1, length hrr, length ch2, length sh])" "map fst b = binder_names"
    "distinct (map snd b)" using no r unfolding binders_collide_def by blast
  have "length b = 4" using arg_cong [OF b(2), of length] by (simp add: binder_names_def)
  then have "distinct_binders b = 4" using b(3) by (simp add: distinct_binders_def distinct_remdups_id)
  with b h(1) show ?thesis by (simp add: binders_of_def x)
qed

lemma binder_main_counts:
  assumes hs: "\<And>k. k \<le> runs \<Longrightarrow> \<exists>x H ch1 hrr ch2 sh. hs k = Inr x \<and> retried x H ch1 hrr ch2 sh"
    and ctl: "ctl = Inr (cc, cs, n)" "list_all (\<lambda>m. slice 6 38 m \<noteq> HRR_RANDOM) (plaintext_handshake_messages cs)"
  shows "(\<exists>r. binder_main hs ctl spki runs = Inr (0, r) \<and> map fst (hb_binders r) = binder_names \<and> distinct_binders (hb_binders r) = 4
      \<and> hb_all4 r = runs \<and> \<not> hb_control r)
    \<or> (\<exists>k \<le> runs. \<exists>x. hs k = Inr x \<and> binders_collide spki x)"
proof (rule disjCI)
  assume no: "\<not> (\<exists>k \<le> runs. \<exists>x. hs k = Inr x \<and> binders_collide spki x)"
  have b: "\<exists>x b sizes. hs k = Inr x \<and> binders_of spki x = Inr (b, sizes) \<and> map fst b = binder_names \<and> distinct_binders b = 4" if k: "k \<le> runs" for k
  proof -
    obtain x H ch1 hrr ch2 sh where x: "hs k = Inr x" "retried x H ch1 hrr ch2 sh" using hs [OF k] by blast
    with no k binders_of_retried [OF x(2), of spki] show ?thesis by blast
  qed
  let ?f = "\<lambda>k n. py_bind (hs (Suc k)) (\<lambda>x. py_bind (binders_of spki x) (\<lambda>(b, _). Inr (n + (if distinct_binders b = 4 then 1 else 0))))"
  have "\<exists>n. py_fold ?f [0..<runs] 0 = Inr n \<and> n = runs"
  proof (rule py_fold_upto [where P = "\<lambda>k n. n = k"])
    fix k n assume "k < runs" "n = k"
    with b [of "Suc k"] show "\<exists>n'. ?f k n = Inr n' \<and> n' = Suc k" by auto
  qed simp
  then have loop: "py_fold ?f [0..<runs] 0 = Inr runs" by blast
  obtain x b0 sizes where 0: "hs 0 = Inr x" "binders_of spki x = Inr (b0, sizes)" "map fst b0 = binder_names" "distinct_binders b0 = 4" using b [of 0] by auto
  have "binder_main hs ctl spki runs = Inr (0, \<lparr>hb_binders = b0, hb_sizes = sizes, hb_all4 = runs,
      hb_control = list_ex (\<lambda>m. slice 6 38 m = HRR_RANDOM) (plaintext_handshake_messages cs)\<rparr>)"
    unfolding binder_main_def 0(1) py_bind.simps 0(2) prod.case loop ctl(1) ..
  with 0(3,4) ctl(2) show "\<exists>r. binder_main hs ctl spki runs = Inr (0, r) \<and> map fst (hb_binders r) = binder_names \<and> distinct_binders (hb_binders r) = 4
      \<and> hb_all4 r = runs \<and> \<not> hb_control r"
    by (intro exI [of _ "\<lparr>hb_binders = b0, hb_sizes = sizes, hb_all4 = runs,
      hb_control = list_ex (\<lambda>m. slice 6 38 m = HRR_RANDOM) (plaintext_handshake_messages cs)\<rparr>"]) (auto simp: list_all_iff list_ex_iff)
qed

section \<open>The Finished messages\<close>

text \<open>
  Over a captured handshake with a HelloRetryRequest whose Finished messages were made over reading \<open>i\<close>, the check tells
  the reading, or two readings collide.
\<close>

lemma finished_check_reading:
  assumes "aead_law A S" "aead_key_length suite = Some klen" "suite_hash suite = Inr H"
    and "secrets ''SERVER_HANDSHAKE_TRAFFIC_SECRET'' = Some sk" "secrets ''CLIENT_HANDSHAKE_TRAFFIC_SECRET'' = Some ck"
    and "flight_items_ok sitems scs sms" "sealed_stream S suite H klen sk v sitems srest = Inr s2c"
    and "flight_items_ok citems ccs cms" "sealed_stream S suite H klen ck v' citems crest = Inr c2s"
    and "hello_messages 0x01 (hs_bytes ccs) = [ch1, ch2]" "retry_requests (hs_bytes scs) = [hrr]" "server_hellos (hs_bytes scs) = [sh]"
    and "ch1 \<noteq> ch2" "i < 4" "u = retry_transcripts H ch1 hrr ch2 sh ! i"
    and "finished_value sk (u @ concat (butlast (hs_bytes sms))) H = Inr (drop 4 (last (hs_bytes sms)))"
    and "finished_value ck (u @ concat (hs_bytes sms) @ concat (butlast (hs_bytes cms))) H = Inr (drop 4 (last (hs_bytes cms)))"
  shows "\<exists>r. finished_check A c2s s2c suite secrets = Inr r \<and> map fst r = check_names \<and>
    ((map snd r = map (\<lambda>j. (j = i, j = i)) [0..<4] \<and> (only_c r \<longleftrightarrow> i = 2)) \<or>
     (\<exists>t\<in>set (retry_transcripts H ch1 hrr ch2 sh). t \<noteq> u \<and> finished_confused H sk ck (hs_bytes sms) (hs_bytes cms) t u))"
proof -
  let ?T = "retry_transcripts H ch1 hrr ch2 sh" and ?V = "reading_verdict H sk ck (hs_bytes sms) (hs_bytes cms)"
  let ?r = "map (\<lambda>(n, t). (n, ?V t)) (zip check_names ?T)"
  have l: "length check_names = 4" "length ?T = 4" by (simp_all add: check_names_def retry_transcripts_def)
  have n: "map fst ?r = check_names" and s: "map snd ?r = map ?V ?T"
    using l by (simp_all add: list_eq_iff_nth_eq split_beta)
  have "map snd ?r = map (\<lambda>j. (j = i, j = i)) [0..<4] \<and> (only_c ?r \<longleftrightarrow> i = 2)"
    if no: "\<forall>t\<in>set ?T. \<not> (t \<noteq> u \<and> finished_confused H sk ck (hs_bytes sms) (hs_bytes cms) t u)"
  proof
    have V: "?V t = (t = u, t = u)" if "t \<in> set ?T" for t
      using suite_hash_function [OF assms(3)] assms(16,17) no that by (intro reading_verdict_of) auto
    have "?T ! j = u \<longleftrightarrow> j = i" if "j < 4" for j
      using that assms(14,15) l captured_transcripts_distinct [OF assms(10,11,13)] by (simp add: nth_eq_iff_index_eq)
    then have "map ?V ?T = map (\<lambda>j. (j = i, j = i)) [0..<4]"
      using V l by (simp add: list_eq_iff_nth_eq)
    then show "map snd ?r = map (\<lambda>j. (j = i, j = i)) [0..<4]" using s by simp
    then show "only_c ?r \<longleftrightarrow> i = 2"
      using only_c_iff [OF n] by simp
  qed
  with n finished_check_value [OF assms(1-12)] show ?thesis by blast
qed

text \<open>
  A capture over a handshake: its streams are sealed flights and its Finished messages were made over \<open>u\<close>. After the
  retry \<open>u\<close> is one of the four readings; without one it is the two hellos.
\<close>

definition captured_over ::
  "(string \<Rightarrow> bytes \<Rightarrow> bytes \<Rightarrow> bytes \<Rightarrow> bytes \<Rightarrow> bytes) \<Rightarrow> capture \<Rightarrow> hash_alg \<Rightarrow> bytes list \<Rightarrow> bytes list \<Rightarrow> bytes \<Rightarrow> bytes \<Rightarrow> bytes list \<Rightarrow> bytes list
    \<Rightarrow> bytes \<Rightarrow> bool" where
  "captured_over S x H cplain splain sk ck senc cenc u \<longleftrightarrow> (case x of (c2s, s2c, suite, secrets) \<Rightarrow>
     \<exists>klen v v' sitems scs sms srest citems ccs cms crest. aead_key_length suite = Some klen \<and> suite_hash suite = Inr H
       \<and> secrets ''SERVER_HANDSHAKE_TRAFFIC_SECRET'' = Some sk \<and> secrets ''CLIENT_HANDSHAKE_TRAFFIC_SECRET'' = Some ck
       \<and> flight_items_ok sitems scs sms \<and> sealed_stream S suite H klen sk v sitems srest = Inr s2c
       \<and> flight_items_ok citems ccs cms \<and> sealed_stream S suite H klen ck v' citems crest = Inr c2s
       \<and> hs_bytes ccs = cplain \<and> hs_bytes scs = splain \<and> hs_bytes sms = senc \<and> hs_bytes cms = cenc
       \<and> finished_value sk (u @ concat (butlast senc)) H = Inr (drop 4 (last senc))
       \<and> finished_value ck (u @ concat senc @ concat (butlast cenc)) H = Inr (drop 4 (last cenc)))"

lemma captured_check:
  assumes "aead_law A S" "captured_over S x H cplain splain sk ck senc cenc u"
    and "named_readings H (hello_messages 0x01 cplain) (retry_requests splain) (server_hellos splain) = Inr ps"
  shows "check_capture A x = Inr (map (\<lambda>(n, t). (n, reading_verdict H sk ck senc cenc t)) ps)"
proof -
  obtain c2s s2c suite secrets where x: "x = (c2s, s2c, suite, secrets)" by (cases x)
  obtain klen v v' sitems scs sms srest citems ccs cms crest where
    h: "aead_key_length suite = Some klen" "suite_hash suite = Inr H"
      "secrets ''SERVER_HANDSHAKE_TRAFFIC_SECRET'' = Some sk" "secrets ''CLIENT_HANDSHAKE_TRAFFIC_SECRET'' = Some ck"
      "flight_items_ok sitems scs sms" "sealed_stream S suite H klen sk v sitems srest = Inr s2c"
      "flight_items_ok citems ccs cms" "sealed_stream S suite H klen ck v' citems crest = Inr c2s"
    and e: "hs_bytes ccs = cplain" "hs_bytes scs = splain" "hs_bytes sms = senc" "hs_bytes cms = cenc"
    using assms(2) unfolding captured_over_def x prod.case by (elim exE conjE) (rule that)
  show ?thesis using finished_check_named [OF assms(1) h, unfolded e, OF assms(3)] by (simp add: x check_capture_def)
qed

lemma captured_verdict:
  assumes c: "captured_over S x H cplain splain sk ck senc cenc u" and no: "\<not> (t \<noteq> u \<and> finished_confused H sk ck senc cenc t u)"
  shows "reading_verdict H sk ck senc cenc t = (t = u, t = u)"
proof -
  obtain c2s s2c suite secrets where x: "x = (c2s, s2c, suite, secrets)" by (cases x)
  have s: "suite_hash suite = Inr H" and f: "finished_value sk (u @ concat (butlast senc)) H = Inr (drop 4 (last senc))"
    "finished_value ck (u @ concat senc @ concat (butlast cenc)) H = Inr (drop 4 (last cenc))"
    using c unfolding captured_over_def x prod.case by - ((elim exE conjE, assumption)+)
  from suite_hash_function [OF s] show ?thesis by (intro reading_verdict_of [OF _ _ f no]) auto
qed

lemma captured_plain:
  "captured_over S x H cplain splain sk ck senc cenc u \<Longrightarrow> \<exists>ccs scs. hs_bytes ccs = cplain \<and> hs_bytes scs = splain"
  unfolding captured_over_def by (cases x) blast

text \<open>The handshake of the \<open>i\<close>-th reading after a retry, and that its Finished messages fit another reading too.\<close>

definition over_reading :: "(string \<Rightarrow> bytes \<Rightarrow> bytes \<Rightarrow> bytes \<Rightarrow> bytes \<Rightarrow> bytes) \<Rightarrow> capture \<Rightarrow> nat \<Rightarrow> bool" where
  "over_reading S x i \<longleftrightarrow> i < 4 \<and> (\<exists>H cplain splain sk ck senc cenc ch1 hrr ch2 sh. ch1 \<noteq> ch2
     \<and> captured_over S x H cplain splain sk ck senc cenc (retry_transcripts H ch1 hrr ch2 sh ! i)
     \<and> hello_messages 0x01 cplain = [ch1, ch2] \<and> retry_requests splain = [hrr] \<and> server_hellos splain = [sh])"

definition confused_capture :: "(string \<Rightarrow> bytes \<Rightarrow> bytes \<Rightarrow> bytes \<Rightarrow> bytes \<Rightarrow> bytes) \<Rightarrow> capture \<Rightarrow> bool" where
  "confused_capture S x \<longleftrightarrow> (\<exists>H cplain splain sk ck senc cenc u ch1 hrr ch2 sh. captured_over S x H cplain splain sk ck senc cenc u
     \<and> (\<exists>t \<in> set (retry_transcripts H ch1 hrr ch2 sh). t \<noteq> u \<and> finished_confused H sk ck senc cenc t u))"

lemma over_reading_check:
  assumes A: "aead_law A S" and o: "over_reading S x i" and no: "\<not> confused_capture S x"
  shows "\<exists>r. check_capture A x = Inr r \<and> map fst r = check_names \<and> map snd r = map (\<lambda>j. (j = i, j = i)) [0..<4] \<and> (only_c r \<longleftrightarrow> i = 2)"
proof -
  obtain H cplain splain sk ck senc cenc ch1 hrr ch2 sh where i: "i < 4" and d: "ch1 \<noteq> ch2"
    and c: "captured_over S x H cplain splain sk ck senc cenc (retry_transcripts H ch1 hrr ch2 sh ! i)"
    and h: "hello_messages 0x01 cplain = [ch1, ch2]" "retry_requests splain = [hrr]" "server_hellos splain = [sh]"
    using o unfolding over_reading_def by (elim exE conjE) (rule that)
  let ?T = "retry_transcripts H ch1 hrr ch2 sh" and ?V = "reading_verdict H sk ck senc cenc"
  let ?r = "map (\<lambda>(n, t). (n, ?V t)) (zip check_names ?T)"
  have l: "length check_names = 4" "length ?T = 4" by (simp_all add: check_names_def retry_transcripts_def)
  have r: "check_capture A x = Inr ?r"
    by (rule captured_check [OF A c]) (simp add: named_readings_def h)
  have n: "map fst ?r = check_names" and s: "map snd ?r = map ?V ?T" using l by (simp_all add: list_eq_iff_nth_eq split_beta)
  have D: "distinct ?T"
    using captured_plain [OF c] h(1,2) d captured_transcripts_distinct by fastforce
  have V: "?V t = (t = ?T ! i, t = ?T ! i)" if "t \<in> set ?T" for t
    using no c that unfolding confused_capture_def by (intro captured_verdict [OF c]) blast
  have "?T ! j = ?T ! i \<longleftrightarrow> j = i" if "j < 4" for j using that i l(2) D by (simp add: nth_eq_iff_index_eq)
  then have "?V (?T ! j) = (j = i, j = i)" if "j < 4" for j using V [of "?T ! j"] that l(2) by simp
  then have "map ?V ?T = map (\<lambda>j. (j = i, j = i)) [0..<4]"
    using l(2) by (intro nth_equalityI) simp_all
  with r n s only_c_iff [OF n, of i] show ?thesis by auto
qed

definition without_retry :: "(string \<Rightarrow> bytes \<Rightarrow> bytes \<Rightarrow> bytes \<Rightarrow> bytes \<Rightarrow> bytes) \<Rightarrow> capture \<Rightarrow> bool" where
  "without_retry S x \<longleftrightarrow> (\<exists>H cplain splain sk ck senc cenc ch sh. captured_over S x H cplain splain sk ck senc cenc (ch @ sh)
     \<and> hello_messages 0x01 cplain = [ch] \<and> retry_requests splain = [] \<and> server_hellos splain = [sh])"

lemma without_retry_check:
  assumes A: "aead_law A S" and o: "without_retry S x"
  shows "check_capture A x = Inr [(''CH || SH'', True, True)]"
proof -
  obtain H cplain splain sk ck senc cenc ch sh where c: "captured_over S x H cplain splain sk ck senc cenc (ch @ sh)"
    and h: "hello_messages 0x01 cplain = [ch]" "retry_requests splain = []" "server_hellos splain = [sh]"
    using o unfolding without_retry_def by (elim exE conjE) (rule that)
  have "named_readings H (hello_messages 0x01 cplain) (retry_requests splain) (server_hellos splain) = Inr [(''CH || SH'', ch @ sh)]"
    by (simp add: named_readings_def h)
  from captured_check [OF A c this] captured_verdict [OF c, of "ch @ sh"] show ?thesis by simp
qed

text \<open>
  The script over handshakes of any readings: it counts those over reading (c), the one its stack is expected to use, and
  ends with 0 exactly when that is all of them.
\<close>

lemma finished_main_counts:
  assumes A: "aead_law A S" and hs: "\<And>k. k \<le> runs \<Longrightarrow> \<exists>x. hs k = Inr x \<and> over_reading S x (i k)"
    and ctl: "ctl = Inr c" "without_retry S c"
  shows "finished_main A hs ctl runs =
      Inr (if \<forall>k \<in> {1..runs}. i k = 2 then 0 else 1, card {k \<in> {1..runs}. i k = 2})
    \<or> (\<exists>k \<le> runs. \<exists>x. hs k = Inr x \<and> confused_capture S x)"
proof (rule disjCI)
  assume no: "\<not> (\<exists>k \<le> runs. \<exists>x. hs k = Inr x \<and> confused_capture S x)"
  have b: "\<exists>r. py_bind (hs k) (check_capture A) = Inr r \<and> (only_c r \<longleftrightarrow> i k = 2)" if k: "k \<le> runs" for k
  proof -
    obtain x where x: "hs k = Inr x" "over_reading S x (i k)" using hs [OF k] by blast
    have "\<not> confused_capture S x" using no k x(1) by blast
    from over_reading_check [OF A x(2) this] x(1) show ?thesis by auto
  qed
  let ?C = "\<lambda>n. card {k \<in> {1..n}. i k = 2}"
  let ?f = "\<lambda>k n. py_bind (py_bind (hs (Suc k)) (check_capture A)) (\<lambda>r. Inr (n + (if only_c r then 1 else 0)))"
  have S: "{k \<in> {1..Suc n}. i k = 2} = {k \<in> {1..n}. i k = 2} \<union> (if i (Suc n) = 2 then {Suc n} else {})" for n
    by (auto simp: le_Suc_eq)
  have "\<exists>n. py_fold ?f [0..<runs] 0 = Inr n \<and> n = ?C runs"
  proof (rule py_fold_upto [where P = "\<lambda>k n. n = ?C k"])
    fix k n assume "k < runs" "n = ?C k"
    moreover have "?C (Suc k) = ?C k + (if i (Suc k) = 2 then 1 else 0)"
      unfolding S by (subst card_Un_disjoint) auto
    ultimately show "\<exists>n'. ?f k n = Inr n' \<and> n' = ?C (Suc k)" using b [of "Suc k"] by (auto simp del: atLeastAtMost_iff)
  qed simp
  then have loop: "py_fold ?f [0..<runs] 0 = Inr (?C runs)" by blast
  have "card {k \<in> {1..runs}. i k = 2} = runs \<longleftrightarrow> (\<forall>k \<in> {1..runs}. i k = 2)"
  proof
    assume "card {k \<in> {1..runs}. i k = 2} = runs"
    then have "{k \<in> {1..runs}. i k = 2} = {1..runs}" by (intro card_subset_eq) auto
    then show "\<forall>k \<in> {1..runs}. i k = 2" by blast
  next
    assume "\<forall>k \<in> {1..runs}. i k = 2"
    then have "{k \<in> {1..runs}. i k = 2} = {1..runs}" by blast
    then show "card {k \<in> {1..runs}. i k = 2} = runs" by simp
  qed
  moreover obtain r0 where "py_bind (hs 0) (check_capture A) = Inr r0" using b [of 0] by auto
  ultimately show "finished_main A hs ctl runs = Inr (if \<forall>k \<in> {1..runs}. i k = 2 then 0 else 1, ?C runs)"
    unfolding finished_main_def using loop by (simp add: ctl(1) without_retry_check [OF A ctl(2)])
qed

text \<open>The sample handshake is one over reading (c).\<close>

lemma sample_over_reading: "\<exists>x. over_reading plain_seal x 2"
proof -
  have k: "aead_key_length ''TLS_AES_128_GCM_SHA256'' = Some 16" "suite_hash ''TLS_AES_128_GCM_SHA256'' = Inr SHA256"
    by (simp_all add: aead_key_length_def suite_hash_def ends_with_def)
  have c: "sample_secrets ''SERVER_HANDSHAKE_TRAFFIC_SECRET'' = Some (zeros 32)" "sample_secrets ''CLIENT_HANDSHAKE_TRAFFIC_SECRET'' = Some (zeros 31)"
    by (simp_all add: sample_secrets_def)
  obtain s2c c2s where s: "sealed_stream plain_seal ''TLS_AES_128_GCM_SHA256'' SHA256 16 (zeros 32) (3, 3) server_items [0xff] = Inr s2c"
      "sealed_stream plain_seal ''TLS_AES_128_GCM_SHA256'' SHA256 16 (zeros 31) (3, 3) client_items [] = Inr c2s"
    using sample_streams by metis
  have 1: "captured_over plain_seal (c2s, s2c, ''TLS_AES_128_GCM_SHA256'', sample_secrets) SHA256
      (hs_bytes [(0x01, [1]), (0x01, [2])]) (hs_bytes [(0x02, [3, 3] @ HRR_RANDOM), (0x02, [3, 3] @ zeros 32)])
      (zeros 32) (zeros 31) (hs_bytes server_ms) (hs_bytes client_ms) sample_reading"
    unfolding captured_over_def prod.case
    using k c sample_flights(1) s(1) sample_flights(2) s(2) sample_finished by blast
  have 2: "hs_bytes [(0x01, [1]), (0x01, [2])] = [ch_one, ch_two]"
      "hs_bytes [(0x02, [3, 3] @ HRR_RANDOM), (0x02, [3, 3] @ zeros 32)] = [hello_retry, hello_server]"
    by (simp_all add: ch_one_def ch_two_def hello_retry_def hello_server_def)
  have "over_reading plain_seal (c2s, s2c, ''TLS_AES_128_GCM_SHA256'', sample_secrets) 2"
    unfolding over_reading_def
    by (rule conjI, simp, (rule exI)+, rule conjI [OF sample_hellos(4) conjI [OF 1 [unfolded 2 sample_reading_def]]])
      (simp add: sample_hellos)
  then show ?thesis ..
qed

end
