(* ===== verification/Guest_Service.thy ===== *)
theory Guest_Service
  imports Guest_Probe
begin

text \<open>
  The service of \<open>tools/guest_probe.py\<close>: the accept loop of \<open>main\<close> up to its deadline, with the files it leaves, over the
  service of one connection in \<open>Guest_Probe\<close>. The listening socket is a parameter.
\<close>

section \<open>The accept loop\<close>

text \<open>
  The \<open>k\<close>-th turn reads the clock, then accepts: a connection with its \<open>BioConnection\<close>, a time-out (\<open>None\<close>), or an
  exception, which ends \<open>main\<close>. \<open>ls_probe n\<close> is what the service of the \<open>n\<close>-th connection has at hand.
\<close>

record 'c listener =
  ls_clock :: "nat \<Rightarrow> rat"
  ls_accept :: "nat \<Rightarrow> 'c bio option py"
  ls_probe :: "nat \<Rightarrow> 'c probe"

partial_function (option) serve_loop :: "'c listener \<Rightarrow> rat \<Rightarrow> nat \<Rightarrow> nat \<Rightarrow> files \<Rightarrow> (unit py \<times> nat \<times> files) option" where
  "serve_loop L deadline k n fs =
     (if ls_clock L k < deadline then
        (case ls_accept L k of
           Inl x \<Rightarrow> Some (Inl x, n, fs)
         | Inr None \<Rightarrow> serve_loop L deadline (Suc k) n fs
         | Inr (Some b) \<Rightarrow> Option.bind (serve (ls_probe L (Suc n)) (Suc n) b) (\<lambda>(_, written).
             serve_loop L deadline (Suc k) (Suc n) (fs @ written)))
      else Some (Inr (), n, fs))"

definition metadata_file :: "'c probe \<Rightarrow> string \<Rightarrow> string \<times> bytes" where
  "metadata_file P stamp = (''metadata.json'', dumps_bytes (JObj [(''instance'', JStr (pb_instance P)), (''zone'', JStr (pb_zone P)),
     (''tik_pub_sha256'', JStr (hex (sha256 (pb_tik_pub P)))), (''captured'', JStr stamp)]))"

text \<open>From the deadline on; \<open>start\<close> is the clock then. How it ended, the connections served, and the files.\<close>

definition guest_main :: "'c listener \<Rightarrow> string \<Rightarrow> rat \<Rightarrow> (unit py \<times> nat \<times> files) option" where
  "guest_main L stamp start = serve_loop L (start + 15 * 60) 0 0 [metadata_file (ls_probe L 0) stamp]"

end
