(* ===== verification/Service_Proofs.thy ===== *)
theory Service_Proofs
  imports Guest_Service Serial_Proofs
begin

text \<open>
  Facts about \<open>Guest_Service\<close>: no connection overwrites a file of another or of its own, and the service lasts to its
  deadline whatever is raised while a connection is served.
\<close>

section \<open>The names of the files\<close>

text \<open>\<open>part\<close> is what the names of one connection end in.\<close>

definition conn_names :: "nat \<Rightarrow> files \<Rightarrow> bool" where
  "conn_names n fs \<longleftrightarrow> (\<exists>parts. map fst fs = map (conn_file n) parts \<and> distinct parts \<and> list_all (\<lambda>p. \<exists>q. p = CHR ''-'' # q \<or> p = CHR ''.'' # q) parts)"

lemma conn_names_Nil [simp]: "conn_names n []"
  by (auto simp: conn_names_def intro: exI [of _ "[]"])

lemma conn_file_eq:
  assumes "conn_file n (c # p) = conn_file n' (c' # p')" "\<not> is_digit c" "\<not> is_digit c'"
  shows "n = n' \<and> c = c' \<and> p = p'"
proof -
  have d: "list_all is_digit ((if m < 10 then ''0'' else []) @ dec_int (int m))" for m
    using dec_int_nat [of m] by (simp add: is_digit_def)
  let ?x = "\<lambda>m. (if m < 10 then ''0'' else []) @ dec_int (int m)"
  have e: "?x n @ c # p = ?x n' @ c' # p'" using assms(1) by (simp add: conn_file_def)
  then have t: "takeWhile is_digit (?x n @ c # p) = takeWhile is_digit (?x n' @ c' # p')" by simp
  have w: "takeWhile is_digit (?x m @ b # q) = ?x m" if "\<not> is_digit b" for m b q
    using takeWhile_run [of is_digit "?x m" b q] d [of m] that by blast
  have x: "?x n = ?x n'" using t w [OF assms(2)] w [OF assms(3)] by simp
  have "digits_val (''0'' @ a) = digits_val a" for a by (simp add: digits_val_def)
  then have "digits_val (?x m) = int m" for m using dec_int_nat(3) [of m] by (cases "m < 10") simp_all
  then have "n = n'" using arg_cong [OF x, of digits_val] by simp
  with e show ?thesis by simp
qed

lemma numbered_inj: "a @ dec_int (int c) @ CHR ''-'' # b = a @ dec_int (int c') @ CHR ''-'' # b \<longleftrightarrow> c = c'"
proof
  assume e: "a @ dec_int (int c) @ CHR ''-'' # b = a @ dec_int (int c') @ CHR ''-'' # b"
  have w: "takeWhile is_digit (dec_int (int c) @ CHR ''-'' # b) = dec_int (int c)" for c
    using takeWhile_run [of is_digit "dec_int (int c)" "CHR ''-''" b] dec_int_nat(1) by (simp add: is_digit_def)
  have "dec_int (int c) = dec_int (int c')" using e w [of c] w [of c'] by simp
  then have "digits_val (dec_int (int c)) = digits_val (dec_int (int c'))" by simp
  then show "c = c'" using dec_int_nat(3) by simp
qed simp

definition chain_part :: "nat \<Rightarrow> string" where
  "chain_part c = ''-c'' @ dec_int (int c) @ ''-report.bin''"

definition static_part :: "nat \<Rightarrow> string" where
  "static_part c = ''-static'' @ dec_int (int c) @ ''-report.bin''"

lemma part_eq: "chain_part c = chain_part c' \<longleftrightarrow> c = c'" "static_part c = static_part c' \<longleftrightarrow> c = c'"
  using numbered_inj [of "''-c''" c "''report.bin''" c'] numbered_inj [of "''-static''" c "''report.bin''" c']
  by (simp_all add: chain_part_def static_part_def)

lemma chain_items_names:
  "chain_items P n ex sc head prev cs fs = (r, fs') \<Longrightarrow> \<exists>k. map fst fs' = map fst fs @ map (conn_file n) (map chain_part (take k cs))"
proof (induction cs arbitrary: prev fs r fs')
  case (Cons c cs)
  show ?case
  proof (cases "fs' = fs")
    case True
    then show ?thesis by (intro exI [of _ 0]) simp
  next
    case False
    then obtain pl rep r1 where "chain_items P n ex sc head pl cs (fs @ [(conn_file n (chain_part c), rep)]) = (r1, fs')"
      using Cons.prems by (auto simp: chain_part_def split: sum.splits prod.splits)
    from Cons.IH [OF this] obtain k where "map fst fs' = map fst fs @ conn_file n (chain_part c) # map (conn_file n) (map chain_part (take k cs))" by auto
    then show ?thesis by (intro exI [of _ "Suc k"]) simp
  qed
qed simp

lemma static_rounds_names:
  "static_rounds P n rd binder cs fs = (r, fs') \<Longrightarrow> \<exists>k. map fst fs' = map fst fs @ map (conn_file n) (map static_part (take k cs))"
proof (induction cs arbitrary: fs r fs')
  case (Cons c cs)
  show ?case
  proof (cases "fs' = fs")
    case True
    then show ?thesis by (intro exI [of _ 0]) simp
  next
    case False
    then obtain rep r1 where "static_rounds P n rd binder cs (fs @ [(conn_file n (static_part c), rep)]) = (r1, fs')"
      using Cons.prems by (auto simp: static_part_def split: sum.splits prod.splits)
    from Cons.IH [OF this] obtain k where "map fst fs' = map fst fs @ conn_file n (static_part c) # map (conn_file n) (map static_part (take k cs))" by auto
    then show ?thesis by (intro exI [of _ "Suc k"]) simp
  qed
qed simp

text \<open>The reports of a connection, then perhaps the copy of its reply.\<close>

lemma conn_namesI:
  assumes "map fst fs = map (conn_file n) (map f (take k cs))" and "distinct cs" and "\<And>c c'. f c = f c' \<longleftrightarrow> c = c'"
    and "\<And>c. \<exists>q. f c = CHR ''-'' # q" and "\<And>c. f c \<noteq> p" and "\<exists>q. p = CHR ''-'' # q \<or> p = CHR ''.'' # q"
  shows "conn_names n fs" "conn_names n (fs @ [(conn_file n p, d)])"
proof -
  let ?ps = "map f (take k cs)"
  have d: "distinct ?ps" using assms(2,3) by (simp add: distinct_map inj_on_def)
  have l: "list_all (\<lambda>p. \<exists>q. p = CHR ''-'' # q \<or> p = CHR ''.'' # q) ?ps" using assms(4) by (fastforce simp: list_all_iff)
  show "conn_names n fs" unfolding conn_names_def using assms(1) d l by blast
  have "map fst (fs @ [(conn_file n p, d)]) = map (conn_file n) (?ps @ [p])" using assms(1) by simp
  moreover have "distinct (?ps @ [p])" using d assms(5) by auto
  moreover have "list_all (\<lambda>p. \<exists>q. p = CHR ''-'' # q \<or> p = CHR ''.'' # q) (?ps @ [p])" using l assms(6) by (simp only: list_all_append list.pred_inject simp_thms)
  ultimately show "conn_names n (fs @ [(conn_file n p, d)])" unfolding conn_names_def by blast
qed

lemma not_Inl_unit: "a \<noteq> Inr () \<Longrightarrow> \<exists>x. a = Inl x"
  by (cases a) auto

lemma send_reply_files:
  assumes "send_reply P b blob fs aft = Some (r, b', fs')"
  shows "fs' = fs \<or> (\<exists>w. aft = Inr w \<and> fs' = fs @ w)"
  using assms by (auto simp: send_reply_def split: sum.splits prod.splits dest!: not_Inl_unit)

lemma json_file_one: "json_file name blob = Inr w \<Longrightarrow> \<exists>d. w = [(name, d)]"
  by (auto simp: json_file_def py_bind_Inr_iff)

lemma json_reply_names:
  assumes "send_reply P b blob fs (json_file (conn_file n p) blob) = Some (r, b', fs')"
  shows "fs' = fs \<or> (\<exists>d. fs' = fs @ [(conn_file n p, d)])"
  using send_reply_files [OF assms] json_file_one by fastforce

lemma serve_chain_names:
  assumes "serve_chain P n b steps head ex sc = Some (r, b', fs)"
  shows "conn_names n fs"
proof -
  have I: "conn_names n fs1" "conn_names n (fs1 @ [(conn_file n ''.json'', d)])"
    if h: "chain_items P n ex sc head prev [0..<nat steps] [] = (r1, fs1)" for prev r1 fs1 d
  proof -
    obtain k where "map fst fs1 = map (conn_file n) (map chain_part (take k [0..<nat steps]))" using chain_items_names [OF h] by auto
    from conn_namesI [OF this distinct_upt part_eq(1), of "''.json''"]
    show "conn_names n fs1" "conn_names n (fs1 @ [(conn_file n ''.json'', d)])" by (auto simp: chain_part_def)
  qed
  show ?thesis
  proof (cases "gp_intra_link sc (pb_tik_pub P)")
    case (Inr prev)
    obtain r1 fs1 where c: "chain_items P n ex sc head prev [0..<nat steps] [] = (r1, fs1)" by fastforce
    have "fs = fs1 \<or> (\<exists>d. fs = fs1 @ [(conn_file n ''.json'', d)])"
      using assms Inr c by (cases r1) (auto simp: serve_chain_def Let_def dest!: json_reply_names)
    with I [OF c] show ?thesis by auto
  qed (use assms in \<open>simp add: serve_chain_def\<close>)
qed

lemma serve_static_names:
  assumes "serve_static P n req b steps head sc = Some (r, b', fs)"
  shows "conn_names n fs"
proof -
  have I: "conn_names n fs1" "conn_names n (fs1 @ [(conn_file n ''-static.json'', d)])"
    if h: "static_rounds P n rd bnd [0..<nat steps] [] = (r1, fs1)" for rd bnd r1 fs1 d
  proof -
    obtain k where k: "map fst fs1 = map (conn_file n) (map static_part (take k [0..<nat steps]))" using static_rounds_names [OF h] by auto
    have "static_part c \<noteq> ''-static.json''" for c
    proof
      assume "static_part c = ''-static.json''"
      then have "dec_int (int c) @ ''-report.bin'' = ''.json''" by (simp add: static_part_def)
      with dec_int_nat(1,2) [of c] show False by (cases "dec_int (int c)") (auto simp: is_digit_def)
    qed
    from conn_namesI [OF k distinct_upt part_eq(2) _ this]
    show "conn_names n fs1" "conn_names n (fs1 @ [(conn_file n ''-static.json'', d)])" by (auto simp: static_part_def)
  qed
  show ?thesis
  proof (cases "static_binder P b req sc head")
    case (Inr x)
    obtain bnd rd extra where x: "x = (bnd, rd, extra)" by (cases x)
    obtain r1 fs1 where c: "static_rounds P n rd bnd [0..<nat steps] [] = (r1, fs1)" by fastforce
    have "fs = fs1 \<or> (\<exists>d. fs = fs1 @ [(conn_file n ''-static.json'', d)])"
      using assms Inr x c by (cases r1) (auto simp: serve_static_def Let_def dest!: json_reply_names)
    with I [OF c] show ?thesis by auto
  qed (use assms in \<open>simp add: serve_static_def\<close>)
qed

lemma then_close_files: "then_close P m = Some (r, b, fs) \<Longrightarrow> \<exists>r1 b1. m = Some (r1, b1, fs)"
  by (auto simp: then_close_def bind_eq_Some_conv split: sum.splits dest!: not_Inl_unit)

lemma serve_request_names:
  assumes "serve_request P n req b = Some (r, b', fs)"
  shows "conn_names n fs"
proof -
  have one: "conn_names n [(conn_file n ''-enroll.bin'', d)]" for d
    using conn_namesI(2) [of "[]" n chain_part 0 "[]" "''-enroll.bin''" d] part_eq(1) by (auto simp: chain_part_def)
  have e: "conn_names n fs" if h: "send_reply P b blob [] (Inr [(conn_file n ''-enroll.bin'', rep)]) = Some (r1, b1, fs)" for blob rep r1 b1
    using send_reply_files [OF h] one by auto
  show ?thesis
    using assms unfolding serve_request_def
    by (auto split: if_splits sum.splits dest!: then_close_files e serve_static_names serve_chain_names)
qed

text \<open>What the \<open>n\<close>-th connection leaves.\<close>

lemma serve_names:
  assumes "serve P n b = Some (b', fs)"
  shows "conn_names n fs"
proof -
  obtain r b1 where s: "serve_body P n b = Some (r, b1, fs)"
    using assms by (auto simp: serve_def bind_eq_Some_conv)
  then obtain r2 b2 where h: "gp_handshake (pb_ops P) b = Some (r2, b2)" by (auto simp: serve_body_def bind_eq_Some_conv)
  show ?thesis
  proof (cases r2)
    case (Inr u)
    then obtain r3 b3 where l: "read_line (pb_ops P) b2 [] = Some (r3, b3)" using s h by (auto simp: serve_body_def bind_eq_Some_conv)
    show ?thesis
    proof (cases r3)
      case line: (Inr line)
      then show ?thesis
      proof (cases "loads_bytes (strip_bytes line)")
        case (Inr j)
        with s h l \<open>r2 = Inr u\<close> line show ?thesis by (cases j) (auto simp: serve_body_def dest: serve_request_names)
      qed (use s h l Inr in \<open>simp add: serve_body_def\<close>)
    qed (use s h l Inr in \<open>simp add: serve_body_def\<close>)
  qed (use s h in \<open>simp add: serve_body_def\<close>)
qed

section \<open>The service\<close>

definition part_start :: "string \<Rightarrow> bool" where
  "part_start p \<longleftrightarrow> (\<exists>q. p = CHR ''-'' # q \<or> p = CHR ''.'' # q)"

lemma conn_names_file: "conn_names n fs \<Longrightarrow> f \<in> set (map fst fs) \<Longrightarrow> \<exists>p. f = conn_file n p \<and> part_start p"
  unfolding conn_names_def list_all_iff part_start_def by (elim exE conjE) (simp only: set_map, elim imageE, blast)

lemma part_file_eq: "conn_file n p = conn_file n' p' \<Longrightarrow> part_start p \<Longrightarrow> part_start p' \<Longrightarrow> n = n'"
proof -
  have nd: "\<not> is_digit CHR ''-''" "\<not> is_digit CHR ''.''" by (simp_all add: is_digit_def)
  assume e: "conn_file n p = conn_file n' p'" and "part_start p" "part_start p'"
  then obtain c q c' q' where q: "p = c # q" "p' = c' # q'" "\<not> is_digit c" "\<not> is_digit c'" unfolding part_start_def using nd by metis
  from conn_file_eq [OF e [unfolded q(1,2)] q(3,4)] show ?thesis by (rule conjunct1)
qed

lemma conn_names_apart: "conn_names n fs \<Longrightarrow> conn_names n' fs' \<Longrightarrow> f \<in> set (map fst fs) \<Longrightarrow> f \<in> set (map fst fs') \<Longrightarrow> n = n'"
  using conn_names_file part_file_eq by metis

lemma conn_names_distinct:
  assumes "conn_names n fs"
  shows "distinct (map fst fs)"
proof -
  obtain ps where ps: "map fst fs = map (conn_file n) ps" "distinct ps" by (use assms in \<open>auto simp: conn_names_def\<close>)
  have "inj_on (conn_file n) (set ps)" by (auto simp: inj_on_def conn_file_def)
  with ps show ?thesis by (simp add: distinct_map)
qed

text \<open>The files so far: \<open>metadata.json\<close> and those of the connections up to \<open>n\<close>, no name twice.\<close>

definition files_ok :: "nat \<Rightarrow> files \<Rightarrow> bool" where
  "files_ok n fs \<longleftrightarrow> distinct (map fst fs)
     \<and> (\<forall>f \<in> set (map fst fs). f = ''metadata.json'' \<or> (\<exists>k gs. 1 \<le> k \<and> k \<le> n \<and> conn_names k gs \<and> f \<in> set (map fst gs)))"

lemma files_ok_conn:
  assumes "files_ok n fs" "conn_names (Suc n) fs'"
  shows "files_ok (Suc n) (fs @ fs')"
proof -
  have m: "f \<noteq> ''metadata.json''" if f: "f \<in> set (map fst fs')" for f
    using conn_names_file [OF assms(2) f] by (auto simp: conn_file_def)
  have "f \<notin> set (map fst fs')" if f: "f \<in> set (map fst fs)" for f
  proof
    assume g: "f \<in> set (map fst fs')"
    then obtain k gs where "k \<le> n" "conn_names k gs" "f \<in> set (map fst gs)"
      using assms(1) f m [OF g] unfolding files_ok_def by (elim conjE) (drule (1) bspec, elim disjE exE conjE, simp, rule that)
    with conn_names_apart [OF assms(2) _ g, of k gs] show False by simp
  qed
  then have a: "set (map fst fs) \<inter> set (map fst fs') = {}" by blast
  have "f = ''metadata.json'' \<or> (\<exists>k gs. 1 \<le> k \<and> k \<le> Suc n \<and> conn_names k gs \<and> f \<in> set (map fst gs))"
    if "f \<in> set (map fst (fs @ fs'))" for f
  proof (cases "f \<in> set (map fst fs')")
    case True
    with assms(2) show ?thesis by (intro disjI2 exI [of _ "Suc n"] exI [of _ fs']) simp
  next
    case False
    with that have "f \<in> set (map fst fs)" by simp
    with assms(1) show ?thesis unfolding files_ok_def by (meson le_SucI)
  qed
  moreover have "distinct (map fst (fs @ fs'))"
    using assms(1) a conn_names_distinct [OF assms(2)] unfolding files_ok_def map_append distinct_append by blast
  ultimately show ?thesis unfolding files_ok_def by blast
qed

lemma serve_loop_files:
  "serve_loop L deadline k n fs = Some y \<Longrightarrow> files_ok n fs \<Longrightarrow> files_ok (fst (snd y)) (snd (snd y))"
  by (induction rule: serve_loop.raw_induct [rotated, consumes 1, case_names step])
    (auto simp: bind_eq_Some_conv split: if_splits sum.splits option.splits dest: serve_names files_ok_conn)

text \<open>The service leaves every file once: no connection overwrites the evidence of another.\<close>

lemma guest_main_files:
  assumes "guest_main L stamp start = Some (r, n, fs)"
  shows "files_ok n fs"
  using serve_loop_files [OF assms [unfolded guest_main_def]] by (simp add: files_ok_def metadata_file_def)

text \<open>
  It lasts to its deadline: when accepting does not raise and every connection is served to an end, the service ends by
  the clock, with as many connections as were accepted, whatever was raised while they were served.
\<close>

lemma serve_loop_ends:
  assumes "\<And>k. k < N \<Longrightarrow> start k < deadline" "\<not> start N < deadline" "ls_clock L = start"
    and "\<And>k n b. k < N \<Longrightarrow> ls_accept L k = Inr (Some b) \<Longrightarrow> \<exists>y. serve (ls_probe L (Suc n)) (Suc n) b = Some y"
    and "\<And>k. k < N \<Longrightarrow> \<exists>a. ls_accept L k = Inr a" and "k \<le> N"
  shows "\<exists>fs'. serve_loop L deadline k n fs = Some (Inr (), n + card {j \<in> {k..<N}. \<exists>b. ls_accept L j = Inr (Some b)}, fs')"
  using assms(6)
proof (induction "N - k" arbitrary: k n fs)
  case 0
  then show ?case using assms(2,3) by (subst serve_loop.simps) simp
next
  case (Suc d)
  let ?A = "\<lambda>k. {j \<in> {k..<N}. \<exists>b. ls_accept L j = Inr (Some b)}"
  have k: "k < N" "d = N - Suc k" using Suc.hyps(2) by simp_all
  have s: "{k..<N} = insert k {Suc k..<N}" using k(1) by auto
  note IH = Suc.hyps(1) [OF k(2)]
  obtain a where a: "ls_accept L k = Inr a" using assms(5) [OF k(1)] by blast
  show ?case
  proof (cases a)
    case None
    then have "?A k = ?A (Suc k)" using a s by auto
    with IH [of n fs] k(1) show ?thesis using a None assms(1) [OF k(1)] assms(3) by (subst serve_loop.simps) simp
  next
    case (Some b)
    have "?A k = insert k (?A (Suc k))" using a Some s by auto
    then have c: "n + card (?A k) = Suc n + card (?A (Suc k))" by simp
    obtain b' w where v: "serve (ls_probe L (Suc n)) (Suc n) b = Some (b', w)" using assms(4) [OF k(1)] a Some by fastforce
    show ?thesis
      unfolding c using IH [of "Suc n" "fs @ w"] k(1) a Some v assms(1) [OF k(1)] assms(3) by (subst serve_loop.simps) simp
  qed
qed

end
