(* ===== verification/Spec2Isabelle.thy ===== *)
theory Spec2Isabelle
  imports Findings Sample_Worlds Federation Relying_Party Merkle_Proofs Hello_Retry_Proofs Malleability_Proofs Serial_Proofs Sample_Machines Sample_Local Sample_Claims Mandate_Types Bench_Proofs Measures_Proofs Retry_Proofs Service_Proofs
begin

text \<open>
  HATLS attests one TLS connection of a confidential VM, step by step: the guest chains HMAC links over
  values both ends export from the session, has its TEE sign REPORT_DATA derived from each link, and a
  relying party's \<^emph>\<open>mandate\<close> accepts one ordered chain per connection while a ledger ties each
  identity key to one enrolled instance, in an append-only log that others can audit.

  \<^bold>\<open>Theories and code\<close> (Python, under \<open>src/\<close>):

  \<^item> \<open>Prelude\<close>: \<open>Inl exn\<close> for what raises, \<open>py_bind\<close>, hexadecimal, big-endian integers, ASCII and
    UTF-8. \<open>Json\<close>, \<open>Json_Proofs\<close>: \<open>json.dumps\<close> and \<open>json.loads\<close> for the values the code writes;
    they round-trip. \<open>Base64\<close>, \<open>Sha2\<close>: the standard library's, on words; \<open>Crypto\<close>: the
    \<open>cryptography\<close> package, a record of functions.
  \<^item> \<open>Binder\<close>, \<open>Attester\<close> (\<open>hatls/protocol.py\<close>, \<open>hatls/transcript.py\<close>): HKDF labels, the links
    \<open>intra_link\<close> and \<open>post_link\<close>, \<open>report_data_for\<close>, \<open>Attester.attest\<close>, the CSR.
  \<^item> \<open>Merkle\<close>, \<open>Merkle_Levels\<close>, \<open>Merkle_Proofs\<close> (\<open>hatls/log.py\<close>): RFC 6962 trees, proofs built
    top-down and verifiers that walk bottom-up over the bits of the indices; complete, and sound up to an
    explicit collision of SHA-256.
  \<^item> \<open>Store\<close> (\<open>hatls/store.py\<close>): both stores, \<open>FileStore.put\<close> also as the sequence of its system
    calls; a locale \<open>ledger_store\<close> states their contract and both instances discharge it.
  \<^item> \<open>Receipt\<close>, \<open>Federation\<close>, \<open>Transfer_Grants\<close> (\<open>hatls/receipt.py\<close>, \<open>federation.py\<close>,
    \<open>transfer.py\<close>): signed heads, receipts, extension and equivocation; bundles, cross-witnessing and
    divergence; grants and enrolment authorisations.
  \<^item> \<open>Tee\<close> (\<open>hatls/tee.py\<close>): MockTEE, the SEV-SNP report, verifier and its certificate cache, the TDX
    parsers. The locale \<open>report_verifier\<close> is what the mandate needs of a verifier.
  \<^item> \<open>Ledger\<close>, \<open>Mandate\<close> (\<open>Mandate\<close> of \<open>hatls/protocol.py\<close>): the record of the object
    (\<open>sessions\<close>, \<open>challenges\<close>, the store, the log, the events), \<open>present\<close> cut at the code's blocks into
    \<open>appraise\<close>, \<open>appraise_gate\<close>, \<open>appraise_chain\<close>, \<open>appraise_link\<close>, \<open>accept_step\<close>, then
    \<open>enroll\<close>, \<open>accept_transfer\<close>, \<open>revoke\<close>, heads and proofs. Every raise leaves the state reached.
    Facts: \<open>Mandate_Frame\<close> what each operation leaves alone, \<open>Mandate_Accept\<close> when a step is
    accepted (\<open>admits\<close>), \<open>Mandate_Steps\<close> the step relation, reachability (\<open>reach\<close>) and the
    invariants, \<open>Mandate_Protocol\<close> and \<open>Mandate_Authority\<close> chains, enrolments and grants, \<open>Mandate_Types\<close>
    the types that keep the ledger readable.
  \<^item> \<open>Transcript\<close>, \<open>Connection\<close> (\<open>hatls/transcript.py\<close>): the draft's binder, reassembly of the Hello
    messages, \<open>BioConnection\<close>; \<open>Framing\<close>, \<open>Client\<close> (\<open>hatls/client.py\<close>): the framed exchange.
  \<^item> \<open>Guest_Probe\<close> (\<open>tools/guest_probe.py\<close>; \<open>Guest_Service\<close>, \<open>Service_Proofs\<close> its accept loop, and that no connection
    overwrites a file), \<open>Relying_Party\<close> (\<open>examples/client_mandate.py\<close>): the two
    ends, and the exchange between them. \<open>Attacks\<close>, \<open>Attack_Steps\<close>, \<open>Attack_Proofs\<close>
    (\<open>examples/attack.py\<close>): the sixteen attacks, and that each is stopped. \<open>Relay_Demo\<close>, \<open>Relay_Proofs\<close>
    (\<open>examples/relay_demo.py\<close>): guest, relay and client over TLS.
  \<^item> \<open>Hello_Retry\<close>, \<open>Hello_Retry_Proofs\<close> (\<open>examples/hrr_binder.py\<close>, \<open>examples/hrr_finished_check.py\<close>): the
    four readings of the transcript after a HelloRetryRequest, their binders, and the decryption of a captured
    handshake and comparison of its Finished messages under each. \<open>Retry_Run\<close>, \<open>Retry_Proofs\<close>: the handshakes in one
    process, the key log, and both scripts over many runs (\<open>Retry_Proofs.finished_main_counts\<close>).
  \<^item> \<open>Malleability\<close>, \<open>Malleability_Proofs\<close> (\<open>examples/malleability.py\<close>): reports with the conjugate
    signature through the verifier and the mandate.
  \<^item> \<open>Serial_Console\<close>, \<open>Serial_Proofs\<close> (\<open>reassemble\<close> of \<open>examples/aws_anchor_run.py\<close> and its two siblings, and the
    lines the probe prints): a JSON value through a serial console.
  \<^item> \<open>Anchor_Probe\<close>, \<open>Anchor_Run\<close>, \<open>Anchor_Proofs\<close> (\<open>examples/aws_anchor_run.py\<close>,
    \<open>examples/azure_anchor_run.py\<close>): what the probe in each guest sends, and the run over two machines from the
    challenge to the exit code. \<open>Sample_Machines\<close>: two machines for the witnesses.
  \<^item> \<open>Hw_Runs\<close> (\<open>examples/enroll_run.py\<close>, \<open>transfer_hw.py\<close>, \<open>witness_hw.py\<close>, \<open>federation_hw.py\<close>,
    \<open>reattest_freshness_hw.py\<close>): the five runs against live guests, as their client blocks and mandate calls.
    \<open>Hw_Mandate\<close>: the states such a run drives a mandate through (\<open>owns\<close>, \<open>moved_to\<close>). \<open>Hw_Proofs\<close>: what an
    honest guest serves (\<open>enrols_as\<close>, \<open>presents_as\<close>), what each block then returns, and the exit code of each run,
    the federation and witness runs up to two logs of one Merkle root. \<open>Sample_Guests\<close>: guests for the witnesses.
  \<^item> \<open>Live_Runs\<close>, \<open>Live_Proofs\<close> (\<open>main\<close> of \<open>examples/client_mandate.py\<close>, \<open>examples/relay_hw.py\<close>): the run without
    enrolment, and the run through a relay with the stolen key, which ends well unless two links collide
    (\<open>Live_Proofs.relay_hw_exits_0\<close>). \<open>Sample_Live\<close>: their guests; \<open>Sha2_Vectors\<close>: the known answers of SHA-256.
  \<^item> \<open>Local_Run\<close>, \<open>Local_Proofs\<close>, \<open>Sample_Local\<close> (\<open>examples/run_local.py\<close>): the eleven scenarios of the local run, each
    with the verdicts it prints, and the script in their order.
  \<^item> \<open>Claims\<close>, \<open>Claims_Proofs\<close>, \<open>Sample_Claims\<close> (\<open>examples/tdx_claims_run.py\<close>, \<open>examples/granularity.py\<close>): the
    comparison of two TDREPORTs by either script, and the counts over the shipped reports (\<open>Claims_Proofs.gr_main_sound\<close>).
  \<^item> \<open>Bench\<close>, \<open>Bench_Proofs\<close> (\<open>bench/benchmark.py\<close>): the five counts over any number of trials, which are zero
    (\<open>Bench_Proofs.bench_main_zero\<close>). \<open>Measures\<close>, \<open>Measures_Proofs\<close> (\<open>examples/evidence_size.py\<close>, \<open>examples/cost.py\<close>,
    \<open>examples/e2e_timing_hw.py\<close>, \<open>tools/liveness_probe.py\<close>): the sizes, times and figures the scripts report.
  \<^item> \<open>Samples\<close>, \<open>Sample_Worlds\<close>: concrete inputs for the witnesses. \<open>Findings\<close>: where the code departs
    from what it says.

  \<^bold>\<open>What the properties show.\<close> C1-C8 the chain: when a step is accepted, that an honest chain
  always is, and that relays, replays and impostors are not. C9-C15 and C21 the
  ledger: enrolment, transfer, revocation, bounds, types. C16-C20 the log and its audit.
  C22-C27 the system end to end: a served chain, a relayed one, the
  playground, a transfer and a run without enrolment over live guests, the local scenarios. C28 the
  comparison of two TDREPORTs.
  C29-C32 storage, encodings and the SEV-SNP verifier. C33 the
  federation. C34-C36 the wire. C37, C38 the
  experiments; C39, C40 the console and the cloud run.
  Properties over the mandate's life quantify over \<open>reach\<close>, every sequence of its operations with any inputs.

  \<^bold>\<open>Conventions.\<close> Clock readings, random bytes and signatures' randomness are arguments (\<open>inputs\<close>,
  \<open>draws\<close>); the performance counter of a measurement is a function into the rationals. Hash functions are
  the real ones, so a statement that rests on their strength says which two messages would collide. Nothing is assumed about
  forgery, except in the playground, where the thief's signatures do not verify under the owner's key. \<open>sig_correct\<close>, \<open>csr_correct\<close>, \<open>drains\<close> and
  \<open>delivers\<close> are the documented behaviour of libraries. Texts hold code points below 256.
  The loops that wait on a peer are partial functions into \<open>option\<close>. The one bound is the JSON parser's on the
  depth of nesting, the length of the text plus one, which no text exceeds.

  \<^bold>\<open>Not modelled.\<close> The \<open>cryptography\<close>, pyOpenSSL, OpenSSL and HTTP libraries (parameters); concurrent
  calls of one mandate, which the code does not guard; the text of exceptions raised by libraries; of the guest probe the metadata service;
  the vTPM's clock of the liveness probe; errors of the file system, which are steps of \<open>put_step\<close> but not results of \<open>file_put\<close>
  and \<open>file_get\<close>; a peer's counter that is no integer, which the scripts hand on to \<open>present\<close> and \<open>counter_of\<close> refuses; the commands that start and delete machines; the tests.
\<close>


section \<open>The mandate admits one ordered, anchored chain per connection\<close>

text \<open>
  C1. \<open>Mandate.present\<close> accepts a step exactly when \<open>admits\<close> holds: the record is readable and
  not revoked, the head (or bundle) checks, the Evidence is valid for this link and head, the
  platform names an instance unless the mandate allows otherwise, the ledger's enrolment, place and
  observation agree with it, the counter is 0 for a new session and the last one plus 1 for a known
  one, and the link is the one recomputed from this side's exporter and the chain's base.
\<close>

theorem present_accepts_iff_admits:
  "(\<exists>why m'. present i m tik sc ex msg head bundle = (Inr (True, why), m'))
   \<longleftrightarrow> (\<exists>r pl an. admits m tik sc ex msg head bundle r pl an)"
  by (rule present_accepts)

text \<open>
  C2. Liveness of an honest chain: an attester whose TEE the mandate's verifier accepts, over a
  connection the mandate has not seen, on a readable and unrevoked record that agrees with the
  TEE's anchor, is accepted at every one of \<open>n\<close> consecutive steps, for every \<open>n\<close> up to \<open>2 ^ 64\<close>,
  with or without the mandate's own head bound into the reports.
\<close>

theorem honest_chain_accepted:
  assumes "chain_state m tik sc ex an 0" "faithful_tee (cfg m) report an" "length sc < 256" "n \<le> 2 ^ 64"
  shows "\<exists>a' m'. chain_run report ins heads sc ex n (attester_new tik, m) = Some (a', m') \<and> at_counter a' = int n"
  using chain_run_state [OF assms, of ins heads] by (auto simp: attester_at_def)

theorem honest_chain_accepted_witness:
  "\<exists>a' m'. chain_run sample_report (\<lambda>n. sample_inputs) True [5] [9] 3 (attester_new [2], sample_mandate) = Some (a', m')
    \<and> at_counter a' = 3"
  using honest_chain_accepted [OF chain_state_sample, of sample_report 3 "\<lambda>n. sample_inputs" True] sample_faithful by simp

text \<open>
  C3. A relay is refused: a message an attester made with the exporter of its own connection is
  accepted by a mandate that derived another exporter only if the two HMAC computations collide
  (SHA-384 cut to 32 bytes on the outer messages, or SHA-384 on the inner ones); otherwise the two
  exporters and the two chain bases are equal.
\<close>

theorem relay_rejected:
  assumes "attest report a sc ex head = (Inr msg, a')" "case at_prev a of None \<Rightarrow> True | Some p \<Rightarrow> length p = 32"
    and "present i m tik sc' ex' msg head' bundle = (Inr (True, why), m')" "sessions_ok m"
    and "length ex = length ex'" "length ex' \<le> 128"
  shows "(ex = ex' \<and> attester_base a sc = expected_base m tik sc')
    \<or> link_collision (ex, attester_base a sc, at_counter a) (ex', expected_base m tik sc', at_counter a)"
  using assms by (rule relay_collides)

theorem relay_rejected_witness:
  "([9] = ([9] :: bytes) \<and> attester_base (attester_new [2]) [5] = expected_base sample_mandate [2] [5])
    \<or> link_collision ([9], attester_base (attester_new [2]) [5], 0) ([9], expected_base sample_mandate [2] [5], 0)"
proof (rule sample_step)
  fix msg m'
  assume "attest sample_report (attester_new [2]) [5] [9] None = (Inr msg, attester_at [5] [2] [9] 1)"
    "present sample_inputs sample_mandate [2] [5] [9] msg None None = (Inr (True, ''accepted; continuity intact''), m')"
  from relay_rejected [OF this(1) _ this(2) sample_sessions(1)] show ?thesis
    by (simp add: attester_new_def)
qed

text \<open>
  C4. No step is accepted twice in a session: once a message was accepted, a message with the same
  counter in the same session is refused, whatever its link and Evidence.
\<close>

theorem replayed_counter_refused:
  assumes "present i m tik sc ex msg head bundle = (Inr (True, why), m')" "msg_counter msg' = msg_counter msg"
  shows "present i' m' tik sc ex' msg' head' bundle' \<noteq> (Inr (True, why'), m'')"
  using assms by (rule step_replayed)

theorem replayed_counter_refused_witness:
  "\<exists>msg m'. present sample_inputs sample_mandate [2] [5] [9] msg None None = (Inr (True, ''accepted; continuity intact''), m')
    \<and> present sample_inputs m' [2] [5] [9] msg None None \<noteq> (Inr (True, ''accepted; continuity intact''), m')"
proof (rule sample_step)
  fix msg m'
  assume "present sample_inputs sample_mandate [2] [5] [9] msg None None = (Inr (True, ''accepted; continuity intact''), m')"
  with replayed_counter_refused [OF this refl, of sample_inputs "[9]" None None] show ?thesis by blast
qed

text \<open>
  C5. Along any run of the mandate, one session changes in two ways only: an accepted step of that
  very session stores its link and its counter, the old counter plus 1 (or 0 for a new session); or
  an accepted transfer of its identity ends it.
\<close>

theorem session_advances_by_one:
  assumes "mstep m m'" "sessions m' x \<noteq> sessions m x"
  shows "(\<exists>i tik sc ex msg head bundle r pl an. x = (hex tik, session_key sc)
      \<and> present i m tik sc ex msg head bundle = (Inr (True, ''accepted; continuity intact''), m')
      \<and> admits m tik sc ex msg head bundle r pl an
      \<and> sessions m' x = Some \<lparr>ss_prev = pl, ss_counter = (case sessions m x of None \<Rightarrow> 0 | Some s \<Rightarrow> ss_counter s + 1)\<rparr>)
    \<or> (sessions m' x = None \<and> (\<exists>i tik grant sig why. fst x = hex tik
      \<and> accept_transfer i m tik grant sig = (Inr (True, why), m')))"
  using mstep_sessions [OF assms]
proof (elim disjE exE conjE)
  fix i tik sc ex msg head bd r pl an
  assume x: "x = (hex tik, session_key sc)"
    and p: "present i m tik sc ex msg head bd = (Inr (True, ''accepted; continuity intact''), m')"
    and a: "admits m tik sc ex msg head bd r pl an"
    and s: "sessions m' x = Some \<lparr>ss_prev = pl, ss_counter = msg_counter msg\<rparr>"
  from s have "sessions m' x = Some \<lparr>ss_prev = pl, ss_counter = (case sessions m x of None \<Rightarrow> 0 | Some s \<Rightarrow> ss_counter s + 1)\<rparr>"
    using admits_counter [OF a] x by simp
  with x p a show ?thesis by blast
qed blast

theorem session_advances_by_one_witness:
  "\<exists>msg m' s. present sample_inputs sample_mandate [2] [5] [9] msg None None = (Inr (True, ''accepted; continuity intact''), m')
    \<and> sessions m' (hex [2], session_key [5]) = Some s \<and> ss_counter s = 0"
proof (rule sample_step)
  fix msg m'
  assume p: "present sample_inputs sample_mandate [2] [5] [9] msg None None = (Inr (True, ''accepted; continuity intact''), m')"
  let ?x = "(hex [2], session_key [5])"
  obtain r pl an where d: "step_done sample_mandate [2] [5] (msg_counter msg) pl r an m'"
    using p by (rule present_True)
  have n: "sessions sample_mandate ?x = None" by (simp add: sample_mandate_def mandate_new_def)
  moreover have "sessions m' ?x \<noteq> None" using d by (simp add: step_done_def)
  ultimately have "sessions m' ?x \<noteq> sessions sample_mandate ?x" by simp
  from session_advances_by_one [OF mstep.present [OF p] this] d obtain pl where
    "sessions m' ?x = Some \<lparr>ss_prev = pl, ss_counter = 0\<rparr>"
    unfolding n by (auto simp: step_done_def)
  then have "sessions m' ?x = Some \<lparr>ss_prev = pl, ss_counter = 0\<rparr> \<and> ss_counter \<lparr>ss_prev = pl, ss_counter = 0\<rparr> = 0" by simp
  with p show ?thesis by blast
qed

text \<open>
  C6. Evidence binds one step: with either verifier of the repository, if the same Evidence is
  accepted for two steps then both carry the same link and were bound to the same head, or SHA-512
  collides on the two messages hashed into REPORT_DATA.
\<close>

theorem evidence_binds_one_step:
  assumes "admits m tik sc ex msg head bundle r pl an" "admits m' tik' sc' ex' msg' head' bundle' r' pl' an'"
    and "verify_report (cfg m) = mock_verifier C trusted \<or> verify_report (cfg m) = (\<lambda>ev rd. fst (sevsnp_verifier X h pol cache ev rd))"
    and "cfg m' = cfg m" "msg_evidence msg' = msg_evidence msg"
  shows "(pl = pl' \<and> head = head') \<or> collision sha512 (report_preimage pl head) (report_preimage pl' head')"
proof -
  have v: "verify_report (cfg m) (msg_evidence msg) (report_data_for pl head) = Inr (True, an)"
    "verify_report (cfg m) (msg_evidence msg) (report_data_for pl' head') = Inr (True, an')"
    using assms by (simp_all add: admits_def)
  have "report_data_for pl head = report_data_for pl' head'"
    using assms(3) v mock.one_value snp.one_value by metis
  then show ?thesis
    using report_data_for_eqD admits_link(4) [OF assms(1)] admits_link(4) [OF assms(2)] by simp
qed

theorem evidence_binds_one_step_witness:
  "\<exists>m' msg pl. present sample_inputs sample_mandate [2] [5] [9] msg None None = (Inr (True, ''accepted; continuity intact''), m')
    \<and> ((pl = pl \<and> None = (None :: bytes option)) \<or> collision sha512 (report_preimage pl None) (report_preimage pl None))"
proof (rule sample_step)
  fix msg m'
  assume p: "present sample_inputs sample_mandate [2] [5] [9] msg None None = (Inr (True, ''accepted; continuity intact''), m')"
  obtain r pl an where a: "admits sample_mandate [2] [5] [9] msg None None r pl an"
    using p by (rule present_True)
  from evidence_binds_one_step [OF a a, of sample_crypto "[hex [2]]"] p show ?thesis by simp blast
qed

section \<open>Whose identity it is\<close>

text \<open>
  C7. Presenting decides nothing about ownership: whatever a presenter sends, and whatever the
  answer, the record of every identity keeps its enrolment, its place, its revocation, its transfer
  authority and the grants it has consumed; other identities' records do not change at all.
\<close>

theorem presenter_cannot_take_over:
  assumes "present i m tik sc ex msg head bundle = (res, m')" "mandate_rec m (hex b) = Inr r" "wf_rec r"
  shows "\<exists>r'. mandate_rec m' (hex b) = Inr r' \<and> enrolled_instance r' = enrolled_instance r
    \<and> enrolled_place r' = enrolled_place r \<and> revoked r' = revoked r \<and> reason r' = reason r
    \<and> transfer_authority r' = transfer_authority r
    \<and> (\<forall>x. py_in x (consumed_grants r') = py_in x (consumed_grants r)) \<and> (b = tik \<or> r' = r)"
  using assms by (rule present_rec) blast

theorem presenter_cannot_take_over_witness:
  "\<exists>res m' r'. present sample_inputs (ledger_with sample_rec) [2] [5] [9]
      \<lparr>msg_counter = 0, msg_intra_ok_base = True, msg_post_link = '''', msg_evidence = JNull, msg_head = None\<rparr> None None = (res, m')
    \<and> mandate_rec m' (hex [2]) = Inr r' \<and> enrolled_instance r' = Some (hex [7])"
  using presenter_cannot_take_over [of sample_inputs "ledger_with sample_rec" "[2]" "[5]" "[9]", OF _ ledger_with_rec sample_rec_ok(1)]
  by (metis prod.exhaust sample_rec_ok(4))

text \<open>
  C8. An impostor is refused on its first message: valid Evidence from an instance other than the
  enrolled one is answered with a refusal; the identity stays enrolled and unrevoked, a dispute and
  the sighting of the other instance are on record, and no session starts.
\<close>

theorem impostor_rejected:
  assumes "mandate_rec m (hex tik) = Inr r" "wf_rec r" "\<not> revoked r"
    and "enrolled_instance r = Some (hex a)" "a \<noteq> []"
    and "sees m tik msg head bundle an" "anchor_instance an \<noteq> a"
  shows "\<exists>m' r'. present i m tik sc ex msg head bundle
      = (Inr (False, ''rejected: key presented from an instance it was not enrolled on''), m')
    \<and> mandate_rec m' (hex tik) = Inr r' \<and> enrolled_instance r' = Some (hex a) \<and> \<not> revoked r'
    \<and> observed_instance r' = observed_instance r
    \<and> dsp_why (last (contention r')) = ''evidence from a non-enrolled instance''
    \<and> w_instance (last (witnessed r')) = hex (anchor_instance an) \<and> sessions m' = sessions m"
  using assms by (rule impostor_refused)

theorem impostor_rejected_witness:
  "\<exists>msg m'. present sample_inputs (ledger_with (blank\<lparr>enrolled_instance := Some (hex [9])\<rparr>)) [2] [5] [9] msg None None
     = (Inr (False, ''rejected: key presented from an instance it was not enrolled on''), m')"
proof -
  let ?r = "blank\<lparr>enrolled_instance := Some (hex [9])\<rparr>"
  let ?msg = "\<lparr>msg_counter = 0, msg_intra_ok_base = True, msg_post_link = hex [1],
    msg_evidence = mock_report sample_crypto sample_tee [] (report_data_for [1] None), msg_head = None\<rparr>"
  have "sees (ledger_with ?r) [2] ?msg None None sample_anchor"
    by (simp add: sees_def head_check_def sample_verifies)
  moreover have "wf_rec ?r" "\<not> revoked ?r" "enrolled_instance ?r = Some (hex [9])"
    by (simp_all add: wf_rec_def)
  moreover have "anchor_instance sample_anchor \<noteq> [9]" by (simp add: sample_anchor_def)
  ultimately show ?thesis
    using impostor_rejected [of "ledger_with ?r" "[2]" ?r "[9]" ?msg None None sample_anchor sample_inputs "[5]" "[9]"] by auto
qed

text \<open>
  C9. \<open>Mandate.enroll\<close> accepts exactly when \<open>enroll_admits\<close> holds: an unspent, unexpired nonce of
  this mandate, the enrolment authority's permission where one is configured, no enrolment on
  record, a CSR with a valid signature carrying the very key, and valid Evidence over
  SHA-512(nonce || CSR) from a platform with an anchor (and a place, where one is required).
\<close>

theorem enroll_accepts_iff:
  assumes "ledger_ok m"
  shows "(\<exists>why m'. enroll i m e = (Inr (True, why), m')) \<longleftrightarrow> (\<exists>r a. enroll_admits i m e r a)"
proof -
  obtain r where r: "mandate_rec m (hex (en_tik_pub e)) = Inr r" "wf_rec r" using assms by (rule ledger_okE)
  have "wf_rec r'" if "enroll_admits i m e r' a" for r' a using that r by (simp add: enroll_admits_def)
  then show ?thesis using enroll_accepts by (blast elim: enroll_True)
qed

theorem enroll_accepts_iff_witness: "\<exists>why m'. enroll sample_inputs challenged sample_enrolment = (Inr (True, why), m')"
  using enroll_accepts_iff [OF ledger_ok_sample(2), of sample_inputs sample_enrolment] sample_enroll_admits by blast

text \<open>
  Enrolment is first-write-wins, for good: after an enrolment was accepted, no later state of
  the mandate accepts another enrolment of the same identity.
\<close>

lemma enrolment_is_first_write_wins:
  assumes "enroll i m e = (Inr (True, why), m')" "ledger_ok m" "reach m' m''" "en_tik_pub e' = en_tik_pub e"
  shows "enroll i' m'' e' \<noteq> (Inr (True, why'), m3)"
proof
  assume again: "enroll i' m'' e' = (Inr (True, why'), m3)"
  obtain w where w: "mandate_rec m (hex (en_tik_pub e)) = Inr w" "wf_rec w" using assms(2) by (rule ledger_okE)
  obtain r a where "enroll_admits i m e r a" "enroll_done m e r a m'" using assms(1) by (rule enroll_True)
  with w have r1: "mandate_rec m' (hex (en_tik_pub e)) = Inr (map_nonces (store_norm (mstore m)) (enrolled_rec e r a))"
    by (intro enroll_done_rec) (simp_all add: enroll_admits_def)
  have "ledger_ok m'" by (rule mstep_ledger_ok [OF mstep.enroll [OF assms(1)] assms(2)])
  from reach_stands [OF assms(3) this r1] obtain r2 where
    "mandate_rec m'' (hex (en_tik_pub e)) = Inr r2" "enrolled_instance r2 \<noteq> None" by (auto simp: stands_def)
  with again assms(4) show False by (auto elim!: enroll_True simp: enroll_admits_def)
qed

text \<open>
  C10. \<open>Mandate.accept_transfer\<close> moves an identity exactly when \<open>transfer_admitted\<close> holds and the
  grant carries a nonce: enrolled, not revoked, a transfer authority on record whose signature over
  the grant verifies, version and identity right, inside the window, nonce not consumed, the current
  instance named (or \<open>any_origin\<close> granted), and a destination this mandate has recently witnessed.
\<close>

theorem transfer_accepts_iff:
  assumes "mandate_rec m (hex tik) = Inr r"
  shows "(\<exists>why m'. accept_transfer i m tik grant sig = (Inr (True, why), m')) \<longleftrightarrow>
    (\<exists>d t ti w o' nonce. transfer_admitted (cfg m) (int_of_time (t_check i)) (hex tik) r grant sig d t ti w o'
       \<and> dindex d ''nonce'' = Inr nonce)"
proof
  assume "\<exists>why m'. accept_transfer i m tik grant sig = (Inr (True, why), m')"
  then obtain why m' where "accept_transfer i m tik grant sig = (Inr (True, why), m')" by blast
  then show "\<exists>d t ti w o' nonce. transfer_admitted (cfg m) (int_of_time (t_check i)) (hex tik) r grant sig d t ti w o'
       \<and> dindex d ''nonce'' = Inr nonce"
  proof (cases rule: accept_transfer_cases)
    case (moved r0 d t ti w o' nonce m1)
    moreover have "r0 = r" using moved(1) assms by simp
    ultimately show ?thesis by blast
  qed simp_all
qed (use transfer_accepts [OF assms] in blast)

theorem transfer_accepts_iff_witness:
  "\<exists>why m'. accept_transfer sample_inputs (ledger_with sample_rec) [2] sample_grant sample_grant_sig = (Inr (True, why), m')"
proof -
  obtain d where "dindex d ''nonce'' = Inr (JStr (hex [1]))" "transfer_admitted sample_cfg 10 (hex [2]) sample_rec sample_grant
      sample_grant_sig d (hex [6]) [6] \<lparr>w_instance = hex [6], w_place = None, w_at = 0\<rparr> False"
    using sample_transfer_admitted by blast
  then show ?thesis
    using transfer_accepts_iff [OF ledger_with_rec, of sample_inputs sample_rec sample_grant sample_grant_sig,
      unfolded cfg_samples sample_time] by blast
qed

text \<open>
  C11. An enrolment moves only by a grant: if any step of the mandate changes the instance an
  identity is enrolled on, that step is a transfer that was accepted for this identity, and its
  grant met every condition of \<open>transfer_admitted\<close> against the record as it was.
\<close>

theorem enrolment_moves_only_by_grant_of_its_authority:
  assumes "mstep m m'" "ledger_ok m" "mandate_rec m (hex b) = Inr r" "mandate_rec m' (hex b) = Inr r'"
    and "enrolled_instance r = Some a" "enrolled_instance r' \<noteq> Some a"
  shows "\<exists>i grant sig d t ti w o'. accept_transfer i m b grant sig = (Inr (True, ''transferred to the authorised instance''), m')
    \<and> transfer_admitted (cfg m) (int_of_time (t_check i)) (hex b) r grant sig d t ti w o' \<and> enrolled_instance r' = Some t"
  using assms by (rule enrolment_moves_only_by_grant)

theorem enrolment_moves_only_by_grant_of_its_authority_witness:
  "\<exists>m' r'. accept_transfer sample_inputs (ledger_with sample_rec) [2] sample_grant sample_grant_sig
      = (Inr (True, ''transferred to the authorised instance''), m') \<and> mandate_rec m' (hex [2]) = Inr r'
    \<and> (\<exists>(i :: inputs) grant sig d t ti w o'. transfer_admitted sample_cfg (int_of_time (t_check i)) (hex [2]) sample_rec grant sig d t ti w o'
        \<and> enrolled_instance r' = Some t)"
proof -
  obtain m' where t: "accept_transfer sample_inputs (ledger_with sample_rec) [2] sample_grant sample_grant_sig
      = (Inr (True, ''transferred to the authorised instance''), m')" using sample_transfer by blast
  have ok: "ledger_ok (ledger_with sample_rec)" by (rule ledger_ok_with) simp_all
  obtain d t' ti w o' nonce where a: "transfer_admitted sample_cfg 10 (hex [2]) sample_rec sample_grant sample_grant_sig d t' ti w o'"
    "mandate_rec m' (hex [2]) = Inr (map_nonces (store_norm (mstore (ledger_with sample_rec))) (moved_rec sample_rec 10 t' w nonce o'))"
    by (rule accept_transfer_True [OF t wf_sample_grant ledger_with_rec sample_rec_ok(1), unfolded cfg_samples sample_time])
  have "t' = hex [6]" using a(1) by (auto simp: transfer_admitted_def sample_grant_def grant_json_def hex_or_null_def dget_def)
  then have "enrolled_instance (map_nonces (store_norm (mstore (ledger_with sample_rec))) (moved_rec sample_rec 10 t' w nonce o')) \<noteq> Some (hex [7])"
    by simp
  from enrolment_moves_only_by_grant_of_its_authority [OF mstep.transfer [OF t wf_sample_grant] ok ledger_with_rec a(2) sample_rec_ok(4) this]
  show ?thesis using t a(2) unfolding cfg_samples by blast
qed

text \<open>
  C12. A grant is used once, as long as the ledger remembers it: after a transfer was accepted, no
  state of the mandate in which fewer than 256 consumed grants are on record accepts it again,
  whatever happened in between.
\<close>

theorem grant_single_use:
  assumes "accept_transfer i m tik (JObj d) sig = (Inr (True, why), m')" "wf_json (JObj d)" "ledger_ok m"
    and "reach m' m''" "mandate_rec m'' (hex tik) = Inr r''" "length (consumed_grants r'') < 256"
  shows "accept_transfer i' m'' tik (JObj d) sig' \<noteq> (Inr (True, why'), m3)"
proof -
  obtain r where r: "mandate_rec m (hex tik) = Inr r" "wf_rec r" using assms(3) by (rule ledger_okE)
  obtain r' where r': "mandate_rec m' (hex tik) = Inr r'" "py_in (dget d ''nonce'') (consumed_grants r')"
    using transfer_spends [OF assms(1,2) r] by blast
  have "ledger_ok m'" by (rule mstep_ledger_ok [OF mstep.transfer [OF assms(1,2)] assms(3)])
  from reach_remembers [OF assms(4) this r'(1)] assms(5,6) r'(2)
  have "py_in (dget d ''nonce'') (consumed_grants r'')" by (auto simp: remembers_def)
  with used_grant_refused [OF assms(5)] show ?thesis by blast
qed

theorem grant_single_use_witness:
  "\<exists>m'. accept_transfer sample_inputs (ledger_with sample_rec) [2] sample_grant sample_grant_sig
      = (Inr (True, ''transferred to the authorised instance''), m')
    \<and> accept_transfer sample_inputs m' [2] sample_grant sample_grant_sig
      \<noteq> (Inr (True, ''transferred to the authorised instance''), m')"
proof -
  obtain m' where t: "accept_transfer sample_inputs (ledger_with sample_rec) [2] sample_grant sample_grant_sig
      = (Inr (True, ''transferred to the authorised instance''), m')" using sample_transfer by blast
  obtain d where d: "sample_grant = JObj d" by (simp add: sample_grant_def grant_json_def)
  have ok: "ledger_ok (ledger_with sample_rec)" by (rule ledger_ok_with) simp_all
  obtain t' w nonce o' where "mandate_rec m' (hex [2]) = Inr (map_nonces (store_norm (mstore (ledger_with sample_rec))) (moved_rec sample_rec 10 t' w nonce o'))"
    by (rule accept_transfer_True [OF t wf_sample_grant ledger_with_rec sample_rec_ok(1), unfolded sample_time])
  moreover have "length (consumed_grants (map_nonces (store_norm (mstore (ledger_with sample_rec))) (moved_rec sample_rec 10 t' w nonce o'))) < 256"
    by (simp add: len_simps)
  ultimately show ?thesis
    using grant_single_use [OF t [unfolded d] wf_sample_grant [unfolded d] ok reach_refl] t unfolding d by blast
qed

text \<open>
  C13. A revocation stands: once an identity is revoked, every later state of the mandate has it
  revoked, with the same enrolment; none of its steps is accepted, and no grant moves it.
\<close>

theorem revocation_is_final:
  assumes "reach m m'" "ledger_ok m" "mandate_rec m (hex tik) = Inr r" "revoked r"
  shows "(\<exists>r'. mandate_rec m' (hex tik) = Inr r' \<and> revoked r'
      \<and> (enrolled_instance r = None \<or> enrolled_instance r' = enrolled_instance r))
    \<and> present i m' tik sc ex msg head bundle \<noteq> (Inr (True, why), m1)
    \<and> accept_transfer i m' tik grant sig \<noteq> (Inr (True, why), m2)"
proof -
  obtain r' where r': "mandate_rec m' (hex tik) = Inr r'" "stands r r'" using reach_stands [OF assms(1-3)] by blast
  then have rv: "revoked r'" using assms(4) by (simp add: stands_def)
  have "present i m' tik sc ex msg head bundle \<noteq> (Inr (True, why), m1)"
    using r'(1) rv by (auto elim!: present_True simp: admits_def)
  moreover have "accept_transfer i m' tik grant sig \<noteq> (Inr (True, why), m2)"
  proof
    assume "accept_transfer i m' tik grant sig = (Inr (True, why), m2)"
    then show False using r'(1) rv by (cases rule: accept_transfer_cases) (auto simp: transfer_admitted_def)
  qed
  ultimately show ?thesis using r' rv assms(4) by (auto simp: stands_def)
qed

theorem revocation_is_final_witness:
  "\<exists>r'. mandate_rec (ledger_with (blank\<lparr>revoked := True\<rparr>)) (hex [2]) = Inr r' \<and> revoked r'
    \<and> accept_transfer sample_inputs (ledger_with (blank\<lparr>revoked := True\<rparr>)) [2] JNull []
        \<noteq> (Inr (True, ''''), ledger_with blank)"
proof -
  let ?r = "blank\<lparr>revoked := True\<rparr>"
  have "wf_rec ?r" "rec_bounded ?r" "revoked ?r" by (simp_all add: wf_rec_def rec_bounded_def)
  with revocation_is_final [OF reach_refl ledger_ok_with ledger_with_rec, of ?r sample_inputs "[5]" "[9]"] show ?thesis by blast
qed

text \<open>
  C14. The ledger stays readable and bounded: from a mandate over an empty store, after any run of
  its operations, every identity's record reads back without an exception, with at most 32 sightings,
  64 disputes, 64 transfers and 256 consumed grants. The puts of the run are ones the file system lets succeed.
\<close>

theorem ledger_readable_and_bounded:
  assumes "reach (mandate_new c (MemoryStore [])) m \<or> reach (mandate_new c (FileStore p [])) m"
  shows "\<exists>r. mandate_rec m (hex b) = Inr r \<and> length (witnessed r) \<le> 32 \<and> length (contention r) \<le> 64
    \<and> length (transfers r) \<le> 64 \<and> length (consumed_grants r) \<le> 256"
proof -
  have "mandate_rec (mandate_new c (MemoryStore [])) (hex b) = Inr blank" for b
    by (simp add: mandate_rec_def mandate_new_def memory_get_def)
  then have 1: "ledger_ok (mandate_new c (MemoryStore []))" by (simp add: ledger_ok_def)
  have "mandate_rec (mandate_new c (FileStore p [])) (hex b) = Inr blank" for b
    by (simp add: mandate_rec_def mandate_new_def file_get_def store_file_def)
  then have 2: "ledger_ok (mandate_new c (FileStore p []))" by (simp add: ledger_ok_def)
  from assms 1 2 have "ledger_ok m" using reach_ledger_ok by blast
  then show ?thesis by (rule ledger_okE) (auto simp: rec_bounded_def)
qed

theorem ledger_readable_and_bounded_witness: "\<exists>r. mandate_rec (mandate_new sample_cfg (FileStore '''' [])) (hex [2]) = Inr r"
  using ledger_readable_and_bounded [OF disjI2 [OF reach_refl], of sample_cfg "''''" "[2]"] by blast

section \<open>The transparency log\<close>

text \<open>
  C16. The log only grows, and the mandate knows exactly its own heads: along any run from a new
  mandate the entries only get longer, no two entries are equal, and \<open>knows_head\<close> holds of exactly
  the roots of the prefixes of the log.
\<close>

theorem log_append_only_with_known_heads:
  assumes "reach (mandate_new c st) m" "reach m m'"
  shows "take (length (merkle m)) (merkle m') = merkle m \<and> distinct (merkle m')
    \<and> (\<forall>h. knows_head m' h = (\<exists>n. n \<le> length (merkle m') \<and> h = root (take n (merkle m'))))"
proof -
  have i: "log_inv m'" using reach_log_inv [OF assms(2) reach_log_inv [OF assms(1) log_inv_new]] .
  note log_inv_distinct [OF i] knows_head_iff [OF i]
  moreover obtain es where "merkle m' = merkle m @ es" using reach_grows [OF assms(2)] by blast
  ultimately show ?thesis by auto
qed

theorem log_append_only_with_known_heads_witness:
  "knows_head (mandate_new sample_cfg (MemoryStore [])) (root []) \<and> distinct (merkle (mandate_new sample_cfg (MemoryStore [])))"
proof -
  have "merkle (mandate_new sample_cfg (MemoryStore [])) = []" by (simp add: mandate_new_def log_new_def)
  with log_append_only_with_known_heads [OF reach_refl reach_refl, of sample_cfg "MemoryStore []"] show ?thesis by simp
qed

text \<open>
  C17. Every decision stays provable: for each entry of the log, now or in any later state, the
  receipt the mandate issues verifies under the mandate's key, for a signature scheme whose
  signatures verify.
\<close>

theorem receipts_verify:
  assumes "sig_correct (cf_crypto (cfg m))" "reach m m'" "n < length (merkle m)"
  shows "\<exists>rc. mandate_receipt i m' (int n) = Inr rc \<and> rc_entry rc = hex (merkle m ! n)
    \<and> verify_receipt (cf_crypto (cfg m)) (mandate_public_key m) rc = Inr (True, ''receipt verifies'')"
proof -
  obtain es where es: "merkle m' = merkle m @ es" using reach_grows [OF assms(2)] by blast
  have c: "cfg m' = cfg m" by (rule reach_cfg [OF assms(2)])
  then have "mandate_public_key m' = mandate_public_key m" by (simp add: mandate_public_key_def)
  with receipt_verifies [of m' n i] assms(1,3) es c show ?thesis by (simp add: nth_append)
qed

theorem receipts_verify_witness:
  "\<exists>m' rc. revoke sample_inputs sample_mandate [2] ''operator'' = (Inr (True, ''identity revoked: '' @ ''operator''), m')
    \<and> mandate_receipt sample_inputs m' 0 = Inr rc
    \<and> verify_receipt sample_crypto (mandate_public_key m') rc = Inr (True, ''receipt verifies'')"
proof -
  obtain m1 where s: "save_rec sample_mandate (hex [2]) (blank\<lparr>revoked := True, reason := Some ''operator''\<rparr>) = (Inr (), m1)"
    and e: "revoke sample_inputs sample_mandate [2] ''operator'' = (Inr (True, ''identity revoked: '' @ ''operator''),
       snd (record_decision sample_inputs (emit_event m1 [ES ''revoked'', ES (take 16 (hex [2])), ES ''operator'']) ''revoke'' [2] True ''operator'' None))"
    (is "_ = (_, snd ?d)")
    by (rule revoke_ok [OF sample_mandate_rec])
  obtain o1 m' where d: "?d = (o1, m')" by fastforce
  have "cfg m' = sample_cfg" "0 < length (merkle m')"
    using record_decision_sel(2,4) [OF d] save_rec_sel [OF s] by simp_all
  then show ?thesis
    using e d receipts_verify [OF _ reach_refl, of m' 0 sample_inputs] sample_sig_correct by auto
qed

text \<open>A mandate whose log holds one decision.\<close>

lemma sample_logged:
  obtains m' where "revoke sample_inputs sample_mandate [2] ''operator'' = (Inr (True, ''identity revoked: '' @ ''operator''), m')"
    "cfg m' = sample_cfg" "merkle m' \<noteq> []"
proof -
  obtain m1 where s: "save_rec sample_mandate (hex [2]) (blank\<lparr>revoked := True, reason := Some ''operator''\<rparr>) = (Inr (), m1)"
    and e: "revoke sample_inputs sample_mandate [2] ''operator'' = (Inr (True, ''identity revoked: '' @ ''operator''),
       snd (record_decision sample_inputs (emit_event m1 [ES ''revoked'', ES (take 16 (hex [2])), ES ''operator'']) ''revoke'' [2] True ''operator'' None))"
    (is "_ = (_, snd ?d)")
    by (rule revoke_ok [OF sample_mandate_rec])
  obtain o1 m' where d: "?d = (o1, m')" by fastforce
  have "cfg m' = sample_cfg" "merkle m' \<noteq> []" using record_decision_sel(2,4) [OF d] save_rec_sel [OF s] by simp_all
  with that e d show thesis by simp
qed

text \<open>
  C18. Equivocation is found out: given two signed heads over logs \<open>D1\<close> and \<open>D2\<close>, the first one
  non-empty, not longer, and not a prefix of the second, \<open>is_equivocation\<close> convicts the signer
  whatever proofs are offered, unless SHA-256 collides on the listed messages.
\<close>

theorem equivocation_detected:
  assumes "verify_sth C spki a = Inr True" "verify_sth C spki b = Inr True"
    and "sth_root a = hex (root D1)" "sth_size a = int (length D1)"
    and "sth_root b = hex (root D2)" "sth_size b = int (length D2)"
    and "D1 \<noteq> []" "length D1 \<le> length D2" "take (length D1) D2 \<noteq> D1"
  shows "(\<exists>why. is_equivocation C spki a b pab pba = Inr (True, why))
    \<or> collides sha256 (consistency_messages D1 D2 [])
    \<or> (\<exists>q p. pab = Some q \<and> py_map fromhex q = Inr p \<and> collides sha256 (consistency_messages D1 D2 p))"
proof (cases "sth_root a = sth_root b \<and> sth_size a = sth_size b")
  case True
  then have "verify_consistency (root D1) (int (length D1)) (root D2) (int (length D2)) []"
    using assms(3-6) by (simp add: verify_consistency_def)
  then show ?thesis
    using consistency_sound_aux [of D1 D2 "[]"] assms(7,9) not_collides by metis
next
  case False
  show ?thesis
  proof (cases "\<exists>q. pab = Some q \<and> consistent a b q = Inr True")
    case True
    then obtain q p where p: "pab = Some q" "py_map fromhex q = Inr p"
      "verify_consistency (root D1) (int (length D1)) (root D2) (int (length D2)) p"
      using assms(3-6) by (auto simp: consistent_def py_bind_Inr_iff)
    then show ?thesis using consistency_sound_aux [OF p(3) assms(7)] assms(9) not_collides by metis
  next
    case no: False
    then have "\<exists>why. is_equivocation C spki a b pab pba = Inr (True, why)"
      using False assms(1,2,4,6,8) by (auto simp: is_equivocation_def Let_def split: option.splits)
    then show ?thesis by blast
  qed
qed

definition sample_sth :: "bytes list \<Rightarrow> sth" where
  "sample_sth D = sign_sth sample_crypto [3] [] (int (length D)) (root D) (Some 5) 0"

lemma sample_sth_verifies: "verify_sth sample_crypto [3] (sample_sth D) = Inr True"
  by (simp add: sample_sth_def verify_sth_def sign_sth_def Let_def) (simp add: sample_crypto_def)

lemma sample_sth_sel: "sth_root (sample_sth D) = hex (root D)" "sth_size (sample_sth D) = int (length D)"
  by (simp_all add: sample_sth_def sign_sth_def Let_def)

theorem equivocation_detected_witness:
  "(\<exists>why. is_equivocation sample_crypto [3] (sample_sth [ [1] ]) (sample_sth [ [2], [3] ]) None None = Inr (True, why))
    \<or> collides sha256 (consistency_messages [ [1] ] [ [2], [3] ] [])"
  using equivocation_detected [OF sample_sth_verifies sample_sth_verifies sample_sth_sel sample_sth_sel,
    of "[ [1] ]" "[ [2], [3] ]" None None] by simp

text \<open>
  An honest mandate is not convicted: for two of its signed heads, the earlier one over a
  non-empty log, the proof it issues clears it.
\<close>

lemma honest_mandate_cleared:
  assumes "sig_correct (cf_crypto (cfg m))" "reach m m'" "merkle m \<noteq> []"
  shows "\<exists>p why. prove_extension m' (int (length (merkle m))) = Inr p
    \<and> is_equivocation (cf_crypto (cfg m)) (mandate_public_key m) (mandate_sth i m) (mandate_sth i' m') (Some p) pba = Inr (False, why)"
proof -
  obtain p where p: "prove_extension m' (int (length (merkle m))) = Inr p"
    "verify_extension (cf_crypto (cfg m)) (mandate_public_key m) (mandate_sth i m) (mandate_sth i' m') p = Inr True"
    using extension_verifies [OF assms] by blast
  then have "verify_sth (cf_crypto (cfg m)) (mandate_public_key m) (mandate_sth i m) = Inr True"
    "verify_sth (cf_crypto (cfg m)) (mandate_public_key m) (mandate_sth i' m') = Inr True"
    "consistent (mandate_sth i m) (mandate_sth i' m') p = Inr True"
    by (auto simp: verify_extension_def py_bind_Inr_iff verify_sth_def)
  moreover obtain es where "merkle m' = merkle m @ es" using reach_grows [OF assms(2)] by blast
  then have "sth_size (mandate_sth i m) \<le> sth_size (mandate_sth i' m')"
    by (simp add: mandate_sth_def sign_sth_def Let_def log_len_def)
  ultimately show ?thesis using p(1) by (auto simp: is_equivocation_def Let_def)
qed

text \<open>
  C19. The proofs the log issues verify: every leaf has an inclusion proof and every non-empty prefix
  a consistency proof, and the verifiers, which walk them bottom-up over the indices' bits, accept them.
\<close>

theorem issued_proofs_verify:
  "(0 \<le> i \<and> i < int (length D) \<longrightarrow> (\<exists>p. inclusion_proof D i = Inr p
      \<and> verify_inclusion (D ! nat i) i (int (length D)) p (root D)))
   \<and> (0 < m \<and> m \<le> int (length D) \<longrightarrow> (\<exists>p. consistency_proof D m = Inr p
      \<and> verify_consistency (root (take (nat m) D)) m (root D) (int (length D)) p))"
  using inclusion_complete_aux [of i D] consistency_complete_aux [of m D] by blast

theorem issued_proofs_verify_witness:
  "\<exists>p. consistency_proof [ [1], [2], [3] ] 2 = Inr p \<and> verify_consistency (root [ [1], [2] ]) 2 (root [ [1], [2], [3] ]) 3 p"
  using issued_proofs_verify [of 0 "[ [1], [2], [3] ]" 2] by (simp add: numeral_2_eq_2)

text \<open>
  C20. A consistency proof shows a prefix: if \<open>verify_consistency\<close> accepts between the roots of a
  non-empty \<open>D1\<close> and of \<open>D2\<close>, then \<open>D1\<close> is the beginning of \<open>D2\<close>, unless SHA-256 collides on the
  messages hashed.
\<close>

theorem consistency_shows_prefix:
  assumes "verify_consistency (root D1) (int (length D1)) (root D2) (int (length D2)) p" "D1 \<noteq> []"
  shows "D1 = take (length D1) D2 \<or> collides sha256 (consistency_messages D1 D2 p)"
  using consistency_sound_aux [OF assms] not_collides by blast

theorem consistency_shows_prefix_witness:
  "\<exists>p. consistency_proof [ [1], [2], [3] ] 2 = Inr p \<and> verify_consistency (root [ [1], [2] ]) 2 (root [ [1], [2], [3] ]) 3 p
    \<and> ([ [1], [2] ] = take (length [ [1], [2 :: 8 word] ]) [ [1], [2], [3] ] \<or> collides sha256 (consistency_messages [ [1], [2] ] [ [1], [2], [3] ] p))"
proof -
  obtain p where p: "consistency_proof [ [1], [2], [3] ] 2 = Inr p" "verify_consistency (root [ [1], [2] ]) 2 (root [ [1], [2], [3] ]) 3 p"
    using consistency_complete_aux [of 2 "[ [1], [2], [3] ]"] by auto
  then show ?thesis using consistency_shows_prefix [of "[ [1], [2] ]" "[ [1], [2], [3] ]" p] by auto
qed

section \<open>The enrolment authority\<close>

text \<open>
  C21. A mandate with an enrolment authority enrols only what that authority signed: an accepted
  enrolment carries an authorisation that names this key and this challenge, is inside its window and
  verifies under the authority's key, and the same authorisation admits no other key or challenge.
\<close>

theorem enrolment_needs_its_authority:
  assumes "enrolment_authority (cfg m) = Some spki" "enroll i m e = (Inr (True, why), m')"
  shows "\<exists>d sig. en_authorisation e = Some (JObj d) \<and> en_authorisation_sig e = Some sig
    \<and> dget d ''kind'' = JStr ''enrol'' \<and> dget d ''tik'' = JStr (hex (en_tik_pub e)) \<and> dget d ''nonce'' = JStr (hex (en_nonce e))
    \<and> in_window d (int_of_time (t_auth i)) = Inr True
    \<and> verify_with (cf_crypto (cfg m)) spki WithSHA256 sig (canonical_grant (JObj d)) = Inr ()
    \<and> (\<forall>i2 m2 e2 why2 m2' spki2. enrolment_authority (cfg m2) = Some spki2 \<and> enroll i2 m2 e2 = (Inr (True, why2), m2')
         \<and> en_authorisation e2 = en_authorisation e \<longrightarrow> en_tik_pub e2 = en_tik_pub e \<and> en_nonce e2 = en_nonce e)"
proof -
  have permitted: "\<exists>d sig. en_authorisation e = Some (JObj d) \<and> en_authorisation_sig e = Some sig
      \<and> dget d ''kind'' = JStr ''enrol'' \<and> dget d ''tik'' = JStr (hex (en_tik_pub e)) \<and> dget d ''nonce'' = JStr (hex (en_nonce e))
      \<and> in_window d (int_of_time (t_auth i)) = Inr True
      \<and> verify_with (cf_crypto (cfg m)) spki WithSHA256 sig (canonical_grant (JObj d)) = Inr ()"
    if auth: "enrolment_authority (cfg m) = Some spki" and acc: "enroll i m e = (Inr (True, why), m')" for i m e why m' spki
  proof -
    have "enroll_permitted i m e = Inr None" using acc by (auto elim!: enroll_True simp: enroll_admits_def)
    then obtain body sig where b: "en_authorisation e = Some body" "en_authorisation_sig e = Some sig"
      "\<exists>w. verify_enrolment_authorisation (cf_crypto (cfg m)) spki body sig (en_tik_pub e) (en_nonce e) (t_auth i) = Inr (True, w)"
      using auth by (auto simp: enroll_permitted_def py_bind_Inr_iff split: option.splits if_splits)
    then show ?thesis by (auto simp: verify_authorisation_True)
  qed
  from permitted [OF assms] obtain d sig where d: "en_authorisation e = Some (JObj d)" "en_authorisation_sig e = Some sig"
      "dget d ''kind'' = JStr ''enrol''" "dget d ''tik'' = JStr (hex (en_tik_pub e))" "dget d ''nonce'' = JStr (hex (en_nonce e))"
      "in_window d (int_of_time (t_auth i)) = Inr True"
      "verify_with (cf_crypto (cfg m)) spki WithSHA256 sig (canonical_grant (JObj d)) = Inr ()" by blast
  moreover have "en_tik_pub e2 = en_tik_pub e \<and> en_nonce e2 = en_nonce e"
    if "enrolment_authority (cfg m2) = Some spki2" "enroll i2 m2 e2 = (Inr (True, why2), m2')" "en_authorisation e2 = en_authorisation e"
    for i2 m2 e2 why2 m2' spki2
    using permitted [OF that(1,2)] that(3) d(1,4,5) by auto
  ultimately show ?thesis by blast
qed

definition authorised_enrolment :: enrolment where
  "authorised_enrolment = (let (body, sig) = make_enrolment_authorisation sample_crypto [4] [] [2] [8] 100 None 10
     in sample_enrolment\<lparr>en_authorisation := Some body, en_authorisation_sig := Some sig\<rparr>)"

definition guarded :: mandate where
  "guarded = challenged\<lparr>cfg := sample_cfg\<lparr>enrolment_authority := Some [4]\<rparr>\<rparr>"

lemma authorised_admits: "enroll_admits sample_inputs guarded authorised_enrolment blank sample_anchor"
proof -
  obtain body sig where a: "make_enrolment_authorisation sample_crypto [4] [] [2] [8] 100 None 10 = (body, sig)" by fastforce
  have "verify_enrolment_authorisation sample_crypto (public_key_of sample_crypto [4]) body sig [2] [8] (t_auth sample_inputs)
      = Inr (True, ''authorised'')"
    by (rule make_authorisation_verifies [OF sample_sig_correct a])
      (simp_all add: at_or_now_def int_of_time_def sample_inputs_def)
  then have "enroll_permitted sample_inputs guarded authorised_enrolment = Inr None"
    using a by (simp add: enroll_permitted_def guarded_def authorised_enrolment_def sample_enrolment_def) (simp add: sample_crypto_def)
  moreover have "mandate_rec guarded k = Inr blank" for k
  proof -
    have "mandate_rec guarded = mandate_rec challenged" by (rule mandate_rec_cong) (simp add: guarded_def)
    then show ?thesis by simp
  qed
  ultimately show ?thesis
    using sample_enroll_admits a
    by (simp add: enroll_admits_def guarded_def authorised_enrolment_def)
qed

theorem enrolment_needs_its_authority_witness:
  "\<exists>d why m'. enroll sample_inputs guarded authorised_enrolment = (Inr (True, why), m')
    \<and> en_authorisation authorised_enrolment = Some (JObj d) \<and> dget d ''nonce'' = JStr (hex [8])"
proof -
  obtain why m' where e: "enroll sample_inputs guarded authorised_enrolment = (Inr (True, why), m')"
    using enroll_accepts [OF authorised_admits] by auto
  have "enrolment_authority (cfg guarded) = Some [4]" by (simp add: guarded_def)
  moreover have "en_nonce authorised_enrolment = [8]"
    by (simp add: authorised_enrolment_def sample_enrolment_def split: prod.split)
  ultimately show ?thesis using enrolment_needs_its_authority [OF _ e] e by metis
qed

section \<open>The whole system\<close>

text \<open>
  C22. End to end: asked for \<open>k\<close> steps, the guest serves the chain of links of its own session with
  its device's reports, one framed reply; and a client of the same session that reads this reply, in
  whatever pieces it arrives, takes the identity key from the certificate and the binding values from
  its own side, and has all \<open>k\<close> steps accepted by a mandate that trusts the device.
\<close>

theorem served_chain_is_accepted:
  assumes "same_session T P ex sc" "length sc < 256" "k \<le> 2 ^ 64" "\<And>c. wf_json (pb_gen_ms P c)"
    and "device_trusted (cfg m) P sc ex rep an k" "chain_state m (pb_tik_pub P) sc ex an 0"
    and "blob = dumps_bytes (chain_reply P (map (\<lambda>c. chain_item P sc ex c (rep c)) [0..<k]) None)" "frame blob = Inr out"
    and "delivers T inbox" "tc_sendall T c (dumps_bytes (JObj [(''steps'', JInt (int k))]) @ [0x0A]) = (Inr u, c1)"
    and "inbox c1 = out @ rest"
  shows "(\<exists>fs after. serve_chain P n b (int k) None ex sc = send_reply P b blob fs after)
    \<and> (\<exists>m'. run_client T ins m c (int k) = Some (Inr (replicate k (True, ''accepted; continuity intact'')), m'))"
proof
  have "\<forall>c<k. item_report P sc ex None c = Inr (rep c)" using assms(5) by (simp add: device_trusted_def)
  from serve_chain_reply [OF assms(2) this assms(3), of n b]
  show "\<exists>fs after. serve_chain P n b (int k) None ex sc = send_reply P b blob fs after"
    using assms(7) by (auto simp: Let_def)
  show "\<exists>m'. run_client T ins m c (int k) = Some (Inr (replicate k (True, ''accepted; continuity intact'')), m')"
    using run_client_accepts [OF assms(1,2,5,6,3,4,9,10), where head = None] assms(7,8,11) by simp
qed

theorem served_chain_is_accepted_witness:
  "\<exists>m'. run_client sample_conn (\<lambda>t. sample_inputs) guest_mandate [] 2
     = Some (Inr [(True, ''accepted; continuity intact''), (True, ''accepted; continuity intact'')], m')"
proof -
  have wf: "wf_json (pb_gen_ms sample_guest c)" for c by (simp add: sample_guest_def)
  have s: "tc_sendall sample_conn [] d = (Inr (), be_bytes 4 (int (length sample_blob)) @ sample_blob)" for d
    by (simp add: sample_conn_def conn_with_def)
  have i: "id (be_bytes 4 (int (length sample_blob)) @ sample_blob) = (be_bytes 4 (int (length sample_blob)) @ sample_blob) @ []"
    by simp
  have len: "length ([5] :: bytes) < 256" "2 \<le> (2 :: nat) ^ 64" by simp_all
  from served_chain_is_accepted [OF sample_same_session len wf sample_device_trusted guest_chain_state
      sample_blob_def frame_Inr [OF sample_blob_short] sample_conn_delivers s i, of 0 undefined "\<lambda>t. sample_inputs"]
  show ?thesis by (simp add: numeral_2_eq_2)
qed

text \<open>
  C23. The relay demonstration: the guest is enrolled over the client's first connection, its chain over
  the second is accepted, and the chain it makes for the relay, which the relay passes on over the
  client's third connection, is refused, because the client's exporter is its own: the script exits
  with 0, unless the first links under the two exporters collide.
\<close>

theorem relay_demo_exits_0:
  assumes "sound_crypto W" "any_set (wd_inst_a W)" "t_check (dr_ins D 0) < dr_now D 0 + 300"
    and "session_with (T 0) 18443 (wd_tik W) sc0 ex0 (enrol_request D) out0"
      "guest_frame W D 0 (Inr ex0) (Inr sc0) (enrol_request D) = Inr out0"
    and "session_with (T 1) 18443 (wd_tik W) sc1 ex1 steps_request out1"
      "guest_frame W D 1 (Inr ex1) (Inr sc1) steps_request = Inr out1" "length sc1 < 256"
    and "session_with (T 2) 18444 (wd_tik W) sc2 ex2 steps_request out2"
      "guest_frame W D 3 (Inr ex3) (Inr sc3) steps_request = Inr out2" "length sc2 < 256" "length sc3 < 256"
    and "ex3 \<noteq> ex2" "length ex3 = length ex2" "length ex2 \<le> 128"
  shows "(\<exists>m. demo_main W D T = Some (Inr (Some True, Some False, 0), m)) \<or> relay_collision W sc3 ex3 sc2 ex2"
  using assms by (rule relay_stopped_in_demo)

theorem relay_demo_exits_0_witness:
  "\<exists>out0 out1 out2. (\<exists>m. demo_main sample_world sample_draws
       (\<lambda>i. if i = 0 then conn_with [5] [9] out0 else if i = 1 then conn_with [6] [10] out1 else conn_with [7] [11] out2)
       = Some (Inr (Some True, Some False, 0), m))
     \<or> relay_collision sample_world [8] [12] [7] [11]"
proof -
  obtain out0 where o0: "guest_frame sample_world sample_draws 0 (Inr [9]) (Inr [5]) (enrol_request sample_draws) = Inr out0"
    using sample_frames(2) by blast
  obtain out1 where o1: "guest_frame sample_world sample_draws 1 (Inr [10]) (Inr [6]) steps_request = Inr out1"
    using sample_frames(1) [of "[6]" 1 "[10]"] by auto
  obtain out2 where o2: "guest_frame sample_world sample_draws 3 (Inr [12]) (Inr [8]) steps_request = Inr out2"
    using sample_frames(1) [of "[8]" 3 "[12]"] by auto
  let ?T = "\<lambda>i. if i = 0 then conn_with [5] [9] out0 else if i = Suc 0 then conn_with [6] [10] out1 else conn_with [7] [11] out2"
  have t: "t_check (dr_ins sample_draws 0) < dr_now sample_draws 0 + 300" by (simp add: sample_draws_def sample_inputs_def)
  have s: "session_with (?T 0) 18443 (wd_tik sample_world) [5] [9] (enrol_request sample_draws) out0"
    "session_with (?T 1) 18443 (wd_tik sample_world) [6] [10] steps_request out1"
    "session_with (?T 2) 18444 (wd_tik sample_world) [7] [11] steps_request out2"
    by (simp_all add: conn_with_session)
  have "(\<exists>m. demo_main sample_world sample_draws ?T = Some (Inr (Some True, Some False, 0), m))
      \<or> relay_collision sample_world [8] [12] [7] [11]"
    by (rule relay_demo_exits_0 [OF _ _ t s(1) o0 s(2) o1 _ s(3) o2]) simp_all
  then show ?thesis unfolding One_nat_def by blast
qed

text \<open>
  C24. The attack playground ends with every attack stopped and its honest control accepted, status 0,
  for every choice of attacks on its command line, unless the exporters of two connections it drew
  collide under HMAC. Its forged and redirected grants are assumed not to verify under the owner's key.
\<close>

theorem playground_exits_0:
  assumes "fair_game W Ds"
  shows "(\<exists>out. attack_main W Ds argv = Inr (out, 0)) \<or> exporters_collide W (Ds ''relay'') \<or> exporters_collide W (Ds ''splice'')"
  using assms by (rule playground_stops)

theorem playground_exits_0_witness:
  "(\<exists>out. attack_main sample_world (\<lambda>name. sample_draws) [''rehost'', ''forgegrant''] = Inr (out, 0))
    \<or> exporters_collide sample_world sample_draws"
  using playground_exits_0 [OF sample_game] by blast

unbundle bit_operations_syntax

section \<open>Storage and encodings\<close>

text \<open>
  C29. \<open>FileStore.put\<close> is atomic: stop the sequence of its system calls anywhere, in the middle of
  the write too, and every key of the directory reads as before the call, or, once the file was
  renamed, as after the complete call.
\<close>

theorem put_is_atomic:
  assumes "put_run (key_file k) (dumps default_seps v) (Begin, d0) (pc, d)" "file_put d0 k v = Inr d1"
  shows "if pc = Replaced
     then file_get d = file_get d1 \<and> set (file_keys d) = set (file_keys d1)
     else file_get d = file_get d0 \<and> set (file_keys d) = set (file_keys d0)"
  using assms by (rule put_crash_atomic)

theorem put_is_atomic_witness:
  "\<exists>d d1. put_run (key_file ''ab'') (dumps default_seps (JObj [])) (Begin, []) (Replaced, d)
    \<and> file_put [] ''ab'' (JObj []) = Inr d1 \<and> file_get d = file_get d1"
proof -
  have "ends_with ''x.tmp'' ''.tmp''" by (simp add: ends_with_def)
  with put_completes [of "[]" "''x.tmp''" "key_file ''ab''" "dumps default_seps (JObj [])"]
  obtain d where d: "put_run (key_file ''ab'') (dumps default_seps (JObj [])) (Begin, []) (Replaced, d)" by auto
  have "is_hex_key ''ab''" by (simp add: is_hex_key_def hex_chars_def)
  then obtain d1 where d1: "file_put [] ''ab'' (JObj []) = Inr d1" using fil.put_ok by blast
  from put_is_atomic [OF d d1] d d1 show ?thesis by auto
qed

text \<open>
  C30. Both stores refine a finite map: after any sequence of puts of ledger records under hexadecimal
  keys, which raises nothing of its own, \<open>get\<close> reads back what the same updates of a map hold (for a file, with
  the keys of each object sorted), and \<open>keys\<close> lists the keys put and those there before. The file system is taken to let
  each put succeed; one that it fails or interrupts leaves the old directory or the new one.
\<close>

theorem store_refines_map:
  assumes "list_all (is_hex_key \<circ> fst) kvs" "list_all (is_record \<circ> snd) kvs"
    and "\<forall>k. is_hex_key k \<longrightarrow> store_get s k = Inr (map_option (store_norm s) (M k))"
  shows "\<exists>s'. store_puts s kvs = Inr s' \<and> (\<forall>k. is_hex_key k \<longrightarrow> store_get s' k = Inr (map_option (store_norm s) (spec_puts M kvs k)))
    \<and> set (store_keys s') = fst ` set kvs \<union> set (store_keys s)"
proof -
  obtain s' where s': "st.puts s kvs = Inr s'" using st.puts_ok [OF assms(1)] by blast
  from st.puts_get [OF s' assms(2)] st.puts_keys [OF s'] assms(3) s' show ?thesis
    by (auto simp: store_puts_eq spec_puts_map_of split: option.splits)
qed

theorem store_refines_map_witness:
  "\<exists>s'. store_puts (FileStore ''d'' []) [(''ab'', JObj []), (''cd'', JObj []), (''ab'', JObj [(''v'', JNull)])] = Inr s'
    \<and> store_get s' ''ab'' = Inr (Some (JObj [(''v'', JNull)])) \<and> set (store_keys s') = {''ab'', ''cd''}"
proof -
  let ?kvs = "[(''ab'', JObj []), (''cd'', JObj []), (''ab'', JObj [(''v'', JNull)])]"
  have "list_all (is_hex_key \<circ> fst) ?kvs" "list_all (is_record \<circ> snd) ?kvs"
    by (simp_all add: is_hex_key_def hex_chars_def)
  moreover have "\<forall>k. is_hex_key k \<longrightarrow> store_get (FileStore ''d'' []) k = Inr (map_option (store_norm (FileStore ''d'' [])) None)"
    by (simp add: file_get_def store_file_def)
  ultimately obtain s' where s': "store_puts (FileStore ''d'' []) ?kvs = Inr s'"
    "\<forall>k. is_hex_key k \<longrightarrow> store_get s' k
       = Inr (map_option (store_norm (FileStore ''d'' [])) (spec_puts Map.empty ?kvs k))"
    "set (store_keys s') = fst ` set ?kvs \<union> set (store_keys (FileStore ''d'' []))"
    using store_refines_map [of ?kvs "FileStore ''d'' []" Map.empty] by blast
  have "is_hex_key ''ab''" by (simp add: is_hex_key_def hex_chars_def)
  with s'(2) have "store_get s' ''ab'' = Inr (map_option (store_norm (FileStore ''d'' [])) (spec_puts Map.empty ?kvs ''ab''))"
    by blast
  moreover have "map_option (store_norm (FileStore ''d'' [])) (spec_puts Map.empty ?kvs ''ab'') = Some (JObj [(''v'', JNull)])"
    by (simp add: spec_puts_def)
  moreover have "set (store_keys s') = {''ab'', ''cd''}" using s'(3) by (auto simp: file_keys_def)
  ultimately show ?thesis using s'(1) by metis
qed

text \<open>
  C31. Canonical bytes determine the value: two values have the same canonical encoding exactly when
  they agree up to the order of keys, and parsing the encoding gives the value back with its keys sorted.
\<close>

theorem canonical_roundtrip:
  assumes "wf_json a" "wf_json b"
  shows "(canonical a = canonical b \<longleftrightarrow> sort_json a = sort_json b) \<and> loads_bytes (canonical a) = Inr (sort_json a)"
proof -
  have s: "wf_seps compact" "ascii_seps compact" by simp_all
  then have "canonical a = lit (dumps compact a)" "list_all ascii_char (dumps compact a)"
    unfolding canonical_def using encode_dumps [OF s(2)] by (simp_all add: dumps_def ascii_emit)
  then have "loads_bytes (canonical a) = Inr (sort_json a)"
    using loads_dumps [OF s(1) assms(1)] by (simp add: loads_bytes_def utf8_decode_lit)
  with canon.enc_eq [OF assms] show ?thesis by simp
qed

theorem canonical_roundtrip_witness:
  "canonical (JObj [(''b'', JInt 1), (''a'', JNull)]) = canonical (JObj [(''a'', JNull), (''b'', JInt 1)])
    \<and> loads_bytes (canonical (JObj [(''b'', JInt 1), (''a'', JNull)])) = Inr (JObj [(''a'', JNull), (''b'', JInt 1)])"
proof -
  let ?a = "JObj [(''b'', JInt 1), (''a'', JNull)]" and ?b = "JObj [(''a'', JNull), (''b'', JInt 1)]"
  have "wf_json ?a" "wf_json ?b" "sort_json ?a = ?b" "sort_json ?b = ?b" by simp_all
  with canonical_roundtrip [of ?a ?b] show ?thesis by metis
qed

text \<open>
  A link determines what it was derived from: two calls of \<open>post_link\<close> over exporters and base
  links of equal length that return the same value were given the same exporter, base and counter, or
  the two HMAC computations collide.
\<close>

lemma post_link_binds:
  assumes "post_link ex base c = Inr l" "post_link ex' base' c' = Inr l"
    and "length ex = length ex'" "length ex \<le> 128" "length base = length base'"
  shows "(ex = ex' \<and> base = base' \<and> c = c') \<or> link_collision (ex, base, c) (ex', base', c')"
  using assms by (intro post_value_eqD) (simp_all add: post_link_Inr)

text \<open>
  \<open>_hkdf_expand_label\<close> with SHA-384 returns exactly the bytes asked for up to 255 blocks, raises
  beyond, and raises on a context of 256 bytes or more, whose length does not fit in one byte.
\<close>

lemma hkdf_expand_label_bounds:
  assumes "n < 65536" "length label \<le> 236"
  shows "if 256 \<le> length ctx then \<exists>e. hkdf_expand_label s label ctx n SHA384 = Inl e
    else if n \<le> 255 * 48 then \<exists>k. hkdf_expand_label s label ctx n SHA384 = Inr k \<and> length k = n
    else hkdf_expand_label s label ctx n SHA384 = Inl (ValueError ''bytes must be in range(0, 256)'')"
  using hkdf_expand_label_err [of ctx s label n SHA384] h384.hkdf_expand_ok [of n s] h384.hkdf_expand_err [of n s] assms
  by (auto simp: hkdf_expand_label_def hkdf_info_ok len_simps)

section \<open>Evidence and federation\<close>

text \<open>
  The mock TEE and its verifier fit: a report of a trusted TEE with a genuine key is accepted for
  exactly the REPORT_DATA it was made over, and names the TEE's instance and place, or no anchor at
  all when the instance is blank.
\<close>

lemma mock_report_accepted_for_its_data:
  assumes "sig_correct C" "hex (mock_pub t) \<in> set trusted" "mock_pub t = public_key_of C (mock_key t)"
  shows "mock_verifier C trusted (mock_report C t rnd rd) rd' = Inr (True, a) \<longleftrightarrow> rd' = rd
    \<and> a = (if any_set (mock_instance t) then Some \<lparr>anchor_instance = mock_instance t, anchor_place = present_id (Some (mock_chip t))\<rparr> else None)"
proof -
  let ?a = "if any_set (mock_instance t) then Some \<lparr>anchor_instance = mock_instance t, anchor_place = present_id (Some (mock_chip t))\<rparr> else None"
  have r: "mock_verifier C trusted (mock_report C t rnd rd) rd = Inr (True, ?a)"
    using assms by (rule mock_verifies_report)
  have "rd' = rd" if "mock_verifier C trusted (mock_report C t rnd rd) rd' = Inr (True, a)"
    using mock.one_value [OF that r] .
  with r show ?thesis by auto
qed

text \<open>
  C32. What the SEV-SNP verifier vouches for: it accepts only a 1184-byte report, sent as Base64, whose
  REPORT_DATA is the expected one, whose policy forbids debugging unless allowed, whose measurement is
  the pinned one, and whose body verifies under a leaf certificate: the supplied one for a VLEK, the one
  AMD's service returns for this chip and TCB for a VCEK; with \<open>require_chain\<close> that leaf chains to the
  root. The anchor is the one the report carries.
\<close>

theorem sevsnp_acceptance_sound:
  assumes "fst (sevsnp_verifier X h pol cache ev rd) = Inr (True, a)"
  shows "\<exists>d j b f der sup. ev = JObj d \<and> dindex d ''report'' = Inr j \<and> b64_json j = Inr b \<and> length b = 1184 \<and> parse_snp b = Inr f
    \<and> slice 0x50 0x90 b = rd \<and> (allow_debug pol \<or> snp_policy f AND POLICY_DEBUG = 0)
    \<and> (\<forall>m. pinned_measurement pol = Some m \<longrightarrow> snp_measurement f = m)
    \<and> snp_signing_key f \<in> {SkName ''VLEK'', SkName ''VCEK''}
    \<and> supplied_pem_of (dget d ''leaf_pem'') = Inr sup \<and> fst (leaf_cert X h cache f sup) = Inr der
    \<and> x_verify_rs X der (from_le (slice 0x2A0 0x2D0 b)) (from_le (slice 0x2E8 0x318 b)) (take 0x2A0 b) = Inr ()
    \<and> (require_chain pol \<longrightarrow> (\<exists>why. fst (chain_ok X h (pinned_ark pol) (snd (leaf_cert X h cache f sup)) der f) = Inr (True, why)))
    \<and> a = snp_anchor f"
  using assms
proof (rule sevsnp_verifier_True)
  fix d j b f
  assume d: "ev = JObj d" "dindex d ''report'' = Inr j" "b64_json j = Inr b" "parse_snp b = Inr f" "snp_report_data f = rd"
    "allow_debug pol \<or> snp_policy f AND POLICY_DEBUG = 0" "\<forall>m. pinned_measurement pol = Some m \<longrightarrow> snp_measurement f = m"
    "a = snp_anchor f" and s: "fst (snp_signature_ok X h pol cache d b f) = Inr True"
  have b: "length b = 1184" "slice 0x50 0x90 b = rd" using d(4,5) by (auto simp: parse_snp_def Let_def split: if_splits)
  obtain sup where sup: "supplied_pem_of (dget d ''leaf_pem'') = Inr sup" using s by (auto simp: snp_signature_ok_def split: sum.splits)
  obtain der c1 where der: "leaf_cert X h cache f sup = (Inr der, c1)"
    using s sup by (auto simp: snp_signature_ok_def split: sum.splits prod.splits)
  have v: "x_verify_rs X der (from_le (slice 0x2A0 0x2D0 b)) (from_le (slice 0x2E8 0x318 b)) (take 0x2A0 b) = Inr ()"
    using s sup der by (auto simp: snp_signature_ok_def Let_def split: sum.splits)
  moreover have "require_chain pol \<longrightarrow> (\<exists>why. fst (chain_ok X h (pinned_ark pol) c1 der f) = Inr (True, why))"
    using s sup der v by (auto simp: snp_signature_ok_def Let_def split: sum.splits prod.splits)
  moreover have "snp_signing_key f \<in> {SkName ''VLEK'', SkName ''VCEK''}"
    using der by (auto simp: leaf_cert_def split: if_splits)
  ultimately show ?thesis using d b sup der by (intro exI [of _ d] exI [of _ j] exI [of _ b] exI [of _ f] exI [of _ der] exI [of _ sup]) simp
qed

definition sample_x509 :: x509_lib where
  "sample_x509 = \<lparr>x_pem_to_der = Inr, x_load_der = (\<lambda>_. Inr ()), x_verify_rs = (\<lambda>_ _ _ _. Inr ()),
     x_openssl_pem = Inr, x_verify_chain = (\<lambda>_ _ _. Inr ())\<rparr>"

definition sample_policy :: snp_policy_cfg where
  "sample_policy = \<lparr>require_chain = False, allow_debug = False, pinned_measurement = None, pinned_ark = None\<rparr>"

lemma slice_zeros: "n \<le> k \<Longrightarrow> slice i n (zeros k) = zeros (n - i)"
  by (simp add: slice_def zeros_def min_def)

lemma from_le_zeros: "from_le (zeros n) = 0"
  by (induction n) (simp_all add: zeros_def)

theorem sevsnp_acceptance_sound_witness:
  "fst (sevsnp_verifier sample_x509 (\<lambda>_ _. HttpBody [1]) sample_policy Map.empty (snp_evidence (zeros 1184) (zeros 64)) (zeros 64)) = Inr (True, None)
    \<and> length (zeros 1184) = 1184"
proof -
  obtain f where f: "parse_snp (zeros 1184) = Inr f" "snp_report_data f = zeros 64" "snp_policy f = 0"
    "snp_signing_key f = SkName ''VCEK''" "snp_anchor f = None"
    by (simp add: parse_snp_def Let_def len_simps slice_zeros u32_at_def u64_at_def from_le_zeros snp_key_name_def
      snp_anchor_def present_id_def any_set_zeros)
  have k: "kds_get (\<lambda>_ _. HttpBody [1]) Map.empty url key = (Inr [1], [key \<mapsto> [1]])" for url key
    by (simp add: kds_get_def upt_rec [of 0 6])
  have s: "\<exists>c. snp_signature_ok sample_x509 (\<lambda>_ _. HttpBody [1]) sample_policy Map.empty d b f = (Inr True, c)"
    if "dget d ''leaf_pem'' = JNull" for d b
    using that f(4) by (simp add: snp_signature_ok_def supplied_pem_of_def leaf_cert_def k Let_def sample_x509_def sample_policy_def)
  let ?ev = "snp_evidence (zeros 1184) (zeros 64)"
  have v: "fst (sevsnp_verifier sample_x509 (\<lambda>_ _. HttpBody [1]) sample_policy Map.empty ?ev (zeros 64)) = Inr (True, None)"
    using f s [of "[(''kind'', JStr ''sev-snp''), (''report'', JStr (b64encode (zeros 1184))), (''report_data'', JStr (hex (zeros 64)))]" "zeros 1184"]
    by (auto simp: sevsnp_verifier_def snp_evidence_def dget_def dindex_def b64decode_encode) (simp_all add: sample_policy_def)
  from sevsnp_acceptance_sound [OF v] v show ?thesis by (simp add: len_simps)
qed

section \<open>Bundles and witnesses\<close>

text \<open>
  C33. Bundles: from heads that verify, \<open>make_bundle\<close> returns entries under a commitment that
  \<open>verify_bundle\<close> accepts, whatever order the heads come in, each named mandate finds an entry of its
  own, and any other list of entries accepted for the commitment exhibits a SHA-256 collision.
\<close>

theorem bundle_commits_to_its_entries:
  assumes "make_bundle C pairs = Inr (cm, es)"
  shows "verify_bundle cm es \<and> (mset pairs' = mset pairs \<longrightarrow> make_bundle C pairs' = Inr (cm, es))
    \<and> (\<forall>(spki, s)\<in>set pairs. \<exists>e. entry_for es spki = Some e \<and> be_m e = mandate_id spki)
    \<and> (verify_bundle cm es' \<longrightarrow> es' = es \<or> collision sha256 (canonical (bundle_json es')) (canonical (bundle_json es)))"
proof (intro conjI impI ballI)
  have v: "verify_all C pairs = Inr ()" and e: "es = bundle_entries pairs" "cm = bundle_commitment es"
    using assms by (auto simp: make_bundle_def py_bind_Inr_iff Let_def)
  show "verify_bundle cm es" by (simp add: verify_bundle_def e(2))
  show "make_bundle C pairs' = Inr (cm, es)" if "mset pairs' = mset pairs"
  proof -
    have "verify_all C pairs' = Inr ()" using v mset_eq_setD [OF that] by (simp add: verify_all_Inr)
    then show ?thesis using e bundle_entries_mset [OF that] by (simp add: make_bundle_def Let_def)
  qed
  show "case p of (spki, s) \<Rightarrow> \<exists>e. entry_for es spki = Some e \<and> be_m e = mandate_id spki" if "p \<in> set pairs" for p
  proof -
    obtain spki s where p: "p = (spki, s)" by fastforce
    with that entry_for_bundle obtain e where "entry_for (bundle_entries pairs) spki = Some e" by blast
    then show ?thesis using p entry_for_SomeD \<open>es = bundle_entries pairs\<close> by blast
  qed
  show "es' = es \<or> collision sha256 (canonical (bundle_json es')) (canonical (bundle_json es))" if "verify_bundle cm es'"
    using that e(2) bundle_commitment_eqD by (simp add: verify_bundle_def)
qed

theorem bundle_commits_to_its_entries_witness:
  "\<exists>cm es. make_bundle sample_crypto [([3], sample_sth []), ([3], sample_sth [ [1] ])] = Inr (cm, es) \<and> verify_bundle cm es
    \<and> make_bundle sample_crypto [([3], sample_sth [ [1] ]), ([3], sample_sth [])] = Inr (cm, es)"
proof -
  let ?ps = "[([3], sample_sth []), ([3], sample_sth [ [1] ])]"
  obtain cm es where m: "make_bundle sample_crypto ?ps = Inr (cm, es)"
    by (simp add: make_bundle_def sample_sth_verifies Let_def)
  from bundle_commits_to_its_entries [OF m, of "[([3], sample_sth [ [1] ]), ([3], sample_sth [])]"] m show ?thesis by auto
qed

text \<open>
  A peer that only extends its log stays clear of its witnesses: what an observer signed of its
  head verifies under the observer's key, and checked against any later head with the proof the peer
  issues, \<open>divergence\<close> finds nothing.
\<close>

lemma honest_peer_does_not_diverge:
  assumes "sig_correct (cf_crypto (cfg m))" "reach m m'" "merkle m \<noteq> []"
  shows "\<exists>st p why. cross_witness (cf_crypto (cfg m)) k rnd (mandate_public_key m) (mandate_sth i m) at' now = Inr st
    \<and> verify_cross_witness (cf_crypto (cfg m)) (public_key_of (cf_crypto (cfg m)) k) st = Inr True
    \<and> prove_extension m' (int (length (merkle m))) = Inr p
    \<and> divergence (cf_crypto (cfg m)) (mandate_public_key m) (st_size st) (st_root st) (mandate_sth i' m') (Some p) = Inr (False, why)"
proof -
  let ?C = "cf_crypto (cfg m)" and ?a = "mandate_sth i m" and ?b = "mandate_sth i' m'"
  obtain p where p: "prove_extension m' (int (length (merkle m))) = Inr p"
    "verify_extension ?C (mandate_public_key m) ?a ?b p = Inr True"
    using extension_verifies [OF assms] by blast
  then have v: "verify_sth ?C (mandate_public_key m) ?a = Inr True" "verify_sth ?C (mandate_public_key m) ?b = Inr True"
    "consistent ?a ?b p = Inr True"
    by (auto simp: verify_extension_def py_bind_Inr_iff verify_sth_def)
  then obtain st where st: "cross_witness ?C k rnd (mandate_public_key m) ?a at' now = Inr st"
    "st_size st = sth_size ?a" "st_root st = sth_root ?a"
    by (auto simp: cross_witness_def Let_def)
  obtain es where es: "merkle m' = merkle m @ es" using reach_grows [OF assms(2)] by blast
  have "divergence ?C (mandate_public_key m) (st_size st) (st_root st) ?b (Some p) \<in> {Inr (False, ''same head''),
      Inr (False, ''the peer'' @ CHR 0x27 # ''s log extends the witnessed head'')}"
  proof (cases "es = []")
    case True
    then show ?thesis using v(2) st es by (simp add: divergence_def mandate_sth_def log_len_def log_head_def)
  next
    case False
    then show ?thesis using v(2,3) st es by (simp add: divergence_def consistent_def mandate_sth_def log_len_def log_head_def)
  qed
  with st(1) p(1) verify_cross_witness_made [OF assms(1) st(1)] show ?thesis by blast
qed

section \<open>The wire\<close>

text \<open>
  C34. The standalone guest probe computes what the library computes: its copies of the two links, the
  REPORT_DATA, the binder, the reassembly and the memory-BIO connection are the library's functions,
  the three that word their errors differently agree on every value and on when they raise, and the links of
  the probes in the cloud scripts are the library's too.
\<close>

theorem probe_agrees_with_library:
  "gp_intra_link sc tik = intra_link sc tik \<and> gp_post_link ex prev c = post_link ex prev c
   \<and> gp_report_data_for l head = report_data_for l head
   \<and> gp_first_handshake_message s ty = first_handshake_message s ty \<and> gp_draft_binder ch sh spki H = draft_binder ch sh spki H
   \<and> same_value (gp_transcript_ch_sh a b) (transcript_ch_sh a b) \<and> same_value (gp_suite_hash cipher) (suite_hash cipher)
   \<and> same_value (gp_binder_report_data l) (binder_report_data l)
   \<and> gp_handshake S bio = bio_handshake S bio \<and> gp_recv S bio n = bio_recv S bio n \<and> gp_sendall S bio d = bio_sendall S bio d
   \<and> gp_shutdown S bio = bio_shutdown S bio
   \<and> aw_intra sc tik = intra_link sc tik \<and> aw_post ex prev c = post_link ex prev c \<and> cont_preimage l = report_data_for l None
   \<and> az_intra sc tik = intra_link sc tik \<and> az_post ex prev c = post_link ex prev c"
  by (simp add: aw_links_eq gp_links_eq gp_binder_eq gp_same_value gp_handshake_eq gp_recv_eq gp_sendall_eq gp_shutdown_eq)

text \<open>
  C35. What the guest hashes is the handshake and nothing else: after a completed \<open>do_handshake\<close> over a
  fresh connection, \<open>sent\<close> is every byte written to the socket and \<open>received\<close> the bytes read of the
  peer's input, and no later call changes either.
\<close>

theorem handshake_is_recorded:
  assumes "bio_handshake S (bio_new c (w\<lparr>wr_out := []\<rparr>)) = Some (Inr u, b)"
  shows "bio_sent b = wr_out (bio_sock b) \<and> bio_received b @ concat (wr_in (bio_sock b)) = concat (wr_in w)
    \<and> (bio_recv S b n = Some (r, b') \<or> bio_recv_exact S b n = Some (r, b') \<or> bio_sendall S b d = Some (r', b') \<or> bio_shutdown S b = Some b'
       \<longrightarrow> bio_sent b' = bio_sent b \<and> bio_received b' = bio_received b)"
proof -
  let ?ins = "concat (wr_in w)"
  obtain b1 where b1: "keeps ?ins (bio_new c (w\<lparr>wr_out := []\<rparr>)) b1" "b = b1\<lparr>bio_recording := False\<rparr>"
    using handshake_keeps [OF assms, of ?ins] by auto
  then have "records ?ins b1" using records_new [of w c] by (simp add: keeps_def)
  moreover have "bio_sent b' = bio_sent b \<and> bio_received b' = bio_received b" if "keeps ?ins b b'"
    using that b1(2) by (simp add: keeps_def)
  ultimately show ?thesis
    using b1(2) recv_keeps [of S b n _ ?ins] recv_exact_keeps [of S b n "[]" _ ?ins] sendall_keeps [of S b d _ ?ins]
      shutdown_keeps [of S b _ ?ins]
    by (auto simp: records_def bio_recv_exact_def)
qed

definition sample_ops :: "nat ssl_ops" where
  "sample_ops = \<lparr>ssl_bio_read = (\<lambda>c n. if c = 0 then (WantRead, c) else (Done [of_nat c], c - 1)),
     ssl_bio_write = (\<lambda>c d. (Inr (), c)),
     ssl_do_handshake = (\<lambda>c. (Done (), c)), ssl_recv = (\<lambda>c n. (Done [], c)), ssl_sendall = (\<lambda>c d. (Inr (), c + 1)),
     ssl_shutdown = (\<lambda>c. (Inr (), c))\<rparr>"

lemma sample_drains: "drains sample_ops id"
  by (auto simp: drains_def sample_ops_def split: if_splits)

lemma sample_handshake:
  "bio_handshake sample_ops (bio_new 1 (w\<lparr>wr_out := []\<rparr>)) = Some (Inr (),
     \<lparr>bio_conn = 0, bio_sock = w\<lparr>wr_out := [1]\<rparr>, bio_sent = [1], bio_received = [], bio_recording = False\<rparr>)"
  if broken: "\<not> wr_broken w"
proof -
  have f: "bio_flush sample_ops b = Some (Inr (), b)" if "bio_conn b = 0" for b
    using that by (subst bio_flush.simps) (simp add: sample_ops_def)
  have "bio_flush sample_ops (bio_new 1 (w\<lparr>wr_out := []\<rparr>)) = Some (Inr (),
     \<lparr>bio_conn = 0, bio_sock = w\<lparr>wr_out := [1]\<rparr>, bio_sent = [1], bio_received = [], bio_recording = True\<rparr>)"
    using broken f by (subst bio_flush.simps) (simp add: sample_ops_def bio_new_def sock_sendall_def)
  then show ?thesis by (subst bio_handshake.simps) (simp add: sample_ops_def bio_new_def)
qed

theorem handshake_is_recorded_witness:
  "\<exists>b b' r. bio_handshake sample_ops (bio_new 1 \<lparr>wr_in = [ [5] ], wr_out = [], wr_broken = False\<rparr>) = Some (Inr (), b)
    \<and> bio_sent b = wr_out (bio_sock b) \<and> bio_recv sample_ops b 4 = Some (r, b') \<and> bio_sent b' = bio_sent b"
proof -
  let ?w = "\<lparr>wr_in = [ [5] ], wr_out = [], wr_broken = False\<rparr>"
  obtain b where b: "bio_handshake sample_ops (bio_new 1 (?w\<lparr>wr_out := []\<rparr>)) = Some (Inr (), b)"
    using sample_handshake [of ?w] by simp
  obtain r b' where "bio_recv sample_ops b 4 = Some (r, b')" using recv_returns [OF sample_drains] by force
  with handshake_is_recorded [OF b, of 4 r b'] b show ?thesis by auto
qed

text \<open>
  C36. No loop of the connection hangs: if every successful \<open>bio_read\<close> takes something out of the
  library's buffer, and the peer's input ends, then \<open>do_handshake\<close>, \<open>recv\<close>, \<open>_recv_exact\<close> and
  \<open>sendall\<close> all return, with a result or an exception.
\<close>

theorem connection_returns:
  assumes "drains S pending"
  shows "(\<exists>y. bio_handshake S b = Some y) \<and> (\<exists>y. bio_recv S b n = Some y)
    \<and> (\<exists>y. bio_recv_exact S b n = Some y) \<and> (\<exists>y. bio_sendall S b d = Some y)"
proof -
  have "\<exists>y. bio_sendall S b d = Some y"
  proof (cases "ssl_sendall S (bio_conn b) d")
    case (Pair r c)
    then show ?thesis using flush_returns [OF assms, of "b\<lparr>bio_conn := c\<rparr>"] by (cases r) (auto simp: bio_sendall_def)
  qed
  then show ?thesis
    using handshake_returns [OF assms] recv_returns [OF assms] recv_exact_returns [OF assms] by (simp add: bio_recv_exact_def)
qed

theorem connection_returns_witness:
  "\<exists>y. bio_recv_exact sample_ops (bio_new 3 \<lparr>wr_in = [], wr_out = [], wr_broken = False\<rparr>) 10 = Some y"
  using connection_returns [OF sample_drains] by blast

section \<open>After a HelloRetryRequest\<close>

text \<open>
  C37. Over a captured handshake with a HelloRetryRequest whose Finished messages were made over reading \<open>i\<close>,
  the check returns, and says ``verifies'' of both under reading \<open>i\<close> and of neither under another; so
  \<open>only_c\<close> holds exactly when that was reading (c). Otherwise the hash or HMAC collides on the messages of two named readings.
\<close>

theorem finished_check_tells_the_reading:
  assumes "aead_law A S" "aead_key_length suite = Some klen" "suite_hash suite = Inr H"
    and "secrets ''SERVER_HANDSHAKE_TRAFFIC_SECRET'' = Some sk" "secrets ''CLIENT_HANDSHAKE_TRAFFIC_SECRET'' = Some ck"
    and "flight_items_ok sitems scs sms" "sealed_stream S suite H klen sk v sitems srest = Inr s2c"
    and "flight_items_ok citems ccs cms" "sealed_stream S suite H klen ck v' citems crest = Inr c2s"
    and "hello_messages 0x01 (hs_bytes ccs) = [ch1, ch2]" "retry_requests (hs_bytes scs) = [hrr]" "server_hellos (hs_bytes scs) = [sh]"
    and "ch1 \<noteq> ch2" "i < 4" "u = retry_transcripts H ch1 hrr ch2 sh ! i"
    and "finished_value sk (u @ concat (butlast (hs_bytes sms))) H = Inr (drop 4 (last (hs_bytes sms)))"
    and "finished_value ck (u @ concat (hs_bytes sms) @ concat (butlast (hs_bytes cms))) H = Inr (drop 4 (last (hs_bytes cms)))"
  shows "\<exists>r. finished_check A c2s s2c suite secrets = Inr r \<and> map fst r = check_names \<and>
    ((map snd r = map (\<lambda>j. (j = i, j = i)) [0..<4] \<and> (only_c r \<longleftrightarrow> i = 2)) \<or>
     (\<exists>t\<in>set (retry_transcripts H ch1 hrr ch2 sh). t \<noteq> u \<and> finished_confused H sk ck (hs_bytes sms) (hs_bytes cms) t u))"
  by (rule finished_check_reading [OF assms])

theorem finished_check_tells_the_reading_witness:
  "\<exists>s2c c2s r. finished_check plain_open c2s s2c ''TLS_AES_128_GCM_SHA256'' sample_secrets = Inr r \<and> map fst r = check_names \<and>
    ((map snd r = [(False, False), (False, False), (True, True), (False, False)] \<and> only_c r) \<or>
     (\<exists>t\<in>set (retry_transcripts SHA256 ch_one hello_retry ch_two hello_server). t \<noteq> sample_reading \<and>
        finished_confused SHA256 (zeros 32) (zeros 31) (hs_bytes server_ms) (hs_bytes client_ms) t sample_reading))"
proof -
  have k: "aead_key_length ''TLS_AES_128_GCM_SHA256'' = Some 16" "suite_hash ''TLS_AES_128_GCM_SHA256'' = Inr SHA256"
    by (simp_all add: aead_key_length_def suite_hash_def ends_with_def)
  have c: "sample_secrets ''SERVER_HANDSHAKE_TRAFFIC_SECRET'' = Some (zeros 32)" "sample_secrets ''CLIENT_HANDSHAKE_TRAFFIC_SECRET'' = Some (zeros 31)"
    by (simp_all add: sample_secrets_def)
  have h: "hello_messages 0x01 (hs_bytes [(0x01, [1]), (0x01, [2])]) = [ch_one, ch_two]"
      "retry_requests (hs_bytes [(0x02, [3, 3] @ HRR_RANDOM), (0x02, [3, 3] @ zeros 32)]) = [hello_retry]"
      "server_hellos (hs_bytes [(0x02, [3, 3] @ HRR_RANDOM), (0x02, [3, 3] @ zeros 32)]) = [hello_server]"
    using sample_hellos(1-3) by (simp_all add: ch_one_def ch_two_def hello_retry_def hello_server_def)
  obtain s2c c2s where s: "sealed_stream plain_seal ''TLS_AES_128_GCM_SHA256'' SHA256 16 (zeros 32) (3, 3) server_items [0xff] = Inr s2c"
      "sealed_stream plain_seal ''TLS_AES_128_GCM_SHA256'' SHA256 16 (zeros 31) (3, 3) client_items [] = Inr c2s"
    using sample_streams by metis
  have m: "map (\<lambda>j. (j = 2, j = 2)) [0..<4] = [(False, False), (False, False), (True, True), (False, False)]"
    by (simp add: upt_rec)
  show ?thesis
    using finished_check_tells_the_reading [OF plain_law k c sample_flights(1) s(1) sample_flights(2) s(2) h sample_hellos(4) _ sample_reading_def sample_finished]
    unfolding m by (intro exI [of _ s2c] exI [of _ c2s]) simp
qed

section \<open>One report, two signatures\<close>

text \<open>
  C38. A SEV-SNP report whose signature is replaced by its conjugate \<open>(r, n - s)\<close> has other bytes and the same
  body, carries \<open>n - s\<close>, and, where ECDSA accepts both signatures or neither, the SEV-SNP verifier gives the
  same verdict, anchor and cache on it, whatever it is configured with, is told to expect or is given beside the
  report; and a mandate that uses the verifier gives the same answer and reaches the same state.
\<close>

theorem flipped_report_is_the_same_evidence:
  assumes "length b = 1184" "rep_rs b = (r, s)" "0 < s" "s < N384"
    and "\<And>der. x_verify_rs X der r (N384 - s) (take SIG b) = Inr () \<longleftrightarrow> x_verify_rs X der r s (take SIG b) = Inr ()"
  shows "\<exists>fl. with_s b (N384 - s) = Inr fl \<and> fl \<noteq> b \<and> take SIG fl = take SIG b \<and> rep_rs fl = (r, N384 - s) \<and>
    (\<forall>h pol cache extra rd. sevsnp_verifier X h pol cache (report_evidence fl extra) rd
      = sevsnp_verifier X h pol cache (report_evidence b extra) rd) \<and>
    (\<forall>h pol cache extra m i tik sc ex msg head bun.
      verify_report (cfg m) = (\<lambda>ev rd. fst (sevsnp_verifier X h pol cache ev rd)) \<longrightarrow>
      present i m tik sc ex (msg\<lparr>msg_evidence := report_evidence fl extra\<rparr>) head bun
        = present i m tik sc ex (msg\<lparr>msg_evidence := report_evidence b extra\<rparr>) head bun)"
proof -
  have sym: "ecdsa_symmetric X b" using assms(2,5) by (simp add: ecdsa_symmetric_def)
  from flipped [OF assms(1-4)] obtain fl where f: "with_s b (N384 - s) = Inr fl" "take SIG fl = take SIG b"
    "rep_rs fl = (r, N384 - s)" "fl \<noteq> b" by metis
  have v: "sevsnp_verifier X h pol cache (report_evidence fl extra) rd = sevsnp_verifier X h pol cache (report_evidence b extra) rd"
    for h pol cache extra rd using flipped_verifies [OF assms(1-4) sym f(1)] .
  have "present i m tik sc ex (msg\<lparr>msg_evidence := report_evidence fl extra\<rparr>) head bun
      = present i m tik sc ex (msg\<lparr>msg_evidence := report_evidence b extra\<rparr>) head bun"
    if "verify_report (cfg m) = (\<lambda>ev rd. fst (sevsnp_verifier X h pol cache ev rd))" for h pol cache extra m i tik sc ex msg head bun
    by (rule present_same_evidence) (simp add: that v)
  with f v show ?thesis by blast
qed

lemma zero_bytes_value: "from_le (replicate n 0) = 0"
  by (induction n) simp_all

text \<open>A signature scheme that accepts one pair and its conjugate, and a report that carries the pair.\<close>

definition one_pair :: x509_lib where
  "one_pair = \<lparr>x_pem_to_der = Inr, x_load_der = (\<lambda>_. Inr ()),
     x_verify_rs = (\<lambda>_ r s _. if r = 5 \<and> (s = 7 \<or> s = N384 - 7) then Inr () else Inl (LibError ''InvalidSignature'')),
     x_openssl_pem = Inr, x_verify_chain = (\<lambda>_ _ _. Inr ())\<rparr>"

definition signed_report :: bytes where
  "signed_report = zeros SIG @ [5] @ zeros 71 @ [7] @ zeros 439"

theorem flipped_report_is_the_same_evidence_witness:
  "\<exists>fl. with_s signed_report (N384 - 7) = Inr fl \<and> fl \<noteq> signed_report \<and> take SIG fl = take SIG signed_report \<and>
    (\<forall>h pol cache extra rd. sevsnp_verifier one_pair h pol cache (report_evidence fl extra) rd
      = sevsnp_verifier one_pair h pol cache (report_evidence signed_report extra) rd)"
proof -
  have b: "length signed_report = 1184" "rep_rs signed_report = (5, 7)"
    by (simp_all add: signed_report_def SIG_def len_simps rep_rs_def slice_def zeros_def zero_bytes_value)
  show ?thesis
    using flipped_report_is_the_same_evidence [OF b, of one_pair] by (simp add: one_pair_def N384_def) blast
qed

section \<open>The serial console\<close>

text \<open>
  C39. Whatever a console holds after an intact first line, a damaged transfer is not read as another value:
  \<open>reassemble\<close> gives nothing, or the value the probe dumped, or it raises the \<open>KeyError\<close> of a chunk that is missing while
  a chunk whose number is out of range stands in its place. Otherwise the chunks and the length on this very console
  spell a second payload with the SHA-256 digest of the one that was sent, and its value is what \<open>reassemble\<close> gives.
\<close>

theorem damaged_console:
  assumes "word_ok name" "word_ok place" "wf_json out" "no_tag n0" and "t = n0 @ first_line name place out @ rest"
    and "q = encode (dumps default_seps out)" and "n = chunk_count (hex q)"
  shows "reassemble t = Inr None \<or> reassemble t = Inr (Some (sort_json out))
    \<or> (\<exists>i j. reassemble t = Inl (KeyError (dec_int (int i))) \<and> i < n \<and> int i \<notin> chunk_numbers t \<and> j \<in> chunk_numbers t \<and> int n \<le> j)
    \<or> (\<exists>p. console_payload t n p \<and> p \<noteq> q \<and> sha256 p = sha256 q \<and> reassemble t = py_bind (loads_bytes p) (\<lambda>j. Inr (Some j)))"
  by (rule reassemble_damaged [OF assms])

theorem damaged_console_witness:
  "reassemble renumbered = Inl (KeyError ''0'') \<and>
    (\<exists>i j. i < 1 \<and> int i \<notin> chunk_numbers renumbered \<and> j \<in> chunk_numbers renumbered \<and> 1 \<le> j)"
proof -
  have "word_ok ''i-1''" "word_ok ''z''" "no_tag ''boot ''" by code_simp+
  with renumbered_raises show ?thesis
    using damaged_console [of "''i-1''" "''z''" "JObj []" "''boot ''", OF _ _ _ _ renumbered_def refl refl] by auto
qed

section \<open>The anchor run\<close>

text \<open>
  C40. Exit code 0 of the AWS run is earned, whatever the machines printed: the reports of the first two machines to
  report parse, name no chip and carry different \<open>REPORT_ID\<close>s; the mandate was asked within the 300 seconds of its
  nonce; and the verifier accepted the first machine's report for the nonce and the CSR, and its step for the link of
  this run's exporter, as Evidence of one instance.
\<close>

theorem anchor_exit_0_is_earned:
  assumes "aw_main W keep start = Some (Inr 0, fin)"
  shows "t_check (aw_ins W 0) < aw_start W + 300 \<and> (\<exists>i rA j rB rest fA fB leaf.
    poll reassemble (aw_clock W) (aw_console W) (start + 900) (aw_ids W) 0 [] = Some (Inr ((i, rA) # (j, rB) # rest)) \<and>
    report_fields rA = Inr fA \<and> report_fields rB = Inr fB \<and> snp_chip_id_zero fA \<and> snp_chip_id_zero fB \<and>
    snp_report_id fA \<noteq> snp_report_id fB \<and> result_leaf (aw_x509 W) (aw_pem W) rA = Inr leaf \<and> owner_proved W rA leaf)"
  using aw_main_sound [OF assms] by blast

theorem anchor_exit_0_is_earned_witness:
  "\<exists>i rA j rB rest fA fB leaf.
    poll reassemble (aw_clock running_world) (aw_console running_world) (0 + 900) (aw_ids running_world) 0 []
      = Some (Inr ((i, rA) # (j, rB) # rest)) \<and>
    report_fields rA = Inr fA \<and> report_fields rB = Inr fB \<and> snp_chip_id_zero fA \<and> snp_chip_id_zero fB \<and>
    snp_report_id fA \<noteq> snp_report_id fB \<and> result_leaf (aw_x509 running_world) (aw_pem running_world) rA = Inr leaf \<and>
    owner_proved running_world rA leaf"
  using anchor_exit_0_is_earned [OF sample_run [of True]] by blast

section \<open>The runs against live guests\<close>

text \<open>
  C25. The transfer run over two guests that hold the same key on two instances ends with exit code 0 and every field of
  its verdict true: A enrols, B is refused before the grant, the owner's grant moves the identity, B is accepted and A
  refused after it, and the grant is refused when it is used again. Here each connection returns what its guest serves,
  the verifier takes each guest's reports for its instance, and the grant is used while it and the sighting live.
\<close>

theorem transfer_run_exits_0:
  assumes "sig_correct (hw_crypto W)"
    and "enrols_as W 0 (T 0) ipA P a" "presents_as W (T 3) ipA (pb_tik_pub P) Va 1 None a"
    and "presents_as W (T 1) ipB (pb_tik_pub P) Vb 1 None b" "presents_as W (T 2) ipB (pb_tik_pub P) Vc 1 None b"
    and "anchor_instance b \<noteq> anchor_instance a"
    and "t_check (hw_ins W 0) < hw_now W 0 + 300" "in_time W (hw_ins W 2) (t_witness (hw_ins W 1))"
  shows "\<exists>m. transfer_main W ipA ipB T = Some (Inr (0, Some (transfer_verdict a b m)), m)"
  by (rule transfer_main_exits_0 [OF assms])

theorem transfer_run_exits_0_witness:
  "\<exists>m. transfer_main sample_hw ''A'' ''B'' transfer_conns
     = Some (Inr (0, Some (transfer_verdict (rid_anchor (rid_of ''a'')) (rid_anchor (rid_of ''b'')) m)), m)"
proof -
  have p: "presents_as sample_hw (conn_to (visit_reply (snp_visit g None) 1 None)) ip [2] (snp_visit g None) 1 None (rid_anchor (rid_of g))"
    for g ip using snp_presents [of 1 None g ip] by simp
  have t: "in_time sample_hw (hw_ins sample_hw 2) (t_witness (hw_ins sample_hw 1))" "t_check (hw_ins sample_hw 0) < hw_now sample_hw 0 + 300"
    by (simp_all add: in_time_def sample_inputs_def) (simp_all add: sample_hw_def int_of_time_def)
  show ?thesis
    by (rule transfer_run_exits_0 [where P = "snp_guest ''a''" and Vb = "snp_visit ''b'' None" and Vc = "snp_visit ''b'' None"
          and Va = "snp_visit ''a'' None"])
      (use snp_enrols p t rids_differ in \<open>simp_all add: transfer_conns_def sample_sig_correct\<close>)
qed

section \<open>A mandate without enrolment\<close>

text \<open>
  C26. The client run without enrolment ends with exit code 0 over two guests that hold one key on two instances: the
  mandate accepts the three steps of the guest it sees first, refuses the first step of the second, and still serves the
  first one on a new session; its results hold exactly these verdicts, in this order.
\<close>

theorem client_run_keeps_incumbent:
  assumes "visits W (T 0) ipA tik V 3 a" "visits W (T 2) ipA tik V' 1 a" "visits W (T 1) ipB tik U 3 b"
    and "anchor_instance b \<noteq> anchor_instance a" "session_key (vs_sctx V') \<noteq> session_key (vs_sctx V)"
  shows "\<exists>why ct m. client_main W ipA ipB T = Some (Inr (0, Some (JObj [(''impostor_rejected'', JBool True), (''victim_still_serving'', JBool True),
      (''contention_recorded'', JObj ct), (''results'', JList (map (cm_result ''A'') (accepted_rows V 3)
        @ cm_result ''B'' (visit_item U 0, False, why) # map (cm_result ''A-after'') (accepted_rows V' 1))), (''log'', log_json m)])), m)"
  by (rule client_main_exits_0 [OF assms])

theorem client_run_keeps_incumbent_witness:
  "\<exists>why ct m. client_main sample_hw ''A'' ''B'' client_conns
    = Some (Inr (0, Some (JObj [(''impostor_rejected'', JBool True), (''victim_still_serving'', JBool True),
      (''contention_recorded'', JObj ct), (''results'', JList (map (cm_result ''A'') (accepted_rows (snp_visit_at [] [9] ''a'' None) 3)
        @ cm_result ''B'' (visit_item (snp_visit_at [5] [9] ''b'' None) 0, False, why)
        # map (cm_result ''A-after'') (accepted_rows (snp_visit_at [97, 98, 99] [9] ''a'' None) 1))), (''log'', log_json m)])), m)"
  by (rule client_run_keeps_incumbent [OF client_visits(1,3,2) rids_differ]) (use session_keys_differ in simp)

section \<open>Types along every run\<close>

text \<open>
  C15. From an empty store, in memory or on files, every state that any sequence of the mandate's operations reaches is
  well typed: the instances, places and authority of each record read back as bytes. So the views \<open>enrolled\<close>,
  \<open>identity\<close> and \<open>contention\<close> return, a revocation is recorded, and \<open>present\<close> gives a verdict and not an exception on
  every message whose link is hexadecimal and whose counter has 64 bits, when the verifier it calls returns and the file
  system lets the puts succeed.
\<close>

theorem reachable_mandate_is_typed:
  assumes "reach (mandate_new c (MemoryStore [])) m \<or> reach (mandate_new c (FileStore p [])) m"
  shows "(\<exists>e. enrolled m = Inr e) \<and> (\<exists>v. identity m = Inr v) \<and> (\<exists>ct. mandate_contention m = Inr ct)
    \<and> (\<exists>r. mandate_rec m (hex tik) = Inr r \<and> rec_typed r) \<and> (\<exists>m'. revoke i m tik why = (Inr (True, ''identity revoked: '' @ why), m'))
    \<and> (fromhex (msg_post_link msg) = Inr pl \<longrightarrow> verify_report (cfg m) (msg_evidence msg) (report_data_for pl head) = Inr v
        \<longrightarrow> length sc < 256 \<longrightarrow> 0 \<le> msg_counter msg \<longrightarrow> msg_counter msg < 2 ^ 64
        \<longrightarrow> (\<exists>acc w m'. present i m tik sc ex msg head None = (Inr (acc, w), m')))"
proof -
  have t: "well_typed m" using assms reach_well_typed well_typed_new by blast
  obtain r where "mandate_rec m (hex tik) = Inr r" "rec_typed r" using t by (rule well_typedE)
  with returns_views [OF t] returns_revoke [OF t] returns_present [OF t] show ?thesis by blast
qed

theorem reachable_mandate_is_typed_witness:
  "\<exists>m. mstep (mandate_new sample_cfg (FileStore '''' [])) m \<and> (\<exists>e. enrolled m = Inr e)
    \<and> (\<exists>acc w m'. present sample_inputs m [2] [5] [9] \<lparr>msg_counter = 0, msg_intra_ok_base = True, msg_post_link = hex [1],
      msg_evidence = mock_report sample_crypto sample_tee [] (report_data_for [1] None), msg_head = None\<rparr> None None = (Inr (acc, w), m'))"
proof -
  let ?m = "mandate_new sample_cfg (FileStore '''' [])"
  let ?msg = "\<lparr>msg_counter = 0, msg_intra_ok_base = True, msg_post_link = hex [1],
    msg_evidence = mock_report sample_crypto sample_tee [] (report_data_for [1] None), msg_head = None\<rparr>"
  obtain m' where r: "revoke sample_inputs ?m [7] ''lost'' = (Inr (True, ''identity revoked: '' @ ''lost''), m')"
    using returns_revoke [OF well_typed_new(2)] by blast
  have s: "mstep ?m m'" by (rule mstep.revoke [OF r])
  have c: "cfg m' = sample_cfg" using mstep_cfg [OF s] by (simp add: mandate_new_def emit_event_def)
  have v: "verify_report (cfg m') (msg_evidence ?msg) (report_data_for [1] None) = Inr (True, Some sample_anchor)"
    unfolding c by (simp add: sample_verifies)
  have f: "fromhex (msg_post_link ?msg) = Inr [1]" by simp
  have "reach (mandate_new sample_cfg (MemoryStore [])) m' \<or> reach ?m m'" using reach_step [OF reach_refl s] by blast
  note t = reachable_mandate_is_typed [OF this, of "[2]" sample_inputs "''lost''" ?msg "[1]" None _ "[5]" "[9]"]
  have "\<exists>acc w m''. present sample_inputs m' [2] [5] [9] ?msg None None = (Inr (acc, w), m'')" using t f v by simp
  with s t show ?thesis by blast
qed

section \<open>The local scenarios\<close>

text \<open>
  C27. The local run ends and prints the verdicts of its eleven scenarios: three steps of one connection and a reconnect
  accepted (1, 2); a connection accepted after another was opened beside it (3); a relayed step refused (4); a thief with the
  key and the chain state refused between two accepted steps of the victim (5); a replay refused (6); on two TEEs with an
  all-zero chip, which have instance identifiers nevertheless, the enrolment accepted, the other machine refused, and
  accepted by a mandate without enrolment (7); the impostor's first message refused, the owner's accepted, the impostor's
  enrolment refused (8, 9); a recovery by grant, after which the old machine and the used grant are refused (10); a step
  over two mandates' heads accepted by both, and the mandate that rewrites its log found out (11). The exceptions are a
  collision of the two links of scenario 4, and one of SHA-256 on two log entries of scenario 11: the enrolment of the
  mandate in this run and the entry it is replaced with.
\<close>

theorem local_run_verdicts:
  assumes "fair_local W Ds S"
  shows "(\<exists>v lg. local_main W Ds S = Inr (v, lg) \<and> map fst v = concat (map snd local_verdicts))
    \<or> (let l = link_at (fst (S 4)) (wd_tik W) (snd (S 4)) 0 in link_collision (snd (S 4), l, 1) (dr_e2 (Ds 4), l, 1))
    \<or> history_collision (wd_tik W) (local_entry W (Ds 11)) (dr_now (Ds 11) 1)"
  by (rule local_main_says [OF assms])

theorem local_run_verdicts_witness:
  "(\<exists>v lg. local_main sample_world local_draws local_sess = Inr (v, lg) \<and> map fst v = concat (map snd local_verdicts))
    \<or> (let l = link_at [] [2] [9] 0 in link_collision ([9], l, 1) ([10], l, 1))
    \<or> history_collision [2] (local_entry sample_world (local_draws 11)) 10"
proof -
  have k: "fst (local_sess 4) = []" "snd (local_sess 4) = [9]" by (simp_all add: local_sess_def)
  show ?thesis using local_run_verdicts [OF local_is_fair, unfolded k] by simp
qed

section \<open>Which claim tells two machines apart\<close>

text \<open>
  C28. The run over two TDs whose consoles hold what their probes printed, chunks lost or not, until both were complete
  before the deadline, ends with exit code 0 and the comparison of the two TDREPORTs. It names no candidate for an instance
  anchor exactly when the reports agree on the \<open>TEE_TCB_INFO\<close> and on the whole of \<open>TDINFO\<close>, and no difference at all exactly
  when they agree everywhere but on reserved bytes; and \<open>granularity.py\<close>, with a table of its own, finds the same
  differences in the saved results, in either order, when the reserved bytes 4 to 15 agree.
\<close>

theorem tdx_run_compares_reports:
  assumes "\<And>k n. n \<in> {''tdx-a'', ''tdx-b''} \<Longrightarrow> console_of (tg_host (M n)) ''tdx'' (td_out (M n)) (con k n)"
    and "\<And>n. n \<in> {''tdx-a'', ''tdx-b''} \<Longrightarrow> \<exists>k \<le> N. complete (tg_host (M n)) ''tdx'' (td_out (M n)) (con k n)"
    and "\<And>k. k \<le> N \<Longrightarrow> clock k < start + 900"
    and rep: "td_rep (M ''tdx-a'') = a" "td_rep (M ''tdx-b'') = b" "length a = 1024" "length b = 1024"
  shows "\<exists>v. tx_main clock con keep start = Some (Inr 0, Some v, \<not> keep)
    \<and> (tv_candidates v = [] \<longleftrightarrow> agree_on a b 256 495 \<and> agree_on a b 512 1024)
    \<and> (tv_differ v = [] \<longleftrightarrow> agree_on a b 0 4 \<and> agree_on a b 16 192 \<and> agree_on a b 224 495 \<and> agree_on a b 512 1024)
    \<and> (\<forall>ns \<in> {[''tdx-a'', ''tdx-b''], [''tdx-b'', ''tdx-a'']}. agree_on a b 4 16 \<longrightarrow>
        gr_tdx [Inr (JObj (td_results M ns))] = Inr (Some (tv_differ v)))"
proof -
  have "length a = length b" using rep by simp
  from no_candidates_iff [OF this] no_difference_iff [OF this] gr_tdx_run [of _ M "[]"] show ?thesis
    by (intro exI [of _ "compare_reports a b"]) (use tx_main_verdict [OF assms(1-3)] rep in auto)
qed

theorem tdx_run_compares_reports_witness:
  "tx_main (\<lambda>k. 0) td_console False 0 = Some (Inr 0, Some \<lparr>tv_differ = [''TDINFO.MROWNER''], tv_candidates = [''TDINFO.MROWNER''],
      tv_same = filter (\<lambda>n. n \<noteq> ''TDINFO.MROWNER'') (map fst FIELDS)\<rparr>, \<not> False)
   \<and> gr_tdx [Inr (JObj (td_results sample_td [''tdx-a'', ''tdx-b'']))] = Inr (Some [''TDINFO.MROWNER''])"
proof -
  have v: "tx_main (\<lambda>k. 0) td_console False 0 = Some (Inr 0, Some (compare_reports (sample_tdreport 1) (sample_tdreport 2)), \<not> False)"
    using tx_main_verdict [where M = sample_td and con = td_console and clock = "\<lambda>k. 0" and start = 0 and N = 0] td_console_ok sample_td_reports
    by auto
  have a: "agree_on (sample_tdreport 1) (sample_tdreport 2) 4 16" by (simp add: agree_on_def slice_def sample_tdreport_def len_simps)
  obtain w where w: "tx_main (\<lambda>k. 0) td_console False 0 = Some (Inr 0, Some w, \<not> False)"
    "gr_tdx [Inr (JObj (td_results sample_td [''tdx-a'', ''tdx-b'']))] = Inr (Some (tv_differ w))"
    using tdx_run_compares_reports [where M = sample_td and con = td_console and clock = "\<lambda>k. 0" and start = 0 and N = 0 and keep = False,
        OF td_console_ok(1) _ _ sample_td_reports(1,2) sample_td_reports(3) sample_td_reports(3)] td_console_ok(2) a by auto
  with v show ?thesis by (simp add: sample_td_differ)
qed

end
